(* ===== verification/Prelude.thy ===== *)
theory Prelude
  imports Main "HOL-Library.Word"
begin

unbundle bit_operations_syntax

text \<open>
  Shared vocabulary of the development: the fixed-width integers of the C sources as words,
  byte strings as lists, errno values as a datatype, the collections of rewrite rules the
  component theories fill, and the generic facts on lists, words and serial numbers that
  they use.

  Conventions. \<open>uint8_t\<close>, \<open>uint16_t\<close>, \<open>uint32_t\<close> and \<open>uint64_t\<close> are words of that width, so
  that sums and differences wrap as in C; the casts \<open>(int16_t)(a - b)\<close> and
  \<open>(int32_t)(a - b)\<close> are \<open>sint (a - b)\<close>. Millisecond times of type \<open>int64_t\<close> are
  integers. An array of the sources is a list whose length is part of the component's
  well-formedness invariant. Functions that are not part of the repository (the Zephyr
  kernel, the NVS file system, CRC and byte-order helpers) are arguments of the definitions
  that call them.
\<close>

type_synonym u8 = "8 word"
type_synonym u16 = "16 word"
type_synonym u32 = "32 word"
type_synonym u64 = "64 word"
type_synonym bytes = "8 word list"

datatype errno = EIO | ENOENT | EINVAL | EBUSY | ENOTSUP | ENOTCONN | ECANCELED | ENOSPC | EDEADLK
  | EAGAIN | EALREADY | ENODEV | ERANGE | ETIMEDOUT | EMSGSIZE | EOTHER nat

named_theorems wire_defs "layout of the records on the wire and in flash"
named_theorems frame_simps "what an operation leaves unchanged"

section \<open>Bits of a mask\<close>

text \<open>\<open>BIT(i)\<close> of the Zephyr headers, and the test \<open>mask & BIT(i)\<close>.\<close>

definition mask_has :: "'a::len word \<Rightarrow> nat \<Rightarrow> bool" where
  "mask_has m i \<longleftrightarrow> bit m i"

lemma mask_has_zero [simp]: "\<not> mask_has 0 i"
  by (simp add: mask_has_def)

lemma mask_has_set_bit [simp]:
  "mask_has (set_bit i m) j \<longleftrightarrow> (i = j \<and> j < LENGTH('a)) \<or> mask_has (m :: 'a::len word) j"
  by (auto simp: mask_has_def bit_simps)

lemma mask_has_unset_bit [simp]: "mask_has (unset_bit i m) j \<longleftrightarrow> i \<noteq> j \<and> mask_has m j"
  by (auto simp: mask_has_def bit_simps)

lemma mask_has_or [simp]: "mask_has (a OR b) i \<longleftrightarrow> mask_has a i \<or> mask_has b i"
  by (simp add: mask_has_def bit_simps)

lemma mask_has_and [simp]: "mask_has (a AND b) i \<longleftrightarrow> mask_has a i \<and> mask_has b i"
  by (simp add: mask_has_def bit_simps)

section \<open>Bytes of a word\<close>

text \<open>
  The sources take integers apart with shifts and truncating stores, and put them together
  with shifts and bitwise or.
\<close>

lemma u16_join_split:
  "(ucast (ucast (x :: u16) :: u8) :: u16) OR push_bit 8 (ucast (ucast (drop_bit 8 x) :: u8)) = x"
proof (rule bit_word_eqI)
  fix n assume "n < LENGTH(16)"
  then show "bit ((ucast (ucast x :: u8) :: u16) OR push_bit 8 (ucast (ucast (drop_bit 8 x) :: u8))) n
      \<longleftrightarrow> bit x n"
    by (cases "n < 8") (auto simp: bit_simps)
qed

lemma u16_low_join: "(ucast ((ucast (a :: u8) :: u16) OR push_bit 8 (ucast (b :: u8))) :: u8) = a"
  by (rule bit_word_eqI) (auto simp: bit_simps dest: bit_imp_le_length)

lemma u16_high_join:
  "(ucast (drop_bit 8 (ucast (a :: u8) :: u16) OR drop_bit 8 (push_bit 8 (ucast (b :: u8)))) :: u8) = b"
  by (rule bit_word_eqI) (auto simp: bit_simps dest: bit_imp_le_length)

lemma u32_join_split:
  "(ucast (ucast (x :: u32) :: u16) :: u32) OR push_bit 16 (ucast (ucast (drop_bit 16 x) :: u16)) = x"
proof (rule bit_word_eqI)
  fix n assume "n < LENGTH(32)"
  then show "bit ((ucast (ucast x :: u16) :: u32) OR push_bit 16 (ucast (ucast (drop_bit 16 x) :: u16))) n
      \<longleftrightarrow> bit x n"
    by (cases "n < 16") (auto simp: bit_simps)
qed

lemma u32_low_join: "(ucast ((ucast (a :: u16) :: u32) OR push_bit 16 (ucast (b :: u16))) :: u16) = a"
  by (rule bit_word_eqI) (auto simp: bit_simps dest: bit_imp_le_length)

lemma u32_high_join:
  "(ucast (drop_bit 16 (ucast (a :: u16) :: u32) OR drop_bit 16 (push_bit 16 (ucast (b :: u16)))) :: u16) = b"
  by (rule bit_word_eqI) (auto simp: bit_simps dest: bit_imp_le_length)

text \<open>A loop that joins \<open>k\<close> little endian bytes with shifts: its result, bit by bit.\<close>

lemma bit_join_bytes:
  assumes "n < LENGTH('a::len)"
  shows "bit (fold (\<lambda>j acc. acc OR push_bit (8 * j) (ucast ((bs :: bytes) ! j))) [0..<k] (0 :: 'a word)) n
    \<longleftrightarrow> n < 8 * k \<and> bit (bs ! (n div 8)) (n mod 8)"
proof (induction k)
  case 0
  then show ?case by simp
next
  case (Suc k)
  have byte: "bit (push_bit (8 * k) (ucast (bs ! k) :: 'a word)) n \<longleftrightarrow>
      8 * k \<le> n \<and> n < 8 * Suc k \<and> bit (bs ! (n div 8)) (n mod 8)"
  proof (cases "8 * k \<le> n \<and> n < 8 * Suc k")
    case True
    then have "n div 8 = k" by (simp add: div_nat_eqI)
    then have "n mod 8 = n - 8 * k" by (simp add: minus_mult_div_eq_mod [symmetric])
    with \<open>n div 8 = k\<close> True assms show ?thesis by (auto simp: bit_simps)
  next
    case False
    with assms show ?thesis by (auto simp: bit_simps dest: bit_imp_le_length)
  qed
  show ?case by (simp add: bit_or_iff Suc byte) auto
qed

lemmas byte_joins = u16_join_split u16_low_join u16_high_join u32_join_split u32_low_join u32_high_join

section \<open>Serial numbers\<close>

text \<open>
  Sequence numbers and wrapping clocks are compared through the sign of their difference.
\<close>

lemma sint_diff_swap:
  fixes a b :: "'a::len word"
  assumes "sint (a - b) \<noteq> - (2 ^ (LENGTH('a) - 1))"
  shows "sint (b - a) = - sint (a - b)"
proof -
  let ?d = "a - b"
  have d: "b - a = - ?d" by simp
  have "sint (- ?d) = signed_take_bit (LENGTH('a) - 1) (- sint ?d)"
    by (simp only: sint_word_ariths)
  also have "\<dots> = - sint ?d"
  proof (rule signed_take_bit_int_eq_self)
    show "- (2 ^ (LENGTH('a) - 1)) \<le> - sint ?d"
      using sint_less [of ?d] by simp
    show "- sint ?d < 2 ^ (LENGTH('a) - 1)"
      using sint_greater_eq [of ?d] assms by simp
  qed
  finally show ?thesis by (simp only: d)
qed

lemma sint_pos_diff_antisym:
  fixes a b :: "'a::len word"
  assumes "0 < sint (a - b)"
  shows "\<not> 0 < sint (b - a)"
  using assms sint_diff_swap [of a b] by fastforce

text \<open>Below half of the range the signed difference is the difference of the values.\<close>

lemma sint_eq_uint_small:
  fixes x :: "'a::len word"
  assumes "uint x < 2 ^ (LENGTH('a) - 1)"
  shows "sint x = uint x"
  using assms by (simp add: sint_uint signed_take_bit_int_eq_self order_trans [OF _ uint_nonnegative])

lemma sint_diff_small:
  fixes x y :: "'a::len word"
  assumes "uint x < 2 ^ (LENGTH('a) - 1)" and "uint y < 2 ^ (LENGTH('a) - 1)"
  shows "sint (x - y) = uint x - uint y"
proof -
  have "sint (x - y) = signed_take_bit (LENGTH('a) - 1) (uint x - uint y)"
    using assms by (simp add: sint_word_ariths sint_eq_uint_small)
  also have "\<dots> = uint x - uint y"
    using assms uint_nonnegative [of x] uint_nonnegative [of y]
    by (intro signed_take_bit_int_eq_self) linarith+
  finally show ?thesis .
qed

lemma sint_zero_diff_iff: "sint (a - b :: 'a::len word) = 0 \<longleftrightarrow> a = b"
  by (simp add: signed_eq_0_iff)

section \<open>Lists as arrays\<close>

lemma list_all_update:
  "list_all P xs \<Longrightarrow> P x \<Longrightarrow> list_all P (xs[i := x])"
  by (auto simp: list_all_iff dest: set_update_subset_insert [THEN subsetD])

lemma nth_list_update_if: "xs[i := x] ! j = (if i = j \<and> j < length xs then x else xs ! j)"
  by (cases "i < length xs") (auto simp: nth_list_update list_update_beyond)

lemma list_all_nthD: "list_all P xs \<Longrightarrow> i < length xs \<Longrightarrow> P (xs ! i)"
  by (simp add: list_all_length)

lemma list_all_replicate [simp]: "list_all P (replicate n x) \<longleftrightarrow> n = 0 \<or> P x"
  by (induction n) auto

lemma unat_u8_less_256 [simp]: "unat (x :: u8) < 256"
  using unsigned_less [of x] by simp

lemma unat_ucast_u16_u32 [simp]: "unat (ucast (x :: u16) :: u32) = unat x"
proof -
  have "unat x < 65536" using unsigned_less [of x] by simp
  then show ?thesis by (simp add: unsigned_ucast_eq take_bit_nat_eq_self)
qed

lemma take_four: "take (4 + n) (a # b # c # d # xs) = a # b # c # d # take n xs"
  by (simp add: eval_nat_numeral)

text \<open>Different indices inside a window of \<open>k\<close> fall on different slots of a ring of size \<open>k\<close>.\<close>

lemma mod_window_neq:
  assumes "i < n" and "n < i + (k :: nat)"
  shows "i mod k \<noteq> n mod k"
proof
  assume "i mod k = n mod k"
  then have "k dvd n - i" using assms by (metis less_imp_le mod_eq_dvd_iff_nat)
  then show False using assms by (auto dest: dvd_imp_le)
qed

lemma unat_inc:
  fixes x y :: "'a::len word"
  assumes "x < y"
  shows "unat (x + 1) = Suc (unat x)"
proof -
  have "Suc (unat x) \<le> unat y" using assms by (simp add: word_less_nat_alt)
  also have "\<dots> < 2 ^ LENGTH('a)" by (rule unsigned_less)
  finally show ?thesis by (simp add: unat_word_ariths)
qed

lemma word_less_numeral_unat:
  "(x :: 'a::len word) < numeral n \<Longrightarrow> unat x < unat (numeral n :: 'a word)"
  by (simp add: word_less_nat_alt)

text \<open>A buffer of equally long fields.\<close>

lemma concat_chunk:
  assumes "\<forall>x\<in>set xs. length (f x) = w" and "i < length xs"
  shows "take w (drop (i * w) (concat (map f xs))) = f (xs ! i)"
  using assms
proof (induction xs arbitrary: i)
  case Nil
  then show ?case by simp
next
  case (Cons x xs)
  then show ?case by (cases i) (auto simp: take_append drop_append)
qed

lemma concat_chunks_id:
  "length bs = n * w \<Longrightarrow> concat (map (\<lambda>i. take w (drop (i * w) bs)) [0..<n]) = bs"
proof (induction n arbitrary: bs)
  case 0
  then show ?case by simp
next
  case (Suc n)
  have "[0..<Suc n] = 0 # map Suc [0..<n]" by (simp add: upt_conv_Cons map_Suc_upt del: upt_Suc)
  then have eq: "concat (map (\<lambda>i. take w (drop (i * w) bs)) [0..<Suc n])
      = take w bs @ concat (map (\<lambda>i. take w (drop (i * w) (drop w bs))) [0..<n])"
    by (simp only: list.map map_map comp_def concat.simps drop_drop mult_Suc add.commute
        mult_0 drop_0)
  have "concat (map (\<lambda>i. take w (drop (i * w) (drop w bs))) [0..<n]) = drop w bs"
    using Suc.prems by (intro Suc.IH) simp
  then show ?case by (simp only: eq append_take_drop_id)
qed

text \<open>Updating every index of a list that satisfies a predicate.\<close>

definition update_where :: "(nat \<Rightarrow> bool) \<Rightarrow> ('a \<Rightarrow> 'a) \<Rightarrow> 'a list \<Rightarrow> 'a list" where
  "update_where p f xs = map (\<lambda>(i, x). if p i then f x else x) (enumerate 0 xs)"

lemma length_update_where [simp]: "length (update_where p f xs) = length xs"
  by (simp add: update_where_def)

lemma nth_update_where:
  "i < length xs \<Longrightarrow> update_where p f xs ! i = (if p i then f (xs ! i) else xs ! i)"
  by (simp add: update_where_def nth_enumerate_eq)

text \<open>
  A loop over indices that moves the elements satisfying \<open>P\<close> to the front, in place, with its write
  index: on a prefix of the array it is the filter, and the rest of the array keeps its content.
\<close>

fun compact_loop :: "('a \<Rightarrow> bool) \<Rightarrow> nat list \<Rightarrow> 'a list \<times> nat \<Rightarrow> 'a list \<times> nat" where
  "compact_loop P [] acc = acc"
| "compact_loop P (i # is) (ids, n) =
     compact_loop P is (if P (ids ! i) then (ids[n := ids ! i], Suc n) else (ids, n))"

lemma compact_loop_filter:
  "k \<le> i \<Longrightarrow> i \<le> n \<Longrightarrow> n \<le> length ids \<Longrightarrow>
     compact_loop P [i..<n] (ids, k) =
       (let f = filter P (drop i (take n ids))
        in (take k ids @ f @ drop (k + length f) ids, k + length f))"
proof (induction "n - i" arbitrary: i k ids)
  case 0
  then show ?case by simp
next
  case (Suc d)
  then have i: "i < n" by simp
  then have split: "drop i (take n ids) = ids ! i # drop (Suc i) (take n ids)"
    using Suc.prems by (metis Cons_nth_drop_Suc length_take min.absorb2 nth_take)
  show ?case
  proof (cases "P (ids ! i)")
    case False
    with Suc.hyps(1) [of "Suc i" k ids] Suc.hyps(2) Suc.prems i split show ?thesis
      by (simp add: upt_conv_Cons Let_def)
  next
    case True
    let ?ids = "ids[k := ids ! i]"
    have k: "k < length ids" using Suc.prems i by simp
    have "drop (Suc i) (take n ?ids) = drop (Suc i) (take n ids)"
      using Suc.prems by (simp add: take_update_swap drop_update_cancel)
    moreover have "take (Suc k) ?ids = take k ids @ [ids ! i]" using k by (simp add: take_Suc_conv_app_nth)
    moreover have "drop (Suc k + m) ?ids = drop (Suc k + m) ids" for m by simp
    ultimately show ?thesis
      using Suc.hyps(1) [of "Suc i" "Suc k" ?ids] Suc.hyps(2) Suc.prems i k split True
      by (simp add: upt_conv_Cons Let_def)
  qed
qed

text \<open>The first element of a list that satisfies a predicate, as an index.\<close>

fun find_index :: "('a \<Rightarrow> bool) \<Rightarrow> 'a list \<Rightarrow> nat option" where
  "find_index p [] = None"
| "find_index p (x # xs) = (if p x then Some 0 else map_option Suc (find_index p xs))"

lemma find_index_SomeD:
  "find_index p xs = Some i \<Longrightarrow> i < length xs \<and> p (xs ! i) \<and> (\<forall>j<i. \<not> p (xs ! j))"
proof (induction xs arbitrary: i)
  case Nil
  then show ?case by simp
next
  case (Cons x xs)
  show ?case
  proof (cases "p x")
    case True
    with Cons.prems show ?thesis by simp
  next
    case False
    with Cons.prems obtain k where "find_index p xs = Some k" and i: "i = Suc k" by auto
    then have "k < length xs \<and> p (xs ! k) \<and> (\<forall>j<k. \<not> p (xs ! j))" by (simp add: Cons.IH)
    with False i show ?thesis by (auto simp: nth_Cons split: nat.splits)
  qed
qed

lemma find_index_SomeI:
  "i < length xs \<Longrightarrow> p (xs ! i) \<Longrightarrow> \<forall>j<i. \<not> p (xs ! j) \<Longrightarrow> find_index p xs = Some i"
proof (induction xs arbitrary: i)
  case Nil
  then show ?case by simp
next
  case (Cons x xs)
  show ?case
  proof (cases i)
    case 0
    with Cons.prems show ?thesis by simp
  next
    case (Suc k)
    with Cons.prems have "\<not> p x" and "\<forall>j<k. \<not> p (xs ! j)" by fastforce+
    with Suc Cons.prems Cons.IH [of k] show ?thesis by simp
  qed
qed

lemma find_index_None_iff: "find_index p xs = None \<longleftrightarrow> (\<forall>x\<in>set xs. \<not> p x)"
  by (induction xs) auto

section \<open>Codecs\<close>

text \<open>
  The contract of a wire or flash format: what is accepted for encoding, and that decoding
  is the exact inverse of encoding, in both directions.
\<close>

locale wire_codec =
  fixes encode :: "'a \<Rightarrow> 'b option"
    and decode :: "'b \<Rightarrow> 'a option"
    and valid :: "'a \<Rightarrow> bool"
  assumes encode_defined: "valid a \<Longrightarrow> encode a \<noteq> None"
    and encode_valid: "encode a = Some b \<Longrightarrow> valid a"
    and decode_encode: "encode a = Some b \<Longrightarrow> decode b = Some a"
    and encode_decode: "decode b = Some a \<Longrightarrow> encode a = Some b"
begin

lemma decode_valid: "decode b = Some a \<Longrightarrow> valid a"
  using encode_decode encode_valid by blast

lemma encode_injective: "encode a = Some b \<Longrightarrow> encode a' = Some b \<Longrightarrow> a = a'"
  by (metis decode_encode option.inject)

lemma decode_injective: "decode b = Some a \<Longrightarrow> decode b' = Some a \<Longrightarrow> b = b'"
  by (metis encode_decode option.inject)

lemma decode_iff_encode: "decode b = Some a \<longleftrightarrow> encode a = Some b"
  using decode_encode encode_decode by blast

lemma round_trip: "valid a \<Longrightarrow> \<exists>b. encode a = Some b \<and> decode b = Some a"
  using encode_defined decode_encode by blast

end

section \<open>Replay filters\<close>

text \<open>
  Two components drop repetitions of what they have already accepted. Their contract: after
  a key was accepted, asking again while the record of it is live is refused and changes
  nothing. A burst of copies is then counted once.
\<close>

fun run_accept :: "('s \<Rightarrow> 'k \<Rightarrow> 't \<Rightarrow> bool \<times> 's) \<Rightarrow> 's \<Rightarrow> 'k \<Rightarrow> 't list \<Rightarrow> nat \<times> 's" where
  "run_accept accept s k [] = (0, s)"
| "run_accept accept s k (t # ts) =
     (case accept s k t of (ok, s') \<Rightarrow>
        (case run_accept accept s' k ts of (n, s'') \<Rightarrow> ((if ok then 1 else 0) + n, s'')))"

locale replay_filter =
  fixes accept :: "'s \<Rightarrow> 'k \<Rightarrow> 't \<Rightarrow> bool \<times> 's"
    and live :: "'s \<Rightarrow> 'k \<Rightarrow> 't \<Rightarrow> bool"
  assumes replay_rejected:
    "accept s k t = (True, s') \<Longrightarrow> live s' k t' \<Longrightarrow> accept s' k t' = (False, s')"
begin

lemma rejected_run:
  "accept s0 k t0 = (True, s) \<Longrightarrow> \<forall>t\<in>set ts. live s k t \<Longrightarrow> run_accept accept s k ts = (0, s)"
  by (induction ts) (auto dest: replay_rejected)

lemma burst_counted_once:
  "accept s k t = (True, s') \<Longrightarrow> \<forall>t'\<in>set ts. live s' k t' \<Longrightarrow>
     run_accept accept s k (t # ts) = (1, s')"
  by (simp add: rejected_run)

end

end
