(* ===== verification/AutoChannelPolicy.thy ===== *)
theory AutoChannelPolicy
  imports Prelude
begin

text \<open>
  The channel policy of \<open>connection/auto_channel_policy.c\<close>: the beacon frame receivers
  exchange, the table of foreign receivers heard recently, and the choice of a new home
  channel. The table is a list of \<open>AC_PEERS\<close> records; the loop of \<open>ac_observe\<close> that looks
  for a slot is \<open>ac_find_slot\<close>, the loop of \<open>ac_choose\<close> over the even channels is
  \<open>ac_best\<close>.
\<close>

abbreviation (input) AC_FRAME_SIZE :: nat where "AC_FRAME_SIZE \<equiv> 16"
abbreviation (input) AC_PEERS :: nat where "AC_PEERS \<equiv> 16"
abbreviation (input) AC_EXPIRY_MS :: int where "AC_EXPIRY_MS \<equiv> 120000"

record ac_peer =
  peer_id :: bytes
  peer_channel :: u8
  observations :: u8
  peer_sequence :: u16
  seen_at :: int

record ac_policy =
  identity :: bytes
  peers :: "ac_peer list"
  cooldown :: int

text \<open>A policy in static storage before the first beacon: C zeroes it.\<close>

definition zero_policy :: "bytes \<Rightarrow> ac_policy" where
  "zero_policy idn = \<lparr>identity = idn, peers = replicate AC_PEERS
     \<lparr>peer_id = replicate 6 0, peer_channel = 0, observations = 0, peer_sequence = 0, seen_at = 0\<rparr>,
     cooldown = 0\<rparr>"

definition ac_magic :: bytes where
  "ac_magic = [0x53, 0x41, 0x43, 1]"

definition ac_frame :: "bytes \<Rightarrow> u8 \<Rightarrow> u16 \<Rightarrow> bytes" where
  "ac_frame idn channel sequence =
     ac_magic @ take 6 idn @ [channel, ucast sequence, ucast (drop_bit 8 sequence), 0, 0, 0]"

definition fresh :: "ac_peer \<Rightarrow> int \<Rightarrow> bool" where
  "fresh peer now \<longleftrightarrow>
     observations peer \<noteq> 0 \<and> seen_at peer \<le> now \<and> now - seen_at peer < AC_EXPIRY_MS"

fun ac_find_slot :: "ac_peer list \<Rightarrow> bytes \<Rightarrow> int \<Rightarrow> nat \<Rightarrow> nat option \<Rightarrow> nat option" where
  "ac_find_slot [] key now i slot = slot"
| "ac_find_slot (q # qs) key now i slot =
     (if peer_id q = key then Some i
      else ac_find_slot qs key now (Suc i)
             (if \<not> fresh q now \<and> slot = None then Some i else slot))"

definition frame_id :: "bytes \<Rightarrow> bytes" where
  "frame_id frame = take 6 (drop 4 frame)"

definition ac_reject :: "ac_policy \<Rightarrow> bytes \<Rightarrow> bool" where
  "ac_reject p frame \<longleftrightarrow>
     take 4 frame \<noteq> ac_magic \<or> 100 < frame ! 10 \<or> frame ! 13 \<noteq> 0 \<or> frame ! 14 \<noteq> 0 \<or>
     frame ! 15 \<noteq> 0 \<or> frame_id frame = replicate 6 0 \<or> frame_id frame = identity p"

definition ac_observe :: "ac_policy \<Rightarrow> bytes \<Rightarrow> int \<Rightarrow> bool \<times> ac_policy" where
  "ac_observe p frame now =
     (if ac_reject p frame then (False, p)
      else case ac_find_slot (peers p) (frame_id frame) now 0 None of
        None \<Rightarrow> (False, p)
      | Some i \<Rightarrow>
          (let slot = peers p ! i;
               sequence = (ucast (frame ! 11) :: u16) OR push_bit 8 (ucast (frame ! 12));
               known = (fresh slot now \<and> peer_id slot = frame_id frame)
           in if known \<and> sint (sequence - peer_sequence slot) \<le> 0 then (False, p)
              else
                let same = (known \<and> peer_channel slot = frame ! 10);
                    cnt = (if same then observations slot else 0)
                in (True, p\<lparr>peers := (peers p)[i :=
                      \<lparr>peer_id = frame_id frame, peer_channel = frame ! 10,
                       observations = (if cnt < 3 then cnt + 1 else 3),
                       peer_sequence = sequence, seen_at = now\<rparr>]\<rparr>)))"

definition near_channel :: "u8 \<Rightarrow> u8 \<Rightarrow> bool" where
  "near_channel a b \<longleftrightarrow> (let distance = uint a - uint b in -1 \<le> distance \<and> distance \<le> 1)"

definition ac_occupied :: "ac_policy \<Rightarrow> u8 \<Rightarrow> int \<Rightarrow> bool" where
  "ac_occupied p channel now \<longleftrightarrow>
     list_ex (\<lambda>q. fresh q now \<and> near_channel (peer_channel q) channel) (peers p)"

definition ac_candidate :: "ac_policy \<Rightarrow> nat \<Rightarrow> int list \<Rightarrow> int \<Rightarrow> nat \<Rightarrow> bool" where
  "ac_candidate p home score now ch \<longleftrightarrow>
     \<not> (ch = home \<or> score ! ch < 0 \<or> ac_occupied p (of_nat ch) now \<or> score ! ch \<le> score ! home)"

fun ac_best :: "ac_policy \<Rightarrow> nat \<Rightarrow> int list \<Rightarrow> int \<Rightarrow> nat list \<Rightarrow> nat option \<Rightarrow> nat option" where
  "ac_best p home score now [] best = best"
| "ac_best p home score now (ch # chs) best =
     ac_best p home score now chs
       (if ac_candidate p home score now ch \<and>
           (case best of None \<Rightarrow> True | Some b \<Rightarrow> score ! b < score ! ch)
        then Some ch else best)"

definition auto_destinations :: "nat list" where
  "auto_destinations = map (\<lambda>k. 2 * k) [0..<45]"

definition ac_choose :: "ac_policy \<Rightarrow> u8 \<Rightarrow> int list \<Rightarrow> int \<Rightarrow> nat option" where
  "ac_choose p home score now =
     (if 100 < home \<or> score ! unat home < 0 then None
      else if length (filter (\<lambda>q. fresh q now) (peers p)) = AC_PEERS then None
      else ac_best p (unat home) score now auto_destinations None)"

section \<open>The invariant of the peer table\<close>

definition peer_ok :: "ac_peer \<Rightarrow> bool" where
  "peer_ok q \<longleftrightarrow> length (peer_id q) = 6 \<and> observations q \<le> 3 \<and> peer_channel q \<le> 100"

definition policy_ok :: "ac_policy \<Rightarrow> bool" where
  "policy_ok p \<longleftrightarrow> length (peers p) = AC_PEERS \<and> list_all peer_ok (peers p)"

lemma length_ac_frame [simp]: "length idn = 6 \<Longrightarrow> length (ac_frame idn ch sq) = AC_FRAME_SIZE"
  by (simp add: ac_frame_def ac_magic_def)

lemma length_frame_id [simp]: "length frame = AC_FRAME_SIZE \<Longrightarrow> length (frame_id frame) = 6"
  by (simp add: frame_id_def)

text \<open>
  The search loop in closed form: the entry of that receiver when there is one, otherwise the
  first entry that has expired.
\<close>

lemma ac_find_slot_eq:
  "ac_find_slot qs key now n slot =
     (case find_index (\<lambda>q. peer_id q = key) qs of
        Some k \<Rightarrow> Some (n + k)
      | None \<Rightarrow> (case slot of
            Some s \<Rightarrow> Some s
          | None \<Rightarrow> (case find_index (\<lambda>q. \<not> fresh q now) qs of
                Some k \<Rightarrow> Some (n + k) | None \<Rightarrow> None)))"
  by (induction qs key now n slot rule: ac_find_slot.induct) (auto split: option.splits)

lemma ac_find_slot_bounds:
  assumes "ac_find_slot qs key now 0 None = Some i"
  shows "i < length qs" and "peer_id (qs ! i) = key \<or> \<not> fresh (qs ! i) now"
  using assms by (auto simp: ac_find_slot_eq split: option.splits dest!: find_index_SomeD)

text \<open>After an entry was written, the search finds the same entry again.\<close>

lemma ac_find_slot_again:
  assumes "ac_find_slot qs key now 0 None = Some i" and "peer_id q = key"
  shows "find_index (\<lambda>q. peer_id q = key) (qs[i := q]) = Some i"
proof -
  have i: "i < length qs" using assms(1) by (rule ac_find_slot_bounds)
  have "\<forall>j<i. peer_id (qs ! j) \<noteq> key"
    using assms(1) i
    by (auto simp: ac_find_slot_eq find_index_None_iff split: option.splits dest!: find_index_SomeD)
  then show ?thesis using i assms(2) by (intro find_index_SomeI) auto
qed

lemma ac_observe_cases:
  assumes "ac_observe p frame now = (r, p')"
  obtains (rejected) "\<not> r" "p' = p"
  | (accepted) i q where "r" "\<not> ac_reject p frame"
      "ac_find_slot (peers p) (frame_id frame) now 0 None = Some i"
      "p' = p\<lparr>peers := (peers p)[i := q]\<rparr>" "peer_id q = frame_id frame"
      "peer_channel q = frame ! 10" "0 < observations q" "observations q \<le> 3" "seen_at q = now"
      "peer_sequence q = (ucast (frame ! 11) :: u16) OR push_bit 8 (ucast (frame ! 12))"
proof -
  have obs: "0 < c + 1" "c + 1 \<le> 3" if "c < 3" for c :: u8
    using unat_inc [OF that] that by (auto simp: word_less_nat_alt word_le_nat_alt)
  show thesis
  proof (cases r)
    case False
    with assms have "p' = p" by (auto simp: ac_observe_def Let_def split: if_splits option.splits)
    with False show ?thesis by (rule rejected)
  next
    case True
    with assms obtain i where rej: "\<not> ac_reject p frame"
      and slot: "ac_find_slot (peers p) (frame_id frame) now 0 None = Some i"
      by (auto simp: ac_observe_def split: if_splits option.splits)
    with True assms show ?thesis
      by (auto simp: ac_observe_def Let_def obs split: if_splits intro!: accepted)
  qed
qed

section \<open>What the operations guarantee\<close>

lemma policy_ok_observe:
  assumes ok: "policy_ok p" and len: "length frame = AC_FRAME_SIZE"
    and obs: "ac_observe p frame now = (r, p')"
  shows "policy_ok p'"
  using obs
proof (cases rule: ac_observe_cases)
  case rejected
  with ok show ?thesis by simp
next
  case (accepted i q)
  have "frame ! 10 \<le> 100" using accepted(2) by (simp add: ac_reject_def not_less)
  with accepted len have "peer_ok q" by (simp add: peer_ok_def)
  with ok accepted show ?thesis by (simp add: policy_ok_def list_all_update)
qed

lemma ac_observe_occupied:
  assumes obs: "ac_observe p frame now = (True, p')" and t: "now \<le> t" "t - now < AC_EXPIRY_MS"
    and near: "near_channel (frame ! 10) ch"
  shows "ac_occupied p' ch t"
  using obs
proof (cases rule: ac_observe_cases)
  case rejected
  then show ?thesis by simp
next
  case (accepted i q)
  have i: "i < length (peers p)" using accepted(3) by (rule ac_find_slot_bounds)
  have "fresh q t" using accepted t by (auto simp: fresh_def)
  moreover have "q \<in> set (peers p')" using accepted(4) i by (simp add: set_update_memI)
  ultimately show ?thesis
    using near accepted(6) by (auto simp: ac_occupied_def list_ex_iff)
qed

text \<open>The table still holds a live entry of the receiver that sent the frame.\<close>

definition ac_live :: "ac_policy \<Rightarrow> bytes \<Rightarrow> int \<Rightarrow> bool" where
  "ac_live p frame t \<longleftrightarrow>
     (case find_index (\<lambda>q. peer_id q = frame_id frame) (peers p) of
        None \<Rightarrow> False | Some i \<Rightarrow> fresh (peers p ! i) t)"

lemma ac_observe_replay:
  assumes obs: "ac_observe p frame now = (True, p')" and live: "ac_live p' frame t"
  shows "ac_observe p' frame t = (False, p')"
  using obs
proof (cases rule: ac_observe_cases)
  case rejected
  then show ?thesis by simp
next
  case (accepted i q)
  have i: "i < length (peers p)" using accepted(3) by (rule ac_find_slot_bounds)
  have again: "find_index (\<lambda>q. peer_id q = frame_id frame) (peers p') = Some i"
    using ac_find_slot_again [OF accepted(3) accepted(5)] accepted(4) by simp
  have "\<not> ac_reject p' frame" using accepted(2,4) by (simp add: ac_reject_def)
  moreover have "fresh q t" using live again i accepted(4) by (simp add: ac_live_def)
  moreover have "ac_find_slot (peers p') (frame_id frame) t 0 None = Some i"
    by (simp add: ac_find_slot_eq again)
  ultimately show ?thesis
    using accepted(4,5,10) i by (simp add: ac_observe_def Let_def)
qed

lemma ac_live_accepted:
  assumes obs: "ac_observe p frame now = (True, p')" and t: "now \<le> t" "t - now < AC_EXPIRY_MS"
  shows "ac_live p' frame t"
  using obs
proof (cases rule: ac_observe_cases)
  case rejected
  then show ?thesis by simp
next
  case (accepted i q)
  have i: "i < length (peers p)" using accepted(3) by (rule ac_find_slot_bounds)
  have "fresh q t" using accepted t by (auto simp: fresh_def)
  with ac_find_slot_again [OF accepted(3) accepted(5)] accepted(4) i show ?thesis
    by (simp add: ac_live_def)
qed

interpretation beacon_filter: replay_filter ac_observe ac_live
  by unfold_locales (rule ac_observe_replay)

lemma ac_best_spec:
  "case ac_best p home score now chs best of
     None \<Rightarrow> best = None \<and> (\<forall>c\<in>set chs. \<not> ac_candidate p home score now c)
   | Some b \<Rightarrow> (best = Some b \<or> b \<in> set chs \<and> ac_candidate p home score now b)
       \<and> (\<forall>c\<in>set chs. ac_candidate p home score now c \<longrightarrow> score ! c \<le> score ! b)
       \<and> (\<forall>b0. best = Some b0 \<longrightarrow> score ! b0 \<le> score ! b)"
proof (induction chs arbitrary: best)
  case Nil
  then show ?case by (simp split: option.splits)
next
  case (Cons ch chs)
  define nb where "nb = (if ac_candidate p home score now ch \<and>
       (case best of None \<Rightarrow> True | Some b \<Rightarrow> score ! b < score ! ch) then Some ch else best)"
  have eq: "ac_best p home score now (ch # chs) best = ac_best p home score now chs nb"
    by (simp add: nb_def)
  have nb: "nb = None \<Longrightarrow> best = None \<and> \<not> ac_candidate p home score now ch"
    "nb = Some b \<Longrightarrow> best = Some b \<or> b = ch \<and> ac_candidate p home score now ch"
    "nb = Some b \<Longrightarrow> ac_candidate p home score now ch \<Longrightarrow> score ! ch \<le> score ! b"
    "nb = Some b \<Longrightarrow> best = Some b0 \<Longrightarrow> score ! b0 \<le> score ! b"
    "best = Some b0 \<Longrightarrow> nb \<noteq> None" for b b0
    by (auto simp: nb_def split: if_splits option.splits)
  show ?case
  proof (cases "ac_best p home score now chs nb")
    case None
    with Cons.IH [of nb] nb(1) show ?thesis by (simp only: eq) simp
  next
    case (Some b)
    with Cons.IH [of nb] have IH: "nb = Some b \<or> b \<in> set chs \<and> ac_candidate p home score now b"
      "\<forall>c\<in>set chs. ac_candidate p home score now c \<longrightarrow> score ! c \<le> score ! b"
      "\<forall>b0. nb = Some b0 \<longrightarrow> score ! b0 \<le> score ! b" by simp_all
    have "ac_candidate p home score now ch \<longrightarrow> score ! ch \<le> score ! b"
      using IH(3) nb(1,3) by (cases nb) fastforce+
    moreover have "best = Some b0 \<longrightarrow> score ! b0 \<le> score ! b" for b0
      using IH(3) nb(4,5) by (cases nb) fastforce+
    moreover have "best = Some b \<or> b \<in> set (ch # chs) \<and> ac_candidate p home score now b"
      using IH(1) nb(2) by auto
    ultimately show ?thesis using IH(2) by (simp only: eq Some option.case) simp
  qed
qed

lemma set_auto_destinations: "set auto_destinations = {c. even c \<and> c \<le> 88}"
proof -
  have "c \<in> (\<lambda>k. 2 * k) ` {0..<45}" if "even c" "c \<le> 88" for c :: nat
    by (rule image_eqI [of _ _ "c div 2"]) (use that in auto)
  then show ?thesis unfolding auto_destinations_def set_map set_upt by fastforce
qed

section \<open>Properties\<close>



text \<open>
  A beacon that another receiver built with \<open>ac_frame\<close> is recognised: when the table
  has room or already knows that receiver with an older sequence number, \<open>ac_observe\<close> accepts
  the frame, and until it expires the announced channel and both its neighbours count as
  occupied.
\<close>

theorem ac_beacon_heard:
  assumes idn: "length idn = 6" "idn \<noteq> replicate 6 0" "idn \<noteq> identity p" and ch: "ch \<le> 100"
    and slot: "ac_find_slot (peers p) idn now 0 None = Some i"
    and newer: "peer_id (peers p ! i) = idn \<Longrightarrow> fresh (peers p ! i) now \<Longrightarrow>
      0 < sint (sequence - peer_sequence (peers p ! i))"
    and t: "now \<le> t" "t - now < AC_EXPIRY_MS"
  shows "fst (ac_observe p (ac_frame idn ch sequence) now) \<and>
    (\<forall>c. near_channel ch c \<longrightarrow>
       ac_occupied (snd (ac_observe p (ac_frame idn ch sequence) now)) c t)"
proof -
  let ?f = "ac_frame idn ch sequence"
  have layout: "frame_id ?f = idn" "?f ! 10 = ch" "take 4 ?f = ac_magic" "?f ! 11 = ucast sequence"
    "?f ! 12 = ucast (drop_bit 8 sequence)" "?f ! 13 = 0" "?f ! 14 = 0" "?f ! 15 = 0"
    using idn(1) by (simp_all add: ac_frame_def ac_magic_def frame_id_def nth_append)
  have "\<not> ac_reject p ?f" using idn ch by (simp add: ac_reject_def layout not_less)
  then have acc: "fst (ac_observe p ?f now)"
    using slot newer by (auto simp: ac_observe_def layout Let_def u16_join_split)
  then have "ac_observe p ?f now = (True, snd (ac_observe p ?f now))" by (simp add: prod_eq_iff)
  from ac_observe_occupied [OF this t] acc show ?thesis by (simp add: layout)
qed

theorem ac_beacon_heard_witness:
  "let p = zero_policy [1, 2, 3, 4, 5, 6]; f = ac_frame [9, 8, 7, 6, 5, 4] 40 513
   in fst (ac_observe p f 1000) \<and> ac_occupied (snd (ac_observe p f 1000)) 41 2000"
proof -
  let ?p = "zero_policy [1, 2, 3, 4, 5, 6]" and ?i = "[9, 8, 7, 6, 5, 4] :: bytes"
  have slot: "ac_find_slot (peers ?p) ?i 1000 0 None = Some 0" by code_simp
  have "\<not> fresh (peers ?p ! 0) 1000" by code_simp
  moreover have "length ?i = 6" "?i \<noteq> replicate 6 0" "?i \<noteq> identity ?p" by code_simp+
  moreover have "near_channel 40 41" by code_simp
  ultimately show ?thesis
    using ac_beacon_heard [OF _ _ _ _ slot, of 40 513 2000] by (simp add: Let_def)
qed

text \<open>
  Replay protection: of a burst of identical beacons that arrives before the first
  one expires, exactly one is counted, and the copies change nothing.
\<close>

theorem ac_observe_burst:
  assumes "ac_observe p frame now = (True, p')"
    and "\<forall>t\<in>set ts. now \<le> t \<and> t - now < AC_EXPIRY_MS"
  shows "run_accept ac_observe p frame (now # ts) = (1, p')"
  using assms by (intro beacon_filter.burst_counted_once) (auto intro: ac_live_accepted)

theorem ac_observe_burst_witness:
  "let p = zero_policy [1, 2, 3, 4, 5, 6]; f = ac_frame [9, 8, 7, 6, 5, 4] 40 513
   in run_accept ac_observe p f [1000, 1100, 1200] = (1, snd (ac_observe p f 1000))"
proof -
  let ?p = "zero_policy [1, 2, 3, 4, 5, 6]" and ?f = "ac_frame [9, 8, 7, 6, 5, 4] 40 513"
  have "fst (ac_observe ?p ?f 1000)" by code_simp
  then have acc: "ac_observe ?p ?f 1000 = (True, snd (ac_observe ?p ?f 1000))"
    by (simp add: prod_eq_iff)
  show ?thesis using ac_observe_burst [OF acc, of "[1100, 1200]"] by (simp add: Let_def)
qed

end
