(* ===== verification/Storage.thy ===== *)
theory Storage
  imports Prelude
begin

text \<open>
  The checked flash storage of \<open>system/system.c\<close> (\<open>sys_nvs_init\<close>, \<open>sys_write_checked\<close>,
  \<open>sys_read_checked\<close>, \<open>sys_read\<close>) over the NVS file system of Zephyr, whose operations are
  the record \<open>nvs_ops\<close> that every definition takes as its first argument.
\<close>

record 'f nvs_ops =
  page_info_ok :: "'f \<Rightarrow> bool"
  nvs_mount :: "'f \<Rightarrow> errno option \<times> 'f"
  flash_flatten :: "'f \<Rightarrow> errno option \<times> 'f"
  nvs_write :: "'f \<Rightarrow> u16 \<Rightarrow> bytes \<Rightarrow> (errno + nat) \<times> 'f"
  nvs_read :: "'f \<Rightarrow> u16 \<Rightarrow> nat \<Rightarrow> errno + (nat \<times> bytes)"

record 'f store =
  nvs_init :: bool
  fs :: 'f

definition STORED_TRACKERS :: u16 where "STORED_TRACKERS = 1"
definition STORED_ADDR_0 :: u16 where "STORED_ADDR_0 = 3"
definition RF_CHANNEL :: u16 where "RF_CHANNEL = 259"
definition TRACKER_ROSTER :: u16 where "TRACKER_ROSTER = 260"

definition sys_nvs_init :: "'f nvs_ops \<Rightarrow> 'f store \<Rightarrow> bool \<times> 'f store" where
  "sys_nvs_init ops st =
     (if nvs_init st then (True, st)
      else if \<not> page_info_ok ops (fs st) then (False, st)
      else
        let (err, f1) = nvs_mount ops (fs st);
            (err2, f2) =
              (if err = Some EDEADLK then
                 (let (ferr, g) = flash_flatten ops f1
                  in if ferr = None then nvs_mount ops g else (ferr, g))
               else (err, f1))
        in if err2 \<noteq> None then (False, st\<lparr>fs := f2\<rparr>)
           else (True, st\<lparr>nvs_init := True, fs := f2\<rparr>))"

definition sys_write_checked ::
    "'f nvs_ops \<Rightarrow> 'f store \<Rightarrow> u16 \<Rightarrow> bytes \<Rightarrow> errno option \<times> 'f store" where
  "sys_write_checked ops st key data =
     (let (ok, st1) = sys_nvs_init ops st
      in if \<not> ok then (Some EIO, st1)
         else (case nvs_write ops (fs st1) key data of
             (Inl err, f) \<Rightarrow> (Some err, st1\<lparr>fs := f\<rparr>)
           | (Inr n, f) \<Rightarrow> (None, st1\<lparr>fs := f\<rparr>)))"

definition sys_read_checked ::
    "'f nvs_ops \<Rightarrow> 'f store \<Rightarrow> u16 \<Rightarrow> nat \<Rightarrow> (errno + (nat \<times> bytes)) \<times> 'f store" where
  "sys_read_checked ops st key len =
     (let (ok, st1) = sys_nvs_init ops st
      in if \<not> ok then (Inl EIO, st1) else (nvs_read ops (fs st1) key len, st1))"

text \<open>\<open>sys_read\<close> fills a caller's buffer, and clears it when the read fails.\<close>

definition sys_read :: "'f nvs_ops \<Rightarrow> 'f store \<Rightarrow> u16 \<Rightarrow> bytes \<Rightarrow> bytes \<times> 'f store" where
  "sys_read ops st key buf =
     (case sys_read_checked ops st key (length buf) of
        (Inl err, st1) \<Rightarrow> (replicate (length buf) 0, st1)
      | (Inr (n, data), st1) \<Rightarrow> (take (length buf) (data @ drop (length data) buf), st1))"

section \<open>What the file system promises\<close>

text \<open>
  The documented behaviour of NVS that the callers rely on: a successful write is what later
  reads of that key return, and other keys keep their value.
\<close>

definition nvs_law :: "'f nvs_ops \<Rightarrow> bool" where
  "nvs_law ops \<longleftrightarrow>
     (\<forall>f key data n f'. nvs_write ops f key data = (Inr n, f') \<longrightarrow>
        nvs_read ops f' key (length data) = Inr (length data, data)) \<and>
     (\<forall>f key data r f' other len. nvs_write ops f key data = (r, f') \<longrightarrow> other \<noteq> key \<longrightarrow>
        nvs_read ops f' other len = nvs_read ops f other len)"

lemma nvs_law_written:
  "nvs_law ops \<Longrightarrow> nvs_write ops f key data = (Inr n, f') \<Longrightarrow> length data = len \<Longrightarrow>
     nvs_read ops f' key len = Inr (len, data)"
  by (auto simp: nvs_law_def)

lemma nvs_law_other:
  "nvs_law ops \<Longrightarrow> nvs_write ops f key data = (r, f') \<Longrightarrow> other \<noteq> key \<Longrightarrow>
     nvs_read ops f' other len = nvs_read ops f other len"
  by (auto simp: nvs_law_def)

lemma sys_nvs_init_idem: "sys_nvs_init ops st = (True, st') \<Longrightarrow> nvs_init st'"
  by (auto simp: sys_nvs_init_def Let_def split: if_splits prod.splits)

lemma sys_nvs_init_ready [simp]: "nvs_init st \<Longrightarrow> sys_nvs_init ops st = (True, st)"
  by (simp add: sys_nvs_init_def)

text \<open>Writing then reading the same key through the checked interface.\<close>

lemma sys_write_then_read:
  assumes law: "nvs_law ops" and w: "sys_write_checked ops st key data = (None, st')"
  shows "nvs_init st'" and "sys_read_checked ops st' key (length data) = (Inr (length data, data), st')"
proof -
  obtain st1 n f where i: "sys_nvs_init ops st = (True, st1)"
    and wr: "nvs_write ops (fs st1) key data = (Inr n, f)" and st': "st' = st1\<lparr>fs := f\<rparr>"
    using w by (auto simp: sys_write_checked_def split: prod.splits sum.splits if_splits)
  from sys_nvs_init_idem [OF i] show ready: "nvs_init st'" by (simp add: st')
  with nvs_law_written [OF law wr refl]
  show "sys_read_checked ops st' key (length data) = (Inr (length data, data), st')"
    by (simp add: sys_read_checked_def st')
qed

section \<open>An instance of the file system\<close>

text \<open>
  A file system that keeps the last value of every key in an association list: it satisfies
  \<open>nvs_law\<close>, so the hypothesis can hold, and the witnesses run on it.
\<close>

definition list_nvs :: "(u16 \<times> bytes) list nvs_ops" where
  "list_nvs = \<lparr>page_info_ok = (\<lambda>f. True), nvs_mount = (\<lambda>f. (None, f)),
     flash_flatten = (\<lambda>f. (None, [])),
     nvs_write = (\<lambda>f key data. (Inr (length data), (key, data) # f)),
     nvs_read = (\<lambda>f key len. case map_of f key of None \<Rightarrow> Inl ENOENT
        | Some d \<Rightarrow> Inr (length d, take len d))\<rparr>"

lemma list_nvs_law: "nvs_law list_nvs"
  by (auto simp: nvs_law_def list_nvs_def)

end
