(* ===== verification/TrackerRoster.thy ===== *)
theory TrackerRoster
  imports Storage
begin

text \<open>
  The persistent tracker roster of \<open>connection/tracker_roster.c\<close>: the validity of a roster,
  the versioned flash record of 98 bytes, saving, and loading with the migration of the
  legacy keys. Addresses are 48-bit values in \<open>uint64_t\<close>; the array of \<open>MAX_TRACKERS\<close>
  addresses is a list.
\<close>

abbreviation (input) MAX_TRACKERS :: nat where "MAX_TRACKERS \<equiv> 16"
abbreviation (input) ROSTER_RECORD_BYTES :: nat where "ROSTER_RECORD_BYTES \<equiv> 98"

definition tracker_roster_address_valid :: "u64 \<Rightarrow> bool" where
  "tracker_roster_address_valid address \<longleftrightarrow> address \<noteq> 0 \<and> address < 0xffffffffffff"

definition roster_valid :: "u8 \<Rightarrow> u64 list \<Rightarrow> bool" where
  "roster_valid count addresses \<longleftrightarrow>
     (if 16 < count then False
      else list_all (\<lambda>i. tracker_roster_address_valid (addresses ! i) \<and>
             list_all (\<lambda>j. addresses ! i \<noteq> addresses ! j) [0..<i]) [0..<unat count])"

definition address_bytes :: "u64 \<Rightarrow> bytes" where
  "address_bytes a = map (\<lambda>j. ucast (drop_bit (8 * j) a)) [0..<6]"

definition address_of_bytes :: "bytes \<Rightarrow> u64" where
  "address_of_bytes bs = fold (\<lambda>j acc. acc OR push_bit (8 * j) (ucast (bs ! j))) [0..<6] 0"

definition roster_record :: "u8 \<Rightarrow> u64 list \<Rightarrow> bytes" where
  "roster_record count addresses =
     [1, count] @ concat (map (\<lambda>i. if i < unat count then address_bytes (addresses ! i)
                                  else replicate 6 0) [0..<MAX_TRACKERS])"

definition tracker_roster_save ::
    "'f nvs_ops \<Rightarrow> 'f store \<Rightarrow> u8 \<Rightarrow> u64 list \<Rightarrow> errno option \<times> 'f store" where
  "tracker_roster_save ops st count addresses =
     (if \<not> roster_valid count addresses then (Some EINVAL, st)
      else sys_write_checked ops st TRACKER_ROSTER (roster_record count addresses))"

text \<open>The decoding of a record that was read, with its checks.\<close>

definition roster_slots :: "bytes \<Rightarrow> u64 list" where
  "roster_slots rec =
     map (\<lambda>i. address_of_bytes (take 6 (drop (2 + i * 6) rec))) [0..<MAX_TRACKERS]"

definition roster_parse :: "bytes \<Rightarrow> errno + (u8 \<times> u64 list)" where
  "roster_parse rec =
     (if rec ! 0 \<noteq> 1 \<or> 16 < rec ! 1 then Inl EINVAL
      else
        let count = rec ! 1; loaded = roster_slots rec
        in if list_ex (\<lambda>i. unat count \<le> i \<and> loaded ! i \<noteq> 0) [0..<MAX_TRACKERS] then Inl EINVAL
           else if \<not> roster_valid count loaded then Inl EINVAL
           else Inr (count, loaded))"

text \<open>
  The legacy keys hold the count as one byte and each address as an eight byte integer in
  the byte order of the target, which is little endian.
\<close>

definition native_u64 :: "bytes \<Rightarrow> u64" where
  "native_u64 bs = fold (\<lambda>j acc. acc OR push_bit (8 * j) (ucast (bs ! j))) [0..<8] 0"

fun legacy_addresses ::
    "'f nvs_ops \<Rightarrow> 'f store \<Rightarrow> nat list \<Rightarrow> u64 list \<Rightarrow> (errno + u64 list) \<times> 'f store" where
  "legacy_addresses ops st [] loaded = (Inr loaded, st)"
| "legacy_addresses ops st (i # is) loaded =
     (case sys_read_checked ops st (STORED_ADDR_0 + of_nat i) 8 of
        (Inl err, st1) \<Rightarrow> (Inl (if err = ENOENT then EINVAL else err), st1)
      | (Inr (n, data), st1) \<Rightarrow>
          if n \<noteq> 8 then (Inl EINVAL, st1)
          else legacy_addresses ops st1 is (loaded[i := native_u64 data]))"

definition legacy_count :: "'f nvs_ops \<Rightarrow> 'f store \<Rightarrow> (errno + u8) \<times> 'f store" where
  "legacy_count ops st =
     (case sys_read_checked ops st STORED_TRACKERS 1 of
        (Inl err, st1) \<Rightarrow> if err = ENOENT then (Inr 0, st1) else (Inl err, st1)
      | (Inr (n, data), st1) \<Rightarrow>
          if n \<noteq> 1 \<or> 16 < data ! 0 then (Inl EINVAL, st1) else (Inr (data ! 0), st1))"

definition legacy_migrate :: "'f nvs_ops \<Rightarrow> 'f store \<Rightarrow> (errno + (u8 \<times> u64 list)) \<times> 'f store" where
  "legacy_migrate ops st =
     (case legacy_count ops st of
        (Inl err, st1) \<Rightarrow> (Inl err, st1)
      | (Inr count, st1) \<Rightarrow>
          (case legacy_addresses ops st1 [0..<unat count] (replicate MAX_TRACKERS 0) of
             (Inl err, st2) \<Rightarrow> (Inl err, st2)
           | (Inr loaded, st2) \<Rightarrow>
               if \<not> roster_valid count loaded then (Inl EINVAL, st2)
               else (case tracker_roster_save ops st2 count loaded of
                   (Some err, st3) \<Rightarrow> (Inl err, st3)
                 | (None, st3) \<Rightarrow> (Inr (count, loaded), st3))))"

definition tracker_roster_load ::
    "'f nvs_ops \<Rightarrow> 'f store \<Rightarrow> (errno + (u8 \<times> u64 list)) \<times> 'f store" where
  "tracker_roster_load ops st =
     (case sys_read_checked ops st TRACKER_ROSTER ROSTER_RECORD_BYTES of
        (Inr (n, rec), st1) \<Rightarrow>
          if n \<noteq> ROSTER_RECORD_BYTES then (Inl EINVAL, st1) else (roster_parse rec, st1)
      | (Inl ENOENT, st1) \<Rightarrow> legacy_migrate ops st1
      | (Inl err, st1) \<Rightarrow> (Inl err, st1))"

section \<open>The record format\<close>

text \<open>A roster in memory: the arrays of the sources keep zero in inactive slots.\<close>

definition roster_ok :: "u8 \<times> u64 list \<Rightarrow> bool" where
  "roster_ok r \<longleftrightarrow> (case r of (count, addresses) \<Rightarrow>
     length addresses = MAX_TRACKERS \<and> roster_valid count addresses \<and>
     (\<forall>i. unat count \<le> i \<and> i < MAX_TRACKERS \<longrightarrow> addresses ! i = 0))"

lemma length_address_bytes [simp]: "length (address_bytes a) = 6"
  by (simp add: address_bytes_def)

lemma bit_address_of_bytes:
  "n < 64 \<Longrightarrow> bit (address_of_bytes bs) n \<longleftrightarrow> n < 48 \<and> bit (bs ! (n div 8)) (n mod 8)"
  unfolding address_of_bytes_def by (subst bit_join_bytes) auto

lemma address_round_trip:
  assumes "a < 0xffffffffffff"
  shows "address_of_bytes (address_bytes a) = a"
proof -
  have "a < 2 ^ 48" using assms by (rule order_less_trans) simp
  then have "uint a < 2 ^ 48" by (simp add: word_less_def)
  then have "take_bit 48 (uint a) = uint a" by (simp add: take_bit_int_eq_self)
  then have hi: "\<not> bit a n" if "48 \<le> n" for n
    using that by (metis bit_take_bit_iff bit_uint_iff not_less bit_imp_le_length)
  show ?thesis
  proof (rule bit_word_eqI)
    fix n assume "n < LENGTH(64)"
    then show "bit (address_of_bytes (address_bytes a)) n \<longleftrightarrow> bit a n"
      using hi by (cases "n < 48") (auto simp: bit_address_of_bytes address_bytes_def bit_simps)
  qed
qed

lemma address_bytes_of_bytes:
  assumes "length bs = 6"
  shows "address_bytes (address_of_bytes bs) = bs"
proof (rule nth_equalityI)
  show "length (address_bytes (address_of_bytes bs)) = length bs" using assms by simp
  fix j assume "j < length (address_bytes (address_of_bytes bs))"
  then have j: "j < 6" by simp
  then have "address_bytes (address_of_bytes bs) ! j = ucast (drop_bit (8 * j) (address_of_bytes bs))"
    by (simp add: address_bytes_def)
  also have "\<dots> = bs ! j"
  proof (rule bit_word_eqI)
    fix n assume "n < LENGTH(8)"
    with j show "bit (ucast (drop_bit (8 * j) (address_of_bytes bs)) :: u8) n \<longleftrightarrow> bit (bs ! j) n"
      by (simp add: bit_simps bit_address_of_bytes)
  qed
  finally show "address_bytes (address_of_bytes bs) ! j = bs ! j" .
qed

lemma roster_validD:
  assumes "roster_valid count addresses" and "i < unat count"
  shows "tracker_roster_address_valid (addresses ! i)"
  using assms by (auto simp: roster_valid_def list_all_iff split: if_splits)

lemma roster_valid_count: "roster_valid count addresses \<Longrightarrow> unat count \<le> MAX_TRACKERS"
  by (auto simp: roster_valid_def word_less_nat_alt split: if_splits)

lemma length_roster_record [simp]: "length (roster_record count addresses) = ROSTER_RECORD_BYTES"
  by (simp add: roster_record_def length_concat comp_def if_distrib sum_list_triv cong: if_cong)

lemma roster_record_chunk:
  assumes "i < MAX_TRACKERS"
  shows "take 6 (drop (2 + i * 6) (roster_record count addresses)) =
    (if i < unat count then address_bytes (addresses ! i) else replicate 6 0)"
proof -
  have "take 6 (drop (2 + i * 6) (roster_record count addresses)) =
      take 6 (drop (i * 6) (concat (map (\<lambda>i. if i < unat count then address_bytes (addresses ! i)
        else replicate 6 0) [0..<MAX_TRACKERS])))"
    by (simp add: roster_record_def)
  also have "\<dots> = (if i < unat count then address_bytes (addresses ! i) else replicate 6 0)"
    using assms by (subst concat_chunk) auto
  finally show ?thesis .
qed

lemma address_of_zeros [simp]: "address_of_bytes (replicate 6 0) = 0"
  by (rule bit_word_eqI) (simp add: bit_address_of_bytes)

lemma address_bytes_zero [simp]: "address_bytes 0 = replicate 6 0"
  by (rule nth_equalityI) (simp_all add: address_bytes_def)

text \<open>Reading back a record that was built from a roster, whatever the inactive slots held.\<close>

definition active_slots :: "u8 \<Rightarrow> u64 list \<Rightarrow> u64 list" where
  "active_slots count addresses =
     map (\<lambda>i. if i < unat count then addresses ! i else 0) [0..<MAX_TRACKERS]"

lemma active_slots_ok: "roster_ok (count, addresses) \<Longrightarrow> active_slots count addresses = addresses"
  by (rule nth_equalityI) (auto simp: roster_ok_def active_slots_def)

lemma roster_valid_active:
  "roster_valid count (active_slots count addresses) = roster_valid count addresses"
proof (cases "16 < count")
  case True
  then show ?thesis by (simp add: roster_valid_def)
next
  case False
  then have "unat count \<le> MAX_TRACKERS" by (simp add: word_less_nat_alt)
  then show ?thesis by (simp add: roster_valid_def list_all_iff active_slots_def)
qed

lemma roster_parse_record:
  assumes "roster_valid count addresses"
  shows "roster_parse (roster_record count addresses) = Inr (count, active_slots count addresses)"
proof -
  let ?r = "roster_record count addresses"
  have hd: "?r ! 0 = 1" "?r ! 1 = count" by (simp_all add: roster_record_def)
  have "\<not> 16 < count" using assms by (auto simp: roster_valid_def split: if_splits)
  have loaded: "roster_slots ?r = active_slots count addresses"
    unfolding active_slots_def roster_slots_def
  proof (rule map_cong [OF refl])
    fix i assume "i \<in> set [0..<MAX_TRACKERS]"
    then have i: "i < MAX_TRACKERS" by simp
    have "address_of_bytes (address_bytes (addresses ! i)) = addresses ! i" if "i < unat count"
      using roster_validD [OF assms that]
      by (intro address_round_trip) (simp add: tracker_roster_address_valid_def)
    then show "address_of_bytes (take 6 (drop (2 + i * 6) ?r)) = (if i < unat count then addresses ! i else 0)"
      by (subst roster_record_chunk [OF i]) simp
  qed
  have "\<not> list_ex (\<lambda>i. unat count \<le> i \<and> active_slots count addresses ! i \<noteq> 0) [0..<MAX_TRACKERS]"
    by (auto simp: list_ex_iff active_slots_def)
  with hd \<open>\<not> 16 < count\<close> assms show ?thesis
    by (simp add: roster_parse_def loaded Let_def roster_valid_active)
qed

lemma roster_parse_ok:
  assumes "roster_parse rec = Inr r"
  shows "roster_ok r"
proof -
  have "length (roster_slots rec) = MAX_TRACKERS" by (simp add: roster_slots_def)
  with assms show ?thesis
    by (auto simp: roster_parse_def roster_ok_def Let_def list_ex_iff split: if_splits)
qed

lemma roster_parse_inverse:
  assumes len: "length rec = ROSTER_RECORD_BYTES" and p: "roster_parse rec = Inr (count, addresses)"
  shows "roster_record count addresses = rec"
proof -
  let ?load = "roster_slots rec"
  from p have hd: "rec ! 0 = 1" "rec ! 1 = count" and a: "addresses = ?load"
    and z: "\<And>i. unat count \<le> i \<Longrightarrow> i < MAX_TRACKERS \<Longrightarrow> ?load ! i = 0"
    by (auto simp: roster_parse_def Let_def list_ex_iff split: if_splits)
  have chunk: "(if i < unat count then address_bytes (addresses ! i) else replicate 6 0) =
      take 6 (drop (i * 6) (drop 2 rec))" if "i < MAX_TRACKERS" for i
  proof -
    have l: "length (take 6 (drop (2 + i * 6) rec)) = 6" using len that by simp
    have "address_bytes (?load ! i) = take 6 (drop (2 + i * 6) rec)"
      using address_bytes_of_bytes [OF l] that by (simp add: roster_slots_def)
    with z [of i] that a show ?thesis by (cases "i < unat count") (simp_all add: add.commute)
  qed
  have "roster_record count addresses =
      [1, count] @ concat (map (\<lambda>i. take 6 (drop (i * 6) (drop 2 rec))) [0..<MAX_TRACKERS])"
    unfolding roster_record_def
    by (intro arg_cong2 [of _ _ _ _ append] arg_cong [of _ _ concat] map_cong refl chunk) simp
  also have "\<dots> = [1, count] @ drop 2 rec" using len by (subst concat_chunks_id) simp_all
  also have "[1, count] = take 2 rec"
    using hd len by (simp add: numeral_2_eq_2 take_Suc_conv_app_nth)
  finally show ?thesis by simp
qed

definition roster_encode :: "u8 \<times> u64 list \<Rightarrow> bytes option" where
  "roster_encode r = (if roster_ok r then Some (roster_record (fst r) (snd r)) else None)"

definition roster_decode :: "bytes \<Rightarrow> (u8 \<times> u64 list) option" where
  "roster_decode rec = (if length rec \<noteq> ROSTER_RECORD_BYTES then None
     else case roster_parse rec of Inl _ \<Rightarrow> None | Inr r \<Rightarrow> Some r)"

interpretation roster_codec: wire_codec roster_encode roster_decode roster_ok
proof (unfold_locales, goal_cases)
  case (1 r)
  then show ?case by (simp add: roster_encode_def)
next
  case (2 r b)
  then show ?case by (simp add: roster_encode_def split: if_splits)
next
  case (3 r b)
  then have ok: "roster_ok r" and b: "b = roster_record (fst r) (snd r)"
    by (auto simp: roster_encode_def split: if_splits)
  then have "roster_parse b = Inr (fst r, active_slots (fst r) (snd r))"
    by (simp add: roster_parse_record roster_ok_def split: prod.splits)
  with ok b show ?case by (simp add: roster_decode_def active_slots_ok)
next
  case (4 b r)
  then have p: "roster_parse b = Inr r" and l: "length b = ROSTER_RECORD_BYTES"
    by (auto simp: roster_decode_def split: if_splits sum.splits)
  with roster_parse_inverse [of b "fst r" "snd r"] roster_parse_ok [OF p]
  show ?case by (simp add: roster_encode_def)
qed

section \<open>Loading\<close>

lemma legacy_addresses_frame:
  assumes "legacy_addresses ops st is loaded = (Inr loaded', st')"
  shows "length loaded' = length loaded \<and> (\<forall>i. i \<notin> set is \<longrightarrow> loaded' ! i = loaded ! i)"
  using assms
  by (induction ops st "is" loaded rule: legacy_addresses.induct)
    (auto split: sum.splits prod.splits if_splits)

lemma legacy_migrate_ok:
  assumes "legacy_migrate ops st = (Inr r, st')"
  shows "roster_ok r \<and> (\<exists>st2. tracker_roster_save ops st2 (fst r) (snd r) = (None, st'))"
proof -
  from assms obtain count loaded st1 st2 where
    addrs: "legacy_addresses ops st1 [0..<unat count] (replicate MAX_TRACKERS 0) = (Inr loaded, st2)"
    and valid: "roster_valid count loaded" and r: "r = (count, loaded)"
    and save: "tracker_roster_save ops st2 count loaded = (None, st')"
    by (auto simp: legacy_migrate_def split: sum.splits prod.splits option.splits if_splits)
  from legacy_addresses_frame [OF addrs] valid have "roster_ok r"
    by (auto simp: roster_ok_def r)
  with save r show ?thesis by auto
qed

lemma save_then_load:
  assumes law: "nvs_law ops" and save: "tracker_roster_save ops st count addresses = (None, st')"
  shows "tracker_roster_load ops st' = (Inr (count, active_slots count addresses), st')"
proof -
  from save have valid: "roster_valid count addresses"
    and w: "sys_write_checked ops st TRACKER_ROSTER (roster_record count addresses) = (None, st')"
    by (auto simp: tracker_roster_save_def split: if_splits)
  from sys_write_then_read(2) [OF law w] roster_parse_record [OF valid] show ?thesis
    by (simp add: tracker_roster_load_def)
qed

lemma load_cases:
  assumes "tracker_roster_load ops st = (Inr r, st')"
  obtains (stored) rec where "roster_parse rec = Inr r"
      "sys_read_checked ops st TRACKER_ROSTER ROSTER_RECORD_BYTES = (Inr (ROSTER_RECORD_BYTES, rec), st')"
  | (migrated) st1 where "legacy_migrate ops st1 = (Inr r, st')"
  using assms
  by (auto simp: tracker_roster_load_def split: sum.splits prod.splits if_splits errno.splits)

lemma sys_read_checked_again:
  assumes "sys_read_checked ops st key len = (Inr x, st')"
  shows "sys_read_checked ops st' key len = (Inr x, st')"
  using assms sys_nvs_init_idem
  by (fastforce simp: sys_read_checked_def split: prod.splits if_splits)

section \<open>Properties\<close>

text \<open>
  Claim C29. The roster survives a restart: after a successful save, loading returns the same
  count and the same active addresses, with zero in the inactive slots, whatever the array
  held there.
\<close>

theorem tracker_roster_save_load:
  assumes "nvs_law ops" and "tracker_roster_save ops st count addresses = (None, st')"
  shows "tracker_roster_load ops st' = (Inr (count, active_slots count addresses), st')"
  using assms by (rule save_then_load)

theorem tracker_roster_save_load_witness:
  "let st = \<lparr>nvs_init = False, fs = []\<rparr>; a = [0x112233445566, 7] @ replicate 14 9;
       st' = snd (tracker_roster_save list_nvs st 2 a)
   in fst (tracker_roster_save list_nvs st 2 a) = None \<and>
      tracker_roster_load list_nvs st' = (Inr (2, [0x112233445566, 7] @ replicate 14 0), st')"
proof -
  let ?st = "\<lparr>nvs_init = False, fs = []\<rparr> :: (u16 \<times> bytes) list store"
  let ?a = "[0x112233445566, 7] @ replicate 14 9 :: u64 list"
  have f: "fst (tracker_roster_save list_nvs ?st 2 ?a) = None" by code_simp
  then have "tracker_roster_save list_nvs ?st 2 ?a =
      (None, snd (tracker_roster_save list_nvs ?st 2 ?a))" by (simp add: prod_eq_iff)
  from tracker_roster_save_load [OF list_nvs_law this] f
  have "tracker_roster_load list_nvs (snd (tracker_roster_save list_nvs ?st 2 ?a)) =
      (Inr (2, active_slots 2 ?a), snd (tracker_roster_save list_nvs ?st 2 ?a))" by blast
  moreover have "active_slots 2 ?a = [0x112233445566, 7] @ replicate 14 0" by code_simp
  ultimately show ?thesis using f by (simp only: Let_def)
qed

lemma roster_ok_active:
  assumes "roster_ok (count, addresses)"
  shows "list_all tracker_roster_address_valid (take (unat count) addresses)"
    "distinct (take (unat count) addresses)"
proof -
  have len: "length addresses = MAX_TRACKERS" and valid: "roster_valid count addresses"
    using assms by (auto simp: roster_ok_def)
  have diff: "addresses ! i \<noteq> addresses ! j" if "j < i" "i < unat count" for i j
    using valid that by (auto simp: roster_valid_def list_all_iff split: if_splits)
  show "distinct (take (unat count) addresses)"
    unfolding distinct_conv_nth using diff by (auto, metis linorder_neqE_nat)
  show "list_all tracker_roster_address_valid (take (unat count) addresses)"
    using roster_validD [OF valid] by (auto simp: list_all_length)
qed

text \<open>
  Claim C30. Whatever the flash contains, and whatever the file system answers, a roster that
  loads is well formed: sixteen slots, at most sixteen active ones, every active address a
  valid 48-bit address, no address twice, and every inactive slot zero.
\<close>

theorem tracker_roster_load_valid:
  assumes "tracker_roster_load ops st = (Inr (count, addresses), st')"
  shows "length addresses = MAX_TRACKERS \<and> unat count \<le> MAX_TRACKERS \<and>
    list_all tracker_roster_address_valid (take (unat count) addresses) \<and>
    distinct (take (unat count) addresses) \<and> list_all ((=) 0) (drop (unat count) addresses)"
proof -
  from assms have ok: "roster_ok (count, addresses)"
    by (cases rule: load_cases) (auto dest: roster_parse_ok legacy_migrate_ok)
  then have len: "length addresses = MAX_TRACKERS" and valid: "roster_valid count addresses"
    and zero: "\<forall>i. unat count \<le> i \<and> i < MAX_TRACKERS \<longrightarrow> addresses ! i = 0"
    by (auto simp: roster_ok_def)
  have "list_all ((=) 0) (drop (unat count) addresses)"
    using zero len by (auto simp: list_all_length)
  then show ?thesis using len roster_valid_count [OF valid] roster_ok_active [OF ok] by simp
qed

theorem tracker_roster_load_valid_witness:
  "let st = \<lparr>nvs_init = False, fs = [(1, [1]), (3, [1, 2, 3, 4, 5, 6, 0, 0])]\<rparr>
   in \<exists>st'. tracker_roster_load list_nvs st = (Inr (1, 0x060504030201 # replicate 15 0), st') \<and>
      distinct (take 1 (0x060504030201 # replicate 15 (0 :: u64)))"
proof -
  let ?st = "\<lparr>nvs_init = False, fs = [(1, [1]), (3, [1, 2, 3, 4, 5, 6, 0, 0])]\<rparr>
    :: (u16 \<times> bytes) list store"
  have "fst (tracker_roster_load list_nvs ?st) = Inr (1, 0x060504030201 # replicate 15 0)"
    by code_simp
  then obtain st' where l: "tracker_roster_load list_nvs ?st =
      (Inr (1, 0x060504030201 # replicate 15 0), st')" by (metis prod.collapse)
  from tracker_roster_load_valid [OF l] l show ?thesis by (simp add: Let_def)
qed

text \<open>
  Loading is stable: the state that a successful load leaves behind loads to the same
  roster and is not changed by it. In particular the migration of the legacy keys is
  committed before the roster is returned, so the next start does not migrate again.
\<close>

theorem tracker_roster_load_stable:
  assumes "nvs_law ops" and "tracker_roster_load ops st = (Inr r, st')"
  shows "tracker_roster_load ops st' = (Inr r, st')"
  using assms(2)
proof (cases rule: load_cases)
  case (stored rec)
  from sys_read_checked_again [OF stored(2)] stored(1) show ?thesis
    by (simp add: tracker_roster_load_def)
next
  case (migrated st1)
  then obtain st2 where ok: "roster_ok r"
    and save: "tracker_roster_save ops st2 (fst r) (snd r) = (None, st')"
    using legacy_migrate_ok by blast
  from save_then_load [OF assms(1) save] ok show ?thesis
    by (simp add: active_slots_ok)
qed

theorem tracker_roster_load_stable_witness:
  "let st = \<lparr>nvs_init = False, fs = [(1, [1]), (3, [1, 2, 3, 4, 5, 6, 0, 0])]\<rparr>;
       st' = snd (tracker_roster_load list_nvs st)
   in tracker_roster_load list_nvs st' = (Inr (1, 0x060504030201 # replicate 15 0), st')"
proof -
  let ?st = "\<lparr>nvs_init = False, fs = [(1, [1]), (3, [1, 2, 3, 4, 5, 6, 0, 0])]\<rparr>
    :: (u16 \<times> bytes) list store"
  have "fst (tracker_roster_load list_nvs ?st) = Inr (1, 0x060504030201 # replicate 15 0)"
    by code_simp
  then have l: "tracker_roster_load list_nvs ?st =
      (Inr (1, 0x060504030201 # replicate 15 0), snd (tracker_roster_load list_nvs ?st))"
    by (simp add: prod_eq_iff)
  from tracker_roster_load_stable [OF list_nvs_law l] show ?thesis by (simp only: Let_def)
qed

end
