(* ===== verification/EventProtocol.thy ===== *)
theory EventProtocol
  imports Prelude
begin

text \<open>
  The tracker event protocol of \<open>connection/tracker_event_protocol.h\<close>: the constants, the
  event structure, which events are legal, the 17 byte radio packet, its 15 byte body inside
  a composite packet, and the 16 byte report to the host. A function that fails returns
  \<open>None\<close> where the source returns \<open>false\<close>; the buffers are byte lists of the sizes the
  source declares.
\<close>

abbreviation (input) TRACKER_EVENT_ESB_TYPE :: u8 where "TRACKER_EVENT_ESB_TYPE \<equiv> 0xE0"
abbreviation (input) TRACKER_EVENT_VERSION :: u8 where "TRACKER_EVENT_VERSION \<equiv> 1"
abbreviation (input) TRACKER_EVENT_MAGIC_0 :: u8 where "TRACKER_EVENT_MAGIC_0 \<equiv> 0x43"
abbreviation (input) TRACKER_EVENT_MAGIC_1 :: u8 where "TRACKER_EVENT_MAGIC_1 \<equiv> 0x45"
abbreviation (input) TRACKER_EVENT_ESB_LEN :: nat where "TRACKER_EVENT_ESB_LEN \<equiv> 17"
abbreviation (input) TRACKER_EVENT_BODY_LEN :: nat where "TRACKER_EVENT_BODY_LEN \<equiv> 15"
abbreviation (input) TRACKER_EVENT_HID_LEN :: nat where "TRACKER_EVENT_HID_LEN \<equiv> 16"
abbreviation (input) TRACKER_EVENT_MAX_TRACKERS :: nat where "TRACKER_EVENT_MAX_TRACKERS \<equiv> 16"
abbreviation (input) TRACKER_EVENT_KIND_MASK :: u8 where "TRACKER_EVENT_KIND_MASK \<equiv> 0x7F"
abbreviation (input) TRACKER_EVENT_MAX_REPEATS :: u8 where "TRACKER_EVENT_MAX_REPEATS \<equiv> 3"
abbreviation (input) TRACKER_EVENT_SPACING_MS :: u32 where "TRACKER_EVENT_SPACING_MS \<equiv> 100"
abbreviation (input) TRACKER_EVENT_CAL_HEARTBEAT_MS :: u16 where "TRACKER_EVENT_CAL_HEARTBEAT_MS \<equiv> 2000"
abbreviation (input) TRACKER_EVENT_CAL_SILENCE_MS :: u32 where "TRACKER_EVENT_CAL_SILENCE_MS \<equiv> 10000"
abbreviation (input) TRACKER_EVENT_REST_STALE_MS :: u32 where "TRACKER_EVENT_REST_STALE_MS \<equiv> 15000"
abbreviation (input) TRACKER_EVENT_LEASE_MS :: u32 where "TRACKER_EVENT_LEASE_MS \<equiv> 15000"
abbreviation (input) TRACKER_EVENT_TTL_MS :: u32 where "TRACKER_EVENT_TTL_MS \<equiv> 15000"
abbreviation (input) RCV_HID_OP_TRACKER_EVENT :: u8 where "RCV_HID_OP_TRACKER_EVENT \<equiv> 225"
abbreviation (input) RCV_HID_OP_TRACKER_OBSERVATION :: u8 where "RCV_HID_OP_TRACKER_OBSERVATION \<equiv> 226"

abbreviation (input) CAL_EVENT_ACCEPTED :: u8 where "CAL_EVENT_ACCEPTED \<equiv> 1"
abbreviation (input) CAL_EVENT_BEGIN :: u8 where "CAL_EVENT_BEGIN \<equiv> 2"
abbreviation (input) CAL_EVENT_STEP :: u8 where "CAL_EVENT_STEP \<equiv> 3"
abbreviation (input) CAL_EVENT_END :: u8 where "CAL_EVENT_END \<equiv> 4"
abbreviation (input) CAL_EVENT_REJECTED :: u8 where "CAL_EVENT_REJECTED \<equiv> 5"
abbreviation (input) CAL_EVENT_STATE :: u8 where "CAL_EVENT_STATE \<equiv> 6"
abbreviation (input) CAL_EVENT_NOTICE :: u8 where "CAL_EVENT_NOTICE \<equiv> 7"
abbreviation (input) CAL_OUTCOME_NONE :: u8 where "CAL_OUTCOME_NONE \<equiv> 0"
abbreviation (input) CAL_OUTCOME_SUCCESS :: u8 where "CAL_OUTCOME_SUCCESS \<equiv> 1"
abbreviation (input) CAL_OUTCOME_FAILED :: u8 where "CAL_OUTCOME_FAILED \<equiv> 2"
abbreviation (input) CAL_OUTCOME_SKIPPED :: u8 where "CAL_OUTCOME_SKIPPED \<equiv> 4"
abbreviation (input) CAL_OUTCOME_UNKNOWN :: u8 where "CAL_OUTCOME_UNKNOWN \<equiv> 5"
abbreviation (input) CAL_PHASE_STORAGE :: u8 where "CAL_PHASE_STORAGE \<equiv> 18"
abbreviation (input) CAL_REASON_POWER_DOWN :: u8 where "CAL_REASON_POWER_DOWN \<equiv> 16"
abbreviation (input) CAL_REASON_RESET :: u8 where "CAL_REASON_RESET \<equiv> 17"
abbreviation (input) CAL_REASON_TRANSPORT_SILENCE :: u8 where "CAL_REASON_TRANSPORT_SILENCE \<equiv> 30"
abbreviation (input) CAL_REASON_SESSION_CHANGED :: u8 where "CAL_REASON_SESSION_CHANGED \<equiv> 31"
abbreviation (input) KIND_TRACKER_REST :: u8 where "KIND_TRACKER_REST \<equiv> 0x20"
abbreviation (input) KIND_FUSION_REST :: u8 where "KIND_FUSION_REST \<equiv> 0x21"
abbreviation (input) KIND_POWER :: u8 where "KIND_POWER \<equiv> 0x30"
abbreviation (input) KIND_BUTTON :: u8 where "KIND_BUTTON \<equiv> 0x31"
abbreviation (input) TRACKER_REST_UNKNOWN :: u8 where "TRACKER_REST_UNKNOWN \<equiv> 2"
abbreviation (input) FUSION_REST_UNKNOWN :: u8 where "FUSION_REST_UNKNOWN \<equiv> 2"
abbreviation (input) POWER_WILL_WOM :: u8 where "POWER_WILL_WOM \<equiv> 1"
abbreviation (input) POWER_WILL_SHUTDOWN :: u8 where "POWER_WILL_SHUTDOWN \<equiv> 2"
abbreviation (input) POWER_BOOT :: u8 where "POWER_BOOT \<equiv> 3"
abbreviation (input) POWER_WAKE :: u8 where "POWER_WAKE \<equiv> 4"
abbreviation (input) POWER_WILL_REBOOT :: u8 where "POWER_WILL_REBOOT \<equiv> 5"
abbreviation (input) POWER_WOM_CANCELLED :: u8 where "POWER_WOM_CANCELLED \<equiv> 6"
abbreviation (input) POWER_WATCHDOG_RESET :: u8 where "POWER_WATCHDOG_RESET \<equiv> 7"
abbreviation (input) POWER_REASON_UNKNOWN :: u8 where "POWER_REASON_UNKNOWN \<equiv> 0"
abbreviation (input) POWER_WOM_FORCED :: u8 where "POWER_WOM_FORCED \<equiv> 2"

record tracker_event =
  ev_nonce :: u32
  ev_seq :: u16
  ev_operation :: u16
  ev_tracker :: u8
  ev_kind :: u8
  ev_event :: u8
  ev_outcome :: u8
  ev_phase :: u8
  ev_detail :: u8

definition tracker_event_is_calibration :: "u8 \<Rightarrow> bool" where
  "tracker_event_is_calibration kind \<longleftrightarrow>
     (let k = kind AND TRACKER_EVENT_KIND_MASK in 1 \<le> k \<and> k \<le> 7)"

definition tracker_event_kind_filter :: "u8 \<Rightarrow> u8" where
  "tracker_event_kind_filter kind =
     (if tracker_event_is_calibration kind then 1
      else if kind = KIND_TRACKER_REST then 2
      else if kind = KIND_FUSION_REST then 4
      else if kind = KIND_POWER then 8
      else if kind = KIND_BUTTON then 16
      else 0)"

definition calibration_event_valid :: "tracker_event \<Rightarrow> bool" where
  "calibration_event_valid e \<longleftrightarrow>
     (if ev_operation e = 0 then False
      else if ev_event e \<in> {CAL_EVENT_ACCEPTED, CAL_EVENT_BEGIN, CAL_EVENT_STEP}
      then ev_outcome e = CAL_OUTCOME_NONE
      else if ev_event e = CAL_EVENT_END
      then CAL_OUTCOME_SUCCESS \<le> ev_outcome e \<and> ev_outcome e \<le> CAL_OUTCOME_SKIPPED
      else if ev_event e = CAL_EVENT_REJECTED then ev_outcome e = CAL_OUTCOME_FAILED
      else False)"

definition tracker_event_valid :: "tracker_event \<Rightarrow> bool" where
  "tracker_event_valid e \<longleftrightarrow>
     (if ev_nonce e = 0 \<or> 16 \<le> ev_tracker e then False
      else if tracker_event_is_calibration (ev_kind e) then calibration_event_valid e
      else if ev_operation e \<noteq> 0 \<or> ev_outcome e \<noteq> 0 then False
      else if ev_kind e = KIND_TRACKER_REST
      then ev_event e = CAL_EVENT_STATE \<and> ev_phase e \<le> 2 \<and> ev_detail e \<le> 4
      else if ev_kind e = KIND_FUSION_REST
      then ev_event e = CAL_EVENT_STATE \<and> ev_phase e \<le> 3 \<and> ev_detail e \<le> 2
      else if ev_kind e = KIND_POWER
      then ev_event e = CAL_EVENT_NOTICE \<and>
        (((ev_phase e = POWER_WILL_WOM \<or> ev_phase e = POWER_WOM_CANCELLED) \<and>
            ev_detail e \<le> POWER_WOM_FORCED) \<or>
         (ev_phase e \<noteq> POWER_WOM_CANCELLED \<and> POWER_WILL_SHUTDOWN \<le> ev_phase e \<and>
            ev_phase e \<le> POWER_WATCHDOG_RESET \<and> ev_detail e = POWER_REASON_UNKNOWN))
      else if ev_kind e = KIND_BUTTON
      then ev_event e = CAL_EVENT_NOTICE \<and> ev_phase e = 1 \<and> ev_detail e \<noteq> 0
      else False)"

text \<open>The byte accessors of the header; a store is the list of bytes it writes.\<close>

definition tracker_event_get16 :: "bytes \<Rightarrow> u16" where
  "tracker_event_get16 p = ucast (p ! 0) OR push_bit 8 (ucast (p ! 1))"

definition tracker_event_get32 :: "bytes \<Rightarrow> u32" where
  "tracker_event_get32 p =
     ucast (tracker_event_get16 p) OR push_bit 16 (ucast (tracker_event_get16 (drop 2 p)))"

definition tracker_event_put16 :: "u16 \<Rightarrow> bytes" where
  "tracker_event_put16 x = [ucast x, ucast (drop_bit 8 x)]"

definition tracker_event_put32 :: "u32 \<Rightarrow> bytes" where
  "tracker_event_put32 x = tracker_event_put16 (ucast x) @ tracker_event_put16 (ucast (drop_bit 16 x))"

definition tracker_event_encode :: "tracker_event \<Rightarrow> bytes option" where
  "tracker_event_encode e =
     (if \<not> tracker_event_valid e then None
      else Some ([TRACKER_EVENT_ESB_TYPE, ev_tracker e, TRACKER_EVENT_VERSION,
                  ev_event e OR push_bit 4 (ev_outcome e)]
                 @ tracker_event_put32 (ev_nonce e) @ tracker_event_put16 (ev_seq e)
                 @ tracker_event_put16 (ev_operation e)
                 @ [ev_kind e, ev_phase e, ev_detail e, TRACKER_EVENT_MAGIC_0, TRACKER_EVENT_MAGIC_1]))"

definition event_of_packet :: "bytes \<Rightarrow> tracker_event" where
  "event_of_packet p =
     \<lparr>ev_nonce = tracker_event_get32 (drop 4 p), ev_seq = tracker_event_get16 (drop 8 p),
      ev_operation = tracker_event_get16 (drop 10 p), ev_tracker = p ! 1, ev_kind = p ! 12,
      ev_event = p ! 3 AND 15, ev_outcome = drop_bit 4 (p ! 3), ev_phase = p ! 13, ev_detail = p ! 14\<rparr>"

definition tracker_event_decode :: "bytes \<Rightarrow> tracker_event option" where
  "tracker_event_decode p =
     (if length p \<noteq> TRACKER_EVENT_ESB_LEN \<or> p ! 0 \<noteq> TRACKER_EVENT_ESB_TYPE \<or>
         p ! 2 \<noteq> TRACKER_EVENT_VERSION \<or> p ! 15 \<noteq> TRACKER_EVENT_MAGIC_0 \<or>
         p ! 16 \<noteq> TRACKER_EVENT_MAGIC_1 then None
      else if tracker_event_valid (event_of_packet p) then Some (event_of_packet p) else None)"

definition tracker_event_decode_body :: "u8 \<Rightarrow> bytes \<Rightarrow> tracker_event option" where
  "tracker_event_decode_body tracker p =
     (if length p \<noteq> TRACKER_EVENT_BODY_LEN then None
      else tracker_event_decode ([TRACKER_EVENT_ESB_TYPE, tracker] @ p))"

definition tracker_event_encode_hid :: "tracker_event \<Rightarrow> u8 \<Rightarrow> bytes" where
  "tracker_event_encode_hid e opcode =
     [251, 0, opcode, ev_event e OR push_bit 4 (ev_outcome e), ev_tracker e]
     @ tracker_event_put32 (ev_nonce e) @ tracker_event_put16 (ev_seq e)
     @ tracker_event_put16 (ev_operation e) @ [ev_kind e, ev_phase e, ev_detail e]"

section \<open>The packet is a faithful image of the event\<close>

lemma length_put [simp]:
  "length (tracker_event_put16 x) = 2" "length (tracker_event_put32 y) = 4"
  by (simp_all add: tracker_event_put16_def tracker_event_put32_def)

lemma get16_put16 [simp]: "tracker_event_get16 (tracker_event_put16 x @ r) = x"
  by (simp add: tracker_event_get16_def tracker_event_put16_def u16_join_split)

lemma get32_put32 [simp]: "tracker_event_get32 (tracker_event_put32 x @ r) = x"
  by (simp add: tracker_event_get32_def tracker_event_put32_def u32_join_split)

lemma put16_get16: "tracker_event_put16 (tracker_event_get16 (a # b # r)) = [a, b]"
  by (simp add: tracker_event_get16_def tracker_event_put16_def u16_low_join u16_high_join)

lemma put32_get32: "tracker_event_put32 (tracker_event_get32 (a # b # c # d # r)) = [a, b, c, d]"
  by (simp add: tracker_event_put32_def tracker_event_get32_def u32_low_join u32_high_join put16_get16)

lemma nibble_high_zero: "(a :: u8) < 16 \<Longrightarrow> 4 \<le> n \<Longrightarrow> \<not> bit a n"
proof -
  assume "a < 16" and n: "4 \<le> n"
  then have "uint a < 2 ^ 4" by (simp add: word_less_def)
  then have "take_bit 4 (uint a) = uint a" by (simp add: take_bit_int_eq_self)
  then show "\<not> bit a n" using n by (metis bit_take_bit_iff bit_uint_iff not_less bit_imp_le_length)
qed

lemma bit_fifteen: "bit (15 :: int) n \<longleftrightarrow> n < 4"
proof -
  have fifteen: "(15 :: int) = mask 4" by (simp add: mask_eq_exp_minus_1)
  have "bit (mask 4 :: int) n \<longleftrightarrow> n < 4" by (auto simp add: bit_mask_iff simp del: mask_numeral)
  then show ?thesis by (simp only: fifteen)
qed

lemma nibbles_split:
  assumes "(a :: u8) < 16" and "b < 16"
  shows "(a OR push_bit 4 b) AND 15 = a" and "drop_bit 4 a OR drop_bit 4 (push_bit 4 b) = b"
proof -
  have hi: "\<not> bit a n" "\<not> bit b n" if "\<not> n < 4" for n
    using that assms by (simp_all add: nibble_high_zero)
  show "(a OR push_bit 4 b) AND 15 = a"
    by (rule bit_word_eqI) (use hi in \<open>auto simp: bit_simps bit_fifteen\<close>)
  show "drop_bit 4 a OR drop_bit 4 (push_bit 4 b) = b"
    by (rule bit_word_eqI) (use hi in \<open>auto simp: bit_simps\<close>)
qed

lemma nibbles_join: "((x :: u8) AND 15) OR push_bit 4 (drop_bit 4 x) = x"
proof (rule bit_word_eqI)
  fix n assume "n < LENGTH(8)"
  then show "bit ((x AND 15) OR push_bit 4 (drop_bit 4 x)) n \<longleftrightarrow> bit x n"
    by (cases "n < 4") (auto simp: bit_simps bit_fifteen)
qed

lemma tracker_event_valid_nibbles:
  assumes "tracker_event_valid e"
  shows "ev_event e < 16" and "ev_outcome e < 16"
proof -
  show "ev_event e < 16"
    using assms by (auto simp: tracker_event_valid_def calibration_event_valid_def split: if_splits)
  have "(x :: u8) < 16" if "x \<le> 4" for x using that by (rule order_le_less_trans) simp
  then show "ev_outcome e < 16"
    using assms by (auto simp: tracker_event_valid_def calibration_event_valid_def split: if_splits)
qed

lemma tracker_event_valid_tracker: "tracker_event_valid e \<Longrightarrow> unat (ev_tracker e) < 16"
  by (auto simp: tracker_event_valid_def not_le word_less_nat_alt split: if_splits)

lemma event_of_packet_layout:
  assumes "ev_event e < 16" and "ev_outcome e < 16"
  shows "event_of_packet ([a, ev_tracker e, c, ev_event e OR push_bit 4 (ev_outcome e)]
      @ tracker_event_put32 (ev_nonce e) @ tracker_event_put16 (ev_seq e)
      @ tracker_event_put16 (ev_operation e) @ [ev_kind e, ev_phase e, ev_detail e, x, y]) = e"
  using assms by (simp add: event_of_packet_def nibbles_split nth_append)

lemma list_17:
  assumes "length p = 17"
  obtains a b c d e f g h i j k l m n q r s where
    "p = [a, b, c, d, e, f, g, h, i, j, k, l, m, n, q, r, s]"
  using assms by (auto simp: numeral_eq_Suc length_Suc_conv)

lemma encode_event_of_packet:
  assumes "length p = 17" and "p ! 0 = TRACKER_EVENT_ESB_TYPE" "p ! 2 = TRACKER_EVENT_VERSION"
    "p ! 15 = TRACKER_EVENT_MAGIC_0" "p ! 16 = TRACKER_EVENT_MAGIC_1"
    and "tracker_event_valid (event_of_packet p)"
  shows "tracker_event_encode (event_of_packet p) = Some p"
proof -
  from assms(1) obtain a b c d e f g h i j k l m n q r s where
    p: "p = [a, b, c, d, e, f, g, h, i, j, k, l, m, n, q, r, s]" by (rule list_17)
  show ?thesis using assms(2-)
    by (simp add: tracker_event_encode_def) (simp add: p event_of_packet_def nibbles_join put16_get16 put32_get32)
qed

interpretation event_codec: wire_codec tracker_event_encode tracker_event_decode tracker_event_valid
proof (unfold_locales, goal_cases)
  case (1 e)
  then show ?case by (simp add: tracker_event_encode_def)
next
  case (2 e b)
  then show ?case by (simp add: tracker_event_encode_def split: if_splits)
next
  case (3 e b)
  then have v: "tracker_event_valid e" and b: "b = [TRACKER_EVENT_ESB_TYPE, ev_tracker e,
      TRACKER_EVENT_VERSION, ev_event e OR push_bit 4 (ev_outcome e)]
      @ tracker_event_put32 (ev_nonce e) @ tracker_event_put16 (ev_seq e)
      @ tracker_event_put16 (ev_operation e)
      @ [ev_kind e, ev_phase e, ev_detail e, TRACKER_EVENT_MAGIC_0, TRACKER_EVENT_MAGIC_1]"
    by (auto simp: tracker_event_encode_def split: if_splits)
  have "event_of_packet b = e"
    unfolding b by (rule event_of_packet_layout) (use v tracker_event_valid_nibbles in auto)
  moreover have "length b = 17" "b ! 0 = TRACKER_EVENT_ESB_TYPE" "b ! 2 = TRACKER_EVENT_VERSION"
    "b ! 15 = TRACKER_EVENT_MAGIC_0" "b ! 16 = TRACKER_EVENT_MAGIC_1"
    by (simp_all add: b nth_append)
  ultimately show ?case using v by (simp add: tracker_event_decode_def)
next
  case (4 b e)
  then show ?case by (auto simp: tracker_event_decode_def encode_event_of_packet split: if_splits)
qed

lemma put16_inject [simp]: "tracker_event_put16 x = tracker_event_put16 y \<longleftrightarrow> x = y"
  by (metis get16_put16)

lemma put32_inject [simp]: "tracker_event_put32 x = tracker_event_put32 y \<longleftrightarrow> x = y"
  by (metis get32_put32)

lemma nibbles_inject:
  assumes "(a :: u8) < 16" "b < 16" "a' < 16" "b' < 16" and eq: "a OR push_bit 4 b = a' OR push_bit 4 b'"
  shows "a = a' \<and> b = b'"
proof
  show "a = a'" using nibbles_split(1) [OF assms(1,2)] nibbles_split(1) [OF assms(3,4)] eq by simp
  have "drop_bit 4 (a OR push_bit 4 b) = drop_bit 4 (a' OR push_bit 4 b')" using eq by simp
  then show "b = b'"
    using nibbles_split(2) [OF assms(1,2)] nibbles_split(2) [OF assms(3,4)] by simp
qed

section \<open>Properties\<close>

text \<open>
  Claim C28. Encoding and decoding of radio event packets are exact inverses: a byte string
  decodes to an event exactly when the encoder accepts that event and produces that byte
  string. Nothing else decodes, no legal event is lost, and two different packets never
  decode to the same event.
\<close>

theorem tracker_event_decode_iff_encode:
  "tracker_event_decode p = Some e \<longleftrightarrow> tracker_event_encode e = Some p"
  by (rule event_codec.decode_iff_encode)

text \<open>
  The body of an event inside a composite packet decodes exactly when the complete
  packet, with the type byte and the tracker number of the envelope put in front, is the
  encoding of the event; the event then belongs to the tracker of the envelope.
\<close>

theorem tracker_event_decode_body_iff:
  "tracker_event_decode_body t b = Some e \<longleftrightarrow>
     tracker_event_encode e = Some ([TRACKER_EVENT_ESB_TYPE, t] @ b) \<and> ev_tracker e = t"
proof -
  have "length b = TRACKER_EVENT_BODY_LEN \<and> ev_tracker e = t"
    if "tracker_event_decode ([TRACKER_EVENT_ESB_TYPE, t] @ b) = Some e"
    using that by (auto simp: tracker_event_decode_def event_of_packet_def split: if_splits)
  then show ?thesis
    by (auto simp: tracker_event_decode_body_def simp flip: event_codec.decode_iff_encode)
qed

text \<open>
  The report to the host identifies the event: two events whose event and outcome
  codes fit in their four bits (all legal events do, and the receiver's own observations with
  outcome UNKNOWN do) give the same sixteen bytes only if they are equal and carry the same
  opcode.
\<close>

theorem tracker_event_encode_hid_injective:
  assumes "ev_event e < 16" "ev_outcome e < 16" "ev_event e' < 16" "ev_outcome e' < 16"
    and eq: "tracker_event_encode_hid e opcode = tracker_event_encode_hid e' opcode'"
  shows "e = e' \<and> opcode = opcode'"
proof -
  from eq have parts: "opcode = opcode'" "ev_tracker e = ev_tracker e'" "ev_nonce e = ev_nonce e'"
    "ev_seq e = ev_seq e'" "ev_operation e = ev_operation e'" "ev_kind e = ev_kind e'"
    "ev_phase e = ev_phase e'" "ev_detail e = ev_detail e'"
    "ev_event e OR push_bit 4 (ev_outcome e) = ev_event e' OR push_bit 4 (ev_outcome e')"
    by (simp_all add: tracker_event_encode_hid_def)
  from nibbles_inject [OF assms(1-4) parts(9)] parts show ?thesis
    by (simp add: tracker_event.equality)
qed

theorem tracker_event_encode_hid_injective_witness:
  "let e = \<lparr>ev_nonce = 7, ev_seq = 1, ev_operation = 3, ev_tracker = 2, ev_kind = 5, ev_event = 4,
        ev_outcome = 5, ev_phase = 0, ev_detail = 30\<rparr>
   in e = event_of_packet (0 # 2 # 1 # drop 3 ([0, 0, 0] @ [4 OR push_bit 4 5, 7, 0, 0, 0, 1, 0, 3, 0, 5, 0, 30]))
      \<and> (226 :: u8) = 226"
proof -
  let ?e = "\<lparr>ev_nonce = 7, ev_seq = 1, ev_operation = 3, ev_tracker = 2, ev_kind = 5, ev_event = 4,
        ev_outcome = 5, ev_phase = 0, ev_detail = 30\<rparr> :: tracker_event"
  let ?e' = "event_of_packet (0 # 2 # 1 # drop 3 ([0, 0, 0] @ [4 OR push_bit 4 5, 7, 0, 0, 0, 1, 0, 3, 0, 5, 0, 30]))"
  have "tracker_event_encode_hid ?e 226 = tracker_event_encode_hid ?e' 226" by code_simp
  moreover have "ev_event ?e' < 16" "ev_outcome ?e' < 16" by code_simp+
  ultimately show ?thesis
    using tracker_event_encode_hid_injective [of ?e ?e' 226 226] by (simp add: Let_def)
qed

end
