(* ===== verification/TrackerEvents.thy ===== *)
theory TrackerEvents
  imports EventProtocol
begin

text \<open>
  The event service of \<open>tracker_events.c\<close>: the host's lease, the generations that retire
  queued work, the per-tracker cache with its duplicate window, the power intention, and the
  two steps of the worker, \<open>process_rx\<close> for one received event and the sweep that notices
  silence. The static variables of the file are the record \<open>ev_state\<close>; the arrays are lists,
  a pointer into them is a \<open>cache_ref\<close>. A critical section under \<open>event_lock\<close> is one
  definition. The message queue of the kernel and the environment of a delivery (the uptime
  clock and the admission to the HID queue) are the records \<open>msgq_ops\<close> and \<open>hid_env\<close>.
\<close>

abbreviation (input) OP_COUNT :: nat where "OP_COUNT \<equiv> 8"
abbreviation (input) RX_COUNT :: nat where "RX_COUNT \<equiv> 32"
abbreviation (input) POWER_INTENT_RELEVANCE_MS :: u32 where "POWER_INTENT_RELEVANCE_MS \<equiv> 20000"
abbreviation (input) POWER_INTENT_ACTIVITY_MS :: u32 where "POWER_INTENT_ACTIVITY_MS \<equiv> 10000"

record event_cache =
  c_event :: tracker_event
  c_last_rx :: u32
  c_version :: u32
  c_notified :: u32
  c_order :: u32
  c_first_order :: u32
  c_used :: bool
  c_terminal :: bool
  c_stale :: bool

record power_intent =
  pw_received_at :: u32
  pw_order :: u32
  pw_watermark :: u32
  pw_sequence :: u16
  pw_phase :: u8
  pw_ordered :: bool

record tracker_cache =
  tc_pairing :: u32
  tc_nonce :: u32
  tc_retired_nonce :: u32
  tc_retired_at :: u32
  tc_high_at :: u32
  tc_order :: u32
  tc_high :: u16
  tc_seen :: u64
  tc_initialized :: bool
  tc_operations :: "event_cache list"
  tc_rest :: "event_cache list"
  tc_power :: power_intent

record rx_event =
  rx_event :: tracker_event
  rx_received_at :: u32
  rx_pairing :: u32
  rx_subscription :: u32

record delivery =
  dl_event :: tracker_event
  dl_generation :: u32
  dl_received_at :: u32
  dl_cache_version :: u32
  dl_opcode :: u8

record 'q ev_state =
  trackers :: "tracker_cache list"
  pairing_generations :: "u32 list"
  event_rx_queue :: 'q
  usb_generation :: u32
  subscription_generation :: u32
  lease_started :: u32
  dropped :: u32
  subscription_filter :: u8
  subscription_mask :: u8
  subscribed :: bool
  last_diagnostic :: u32
  reported_drops :: u32

record 'q msgq_ops =
  msgq_put :: "'q \<Rightarrow> rx_event \<Rightarrow> 'q option"
  msgq_get :: "'q \<Rightarrow> (rx_event \<times> 'q) option"

record 'h hid_env =
  env_clock :: "'h \<Rightarrow> u32 \<times> 'h"
  env_write :: "'h \<Rightarrow> bytes \<Rightarrow> u32 \<Rightarrow> bool \<times> 'h"

section \<open>Static storage at start\<close>

definition zero_event :: tracker_event where
  "zero_event = \<lparr>ev_nonce = 0, ev_seq = 0, ev_operation = 0, ev_tracker = 0, ev_kind = 0,
     ev_event = 0, ev_outcome = 0, ev_phase = 0, ev_detail = 0\<rparr>"

definition zero_cache :: event_cache where
  "zero_cache = \<lparr>c_event = zero_event, c_last_rx = 0, c_version = 0, c_notified = 0, c_order = 0,
     c_first_order = 0, c_used = False, c_terminal = False, c_stale = False\<rparr>"

definition zero_power :: power_intent where
  "zero_power = \<lparr>pw_received_at = 0, pw_order = 0, pw_watermark = 0, pw_sequence = 0, pw_phase = 0,
     pw_ordered = False\<rparr>"

definition zero_tracker :: tracker_cache where
  "zero_tracker = \<lparr>tc_pairing = 0, tc_nonce = 0, tc_retired_nonce = 0, tc_retired_at = 0,
     tc_high_at = 0, tc_order = 0, tc_high = 0, tc_seen = 0, tc_initialized = False,
     tc_operations = replicate OP_COUNT zero_cache, tc_rest = replicate 2 zero_cache,
     tc_power = zero_power\<rparr>"

definition ev_boot :: "'q \<Rightarrow> 'q ev_state" where
  "ev_boot q = \<lparr>trackers = replicate TRACKER_EVENT_MAX_TRACKERS zero_tracker,
     pairing_generations = replicate TRACKER_EVENT_MAX_TRACKERS 0, event_rx_queue = q,
     usb_generation = 1, subscription_generation = 1, lease_started = 0, dropped = 0,
     subscription_filter = 255, subscription_mask = 0, subscribed = False,
     last_diagnostic = 0, reported_drops = 0\<rparr>"

section \<open>Lease and generations\<close>

definition next_generation :: "u32 \<Rightarrow> u32" where
  "next_generation value = (let v = value + 1 in if v \<noteq> 0 then v else 1)"

definition lease_active :: "'q ev_state \<Rightarrow> u32 \<Rightarrow> bool" where
  "lease_active st now \<longleftrightarrow> subscribed st \<and> now - lease_started st < TRACKER_EVENT_LEASE_MS"

definition matches :: "'q ev_state \<Rightarrow> u8 \<Rightarrow> u8 \<Rightarrow> u32 \<Rightarrow> bool" where
  "matches st tracker kind now \<longleftrightarrow>
     lease_active st now \<and> (subscription_filter st = 255 \<or> subscription_filter st = tracker) \<and>
     subscription_mask st AND tracker_event_kind_filter kind \<noteq> 0"

definition tracker_events_usb_generation :: "'q ev_state \<Rightarrow> u32" where
  "tracker_events_usb_generation st = usb_generation st"

definition tracker_events_usb_reset :: "'q ev_state \<Rightarrow> 'q ev_state" where
  "tracker_events_usb_reset st =
     st\<lparr>usb_generation := next_generation (usb_generation st),
        subscription_generation := next_generation (subscription_generation st),
        subscribed := False\<rparr>"

definition control_apply :: "'q ev_state \<Rightarrow> u8 \<Rightarrow> u8 \<Rightarrow> u8 \<Rightarrow> u32 \<Rightarrow> 'q ev_state" where
  "control_apply st action filt msk now =
     (if action = 1 then
        st\<lparr>subscription_generation := next_generation (subscription_generation st),
           subscription_filter := filt, subscription_mask := msk, subscribed := True,
           lease_started := now\<rparr>
      else if action = 2 then st\<lparr>lease_started := now\<rparr>
      else if action = 3 then
        st\<lparr>subscribed := False,
           subscription_generation := next_generation (subscription_generation st)\<rparr>
      else st)"

definition control_result :: "'q ev_state \<Rightarrow> u32 \<Rightarrow> bytes" where
  "control_result st now =
     [TRACKER_EVENT_VERSION, 0x3f, TRACKER_EVENT_MAX_REPEATS, ucast (TRACKER_EVENT_SPACING_MS div 10)]
     @ tracker_event_put16 TRACKER_EVENT_CAL_HEARTBEAT_MS
     @ tracker_event_put16 (ucast TRACKER_EVENT_CAL_SILENCE_MS)
     @ tracker_event_put16 (ucast TRACKER_EVENT_LEASE_MS)
     @ [subscription_filter st,
        (if lease_active st now then 1 else 0) OR push_bit 1 (subscription_mask st)]"

definition tracker_events_control ::
    "'q ev_state \<Rightarrow> bytes \<Rightarrow> u32 \<Rightarrow> u32 \<Rightarrow> (errno + bytes) \<times> 'q ev_state" where
  "tracker_events_control st args generation now =
     (if length args < 4 then (Inl EINVAL, st)
      else if args ! 0 \<noteq> TRACKER_EVENT_VERSION then (Inl ENOTSUP, st)
      else
        let action = args ! 1; filt = args ! 2; msk = args ! 3
        in if 3 < action \<or> (16 \<le> filt \<and> filt \<noteq> 255) \<or>
              (if action = 1 \<or> action = 2 then msk = 0 \<or> 31 < msk else msk \<noteq> 0)
           then (Inl EINVAL, st)
           else if list_ex (\<lambda>b. b \<noteq> 0) (drop 4 args) then (Inl EINVAL, st)
           else if generation \<noteq> usb_generation st then (Inl ENOTCONN, st)
           else if action = 2 \<and> (\<not> lease_active st now \<or> filt \<noteq> subscription_filter st \<or>
                msk \<noteq> subscription_mask st) then (Inl ENOENT, st)
           else let st1 = control_apply st action filt msk now
                in (Inr (control_result st1 now), st1))"

definition tracker_events_hid_valid :: "'q ev_state \<Rightarrow> bytes \<Rightarrow> u32 \<Rightarrow> u32 \<Rightarrow> bool" where
  "tracker_events_hid_valid st rec generation now \<longleftrightarrow>
     (if rec ! 0 \<noteq> 251 \<or> rec ! 1 \<noteq> 0 \<or>
         (rec ! 2 \<noteq> RCV_HID_OP_TRACKER_EVENT \<and> rec ! 2 \<noteq> RCV_HID_OP_TRACKER_OBSERVATION)
      then False
      else generation = subscription_generation st \<and> matches st (rec ! 4) (rec ! 13) now)"

definition tracker_events_receive ::
    "'q msgq_ops \<Rightarrow> 'q ev_state \<Rightarrow> bytes \<Rightarrow> u32 \<Rightarrow> bool \<times> 'q ev_state" where
  "tracker_events_receive mq st packet now =
     (case tracker_event_decode packet of
        None \<Rightarrow> (False, st\<lparr>dropped := dropped st + 1\<rparr>)
      | Some e \<Rightarrow>
          (let rx = \<lparr>rx_event = e, rx_received_at = now,
                 rx_pairing = pairing_generations st ! unat (ev_tracker e),
                 rx_subscription = (if matches st (ev_tracker e) (ev_kind e) now
                   then subscription_generation st else 0)\<rparr>
           in case msgq_put mq (event_rx_queue st) rx of
                None \<Rightarrow> (False, st\<lparr>dropped := dropped st + 1\<rparr>)
              | Some q \<Rightarrow> (True, st\<lparr>event_rx_queue := q\<rparr>)))"

definition tracker_events_pairing_invalidate :: "'q ev_state \<Rightarrow> u32 \<Rightarrow> 'q ev_state" where
  "tracker_events_pairing_invalidate st msk =
     st\<lparr>pairing_generations := update_where (mask_has msk) next_generation (pairing_generations st),
        subscription_generation := next_generation (subscription_generation st)\<rparr>"

definition reset_pairing_cache :: "'q ev_state \<Rightarrow> nat \<Rightarrow> 'q ev_state" where
  "reset_pairing_cache st t =
     (if tc_pairing (trackers st ! t) = pairing_generations st ! t then st
      else st\<lparr>trackers := (trackers st)[t := zero_tracker\<lparr>tc_pairing := pairing_generations st ! t\<rparr>]\<rparr>)"

definition tracker_events_pairing_cleanup :: "'q ev_state \<Rightarrow> 'q ev_state" where
  "tracker_events_pairing_cleanup st =
     fold (\<lambda>t s. reset_pairing_cache s t) [0..<TRACKER_EVENT_MAX_TRACKERS] st"

section \<open>Duplicate window\<close>

definition same_event :: "tracker_event \<Rightarrow> tracker_event \<Rightarrow> bool" where
  "same_event a b \<longleftrightarrow> ev_nonce a = ev_nonce b \<and> ev_seq a = ev_seq b \<and>
     ev_operation a = ev_operation b \<and> ev_tracker a = ev_tracker b \<and> ev_kind a = ev_kind b \<and>
     ev_event a = ev_event b \<and> ev_outcome a = ev_outcome b \<and> ev_phase a = ev_phase b \<and>
     ev_detail a = ev_detail b"

definition newer :: "u16 \<Rightarrow> u16 \<Rightarrow> bool" where
  "newer a b \<longleftrightarrow> 0 < sint (a - b)"

definition unseen :: "tracker_cache \<Rightarrow> u16 \<Rightarrow> u32 \<Rightarrow> bool \<times> tracker_cache" where
  "unseen t seq now =
     (if \<not> tc_initialized t \<or> TRACKER_EVENT_TTL_MS \<le> now - tc_high_at t then
        (let order = tc_order t + 65536;
             pow = tc_power t
         in (True, t\<lparr>tc_order := order,
               tc_power := (if pw_ordered pow
                 then pow\<lparr>pw_watermark := order + scast (pw_sequence pow - seq)\<rparr> else pow),
               tc_initialized := True, tc_high := seq, tc_seen := 1, tc_high_at := now\<rparr>))
      else if newer seq (tc_high t) then
        (let shift = seq - tc_high t
         in (True, t\<lparr>tc_order := tc_order t + ucast shift,
               tc_seen := (if 64 \<le> shift then 1 else push_bit (unat shift) (tc_seen t) OR 1),
               tc_high := seq, tc_high_at := now\<rparr>))
      else
        let age = tc_high t - seq
        in if 64 \<le> age \<or> tc_seen t AND push_bit (unat age) 1 \<noteq> 0 then (False, t)
           else (True, t\<lparr>tc_seen := tc_seen t OR push_bit (unat age) 1\<rparr>))"

definition find_operation :: "tracker_cache \<Rightarrow> tracker_event \<Rightarrow> nat option" where
  "find_operation t e =
     find_index (\<lambda>c. c_used c \<and> ev_operation (c_event c) = ev_operation e \<and>
       ev_kind (c_event c) = ev_kind e) (tc_operations t)"

text \<open>The loop of \<open>allocate_operation\<close>: the first free slot, else the oldest, terminal ones first.\<close>

fun oldest_operation :: "event_cache list \<Rightarrow> u32 \<Rightarrow> nat \<Rightarrow> (nat \<times> event_cache) option \<Rightarrow> nat option" where
  "oldest_operation [] now i best = map_option fst best"
| "oldest_operation (c # cs) now i best =
     (if \<not> c_used c then Some i
      else oldest_operation cs now (Suc i)
        (case best of
           None \<Rightarrow> Some (i, c)
         | Some (j, old) \<Rightarrow>
             if (c_terminal c \<and> \<not> c_terminal old) \<or>
                (c_terminal c = c_terminal old \<and> now - c_last_rx old < now - c_last_rx c)
             then Some (i, c) else best))"

definition allocate_operation :: "tracker_cache \<Rightarrow> u32 \<Rightarrow> nat" where
  "allocate_operation t now =
     (case oldest_operation (tc_operations t) now 0 None of Some i \<Rightarrow> i | None \<Rightarrow> 0)"

section \<open>Observations and the power intention\<close>

definition observation :: "'q ev_state \<Rightarrow> event_cache \<Rightarrow> u8 \<Rightarrow> u32 \<Rightarrow> delivery" where
  "observation st cache reason now =
     (let e = (c_event cache)\<lparr>ev_outcome := CAL_OUTCOME_UNKNOWN\<rparr>;
          e' = (if ev_event e = CAL_EVENT_STATE
                then e\<lparr>ev_phase := (if ev_kind e = KIND_FUSION_REST then FUSION_REST_UNKNOWN
                                   else TRACKER_REST_UNKNOWN)\<rparr>
                else e\<lparr>ev_event := CAL_EVENT_END, ev_detail := reason\<rparr>)
      in \<lparr>dl_event = e',
          dl_generation = (if matches st (ev_tracker e') (ev_kind e') now
            then subscription_generation st else 0),
          dl_received_at = now, dl_cache_version = 0, dl_opcode = RCV_HID_OP_TRACKER_OBSERVATION\<rparr>)"

definition power_notice :: "power_intent \<Rightarrow> tracker_event \<Rightarrow> u32 \<Rightarrow> u32 \<Rightarrow> power_intent" where
  "power_notice pow e order now =
     (if pw_ordered pow \<and> sint (order - pw_watermark pow) \<le> 0 then pow
      else
        let p1 = pow\<lparr>pw_ordered := True, pw_sequence := ev_seq e, pw_watermark := order\<rparr>;
            p2 = (if pw_phase p1 \<noteq> 0 \<and> POWER_INTENT_RELEVANCE_MS \<le> now - pw_received_at p1
                  then p1\<lparr>pw_phase := 0\<rparr> else p1)
        in if ev_phase e \<in> {POWER_WILL_WOM, POWER_WILL_SHUTDOWN, POWER_WILL_REBOOT} then
             (let p3 = (if pw_phase p2 \<noteq> ev_phase e
                        then p2\<lparr>pw_received_at := now, pw_order := order\<rparr> else p2)
              in p3\<lparr>pw_phase := ev_phase e\<rparr>)
           else if ev_phase e = POWER_WOM_CANCELLED then
             (if pw_phase p2 = POWER_WILL_WOM then p2\<lparr>pw_phase := 0\<rparr> else p2)
           else if ev_phase e \<in> {POWER_BOOT, POWER_WAKE, POWER_WATCHDOG_RESET} then p2\<lparr>pw_phase := 0\<rparr>
           else p2)"

definition power_operation_evidence :: "power_intent \<Rightarrow> tracker_event \<Rightarrow> u32 \<Rightarrow> u32 \<Rightarrow> power_intent" where
  "power_operation_evidence pow e order now =
     (if pw_phase pow = 0 then pow
      else if POWER_INTENT_RELEVANCE_MS \<le> now - pw_received_at pow \<or>
              (0 < sint (order - pw_order pow) \<and>
               (ev_event e = CAL_EVENT_ACCEPTED \<or> ev_event e = CAL_EVENT_BEGIN)) \<or>
              POWER_INTENT_ACTIVITY_MS < now - pw_received_at pow
      then pow\<lparr>pw_phase := 0\<rparr> else pow)"

definition silence_reason :: "power_intent \<Rightarrow> event_cache \<Rightarrow> u32 \<Rightarrow> u8 \<times> power_intent" where
  "silence_reason pow cache now =
     (let p1 = (if pw_phase pow \<noteq> 0 \<and> POWER_INTENT_RELEVANCE_MS \<le> now - pw_received_at pow
                then pow\<lparr>pw_phase := 0\<rparr> else pow)
      in (if pw_phase p1 = 0 \<or> 0 < sint (c_first_order cache - pw_order p1)
          then CAL_REASON_TRANSPORT_SILENCE
          else if pw_phase p1 = POWER_WILL_REBOOT then CAL_REASON_RESET else CAL_REASON_POWER_DOWN, p1))"

section \<open>Delivery to the host\<close>

definition delivery_commit :: "'q ev_state \<Rightarrow> delivery \<Rightarrow> 'q ev_state" where
  "delivery_commit st out =
     (if ev_event (dl_event out) = CAL_EVENT_STATE \<and> ev_outcome (dl_event out) = CAL_OUTCOME_NONE then
        (let t = unat (ev_tracker (dl_event out));
             k = (if ev_kind (dl_event out) = KIND_FUSION_REST then 1 else 0);
             tc = trackers st ! t; rest = tc_rest tc ! k
         in if c_used rest \<and> \<not> c_stale rest \<and> c_version rest = dl_cache_version out \<and>
               dl_generation out = subscription_generation st \<and> same_event (c_event rest) (dl_event out)
            then st\<lparr>trackers := (trackers st)[t := tc\<lparr>tc_rest :=
                   (tc_rest tc)[k := rest\<lparr>c_notified := dl_generation out\<rparr>]\<rparr>]\<rparr>
            else st)
      else st)"

definition deliver :: "'h hid_env \<Rightarrow> delivery \<Rightarrow> 'q ev_state \<times> 'h \<Rightarrow> 'q ev_state \<times> 'h" where
  "deliver env out sh =
     (case sh of (st, h) \<Rightarrow>
        if dl_generation out = 0 then (st, h)
        else
          let rec = tracker_event_encode_hid (dl_event out) (dl_opcode out);
              (now, h1) = env_clock env h
          in if \<not> tracker_events_hid_valid st rec (dl_generation out) now then (st, h1)
             else (case env_write env h1 rec (dl_generation out) of
                 (False, h2) \<Rightarrow> (st, h2)
               | (True, h2) \<Rightarrow> (delivery_commit st out, h2)))"

section \<open>One received event\<close>

datatype cache_ref = RestSlot nat | OpSlot nat

fun get_cache :: "tracker_cache \<Rightarrow> cache_ref \<Rightarrow> event_cache" where
  "get_cache t (RestSlot i) = tc_rest t ! i"
| "get_cache t (OpSlot i) = tc_operations t ! i"

fun set_cache :: "tracker_cache \<Rightarrow> cache_ref \<Rightarrow> event_cache \<Rightarrow> tracker_cache" where
  "set_cache t (RestSlot i) c = t\<lparr>tc_rest := (tc_rest t)[i := c]\<rparr>"
| "set_cache t (OpSlot i) c = t\<lparr>tc_operations := (tc_operations t)[i := c]\<rparr>"

text \<open>
  A new boot nonce ends the previous session: every open observation of the old session is
  reported, and the cache starts empty. \<open>None\<close> is the early exit for a retired nonce.
\<close>

definition session_observations :: "'q ev_state \<Rightarrow> tracker_cache \<Rightarrow> u32 \<Rightarrow> delivery list" where
  "session_observations st t now =
     map (\<lambda>c. observation st c CAL_REASON_SESSION_CHANGED now)
       (filter (\<lambda>c. c_used c \<and> \<not> c_terminal c) (tc_operations t) @
        filter (\<lambda>c. c_used c \<and> \<not> c_stale c) (tc_rest t))"

definition session_switch ::
    "'q ev_state \<Rightarrow> tracker_cache \<Rightarrow> rx_event \<Rightarrow> (tracker_cache \<times> delivery list) option" where
  "session_switch st t rx =
     (let e = rx_event rx; now = rx_received_at rx
      in if tc_nonce t = ev_nonce e then Some (t, [])
         else if ev_nonce e = tc_retired_nonce t \<and> now - tc_retired_at t < TRACKER_EVENT_TTL_MS then None
         else
           let outs = (if tc_nonce t \<noteq> 0 then session_observations st t now else []);
               t1 = (if tc_nonce t \<noteq> 0
                     then t\<lparr>tc_retired_nonce := tc_nonce t, tc_retired_at := now\<rparr> else t)
           in Some (t1\<lparr>tc_nonce := ev_nonce e, tc_initialized := False,
                      tc_operations := replicate OP_COUNT zero_cache,
                      tc_rest := replicate 2 zero_cache, tc_power := zero_power\<rparr>, outs))"

text \<open>A repetition of the event that the cache already holds refreshes it.\<close>

definition heartbeat :: "tracker_cache \<Rightarrow> cache_ref \<Rightarrow> rx_event \<Rightarrow> tracker_cache \<times> delivery list" where
  "heartbeat t ref rx =
     (let e = rx_event rx; now = rx_received_at rx; c = get_cache t ref;
          t1 = (if tracker_event_is_calibration (ev_kind e)
                then t\<lparr>tc_power := power_operation_evidence (tc_power t) e (c_order c) now\<rparr> else t);
          c1 = c\<lparr>c_last_rx := now\<rparr>
      in if \<not> c_stale c then (set_cache t1 ref c1, [])
         else if ev_event e \<noteq> CAL_EVENT_STATE then (set_cache t1 ref (c1\<lparr>c_stale := False\<rparr>), [])
         else (set_cache t1 ref (c1\<lparr>c_stale := False, c_notified := 0\<rparr>),
               [\<lparr>dl_event = e, dl_generation = rx_subscription rx, dl_received_at = now,
                 dl_cache_version = c_version c, dl_opcode = RCV_HID_OP_TRACKER_OBSERVATION\<rparr>]))"

text \<open>The cache entry that an accepted event leaves, if it is one that is cached.\<close>

definition new_entry :: "tracker_event \<Rightarrow> u32 \<Rightarrow> u32 \<Rightarrow> u32 \<Rightarrow> u32 \<Rightarrow> event_cache" where
  "new_entry e now version order first =
     \<lparr>c_event = e, c_last_rx = now, c_version = version, c_notified = 0, c_order = order,
      c_first_order = first, c_used = True,
      c_terminal = (ev_event e = CAL_EVENT_END \<or> ev_event e = CAL_EVENT_REJECTED), c_stale = False\<rparr>"

definition cache_event ::
    "tracker_cache \<Rightarrow> cache_ref option \<Rightarrow> rx_event \<Rightarrow> u32 \<Rightarrow> tracker_cache \<times> u32" where
  "cache_event t found rx order =
     (let e = rx_event rx; now = rx_received_at rx; state = (ev_event e = CAL_EVENT_STATE);
          replacing = (found = None);
          ref = (case found of Some r \<Rightarrow> r | None \<Rightarrow> OpSlot (allocate_operation t now));
          c = get_cache t ref;
          terminal = (ev_event e = CAL_EVENT_END \<or> ev_event e = CAL_EVENT_REJECTED)
      in if replacing \<or> \<not> c_used c \<or> (0 < sint (order - c_order c) \<and> (\<not> c_terminal c \<or> terminal)) then
           (let version = next_generation (c_version c);
                t1 = (if \<not> state then t\<lparr>tc_power := power_operation_evidence (tc_power t) e order now\<rparr>
                      else t);
                first = (if replacing \<or> \<not> c_used c then order else c_first_order c)
            in (set_cache t1 ref (new_entry e now version order first), version))
         else (t, 0))"

definition accept_event ::
    "tracker_cache \<Rightarrow> cache_ref option \<Rightarrow> rx_event \<Rightarrow> tracker_cache \<times> delivery list" where
  "accept_event t found rx =
     (let e = rx_event rx; now = rx_received_at rx; state = (ev_event e = CAL_EVENT_STATE)
      in case unseen t (ev_seq e) now of
           (False, t1) \<Rightarrow> (t1, [])
         | (True, t1) \<Rightarrow>
             (let order = tc_order t1 - ucast (tc_high t1 - ev_seq e);
                  storage = (tracker_event_is_calibration (ev_kind e) \<and>
                    ev_event e = CAL_EVENT_STEP \<and> ev_phase e = CAL_PHASE_STORAGE);
                  outdated = (case found of Some r \<Rightarrow> state \<and> c_used (get_cache t1 r) \<and>
                    sint (order - c_order (get_cache t1 r)) \<le> 0 | None \<Rightarrow> False)
              in if outdated then (t1, [])
                 else
                   let t2 = (if ev_kind e = KIND_POWER
                             then t1\<lparr>tc_power := power_notice (tc_power t1) e order now\<rparr> else t1);
                       (t3, version) =
                         (if state \<or> (tracker_event_is_calibration (ev_kind e) \<and> \<not> storage)
                          then cache_event t2 found rx order else (t2, 0))
                   in (t3, [\<lparr>dl_event = e, dl_generation = rx_subscription rx, dl_received_at = now,
                            dl_cache_version = version, dl_opcode = RCV_HID_OP_TRACKER_EVENT\<rparr>])))"

definition locate_cache :: "tracker_cache \<Rightarrow> tracker_event \<Rightarrow> cache_ref option" where
  "locate_cache t e =
     (if ev_event e = CAL_EVENT_STATE
      then Some (RestSlot (if ev_kind e = KIND_FUSION_REST then 1 else 0))
      else map_option OpSlot (find_operation t e))"

text \<open>The critical section of \<open>process_rx\<close>: the new state and the deliveries to make.\<close>

definition rx_update :: "'q ev_state \<Rightarrow> rx_event \<Rightarrow> 'q ev_state \<times> delivery list" where
  "rx_update st rx =
     (let e = rx_event rx; t = unat (ev_tracker e)
      in if rx_pairing rx \<noteq> pairing_generations st ! t then (st, [])
         else
           let st1 = reset_pairing_cache st t
           in case session_switch st1 (trackers st1 ! t) rx of
                None \<Rightarrow> (st1, [])
              | Some (tc, outs) \<Rightarrow>
                  (let found = locate_cache tc e;
                       (tc', more) =
                         (case found of
                            Some ref \<Rightarrow>
                              if c_used (get_cache tc ref) \<and> same_event (c_event (get_cache tc ref)) e
                              then heartbeat tc ref rx else accept_event tc found rx
                          | None \<Rightarrow> accept_event tc found rx)
                   in (st1\<lparr>trackers := (trackers st1)[t := tc']\<rparr>, outs @ more)))"

definition process_rx :: "'h hid_env \<Rightarrow> rx_event \<Rightarrow> 'q ev_state \<times> 'h \<Rightarrow> 'q ev_state \<times> 'h" where
  "process_rx env rx sh =
     (case sh of (st, h) \<Rightarrow>
        let (st1, outs) = rx_update st rx in fold (deliver env) outs (st1, h))"

section \<open>The worker\<close>

fun drain_rx :: "'q msgq_ops \<Rightarrow> 'h hid_env \<Rightarrow> nat \<Rightarrow> 'q ev_state \<times> 'h \<Rightarrow> 'q ev_state \<times> 'h" where
  "drain_rx mq env 0 sh = sh"
| "drain_rx mq env (Suc n) (st, h) =
     (case msgq_get mq (event_rx_queue st) of
        None \<Rightarrow> (st, h)
      | Some (rx, q) \<Rightarrow> drain_rx mq env n (process_rx env rx (st\<lparr>event_rx_queue := q\<rparr>, h)))"

text \<open>Slot \<open>i\<close> of the sweep is an operation, or one of the two rest states.\<close>

definition slot_ref :: "nat \<Rightarrow> cache_ref" where
  "slot_ref i = (if OP_COUNT \<le> i then RestSlot (i - OP_COUNT) else OpSlot i)"

text \<open>The critical section of the sweep for slot \<open>i\<close> of tracker \<open>t\<close>.\<close>

definition sweep_slot :: "'q ev_state \<Rightarrow> nat \<Rightarrow> nat \<Rightarrow> u32 \<Rightarrow> 'q ev_state \<times> delivery option" where
  "sweep_slot st t i now =
     (let tc = trackers st ! t
      in if tc_pairing tc \<noteq> pairing_generations st ! t then (st, None)
         else
           let state = (OP_COUNT \<le> i);
               ref = slot_ref i;
               c = get_cache tc ref;
               timeout = (if state then TRACKER_EVENT_REST_STALE_MS else TRACKER_EVENT_CAL_SILENCE_MS)
           in if c_used c \<and> \<not> c_terminal c \<and> \<not> c_stale c \<and> timeout \<le> now - c_last_rx c then
                (let c1 = c\<lparr>c_stale := True\<rparr>;
                     (reason, pow) = (if state then (CAL_REASON_TRANSPORT_SILENCE, tc_power tc)
                                        else silence_reason (tc_power tc) c1 now);
                     tc1 = (set_cache tc ref c1)\<lparr>tc_power := pow\<rparr>
                 in (st\<lparr>trackers := (trackers st)[t := tc1]\<rparr>, Some (observation st c1 reason now)))
              else if state \<and> c_used c \<and> \<not> c_stale c \<and> matches st (of_nat t) (ev_kind (c_event c)) now \<and>
                      c_notified c \<noteq> subscription_generation st
              then (st, Some \<lparr>dl_event = c_event c, dl_generation = subscription_generation st,
                     dl_received_at = c_last_rx c, dl_cache_version = c_version c,
                     dl_opcode = RCV_HID_OP_TRACKER_OBSERVATION\<rparr>)
              else (st, None))"

definition sweep_one :: "'h hid_env \<Rightarrow> u32 \<Rightarrow> nat \<times> nat \<Rightarrow> 'q ev_state \<times> 'h \<Rightarrow> 'q ev_state \<times> 'h" where
  "sweep_one env now ti sh =
     (case sh of (st, h) \<Rightarrow>
        (case sweep_slot st (fst ti) (snd ti) now of
           (st1, None) \<Rightarrow> (st1, h)
         | (st1, Some out) \<Rightarrow> deliver env out (st1, h)))"

definition sweep_slots :: "(nat \<times> nat) list" where
  "sweep_slots = List.product [0..<TRACKER_EVENT_MAX_TRACKERS] [0..<OP_COUNT + 2]"

definition diagnose :: "'q ev_state \<Rightarrow> u32 \<Rightarrow> 'q ev_state" where
  "diagnose st now =
     (if 10000 \<le> now - last_diagnostic st
      then st\<lparr>reported_drops := dropped st, last_diagnostic := now\<rparr> else st)"

definition tracker_events_process ::
    "'q msgq_ops \<Rightarrow> 'h hid_env \<Rightarrow> u32 \<Rightarrow> 'q ev_state \<times> 'h \<Rightarrow> 'q ev_state \<times> 'h" where
  "tracker_events_process mq env now sh =
     (let (st, h) = fold (sweep_one env now) sweep_slots (drain_rx mq env RX_COUNT sh)
      in (diagnose st now, h))"

end
