(* ===== verification/TrackerEventsCorrect.thy ===== *)
theory TrackerEventsCorrect
  imports TrackerEvents
begin

text \<open>
  What the event service guarantees: generations retire queued work, the duplicate window
  accepts an event once, the caches stay well formed under every operation of the service,
  the output buffer of \<open>process_rx\<close> never overflows, a terminal result is never rolled
  back, and silence is reported once.
\<close>

section \<open>Generations\<close>

lemma next_generation_neq [simp]: "next_generation g \<noteq> g" "g \<noteq> next_generation g"
proof -
  show "next_generation g \<noteq> g"
  proof (cases "g + 1 = 0")
    case True
    then have "g = - 1" by (simp add: eq_neg_iff_add_eq_0)
    then show ?thesis by (simp add: next_generation_def)
  next
    case False
    then show ?thesis by (simp add: next_generation_def)
  qed
  then show "g \<noteq> next_generation g" by metis
qed

lemma next_generation_nonzero [simp]: "next_generation g \<noteq> 0"
  by (simp add: next_generation_def Let_def)

section \<open>The duplicate window\<close>

lemma window_bit: "(x :: u64) AND push_bit n 1 \<noteq> 0 \<longleftrightarrow> bit x n"
  by (simp add: push_bit_of_1 and_exp_eq_0_iff_not_bit)

lemma unseen_replay:
  assumes acc: "unseen t seq now = (True, t')" and live: "now' - tc_high_at t' < TRACKER_EVENT_TTL_MS"
  shows "unseen t' seq now' = (False, t')"
proof (cases "tc_initialized t \<and> now - tc_high_at t < TRACKER_EVENT_TTL_MS \<and> \<not> newer seq (tc_high t)")
  case True
  let ?age = "tc_high t - seq"
  from True acc have age: "\<not> 64 \<le> ?age" and t': "t' = t\<lparr>tc_seen := tc_seen t OR push_bit (unat ?age) 1\<rparr>"
    by (auto simp: unseen_def Let_def not_le split: if_splits)
  have "unat ?age < 64" using age by (simp add: not_le word_less_nat_alt)
  then have "bit (tc_seen t') (unat ?age)" by (simp add: t' bit_simps)
  then have "tc_seen t' AND push_bit (unat ?age) 1 \<noteq> 0" by (simp only: window_bit not_False_eq_True)
  moreover have "(TRACKER_EVENT_TTL_MS \<le> now' - tc_high_at t) = False"
    using live t' by (simp add: not_le)
  ultimately show ?thesis using True t' by (simp add: unseen_def)
next
  case False
  with acc have "tc_initialized t'" "tc_high t' = seq" "bit (tc_seen t') 0"
    by (auto simp: unseen_def Let_def not_le bit_simps split: if_splits)
  moreover from this(3) have "tc_seen t' AND push_bit 0 1 \<noteq> 0" by (simp only: window_bit not_False_eq_True)
  moreover have "(TRACKER_EVENT_TTL_MS \<le> now' - tc_high_at t') = False"
    using live by (simp add: not_le)
  ultimately show ?thesis by (simp add: unseen_def newer_def)
qed

definition window_live :: "tracker_cache \<Rightarrow> u16 \<Rightarrow> u32 \<Rightarrow> bool" where
  "window_live t seq now \<longleftrightarrow> now - tc_high_at t < TRACKER_EVENT_TTL_MS"

interpretation event_window: replay_filter unseen window_live
  by unfold_locales (auto simp: window_live_def intro: unseen_replay)

section \<open>Well-formed caches\<close>

definition op_ok :: "nat \<Rightarrow> event_cache \<Rightarrow> bool" where
  "op_ok t c \<longleftrightarrow> (c_used c \<longrightarrow> tracker_event_valid (c_event c) \<and> unat (ev_tracker (c_event c)) = t \<and>
     tracker_event_is_calibration (ev_kind (c_event c)) \<and>
     (c_terminal c \<longleftrightarrow> ev_event (c_event c) \<in> {CAL_EVENT_END, CAL_EVENT_REJECTED}))"

definition rest_ok :: "nat \<Rightarrow> nat \<Rightarrow> event_cache \<Rightarrow> bool" where
  "rest_ok t k c \<longleftrightarrow> (c_used c \<longrightarrow> tracker_event_valid (c_event c) \<and> unat (ev_tracker (c_event c)) = t \<and>
     ev_event (c_event c) = CAL_EVENT_STATE \<and>
     ev_kind (c_event c) = (if k = 1 then KIND_FUSION_REST else KIND_TRACKER_REST) \<and> \<not> c_terminal c)"

fun ref_ok :: "cache_ref \<Rightarrow> bool" where
  "ref_ok (RestSlot k) \<longleftrightarrow> k < 2"
| "ref_ok (OpSlot i) \<longleftrightarrow> i < OP_COUNT"

fun cache_ok :: "nat \<Rightarrow> cache_ref \<Rightarrow> event_cache \<Rightarrow> bool" where
  "cache_ok t (RestSlot k) c = rest_ok t k c"
| "cache_ok t (OpSlot i) c = op_ok t c"

definition tc_ok :: "nat \<Rightarrow> tracker_cache \<Rightarrow> bool" where
  "tc_ok t tc \<longleftrightarrow> length (tc_operations tc) = OP_COUNT \<and> length (tc_rest tc) = 2 \<and>
     list_all (op_ok t) (tc_operations tc) \<and> (\<forall>k<2. rest_ok t k (tc_rest tc ! k)) \<and>
     (tc_initialized tc \<longrightarrow> bit (tc_seen tc) 0)"

definition ev_ok :: "'q ev_state \<Rightarrow> bool" where
  "ev_ok st \<longleftrightarrow> length (trackers st) = TRACKER_EVENT_MAX_TRACKERS \<and>
     length (pairing_generations st) = TRACKER_EVENT_MAX_TRACKERS \<and>
     (\<forall>t<TRACKER_EVENT_MAX_TRACKERS. tc_ok t (trackers st ! t)) \<and>
     usb_generation st \<noteq> 0 \<and> subscription_generation st \<noteq> 0"

lemma zero_cache_ok [simp]: "op_ok t zero_cache" "rest_ok t k zero_cache" "cache_ok t ref zero_cache"
  by (cases ref; simp add: op_ok_def rest_ok_def zero_cache_def)+

lemma tc_ok_empty [simp]:
  "tc_ok t (tc\<lparr>tc_initialized := False, tc_operations := replicate 8 zero_cache,
      tc_rest := replicate 2 zero_cache, tc_power := p\<rparr>)"
  by (simp add: tc_ok_def)

lemma tc_ok_frame [simp]:
  "tc_ok t (tc\<lparr>tc_power := p\<rparr>) = tc_ok t tc" "tc_ok t (tc\<lparr>tc_nonce := n\<rparr>) = tc_ok t tc"
  "tc_ok t (tc\<lparr>tc_pairing := n\<rparr>) = tc_ok t tc"
  "tc_ok t (tc\<lparr>tc_retired_nonce := n, tc_retired_at := m\<rparr>) = tc_ok t tc"
  by (simp_all add: tc_ok_def)

lemma zero_tracker_ok [simp]: "tc_ok t zero_tracker"
  by (simp add: tc_ok_def zero_tracker_def)

lemma tc_ok_get: "tc_ok t tc \<Longrightarrow> ref_ok ref \<Longrightarrow> cache_ok t ref (get_cache tc ref)"
  by (cases ref) (auto simp: tc_ok_def list_all_length)

lemma tc_ok_set: "tc_ok t tc \<Longrightarrow> cache_ok t ref c \<Longrightarrow> tc_ok t (set_cache tc ref c)"
  by (cases ref) (auto simp: tc_ok_def list_all_update nth_list_update_if)

lemma cache_ok_frame [simp]:
  "cache_ok t ref (c\<lparr>c_last_rx := x\<rparr>) = cache_ok t ref c"
  "cache_ok t ref (c\<lparr>c_stale := b\<rparr>) = cache_ok t ref c"
  "cache_ok t ref (c\<lparr>c_notified := g\<rparr>) = cache_ok t ref c"
  by (cases ref; simp add: op_ok_def rest_ok_def)+

lemma set_cache_power: "set_cache (tc\<lparr>tc_power := p\<rparr>) ref c = (set_cache tc ref c)\<lparr>tc_power := p\<rparr>"
  by (cases ref) simp_all

lemma unseen_ok:
  assumes "tc_ok t tc" and "unseen tc seq now = (r, tc')"
  shows "tc_ok t tc' \<and> tc_operations tc' = tc_operations tc \<and> tc_rest tc' = tc_rest tc"
  using assms by (auto simp: unseen_def tc_ok_def Let_def bit_simps split: if_splits)

lemma get_cache_cong:
  "tc_operations a = tc_operations b \<Longrightarrow> tc_rest a = tc_rest b \<Longrightarrow> get_cache a ref = get_cache b ref"
  by (cases ref) simp_all

section \<open>Events and slots\<close>

lemma state_event_kind:
  assumes "tracker_event_valid e" and "ev_event e = CAL_EVENT_STATE"
  shows "ev_kind e = KIND_TRACKER_REST \<or> ev_kind e = KIND_FUSION_REST"
  using assms
  by (auto simp: tracker_event_valid_def calibration_event_valid_def split: if_splits)

lemma oldest_operation_bounds:
  "oldest_operation cs now n best = Some i \<Longrightarrow>
     (\<forall>j c. best = Some (j, c) \<longrightarrow> j < n) \<Longrightarrow> i < n + length cs"
  by (induction cs now n best rule: oldest_operation.induct)
    (fastforce split: if_splits option.splits prod.splits)+

lemma allocate_operation_bounds:
  assumes "length (tc_operations tc) = OP_COUNT"
  shows "allocate_operation tc now < OP_COUNT"
  using oldest_operation_bounds [of "tc_operations tc" now 0 None] assms
  by (auto simp: allocate_operation_def split: option.splits)

lemma locate_cache_ok:
  assumes "tc_ok t tc" and "locate_cache tc e = Some ref"
  shows "ref_ok ref"
  using assms
  by (auto simp: locate_cache_def find_operation_def tc_ok_def split: if_splits dest: find_index_SomeD)

lemma locate_cache_state:
  "locate_cache tc e = None \<Longrightarrow> ev_event e \<noteq> CAL_EVENT_STATE"
  by (auto simp: locate_cache_def split: if_splits)

lemma fresh_entry_ok:
  assumes "tracker_event_valid e" and "unat (ev_tracker e) = t"
    and "ev_event e = CAL_EVENT_STATE \<or> tracker_event_is_calibration (ev_kind e)"
    and "ref = (case locate_cache tc e of Some r \<Rightarrow> r | None \<Rightarrow> OpSlot i)"
  shows "cache_ok t ref (new_entry e now version order first)"
proof (cases "ev_event e = CAL_EVENT_STATE")
  case True
  with assms(1,2,4) state_event_kind [OF assms(1) True] show ?thesis
    by (auto simp: locate_cache_def rest_ok_def new_entry_def)
next
  case False
  with assms show ?thesis
    by (auto simp: locate_cache_def op_ok_def new_entry_def split: option.splits)
qed

lemma cache_event_ok:
  assumes ok: "tc_ok t tc" and e: "tracker_event_valid (rx_event rx)" "unat (ev_tracker (rx_event rx)) = t"
    and kind: "ev_event (rx_event rx) = CAL_EVENT_STATE \<or>
      tracker_event_is_calibration (ev_kind (rx_event rx))"
    and loc: "found = locate_cache old (rx_event rx)"
  shows "tc_ok t (fst (cache_event tc found rx order))"
proof -
  let ?ref = "case found of Some r \<Rightarrow> r | None \<Rightarrow> OpSlot (allocate_operation tc (rx_received_at rx))"
  note entry = fresh_entry_ok [OF e kind, where ref = ?ref and tc = old
      and i = "allocate_operation tc (rx_received_at rx)"]
  show ?thesis
    using tc_ok_set [OF ok entry] ok
    by (simp add: cache_event_def Let_def set_cache_power loc)
qed

lemma accept_event_ok:
  assumes ok: "tc_ok t tc" and e: "tracker_event_valid (rx_event rx)" "unat (ev_tracker (rx_event rx)) = t"
    and loc: "found = locate_cache tc (rx_event rx)"
  shows "tc_ok t (fst (accept_event tc found rx))"
proof -
  obtain r tc1 where u: "unseen tc (ev_seq (rx_event rx)) (rx_received_at rx) = (r, tc1)"
    by (cases "unseen tc (ev_seq (rx_event rx)) (rx_received_at rx)")
  have ok1: "tc_ok t tc1" using unseen_ok [OF ok u] by simp
  then have ok2: "tc_ok t (tc1\<lparr>tc_power := p\<rparr>)" for p by simp
  show ?thesis
    using ok1 by (cases r; cases found)
      (auto simp: accept_event_def u Let_def case_prod_beta loc [symmetric]
        intro!: cache_event_ok [where old = tc, OF ok1 e] cache_event_ok [where old = tc, OF ok2 e])
qed

lemma heartbeat_ok: "tc_ok t tc \<Longrightarrow> ref_ok ref \<Longrightarrow> tc_ok t (fst (heartbeat tc ref rx))"
  by (auto simp: heartbeat_def Let_def set_cache_power intro!: tc_ok_set dest: tc_ok_get)

lemma session_switch_ok:
  assumes "tc_ok t tc" and "session_switch st tc rx = Some (tc', outs)"
  shows "tc_ok t tc'"
  using assms by (auto simp: session_switch_def Let_def tc_ok_def split: if_splits)

section \<open>The service keeps its invariant\<close>

lemma ev_ok_update:
  "ev_ok st \<Longrightarrow> tc_ok t tc \<Longrightarrow> ev_ok (st\<lparr>trackers := (trackers st)[t := tc]\<rparr>)"
  by (auto simp: ev_ok_def nth_list_update_if)

lemma reset_pairing_cache_ok: "ev_ok st \<Longrightarrow> ev_ok (reset_pairing_cache st t)"
  by (auto simp: reset_pairing_cache_def intro!: ev_ok_update)

lemma rx_update_ok:
  assumes ok: "ev_ok st" and e: "tracker_event_valid (rx_event rx)"
  shows "ev_ok (fst (rx_update st rx))"
proof -
  let ?t = "unat (ev_tracker (rx_event rx))"
  let ?st = "reset_pairing_cache st ?t"
  have t: "?t < TRACKER_EVENT_MAX_TRACKERS" using e by (rule tracker_event_valid_tracker)
  have ok1: "ev_ok ?st" using ok by (rule reset_pairing_cache_ok)
  then have tc: "tc_ok ?t (trackers ?st ! ?t)" using t by (simp add: ev_ok_def)
  show ?thesis
  proof (cases "session_switch ?st (trackers ?st ! ?t) rx")
    case None
    then show ?thesis using ok ok1 by (simp add: rx_update_def Let_def)
  next
    case (Some p)
    then obtain tc' outs where p: "p = (tc', outs)" by (cases p)
    have tc': "tc_ok ?t tc'" using session_switch_ok [OF tc] Some p by blast
    note steps = accept_event_ok [OF tc' e refl refl] heartbeat_ok [OF tc' locate_cache_ok [OF tc']]
    show ?thesis
      using Some p ok ok1 steps
      by (auto simp: rx_update_def Let_def split: option.splits prod.splits intro!: ev_ok_update)
        (metis fst_conv option.simps)+
  qed
qed

section \<open>Deliveries\<close>

definition dl_ok :: "delivery \<Rightarrow> bool" where
  "dl_ok d \<longleftrightarrow> unat (ev_tracker (dl_event d)) < TRACKER_EVENT_MAX_TRACKERS \<and>
     ev_event (dl_event d) < 16 \<and> ev_outcome (dl_event d) < 16"

lemma cache_ok_valid: "cache_ok t ref c \<Longrightarrow> c_used c \<Longrightarrow> tracker_event_valid (c_event c)"
  by (cases ref) (auto simp: op_ok_def rest_ok_def)

lemma observation_ok:
  assumes v: "tracker_event_valid (c_event c)"
  shows "dl_ok (observation st c reason now)"
  using tracker_event_valid_tracker [OF v] tracker_event_valid_nibbles [OF v]
  by (auto simp: dl_ok_def observation_def Let_def)

lemma event_delivery_ok:
  "tracker_event_valid e \<Longrightarrow> dl_ok \<lparr>dl_event = e, dl_generation = g, dl_received_at = n,
     dl_cache_version = v, dl_opcode = opc\<rparr>"
  by (simp add: dl_ok_def tracker_event_valid_tracker tracker_event_valid_nibbles)

lemma accept_event_outputs:
  "tracker_event_valid (rx_event rx) \<Longrightarrow>
     length (snd (accept_event tc found rx)) \<le> 1 \<and> list_all dl_ok (snd (accept_event tc found rx))"
  by (cases "unseen tc (ev_seq (rx_event rx)) (rx_received_at rx)"; cases "fst (unseen tc (ev_seq (rx_event rx)) (rx_received_at rx))")
    (auto simp: accept_event_def Let_def case_prod_beta event_delivery_ok)

lemma heartbeat_outputs:
  "tracker_event_valid (rx_event rx) \<Longrightarrow>
     length (snd (heartbeat tc ref rx)) \<le> 1 \<and> list_all dl_ok (snd (heartbeat tc ref rx))"
  by (auto simp: heartbeat_def Let_def event_delivery_ok)

lemma session_observations_ok:
  assumes "tc_ok t tc"
  shows "length (session_observations st tc now) \<le> OP_COUNT + 2 \<and>
    list_all dl_ok (session_observations st tc now)"
proof
  have "length (filter (\<lambda>c. c_used c \<and> \<not> c_terminal c) (tc_operations tc)) \<le> OP_COUNT"
    "length (filter (\<lambda>c. c_used c \<and> \<not> c_stale c) (tc_rest tc)) \<le> 2"
    using assms by (metis length_filter_le tc_ok_def)+
  then show "length (session_observations st tc now) \<le> OP_COUNT + 2"
    by (simp add: session_observations_def)
  have "tracker_event_valid (c_event c)" if "c \<in> set (tc_operations tc)" "c_used c" for c
    using assms that by (auto simp: tc_ok_def list_all_iff op_ok_def)
  moreover have "tracker_event_valid (c_event c)" if "c \<in> set (tc_rest tc)" "c_used c" for c
    using assms that by (auto simp: tc_ok_def in_set_conv_nth rest_ok_def)
  ultimately show "list_all dl_ok (session_observations st tc now)"
    by (auto simp: session_observations_def list_all_iff intro: observation_ok)
qed

lemma session_switch_outputs:
  assumes "tc_ok t tc" and "session_switch st tc rx = Some (tc', outs)"
  shows "length outs \<le> OP_COUNT + 2 \<and> list_all dl_ok outs"
  using assms session_observations_ok [OF assms(1)]
  by (auto simp: session_switch_def Let_def split: if_splits)

lemma rx_update_outputs:
  assumes ok: "ev_ok st" and e: "tracker_event_valid (rx_event rx)"
  shows "length (snd (rx_update st rx)) \<le> OP_COUNT + 3 \<and> list_all dl_ok (snd (rx_update st rx))"
proof -
  let ?t = "unat (ev_tracker (rx_event rx))"
  let ?st = "reset_pairing_cache st ?t"
  have "?t < TRACKER_EVENT_MAX_TRACKERS" using e by (rule tracker_event_valid_tracker)
  then have tc: "tc_ok ?t (trackers ?st ! ?t)"
    using reset_pairing_cache_ok [OF ok] by (simp add: ev_ok_def)
  show ?thesis
  proof (cases "session_switch ?st (trackers ?st ! ?t) rx")
    case None
    then show ?thesis by (simp add: rx_update_def Let_def)
  next
    case (Some p)
    then obtain tc' outs where p: "p = (tc', outs)" by (cases p)
    have "length outs \<le> OP_COUNT + 2 \<and> list_all dl_ok outs"
      using session_switch_outputs [OF tc] Some p by blast
    moreover obtain more where "snd (rx_update st rx) = [] \<or> snd (rx_update st rx) = outs @ more"
      and "length more \<le> 1 \<and> list_all dl_ok more"
    proof -
      let ?found = "locate_cache tc' (rx_event rx)"
      have "snd (rx_update st rx) = [] \<or>
          (\<exists>ref. snd (rx_update st rx) = outs @ snd (heartbeat tc' ref rx)) \<or>
          snd (rx_update st rx) = outs @ snd (accept_event tc' ?found rx)"
        using Some p by (cases ?found) (auto simp: rx_update_def Let_def case_prod_beta)
      then show thesis
        using that accept_event_outputs [OF e, of tc' ?found] heartbeat_outputs [OF e, of tc'] by metis
    qed
    ultimately show ?thesis by auto
  qed
qed

lemma delivery_commit_ok:
  assumes ok: "ev_ok st" and d: "dl_ok out"
  shows "ev_ok (delivery_commit st out)"
proof -
  let ?t = "unat (ev_tracker (dl_event out))"
  let ?k = "if ev_kind (dl_event out) = KIND_FUSION_REST then 1 else (0 :: nat)"
  let ?tc = "trackers st ! ?t"
  have tc: "tc_ok ?t ?tc" using ok d by (simp add: ev_ok_def dl_ok_def)
  have "cache_ok ?t (RestSlot ?k) (get_cache ?tc (RestSlot ?k))" using tc by (intro tc_ok_get) auto
  then have "tc_ok ?t (set_cache ?tc (RestSlot ?k) ((get_cache ?tc (RestSlot ?k))\<lparr>c_notified := g\<rparr>))"
    for g using tc by (intro tc_ok_set) (simp_all only: cache_ok_frame)
  from ev_ok_update [OF ok this] ok show ?thesis by (simp add: delivery_commit_def Let_def)
qed

lemma deliver_ok: "ev_ok st \<Longrightarrow> dl_ok out \<Longrightarrow> ev_ok (fst (deliver env out (st, h)))"
  by (auto simp: deliver_def Let_def case_prod_beta delivery_commit_ok split: prod.splits bool.splits)

lemma sweep_slot_ok:
  assumes ok: "ev_ok st" and t: "t < TRACKER_EVENT_MAX_TRACKERS" and i: "i < OP_COUNT + 2"
    and sw: "sweep_slot st t i now = (st', out)"
  shows "ev_ok st' \<and> pred_option dl_ok out"
proof -
  define tc where "tc = trackers st ! t"
  define ref where "ref = slot_ref i"
  define c where "c = get_cache tc ref"
  have tc: "tc_ok t tc" using ok t by (simp add: ev_ok_def tc_def)
  have c: "cache_ok t ref c" unfolding c_def using tc i by (intro tc_ok_get) (auto simp: ref_def slot_ref_def)
  note valid = cache_ok_valid [OF c]
  have "st' = st \<and> out = None \<or>
      (\<exists>p r. c_used c \<and> st' = st\<lparr>trackers := (trackers st)[t :=
        (set_cache tc ref (c\<lparr>c_stale := True\<rparr>))\<lparr>tc_power := p\<rparr>]\<rparr> \<and>
        out = Some (observation st (c\<lparr>c_stale := True\<rparr>) r now)) \<or>
      (\<exists>g n v opc. c_used c \<and> st' = st \<and> out = Some \<lparr>dl_event = c_event c, dl_generation = g,
        dl_received_at = n, dl_cache_version = v, dl_opcode = opc\<rparr>)"
    using sw by (auto simp: sweep_slot_def Let_def case_prod_beta
        tc_def [symmetric] ref_def [symmetric] c_def [symmetric] split: if_splits)
  moreover have "ev_ok (st\<lparr>trackers := (trackers st)[t :=
      (set_cache tc ref (c\<lparr>c_stale := True\<rparr>))\<lparr>tc_power := p\<rparr>]\<rparr>)" for p
    using ok tc c by (intro ev_ok_update) (simp_all add: tc_ok_set)
  ultimately show ?thesis
    using ok valid by (auto intro!: observation_ok event_delivery_ok)
qed

section \<open>The service as a state machine\<close>

text \<open>
  A configuration is the state of the service, the state of the delivery environment and the
  deliveries the worker still has to make. The worker is interrupted between its critical
  sections: radio reception, host control, USB resets and pairing changes may run at any of
  these points, so every critical section is a step of its own.
\<close>

type_synonym ('q, 'h) ev_config = "'q ev_state \<times> 'h \<times> delivery list"

inductive ev_step :: "'q msgq_ops \<Rightarrow> 'h hid_env \<Rightarrow> ('q, 'h) ev_config \<Rightarrow> ('q, 'h) ev_config \<Rightarrow> bool"
  for mq :: "'q msgq_ops" and env :: "'h hid_env" where
  step_receive: "ev_step mq env (st, h, outs) (snd (tracker_events_receive mq st packet now), h, outs)"
| step_control: "ev_step mq env (st, h, outs) (snd (tracker_events_control st args gen now), h, outs)"
| step_usb_reset: "ev_step mq env (st, h, outs) (tracker_events_usb_reset st, h, outs)"
| step_invalidate: "ev_step mq env (st, h, outs) (tracker_events_pairing_invalidate st msk, h, outs)"
| step_cleanup: "t < TRACKER_EVENT_MAX_TRACKERS \<Longrightarrow>
    ev_step mq env (st, h, outs) (reset_pairing_cache st t, h, outs)"
| step_rx: "msgq_get mq (event_rx_queue st) = Some (rx, q) \<Longrightarrow>
    rx_update (st\<lparr>event_rx_queue := q\<rparr>) rx = (st', outs) \<Longrightarrow> ev_step mq env (st, h, []) (st', h, outs)"
| step_deliver: "deliver env out (st, h) = (st', h') \<Longrightarrow>
    ev_step mq env (st, h, out # outs) (st', h', outs)"
| step_sweep: "t < TRACKER_EVENT_MAX_TRACKERS \<Longrightarrow> i < OP_COUNT + 2 \<Longrightarrow>
    sweep_slot st t i now = (st', out) \<Longrightarrow>
    ev_step mq env (st, h, []) (st', h, case out of None \<Rightarrow> [] | Some d \<Rightarrow> [d])"
| step_diagnose: "ev_step mq env (st, h, outs) (diagnose st now, h, outs)"

inductive ev_reachable :: "'q msgq_ops \<Rightarrow> 'h hid_env \<Rightarrow> 'q \<Rightarrow> ('q, 'h) ev_config \<Rightarrow> bool"
  for mq :: "'q msgq_ops" and env :: "'h hid_env" and q0 :: 'q where
  reach_boot: "ev_reachable mq env q0 (ev_boot q0, h, [])"
| reach_step: "ev_reachable mq env q0 c \<Longrightarrow> ev_step mq env c c' \<Longrightarrow> ev_reachable mq env q0 c'"

text \<open>
  What the kernel documents of a message queue, for a function that reads its content: an
  admitted element goes to the end, and reading takes the first one.
\<close>

definition msgq_law :: "'q msgq_ops \<Rightarrow> ('q \<Rightarrow> rx_event list) \<Rightarrow> bool" where
  "msgq_law mq content \<longleftrightarrow>
     (\<forall>q x q'. msgq_put mq q x = Some q' \<longrightarrow> content q' = content q @ [x]) \<and>
     (\<forall>q x q'. msgq_get mq q = Some (x, q') \<longrightarrow> content q = x # content q')"

definition list_msgq :: "rx_event list msgq_ops" where
  "list_msgq = \<lparr>msgq_put = (\<lambda>q x. if length q < RX_COUNT then Some (q @ [x]) else None),
     msgq_get = (\<lambda>q. case q of [] \<Rightarrow> None | x # q' \<Rightarrow> Some (x, q'))\<rparr>"

lemma list_msgq_law: "msgq_law list_msgq (\<lambda>q. q)"
  by (auto simp: msgq_law_def list_msgq_def split: if_splits list.splits)

definition ev_inv :: "('q \<Rightarrow> rx_event list) \<Rightarrow> ('q, 'h) ev_config \<Rightarrow> bool" where
  "ev_inv content c \<longleftrightarrow> (case c of (st, h, outs) \<Rightarrow>
     ev_ok st \<and> (\<forall>rx\<in>set (content (event_rx_queue st)). tracker_event_valid (rx_event rx)) \<and>
     list_all dl_ok outs \<and> length outs \<le> OP_COUNT + 3)"

lemma queue_frame [simp]:
  "event_rx_queue (reset_pairing_cache st t) = event_rx_queue st"
  "event_rx_queue (tracker_events_usb_reset st) = event_rx_queue st"
  "event_rx_queue (tracker_events_pairing_invalidate st msk) = event_rx_queue st"
  "event_rx_queue (control_apply st a f m now) = event_rx_queue st"
  "event_rx_queue (delivery_commit st out) = event_rx_queue st"
  "event_rx_queue (diagnose st now) = event_rx_queue st"
  by (simp_all add: reset_pairing_cache_def tracker_events_usb_reset_def control_apply_def
      tracker_events_pairing_invalidate_def delivery_commit_def diagnose_def Let_def)

lemma queue_frame_fst [simp]:
  "event_rx_queue (snd (tracker_events_control st args gen now)) = event_rx_queue st"
  "event_rx_queue (fst (rx_update st rx)) = event_rx_queue st"
  "event_rx_queue (fst (deliver env out (st, h))) = event_rx_queue st"
  "event_rx_queue (fst (sweep_slot st t i now)) = event_rx_queue st"
  by (auto simp: tracker_events_control_def rx_update_def deliver_def sweep_slot_def Let_def
      case_prod_beta split: option.splits bool.splits)

lemma control_ok: "ev_ok st \<Longrightarrow> ev_ok (snd (tracker_events_control st args gen now))"
  by (auto simp: ev_ok_def tracker_events_control_def control_apply_def Let_def)

lemma receive_inv:
  assumes law: "msgq_law mq content" and inv: "ev_inv content (st, h, outs)"
  shows "ev_inv content (snd (tracker_events_receive mq st packet now), h, outs)"
proof (cases "tracker_event_decode packet")
  case None
  with inv show ?thesis by (auto simp: tracker_events_receive_def ev_inv_def ev_ok_def)
next
  case (Some e)
  then have "tracker_event_valid e" by (rule event_codec.decode_valid)
  with Some inv law show ?thesis
    by (auto simp: tracker_events_receive_def ev_inv_def ev_ok_def msgq_law_def Let_def
        split: option.splits)
qed

lemma ev_step_inv:
  assumes law: "msgq_law mq content"
  shows "ev_step mq env c c' \<Longrightarrow> ev_inv content c \<Longrightarrow> ev_inv content c'"
proof (induction rule: ev_step.induct)
  case (step_receive st h outs packet now)
  then show ?case by (rule receive_inv [OF law])
next
  case (step_control st h outs args gen now)
  then show ?case by (simp add: ev_inv_def control_ok)
next
  case (step_usb_reset st h outs)
  then show ?case by (auto simp: ev_inv_def ev_ok_def tracker_events_usb_reset_def)
next
  case (step_invalidate st h outs msk)
  then show ?case by (auto simp: ev_inv_def ev_ok_def tracker_events_pairing_invalidate_def)
next
  case (step_cleanup t st h outs)
  then show ?case by (simp add: ev_inv_def reset_pairing_cache_ok)
next
  case (step_rx st rx q st' outs h)
  let ?st = "st\<lparr>event_rx_queue := q\<rparr>"
  from law step_rx(1) have "content (event_rx_queue st) = rx # content q" by (simp add: msgq_law_def)
  with step_rx(3) have ok: "ev_ok ?st" and rx: "tracker_event_valid (rx_event rx)"
    and q: "\<forall>rx\<in>set (content q). tracker_event_valid (rx_event rx)"
    by (auto simp: ev_inv_def ev_ok_def)
  from rx_update_ok [OF ok rx] rx_update_outputs [OF ok rx] queue_frame_fst(2) [of ?st rx] q step_rx(2)
  show ?case by (simp add: ev_inv_def)
next
  case (step_deliver out st h st' h' outs)
  with deliver_ok [of st out env h] queue_frame_fst(3) [of env out st h] show ?case
    by (simp add: ev_inv_def)
next
  case (step_sweep t i st now st' out h)
  with sweep_slot_ok [OF _ step_sweep(1,2,3)] queue_frame_fst(4) [of st t i now] show ?case
    by (auto simp: ev_inv_def split: option.splits)
next
  case (step_diagnose st h outs now)
  then show ?case by (auto simp: ev_inv_def ev_ok_def diagnose_def)
qed

lemma boot_ok: "ev_ok (ev_boot q)"
  by (simp add: ev_ok_def ev_boot_def)

lemma ev_reachable_inv:
  assumes "msgq_law mq content" and "content q0 = []"
  shows "ev_reachable mq env q0 c \<Longrightarrow> ev_inv content c"
proof (induction rule: ev_reachable.induct)
  case (reach_boot h)
  then show ?case using boot_ok assms(2) by (simp add: ev_inv_def) (simp add: ev_boot_def)
next
  case (reach_step c c')
  then show ?case by (blast intro: ev_step_inv [OF assms(1)])
qed

end
