(* ===== verification/TrackerEventsProps.thy ===== *)
theory TrackerEventsProps
  imports TrackerEventsCorrect
begin

text \<open>
  The properties of the event service: safety of every interleaving of its critical sections,
  the worker as a run of the step relation, and what a single event, a silent tracker, a
  pairing change and a subscription do.
\<close>

section \<open>The worker is a run of the step relation\<close>

inductive_cases ev_step_deliverE: "ev_step mq env (st, h, out # outs) c"

lemma reach_deliveries:
  "ev_reachable mq env q0 (st, h, outs) \<Longrightarrow>
     \<exists>st' h'. fold (deliver env) outs (st, h) = (st', h') \<and> ev_reachable mq env q0 (st', h', [])"
proof (induction outs arbitrary: st h)
  case (Cons out outs)
  obtain st1 h1 where d: "deliver env out (st, h) = (st1, h1)" by (cases "deliver env out (st, h)")
  with Cons.prems have "ev_reachable mq env q0 (st1, h1, outs)"
    by (blast intro: reach_step step_deliver)
  from Cons.IH [OF this] show ?case by (simp add: d)
qed simp

lemma reach_drain:
  "ev_reachable mq env q0 (st, h, []) \<Longrightarrow>
     \<exists>st' h'. drain_rx mq env n (st, h) = (st', h') \<and> ev_reachable mq env q0 (st', h', [])"
proof (induction n arbitrary: st h)
  case (Suc n)
  show ?case
  proof (cases "msgq_get mq (event_rx_queue st)")
    case None
    with Suc.prems show ?thesis by simp
  next
    case (Some p)
    obtain rx q st1 outs where p: "p = (rx, q)" "rx_update (st\<lparr>event_rx_queue := q\<rparr>) rx = (st1, outs)"
      by (metis prod.exhaust)
    with Some Suc.prems have "ev_reachable mq env q0 (st1, h, outs)"
      by (blast intro: reach_step step_rx)
    from reach_deliveries [OF this] Suc.IH show ?thesis
      using Some p by (fastforce simp: process_rx_def)
  qed
qed simp

lemma sweep_slots_bounds:
  assumes "ti \<in> set sweep_slots"
  shows "fst ti < TRACKER_EVENT_MAX_TRACKERS" and "snd ti < OP_COUNT + 2"
  using assms unfolding sweep_slots_def set_product set_upt mem_Times_iff atLeastLessThan_iff by blast+

lemma reach_sweep:
  assumes "ev_reachable mq env q0 (st, h, [])" and "ti \<in> set sweep_slots"
  shows "\<exists>st' h'. sweep_one env now ti (st, h) = (st', h') \<and> ev_reachable mq env q0 (st', h', [])"
proof -
  obtain st1 out where s: "sweep_slot st (fst ti) (snd ti) now = (st1, out)"
    by (cases "sweep_slot st (fst ti) (snd ti) now")
  have r: "ev_reachable mq env q0 (st1, h, case out of None \<Rightarrow> [] | Some d \<Rightarrow> [d])"
    by (rule reach_step [OF assms(1)]) (rule step_sweep [OF sweep_slots_bounds [OF assms(2)] s])
  then show ?thesis
    using s reach_deliveries [OF r] by (cases out) (auto simp: sweep_one_def)
qed

lemma reach_sweeps:
  "ev_reachable mq env q0 (st, h, []) \<Longrightarrow> set tis \<subseteq> set sweep_slots \<Longrightarrow>
     \<exists>st' h'. fold (sweep_one env now) tis (st, h) = (st', h') \<and> ev_reachable mq env q0 (st', h', [])"
proof (induction tis arbitrary: st h)
  case (Cons ti tis)
  then have "ti \<in> set sweep_slots" by simp
  from reach_sweep [OF Cons.prems(1) this, where now = now] obtain st1 h1 where
    "sweep_one env now ti (st, h) = (st1, h1)" "ev_reachable mq env q0 (st1, h1, [])" by blast
  with Cons.IH [OF this(2)] Cons.prems(2) show ?case by simp
qed simp

section \<open>One event of the current session\<close>

text \<open>In a session that goes on, the critical section of \<open>process_rx\<close> is the cache update alone.\<close>

definition in_session :: "'q ev_state \<Rightarrow> rx_event \<Rightarrow> bool" where
  "in_session st rx \<longleftrightarrow> (let t = unat (ev_tracker (rx_event rx)); tc = trackers st ! t in
     rx_pairing rx = pairing_generations st ! t \<and> tc_pairing tc = pairing_generations st ! t \<and>
     tc_nonce tc = ev_nonce (rx_event rx))"

definition session_update :: "tracker_cache \<Rightarrow> rx_event \<Rightarrow> tracker_cache \<times> delivery list" where
  "session_update tc rx =
     (case locate_cache tc (rx_event rx) of
        Some ref \<Rightarrow>
          if c_used (get_cache tc ref) \<and> same_event (c_event (get_cache tc ref)) (rx_event rx)
          then heartbeat tc ref rx else accept_event tc (Some ref) rx
      | None \<Rightarrow> accept_event tc None rx)"

lemma rx_update_alt:
  assumes "t = unat (ev_tracker (rx_event rx))"
  shows "rx_update st rx =
    (if rx_pairing rx \<noteq> pairing_generations st ! t then (st, [])
     else case session_switch (reset_pairing_cache st t) (trackers (reset_pairing_cache st t) ! t) rx of
       None \<Rightarrow> (reset_pairing_cache st t, [])
     | Some (tc, obs) \<Rightarrow>
         ((reset_pairing_cache st t)\<lparr>trackers :=
            (trackers (reset_pairing_cache st t))[t := fst (session_update tc rx)]\<rparr>,
          obs @ snd (session_update tc rx)))"
  unfolding rx_update_def Let_def session_update_def assms
  by (simp add: case_prod_beta split: option.split)

lemma rx_update_in_session:
  assumes "in_session st rx"
  shows "rx_update st rx =
    (let t = unat (ev_tracker (rx_event rx)); (tc, outs) = session_update (trackers st ! t) rx
     in (st\<lparr>trackers := (trackers st)[t := tc]\<rparr>, outs))"
  using assms
  by (auto simp: rx_update_def in_session_def reset_pairing_cache_def session_switch_def
      session_update_def Let_def case_prod_beta split: option.splits)

lemma set_cache_frame [simp]:
  "tc_nonce (set_cache tc ref c) = tc_nonce tc" "tc_pairing (set_cache tc ref c) = tc_pairing tc"
  "tc_high_at (set_cache tc ref c) = tc_high_at tc" "tc_high (set_cache tc ref c) = tc_high tc"
  "tc_seen (set_cache tc ref c) = tc_seen tc" "tc_initialized (set_cache tc ref c) = tc_initialized tc"
  "tc_order (set_cache tc ref c) = tc_order tc"
  by (cases ref; simp)+

lemma cache_event_frame [simp]:
  "tc_nonce (fst (cache_event tc found rx order)) = tc_nonce tc"
  "tc_pairing (fst (cache_event tc found rx order)) = tc_pairing tc"
  "tc_high_at (fst (cache_event tc found rx order)) = tc_high_at tc"
  "tc_high (fst (cache_event tc found rx order)) = tc_high tc"
  "tc_seen (fst (cache_event tc found rx order)) = tc_seen tc"
  "tc_initialized (fst (cache_event tc found rx order)) = tc_initialized tc"
  "tc_order (fst (cache_event tc found rx order)) = tc_order tc"
  by (simp_all add: cache_event_def Let_def)

lemma unseen_frame:
  "unseen tc seq now = (r, tc') \<Longrightarrow> tc_nonce tc' = tc_nonce tc \<and> tc_pairing tc' = tc_pairing tc"
  by (auto simp: unseen_def Let_def split: if_splits)

lemma accept_event_first:
  assumes "snd (accept_event tc found rx) \<noteq> []"
  shows "\<exists>tc1. unseen tc (ev_seq (rx_event rx)) (rx_received_at rx) = (True, tc1) \<and>
    (let tc' = fst (accept_event tc found rx) in
     tc_nonce tc' = tc_nonce tc1 \<and> tc_pairing tc' = tc_pairing tc1 \<and> tc_high_at tc' = tc_high_at tc1 \<and>
     tc_high tc' = tc_high tc1 \<and> tc_seen tc' = tc_seen tc1 \<and> tc_initialized tc' = tc_initialized tc1)"
  using assms
  by (cases "unseen tc (ev_seq (rx_event rx)) (rx_received_at rx)";
      cases "fst (unseen tc (ev_seq (rx_event rx)) (rx_received_at rx))")
    (auto simp: accept_event_def Let_def case_prod_beta)

lemma unseen_cong:
  assumes "tc_high_at a = tc_high_at b" "tc_high a = tc_high b" "tc_seen a = tc_seen b"
    "tc_initialized a = tc_initialized b" and "unseen b seq now = (False, b)"
  shows "fst (unseen a seq now) = False"
  using assms by (auto simp: unseen_def Let_def split: if_splits)

lemma accept_event_again:
  assumes "snd (accept_event tc found rx) \<noteq> []" and "tc' = fst (accept_event tc found rx)"
    and "rx_event rx' = rx_event rx"
    and "rx_received_at rx' - tc_high_at tc' < TRACKER_EVENT_TTL_MS"
  shows "snd (accept_event tc' found' rx') = []"
proof -
  obtain tc1 where u: "unseen tc (ev_seq (rx_event rx)) (rx_received_at rx) = (True, tc1)"
    and eqs: "tc_high_at tc' = tc_high_at tc1" "tc_high tc' = tc_high tc1" "tc_seen tc' = tc_seen tc1"
      "tc_initialized tc' = tc_initialized tc1"
    using accept_event_first [OF assms(1)] assms(2) by (auto simp: Let_def)
  have "fst (unseen tc' (ev_seq (rx_event rx)) (rx_received_at rx')) = False"
    by (rule unseen_cong [OF eqs unseen_replay [OF u]]) (use assms(4) eqs in simp)
  then show ?thesis using assms(3)
    by (cases "unseen tc' (ev_seq (rx_event rx)) (rx_received_at rx')") (simp add: accept_event_def Let_def)
qed

lemma heartbeat_opcode:
  "d \<in> set (snd (heartbeat tc ref rx)) \<Longrightarrow> dl_opcode d = RCV_HID_OP_TRACKER_OBSERVATION"
  by (auto simp: heartbeat_def Let_def split: if_splits)

lemma session_update_again:
  assumes d: "d \<in> set (snd (session_update tc rx))" "dl_opcode d = RCV_HID_OP_TRACKER_EVENT"
    and "tc' = fst (session_update tc rx)" and "rx_event rx' = rx_event rx"
    and "rx_received_at rx' - tc_high_at tc' < TRACKER_EVENT_TTL_MS"
    and d': "d' \<in> set (snd (session_update tc' rx'))"
  shows "dl_opcode d' \<noteq> RCV_HID_OP_TRACKER_EVENT"
proof -
  obtain found where f: "session_update tc rx = accept_event tc found rx"
    using d by (auto simp: session_update_def dest: heartbeat_opcode split: option.splits if_splits)
  then have "snd (accept_event tc' found' rx') = []" for found'
    using accept_event_again [of tc found rx tc' rx' found'] d assms(3-5) by fastforce
  with d' obtain ref where "d' \<in> set (snd (heartbeat tc' ref rx'))"
    by (auto simp: session_update_def split: option.splits if_splits)
  then show ?thesis by (auto dest: heartbeat_opcode)
qed

lemma accept_event_frame [simp]:
  "tc_nonce (fst (accept_event tc found rx)) = tc_nonce tc"
  "tc_pairing (fst (accept_event tc found rx)) = tc_pairing tc"
  by (cases "unseen tc (ev_seq (rx_event rx)) (rx_received_at rx)";
      cases "fst (unseen tc (ev_seq (rx_event rx)) (rx_received_at rx))";
      auto simp: accept_event_def Let_def case_prod_beta dest: unseen_frame)+

lemma session_update_frame [simp]:
  "tc_nonce (fst (session_update tc rx)) = tc_nonce tc"
  "tc_pairing (fst (session_update tc rx)) = tc_pairing tc"
  by (auto simp: session_update_def heartbeat_def Let_def split: option.splits)

text \<open>In general the session may change first; its open observations come before the event.\<close>

lemma rx_update_session:
  assumes ok: "ev_ok st" and e: "tracker_event_valid (rx_event rx)" and upd: "rx_update st rx = (st', outs)"
    and t: "t = unat (ev_tracker (rx_event rx))" and ne: "outs \<noteq> []"
  obtains tc obs where "tc_ok t tc" "trackers st' ! t = fst (session_update tc rx)" "in_session st' rx"
    "outs = obs @ snd (session_update tc rx)" "\<forall>d\<in>set obs. dl_opcode d = RCV_HID_OP_TRACKER_OBSERVATION"
proof -
  define st1 where "st1 = reset_pairing_cache st t"
  have t16: "t < TRACKER_EVENT_MAX_TRACKERS" using tracker_event_valid_tracker [OF e] t by simp
  have ok1: "ev_ok st1" unfolding st1_def using ok by (rule reset_pairing_cache_ok)
  then have tc1: "tc_ok t (trackers st1 ! t)" "t < length (trackers st1)"
    using t16 by (simp_all add: ev_ok_def)
  have pair: "tc_pairing (trackers st1 ! t) = pairing_generations st ! t"
    "pairing_generations st1 = pairing_generations st"
    using ok t16 by (auto simp: st1_def reset_pairing_cache_def ev_ok_def)
  note alt = upd [unfolded rx_update_alt [OF t] st1_def [symmetric]]
  have rx: "rx_pairing rx = pairing_generations st ! t" using alt ne by (auto split: if_splits)
  then obtain tc obs where sw: "session_switch st1 (trackers st1 ! t) rx = Some (tc, obs)"
    using alt ne by (auto split: option.splits)
  have st': "st' = st1\<lparr>trackers := (trackers st1)[t := fst (session_update tc rx)]\<rparr>"
    and outs: "outs = obs @ snd (session_update tc rx)"
    using alt sw rx by simp_all
  have keep: "tc_nonce tc = ev_nonce (rx_event rx)" "tc_pairing tc = tc_pairing (trackers st1 ! t)"
    "\<forall>d\<in>set obs. dl_opcode d = RCV_HID_OP_TRACKER_OBSERVATION"
    using sw by (auto simp: session_switch_def session_observations_def observation_def Let_def
        split: if_splits)
  have nth: "trackers st' ! t = fst (session_update tc rx)" using st' tc1 by simp
  have "in_session st' rx"
    unfolding in_session_def Let_def t [symmetric] nth using rx pair keep st' by simp
  then show thesis using that session_switch_ok [OF tc1(1) sw] nth outs keep by blast
qed

lemma rest_ok_outcome: "rest_ok t k c \<Longrightarrow> c_used c \<Longrightarrow> ev_outcome (c_event c) = CAL_OUTCOME_NONE"
  by (auto simp: rest_ok_def tracker_event_valid_def calibration_event_valid_def split: if_splits)

section \<open>Properties\<close>

text \<open>
  Claim C1. Every state that the event service can reach, in any interleaving of radio
  reception, host control, USB resets, pairing changes, the worker's updates and its
  deliveries, is well formed: the caches hold only valid events of their own tracker, terminal
  marks agree with the events, rest slots hold the state of their own kind, and the worker
  never has more than \<open>OP_COUNT + 3\<close> deliveries pending, which is the size of the local
  array of \<open>process_rx\<close>.
\<close>

theorem tracker_events_reachable_safe:
  assumes "msgq_law mq content" and "content q0 = []" and "ev_reachable mq env q0 (st, h, outs)"
  shows "ev_ok st \<and> length outs \<le> OP_COUNT + 3 \<and> list_all dl_ok outs"
  using ev_reachable_inv [OF assms] by (simp add: ev_inv_def)



text \<open>A concrete service: a list as the queue, and an environment that admits every report.\<close>

definition open_env :: "u32 hid_env" where
  "open_env = \<lparr>env_clock = (\<lambda>h. (h, h + 1)), env_write = (\<lambda>h rec g. (True, h))\<rparr>"

definition sample_event :: tracker_event where
  "sample_event = \<lparr>ev_nonce = 7, ev_seq = 5, ev_operation = 3, ev_tracker = 2, ev_kind = 5,
     ev_event = CAL_EVENT_BEGIN, ev_outcome = 0, ev_phase = 0, ev_detail = 0\<rparr>"

definition sample_rx :: "u32 \<Rightarrow> rx_event" where
  "sample_rx now = \<lparr>rx_event = sample_event, rx_received_at = now, rx_pairing = 0, rx_subscription = 0\<rparr>"

definition sample_packet :: bytes where
  "sample_packet = [224, 2, 1, 2, 7, 0, 0, 0, 5, 0, 3, 0, 5, 0, 0, 67, 69]"

definition sample_state :: "rx_event list ev_state" where
  "sample_state = snd (tracker_events_receive list_msgq (ev_boot []) sample_packet 100)"

lemma sample_reachable: "ev_reachable list_msgq open_env [] (sample_state, 0, [])"
  unfolding sample_state_def by (rule reach_step [OF reach_boot step_receive])

lemma sample_queue: "event_rx_queue sample_state = [sample_rx 100]"
  by code_simp

theorem tracker_events_reachable_safe_witness:
  "event_rx_queue sample_state = [sample_rx 100] \<and> ev_ok sample_state"
  using tracker_events_reachable_safe [OF list_msgq_law refl sample_reachable] sample_queue by simp



text \<open>
  A pairing change retires queued work at once: after the invalidation of a set of
  trackers, an event that was received under the old pairing of one of them changes nothing and
  produces no delivery, and a delivery prepared under the old subscription generation writes
  nothing to the host and leaves the state as it is.
\<close>

theorem tracker_events_pairing_invalidate_retires:
  assumes "t = unat (ev_tracker (rx_event rx))" and "t < length (pairing_generations st)"
    and "mask_has msk t" and "rx_pairing rx = pairing_generations st ! t"
    and "dl_generation out = subscription_generation st"
    and "st' = tracker_events_pairing_invalidate st msk"
  shows "rx_update st' rx = (st', []) \<and>
    deliver env out (st', h) = (st', if dl_generation out = 0 then h else snd (env_clock env h))"
proof
  show "rx_update st' rx = (st', [])"
    using assms(1-4,6) by (simp add: rx_update_alt [OF assms(1)] tracker_events_pairing_invalidate_def
        nth_update_where)
  have "\<not> tracker_events_hid_valid st' rec (dl_generation out) now" for rec now
    using assms(5,6) by (simp add: tracker_events_hid_valid_def tracker_events_pairing_invalidate_def)
  then show "deliver env out (st', h) = (st', if dl_generation out = 0 then h else snd (env_clock env h))"
    by (simp add: deliver_def Let_def case_prod_beta)
qed

theorem tracker_events_pairing_invalidate_retires_witness:
  "let st' = tracker_events_pairing_invalidate sample_state 4;
       out = \<lparr>dl_event = sample_event, dl_generation = 1, dl_received_at = 100, dl_cache_version = 1,
         dl_opcode = RCV_HID_OP_TRACKER_EVENT\<rparr>
   in rx_update st' (sample_rx 100) = (st', []) \<and> deliver open_env out (st', 9) = (st', 10)"
proof -
  have h: "2 = unat (ev_tracker (rx_event (sample_rx 100)))" "2 < length (pairing_generations sample_state)"
    "mask_has (4 :: u32) 2" "rx_pairing (sample_rx 100) = pairing_generations sample_state ! 2"
    "1 = subscription_generation sample_state" by code_simp+
  show ?thesis
    using tracker_events_pairing_invalidate_retires [OF h(1-4), where env = open_env and h = 9 and
        out = "\<lparr>dl_event = sample_event, dl_generation = 1, dl_received_at = 100, dl_cache_version = 1,
          dl_opcode = RCV_HID_OP_TRACKER_EVENT\<rparr>"] h(5)
    by (simp add: Let_def open_env_def)
qed

text \<open>
  A finished operation is never reopened: within a session, an event that is not
  itself terminal leaves all operation entries of the tracker as they are when the entry of its
  operation is terminal. Late copies of ACCEPTED, BEGIN or STEP cannot roll a result back.
\<close>

theorem tracker_events_terminal_stays:
  assumes ok: "ev_ok st" and e: "tracker_event_valid (rx_event rx)" and s: "in_session st rx"
    and t: "t = unat (ev_tracker (rx_event rx))"
    and f: "find_operation (trackers st ! t) (rx_event rx) = Some i"
    and trm: "c_terminal (tc_operations (trackers st ! t) ! i)"
    and ev: "ev_event (rx_event rx) \<notin> {CAL_EVENT_END, CAL_EVENT_REJECTED, CAL_EVENT_STATE}"
  shows "tc_operations (trackers (fst (rx_update st rx)) ! t) = tc_operations (trackers st ! t)"
proof -
  define tc where "tc = trackers st ! t"
  have t16: "t < TRACKER_EVENT_MAX_TRACKERS" using tracker_event_valid_tracker [OF e] t by simp
  then have tc: "tc_ok t tc" using ok by (simp add: ev_ok_def tc_def)
  have loc: "locate_cache tc (rx_event rx) = Some (OpSlot i)"
    using f ev by (simp add: locate_cache_def tc_def)
  have i: "i < length (tc_operations tc)" "c_used (tc_operations tc ! i)"
    using f by (auto simp: find_operation_def tc_def dest!: find_index_SomeD)
  then have "op_ok t (tc_operations tc ! i)" using tc by (auto simp: tc_ok_def list_all_length)
  then have "\<not> same_event (c_event (tc_operations tc ! i)) (rx_event rx)"
    using i trm ev by (auto simp: op_ok_def same_event_def tc_def)
  then have su: "session_update tc rx = accept_event tc (Some (OpSlot i)) rx"
    using loc by (simp add: session_update_def)
  obtain r tc1 where u: "unseen tc (ev_seq (rx_event rx)) (rx_received_at rx) = (r, tc1)"
    by (cases "unseen tc (ev_seq (rx_event rx)) (rx_received_at rx)")
  have ops: "tc_operations tc1 = tc_operations tc" using unseen_ok [OF tc u] by simp
  have "tc_operations (fst (accept_event tc (Some (OpSlot i)) rx)) = tc_operations tc"
    using u ops trm ev i unfolding tc_def [symmetric]
    by (cases r) (auto simp: accept_event_def cache_event_def Let_def)
  then show ?thesis
    using rx_update_in_session [OF s] su ok t16
    by (simp add: t [symmetric] tc_def [symmetric] case_prod_beta Let_def ev_ok_def)
qed

definition sample_end :: rx_event where
  "sample_end = \<lparr>rx_event = sample_event\<lparr>ev_seq := 6, ev_event := CAL_EVENT_END,
     ev_outcome := CAL_OUTCOME_SUCCESS\<rparr>, rx_received_at = 100, rx_pairing = 0, rx_subscription = 0\<rparr>"

theorem tracker_events_terminal_stays_witness:
  "let st = fst (rx_update (ev_boot ()) sample_end)
   in tc_operations (trackers (fst (rx_update st (sample_rx 300))) ! 2) = tc_operations (trackers st ! 2)"
proof -
  let ?st = "fst (rx_update (ev_boot () :: unit ev_state) sample_end)"
  have "tracker_event_valid (rx_event sample_end)" by code_simp
  then have ok: "ev_ok ?st" by (rule rx_update_ok [OF boot_ok])
  have h: "tracker_event_valid (rx_event (sample_rx 300))" "in_session ?st (sample_rx 300)"
    "2 = unat (ev_tracker (rx_event (sample_rx 300)))"
    "find_operation (trackers ?st ! 2) (rx_event (sample_rx 300)) = Some 0"
    "c_terminal (tc_operations (trackers ?st ! 2) ! 0)"
    "ev_event (rx_event (sample_rx 300)) \<notin> {CAL_EVENT_END, CAL_EVENT_REJECTED, CAL_EVENT_STATE}"
    by code_simp+
  from tracker_events_terminal_stays [OF ok h] show ?thesis by (simp only: Let_def)
qed

text \<open>
  Silence is reported once: when the sweep reports an entry whose tracker went
  silent (an observation with outcome UNKNOWN), sweeping that entry again, at any later time
  and without a new packet in between, reports nothing and changes nothing.
\<close>

theorem tracker_events_silence_once:
  assumes ok: "ev_ok st" and t: "t < TRACKER_EVENT_MAX_TRACKERS" and i: "i < OP_COUNT + 2"
    and first: "sweep_slot st t i now = (st', Some d)" "ev_outcome (dl_event d) = CAL_OUTCOME_UNKNOWN"
  shows "sweep_slot st' t i now' = (st', None)"
proof -
  define tc where "tc = trackers st ! t"
  define c where "c = get_cache tc (slot_ref i)"
  have tc: "tc_ok t tc" and tl: "t < length (trackers st)" using ok t by (simp_all add: ev_ok_def tc_def)
  have rok: "ref_ok (slot_ref i)" using i by (auto simp: slot_ref_def)
  have upd: "get_cache ((set_cache tc (slot_ref i) c')\<lparr>tc_power := p\<rparr>) (slot_ref i) = c'" for c' p
    using tc rok by (cases "slot_ref i") (simp_all add: tc_ok_def)
  have "ev_outcome (c_event c) = 0" if "c_used c" "8 \<le> i"
    using tc_ok_get [OF tc rok, folded c_def] that by (auto simp: slot_ref_def dest: rest_ok_outcome)
  then obtain p where "st' = st\<lparr>trackers := (trackers st)[t :=
      (set_cache tc (slot_ref i) (c\<lparr>c_stale := True\<rparr>))\<lparr>tc_power := p\<rparr>]\<rparr>"
    and "tc_pairing tc = pairing_generations st ! t"
    using first unfolding sweep_slot_def Let_def case_prod_beta tc_def [symmetric] c_def [symmetric]
    by (auto split: if_splits)
  then show ?thesis using tl by (simp add: sweep_slot_def Let_def upd)
qed

theorem tracker_events_silence_once_witness:
  "let st = fst (rx_update (ev_boot ()) (sample_rx 100)); st' = fst (sweep_slot st 2 0 20000)
   in snd (sweep_slot st 2 0 20000) \<noteq> None \<and> sweep_slot st' 2 0 50000 = (st', None)"
proof -
  define st where "st = fst (rx_update (ev_boot () :: unit ev_state) (sample_rx 100))"
  have "tracker_event_valid (rx_event (sample_rx 100))" by code_simp
  then have ok: "ev_ok st" unfolding st_def by (rule rx_update_ok [OF boot_ok])
  have o: "map_option (\<lambda>d. ev_outcome (dl_event d)) (snd (sweep_slot st 2 0 20000)) = Some 5"
    unfolding st_def by code_simp
  then obtain d where d: "sweep_slot st 2 0 20000 = (fst (sweep_slot st 2 0 20000), Some d)"
    "ev_outcome (dl_event d) = CAL_OUTCOME_UNKNOWN" by (auto simp: prod_eq_iff)
  have "snd (sweep_slot st 2 0 20000) \<noteq> None" using o by auto
  moreover from tracker_events_silence_once [OF ok _ _ d, of 50000]
  have "sweep_slot (fst (sweep_slot st 2 0 20000)) 2 0 50000 = (fst (sweep_slot st 2 0 20000), None)"
    by simp
  ultimately show ?thesis by (simp only: Let_def st_def) simp
qed

text \<open>
  A subscription admits exactly what it asked for: after a successful subscribe
  request with filter \<open>filt\<close> and kind mask \<open>msk\<close>, a report of an event passes the gate of
  the HID queue exactly within the lease of 15 s, for the selected tracker (255 selects all) and
  for a kind whose bit is in the mask; a report prepared under an earlier generation passes
  never.
\<close>

theorem tracker_events_subscription_exact:
  assumes "tracker_events_control st (TRACKER_EVENT_VERSION # 1 # filt # msk # rest) gen now = (Inr r, st')"
    and "opc = RCV_HID_OP_TRACKER_EVENT \<or> opc = RCV_HID_OP_TRACKER_OBSERVATION"
  shows "tracker_events_hid_valid st' (tracker_event_encode_hid e opc) g now' \<longleftrightarrow>
    g = next_generation (subscription_generation st) \<and> now' - now < TRACKER_EVENT_LEASE_MS \<and>
    (filt = 255 \<or> filt = ev_tracker e) \<and> msk AND tracker_event_kind_filter (ev_kind e) \<noteq> 0"
proof -
  have "st' = control_apply st 1 filt msk now"
    using assms(1) by (auto simp: tracker_events_control_def Let_def split: if_splits)
  moreover have "tracker_event_encode_hid e opc ! 13 = ev_kind e"
    by (simp add: tracker_event_encode_hid_def nth_append)
  ultimately show ?thesis
    using assms(2)
    by (auto simp: tracker_events_hid_valid_def matches_def lease_active_def control_apply_def)
      (simp_all add: tracker_event_encode_hid_def)
qed

theorem tracker_events_subscription_exact_witness:
  "let st' = snd (tracker_events_control (ev_boot ()) [1, 1, 255, 31] 1 1000)
   in tracker_events_hid_valid st' (tracker_event_encode_hid sample_event 225) 2 5000 \<and>
      \<not> tracker_events_hid_valid st' (tracker_event_encode_hid sample_event 225) 2 16000"
proof -
  let ?c = "tracker_events_control (ev_boot () :: unit ev_state) [1, 1, 255, 31] 1 1000"
  have "isl (fst ?c) = False" by code_simp
  then obtain r where c: "?c = (Inr r, snd ?c)" by (metis isl_def prod.collapse sum.exhaust_sel)
  have k: "next_generation (subscription_generation (ev_boot () :: unit ev_state)) = 2"
    "(31 :: u8) AND tracker_event_kind_filter (ev_kind sample_event) \<noteq> 0" by code_simp+
  note exact = tracker_events_subscription_exact [OF c, where e = sample_event and opc = 225 and g = 2]
  from exact [of 5000] exact [of 16000] k show ?thesis by (simp add: Let_def)
qed

end
