(* ===== verification/Zephyr.thy ===== *)
theory Zephyr
  imports Prelude
begin

text \<open>
  The functions of the Zephyr library that several components call: the byte order accessors and
  the CRC-8 of the radio packets. They are not part of the repository, so they are fields
  of a record that the definitions take as an argument; \<open>zephyr_law\<close> states what their
  documentation promises, and \<open>std_zephyr\<close> is an instance on which the law is proved. The CRC is
  documented by its parameters only, so nothing is assumed of it.
\<close>

record zephyr =
  crc8_ccitt :: "u8 \<Rightarrow> bytes \<Rightarrow> u8"
  get_be16 :: "u8 \<Rightarrow> u8 \<Rightarrow> u16"
  get_be32 :: "u8 \<Rightarrow> u8 \<Rightarrow> u8 \<Rightarrow> u8 \<Rightarrow> u32"
  get_le32 :: "u8 \<Rightarrow> u8 \<Rightarrow> u8 \<Rightarrow> u8 \<Rightarrow> u32"
  put_be16 :: "u16 \<Rightarrow> bytes"
  put_be32 :: "u32 \<Rightarrow> bytes"
  put_le32 :: "u32 \<Rightarrow> bytes"

definition zephyr_law :: "zephyr \<Rightarrow> bool" where
  "zephyr_law z \<longleftrightarrow>
     (\<forall>x. length (put_be16 z x) = 2) \<and> (\<forall>x. length (put_be32 z x) = 4) \<and>
     (\<forall>x. length (put_le32 z x) = 4) \<and>
     (\<forall>x. get_be16 z (put_be16 z x ! 0) (put_be16 z x ! 1) = x) \<and>
     (\<forall>a b. put_be16 z (get_be16 z a b) = [a, b])"

text \<open>A computable instance, with the sum of the bytes in the place of the CRC.\<close>

definition std_zephyr :: zephyr where
  "std_zephyr = \<lparr>crc8_ccitt = (\<lambda>s xs. s + sum_list xs),
     get_be16 = (\<lambda>a b. ucast b OR push_bit 8 (ucast a)),
     get_be32 = (\<lambda>a b c d. ucast d OR push_bit 8 (ucast c) OR push_bit 16 (ucast b) OR push_bit 24 (ucast a)),
     get_le32 = (\<lambda>a b c d. ucast a OR push_bit 8 (ucast b) OR push_bit 16 (ucast c) OR push_bit 24 (ucast d)),
     put_be16 = (\<lambda>x. [ucast (drop_bit 8 x), ucast x]),
     put_be32 = (\<lambda>x. [ucast (drop_bit 24 x), ucast (drop_bit 16 x), ucast (drop_bit 8 x), ucast x]),
     put_le32 = (\<lambda>x. [ucast x, ucast (drop_bit 8 x), ucast (drop_bit 16 x), ucast (drop_bit 24 x)])\<rparr>"

lemma std_zephyr_law: "zephyr_law std_zephyr"
  by (simp add: zephyr_law_def std_zephyr_def u16_join_split u16_low_join u16_high_join)

end
