(* ===== verification/EsbConstants.thy ===== *)
theory EsbConstants
  imports Zephyr
begin

text \<open>
  The shared constants of \<open>connection/esb.h\<close> and \<open>globals.h\<close>, the encoding of the RF channel in
  the settings, and the table of preferred channels.
\<close>

abbreviation (input) MAX_TRACKERS :: nat where "MAX_TRACKERS \<equiv> 16"
abbreviation (input) UINT32_MAX :: u32 where "UINT32_MAX \<equiv> - 1"
abbreviation (input) ESB_PONG_FLAG_NORMAL :: u8 where "ESB_PONG_FLAG_NORMAL \<equiv> 0x00"
abbreviation (input) ESB_PONG_FLAG_SHUTDOWN :: u8 where "ESB_PONG_FLAG_SHUTDOWN \<equiv> 0x01"
abbreviation (input) ESB_PONG_FLAG_CLEAR :: u8 where "ESB_PONG_FLAG_CLEAR \<equiv> 0x08"
abbreviation (input) ESB_PONG_FLAG_SET_CHANNEL :: u8 where "ESB_PONG_FLAG_SET_CHANNEL \<equiv> 0x0A"
abbreviation (input) ESB_PONG_FLAG_CLEAR_CHANNEL :: u8 where "ESB_PONG_FLAG_CLEAR_CHANNEL \<equiv> 0x0B"
abbreviation (input) ESB_PONG_FLAG_SENS_SET :: u8 where "ESB_PONG_FLAG_SENS_SET \<equiv> 0x0C"
abbreviation (input) ESB_PONG_FLAG_TEST_MODE_ON :: u8 where "ESB_PONG_FLAG_TEST_MODE_ON \<equiv> 0x1F"
abbreviation (input) ESB_PONG_FLAG_TEST_MODE_OFF :: u8 where "ESB_PONG_FLAG_TEST_MODE_OFF \<equiv> 0x20"
abbreviation (input) ESB_PONG_FLAG_SENS_AUTO :: u8 where "ESB_PONG_FLAG_SENS_AUTO \<equiv> 0x24"
abbreviation (input) ESB_PONG_FLAG_WOM_CONTROL :: u8 where "ESB_PONG_FLAG_WOM_CONTROL \<equiv> 0x28"
abbreviation (input) ESB_PING_FLAG_WOM_RESULT :: u8 where "ESB_PING_FLAG_WOM_RESULT \<equiv> 0x29"
abbreviation (input) ESB_PING_FLAG_WOM_ERROR :: u8 where "ESB_PING_FLAG_WOM_ERROR \<equiv> 0x2A"
abbreviation (input) ESB_PONG_FLAG_OTA_ABORT :: u8 where "ESB_PONG_FLAG_OTA_ABORT \<equiv> 0x31"
abbreviation (input) ESB_PONG_FLAG_METADATA_REQUEST :: u8 where "ESB_PONG_FLAG_METADATA_REQUEST \<equiv> 0x36"
abbreviation (input) ESB_PONG_TYPE :: u8 where "ESB_PONG_TYPE \<equiv> 0xF1"
abbreviation (input) ESB_PONG_LEN :: nat where "ESB_PONG_LEN \<equiv> 13"
abbreviation (input) ESB_PONG_FLAG_OTA_QUERY_INFO :: u8 where "ESB_PONG_FLAG_OTA_QUERY_INFO \<equiv> 0x30"
abbreviation (input) ESB_PONG_FLAG_OTA_SUPPRESS :: u8 where "ESB_PONG_FLAG_OTA_SUPPRESS \<equiv> 0x32"
abbreviation (input) ESB_PONG_FLAG_OTA_UNSUPPRESS :: u8 where "ESB_PONG_FLAG_OTA_UNSUPPRESS \<equiv> 0x33"
abbreviation (input) ESB_OTA_DATA_TYPE :: u8 where "ESB_OTA_DATA_TYPE \<equiv> 0x20"
abbreviation (input) ESB_OTA_STATUS_TYPE :: u8 where "ESB_OTA_STATUS_TYPE \<equiv> 0x21"
abbreviation (input) ESB_OTA_FW_INFO_TYPE :: u8 where "ESB_OTA_FW_INFO_TYPE \<equiv> 0x22"
abbreviation (input) ESB_OTA_BEGIN_TYPE :: u8 where "ESB_OTA_BEGIN_TYPE \<equiv> 0x23"
abbreviation (input) ESB_OTA_VERIFY_TYPE :: u8 where "ESB_OTA_VERIFY_TYPE \<equiv> 0x24"
abbreviation (input) ESB_OTA_ACTIVATE_TYPE :: u8 where "ESB_OTA_ACTIVATE_TYPE \<equiv> 0x25"
abbreviation (input) ESB_RF_CHANNEL_DEFAULT :: u8 where "ESB_RF_CHANNEL_DEFAULT \<equiv> 0xFF"
abbreviation (input) ESB_RF_CHANNEL_ZERO_ENC :: u8 where "ESB_RF_CHANNEL_ZERO_ENC \<equiv> 128"

definition esb_rf_channel_encode :: "u8 \<Rightarrow> u8" where
  "esb_rf_channel_encode channel = (if channel = 0 then ESB_RF_CHANNEL_ZERO_ENC else channel)"

definition esb_rf_channel_decode :: "u8 \<Rightarrow> u8" where
  "esb_rf_channel_decode stored =
     (if stored = ESB_RF_CHANNEL_ZERO_ENC then 0
      else if stored = ESB_RF_CHANNEL_DEFAULT \<or> stored = 0 \<or> 100 < stored then ESB_RF_CHANNEL_DEFAULT
      else stored)"

definition esb_allowed_channels :: "u8 list" where
  "esb_allowed_channels = [0, 2, 52, 72, 74, 76, 78, 82, 84, 86, 88, 50, 24, 48, 70, 68, 46, 44, 20, 54, 56,
     28, 30, 6, 8, 10, 12, 14, 16, 18, 32, 34, 36, 38, 40, 42, 58, 60, 62, 64, 66]"

definition esb_channel_is_allowed :: "u8 \<Rightarrow> bool" where
  "esb_channel_is_allowed channel = list_ex (\<lambda>c. c = channel) esb_allowed_channels"

lemma decode_cases: "esb_rf_channel_decode b = ESB_RF_CHANNEL_DEFAULT \<or> esb_rf_channel_decode b \<le> 100"
  by (simp add: esb_rf_channel_decode_def not_less)

section \<open>Properties\<close>

text \<open>
  The RF channel setting is stored without loss: for every byte, decoding the stored byte gives
  channel \<open>c\<close> out of 0 to 100 exactly when the byte is the encoding of \<open>c\<close>; all other bytes, among them
  the legacy zero, mean the default channel.
\<close>

theorem esb_rf_channel_roundtrip:
  "(if c \<le> 100 then esb_rf_channel_decode b = c \<longleftrightarrow> b = esb_rf_channel_encode c
    else esb_rf_channel_decode b = c \<longleftrightarrow> c = ESB_RF_CHANNEL_DEFAULT \<and>
      (\<forall>c'. \<not> (c' \<le> 100 \<and> b = esb_rf_channel_encode c')))"
proof (cases "c \<le> 100")
  case True
  then show ?thesis by (auto simp: esb_rf_channel_decode_def esb_rf_channel_encode_def)
next
  case False
  then have "c \<noteq> 0" by auto
  with False show ?thesis
    by (auto simp: esb_rf_channel_decode_def esb_rf_channel_encode_def not_le not_less)
qed

end
