(* ===== verification/EsbOta.thy ===== *)
theory EsbOta
  imports EsbConstants
begin

text \<open>
  The firmware update relay of \<open>esb_ota.c\<close>: up to four trackers are updated in parallel from one
  ring of packets that is indexed by sequence number. The static variables of the file are the
  record \<open>ota\<close>, tracker numbers are natural numbers, and a byte array keeps its full
  length. A critical section under \<open>ota_relay_lock\<close> is one definition. What a function
  does to other components (remote commands, HID reports, the radio gate) is the list of
  \<open>ota_action\<close>s it returns, in order; the result of the radio gate and the readings of the
  clock are arguments.
\<close>

abbreviation (input) OTA_MAX_PARALLEL :: nat where "OTA_MAX_PARALLEL \<equiv> 4"
abbreviation (input) OTA_TX_RING_SIZE :: nat where "OTA_TX_RING_SIZE \<equiv> 128"
abbreviation (input) OTA_DATA_HEADER_SIZE :: nat where "OTA_DATA_HEADER_SIZE \<equiv> 4"
abbreviation (input) OTA_DATA_MAX_PAYLOAD :: nat where "OTA_DATA_MAX_PAYLOAD \<equiv> 60"
abbreviation (input) OTA_BOARD_TARGET_MAX :: nat where "OTA_BOARD_TARGET_MAX \<equiv> 48"
abbreviation (input) OTA_STATUS_IDLE :: u8 where "OTA_STATUS_IDLE \<equiv> 0x00"
abbreviation (input) OTA_STATUS_VERIFY_OK :: u8 where "OTA_STATUS_VERIFY_OK \<equiv> 0x03"
abbreviation (input) OTA_STATUS_VERIFY_FAIL :: u8 where "OTA_STATUS_VERIFY_FAIL \<equiv> 0x04"
abbreviation (input) OTA_STATUS_ACTIVATING :: u8 where "OTA_STATUS_ACTIVATING \<equiv> 0x05"
abbreviation (input) OTA_STATUS_COMPLETE :: u8 where "OTA_STATUS_COMPLETE \<equiv> 0x06"
abbreviation (input) OTA_STATUS_ERROR :: u8 where "OTA_STATUS_ERROR \<equiv> 0x10"
abbreviation (input) OTA_STATUS_BOARD_MISMATCH :: u8 where "OTA_STATUS_BOARD_MISMATCH \<equiv> 0x11"
abbreviation (input) OTA_STATUS_FLASH_ERROR :: u8 where "OTA_STATUS_FLASH_ERROR \<equiv> 0x12"
abbreviation (input) OTA_STATUS_SIZE_ERROR :: u8 where "OTA_STATUS_SIZE_ERROR \<equiv> 0x13"
abbreviation (input) OTA_STATUS_SEQ_ERROR :: u8 where "OTA_STATUS_SEQ_ERROR \<equiv> 0x14"
abbreviation (input) OTA_STATUS_TIMEOUT :: u8 where "OTA_STATUS_TIMEOUT \<equiv> 0x15"
abbreviation (input) HID_OTA_QUERY_INFO :: u8 where "HID_OTA_QUERY_INFO \<equiv> 0xF0"
abbreviation (input) HID_OTA_FW_INFO :: u8 where "HID_OTA_FW_INFO \<equiv> 0xF1"
abbreviation (input) HID_OTA_BEGIN :: u8 where "HID_OTA_BEGIN \<equiv> 0xF2"
abbreviation (input) HID_OTA_DATA :: u8 where "HID_OTA_DATA \<equiv> 0xF3"
abbreviation (input) HID_OTA_STATUS :: u8 where "HID_OTA_STATUS \<equiv> 0xF4"
abbreviation (input) HID_OTA_VERIFY :: u8 where "HID_OTA_VERIFY \<equiv> 0xF5"
abbreviation (input) HID_OTA_ACTIVATE :: u8 where "HID_OTA_ACTIVATE \<equiv> 0xF6"
abbreviation (input) HID_OTA_ABORT :: u8 where "HID_OTA_ABORT \<equiv> 0xF7"

record ota_tx_entry =
  en_data :: bytes
  en_length :: nat

record ota_per_tracker =
  participating :: bool
  ot_status :: u8
  ot_next_seq :: u16
  pending_cmd_type :: u8
  pending_cmd_data :: bytes
  pending_cmd_len :: nat
  pending_cmd_set_ticks :: u32
  pending_cmd_send_count :: u32
  last_hid_forward_time :: int

record ota =
  ota_active :: bool
  num_targets :: nat
  target_ids :: "nat list"
  image_size :: u32
  total_packets :: u16
  ring :: "ota_tx_entry list"
  ring_head :: u32
  ota_tracker :: "ota_per_tracker list"
  ota_abort_expiry_ticks :: "u32 list"
  ota_abort_valid :: "bool list"
  fw_data :: bytes
  fw_len :: nat
  fw_tracker_id :: u8
  fw_pending :: bool

datatype ota_action =
    RemoteCommand nat u8
  | ClearRemoteOtaAbort nat
  | RadioOperationBegin
  | RadioOperationEnd
  | AutoLossInvalidate
  | HidWritePacket bytes
  | SubmitFwInfoWork

record ack_payload =
  ack_pipe :: u32
  ack_noack :: bool
  ack_data :: bytes

definition zero_ota_tracker :: ota_per_tracker where
  "zero_ota_tracker = \<lparr>participating = False, ot_status = OTA_STATUS_IDLE, ot_next_seq = 0,
     pending_cmd_type = 0, pending_cmd_data = replicate 64 0, pending_cmd_len = 0,
     pending_cmd_set_ticks = 0, pending_cmd_send_count = 0, last_hid_forward_time = 0\<rparr>"

definition ota_boot :: ota where
  "ota_boot = \<lparr>ota_active = False, num_targets = 0, target_ids = replicate OTA_MAX_PARALLEL 0,
     image_size = 0, total_packets = 0,
     ring = replicate OTA_TX_RING_SIZE \<lparr>en_data = replicate 64 0, en_length = 0\<rparr>, ring_head = 0,
     ota_tracker = replicate MAX_TRACKERS zero_ota_tracker,
     ota_abort_expiry_ticks = replicate MAX_TRACKERS 0, ota_abort_valid = replicate MAX_TRACKERS False,
     fw_data = replicate 66 0, fw_len = 0, fw_tracker_id = 0, fw_pending = False\<rparr>"

section \<open>Firmware information\<close>

definition fw_info_report :: "ota \<Rightarrow> nat \<Rightarrow> bytes" where
  "fw_info_report st chunk =
     (let offset = 2 + chunk * 13;
          body = (if offset < fw_len st then take (min (fw_len st - offset) 13) (drop offset (fw_data st))
                  else [])
      in [HID_OTA_FW_INFO, fw_tracker_id st, of_nat chunk] @ body @ replicate (13 - length body) 0)"

definition fw_info_send_work_handler :: "ota \<Rightarrow> ota_action list \<times> ota" where
  "fw_info_send_work_handler st =
     (if \<not> fw_pending st then ([], st)
      else (map (\<lambda>chunk. HidWritePacket (fw_info_report st chunk)) [0..<6], st\<lparr>fw_pending := False\<rparr>))"

section \<open>Queries\<close>

definition esb_ota_relay_is_active :: "ota \<Rightarrow> bool" where
  "esb_ota_relay_is_active st = ota_active st"

definition esb_ota_relay_is_target :: "ota \<Rightarrow> nat \<Rightarrow> bool" where
  "esb_ota_relay_is_target st t \<longleftrightarrow>
     (if MAX_TRACKERS \<le> t then False else ota_active st \<and> participating (ota_tracker st ! t))"

fun min_seq_loop :: "ota \<Rightarrow> nat list \<Rightarrow> u32 \<Rightarrow> u32" where
  "min_seq_loop st [] m = m"
| "min_seq_loop st (t # ts) m =
     (let s = ucast (ot_next_seq (ota_tracker st ! t))
      in min_seq_loop st ts (if sint (s - m) < 0 then s else m))"

definition ring_seq_min_locked :: "ota \<Rightarrow> u32" where
  "ring_seq_min_locked st = min_seq_loop st (take (num_targets st) (target_ids st)) (ring_head st)"

definition ring_count_locked :: "ota \<Rightarrow> u32" where
  "ring_count_locked st = ring_head st - ring_seq_min_locked st"

definition ota_abort_pending_locked :: "ota \<Rightarrow> nat \<Rightarrow> u32 \<Rightarrow> bool \<times> ota" where
  "ota_abort_pending_locked st t now =
     (if ota_abort_valid st ! t \<and> sint (ota_abort_expiry_ticks st ! t - now) \<le> 0
      then (False, st\<lparr>ota_abort_valid := (ota_abort_valid st)[t := False]\<rparr>)
      else (ota_abort_valid st ! t, st))"

definition esb_ota_relay_abort_pending :: "ota \<Rightarrow> nat \<Rightarrow> u32 \<Rightarrow> bool \<times> ota" where
  "esb_ota_relay_abort_pending st t now =
     (if MAX_TRACKERS \<le> t then (False, st) else ota_abort_pending_locked st t now)"

section \<open>Suppression of the other trackers\<close>

fun suppress_scan :: "u32 \<Rightarrow> nat list \<Rightarrow> ota \<Rightarrow> nat list \<times> ota" where
  "suppress_scan now [] st = ([], st)"
| "suppress_scan now (t # ts) st =
     (if participating (ota_tracker st ! t) then suppress_scan now ts st
      else
        let (pending, st1) = ota_abort_pending_locked st t now;
            (ids, st2) = suppress_scan now ts st1
        in (if pending then ids else t # ids, st2))"

definition suppress_non_ota_trackers :: "nat \<Rightarrow> u32 \<Rightarrow> ota \<Rightarrow> ota_action list \<times> ota" where
  "suppress_non_ota_trackers stored now st =
     (let (ids, st1) = suppress_scan now [0..<min stored MAX_TRACKERS] st
      in (map (\<lambda>t. RemoteCommand t ESB_PONG_FLAG_OTA_SUPPRESS) ids, st1))"

fun unsuppress_scan :: "u32 \<Rightarrow> nat list \<Rightarrow> ota \<Rightarrow> nat list \<times> ota" where
  "unsuppress_scan now [] st = ([], st)"
| "unsuppress_scan now (t # ts) st =
     (let (pending, st1) = ota_abort_pending_locked st t now;
          (ids, st2) = unsuppress_scan now ts st1
      in (if pending then ids else t # ids, st2))"

definition unsuppress_all_trackers :: "nat \<Rightarrow> u32 \<Rightarrow> ota \<Rightarrow> ota_action list \<times> ota" where
  "unsuppress_all_trackers stored now st =
     (let (ids, st1) = unsuppress_scan now [0..<min stored MAX_TRACKERS] st
      in (map (\<lambda>t. RemoteCommand t ESB_PONG_FLAG_OTA_UNSUPPRESS) ids, st1))"

section \<open>Sessions\<close>

definition reset_session_locked :: "ota \<Rightarrow> ota" where
  "reset_session_locked st =
     st\<lparr>ota_active := False, num_targets := 0, ring_head := 0,
        ota_tracker := map (\<lambda>t. t\<lparr>participating := False, ot_status := OTA_STATUS_IDLE, ot_next_seq := 0,
          pending_cmd_type := 0, pending_cmd_set_ticks := 0, pending_cmd_send_count := 0,
          last_hid_forward_time := 0\<rparr>) (ota_tracker st)\<rparr>"

text \<open>The compaction loop of \<open>remove_target_locked\<close>, in place, with its write index.\<close>

definition compact_targets :: "nat \<Rightarrow> nat list \<Rightarrow> nat list \<times> nat \<Rightarrow> nat list \<times> nat" where
  "compact_targets t = compact_loop (\<lambda>x. x \<noteq> t)"

definition remove_target_locked :: "ota \<Rightarrow> nat \<Rightarrow> bool \<times> ota" where
  "remove_target_locked st t =
     (if MAX_TRACKERS \<le> t \<or> \<not> participating (ota_tracker st ! t) then (False, st)
      else
        let (ids, n) = compact_targets t [0..<num_targets st] (target_ids st, 0);
            st1 = st\<lparr>ota_tracker := (ota_tracker st)[t := (ota_tracker st ! t)\<lparr>participating := False\<rparr>],
                     target_ids := ids, num_targets := n\<rparr>
        in if n = 0 then (True, st1\<lparr>ring_head := 0, ota_active := False\<rparr>) else (False, st1))"

definition forget_section :: "ota \<Rightarrow> nat \<Rightarrow> bool \<times> ota" where
  "forget_section st t =
     (let (ended, st1) = remove_target_locked st t;
          st2 = st1\<lparr>ota_tracker := (ota_tracker st1)[t := zero_ota_tracker],
                    ota_abort_valid := (ota_abort_valid st1)[t := False],
                    ota_abort_expiry_ticks := (ota_abort_expiry_ticks st1)[t := 0]\<rparr>;
          st3 = (if fw_pending st2 \<and> unat (fw_tracker_id st2) = t then st2\<lparr>fw_pending := False\<rparr> else st2)
      in (ended, st3))"

definition esb_ota_forget_tracker :: "nat \<Rightarrow> nat \<Rightarrow> u32 \<Rightarrow> ota \<Rightarrow> ota_action list \<times> ota" where
  "esb_ota_forget_tracker stored t now st =
     (if MAX_TRACKERS \<le> t then ([], st)
      else
        let (ended, st1) = forget_section st t
        in if ended then unsuppress_all_trackers stored now st1 else ([], st1))"

definition queue_abort_locked :: "u32 \<Rightarrow> ota \<Rightarrow> nat \<Rightarrow> u32 \<Rightarrow> ota" where
  "queue_abort_locked tombstone st t now =
     st\<lparr>ota_abort_expiry_ticks := (ota_abort_expiry_ticks st)[t := now + tombstone],
        ota_abort_valid := (ota_abort_valid st)[t := True]\<rparr>"

definition cancel_target :: "u32 \<Rightarrow> nat \<Rightarrow> nat \<Rightarrow> (nat \<Rightarrow> u32) \<Rightarrow> ota \<Rightarrow> ota_action list \<times> ota" where
  "cancel_target tombstone stored t clk st =
     (if MAX_TRACKERS \<le> t then ([], st)
      else
        let (ended, st1) = remove_target_locked (queue_abort_locked tombstone st t (clk 0)) t;
            (acts, st2) = (if ended then unsuppress_all_trackers stored (clk 1) st1 else ([], st1))
        in (RemoteCommand t ESB_PONG_FLAG_OTA_ABORT # acts, st2))"

fun cancel_loop :: "u32 \<Rightarrow> u32 \<Rightarrow> nat list \<Rightarrow> bool \<times> ota \<Rightarrow> bool \<times> ota" where
  "cancel_loop tombstone now [] acc = acc"
| "cancel_loop tombstone now (t # ts) (ended, st) =
     cancel_loop tombstone now ts (remove_target_locked (queue_abort_locked tombstone st t now) t)"

definition cancel_all_targets :: "u32 \<Rightarrow> nat \<Rightarrow> (nat \<Rightarrow> u32) \<Rightarrow> ota \<Rightarrow> ota_action list \<times> ota" where
  "cancel_all_targets tombstone stored clk st =
     (let targets = take (num_targets st) (target_ids st);
          (ended, st1) = cancel_loop tombstone (clk 0) targets (False, st);
          st2 = reset_session_locked st1;
          (acts1, st3) = (if ended then unsuppress_all_trackers stored (clk 1) st2 else ([], st2));
          (acts2, st4) = unsuppress_all_trackers stored (clk 2) st3
      in (map (\<lambda>t. RemoteCommand t ESB_PONG_FLAG_OTA_ABORT) targets @ acts1 @ acts2, st4))"

definition set_pending_command_locked :: "ota_per_tracker \<Rightarrow> bytes \<Rightarrow> u32 \<Rightarrow> ota_per_tracker" where
  "set_pending_command_locked t packet now =
     t\<lparr>pending_cmd_data := packet @ drop (length packet) (pending_cmd_data t),
       pending_cmd_len := length packet, pending_cmd_set_ticks := now,
       pending_cmd_send_count := 0, pending_cmd_type := packet ! 0\<rparr>"

section \<open>Reports from the host\<close>

text \<open>
  The parameters of a call: the Zephyr functions, the length of ten seconds in ticks, the number
  of stored trackers, the readings of the clock in the order the call makes them, and whether
  the radio gate is busy when it is asked for the first and for the second time. The action
  \<open>RadioOperationBegin\<close> is a gate that was acquired.
\<close>

record ota_env =
  zeph :: zephyr
  ten_seconds :: u32
  stored_trackers :: nat
  clk :: "nat \<Rightarrow> u32"
  radio_busy :: "nat \<Rightarrow> bool"

definition strncpy :: "nat \<Rightarrow> bytes \<Rightarrow> bytes" where
  "strncpy n src = take n (takeWhile (\<lambda>b. b \<noteq> 0) src @ replicate n 0)"

definition begin_packet :: "zephyr \<Rightarrow> bytes \<Rightarrow> nat \<Rightarrow> bytes" where
  "begin_packet z d len =
     (let img = get_le32 z (d ! 2) (d ! 3) (d ! 4) (d ! 5);
          crc = get_le32 z (d ! 6) (d ! 7) (d ! 8) (d ! 9);
          tot = get_be16 z (d ! 10) (d ! 11);
          pkt = [ESB_OTA_BEGIN_TYPE, d ! 1] @ put_le32 z img @ put_le32 z crc @ put_be16 z tot @ [d ! 12]
            @ strncpy (OTA_BOARD_TARGET_MAX - 1) (drop 13 d) @ [0]
            @ (if 63 \<le> len then [d ! 61, d ! 62] else [0, 0])
      in pkt @ [crc8_ccitt z 0 pkt])"

definition begin_admission :: "ota \<Rightarrow> nat \<Rightarrow> bool \<times> bool" where
  "begin_admission st t =
     (\<not> participating (ota_tracker st ! t) \<and> OTA_MAX_PARALLEL \<le> num_targets st, \<not> ota_active st)"

datatype begin_result = BeginFull | BeginNeedsRadio | BeginDone bool ota

definition begin_pass :: "ota \<Rightarrow> nat \<Rightarrow> bool \<Rightarrow> bytes \<Rightarrow> u32 \<Rightarrow> u16 \<Rightarrow> u32 \<Rightarrow> begin_result" where
  "begin_pass st t acquired pkt img tot now =
     (if \<not> participating (ota_tracker st ! t) \<and> OTA_MAX_PARALLEL \<le> num_targets st then BeginFull
      else if \<not> ota_active st \<and> \<not> acquired then BeginNeedsRadio
      else
        let first = (\<not> ota_active st);
            st1 = (if first then (reset_session_locked st)\<lparr>image_size := img, total_packets := tot\<rparr> else st);
            st2 = (if participating (ota_tracker st1 ! t) then st1
                   else st1\<lparr>target_ids := (target_ids st1)[num_targets st1 := t],
                            num_targets := num_targets st1 + 1\<rparr>);
            tr = (ota_tracker st2 ! t)\<lparr>participating := True, ot_status := OTA_STATUS_IDLE,
                   ot_next_seq := 0, last_hid_forward_time := 0\<rparr>
        in BeginDone first (st2\<lparr>ota_tracker := (ota_tracker st2)[t := set_pending_command_locked tr pkt now],
             ota_active := True, ota_abort_expiry_ticks := (ota_abort_expiry_ticks st2)[t := 0],
             ota_abort_valid := (ota_abort_valid st2)[t := False]\<rparr>))"

text \<open>
  The retry loop of BEGIN. A pass with the gate acquired never asks for it again, so two
  passes are enough; the first argument counts the passes left.
\<close>

fun begin_loop :: "nat \<Rightarrow> ota_env \<Rightarrow> nat \<Rightarrow> bool \<Rightarrow> bytes \<Rightarrow> u32 \<Rightarrow> u16 \<Rightarrow> ota \<Rightarrow> ota_action list \<times> ota" where
  "begin_loop 0 env t acquired pkt img tot st = ([], st)"
| "begin_loop (Suc n) env t acquired pkt img tot st =
     (case begin_pass st t acquired pkt img tot (clk env 0) of
        BeginFull \<Rightarrow> (if acquired then [RadioOperationEnd] else [], st)
      | BeginNeedsRadio \<Rightarrow>
          if radio_busy env 1 then ([], st)
          else
            let (acts, st1) = begin_loop n env t True pkt img tot st
            in ([RadioOperationBegin, AutoLossInvalidate] @ acts, st1)
      | BeginDone first st1 \<Rightarrow>
          let (acts, st2) =
                (if first then suppress_non_ota_trackers (stored_trackers env) (clk env 1) st1 else ([], st1))
          in ([ClearRemoteOtaAbort t] @ acts @ (if acquired then [RadioOperationEnd] else []), st2))"

definition ota_hid_begin :: "ota_env \<Rightarrow> bytes \<Rightarrow> nat \<Rightarrow> ota \<Rightarrow> ota_action list \<times> ota" where
  "ota_hid_begin env d len st =
     (let t = unat (d ! 1); z = zeph env; pkt = begin_packet z d len;
          img = get_le32 z (d ! 2) (d ! 3) (d ! 4) (d ! 5); tot = get_be16 z (d ! 10) (d ! 11)
      in if MAX_TRACKERS \<le> t then ([], st)
         else case begin_admission st t of
             (True, _) \<Rightarrow> ([], st)
           | (False, True) \<Rightarrow>
               if radio_busy env 0 then ([], st)
               else
                 let (acts, st1) = begin_loop 2 env t True pkt img tot st
                 in ([RadioOperationBegin, AutoLossInvalidate] @ acts, st1)
           | (False, False) \<Rightarrow> begin_loop 2 env t False pkt img tot st)"

definition data_entry :: "bytes \<Rightarrow> nat \<Rightarrow> ota_tx_entry \<Rightarrow> ota_tx_entry" where
  "data_entry d len old =
     (let n = min (len - OTA_DATA_HEADER_SIZE) OTA_DATA_MAX_PAYLOAD
      in \<lparr>en_data = [ESB_OTA_DATA_TYPE, 0, d ! 2, d ! 3] @ take n (drop 4 d) @ drop (4 + n) (en_data old),
          en_length = OTA_DATA_HEADER_SIZE + n\<rparr>)"

definition ota_hid_data :: "zephyr \<Rightarrow> bytes \<Rightarrow> nat \<Rightarrow> ota \<Rightarrow> ota" where
  "ota_hid_data z d len st =
     (if \<not> ota_active st then st
      else if len < 5 then st
      else if of_nat OTA_TX_RING_SIZE \<le> ring_count_locked st then st
      else
        let seq = get_be16 z (d ! 2) (d ! 3);
            idx = unat seq mod OTA_TX_RING_SIZE;
            st1 = st\<lparr>ring := (ring st)[idx := data_entry d len (ring st ! idx)]\<rparr>
        in if ring_head st1 < ucast seq + 1 then st1\<lparr>ring_head := ucast seq + 1\<rparr> else st1)"

definition ota_hid_command :: "bytes \<Rightarrow> u32 \<Rightarrow> ota \<Rightarrow> ota" where
  "ota_hid_command d now st =
     (let t = unat (d ! 1);
          pkt = [if d ! 0 = HID_OTA_VERIFY then ESB_OTA_VERIFY_TYPE else ESB_OTA_ACTIVATE_TYPE, d ! 1, 0, 0]
      in if ota_active st \<and> t < MAX_TRACKERS \<and> participating (ota_tracker st ! t)
         then st\<lparr>ota_tracker := (ota_tracker st)[t := set_pending_command_locked (ota_tracker st ! t) pkt now]\<rparr>
         else st)"

definition ota_hid_abort :: "ota_env \<Rightarrow> nat \<Rightarrow> ota \<Rightarrow> ota_action list \<times> ota" where
  "ota_hid_abort env t st =
     (if t = 255 then cancel_all_targets (ten_seconds env) (stored_trackers env) (clk env) st
      else if t < MAX_TRACKERS then cancel_target (ten_seconds env) (stored_trackers env) t (clk env) st
      else ([], st))"

definition esb_ota_relay_process_hid :: "ota_env \<Rightarrow> bytes \<Rightarrow> nat \<Rightarrow> ota \<Rightarrow> ota_action list \<times> ota" where
  "esb_ota_relay_process_hid env d len st =
     (if len < 2 then ([], st)
      else if d ! 0 = HID_OTA_QUERY_INFO then
        (if MAX_TRACKERS \<le> unat (d ! 1) then ([], st)
         else ([RemoteCommand (unat (d ! 1)) ESB_PONG_FLAG_OTA_QUERY_INFO], st))
      else if d ! 0 = HID_OTA_BEGIN then ota_hid_begin env d len st
      else if d ! 0 = HID_OTA_DATA then ([], ota_hid_data (zeph env) d len st)
      else if d ! 0 = HID_OTA_VERIFY \<or> d ! 0 = HID_OTA_ACTIVATE then ([], ota_hid_command d (clk env 0) st)
      else if d ! 0 = HID_OTA_ABORT then ota_hid_abort env (unat (d ! 1)) st
      else ([], st))"

section \<open>Acknowledgement payloads\<close>

definition abort_pong :: "zephyr \<Rightarrow> nat \<Rightarrow> u32 \<Rightarrow> u32 \<Rightarrow> ack_payload" where
  "abort_pong z t pipe now =
     (let body = [ESB_PONG_TYPE, of_nat t, 0] @ put_be32 z now @ [ESB_PONG_FLAG_OTA_ABORT, 0, 0, 0, 0]
      in \<lparr>ack_pipe = pipe, ack_noack = False, ack_data = body @ [crc8_ccitt z 7 body]\<rparr>)"

definition is_status_poll :: "bytes option \<Rightarrow> bool" where
  "is_status_poll rx \<longleftrightarrow>
     (case rx of None \<Rightarrow> False | Some d \<Rightarrow> 5 \<le> length d \<and> d ! 0 = ESB_OTA_STATUS_TYPE)"

definition poll_seq :: "zephyr \<Rightarrow> bytes option \<Rightarrow> u16" where
  "poll_seq z rx = (case rx of None \<Rightarrow> 0 | Some d \<Rightarrow> get_be16 z (d ! 3) (d ! 4))"

definition ring_has :: "zephyr \<Rightarrow> ota \<Rightarrow> u16 \<Rightarrow> bool" where
  "ring_has z st seq \<longleftrightarrow>
     (let e = ring st ! (unat seq mod OTA_TX_RING_SIZE)
      in ucast seq < ring_head st \<and> get_be16 z (en_data e ! 2) (en_data e ! 3) = seq)"

definition ack_data_packet :: "zephyr \<Rightarrow> ota \<Rightarrow> nat \<Rightarrow> u32 \<Rightarrow> u16 \<Rightarrow> ack_payload option" where
  "ack_data_packet z st t pipe seq =
     (if \<not> ring_has z st seq then None
      else
        let e = ring st ! (unat seq mod OTA_TX_RING_SIZE)
        in Some \<lparr>ack_pipe = pipe, ack_noack = False,
             ack_data = (take (en_length e) (en_data e))[1 := of_nat t]\<rparr>)"

definition ack_data_phase :: "zephyr \<Rightarrow> nat \<Rightarrow> u32 \<Rightarrow> bytes option \<Rightarrow> ota \<Rightarrow> ack_payload option \<times> ota" where
  "ack_data_phase z t pipe rx st =
     (if \<not> is_status_poll rx then (None, st)
      else
        let seq = poll_seq z rx;
            st1 = st\<lparr>ota_tracker := (ota_tracker st)[t := (ota_tracker st ! t)\<lparr>ot_next_seq := seq\<rparr>]\<rparr>
        in (ack_data_packet z st1 t pipe seq, st1))"

definition esb_ota_relay_fill_ack ::
    "ota_env \<Rightarrow> nat \<Rightarrow> u32 \<Rightarrow> bytes option \<Rightarrow> ota \<Rightarrow> ack_payload option \<times> ota" where
  "esb_ota_relay_fill_ack env t pipe rx st =
     (if MAX_TRACKERS \<le> t then (None, st)
      else
        let z = zeph env; now = clk env 0; (pending, st1) = ota_abort_pending_locked st t now
        in if pending then (Some (abort_pong z t pipe (clk env 1)), st1)
           else if \<not> ota_active st1 \<or> \<not> participating (ota_tracker st1 ! t) then (None, st1)
           else
             let tr = ota_tracker st1 ! t
             in if pending_cmd_type tr \<noteq> 0 then
                  if ten_seconds env < now - pending_cmd_set_ticks tr
                  then (None, st1\<lparr>ota_tracker := (ota_tracker st1)[t := tr\<lparr>pending_cmd_type := 0\<rparr>]\<rparr>)
                  else if pending_cmd_type tr \<noteq> ESB_OTA_BEGIN_TYPE \<and> is_status_poll rx \<and>
                          ring_has z st1 (poll_seq z rx)
                  then ack_data_phase z t pipe rx st1
                  else (Some \<lparr>ack_pipe = pipe, ack_noack = False,
                           ack_data = take (pending_cmd_len tr) (pending_cmd_data tr)\<rparr>,
                        st1\<lparr>ota_tracker := (ota_tracker st1)[t :=
                          tr\<lparr>pending_cmd_send_count := pending_cmd_send_count tr + 1\<rparr>]\<rparr>)
                else ack_data_phase z t pipe rx st1)"

section \<open>Packets from a tracker\<close>

definition ota_status_terminal :: "u8 \<Rightarrow> bool" where
  "ota_status_terminal status \<longleftrightarrow>
     status \<in> {OTA_STATUS_COMPLETE, OTA_STATUS_ERROR, OTA_STATUS_VERIFY_FAIL, OTA_STATUS_TIMEOUT,
       OTA_STATUS_BOARD_MISMATCH, OTA_STATUS_SIZE_ERROR, OTA_STATUS_FLASH_ERROR, OTA_STATUS_SEQ_ERROR}"

definition command_confirmed :: "u8 \<Rightarrow> u8 \<Rightarrow> bool" where
  "command_confirmed cmd status \<longleftrightarrow>
     (if cmd = ESB_OTA_BEGIN_TYPE then status \<noteq> OTA_STATUS_IDLE
      else if cmd = ESB_OTA_VERIFY_TYPE
      then status = OTA_STATUS_VERIFY_OK \<or> status = OTA_STATUS_VERIFY_FAIL
      else if cmd = ESB_OTA_ACTIVATE_TYPE
      then status = OTA_STATUS_ACTIVATING \<or> status = OTA_STATUS_COMPLETE
      else False)"

text \<open>The critical section: what is to be reported, with the ring count and the targets, and the end.\<close>

definition status_update :: "ota \<Rightarrow> nat \<Rightarrow> u8 \<Rightarrow> int \<Rightarrow> (u32 \<times> nat) option \<times> bool \<times> ota" where
  "status_update st t status now =
     (let tr = ota_tracker st ! t; prev = ot_status tr;
          tr1 = tr\<lparr>ot_status := status\<rparr>;
          tr2 = (if command_confirmed (pending_cmd_type tr1) status then tr1\<lparr>pending_cmd_type := 0\<rparr> else tr1);
          forward = (status \<noteq> prev \<or> ota_status_terminal status \<or> 30 \<le> now - last_hid_forward_time tr2);
          tr3 = (if forward then tr2\<lparr>last_hid_forward_time := now\<rparr> else tr2);
          st1 = st\<lparr>ota_tracker := (ota_tracker st)[t := tr3]\<rparr>;
          report = (if forward then Some (ring_count_locked st1, num_targets st1) else None);
          (ended, st2) = (if ota_status_terminal status then remove_target_locked st1 t else (False, st1))
      in (report, ended, st2))"

definition status_report :: "u8 \<Rightarrow> u8 \<Rightarrow> u16 \<Rightarrow> u32 \<Rightarrow> u32 \<Rightarrow> nat \<Rightarrow> bytes" where
  "status_report t status seq written rc n =
     [HID_OTA_STATUS, t, status, ucast (drop_bit 8 seq), ucast seq, ucast written,
      ucast (drop_bit 8 written), ucast (drop_bit 16 written), ucast (drop_bit 24 written),
      if 255 < rc then 255 else ucast rc, of_nat n, 0, 0, 0, 0, 0]"

definition ota_tracker_status :: "ota_env \<Rightarrow> bytes \<Rightarrow> int \<Rightarrow> ota \<Rightarrow> ota_action list \<times> ota" where
  "ota_tracker_status env d now st =
     (let z = zeph env; t = unat (d ! 1); len = length d
      in if len < 3 \<or> MAX_TRACKERS \<le> t then ([], st)
         else
           let seq = (if 5 \<le> len then get_be16 z (d ! 3) (d ! 4) else 0);
               written = (if 9 \<le> len then get_le32 z (d ! 5) (d ! 6) (d ! 7) (d ! 8) else 0);
               (report, ended, st1) = status_update st t (d ! 2) now;
               acts = (case report of None \<Rightarrow> []
                       | Some (rc, n) \<Rightarrow> [HidWritePacket (status_report (d ! 1) (d ! 2) seq written rc n)]);
               (acts2, st2) = (if ended then unsuppress_all_trackers (stored_trackers env) (clk env 0) st1
                               else ([], st1))
           in (acts @ acts2, st2))"

definition ota_tracker_fw_info :: "bytes \<Rightarrow> ota \<Rightarrow> ota_action list \<times> ota" where
  "ota_tracker_fw_info d st =
     (let n = min (length d) 66
      in ([SubmitFwInfoWork], st\<lparr>fw_data := take n d @ drop n (fw_data st), fw_len := n,
            fw_tracker_id := d ! 1, fw_pending := True\<rparr>))"

definition esb_ota_relay_process_tracker_packet ::
    "ota_env \<Rightarrow> bytes \<Rightarrow> int \<Rightarrow> ota \<Rightarrow> ota_action list \<times> ota" where
  "esb_ota_relay_process_tracker_packet env d now st =
     (if length d < 2 then ([], st)
      else if d ! 0 = ESB_OTA_STATUS_TYPE then ota_tracker_status env d now st
      else if d ! 0 = ESB_OTA_FW_INFO_TYPE then ota_tracker_fw_info d st
      else ([], st))"

section \<open>Console\<close>

text \<open>The rows that \<open>status\<close> prints: tracker, status, next sequence number, packets pending.\<close>

definition ota_status_rows :: "ota \<Rightarrow> (nat \<times> u8 \<times> u16 \<times> u32) list" where
  "ota_status_rows st =
     (if \<not> ota_active st then []
      else map (\<lambda>t. let tr = ota_tracker st ! t
               in (t, ot_status tr, ot_next_seq tr, ring_head st - ucast (ot_next_seq tr)))
             (take (num_targets st) (target_ids st)))"

definition esb_ota_relay_console_cmd :: "ota_env \<Rightarrow> nat \<Rightarrow> string \<Rightarrow> ota \<Rightarrow> ota_action list \<times> ota" where
  "esb_ota_relay_console_cmd env t cmd st =
     (if cmd = ''info'' \<or> cmd = ''query'' then
        (if t < MAX_TRACKERS then ([RemoteCommand t ESB_PONG_FLAG_OTA_QUERY_INFO], st) else ([], st))
      else if cmd = ''abort'' \<or> cmd = ''cancel'' then ota_hid_abort env t st
      else ([], st))"

end
