(* ===== verification/EsbOtaCorrect.thy ===== *)
theory EsbOtaCorrect
  imports EsbOta
begin

text \<open>
  The update relay keeps its session well formed under every critical section, delivers to a
  tracker exactly the packet it asks for, and lets an abort win over everything else until it
  expires or a new session starts.
\<close>

section \<open>Removing a target\<close>

lemma compact_targets_filter:
  assumes "n \<le> length ids"
  shows "compact_targets t [0..<n] (ids, 0) =
    (let f = filter (\<lambda>x. x \<noteq> t) (take n ids) in (f @ drop (length f) ids, length f))"
  using compact_loop_filter [of 0 0 n ids "\<lambda>x. x \<noteq> t"] assms by (simp add: compact_targets_def)

definition targets :: "ota \<Rightarrow> nat list" where
  "targets st = take (num_targets st) (target_ids st)"

definition entry_ok :: "ota_tx_entry \<Rightarrow> bool" where
  "entry_ok e \<longleftrightarrow> length (en_data e) = 64 \<and> en_length e \<le> 64"

definition pending_ok :: "ota_per_tracker \<Rightarrow> bool" where
  "pending_ok tr \<longleftrightarrow> length (pending_cmd_data tr) = 64 \<and> pending_cmd_len tr \<le> 64"

definition arrays_ok :: "ota \<Rightarrow> bool" where
  "arrays_ok st \<longleftrightarrow> length (target_ids st) = OTA_MAX_PARALLEL \<and> length (ring st) = OTA_TX_RING_SIZE \<and>
     length (ota_tracker st) = MAX_TRACKERS \<and> length (ota_abort_expiry_ticks st) = MAX_TRACKERS \<and>
     length (ota_abort_valid st) = MAX_TRACKERS \<and> length (fw_data st) = 66 \<and> fw_len st \<le> 66 \<and>
     list_all entry_ok (ring st) \<and> list_all pending_ok (ota_tracker st)"

definition session_ok :: "ota \<Rightarrow> bool" where
  "session_ok st \<longleftrightarrow> num_targets st \<le> OTA_MAX_PARALLEL \<and> distinct (targets st) \<and>
     set (targets st) = {t. t < MAX_TRACKERS \<and> participating (ota_tracker st ! t)} \<and>
     (ota_active st \<longleftrightarrow> num_targets st \<noteq> 0) \<and> (\<not> ota_active st \<longrightarrow> ring_head st = 0)"

definition aborted_apart :: "ota \<Rightarrow> bool" where
  "aborted_apart st \<longleftrightarrow>
     (\<forall>t<MAX_TRACKERS. ota_abort_valid st ! t \<longrightarrow> \<not> participating (ota_tracker st ! t))"

definition ota_ok :: "ota \<Rightarrow> bool" where
  "ota_ok st \<longleftrightarrow> arrays_ok st \<and> session_ok st \<and> aborted_apart st"

lemma length_targets: "arrays_ok st \<Longrightarrow> session_ok st \<Longrightarrow> length (targets st) = num_targets st"
  by (simp add: targets_def arrays_ok_def session_ok_def)

text \<open>The compaction loop is a filter on the list of targets.\<close>

lemma remove_target_cases:
  assumes "arrays_ok st" "session_ok st" and "remove_target_locked st t = (ended, st')"
  shows "if t < MAX_TRACKERS \<and> participating (ota_tracker st ! t)
    then targets st' = filter (\<lambda>x. x \<noteq> t) (targets st) \<and> num_targets st' = length (targets st') \<and>
      ended = (num_targets st' = 0) \<and> ota_active st' = (num_targets st' \<noteq> 0) \<and>
      ota_tracker st' = (ota_tracker st)[t := (ota_tracker st ! t)\<lparr>participating := False\<rparr>] \<and>
      ring st' = ring st \<and> ring_head st' = (if ended then 0 else ring_head st) \<and>
      length (target_ids st') = OTA_MAX_PARALLEL
    else ended = False \<and> st' = st"
proof (cases "t < MAX_TRACKERS \<and> participating (ota_tracker st ! t)")
  case True
  define f where "f = filter (\<lambda>x. x \<noteq> t) (targets st)"
  have n: "num_targets st \<le> length (target_ids st)" "length (target_ids st) = 4" "num_targets st \<noteq> 0"
    "ota_active st" "length f \<le> num_targets st"
    using assms(1,2) True length_filter_le [of _ "targets st"]
    by (auto simp: arrays_ok_def session_ok_def f_def targets_def)
  have c: "compact_targets t [0..<num_targets st] (target_ids st, 0) =
      (f @ drop (length f) (target_ids st), length f)"
    using compact_targets_filter [of "num_targets st" "target_ids st" t] n
    by (simp add: Let_def f_def targets_def)
  have f: "filter (\<lambda>x. x \<noteq> t) (take (num_targets st) (target_ids st)) = f"
    by (simp add: f_def targets_def)
  have "t < 16" "participating (ota_tracker st ! t)" using True by auto
  then show ?thesis using assms(3) c n f
    by (auto simp: remove_target_locked_def Let_def targets_def split: if_splits)
next
  case False
  with assms(3) show ?thesis by (auto simp: remove_target_locked_def)
qed

lemma remove_target_frame:
  assumes "remove_target_locked st t = (ended, st')"
  shows "ota_abort_valid st' = ota_abort_valid st" "ota_abort_expiry_ticks st' = ota_abort_expiry_ticks st"
    "fw_data st' = fw_data st" "fw_len st' = fw_len st" "ring st' = ring st"
  using assms by (auto simp: remove_target_locked_def Let_def case_prod_beta split: if_splits)

section \<open>Every critical section keeps the session well formed\<close>

text \<open>Looking at a tombstone can only retire tombstones.\<close>

definition expires :: "ota \<Rightarrow> ota \<Rightarrow> bool" where
  "expires st st' \<longleftrightarrow> (\<exists>v. st' = st\<lparr>ota_abort_valid := v\<rparr> \<and> length v = length (ota_abort_valid st) \<and>
     (\<forall>t<length v. v ! t \<longrightarrow> ota_abort_valid st ! t))"

lemma expires_refl [simp]: "expires st st"
  unfolding expires_def by (rule exI [of _ "ota_abort_valid st"]) simp

lemma expires_trans: "expires a b \<Longrightarrow> expires b c \<Longrightarrow> expires a c"
  by (auto simp: expires_def)

lemma expires_ok: "expires st st' \<Longrightarrow> ota_ok st \<Longrightarrow> ota_ok st'"
  by (auto simp: expires_def ota_ok_def arrays_ok_def session_ok_def aborted_apart_def targets_def)

lemma expires_clear: "expires st (st\<lparr>ota_abort_valid := (ota_abort_valid st)[t := False]\<rparr>)"
  unfolding expires_def
  by (rule exI [of _ "(ota_abort_valid st)[t := False]"]) (simp add: nth_list_update_if)

lemma abort_pending_expires: "ota_abort_pending_locked st t now = (b, st') \<Longrightarrow> expires st st'"
  by (auto simp: ota_abort_pending_locked_def intro: expires_clear split: if_splits)

lemma abort_pending_value:
  "fst (ota_abort_pending_locked st t now) \<longleftrightarrow>
     ota_abort_valid st ! t \<and> 0 < sint (ota_abort_expiry_ticks st ! t - now)"
  by (auto simp: ota_abort_pending_locked_def)

lemma suppress_scan_expires: "expires st (snd (suppress_scan now ts st))"
proof (induction ts arbitrary: st)
  case (Cons t ts)
  obtain b st1 where b: "ota_abort_pending_locked st t now = (b, st1)" by fastforce
  from Cons.IH [of st1] Cons.IH [of st] abort_pending_expires [OF b] show ?case
    by (auto simp: b case_prod_beta intro: expires_trans)
qed simp

lemma unsuppress_scan_expires: "expires st (snd (unsuppress_scan now ts st))"
proof (induction ts arbitrary: st)
  case (Cons t ts)
  obtain b st1 where b: "ota_abort_pending_locked st t now = (b, st1)" by fastforce
  from Cons.IH [of st1] abort_pending_expires [OF b] show ?case
    by (auto simp: b case_prod_beta intro: expires_trans)
qed simp

lemma suppress_expires: "expires st (snd (suppress_non_ota_trackers stored now st))"
  using suppress_scan_expires by (simp add: suppress_non_ota_trackers_def case_prod_beta)

lemma unsuppress_expires: "expires st (snd (unsuppress_all_trackers stored now st))"
  using unsuppress_scan_expires by (simp add: unsuppress_all_trackers_def case_prod_beta)

lemmas suppression_ok = expires_ok [OF suppress_expires] expires_ok [OF unsuppress_expires]

lemma arrays_ok_tracker:
  "arrays_ok st \<Longrightarrow> pending_ok tr \<Longrightarrow> arrays_ok (st\<lparr>ota_tracker := (ota_tracker st)[t := tr]\<rparr>)"
  by (simp add: arrays_ok_def list_all_update)

lemma arrays_ok_pending: "arrays_ok st \<Longrightarrow> t < MAX_TRACKERS \<Longrightarrow> pending_ok (ota_tracker st ! t)"
  by (simp add: arrays_ok_def list_all_length)

lemma session_ok_tracker:
  assumes "participating tr = participating (ota_tracker st ! t)" and "arrays_ok st"
  shows "session_ok (st\<lparr>ota_tracker := (ota_tracker st)[t := tr]\<rparr>) = session_ok st"
    and "aborted_apart (st\<lparr>ota_tracker := (ota_tracker st)[t := tr]\<rparr>) = aborted_apart st"
proof -
  have "participating ((ota_tracker st)[t := tr] ! i) = participating (ota_tracker st ! i)" for i
    using assms by (auto simp: nth_list_update_if arrays_ok_def)
  then show "session_ok (st\<lparr>ota_tracker := (ota_tracker st)[t := tr]\<rparr>) = session_ok st"
    and "aborted_apart (st\<lparr>ota_tracker := (ota_tracker st)[t := tr]\<rparr>) = aborted_apart st"
    by (simp_all add: session_ok_def aborted_apart_def targets_def)
qed

lemma tracker_update_ok:
  assumes "ota_ok st" and "participating tr = participating (ota_tracker st ! t)" and "pending_ok tr"
  shows "ota_ok (st\<lparr>ota_tracker := (ota_tracker st)[t := tr]\<rparr>)"
  using assms session_ok_tracker [OF assms(2)] by (auto simp: ota_ok_def intro: arrays_ok_tracker)

lemma pending_ok_frame [simp]:
  "pending_ok (tr\<lparr>participating := b\<rparr>) = pending_ok tr" "pending_ok (tr\<lparr>ot_status := s\<rparr>) = pending_ok tr"
  "pending_ok (tr\<lparr>ot_next_seq := n\<rparr>) = pending_ok tr" "pending_ok (tr\<lparr>pending_cmd_type := c\<rparr>) = pending_ok tr"
  "pending_ok (tr\<lparr>pending_cmd_send_count := k\<rparr>) = pending_ok tr"
  "pending_ok (tr\<lparr>last_hid_forward_time := x\<rparr>) = pending_ok tr"
  by (simp_all add: pending_ok_def)

lemma set_pending_ok:
  "pending_ok tr \<Longrightarrow> length pkt \<le> 64 \<Longrightarrow> pending_ok (set_pending_command_locked tr pkt now)"
  by (simp add: pending_ok_def set_pending_command_locked_def)

lemma remove_target_ok:
  assumes arr: "arrays_ok st" and ses: "session_ok st" and t: "t < MAX_TRACKERS"
    and ex: "\<forall>i<MAX_TRACKERS. i \<noteq> t \<longrightarrow> ota_abort_valid st ! i \<longrightarrow> \<not> participating (ota_tracker st ! i)"
    and r: "remove_target_locked st t = (ended, st')"
  shows "ota_ok st'"
proof (cases "participating (ota_tracker st ! t)")
  case True
  note c = remove_target_cases [OF arr ses r] and fr = remove_target_frame [OF r]
  have len: "length (ota_tracker st) = 16" using arr by (simp add: arrays_ok_def)
  have tr: "ota_tracker st' = (ota_tracker st)[t := (ota_tracker st ! t)\<lparr>participating := False\<rparr>]"
    and tg: "targets st' = filter (\<lambda>x. x \<noteq> t) (targets st)" and n: "num_targets st' = length (targets st')"
    and act: "ota_active st' = (num_targets st' \<noteq> 0)" "ring_head st' = (if ended then 0 else ring_head st)"
      "ended = (num_targets st' = 0)" "length (target_ids st') = 4"
    using c True t by simp_all
  have "pending_ok ((ota_tracker st ! t)\<lparr>participating := False\<rparr>)" using arrays_ok_pending [OF arr t] by simp
  then have "arrays_ok st'" using arr tr fr act by (simp add: arrays_ok_def list_all_update)
  moreover have "length (targets st') \<le> 4"
    using length_filter_le [of "\<lambda>x. x \<noteq> t" "targets st"] ses length_targets [OF arr ses]
    by (simp add: tg session_ok_def)
  then have "session_ok st'"
    using ses act n by (auto simp: session_ok_def tg tr len nth_list_update_if)
  moreover have "aborted_apart st'"
    using ex fr len t by (auto simp: aborted_apart_def tr nth_list_update_if)
  ultimately show ?thesis by (simp add: ota_ok_def)
next
  case False
  with remove_target_cases [OF arr ses r] arr ses ex show ?thesis
    by (auto simp: ota_ok_def aborted_apart_def)
qed

lemma remove_target_keeps_ok:
  "ota_ok st \<Longrightarrow> t < MAX_TRACKERS \<Longrightarrow> remove_target_locked st t = (ended, st') \<Longrightarrow> ota_ok st'"
  by (rule remove_target_ok [of st t ended]) (auto simp: ota_ok_def aborted_apart_def)

lemma cancel_section_ok:
  assumes "ota_ok st" and "t < MAX_TRACKERS"
    and "remove_target_locked (queue_abort_locked tombstone st t now) t = (ended, st')"
  shows "ota_ok st'"
proof (rule remove_target_ok [OF _ _ assms(2) _ assms(3)])
  show "arrays_ok (queue_abort_locked tombstone st t now)" "session_ok (queue_abort_locked tombstone st t now)"
    using assms(1) by (simp_all add: ota_ok_def arrays_ok_def session_ok_def targets_def queue_abort_locked_def)
  show "\<forall>i<MAX_TRACKERS. i \<noteq> t \<longrightarrow> ota_abort_valid (queue_abort_locked tombstone st t now) ! i \<longrightarrow>
      \<not> participating (ota_tracker (queue_abort_locked tombstone st t now) ! i)"
    using assms(1) by (simp add: ota_ok_def aborted_apart_def queue_abort_locked_def)
qed

lemma cancel_loop_ok:
  "ota_ok st \<Longrightarrow> list_all (\<lambda>t. t < MAX_TRACKERS) ts \<Longrightarrow> ota_ok (snd (cancel_loop tombstone now ts (b, st)))"
proof (induction ts arbitrary: b st)
  case (Cons t ts)
  obtain e st1 where r: "remove_target_locked (queue_abort_locked tombstone st t now) t = (e, st1)" by fastforce
  with Cons.prems have "ota_ok st1" by (auto intro: cancel_section_ok)
  with Cons r show ?case by simp
qed simp

lemma reset_session_ok:
  assumes "arrays_ok st"
  shows "ota_ok (reset_session_locked st)"
proof -
  have "participating (ota_tracker (reset_session_locked st) ! t) = False" if "t < MAX_TRACKERS" for t
    using assms that by (simp add: reset_session_locked_def arrays_ok_def)
  moreover have "arrays_ok (reset_session_locked st)"
    using assms by (auto simp: arrays_ok_def reset_session_locked_def list_all_iff pending_ok_def)
  ultimately show ?thesis
    by (simp add: ota_ok_def session_ok_def aborted_apart_def targets_def)
      (simp add: reset_session_locked_def)
qed

lemma targets_bounded: "session_ok st \<Longrightarrow> list_all (\<lambda>t. t < MAX_TRACKERS) (targets st)"
  by (auto simp: session_ok_def list_all_iff)

lemma length_strncpy [simp]: "length (strncpy n src) = n"
  by (simp add: strncpy_def)

lemma length_begin_packet: "zephyr_law z \<Longrightarrow> length (begin_packet z d len) = 64"
  by (simp add: begin_packet_def zephyr_law_def Let_def)

lemma add_target_targets:
  assumes "arrays_ok st" and "num_targets st < OTA_MAX_PARALLEL"
  shows "targets (st\<lparr>target_ids := (target_ids st)[num_targets st := t], num_targets := num_targets st + 1\<rparr>)
    = targets st @ [t]"
  using assms by (simp add: targets_def arrays_ok_def take_Suc_conv_app_nth)

lemma admit_ok:
  assumes ok: "ota_ok st" and act: "ota_active st \<or> targets st = []" and t: "t < MAX_TRACKERS"
    and room: "participating (ota_tracker st ! t) \<or> num_targets st < OTA_MAX_PARALLEL"
    and st2: "st2 = (if participating (ota_tracker st ! t) then st
      else st\<lparr>target_ids := (target_ids st)[num_targets st := t], num_targets := num_targets st + 1\<rparr>)"
    and tr: "participating tr" "pending_ok tr"
  shows "ota_ok (st2\<lparr>ota_tracker := (ota_tracker st2)[t := tr], ota_active := True,
    ota_abort_expiry_ticks := (ota_abort_expiry_ticks st2)[t := 0],
    ota_abort_valid := (ota_abort_valid st2)[t := False]\<rparr>)" (is "ota_ok ?st")
proof -
  have arr: "arrays_ok st" and ses: "session_ok st" and ab: "aborted_apart st"
    using ok by (simp_all add: ota_ok_def)
  have len: "length (ota_tracker st) = 16" "length (ota_abort_valid st) = 16" "length (target_ids st) = 4"
    using arr by (simp_all add: arrays_ok_def)
  have same: "ota_tracker st2 = ota_tracker st" "ota_abort_valid st2 = ota_abort_valid st"
    by (simp_all add: st2)
  have tg: "targets st2 = (if participating (ota_tracker st ! t) then targets st else targets st @ [t])"
    using add_target_targets [OF arr] room by (auto simp: st2)
  have "arrays_ok ?st" using arr tr by (auto simp: arrays_ok_def st2 list_all_update)
  moreover have "session_ok ?st"
  proof -
    have num: "num_targets st2 = length (targets st2)"
      using length_targets [OF arr ses] by (simp add: tg) (simp add: st2)
    have "t \<in> set (targets st)" if "participating (ota_tracker st ! t)"
      using that ses t by (simp add: session_ok_def)
    then have "targets st2 \<noteq> []" by (auto simp: tg)
    moreover have "num_targets st \<le> 4" using ses by (simp add: session_ok_def)
    then have "num_targets st2 \<le> 4" using room by (auto simp: st2)
    ultimately have n: "num_targets st2 \<le> 4" "num_targets st2 \<noteq> 0" by (simp_all add: num)
    have "set (targets st2) = insert t (set (targets st))" using ses t by (auto simp: tg session_ok_def)
    also have "\<dots> = {i. i < MAX_TRACKERS \<and> participating ((ota_tracker st)[t := tr] ! i)}"
      using ses t tr len by (auto simp: session_ok_def nth_list_update_if)
    finally have set: "set (targets ?st) = {i. i < MAX_TRACKERS \<and> participating (ota_tracker ?st ! i)}"
      by (simp add: targets_def same)
    have "distinct (targets ?st)" using ses t tg by (auto simp: session_ok_def targets_def)
    with n set show ?thesis by (simp add: session_ok_def targets_def)
  qed
  moreover have "aborted_apart ?st"
    using ab len t by (auto simp: aborted_apart_def same nth_list_update_if)
  ultimately show ?thesis by (simp add: ota_ok_def)
qed

lemma session_fields_ok:
  "ota_ok (st\<lparr>image_size := img, total_packets := tot\<rparr>) = ota_ok st"
  by (simp add: ota_ok_def arrays_ok_def session_ok_def aborted_apart_def targets_def)

lemma begin_pass_ok:
  assumes ok: "ota_ok st" and t: "t < MAX_TRACKERS" and pkt: "length pkt \<le> 64"
    and b: "begin_pass st t acquired pkt img tot now = BeginDone first st'"
  shows "ota_ok st'"
proof -
  define st1 where "st1 = (if ota_active st then st
    else (reset_session_locked st)\<lparr>image_size := img, total_packets := tot\<rparr>)"
  define st2 where "st2 = (if participating (ota_tracker st1 ! t) then st1
    else st1\<lparr>target_ids := (target_ids st1)[num_targets st1 := t], num_targets := num_targets st1 + 1\<rparr>)"
  define tr where "tr = set_pending_command_locked ((ota_tracker st2 ! t)\<lparr>participating := True,
    ot_status := OTA_STATUS_IDLE, ot_next_seq := 0, last_hid_forward_time := 0\<rparr>) pkt now"
  have ok1: "ota_ok st1"
    using ok reset_session_ok by (auto simp: st1_def session_fields_ok ota_ok_def [of st])
  have act: "ota_active st1 \<or> targets st1 = []"
    by (simp add: st1_def targets_def reset_session_locked_def)
  have room: "participating (ota_tracker st1 ! t) \<or> num_targets st1 < OTA_MAX_PARALLEL"
    using b by (auto simp: begin_pass_def st1_def reset_session_locked_def Let_def split: if_splits)
  have "pending_ok (ota_tracker st2 ! t)"
    using ok1 t by (auto simp: st2_def ota_ok_def intro: arrays_ok_pending)
  then have tr: "participating tr" "pending_ok tr"
    using pkt by (simp_all add: tr_def set_pending_ok) (simp add: set_pending_command_locked_def)
  have "st' = st2\<lparr>ota_tracker := (ota_tracker st2)[t := tr], ota_active := True,
      ota_abort_expiry_ticks := (ota_abort_expiry_ticks st2)[t := 0],
      ota_abort_valid := (ota_abort_valid st2)[t := False]\<rparr>"
    using b unfolding begin_pass_def Let_def st1_def [symmetric] st2_def tr_def
    by (auto simp: st1_def split: if_splits)
  then show ?thesis using admit_ok [OF ok1 act t room st2_def tr] by simp
qed

lemma data_entry_ok: "entry_ok e \<Longrightarrow> len \<le> length d \<Longrightarrow> 4 \<le> len \<Longrightarrow> entry_ok (data_entry d len e)"
  by (auto simp: entry_ok_def data_entry_def Let_def)

lemma hid_data_ok:
  assumes "ota_ok st" and "len \<le> length d"
  shows "ota_ok (ota_hid_data z d len st)"
proof (cases "\<not> ota_active st \<or> len < 5 \<or> of_nat OTA_TX_RING_SIZE \<le> ring_count_locked st")
  case True
  then show ?thesis using assms(1) by (auto simp: ota_hid_data_def)
next
  case False
  define idx where "idx = unat (get_be16 z (d ! 2) (d ! 3)) mod OTA_TX_RING_SIZE"
  have "entry_ok (ring st ! idx)"
    using assms(1) by (simp add: ota_ok_def arrays_ok_def list_all_length idx_def)
  then have "list_all entry_ok ((ring st)[idx := data_entry d len (ring st ! idx)])"
    using assms False by (intro list_all_update data_entry_ok) (auto simp: ota_ok_def arrays_ok_def)
  with False assms(1) show ?thesis
    by (simp add: ota_hid_data_def Let_def idx_def [symmetric])
      (simp add: ota_ok_def arrays_ok_def session_ok_def aborted_apart_def targets_def)
qed

lemma hid_command_ok: "ota_ok st \<Longrightarrow> ota_ok (ota_hid_command d now st)"
  by (auto simp: ota_hid_command_def Let_def ota_ok_def [of st] intro!: tracker_update_ok set_pending_ok
      intro: arrays_ok_pending) (simp_all add: set_pending_command_locked_def ota_ok_def)

lemma ack_data_phase_ok: "ota_ok st \<Longrightarrow> t < MAX_TRACKERS \<Longrightarrow> ota_ok (snd (ack_data_phase z t pipe rx st))"
  by (auto simp: ack_data_phase_def Let_def intro!: tracker_update_ok arrays_ok_pending)
    (simp add: ota_ok_def)

lemma fill_ack_ok:
  assumes "ota_ok st"
  shows "ota_ok (snd (esb_ota_relay_fill_ack env t pipe rx st))"
proof (cases "t < MAX_TRACKERS")
  case True
  obtain b st1 where b: "ota_abort_pending_locked st t (clk env 0) = (b, st1)" by fastforce
  have ok: "ota_ok st1" using expires_ok [OF abort_pending_expires [OF b] assms] .
  then have "pending_ok (ota_tracker st1 ! t)" using True by (simp add: ota_ok_def arrays_ok_pending)
  with ok True b ack_data_phase_ok [OF ok True] show ?thesis
    by (auto simp: esb_ota_relay_fill_ack_def Let_def intro!: tracker_update_ok)
qed (simp add: esb_ota_relay_fill_ack_def assms)

lemma status_update_ok:
  assumes "ota_ok st" and "t < MAX_TRACKERS" and "status_update st t status now = (report, ended, st')"
  shows "ota_ok st'"
proof -
  define tr where "tr = ota_tracker st ! t"
  define tr2 where "tr2 = (let tr1 = tr\<lparr>ot_status := status\<rparr> in
    if command_confirmed (pending_cmd_type tr1) status then tr1\<lparr>pending_cmd_type := 0\<rparr> else tr1)"
  define tr3 where "tr3 = (if status \<noteq> ot_status tr \<or> ota_status_terminal status \<or>
    30 \<le> now - last_hid_forward_time tr2 then tr2\<lparr>last_hid_forward_time := now\<rparr> else tr2)"
  define st1 where "st1 = st\<lparr>ota_tracker := (ota_tracker st)[t := tr3]\<rparr>"
  have "pending_ok tr" using assms(1,2) by (simp add: tr_def ota_ok_def arrays_ok_pending)
  then have "ota_ok st1"
    unfolding st1_def by (intro tracker_update_ok [OF assms(1)]) (simp_all add: tr3_def tr2_def tr_def Let_def)
  moreover have "(ended, st') = (if ota_status_terminal status then remove_target_locked st1 t else (False, st1))"
    using assms(3) unfolding status_update_def st1_def tr3_def tr2_def tr_def Let_def
    by (auto split: prod.splits)
  ultimately show ?thesis
    using remove_target_keeps_ok [of st1 t ended st'] assms(2) by (auto split: if_splits)
qed

lemma fw_info_ok: "ota_ok st \<Longrightarrow> ota_ok (snd (ota_tracker_fw_info d st))"
  by (auto simp: ota_tracker_fw_info_def Let_def ota_ok_def arrays_ok_def session_ok_def
      aborted_apart_def targets_def)

lemma forget_section_ok:
  assumes "ota_ok st" and t: "t < MAX_TRACKERS"
  shows "ota_ok (snd (forget_section st t))"
proof -
  obtain e st1 where r: "remove_target_locked st t = (e, st1)" by fastforce
  have ok: "ota_ok st1" using remove_target_keeps_ok [OF assms r] .
  have len: "length (ota_tracker st) = 16" using assms(1) by (simp add: ota_ok_def arrays_ok_def)
  have "\<not> participating (ota_tracker st1 ! t)"
    using remove_target_cases [OF _ _ r] assms len by (auto simp: ota_ok_def split: if_splits)
  then have "ota_ok (st1\<lparr>ota_tracker := (ota_tracker st1)[t := zero_ota_tracker]\<rparr>)"
    by (intro tracker_update_ok [OF ok]) (simp_all add: zero_ota_tracker_def pending_ok_def)
  then show ?thesis
    by (auto simp: forget_section_def r Let_def ota_ok_def arrays_ok_def session_ok_def
        aborted_apart_def targets_def nth_list_update_if)
qed

section \<open>The relay as a state machine of its critical sections\<close>

text \<open>
  The host thread, the radio interrupt and the work queue interleave at the boundaries of the
  critical sections. \<open>ten\<close> is the length of ten seconds in ticks.
\<close>

inductive ota_section :: "ota \<Rightarrow> ota \<Rightarrow> bool" where
  sec_begin: "t < MAX_TRACKERS \<Longrightarrow> length pkt \<le> 64 \<Longrightarrow>
    begin_pass st t acquired pkt img tot now = BeginDone first st' \<Longrightarrow> ota_section st st'"
| sec_data: "len \<le> length d \<Longrightarrow> ota_section st (ota_hid_data z d len st)"
| sec_command: "ota_section st (ota_hid_command d now st)"
| sec_cancel: "t < MAX_TRACKERS \<Longrightarrow>
    ota_section st (snd (remove_target_locked (queue_abort_locked ten st t now) t))"
| sec_cancel_all: "ota_section st (reset_session_locked (snd (cancel_loop ten now (targets st) (False, st))))"
| sec_suppress: "ota_section st (snd (suppress_non_ota_trackers stored now st))"
| sec_unsuppress: "ota_section st (snd (unsuppress_all_trackers stored now st))"
| sec_abort_pending: "ota_section st (snd (ota_abort_pending_locked st t now))"
| sec_fill_ack: "ota_section st (snd (esb_ota_relay_fill_ack env t pipe rx st))"
| sec_status: "t < MAX_TRACKERS \<Longrightarrow> status_update st t status wall = (report, ended, st') \<Longrightarrow> ota_section st st'"
| sec_fw_info: "ota_section st (snd (ota_tracker_fw_info d st))"
| sec_fw_sent: "ota_section st (snd (fw_info_send_work_handler st))"
| sec_forget: "t < MAX_TRACKERS \<Longrightarrow> ota_section st (snd (forget_section st t))"

lemma ota_section_ok: "ota_section st st' \<Longrightarrow> ota_ok st \<Longrightarrow> ota_ok st'"
proof (induction rule: ota_section.induct)
  case (sec_cancel t st ten now)
  then show ?case by (metis cancel_section_ok prod.collapse)
next
  case (sec_cancel_all st ten now)
  then have "ota_ok (snd (cancel_loop ten now (targets st) (False, st)))"
    by (intro cancel_loop_ok targets_bounded) (simp_all add: ota_ok_def)
  then show ?case by (intro reset_session_ok) (simp add: ota_ok_def)
next
  case (sec_abort_pending st t now)
  then show ?case by (metis abort_pending_expires expires_ok prod.collapse)
next
  case (sec_fw_sent st)
  then show ?case by (auto simp: fw_info_send_work_handler_def ota_ok_def arrays_ok_def session_ok_def
        aborted_apart_def targets_def)
qed (auto intro: begin_pass_ok hid_data_ok hid_command_ok suppression_ok fill_ack_ok status_update_ok
    fw_info_ok forget_section_ok)

lemma ota_boot_ok: "ota_ok ota_boot"
  by (auto simp: ota_ok_def arrays_ok_def session_ok_def aborted_apart_def targets_def ota_boot_def
      entry_ok_def pending_ok_def zero_ota_tracker_def)

lemma ota_run_ok: "ota_section\<^sup>*\<^sup>* st st' \<Longrightarrow> ota_ok st \<Longrightarrow> ota_ok st'"
  by (induction rule: rtranclp_induct) (auto intro: ota_section_ok)

section \<open>The handlers are runs of critical sections\<close>

lemma unsuppress_run:
  "ota_section\<^sup>*\<^sup>* st st1 \<Longrightarrow>
     ota_section\<^sup>*\<^sup>* st (snd (if b then unsuppress_all_trackers stored now st1 else ([], st1)))"
  by (auto intro: rtranclp.rtrancl_into_rtrancl sec_unsuppress)

lemma begin_loop_run:
  "t < MAX_TRACKERS \<Longrightarrow> length pkt \<le> 64 \<Longrightarrow>
     ota_section\<^sup>*\<^sup>* st (snd (begin_loop n env t acquired pkt img tot st))"
proof (induction n arbitrary: acquired)
  case (Suc n)
  show ?case
  proof (cases "begin_pass st t acquired pkt img tot (clk env 0)")
    case (BeginDone first st1)
    have "ota_section\<^sup>*\<^sup>* st st1" using sec_begin [OF Suc.prems BeginDone] by simp
    then show ?thesis using BeginDone
      by (auto simp: case_prod_beta intro: rtranclp.rtrancl_into_rtrancl sec_suppress)
  qed (use Suc in \<open>simp_all add: case_prod_beta\<close>)
qed simp

lemma cancel_target_run: "ota_section\<^sup>*\<^sup>* st (snd (cancel_target ten stored t c st))"
proof (cases "t < MAX_TRACKERS")
  case True
  have "ota_section\<^sup>*\<^sup>* st (snd (remove_target_locked (queue_abort_locked ten st t (c 0)) t))"
    using sec_cancel [OF True] by (rule r_into_rtranclp)
  from unsuppress_run [OF this] True show ?thesis
    by (simp add: cancel_target_def case_prod_beta Let_def)
qed (simp add: cancel_target_def)

lemma cancel_all_run: "ota_section\<^sup>*\<^sup>* st (snd (cancel_all_targets ten stored c st))"
proof -
  have base: "ota_section\<^sup>*\<^sup>* st (reset_session_locked (snd (cancel_loop ten (c 0) (targets st) (False, st))))"
    using sec_cancel_all by (rule r_into_rtranclp)
  have more: "ota_section\<^sup>*\<^sup>* st (snd (unsuppress_all_trackers stored n s))" if "ota_section\<^sup>*\<^sup>* st s" for n s
    using unsuppress_run [OF that, where b = True] by simp
  show ?thesis
    by (auto simp: cancel_all_targets_def case_prod_beta Let_def targets_def [symmetric]
        intro!: more base)
qed

lemma process_hid_run:
  assumes "zephyr_law (zeph env)" and "len \<le> length d"
  shows "ota_section\<^sup>*\<^sup>* st (snd (esb_ota_relay_process_hid env d len st))"
proof -
  have "ota_section\<^sup>*\<^sup>* st (snd (ota_hid_begin env d len st))"
    using begin_loop_run length_begin_packet [OF assms(1)]
    by (auto simp: ota_hid_begin_def Let_def begin_admission_def case_prod_beta not_le split: bool.splits)
  then show ?thesis
    using assms(2)
    by (auto simp: esb_ota_relay_process_hid_def ota_hid_abort_def cancel_target_run cancel_all_run
        intro!: r_into_rtranclp intro: sec_data sec_command)
qed

lemma tracker_packet_run:
  "ota_section\<^sup>*\<^sup>* st (snd (esb_ota_relay_process_tracker_packet env d now st))"
proof -
  define t where "t = unat (d ! 1)"
  obtain report ended st1 where u: "status_update st t (d ! 2) now = (report, ended, st1)"
    by (metis prod.exhaust)
  have "ota_section\<^sup>*\<^sup>* st (snd (ota_tracker_status env d now st))"
  proof (cases "length d < 3 \<or> MAX_TRACKERS \<le> t")
    case False
    then have "ota_section\<^sup>*\<^sup>* st st1" using sec_status [OF _ u] by (simp add: r_into_rtranclp)
    from unsuppress_run [OF this, of ended] False show ?thesis
      by (simp add: ota_tracker_status_def Let_def t_def [symmetric] u case_prod_beta del: One_nat_def)
  qed (auto simp: ota_tracker_status_def t_def)
  moreover have "ota_section\<^sup>*\<^sup>* st (snd (ota_tracker_fw_info d st))"
    using sec_fw_info by (rule r_into_rtranclp)
  ultimately show ?thesis by (simp add: esb_ota_relay_process_tracker_packet_def)
qed

lemma forget_run: "ota_section\<^sup>*\<^sup>* st (snd (esb_ota_forget_tracker stored t now st))"
proof (cases "t < MAX_TRACKERS")
  case True
  then have "ota_section\<^sup>*\<^sup>* st (snd (forget_section st t))" by (intro r_into_rtranclp sec_forget)
  from unsuppress_run [OF this] True show ?thesis
    by (simp add: esb_ota_forget_tracker_def case_prod_beta)
qed (simp add: esb_ota_forget_tracker_def)

end
