(* ===== verification/EsbOtaProps.thy ===== *)
theory EsbOtaProps
  imports EsbOtaCorrect
begin

text \<open>
  The transfer of an image through the relay. A transfer is a session with the packets that the
  host has got into the ring so far: the host sends them in order, trackers poll with sequence
  numbers that do not go back, and commands and status packets come in between.
\<close>

section \<open>The window of the ring\<close>

lemma min_seq_loop_le:
  "uint m < 2 ^ 31 \<Longrightarrow>
     unat (min_seq_loop st ts m) \<le> unat m \<and>
     (\<forall>t\<in>set ts. unat (min_seq_loop st ts m) \<le> unat (ot_next_seq (ota_tracker st ! t)))"
proof (induction ts arbitrary: m)
  case (Cons t ts)
  define s :: u32 where "s = ucast (ot_next_seq (ota_tracker st ! t))"
  define m' where "m' = (if sint (s - m) < 0 then s else m)"
  have s: "unat s = unat (ot_next_seq (ota_tracker st ! t))" by (simp add: s_def)
  moreover have "unat (ot_next_seq (ota_tracker st ! t)) < 65536"
    using unsigned_less [of "ot_next_seq (ota_tracker st ! t)"] by simp
  ultimately have us: "uint s < 2 ^ 31" by (simp add: uint_nat del: of_nat_unat)
  have "sint (s - m) = uint s - uint m" using us Cons.prems by (intro sint_diff_small) simp_all
  then have "sint (s - m) < 0 \<longleftrightarrow> unat s < unat m"
    by (simp flip: word_less_def word_less_nat_alt)
  then have m': "uint m' < 2 ^ 31" "unat m' \<le> unat m" "unat m' \<le> unat s"
    using us Cons.prems by (simp_all add: m'_def)
  from Cons.IH [OF m'(1)] m'(2,3) s show ?case
    by (auto simp: Let_def s_def [symmetric] m'_def [symmetric])
qed simp

lemma ring_count_window:
  assumes "ring_head st = of_nat n" and "n \<le> 65536" and "ring_count_locked st < 128" and "t \<in> set (targets st)"
  shows "n < unat (ot_next_seq (ota_tracker st ! t)) + 128"
proof -
  define m where "m = ring_seq_min_locked st"
  have n: "unat (ring_head st) = n" using assms(1,2) by (simp add: unat_of_nat)
  then have "uint (ring_head st) < 2 ^ 31" using assms(2) by (simp add: uint_nat del: of_nat_unat)
  from min_seq_loop_le [OF this, of st "targets st"] assms(4)
  have le: "unat m \<le> unat (ring_head st)" "unat m \<le> unat (ot_next_seq (ota_tracker st ! t))"
    by (simp_all add: m_def ring_seq_min_locked_def targets_def)
  then have "unat (ring_count_locked st) = n - unat m"
    using n by (simp add: ring_count_locked_def m_def [symmetric] unat_sub word_le_nat_alt)
  then show ?thesis using assms(3) le n by (simp add: word_less_nat_alt)
qed

section \<open>Transfers\<close>

definition data_packet :: "bytes \<Rightarrow> nat \<Rightarrow> bytes" where
  "data_packet d len = [ESB_OTA_DATA_TYPE, 0, d ! 2, d ! 3] @
     take (min (len - OTA_DATA_HEADER_SIZE) OTA_DATA_MAX_PAYLOAD) (drop 4 d)"

inductive ota_transfer :: "zephyr \<Rightarrow> ota \<Rightarrow> bytes list \<Rightarrow> bool" for z where
  tr_start: "ota_ok st \<Longrightarrow> ota_active st \<Longrightarrow> ring_head st = 0 \<Longrightarrow> ota_transfer z st []"
| tr_send: "ota_transfer z st sent \<Longrightarrow> 5 \<le> len \<Longrightarrow> len \<le> length d \<Longrightarrow> length sent < 65536 \<Longrightarrow>
    get_be16 z (d ! 2) (d ! 3) = of_nat (length sent) \<Longrightarrow>
    ota_transfer z (ota_hid_data z d len st)
      (if ring_count_locked st < 128 then sent @ [data_packet d len] else sent)"
| tr_poll: "ota_transfer z st sent \<Longrightarrow> t < MAX_TRACKERS \<Longrightarrow> zeph env = z \<Longrightarrow>
    is_status_poll rx \<longrightarrow> ot_next_seq (ota_tracker st ! t) \<le> poll_seq z rx \<Longrightarrow>
    ota_transfer z (snd (esb_ota_relay_fill_ack env t pipe rx st)) sent"
| tr_command: "ota_transfer z st sent \<Longrightarrow> ota_transfer z (ota_hid_command d now st) sent"
| tr_status: "ota_transfer z st sent \<Longrightarrow> t < MAX_TRACKERS \<Longrightarrow>
    status_update st t status wall = (report, ended, st') \<Longrightarrow> ota_active st' \<Longrightarrow> ota_transfer z st' sent"

definition entry_holds :: "zephyr \<Rightarrow> ota_tx_entry \<Rightarrow> nat \<Rightarrow> bytes \<Rightarrow> bool" where
  "entry_holds z e i pkt \<longleftrightarrow> get_be16 z (en_data e ! 2) (en_data e ! 3) = of_nat i \<and>
     take (en_length e) (en_data e) = pkt"

definition transfer_inv :: "zephyr \<Rightarrow> ota \<Rightarrow> bytes list \<Rightarrow> bool" where
  "transfer_inv z st sent \<longleftrightarrow> ota_ok st \<and> ota_active st \<and> length sent \<le> 65536 \<and>
     ring_head st = of_nat (length sent) \<and>
     (\<forall>i<length sent. length sent \<le> i + 128 \<longrightarrow> entry_holds z (ring st ! (i mod 128)) i (sent ! i)) \<and>
     (\<forall>t\<in>set (targets st). length sent \<le> unat (ot_next_seq (ota_tracker st ! t)) + 128)"

lemma data_entry_holds:
  assumes "entry_ok e" and "5 \<le> len" "len \<le> length d" and "get_be16 z (d ! 2) (d ! 3) = of_nat i"
  shows "entry_holds z (data_entry d len e) i (data_packet d len)"
  using assms
  by (auto simp: entry_holds_def data_entry_def data_packet_def Let_def entry_ok_def take_four min_def
      simp flip: numeral_plus_numeral)

lemma transfer_send:
  assumes inv: "transfer_inv z st sent" and len: "5 \<le> len" "len \<le> length d" and n: "length sent < 65536"
    and seq: "get_be16 z (d ! 2) (d ! 3) = of_nat (length sent)"
  shows "transfer_inv z (ota_hid_data z d len st)
    (if ring_count_locked st < 128 then sent @ [data_packet d len] else sent)"
proof (cases "ring_count_locked st < 128")
  case True
  define k where "k = length sent mod 128"
  define e where "e = data_entry d len (ring st ! k)"
  have ok: "ota_ok st" "ota_active st" and head: "ring_head st = of_nat (length sent)"
    using inv by (simp_all add: transfer_inv_def)
  have k: "k < length (ring st)" using ok by (simp add: k_def ota_ok_def arrays_ok_def)
  have "entry_ok (ring st ! k)" using ok k by (simp add: ota_ok_def arrays_ok_def list_all_length)
  then have e: "entry_holds z e (length sent) (data_packet d len)"
    unfolding e_def using len seq by (rule data_entry_holds)
  have idx: "unat (of_nat (length sent) :: u16) = length sent" using n by (simp add: unat_of_nat)
  have "(ucast (of_nat (length sent) :: u16) :: u32) = of_nat (length sent)"
    using n idx by (intro word_unat_eq_iff [THEN iffD2]) (simp add: unat_of_nat)
  moreover have "(of_nat (length sent) :: u32) < of_nat (Suc (length sent))"
    using n by (simp add: word_less_nat_alt unat_of_nat del: of_nat_Suc)
  then have "(of_nat (length sent) :: u32) < of_nat (length sent) + 1" by (simp add: add.commute)
  ultimately have st': "ota_hid_data z d len st = st\<lparr>ring := (ring st)[k := e], ring_head := of_nat (length sent) + 1\<rparr>"
    using ok True len head seq idx by (simp add: ota_hid_data_def Let_def k_def [symmetric] e_def not_le)
  have "entry_holds z ((ring st)[k := e] ! (i mod 128)) i ((sent @ [data_packet d len]) ! i)"
    if "i < Suc (length sent)" "Suc (length sent) \<le> i + 128" for i
    using that e k inv mod_window_neq [of i "length sent" 128]
    by (cases "i = length sent") (auto simp: k_def nth_append transfer_inv_def)
  moreover have "Suc (length sent) \<le> unat (ot_next_seq (ota_tracker st ! t)) + 128" if "t \<in> set (targets st)" for t
    using ring_count_window [OF head _ True that] n by simp
  ultimately show ?thesis
    using True hid_data_ok [OF ok(1) len(2), of z] st' ok n
    by (simp add: transfer_inv_def targets_def)
next
  case False
  then have "ota_hid_data z d len st = st" using len by (simp add: ota_hid_data_def not_less)
  with False inv show ?thesis by simp
qed

lemma transfer_inv_mono:
  assumes "transfer_inv z st sent" and "ota_ok st'" "ota_active st'" "ring st' = ring st"
    "ring_head st' = ring_head st" "set (targets st') \<subseteq> set (targets st)"
    and mono: "\<And>i. unat (ot_next_seq (ota_tracker st ! i)) \<le> unat (ot_next_seq (ota_tracker st' ! i))"
  shows "transfer_inv z st' sent"
proof -
  have "length sent \<le> unat (ot_next_seq (ota_tracker st' ! t)) + 128" if "t \<in> set (targets st')" for t
  proof -
    have "length sent \<le> unat (ot_next_seq (ota_tracker st ! t)) + 128"
      using assms(1,6) that by (auto simp: transfer_inv_def)
    with mono [of t] show ?thesis by simp
  qed
  with assms(1-5) show ?thesis by (simp add: transfer_inv_def)
qed

text \<open>What a poll leaves as it is, and the one sequence number it can change.\<close>

lemma fill_ack_frame:
  assumes "t < MAX_TRACKERS" and "ota_ok st" and "st' = snd (esb_ota_relay_fill_ack env t pipe rx st)"
  shows "ring st' = ring st \<and> ring_head st' = ring_head st \<and> targets st' = targets st \<and>
    ota_active st' = ota_active st \<and> (\<forall>i. ot_next_seq (ota_tracker st' ! i) = ot_next_seq (ota_tracker st ! i) \<or>
      i = t \<and> is_status_poll rx \<and> ot_next_seq (ota_tracker st' ! i) = poll_seq (zeph env) rx)"
proof -
  obtain b st1 where b: "ota_abort_pending_locked st t (clk env 0) = (b, st1)" by fastforce
  obtain v where "st1 = st\<lparr>ota_abort_valid := v\<rparr>"
    using abort_pending_expires [OF b] by (auto simp: expires_def)
  with b assms(1,3) show ?thesis
    by (auto simp: esb_ota_relay_fill_ack_def ack_data_phase_def Let_def targets_def nth_list_update_if)
qed

lemma transfer_poll:
  assumes inv: "transfer_inv z st sent" and t: "t < MAX_TRACKERS" "zeph env = z"
    and mono: "is_status_poll rx \<longrightarrow> ot_next_seq (ota_tracker st ! t) \<le> poll_seq z rx"
  shows "transfer_inv z (snd (esb_ota_relay_fill_ack env t pipe rx st)) sent"
proof -
  have ok: "ota_ok st" using inv by (simp add: transfer_inv_def)
  note fr = fill_ack_frame [OF t(1) ok refl, of env pipe rx]
  have "unat (ot_next_seq (ota_tracker st ! i)) \<le>
      unat (ot_next_seq (ota_tracker (snd (esb_ota_relay_fill_ack env t pipe rx st)) ! i))" for i
    using fr mono t(2) by (metis order_refl word_le_nat_alt)
  with fr inv fill_ack_ok [OF ok, of env t pipe rx] show ?thesis
    by (intro transfer_inv_mono [OF inv]) (simp_all add: transfer_inv_def)
qed

lemma transfer_command:
  assumes inv: "transfer_inv z st sent"
  shows "transfer_inv z (ota_hid_command d now st) sent"
proof -
  have ok: "ota_ok (ota_hid_command d now st)" using inv by (simp add: transfer_inv_def hid_command_ok)
  have "ot_next_seq (ota_tracker (ota_hid_command d now st) ! i) = ot_next_seq (ota_tracker st ! i)" for i
    by (simp add: ota_hid_command_def Let_def nth_list_update_if set_pending_command_locked_def)
  moreover have "ring (ota_hid_command d now st) = ring st" "ring_head (ota_hid_command d now st) = ring_head st"
    "targets (ota_hid_command d now st) = targets st" "ota_active (ota_hid_command d now st) = ota_active st"
    by (simp_all add: ota_hid_command_def Let_def targets_def)
  ultimately show ?thesis using inv ok by (simp add: transfer_inv_def)
qed

lemma status_update_removes:
  assumes "status_update st t status wall = (report, ended, st')"
  shows "\<exists>tr. (ended, st') = (if ota_status_terminal status
      then remove_target_locked (st\<lparr>ota_tracker := (ota_tracker st)[t := tr]\<rparr>) t
      else (False, st\<lparr>ota_tracker := (ota_tracker st)[t := tr]\<rparr>)) \<and>
    participating tr = participating (ota_tracker st ! t) \<and> ot_next_seq tr = ot_next_seq (ota_tracker st ! t) \<and>
    pending_cmd_data tr = pending_cmd_data (ota_tracker st ! t) \<and>
    pending_cmd_len tr = pending_cmd_len (ota_tracker st ! t)"
proof -
  define tr2 where "tr2 = (let tr1 = (ota_tracker st ! t)\<lparr>ot_status := status\<rparr> in
    if command_confirmed (pending_cmd_type tr1) status then tr1\<lparr>pending_cmd_type := 0\<rparr> else tr1)"
  define tr3 where "tr3 = (if status \<noteq> ot_status (ota_tracker st ! t) \<or> ota_status_terminal status \<or>
    30 \<le> wall - last_hid_forward_time tr2 then tr2\<lparr>last_hid_forward_time := wall\<rparr> else tr2)"
  have "(ended, st') = (if ota_status_terminal status
      then remove_target_locked (st\<lparr>ota_tracker := (ota_tracker st)[t := tr3]\<rparr>) t
      else (False, st\<lparr>ota_tracker := (ota_tracker st)[t := tr3]\<rparr>))"
    using assms unfolding status_update_def tr3_def tr2_def Let_def by (auto split: prod.splits)
  then show ?thesis by (intro exI [of _ tr3]) (simp add: tr3_def tr2_def Let_def)
qed

lemma transfer_status:
  assumes inv: "transfer_inv z st sent" and t: "t < MAX_TRACKERS"
    and u: "status_update st t status wall = (report, ended, st')" and act: "ota_active st'"
  shows "transfer_inv z st' sent"
proof -
  have ok: "ota_ok st" using inv by (simp add: transfer_inv_def)
  obtain tr where s: "(ended, st') = (if ota_status_terminal status
      then remove_target_locked (st\<lparr>ota_tracker := (ota_tracker st)[t := tr]\<rparr>) t
      else (False, st\<lparr>ota_tracker := (ota_tracker st)[t := tr]\<rparr>))"
    and tr: "participating tr = participating (ota_tracker st ! t)" "ot_next_seq tr = ot_next_seq (ota_tracker st ! t)"
      "pending_ok tr"
    using status_update_removes [OF u] ok arrays_ok_pending [OF _ t] by (auto simp: ota_ok_def pending_ok_def)
  define st1 where "st1 = st\<lparr>ota_tracker := (ota_tracker st)[t := tr]\<rparr>"
  have ok1: "ota_ok st1" unfolding st1_def using ok tr by (intro tracker_update_ok)
  have seq: "ot_next_seq (ota_tracker st1 ! i) = ot_next_seq (ota_tracker st ! i)" for i
    using tr by (simp add: st1_def nth_list_update_if)
  have st1: "ring st1 = ring st" "ring_head st1 = ring_head st" "targets st1 = targets st"
    by (simp_all add: st1_def targets_def)
  have "ring st' = ring st1 \<and> ring_head st' = ring_head st1 \<and> set (targets st') \<subseteq> set (targets st1) \<and>
      (\<forall>i. ot_next_seq (ota_tracker st' ! i) = ot_next_seq (ota_tracker st1 ! i))"
  proof (cases "ota_status_terminal status")
    case True
    then have "remove_target_locked st1 t = (ended, st')" using s by (simp add: st1_def)
    from remove_target_cases [OF _ _ this] ok1 act show ?thesis
      by (auto simp: ota_ok_def nth_list_update_if split: if_splits)
  qed (use s in \<open>simp add: st1_def\<close>)
  with seq st1 act status_update_ok [OF ok t u] show ?thesis
    by (intro transfer_inv_mono [OF inv]) simp_all
qed

lemma ota_transfer_inv: "ota_transfer z st sent \<Longrightarrow> transfer_inv z st sent"
proof (induction rule: ota_transfer.induct)
  case (tr_start st)
  then show ?case by (simp add: transfer_inv_def)
qed (blast intro: transfer_send transfer_poll transfer_command transfer_status)+

section \<open>Firmware information\<close>

lemma fw_info_body:
  assumes "length bs = 78" and "length p \<le> 66" and "2 \<le> length p" and "bs = drop 2 p @ replicate (80 - length p) 0"
    and "chunk < 6"
  shows "take 13 (drop (chunk * 13) bs) =
    (let offset = 2 + chunk * 13;
         body = (if offset < length p then take (min (length p - offset) 13) (drop offset p) else [])
     in body @ replicate (13 - length body) 0)"
proof (cases "2 + chunk * 13 < length p")
  case True
  then show ?thesis
    using assms by (auto simp: Let_def min_def take_append drop_append)
next
  case False
  then show ?thesis using assms by (auto simp: Let_def drop_append)
qed

section \<open>Properties\<close>

text \<open>
  Claim C27. However the host thread, the radio interrupt and the work queue interleave, the
  relay keeps its session consistent: at most four targets, listed once each, exactly the
  trackers that participate; the session is active exactly while a target remains; no tracker is
  at the same time a target and under an abort; the packets in the ring and the pending
  commands fit in the 64 bytes of a radio payload.
\<close>

theorem ota_reachable_ok:
  assumes "ota_section\<^sup>*\<^sup>* ota_boot st"
  shows "ota_ok st"
  using ota_run_ok [OF assms ota_boot_ok] .

text \<open>A session with one target: BEGIN, its confirmation, and the first packet of the image.\<close>

definition sample_env :: "u32 \<Rightarrow> ota_env" where
  "sample_env now = \<lparr>zeph = std_zephyr, ten_seconds = 327680, stored_trackers = 2, clk = (\<lambda>i. now),
     radio_busy = (\<lambda>i. False)\<rparr>"

definition sample_begin :: bytes where
  "sample_begin = [HID_OTA_BEGIN, 1, 0, 1, 0, 0, 1, 2, 3, 4, 0, 5, 1, 65, 66] @ replicate 49 0"

definition sample_data :: bytes where
  "sample_data = [HID_OTA_DATA, 1, 0, 0] @ map of_nat [1..<61]"

definition sample_open :: ota where
  "sample_open = snd (esb_ota_relay_process_hid (sample_env 100) sample_begin 64 ota_boot)"

definition sample_ready :: ota where
  "sample_ready = snd (snd (status_update sample_open 1 1 10))"

definition sample_sent :: ota where
  "sample_sent = ota_hid_data std_zephyr sample_data 64 sample_ready"

lemma sample_env_law: "zephyr_law (zeph (sample_env now))"
  by (simp add: sample_env_def std_zephyr_law)

lemma sample_open_run: "ota_section\<^sup>*\<^sup>* ota_boot sample_open"
  unfolding sample_open_def by (rule process_hid_run [OF sample_env_law]) (simp add: sample_begin_def)

lemma sample_transfer: "ota_transfer std_zephyr sample_sent [data_packet sample_data 64]"
proof -
  have "ota_ok sample_open" using ota_run_ok [OF sample_open_run ota_boot_ok] .
  moreover have "ota_active sample_open" "ring_head sample_open = 0" by code_simp+
  ultimately have t0: "ota_transfer std_zephyr sample_open []" by (rule tr_start)
  obtain r e where u: "status_update sample_open 1 1 10 = (r, e, sample_ready)"
    unfolding sample_ready_def by (metis prod.collapse)
  have "ota_active sample_ready" by code_simp
  with u have t1: "ota_transfer std_zephyr sample_ready []" by (intro tr_status [OF t0 _ u]) simp_all
  have "get_be16 std_zephyr (sample_data ! 2) (sample_data ! 3) = 0" "ring_count_locked sample_ready < 128"
    "length sample_data = 64" by code_simp+
  with tr_send [OF t1, of 64 sample_data] show ?thesis by (simp add: sample_sent_def)
qed

theorem ota_reachable_ok_witness: "ota_active sample_open \<and> ota_ok sample_open"
proof
  show "ota_active sample_open" by code_simp
  show "ota_ok sample_open" using ota_reachable_ok [OF sample_open_run] .
qed

text \<open>
  The handler of a host report is a run of critical sections, on every branch
  (query, begin with its retry loop, data, verify and activate, abort of one or of all targets),
  for every report that is at least as long as its length says.
\<close>

theorem ota_process_hid_refines:
  assumes "zephyr_law (zeph env)" and "len \<le> length d"
  shows "ota_section\<^sup>*\<^sup>* st (snd (esb_ota_relay_process_hid env d len st))"
  using process_hid_run [OF assms] .

theorem ota_process_hid_refines_witness:
  "ota_section\<^sup>*\<^sup>* ota_boot (snd (esb_ota_relay_process_hid (sample_env 100) sample_begin 64 ota_boot)) \<and>
   length sample_begin = 64"
  using ota_process_hid_refines [OF sample_env_law, of 64 sample_begin ota_boot 100]
  by (simp add: sample_begin_def)

text \<open>
  Claim C6. A transfer delivers the image: when the host sends its packets in order and a target
  asks for packet \<open>n\<close>, not going back behind what it asked for before, then the answer is
  packet \<open>n\<close> as the host sent it, addressed to that tracker, for every \<open>n\<close> sent so far. The ring
  has not overwritten it, a pending VERIFY or ACTIVATE does not displace it, and asking again
  gives it again.
\<close>

theorem ota_transfer_delivers:
  assumes tr: "ota_transfer (zeph env) st sent" and t: "t \<in> set (targets st)"
    and poll: "is_status_poll rx" "n = unat (poll_seq (zeph env) rx)"
    and n: "unat (ot_next_seq (ota_tracker st ! t)) \<le> n" "n < length sent"
    and cmd: "pending_cmd_type (ota_tracker st ! t) \<noteq> ESB_OTA_BEGIN_TYPE"
      "pending_cmd_type (ota_tracker st ! t) = 0 \<or>
       clk env 0 - pending_cmd_set_ticks (ota_tracker st ! t) \<le> ten_seconds env"
  shows "fst (esb_ota_relay_fill_ack env t pipe rx st) =
    Some \<lparr>ack_pipe = pipe, ack_noack = False, ack_data = (sent ! n)[1 := of_nat t]\<rparr>"
proof -
  let ?z = "zeph env" and ?seq = "poll_seq (zeph env) rx"
  have inv: "transfer_inv ?z st sent" using tr by (rule ota_transfer_inv)
  have t16: "t < MAX_TRACKERS" and part: "participating (ota_tracker st ! t)" and act: "ota_active st"
    and "\<not> ota_abort_valid st ! t"
    using inv t by (auto simp: transfer_inv_def ota_ok_def session_ok_def aborted_apart_def)
  then have ab: "ota_abort_pending_locked st t (clk env 0) = (False, st)"
    by (simp add: ota_abort_pending_locked_def)
  have len: "length sent \<le> n + 128" using inv t n by (fastforce simp: transfer_inv_def)
  have e: "entry_holds ?z (ring st ! (n mod 128)) n (sent ! n)"
    using inv n len by (simp add: transfer_inv_def)
  have "n < 65536" using poll unsigned_less [of ?seq] by simp
  then have "(of_nat n :: u16) = ?seq" by (simp add: poll)
  moreover have "ucast ?seq < ring_head st"
    using inv n(2) by (simp add: transfer_inv_def word_less_nat_alt unat_of_nat poll)
  ultimately have has: "ring_has ?z st ?seq"
    using e by (simp add: ring_has_def Let_def entry_holds_def poll)
  then have "ring_has ?z (st\<lparr>ota_tracker := x\<rparr>) ?seq" for x by (simp add: ring_has_def)
  then have "fst (ack_data_phase ?z t pipe rx st) =
      Some \<lparr>ack_pipe = pipe, ack_noack = False, ack_data = (sent ! n)[1 := of_nat t]\<rparr>"
    using e poll by (simp add: ack_data_phase_def ack_data_packet_def Let_def entry_holds_def)
  then show ?thesis
    using t16 part act ab has cmd poll
    by (auto simp: esb_ota_relay_fill_ack_def Let_def)
qed

theorem ota_transfer_delivers_witness:
  "fst (esb_ota_relay_fill_ack (sample_env 200) 1 0 (Some [ESB_OTA_STATUS_TYPE, 1, 2, 0, 0]) sample_sent) =
     Some \<lparr>ack_pipe = 0, ack_noack = False, ack_data = [ESB_OTA_DATA_TYPE, 1, 0, 0] @ map of_nat [1..<61]\<rparr>"
proof -
  let ?rx = "Some [ESB_OTA_STATUS_TYPE, 1, 2, 0, 0]"
  have tr: "ota_transfer (zeph (sample_env 200)) sample_sent [data_packet sample_data 64]"
    using sample_transfer by (simp add: sample_env_def)
  have h: "1 \<in> set (targets sample_sent)" "is_status_poll ?rx" "0 = unat (poll_seq (zeph (sample_env 200)) ?rx)"
    "unat (ot_next_seq (ota_tracker sample_sent ! 1)) \<le> 0" "0 < length [data_packet sample_data 64]"
    "pending_cmd_type (ota_tracker sample_sent ! 1) \<noteq> ESB_OTA_BEGIN_TYPE"
    "pending_cmd_type (ota_tracker sample_sent ! 1) = 0" by code_simp+
  have "([data_packet sample_data 64] ! 0)[1 := of_nat 1] = [ESB_OTA_DATA_TYPE, 1, 0, 0] @ map of_nat [1..<61]"
    by code_simp
  with ota_transfer_delivers [OF tr h(1-6) disjI1 [OF h(7)], of 0] show ?thesis by simp
qed

text \<open>
  Claim C33. The window is the flow control of the whole session: while the packet that some
  target last asked for is 128 or more behind the head of the ring, every data report is dropped
  and nothing changes. A target that joins, or starts again, at packet zero after more than
  128 packets went through therefore blocks the data of all targets, retransmissions included.
\<close>

theorem ota_late_join_blocks:
  assumes "ring_head st = of_nat n" and "n \<le> 65536" and "t \<in> set (targets st)"
    and "unat (ot_next_seq (ota_tracker st ! t)) + 128 \<le> n"
  shows "ota_hid_data z d len st = st"
proof -
  have "\<not> ring_count_locked st < 128" using ring_count_window [OF assms(1,2) _ assms(3)] assms(4) by auto
  then show ?thesis by (simp add: ota_hid_data_def not_less)
qed

theorem ota_late_join_blocks_witness:
  "let st = sample_ready\<lparr>ring_head := 200\<rparr>
   in targets st = [1] \<and> ota_hid_data std_zephyr sample_data 64 st = st"
proof -
  let ?st = "sample_ready\<lparr>ring_head := 200\<rparr>"
  have h: "1 \<in> set (targets ?st)" "unat (ot_next_seq (ota_tracker ?st ! 1)) + 128 \<le> 200" "targets ?st = [1]"
    by code_simp+
  have head: "ring_head ?st = of_nat 200" by simp
  from ota_late_join_blocks [OF head _ h(1,2)] h(3) show ?thesis by (simp only: Let_def)
qed



text \<open>
  A terminal status ends the participation of the tracker at once: it is no target
  any more, the other targets stay in their order, and the session ends exactly when no target
  is left.
\<close>

theorem ota_terminal_status_removes:
  assumes ok: "ota_ok st" and t: "t \<in> set (targets st)" and "ota_status_terminal status"
    and u: "status_update st t status wall = (report, ended, st')"
  shows "targets st' = filter (\<lambda>x. x \<noteq> t) (targets st) \<and> \<not> esb_ota_relay_is_target st' t \<and>
    (ended \<longleftrightarrow> targets st' = []) \<and> (esb_ota_relay_is_active st' \<longleftrightarrow> targets st' \<noteq> [])"
proof -
  have t16: "t < MAX_TRACKERS" and part: "participating (ota_tracker st ! t)"
    using ok t by (auto simp: ota_ok_def session_ok_def)
  obtain tr where s: "remove_target_locked (st\<lparr>ota_tracker := (ota_tracker st)[t := tr]\<rparr>) t = (ended, st')"
    and tr: "participating tr = participating (ota_tracker st ! t)" "pending_ok tr"
    using status_update_removes [OF u] assms(3) ok arrays_ok_pending [OF _ t16]
    by (auto simp: ota_ok_def pending_ok_def)
  have len: "length (ota_tracker st) = 16" using ok by (simp add: ota_ok_def arrays_ok_def)
  have "ota_ok (st\<lparr>ota_tracker := (ota_tracker st)[t := tr]\<rparr>)" using ok tr by (intro tracker_update_ok)
  with remove_target_cases [OF _ _ s] t16 part tr len show ?thesis
    by (auto simp: ota_ok_def targets_def esb_ota_relay_is_target_def esb_ota_relay_is_active_def)
qed

theorem ota_terminal_status_removes_witness:
  "targets (snd (snd (status_update sample_sent 1 OTA_STATUS_COMPLETE 50))) = [] \<and>
   \<not> esb_ota_relay_is_active (snd (snd (status_update sample_sent 1 OTA_STATUS_COMPLETE 50)))"
proof -
  let ?u = "status_update sample_sent 1 OTA_STATUS_COMPLETE 50"
  have ok: "ota_ok sample_sent" using ota_transfer_inv [OF sample_transfer] by (simp add: transfer_inv_def)
  have h: "1 \<in> set (targets sample_sent)" "ota_status_terminal OTA_STATUS_COMPLETE" "targets sample_sent = [1]"
    by code_simp+
  have u: "?u = (fst ?u, fst (snd ?u), snd (snd ?u))" by simp
  from ota_terminal_status_removes [OF ok h(1,2) u] h(3) show ?thesis by simp
qed

text \<open>
  The firmware information of a tracker reaches the host complete: the six reports carry
  the chunk numbers 0 to 5, and their bodies joined are the packet behind its two header
  bytes, followed by zeros.
\<close>

theorem fw_info_reports_complete:
  assumes "2 \<le> length d" "length d \<le> 66" and "snd (ota_tracker_fw_info d st) = st'"
  shows "map (\<lambda>a. case a of HidWritePacket r \<Rightarrow> take 3 r | _ \<Rightarrow> []) (fst (fw_info_send_work_handler st')) =
      map (\<lambda>c. [HID_OTA_FW_INFO, d ! 1, of_nat c]) [0..<6] \<and>
    concat (map (\<lambda>a. case a of HidWritePacket r \<Rightarrow> drop 3 r | _ \<Rightarrow> []) (fst (fw_info_send_work_handler st'))) =
      drop 2 d @ replicate (80 - length d) 0"
proof -
  define bs where "bs = drop 2 d @ replicate (80 - length d) (0 :: u8)"
  have len: "length bs = 78" using assms(1,2) by (simp add: bs_def)
  have st': "fw_pending st'" "fw_len st' = length d" "fw_tracker_id st' = d ! 1"
    "fw_data st' = d @ drop (length d) (fw_data st)"
    using assms by (auto simp: ota_tracker_fw_info_def Let_def min_def)
  have "fw_info_report st' c = [HID_OTA_FW_INFO, d ! 1, of_nat c] @ take 13 (drop (c * 13) bs)" if "c < 6" for c
    using fw_info_body [OF len assms(2,1) bs_def that] st' by (simp add: fw_info_report_def Let_def)
  then have acts: "fst (fw_info_send_work_handler st') =
      map (\<lambda>c. HidWritePacket ([HID_OTA_FW_INFO, d ! 1, of_nat c] @ take 13 (drop (c * 13) bs))) [0..<6]"
    using st'(1) by (simp only: fw_info_send_work_handler_def not_True_eq_False if_False fst_conv) simp
  have "concat (map (\<lambda>c. take 13 (drop (c * 13) bs)) [0..<6]) = bs"
    using len by (intro concat_chunks_id) simp
  then show ?thesis unfolding acts map_map comp_def
    by (simp only: ota_action.case bs_def [symmetric] drop_append append_Cons append_Nil) simp
qed

theorem fw_info_reports_complete_witness:
  "let d = [ESB_OTA_FW_INFO_TYPE, 3] @ map of_nat [1..<65]; st' = snd (ota_tracker_fw_info d ota_boot)
   in concat (map (\<lambda>a. case a of HidWritePacket r \<Rightarrow> drop 3 r | _ \<Rightarrow> []) (fst (fw_info_send_work_handler st'))) =
      map of_nat [1..<65] @ replicate 14 0"
proof -
  let ?d = "[ESB_OTA_FW_INFO_TYPE, 3] @ map of_nat [1..<65]"
  have d: "2 \<le> length ?d" "length ?d \<le> 66" "80 - length ?d = 14" "drop 2 ?d = map of_nat [1..<65]"
    by code_simp+
  from fw_info_reports_complete [OF d(1,2) refl] d(3,4) show ?thesis by (simp only: Let_def)
qed

end
