(* ===== verification/EsbState.thy ===== *)
theory EsbState
  imports EsbConstants
begin

text \<open>
  The data of \<open>connection/esb.c\<close>: the statistics and the slot of a tracker, and the static
  variables of the file as the record \<open>esb\<close>. An \<open>atomic_t\<close> flag is a boolean, an \<open>atomic_t\<close> mask a
  32 bit word, an \<open>int64_t\<close> time an integer, and small counters that the code keeps within
  their type are natural numbers. What esb.c asks of the other components (transfers under way)
  is the record \<open>peers\<close>.
\<close>


record packet_stats =
  total_received :: u32
  normal_packets :: u32
  gap_events :: u32
  out_of_order :: u32
  duplicate_packets :: u32
  restart_events :: u32
  total_gaps :: u32
  last_sequence :: u32
  last_packet_time :: int
  first_packet :: bool
  packets_in_last_second :: u32
  last_tps_time :: int
  current_tps :: u32
  status_received :: u16
  status_lost :: u16

record tracker_slot =
  tdma_config_packed :: u32
  tdma_prev_recv :: u32
  tdma_prev_gaps :: u32
  tdma_prev_restarts :: u32
  last_packet_sequence :: u8
  sequence_initialized :: bool
  last_ping_counter :: u8
  ping_counter_initialized :: bool
  last_ping_time :: int
  last_pong_queued_counter :: u8
  pipe_mismatch_count :: u8
  crc_error_count :: u8
  last_raw_seq :: u16
  last_raw_valid :: bool
  tracker_remote_command :: u8
  pending_cmd_arg :: u8
  tracker_test_on_tps :: u16
  pending_sens_data :: "u16 list"
  pending_sens_auto_axis :: u8
  pending_sens_auto_revolutions :: u16
  metadata_active_mask :: u8
  metadata_active_chunk :: u8
  metadata_active_token :: u16
  metadata_pending_mask :: u8
  metadata_pending_chunk :: u8
  metadata_pending_token :: u16
  wom_token :: u16
  wom_minutes :: u16
  wom_error :: u16
  wom_complete :: bool
  wom_advertised :: bool
  wom_first_ping_counter :: u8
  slot_stats :: packet_stats
  decision_received :: u32
  decision_gaps :: u32

record esb =
  tracker_slots :: "tracker_slot list"
  stored_trackers :: nat
  stored_tracker_addr :: "u64 list"
  tdma_config_epoch :: u8
  tdma_dynamic_active_count :: nat
  tdma_dynamic_slot_ticks :: nat
  tdma_active_mask :: u32
  tdma_last_reconfig_time :: int
  tdma_last_reconfig_valid :: bool
  tdma_cap_level :: nat
  tdma_published_cap_level :: nat
  loss_trigger_streak :: nat
  loss_recover_streak :: nat
  loss_probe_streak :: nat
  loss_pool_received :: u32
  loss_pool_gaps :: u32
  loss_pool_ticks :: nat
  rx_discontinuity_pending :: bool
  tdma_decision_ready :: bool
  shadow_last_seen_ms :: "u32 list"
  shadow_ever_ping_mask :: u32
  shadow_ever_data_mask :: u32
  shadow_live_evidence_mask :: u32
  shadow_desired_mask :: u32
  shadow_pending_join_mask :: u32
  shadow_pending_leave_mask :: u32
  shadow_desired_changed_at_ms :: u32
  membership_deadline_ms :: u32
  membership_deadline_armed :: bool
  membership_wake :: bool
  metadata_next_token :: u16
  wom_next_token :: u16
  test_all_state_valid :: bool
  test_all_enabled :: bool
  test_all_broadcasting :: bool
  test_all_confirmed_mask :: u32
  test_all_requested_tps :: u16
  test_all_effective_tps :: u16
  test_all_ready_after_ms :: "u32 list"
  test_all_generation :: u32
  receiver_rf_channel :: u8
  radio_operation_busy :: bool
  esb_radio_fault :: bool
  channel_change_pending :: bool
  pending_channel :: u8
  channel_command :: u8
  channel_target_mask :: u32
  channel_change_timeout :: int
  channel_change_automatic :: bool
  channel_change_generation :: u32
  channel_change_old_home :: u8
  esb_pairing :: bool
  esb_clearing :: bool
  pairing_start_time :: int
  pairing_target_count :: nat
  pairing_initial_count :: nat
  pairing_target_reached_time :: int
  pairing_new_devices_blocked :: bool
  auto_loss_reset_epoch :: u32
  decision_ready_mask :: u32
  decision_fence_mask :: u32

record peers =
  ota_relay_active :: bool
  ota_abort_pending :: "nat \<Rightarrow> bool"
  receiver_ota_active :: bool
  data_collect_active :: bool
  data_collect_batch_active :: bool

end
