(* ===== verification/AutoLoss.thy ===== *)
theory AutoLoss
  imports EsbState
begin

text \<open>
  The radio gate and the loss evidence of \<open>esb.c\<close>. The gate admits one radio operation at a
  time and refuses it while a transfer is under way or a tracker is being aborted. The evidence
  for automatic decisions counts received packets and gaps per tracker, and a fence drops the
  one interval of each tracker that crosses a known boundary. The build's default channel is an
  argument.
\<close>

section \<open>The radio gate\<close>

definition esb_channel_is_busy :: "esb \<Rightarrow> bool" where
  "esb_channel_is_busy st = radio_operation_busy st"

definition radio_operation_begin :: "peers \<Rightarrow> bool \<Rightarrow> esb \<Rightarrow> errno option \<times> esb" where
  "radio_operation_begin p replace_collection st =
     (if esb_radio_fault st then (Some EIO, st)
      else if radio_operation_busy st then (Some EBUSY, st)
      else
        let st1 = st\<lparr>radio_operation_busy := True\<rparr>
        in if ota_relay_active p \<or> receiver_ota_active p \<or>
              (\<not> replace_collection \<and> (data_collect_active p \<or> data_collect_batch_active p))
           then (Some EBUSY, st1\<lparr>radio_operation_busy := False\<rparr>)
           else if list_ex (ota_abort_pending p) [0..<MAX_TRACKERS]
           then (Some EBUSY, st1\<lparr>radio_operation_busy := False\<rparr>)
           else (None, st1))"

definition esb_auto_loss_invalidate :: "esb \<Rightarrow> esb" where
  "esb_auto_loss_invalidate st =
     st\<lparr>auto_loss_reset_epoch := auto_loss_reset_epoch st + 1, decision_ready_mask := 0,
        decision_fence_mask := UINT32_MAX, rx_discontinuity_pending := True\<rparr>"

definition esb_radio_operation_begin :: "peers \<Rightarrow> esb \<Rightarrow> errno option \<times> esb" where
  "esb_radio_operation_begin p st = radio_operation_begin p False st"

definition esb_radio_collection_begin :: "peers \<Rightarrow> esb \<Rightarrow> errno option \<times> esb" where
  "esb_radio_collection_begin p st =
     (let (err, st1) = radio_operation_begin p True st
      in (err, if err = None then esb_auto_loss_invalidate st1 else st1))"

definition esb_radio_operation_end :: "esb \<Rightarrow> esb" where
  "esb_radio_operation_end st =
     (if \<not> esb_radio_fault st then st\<lparr>radio_operation_busy := False\<rparr> else st)"

definition channel_command_for_tracker :: "esb \<Rightarrow> nat \<Rightarrow> u8" where
  "channel_command_for_tracker st t =
     (if channel_change_pending st \<and> mask_has (channel_target_mask st) t
      then channel_command st else ESB_PONG_FLAG_NORMAL)"

definition esb_pairing_is_active :: "esb \<Rightarrow> bool" where
  "esb_pairing_is_active st = esb_pairing st"

section \<open>Loss evidence\<close>

definition esb_auto_loss_fence :: "esb \<Rightarrow> esb" where
  "esb_auto_loss_fence st = st\<lparr>decision_fence_mask := UINT32_MAX\<rparr>"

definition decision_accept :: "nat \<Rightarrow> u8 \<Rightarrow> esb \<Rightarrow> esb" where
  "decision_accept t gaps st =
     (if mask_has (decision_fence_mask st) t then
        st\<lparr>decision_fence_mask := unset_bit t (decision_fence_mask st),
           decision_ready_mask := set_bit t (decision_ready_mask st)\<rparr>
      else
        let s = tracker_slots st ! t
        in st\<lparr>decision_ready_mask := set_bit t (decision_ready_mask st),
              tracker_slots := (tracker_slots st)[t := s\<lparr>decision_received := decision_received s + 1,
                decision_gaps := decision_gaps s + ucast gaps\<rparr>]\<rparr>)"

definition esb_rx_discontinuity :: "esb \<Rightarrow> esb" where
  "esb_rx_discontinuity st =
     esb_auto_loss_invalidate
       (st\<lparr>tracker_slots := map (\<lambda>s. s\<lparr>sequence_initialized := False\<rparr>) (tracker_slots st)\<rparr>)"

record loss_counts =
  lc_received :: u32
  lc_gaps :: u32
  lc_restarts :: u32

record loss_snapshot =
  ls_tracker :: "loss_counts list"
  ls_active_mask :: u32
  ls_reset_epoch :: u32
  ls_ready_mask :: u32
  ls_layout_epoch :: u8
  ls_cap_pending :: bool
  ls_home :: u8
  ls_eligible :: bool

definition receiver_home :: "u8 \<Rightarrow> u8 \<Rightarrow> u8" where
  "receiver_home rf_default stored =
     (let home = esb_rf_channel_decode stored
      in if home = ESB_RF_CHANNEL_DEFAULT then rf_default else home)"

definition esb_get_auto_loss_snapshot :: "u8 \<Rightarrow> peers \<Rightarrow> esb \<Rightarrow> loss_snapshot" where
  "esb_get_auto_loss_snapshot rf_default p st =
     \<lparr>ls_tracker = map (\<lambda>s. \<lparr>lc_received = decision_received s, lc_gaps = decision_gaps s,
        lc_restarts = restart_events (slot_stats s)\<rparr>) (tracker_slots st),
      ls_active_mask = tdma_active_mask st,
      ls_reset_epoch = auto_loss_reset_epoch st,
      ls_ready_mask = decision_ready_mask st AND tdma_active_mask st,
      ls_layout_epoch = tdma_config_epoch st,
      ls_cap_pending = (tdma_cap_level st \<noteq> tdma_published_cap_level st),
      ls_home = receiver_home rf_default (receiver_rf_channel st),
      ls_eligible = (\<not> esb_radio_fault st \<and> \<not> esb_channel_is_busy st \<and> \<not> esb_pairing st \<and>
        \<not> esb_clearing st \<and> \<not> ota_relay_active p \<and> \<not> receiver_ota_active p \<and>
        \<not> data_collect_active p \<and> \<not> data_collect_batch_active p \<and>
        \<not> (test_all_state_valid st \<and> test_all_enabled st) \<and>
        tdma_active_mask st = shadow_desired_mask st \<and>
        shadow_pending_join_mask st = 0 \<and> shadow_pending_leave_mask st = 0 \<and>
        \<not> list_ex (ota_abort_pending p) [0..<MAX_TRACKERS])\<rparr>"

definition esb_auto_loss_rebase :: "u8 \<Rightarrow> peers \<Rightarrow> esb \<Rightarrow> loss_snapshot \<times> esb" where
  "esb_auto_loss_rebase rf_default p st =
     (let st1 = esb_auto_loss_fence st in (esb_get_auto_loss_snapshot rf_default p st1, st1))"

end
