(* ===== verification/Tdma.thy ===== *)
theory Tdma
  imports AutoLoss
begin

text \<open>
  The TDMA layout of \<open>esb.c\<close>: which trackers are members (the shadow of evidence that the radio
  interrupt feeds and the owner merges), how wide the slots are, when a new layout may be
  published, the slot assignment itself, and the sticky test mode that follows the layout. A
  definition is a critical section under \<open>irq_lock\<close>, or a function composed of them; the loop of
  \<open>tdma_recalculate\<close> makes at most two passes, each with its own reading of the clock.
\<close>

abbreviation (input) TDMA_BASE_SLOT_TICKS :: nat where "TDMA_BASE_SLOT_TICKS \<equiv> 16"
abbreviation (input) TDMA_SLOT_TICKS_MAX_LEVEL0 :: nat where "TDMA_SLOT_TICKS_MAX_LEVEL0 \<equiv> 64"
abbreviation (input) TDMA_RECONFIG_MIN_MS :: int where "TDMA_RECONFIG_MIN_MS \<equiv> 1000"
abbreviation (input) TDMA_LOSS_RECONFIG_MIN_MS :: int where "TDMA_LOSS_RECONFIG_MIN_MS \<equiv> 15000"
abbreviation (input) TDMA_SHADOW_FRESH_MS :: int where "TDMA_SHADOW_FRESH_MS \<equiv> 6000"
abbreviation (input) TDMA_SHADOW_LEAVE_GRACE_MS :: int where "TDMA_SHADOW_LEAVE_GRACE_MS \<equiv> 15000"
abbreviation (input) TDMA_MEMBERSHIP_COHORT_MS :: u32 where "TDMA_MEMBERSHIP_COHORT_MS \<equiv> 101"
abbreviation (input) TEST_ALL_RATE_QUANTUM_TPS :: nat where "TEST_ALL_RATE_QUANTUM_TPS \<equiv> 10"
abbreviation (input) TEST_ALL_JOIN_CONFIG_GRACE_MS :: u32 where "TEST_ALL_JOIN_CONFIG_GRACE_MS \<equiv> 1500"
abbreviation (input) TDMA_CAP_LEVEL_MAX :: nat where "TDMA_CAP_LEVEL_MAX \<equiv> 4"

definition tdma_cap_ladder :: "nat list" where
  "tdma_cap_ladder = [220, 180, 150, 130, 115]"

definition tdma_loss_reset_windows :: "esb \<Rightarrow> esb" where
  "tdma_loss_reset_windows st =
     st\<lparr>loss_trigger_streak := 0, loss_recover_streak := 0, loss_probe_streak := 0,
        loss_pool_received := 0, loss_pool_gaps := 0, loss_pool_ticks := 0\<rparr>"

definition tdma_pack_config :: "u8 \<Rightarrow> u8 \<Rightarrow> u8 \<Rightarrow> u8 \<Rightarrow> u32" where
  "tdma_pack_config slot tot ticks epoch =
     push_bit 24 (ucast slot) OR push_bit 16 (ucast tot) OR push_bit 8 (ucast ticks) OR ucast epoch"

section \<open>Membership evidence\<close>

datatype tdma_shadow_evidence = TDMA_SHADOW_EVIDENCE_PING | TDMA_SHADOW_EVIDENCE_DATA

definition tdma_shadow_observe :: "nat \<Rightarrow> tdma_shadow_evidence \<Rightarrow> u32 \<Rightarrow> esb \<Rightarrow> esb" where
  "tdma_shadow_observe t evidence now st =
     (if t < stored_trackers st \<and> t < MAX_TRACKERS then
        let st1 = st\<lparr>shadow_last_seen_ms := (shadow_last_seen_ms st)[t := now]\<rparr>;
            st2 = (case evidence of
                TDMA_SHADOW_EVIDENCE_PING \<Rightarrow> st1\<lparr>shadow_ever_ping_mask := set_bit t (shadow_ever_ping_mask st1)\<rparr>
              | TDMA_SHADOW_EVIDENCE_DATA \<Rightarrow> st1\<lparr>shadow_ever_data_mask := set_bit t (shadow_ever_data_mask st1)\<rparr>);
            st3 = st2\<lparr>shadow_live_evidence_mask := set_bit t (shadow_live_evidence_mask st2)\<rparr>
        in if \<not> mask_has (shadow_desired_mask st3) t then
             let queued = mask_has (shadow_pending_join_mask st3) t;
                 st4 = st3\<lparr>shadow_pending_join_mask := set_bit t (shadow_pending_join_mask st3)\<rparr>;
                 st5 = (if \<not> membership_deadline_armed st4
                        then st4\<lparr>membership_deadline_ms := now + TDMA_MEMBERSHIP_COHORT_MS,
                               membership_deadline_armed := True\<rparr>
                        else st4)
             in if \<not> queued then st5\<lparr>membership_wake := True\<rparr> else st5
           else st3
      else st)"

definition tdma_shadow_forget_tracker :: "nat \<Rightarrow> esb \<Rightarrow> esb" where
  "tdma_shadow_forget_tracker t st =
     (if MAX_TRACKERS \<le> t then st
      else
        let st1 = st\<lparr>shadow_last_seen_ms := (shadow_last_seen_ms st)[t := 0],
              shadow_ever_ping_mask := unset_bit t (shadow_ever_ping_mask st),
              shadow_ever_data_mask := unset_bit t (shadow_ever_data_mask st),
              shadow_live_evidence_mask := unset_bit t (shadow_live_evidence_mask st),
              shadow_desired_mask := unset_bit t (shadow_desired_mask st),
              shadow_pending_join_mask := unset_bit t (shadow_pending_join_mask st),
              shadow_pending_leave_mask := unset_bit t (shadow_pending_leave_mask st)\<rparr>
        in if shadow_desired_mask st1 = tdma_active_mask st1 \<and> shadow_pending_join_mask st1 = 0
           then st1\<lparr>membership_deadline_armed := False\<rparr> else st1)"

text \<open>The accumulators of the merge loop: desired, leaving and evicted trackers, evidence, last seen.\<close>

record merge_acc =
  ma_desired :: u32
  ma_leave :: u32
  ma_evicted :: u32
  ma_live :: u32
  ma_seen :: "u32 list"

definition merge_age :: "u32 \<Rightarrow> u32 \<Rightarrow> bool \<Rightarrow> int" where
  "merge_age now last_seen has_evidence =
     (if has_evidence then max (sint (now - last_seen)) 0 else 2 ^ 32 - 1)"

definition merge_drop :: "nat \<Rightarrow> merge_acc \<Rightarrow> merge_acc" where
  "merge_drop i acc = acc\<lparr>ma_live := unset_bit i (ma_live acc), ma_seen := (ma_seen acc)[i := 0]\<rparr>"

definition merge_step :: "u32 \<Rightarrow> u32 \<Rightarrow> u32 \<Rightarrow> nat \<Rightarrow> merge_acc \<Rightarrow> merge_acc" where
  "merge_step now active evidence i acc =
     (let has = mask_has evidence i; age = merge_age now (ma_seen acc ! i) has
      in if mask_has (ma_desired acc) i then
           if \<not> mask_has active i \<and> TDMA_SHADOW_FRESH_MS \<le> age then
             merge_drop i (acc\<lparr>ma_desired := unset_bit i (ma_desired acc)\<rparr>)
           else if has \<and> TDMA_SHADOW_LEAVE_GRACE_MS \<le> age then
             merge_drop i (acc\<lparr>ma_evicted := set_bit i (ma_evicted acc),
               ma_desired := unset_bit i (ma_desired acc)\<rparr>)
           else if has \<and> TDMA_SHADOW_FRESH_MS \<le> age then acc\<lparr>ma_leave := set_bit i (ma_leave acc)\<rparr>
           else acc
         else if has \<and> age < TDMA_SHADOW_FRESH_MS then acc\<lparr>ma_desired := set_bit i (ma_desired acc)\<rparr>
         else if has then merge_drop i acc
         else acc)"

definition merge_loop :: "u32 \<Rightarrow> esb \<Rightarrow> merge_acc" where
  "merge_loop now st =
     (let n = min (stored_trackers st) MAX_TRACKERS
      in fold (merge_step now (tdma_active_mask st) (shadow_live_evidence_mask st AND mask n)) [0..<n]
           \<lparr>ma_desired = shadow_desired_mask st AND mask n, ma_leave = 0, ma_evicted = 0,
            ma_live = shadow_live_evidence_mask st, ma_seen = shadow_last_seen_ms st\<rparr>)"

definition tdma_shadow_merge_locked :: "u32 \<Rightarrow> esb \<Rightarrow> u32 \<times> esb" where
  "tdma_shadow_merge_locked now st =
     (let acc = merge_loop now st;
          st1 = st\<lparr>shadow_live_evidence_mask := ma_live acc, shadow_last_seen_ms := ma_seen acc\<rparr>;
          st2 = (if ma_desired acc \<noteq> shadow_desired_mask st1
                 then st1\<lparr>shadow_desired_changed_at_ms := now\<rparr> else st1);
          st3 = st2\<lparr>shadow_desired_mask := ma_desired acc, shadow_pending_join_mask := 0,
                    shadow_pending_leave_mask := ma_leave acc\<rparr>;
          st4 = (if ma_desired acc = tdma_active_mask st3 then st3\<lparr>membership_deadline_armed := False\<rparr>
                 else if \<not> membership_deadline_armed st3
                 then st3\<lparr>membership_deadline_ms := now, membership_deadline_armed := True\<rparr>
                 else st3)
      in (ma_evicted acc, st4))"

definition tdma_shadow_update :: "u32 \<Rightarrow> esb \<Rightarrow> esb" where
  "tdma_shadow_update now st = snd (tdma_shadow_merge_locked now st)"

definition tdma_membership_wait_ms :: "int \<Rightarrow> u32 \<Rightarrow> esb \<Rightarrow> u32" where
  "tdma_membership_wait_ms now maximum st =
     (if membership_deadline_armed st then
        let cohort = sint (membership_deadline_ms st - of_int now);
            gap = (if tdma_last_reconfig_valid st
                   then TDMA_RECONFIG_MIN_MS - (now - tdma_last_reconfig_time st) else 0);
            remaining = max cohort gap
        in if 0 < remaining then min maximum (of_int remaining) else 0
      else maximum)"

section \<open>Sticky test mode\<close>

definition test_all_capacity_tps :: "nat \<Rightarrow> esb \<Rightarrow> u16" where
  "test_all_capacity_tps active_count st =
     (if active_count = 0 then 1000
      else
        let sticks = (if 0 < tdma_dynamic_slot_ticks st then tdma_dynamic_slot_ticks st else TDMA_BASE_SLOT_TICKS);
            capacity = 32768 div (sticks * active_count) mod 2 ^ 16;
            clamped = capacity div TEST_ALL_RATE_QUANTUM_TPS * TEST_ALL_RATE_QUANTUM_TPS
        in if 0 < clamped then of_nat clamped else 1)"

definition test_all_requested_value :: "esb \<Rightarrow> u16" where
  "test_all_requested_value st = (if test_all_requested_tps st = 0 then 100 else test_all_requested_tps st)"

definition test_all_wire_tps :: "esb \<Rightarrow> u16" where
  "test_all_wire_tps st = (if test_all_requested_tps st = 0 then 0 else test_all_effective_tps st)"

definition test_all_invalidate :: "esb \<Rightarrow> esb" where
  "test_all_invalidate st =
     st\<lparr>test_all_state_valid := False, test_all_confirmed_mask := 0, test_all_broadcasting := False\<rparr>"

definition test_all_invalidate_tracker :: "nat \<Rightarrow> int \<Rightarrow> esb \<Rightarrow> esb" where
  "test_all_invalidate_tracker t now st =
     (let s = tracker_slots st ! t;
          st1 = (if tracker_remote_command s = ESB_PONG_FLAG_TEST_MODE_ON \<or>
                    tracker_remote_command s = ESB_PONG_FLAG_TEST_MODE_OFF
                 then st\<lparr>tracker_slots := (tracker_slots st)[t := s\<lparr>tracker_remote_command := ESB_PONG_FLAG_NORMAL\<rparr>]\<rparr>
                 else st)
      in st1\<lparr>test_all_confirmed_mask := unset_bit t (test_all_confirmed_mask st1),
             test_all_ready_after_ms := (test_all_ready_after_ms st1)[t :=
               of_int now + TEST_ALL_JOIN_CONFIG_GRACE_MS]\<rparr>)"

definition test_all_update_effective :: "nat \<Rightarrow> int \<Rightarrow> bool \<Rightarrow> esb \<Rightarrow> esb" where
  "test_all_update_effective active_count now layout_changed st =
     (if \<not> test_all_state_valid st \<or> \<not> test_all_enabled st then st
      else
        let effective = min (test_all_requested_value st) (test_all_capacity_tps active_count st)
        in if effective = test_all_effective_tps st then st
           else
             let st1 = st\<lparr>test_all_effective_tps := effective,
                   test_all_confirmed_mask := test_all_confirmed_mask st AND NOT (tdma_active_mask st)\<rparr>
             in st1\<lparr>tracker_slots := update_where (mask_has (tdma_active_mask st1))
                      (\<lambda>s. s\<lparr>tracker_test_on_tps := test_all_wire_tps st1\<rparr>) (tracker_slots st1),
                    test_all_ready_after_ms := update_where (mask_has (tdma_active_mask st1))
                      (\<lambda>r. of_int now + (if layout_changed then TEST_ALL_JOIN_CONFIG_GRACE_MS else 0))
                      (test_all_ready_after_ms st1)\<rparr>)"

definition test_all_note_layout :: "u32 \<Rightarrow> u32 \<Rightarrow> int \<Rightarrow> esb \<Rightarrow> esb" where
  "test_all_note_layout old_mask new_mask now st =
     (if \<not> test_all_state_valid st then st
      else
        let joined = new_mask AND NOT old_mask
        in if joined = 0 then st
           else
             let st1 = st\<lparr>test_all_confirmed_mask := test_all_confirmed_mask st AND NOT joined\<rparr>
             in st1\<lparr>tracker_slots := (if test_all_enabled st1
                      then update_where (mask_has joined)
                        (\<lambda>s. s\<lparr>tracker_test_on_tps := test_all_wire_tps st1\<rparr>) (tracker_slots st1)
                      else tracker_slots st1),
                    test_all_ready_after_ms := update_where (mask_has joined)
                      (\<lambda>r. of_int now + TEST_ALL_JOIN_CONFIG_GRACE_MS) (test_all_ready_after_ms st1)\<rparr>)"

text \<open>
  \<open>test_all_reconcile\<close> runs its loop under the lock, so its second look at the grace time sees
  the same value as the first.
\<close>

definition reconcile_due :: "int \<Rightarrow> esb \<Rightarrow> nat \<Rightarrow> bool" where
  "reconcile_due now st i \<longleftrightarrow>
     mask_has (tdma_active_mask st AND NOT (test_all_confirmed_mask st)) i \<and>
     \<not> sint (of_int now - test_all_ready_after_ms st ! i) < 0 \<and>
     tracker_remote_command (tracker_slots st ! i) = ESB_PONG_FLAG_NORMAL"

definition test_all_reconcile :: "int \<Rightarrow> esb \<Rightarrow> esb" where
  "test_all_reconcile now st =
     (if \<not> test_all_state_valid st \<or> test_all_broadcasting st then st
      else
        let command = (if test_all_enabled st then ESB_PONG_FLAG_TEST_MODE_ON else ESB_PONG_FLAG_TEST_MODE_OFF)
        in st\<lparr>tracker_slots := update_where (reconcile_due now st)
             (\<lambda>s. (if test_all_enabled st then s\<lparr>tracker_test_on_tps := test_all_wire_tps st\<rparr> else s)
               \<lparr>tracker_remote_command := command\<rparr>) (tracker_slots st)\<rparr>)"

section \<open>The layout\<close>

definition tdma_slot_ticks_for :: "nat \<Rightarrow> esb \<Rightarrow> nat" where
  "tdma_slot_ticks_for active_count st =
     (if active_count = 0 then TDMA_BASE_SLOT_TICKS
      else if test_all_enabled st then TDMA_BASE_SLOT_TICKS
      else
        let cap = tdma_cap_ladder ! tdma_cap_level st;
            max_sticks = 32768 div (active_count * cap);
            width_limit = (if tdma_cap_level st = 0 then TDMA_SLOT_TICKS_MAX_LEVEL0 else 255);
            sticks = min max_sticks width_limit div 2 * 2
        in max sticks TDMA_BASE_SLOT_TICKS)"

text \<open>The slots of the trackers of a mask, counted up from \<open>slot\<close> in the order of their numbers.\<close>

fun assign_slots :: "u32 \<Rightarrow> nat \<Rightarrow> u8 \<Rightarrow> u8 \<Rightarrow> u8 \<Rightarrow> u8 \<Rightarrow> tracker_slot list \<Rightarrow> tracker_slot list" where
  "assign_slots new_mask i slot tot ticks epoch [] = []"
| "assign_slots new_mask i slot tot ticks epoch (s # ss) =
     (if mask_has new_mask i
      then s\<lparr>tdma_config_packed := tdma_pack_config slot tot ticks epoch\<rparr>
        # assign_slots new_mask (Suc i) (slot + 1) tot ticks epoch ss
      else s\<lparr>tdma_config_packed := tdma_pack_config 0xFF tot ticks epoch\<rparr>
        # assign_slots new_mask (Suc i) slot tot ticks epoch ss)"

definition member_count :: "u32 \<Rightarrow> nat \<Rightarrow> nat" where
  "member_count new_mask n = length (filter (mask_has new_mask) [0..<min n MAX_TRACKERS])"

definition tdma_publish :: "u32 \<Rightarrow> nat \<Rightarrow> nat \<Rightarrow> int \<Rightarrow> esb \<Rightarrow> esb" where
  "tdma_publish new_mask active_count slot_ticks now st =
     (let old_mask = tdma_active_mask st; mask_changed = (new_mask \<noteq> old_mask);
          epoch = (if active_count \<noteq> 0 then tdma_config_epoch st + 1 else tdma_config_epoch st);
          st1 = st\<lparr>tdma_config_epoch := epoch,
                   tracker_slots := assign_slots new_mask 0 0 (of_nat active_count) (of_nat slot_ticks) epoch
                     (tracker_slots st),
                   tdma_dynamic_active_count := active_count, tdma_dynamic_slot_ticks := slot_ticks,
                   tdma_active_mask := new_mask, tdma_last_reconfig_time := now,
                   tdma_last_reconfig_valid := True\<rparr>;
          st2 = (if shadow_pending_join_mask st1 = 0 then st1\<lparr>membership_deadline_armed := False\<rparr> else st1);
          st3 = (if mask_changed \<or> \<not> test_all_enabled st2
                 then st2\<lparr>tdma_published_cap_level := tdma_cap_level st2\<rparr> else st2);
          st4 = esb_auto_loss_invalidate st3
      in if active_count = 0 then st4
         else test_all_update_effective active_count now True (test_all_note_layout old_mask new_mask now st4))"

datatype recalc_result = RecalcDone esb | RecalcResetDiagnostics esb

definition recalc_level :: "peers \<Rightarrow> bool \<Rightarrow> esb \<Rightarrow> esb" where
  "recalc_level p mask_changed st =
     (if mask_changed then tdma_loss_reset_windows (st\<lparr>tdma_cap_level := 0\<rparr>)
      else if data_collect_active p \<or> data_collect_batch_active p
      then st\<lparr>tdma_cap_level := tdma_published_cap_level st\<rparr> else st)"

definition recalc_merge :: "bool \<Rightarrow> bool \<Rightarrow> int \<Rightarrow> esb \<Rightarrow> esb" where
  "recalc_merge forced diagnostics_reset now st =
     (if \<not> forced \<and> (diagnostics_reset \<or> shadow_pending_join_mask st \<noteq> 0 \<or>
           shadow_desired_mask st AND NOT (tdma_active_mask st) \<noteq> 0)
      then snd (tdma_shadow_merge_locked (of_int now) st) else st)"

definition recalc_mask :: "esb \<Rightarrow> u32" where
  "recalc_mask st = shadow_desired_mask st AND
     (if MAX_TRACKERS \<le> stored_trackers st then UINT32_MAX else mask (stored_trackers st))"

definition recalc_pass :: "peers \<Rightarrow> bool \<Rightarrow> bool \<Rightarrow> int \<Rightarrow> esb \<Rightarrow> recalc_result" where
  "recalc_pass p forced diagnostics_reset now st0 =
     (let st1 = recalc_merge forced diagnostics_reset now st0;
          new_mask = recalc_mask st1;
          active_count = member_count new_mask (stored_trackers st1);
          mask_changed = (new_mask \<noteq> tdma_active_mask st1);
          st = recalc_level p mask_changed st1;
          slot_ticks = tdma_slot_ticks_for active_count st;
          test_all_layout = test_all_enabled st;
          ladder_step = (tdma_cap_level st \<noteq> tdma_published_cap_level st);
          min_reconfig = (if mask_changed \<or> test_all_layout \<or> \<not> ladder_step
            then TDMA_RECONFIG_MIN_MS else TDMA_LOSS_RECONFIG_MIN_MS)
      in if \<not> mask_changed \<and> active_count = 0 then
           RecalcDone (st\<lparr>tdma_dynamic_slot_ticks := TDMA_BASE_SLOT_TICKS,
             tdma_published_cap_level := tdma_cap_level st\<rparr>)
         else if \<not> mask_changed \<and> slot_ticks = tdma_dynamic_slot_ticks st then
           RecalcDone (if \<not> test_all_layout then st\<lparr>tdma_published_cap_level := tdma_cap_level st\<rparr> else st)
         else if \<not> forced \<and>
             ((mask_changed \<and> membership_deadline_armed st \<and>
                 sint (of_int now - membership_deadline_ms st) < 0) \<or>
              (tdma_last_reconfig_valid st \<and> now - tdma_last_reconfig_time st < min_reconfig)) then
           RecalcDone st
         else if active_count \<noteq> 0 \<and> \<not> diagnostics_reset then RecalcResetDiagnostics st
         else RecalcDone (tdma_publish new_mask active_count slot_ticks now st))"

text \<open>
  The loop: the first pass may ask for the reset of the diagnostics, which the second pass never
  does. Evidence that arrives between the two is \<open>between\<close>.
\<close>

definition tdma_recalculate :: "peers \<Rightarrow> bool \<Rightarrow> (nat \<Rightarrow> int) \<Rightarrow> (esb \<Rightarrow> esb) \<Rightarrow> esb \<Rightarrow> esb" where
  "tdma_recalculate p forced clock between st =
     (case recalc_pass p forced False (clock 0) st of
        RecalcDone st1 \<Rightarrow> st1
      | RecalcResetDiagnostics st1 \<Rightarrow>
          (case recalc_pass p forced True (clock 1) (between st1) of
             RecalcDone st2 \<Rightarrow> st2
           | RecalcResetDiagnostics st2 \<Rightarrow> st2))"

end
