(* ===== verification/TdmaCorrect.thy ===== *)
theory TdmaCorrect
  imports Tdma
begin

text \<open>
  What the TDMA layout guarantees: every member owns a slot of its own, the slots are wide
  enough for the rate the ladder asks for, layouts keep their distance in time, membership
  follows the evidence exactly, and the owner never sleeps past the moment at which a
  membership change may be published.
\<close>

section \<open>The packed configuration\<close>

definition cfg_slot :: "u32 \<Rightarrow> u8" where "cfg_slot w = ucast (drop_bit 24 w)"
definition cfg_total :: "u32 \<Rightarrow> u8" where "cfg_total w = ucast (drop_bit 16 w)"
definition cfg_ticks :: "u32 \<Rightarrow> u8" where "cfg_ticks w = ucast (drop_bit 8 w)"
definition cfg_epoch :: "u32 \<Rightarrow> u8" where "cfg_epoch w = ucast w"

lemma cfg_pack [simp]:
  "cfg_slot (tdma_pack_config a b c d) = a" "cfg_total (tdma_pack_config a b c d) = b"
  "cfg_ticks (tdma_pack_config a b c d) = c" "cfg_epoch (tdma_pack_config a b c d) = d"
  unfolding cfg_slot_def cfg_total_def cfg_ticks_def cfg_epoch_def tdma_pack_config_def
  by (rule bit_word_eqI; auto simp: bit_simps dest: bit_imp_le_length)+

section \<open>Slot assignment\<close>

definition rank_below :: "u32 \<Rightarrow> nat \<Rightarrow> nat \<Rightarrow> nat" where
  "rank_below m k i = length (filter (mask_has m) [k..<i])"

lemma rank_below_Suc: "k < i \<Longrightarrow> rank_below m k i = (if mask_has m k then 1 else 0) + rank_below m (Suc k) i"
  by (simp add: rank_below_def upt_conv_Cons)

lemma rank_below_mono: "i \<le> j \<Longrightarrow> k \<le> i \<Longrightarrow> rank_below m k i \<le> rank_below m k j"
proof -
  assume "i \<le> j" "k \<le> i"
  then have "[k..<j] = [k..<i] @ [i..<j]" by (metis le_Suc_ex upt_add_eq_append)
  then show ?thesis by (simp add: rank_below_def)
qed

lemma rank_below_strict:
  assumes "i < j" and "k \<le> i" and "mask_has m i"
  shows "rank_below m k i < rank_below m k j"
proof -
  have "rank_below m k (Suc i) = Suc (rank_below m k i)"
    using assms by (simp add: rank_below_def)
  with rank_below_mono [of "Suc i" j k m] assms show ?thesis by simp
qed

lemma length_assign_slots [simp]: "length (assign_slots m k s tot ticks ep ss) = length ss"
  by (induction m k s tot ticks ep ss rule: assign_slots.induct) auto

lemma assign_slots_nth:
  "i < length ss \<Longrightarrow> assign_slots m k s tot ticks ep ss ! i =
     (ss ! i)\<lparr>tdma_config_packed := tdma_pack_config
       (if mask_has m (k + i) then s + of_nat (rank_below m k (k + i)) else 0xFF) tot ticks ep\<rparr>"
proof (induction m k s tot ticks ep ss arbitrary: i rule: assign_slots.induct)
  case (2 m k s tot ticks ep x xs)
  show ?case
  proof (cases i)
    case 0
    then show ?thesis by (simp add: rank_below_def)
  next
    case (Suc j)
    with 2 show ?thesis by (auto simp: rank_below_Suc add_ac)
  qed
qed simp

lemma test_all_packed [simp]:
  assumes "i < length (tracker_slots st)"
  shows "tdma_config_packed (tracker_slots (test_all_update_effective n now b st) ! i) =
      tdma_config_packed (tracker_slots st ! i)"
    and "tdma_config_packed (tracker_slots (test_all_note_layout m m' now st) ! i) =
      tdma_config_packed (tracker_slots st ! i)"
  using assms
  by (auto simp: test_all_update_effective_def test_all_note_layout_def Let_def nth_update_where)

lemma test_all_length [simp]:
  "length (tracker_slots (test_all_update_effective n now b st)) = length (tracker_slots st)"
  "length (tracker_slots (test_all_note_layout m m' now st)) = length (tracker_slots st)"
  by (auto simp: test_all_update_effective_def test_all_note_layout_def Let_def)

lemma publish_packed:
  assumes "i < length (tracker_slots st)"
  shows "tdma_config_packed (tracker_slots (tdma_publish m n ticks now st) ! i) =
    tdma_pack_config (if mask_has m i then of_nat (rank_below m 0 i) else 0xFF) (of_nat n) (of_nat ticks)
      (if n \<noteq> 0 then tdma_config_epoch st + 1 else tdma_config_epoch st)"
  using assms by (simp add: tdma_publish_def Let_def esb_auto_loss_invalidate_def assign_slots_nth)

section \<open>Membership\<close>

lemma merge_step_other:
  assumes "j \<noteq> i"
  shows "mask_has (ma_desired (merge_step now act ev i acc)) j = mask_has (ma_desired acc) j"
    and "ma_seen (merge_step now act ev i acc) ! j = ma_seen acc ! j"
  using assms by (auto simp: merge_step_def merge_drop_def Let_def)

definition stays :: "u32 \<Rightarrow> u32 \<Rightarrow> u32 \<Rightarrow> u32 \<Rightarrow> u32 list \<Rightarrow> nat \<Rightarrow> bool" where
  "stays now act ev des seen i \<longleftrightarrow>
     (let has = mask_has ev i; age = merge_age now (seen ! i) has
      in if mask_has des i
         then (mask_has act i \<or> age < TDMA_SHADOW_FRESH_MS) \<and> (has \<longrightarrow> age < TDMA_SHADOW_LEAVE_GRACE_MS)
         else has \<and> age < TDMA_SHADOW_FRESH_MS)"

lemma merge_step_self:
  assumes "i < 32"
  shows "mask_has (ma_desired (merge_step now act ev i acc)) i = stays now act ev (ma_desired acc) (ma_seen acc) i"
  using assms by (auto simp: merge_step_def merge_drop_def stays_def Let_def merge_age_def)

lemma merge_fold:
  assumes "distinct is" and "\<forall>i\<in>set is. i < 32"
  shows "mask_has (ma_desired (fold (merge_step now act ev) is acc)) j =
    (if j \<in> set is then stays now act ev (ma_desired acc) (ma_seen acc) j else mask_has (ma_desired acc) j)"
  using assms
proof (induction "is" arbitrary: acc)
  case (Cons i "is")
  let ?acc = "merge_step now act ev i acc"
  have "stays now act ev (ma_desired ?acc) (ma_seen ?acc) j = stays now act ev (ma_desired acc) (ma_seen acc) j"
    if "j \<noteq> i" using that by (simp add: stays_def merge_step_other)
  with Cons merge_step_self [of i now act ev acc] merge_step_other [of j i now act ev acc] show ?case
    by (cases "j = i") auto
qed simp

lemma mask_has_mask [simp]: "mask_has (mask n :: u32) i \<longleftrightarrow> i < min n 32"
  by (simp add: mask_has_def bit_simps) auto

lemma merge_desired_iff:
  assumes "n = min (stored_trackers st) MAX_TRACKERS"
  shows "mask_has (shadow_desired_mask (tdma_shadow_update now st)) i \<longleftrightarrow>
    i < n \<and> stays now (tdma_active_mask st) (shadow_live_evidence_mask st) (shadow_desired_mask st)
      (shadow_last_seen_ms st) i"
proof -
  let ?ev = "shadow_live_evidence_mask st AND mask n" and ?des = "shadow_desired_mask st AND mask n"
  have "shadow_desired_mask (tdma_shadow_update now st) = ma_desired (merge_loop now st)"
    by (simp add: tdma_shadow_update_def tdma_shadow_merge_locked_def Let_def)
  moreover have "mask_has (ma_desired (merge_loop now st)) i \<longleftrightarrow>
      (if i < n then stays now (tdma_active_mask st) ?ev ?des (shadow_last_seen_ms st) i else mask_has ?des i)"
    using merge_fold [of "[0..<n]"] assms unfolding merge_loop_def Let_def by (simp del: upt_rec_numeral)
  moreover have "stays now (tdma_active_mask st) ?ev ?des (shadow_last_seen_ms st) i =
      stays now (tdma_active_mask st) (shadow_live_evidence_mask st) (shadow_desired_mask st)
        (shadow_last_seen_ms st) i" if "i < n"
    using that assms by (simp add: stays_def)
  ultimately show ?thesis using assms by auto
qed

section \<open>The published layout\<close>

definition members :: "u32 \<Rightarrow> nat" where
  "members m = rank_below m 0 MAX_TRACKERS"

definition layout_ok :: "esb \<Rightarrow> bool" where
  "layout_ok st \<longleftrightarrow> length (tracker_slots st) = MAX_TRACKERS \<and>
     tdma_dynamic_active_count st = members (tdma_active_mask st) \<and>
     (\<forall>i<MAX_TRACKERS. let w = tdma_config_packed (tracker_slots st ! i) in
        cfg_slot w = (if mask_has (tdma_active_mask st) i
          then of_nat (rank_below (tdma_active_mask st) 0 i) else 0xFF) \<and>
        cfg_total w = of_nat (tdma_dynamic_active_count st) \<and> cfg_epoch w = tdma_config_epoch st \<and>
        (tdma_dynamic_active_count st \<noteq> 0 \<longrightarrow> cfg_ticks w = of_nat (tdma_dynamic_slot_ticks st)))"

lemma layout_ok_cong:
  assumes "tracker_slots st' = tracker_slots st" "tdma_dynamic_active_count st' = tdma_dynamic_active_count st"
    "tdma_active_mask st' = tdma_active_mask st" "tdma_config_epoch st' = tdma_config_epoch st"
    "tdma_dynamic_slot_ticks st' = tdma_dynamic_slot_ticks st \<or> tdma_dynamic_active_count st = 0"
  shows "layout_ok st \<Longrightarrow> layout_ok st'"
  using assms by (auto simp: layout_ok_def Let_def)

lemma member_count_members:
  assumes "new_mask = recalc_mask st"
  shows "member_count new_mask (stored_trackers st) = members new_mask"
proof (cases "stored_trackers st \<ge> 16")
  case True
  then show ?thesis by (simp add: member_count_def members_def rank_below_def min_def)
next
  case False
  let ?n = "stored_trackers st"
  have "[0..<16] = [0..<?n] @ [?n..<16]" using False by (metis le_add_diff_inverse nat_le_linear upt_add_eq_append zero_le)
  moreover have "filter (mask_has new_mask) [?n..<16] = []"
    using assms False by (auto simp: recalc_mask_def filter_empty_conv)
  ultimately show ?thesis using False
    by (simp add: member_count_def members_def rank_below_def min_def del: upt_rec_numeral)
qed

lemma merge_frame [simp]:
  "tracker_slots (snd (tdma_shadow_merge_locked now st)) = tracker_slots st"
  "tdma_dynamic_active_count (snd (tdma_shadow_merge_locked now st)) = tdma_dynamic_active_count st"
  "tdma_active_mask (snd (tdma_shadow_merge_locked now st)) = tdma_active_mask st"
  "tdma_config_epoch (snd (tdma_shadow_merge_locked now st)) = tdma_config_epoch st"
  "tdma_dynamic_slot_ticks (snd (tdma_shadow_merge_locked now st)) = tdma_dynamic_slot_ticks st"
  "tdma_last_reconfig_valid (snd (tdma_shadow_merge_locked now st)) = tdma_last_reconfig_valid st"
  "tdma_last_reconfig_time (snd (tdma_shadow_merge_locked now st)) = tdma_last_reconfig_time st"
  "stored_trackers (snd (tdma_shadow_merge_locked now st)) = stored_trackers st"
  by (simp_all add: tdma_shadow_merge_locked_def Let_def)

lemma recalc_frame [simp]:
  "tracker_slots (recalc_merge f d now st) = tracker_slots st"
  "tdma_dynamic_active_count (recalc_merge f d now st) = tdma_dynamic_active_count st"
  "tdma_active_mask (recalc_merge f d now st) = tdma_active_mask st"
  "tdma_config_epoch (recalc_merge f d now st) = tdma_config_epoch st"
  "tdma_dynamic_slot_ticks (recalc_merge f d now st) = tdma_dynamic_slot_ticks st"
  "tdma_last_reconfig_valid (recalc_merge f d now st) = tdma_last_reconfig_valid st"
  "tdma_last_reconfig_time (recalc_merge f d now st) = tdma_last_reconfig_time st"
  "stored_trackers (recalc_merge f d now st) = stored_trackers st"
  by (simp_all add: recalc_merge_def)

lemma level_frame [simp]:
  "tracker_slots (recalc_level p c st) = tracker_slots st"
  "tdma_dynamic_active_count (recalc_level p c st) = tdma_dynamic_active_count st"
  "tdma_active_mask (recalc_level p c st) = tdma_active_mask st"
  "tdma_config_epoch (recalc_level p c st) = tdma_config_epoch st"
  "tdma_dynamic_slot_ticks (recalc_level p c st) = tdma_dynamic_slot_ticks st"
  "tdma_last_reconfig_valid (recalc_level p c st) = tdma_last_reconfig_valid st"
  "tdma_last_reconfig_time (recalc_level p c st) = tdma_last_reconfig_time st"
  "membership_deadline_armed (recalc_level p c st) = membership_deadline_armed st"
  "membership_deadline_ms (recalc_level p c st) = membership_deadline_ms st"
  by (simp_all add: recalc_level_def tdma_loss_reset_windows_def)

lemma test_all_frame [simp]:
  "tdma_dynamic_active_count (test_all_update_effective n now b st) = tdma_dynamic_active_count st"
  "tdma_active_mask (test_all_update_effective n now b st) = tdma_active_mask st"
  "tdma_config_epoch (test_all_update_effective n now b st) = tdma_config_epoch st"
  "tdma_dynamic_slot_ticks (test_all_update_effective n now b st) = tdma_dynamic_slot_ticks st"
  "tdma_dynamic_active_count (test_all_note_layout m m' now st) = tdma_dynamic_active_count st"
  "tdma_active_mask (test_all_note_layout m m' now st) = tdma_active_mask st"
  "tdma_config_epoch (test_all_note_layout m m' now st) = tdma_config_epoch st"
  "tdma_dynamic_slot_ticks (test_all_note_layout m m' now st) = tdma_dynamic_slot_ticks st"
  by (simp_all add: test_all_update_effective_def test_all_note_layout_def Let_def)

lemma publish_fields:
  "tdma_dynamic_active_count (tdma_publish m n ticks now st) = n"
  "tdma_active_mask (tdma_publish m n ticks now st) = m"
  "tdma_config_epoch (tdma_publish m n ticks now st) =
     (if n \<noteq> 0 then tdma_config_epoch st + 1 else tdma_config_epoch st)"
  "tdma_dynamic_slot_ticks (tdma_publish m n ticks now st) = ticks"
  "length (tracker_slots (tdma_publish m n ticks now st)) = length (tracker_slots st)"
  by (simp_all add: tdma_publish_def Let_def esb_auto_loss_invalidate_def)

lemma publish_layout:
  assumes "length (tracker_slots st) = MAX_TRACKERS" and "n = members m"
  shows "layout_ok (tdma_publish m n ticks now st)"
  using assms by (auto simp: layout_ok_def publish_fields publish_packed Let_def)

text \<open>A pass either leaves the layout alone or publishes the desired one.\<close>

lemma recalc_pass_cases:
  assumes "recalc_pass p forced d now st = r"
  obtains (keep) st' where "r = RecalcDone st'" "tracker_slots st' = tracker_slots st"
      "tdma_active_mask st' = tdma_active_mask st" "tdma_config_epoch st' = tdma_config_epoch st"
      "tdma_dynamic_active_count st' = tdma_dynamic_active_count st"
      "tdma_dynamic_slot_ticks st' = tdma_dynamic_slot_ticks st \<or> members (tdma_active_mask st) = 0"
  | (diag) st' where "r = RecalcResetDiagnostics st'" "\<not> d" "tracker_slots st' = tracker_slots st"
      "tdma_active_mask st' = tdma_active_mask st" "tdma_config_epoch st' = tdma_config_epoch st"
      "tdma_dynamic_active_count st' = tdma_dynamic_active_count st"
      "tdma_dynamic_slot_ticks st' = tdma_dynamic_slot_ticks st"
      "forced \<or> \<not> (tdma_last_reconfig_valid st \<and> now - tdma_last_reconfig_time st < TDMA_RECONFIG_MIN_MS)"
  | (publish) m ticks st' where "r = RecalcDone (tdma_publish m (members m) ticks now st')"
      "tracker_slots st' = tracker_slots st" "m = recalc_mask (recalc_merge forced d now st)"
      "tdma_config_epoch st' = tdma_config_epoch st"
      "forced \<or> \<not> (tdma_last_reconfig_valid st \<and> now - tdma_last_reconfig_time st < TDMA_RECONFIG_MIN_MS)"
proof -
  define st1 where "st1 = recalc_merge forced d now st"
  define m where "m = recalc_mask st1"
  define st2 where "st2 = recalc_level p (m \<noteq> tdma_active_mask st1) st1"
  have n: "member_count m (stored_trackers st1) = members m" using member_count_members [OF m_def] .
  have fr: "tracker_slots st2 = tracker_slots st" "tdma_active_mask st2 = tdma_active_mask st"
    "tdma_config_epoch st2 = tdma_config_epoch st" "tdma_dynamic_active_count st2 = tdma_dynamic_active_count st"
    "tdma_dynamic_slot_ticks st2 = tdma_dynamic_slot_ticks st" "tdma_active_mask st1 = tdma_active_mask st"
    "tdma_last_reconfig_valid st2 = tdma_last_reconfig_valid st"
    "tdma_last_reconfig_time st2 = tdma_last_reconfig_time st"
    by (simp_all add: st2_def st1_def)
  note r = assms [unfolded recalc_pass_def Let_def, folded st1_def, folded m_def, folded st2_def, unfolded n]
  define ticks where "ticks = tdma_slot_ticks_for (members m) st2"
  define early where "early \<longleftrightarrow> \<not> forced \<and> tdma_last_reconfig_valid st \<and>
    now - tdma_last_reconfig_time st < TDMA_RECONFIG_MIN_MS"
  consider (same) "r = RecalcDone st2"
    | (level) "r = RecalcDone (st2\<lparr>tdma_published_cap_level := tdma_cap_level st2\<rparr>)"
    | (empty) "r = RecalcDone (st2\<lparr>tdma_dynamic_slot_ticks := 16, tdma_published_cap_level := tdma_cap_level st2\<rparr>)"
        "members m = 0" "m = tdma_active_mask st"
    | (again) "r = RecalcResetDiagnostics st2" "\<not> d" "\<not> early"
    | (pub) "r = RecalcDone (tdma_publish m (members m) ticks now st2)" "\<not> early"
  proof -
    define A where "A \<longleftrightarrow> \<not> m \<noteq> tdma_active_mask st1 \<and> members m = 0"
    define B where "B \<longleftrightarrow> \<not> m \<noteq> tdma_active_mask st1 \<and> ticks = tdma_dynamic_slot_ticks st2"
    define C where "C \<longleftrightarrow> \<not> forced \<and>
      ((m \<noteq> tdma_active_mask st1 \<and> membership_deadline_armed st2 \<and>
          sint (of_int now - membership_deadline_ms st2) < 0) \<or>
       (tdma_last_reconfig_valid st2 \<and> now - tdma_last_reconfig_time st2 <
          (if m \<noteq> tdma_active_mask st1 \<or> test_all_enabled st2 \<or> \<not> tdma_cap_level st2 \<noteq> tdma_published_cap_level st2
           then TDMA_RECONFIG_MIN_MS else TDMA_LOSS_RECONFIG_MIN_MS)))"
    have "\<not> early" if "\<not> C" using that fr(7,8) by (auto simp: C_def early_def split: if_splits)
    note late = this and rr = r [folded ticks_def, folded A_def, folded B_def, folded C_def, symmetric]
    show thesis
    proof (cases A)
      case True
      then show thesis using that(3) rr fr(6) unfolding A_def by (simp only: if_True) auto
    next
      case notA: False
      show thesis
      proof (cases B)
        case True
        then show thesis using that(1,2) rr notA by (cases "test_all_enabled st2") simp_all
      next
        case notB: False
        show thesis
        proof (cases C)
          case True
          then show thesis using that(1) rr notA notB by simp
        next
          case False
          then show thesis using that(4,5) rr notA notB late by (cases "members m \<noteq> 0 \<and> \<not> d") simp_all
        qed
      qed
    qed
  qed
  then show thesis
  proof cases
    case again
    then show ?thesis using diag [of st2] fr by (auto simp: early_def)
  next
    case pub
    then show ?thesis using publish [of m ticks st2] fr by (auto simp: early_def m_def st1_def)
  qed (use keep fr in auto)
qed

lemma recalculate_layout:
  assumes ok: "layout_ok st" and btw: "\<And>x. layout_ok x \<Longrightarrow> layout_ok (between x)"
  shows "layout_ok (tdma_recalculate p forced clock between st)"
proof -
  have pass: "\<exists>st'. (recalc_pass p forced d now x = RecalcDone st' \<or>
      \<not> d \<and> recalc_pass p forced d now x = RecalcResetDiagnostics st') \<and> layout_ok st'" if "layout_ok x" for d now x
  proof -
    obtain r where "recalc_pass p forced d now x = r" by simp
    then show ?thesis
  proof (cases rule: recalc_pass_cases)
    case (keep st')
    have "layout_ok st'" using that keep by (intro layout_ok_cong [OF keep(2,5,3,4) _ that]) (auto simp: layout_ok_def)
    with keep(1) \<open>_ = r\<close> show ?thesis by blast
  next
    case (diag st')
    have "layout_ok st'" using diag by (intro layout_ok_cong [OF diag(3,6,4,5) _ that]) simp
    with diag(1,2) \<open>_ = r\<close> show ?thesis by blast
  next
    case (publish m ticks st')
    have "layout_ok (tdma_publish m (members m) ticks now st')"
      using that publish(2) by (intro publish_layout) (simp_all add: layout_ok_def)
    with publish(1) \<open>_ = r\<close> show ?thesis by blast
  qed
  qed
  from pass [OF ok, of False "clock 0"] show ?thesis
  proof (elim exE conjE disjE)
    fix st' assume r: "recalc_pass p forced False (clock 0) st = RecalcResetDiagnostics st'" and "layout_ok st'"
    from pass [OF btw [OF this(2)], of True "clock 1"] r show ?thesis by (auto simp: tdma_recalculate_def)
  qed (simp add: tdma_recalculate_def)
qed

lemma observe_frame [simp]:
  "tracker_slots (tdma_shadow_observe t e now st) = tracker_slots st"
  "tdma_dynamic_active_count (tdma_shadow_observe t e now st) = tdma_dynamic_active_count st"
  "tdma_active_mask (tdma_shadow_observe t e now st) = tdma_active_mask st"
  "tdma_config_epoch (tdma_shadow_observe t e now st) = tdma_config_epoch st"
  "tdma_dynamic_slot_ticks (tdma_shadow_observe t e now st) = tdma_dynamic_slot_ticks st"
  by (cases e; simp add: tdma_shadow_observe_def Let_def)+

lemma observe_layout: "layout_ok st \<Longrightarrow> layout_ok (tdma_shadow_observe t e now st)"
  using layout_ok_cong [of "tdma_shadow_observe t e now st" st] by simp

lemma members_bound: "members m \<le> MAX_TRACKERS"
  using length_filter_le [of "mask_has m" "[0..<16]"] by (simp only: members_def rank_below_def) simp

lemma slot_unat:
  assumes "mask_has m i" and "i < MAX_TRACKERS"
  shows "unat (of_nat (rank_below m 0 i) :: u8) = rank_below m 0 i" "rank_below m 0 i < members m"
proof -
  show "rank_below m 0 i < members m"
    unfolding members_def using assms by (intro rank_below_strict) simp_all
  then show "unat (of_nat (rank_below m 0 i) :: u8) = rank_below m 0 i"
    using members_bound [of m] by (simp add: unat_of_nat)
qed

lemma merge_deadline:
  assumes "membership_deadline_armed st"
  shows "membership_deadline_armed (recalc_merge f d now st) \<longrightarrow>
    membership_deadline_ms (recalc_merge f d now st) = membership_deadline_ms st"
  using assms by (simp add: recalc_merge_def tdma_shadow_merge_locked_def Let_def)

definition idle_esb_slot :: tracker_slot where
  "idle_esb_slot = \<lparr>tdma_config_packed = tdma_pack_config 0xFF 0 16 0, tdma_prev_recv = 0, tdma_prev_gaps = 0,
     tdma_prev_restarts = 0, last_packet_sequence = 0, sequence_initialized = False, last_ping_counter = 0,
     ping_counter_initialized = False, last_ping_time = 0, last_pong_queued_counter = 0,
     pipe_mismatch_count = 0, crc_error_count = 0, last_raw_seq = 0, last_raw_valid = False,
     tracker_remote_command = 0, pending_cmd_arg = 0, tracker_test_on_tps = 0, pending_sens_data = [0, 0, 0],
     pending_sens_auto_axis = 0, pending_sens_auto_revolutions = 0, metadata_active_mask = 0,
     metadata_active_chunk = 0, metadata_active_token = 0, metadata_pending_mask = 0,
     metadata_pending_chunk = 0, metadata_pending_token = 0, wom_token = 0, wom_minutes = 0, wom_error = 0,
     wom_complete = False, wom_advertised = False, wom_first_ping_counter = 0,
     slot_stats = \<lparr>total_received = 0, normal_packets = 0, gap_events = 0, out_of_order = 0,
       duplicate_packets = 0, restart_events = 0, total_gaps = 0, last_sequence = 0, last_packet_time = 0,
       first_packet = True, packets_in_last_second = 0, last_tps_time = 0, current_tps = 0,
       status_received = 0, status_lost = 0\<rparr>,
     decision_received = 0, decision_gaps = 0\<rparr>"

text \<open>A receiver with three paired trackers and an empty layout, as the witnesses use it.\<close>

definition idle_esb :: esb where
  "idle_esb = \<lparr>tracker_slots = replicate 16 idle_esb_slot, stored_trackers = 3,
     stored_tracker_addr = [11, 12, 13] @ replicate 13 0, tdma_config_epoch = 0, tdma_dynamic_active_count = 0,
     tdma_dynamic_slot_ticks = 16, tdma_active_mask = 0, tdma_last_reconfig_time = 0,
     tdma_last_reconfig_valid = False, tdma_cap_level = 0, tdma_published_cap_level = 0,
     loss_trigger_streak = 0, loss_recover_streak = 0, loss_probe_streak = 0, loss_pool_received = 0,
     loss_pool_gaps = 0, loss_pool_ticks = 0, rx_discontinuity_pending = False, tdma_decision_ready = False,
     shadow_last_seen_ms = replicate 16 0, shadow_ever_ping_mask = 0, shadow_ever_data_mask = 0,
     shadow_live_evidence_mask = 0, shadow_desired_mask = 0, shadow_pending_join_mask = 0,
     shadow_pending_leave_mask = 0, shadow_desired_changed_at_ms = 0, membership_deadline_ms = 0,
     membership_deadline_armed = False, membership_wake = False, metadata_next_token = 0, wom_next_token = 0,
     test_all_state_valid = False, test_all_enabled = False, test_all_broadcasting = False,
     test_all_confirmed_mask = 0, test_all_requested_tps = 0, test_all_effective_tps = 0,
     test_all_ready_after_ms = replicate 16 0, test_all_generation = 0, receiver_rf_channel = 255,
     radio_operation_busy = False, esb_radio_fault = False, channel_change_pending = False,
     pending_channel = 0, channel_command = 0, channel_target_mask = 0, channel_change_timeout = 0,
     channel_change_automatic = False, channel_change_generation = 0, channel_change_old_home = 0,
     esb_pairing = False, esb_clearing = False, pairing_start_time = 0, pairing_target_count = 0,
     pairing_initial_count = 0, pairing_target_reached_time = 0, pairing_new_devices_blocked = False,
     auto_loss_reset_epoch = 0, decision_ready_mask = 0, decision_fence_mask = - 1\<rparr>"

definition no_peers :: peers where
  "no_peers = \<lparr>ota_relay_active = False, ota_abort_pending = (\<lambda>t. False), receiver_ota_active = False,
     data_collect_active = False, data_collect_batch_active = False\<rparr>"

lemma idle_layout: "layout_ok idle_esb"
proof -
  have "members 0 = 0" by (simp only: members_def rank_below_def mask_has_zero) simp
  then show ?thesis by (simp add: layout_ok_def idle_esb_def idle_esb_slot_def Let_def)
qed

section \<open>Properties\<close>


definition joining_esb :: esb where
  "joining_esb = idle_esb\<lparr>shadow_desired_mask := 5\<rparr>"

lemma joining_layout: "layout_ok joining_esb"
  using layout_ok_cong [of joining_esb idle_esb] idle_layout by (simp add: joining_esb_def)

lemma joining_members: "member_count 5 3 = 2" "recalc_mask joining_esb = 5" "mask_has (5 :: u32) 0" "mask_has (5 :: u32) 2"
  by code_simp+

lemma joining_published: "tdma_active_mask (tdma_recalculate no_peers True (\<lambda>k. 1200) id joining_esb) = 5"
proof -
  have f: "tdma_active_mask joining_esb = 0" "stored_trackers joining_esb = 3"
    by (simp_all add: joining_esb_def idle_esb_def)
  define st1 where "st1 = recalc_level no_peers True joining_esb"
  have st1: "recalc_mask st1 = 5" "tdma_active_mask st1 = 0" "stored_trackers st1 = 3"
    using f joining_members(2) by (simp_all add: st1_def recalc_level_def tdma_loss_reset_windows_def recalc_mask_def)
  have "recalc_pass no_peers True False 1200 joining_esb = RecalcResetDiagnostics st1"
    using f joining_members by (simp add: recalc_pass_def recalc_merge_def Let_def st1_def)
  moreover have "\<exists>ticks st2. recalc_pass no_peers True True 1200 st1 = RecalcDone (tdma_publish 5 2 ticks 1200 st2)"
    using st1 joining_members by (simp add: recalc_pass_def recalc_merge_def Let_def) blast
  ultimately show ?thesis by (auto simp: tdma_recalculate_def publish_fields)
qed


text \<open>
  Claim C34. The width of a slot is always legal and always fast enough: it is an even number of
  ticks between 16 and 255, at most 64 on the top level of the ladder, and unless it is the
  minimum of 16, the frame of all members leaves every tracker at least as many opportunities a second
  as the current level of the ladder demands.
\<close>

theorem tdma_slot_ticks_sound:
  assumes "tdma_cap_level st \<le> TDMA_CAP_LEVEL_MAX" and "n \<le> MAX_TRACKERS"
    and "ticks = tdma_slot_ticks_for n st"
  shows "16 \<le> ticks \<and> ticks \<le> 255 \<and> even ticks \<and> (tdma_cap_level st = 0 \<longrightarrow> ticks \<le> 64) \<and>
    (ticks \<noteq> 16 \<longrightarrow> tdma_cap_ladder ! tdma_cap_level st \<le> 32768 div (ticks * n))"
proof -
  define cap where "cap = tdma_cap_ladder ! tdma_cap_level st"
  define lim where "lim = (if tdma_cap_level st = 0 then 64 else 255 :: nat)"
  define s where "s = min (32768 div (n * cap)) lim div 2 * 2"
  have cases: "ticks = 16 \<or> (n \<noteq> 0 \<and> ticks = max s 16)"
    using assms(3) by (auto simp: tdma_slot_ticks_for_def Let_def cap_def lim_def s_def)
  have s: "s \<le> lim" "even s" "s \<le> 32768 div (n * cap)"
    unfolding s_def using div_mult_mod_eq [of "min (32768 div (n * cap)) lim" 2] by simp_all
  have rate: "cap \<le> 32768 div (s * n)" if "n \<noteq> 0" "s \<noteq> 0"
  proof -
    have "s * (n * cap) \<le> 32768 div (n * cap) * (n * cap)" using s(3) by (rule mult_right_mono) simp
    also have "\<dots> \<le> 32768" by (rule div_times_less_eq_dividend)
    finally show ?thesis using that by (simp add: less_eq_div_iff_mult_less_eq ac_simps)
  qed
  have lim: "lim \<le> 255" "tdma_cap_level st = 0 \<longrightarrow> lim = 64" by (simp_all add: lim_def)
  show ?thesis
  proof (cases "ticks = 16")
    case False
    with cases have t: "n \<noteq> 0" "ticks = s" "s \<noteq> 0" "16 \<le> s" by (auto simp: max_def split: if_splits)
    have "cap \<le> 32768 div (s * n)" using rate [OF t(1,3)] .
    moreover have "s \<le> 255" using s(1) lim(1) by (rule order_trans)
    ultimately show ?thesis using t s(1,2) lim(2) unfolding cap_def t(2) by auto
  qed simp
qed

theorem tdma_slot_ticks_sound_witness:
  "tdma_slot_ticks_for 5 idle_esb = 28 \<and> tdma_cap_ladder ! 0 \<le> 32768 div (28 * 5)"
proof -
  have h: "tdma_cap_level idle_esb \<le> 4" "28 = tdma_slot_ticks_for 5 idle_esb" "tdma_cap_level idle_esb = 0"
    by (simp_all add: idle_esb_def tdma_slot_ticks_for_def tdma_cap_ladder_def Let_def)
  from tdma_slot_ticks_sound [OF h(1) _ h(2)] h show ?thesis by simp
qed



text \<open>
  Membership follows the evidence exactly: after a merge a stored tracker is desired
  if it was not and has been heard within the last six seconds, or if it was and is not yet gone: a
  published member until it has been silent for fifteen seconds, an unpublished one until six.
  Nothing beyond the stored trackers is ever desired.
\<close>

theorem tdma_membership_exact:
  assumes "n = min (stored_trackers st) MAX_TRACKERS"
  shows "mask_has (shadow_desired_mask (tdma_shadow_update now st)) i \<longleftrightarrow>
    i < n \<and> stays now (tdma_active_mask st) (shadow_live_evidence_mask st) (shadow_desired_mask st)
      (shadow_last_seen_ms st) i"
  using merge_desired_iff [OF assms] .

theorem tdma_membership_exact_witness:
  "mask_has (shadow_desired_mask (tdma_shadow_update 7000 (idle_esb\<lparr>shadow_live_evidence_mask := 2,
     shadow_last_seen_ms := (replicate 16 0)[1 := 3000]\<rparr>))) 1"
proof -
  let ?st = "idle_esb\<lparr>shadow_live_evidence_mask := 2, shadow_last_seen_ms := (replicate 16 0)[1 := 3000]\<rparr>"
  have h: "3 = min (stored_trackers ?st) MAX_TRACKERS" by (simp add: idle_esb_def)
  have "stays 7000 (tdma_active_mask ?st) (shadow_live_evidence_mask ?st) (shadow_desired_mask ?st)
      (shadow_last_seen_ms ?st) 1" by code_simp
  with tdma_membership_exact [OF h, of 7000 1] show ?thesis by simp
qed

text \<open>
  A membership change is not left waiting: when the owner's wait computes to zero
  although a change is due, then the publishing pass at that moment is held back by no timer, and
  if the members changed it publishes exactly the desired ones. (The clock does not run
  backwards, and the deadline is not exactly half the range of the counter away.)
\<close>

theorem tdma_wait_over_publishes:
  assumes wait: "tdma_membership_wait_ms now maximum st = 0" "maximum \<noteq> 0" and armed: "membership_deadline_armed st"
    and clock: "tdma_last_reconfig_time st \<le> now"
      "sint (membership_deadline_ms st - of_int now) \<noteq> - (2 ^ 31)"
    and m: "m = recalc_mask (recalc_merge False True now st)" "m \<noteq> tdma_active_mask st"
  shows "\<exists>st'. recalc_pass p False True now st = RecalcDone st' \<and> tdma_active_mask st' = m"
proof -
  define cohort where "cohort = sint (membership_deadline_ms st - of_int now)"
  define gap where "gap = (if tdma_last_reconfig_valid st then 1000 - (now - tdma_last_reconfig_time st) else 0)"
  define st1 where "st1 = recalc_merge False True now st"
  define st2 where "st2 = recalc_level p True st1"
  have "cohort < 2 ^ 31" unfolding cohort_def using sint_lt [of "membership_deadline_ms st - of_int now"] by simp
  moreover have "gap \<le> 1000" using clock(1) by (simp add: gap_def)
  ultimately have small: "max cohort gap < 2 ^ 32" by simp
  have "\<not> 0 < max cohort gap"
  proof
    assume pos: "0 < max cohort gap"
    have "uint (of_int (max cohort gap) :: u32) = max cohort gap"
      using pos small by (simp add: uint_word_of_int)
    then have "(of_int (max cohort gap) :: u32) \<noteq> 0" using pos by (metis less_irrefl unsigned_0)
    moreover have "min maximum (of_int (max cohort gap)) = 0"
      using wait(1) armed pos by (simp add: tdma_membership_wait_ms_def Let_def cohort_def gap_def)
    ultimately show False using wait(2) by (simp add: min_def split: if_splits)
  qed
  then have le: "cohort \<le> 0" "gap \<le> 0" by simp_all
  have "sint (of_int now - membership_deadline_ms st) = - cohort"
    unfolding cohort_def using clock(2) by (intro sint_diff_swap) simp
  then have g1: "\<not> (membership_deadline_armed st2 \<and> sint (of_int now - membership_deadline_ms st2) < 0)"
    using le(1) merge_deadline [OF armed, of False True now] by (auto simp: st2_def st1_def)
  have g2: "\<not> (tdma_last_reconfig_valid st2 \<and> now - tdma_last_reconfig_time st2 < 1000)"
    using le(2) by (auto simp: st2_def st1_def gap_def split: if_splits)
  have "recalc_pass p False True now st =
      RecalcDone (tdma_publish m (member_count m (stored_trackers st1))
        (tdma_slot_ticks_for (member_count m (stored_trackers st1)) st2) now st2)"
    using m(2) g1 g2 unfolding recalc_pass_def Let_def st1_def [symmetric] m(1) [folded st1_def, symmetric]
    by (auto simp: st2_def st1_def)
  then show ?thesis by (simp add: publish_fields)
qed

theorem tdma_wait_over_publishes_witness:
  "let st = joining_esb\<lparr>membership_deadline_armed := True, membership_deadline_ms := 1101,
       shadow_live_evidence_mask := 5, shadow_last_seen_ms := replicate 16 1000\<rparr>
   in \<exists>st'. recalc_pass no_peers False True 1200 st = RecalcDone st' \<and>
      tdma_active_mask st' = recalc_mask (recalc_merge False True 1200 st)"
proof -
  let ?st = "joining_esb\<lparr>membership_deadline_armed := True, membership_deadline_ms := 1101,
       shadow_live_evidence_mask := 5, shadow_last_seen_ms := replicate 16 1000\<rparr>"
  have sn: "sint (1101 - of_int 1200 :: u32) = - 99" by code_simp
  have wait: "tdma_membership_wait_ms 1200 5 ?st = 0"
    using sn by (simp add: tdma_membership_wait_ms_def joining_esb_def idle_esb_def Let_def)
  have f: "3 = min (stored_trackers ?st) MAX_TRACKERS" "tdma_active_mask ?st = 0"
    "tdma_last_reconfig_time ?st = 0" "tdma_last_reconfig_valid ?st = False"
    by (simp_all add: joining_esb_def idle_esb_def)
  have "stays 1200 0 5 5 (replicate 16 1000) 0" by code_simp
  then have "mask_has (shadow_desired_mask (tdma_shadow_update 1200 ?st)) 0"
    using merge_desired_iff [OF f(1), of 1200 0] by (simp add: joining_esb_def idle_esb_def)
  then have "mask_has (recalc_mask (recalc_merge False True 1200 ?st)) 0"
    by (simp add: recalc_merge_def tdma_shadow_update_def recalc_mask_def joining_esb_def idle_esb_def)
  then have ne: "recalc_mask (recalc_merge False True 1200 ?st) \<noteq> tdma_active_mask ?st"
    using f(2) by (metis mask_has_zero)
  from tdma_wait_over_publishes [OF wait _ _ _ _ refl ne] f sn show ?thesis by (simp add: Let_def)
qed

end
