(* ===== verification/PacketSequence.thy ===== *)
theory PacketSequence
  imports Tdma
begin

text \<open>
  What \<open>esb.c\<close> concludes from the sequence numbers of the packets of a tracker:
  \<open>check_packet_sequence\<close> for the 8 bit numbers of ordinary packets, the statistics and the
  loss evidence it keeps, and \<open>raw_arq_process_isr\<close> for the 16 bit numbers of raw data, with its
  queue of missing packets and the request for their repetition. Also the lookup of a tracker by
  address.
\<close>

section \<open>Ordinary packets\<close>

definition update_slot :: "nat \<Rightarrow> (tracker_slot \<Rightarrow> tracker_slot) \<Rightarrow> esb \<Rightarrow> esb" where
  "update_slot t f st = st\<lparr>tracker_slots := (tracker_slots st)[t := f (tracker_slots st ! t)]\<rparr>"

definition tps_update :: "int \<Rightarrow> packet_stats \<Rightarrow> packet_stats" where
  "tps_update now s =
     (let s1 = (if last_tps_time s = 0 then s\<lparr>last_tps_time := now, packets_in_last_second := 0\<rparr>
                else if 1000 \<le> (now - last_tps_time s) mod 2 ^ 64
                then s\<lparr>current_tps := packets_in_last_second s, packets_in_last_second := 0, last_tps_time := now\<rparr>
                else s)
      in s1\<lparr>packets_in_last_second := packets_in_last_second s1 + 1, last_packet_time := now\<rparr>)"

definition accept_normal :: "u8 \<Rightarrow> packet_stats \<Rightarrow> packet_stats" where
  "accept_normal seq s =
     s\<lparr>total_received := total_received s + 1, normal_packets := normal_packets s + 1,
       last_sequence := ucast seq, status_received := status_received s + 1\<rparr>"

definition check_packet_sequence :: "nat \<Rightarrow> u8 \<Rightarrow> int \<Rightarrow> esb \<Rightarrow> nat \<times> esb" where
  "check_packet_sequence t seq now st =
     (if MAX_TRACKERS \<le> t then (2, st)
      else
        let st1 = update_slot t (\<lambda>s. s\<lparr>slot_stats := tps_update now (slot_stats s)\<rparr>) st;
            slot = tracker_slots st1 ! t; last = last_packet_sequence slot
        in if \<not> sequence_initialized slot then
             (0, decision_accept t 0 (update_slot t (\<lambda>s. s\<lparr>last_packet_sequence := seq,
                sequence_initialized := True,
                slot_stats := (accept_normal seq (slot_stats s))\<lparr>first_packet := False\<rparr>\<rparr>) st1))
           else if seq = last + 1 then
             (0, decision_accept t 0 (update_slot t (\<lambda>s. s\<lparr>last_packet_sequence := seq,
                slot_stats := accept_normal seq (slot_stats s)\<rparr>) st1))
           else
             let forward = seq - last; backward = last - seq
             in if forward = 0 then
                  (4, update_slot t (\<lambda>s. s\<lparr>slot_stats := (slot_stats s)\<lparr>duplicate_packets :=
                     duplicate_packets (slot_stats s) + 1\<rparr>\<rparr>) st1)
                else if 0 < backward \<and> backward < 64 then
                  (2, update_slot t (\<lambda>s. s\<lparr>slot_stats := (slot_stats s)\<lparr>out_of_order :=
                     out_of_order (slot_stats s) + 1\<rparr>\<rparr>) st1)
                else if 80 < forward then
                  (3, (update_slot t (\<lambda>s. s\<lparr>last_packet_sequence := seq,
                       slot_stats := (slot_stats s)\<lparr>total_received := total_received (slot_stats s) + 1,
                         restart_events := restart_events (slot_stats s) + 1, last_sequence := ucast seq,
                         status_received := status_received (slot_stats s) + 1\<rparr>\<rparr>)
                     (st1\<lparr>decision_ready_mask := unset_bit t (decision_ready_mask st1),
                          decision_fence_mask := set_bit t (decision_fence_mask st1)\<rparr>)))
                else if 0 < forward \<and> forward \<le> 80 then
                  let gaps = forward - 1
                  in (1, update_slot t (\<lambda>s. s\<lparr>last_packet_sequence := seq,
                           slot_stats := (slot_stats s)\<lparr>last_sequence := ucast seq\<rparr>\<rparr>)
                       (decision_accept t gaps
                         (update_slot t (\<lambda>s. s\<lparr>slot_stats := (slot_stats s)\<lparr>
                            total_received := total_received (slot_stats s) + 1,
                            gap_events := gap_events (slot_stats s) + 1,
                            total_gaps := total_gaps (slot_stats s) + ucast gaps,
                            status_received := status_received (slot_stats s) + 1,
                            status_lost := status_lost (slot_stats s) + ucast gaps\<rparr>\<rparr>) st1)))
                else (4, update_slot t (\<lambda>s. s\<lparr>slot_stats := (slot_stats s)\<lparr>duplicate_packets :=
                     duplicate_packets (slot_stats s) + 1\<rparr>\<rparr>) st1))"

definition esb_find_tracker :: "u64 \<Rightarrow> esb \<Rightarrow> nat option" where
  "esb_find_tracker addr st =
     (if addr = 0 then None
      else find_index (\<lambda>a. a = addr) (take (min (stored_trackers st) MAX_TRACKERS) (stored_tracker_addr st)))"

section \<open>Raw data\<close>

abbreviation (input) RAW_ARQ_MAX_GAPS :: nat where "RAW_ARQ_MAX_GAPS \<equiv> 8"
abbreviation (input) RAW_ARQ_MARKER :: u8 where "RAW_ARQ_MARKER \<equiv> 0xAA"
abbreviation (input) RAW_ARQ_STALE_DISTANCE :: u16 where "RAW_ARQ_STALE_DISTANCE \<equiv> 96"

record raw_arq =
  raw_expected_seq :: u16
  raw_seq_initialized :: bool
  raw_gap_queue :: "u16 list"
  raw_gap_count :: nat
  raw_gaps_detected :: u32
  raw_retransmits_received :: u32

definition raw_arq_boot :: raw_arq where
  "raw_arq_boot = \<lparr>raw_expected_seq = 0, raw_seq_initialized = False, raw_gap_queue = replicate RAW_ARQ_MAX_GAPS 0,
     raw_gap_count = 0, raw_gaps_detected = 0, raw_retransmits_received = 0\<rparr>"

text \<open>The three loops over the array of gaps: appending, swap and delete, and eviction.\<close>

fun raw_add_gaps :: "u16 \<Rightarrow> nat \<Rightarrow> nat \<Rightarrow> raw_arq \<Rightarrow> raw_arq" where
  "raw_add_gaps expected i 0 r = r"
| "raw_add_gaps expected i (Suc k) r =
     raw_add_gaps expected (Suc i) k (r\<lparr>raw_gap_queue := (raw_gap_queue r)[raw_gap_count r := expected + of_nat i],
       raw_gap_count := raw_gap_count r + 1\<rparr>)"

fun raw_remove_gap :: "u16 \<Rightarrow> nat list \<Rightarrow> raw_arq \<Rightarrow> raw_arq" where
  "raw_remove_gap seq [] r = r"
| "raw_remove_gap seq (i # is) r =
     (if raw_gap_queue r ! i = seq
      then r\<lparr>raw_gap_queue := (raw_gap_queue r)[i := raw_gap_queue r ! (raw_gap_count r - 1)],
             raw_gap_count := raw_gap_count r - 1,
             raw_retransmits_received := raw_retransmits_received r + 1\<rparr>
      else raw_remove_gap seq is r)"

definition raw_evict :: "u16 \<Rightarrow> nat list \<Rightarrow> u16 list \<times> nat \<Rightarrow> u16 list \<times> nat" where
  "raw_evict cur = compact_loop (\<lambda>g. cur - g < RAW_ARQ_STALE_DISTANCE)"

definition raw_update :: "u16 \<Rightarrow> raw_arq \<Rightarrow> raw_arq" where
  "raw_update seq r =
     (let diff = sint (seq - raw_expected_seq r)
      in if diff = 0 then r\<lparr>raw_expected_seq := seq + 1\<rparr>
         else if 0 < diff \<and> diff \<le> 100 then
           let to_add = min (nat diff) (RAW_ARQ_MAX_GAPS - raw_gap_count r);
               r1 = raw_add_gaps (raw_expected_seq r) 0 to_add r
           in r1\<lparr>raw_gaps_detected := raw_gaps_detected r1 + of_int diff, raw_expected_seq := seq + 1\<rparr>
         else if diff < 0 \<and> - 100 < diff then raw_remove_gap seq [0..<raw_gap_count r] r
         else r\<lparr>raw_expected_seq := seq + 1, raw_gap_count := 0\<rparr>)"

definition raw_ack :: "zephyr \<Rightarrow> raw_arq \<Rightarrow> bytes option" where
  "raw_ack z r =
     (if 0 < raw_gap_count r
      then Some ([RAW_ARQ_MARKER, of_nat (raw_gap_count r)] @
        concat (map (put_be16 z) (take (raw_gap_count r) (raw_gap_queue r))))
      else None)"

definition raw_arq_process_isr :: "zephyr \<Rightarrow> u16 \<Rightarrow> raw_arq \<Rightarrow> bytes option \<times> raw_arq" where
  "raw_arq_process_isr z seq r =
     (if \<not> raw_seq_initialized r then (None, r\<lparr>raw_expected_seq := seq + 1, raw_seq_initialized := True\<rparr>)
      else
        let r1 = raw_update seq r;
            (q, w) = raw_evict (raw_expected_seq r1) [0..<raw_gap_count r1] (raw_gap_queue r1, 0);
            r2 = r1\<lparr>raw_gap_queue := q, raw_gap_count := w\<rparr>
        in (raw_ack z r2, r2))"

definition raw_arq_reset :: "raw_arq \<Rightarrow> raw_arq" where
  "raw_arq_reset r =
     r\<lparr>raw_seq_initialized := False, raw_gap_count := 0, raw_gaps_detected := 0, raw_retransmits_received := 0\<rparr>"

end
