(* ===== verification/PacketSequenceCorrect.thy ===== *)
theory PacketSequenceCorrect
  imports PacketSequence TdmaCorrect "HOL-Library.Multiset"
begin

text \<open>
  The queue of missing raw packets against a set of sequence numbers, and the balance that the
  statistics of ordinary packets keep with the last sequence number.
\<close>

section \<open>The queue of missing raw packets\<close>

definition gaps :: "raw_arq \<Rightarrow> u16 list" where
  "gaps r = take (raw_gap_count r) (raw_gap_queue r)"

lemma gaps_frame [simp]:
  "gaps (r\<lparr>raw_expected_seq := e\<rparr>) = gaps r" "gaps (r\<lparr>raw_gaps_detected := n\<rparr>) = gaps r"
  "gaps (r\<lparr>raw_seq_initialized := b\<rparr>) = gaps r"
  by (simp_all add: gaps_def)

definition raw_ok :: "raw_arq \<Rightarrow> bool" where
  "raw_ok r \<longleftrightarrow> length (raw_gap_queue r) = RAW_ARQ_MAX_GAPS \<and> raw_gap_count r \<le> RAW_ARQ_MAX_GAPS \<and>
     distinct (gaps r) \<and>
     (\<forall>g\<in>set (gaps r). raw_expected_seq r - g \<noteq> 0 \<and> raw_expected_seq r - g < RAW_ARQ_STALE_DISTANCE)"

lemma length_gaps: "raw_ok r \<Longrightarrow> length (gaps r) = raw_gap_count r"
  by (simp add: raw_ok_def gaps_def)

lemma raw_add_gaps_gaps:
  "raw_gap_count r + k \<le> length (raw_gap_queue r) \<Longrightarrow>
     gaps (raw_add_gaps e i k r) = gaps r @ map (\<lambda>j. e + of_nat j) [i..<i + k] \<and>
     raw_gap_count (raw_add_gaps e i k r) = raw_gap_count r + k \<and>
     length (raw_gap_queue (raw_add_gaps e i k r)) = length (raw_gap_queue r)"
proof (induction k arbitrary: i r)
  case (Suc k)
  have "gaps (r\<lparr>raw_gap_queue := (raw_gap_queue r)[raw_gap_count r := e + of_nat i],
      raw_gap_count := raw_gap_count r + 1\<rparr>) = gaps r @ [e + of_nat i]"
    using Suc.prems by (simp add: gaps_def take_Suc_conv_app_nth)
  with Suc.IH [of "r\<lparr>raw_gap_queue := (raw_gap_queue r)[raw_gap_count r := e + of_nat i],
      raw_gap_count := raw_gap_count r + 1\<rparr>" "Suc i"] Suc.prems show ?case
    by (simp add: upt_conv_Cons del: upt_Suc)
qed simp

lemma swap_delete_mset:
  assumes "i < n" and "n \<le> length q"
  shows "mset (take (n - 1) (q[i := q ! (n - 1)])) = mset (take n q) - {#q ! i#}"
proof -
  obtain m where n: "n = Suc m" using assms by (cases n) auto
  have t: "take n q = take m q @ [q ! m]" using assms by (simp add: n take_Suc_conv_app_nth)
  show ?thesis
  proof (cases "i = m")
    case True
    then show ?thesis using t by (simp add: n)
  next
    case False
    then have i: "i < length (take m q)" using assms n by simp
    have "take m (q[i := q ! m]) = (take m q)[i := q ! m]" by (simp add: take_update_swap)
    moreover have "q ! i \<in># mset (take m q)" using nth_mem [OF i] i by simp
    ultimately show ?thesis
      using i t assms by (simp add: n mset_update diff_union_swap2)
  qed
qed

lemma raw_remove_gap_loop:
  "\<forall>i\<in>set is. i < raw_gap_count r \<Longrightarrow> raw_gap_count r \<le> length (raw_gap_queue r) \<Longrightarrow>
     (let r' = raw_remove_gap seq is r in
      (r' = r \<and> (\<forall>i\<in>set is. raw_gap_queue r ! i \<noteq> seq)) \<or>
      (mset (gaps r') = mset (gaps r) - {#seq#} \<and> seq \<in> set (gaps r) \<and>
       raw_gap_count r' = raw_gap_count r - 1 \<and> length (raw_gap_queue r') = length (raw_gap_queue r) \<and>
       raw_expected_seq r' = raw_expected_seq r))"
proof (induction seq "is" r rule: raw_remove_gap.induct)
  case (2 seq i "is" r)
  show ?case
  proof (cases "raw_gap_queue r ! i = seq")
    case True
    then have "seq \<in> set (gaps r)" using 2 by (force simp: gaps_def in_set_conv_nth)
    with True 2 swap_delete_mset [of i "raw_gap_count r" "raw_gap_queue r"] show ?thesis
      by (simp add: gaps_def Let_def)
  qed (use 2 in \<open>auto simp: Let_def\<close>)
qed simp

lemma raw_remove_gap_set:
  assumes "distinct (gaps r)" and "raw_gap_count r \<le> length (raw_gap_queue r)"
    and "r' = raw_remove_gap seq [0..<raw_gap_count r] r"
  shows "set (gaps r') = set (gaps r) - {seq} \<and> distinct (gaps r') \<and> raw_gap_count r' \<le> raw_gap_count r \<and>
    length (raw_gap_queue r') = length (raw_gap_queue r) \<and> raw_expected_seq r' = raw_expected_seq r"
proof -
  from raw_remove_gap_loop [of "[0..<raw_gap_count r]" r seq] assms(2,3)
  consider "r' = r" "seq \<notin> set (gaps r)"
    | "mset (gaps r') = mset (remove1 seq (gaps r))" "raw_gap_count r' = raw_gap_count r - 1"
      "length (raw_gap_queue r') = length (raw_gap_queue r)" "raw_expected_seq r' = raw_expected_seq r"
    by (auto simp: Let_def gaps_def in_set_conv_nth)
  then show ?thesis
  proof cases
    case 2
    then have "set (gaps r') = set (remove1 seq (gaps r))" "distinct (gaps r') = distinct (remove1 seq (gaps r))"
      by (metis set_mset_mset, metis mset_eq_imp_distinct_iff)
    with 2 assms(1) show ?thesis by (simp add: distinct_remove1)
  qed (use assms in auto)
qed

lemma raw_evict_gaps:
  assumes "n \<le> length q"
  shows "raw_evict cur [0..<n] (q, 0) = (let f = filter (\<lambda>g. cur - g < RAW_ARQ_STALE_DISTANCE) (take n q)
    in (f @ drop (length f) q, length f))"
  using compact_loop_filter [of 0 0 n q "\<lambda>g. cur - g < RAW_ARQ_STALE_DISTANCE"] assms
  by (simp add: raw_evict_def)

text \<open>What the packets before \<open>seq\<close> that are missing are, as far as the queue has room.\<close>

definition missing :: "raw_arq \<Rightarrow> u16 \<Rightarrow> u16 list" where
  "missing r seq = map (\<lambda>i. raw_expected_seq r + of_nat i)
     [0..<min (nat (sint (seq - raw_expected_seq r))) (RAW_ARQ_MAX_GAPS - raw_gap_count r)]"

definition wanted :: "raw_arq \<Rightarrow> u16 \<Rightarrow> u16 set" where
  "wanted r seq = (let diff = sint (seq - raw_expected_seq r) in
     if diff = 0 then set (gaps r)
     else if 0 < diff \<and> diff \<le> 100 then set (gaps r) \<union> set (missing r seq)
     else if diff < 0 \<and> - 100 < diff then set (gaps r) - {seq}
     else {})"

definition next_expected :: "raw_arq \<Rightarrow> u16 \<Rightarrow> u16" where
  "next_expected r seq = (let diff = sint (seq - raw_expected_seq r) in
     if diff < 0 \<and> - 100 < diff then raw_expected_seq r else seq + 1)"

lemma missing_apart:
  assumes ok: "raw_ok r"
  shows "distinct (missing r seq)" and "set (missing r seq) \<inter> set (gaps r) = {}"
proof -
  have inj: "(of_nat i :: u16) = of_nat j \<longleftrightarrow> i = j" if "i < 8" "j < 8" for i j :: nat
    using that by (auto simp: word_unat_eq_iff unat_of_nat)
  then show "distinct (missing r seq)"
    by (auto simp: missing_def distinct_map inj_on_def)
  have False if g: "g = raw_expected_seq r + of_nat i" "i < 8" "g \<in> set (gaps r)" for g and i :: nat
  proof -
    have "raw_expected_seq r - g = - of_nat i" using g by simp
    then have "- (of_nat i :: u16) \<noteq> 0" "- (of_nat i :: u16) < 96" using ok g by (auto simp: raw_ok_def)
    moreover have "i \<in> {0, 1, 2, 3, 4, 5, 6, 7}" using g(2) by auto
    ultimately show False by (elim insertE) simp_all
  qed
  then show "set (missing r seq) \<inter> set (gaps r) = {}" by (force simp: missing_def)
qed

lemma raw_update_spec:
  assumes ok: "raw_ok r" and r1: "r1 = raw_update seq r"
  shows "set (gaps r1) = wanted r seq \<and> distinct (gaps r1) \<and> raw_gap_count r1 \<le> RAW_ARQ_MAX_GAPS \<and>
    length (raw_gap_queue r1) = RAW_ARQ_MAX_GAPS \<and> raw_expected_seq r1 = next_expected r seq"
proof -
  define diff where "diff = sint (seq - raw_expected_seq r)"
  have rok: "length (raw_gap_queue r) = 8" "raw_gap_count r \<le> 8" "distinct (gaps r)" using ok by (simp_all add: raw_ok_def)
  consider "diff = 0" | "0 < diff" "diff \<le> 100" | "diff < 0" "- 100 < diff" | "\<not> (diff \<noteq> 0 \<longrightarrow> - 100 < diff \<and> diff \<le> 100)"
    by linarith
  then show ?thesis
  proof cases
    case 1
    then show ?thesis using r1 rok
      by (simp add: raw_update_def wanted_def next_expected_def diff_def [symmetric] gaps_def)
  next
    case 2
    define k where "k = min (nat diff) (8 - raw_gap_count r)"
    have "raw_gap_count r + k \<le> length (raw_gap_queue r)" using rok by (simp add: k_def)
    note add = raw_add_gaps_gaps [OF this, of "raw_expected_seq r" 0]
    have m: "missing r seq = map (\<lambda>i. raw_expected_seq r + of_nat i) [0..<k]"
      by (simp add: missing_def k_def diff_def)
    have "gaps r1 = gaps r @ missing r seq" "raw_gap_count r1 = raw_gap_count r + k"
      "length (raw_gap_queue r1) = 8" "raw_expected_seq r1 = seq + 1"
      using r1 add rok 2 m
      by (simp_all add: raw_update_def Let_def diff_def [symmetric] k_def [symmetric])
    then show ?thesis using missing_apart [OF ok, of seq] rok 2
      by (auto simp: wanted_def next_expected_def Let_def diff_def [symmetric] k_def)
  next
    case 3
    then have "r1 = raw_remove_gap seq [0..<raw_gap_count r] r"
      using r1 by (simp add: raw_update_def Let_def diff_def [symmetric])
    from raw_remove_gap_set [OF rok(3) _ this] rok 3 show ?thesis
      by (simp add: wanted_def next_expected_def Let_def diff_def [symmetric])
  next
    case 4
    then show ?thesis using r1 rok
      by (auto simp: raw_update_def wanted_def next_expected_def Let_def diff_def [symmetric] gaps_def)
  qed
qed

lemma raw_process_spec:
  assumes ok: "raw_ok r" and init: "raw_seq_initialized r" and r': "r' = snd (raw_arq_process_isr z seq r)"
  shows "set (gaps r') = {g \<in> wanted r seq. next_expected r seq - g < RAW_ARQ_STALE_DISTANCE} \<and>
    distinct (gaps r') \<and> raw_gap_count r' \<le> RAW_ARQ_MAX_GAPS \<and>
    length (raw_gap_queue r') = RAW_ARQ_MAX_GAPS \<and> raw_expected_seq r' = next_expected r seq"
proof -
  define r1 where "r1 = raw_update seq r"
  note u = raw_update_spec [OF ok r1_def]
  define f where "f = filter (\<lambda>g. raw_expected_seq r1 - g < RAW_ARQ_STALE_DISTANCE) (gaps r1)"
  have n: "raw_gap_count r1 \<le> length (raw_gap_queue r1)" using u by simp
  have f: "length f \<le> raw_gap_count r1" using length_filter_le [of _ "gaps r1"] n by (simp add: f_def gaps_def)
  have ev: "raw_evict (raw_expected_seq r1) [0..<raw_gap_count r1] (raw_gap_queue r1, 0) =
      (f @ drop (length f) (raw_gap_queue r1), length f)"
    using raw_evict_gaps [OF n] by (simp add: Let_def f_def gaps_def)
  have "r' = r1\<lparr>raw_gap_queue := f @ drop (length f) (raw_gap_queue r1), raw_gap_count := length f\<rparr>"
    using init ev r' by (simp add: raw_arq_process_isr_def Let_def r1_def [symmetric])
  then have "gaps r' = f" "raw_gap_count r' = length f" "length (raw_gap_queue r') = 8"
    "raw_expected_seq r' = raw_expected_seq r1"
    using u f by (simp_all add: gaps_def)
  then show ?thesis using u f by (auto simp: f_def)
qed

lemma of_nat_u16_nonzero: "0 < n \<Longrightarrow> n < 65536 \<Longrightarrow> (of_nat n :: u16) \<noteq> 0"
  by (auto simp: word_unat_eq_iff unat_of_nat)

text \<open>The next expected packet is never one of the missing ones.\<close>

lemma not_expected:
  assumes ok: "raw_ok r" and g: "g \<in> wanted r seq"
  shows "next_expected r seq - g \<noteq> 0"
proof -
  define e where "e = raw_expected_seq r"
  define d where "d = sint (seq - e)"
  have nxt: "next_expected r seq = (if d < 0 \<and> - 100 < d then e else e + of_int d + 1)"
    by (simp add: next_expected_def Let_def e_def [symmetric] d_def)
  have step: "e + of_int d + 1 - h \<noteq> 0" if h: "h \<in> set (gaps r)" and d: "0 \<le> d" "d \<le> 100" for h
  proof -
    have "unat (e - h) < 96" using ok h by (auto simp: raw_ok_def e_def word_less_nat_alt)
    moreover have "e + of_int d + 1 - h = of_nat (nat d + 1 + unat (e - h))"
      using d by (simp add: algebra_simps)
    ultimately show ?thesis using d by (simp only:) (rule of_nat_u16_nonzero; simp)
  qed
  have fresh: "e + of_int d + 1 - (e + of_nat i) \<noteq> 0" if "i < nat d" "d \<le> 100" for i
  proof -
    have "e + of_int d + 1 - (e + of_nat i) = of_nat (nat d + 1 - i)"
      using that by (simp add: of_nat_diff algebra_simps)
    then show ?thesis using that by (simp only:) (rule of_nat_u16_nonzero; simp)
  qed
  consider "d = 0" "g \<in> set (gaps r)" | i where "0 < d" "d \<le> 100" "i < nat d" "g = e + of_nat i"
    | "0 < d" "d \<le> 100" "g \<in> set (gaps r)" | "d < 0" "- 100 < d" "g \<in> set (gaps r)"
    using g by (auto simp: wanted_def missing_def Let_def e_def [symmetric] d_def [symmetric] split: if_splits)
  then show ?thesis
  proof cases
    case 1
    then show ?thesis using step [of g] by (simp add: nxt)
  next
    case (2 i)
    then show ?thesis using fresh [of i] by (simp add: nxt del: add_diff_eq)
  next
    case 3
    then show ?thesis using step [of g] by (simp add: nxt)
  next
    case 4
    then show ?thesis using ok by (simp add: nxt e_def raw_ok_def)
  qed
qed

lemma raw_process_ok:
  assumes "raw_ok r" and "raw_seq_initialized r"
  shows "raw_ok (snd (raw_arq_process_isr z seq r))"
  using raw_process_spec [OF assms refl, of z seq] not_expected [OF assms(1), of _ seq]
  by (auto simp: raw_ok_def)

section \<open>Properties of the raw data queue\<close>

text \<open>
  Claim C9. The queue of missing raw packets is exact: after a packet \<open>seq\<close> in a running
  session, the missing packets are those that were missing before and still are (a repetition strikes
  itself off, a forward jump of up to 100 adds the packets jumped over as far as the eight
  places reach, a larger jump starts afresh), without those that are 96 or more behind, which the
  tracker no longer keeps. No packet is listed twice, and the request in the acknowledgement
  lists exactly the missing ones, in big endian, or is absent when none is missing.
\<close>

theorem raw_arq_requests_exact:
  assumes ok: "raw_ok r" and init: "raw_seq_initialized r" and p: "raw_arq_process_isr z seq r = (ack, r')"
  shows "set (gaps r') = {g \<in> wanted r seq. next_expected r seq - g < RAW_ARQ_STALE_DISTANCE} \<and>
    raw_ok r' \<and>
    ack = (if gaps r' = [] then None
           else Some ([RAW_ARQ_MARKER, of_nat (length (gaps r'))] @ concat (map (put_be16 z) (gaps r'))))"
proof -
  have r': "r' = snd (raw_arq_process_isr z seq r)" using p by simp
  have "raw_ok r'" using raw_process_ok [OF ok init] r' by simp
  moreover have "ack = raw_ack z r'"
    using p init by (auto simp: raw_arq_process_isr_def Let_def split: prod.splits)
  ultimately show ?thesis
    using raw_process_spec [OF ok init r'] length_gaps [of r'] by (auto simp: raw_ack_def gaps_def)
qed

definition sample_raw :: raw_arq where
  "sample_raw = raw_arq_boot\<lparr>raw_expected_seq := 65534, raw_seq_initialized := True\<rparr>"

theorem raw_arq_requests_exact_witness:
  "fst (raw_arq_process_isr std_zephyr 1 sample_raw) =
     Some [RAW_ARQ_MARKER, 3, 0xFF, 0xFE, 0xFF, 0xFF, 0, 0] \<and>
   set (gaps (snd (raw_arq_process_isr std_zephyr 1 sample_raw))) = {65534, 65535, 0}"
proof -
  let ?p = "raw_arq_process_isr std_zephyr 1 sample_raw"
  have ok: "raw_ok sample_raw" by (simp add: raw_ok_def sample_raw_def raw_arq_boot_def gaps_def)
  have init: "raw_seq_initialized sample_raw" by (simp add: sample_raw_def)
  have g: "gaps (snd ?p) = [65534, 65535, 0]" by code_simp
  have "concat (map (put_be16 std_zephyr) [65534, 65535, 0]) = [0xFF, 0xFE, 0xFF, 0xFF, 0, 0]" by code_simp
  with raw_arq_requests_exact [OF ok init, of std_zephyr 1 "fst ?p" "snd ?p"] g show ?thesis by simp
qed

section \<open>The balance of received and lost packets\<close>

lemma ucast_u8_add: "(ucast (x + y :: u32) :: u8) = ucast x + ucast y"
proof -
  have "uint (x + y) mod 256 = (uint x mod 256 + uint y mod 256) mod 256"
    by (simp add: uint_word_ariths mod_mod_cancel mod_add_eq)
  then show ?thesis by (simp add: word_uint_eq_iff unsigned_ucast_eq take_bit_eq_mod uint_word_ariths)
qed

lemma ucast_u8_u32 [simp]: "(ucast (ucast (x :: u8) :: u32) :: u8) = x"
  by (rule bit_word_eqI) (simp add: bit_simps)

text \<open>How \<open>check_packet_sequence\<close> reads the distance to the last accepted number.\<close>

definition seq_class :: "tracker_slot \<Rightarrow> u8 \<Rightarrow> nat" where
  "seq_class s seq =
     (if \<not> sequence_initialized s then 0
      else let d = unat (seq - last_packet_sequence s)
           in if d = 0 then 4 else if d = 1 then 0 else if d \<le> 80 then 1 else if d \<le> 192 then 3 else 2)"

definition seq_jumped :: "tracker_slot \<Rightarrow> u8 \<Rightarrow> u8" where
  "seq_jumped s seq = (if sequence_initialized s then seq - last_packet_sequence s - 1 else 0)"

definition slot_counts :: "tracker_slot \<Rightarrow> u32 \<times> u32 \<times> u32 \<times> u32 \<times> u8 \<times> bool" where
  "slot_counts s = (total_received (slot_stats s), total_gaps (slot_stats s), decision_received s,
     decision_gaps s, last_packet_sequence s, sequence_initialized s)"

definition seq_counts :: "bool \<Rightarrow> u8 \<Rightarrow> tracker_slot \<Rightarrow> u32 \<times> u32 \<times> u32 \<times> u32 \<times> u8 \<times> bool" where
  "seq_counts fenced seq s =
     (let g = ucast (seq_jumped s seq)
      in if seq_class s seq \<le> 1
         then (total_received (slot_stats s) + 1, total_gaps (slot_stats s) + g,
               decision_received s + (if fenced then 0 else 1), decision_gaps s + (if fenced then 0 else g), seq, True)
         else if seq_class s seq = 3
         then (total_received (slot_stats s) + 1, total_gaps (slot_stats s), decision_received s, decision_gaps s, seq, True)
         else slot_counts s)"

lemma stats_tps_frame [simp]:
  "total_received (tps_update now s) = total_received s" "total_gaps (tps_update now s) = total_gaps s"
  by (simp_all add: tps_update_def Let_def)

lemma update_slot_nth [simp]:
  "t < length (tracker_slots st) \<Longrightarrow> tracker_slots (update_slot t f st) ! t = f (tracker_slots st ! t)"
  "u \<noteq> t \<Longrightarrow> tracker_slots (update_slot t f st) ! u = tracker_slots st ! u"
  "length (tracker_slots (update_slot t f st)) = length (tracker_slots st)"
  "decision_fence_mask (update_slot t f st) = decision_fence_mask st"
  "decision_ready_mask (update_slot t f st) = decision_ready_mask st"
  by (simp_all add: update_slot_def)

lemma decision_accept_slots [simp]:
  "t < length (tracker_slots st) \<Longrightarrow> tracker_slots (decision_accept t g st) ! t =
     (if mask_has (decision_fence_mask st) t then tracker_slots st ! t
      else (tracker_slots st ! t)\<lparr>decision_received := decision_received (tracker_slots st ! t) + 1,
        decision_gaps := decision_gaps (tracker_slots st ! t) + ucast g\<rparr>)"
  "u \<noteq> t \<Longrightarrow> tracker_slots (decision_accept t g st) ! u = tracker_slots st ! u"
  "length (tracker_slots (decision_accept t g st)) = length (tracker_slots st)"
  "decision_fence_mask (decision_accept t g st) = unset_bit t (decision_fence_mask st)"
  by (auto simp: decision_accept_def Let_def mask_has_def intro: bit_word_eqI simp: bit_simps)

lemma u8_backward:
  assumes "d \<noteq> (0 :: u8)"
  shows "unat (- d) = 256 - unat d"
  proof -
  have "unat (0 - d) = (if unat d \<le> 0 then 0 - unat d else 0 + 256 - unat d)"
    using unat_sub_if' [of 0 d] by simp
  then show ?thesis using assms by (simp add: unat_eq_0)
qed

lemma seq_step:
  assumes t: "t < MAX_TRACKERS" and len: "length (tracker_slots st) = MAX_TRACKERS"
    and r: "check_packet_sequence t seq now st = (code, st')"
  shows "code = seq_class (tracker_slots st ! t) seq"
    and "slot_counts (tracker_slots st' ! t) =
      seq_counts (mask_has (decision_fence_mask st) t) seq (tracker_slots st ! t)"
    and "decision_fence_mask st' =
      (if code \<le> 1 then unset_bit t (decision_fence_mask st)
       else if code = 3 then set_bit t (decision_fence_mask st) else decision_fence_mask st)"
    and "length (tracker_slots st') = MAX_TRACKERS"
    and "\<And>u. u \<noteq> t \<Longrightarrow> tracker_slots st' ! u = tracker_slots st ! u"
proof -
  let ?s = "tracker_slots st ! t"
  let ?last = "last_packet_sequence ?s"
  define d where "d = seq - ?last"
  have seq: "seq = ?last + d" by (simp add: d_def)
  have next_iff: "seq = ?last + 1 \<longleftrightarrow> d = 1" by (auto simp: seq)
  have neg: "?last - seq = - d" by (simp add: d_def)
  have t1: "t < length (tracker_slots st)" using t len by simp
  have cls: "sequence_initialized ?s \<Longrightarrow> seq_class ?s seq =
      (if unat d = 0 then 4 else if unat d = 1 then 0 else if unat d \<le> 80 then 1 else if unat d \<le> 192 then 3 else 2)"
    by (simp add: seq_class_def d_def Let_def)
  have jmp: "sequence_initialized ?s \<Longrightarrow> seq_jumped ?s seq = d - 1" by (simp add: seq_jumped_def d_def)
  note defs = check_packet_sequence_def accept_normal_def slot_counts_def seq_counts_def Let_def
  consider (first) "\<not> sequence_initialized ?s" | (same) "sequence_initialized ?s" "d = 0"
    | (one) "sequence_initialized ?s" "d = 1"
    | (gap) "sequence_initialized ?s" "d \<noteq> 0" "d \<noteq> 1" "0 < d" "d \<le> 80" "\<not> 80 < d" "\<not> (- d < 64)" "unat d \<le> 80" "1 < unat d"
    | (restart) "sequence_initialized ?s" "d \<noteq> 0" "d \<noteq> 1" "80 < d" "\<not> (- d < 64)" "80 < unat d" "unat d \<le> 192"
    | (old) "sequence_initialized ?s" "d \<noteq> 0" "d \<noteq> 1" "0 < - d" "- d < 64" "192 < unat d"
  proof -
    have d1: "d = 1" if "unat d = 1" using that by (simp add: word_unat_eq_iff)
    have lt: "unat d < 256" by simp
    have neq: "d \<noteq> 0 \<Longrightarrow> unat (- d) = 256 - unat d \<and> 0 < unat d"
      using u8_backward [of d] by (simp add: unat_gt_0)
    show ?thesis
    proof (cases "\<not> sequence_initialized ?s \<or> d = 0 \<or> d = 1")
      case True
      then show ?thesis using that(1-3) by blast
    next
      case False
      then have "1 < unat d" using neq d1 by (cases "unat d = 1") auto
      consider "unat d \<le> 80" | "80 < unat d" "unat d \<le> 192" | "192 < unat d" by linarith
      then show ?thesis
      proof cases
        case 1
        then show ?thesis using False neq \<open>1 < unat d\<close> by (intro that(4)) (simp_all add: word_less_nat_alt word_le_nat_alt)
      next
        case 2
        then show ?thesis using False neq \<open>1 < unat d\<close> by (intro that(5)) (simp_all add: word_less_nat_alt word_le_nat_alt)
      next
        case 3
        then show ?thesis using False neq lt \<open>1 < unat d\<close> by (intro that(6)) (simp_all add: word_less_nat_alt word_le_nat_alt)
      qed
    qed
  qed
  then have all: "code = seq_class ?s seq \<and> slot_counts (tracker_slots st' ! t) =
      seq_counts (mask_has (decision_fence_mask st) t) seq ?s \<and>
     decision_fence_mask st' =
      (if code \<le> 1 then unset_bit t (decision_fence_mask st)
       else if code = 3 then set_bit t (decision_fence_mask st) else decision_fence_mask st) \<and>
     length (tracker_slots st') = MAX_TRACKERS \<and> (u \<noteq> t \<longrightarrow> tracker_slots st' ! u = tracker_slots st ! u)" for u
  proof cases
    case first
    then show ?thesis using r t t1 len by (auto simp: defs seq_class_def seq_jumped_def)
  next
    case same
    then show ?thesis using r t t1 len cls jmp neg next_iff by (auto simp: defs d_def [symmetric])
  next
    case one
    then show ?thesis using r t t1 len cls jmp neg next_iff by (auto simp: defs d_def [symmetric])
  next
    case gap
    then show ?thesis using r t t1 len cls jmp neg next_iff by (auto simp: defs d_def [symmetric])
  next
    case restart
    then show ?thesis using r t t1 len cls jmp neg next_iff by (auto simp: defs d_def [symmetric])
  next
    case old
    then show ?thesis using r t t1 len cls jmp neg next_iff by (auto simp: defs d_def [symmetric])
  qed
  then show "code = seq_class ?s seq"
    and "slot_counts (tracker_slots st' ! t) = seq_counts (mask_has (decision_fence_mask st) t) seq ?s"
    and "decision_fence_mask st' =
      (if code \<le> 1 then unset_bit t (decision_fence_mask st)
       else if code = 3 then set_bit t (decision_fence_mask st) else decision_fence_mask st)"
    and "length (tracker_slots st') = MAX_TRACKERS"
    and "\<And>u. u \<noteq> t \<Longrightarrow> tracker_slots st' ! u = tracker_slots st ! u" by blast+
qed

section \<open>Properties of ordinary packets\<close>

text \<open>
  Claim C21. Packets are classified by the forward distance of their number from the last one
  accepted, modulo 256, and nothing else: distance 0 is a duplicate (4), 1 is the next packet (0),
  2 to 80 is a loss (1), 81 to 192 a restart of the tracker (3), and more is an old packet out of
  order (2). The last number moves to the new one exactly for the next packet, a loss and a
  restart; the first packet of a session is always accepted; no other tracker is touched.
\<close>

theorem packet_classification:
  assumes t: "t < MAX_TRACKERS" and len: "length (tracker_slots st) = MAX_TRACKERS"
    and r: "check_packet_sequence t seq now st = (code, st')"
    and d: "d = unat (seq - last_packet_sequence (tracker_slots st ! t))"
  shows "code = (if \<not> sequence_initialized (tracker_slots st ! t) \<or> d = 1 then 0 else if d = 0 then 4
       else if d \<le> 80 then 1 else if d \<le> 192 then 3 else 2) \<and>
     last_packet_sequence (tracker_slots st' ! t) =
       (if code \<in> {0, 1, 3} then seq else last_packet_sequence (tracker_slots st ! t)) \<and>
     (\<forall>u. u \<noteq> t \<longrightarrow> tracker_slots st' ! u = tracker_slots st ! u)"
proof -
  note step = seq_step [OF t len r]
  have c: "code = seq_class (tracker_slots st ! t) seq" by (rule step(1))
  then have "code = (if \<not> sequence_initialized (tracker_slots st ! t) \<or> d = 1 then 0 else if d = 0 then 4
       else if d \<le> 80 then 1 else if d \<le> 192 then 3 else 2)"
    by (simp add: seq_class_def Let_def d)
  moreover from this have "code \<in> {0, 1, 2, 3, 4}" by (simp split: if_splits)
  ultimately show ?thesis
    using step(2) step(5) c by (auto simp: slot_counts_def seq_counts_def Let_def)
qed

text \<open>A receiver whose tracker 1 is at number 250, with an open fence.\<close>

definition counting_esb :: esb where
  "counting_esb = idle_esb\<lparr>tracker_slots := (replicate 16 idle_esb_slot)
     [1 := idle_esb_slot\<lparr>last_packet_sequence := 250, sequence_initialized := True\<rparr>], decision_fence_mask := 0\<rparr>"

lemma counting_facts [simp]:
  "length (tracker_slots counting_esb) = 16" "last_packet_sequence (tracker_slots counting_esb ! 1) = 250"
  "sequence_initialized (tracker_slots counting_esb ! 1)" "\<not> mask_has (decision_fence_mask counting_esb) 1"
  by (simp_all add: counting_esb_def)

theorem packet_classification_witness:
  "fst (check_packet_sequence 1 2 9 counting_esb) = 1 \<and>
   last_packet_sequence (tracker_slots (snd (check_packet_sequence 1 2 9 counting_esb)) ! 1) = 2"
proof -
  have "unat (2 - 250 :: u8) = 8" by code_simp
  with packet_classification [of 1 counting_esb 2 9 "fst (check_packet_sequence 1 2 9 counting_esb)"
      "snd (check_packet_sequence 1 2 9 counting_esb)" 8] show ?thesis
    by (simp only: counting_facts) (simp del: One_nat_def)
qed

fun seq_run :: "nat \<Rightarrow> (u8 \<times> int) list \<Rightarrow> esb \<Rightarrow> nat list \<times> esb" where
  "seq_run t [] st = ([], st)"
| "seq_run t ((seq, now) # ps) st =
     (let (c, st1) = check_packet_sequence t seq now st; (cs, st2) = seq_run t ps st1 in (c # cs, st2))"

definition seq_balance :: "tracker_slot \<Rightarrow> u8" where
  "seq_balance s = ucast (total_received (slot_stats s) + total_gaps (slot_stats s)) - last_packet_sequence s"

lemma seq_counts_balance:
  assumes "slot_counts s' = seq_counts f seq s" and "sequence_initialized s" and "seq_class s seq \<noteq> 3"
  shows "seq_balance s' = seq_balance s" and "sequence_initialized s'"
  using assms
  by (auto simp: seq_balance_def seq_counts_def slot_counts_def seq_jumped_def Let_def ucast_u8_add
      split: if_splits)

lemma seq_counts_evidence:
  assumes "slot_counts s' = seq_counts False seq s" and "seq_class s seq \<noteq> 3"
  shows "decision_received s' - total_received (slot_stats s') = decision_received s - total_received (slot_stats s)"
    and "decision_gaps s' - total_gaps (slot_stats s') = decision_gaps s - total_gaps (slot_stats s)"
  using assms by (auto simp: seq_counts_def slot_counts_def Let_def split: if_splits)

text \<open>
  Claim C22. The loss statistics account for every sequence number: over any run of packets of a
  tracker in which no restart is detected, however they are duplicated, reordered or lost, the
  packets received and the packets counted as lost together advance exactly as the sequence
  number does, modulo 256. The evidence for automatic decisions grows by exactly the same packets
  and losses as the statistics, as long as no fence was put up before the run.
\<close>

theorem loss_accounting:
  assumes t: "t < MAX_TRACKERS" and len: "length (tracker_slots st) = MAX_TRACKERS"
    and init: "sequence_initialized (tracker_slots st ! t)"
    and open_fence: "\<not> mask_has (decision_fence_mask st) t"
    and run: "seq_run t ps st = (cs, st')" and no_restart: "3 \<notin> set cs"
  shows "ucast (total_received (slot_stats (tracker_slots st' ! t)) + total_gaps (slot_stats (tracker_slots st' ! t)))
        - last_packet_sequence (tracker_slots st' ! t) =
      (ucast (total_received (slot_stats (tracker_slots st ! t)) + total_gaps (slot_stats (tracker_slots st ! t)))
        - last_packet_sequence (tracker_slots st ! t) :: u8) \<and>
    decision_received (tracker_slots st' ! t) - decision_received (tracker_slots st ! t) =
      total_received (slot_stats (tracker_slots st' ! t)) - total_received (slot_stats (tracker_slots st ! t)) \<and>
    decision_gaps (tracker_slots st' ! t) - decision_gaps (tracker_slots st ! t) =
      total_gaps (slot_stats (tracker_slots st' ! t)) - total_gaps (slot_stats (tracker_slots st ! t))"
proof -
  let ?inv = "\<lambda>s s'. seq_balance s' = seq_balance s \<and>
    decision_received s' - total_received (slot_stats s') = decision_received s - total_received (slot_stats s) \<and>
    decision_gaps s' - total_gaps (slot_stats s') = decision_gaps s - total_gaps (slot_stats s)"
  have "?inv (tracker_slots st ! t) (tracker_slots st' ! t)"
    using len init open_fence run no_restart
  proof (induction ps arbitrary: st cs)
    case (Cons p ps)
    obtain seq now where p: "p = (seq, now)" by fastforce
    obtain c st1 where c: "check_packet_sequence t seq now st = (c, st1)" by fastforce
    obtain cs1 where cs1: "seq_run t ps st1 = (cs1, st')" "cs = c # cs1"
      using Cons.prems(4) by (auto simp: p c Let_def split: prod.splits)
    note step = seq_step [OF t Cons.prems(1) c]
    have "c \<noteq> 3" "3 \<notin> set cs1" using Cons.prems(5) cs1 by auto
    then have cls: "seq_class (tracker_slots st ! t) seq \<noteq> 3" using step(1) by simp
    have counts: "slot_counts (tracker_slots st1 ! t) = seq_counts False seq (tracker_slots st ! t)"
      using step(2) Cons.prems(3) by simp
    have "\<not> mask_has (decision_fence_mask st1) t" using step(3) Cons.prems(3) \<open>c \<noteq> 3\<close> by simp
    then have "?inv (tracker_slots st1 ! t) (tracker_slots st' ! t)"
      using Cons.IH [of st1 cs1] step(4) seq_counts_balance(2) [OF counts Cons.prems(2) cls] cs1 \<open>3 \<notin> set cs1\<close>
      by simp
    then show ?case
      using seq_counts_balance(1) [OF counts Cons.prems(2) cls] seq_counts_evidence [OF counts cls] by simp
  qed simp
  then show ?thesis by (simp add: seq_balance_def algebra_simps)
qed

lemma seq_step_view:
  assumes "length (tracker_slots st) = 16" and "sequence_initialized (tracker_slots st ! 1)"
  shows "fst (check_packet_sequence 1 q n st) = seq_class (tracker_slots st ! 1) q"
    and "length (tracker_slots (snd (check_packet_sequence 1 q n st))) = 16"
    and "sequence_initialized (tracker_slots (snd (check_packet_sequence 1 q n st)) ! 1)"
    and "last_packet_sequence (tracker_slots (snd (check_packet_sequence 1 q n st)) ! 1) =
        (if seq_class (tracker_slots st ! 1) q \<in> {0, 1, 3} then q else last_packet_sequence (tracker_slots st ! 1))"
proof -
  have t: "1 < MAX_TRACKERS" by simp
  note step = seq_step [OF t assms(1) surjective_pairing, where seq = q and now = n]
  show "fst (check_packet_sequence 1 q n st) = seq_class (tracker_slots st ! 1) q"
    and "length (tracker_slots (snd (check_packet_sequence 1 q n st))) = 16" by (rule step)+
  show "sequence_initialized (tracker_slots (snd (check_packet_sequence 1 q n st)) ! 1)"
    and "last_packet_sequence (tracker_slots (snd (check_packet_sequence 1 q n st)) ! 1) =
      (if seq_class (tracker_slots st ! 1) q \<in> {0, 1, 3} then q else last_packet_sequence (tracker_slots st ! 1))"
    using step(2) assms(2)
    by (auto simp: slot_counts_def seq_counts_def Let_def simp del: One_nat_def split: if_splits)
qed

theorem loss_accounting_witness:
  "let s = tracker_slots (snd (seq_run 1 [(251, 0), (251, 1), (254, 2), (253, 3), (255, 4)] counting_esb)) ! 1
   in (ucast (total_received (slot_stats s) + total_gaps (slot_stats s)) - last_packet_sequence s :: u8) = 6"
proof -
  let ?ps = "[(251, 0), (251, 1), (254, 2), (253, 3), (255, 4)]"
  let ?r = "seq_run 1 ?ps counting_esb"
  have w: "unat (- 1 :: u8) = 255" by code_simp
  have "3 \<notin> set (fst ?r)"
    by (simp add: seq_step_view split_beta Let_def seq_class_def w del: One_nat_def)
  with loss_accounting [of 1 counting_esb ?ps "fst ?r" "snd ?r"] show ?thesis
    by (simp add: Let_def del: One_nat_def seq_run.simps) (simp add: counting_esb_def idle_esb_slot_def)
qed

end
