(* ===== verification/LossController.thy ===== *)
theory LossController
  imports Tdma
begin

text \<open>
  The loss controller of \<open>esb.c\<close>, which once a second compares the loss evidence with its own
  snapshots, pools sparse seconds, and asks for a slower or a faster rung of the ladder of
  opportunity rates. The scheduler lock around it is \<open>tdma_loss_controller_tick\<close>; the log lines are
  left out. The stored default channel and the activity of the other components are arguments.
\<close>

abbreviation (input) TDMA_LOSS_TRIGGER_PERMILLE :: nat where "TDMA_LOSS_TRIGGER_PERMILLE \<equiv> 200"
abbreviation (input) TDMA_LOSS_TRIGGER_TICKS :: nat where "TDMA_LOSS_TRIGGER_TICKS \<equiv> 5"
abbreviation (input) TDMA_LOSS_RECOVER_PERMILLE :: nat where "TDMA_LOSS_RECOVER_PERMILLE \<equiv> 50"
abbreviation (input) TDMA_LOSS_RECOVER_TICKS :: nat where "TDMA_LOSS_RECOVER_TICKS \<equiv> 10"
abbreviation (input) TDMA_LOSS_PROBE_PERMILLE :: nat where "TDMA_LOSS_PROBE_PERMILLE \<equiv> 100"
abbreviation (input) TDMA_LOSS_PROBE_TICKS :: nat where "TDMA_LOSS_PROBE_TICKS \<equiv> 60"
abbreviation (input) TDMA_LOSS_MIN_SAMPLES :: u32 where "TDMA_LOSS_MIN_SAMPLES \<equiv> 100"

text \<open>The locals of the loop over the trackers.\<close>

record loss_tick =
  lt_slots :: "tracker_slot list"
  lt_received :: u32
  lt_gaps :: u32
  lt_discontinuity :: bool

definition loss_tick_slot :: "loss_snapshot \<Rightarrow> u32 \<Rightarrow> nat \<Rightarrow> loss_tick \<Rightarrow> loss_tick" where
  "loss_tick_slot evidence active i acc =
     (let c = ls_tracker evidence ! i; s = lt_slots acc ! i;
          restarted = (lc_restarts c \<noteq> tdma_prev_restarts s);
          acc1 = acc\<lparr>lt_slots := (lt_slots acc)[i := s\<lparr>tdma_prev_restarts := lc_restarts c,
                   tdma_prev_recv := lc_received c, tdma_prev_gaps := lc_gaps c\<rparr>]\<rparr>
      in if \<not> mask_has active i then acc1
         else if lc_received c < tdma_prev_recv s \<or> lc_gaps c < tdma_prev_gaps s \<or> restarted
         then acc1\<lparr>lt_discontinuity := True\<rparr>
         else
           let delta_recv = lc_received c - tdma_prev_recv s; delta_gaps = lc_gaps c - tdma_prev_gaps s
           in if delta_recv + delta_gaps = 0 then acc1
              else acc1\<lparr>lt_received := lt_received acc1 + delta_recv, lt_gaps := lt_gaps acc1 + delta_gaps\<rparr>)"

definition loss_tick_scan :: "loss_snapshot \<Rightarrow> bool \<Rightarrow> esb \<Rightarrow> loss_tick" where
  "loss_tick_scan evidence discontinuity st =
     fold (loss_tick_slot evidence (tdma_active_mask st)) [0..<MAX_TRACKERS]
       \<lparr>lt_slots = tracker_slots st, lt_received = 0, lt_gaps = 0, lt_discontinuity = discontinuity\<rparr>"

text \<open>Judging a full pool: the three streaks, and the step on the ladder.\<close>

definition loss_judge :: "u32 \<Rightarrow> u32 \<Rightarrow> nat \<Rightarrow> esb \<Rightarrow> esb" where
  "loss_judge pool_received pool_gaps credited st =
     (let pool_samples = unat (pool_received + pool_gaps); scaled_gaps = unat pool_gaps * 1000
      in st\<lparr>loss_trigger_streak := (if scaled_gaps > TDMA_LOSS_TRIGGER_PERMILLE * pool_samples
              then min (loss_trigger_streak st + credited) TDMA_LOSS_TRIGGER_TICKS else 0),
            loss_recover_streak := (if scaled_gaps < TDMA_LOSS_RECOVER_PERMILLE * pool_samples
              then min (loss_recover_streak st + credited) TDMA_LOSS_RECOVER_TICKS else 0),
            loss_probe_streak := (if scaled_gaps < TDMA_LOSS_PROBE_PERMILLE * pool_samples
              then min (loss_probe_streak st + credited) TDMA_LOSS_PROBE_TICKS else 0)\<rparr>)"

definition loss_step :: "esb \<Rightarrow> esb" where
  "loss_step st =
     (if TDMA_LOSS_TRIGGER_TICKS \<le> loss_trigger_streak st \<and> tdma_cap_level st < TDMA_CAP_LEVEL_MAX
      then tdma_loss_reset_windows (st\<lparr>tdma_cap_level := tdma_cap_level st + 1\<rparr>)
      else if (TDMA_LOSS_RECOVER_TICKS \<le> loss_recover_streak st \<or> TDMA_LOSS_PROBE_TICKS \<le> loss_probe_streak st) \<and>
          0 < tdma_cap_level st
      then tdma_loss_reset_windows (st\<lparr>tdma_cap_level := tdma_cap_level st - 1\<rparr>)
      else st)"

definition loss_pool :: "u32 \<Rightarrow> u32 \<Rightarrow> esb \<Rightarrow> esb" where
  "loss_pool tick_received tick_gaps st =
     (let st1 = st\<lparr>loss_pool_received := loss_pool_received st + tick_received,
                   loss_pool_gaps := loss_pool_gaps st + tick_gaps,
                   loss_pool_ticks := (loss_pool_ticks st + 1) mod 256\<rparr>
      in if loss_pool_received st1 + loss_pool_gaps st1 < TDMA_LOSS_MIN_SAMPLES then st1
         else loss_step (loss_judge (loss_pool_received st1) (loss_pool_gaps st1) (loss_pool_ticks st1)
                (st1\<lparr>loss_pool_received := 0, loss_pool_gaps := 0, loss_pool_ticks := 0\<rparr>)))"

text \<open>What excludes the tick from the evidence.\<close>

definition loss_excluded :: "peers \<Rightarrow> loss_snapshot \<Rightarrow> bool \<Rightarrow> esb \<Rightarrow> bool" where
  "loss_excluded p evidence discontinuity st \<longleftrightarrow>
     discontinuity \<or> \<not> ls_eligible evidence \<or>
     ls_ready_mask evidence AND tdma_active_mask st \<noteq> tdma_active_mask st \<or>
     data_collect_active p \<or> data_collect_batch_active p \<or> ota_relay_active p \<or>
     channel_change_pending st \<or> esb_radio_fault st \<or> (test_all_state_valid st \<and> test_all_enabled st)"

definition tdma_loss_controller_update :: "u8 \<Rightarrow> peers \<Rightarrow> esb \<Rightarrow> esb" where
  "tdma_loss_controller_update rf_default p st0 =
     (let evidence = esb_get_auto_loss_snapshot rf_default p st0;
          tick = loss_tick_scan evidence (rx_discontinuity_pending st0) st0;
          st1 = st0\<lparr>rx_discontinuity_pending := False, tracker_slots := lt_slots tick\<rparr>;
          st2 = (if data_collect_active p \<or> data_collect_batch_active p
                 then st1\<lparr>tdma_cap_level := tdma_published_cap_level st1\<rparr> else st1)
      in if loss_excluded p evidence (lt_discontinuity tick) st2 then
           let ready = (ls_eligible evidence \<and> ls_ready_mask evidence = tdma_active_mask st2);
               st3 = st2\<lparr>tdma_decision_ready := ready\<rparr>
           in tdma_loss_reset_windows (if ready then snd (esb_auto_loss_rebase rf_default p st3) else st3)
         else if \<not> tdma_decision_ready st2 then
           tdma_loss_reset_windows ((snd (esb_auto_loss_rebase rf_default p st2))\<lparr>tdma_decision_ready := True\<rparr>)
         else if tdma_cap_level st2 \<noteq> tdma_published_cap_level st2 then tdma_loss_reset_windows st2
         else if lt_received tick + lt_gaps tick = 0 then tdma_loss_reset_windows st2
         else loss_pool (lt_received tick) (lt_gaps tick) st2)"

definition tdma_loss_controller_tick :: "u8 \<Rightarrow> peers \<Rightarrow> esb \<Rightarrow> esb" where
  "tdma_loss_controller_tick rf_default p st = tdma_loss_controller_update rf_default p st"

end
