(* ===== verification/LossControllerCorrect.thy ===== *)
theory LossControllerCorrect
  imports LossController TdmaCorrect
begin

text \<open>
  What the loss controller promises: it looks at every second once, moves by one rung, and not
  faster than its windows allow, also when the layout is recalculated in between.
\<close>

section \<open>The scan\<close>

lemma loss_scan_nth:
  assumes "distinct is" and "i < length (lt_slots acc)"
  shows "lt_slots (fold (loss_tick_slot ev act) is acc) ! i =
    (if i \<in> set is then (lt_slots acc ! i)\<lparr>tdma_prev_restarts := lc_restarts (ls_tracker ev ! i),
        tdma_prev_recv := lc_received (ls_tracker ev ! i), tdma_prev_gaps := lc_gaps (ls_tracker ev ! i)\<rparr>
     else lt_slots acc ! i)"
  using assms
proof (induction "is" arbitrary: acc)
  case (Cons j "is")
  let ?acc = "loss_tick_slot ev act j acc"
  have "length (lt_slots ?acc) = length (lt_slots acc)" by (simp add: loss_tick_slot_def Let_def)
  moreover have "lt_slots ?acc ! i = (if i = j then (lt_slots acc ! i)\<lparr>tdma_prev_restarts := lc_restarts (ls_tracker ev ! i),
        tdma_prev_recv := lc_received (ls_tracker ev ! i), tdma_prev_gaps := lc_gaps (ls_tracker ev ! i)\<rparr> else lt_slots acc ! i)"
    using Cons.prems by (simp add: loss_tick_slot_def Let_def)
  ultimately show ?case using Cons by auto
qed simp

lemma loss_scan_length [simp]: "length (lt_slots (fold (loss_tick_slot ev act) is acc)) = length (lt_slots acc)"
  by (induction "is" arbitrary: acc) (simp_all add: loss_tick_slot_def Let_def)

section \<open>The windows\<close>

definition windows_cleared :: "esb \<Rightarrow> bool" where
  "windows_cleared st \<longleftrightarrow> loss_trigger_streak st = 0 \<and> loss_recover_streak st = 0 \<and> loss_probe_streak st = 0 \<and>
     loss_pool_ticks st = 0"

lemma reset_windows_cleared [simp]: "windows_cleared (tdma_loss_reset_windows st)"
  by (simp add: windows_cleared_def tdma_loss_reset_windows_def)

lemma reset_windows_frame [simp]:
  "tdma_cap_level (tdma_loss_reset_windows st) = tdma_cap_level st"
  "tdma_published_cap_level (tdma_loss_reset_windows st) = tdma_published_cap_level st"
  "tracker_slots (tdma_loss_reset_windows st) = tracker_slots st"
  by (simp_all add: tdma_loss_reset_windows_def)

text \<open>The seconds a window has been fed with, at most.\<close>

definition trigger_age :: "esb \<Rightarrow> nat" where
  "trigger_age st = loss_trigger_streak st + loss_pool_ticks st"

definition recover_age :: "esb \<Rightarrow> nat" where
  "recover_age st = max (loss_recover_streak st) (loss_probe_streak st) + loss_pool_ticks st"

definition cap_ceiling :: "esb \<Rightarrow> nat" where
  "cap_ceiling st = max (tdma_cap_level st) (tdma_published_cap_level st)"

lemma cleared_ages: "windows_cleared st \<Longrightarrow> trigger_age st = 0 \<and> recover_age st = 0"
  by (simp add: windows_cleared_def trigger_age_def recover_age_def)

lemma rebase_frame [simp]:
  "tdma_cap_level (snd (esb_auto_loss_rebase d p st)) = tdma_cap_level st"
  "tdma_published_cap_level (snd (esb_auto_loss_rebase d p st)) = tdma_published_cap_level st"
  "tracker_slots (snd (esb_auto_loss_rebase d p st)) = tracker_slots st"
  by (simp_all add: esb_auto_loss_rebase_def esb_auto_loss_fence_def Let_def)

lemma loss_pool_cases:
  assumes "st' = loss_pool r g st"
  obtains (kept) "tdma_cap_level st' = tdma_cap_level st" "trigger_age st' \<le> Suc (trigger_age st)"
      "recover_age st' \<le> Suc (recover_age st)"
    | (down) "tdma_cap_level st' = Suc (tdma_cap_level st)" "tdma_cap_level st < TDMA_CAP_LEVEL_MAX"
        "TDMA_LOSS_TRIGGER_TICKS \<le> Suc (trigger_age st)" "windows_cleared st'"
    | (up) "Suc (tdma_cap_level st') = tdma_cap_level st" "TDMA_LOSS_RECOVER_TICKS \<le> Suc (recover_age st)"
        "windows_cleared st'"
proof -
  let ?n = "loss_pool_ticks st"
  have n: "Suc ?n mod 256 \<le> Suc ?n" by (rule mod_less_eq_dividend)
  show thesis
  proof (cases "loss_pool_received st + r + (loss_pool_gaps st + g) < TDMA_LOSS_MIN_SAMPLES")
    case True
    then show thesis using kept n assms
      by (simp add: loss_pool_def Let_def trigger_age_def recover_age_def)
  next
    case False
    define s1 where "s1 = loss_judge (loss_pool_received st + r) (loss_pool_gaps st + g) (Suc ?n mod 256)
      (st\<lparr>loss_pool_received := 0, loss_pool_gaps := 0, loss_pool_ticks := 0\<rparr>)"
    have s1: "tdma_cap_level s1 = tdma_cap_level st" "loss_pool_ticks s1 = 0"
      "loss_trigger_streak s1 \<le> loss_trigger_streak st + Suc ?n mod 256"
      "loss_recover_streak s1 \<le> loss_recover_streak st + Suc ?n mod 256"
      "loss_probe_streak s1 \<le> loss_probe_streak st + Suc ?n mod 256"
      by (simp_all add: s1_def loss_judge_def Let_def)
    have st': "st' = loss_step s1" using False assms by (simp add: loss_pool_def Let_def s1_def)
    consider "st' = s1" | "TDMA_LOSS_TRIGGER_TICKS \<le> loss_trigger_streak s1" "tdma_cap_level s1 < TDMA_CAP_LEVEL_MAX"
        "st' = tdma_loss_reset_windows (s1\<lparr>tdma_cap_level := tdma_cap_level s1 + 1\<rparr>)"
      | "TDMA_LOSS_RECOVER_TICKS \<le> max (loss_recover_streak s1) (loss_probe_streak s1)" "0 < tdma_cap_level s1"
        "st' = tdma_loss_reset_windows (s1\<lparr>tdma_cap_level := tdma_cap_level s1 - 1\<rparr>)"
      using st' by (auto simp: loss_step_def split: if_splits)
    then show thesis
    proof cases
      case 1
      have "trigger_age st' \<le> Suc (trigger_age st)" "recover_age st' \<le> Suc (recover_age st)"
        using 1 s1 n by (simp_all add: trigger_age_def recover_age_def) linarith
      then show thesis using kept 1 s1 by simp
    next
      case 2
      then show thesis using down s1 n by (simp add: trigger_age_def)
    next
      case 3
      then show thesis using up s1 n by (simp add: recover_age_def)
    qed
  qed
qed

section \<open>One tick\<close>

definition collecting :: "peers \<Rightarrow> bool" where
  "collecting p \<longleftrightarrow> data_collect_active p \<or> data_collect_batch_active p"

lemma loss_tick_cases:
  assumes "st' = tdma_loss_controller_update d p st"
  obtains (idle) "windows_cleared st'" "tdma_cap_level st' = (if collecting p then tdma_published_cap_level st else tdma_cap_level st)"
      "tdma_published_cap_level st' = tdma_published_cap_level st"
    | (pool) r g st2 where "st' = loss_pool r g st2" "\<not> collecting p" "tdma_cap_level st2 = tdma_cap_level st"
      "tdma_published_cap_level st2 = tdma_published_cap_level st"
      "tdma_cap_level st = tdma_published_cap_level st" "trigger_age st2 = trigger_age st"
      "recover_age st2 = recover_age st" "ls_eligible (esb_get_auto_loss_snapshot d p st)"
      "ls_ready_mask (esb_get_auto_loss_snapshot d p st) AND tdma_active_mask st = tdma_active_mask st"
      "\<not> rx_discontinuity_pending st"
proof -
  define ev where "ev = esb_get_auto_loss_snapshot d p st"
  define tick where "tick = loss_tick_scan ev (rx_discontinuity_pending st) st"
  define st1 where "st1 = st\<lparr>rx_discontinuity_pending := False, tracker_slots := lt_slots tick\<rparr>"
  define st2 where "st2 = (if data_collect_active p \<or> data_collect_batch_active p
    then st1\<lparr>tdma_cap_level := tdma_published_cap_level st1\<rparr> else st1)"
  have disc: "rx_discontinuity_pending st \<Longrightarrow> lt_discontinuity tick"
  proof -
    have "lt_discontinuity acc \<Longrightarrow> lt_discontinuity (fold (loss_tick_slot ev act) is acc)" for "is" act acc
      by (induction "is" arbitrary: acc) (simp_all add: loss_tick_slot_def Let_def)
    then show "rx_discontinuity_pending st \<Longrightarrow> lt_discontinuity tick" by (simp add: tick_def loss_tick_scan_def)
  qed
  have fr: "tdma_cap_level st2 = (if collecting p then tdma_published_cap_level st else tdma_cap_level st)"
    "tdma_published_cap_level st2 = tdma_published_cap_level st" "trigger_age st2 = trigger_age st"
    "recover_age st2 = recover_age st" "tdma_active_mask st2 = tdma_active_mask st"
    by (simp_all add: st2_def st1_def collecting_def trigger_age_def recover_age_def)
  note u = assms [unfolded tdma_loss_controller_update_def Let_def, folded ev_def, folded tick_def,
    folded st1_def, folded st2_def]
  show thesis
  proof (cases "loss_excluded p ev (lt_discontinuity tick) st2")
    case True
    then show thesis using u idle fr by (simp split: if_splits)
  next
    case ok: False
    then have nc: "\<not> collecting p" by (simp add: loss_excluded_def collecting_def)
    show thesis
    proof (cases "\<not> tdma_decision_ready st2 \<or> tdma_cap_level st2 \<noteq> tdma_published_cap_level st2 \<or>
        lt_received tick + lt_gaps tick = 0")
      case True
      then show thesis using u ok idle fr nc by (simp split: if_splits)
    next
      case False
      then have "st' = loss_pool (lt_received tick) (lt_gaps tick) st2" using u ok by simp
      moreover have "ls_eligible ev" "ls_ready_mask ev AND tdma_active_mask st = tdma_active_mask st"
        "\<not> rx_discontinuity_pending st" using ok disc fr(5) by (auto simp: loss_excluded_def)
      ultimately show thesis using fr nc False by (intro pool [of "lt_received tick" "lt_gaps tick" st2]) (simp_all add: ev_def)
    qed
  qed
qed

lemma pool_published [simp]: "tdma_published_cap_level (loss_pool r g st) = tdma_published_cap_level st"
  by (simp add: loss_pool_def loss_step_def loss_judge_def Let_def)

lemma tick_potential:
  assumes "st' = tdma_loss_controller_update d p st"
  shows "5 * cap_ceiling st' + trigger_age st' \<le> Suc (5 * cap_ceiling st + trigger_age st)"
  using assms
proof (cases rule: loss_tick_cases)
  case idle
  then show ?thesis using cleared_ages [of st'] by (simp add: cap_ceiling_def split: if_splits)
next
  case (pool r g st2)
  from pool(1) show ?thesis
  proof (cases rule: loss_pool_cases)
    case kept
    then show ?thesis using pool by (simp add: cap_ceiling_def)
  next
    case down
    then show ?thesis using pool cleared_ages [of st'] by (simp add: cap_ceiling_def)
  next
    case up
    then show ?thesis using pool cleared_ages [of st'] by (simp add: cap_ceiling_def)
  qed
qed

section \<open>Layouts in between\<close>

text \<open>What neither feeds the windows nor asks for a slower rung.\<close>

definition loss_quiet :: "(esb \<Rightarrow> esb) \<Rightarrow> bool" where
  "loss_quiet f \<longleftrightarrow> (\<forall>x. cap_ceiling (f x) \<le> cap_ceiling x \<and> trigger_age (f x) \<le> trigger_age x)"

lemma loss_quietD: "loss_quiet f \<Longrightarrow> cap_ceiling (f x) \<le> cap_ceiling x \<and> trigger_age (f x) \<le> trigger_age x"
  by (simp add: loss_quiet_def)

lemma quiet_cong:
  assumes "\<And>x. tdma_cap_level (f x) = tdma_cap_level x" "\<And>x. tdma_published_cap_level (f x) = tdma_published_cap_level x"
    "\<And>x. loss_trigger_streak (f x) = loss_trigger_streak x" "\<And>x. loss_pool_ticks (f x) = loss_pool_ticks x"
  shows "loss_quiet f"
  using assms by (simp add: loss_quiet_def cap_ceiling_def trigger_age_def)

lemma recalc_merge_quiet: "loss_quiet (recalc_merge f d now)"
  by (rule quiet_cong) (simp_all add: recalc_merge_def tdma_shadow_merge_locked_def Let_def)

lemma recalc_level_quiet: "loss_quiet (recalc_level p c)"
  by (simp add: loss_quiet_def recalc_level_def cap_ceiling_def trigger_age_def tdma_loss_reset_windows_def)

lemma test_all_quiet: "loss_quiet (test_all_update_effective n now b)" "loss_quiet (test_all_note_layout m m' now)"
  by (rule quiet_cong; simp add: test_all_update_effective_def test_all_note_layout_def Let_def)+

lemma publish_quiet: "loss_quiet (tdma_publish m n ticks now)"
proof -
  define pre where "pre st = (let epoch = (if n \<noteq> 0 then tdma_config_epoch st + 1 else tdma_config_epoch st);
          st1 = st\<lparr>tdma_config_epoch := epoch,
                   tracker_slots := assign_slots m 0 0 (of_nat n) (of_nat ticks) epoch (tracker_slots st),
                   tdma_dynamic_active_count := n, tdma_dynamic_slot_ticks := ticks,
                   tdma_active_mask := m, tdma_last_reconfig_time := now, tdma_last_reconfig_valid := True\<rparr>;
          st2 = (if shadow_pending_join_mask st1 = 0 then st1\<lparr>membership_deadline_armed := False\<rparr> else st1);
          st3 = (if m \<noteq> tdma_active_mask st \<or> \<not> test_all_enabled st2
                 then st2\<lparr>tdma_published_cap_level := tdma_cap_level st2\<rparr> else st2)
      in esb_auto_loss_invalidate st3)" for st
  have pub: "tdma_publish m n ticks now st = (if n = 0 then pre st
      else test_all_update_effective n now True (test_all_note_layout (tdma_active_mask st) m now (pre st)))" for st
    by (simp add: tdma_publish_def pre_def Let_def)
  have "loss_quiet pre"
    by (simp add: loss_quiet_def pre_def Let_def cap_ceiling_def trigger_age_def esb_auto_loss_invalidate_def)
  then have q: "loss_quiet pre" .
  show ?thesis
    unfolding loss_quiet_def
  proof
    fix x
    let ?note = "test_all_note_layout (tdma_active_mask x) m now (pre x)"
    show "cap_ceiling (tdma_publish m n ticks now x) \<le> cap_ceiling x \<and>
        trigger_age (tdma_publish m n ticks now x) \<le> trigger_age x"
      using loss_quietD [OF q, of x] loss_quietD [OF test_all_quiet(2), of "tdma_active_mask x" m now "pre x"]
        loss_quietD [OF test_all_quiet(1), of n now True ?note]
      by (simp add: pub)
  qed
qed

lemma recalc_pass_quiet:
  assumes "recalc_pass p forced b now st = RecalcDone st' \<or> recalc_pass p forced b now st = RecalcResetDiagnostics st'"
  shows "cap_ceiling st' \<le> cap_ceiling st \<and> trigger_age st' \<le> trigger_age st"
proof -
  define st1 where "st1 = recalc_merge forced b now st"
  define m where "m = recalc_mask st1"
  define st2 where "st2 = recalc_level p (m \<noteq> tdma_active_mask st1) st1"
  have q: "cap_ceiling st2 \<le> cap_ceiling st \<and> trigger_age st2 \<le> trigger_age st"
    using loss_quietD [OF recalc_merge_quiet, of forced b now st]
      loss_quietD [OF recalc_level_quiet, of p "m \<noteq> tdma_active_mask st1" st1]
    by (simp add: st2_def st1_def)
  have lev: "cap_ceiling (st2\<lparr>tdma_published_cap_level := tdma_cap_level st2\<rparr>) \<le> cap_ceiling st2"
    "trigger_age (st2\<lparr>tdma_published_cap_level := tdma_cap_level st2\<rparr>) = trigger_age st2"
    "cap_ceiling (st2\<lparr>tdma_dynamic_slot_ticks := t, tdma_published_cap_level := tdma_cap_level st2\<rparr>) \<le> cap_ceiling st2"
    "trigger_age (st2\<lparr>tdma_dynamic_slot_ticks := t, tdma_published_cap_level := tdma_cap_level st2\<rparr>) = trigger_age st2"
    for t by (simp_all add: cap_ceiling_def trigger_age_def)
  consider "st' = st2" | "st' = st2\<lparr>tdma_published_cap_level := tdma_cap_level st2\<rparr>"
    | t where "st' = st2\<lparr>tdma_dynamic_slot_ticks := t, tdma_published_cap_level := tdma_cap_level st2\<rparr>"
    | n t where "st' = tdma_publish m n t now st2"
    using assms [unfolded recalc_pass_def Let_def, folded st1_def, folded m_def, folded st2_def]
    by (auto split: if_splits)
  then show ?thesis
  proof cases
    case 4
    then show ?thesis using q loss_quietD [OF publish_quiet] by (meson order_trans)
  qed (use q lev in \<open>auto intro: order_trans\<close>)
qed

lemma recalculate_quiet:
  assumes "loss_quiet between"
  shows "loss_quiet (tdma_recalculate p forced clock between)"
  unfolding loss_quiet_def
proof
  fix x
  show "cap_ceiling (tdma_recalculate p forced clock between x) \<le> cap_ceiling x \<and>
      trigger_age (tdma_recalculate p forced clock between x) \<le> trigger_age x"
  proof (cases "recalc_pass p forced False (clock 0) x")
    case (RecalcDone y)
    then show ?thesis using recalc_pass_quiet [of p forced False "clock 0" x y] by (simp add: tdma_recalculate_def)
  next
    case (RecalcResetDiagnostics y)
    have 1: "cap_ceiling y \<le> cap_ceiling x \<and> trigger_age y \<le> trigger_age x"
      using recalc_pass_quiet RecalcResetDiagnostics by blast
    obtain z where z: "recalc_pass p forced True (clock 1) (between y) = RecalcDone z \<or>
        recalc_pass p forced True (clock 1) (between y) = RecalcResetDiagnostics z"
      by (cases "recalc_pass p forced True (clock 1) (between y)") auto
    then have "tdma_recalculate p forced clock between x = z"
      using RecalcResetDiagnostics by (auto simp: tdma_recalculate_def)
    then show ?thesis
      using 1 recalc_pass_quiet [OF z] loss_quietD [OF assms, of y] by (simp only:) linarith
  qed
qed

section \<open>Properties\<close>

text \<open>
  One look of the loss controller is disciplined: every tracker's snapshot advances to the
  evidence that was read, whatever the outcome; the requested level leaves the bounds of the ladder never;
  outside a data collection it moves by at most one rung, and only when the previous request has
  been published, the evidence was eligible, every member of the layout was heard and
  the receiver lost no reception; and after any move all windows start empty.
\<close>

theorem loss_ladder_disciplined:
  assumes st': "st' = tdma_loss_controller_update d p st"
    and lev: "tdma_cap_level st \<le> TDMA_CAP_LEVEL_MAX" "tdma_published_cap_level st \<le> TDMA_CAP_LEVEL_MAX"
    and len: "length (tracker_slots st) = MAX_TRACKERS" and i: "i < MAX_TRACKERS"
  shows "tdma_cap_level st' \<le> TDMA_CAP_LEVEL_MAX \<and>
    tdma_prev_recv (tracker_slots st' ! i) = decision_received (tracker_slots st ! i) \<and>
    tdma_prev_gaps (tracker_slots st' ! i) = decision_gaps (tracker_slots st ! i) \<and>
    (tdma_cap_level st' \<noteq> tdma_cap_level st \<and> \<not> collecting p \<longrightarrow>
       (tdma_cap_level st' = tdma_cap_level st + 1 \<or> tdma_cap_level st' + 1 = tdma_cap_level st) \<and>
       tdma_cap_level st = tdma_published_cap_level st \<and> \<not> rx_discontinuity_pending st \<and>
       ls_eligible (esb_get_auto_loss_snapshot d p st) \<and>
       tdma_active_mask st AND decision_ready_mask st = tdma_active_mask st \<and> windows_cleared st')"
proof -
  define ev where "ev = esb_get_auto_loss_snapshot d p st"
  have slots: "tracker_slots st' = lt_slots (loss_tick_scan ev (rx_discontinuity_pending st) st)"
    unfolding st' tdma_loss_controller_update_def Let_def
    by (simp add: ev_def loss_pool_def loss_step_def loss_judge_def Let_def)
  have "ls_tracker ev ! i = \<lparr>lc_received = decision_received (tracker_slots st ! i),
      lc_gaps = decision_gaps (tracker_slots st ! i), lc_restarts = restart_events (slot_stats (tracker_slots st ! i))\<rparr>"
    using i len by (simp add: ev_def esb_get_auto_loss_snapshot_def)
  then have snap: "tdma_prev_recv (tracker_slots st' ! i) = decision_received (tracker_slots st ! i) \<and>
    tdma_prev_gaps (tracker_slots st' ! i) = decision_gaps (tracker_slots st ! i)"
    using loss_scan_nth [of "[0..<MAX_TRACKERS]" i] i len slots by (simp add: loss_tick_scan_def del: upt_rec_numeral)
  have ready: "ls_ready_mask ev AND tdma_active_mask st = tdma_active_mask st \<Longrightarrow>
      tdma_active_mask st AND decision_ready_mask st = tdma_active_mask st"
    by (simp add: ev_def esb_get_auto_loss_snapshot_def and.commute and.left_commute and.assoc)
  from st' show ?thesis
  proof (cases rule: loss_tick_cases)
    case idle
    then show ?thesis using snap lev by (simp split: if_splits)
  next
    case (pool r g st2)
    from pool(1) show ?thesis
      by (cases rule: loss_pool_cases) (use snap lev pool ready ev_def in auto)
  qed
qed

text \<open>The rounds of the statistics thread: a look of the controller, a recalculation, other work.\<close>

fun loss_rounds :: "u8 \<Rightarrow> (peers \<times> (nat \<Rightarrow> int) \<times> (esb \<Rightarrow> esb) \<times> (esb \<Rightarrow> esb)) list \<Rightarrow> esb \<Rightarrow> esb" where
  "loss_rounds d [] st = st"
| "loss_rounds d ((p, clock, between, other) # rs) st =
     loss_rounds d rs (other (tdma_recalculate p False clock between (tdma_loss_controller_tick d p st)))"

text \<open>
  Claim C23. The ladder descends slowly: over any rounds of the statistics thread, each a look of the
  controller followed by a recalculation of the layout, with any other work in between that neither feeds the
  windows nor raises the level, the level rises by at most one rung for every five rounds. The
  rounds the trigger window had collected before count as well.
\<close>

theorem loss_ladder_rate:
  assumes quiet: "\<forall>(p, clock, between, other)\<in>set rounds. loss_quiet between \<and> loss_quiet other"
    and st': "st' = loss_rounds d rounds st"
  shows "max (tdma_cap_level st') (tdma_published_cap_level st') \<le>
    max (tdma_cap_level st) (tdma_published_cap_level st) +
    (loss_trigger_streak st + loss_pool_ticks st + length rounds) div 5"
proof -
  have "5 * cap_ceiling (loss_rounds d rounds st) + trigger_age (loss_rounds d rounds st) \<le>
      5 * cap_ceiling st + trigger_age st + length rounds"
    using quiet
  proof (induction rounds arbitrary: st)
    case (Cons r rounds)
    obtain p clock between other where r: "r = (p, clock, between, other)" by (cases r) auto
    then have q: "loss_quiet between" "loss_quiet other" using Cons.prems by auto
    define s1 where "s1 = tdma_loss_controller_tick d p st"
    define s2 where "s2 = other (tdma_recalculate p False clock between s1)"
    have 1: "5 * cap_ceiling s1 + trigger_age s1 \<le> Suc (5 * cap_ceiling st + trigger_age st)"
      using tick_potential [of s1 d p st] by (simp add: s1_def tdma_loss_controller_tick_def)
    have 2: "cap_ceiling s2 \<le> cap_ceiling s1" "trigger_age s2 \<le> trigger_age s1"
      using loss_quietD [OF q(2), of "tdma_recalculate p False clock between s1"]
        loss_quietD [OF recalculate_quiet [OF q(1)], of p False clock s1] by (simp_all add: s2_def)
    have "loss_rounds d (r # rounds) st = loss_rounds d rounds s2" by (simp add: r s1_def s2_def)
    moreover have "5 * cap_ceiling (loss_rounds d rounds s2) + trigger_age (loss_rounds d rounds s2) \<le>
      5 * cap_ceiling s2 + trigger_age s2 + length rounds" using Cons by simp
    ultimately show ?case using 1 2 by simp
  qed simp
  then have "5 * cap_ceiling st' div 5 \<le> (5 * cap_ceiling st + (trigger_age st + length rounds)) div 5"
    using st' by (intro div_le_mono) simp
  then have "cap_ceiling st' \<le> cap_ceiling st + (trigger_age st + length rounds) div 5" by simp
  then show ?thesis by (simp add: cap_ceiling_def trigger_age_def)
qed

theorem loss_ladder_disciplined_witness:
  "tdma_prev_recv (tracker_slots (tdma_loss_controller_update 0 no_peers
      (idle_esb\<lparr>tracker_slots := (replicate 16 idle_esb_slot)[2 := idle_esb_slot\<lparr>decision_received := 7\<rparr>]\<rparr>)) ! 2) = 7"
  using loss_ladder_disciplined [OF refl, where d = 0 and p = no_peers and i = 2
      and st = "idle_esb\<lparr>tracker_slots := (replicate 16 idle_esb_slot)[2 := idle_esb_slot\<lparr>decision_received := 7\<rparr>]\<rparr>"]
  by (simp add: idle_esb_def)

theorem loss_ladder_rate_witness:
  "max (tdma_cap_level (loss_rounds 0 (replicate 4 (no_peers, int, id, id)) idle_esb))
     (tdma_published_cap_level (loss_rounds 0 (replicate 4 (no_peers, int, id, id)) idle_esb)) = 0"
proof -
  have "loss_quiet id" by (simp add: loss_quiet_def)
  with loss_ladder_rate [of "replicate 4 (no_peers, int, id, id)" _ 0 idle_esb, OF _ refl] show ?thesis
    by (simp add: idle_esb_def)
qed

end
