(* ===== verification/DataCollect.thy ===== *)
theory DataCollect
  imports EsbConstants
begin

text \<open>
  Raw data collection over a serial port, \<open>data_collect.c\<close>: the ring of bytes between the radio
  and the port, the framing of a packet, the callbacks of the port, single and batch sessions and
  their time limit. The static variables are the record \<open>data_collect\<close>. What the port answers in one
  round of its interrupt is an argument; calls to other components and to the port are actions.
\<close>

abbreviation (input) DATA_COLLECT_BUF_SIZE :: nat where "DATA_COLLECT_BUF_SIZE \<equiv> 16384"
abbreviation (input) DC_TIMEOUT_MS :: int where "DC_TIMEOUT_MS \<equiv> 60000"
abbreviation (input) ESB_PONG_FLAG_DATA_COLLECT_OFF :: u8 where "ESB_PONG_FLAG_DATA_COLLECT_OFF \<equiv> 0x23"
abbreviation (input) ESB_PONG_FLAG_DATA_COLLECT_BATCH_OFF :: u8 where
  "ESB_PONG_FLAG_DATA_COLLECT_BATCH_OFF \<equiv> 0x35"

record data_collect =
  cdc_dev :: bool
  cdc_ready :: bool
  dc_buf :: bytes
  dc_buf_head :: nat
  dc_buf_tail :: nat
  dc_frames_sent :: u32
  dc_frames_dropped :: u32
  dc_active :: bool
  dc_target_tracker_id :: u8
  dc_batch_active :: bool
  dc_batch_mask :: u32
  dc_last_rx_time :: int

datatype dc_action = DcTxEnable | DcTxDisable | DcKick nat | DcFifoFill bytes | DcRemoteCommand nat u8 | DcTimeoutWork

definition dc_boot :: data_collect where
  "dc_boot = \<lparr>cdc_dev = False, cdc_ready = False, dc_buf = replicate DATA_COLLECT_BUF_SIZE 0, dc_buf_head = 0,
     dc_buf_tail = 0, dc_frames_sent = 0, dc_frames_dropped = 0, dc_active = False, dc_target_tracker_id = 0,
     dc_batch_active = False, dc_batch_mask = 0, dc_last_rx_time = 0\<rparr>"

section \<open>The ring\<close>

definition buf_used :: "data_collect \<Rightarrow> nat" where
  "buf_used d =
     (let diff = int (dc_buf_head d) - int (dc_buf_tail d)
      in nat (if diff < 0 then diff + int DATA_COLLECT_BUF_SIZE else diff))"

definition buf_free :: "data_collect \<Rightarrow> nat" where
  "buf_free d = DATA_COLLECT_BUF_SIZE - 1 - buf_used d"

definition buf_put :: "u8 \<Rightarrow> data_collect \<Rightarrow> data_collect" where
  "buf_put byte d = d\<lparr>dc_buf := (dc_buf d)[dc_buf_head d := byte],
     dc_buf_head := (dc_buf_head d + 1) mod DATA_COLLECT_BUF_SIZE\<rparr>"

definition cdc_host_is_open :: "int \<Rightarrow> u32 \<Rightarrow> data_collect \<Rightarrow> bool" where
  "cdc_host_is_open ret dtr d \<longleftrightarrow> cdc_dev d \<and> ret = 0 \<and> dtr \<noteq> 0"

definition dc_discard_buffer :: "data_collect \<Rightarrow> data_collect" where
  "dc_discard_buffer d = d\<lparr>dc_buf_tail := dc_buf_head d\<rparr>"

definition dc_contiguous_len :: "data_collect \<Rightarrow> nat" where
  "dc_contiguous_len d =
     (if dc_buf_tail d = dc_buf_head d then 0
      else if dc_buf_tail d < dc_buf_head d then dc_buf_head d - dc_buf_tail d
      else DATA_COLLECT_BUF_SIZE - dc_buf_tail d)"

section \<open>The port\<close>

definition dc_tx_pause :: "data_collect \<Rightarrow> dc_action list" where
  "dc_tx_pause d = DcTxDisable # (if dc_buf_tail d \<noteq> dc_buf_head d then [DcKick 1] else [])"

text \<open>
  One round of the interrupt loop: whether the port can take bytes, the two answers on the line
  state, and how many of the bytes it is offered it takes.
\<close>

record dc_round =
  rd_tx_ready :: bool
  rd_line_ret :: int
  rd_dtr :: u32
  rd_sent :: "nat \<Rightarrow> int"

definition dc_uart_round :: "dc_round \<Rightarrow> data_collect \<Rightarrow> dc_action list \<times> data_collect" where
  "dc_uart_round r d =
     (if \<not> rd_tx_ready r then ([], d)
      else if \<not> cdc_host_is_open (rd_line_ret r) (rd_dtr r) d then
        let d1 = dc_discard_buffer d in (dc_tx_pause d1, d1)
      else
        let len = dc_contiguous_len d
        in if len = 0 then (dc_tx_pause d, d)
           else
             let fill = DcFifoFill (take len (drop (dc_buf_tail d) (dc_buf d)))
             in if rd_sent r len \<le> 0 then (fill # dc_tx_pause d, d)
                else
                  let d1 = d\<lparr>dc_buf_tail := (dc_buf_tail d + nat (rd_sent r len)) mod DATA_COLLECT_BUF_SIZE\<rparr>
                  in (fill # (if dc_buf_tail d1 = dc_buf_head d1 then dc_tx_pause d1 else []), d1))"

text \<open>The rounds for which the port reports a pending interrupt.\<close>

fun dc_uart_irq_callback :: "dc_round list \<Rightarrow> data_collect \<Rightarrow> dc_action list \<times> data_collect" where
  "dc_uart_irq_callback [] d = ([], d)"
| "dc_uart_irq_callback (r # rs) d =
     (let (acts, d1) = dc_uart_round r d; (more, d2) = dc_uart_irq_callback rs d1 in (acts @ more, d2))"

definition dc_tx_kick_work_handler :: "int \<Rightarrow> u32 \<Rightarrow> data_collect \<Rightarrow> dc_action list \<times> data_collect" where
  "dc_tx_kick_work_handler ret dtr d =
     (if \<not> cdc_dev d then ([], d)
      else if \<not> cdc_host_is_open ret dtr d then ([], dc_discard_buffer d)
      else if dc_buf_tail d \<noteq> dc_buf_head d then ([DcTxEnable, DcKick 1], d) else ([], d))"

section \<open>Sessions\<close>

definition data_collect_init :: "bool \<Rightarrow> errno option \<Rightarrow> data_collect \<Rightarrow> errno option \<times> data_collect" where
  "data_collect_init device_ready ret d =
     (let d1 = d\<lparr>cdc_dev := True\<rparr>
      in if \<not> device_ready then (Some ENODEV, d1)
         else if ret \<noteq> None then (ret, d1)
         else (None, d1\<lparr>cdc_ready := True, dc_active := False, dc_batch_active := False, dc_batch_mask := 0\<rparr>))"

definition data_collect_start :: "u8 \<Rightarrow> int \<Rightarrow> data_collect \<Rightarrow> data_collect" where
  "data_collect_start t now d =
     d\<lparr>dc_batch_active := False, dc_batch_mask := 0, dc_target_tracker_id := t, dc_active := True,
       dc_frames_sent := 0, dc_frames_dropped := 0, dc_last_rx_time := now\<rparr>"

definition data_collect_stop :: "data_collect \<Rightarrow> data_collect" where
  "data_collect_stop d = d\<lparr>dc_active := False\<rparr>"

definition data_collect_batch_start :: "u32 \<Rightarrow> int \<Rightarrow> data_collect \<Rightarrow> data_collect" where
  "data_collect_batch_start m now d =
     d\<lparr>dc_active := False, dc_batch_mask := m, dc_batch_active := (m \<noteq> 0), dc_frames_sent := 0,
       dc_frames_dropped := 0, dc_last_rx_time := now\<rparr>"

definition data_collect_batch_stop :: "data_collect \<Rightarrow> data_collect" where
  "data_collect_batch_stop d = d\<lparr>dc_batch_active := False, dc_batch_mask := 0\<rparr>"

definition data_collect_forget_tracker :: "nat \<Rightarrow> data_collect \<Rightarrow> data_collect" where
  "data_collect_forget_tracker t d =
     (if MAX_TRACKERS \<le> t then d
      else
        let d1 = (if unat (dc_target_tracker_id d) = t
                  then d\<lparr>dc_active := False, dc_target_tracker_id := 255\<rparr> else d);
            d2 = d1\<lparr>dc_batch_mask := unset_bit t (dc_batch_mask d1)\<rparr>;
            d3 = d2\<lparr>dc_batch_active := (dc_batch_mask d2 \<noteq> 0)\<rparr>
        in dc_discard_buffer d3)"

definition data_collect_is_active :: "data_collect \<Rightarrow> bool" where
  "data_collect_is_active d = dc_active d"

definition data_collect_get_target_id :: "data_collect \<Rightarrow> u8" where
  "data_collect_get_target_id d = dc_target_tracker_id d"

definition data_collect_batch_is_active :: "data_collect \<Rightarrow> bool" where
  "data_collect_batch_is_active d = dc_batch_active d"

definition data_collect_batch_is_target :: "nat \<Rightarrow> data_collect \<Rightarrow> bool" where
  "data_collect_batch_is_target t d \<longleftrightarrow> dc_batch_active d \<and> t < MAX_TRACKERS \<and> mask_has (dc_batch_mask d) t"

definition data_collect_is_target :: "nat \<Rightarrow> data_collect \<Rightarrow> bool" where
  "data_collect_is_target t d \<longleftrightarrow> dc_active d \<and> t = unat (dc_target_tracker_id d)"

definition dc_timeout_work_handler :: "data_collect \<Rightarrow> dc_action list \<times> data_collect" where
  "dc_timeout_work_handler d =
     (if \<not> dc_active d \<and> \<not> dc_batch_active d then ([], d)
      else if dc_batch_active d then
        (map (\<lambda>t. DcRemoteCommand t ESB_PONG_FLAG_DATA_COLLECT_BATCH_OFF)
           (filter (mask_has (dc_batch_mask d)) [0..<MAX_TRACKERS]), data_collect_batch_stop d)
      else ([DcRemoteCommand (unat (dc_target_tracker_id d)) ESB_PONG_FLAG_DATA_COLLECT_OFF], data_collect_stop d))"

definition dc_timer_handler :: "int \<Rightarrow> data_collect \<Rightarrow> dc_action list" where
  "dc_timer_handler now d =
     (if (dc_active d \<or> dc_batch_active d) \<and> 0 < dc_last_rx_time d \<and> now - dc_last_rx_time d > DC_TIMEOUT_MS
      then [DcTimeoutWork] else [])"

section \<open>Frames\<close>

text \<open>The bytes of a frame in the order in which they are put, with the running CRC.\<close>

definition dc_frame :: "zephyr \<Rightarrow> bytes \<Rightarrow> u8 \<Rightarrow> u32 \<Rightarrow> bytes" where
  "dc_frame z data rssi rx_ticks =
     (let frame_len = of_nat (length data + 5); ticks_buf = put_be32 z rx_ticks;
          crc = crc8_ccitt z 0x07 [frame_len];
          crc = crc8_ccitt z crc data;
          crc = crc8_ccitt z crc [rssi];
          crc = crc8_ccitt z crc ticks_buf
      in [0xAA, 0x55, frame_len] @ data @ [rssi] @ ticks_buf @ [crc])"

definition data_collect_write :: "zephyr \<Rightarrow> bytes \<Rightarrow> u8 \<Rightarrow> int \<Rightarrow> u32 \<Rightarrow> data_collect \<Rightarrow> dc_action list \<times> data_collect" where
  "data_collect_write z data rssi now rx_ticks d =
     (if \<not> cdc_ready d then ([], d)
      else
        let d1 = d\<lparr>dc_last_rx_time := now\<rparr>
        in if buf_free d1 < 2 + 1 + length data + 1 + 4 + 1
           then ([], d1\<lparr>dc_frames_dropped := dc_frames_dropped d1 + 1\<rparr>)
           else
             let d2 = fold buf_put (dc_frame z data rssi rx_ticks) d1
             in ([DcKick 0], d2\<lparr>dc_frames_sent := dc_frames_sent d2 + 1\<rparr>))"

section \<open>The ring as a queue of bytes\<close>

definition dc_ok :: "data_collect \<Rightarrow> bool" where
  "dc_ok d \<longleftrightarrow> length (dc_buf d) = DATA_COLLECT_BUF_SIZE \<and> dc_buf_head d < DATA_COLLECT_BUF_SIZE \<and>
     dc_buf_tail d < DATA_COLLECT_BUF_SIZE"

definition dc_content :: "data_collect \<Rightarrow> bytes" where
  "dc_content d = map (\<lambda>i. dc_buf d ! ((dc_buf_tail d + i) mod DATA_COLLECT_BUF_SIZE)) [0..<buf_used d]"

lemma wrap_mod: "a < 2 * (n :: nat) \<Longrightarrow> a mod n = (if a < n then a else a - n)"
  by (simp add: mod_if [of a n])

lemma buf_used_cases:
  assumes "dc_ok d"
  shows "buf_used d = (if dc_buf_tail d \<le> dc_buf_head d then dc_buf_head d - dc_buf_tail d
    else dc_buf_head d + DATA_COLLECT_BUF_SIZE - dc_buf_tail d)"
proof (cases "dc_buf_tail d \<le> dc_buf_head d")
  case True
  then show ?thesis by (simp add: buf_used_def Let_def)
next
  case False
  have "int (dc_buf_head d) - int (dc_buf_tail d) + 16384 = int (dc_buf_head d + 16384 - dc_buf_tail d)"
    using assms by (simp add: dc_ok_def of_nat_diff)
  then show ?thesis using False by (simp add: buf_used_def Let_def del: of_nat_add)
qed

lemma buf_used_mod:
  assumes "dc_ok d"
  shows "buf_used d < DATA_COLLECT_BUF_SIZE" and "(dc_buf_tail d + buf_used d) mod DATA_COLLECT_BUF_SIZE = dc_buf_head d"
  using assms by (auto simp: dc_ok_def buf_used_cases)

lemma buf_used_unique:
  assumes "dc_ok d" and "n < DATA_COLLECT_BUF_SIZE" and "(dc_buf_tail d + n) mod DATA_COLLECT_BUF_SIZE = dc_buf_head d"
  shows "buf_used d = n"
proof -
  have t: "dc_buf_tail d < 16384" using assms(1) by (simp add: dc_ok_def)
  then have "dc_buf_head d = (if dc_buf_tail d + n < 16384 then dc_buf_tail d + n else dc_buf_tail d + n - 16384)"
    using assms(2,3) wrap_mod [of "dc_buf_tail d + n" 16384] by simp
  then show ?thesis using t assms(2) buf_used_cases [OF assms(1)] by (auto split: if_splits)
qed

lemma buf_put_content:
  assumes ok: "dc_ok d" and room: "buf_used d < DATA_COLLECT_BUF_SIZE - 1"
  shows "dc_content (buf_put b d) = dc_content d @ [b]" and "dc_ok (buf_put b d)"
    and "buf_used (buf_put b d) = Suc (buf_used d)"
proof -
  note u = buf_used_mod [OF ok]
  show ok': "dc_ok (buf_put b d)" using ok by (simp add: buf_put_def dc_ok_def)
  have "(dc_buf_tail d + Suc (buf_used d)) mod 16384 = (dc_buf_head d + 1) mod 16384"
    using u(2) by (metis Suc_eq_plus1 add.assoc mod_add_left_eq)
  then show n: "buf_used (buf_put b d) = Suc (buf_used d)"
    using buf_used_unique [OF ok', of "Suc (buf_used d)"] room by (simp add: buf_put_def)
  have neq: "dc_buf_head d \<noteq> (dc_buf_tail d + i) mod 16384" if "i < buf_used d" for i
    using u that buf_used_unique [OF ok, of i] by auto
  then have old: "dc_buf (buf_put b d) ! ((dc_buf_tail d + i) mod 16384) = dc_buf d ! ((dc_buf_tail d + i) mod 16384)"
    if "i < buf_used d" for i using neq [OF that] by (simp add: buf_put_def)
  have new: "dc_buf (buf_put b d) ! ((dc_buf_tail d + buf_used d) mod 16384) = b"
    using u(2) ok by (simp add: buf_put_def dc_ok_def)
  have "dc_buf_tail (buf_put b d) = dc_buf_tail d" by (simp add: buf_put_def)
  then show "dc_content (buf_put b d) = dc_content d @ [b]"
    using old new by (simp add: dc_content_def n)
qed

lemma buf_puts_content:
  assumes "dc_ok d" and "buf_used d + length bs \<le> DATA_COLLECT_BUF_SIZE - 1"
  shows "dc_content (fold buf_put bs d) = dc_content d @ bs \<and> dc_ok (fold buf_put bs d)"
  using assms
proof (induction bs arbitrary: d)
  case (Cons b bs)
  then show ?case using buf_put_content [OF Cons.prems(1), of b] by simp
qed simp

lemma length_dc_content [simp]: "length (dc_content d) = buf_used d"
  by (simp add: dc_content_def)

lemma dc_content_frame [simp]:
  "dc_content (d\<lparr>dc_last_rx_time := n\<rparr>) = dc_content d" "dc_content (d\<lparr>dc_frames_sent := m\<rparr>) = dc_content d"
  "dc_content (d\<lparr>dc_frames_dropped := m\<rparr>) = dc_content d"
  by (simp_all add: dc_content_def buf_used_def Let_def)

lemma dc_ok_frame [simp]:
  "dc_ok (d\<lparr>dc_last_rx_time := n\<rparr>) = dc_ok d" "dc_ok (d\<lparr>dc_frames_sent := m\<rparr>) = dc_ok d"
  "dc_ok (d\<lparr>dc_frames_dropped := m\<rparr>) = dc_ok d"
  by (simp_all add: dc_ok_def)

lemma dc_discard_content [simp]: "dc_content (dc_discard_buffer d) = []"
  by (simp add: dc_content_def dc_discard_buffer_def buf_used_def Let_def)

lemma dc_discard_ok [simp]: "dc_ok d \<Longrightarrow> dc_ok (dc_discard_buffer d)"
  by (simp add: dc_ok_def dc_discard_buffer_def)

text \<open>A port that takes at most what it is offered takes a prefix of the queue.\<close>

lemma contiguous_prefix:
  assumes "dc_ok d"
  shows "dc_contiguous_len d \<le> buf_used d" and "dc_buf_tail d + dc_contiguous_len d \<le> DATA_COLLECT_BUF_SIZE"
    and "k \<le> dc_contiguous_len d \<Longrightarrow> take k (drop (dc_buf_tail d) (dc_buf d)) = take k (dc_content d)"
proof -
  show 1: "dc_contiguous_len d \<le> buf_used d" and 2: "dc_buf_tail d + dc_contiguous_len d \<le> DATA_COLLECT_BUF_SIZE"
    using assms by (auto simp: dc_contiguous_len_def buf_used_cases dc_ok_def)
  have len: "length (dc_buf d) = 16384" using assms by (simp add: dc_ok_def)
  show "take k (drop (dc_buf_tail d) (dc_buf d)) = take k (dc_content d)" if "k \<le> dc_contiguous_len d"
    using that 1 2 len by (intro nth_equalityI) (auto simp: dc_content_def)
qed

lemma advance_content:
  assumes "dc_ok d" and "k \<le> buf_used d"
  shows "dc_content (d\<lparr>dc_buf_tail := (dc_buf_tail d + k) mod DATA_COLLECT_BUF_SIZE\<rparr>) = drop k (dc_content d)"
    and "dc_ok (d\<lparr>dc_buf_tail := (dc_buf_tail d + k) mod DATA_COLLECT_BUF_SIZE\<rparr>)"
proof -
  let ?d = "d\<lparr>dc_buf_tail := (dc_buf_tail d + k) mod DATA_COLLECT_BUF_SIZE\<rparr>"
  note u = buf_used_mod [OF assms(1)]
  show ok: "dc_ok ?d" using assms by (simp add: dc_ok_def)
  have "(dc_buf_tail ?d + (buf_used d - k)) mod 16384 = dc_buf_head ?d"
    using u(2) assms(2) mod_add_left_eq [of "dc_buf_tail d + k" 16384 "buf_used d - k"] by simp
  then have n: "buf_used ?d = buf_used d - k" using buf_used_unique [OF ok] u(1) by simp
  show "dc_content ?d = drop k (dc_content d)"
    using assms(2) by (intro nth_equalityI) (simp_all add: dc_content_def n mod_add_left_eq add.assoc less_diff_conv)
qed

section \<open>The stream\<close>

text \<open>What one round takes out of the ring, and what one packet puts in.\<close>

definition round_taken :: "dc_round \<Rightarrow> data_collect \<Rightarrow> bytes" where
  "round_taken r d =
     (if rd_tx_ready r then take (nat (rd_sent r (dc_contiguous_len d)))
        (take (dc_contiguous_len d) (drop (dc_buf_tail d) (dc_buf d))) else [])"

definition write_put :: "zephyr \<Rightarrow> bytes \<Rightarrow> u8 \<Rightarrow> u32 \<Rightarrow> data_collect \<Rightarrow> bytes" where
  "write_put z data rssi ticks d =
     (if cdc_ready d \<and> length data + 9 \<le> buf_free d then dc_frame z data rssi ticks else [])"

datatype dc_op = DcWrite bytes u8 int u32 | DcRound dc_round

fun dc_stream :: "zephyr \<Rightarrow> dc_op list \<Rightarrow> data_collect \<Rightarrow> bytes \<times> bytes \<times> data_collect" where
  "dc_stream z [] d = ([], [], d)"
| "dc_stream z (DcWrite data rssi now ticks # ops) d =
     (let (put, taken, d') = dc_stream z ops (snd (data_collect_write z data rssi now ticks d))
      in (write_put z data rssi ticks d @ put, taken, d'))"
| "dc_stream z (DcRound r # ops) d =
     (let (put, taken, d') = dc_stream z ops (snd (dc_uart_round r d))
      in (put, round_taken r d @ taken, d'))"

definition port_open :: "dc_op \<Rightarrow> bool" where
  "port_open op \<longleftrightarrow> (case op of DcWrite _ _ _ _ \<Rightarrow> True
     | DcRound r \<Rightarrow> rd_line_ret r = 0 \<and> rd_dtr r \<noteq> 0 \<and> (\<forall>n. rd_sent r n \<le> int n))"

lemma length_dc_frame: "zephyr_law z \<Longrightarrow> length (dc_frame z data rssi ticks) = length data + 9"
  by (simp add: dc_frame_def Let_def zephyr_law_def)

lemma write_content:
  assumes ok: "dc_ok d" and law: "zephyr_law z"
    and d'_def: "d' = snd (data_collect_write z data rssi now ticks d)"
  shows "dc_content d' = dc_content d @ write_put z data rssi ticks d" and "dc_ok d'" and "cdc_dev d' = cdc_dev d"
proof -
  let ?d1 = "d\<lparr>dc_last_rx_time := now\<rparr>"
  have fr: "buf_free ?d1 = buf_free d" "buf_used ?d1 = buf_used d" by (simp_all add: buf_free_def buf_used_def Let_def)
  have "cdc_dev (fold buf_put bs x) = cdc_dev x" for bs x by (induction bs arbitrary: x) (simp_all add: buf_put_def)
  then show "cdc_dev d' = cdc_dev d" by (simp add: d'_def data_collect_write_def Let_def)
  have "dc_content d' = dc_content d @ write_put z data rssi ticks d \<and> dc_ok d'"
  proof (cases "cdc_ready d \<and> length data + 9 \<le> buf_free d")
    case True
    then have "length data + 9 \<le> 16383 - buf_used d" by (simp add: buf_free_def)
    then have "buf_used d + (length data + 9) \<le> 16383" by linarith
    then have "buf_used ?d1 + length (dc_frame z data rssi ticks) \<le> DATA_COLLECT_BUF_SIZE - 1"
      by (simp add: length_dc_frame [OF law] fr)
    then show ?thesis
      using buf_puts_content [of ?d1 "dc_frame z data rssi ticks"] True ok fr
      by (simp add: d'_def data_collect_write_def write_put_def Let_def)
  next
    case False
    then show ?thesis using ok fr by (auto simp: d'_def data_collect_write_def write_put_def Let_def)
  qed
  then show "dc_content d' = dc_content d @ write_put z data rssi ticks d" and "dc_ok d'" by simp_all
qed

lemma round_content:
  assumes ok: "dc_ok d" and dev: "cdc_dev d" and port: "port_open (DcRound r)"
    and d'_def: "d' = snd (dc_uart_round r d)"
  shows "round_taken r d @ dc_content d' = dc_content d" and "dc_ok d'" and "cdc_dev d' = cdc_dev d"
proof -
  let ?len = "dc_contiguous_len d" and ?k = "nat (rd_sent r (dc_contiguous_len d))"
  have op: "cdc_host_is_open (rd_line_ret r) (rd_dtr r) d" using port dev by (simp add: port_open_def cdc_host_is_open_def)
  have k: "?k \<le> ?len" using port by (simp add: port_open_def nat_le_iff)
  note pre = contiguous_prefix [OF ok]
  have "round_taken r d @ dc_content d' = dc_content d \<and> dc_ok d' \<and> cdc_dev d' = cdc_dev d"
  proof (cases "rd_tx_ready r \<and> ?len \<noteq> 0 \<and> 0 < rd_sent r ?len")
    case True
    then have d': "d' = d\<lparr>dc_buf_tail := (dc_buf_tail d + ?k) mod DATA_COLLECT_BUF_SIZE\<rparr>"
      using op by (simp add: d'_def dc_uart_round_def Let_def)
    have "round_taken r d = take ?k (dc_content d)"
      using True k pre(3) [of ?k] by (simp add: round_taken_def take_take min_absorb1)
    then show ?thesis using advance_content [OF ok, of ?k] k pre(1) by (simp add: d')
  next
    case False
    then have "d' = d" using op by (auto simp: d'_def dc_uart_round_def Let_def)
    moreover have "round_taken r d = []" using False k by (auto simp: round_taken_def)
    ultimately show ?thesis using ok by simp
  qed
  then show "round_taken r d @ dc_content d' = dc_content d" and "dc_ok d'" and "cdc_dev d' = cdc_dev d" by simp_all
qed


definition collecting_port :: data_collect where
  "collecting_port = dc_boot\<lparr>cdc_dev := True, cdc_ready := True, dc_buf_head := 16380, dc_buf_tail := 16380\<rparr>"


end
