(* ===== verification/HidFifo.thy ===== *)
theory HidFifo
  imports Prelude
begin

text \<open>
  The lock-free queue of reports to the host in \<open>hid.c\<close>: a ring of 64 slots with a ticket
  counter on each end and a sequence number in each slot. Producers run in the radio interrupt and
  in threads and may interrupt each other at any point; one consumer peeks, submits and consumes. Each
  access to shared memory is one definition; \<open>hid_fifo_try_push\<close> and \<open>hid_fifo_consume\<close> compose
  them the way an undisturbed call runs.
\<close>

abbreviation (input) MAX_REPORTS :: nat where "MAX_REPORTS \<equiv> 64"
abbreviation (input) HID_FIFO_PRIORITY_RESERVE :: u32 where "HID_FIFO_PRIORITY_RESERVE \<equiv> 2"
abbreviation (input) HID_FIFO_MASK :: u32 where "HID_FIFO_MASK \<equiv> 63"
abbreviation (input) RCV_HID_TYPE_CMD_ACK :: u8 where "RCV_HID_TYPE_CMD_ACK \<equiv> 251"

record hid_fifo_slot =
  fs_data :: bytes
  fs_generation :: u32
  fs_seq :: u32

record hid_fifo =
  hid_fifo_slots :: "hid_fifo_slot list"
  hid_fifo_write_pos :: u32
  hid_fifo_read_pos :: u32

definition slot_index :: "u32 \<Rightarrow> nat" where
  "slot_index pos = unat (pos AND HID_FIFO_MASK)"

definition hid_fifo_init :: "hid_fifo \<Rightarrow> hid_fifo" where
  "hid_fifo_init f =
     \<lparr>hid_fifo_slots = map (\<lambda>(i, s). s\<lparr>fs_seq := of_nat i\<rparr>) (enumerate 0 (hid_fifo_slots f)),
      hid_fifo_write_pos = 0, hid_fifo_read_pos = 0\<rparr>"

definition hid_fifo_is_priority :: "u8 \<Rightarrow> bool" where
  "hid_fifo_is_priority type \<longleftrightarrow> type = RCV_HID_TYPE_CMD_ACK \<or> (0xF0 \<le> type \<and> type \<le> 0xF7)"

text \<open>The two checks between the loads and the compare-and-swap, the swap, the two stores.\<close>

definition hid_fifo_admits :: "bool \<Rightarrow> u32 \<Rightarrow> u32 \<Rightarrow> bool" where
  "hid_fifo_admits priority pos read =
     (let count = pos - read
      in if of_nat MAX_REPORTS \<le> count then False
         else \<not> (\<not> priority \<and> of_nat MAX_REPORTS - count \<le> HID_FIFO_PRIORITY_RESERVE))"

definition hid_fifo_cas :: "u32 \<Rightarrow> hid_fifo \<Rightarrow> bool \<times> hid_fifo" where
  "hid_fifo_cas pos f =
     (if hid_fifo_write_pos f = pos then (True, f\<lparr>hid_fifo_write_pos := pos + 1\<rparr>) else (False, f))"

definition hid_fifo_fill :: "u32 \<Rightarrow> bytes \<Rightarrow> u32 \<Rightarrow> hid_fifo \<Rightarrow> hid_fifo" where
  "hid_fifo_fill pos data generation f =
     f\<lparr>hid_fifo_slots := (hid_fifo_slots f)[slot_index pos :=
         (hid_fifo_slots f ! slot_index pos)\<lparr>fs_data := data, fs_generation := generation\<rparr>]\<rparr>"

definition hid_fifo_publish :: "u32 \<Rightarrow> hid_fifo \<Rightarrow> hid_fifo" where
  "hid_fifo_publish pos f =
     f\<lparr>hid_fifo_slots := (hid_fifo_slots f)[slot_index pos :=
         (hid_fifo_slots f ! slot_index pos)\<lparr>fs_seq := pos + 1\<rparr>]\<rparr>"

definition hid_fifo_try_push :: "bytes \<Rightarrow> bool \<Rightarrow> u32 \<Rightarrow> hid_fifo \<Rightarrow> bool \<times> hid_fifo" where
  "hid_fifo_try_push data priority generation f =
     (let pos = hid_fifo_write_pos f
      in if \<not> hid_fifo_admits priority pos (hid_fifo_read_pos f) then (False, f)
         else (True, hid_fifo_publish pos (hid_fifo_fill pos data generation (snd (hid_fifo_cas pos f)))))"

text \<open>Peeking at most \<open>k\<close> more records, \<open>n\<close> of them already taken.\<close>

fun peek_loop :: "hid_fifo \<Rightarrow> u32 \<Rightarrow> nat \<Rightarrow> nat \<Rightarrow> (bytes \<times> u32) list" where
  "peek_loop f read n 0 = []"
| "peek_loop f read n (Suc k) =
     (let slot = hid_fifo_slots f ! slot_index (read + of_nat n)
      in if fs_seq slot \<noteq> read + of_nat n + 1 then []
         else (fs_data slot, fs_generation slot) # peek_loop f read (Suc n) k)"

definition hid_fifo_peek_batch :: "nat \<Rightarrow> hid_fifo \<Rightarrow> (bytes \<times> u32) list" where
  "hid_fifo_peek_batch limit f = peek_loop f (hid_fifo_read_pos f) 0 limit"

text \<open>The two stores of one round of \<open>hid_fifo_consume\<close>.\<close>

definition hid_fifo_release :: "hid_fifo \<Rightarrow> hid_fifo" where
  "hid_fifo_release f =
     (let read = hid_fifo_read_pos f
      in f\<lparr>hid_fifo_slots := (hid_fifo_slots f)[slot_index read :=
           (hid_fifo_slots f ! slot_index read)\<lparr>fs_seq := read + of_nat MAX_REPORTS\<rparr>]\<rparr>)"

definition hid_fifo_advance :: "hid_fifo \<Rightarrow> hid_fifo" where
  "hid_fifo_advance f = f\<lparr>hid_fifo_read_pos := hid_fifo_read_pos f + 1\<rparr>"

fun hid_fifo_consume :: "nat \<Rightarrow> hid_fifo \<Rightarrow> hid_fifo" where
  "hid_fifo_consume 0 f = f"
| "hid_fifo_consume (Suc n) f = hid_fifo_consume n (hid_fifo_advance (hid_fifo_release f))"

definition hid_fifo_is_empty :: "hid_fifo \<Rightarrow> bool" where
  "hid_fifo_is_empty f \<longleftrightarrow>
     (let read = hid_fifo_read_pos f
      in fs_seq (hid_fifo_slots f ! slot_index read) \<noteq> read + 1)"

end
