(* ===== verification/HidFifoCorrect.thy ===== *)
theory HidFifoCorrect
  imports HidFifo
begin

text \<open>
  The queue of reports under every interleaving of its producers and its consumer: the step
  relation over the shared accesses, its invariant, and the order of delivery. Numbers of
  claims and of consumed records are kept as unbounded ghost counters beside the 32 bit tickets.
\<close>

section \<open>Interleavings\<close>

record item =
  it_data :: bytes
  it_generation :: u32
  it_priority :: bool

text \<open>
  Where a producer stands in \<open>hid_fifo_try_push\<close>, with the ticket it loaded and, as a ghost, the
  number of claims at that moment.
\<close>

datatype producer = Idle | Start item | Loaded item u32 nat | Admitted item u32 nat
  | Claimed item u32 nat | Filled item u32 nat

datatype consumer = Free | Holding "(bytes \<times> u32) list" | Consuming nat | Released nat

record ring_sys =
  fifo :: hid_fifo
  producers :: "producer list"
  reader :: consumer
  claims :: nat
  consumed :: nat
  accepted :: "item list"
  delivered :: "(bytes \<times> u32) list"

definition record_of :: "item \<Rightarrow> bytes \<times> u32" where
  "record_of it = (it_data it, it_generation it)"

text \<open>
  The compare-and-swap may succeed on a ticket that is 2^32 claims old; the rule \<open>cas\<close> excludes
  that a producer is interrupted for so long.
\<close>

inductive ring_step :: "ring_sys \<Rightarrow> ring_sys \<Rightarrow> bool" where
  start: "i < length (producers s) \<Longrightarrow> producers s ! i = Idle \<Longrightarrow>
    ring_step s (s\<lparr>producers := (producers s)[i := Start it]\<rparr>)"
| load: "i < length (producers s) \<Longrightarrow> producers s ! i = Start it \<Longrightarrow>
    ring_step s (s\<lparr>producers := (producers s)[i := Loaded it (hid_fifo_write_pos (fifo s)) (claims s)]\<rparr>)"
| refuse: "i < length (producers s) \<Longrightarrow> producers s ! i = Loaded it pos g \<Longrightarrow>
    \<not> hid_fifo_admits (it_priority it) pos (hid_fifo_read_pos (fifo s)) \<Longrightarrow>
    ring_step s (s\<lparr>producers := (producers s)[i := Idle]\<rparr>)"
| admit: "i < length (producers s) \<Longrightarrow> producers s ! i = Loaded it pos g \<Longrightarrow>
    hid_fifo_admits (it_priority it) pos (hid_fifo_read_pos (fifo s)) \<Longrightarrow>
    ring_step s (s\<lparr>producers := (producers s)[i := Admitted it pos g]\<rparr>)"
| cas: "i < length (producers s) \<Longrightarrow> producers s ! i = Admitted it pos g \<Longrightarrow>
    hid_fifo_cas pos (fifo s) = (True, f) \<Longrightarrow> claims s < g + 2 ^ 32 \<Longrightarrow>
    ring_step s (s\<lparr>fifo := f, producers := (producers s)[i := Claimed it pos g],
      claims := Suc (claims s), accepted := accepted s @ [it]\<rparr>)"
| retry: "i < length (producers s) \<Longrightarrow> producers s ! i = Admitted it pos g \<Longrightarrow>
    hid_fifo_cas pos (fifo s) = (False, f) \<Longrightarrow>
    ring_step s (s\<lparr>fifo := f, producers := (producers s)[i := Start it]\<rparr>)"
| fill: "i < length (producers s) \<Longrightarrow> producers s ! i = Claimed it pos g \<Longrightarrow>
    ring_step s (s\<lparr>fifo := hid_fifo_fill pos (it_data it) (it_generation it) (fifo s),
      producers := (producers s)[i := Filled it pos g]\<rparr>)"
| publish: "i < length (producers s) \<Longrightarrow> producers s ! i = Filled it pos g \<Longrightarrow>
    ring_step s (s\<lparr>fifo := hid_fifo_publish pos (fifo s), producers := (producers s)[i := Idle]\<rparr>)"
| peek: "reader s = Free \<Longrightarrow> m \<le> 4 \<Longrightarrow>
    ring_step s (s\<lparr>reader := Holding (hid_fifo_peek_batch m (fifo s))\<rparr>)"
| rejected: "reader s = Holding xs \<Longrightarrow> ring_step s (s\<lparr>reader := Free\<rparr>)"
| submit: "reader s = Holding xs \<Longrightarrow>
    ring_step s (s\<lparr>reader := Consuming (length xs), delivered := delivered s @ xs\<rparr>)"
| release: "reader s = Consuming (Suc k) \<Longrightarrow>
    ring_step s (s\<lparr>fifo := hid_fifo_release (fifo s), reader := Released k\<rparr>)"
| advance: "reader s = Released k \<Longrightarrow>
    ring_step s (s\<lparr>fifo := hid_fifo_advance (fifo s), reader := Consuming k, consumed := Suc (consumed s)\<rparr>)"
| finish: "reader s = Consuming 0 \<Longrightarrow> ring_step s (s\<lparr>reader := Free\<rparr>)"

definition ring_boot :: "nat \<Rightarrow> hid_fifo \<Rightarrow> ring_sys" where
  "ring_boot n f = \<lparr>fifo = hid_fifo_init f, producers = replicate n Idle, reader = Free, claims = 0,
     consumed = 0, accepted = [], delivered = []\<rparr>"

section \<open>The invariant\<close>

definition ring_seq :: "ring_sys \<Rightarrow> nat \<Rightarrow> u32" where
  "ring_seq s p = fs_seq (hid_fifo_slots (fifo s) ! (p mod MAX_REPORTS))"

definition ring_record :: "ring_sys \<Rightarrow> nat \<Rightarrow> bytes \<times> u32" where
  "ring_record s p = (let x = hid_fifo_slots (fifo s) ! (p mod MAX_REPORTS) in (fs_data x, fs_generation x))"

definition published :: "ring_sys \<Rightarrow> nat \<Rightarrow> bool" where
  "published s p \<longleftrightarrow> ring_seq s p = of_nat (Suc p) \<and> ring_record s p = record_of (accepted s ! p)"

fun taken_until :: "consumer \<Rightarrow> nat" where
  "taken_until (Consuming k) = k"
| "taken_until (Released k) = Suc k"
| "taken_until _ = 0"

fun held :: "consumer \<Rightarrow> nat" where
  "held (Consuming k) = k"
| "held (Released k) = Suc k"
| "held (Holding xs) = length xs"
| "held Free = 0"

fun released :: "consumer \<Rightarrow> nat" where
  "released (Released k) = 1"
| "released _ = 0"

fun producer_ok :: "ring_sys \<Rightarrow> producer \<Rightarrow> bool" where
  "producer_ok s (Loaded it pos g) \<longleftrightarrow> pos = of_nat g \<and> g \<le> claims s"
| "producer_ok s (Admitted it pos g) \<longleftrightarrow> pos = of_nat g \<and> g \<le> claims s \<and> g < consumed s + MAX_REPORTS"
| "producer_ok s (Claimed it pos g) \<longleftrightarrow> pos = of_nat g \<and> consumed s + held (reader s) \<le> g \<and> g < claims s \<and>
     ring_seq s g = of_nat g \<and> accepted s ! g = it"
| "producer_ok s (Filled it pos g) \<longleftrightarrow> pos = of_nat g \<and> consumed s + held (reader s) \<le> g \<and> g < claims s \<and>
     ring_seq s g = of_nat g \<and> accepted s ! g = it \<and> ring_record s g = record_of it"
| "producer_ok s _ \<longleftrightarrow> True"

fun ticket :: "producer \<Rightarrow> nat option" where
  "ticket (Claimed it pos g) = Some g"
| "ticket (Filled it pos g) = Some g"
| "ticket _ = None"

definition counters_ok :: "ring_sys \<Rightarrow> bool" where
  "counters_ok s \<longleftrightarrow> length (hid_fifo_slots (fifo s)) = MAX_REPORTS \<and>
     hid_fifo_write_pos (fifo s) = of_nat (claims s) \<and> hid_fifo_read_pos (fifo s) = of_nat (consumed s) \<and>
     consumed s + held (reader s) \<le> claims s \<and> claims s \<le> consumed s + MAX_REPORTS \<and>
     length (accepted s) = claims s"

definition slots_ok :: "ring_sys \<Rightarrow> bool" where
  "slots_ok s \<longleftrightarrow>
     (\<forall>p. claims s \<le> p \<and> p < consumed s + MAX_REPORTS \<longrightarrow> ring_seq s p = of_nat p) \<and>
     (\<forall>p. consumed s + released (reader s) \<le> p \<and> p < claims s \<longrightarrow>
        published s p \<or> (ring_seq s p = of_nat p \<and> consumed s + held (reader s) \<le> p)) \<and>
     (released (reader s) = 1 \<longrightarrow> ring_seq s (consumed s) = of_nat (consumed s + MAX_REPORTS))"

definition producers_ok :: "ring_sys \<Rightarrow> bool" where
  "producers_ok s \<longleftrightarrow> (\<forall>i<length (producers s). producer_ok s (producers s ! i)) \<and>
     (\<forall>i<length (producers s). \<forall>j<length (producers s). i \<noteq> j \<longrightarrow> ticket (producers s ! i) \<noteq> None \<longrightarrow>
        ticket (producers s ! i) \<noteq> ticket (producers s ! j))"

definition reader_ok :: "ring_sys \<Rightarrow> bool" where
  "reader_ok s \<longleftrightarrow>
     delivered s = map record_of (take (consumed s + taken_until (reader s)) (accepted s)) \<and>
     (\<forall>xs. reader s = Holding xs \<longrightarrow> length xs \<le> 4 \<and>
        xs = map record_of (take (length xs) (drop (consumed s) (accepted s))))"

definition ring_inv :: "ring_sys \<Rightarrow> bool" where
  "ring_inv s \<longleftrightarrow> counters_ok s \<and> slots_ok s \<and> producers_ok s \<and> reader_ok s"

lemma slot_index_of_nat [simp]: "slot_index (of_nat p) = p mod MAX_REPORTS"
proof -
  have "(of_nat p :: u32) AND 63 = take_bit 6 (of_nat p)" by (simp add: take_bit_eq_mask mask_eq_exp_minus_1)
  then have "unat ((of_nat p :: u32) AND 63) = take_bit 6 (unat (of_nat p :: u32))" by (metis unsigned_take_bit_eq)
  also have "\<dots> = p mod 64" by (simp add: unat_of_nat take_bit_eq_mod mod_mod_cancel)
  finally show ?thesis by (simp add: slot_index_def)
qed

lemma u32_Suc_neq: "(of_nat p :: u32) \<noteq> of_nat (Suc p)"
  by simp

lemma window_neq:
  assumes "p \<noteq> q" and "R \<le> p" "p < R + MAX_REPORTS" "R \<le> q" "q < R + MAX_REPORTS"
  shows "p mod MAX_REPORTS \<noteq> q mod MAX_REPORTS"
  using assms mod_window_neq [of p q 64] mod_window_neq [of q p 64] by (cases "p < q") auto

lemma taken_held: "taken_until r \<le> held r"
  by (cases r) auto

text \<open>Steps of a producer that touch nothing shared.\<close>

lemma producer_ok_cong:
  assumes "fifo s' = fifo s" "claims s' = claims s" "consumed s' = consumed s" "reader s' = reader s" "accepted s' = accepted s"
  shows "producer_ok s' P = producer_ok s P"
  by (cases P) (simp_all add: assms ring_seq_def ring_record_def)

lemma local_step:
  assumes inv: "ring_inv s" and i: "i < length (producers s)" and ok: "producer_ok s P"
    and tk: "ticket P = None"
  shows "ring_inv (s\<lparr>producers := (producers s)[i := P]\<rparr>)"
proof -
  let ?s = "s\<lparr>producers := (producers s)[i := P]\<rparr>"
  have cong: "producer_ok ?s Q = producer_ok s Q" for Q by (rule producer_ok_cong) simp_all
  have "slots_ok ?s = slots_ok s" "counters_ok ?s = counters_ok s" "reader_ok ?s = reader_ok s"
    by (simp_all add: slots_ok_def counters_ok_def reader_ok_def published_def ring_seq_def ring_record_def)
  moreover have "producers_ok ?s"
    using inv i ok tk by (auto simp: ring_inv_def producers_ok_def cong nth_list_update)
  ultimately show ?thesis using inv by (simp add: ring_inv_def)
qed

text \<open>What a step that writes slot \<open>p\<close> leaves alone.\<close>

lemma write_slot_other:
  assumes "p mod MAX_REPORTS \<noteq> q mod MAX_REPORTS"
    and "hid_fifo_slots f' = (hid_fifo_slots (fifo s))[p mod MAX_REPORTS := x]"
  shows "ring_seq (s\<lparr>fifo := f'\<rparr>) q = ring_seq s q" and "ring_record (s\<lparr>fifo := f'\<rparr>) q = ring_record s q"
  using assms by (simp_all add: ring_seq_def ring_record_def)

lemma admit_bound:
  assumes adm: "hid_fifo_admits b (of_nat g) (of_nat R)" and "g \<le> C" and "C \<le> R + MAX_REPORTS"
  shows "g < R + MAX_REPORTS"
proof (rule ccontr)
  assume "\<not> g < R + MAX_REPORTS"
  then have g: "g = R + MAX_REPORTS" using assms(2,3) by simp
  have "(of_nat g :: u32) - of_nat R = 64" by (simp add: g)
  with adm show False by (simp add: hid_fifo_admits_def Let_def)
qed

lemma cas_ticket:
  assumes "(of_nat C :: u32) = of_nat g" and "g \<le> C" and "C < g + 2 ^ 32"
  shows "C = g"
proof -
  have "(of_nat (C - g) :: u32) = 0" using assms(1,2) by (simp add: of_nat_diff)
  then have "2 ^ 32 dvd (C - g)" by (simp add: word_of_nat_eq_0_iff)
  then show ?thesis using assms(2,3) by (auto dest: dvd_imp_le)
qed

section \<open>Steps of the producers\<close>

lemma step_cas:
  assumes inv: "ring_inv s" and i: "i < length (producers s)" and P: "producers s ! i = Admitted it pos g"
    and f: "hid_fifo_cas pos (fifo s) = (True, f)" and c: "claims s < g + 2 ^ 32"
  shows "ring_inv (s\<lparr>fifo := f, producers := (producers s)[i := Claimed it pos g],
      claims := Suc (claims s), accepted := accepted s @ [it]\<rparr>)" (is "ring_inv ?s")
proof -
  have cnt: "counters_ok s" and sl: "slots_ok s" and pr: "producers_ok s" and rd: "reader_ok s"
    using inv by (simp_all add: ring_inv_def)
  have "producer_ok s (Admitted it pos g)" using pr i P by (metis producers_ok_def)
  then have g: "pos = of_nat g" "g \<le> claims s" "g < consumed s + MAX_REPORTS" by simp_all
  have w: "hid_fifo_write_pos (fifo s) = pos" and f': "f = (fifo s)\<lparr>hid_fifo_write_pos := pos + 1\<rparr>"
    using f by (auto simp: hid_fifo_cas_def split: if_splits)
  have C: "claims s = g" using cas_ticket g(1,2) c w cnt by (simp add: counters_ok_def)
  have len: "length (accepted s) = g" using cnt C by (simp add: counters_ok_def)
  define s1 where "s1 = ?s"
  have fr: "claims s1 = Suc g" "consumed s1 = consumed s" "reader s1 = reader s" "delivered s1 = delivered s"
    "accepted s1 = accepted s @ [it]" "producers s1 = (producers s)[i := Claimed it pos g]" "fifo s1 = f"
    by (simp_all add: s1_def C)
  have view: "ring_seq s1 p = ring_seq s p" "ring_record s1 p = ring_record s p" for p
    by (simp_all add: ring_seq_def ring_record_def fr f')
  have old: "accepted s1 ! p = accepted s ! p" if "p < g" for p using that len by (simp add: fr nth_append)
  have "counters_ok s1" using cnt g C by (simp add: counters_ok_def fr f')
  moreover have "slots_ok s1"
    unfolding slots_ok_def
  proof (intro conjI allI impI)
    fix p assume p: "consumed s1 + released (reader s1) \<le> p \<and> p < claims s1"
    show "published s1 p \<or> ring_seq s1 p = of_nat p \<and> consumed s1 + held (reader s1) \<le> p"
    proof (cases "p = g")
      case True
      have "ring_seq s g = of_nat g" using sl g(3) C by (simp add: slots_ok_def)
      then have "ring_seq s1 g = of_nat g" by (simp only: view)
      moreover have "consumed s1 + held (reader s1) \<le> g" using cnt C by (simp add: counters_ok_def fr)
      ultimately show ?thesis using True by blast
    next
      case False
      then have p': "consumed s + released (reader s) \<le> p" "p < claims s" using p C by (simp_all add: fr)
      then have "published s p \<or> ring_seq s p = of_nat p \<and> consumed s + held (reader s) \<le> p"
        using sl by (simp add: slots_ok_def)
      moreover have "p < g" using p'(2) C by simp
      then have "published s1 p = published s p" by (simp only: published_def view old)
      ultimately show ?thesis by (simp add: view fr)
    qed
  qed (use sl C in \<open>simp_all add: slots_ok_def view fr\<close>)
  moreover have "producers_ok s1"
  proof -
    have keep: "producer_ok s1 Q" if "producer_ok s Q" for Q
      using that C old by (cases Q) (auto simp: view fr)
    have new: "producer_ok s1 (Claimed it pos g)"
      using g C sl len cnt by (auto simp: view fr slots_ok_def counters_ok_def nth_append)
    have tk: "ticket (producers s ! j) \<noteq> Some g" if "j < length (producers s)" for j
    proof -
      have "producer_ok s (producers s ! j)" using pr that by (simp add: producers_ok_def)
      then show ?thesis using C by (cases "producers s ! j") auto
    qed
    show ?thesis
      using pr keep new tk tk [THEN not_sym] i by (auto simp: producers_ok_def nth_list_update fr)
  qed
  moreover have "reader_ok s1"
    using rd cnt len C taken_held [of "reader s"] by (auto simp: reader_ok_def counters_ok_def fr)
  ultimately show ?thesis by (simp add: ring_inv_def flip: s1_def)
qed

text \<open>The two stores of a producer into the slot it claimed.\<close>

lemma step_store:
  assumes inv: "ring_inv s" and i: "i < length (producers s)" and g: "ticket (producers s ! i) = Some g"
    and f: "f' = (fifo s)\<lparr>hid_fifo_slots := (hid_fifo_slots (fifo s))[g mod MAX_REPORTS := x]\<rparr>"
    and q: "ticket P = None \<or> ticket P = Some g"
    and P: "producer_ok (s\<lparr>fifo := f'\<rparr>) P" and pub: "fs_seq x = of_nat g \<or> published (s\<lparr>fifo := f'\<rparr>) g \<and> ticket P = None"
  shows "ring_inv (s\<lparr>fifo := f', producers := (producers s)[i := P]\<rparr>)" (is "ring_inv ?s")
proof -
  have cnt: "counters_ok s" and sl: "slots_ok s" and pr: "producers_ok s" and rd: "reader_ok s"
    using inv by (simp_all add: ring_inv_def)
  have "producer_ok s (producers s ! i)" using pr i by (simp add: producers_ok_def)
  then have b: "consumed s + held (reader s) \<le> g" "g < claims s" "ring_seq s g = of_nat g"
    using g by (cases "producers s ! i"; simp)+
  have R: "claims s \<le> consumed s + MAX_REPORTS" using cnt by (simp add: counters_ok_def)
  have len: "length (hid_fifo_slots (fifo s)) = 64" using cnt by (simp add: counters_ok_def)
  define s1 where "s1 = s\<lparr>fifo := f'\<rparr>"
  have view: "ring_seq s1 p = ring_seq s p" "ring_record s1 p = ring_record s p"
    if "p \<noteq> g" "consumed s \<le> p" "p < consumed s + MAX_REPORTS" for p
    using write_slot_other [of g p f' s x] window_neq [of g p "consumed s"] that b R by (simp_all add: f s1_def)
  have self: "ring_seq s1 g = fs_seq x" using len by (simp add: ring_seq_def f s1_def)
  have seqg: "ring_seq s1 g = of_nat g \<or> published s1 g \<and> ticket P = None" using pub self by (simp add: s1_def)
  have pubs: "published s1 p = published s p" if "p \<noteq> g" "consumed s \<le> p" "p < consumed s + MAX_REPORTS" for p
    using view [OF that] by (simp add: published_def) (simp add: s1_def)
  have fr: "claims s1 = claims s" "consumed s1 = consumed s" "reader s1 = reader s" "accepted s1 = accepted s"
    "delivered s1 = delivered s" "producers s1 = producers s" by (simp_all add: s1_def)
  have ps: "ring_seq ?s p = ring_seq s1 p" "published ?s p = published s1 p" for p
    by (simp_all add: ring_seq_def published_def ring_record_def s1_def)
  have "counters_ok ?s" using cnt by (simp add: counters_ok_def f)
  moreover have "slots_ok ?s"
    unfolding slots_ok_def ps
  proof (intro conjI allI impI)
    fix p assume p: "claims ?s \<le> p \<and> p < consumed ?s + MAX_REPORTS"
    then have "p \<noteq> g" "consumed s \<le> p" using b by auto
    then show "ring_seq s1 p = of_nat p" using p sl view(1) by (simp add: slots_ok_def)
  next
    fix p assume p: "consumed ?s + released (reader ?s) \<le> p \<and> p < claims ?s"
    show "published s1 p \<or> ring_seq s1 p = of_nat p \<and> consumed ?s + held (reader ?s) \<le> p"
    proof (cases "p = g")
      case True
      then show ?thesis using seqg b(1) by auto
    next
      case False
      then show ?thesis using p sl R view(1) [of p] pubs [of p] by (simp add: slots_ok_def)
    qed
  next
    assume "released (reader ?s) = 1"
    then obtain k where k: "reader s = Released k" by (cases "reader s") auto
    then have "consumed s \<noteq> g" using b(1) by simp
    then show "ring_seq s1 (consumed ?s) = of_nat (consumed ?s + MAX_REPORTS)"
      using sl k view(1) [of "consumed s"] by (simp add: slots_ok_def)
  qed
  moreover have "producers_ok ?s"
  proof -
    have cong: "producer_ok ?s Q = producer_ok s1 Q" for Q by (rule producer_ok_cong) (simp_all add: s1_def)
    have other: "producer_ok s1 (producers s ! j) \<and> ticket (producers s ! j) \<noteq> Some g"
      if j: "j < length (producers s)" "j \<noteq> i" for j
    proof -
      have "producer_ok s (producers s ! j)" using pr j by (simp add: producers_ok_def)
      moreover have "ticket (producers s ! j) \<noteq> Some g"
        using pr j i g unfolding producers_ok_def by (metis option.distinct(1))
      ultimately have "producer_ok s (producers s ! j)" and ne: "ticket (producers s ! j) \<noteq> Some g" .
      then show ?thesis
        using R view by (cases "producers s ! j") (auto simp: fr)
    qed
    show ?thesis
      using pr other P i g q unfolding producers_ok_def cong by (auto simp: nth_list_update s1_def)
  qed
  moreover have "reader_ok ?s" using rd by (simp add: reader_ok_def)
  ultimately show ?thesis by (simp add: ring_inv_def)
qed

section \<open>Steps of the consumer\<close>

lemma peek_loop_correct:
  assumes inv: "ring_inv s" and rel: "released (reader s) = 0" and lim: "n + k < MAX_REPORTS"
    and n: "consumed s + n \<le> claims s"
  shows "\<exists>l. peek_loop (fifo s) (hid_fifo_read_pos (fifo s)) n k =
     map record_of (take l (drop (consumed s + n) (accepted s))) \<and> l \<le> k \<and> consumed s + n + l \<le> claims s \<and>
     (\<forall>p. consumed s + n \<le> p \<and> p < consumed s + n + l \<longrightarrow> published s p)"
  using lim n
proof (induction k arbitrary: n)
  case 0
  then show ?case by (intro exI [of _ 0]) auto
next
  case (Suc k)
  have cnt: "counters_ok s" and sl: "slots_ok s" using inv by (simp_all add: ring_inv_def)
  let ?p = "consumed s + n"
  have pos: "hid_fifo_read_pos (fifo s) + of_nat n = of_nat ?p" using cnt by (simp add: counters_ok_def)
  have slot: "fs_seq (hid_fifo_slots (fifo s) ! slot_index (of_nat ?p)) = ring_seq s ?p"
    "(fs_data (hid_fifo_slots (fifo s) ! slot_index (of_nat ?p)),
      fs_generation (hid_fifo_slots (fifo s) ! slot_index (of_nat ?p))) = ring_record s ?p"
    by (simp_all only: slot_index_of_nat ring_seq_def ring_record_def Let_def)
  have loop: "peek_loop (fifo s) (hid_fifo_read_pos (fifo s)) n (Suc k) =
      (if ring_seq s ?p \<noteq> of_nat ?p + 1 then []
       else ring_record s ?p # peek_loop (fifo s) (hid_fifo_read_pos (fifo s)) (Suc n) k)"
    by (simp only: peek_loop.simps Let_def pos slot)
  show ?case
  proof (cases "ring_seq s ?p = of_nat ?p + 1")
    case False
    then show ?thesis using Suc.prems by (intro exI [of _ 0]) (auto simp: loop simp del: of_nat_add peek_loop.simps)
  next
    case True
    have "?p < claims s"
    proof (rule ccontr)
      assume "\<not> ?p < claims s"
      then have "ring_seq s ?p = of_nat ?p" using sl Suc.prems by (simp add: slots_ok_def)
      with True show False by simp
    qed
    have all: "published s p \<or> ring_seq s p = of_nat p" if "consumed s \<le> p" "p < claims s" for p
      using sl rel that by (auto simp: slots_ok_def)
    have pub: "published s ?p" using all [of ?p] \<open>?p < claims s\<close> True by (simp del: of_nat_add)
    obtain l where l: "peek_loop (fifo s) (hid_fifo_read_pos (fifo s)) (Suc n) k =
        map record_of (take l (drop (consumed s + Suc n) (accepted s)))" "l \<le> k"
        "consumed s + Suc n + l \<le> claims s"
        "\<forall>p. consumed s + Suc n \<le> p \<and> p < consumed s + Suc n + l \<longrightarrow> published s p"
      using Suc.IH [of "Suc n"] Suc.prems \<open>?p < claims s\<close> by auto
    have "drop ?p (accepted s) = accepted s ! ?p # drop (Suc ?p) (accepted s)"
      using \<open>?p < claims s\<close> cnt by (simp add: counters_ok_def Cons_nth_drop_Suc)
    moreover have "peek_loop (fifo s) (hid_fifo_read_pos (fifo s)) n (Suc k) =
        ring_record s ?p # peek_loop (fifo s) (hid_fifo_read_pos (fifo s)) (Suc n) k"
      using True by (simp only: loop) simp
    moreover have "ring_record s ?p = record_of (accepted s ! ?p)" using pub by (simp add: published_def)
    moreover have "published s p" if "?p \<le> p" "p < ?p + Suc l" for p
      using that pub l(4) by (cases "p = ?p") auto
    ultimately show ?thesis using l by (intro exI [of _ "Suc l"]) simp
  qed
qed

lemma reader_frame:
  "ring_seq (s\<lparr>reader := r\<rparr>) p = ring_seq s p" "ring_record (s\<lparr>reader := r\<rparr>) p = ring_record s p"
  "published (s\<lparr>reader := r\<rparr>) p = published s p"
  by (simp_all add: ring_seq_def ring_record_def published_def)

text \<open>A change of the consumer's state alone that claims no more than what is published.\<close>

lemma reader_step:
  assumes inv: "ring_inv s" and rel: "released (reader s) = released r"
    and held: "consumed s + held r \<le> claims s"
    and pub: "\<And>p. consumed s + released (reader s) \<le> p \<Longrightarrow> p < consumed s + held r \<Longrightarrow> published s p"
    and rd: "reader_ok (s\<lparr>reader := r, delivered := d\<rparr>)"
  shows "ring_inv (s\<lparr>reader := r, delivered := d\<rparr>)" (is "ring_inv ?s")
proof -
  have cnt: "counters_ok s" and sl: "slots_ok s" and pr: "producers_ok s"
    using inv by (simp_all add: ring_inv_def)
  have view: "ring_seq ?s p = ring_seq s p" "ring_record ?s p = ring_record s p" "published ?s p = published s p" for p
    by (simp_all add: ring_seq_def ring_record_def published_def)
  have "counters_ok ?s" using cnt held by (simp add: counters_ok_def)
  moreover have "slots_ok ?s"
    unfolding slots_ok_def view using sl rel pub by (fastforce simp: slots_ok_def)
  moreover have "producer_ok ?s Q" if "producer_ok s Q" for Q
  proof -
    have "consumed s + held r \<le> g" if "consumed s + held (reader s) \<le> g" "ring_seq s g = of_nat g" for g
    proof (rule ccontr)
      assume "\<not> consumed s + held r \<le> g"
      moreover have "released (reader s) \<le> held (reader s)" by (cases "reader s") auto
      ultimately have "published s g" using pub that(1) by simp
      with that(2) show False by (simp add: published_def)
    qed
    then show ?thesis using that by (cases Q) (simp_all add: view)
  qed
  then have "producers_ok ?s" using pr by (simp add: producers_ok_def)
  ultimately show ?thesis using rd by (simp add: ring_inv_def)
qed

lemma step_peek:
  assumes inv: "ring_inv s" and free: "reader s = Free" and m: "m \<le> 4"
  shows "ring_inv (s\<lparr>reader := Holding (hid_fifo_peek_batch m (fifo s))\<rparr>)"
proof -
  let ?xs = "hid_fifo_peek_batch m (fifo s)"
  have cnt: "counters_ok s" and rd: "reader_ok s" using inv by (simp_all add: ring_inv_def)
  obtain l where l: "?xs = map record_of (take l (drop (consumed s) (accepted s)))" "l \<le> m"
      "consumed s + l \<le> claims s" "\<forall>p. consumed s \<le> p \<and> p < consumed s + l \<longrightarrow> published s p"
    using peek_loop_correct [OF inv, of 0 m] m free cnt by (auto simp: hid_fifo_peek_batch_def counters_ok_def)
  then have len: "length ?xs = l" using cnt by (simp add: counters_ok_def)
  have "ring_inv (s\<lparr>reader := Holding ?xs, delivered := delivered s\<rparr>)"
  proof (rule reader_step [OF inv])
    show "reader_ok (s\<lparr>reader := Holding ?xs, delivered := delivered s\<rparr>)"
      using rd free l len m by (simp add: reader_ok_def)
  qed (use l len free in auto)
  then show ?thesis by simp
qed

lemma step_reader_simple:
  assumes inv: "ring_inv s"
  shows "reader s = Holding xs \<Longrightarrow> ring_inv (s\<lparr>reader := Free\<rparr>)"
    and "reader s = Consuming 0 \<Longrightarrow> ring_inv (s\<lparr>reader := Free\<rparr>)"
    and "reader s = Holding xs \<Longrightarrow> ring_inv (s\<lparr>reader := Consuming (length xs), delivered := delivered s @ xs\<rparr>)"
proof -
  have cnt: "counters_ok s" and sl: "slots_ok s" and rd: "reader_ok s" using inv by (simp_all add: ring_inv_def)
  {
    assume h: "reader s = Holding xs"
    have "ring_inv (s\<lparr>reader := Free, delivered := delivered s\<rparr>)"
      by (rule reader_step [OF inv]) (use h cnt rd in \<open>auto simp: counters_ok_def reader_ok_def\<close>)
    then show "ring_inv (s\<lparr>reader := Free\<rparr>)" by simp
  next
    assume h: "reader s = Consuming 0"
    have "ring_inv (s\<lparr>reader := Free, delivered := delivered s\<rparr>)"
      by (rule reader_step [OF inv]) (use h cnt rd in \<open>auto simp: counters_ok_def reader_ok_def\<close>)
    then show "ring_inv (s\<lparr>reader := Free\<rparr>)" by simp
  next
    assume h: "reader s = Holding xs"
    show "ring_inv (s\<lparr>reader := Consuming (length xs), delivered := delivered s @ xs\<rparr>)"
    proof (rule reader_step [OF inv])
      show "published s p" if "consumed s + released (reader s) \<le> p" "p < consumed s + held (Consuming (length xs))" for p
        using that sl h cnt by (auto simp: slots_ok_def counters_ok_def)
      have "delivered s @ xs = map record_of (take (consumed s + length xs) (accepted s))"
        using rd h unfolding reader_ok_def by (simp add: take_add)
      then show "reader_ok (s\<lparr>reader := Consuming (length xs), delivered := delivered s @ xs\<rparr>)"
        by (simp add: reader_ok_def)
    qed (use h cnt in \<open>auto simp: counters_ok_def\<close>)
  }
qed

lemma step_release:
  assumes inv: "ring_inv s" and rdr: "reader s = Consuming (Suc k)"
  shows "ring_inv (s\<lparr>fifo := hid_fifo_release (fifo s), reader := Released k\<rparr>)" (is "ring_inv ?s")
proof -
  have cnt: "counters_ok s" and sl: "slots_ok s" and pr: "producers_ok s" and rd: "reader_ok s"
    using inv by (simp_all add: ring_inv_def)
  let ?R = "consumed s"
  have R: "hid_fifo_read_pos (fifo s) = of_nat ?R" "?R + Suc k \<le> claims s" "claims s \<le> ?R + MAX_REPORTS"
    "length (hid_fifo_slots (fifo s)) = MAX_REPORTS" using cnt rdr by (simp_all add: counters_ok_def)
  define s1 where "s1 = ?s"
  have fr: "claims s1 = claims s" "consumed s1 = ?R" "reader s1 = Released k" "delivered s1 = delivered s"
    "accepted s1 = accepted s" "producers s1 = producers s" "fifo s1 = hid_fifo_release (fifo s)"
    by (simp_all add: s1_def)
  define x where "x = (hid_fifo_slots (fifo s) ! (?R mod MAX_REPORTS))\<lparr>fs_seq := of_nat ?R + of_nat MAX_REPORTS\<rparr>"
  have slots: "hid_fifo_slots (fifo s1) = (hid_fifo_slots (fifo s))[?R mod MAX_REPORTS := x]"
    by (simp add: fr hid_fifo_release_def Let_def R(1) x_def)
  have view: "ring_seq s1 p = ring_seq s p" "ring_record s1 p = ring_record s p"
    if "?R < p" "p < ?R + MAX_REPORTS" for p
    using window_neq [of ?R p ?R] that slots by (simp_all add: ring_seq_def ring_record_def)
  have pubs: "published s1 p = published s p" if "?R < p" "p < ?R + MAX_REPORTS" for p
    using view [OF that] by (simp add: published_def fr)
  have "counters_ok s1" using cnt rdr by (simp add: counters_ok_def fr hid_fifo_release_def Let_def)
  moreover have "slots_ok s1"
    unfolding slots_ok_def
  proof (intro conjI allI impI)
    fix p assume p: "claims s1 \<le> p \<and> p < consumed s1 + MAX_REPORTS"
    then show "ring_seq s1 p = of_nat p" using sl R view(1) [of p] by (simp add: slots_ok_def fr)
  next
    fix p assume p: "consumed s1 + released (reader s1) \<le> p \<and> p < claims s1"
    then show "published s1 p \<or> ring_seq s1 p = of_nat p \<and> consumed s1 + held (reader s1) \<le> p"
      using sl R rdr view(1) [of p] pubs [of p] by (simp add: slots_ok_def fr)
  next
    show "ring_seq s1 (consumed s1) = of_nat (consumed s1 + MAX_REPORTS)"
      using R(4) by (simp add: ring_seq_def slots x_def fr(2))
  qed
  moreover have "producer_ok s1 Q" if "producer_ok s Q" for Q
    using that R rdr view by (cases Q) (auto simp: fr)
  then have "producers_ok s1" using pr by (simp add: producers_ok_def fr)
  moreover have "reader_ok s1" using rd rdr by (simp add: reader_ok_def fr)
  ultimately show ?thesis by (simp add: ring_inv_def flip: s1_def)
qed

lemma step_advance:
  assumes inv: "ring_inv s" and rdr: "reader s = Released k"
  shows "ring_inv (s\<lparr>fifo := hid_fifo_advance (fifo s), reader := Consuming k, consumed := Suc (consumed s)\<rparr>)"
    (is "ring_inv ?s")
proof -
  have cnt: "counters_ok s" and sl: "slots_ok s" and pr: "producers_ok s" and rd: "reader_ok s"
    using inv by (simp_all add: ring_inv_def)
  define s1 where "s1 = ?s"
  have fr: "claims s1 = claims s" "consumed s1 = Suc (consumed s)" "reader s1 = Consuming k" "delivered s1 = delivered s"
    "accepted s1 = accepted s" "producers s1 = producers s" "fifo s1 = hid_fifo_advance (fifo s)"
    by (simp_all add: s1_def)
  have view: "ring_seq s1 p = ring_seq s p" "ring_record s1 p = ring_record s p" "published s1 p = published s p" for p
    by (simp_all add: ring_seq_def ring_record_def published_def fr hid_fifo_advance_def)
  have "counters_ok s1" using cnt rdr by (simp add: counters_ok_def fr hid_fifo_advance_def)
  moreover have "slots_ok s1"
    unfolding slots_ok_def
  proof (intro conjI allI impI)
    fix p assume p: "claims s1 \<le> p \<and> p < consumed s1 + MAX_REPORTS"
    show "ring_seq s1 p = of_nat p"
    proof (cases "p < consumed s + MAX_REPORTS")
      case True
      then show ?thesis using p sl by (simp add: slots_ok_def fr view)
    next
      case False
      then have p': "p = consumed s + MAX_REPORTS" using p by (simp add: fr)
      have "ring_seq s p = ring_seq s (consumed s)" by (simp add: ring_seq_def p')
      then show ?thesis using sl rdr by (simp add: slots_ok_def view p')
    qed
  next
    fix p assume p: "consumed s1 + released (reader s1) \<le> p \<and> p < claims s1"
    then show "published s1 p \<or> ring_seq s1 p = of_nat p \<and> consumed s1 + held (reader s1) \<le> p"
      using sl rdr by (simp add: slots_ok_def fr view)
  qed (simp add: fr)
  moreover have "producer_ok s1 Q" if "producer_ok s Q" for Q
    using that rdr by (cases Q) (auto simp: fr view)
  then have "producers_ok s1" using pr by (simp add: producers_ok_def fr)
  moreover have "reader_ok s1" using rd rdr by (simp add: reader_ok_def fr)
  ultimately show ?thesis by (simp add: ring_inv_def flip: s1_def)
qed

section \<open>Every interleaving\<close>

lemma ring_boot_inv:
  assumes "length (hid_fifo_slots f) = MAX_REPORTS"
  shows "ring_inv (ring_boot n f)"
proof -
  have "ring_seq (ring_boot n f) p = of_nat p" if "p < 64" for p
    using that assms by (simp add: ring_seq_def ring_boot_def hid_fifo_init_def nth_enumerate_eq)
  then show ?thesis
    using assms by (simp add: ring_inv_def counters_ok_def slots_ok_def producers_ok_def reader_ok_def)
      (simp add: ring_boot_def hid_fifo_init_def)
qed

lemma ring_step_inv: "ring_step s s' \<Longrightarrow> ring_inv s \<Longrightarrow> ring_inv s'"
proof (induction rule: ring_step.induct)
  case (start i s it)
  then show ?case by (intro local_step) simp_all
next
  case (load i s it)
  then show ?case by (intro local_step) (simp_all add: ring_inv_def counters_ok_def)
next
  case (refuse i s it pos g)
  then show ?case by (intro local_step) simp_all
next
  case (admit i s it pos g)
  then have ok: "producer_ok s (Loaded it pos g)" by (metis ring_inv_def producers_ok_def)
  have "g < consumed s + MAX_REPORTS"
    using admit_bound [of "it_priority it" g "consumed s" "claims s"] ok admit
    by (simp add: ring_inv_def counters_ok_def)
  then show ?case using admit ok by (intro local_step) simp_all
next
  case (cas i s it pos g f)
  then show ?case by (intro step_cas)
next
  case (retry i s it pos g f)
  then have "f = fifo s" by (simp add: hid_fifo_cas_def split: if_splits)
  then show ?case using retry local_step [of s i "Start it"] by simp
next
  case (fill i s it pos g)
  then have ok: "producer_ok s (Claimed it pos g)" by (metis ring_inv_def producers_ok_def)
  then have pos: "slot_index pos = g mod MAX_REPORTS" by simp
  have len: "length (hid_fifo_slots (fifo s)) = 64" using fill by (simp add: ring_inv_def counters_ok_def)
  show ?case
  proof (rule step_store [OF fill.prems fill.hyps(1)])
    show "hid_fifo_fill pos (it_data it) (it_generation it) (fifo s) =
        (fifo s)\<lparr>hid_fifo_slots := (hid_fifo_slots (fifo s))[g mod MAX_REPORTS :=
          (hid_fifo_slots (fifo s) ! (g mod MAX_REPORTS))\<lparr>fs_data := it_data it, fs_generation := it_generation it\<rparr>]\<rparr>"
      by (simp add: hid_fifo_fill_def pos)
    show "producer_ok (s\<lparr>fifo := hid_fifo_fill pos (it_data it) (it_generation it) (fifo s)\<rparr>) (Filled it pos g)"
      using ok len by (simp add: hid_fifo_fill_def ring_seq_def ring_record_def record_of_def)
  qed (use fill ok in \<open>simp_all add: ring_seq_def\<close>)
next
  case (publish i s it pos g)
  then have ok: "producer_ok s (Filled it pos g)" by (metis ring_inv_def producers_ok_def)
  then have pos: "slot_index pos = g mod MAX_REPORTS" by simp
  have len: "length (hid_fifo_slots (fifo s)) = 64" using publish by (simp add: ring_inv_def counters_ok_def)
  show ?case
  proof (rule step_store [OF publish.prems publish.hyps(1)])
    show "hid_fifo_publish pos (fifo s) =
        (fifo s)\<lparr>hid_fifo_slots := (hid_fifo_slots (fifo s))[g mod MAX_REPORTS :=
          (hid_fifo_slots (fifo s) ! (g mod MAX_REPORTS))\<lparr>fs_seq := pos + 1\<rparr>]\<rparr>"
      by (simp add: hid_fifo_publish_def pos)
    have "published (s\<lparr>fifo := hid_fifo_publish pos (fifo s)\<rparr>) g"
      using ok len by (simp add: published_def hid_fifo_publish_def ring_seq_def ring_record_def Let_def add.commute)
    then show "fs_seq ((hid_fifo_slots (fifo s) ! (g mod MAX_REPORTS))\<lparr>fs_seq := pos + 1\<rparr>) = of_nat g \<or>
        published (s\<lparr>fifo := hid_fifo_publish pos (fifo s)\<rparr>) g \<and> ticket Idle = None" by simp
  qed (use publish ok in simp_all)
next
  case (peek s m)
  then show ?case by (intro step_peek)
next
  case (rejected s xs)
  then show ?case by (intro step_reader_simple)
next
  case (submit s xs)
  then show ?case by (intro step_reader_simple)
next
  case (release s k)
  then show ?case by (intro step_release)
next
  case (advance s k)
  then show ?case by (intro step_advance)
next
  case (finish s)
  then show ?case by (intro step_reader_simple)
qed

text \<open>
  Claim C8. The queue of reports is exact under every interleaving of producers that interrupt each
  other at any point with the consumer: what was delivered to the host is, in order and without
  loss, repetition or damage, a prefix of the records in the order of their claims; what the consumer
  holds is what comes next; and never more than 64 records are between the two ends.
\<close>

theorem hid_fifo_linearizable:
  assumes run: "ring_step\<^sup>*\<^sup>* (ring_boot n f) s" and len: "length (hid_fifo_slots f) = MAX_REPORTS"
  shows "delivered s = map record_of (take (consumed s + taken_until (reader s)) (accepted s)) \<and>
    (\<forall>xs. reader s = Holding xs \<longrightarrow>
       map record_of (take (length (delivered s) + length xs) (accepted s)) = delivered s @ xs) \<and>
    consumed s \<le> length (accepted s) \<and> length (accepted s) \<le> consumed s + MAX_REPORTS"
proof -
  have "ring_inv s" using run by (induction) (use ring_boot_inv [OF len] ring_step_inv in auto)
  then have cnt: "counters_ok s" and rd: "reader_ok s" by (simp_all add: ring_inv_def)
  have "map record_of (take (length (delivered s) + length xs) (accepted s)) = delivered s @ xs"
    if h: "reader s = Holding xs" for xs
  proof -
    have xs: "xs = map record_of (take (length xs) (drop (consumed s) (accepted s)))"
      using rd h unfolding reader_ok_def by blast
    have "length (delivered s) = consumed s" using rd cnt h by (simp add: reader_ok_def counters_ok_def)
    then show ?thesis using xs rd h by (simp add: take_add reader_ok_def)
  qed
  then show ?thesis using rd cnt by (simp add: reader_ok_def counters_ok_def)
qed

definition zero_fifo :: hid_fifo where
  "zero_fifo = \<lparr>hid_fifo_slots = replicate MAX_REPORTS \<lparr>fs_data = [], fs_generation = 0, fs_seq = 0\<rparr>,
     hid_fifo_write_pos = 0, hid_fifo_read_pos = 0\<rparr>"

definition ack_item :: item where
  "ack_item = \<lparr>it_data = [251, 7], it_generation = 3, it_priority = True\<rparr>"

theorem hid_fifo_linearizable_witness:
  "\<exists>s. ring_step\<^sup>*\<^sup>* (ring_boot 1 zero_fifo) s \<and> delivered s = [([251, 7], 3)] \<and>
     delivered s = map record_of (take (consumed s + taken_until (reader s)) (accepted s))"
proof -
  let ?f0 = "hid_fifo_init zero_fifo"
  let ?f1 = "?f0\<lparr>hid_fifo_write_pos := 1\<rparr>"
  let ?f2 = "hid_fifo_fill 0 [251, 7] 3 ?f1"
  let ?f3 = "hid_fifo_publish 0 ?f2"
  define s0 where "s0 = ring_boot 1 zero_fifo"
  define s1 where "s1 = s0\<lparr>producers := [Start ack_item]\<rparr>"
  define s2 where "s2 = s0\<lparr>producers := [Loaded ack_item 0 0]\<rparr>"
  define s3 where "s3 = s0\<lparr>producers := [Admitted ack_item 0 0]\<rparr>"
  define s4 where "s4 = s0\<lparr>fifo := ?f1, producers := [Claimed ack_item 0 0], claims := 1, accepted := [ack_item]\<rparr>"
  define s5 where "s5 = s4\<lparr>fifo := ?f2, producers := [Filled ack_item 0 0]\<rparr>"
  define s6 where "s6 = s4\<lparr>fifo := ?f3, producers := [Idle]\<rparr>"
  define s7 where "s7 = s6\<lparr>reader := Holding [([251, 7], 3)]\<rparr>"
  define s8 where "s8 = s7\<lparr>reader := Consuming 1, delivered := [([251, 7], 3)]\<rparr>"
  have s0: "producers s0 = [Idle]" "reader s0 = Free" "fifo s0 = ?f0" "claims s0 = 0" "delivered s0 = []" "accepted s0 = []"
    by (simp_all add: s0_def ring_boot_def)
  have w: "hid_fifo_write_pos ?f0 = 0" "hid_fifo_read_pos ?f0 = 0" by (simp_all add: hid_fifo_init_def)
  have "ring_step s0 s1" using ring_step.start [of 0 s0 ack_item] by (simp add: s0 s1_def)
  moreover have "ring_step s1 s2" using ring_step.load [of 0 s1 ack_item] by (simp add: s0 s1_def s2_def w)
  moreover have "ring_step s2 s3"
    using ring_step.admit [of 0 s2 ack_item 0 0] by (simp add: s0 s2_def s3_def w hid_fifo_admits_def ack_item_def)
  moreover have "ring_step s3 s4"
    using ring_step.cas [of 0 s3 ack_item 0 0 ?f1] by (simp add: s0 s3_def s4_def w hid_fifo_cas_def)
  moreover have "ring_step s4 s5"
    using ring_step.fill [of 0 s4 ack_item 0 0] by (simp add: s4_def s5_def) (simp add: ack_item_def)
  moreover have "ring_step s5 s6" using ring_step.publish [of 0 s5 ack_item 0 0] by (simp add: s5_def s6_def s4_def)
  moreover have "hid_fifo_peek_batch 4 ?f3 = [([251, 7], 3)]" by code_simp
  then have "ring_step s6 s7" using ring_step.peek [of s6 4] by (simp add: s4_def s6_def s7_def s0)
  moreover have "ring_step s7 s8" using ring_step.submit [of s7] by (simp add: s4_def s6_def s7_def s8_def s0)
  ultimately have run: "ring_step\<^sup>*\<^sup>* (ring_boot 1 zero_fifo) s8"
    unfolding s0_def [symmetric] by (meson rtranclp.rtrancl_refl rtranclp.rtrancl_into_rtrancl)
  have "length (hid_fifo_slots zero_fifo) = 64" by (simp add: zero_fifo_def)
  from hid_fifo_linearizable [OF run this] run show ?thesis
    by (intro exI [of _ s8]) (simp add: s8_def)
qed

end
