(* ===== verification/Hid.thy ===== *)
theory Hid
  imports HidFifo EsbState TrackerEvents TrackerRoster
begin

text \<open>
  The reports to the host in \<open>hid.c\<close> above the queue: registration and padding records, the
  submission of a batch, statistics and drop counters, the smoothing of the signal strength, and the
  dispatch of the reports from the host. The static variables are the record \<open>hid\<close>; an \<open>int16_t\<close>
  or \<open>int8_t\<close> value is an integer that is cut to its width where the code stores it. The
  answers of the USB stack are arguments, calls to it are actions.
\<close>

abbreviation (input) RSSI_EMA_ALPHA :: int where "RSSI_EMA_ALPHA \<equiv> 51"
abbreviation (input) HID_EP_REPORT_COUNT :: nat where "HID_EP_REPORT_COUNT \<equiv> 4"
abbreviation (input) HID_TPS_UPDATE_INTERVAL_MS :: u32 where "HID_TPS_UPDATE_INTERVAL_MS \<equiv> 1000"
abbreviation (input) RCV_HID_TYPE_CMD :: u8 where "RCV_HID_TYPE_CMD \<equiv> 254"
abbreviation (input) RCV_HID_TYPE_DEVICE_ADDR :: u8 where "RCV_HID_TYPE_DEVICE_ADDR \<equiv> 255"
abbreviation (input) RCV_HID_CMD_LEN :: nat where "RCV_HID_CMD_LEN \<equiv> 16"
abbreviation (input) RECEIVER_OTA_ID :: u8 where "RECEIVER_OTA_ID \<equiv> 0xFE"

record rssi_ema_state =
  ema_value :: int
  ema_initialized :: bool

record hid_stats_state =
  reports_in_interval :: u32
  stats_current_tps :: u32
  stats_last_tps_time :: u32
  last_report_time :: u32
  had_activity :: bool
  stats_started :: bool

record hid =
  hid_ring :: hid_fifo
  hid_ep_in_busy :: bool
  hid_ready :: bool
  hid_idle_duration_ms :: u32
  ep_report_buffer :: "bytes list"
  rssi_states :: "rssi_ema_state list"
  hid_stats :: hid_stats_state
  sent_device_addr :: u16
  last_registration_sent :: int
  dropped_reports :: u32
  max_dropped_reports :: u16
  tracker_drops :: "u32 list"
  total_dropped_reports :: u32
  total_tracker_drops :: "u32 list"

datatype hid_action = HidSchedule nat | HidReschedule nat | HidStartTimer | HidSubmit bytes

section \<open>Registration records and padding\<close>

definition packet_device_addr :: "esb \<Rightarrow> bytes \<Rightarrow> u16 \<Rightarrow> bool \<times> bytes" where
  "packet_device_addr e report i =
     (if MAX_TRACKERS < stored_trackers e \<or> stored_trackers e \<le> unat i \<or> MAX_TRACKERS \<le> unat i then (False, report)
      else (True, [RCV_HID_TYPE_DEVICE_ADDR, ucast i] @ address_bytes (stored_tracker_addr e ! unat i) @ replicate 8 0))"

definition hid_fill_padding :: "esb \<Rightarrow> nat \<Rightarrow> bytes \<Rightarrow> hid \<Rightarrow> bytes \<times> hid" where
  "hid_fill_padding e tracker_count out h =
     (let empty = 0xF8 # replicate 15 0
      in if 0 < tracker_count \<and> tracker_count \<le> MAX_TRACKERS then
           let i = sent_device_addr h mod of_nat tracker_count;
               (valid, rec) = packet_device_addr e out i;
               h1 = h\<lparr>sent_device_addr := (i + 1) mod of_nat tracker_count\<rparr>
           in if valid then (rec, h1) else (empty, h1)
         else (empty, h))"

section \<open>Statistics\<close>

definition hid_stats_record_reports :: "u32 \<Rightarrow> u32 \<Rightarrow> hid_stats_state \<Rightarrow> hid_stats_state" where
  "hid_stats_record_reports reports now s =
     (if reports = 0 then s
      else
        let s1 = (if \<not> stats_started s then s\<lparr>stats_started := True, stats_last_tps_time := now\<rparr> else s);
            s2 = s1\<lparr>reports_in_interval := reports_in_interval s1 + reports, last_report_time := now, had_activity := True\<rparr>
        in if HID_TPS_UPDATE_INTERVAL_MS \<le> now - stats_last_tps_time s2
           then s2\<lparr>stats_current_tps := reports_in_interval s2, reports_in_interval := 0, stats_last_tps_time := now\<rparr>
           else s2)"

definition hid_stats_update_idle_if_needed :: "u32 \<Rightarrow> hid_stats_state \<Rightarrow> hid_stats_state" where
  "hid_stats_update_idle_if_needed now s =
     (if \<not> stats_started s then s
      else if HID_TPS_UPDATE_INTERVAL_MS \<le> now - stats_last_tps_time s then
        let s1 = (if 0 < sint (reports_in_interval s)
                  then s\<lparr>stats_current_tps := reports_in_interval s, reports_in_interval := 0\<rparr>
                  else if HID_TPS_UPDATE_INTERVAL_MS \<le> now - last_report_time s
                  then s\<lparr>stats_current_tps := 0\<rparr> else s)
        in s1\<lparr>stats_last_tps_time := now\<rparr>
      else s)"

definition hid_stats_snapshot :: "hid_stats_state \<Rightarrow> u32 \<times> bool \<times> hid_stats_state" where
  "hid_stats_snapshot s = (stats_current_tps s, had_activity s, s\<lparr>had_activity := False\<rparr>)"

definition hid_get_current_tps :: "hid \<Rightarrow> u32" where
  "hid_get_current_tps h = stats_current_tps (hid_stats h)"

definition hid_get_total_drop_count :: "hid \<Rightarrow> u32" where
  "hid_get_total_drop_count h = total_dropped_reports h"

definition hid_get_total_tracker_drop_count :: "nat \<Rightarrow> hid \<Rightarrow> u32" where
  "hid_get_total_tracker_drop_count t h = (if t < MAX_TRACKERS then total_tracker_drops h ! t else 0)"

section \<open>Submission\<close>

text \<open>The padding of the places behind the batch, and the replacement of records whose lease is over.\<close>

fun pad_batch :: "esb \<Rightarrow> nat \<Rightarrow> nat list \<Rightarrow> hid \<Rightarrow> hid" where
  "pad_batch e n [] h = h"
| "pad_batch e n (i # is) h =
     (let (rec, h1) = hid_fill_padding e n (ep_report_buffer h ! i) h
      in pad_batch e n is (h1\<lparr>ep_report_buffer := (ep_report_buffer h1)[i := rec]\<rparr>))"

definition stale_records :: "'q ev_state \<Rightarrow> u32 \<Rightarrow> (bytes \<times> u32) list \<Rightarrow> nat list" where
  "stale_records ev now_ms batch =
     filter (\<lambda>i. snd (batch ! i) \<noteq> 0 \<and>
       \<not> tracker_events_hid_valid ev (fst (batch ! i)) (snd (batch ! i)) now_ms) [0..<length batch]"

text \<open>The tail of \<open>send_report\<close> once the endpoint was acquired, with the result of the submission.\<close>

definition submit_batch :: "'q ev_state \<Rightarrow> esb \<Rightarrow> nat \<Rightarrow> u32 \<Rightarrow> (bytes \<Rightarrow> bool) \<Rightarrow> int \<Rightarrow> hid \<Rightarrow> hid_action list \<times> hid" where
  "submit_batch ev e tracker_count now_ms submit_ok now h =
     (let batch = hid_fifo_peek_batch HID_EP_REPORT_COUNT (hid_ring h);
          n = length batch;
          h1 = h\<lparr>ep_report_buffer := map fst batch @ drop n (ep_report_buffer h)\<rparr>;
          h2 = pad_batch e tracker_count [n..<HID_EP_REPORT_COUNT] h1;
          h3 = pad_batch e tracker_count (stale_records ev now_ms batch) h2;
          data = concat (ep_report_buffer h3)
      in if \<not> submit_ok data then ([HidSubmit data, HidSchedule 1], h3\<lparr>hid_ep_in_busy := False\<rparr>)
         else
           let h4 = h3\<lparr>hid_ring := hid_fifo_consume n (hid_ring h3), last_registration_sent := now\<rparr>
           in ([HidSubmit data, HidStartTimer],
               if 0 < n then h4\<lparr>hid_stats := hid_stats_record_reports (of_nat n) now_ms (hid_stats h4)\<rparr> else h4))"

definition send_report ::
    "bool \<Rightarrow> bool \<Rightarrow> 'q ev_state \<Rightarrow> esb \<Rightarrow> int \<Rightarrow> u32 \<Rightarrow> (bytes \<Rightarrow> bool) \<Rightarrow> hid \<Rightarrow> hid_action list \<times> hid" where
  "send_report usb_enabled usb_configured ev e now now_ms submit_ok h =
     (if \<not> usb_enabled \<or> \<not> usb_configured \<or> \<not> hid_ready h then ([], h)
      else if hid_fifo_is_empty (hid_ring h) \<and> (stored_trackers e = 0 \<or> now - 100 < last_registration_sent h) then ([], h)
      else if hid_ep_in_busy h then ([], h)
      else submit_batch ev e (stored_trackers e) now_ms submit_ok now (h\<lparr>hid_ep_in_busy := True\<rparr>))"

section \<open>Signal strength\<close>

definition rssi_smooth_update :: "nat \<Rightarrow> int \<Rightarrow> hid \<Rightarrow> u8 \<times> hid" where
  "rssi_smooth_update t new_rssi h =
     (if MAX_TRACKERS \<le> t then (of_int new_rssi, h)
      else
        let s = rssi_states h ! t
        in if \<not> ema_initialized s then
             (of_int new_rssi, h\<lparr>rssi_states := (rssi_states h)[t := \<lparr>ema_value = signed_take_bit 15 (new_rssi * 256),
                ema_initialized = True\<rparr>]\<rparr>)
           else
             let alpha_term = RSSI_EMA_ALPHA * (new_rssi * 256); beta_term = (256 - RSSI_EMA_ALPHA) * ema_value s;
                 v = signed_take_bit 15 ((alpha_term + beta_term) div 256)
             in (of_int (signed_take_bit 7 (v div 256)),
                 h\<lparr>rssi_states := (rssi_states h)[t := s\<lparr>ema_value := v\<rparr>]\<rparr>))"

definition hid_reset_rssi_smooth :: "nat \<Rightarrow> hid \<Rightarrow> hid" where
  "hid_reset_rssi_smooth t h =
     (if t < MAX_TRACKERS
      then h\<lparr>rssi_states := (rssi_states h)[t := \<lparr>ema_value = 0, ema_initialized = False\<rparr>]\<rparr> else h)"

section \<open>Producers\<close>

definition hid_type_byte1_is_tracker_id :: "u8 \<Rightarrow> bool" where
  "hid_type_byte1_is_tracker_id type \<longleftrightarrow> type \<noteq> RCV_HID_TYPE_CMD_ACK \<and> type \<noteq> RCV_HID_TYPE_CMD"

definition hid_type_has_rssi_slot :: "u8 \<Rightarrow> bool" where
  "hid_type_has_rssi_slot type \<longleftrightarrow>
     (if type = 1 \<or> type = 4 then False
      else if 0xF0 \<le> type \<and> type \<le> 0xF7 then False
      else hid_type_byte1_is_tracker_id type)"

definition count_drop :: "bytes \<Rightarrow> hid \<Rightarrow> hid" where
  "count_drop data h =
     (let h1 = h\<lparr>total_dropped_reports := total_dropped_reports h + 1, dropped_reports := dropped_reports h + 1\<rparr>;
          h2 = (if ucast (max_dropped_reports h1) < dropped_reports h1
                then h1\<lparr>max_dropped_reports := ucast (dropped_reports h1)\<rparr> else h1);
          t = unat (data ! 1)
      in if hid_type_byte1_is_tracker_id (data ! 0) \<and> t < MAX_TRACKERS
         then h2\<lparr>tracker_drops := (tracker_drops h2)[t := tracker_drops h2 ! t + 1],
                 total_tracker_drops := (total_tracker_drops h2)[t := total_tracker_drops h2 ! t + 1]\<rparr>
         else h2)"

definition hid_enqueue_packet :: "bytes \<Rightarrow> u32 \<Rightarrow> hid \<Rightarrow> bool \<times> hid_action list \<times> hid" where
  "hid_enqueue_packet data generation h =
     (let (ok, ring) = hid_fifo_try_push data (hid_fifo_is_priority (data ! 0)) generation (hid_ring h)
      in if ok then (True, [HidSchedule 1], h\<lparr>hid_ring := ring\<rparr>) else (False, [], count_drop data h))"

definition hid_write_tracker_event :: "bytes \<Rightarrow> u32 \<Rightarrow> hid \<Rightarrow> bool \<times> hid_action list \<times> hid" where
  "hid_write_tracker_event rec generation h =
     (if generation = 0 then (False, [], h) else hid_enqueue_packet rec generation h)"

definition zero_quaternion :: "bytes \<Rightarrow> bool" where
  "zero_quaternion data \<longleftrightarrow> (data ! 0 = 1 \<or> data ! 0 = 4) \<and> list_all (\<lambda>b. b = 0) (take 8 (drop 2 data))"

definition hid_write_packet_n :: "bytes \<Rightarrow> u8 \<Rightarrow> hid \<Rightarrow> hid_action list \<times> hid" where
  "hid_write_packet_n data rssi h =
     (if zero_quaternion data then ([], h)
      else
        let pkt = take 16 data;
            (pkt1, h1) =
              (if hid_type_has_rssi_slot (data ! 0) then
                 let t = unat (data ! 1)
                 in if t < MAX_TRACKERS
                    then (let (v, h1) = rssi_smooth_update t (sint rssi) h in (pkt[15 := v], h1))
                    else (pkt[15 := rssi], h)
               else (pkt, h))
        in snd (hid_enqueue_packet pkt1 0 h1))"

section \<open>Reports from the host\<close>

datatype hid_call = ReceiverOtaHid bytes nat | RelayHid bytes nat | CommandHid bytes nat u32

definition handle_output_report :: "bytes \<Rightarrow> nat \<Rightarrow> u32 \<Rightarrow> hid_call list" where
  "handle_output_report buf len usb_gen =
     (if len = 0 then []
      else if 0xF0 \<le> buf ! 0 \<and> buf ! 0 \<le> 0xF7 then
        (if 2 \<le> len \<and> buf ! 1 = RECEIVER_OTA_ID then [ReceiverOtaHid buf len] else [RelayHid buf len])
      else if buf ! 0 = RCV_HID_TYPE_CMD then [CommandHid buf len usb_gen] else [])"

text \<open>The kernel's queue of commands is an argument; the worker is given the messages it drains.\<close>

record hid_cmd_msg =
  cm_len :: nat
  cm_data :: bytes
  cm_usb_generation :: u32

definition enqueue_hid_cmd :: "('c \<Rightarrow> hid_cmd_msg \<Rightarrow> 'c option) \<Rightarrow> bytes \<Rightarrow> nat \<Rightarrow> u32 \<Rightarrow> 'c \<Rightarrow> bool \<times> 'c" where
  "enqueue_hid_cmd put buf len usb_gen q =
     (if len < 1 then (False, q)
      else
        let n = min len RCV_HID_CMD_LEN
        in (case put q \<lparr>cm_len = n, cm_data = take n buf, cm_usb_generation = usb_gen\<rparr> of
              None \<Rightarrow> (False, q)
            | Some q1 \<Rightarrow> (True, q1)))"

fun hid_cmd_work_handler :: "hid_cmd_msg list \<Rightarrow> hid_call list" where
  "hid_cmd_work_handler [] = []"
| "hid_cmd_work_handler (m # q) =
     handle_output_report (cm_data m) (cm_len m) (cm_usb_generation m) @ hid_cmd_work_handler q"

text \<open>The calls made at once, whether the worker was submitted, and the queue.\<close>

definition dispatch_output_report ::
    "('c \<Rightarrow> hid_cmd_msg \<Rightarrow> 'c option) \<Rightarrow> bytes \<Rightarrow> nat \<Rightarrow> u32 \<Rightarrow> 'c \<Rightarrow> hid_call list \<times> bool \<times> 'c" where
  "dispatch_output_report put buf len usb_gen q =
     (if len = 0 then ([], False, q)
      else if buf ! 0 = RCV_HID_TYPE_CMD then ([], enqueue_hid_cmd put buf len usb_gen q)
      else (handle_output_report buf len usb_gen, False, q))"

section \<open>Callbacks of the USB stack\<close>

definition int_in_ready_cb :: "bool \<Rightarrow> hid \<Rightarrow> hid_action list \<times> hid" where
  "int_in_ready_cb own h =
     (if \<not> own then ([], h)
      else
        let h1 = h\<lparr>hid_ep_in_busy := False\<rparr>
        in (if \<not> hid_fifo_is_empty (hid_ring h1) then [HidReschedule 0] else [], h1))"

definition input_report_done_cb :: "bool \<Rightarrow> hid \<Rightarrow> hid_action list \<times> hid" where
  "input_report_done_cb own h = (if \<not> own then ([], h) else int_in_ready_cb own h)"

definition iface_ready_cb :: "bool \<Rightarrow> bool \<Rightarrow> 'q ev_state \<Rightarrow> hid \<Rightarrow> hid_action list \<times> 'q ev_state \<times> hid" where
  "iface_ready_cb own ready ev h =
     (if \<not> own then ([], ev, h)
      else
        let h1 = h\<lparr>hid_ready := ready\<rparr>
        in if \<not> ready then ([], tracker_events_usb_reset ev, h1\<lparr>hid_ep_in_busy := False\<rparr>)
           else ([HidSchedule 1], ev, h1))"

definition get_report_cb :: "bool \<Rightarrow> bool \<Rightarrow> u8 \<Rightarrow> nat \<Rightarrow> bool \<Rightarrow> errno + bytes" where
  "get_report_cb own type_input i len buf_present =
     (if \<not> own then Inl ENODEV
      else if \<not> type_input \<or> i \<noteq> 0 then Inl ENOTSUP
      else if len < HID_EP_REPORT_COUNT * 16 \<or> \<not> buf_present then Inl EINVAL
      else Inr (replicate (HID_EP_REPORT_COUNT * 16) 0))"

definition set_report_cb ::
    "('c \<Rightarrow> hid_cmd_msg \<Rightarrow> 'c option) \<Rightarrow> bool \<Rightarrow> bool \<Rightarrow> u8 \<Rightarrow> nat \<Rightarrow> bytes option \<Rightarrow> u32 \<Rightarrow> 'c \<Rightarrow>
     errno option \<times> hid_call list \<times> bool \<times> 'c" where
  "set_report_cb put own type_output i len buf usb_gen q =
     (if \<not> own then (Some ENODEV, [], False, q)
      else if \<not> type_output \<or> i \<noteq> 0 then (Some ENOTSUP, [], False, q)
      else (case buf of
          None \<Rightarrow> (Some EINVAL, [], False, q)
        | Some b \<Rightarrow> if len = 0 \<or> 64 < len then (Some EINVAL, [], False, q)
            else (None, dispatch_output_report put b len usb_gen q)))"

definition output_report_cb ::
    "('c \<Rightarrow> hid_cmd_msg \<Rightarrow> 'c option) \<Rightarrow> bool \<Rightarrow> nat \<Rightarrow> bytes option \<Rightarrow> u32 \<Rightarrow> 'c \<Rightarrow> hid_call list \<times> bool \<times> 'c" where
  "output_report_cb put own len buf usb_gen q =
     (case buf of
        None \<Rightarrow> ([], False, q)
      | Some b \<Rightarrow> if \<not> own \<or> len = 0 \<or> 64 < len then ([], False, q) else dispatch_output_report put b len usb_gen q)"

definition on_idle_cb :: "bool \<Rightarrow> u8 \<Rightarrow> u32 \<Rightarrow> hid \<Rightarrow> hid_action list \<times> hid" where
  "on_idle_cb own report_id duration h =
     (if \<not> own \<or> report_id \<noteq> 0 then ([], h) else ([HidSchedule 1], h\<lparr>hid_idle_duration_ms := duration\<rparr>))"

definition get_idle_cb :: "bool \<Rightarrow> u8 \<Rightarrow> hid \<Rightarrow> u32" where
  "get_idle_cb own report_id h = (if \<not> own \<or> report_id \<noteq> 0 then 0 else hid_idle_duration_ms h)"

definition report_event_handler :: "bool \<Rightarrow> bool \<Rightarrow> esb \<Rightarrow> hid \<Rightarrow> hid_action list" where
  "report_event_handler usb_enabled usb_configured e h =
     (if 0 < stored_trackers e \<and> usb_enabled \<and> usb_configured \<and> hid_ready h then [HidSchedule 0] else [])"

definition hid_usb_state_changed :: "bool \<Rightarrow> 'q ev_state \<Rightarrow> hid \<Rightarrow> hid_action list \<times> 'q ev_state \<times> hid" where
  "hid_usb_state_changed configured ev h =
     (if \<not> configured then ([], tracker_events_usb_reset ev, h\<lparr>hid_ready := False, hid_ep_in_busy := False\<rparr>)
      else ([HidSchedule 1], ev, h))"

definition hid_async_cmd_ack :: "bytes \<Rightarrow> hid \<Rightarrow> hid_action list \<times> hid" where
  "hid_async_cmd_ack ack h = hid_write_packet_n ack 0 h"

end
