(* ===== verification/ChannelChange.thy ===== *)
theory ChannelChange
  imports AutoLoss TrackerRoster
begin

text \<open>
  The migration of the receiver to another RF channel in \<open>esb.c\<close>: the announcement to the trackers,
  the poll that ends it, the retuning of the radio with its rollback, and the requests of the
  console and of the automatic channel choice. The radio library is the record \<open>radio_ops\<close> over a state
  of its own, the flash is the store of \<open>Storage\<close>; calls to other components are actions.
\<close>

abbreviation (input) CHANNEL_CHANGE_ANNOUNCE_MS :: int where "CHANNEL_CHANGE_ANNOUNCE_MS \<equiv> 3000"

record 'r radio_ops =
  op_stop_rx :: "'r \<Rightarrow> errno option \<times> 'r"
  op_flush_rx :: "'r \<Rightarrow> errno option \<times> 'r"
  op_set_rf_channel :: "u8 \<Rightarrow> 'r \<Rightarrow> errno option \<times> 'r"
  op_start_rx :: "'r \<Rightarrow> errno option \<times> 'r"

record ('r, 'f) channel_world =
  cw_esb :: esb
  cw_radio :: 'r
  cw_store :: "'f store"

datatype channel_action = AutoChannelDisable | ConnectionErrorStatus | ChannelChangeDone bool
  | MigrationComplete u32 u8 u8 bool

text \<open>The code's chain of calls, each made only while there is no error.\<close>

definition on_success :: "errno option \<times> 's \<Rightarrow> ('s \<Rightarrow> errno option \<times> 's) \<Rightarrow> errno option \<times> 's" where
  "on_success r k = (case r of (None, s) \<Rightarrow> k s | (Some e, s) \<Rightarrow> (Some e, s))"

definition on_radio :: "('r \<Rightarrow> errno option \<times> 'r) \<Rightarrow> ('r, 'f) channel_world \<Rightarrow> errno option \<times> ('r, 'f) channel_world" where
  "on_radio f w = (let (e, r) = f (cw_radio w) in (e, w\<lparr>cw_radio := r\<rparr>))"

definition physical_channel :: "u8 \<Rightarrow> u8 \<Rightarrow> u8" where
  "physical_channel rf_default decoded = (if decoded = ESB_RF_CHANNEL_DEFAULT then rf_default else decoded)"

definition lose_reception :: "('r, 'f) channel_world \<Rightarrow> errno option \<times> ('r, 'f) channel_world" where
  "lose_reception w = (None, w\<lparr>cw_esb := esb_rx_discontinuity (cw_esb w)\<rparr>)"

definition retune :: "'r radio_ops \<Rightarrow> u8 \<Rightarrow> u8 \<Rightarrow> ('r, 'f) channel_world \<Rightarrow> errno option \<times> ('r, 'f) channel_world" where
  "retune ops rf_default decoded w =
     on_success (on_success (on_success (on_success (on_radio (op_stop_rx ops) w)
       (on_radio (op_flush_rx ops))) lose_reception)
       (on_radio (op_set_rf_channel ops (physical_channel rf_default decoded))))
       (on_radio (op_start_rx ops))"

definition store_channel :: "'f nvs_ops \<Rightarrow> u8 \<Rightarrow> ('r, 'f) channel_world \<Rightarrow> errno option \<times> ('r, 'f) channel_world" where
  "store_channel nvs encoded w =
     (let (e, s) = sys_write_checked nvs (cw_store w) RF_CHANNEL [encoded] in (e, w\<lparr>cw_store := s\<rparr>))"

definition channel_apply ::
    "'r radio_ops \<Rightarrow> 'f nvs_ops \<Rightarrow> u8 \<Rightarrow> u8 \<Rightarrow> ('r, 'f) channel_world \<Rightarrow>
     errno option \<times> channel_action list \<times> ('r, 'f) channel_world" where
  "channel_apply ops nvs rf_default encoded w =
     (let old_decoded = esb_rf_channel_decode (receiver_rf_channel (cw_esb w));
          decoded = esb_rf_channel_decode encoded
      in case op_stop_rx ops (cw_radio w) of
           (Some err, r) \<Rightarrow> (Some err, [], w\<lparr>cw_radio := r\<rparr>)
         | (None, _) \<Rightarrow>
             (case on_success (retune ops rf_default decoded w) (store_channel nvs encoded) of
                (Some err, w1) \<Rightarrow>
                  (case retune ops rf_default old_decoded w1 of
                     (None, w2) \<Rightarrow> (Some err, [], w2)
                   | (Some _, w2) \<Rightarrow> (Some err, [ConnectionErrorStatus],
                       w2\<lparr>cw_esb := (cw_esb w2)\<lparr>esb_radio_fault := True\<rparr>\<rparr>))
              | (None, w1) \<Rightarrow> (None, [], w1\<lparr>cw_esb := (cw_esb w1)\<lparr>receiver_rf_channel := encoded\<rparr>\<rparr>)))"

definition paired_mask :: "esb \<Rightarrow> u32" where
  "paired_mask st =
     fold (\<lambda>i m. if stored_tracker_addr st ! i \<noteq> 0 then set_bit i m else m) [0..<min (stored_trackers st) MAX_TRACKERS] 0"

text \<open>\<open>valid\<close> is the answer of \<open>auto_channel_decision_valid\<close>.\<close>

definition channel_change_begin ::
    "u8 \<Rightarrow> peers \<Rightarrow> u8 \<Rightarrow> u8 \<Rightarrow> bool \<Rightarrow> u8 \<Rightarrow> u32 \<Rightarrow> bool \<Rightarrow> int \<Rightarrow> esb \<Rightarrow> errno option \<times> channel_action list \<times> esb" where
  "channel_change_begin rf_default p encoded command manual expected_home generation valid now st =
     (case esb_radio_operation_begin p st of
        (Some err, st1) \<Rightarrow> (Some err, [], st1)
      | (None, st1) \<Rightarrow>
          let acts = (if manual then [AutoChannelDisable] else []);
              home = receiver_home rf_default (receiver_rf_channel st1)
          in if \<not> manual \<and> (\<not> valid \<or> home \<noteq> expected_home \<or> esb_pairing st1)
             then (Some EBUSY, acts, esb_radio_operation_end st1)
             else (None, acts, (esb_auto_loss_invalidate (st1\<lparr>pending_channel := encoded, channel_command := command,
                 channel_target_mask := paired_mask st1, channel_change_automatic := \<not> manual,
                 channel_change_generation := generation, channel_change_old_home := home,
                 channel_change_timeout := now + CHANNEL_CHANGE_ANNOUNCE_MS\<rparr>))\<lparr>channel_change_pending := True\<rparr>))"

definition channel_change_poll ::
    "'r radio_ops \<Rightarrow> 'f nvs_ops \<Rightarrow> u8 \<Rightarrow> int \<Rightarrow> ('r, 'f) channel_world \<Rightarrow> channel_action list \<times> ('r, 'f) channel_world" where
  "channel_change_poll ops nvs rf_default now w =
     (let st = cw_esb w
      in if \<not> channel_change_pending st \<or> now < channel_change_timeout st then ([], w)
         else
           let (err, acts, w1) = channel_apply ops nvs rf_default (pending_channel st)
                 (w\<lparr>cw_esb := st\<lparr>channel_change_pending := False\<rparr>\<rparr>);
               st1 = cw_esb w1; home = receiver_home rf_default (receiver_rf_channel st1);
               report = (if channel_change_automatic st1
                 then [MigrationComplete (channel_change_generation st1) (channel_change_old_home st1) home
                         (err = None \<and> home \<noteq> channel_change_old_home st1)] else [])
           in (acts @ report @ [ChannelChangeDone (err = None)], w1\<lparr>cw_esb := esb_radio_operation_end st1\<rparr>))"

definition esb_set_all_trackers_channel ::
    "u8 \<Rightarrow> peers \<Rightarrow> u8 \<Rightarrow> int \<Rightarrow> esb \<Rightarrow> errno option \<times> channel_action list \<times> esb" where
  "esb_set_all_trackers_channel rf_default p channel now st =
     (if 100 < channel then (Some EINVAL, [], st)
      else channel_change_begin rf_default p (esb_rf_channel_encode channel) ESB_PONG_FLAG_SET_CHANNEL True 0 0 True now st)"

definition esb_clear_all_trackers_channel ::
    "u8 \<Rightarrow> peers \<Rightarrow> int \<Rightarrow> esb \<Rightarrow> errno option \<times> channel_action list \<times> esb" where
  "esb_clear_all_trackers_channel rf_default p now st =
     channel_change_begin rf_default p ESB_RF_CHANNEL_DEFAULT ESB_PONG_FLAG_CLEAR_CHANNEL True 0 0 True now st"

definition esb_auto_channel_request ::
    "u8 \<Rightarrow> peers \<Rightarrow> u8 \<Rightarrow> u8 \<Rightarrow> u32 \<Rightarrow> bool \<Rightarrow> int \<Rightarrow> esb \<Rightarrow> errno option \<times> channel_action list \<times> esb" where
  "esb_auto_channel_request rf_default p channel expected_home generation valid now st =
     (if 88 < channel \<or> odd channel then (Some EINVAL, [], st)
      else channel_change_begin rf_default p (esb_rf_channel_encode channel) ESB_PONG_FLAG_SET_CHANNEL False
             expected_home generation valid now st)"

definition receiver_channel_now ::
    "'r radio_ops \<Rightarrow> 'f nvs_ops \<Rightarrow> u8 \<Rightarrow> peers \<Rightarrow> u8 \<Rightarrow> ('r, 'f) channel_world \<Rightarrow>
     errno option \<times> channel_action list \<times> ('r, 'f) channel_world" where
  "receiver_channel_now ops nvs rf_default p encoded w =
     (case esb_radio_operation_begin p (cw_esb w) of
        (Some err, st1) \<Rightarrow> (Some err, [], w\<lparr>cw_esb := st1\<rparr>)
      | (None, st1) \<Rightarrow>
          let (err, acts, w1) = channel_apply ops nvs rf_default encoded (w\<lparr>cw_esb := st1\<rparr>)
          in (err, AutoChannelDisable # acts, w1\<lparr>cw_esb := esb_radio_operation_end (cw_esb w1)\<rparr>))"

definition esb_set_receiver_channel ::
    "'r radio_ops \<Rightarrow> 'f nvs_ops \<Rightarrow> u8 \<Rightarrow> peers \<Rightarrow> u8 \<Rightarrow> ('r, 'f) channel_world \<Rightarrow>
     errno option \<times> channel_action list \<times> ('r, 'f) channel_world" where
  "esb_set_receiver_channel ops nvs rf_default p channel w =
     (if 100 < channel then (Some EINVAL, [], w)
      else receiver_channel_now ops nvs rf_default p (esb_rf_channel_encode channel) w)"

definition esb_clear_receiver_channel ::
    "'r radio_ops \<Rightarrow> 'f nvs_ops \<Rightarrow> u8 \<Rightarrow> peers \<Rightarrow> ('r, 'f) channel_world \<Rightarrow>
     errno option \<times> channel_action list \<times> ('r, 'f) channel_world" where
  "esb_clear_receiver_channel ops nvs rf_default p w =
     receiver_channel_now ops nvs rf_default p ESB_RF_CHANNEL_DEFAULT w"

definition esb_get_receiver_channel :: "esb \<Rightarrow> u8" where
  "esb_get_receiver_channel st = esb_rf_channel_decode (receiver_rf_channel st)"

text \<open>The start of the radio thread: the stored channel is taken when it is one.\<close>

definition load_rf_channel :: "'f nvs_ops \<Rightarrow> ('r, 'f) channel_world \<Rightarrow> ('r, 'f) channel_world" where
  "load_rf_channel nvs w =
     (let (buf, s) = sys_read nvs (cw_store w) RF_CHANNEL [0xFF]; saved = buf ! 0
      in w\<lparr>cw_store := s, cw_esb := (cw_esb w)\<lparr>receiver_rf_channel :=
           (if esb_rf_channel_decode saved \<noteq> ESB_RF_CHANNEL_DEFAULT then saved else ESB_RF_CHANNEL_DEFAULT)\<rparr>\<rparr>)"

section \<open>What the radio and the file system promise\<close>

text \<open>
  The documented behaviour of the radio library: setting the channel sets it, starting reception
  starts it and keeps the channel, and a refused stop changes nothing. Nothing is assumed of other failures.
\<close>

definition radio_law :: "'r radio_ops \<Rightarrow> ('r \<Rightarrow> u8) \<Rightarrow> ('r \<Rightarrow> bool) \<Rightarrow> bool" where
  "radio_law ops chan running \<longleftrightarrow>
     (\<forall>c r r'. op_set_rf_channel ops c r = (None, r') \<longrightarrow> chan r' = c) \<and>
     (\<forall>r r'. op_start_rx ops r = (None, r') \<longrightarrow> running r' \<and> chan r' = chan r) \<and>
     (\<forall>r r' e. op_stop_rx ops r = (Some e, r') \<longrightarrow> r' = r)"

text \<open>A write that fails leaves the stored values as they were.\<close>

definition nvs_atomic :: "'f nvs_ops \<Rightarrow> bool" where
  "nvs_atomic ops \<longleftrightarrow> (\<forall>f key data e f' k len. nvs_write ops f key data = (Inl e, f') \<longrightarrow>
     nvs_read ops f' k len = nvs_read ops f k len)"

lemma failed_write_keeps:
  assumes "nvs_atomic ops" and "nvs_init st" and "sys_write_checked ops st key data = (Some e, st')"
  shows "nvs_init st'" and "sys_read_checked ops st' k len = (fst (sys_read_checked ops st k len), st')"
proof -
  obtain f where f: "nvs_write ops (fs st) key data = (Inl e, f)" "st' = st\<lparr>fs := f\<rparr>"
    using assms(2,3) by (auto simp: sys_write_checked_def split: sum.splits prod.splits)
  then show "nvs_init st'" using assms(2) by simp
  have "nvs_read ops f k len = nvs_read ops (fs st) k len"
    using assms(1) f(1) unfolding nvs_atomic_def by blast
  then show "sys_read_checked ops st' k len = (fst (sys_read_checked ops st k len), st')"
    using assms(2) f(2) by (simp add: sys_read_checked_def)
qed

end
