(* ===== verification/ChannelChangeCorrect.thy ===== *)
theory ChannelChangeCorrect
  imports ChannelChange TdmaCorrect
begin

text \<open>
  The receiver listens where it says: over any order of announcements, polls, direct changes and
  radio operations of other components, the channel in memory, the channel in flash and the
  channel of the radio agree, unless the fault that closes the radio gate was recorded.
\<close>

section \<open>Applying a channel\<close>

lemma rx_discontinuity_frame [simp]:
  "receiver_rf_channel (esb_rx_discontinuity st) = receiver_rf_channel st"
  "esb_radio_fault (esb_rx_discontinuity st) = esb_radio_fault st"
  "radio_operation_busy (esb_rx_discontinuity st) = radio_operation_busy st"
  "channel_change_pending (esb_rx_discontinuity st) = channel_change_pending st"
  by (simp_all add: esb_rx_discontinuity_def esb_auto_loss_invalidate_def)

lemma retune_frame:
  assumes "retune ops d c w = (err, w')"
  shows "cw_store w' = cw_store w" and "receiver_rf_channel (cw_esb w') = receiver_rf_channel (cw_esb w)"
    and "esb_radio_fault (cw_esb w') = esb_radio_fault (cw_esb w)"
    and "radio_operation_busy (cw_esb w') = radio_operation_busy (cw_esb w)"
    and "channel_change_pending (cw_esb w') = channel_change_pending (cw_esb w)"
proof -
  have all: "cw_store w' = cw_store w \<and> receiver_rf_channel (cw_esb w') = receiver_rf_channel (cw_esb w) \<and>
    esb_radio_fault (cw_esb w') = esb_radio_fault (cw_esb w) \<and>
    radio_operation_busy (cw_esb w') = radio_operation_busy (cw_esb w) \<and>
    channel_change_pending (cw_esb w') = channel_change_pending (cw_esb w)"
    using assms by (auto simp: retune_def on_success_def on_radio_def lose_reception_def split: prod.splits option.splits)
  then show "cw_store w' = cw_store w" and "receiver_rf_channel (cw_esb w') = receiver_rf_channel (cw_esb w)"
    and "esb_radio_fault (cw_esb w') = esb_radio_fault (cw_esb w)"
    and "radio_operation_busy (cw_esb w') = radio_operation_busy (cw_esb w)"
    and "channel_change_pending (cw_esb w') = channel_change_pending (cw_esb w)" by simp_all
qed

lemma retune_tuned:
  assumes "radio_law ops chan run" and "retune ops d c w = (None, w')"
  shows "chan (cw_radio w') = physical_channel d c \<and> run (cw_radio w')"
  using assms
  by (auto simp: retune_def on_success_def on_radio_def lose_reception_def radio_law_def
      split: prod.splits option.splits)

definition listening :: "('r \<Rightarrow> u8) \<Rightarrow> ('r \<Rightarrow> bool) \<Rightarrow> u8 \<Rightarrow> ('r, 'f) channel_world \<Rightarrow> bool" where
  "listening chan run d w \<longleftrightarrow>
     chan (cw_radio w) = receiver_home d (receiver_rf_channel (cw_esb w)) \<and> run (cw_radio w)"

definition flash_channel :: "'f nvs_ops \<Rightarrow> 'f store \<Rightarrow> u8" where
  "flash_channel nvs s = esb_rf_channel_decode (fst (sys_read nvs s RF_CHANNEL [0xFF]) ! 0)"

definition flash_agrees :: "'f nvs_ops \<Rightarrow> ('r, 'f) channel_world \<Rightarrow> bool" where
  "flash_agrees nvs w \<longleftrightarrow> nvs_init (cw_store w) \<and>
     flash_channel nvs (cw_store w) = esb_rf_channel_decode (receiver_rf_channel (cw_esb w))"

lemma home_physical: "receiver_home d s = physical_channel d (esb_rf_channel_decode s)"
  by (simp add: receiver_home_def physical_channel_def Let_def)

lemma flash_channel_written:
  assumes "nvs_law nvs" and "sys_write_checked nvs s RF_CHANNEL [c] = (None, s')"
  shows "nvs_init s'" and "flash_channel nvs s' = esb_rf_channel_decode c"
  using sys_write_then_read [OF assms] by (simp_all add: flash_channel_def sys_read_def)

lemma flash_channel_kept:
  assumes "nvs_atomic nvs" and "nvs_init s" and "sys_write_checked nvs s RF_CHANNEL [c] = (Some e, s')"
  shows "nvs_init s'" and "flash_channel nvs s' = flash_channel nvs s"
  using failed_write_keeps [OF assms] assms(2)
  by (auto simp: flash_channel_def sys_read_def split: sum.splits prod.splits)

text \<open>The three ways in which applying a channel ends.\<close>

lemma channel_apply_cases:
  assumes law: "radio_law ops chan run" and nv: "nvs_law nvs" "nvs_atomic nvs"
    and r: "channel_apply ops nvs d c w = (err, acts, w')" and fl: "flash_agrees nvs w"
  obtains (applied) "err = None" "receiver_rf_channel (cw_esb w') = c" "listening chan run d w'" "flash_agrees nvs w'"
      "esb_radio_fault (cw_esb w') = esb_radio_fault (cw_esb w)"
    | (kept) "err \<noteq> None" "receiver_rf_channel (cw_esb w') = receiver_rf_channel (cw_esb w)"
      "listening chan run d w \<longrightarrow> listening chan run d w'" "flash_agrees nvs w'"
      "esb_radio_fault (cw_esb w') = esb_radio_fault (cw_esb w)"
    | (faulty) "err \<noteq> None" "receiver_rf_channel (cw_esb w') = receiver_rf_channel (cw_esb w)"
      "esb_radio_fault (cw_esb w')" "flash_agrees nvs w'" "acts = [ConnectionErrorStatus]"
proof (cases "op_stop_rx ops (cw_radio w)")
  case (Pair e0 r0)
  show thesis
  proof (cases e0)
    case (Some e)
    then have "r0 = cw_radio w" using law Pair by (auto simp: radio_law_def)
    then have "w' = w" "err = Some e" using r Pair Some by (auto simp: channel_apply_def Let_def)
    then show thesis using fl by (intro kept) simp_all
  next
    case None
    let ?t = "retune ops d (esb_rf_channel_decode c) w"
    obtain e1 w1 where t: "?t = (e1, w1)" by fastforce
    note f1 = retune_frame [OF t]
    obtain e2 w2 where s: "on_success ?t (store_channel nvs c) = (e2, w2)" by fastforce
    have w2: "cw_esb w2 = cw_esb w1" "cw_radio w2 = cw_radio w1"
      using s t by (auto simp: on_success_def store_channel_def split: option.splits prod.splits)
    show thesis
    proof (cases e2)
      case None': None
      then have "e1 = None" using s t by (auto simp: on_success_def split: option.splits)
      then have wr: "sys_write_checked nvs (cw_store w) RF_CHANNEL [c] = (None, cw_store w2)"
        using s t f1(1) None' by (auto simp: on_success_def store_channel_def split: prod.splits)
      have "w' = w2\<lparr>cw_esb := (cw_esb w2)\<lparr>receiver_rf_channel := c\<rparr>\<rparr>" "err = None"
        using r Pair None s None' by (auto simp: channel_apply_def Let_def)
      moreover have "chan (cw_radio w1) = physical_channel d (esb_rf_channel_decode c) \<and> run (cw_radio w1)"
        using retune_tuned [OF law] t \<open>e1 = None\<close> by blast
      ultimately show thesis
        using flash_channel_written [OF nv(1) wr] w2 f1
        by (intro applied) (simp_all add: listening_def flash_agrees_def home_physical)
    next
      case (Some e)
      have ag: "nvs_init (cw_store w2) \<and> flash_channel nvs (cw_store w2) = flash_channel nvs (cw_store w)"
      proof (cases e1)
        case None'': None
        then have "sys_write_checked nvs (cw_store w) RF_CHANNEL [c] = (Some e, cw_store w2)"
          using s t f1(1) Some by (auto simp: on_success_def store_channel_def split: prod.splits)
        moreover have "nvs_init (cw_store w)" using fl by (simp add: flash_agrees_def)
        ultimately show ?thesis using flash_channel_kept [OF nv(2)] by blast
      next
        case (Some e')
        then show ?thesis using s t f1 fl by (auto simp: on_success_def flash_agrees_def)
      qed
      obtain e3 w3 where q: "retune ops d (esb_rf_channel_decode (receiver_rf_channel (cw_esb w))) w2 = (e3, w3)" by fastforce
      note f3 = retune_frame [OF q]
      show thesis
      proof (cases e3)
        case None3: None
        then have "w' = w3" "err = Some e" using r Pair None s Some q by (auto simp: channel_apply_def Let_def)
        moreover have "chan (cw_radio w3) = physical_channel d (esb_rf_channel_decode (receiver_rf_channel (cw_esb w))) \<and>
            run (cw_radio w3)" using retune_tuned [OF law] q None3 by blast
        ultimately show thesis
          using f3 f1 w2 ag fl by (intro kept) (simp_all add: listening_def flash_agrees_def home_physical)
      next
        case (Some e')
        then have "w' = w3\<lparr>cw_esb := (cw_esb w3)\<lparr>esb_radio_fault := True\<rparr>\<rparr>" "err = Some e" "acts = [ConnectionErrorStatus]"
          using r Pair None s \<open>e2 = Some e\<close> q by (auto simp: channel_apply_def Let_def)
        then show thesis using f3 f1 w2 ag fl by (intro faulty) (simp_all add: flash_agrees_def)
      qed
    qed
  qed
qed

lemma channel_apply_gate:
  assumes "channel_apply ops nvs d c w = (err, acts, w')"
  shows "radio_operation_busy (cw_esb w') = radio_operation_busy (cw_esb w)"
    and "channel_change_pending (cw_esb w') = channel_change_pending (cw_esb w)"
    and "esb_radio_fault (cw_esb w) \<Longrightarrow> esb_radio_fault (cw_esb w')"
proof -
  have st: "cw_esb w2 = cw_esb w1" if "on_success (e1, w1) (store_channel nvs c) = (e2, w2)" for e1 w1 e2 and w2 :: "('a, 'b) channel_world"
    using that by (auto simp: on_success_def store_channel_def split: option.splits prod.splits)
  obtain e1 w1 where t: "retune ops d (esb_rf_channel_decode c) w = (e1, w1)" by fastforce
  obtain e2 w2 where s: "on_success (e1, w1) (store_channel nvs c) = (e2, w2)" by fastforce
  obtain e3 w3 where q: "retune ops d (esb_rf_channel_decode (receiver_rf_channel (cw_esb w))) w2 = (e3, w3)" by fastforce
  have "cw_esb w' = cw_esb w \<or> cw_esb w' = (cw_esb w2)\<lparr>receiver_rf_channel := c\<rparr> \<or> cw_esb w' = cw_esb w3 \<or>
      cw_esb w' = (cw_esb w3)\<lparr>esb_radio_fault := True\<rparr>"
    using assms s q by (auto simp: channel_apply_def Let_def t split: prod.splits option.splits)
  then show "radio_operation_busy (cw_esb w') = radio_operation_busy (cw_esb w)"
    and "channel_change_pending (cw_esb w') = channel_change_pending (cw_esb w)"
    and "esb_radio_fault (cw_esb w) \<Longrightarrow> esb_radio_fault (cw_esb w')"
    using retune_frame [OF t] retune_frame [OF q] st [OF s] by auto
qed

section \<open>Every order of operations\<close>

text \<open>
  The component with the owner of the radio gate as a ghost. Other components hold the gate between
  an admission and its end, and do anything else that leaves the channel and the gate alone.
\<close>

datatype gate_owner = NoOwner | Migration | Other

definition gate_view :: "esb \<Rightarrow> bool \<times> bool \<times> bool \<times> u8" where
  "gate_view st = (radio_operation_busy st, esb_radio_fault st, channel_change_pending st, receiver_rf_channel st)"

inductive channel_step ::
    "'r radio_ops \<Rightarrow> 'f nvs_ops \<Rightarrow> u8 \<Rightarrow> ('r, 'f) channel_world \<times> gate_owner \<Rightarrow> ('r, 'f) channel_world \<times> gate_owner \<Rightarrow> bool"
  for ops nvs d where
  announce: "channel_change_begin d p encoded command manual expected generation valid now (cw_esb w) = (err, acts, st) \<Longrightarrow>
    channel_step ops nvs d (w, g) (w\<lparr>cw_esb := st\<rparr>, if err = None then Migration else g)"
| poll: "channel_change_poll ops nvs d now w = (acts, w') \<Longrightarrow>
    channel_step ops nvs d (w, g) (w', if g = Migration \<and> \<not> channel_change_pending (cw_esb w') then NoOwner else g)"
| direct: "receiver_channel_now ops nvs d p encoded w = (err, acts, w') \<Longrightarrow> channel_step ops nvs d (w, g) (w', g)"
| acquire: "radio_operation_begin p replace (cw_esb w) = (err, st) \<Longrightarrow>
    channel_step ops nvs d (w, g) (w\<lparr>cw_esb := st\<rparr>, if err = None then Other else g)"
| release: "channel_step ops nvs d (w, Other) (w\<lparr>cw_esb := esb_radio_operation_end (cw_esb w)\<rparr>, NoOwner)"
| work: "gate_view st = gate_view (cw_esb w) \<Longrightarrow> channel_step ops nvs d (w, g) (w\<lparr>cw_esb := st\<rparr>, g)"

definition channel_inv ::
    "('r \<Rightarrow> u8) \<Rightarrow> ('r \<Rightarrow> bool) \<Rightarrow> 'f nvs_ops \<Rightarrow> u8 \<Rightarrow> ('r, 'f) channel_world \<times> gate_owner \<Rightarrow> bool" where
  "channel_inv chan run nvs d s \<longleftrightarrow>
     (case s of (w, g) \<Rightarrow>
        radio_operation_busy (cw_esb w) = (g \<noteq> NoOwner \<or> esb_radio_fault (cw_esb w)) \<and>
        (channel_change_pending (cw_esb w) \<longrightarrow> g = Migration) \<and>
        (g = Migration \<longrightarrow> channel_change_pending (cw_esb w)) \<and>
        flash_agrees nvs w \<and> (esb_radio_fault (cw_esb w) \<or> listening chan run d w))"

lemma begin_cases:
  assumes "radio_operation_begin p b st = (err, st')"
  obtains (refused) e where "err = Some e" "st' = st" | (admitted) "err = None" "\<not> esb_radio_fault st"
    "\<not> radio_operation_busy st" "st' = st\<lparr>radio_operation_busy := True\<rparr>"
proof -
  have "st\<lparr>radio_operation_busy := True, radio_operation_busy := False\<rparr> = st" if "\<not> radio_operation_busy st"
    using that by (cases st) simp
  then show thesis
    using assms that by (auto simp: radio_operation_begin_def Let_def split: if_splits)
qed

lemma listening_cong:
  assumes "cw_radio w' = cw_radio w" "receiver_rf_channel (cw_esb w') = receiver_rf_channel (cw_esb w)"
  shows "listening chan run d w' = listening chan run d w"
  using assms by (simp add: listening_def)

lemma flash_agrees_cong:
  assumes "cw_store w' = cw_store w" "receiver_rf_channel (cw_esb w') = receiver_rf_channel (cw_esb w)"
  shows "flash_agrees nvs w' = flash_agrees nvs w"
  using assms by (simp add: flash_agrees_def)

lemma operation_end_fields [simp]:
  "radio_operation_busy (esb_radio_operation_end st) = (esb_radio_fault st \<and> radio_operation_busy st)"
  "esb_radio_fault (esb_radio_operation_end st) = esb_radio_fault st"
  "channel_change_pending (esb_radio_operation_end st) = channel_change_pending st"
  "receiver_rf_channel (esb_radio_operation_end st) = receiver_rf_channel st"
  by (auto simp: esb_radio_operation_end_def)

lemma announce_inv:
  assumes inv: "channel_inv chan run nvs d (w, g)"
    and r: "channel_change_begin d p encoded command manual expected generation valid now (cw_esb w) = (err, acts, st)"
  shows "channel_inv chan run nvs d (w\<lparr>cw_esb := st\<rparr>, if err = None then Migration else g)"
proof -
  obtain e1 st1 where b: "radio_operation_begin p False (cw_esb w) = (e1, st1)" by fastforce
  from b show ?thesis
  proof (cases rule: begin_cases)
    case (refused e)
    then have "st = cw_esb w" "err = Some e" using r b by (simp_all add: channel_change_begin_def esb_radio_operation_begin_def)
    then show ?thesis using inv by simp
  next
    case admitted
    then have st: "gate_view st = (if err = None then (True, False, True, receiver_rf_channel (cw_esb w)) else gate_view (cw_esb w))"
      using r b inv
      by (auto simp: channel_change_begin_def esb_radio_operation_begin_def Let_def gate_view_def channel_inv_def
          esb_auto_loss_invalidate_def split: if_splits)
    then show ?thesis
      using inv admitted listening_cong [of "w\<lparr>cw_esb := st\<rparr>" w chan run d] flash_agrees_cong [of "w\<lparr>cw_esb := st\<rparr>" w nvs]
      by (cases "err = None") (auto simp: channel_inv_def gate_view_def)
  qed
qed

lemma apply_inv:
  assumes law: "radio_law ops chan run" and nv: "nvs_law nvs" "nvs_atomic nvs"
    and r: "channel_apply ops nvs d c w = (err, acts, w')" and fl: "flash_agrees nvs w"
    and li: "esb_radio_fault (cw_esb w) \<or> listening chan run d w"
  shows "flash_agrees nvs w' \<and> (esb_radio_fault (cw_esb w') \<or> listening chan run d w')"
  using channel_apply_cases [OF law nv r fl] li by metis

lemma end_world:
  "listening chan run d (w\<lparr>cw_esb := esb_radio_operation_end (cw_esb w)\<rparr>) = listening chan run d w"
  "flash_agrees nvs (w\<lparr>cw_esb := esb_radio_operation_end (cw_esb w)\<rparr>) = flash_agrees nvs w"
  by (simp_all add: listening_def flash_agrees_def)

lemma channel_step_inv:
  assumes law: "radio_law ops chan run" and nv: "nvs_law nvs" "nvs_atomic nvs"
  shows "channel_step ops nvs d s s' \<Longrightarrow> channel_inv chan run nvs d s \<Longrightarrow> channel_inv chan run nvs d s'"
proof (induction rule: channel_step.induct)
  case (announce p encoded command manual expected generation valid now w err acts st g)
  then show ?case using announce_inv by blast
next
  case (poll now w acts w' g)
  show ?case
  proof (cases "\<not> channel_change_pending (cw_esb w) \<or> now < channel_change_timeout (cw_esb w)")
    case True
    then have "w' = w" using poll.hyps by (simp add: channel_change_poll_def Let_def)
    then show ?thesis using poll.prems by (auto simp: channel_inv_def)
  next
    case False
    let ?w = "w\<lparr>cw_esb := (cw_esb w)\<lparr>channel_change_pending := False\<rparr>\<rparr>"
    obtain err a w1 where a: "channel_apply ops nvs d (pending_channel (cw_esb w)) ?w = (err, a, w1)" by (metis prod_cases3)
    have w': "w' = w1\<lparr>cw_esb := esb_radio_operation_end (cw_esb w1)\<rparr>"
      using poll.hyps False a by (simp add: channel_change_poll_def Let_def)
    have pre: "flash_agrees nvs ?w" "esb_radio_fault (cw_esb ?w) \<or> listening chan run d ?w" "g = Migration"
      "radio_operation_busy (cw_esb w)"
      using poll.prems False by (auto simp: channel_inv_def flash_agrees_def listening_def)
    show ?thesis
      using apply_inv [OF law nv a pre(1,2)] channel_apply_gate [OF a] pre(3,4)
      by (auto simp: channel_inv_def w' end_world)
  qed
next
  case (direct p encoded w err acts w' g)
  obtain e1 st1 where b: "radio_operation_begin p False (cw_esb w) = (e1, st1)" by fastforce
  from b show ?case
  proof (cases rule: begin_cases)
    case (refused e)
    then have "w' = w" using direct.hyps b by (simp add: receiver_channel_now_def esb_radio_operation_begin_def)
    then show ?thesis using direct.prems by simp
  next
    case admitted
    obtain e2 a w1 where a: "channel_apply ops nvs d encoded (w\<lparr>cw_esb := st1\<rparr>) = (e2, a, w1)" by (metis prod_cases3)
    have w': "w' = w1\<lparr>cw_esb := esb_radio_operation_end (cw_esb w1)\<rparr>"
      using direct.hyps admitted a b by (simp add: receiver_channel_now_def esb_radio_operation_begin_def)
    have pre: "flash_agrees nvs (w\<lparr>cw_esb := st1\<rparr>)"
      "esb_radio_fault (cw_esb (w\<lparr>cw_esb := st1\<rparr>)) \<or> listening chan run d (w\<lparr>cw_esb := st1\<rparr>)" "g = NoOwner"
      "\<not> channel_change_pending (cw_esb w)"
      using direct.prems admitted by (auto simp: channel_inv_def flash_agrees_def listening_def)
    show ?thesis
      using apply_inv [OF law nv a pre(1,2)] channel_apply_gate [OF a] pre(3,4) admitted
      by (auto simp: channel_inv_def w' end_world)
  qed
next
  case (acquire p replace w err st g)
  from acquire.hyps show ?case
  proof (cases rule: begin_cases)
    case (refused e)
    then show ?thesis using acquire.prems by simp
  next
    case admitted
    then show ?thesis using acquire.prems by (auto simp: channel_inv_def flash_agrees_def listening_def)
  qed
next
  case (release w)
  then show ?case by (auto simp: channel_inv_def end_world)
next
  case (work st w g)
  then show ?case by (auto simp: channel_inv_def gate_view_def flash_agrees_def listening_def)
qed


text \<open>A radio that never fails, with its channel and whether it receives.\<close>

definition plain_radio :: "(u8 \<times> bool) radio_ops" where
  "plain_radio = \<lparr>op_stop_rx = (\<lambda>(c, on). (None, (c, False))), op_flush_rx = (\<lambda>r. (None, r)),
     op_set_rf_channel = (\<lambda>c (_, on). (None, (c, on))), op_start_rx = (\<lambda>(c, on). (None, (c, True)))\<rparr>"

definition tuned_world :: "(u8 \<times> bool, (u16 \<times> bytes) list) channel_world" where
  "tuned_world = \<lparr>cw_esb = idle_esb, cw_radio = (78, True), cw_store = \<lparr>nvs_init = True, fs = []\<rparr>\<rparr>"


end
