(* ===== verification/RemoteCommands.thy ===== *)
theory RemoteCommands
  imports Tdma PacketSequence
begin

text \<open>
  The commands that \<open>esb.c\<close> queues for the trackers: the single slot for a command with its
  argument, sensitivity and metadata requests, the wake-on-motion transactions with their tokens, and
  the test mode for one or all trackers. A definition is a critical section under \<open>irq_lock\<close>; where a
  function sleeps to see which trackers are active, the state after the sleep is its argument, or a
  function \<open>during\<close> says what happens meanwhile. Log output is left out, and the sensitivities are
  given as the integers into which the code converts its floating point arguments.
\<close>

abbreviation (input) PING_TIMEOUT_MS :: int where "PING_TIMEOUT_MS \<equiv> 5000"
abbreviation (input) ESB_WOM_TIMEOUT_MAX_MINUTES :: u16 where "ESB_WOM_TIMEOUT_MAX_MINUTES \<equiv> 35791"
abbreviation (input) ESB_WOM_TIMEOUT_CLEAR :: u16 where "ESB_WOM_TIMEOUT_CLEAR \<equiv> 0xffff"
abbreviation (input) ESB_WOM_ENTER :: u16 where "ESB_WOM_ENTER \<equiv> 0xfffe"
abbreviation (input) ESB_PONG_FLAG_DATA_COLLECT_ON :: u8 where "ESB_PONG_FLAG_DATA_COLLECT_ON \<equiv> 0x22"
abbreviation (input) ESB_PONG_FLAG_DATA_COLLECT_BATCH_ON :: u8 where "ESB_PONG_FLAG_DATA_COLLECT_BATCH_ON \<equiv> 0x34"
abbreviation (input) ESB_METADATA_MASK_VALID :: u8 where "ESB_METADATA_MASK_VALID \<equiv> 0x3F"

definition paired :: "esb \<Rightarrow> nat \<Rightarrow> bool" where
  "paired st t \<longleftrightarrow> t < stored_trackers st \<and> t < MAX_TRACKERS \<and> stored_tracker_addr st ! t \<noteq> 0"

section \<open>Queueing\<close>

definition reserved_flag :: "u8 \<Rightarrow> bool" where
  "reserved_flag f \<longleftrightarrow> f = ESB_PONG_FLAG_SET_CHANNEL \<or> f = ESB_PONG_FLAG_CLEAR_CHANNEL \<or>
     f = ESB_PONG_FLAG_WOM_CONTROL \<or> f = ESB_PING_FLAG_WOM_RESULT \<or> f = ESB_PING_FLAG_WOM_ERROR"

definition esb_send_remote_command_arg :: "nat \<Rightarrow> u8 \<Rightarrow> u8 \<Rightarrow> esb \<times> raw_arq \<Rightarrow> esb \<times> raw_arq" where
  "esb_send_remote_command_arg t command_flag arg s =
     (let (st, raw) = s
      in if reserved_flag command_flag then (st, raw)
         else if t < MAX_TRACKERS then
           (update_slot t (\<lambda>x.
              (if command_flag = ESB_PONG_FLAG_DATA_COLLECT_ON \<or> command_flag = ESB_PONG_FLAG_DATA_COLLECT_BATCH_ON
               then x\<lparr>last_raw_valid := False\<rparr> else x)
              \<lparr>pending_cmd_arg := arg, tracker_remote_command := command_flag\<rparr>) st,
            if command_flag = ESB_PONG_FLAG_DATA_COLLECT_ON then raw_arq_reset raw else raw)
         else (st, raw))"

definition esb_send_remote_command :: "nat \<Rightarrow> u8 \<Rightarrow> esb \<times> raw_arq \<Rightarrow> esb \<times> raw_arq" where
  "esb_send_remote_command t command_flag = esb_send_remote_command_arg t command_flag 0"

definition esb_clear_remote_ota_abort :: "nat \<Rightarrow> esb \<Rightarrow> esb" where
  "esb_clear_remote_ota_abort t st =
     (if MAX_TRACKERS \<le> t then st
      else if tracker_remote_command (tracker_slots st ! t) = ESB_PONG_FLAG_OTA_ABORT
      then update_slot t (\<lambda>x. x\<lparr>tracker_remote_command := ESB_PONG_FLAG_NORMAL\<rparr>) st
      else st)"

definition esb_scan_active_mask :: "int \<Rightarrow> esb \<Rightarrow> u32" where
  "esb_scan_active_mask scan_start st =
     fold (\<lambda>i m. if stored_tracker_addr st ! i \<noteq> 0 \<and> scan_start \<le> last_packet_time (slot_stats (tracker_slots st ! i))
                 then set_bit i m else m) [0..<min (stored_trackers st) MAX_TRACKERS] 0"

definition esb_publish_flag_mask :: "u8 \<Rightarrow> u32 \<Rightarrow> esb \<Rightarrow> esb" where
  "esb_publish_flag_mask command_flag m st =
     st\<lparr>tracker_slots := update_where (mask_has m) (\<lambda>x. x\<lparr>tracker_remote_command := command_flag\<rparr>) (tracker_slots st)\<rparr>"

definition esb_send_remote_command_all :: "u8 \<Rightarrow> int \<Rightarrow> esb \<Rightarrow> u32 \<times> esb" where
  "esb_send_remote_command_all command_flag scan_start st =
     (if reserved_flag command_flag then (0, st)
      else let m = esb_scan_active_mask scan_start st in (m, esb_publish_flag_mask command_flag m st))"

definition esb_send_remote_command_sens :: "nat \<Rightarrow> u16 list \<Rightarrow> esb \<Rightarrow> esb" where
  "esb_send_remote_command_sens t sensitivity st =
     (if MAX_TRACKERS \<le> t then st
      else update_slot t (\<lambda>x. x\<lparr>pending_sens_data := sensitivity, tracker_remote_command := ESB_PONG_FLAG_SENS_SET\<rparr>) st)"

definition sens_auto_slot :: "u8 \<Rightarrow> u16 \<Rightarrow> tracker_slot \<Rightarrow> tracker_slot" where
  "sens_auto_slot axis revolutions x = x\<lparr>pending_sens_auto_axis := axis,
     pending_sens_auto_revolutions := revolutions, tracker_remote_command := ESB_PONG_FLAG_SENS_AUTO\<rparr>"

definition esb_send_remote_command_sens_auto :: "nat \<Rightarrow> u8 \<Rightarrow> u16 \<Rightarrow> int \<Rightarrow> esb \<Rightarrow> bool \<times> esb" where
  "esb_send_remote_command_sens_auto t axis revolutions now st =
     (if MAX_TRACKERS \<le> t then (False, st)
      else
        let last = last_packet_time (slot_stats (tracker_slots st ! t))
        in if \<not> (paired st t \<and> 0 < last \<and> now - last \<le> PING_TIMEOUT_MS) then (False, st)
           else (True, update_slot t (sens_auto_slot axis revolutions) st))"

definition esb_send_remote_command_sens_auto_all :: "u8 \<Rightarrow> u16 \<Rightarrow> int \<Rightarrow> esb \<Rightarrow> u32 \<times> esb" where
  "esb_send_remote_command_sens_auto_all axis revolutions scan_start st =
     (let m = esb_scan_active_mask scan_start st
      in (m, st\<lparr>tracker_slots := update_where (mask_has m) (sens_auto_slot axis revolutions) (tracker_slots st)\<rparr>))"

definition next_token :: "u16 \<Rightarrow> u16" where
  "next_token t = (if t + 1 = 0 then 1 else t + 1)"

definition esb_request_metadata :: "nat \<Rightarrow> u8 \<Rightarrow> u8 \<Rightarrow> int \<Rightarrow> esb \<Rightarrow> bool \<times> esb" where
  "esb_request_metadata t m chunk now st =
     (if MAX_TRACKERS \<le> t \<or> m = 0 \<or> m AND NOT ESB_METADATA_MASK_VALID \<noteq> 0 then (False, st)
      else
        let last = last_packet_time (slot_stats (tracker_slots st ! t))
        in if \<not> paired st t \<or> last = 0 \<or> now - last > PING_TIMEOUT_MS then (False, st)
           else
             let token = next_token (metadata_next_token st)
             in (True, update_slot t (\<lambda>x. x\<lparr>metadata_pending_token := token, metadata_pending_mask := m,
                   metadata_pending_chunk := chunk\<rparr>) (st\<lparr>metadata_next_token := token\<rparr>)))"

section \<open>Wake on motion\<close>

definition wom_minutes_ok :: "u16 \<Rightarrow> bool" where
  "wom_minutes_ok minutes \<longleftrightarrow> minutes \<le> ESB_WOM_TIMEOUT_MAX_MINUTES \<or> minutes = ESB_WOM_TIMEOUT_CLEAR \<or>
     minutes = ESB_WOM_ENTER"

definition wom_targets :: "u8 \<Rightarrow> int \<Rightarrow> esb \<Rightarrow> nat \<Rightarrow> bool" where
  "wom_targets target scan_start st i \<longleftrightarrow> paired st i \<and>
     (unat target = i \<or> (target = 0xff \<and> scan_start \<le> last_packet_time (slot_stats (tracker_slots st ! i))))"

text \<open>The result is the mask of the targets and the token, 0 when nothing was sent.\<close>

definition esb_send_remote_wom_command :: "u8 \<Rightarrow> u16 \<Rightarrow> int \<Rightarrow> esb \<Rightarrow> u32 \<times> u16 \<times> esb" where
  "esb_send_remote_wom_command target minutes scan_start st =
     (if \<not> wom_minutes_ok minutes \<or> (target \<noteq> 0xff \<and> MAX_TRACKERS \<le> unat target) then (0, 0, st)
      else
        let m = fold (\<lambda>i m. if wom_targets target scan_start st i then set_bit i m else m) [0..<MAX_TRACKERS] 0
        in if m = 0 then (0, 0, st)
           else
             let token = next_token (wom_next_token st)
             in (m, token, st\<lparr>wom_next_token := token,
                   tracker_slots := update_where (mask_has m) (\<lambda>x. x\<lparr>wom_token := token, wom_minutes := minutes,
                     wom_error := 0, wom_complete := False, wom_advertised := False, wom_first_ping_counter := 0,
                     tracker_remote_command := ESB_PONG_FLAG_WOM_CONTROL\<rparr>) (tracker_slots st)\<rparr>))"

definition wom_success :: "tracker_slot \<Rightarrow> u8 \<Rightarrow> u16 \<Rightarrow> bool" where
  "wom_success x flag value \<longleftrightarrow> flag = ESB_PING_FLAG_WOM_RESULT \<and>
     (if wom_minutes x = ESB_WOM_ENTER then value = ESB_WOM_ENTER
      else if wom_minutes x = ESB_WOM_TIMEOUT_CLEAR then value = 0
      else 1 \<le> value \<and> value \<le> ESB_WOM_TIMEOUT_MAX_MINUTES \<and> (wom_minutes x = 0 \<or> wom_minutes x = value))"

definition be16_of :: "bytes \<Rightarrow> nat \<Rightarrow> u16" where
  "be16_of data i = push_bit 8 (ucast (data ! i)) OR ucast (data ! (i + 1))"

definition remote_wom_receive :: "nat \<Rightarrow> u8 \<Rightarrow> bytes \<Rightarrow> u8 \<Rightarrow> esb \<Rightarrow> esb" where
  "remote_wom_receive t flag data counter st =
     (if flag \<noteq> ESB_PING_FLAG_WOM_RESULT \<and> flag \<noteq> ESB_PING_FLAG_WOM_ERROR then st
      else
        let value = be16_of data 0; token = be16_of data 2; x = tracker_slots st ! t
        in if tracker_remote_command x = ESB_PONG_FLAG_WOM_CONTROL \<and> token \<noteq> 0 \<and> token = wom_token x \<and>
              \<not> wom_complete x \<and> wom_advertised x \<and> counter \<noteq> wom_first_ping_counter x
           then
             let success = wom_success x flag value; failure = (flag = ESB_PING_FLAG_WOM_ERROR \<and> value \<noteq> 0)
             in if success \<or> failure
                then update_slot t (\<lambda>x. x\<lparr>wom_minutes := (if success then value else 0),
                       wom_error := (if failure then value else 0), wom_complete := True,
                       tracker_remote_command := ESB_PONG_FLAG_NORMAL\<rparr>) st
                else st
           else st)"

text \<open>The C library's number for a cancelled operation is the first argument.\<close>

definition esb_get_remote_wom_result :: "u16 \<Rightarrow> nat \<Rightarrow> u16 \<Rightarrow> esb \<Rightarrow> (u16 \<times> u16) option \<times> esb" where
  "esb_get_remote_wom_result ecanceled t token st =
     (if MAX_TRACKERS \<le> t \<or> token = 0 then (None, st)
      else
        let x = tracker_slots st ! t; matches = (wom_token x = token);
            st1 = (if matches \<and> \<not> wom_complete x \<and> tracker_remote_command x \<noteq> ESB_PONG_FLAG_WOM_CONTROL
                   then update_slot t (\<lambda>x. x\<lparr>wom_minutes := 0, wom_error := ecanceled, wom_complete := True\<rparr>) st
                   else st);
            y = tracker_slots st1 ! t
        in (if matches \<and> wom_complete y then Some (wom_minutes y, wom_error y) else None, st1))"

definition esb_cancel_remote_wom_command :: "u32 \<Rightarrow> u16 \<Rightarrow> esb \<Rightarrow> esb" where
  "esb_cancel_remote_wom_command m token st =
     st\<lparr>tracker_slots := map (\<lambda>(i, x). if mask_has m i \<and> token \<noteq> 0 \<and> wom_token x = token
          then (if tracker_remote_command x = ESB_PONG_FLAG_WOM_CONTROL
                then x\<lparr>tracker_remote_command := ESB_PONG_FLAG_NORMAL\<rparr> else x)
               \<lparr>wom_token := 0, wom_minutes := 0, wom_error := 0, wom_complete := False, wom_advertised := False,
                wom_first_ping_counter := 0\<rparr>
          else x) (enumerate 0 (tracker_slots st))\<rparr>"

section \<open>Test mode\<close>

text \<open>Under the lock, only onto idle slots whose grace has elapsed.\<close>

definition esb_publish_test_flag_mask :: "u8 \<Rightarrow> u32 \<Rightarrow> u32 \<Rightarrow> esb \<Rightarrow> esb" where
  "esb_publish_test_flag_mask command_flag m now st =
     st\<lparr>tracker_slots := map (\<lambda>(i, x). if mask_has m i \<and> tracker_remote_command x = ESB_PONG_FLAG_NORMAL \<and>
            \<not> sint (now - test_all_ready_after_ms st ! i) < 0
          then x\<lparr>tracker_remote_command := command_flag\<rparr> else x) (enumerate 0 (tracker_slots st))\<rparr>"

definition test_targeted :: "nat \<Rightarrow> u16 \<Rightarrow> u8 \<Rightarrow> esb \<Rightarrow> esb" where
  "test_targeted t tps command_flag st =
     update_slot t (\<lambda>x. x\<lparr>tracker_test_on_tps := tps, tracker_remote_command := command_flag\<rparr>)
       (test_all_invalidate (st\<lparr>test_all_generation := test_all_generation st + 1\<rparr>))"

definition esb_send_remote_command_test_on :: "nat \<Rightarrow> u16 \<Rightarrow> esb \<Rightarrow> u32 \<times> esb" where
  "esb_send_remote_command_test_on t tps st =
     (if MAX_TRACKERS \<le> t then (0, st)
      else (set_bit t 0, test_targeted t tps ESB_PONG_FLAG_TEST_MODE_ON st))"

definition esb_send_remote_command_test_off :: "nat \<Rightarrow> esb \<Rightarrow> u32 \<times> esb" where
  "esb_send_remote_command_test_off t st =
     (if MAX_TRACKERS \<le> t then (0, st)
      else (set_bit t 0, test_targeted t 0 ESB_PONG_FLAG_TEST_MODE_OFF st))"

text \<open>Opening of a broadcast: the guard and the generation that it owns.\<close>

definition test_all_open :: "esb \<Rightarrow> u32 \<times> esb" where
  "test_all_open st =
     (let gen = test_all_generation st + 1
      in (gen, st\<lparr>test_all_broadcasting := True, test_all_generation := gen\<rparr>))"

definition expire_grace :: "u32 \<Rightarrow> esb \<Rightarrow> esb" where
  "expire_grace now st =
     st\<lparr>test_all_ready_after_ms := map (\<lambda>r. if 0 \<le> sint (now - r) then 0 else r) (test_all_ready_after_ms st)\<rparr>"

definition test_on_all_commit :: "u32 \<Rightarrow> u16 \<Rightarrow> u32 \<Rightarrow> u32 \<Rightarrow> esb \<Rightarrow> u32 \<times> esb" where
  "test_on_all_commit gen tps m now st =
     (if test_all_generation st \<noteq> gen then (0, st\<lparr>test_all_broadcasting := False\<rparr>)
      else
        let st1 = (esb_auto_loss_invalidate (st\<lparr>test_all_state_valid := True, test_all_enabled := True\<rparr>))
              \<lparr>test_all_confirmed_mask := 0, test_all_requested_tps := tps\<rparr>;
            st2 = st1\<lparr>test_all_effective_tps := min (test_all_requested_value st1)
              (test_all_capacity_tps (tdma_dynamic_active_count st1) st1)\<rparr>;
            st3 = st2\<lparr>tracker_slots := map (\<lambda>x. x\<lparr>tracker_test_on_tps := test_all_wire_tps st2\<rparr>) (tracker_slots st2)\<rparr>;
            st4 = esb_publish_test_flag_mask ESB_PONG_FLAG_TEST_MODE_ON m now (expire_grace now st3)
        in (m, st4\<lparr>test_all_broadcasting := False\<rparr>))"

definition test_off_all_commit :: "u32 \<Rightarrow> u32 \<Rightarrow> u32 \<Rightarrow> esb \<Rightarrow> u32 \<times> esb" where
  "test_off_all_commit gen m now st =
     (if test_all_generation st \<noteq> gen then (0, st\<lparr>test_all_broadcasting := False\<rparr>)
      else
        let st1 = st\<lparr>test_all_state_valid := True, test_all_enabled := False, test_all_confirmed_mask := 0,
              test_all_effective_tps := 0\<rparr>;
            st2 = st1\<lparr>tracker_slots := map (\<lambda>x. x\<lparr>tracker_test_on_tps := 0\<rparr>) (tracker_slots st1)\<rparr>;
            st3 = esb_publish_test_flag_mask ESB_PONG_FLAG_TEST_MODE_OFF m now (expire_grace now st2)
        in (m, st3\<lparr>test_all_broadcasting := False\<rparr>))"

text \<open>
  The whole broadcasts: \<open>during\<close> is what the rest of the receiver does while they sleep,
  \<open>later\<close> what it does between the scan and the final section.
\<close>

definition esb_send_remote_command_test_on_all ::
    "u16 \<Rightarrow> int \<Rightarrow> u32 \<Rightarrow> (esb \<Rightarrow> esb) \<Rightarrow> (esb \<Rightarrow> esb) \<Rightarrow> esb \<Rightarrow> u32 \<times> esb" where
  "esb_send_remote_command_test_on_all tps scan_start now during later st =
     (let (gen, st1) = test_all_open st; st2 = during st1; m = esb_scan_active_mask scan_start st2
      in test_on_all_commit gen tps m now (later st2))"

definition esb_send_remote_command_test_off_all ::
    "int \<Rightarrow> u32 \<Rightarrow> (esb \<Rightarrow> esb) \<Rightarrow> (esb \<Rightarrow> esb) \<Rightarrow> esb \<Rightarrow> u32 \<times> esb" where
  "esb_send_remote_command_test_off_all scan_start now during later st =
     (let (gen, st1) = test_all_open st; st2 = during st1; m = esb_scan_active_mask scan_start st2
      in test_off_all_commit gen m now (later st2))"

end
