(* ===== verification/Pairing.thy ===== *)
theory Pairing
  imports EsbOta DataCollect Hid ChannelChange RemoteCommands
begin

text \<open>
  Pairing in \<open>esb.c\<close>: adding, removing and clearing trackers, which first commits the roster to
  flash and then resets every trace of the slot in all components, the requests that arrive over the
  air, pairing mode with its limits, and the restoring of the roster at start. The state is the record
  \<open>receiver\<close> of the components' states; the functions of the other components are the
  definitions of their theories. Indicator lights and log output are left out.
\<close>

abbreviation (input) PAIRING_EXIT_DELAY_MS :: int where "PAIRING_EXIT_DELAY_MS \<equiv> 15000"

record ('q, 'f) receiver =
  rc_esb :: esb
  rc_raw :: raw_arq
  rc_ready :: bool
  rc_store :: "'f store"
  rc_ota :: ota
  rc_collect :: data_collect
  rc_hid :: hid
  rc_events :: "'q ev_state"
  rc_pairing_msgq :: "bytes list"

text \<open>The calls of the firmware relay into the other components.\<close>

fun run_ota_action :: "ota_action \<Rightarrow> ('q, 'f) receiver \<Rightarrow> ('q, 'f) receiver" where
  "run_ota_action (RemoteCommand t f) r =
     (let (e, raw) = esb_send_remote_command t f (rc_esb r, rc_raw r) in r\<lparr>rc_esb := e, rc_raw := raw\<rparr>)"
| "run_ota_action (ClearRemoteOtaAbort t) r = r\<lparr>rc_esb := esb_clear_remote_ota_abort t (rc_esb r)\<rparr>"
| "run_ota_action RadioOperationBegin r = r\<lparr>rc_esb := (rc_esb r)\<lparr>radio_operation_busy := True\<rparr>\<rparr>"
| "run_ota_action RadioOperationEnd r = r\<lparr>rc_esb := esb_radio_operation_end (rc_esb r)\<rparr>"
| "run_ota_action AutoLossInvalidate r = r\<lparr>rc_esb := esb_auto_loss_invalidate (rc_esb r)\<rparr>"
| "run_ota_action (HidWritePacket b) r = r\<lparr>rc_hid := snd (hid_write_packet_n b 0 (rc_hid r))\<rparr>"
| "run_ota_action SubmitFwInfoWork r = r"

definition forget_transfers :: "nat \<Rightarrow> u32 \<Rightarrow> ('q, 'f) receiver \<Rightarrow> ('q, 'f) receiver" where
  "forget_transfers t now r =
     (let (acts, o1) = esb_ota_forget_tracker (stored_trackers (rc_esb r)) t now (rc_ota r);
          r1 = fold run_ota_action acts (r\<lparr>rc_ota := o1\<rparr>)
      in r1\<lparr>rc_collect := data_collect_forget_tracker t (rc_collect r1)\<rparr>)"

section \<open>Slots\<close>

definition zero_tracker_slot :: tracker_slot where
  "zero_tracker_slot = \<lparr>tdma_config_packed = 0, tdma_prev_recv = 0, tdma_prev_gaps = 0,
     tdma_prev_restarts = 0, last_packet_sequence = 0, sequence_initialized = False, last_ping_counter = 0,
     ping_counter_initialized = False, last_ping_time = 0, last_pong_queued_counter = 0,
     pipe_mismatch_count = 0, crc_error_count = 0, last_raw_seq = 0, last_raw_valid = False,
     tracker_remote_command = 0, pending_cmd_arg = 0, tracker_test_on_tps = 0, pending_sens_data = [0, 0, 0],
     pending_sens_auto_axis = 0, pending_sens_auto_revolutions = 0, metadata_active_mask = 0,
     metadata_active_chunk = 0, metadata_active_token = 0, metadata_pending_mask = 0,
     metadata_pending_chunk = 0, metadata_pending_token = 0, wom_token = 0, wom_minutes = 0, wom_error = 0,
     wom_complete = False, wom_advertised = False, wom_first_ping_counter = 0,
     slot_stats = \<lparr>total_received = 0, normal_packets = 0, gap_events = 0, out_of_order = 0,
       duplicate_packets = 0, restart_events = 0, total_gaps = 0, last_sequence = 0, last_packet_time = 0,
       first_packet = False, packets_in_last_second = 0, last_tps_time = 0, current_tps = 0,
       status_received = 0, status_lost = 0\<rparr>,
     decision_received = 0, decision_gaps = 0\<rparr>"

definition slot_reset_esb :: "nat \<Rightarrow> esb \<Rightarrow> esb" where
  "slot_reset_esb t e =
     esb_auto_loss_invalidate (tdma_shadow_forget_tracker t
       (e\<lparr>tracker_slots := (tracker_slots e)[t := zero_tracker_slot],
          test_all_confirmed_mask := unset_bit t (test_all_confirmed_mask e),
          test_all_ready_after_ms := (test_all_ready_after_ms e)[t := 0],
          channel_target_mask := unset_bit t (channel_target_mask e)\<rparr>))"

definition tracker_slot_reset :: "nat \<Rightarrow> ('q, 'f) receiver \<Rightarrow> ('q, 'f) receiver" where
  "tracker_slot_reset t r =
     r\<lparr>rc_esb := slot_reset_esb t (rc_esb r), rc_hid := hid_reset_rssi_smooth t (rc_hid r),
       rc_events := tracker_events_pairing_invalidate (rc_events r) (set_bit t 0)\<rparr>"

definition roster_save :: "'f nvs_ops \<Rightarrow> nat \<Rightarrow> u64 list \<Rightarrow> ('q, 'f) receiver \<Rightarrow> errno option \<times> ('q, 'f) receiver" where
  "roster_save nvs n addresses r =
     (let (err, s) = tracker_roster_save nvs (rc_store r) (of_nat n) addresses in (err, r\<lparr>rc_store := s\<rparr>))"

section \<open>Adding, removing, clearing\<close>

definition esb_add_pair :: "'f nvs_ops \<Rightarrow> u64 \<Rightarrow> ('q, 'f) receiver \<Rightarrow> (errno + nat) \<times> ('q, 'f) receiver" where
  "esb_add_pair nvs addr r =
     (let e = rc_esb r; n = stored_trackers e
      in if \<not> tracker_roster_address_valid addr then (Inl EINVAL, r)
         else if \<not> rc_ready r then (Inl EIO, r)
         else (case find_index (\<lambda>a. a = addr) (take n (stored_tracker_addr e)) of
             Some i \<Rightarrow> (Inr i, r)
           | None \<Rightarrow>
               if MAX_TRACKERS \<le> n then (Inl ENOSPC, r)
               else (case roster_save nvs (n + 1) ((stored_tracker_addr e)[n := addr]) r of
                   (Some err, r1) \<Rightarrow> (Inl err, r1)
                 | (None, r1) \<Rightarrow>
                     let r2 = tracker_slot_reset n r1;
                         r3 = r2\<lparr>rc_esb := (rc_esb r2)\<lparr>stored_tracker_addr := (stored_tracker_addr (rc_esb r2))[n := addr],
                                stored_trackers := n + 1\<rparr>\<rparr>
                     in (Inr n, r3\<lparr>rc_events := tracker_events_pairing_cleanup (rc_events r3)\<rparr>))))"

text \<open>
  The critical section of a removal, and the whole. The last arguments are the activity of the
  other components and the clock of the recalculation, and the evidence that arrives meanwhile.
\<close>

definition remove_section :: "nat \<Rightarrow> bool \<Rightarrow> ('q, 'f) receiver \<Rightarrow> ('q, 'f) receiver" where
  "remove_section t raw_target r =
     (let r1 = (if raw_target then r\<lparr>rc_raw := raw_arq_reset (rc_raw r)\<rparr> else r)
      in tracker_slot_reset t (r1\<lparr>rc_esb := (rc_esb r1)\<lparr>stored_trackers := t,
           stored_tracker_addr := (stored_tracker_addr (rc_esb r1))[t := 0]\<rparr>\<rparr>))"

definition recalculate_and_cleanup ::
    "peers \<Rightarrow> (nat \<Rightarrow> int) \<Rightarrow> (esb \<Rightarrow> esb) \<Rightarrow> ('q, 'f) receiver \<Rightarrow> ('q, 'f) receiver" where
  "recalculate_and_cleanup p clock between r =
     r\<lparr>rc_esb := tdma_recalculate p True clock between (rc_esb r),
       rc_events := tracker_events_pairing_cleanup (rc_events r)\<rparr>"

definition esb_pop_pair ::
    "'f nvs_ops \<Rightarrow> u32 \<Rightarrow> peers \<Rightarrow> (nat \<Rightarrow> int) \<Rightarrow> (esb \<Rightarrow> esb) \<Rightarrow> ('q, 'f) receiver \<Rightarrow> errno option \<times> ('q, 'f) receiver" where
  "esb_pop_pair nvs now p clock between r =
     (if \<not> rc_ready r then (Some EIO, r)
      else if stored_trackers (rc_esb r) = 0 then (None, r)
      else
        let t = stored_trackers (rc_esb r) - 1
        in case roster_save nvs t ((stored_tracker_addr (rc_esb r))[t := 0]) r of
             (Some err, r1) \<Rightarrow> (Some err, r1)
           | (None, r1) \<Rightarrow>
               let raw_target = data_collect_is_target t (rc_collect r1)
               in (None, recalculate_and_cleanup p clock between (remove_section t raw_target (forget_transfers t now r1))))"

definition clear_section :: "('q, 'f) receiver \<Rightarrow> ('q, 'f) receiver" where
  "clear_section r =
     (let e = rc_esb r;
          e1 = (test_all_invalidate (e\<lparr>test_all_generation := test_all_generation e + 1\<rparr>))
            \<lparr>test_all_enabled := False, test_all_requested_tps := 0, test_all_effective_tps := 0,
             stored_trackers := 0, stored_tracker_addr := replicate MAX_TRACKERS 0\<rparr>;
          r1 = fold tracker_slot_reset [0..<MAX_TRACKERS] (r\<lparr>rc_raw := raw_arq_reset (rc_raw r), rc_esb := e1\<rparr>)
      in r1\<lparr>rc_esb := (rc_esb r1)\<lparr>shadow_desired_changed_at_ms := 0\<rparr>, rc_ready := True\<rparr>)"

definition esb_clear ::
    "'f nvs_ops \<Rightarrow> (nat \<Rightarrow> u32) \<Rightarrow> peers \<Rightarrow> (nat \<Rightarrow> int) \<Rightarrow> (esb \<Rightarrow> esb) \<Rightarrow> ('q, 'f) receiver \<Rightarrow> errno option \<times> ('q, 'f) receiver" where
  "esb_clear nvs now p clock between r =
     (case roster_save nvs 0 (replicate MAX_TRACKERS 0) r of
        (Some err, r1) \<Rightarrow> (Some err, r1)
      | (None, r1) \<Rightarrow>
          let r2 = r1\<lparr>rc_esb := (rc_esb r1)\<lparr>esb_clearing := True, esb_pairing := False\<rparr>, rc_pairing_msgq := []\<rparr>;
              r3 = fold (\<lambda>t x. forget_transfers t (now t) x) [0..<MAX_TRACKERS] r2;
              r4 = recalculate_and_cleanup p clock between (clear_section r3)
          in (None, r4\<lparr>rc_esb := (rc_esb r4)\<lparr>esb_clearing := False\<rparr>\<rparr>))"

definition tracker_store_restore :: "'f nvs_ops \<Rightarrow> ('q, 'f) receiver \<Rightarrow> errno option \<times> ('q, 'f) receiver" where
  "tracker_store_restore nvs r =
     (if rc_ready r then (None, r)
      else (case tracker_roster_load nvs (rc_store r) of
          (Inl err, s) \<Rightarrow> (Some err, r\<lparr>rc_store := s\<rparr>)
        | (Inr (count, addresses), s) \<Rightarrow>
            (None, r\<lparr>rc_store := s, rc_ready := True,
               rc_esb := (rc_esb r)\<lparr>stored_tracker_addr := addresses, stored_trackers := unat count\<rparr>\<rparr>)))"

section \<open>Requests over the air\<close>

definition pair_checksum :: "zephyr \<Rightarrow> bytes \<Rightarrow> u8" where
  "pair_checksum z packet =
     (let c = crc8_ccitt z 0x07 (take 6 (drop 2 packet)) in if c = 0 then 8 else c)"

definition esb_parse_pair :: "zephyr \<Rightarrow> 'f nvs_ops \<Rightarrow> bytes \<Rightarrow> ('q, 'f) receiver \<Rightarrow> bool \<times> ('q, 'f) receiver" where
  "esb_parse_pair z nvs packet r =
     (let found = drop_bit 16 (native_u64 packet) AND 0xFFFFFFFFFFFF;
          checksum_valid = (pair_checksum z packet = packet ! 0);
          n = stored_trackers (rc_esb r);
          send_id = (if found = 0 then n
            else (case find_index (\<lambda>a. a = found) (take n (stored_tracker_addr (rc_esb r))) of Some i \<Rightarrow> i | None \<Rightarrow> n))
      in if checksum_valid \<and> found \<noteq> 0 \<and> send_id = n \<and> n < MAX_TRACKERS
         then (case esb_add_pair nvs found r of
             (Inl err, r1) \<Rightarrow> (False, r1)
           | (Inr i, r1) \<Rightarrow> (i < MAX_TRACKERS, r1))
         else (checksum_valid \<and> send_id < MAX_TRACKERS, r))"

fun drain_pairing :: "zephyr \<Rightarrow> 'f nvs_ops \<Rightarrow> bytes list \<Rightarrow> ('q, 'f) receiver \<Rightarrow> ('q, 'f) receiver" where
  "drain_pairing z nvs [] r = r"
| "drain_pairing z nvs (packet # q) r =
     drain_pairing z nvs q (if packet ! 1 \<noteq> 0 then r else snd (esb_parse_pair z nvs packet r))"

definition process_pairing_queue :: "zephyr \<Rightarrow> 'f nvs_ops \<Rightarrow> ('q, 'f) receiver \<Rightarrow> ('q, 'f) receiver" where
  "process_pairing_queue z nvs r = drain_pairing z nvs (rc_pairing_msgq r) (r\<lparr>rc_pairing_msgq := []\<rparr>)"

section \<open>Pairing mode\<close>

definition esb_start_pairing_with_count :: "nat \<Rightarrow> int \<Rightarrow> ('q, 'f) receiver \<Rightarrow> ('q, 'f) receiver" where
  "esb_start_pairing_with_count target now r =
     r\<lparr>rc_esb := (esb_auto_loss_invalidate ((rc_esb r)\<lparr>esb_pairing := True\<rparr>))\<lparr>pairing_start_time := now,
         pairing_target_count := target, pairing_initial_count := stored_trackers (rc_esb r)\<rparr>,
       rc_pairing_msgq := []\<rparr>"

definition esb_start_pairing :: "int \<Rightarrow> ('q, 'f) receiver \<Rightarrow> ('q, 'f) receiver" where
  "esb_start_pairing now r =
     r\<lparr>rc_esb := (esb_auto_loss_invalidate ((rc_esb r)\<lparr>esb_pairing := True\<rparr>))\<lparr>pairing_start_time := now,
         pairing_target_count := 0, pairing_initial_count := stored_trackers (rc_esb r)\<rparr>,
       rc_pairing_msgq := []\<rparr>"

definition esb_finish_pair :: "('q, 'f) receiver \<Rightarrow> ('q, 'f) receiver" where
  "esb_finish_pair r =
     r\<lparr>rc_esb := (rc_esb r)\<lparr>esb_pairing := False, pairing_start_time := 0, pairing_target_count := 0,
         pairing_initial_count := 0, pairing_target_reached_time := 0, pairing_new_devices_blocked := False\<rparr>,
       rc_pairing_msgq := []\<rparr>"

text \<open>
  The part of the radio thread's loop for pairing mode: the queue, the time limit of
  \<open>CONFIG_PAIRING_TIMEOUT\<close> seconds, and the target count with its delay. The three times are the
  readings of the clock.
\<close>

definition pairing_time_limit :: "int \<Rightarrow> int \<Rightarrow> ('q, 'f) receiver \<Rightarrow> ('q, 'f) receiver" where
  "pairing_time_limit timeout now r =
     (if 0 < timeout \<and> 0 < pairing_start_time (rc_esb r) \<and> timeout * 1000 \<le> now - pairing_start_time (rc_esb r)
      then esb_finish_pair r else r)"

definition pairing_target_limit :: "int \<Rightarrow> int \<Rightarrow> ('q, 'f) receiver \<Rightarrow> ('q, 'f) receiver" where
  "pairing_target_limit now1 now2 r =
     (let e = rc_esb r; new_devices = (int (stored_trackers e) - int (pairing_initial_count e)) mod 256
      in if 0 < pairing_target_count e \<and> int (pairing_target_count e) \<le> new_devices then
           let r1 = (if pairing_target_reached_time e = 0
                 then r\<lparr>rc_esb := e\<lparr>pairing_target_reached_time := now1, pairing_new_devices_blocked := True\<rparr>\<rparr> else r)
           in if PAIRING_EXIT_DELAY_MS \<le> now2 - pairing_target_reached_time (rc_esb r1) then esb_finish_pair r1 else r1
         else r)"

definition pairing_poll ::
    "zephyr \<Rightarrow> 'f nvs_ops \<Rightarrow> int \<Rightarrow> int \<Rightarrow> int \<Rightarrow> int \<Rightarrow> ('q, 'f) receiver \<Rightarrow> ('q, 'f) receiver" where
  "pairing_poll z nvs timeout now now1 now2 r =
     (if \<not> esb_pairing (rc_esb r) then r
      else pairing_target_limit now1 now2 (pairing_time_limit timeout now (process_pairing_queue z nvs r)))"

text \<open>The retry of a roster that could not be read, with the thread's two locals.\<close>

definition roster_retry ::
    "'f nvs_ops \<Rightarrow> u32 \<Rightarrow> u32 \<Rightarrow> int \<Rightarrow> errno option \<times> u32 \<Rightarrow> ('q, 'f) receiver \<Rightarrow> (errno option \<times> u32) \<times> ('q, 'f) receiver" where
  "roster_retry nvs now_ms now2_ms now locals r =
     (let (roster_err, retry_at) = locals
      in if roster_err \<noteq> None \<and> roster_err \<noteq> Some EINVAL \<and> 0 \<le> sint (now_ms - retry_at) then
           let (err, r1) = tracker_store_restore nvs r
           in ((err, now2_ms + 1000),
               if err = None \<and> stored_trackers (rc_esb r1) = 0 then esb_start_pairing now r1 else r1)
         else ((roster_err, retry_at), r))"

end
