(* ===== verification/TdmaFrames.thy ===== *)
theory TdmaFrames
  imports TdmaCorrect
begin

text \<open>
  The forms that the result of a recalculation of the layout can take, and what it leaves alone: the shared facts
  for the components whose state a recalculation passes through.
\<close>

lemma recalc_pass_forms:
  assumes "recalc_pass p forced b now st = RecalcDone st' \<or> recalc_pass p forced b now st = RecalcResetDiagnostics st'"
  obtains st1 m st2 where "st1 = recalc_merge forced b now st" "m = recalc_mask st1"
    "st2 = recalc_level p (m \<noteq> tdma_active_mask st1) st1"
    "st' = st2 \<or> st' = st2\<lparr>tdma_published_cap_level := tdma_cap_level st2\<rparr> \<or>
     (\<exists>t. st' = st2\<lparr>tdma_dynamic_slot_ticks := t, tdma_published_cap_level := tdma_cap_level st2\<rparr>) \<or>
     (\<exists>n t. st' = tdma_publish m n t now st2)"
proof -
  define st1 where "st1 = recalc_merge forced b now st"
  define m where "m = recalc_mask st1"
  define st2 where "st2 = recalc_level p (m \<noteq> tdma_active_mask st1) st1"
  have "st' = st2 \<or> st' = st2\<lparr>tdma_published_cap_level := tdma_cap_level st2\<rparr> \<or>
     (\<exists>t. st' = st2\<lparr>tdma_dynamic_slot_ticks := t, tdma_published_cap_level := tdma_cap_level st2\<rparr>) \<or>
     (\<exists>n t. st' = tdma_publish m n t now st2)"
    using assms [unfolded recalc_pass_def Let_def, folded st1_def, folded m_def, folded st2_def]
    by (auto split: if_splits)
  then show thesis using that st1_def m_def st2_def by blast
qed

text \<open>A forced recalculation ends with the mask of the desired members, whatever the layout was.\<close>

lemma forced_pass_mask:
  assumes "recalc_pass p True b now st = RecalcDone st'"
  shows "tdma_active_mask st' = recalc_mask (recalc_merge True b now st)"
proof -
  define st1 where "st1 = recalc_merge True b now st"
  define m where "m = recalc_mask st1"
  define st2 where "st2 = recalc_level p (m \<noteq> tdma_active_mask st1) st1"
  have a: "tdma_active_mask st2 = tdma_active_mask st1"
    by (simp add: st2_def recalc_level_def tdma_loss_reset_windows_def)
  note pub = publish_fields(2)
  have "tdma_active_mask st' = m"
    using assms [unfolded recalc_pass_def Let_def, folded st1_def, folded m_def, folded st2_def] a pub
    by (auto split: if_splits)
  then show ?thesis by (simp add: m_def st1_def)
qed

section \<open>The roster and the pending work of a slot\<close>

definition roster :: "esb \<Rightarrow> nat \<times> u64 list" where
  "roster st = (stored_trackers st, stored_tracker_addr st)"

lemma test_all_roster [simp]:
  "stored_trackers (test_all_update_effective n now b st) = stored_trackers st"
  "stored_tracker_addr (test_all_update_effective n now b st) = stored_tracker_addr st"
  "stored_trackers (test_all_note_layout m m' now st) = stored_trackers st"
  "stored_tracker_addr (test_all_note_layout m m' now st) = stored_tracker_addr st"
  by (simp_all add: test_all_update_effective_def test_all_note_layout_def Let_def)

lemma publish_roster [simp]:
  "stored_trackers (tdma_publish m n ticks now st) = stored_trackers st"
  "stored_tracker_addr (tdma_publish m n ticks now st) = stored_tracker_addr st"
  by (simp_all add: tdma_publish_def Let_def esb_auto_loss_invalidate_def)

lemma stage_roster [simp]:
  "stored_tracker_addr (recalc_merge f b now st) = stored_tracker_addr st"
  "stored_trackers (recalc_level p c st) = stored_trackers st"
  "stored_tracker_addr (recalc_level p c st) = stored_tracker_addr st"
  by (simp_all add: recalc_merge_def tdma_shadow_merge_locked_def Let_def recalc_level_def tdma_loss_reset_windows_def)

lemma recalc_pass_roster:
  assumes "recalc_pass p forced b now st = RecalcDone st' \<or> recalc_pass p forced b now st = RecalcResetDiagnostics st'"
  shows "roster st' = roster st"
  using assms by (rule recalc_pass_forms) (auto simp: roster_def)

lemma recalculate_cases:
  obtains (once) "recalc_pass p forced False (clock 0) st = RecalcDone (tdma_recalculate p forced clock between st)"
  | (twice) st1 where "recalc_pass p forced False (clock 0) st = RecalcResetDiagnostics st1"
      "recalc_pass p forced True (clock 1) (between st1) = RecalcDone (tdma_recalculate p forced clock between st)"
proof (cases "recalc_pass p forced False (clock 0) st")
  case (RecalcDone x)
  then show ?thesis using once by (simp add: tdma_recalculate_def)
next
  case (RecalcResetDiagnostics x)
  have "recalc_pass p forced True (clock 1) y \<noteq> RecalcResetDiagnostics z" for y z
    by (simp add: recalc_pass_def Let_def)
  then obtain z where "recalc_pass p forced True (clock 1) (between x) = RecalcDone z"
    by (cases "recalc_pass p forced True (clock 1) (between x)") auto
  then show ?thesis using twice [OF RecalcResetDiagnostics] RecalcResetDiagnostics by (simp add: tdma_recalculate_def)
qed

lemma recalculate_roster:
  assumes "\<And>x. roster (between x) = roster x"
  shows "roster (tdma_recalculate p forced clock between st) = roster st"
  by (cases rule: recalculate_cases [of p forced clock st between])
    (metis assms recalc_pass_roster)+

end
