(* ===== verification/PairingCorrect.thy ===== *)
theory PairingCorrect
  imports Pairing TdmaFrames
begin

text \<open>
  Pairing: what is in memory is what a restart would load, over any order of operations and any failing
  writes; and nothing of a removed tracker stays behind in any component.
\<close>

section \<open>The roster in memory and in flash\<close>

definition roster_stored :: "'f nvs_ops \<Rightarrow> 'f store \<Rightarrow> nat \<times> u64 list \<Rightarrow> bool" where
  "roster_stored nvs s x \<longleftrightarrow> fst x \<le> MAX_TRACKERS \<and> roster_ok (of_nat (fst x), snd x) \<and> nvs_init s \<and>
     (\<exists>rec. sys_read_checked nvs s TRACKER_ROSTER ROSTER_RECORD_BYTES = (Inr (ROSTER_RECORD_BYTES, rec), s) \<and>
        roster_parse rec = Inr (of_nat (fst x), snd x))"

definition roster_inv :: "'f nvs_ops \<Rightarrow> ('q, 'f) receiver \<Rightarrow> bool" where
  "roster_inv nvs r \<longleftrightarrow> (rc_ready r \<longrightarrow> roster_stored nvs (rc_store r) (roster (rc_esb r)))"

lemma unat_count: "n \<le> MAX_TRACKERS \<Longrightarrow> unat (of_nat n :: u8) = n"
  by (simp add: unat_of_nat)

lemma roster_save_fields:
  assumes "roster_save nvs n a r = (err, r1)"
  shows "rc_esb r1 = rc_esb r" "rc_ready r1 = rc_ready r" "rc_raw r1 = rc_raw r" "rc_ota r1 = rc_ota r"
    "rc_collect r1 = rc_collect r" "rc_hid r1 = rc_hid r" "rc_events r1 = rc_events r"
    "tracker_roster_save nvs (rc_store r) (of_nat n) a = (err, rc_store r1)"
  using assms by (auto simp: roster_save_def split: prod.splits)

lemma roster_save_stored:
  assumes law: "nvs_law nvs" and s: "roster_save nvs n a r = (None, r1)" and n: "n \<le> MAX_TRACKERS"
    and len: "length a = MAX_TRACKERS" and zeros: "\<forall>i. n \<le> i \<and> i < MAX_TRACKERS \<longrightarrow> a ! i = 0"
  shows "roster_stored nvs (rc_store r1) (n, a)"
proof -
  have t: "tracker_roster_save nvs (rc_store r) (of_nat n) a = (None, rc_store r1)" using roster_save_fields(8) [OF s] .
  then have valid: "roster_valid (of_nat n) a"
    and w: "sys_write_checked nvs (rc_store r) TRACKER_ROSTER (roster_record (of_nat n) a) = (None, rc_store r1)"
    by (auto simp: tracker_roster_save_def split: if_splits)
  have ok: "roster_ok (of_nat n, a)" using valid len zeros n by (simp add: roster_ok_def unat_count)
  then have "roster_parse (roster_record (of_nat n) a) = Inr (of_nat n, a)"
    using roster_parse_record [OF valid] by (simp add: active_slots_ok)
  then show ?thesis using sys_write_then_read [OF law w] ok n by (simp add: roster_stored_def)
qed

lemma roster_save_failed:
  assumes at: "nvs_atomic nvs" and s: "roster_save nvs n a r = (Some e, r1)" and inv: "roster_inv nvs r"
  shows "roster_inv nvs r1"
proof -
  note f = roster_save_fields [OF s]
  show ?thesis
  proof (cases "rc_store r1 = rc_store r")
    case True
    then show ?thesis using inv f by (simp add: roster_inv_def)
  next
    case False
    then have w: "sys_write_checked nvs (rc_store r) TRACKER_ROSTER (roster_record (of_nat n) a) = (Some e, rc_store r1)"
      using f(8) by (auto simp: tracker_roster_save_def split: if_splits)
    show ?thesis
      unfolding roster_inv_def
    proof
      assume "rc_ready r1"
      then have st: "roster_stored nvs (rc_store r) (roster (rc_esb r))" using inv f by (simp add: roster_inv_def)
      then have "nvs_init (rc_store r)" by (simp add: roster_stored_def)
      from failed_write_keeps [OF at this w] st f show "roster_stored nvs (rc_store r1) (roster (rc_esb r1))"
        by (auto simp: roster_stored_def)
    qed
  qed
qed

lemma load_stored:
  assumes "roster_stored nvs s x"
  shows "tracker_roster_load nvs s = (Inr (of_nat (fst x), snd x), s)"
  using assms by (auto simp: roster_stored_def tracker_roster_load_def)

lemma load_gives_stored:
  assumes law: "nvs_law nvs" and l: "tracker_roster_load nvs s = (Inr (c, a), s')"
  shows "roster_stored nvs s' (unat c, a)"
  using l
proof (cases rule: load_cases)
  case (stored rec)
  have "nvs_init s'" using stored(2) sys_nvs_init_idem by (auto simp: sys_read_checked_def split: prod.splits if_splits)
  with stored roster_parse_ok [OF stored(1)] sys_read_checked_again [OF stored(2)] show ?thesis
    using roster_valid_count [of c a] by (auto simp: roster_stored_def roster_ok_def)
next
  case (migrated st1)
  then obtain st2 where ok: "roster_ok (c, a)" and save: "tracker_roster_save nvs st2 c a = (None, s')"
    using legacy_migrate_ok [of nvs st1 "(c, a)" s'] by auto
  then have valid: "roster_valid c a"
    and w: "sys_write_checked nvs st2 TRACKER_ROSTER (roster_record c a) = (None, s')"
    by (auto simp: tracker_roster_save_def split: if_splits)
  have "roster_parse (roster_record c a) = Inr (c, a)"
    using roster_parse_record [OF valid] ok by (simp add: active_slots_ok)
  then show ?thesis
    using sys_write_then_read [OF law w] ok roster_valid_count [OF valid] by (simp add: roster_stored_def)
qed

section \<open>What the other components leave alone\<close>

definition core :: "('q, 'f) receiver \<Rightarrow> bool \<times> 'f store \<times> nat \<times> u64 list" where
  "core r = (rc_ready r, rc_store r, roster (rc_esb r))"

lemma roster_inv_core: "core r' = core r \<Longrightarrow> roster_inv nvs r' = roster_inv nvs r"
  by (simp add: core_def roster_inv_def)

lemma update_slot_roster [simp]: "roster (update_slot t f st) = roster st"
  by (simp add: roster_def update_slot_def)

lemma run_ota_action_core [simp]: "core (run_ota_action a r) = core r"
  by (cases a) (auto simp: core_def roster_def esb_send_remote_command_def esb_send_remote_command_arg_def Let_def
      esb_clear_remote_ota_abort_def esb_radio_operation_end_def esb_auto_loss_invalidate_def update_slot_def
      split: prod.splits)

lemma run_ota_actions_core [simp]: "core (fold run_ota_action acts r) = core r"
  by (induction acts arbitrary: r) simp_all

lemma core_fields [simp]:
  "core (r\<lparr>rc_ota := o1\<rparr>) = core r" "core (r\<lparr>rc_collect := d\<rparr>) = core r" "core (r\<lparr>rc_hid := h\<rparr>) = core r"
  "core (r\<lparr>rc_events := ev\<rparr>) = core r" "core (r\<lparr>rc_raw := raw\<rparr>) = core r" "core (r\<lparr>rc_pairing_msgq := q\<rparr>) = core r"
  by (simp_all add: core_def)

lemma forget_transfers_core [simp]: "core (forget_transfers t now r) = core r"
  by (simp add: forget_transfers_def Let_def split: prod.splits)

lemma slot_reset_roster [simp]: "roster (slot_reset_esb t e) = roster e"
  by (simp add: slot_reset_esb_def roster_def esb_auto_loss_invalidate_def tdma_shadow_forget_tracker_def Let_def)

lemma tracker_slot_reset_core [simp]: "core (tracker_slot_reset t r) = core r"
  by (simp add: tracker_slot_reset_def core_def)

lemma tracker_slot_resets_core [simp]: "core (fold tracker_slot_reset ts r) = core r"
  by (induction ts arbitrary: r) simp_all

lemma forget_all_core [simp]: "core (fold (\<lambda>t x. forget_transfers t (now t) x) ts r) = core r"
  by (induction ts arbitrary: r) simp_all

definition roster_quiet :: "(esb \<Rightarrow> esb) \<Rightarrow> bool" where
  "roster_quiet f \<longleftrightarrow> (\<forall>x. roster (f x) = roster x)"

lemma recalculate_and_cleanup_core [simp]:
  "roster_quiet between \<Longrightarrow> core (recalculate_and_cleanup p clock between r) = core r"
  using recalculate_roster [of between] by (simp add: recalculate_and_cleanup_def core_def roster_quiet_def)

section \<open>Every operation keeps memory and flash equal\<close>

lemma restored_ok:
  assumes "roster_inv nvs r" and "rc_ready r"
  shows "stored_trackers (rc_esb r) \<le> MAX_TRACKERS" "length (stored_tracker_addr (rc_esb r)) = MAX_TRACKERS"
    "\<And>i. stored_trackers (rc_esb r) \<le> i \<Longrightarrow> i < MAX_TRACKERS \<Longrightarrow> stored_tracker_addr (rc_esb r) ! i = 0"
  using assms by (auto simp: roster_inv_def roster_stored_def roster_ok_def roster_def unat_count)

lemma roster_inv_saved:
  assumes law: "nvs_law nvs" and s: "roster_save nvs n a r = (None, r1)" and n: "n \<le> MAX_TRACKERS"
    and len: "length a = MAX_TRACKERS" and zeros: "\<forall>i. n \<le> i \<and> i < MAX_TRACKERS \<longrightarrow> a ! i = 0"
    and now: "rc_store r' = rc_store r1" "roster (rc_esb r') = (n, a)"
  shows "roster_inv nvs r'"
  using roster_save_stored [OF law s n len zeros] now by (simp add: roster_inv_def)

lemma coreD:
  assumes "core r' = core r"
  shows "rc_ready r' = rc_ready r" "rc_store r' = rc_store r" "stored_trackers (rc_esb r') = stored_trackers (rc_esb r)"
    "stored_tracker_addr (rc_esb r') = stored_tracker_addr (rc_esb r)"
  using assms by (simp_all add: core_def roster_def)

lemma esb_add_pair_cases:
  assumes "n = stored_trackers (rc_esb r)" and "a = (stored_tracker_addr (rc_esb r))[n := addr]"
    and s: "roster_save nvs (n + 1) a r = (err, r1)"
  obtains (same) res where "esb_add_pair nvs addr r = (res, r)"
  | (failed) e where "err = Some e" "esb_add_pair nvs addr r = (Inl e, r1)"
  | (added) r2 where "rc_ready r" "n < MAX_TRACKERS" "tracker_roster_address_valid addr"
      "addr \<notin> set (take n (stored_tracker_addr (rc_esb r)))" "err = None" "esb_add_pair nvs addr r = (Inr n, r2)"
      "rc_ready r2" "rc_store r2 = rc_store r1" "roster (rc_esb r2) = (n + 1, a)"
proof (cases "tracker_roster_address_valid addr \<and> rc_ready r \<and> n < MAX_TRACKERS \<and>
    find_index (\<lambda>x. x = addr) (take n (stored_tracker_addr (rc_esb r))) = None")
  case False
  then have "\<exists>res. esb_add_pair nvs addr r = (res, r)"
    using assms(1) unfolding esb_add_pair_def Let_def by (auto split: option.splits)
  then show thesis using same by blast
next
  case True
  note f = roster_save_fields [OF s] and c = coreD [OF tracker_slot_reset_core [of n r1]]
  have e: "esb_add_pair nvs addr r = (case err of Some e \<Rightarrow> (Inl e, r1)
      | None \<Rightarrow> let r2 = tracker_slot_reset n r1;
              r3 = r2\<lparr>rc_esb := (rc_esb r2)\<lparr>stored_tracker_addr := (stored_tracker_addr (rc_esb r2))[n := addr],
                     stored_trackers := n + 1\<rparr>\<rparr>
            in (Inr n, r3\<lparr>rc_events := tracker_events_pairing_cleanup (rc_events r3)\<rparr>))"
    using True s unfolding esb_add_pair_def Let_def assms(1,2) by simp
  show thesis
  proof (cases err)
    case (Some x)
    then show thesis using e failed by simp
  next
    case None
    show thesis
      by (rule added [OF _ _ _ _ None e [unfolded None option.case Let_def]])
        (use True f c in \<open>auto simp: roster_def assms(2) find_index_None_iff\<close>)
  qed
qed

lemma add_pair_inv:
  assumes law: "nvs_law nvs" "nvs_atomic nvs" and inv: "roster_inv nvs r"
  shows "roster_inv nvs (snd (esb_add_pair nvs addr r))"
proof -
  define n where "n = stored_trackers (rc_esb r)"
  define a where "a = (stored_tracker_addr (rc_esb r))[n := addr]"
  obtain err r1 where s: "roster_save nvs (n + 1) a r = (err, r1)" by fastforce
  from n_def a_def s show ?thesis
  proof (cases rule: esb_add_pair_cases)
    case same
    then show ?thesis using inv by simp
  next
    case failed
    then show ?thesis using roster_save_failed [OF law(2) _ inv] s by simp
  next
    case (added r2)
    note ok = restored_ok [OF inv added(1), folded n_def]
    show ?thesis
      by (rule roster_inv_saved [OF law(1) s [unfolded added(5)]]) (use added ok in \<open>auto simp: a_def\<close>)
  qed
qed

lemma forget_ready: "rc_store (forget_transfers t now r) = rc_store r"
  "stored_tracker_addr (rc_esb (forget_transfers t now r)) = stored_tracker_addr (rc_esb r)"
  using coreD [OF forget_transfers_core [of t now r]] by simp_all

lemma remove_section_roster:
  "rc_store (remove_section t b r) = rc_store r"
  "roster (rc_esb (remove_section t b r)) = (t, (stored_tracker_addr (rc_esb r))[t := 0])"
proof -
  note c = coreD [OF tracker_slot_reset_core [of t]]
  show "rc_store (remove_section t b r) = rc_store r" by (simp add: remove_section_def Let_def c)
  show "roster (rc_esb (remove_section t b r)) = (t, (stored_tracker_addr (rc_esb r))[t := 0])"
    by (simp add: remove_section_def Let_def roster_def c)
qed

lemma pop_pair_inv:
  assumes law: "nvs_law nvs" "nvs_atomic nvs" and inv: "roster_inv nvs r" and q: "roster_quiet between"
  shows "roster_inv nvs (snd (esb_pop_pair nvs now p clock between r))"
proof -
  define t where "t = stored_trackers (rc_esb r) - 1"
  define a where "a = (stored_tracker_addr (rc_esb r))[t := 0]"
  obtain err r1 where s: "roster_save nvs t a r = (err, r1)" by fastforce
  note f = roster_save_fields [OF s]
  consider (same) "snd (esb_pop_pair nvs now p clock between r) = r"
    | (failed) e where "err = Some e" "snd (esb_pop_pair nvs now p clock between r) = r1"
    | (removed) "rc_ready r" "0 < stored_trackers (rc_esb r)" "err = None" "snd (esb_pop_pair nvs now p clock between r) =
        recalculate_and_cleanup p clock between
          (remove_section t (data_collect_is_target t (rc_collect r1)) (forget_transfers t now r1))"
  proof (cases "rc_ready r \<and> stored_trackers (rc_esb r) \<noteq> 0")
    case False
    then show thesis using same by (auto simp: esb_pop_pair_def)
  next
    case True
    then have "esb_pop_pair nvs now p clock between r = (case err of Some e \<Rightarrow> (Some e, r1)
      | None \<Rightarrow> (None, recalculate_and_cleanup p clock between
          (remove_section t (data_collect_is_target t (rc_collect r1)) (forget_transfers t now r1))))"
      using s unfolding esb_pop_pair_def Let_def t_def a_def by simp
    then show thesis using failed removed True by (cases err) simp_all
  qed
  then show ?thesis
  proof cases
    case same
    then show ?thesis using inv by simp
  next
    case failed
    then show ?thesis using roster_save_failed [OF law(2) _ inv] s by simp
  next
    case removed
    note ok = restored_ok [OF inv removed(1)]
    note c = coreD [OF recalculate_and_cleanup_core [OF q]]
    show ?thesis
      by (rule roster_inv_saved [OF law(1) s [unfolded removed(3)]])
        (use ok removed(2) f in \<open>auto simp: removed(4) c a_def t_def forget_ready remove_section_roster roster_def
           nth_list_update remove_section_roster [unfolded roster_def prod.inject]\<close>)
  qed
qed

lemma clear_section_roster:
  "rc_store (clear_section r) = rc_store r" "roster (rc_esb (clear_section r)) = (0, replicate MAX_TRACKERS 0)"
proof -
  note c = coreD [OF tracker_slot_resets_core [of "[0..<MAX_TRACKERS]"]]
  show "rc_store (clear_section r) = rc_store r" by (simp add: clear_section_def Let_def c)
  show "roster (rc_esb (clear_section r)) = (0, replicate MAX_TRACKERS 0)"
    by (simp add: clear_section_def Let_def roster_def c)
qed

lemma clear_inv:
  assumes law: "nvs_law nvs" "nvs_atomic nvs" and inv: "roster_inv nvs r" and q: "roster_quiet between"
  shows "roster_inv nvs (snd (esb_clear nvs now p clock between r))"
proof -
  obtain err r1 where s: "roster_save nvs 0 (replicate MAX_TRACKERS 0) r = (err, r1)" by fastforce
  show ?thesis
  proof (cases err)
    case (Some e)
    then show ?thesis using roster_save_failed [OF law(2) _ inv] s by (simp add: esb_clear_def)
  next
    case None
    define r2 where "r2 = r1\<lparr>rc_esb := (rc_esb r1)\<lparr>esb_clearing := True, esb_pairing := False\<rparr>, rc_pairing_msgq := []\<rparr>"
    define r3 where "r3 = fold (\<lambda>t x. forget_transfers t (now t) x) [0..<MAX_TRACKERS] r2"
    define r4 where "r4 = recalculate_and_cleanup p clock between (clear_section r3)"
    have out: "snd (esb_clear nvs now p clock between r) = r4\<lparr>rc_esb := (rc_esb r4)\<lparr>esb_clearing := False\<rparr>\<rparr>"
      using s None by (simp add: esb_clear_def Let_def r2_def r3_def r4_def)
    have r3: "rc_store r3 = rc_store r1" using coreD(2) [OF forget_all_core [of now _ r2]] by (simp add: r3_def r2_def)
    have r4: "rc_store r4 = rc_store r1" "roster (rc_esb r4) = (0, replicate MAX_TRACKERS 0)"
      using coreD [OF recalculate_and_cleanup_core [OF q, of p clock "clear_section r3"]] r3 clear_section_roster [of r3]
      by (simp_all add: r4_def roster_def)
    show ?thesis
      by (rule roster_inv_saved [OF law(1) s [unfolded None]]) (use r4 in \<open>simp_all add: out roster_def\<close>)
  qed
qed

lemma restore_inv:
  assumes law: "nvs_law nvs" and inv: "roster_inv nvs r"
  shows "roster_inv nvs (snd (tracker_store_restore nvs r))"
proof (cases "rc_ready r")
  case True
  then show ?thesis using inv by (simp add: tracker_store_restore_def)
next
  case False
  obtain res s where l: "tracker_roster_load nvs (rc_store r) = (res, s)" by fastforce
  show ?thesis
  proof (cases res)
    case (Inl e)
    then show ?thesis using l False by (simp add: tracker_store_restore_def roster_inv_def)
  next
    case (Inr ca)
    then show ?thesis using l False load_gives_stored [OF law, of "rc_store r"]
      by (cases ca) (simp add: tracker_store_restore_def roster_inv_def roster_def)
  qed
qed

lemma drain_inv:
  assumes law: "nvs_law nvs" "nvs_atomic nvs"
  shows "roster_inv nvs r \<Longrightarrow> roster_inv nvs (drain_pairing z nvs q r)"
proof (induction q arbitrary: r)
  case (Cons packet q)
  have "roster_inv nvs (snd (esb_parse_pair z nvs packet r))"
    using Cons.prems add_pair_inv [OF law Cons.prems, of "drop_bit 16 (native_u64 packet) AND 0xFFFFFFFFFFFF"]
    by (auto simp: esb_parse_pair_def Let_def split: prod.splits sum.splits)
  then show ?case using Cons by simp
qed simp

lemma pairing_limits_core [simp]:
  "core (esb_finish_pair r) = core r" "core (pairing_time_limit timeout now r) = core r"
  "core (pairing_target_limit now1 now2 r) = core r"
  "core (esb_start_pairing now r) = core r" "core (esb_start_pairing_with_count n now r) = core r"
  by (auto simp: esb_finish_pair_def pairing_time_limit_def pairing_target_limit_def esb_start_pairing_def Let_def
      esb_start_pairing_with_count_def core_def roster_def esb_auto_loss_invalidate_def)

lemma pairing_poll_inv:
  assumes law: "nvs_law nvs" "nvs_atomic nvs" and inv: "roster_inv nvs r"
  shows "roster_inv nvs (pairing_poll z nvs timeout now now1 now2 r)"
proof -
  have "roster_inv nvs (process_pairing_queue z nvs r)"
    using drain_inv [OF law, of "r\<lparr>rc_pairing_msgq := []\<rparr>"] inv roster_inv_core [of "r\<lparr>rc_pairing_msgq := []\<rparr>" r]
    by (simp add: process_pairing_queue_def)
  then show ?thesis
    using inv roster_inv_core [of "pairing_target_limit now1 now2 (pairing_time_limit timeout now (process_pairing_queue z nvs r))"
        "process_pairing_queue z nvs r" nvs]
    by (simp add: pairing_poll_def)
qed

lemma other_write_inv:
  assumes law: "nvs_law nvs" and inv: "roster_inv nvs r" and key: "key \<noteq> TRACKER_ROSTER"
    and w: "sys_write_checked nvs (rc_store r) key data = (err, s)"
  shows "roster_inv nvs (r\<lparr>rc_store := s\<rparr>)"
  unfolding roster_inv_def
proof
  assume "rc_ready (r\<lparr>rc_store := s\<rparr>)"
  then have st: "roster_stored nvs (rc_store r) (roster (rc_esb r))" using inv by (simp add: roster_inv_def)
  then have ready: "nvs_init (rc_store r)" by (simp add: roster_stored_def)
  then obtain x f where wr: "nvs_write nvs (fs (rc_store r)) key data = (x, f)" and s: "s = (rc_store r)\<lparr>fs := f\<rparr>"
    using w by (auto simp: sys_write_checked_def split: prod.splits sum.splits)
  then show "roster_stored nvs (rc_store (r\<lparr>rc_store := s\<rparr>)) (roster (rc_esb (r\<lparr>rc_store := s\<rparr>)))"
    using st ready nvs_law_other [OF law wr, of TRACKER_ROSTER] key
    by (auto simp: roster_stored_def sys_read_checked_def)
qed

section \<open>Any order of operations\<close>

text \<open>
  The operations that hold the roster's mutex, the pairing part of the radio thread, the settings that other parts
  write to flash, and any work of the other components, which leaves the roster alone.
\<close>

inductive roster_step :: "zephyr \<Rightarrow> 'f nvs_ops \<Rightarrow> ('q, 'f) receiver \<Rightarrow> ('q, 'f) receiver \<Rightarrow> bool"
  for z :: zephyr and nvs :: "'f nvs_ops" where
  add: "roster_step z nvs r (snd (esb_add_pair nvs addr r))"
| pop: "roster_quiet between \<Longrightarrow> roster_step z nvs r (snd (esb_pop_pair nvs now p clock between r))"
| clear: "roster_quiet between \<Longrightarrow> roster_step z nvs r (snd (esb_clear nvs nows p clock between r))"
| restore: "roster_step z nvs r (snd (tracker_store_restore nvs r))"
| retry: "roster_step z nvs r (snd (roster_retry nvs now_ms now2_ms now64 locals r))"
| poll: "roster_step z nvs r (pairing_poll z nvs timeout now0 now1 now2 r)"
| settings: "key \<noteq> TRACKER_ROSTER \<Longrightarrow> sys_write_checked nvs (rc_store r) key data = (err, s) \<Longrightarrow>
    roster_step z nvs r (r\<lparr>rc_store := s\<rparr>)"
| work: "core r' = core r \<Longrightarrow> roster_step z nvs r r'"

lemma retry_inv:
  assumes law: "nvs_law nvs" and inv: "roster_inv nvs r"
  shows "roster_inv nvs (snd (roster_retry nvs now_ms now2_ms now64 locals r))"
proof -
  obtain err r1 where t: "tracker_store_restore nvs r = (err, r1)" by fastforce
  then have "roster_inv nvs r1" using restore_inv [OF law inv] by simp
  then show ?thesis
    using inv t roster_inv_core [OF pairing_limits_core(4)]
    by (auto simp: roster_retry_def Let_def split: prod.splits)
qed

lemma roster_step_inv:
  assumes law: "nvs_law nvs" "nvs_atomic nvs"
  shows "roster_step z nvs r r' \<Longrightarrow> roster_inv nvs r \<Longrightarrow> roster_inv nvs r'"
proof (induction rule: roster_step.induct)
  case (add r addr)
  then show ?case by (rule add_pair_inv [OF law])
next
  case (pop between r now p clock)
  then show ?case by (intro pop_pair_inv [OF law])
next
  case (clear between r nows p clock)
  then show ?case by (intro clear_inv [OF law])
next
  case (restore r)
  then show ?case by (rule restore_inv [OF law(1)])
next
  case (retry r now_ms now2_ms now64 locals)
  then show ?case by (rule retry_inv [OF law(1)])
next
  case (poll r timeout now0 now1 now2)
  then show ?case by (rule pairing_poll_inv [OF law])
next
  case (settings key r data err s)
  then show ?case by (intro other_write_inv [OF law(1)])
next
  case (work r' r)
  then show ?case using roster_inv_core by blast
qed

text \<open>
  Claim C11. What the receiver believes survives a restart. From a boot where nothing was loaded yet, over any
  order of additions, removals, clears, requests over the air, retries and other writes to flash, and however
  many of the writes fail, once the roster is ready a load of the flash gives exactly the count and the
  addresses in memory; there are at most sixteen, each is a valid address and no two are equal.
\<close>

theorem roster_durable:
  assumes law: "nvs_law nvs" "nvs_atomic nvs" and boot: "\<not> rc_ready r0"
    and run: "(roster_step z nvs)\<^sup>*\<^sup>* r0 r" and ready: "rc_ready r"
  shows "tracker_roster_load nvs (rc_store r) =
      (Inr (of_nat (stored_trackers (rc_esb r)), stored_tracker_addr (rc_esb r)), rc_store r) \<and>
    stored_trackers (rc_esb r) \<le> MAX_TRACKERS \<and>
    list_all tracker_roster_address_valid (take (stored_trackers (rc_esb r)) (stored_tracker_addr (rc_esb r))) \<and>
    distinct (take (stored_trackers (rc_esb r)) (stored_tracker_addr (rc_esb r)))"
proof -
  have "roster_inv nvs r"
    using run by (induction rule: rtranclp_induct) (use boot roster_step_inv [OF law] in \<open>auto simp: roster_inv_def\<close>)
  then have st: "roster_stored nvs (rc_store r) (roster (rc_esb r))" using ready by (simp add: roster_inv_def)
  show ?thesis
    using load_stored [OF st] st roster_ok_active [of "of_nat (stored_trackers (rc_esb r))" "stored_tracker_addr (rc_esb r)"]
    by (auto simp: roster_stored_def roster_def unat_count)
qed

text \<open>A receiver at its start, with an empty flash.\<close>

definition started_receiver :: "(rx_event list, (u16 \<times> bytes) list) receiver" where
  "started_receiver = \<lparr>rc_esb = idle_esb\<lparr>stored_trackers := 0, stored_tracker_addr := replicate 16 0,
       tracker_slots := replicate 16 zero_tracker_slot\<rparr>,
     rc_raw = raw_arq_boot, rc_ready = False, rc_store = \<lparr>nvs_init = False, fs = []\<rparr>, rc_ota = ota_boot,
     rc_collect = dc_boot,
     rc_hid = \<lparr>hid_ring = \<lparr>hid_fifo_slots = [], hid_fifo_write_pos = 0, hid_fifo_read_pos = 0\<rparr>,
       hid_ep_in_busy = False, hid_ready = False, hid_idle_duration_ms = 0, ep_report_buffer = [],
       rssi_states = replicate 16 \<lparr>ema_value = 0, ema_initialized = False\<rparr>,
       hid_stats = \<lparr>reports_in_interval = 0, stats_current_tps = 0, stats_last_tps_time = 0, last_report_time = 0,
         had_activity = False, stats_started = False\<rparr>,
       sent_device_addr = 0, last_registration_sent = 0, dropped_reports = 0, max_dropped_reports = 0,
       tracker_drops = replicate 16 0, total_dropped_reports = 0, total_tracker_drops = replicate 16 0\<rparr>,
     rc_events = ev_boot [], rc_pairing_msgq = []\<rparr>"

definition loaded_receiver :: "(rx_event list, (u16 \<times> bytes) list) receiver" where
  "loaded_receiver = snd (tracker_store_restore list_nvs started_receiver)"

definition paired_receiver :: "(rx_event list, (u16 \<times> bytes) list) receiver" where
  "paired_receiver = snd (esb_add_pair list_nvs 0x060504030201 loaded_receiver)"

lemma loaded_receiver_facts:
  "rc_ready loaded_receiver" "roster (rc_esb loaded_receiver) = (0, replicate 16 0)"
  "rc_ota loaded_receiver = ota_boot"
proof -
  have "fst (tracker_roster_load list_nvs \<lparr>nvs_init = False, fs = []\<rparr>) = Inr (0, replicate 16 0)" by code_simp
  then obtain s where "tracker_roster_load list_nvs \<lparr>nvs_init = False, fs = []\<rparr> = (Inr (0, replicate 16 0), s)"
    by (metis prod.collapse)
  then show "rc_ready loaded_receiver" "roster (rc_esb loaded_receiver) = (0, replicate 16 0)" "rc_ota loaded_receiver = ota_boot"
    by (simp_all add: loaded_receiver_def tracker_store_restore_def started_receiver_def roster_def)
qed

lemma list_nvs_atomic: "nvs_atomic list_nvs"
  by (simp add: nvs_atomic_def list_nvs_def)

lemma list_nvs_saves: "roster_valid (of_nat n) a \<Longrightarrow> fst (roster_save list_nvs n a r) = None"
  by (auto simp: roster_save_def tracker_roster_save_def sys_write_checked_def sys_nvs_init_def list_nvs_def
      Let_def split: prod.splits if_splits)

lemma paired_receiver_facts:
  "fst (esb_add_pair list_nvs 0x060504030201 loaded_receiver) = Inr 0" "rc_ready paired_receiver"
  "roster (rc_esb paired_receiver) = (1, (replicate 16 0)[0 := 0x060504030201])"
proof -
  let ?a = "0x060504030201 :: u64"
  have n: "stored_trackers (rc_esb loaded_receiver) = 0" "stored_tracker_addr (rc_esb loaded_receiver) = replicate 16 0"
    using loaded_receiver_facts(2) by (simp_all add: roster_def)
  have v: "tracker_roster_address_valid ?a" "roster_valid (of_nat (0 + 1)) ((replicate 16 0)[0 := ?a])" by code_simp+
  obtain err r1 where s: "roster_save list_nvs (0 + 1) ((replicate 16 0)[0 := ?a]) loaded_receiver = (err, r1)" by fastforce
  have e: "err = None"
    using list_nvs_saves [OF v(2), of loaded_receiver] s by simp
  define out where "out = esb_add_pair list_nvs ?a loaded_receiver"
  have "out = esb_add_pair list_nvs ?a loaded_receiver \<Longrightarrow> fst out = Inr 0 \<and> rc_ready (snd out) \<and>
      roster (rc_esb (snd out)) = (1, (replicate 16 0)[0 := ?a])"
    using n(1) [symmetric] arg_cong [OF n(2), of "\<lambda>x. x[0 := ?a]", symmetric] s
  proof (cases rule: esb_add_pair_cases)
    case (same res)
    have "find_index (\<lambda>x. x = ?a) (take 0 (stored_tracker_addr (rc_esb loaded_receiver))) = None" by simp
    then have "fst (esb_add_pair list_nvs ?a loaded_receiver) = Inr 0"
      using v(1) loaded_receiver_facts(1) n s e by (simp add: esb_add_pair_def Let_def)
    moreover have "snd (esb_add_pair list_nvs ?a loaded_receiver) \<noteq> loaded_receiver"
    proof
      assume "snd (esb_add_pair list_nvs ?a loaded_receiver) = loaded_receiver"
      moreover have "stored_trackers (rc_esb (snd (esb_add_pair list_nvs ?a loaded_receiver))) = 1"
        using v(1) loaded_receiver_facts(1) n s e by (simp add: esb_add_pair_def Let_def)
      ultimately show False using n by simp
    qed
    ultimately show ?thesis using same by simp
  qed (use e in simp_all)
  then show "fst (esb_add_pair list_nvs ?a loaded_receiver) = Inr 0" "rc_ready paired_receiver"
    "roster (rc_esb paired_receiver) = (1, (replicate 16 0)[0 := ?a])"
    by (simp_all add: out_def paired_receiver_def)
qed

theorem roster_durable_witness:
  "rc_ready paired_receiver \<and> tracker_roster_load list_nvs (rc_store paired_receiver) =
     (Inr (1, (replicate 16 0)[0 := 0x060504030201]), rc_store paired_receiver)"
proof -
  have "roster_step z list_nvs started_receiver loaded_receiver" for z
    unfolding loaded_receiver_def by (rule roster_step.restore)
  moreover have "roster_step z list_nvs loaded_receiver paired_receiver" for z
    unfolding paired_receiver_def by (rule roster_step.add)
  ultimately have run: "(roster_step z list_nvs)\<^sup>*\<^sup>* started_receiver paired_receiver" for z
    by (meson rtranclp.simps)
  have boot: "\<not> rc_ready started_receiver" by (simp add: started_receiver_def)
  show ?thesis
    using roster_durable [OF list_nvs_law list_nvs_atomic boot run paired_receiver_facts(2)] paired_receiver_facts
    by (simp add: roster_def)
qed

end
