(* ===== verification/PairingForgets.thy ===== *)
theory PairingForgets
  imports PairingCorrect EsbOtaCorrect TrackerEventsCorrect
begin

text \<open>
  Nothing of a removed tracker stays behind: the next device that gets its number starts from a clean slot in
  every component.
\<close>

section \<open>The slots under a recalculation\<close>

text \<open>What a recalculation does not write in a slot: all but the layout word and the rate of the test mode.\<close>

definition slot_core :: "tracker_slot \<Rightarrow> tracker_slot" where
  "slot_core s = s\<lparr>tdma_config_packed := 0, tracker_test_on_tps := 0\<rparr>"

definition slot_cores :: "esb \<Rightarrow> tracker_slot list" where
  "slot_cores st = map slot_core (tracker_slots st)"

lemma slot_core_simps [simp]:
  "slot_core (s\<lparr>tdma_config_packed := x\<rparr>) = slot_core s" "slot_core (s\<lparr>tracker_test_on_tps := y\<rparr>) = slot_core s"
  by (simp_all add: slot_core_def)

lemma map_update_where:
  assumes "\<And>x. g (f x) = g x"
  shows "map g (update_where p f xs) = map g xs"
  by (rule nth_equalityI) (use assms in \<open>simp_all add: nth_update_where\<close>)

lemma assign_slots_cores [simp]: "map slot_core (assign_slots m i slot n ticks epoch ss) = map slot_core ss"
  by (induction m i slot n ticks epoch ss rule: assign_slots.induct) simp_all

lemma test_all_cores [simp]:
  "slot_cores (test_all_update_effective n now b st) = slot_cores st"
  "slot_cores (test_all_note_layout m m' now st) = slot_cores st"
  by (simp_all add: slot_cores_def test_all_update_effective_def test_all_note_layout_def Let_def map_update_where)

lemma publish_cores [simp]: "slot_cores (tdma_publish m n ticks now st) = slot_cores st"
proof -
  have "slot_cores (if b then st1 else test_all_update_effective n now True (test_all_note_layout o1 m now st1)) = slot_cores st1"
    for b o1 st1 by simp
  then show ?thesis
    unfolding tdma_publish_def Let_def by (simp add: slot_cores_def esb_auto_loss_invalidate_def)
qed

lemma stage_cores [simp]:
  "slot_cores (recalc_merge f b now st) = slot_cores st" "slot_cores (recalc_level p c st) = slot_cores st"
  by (simp_all add: slot_cores_def recalc_merge_def tdma_shadow_merge_locked_def Let_def recalc_level_def
      tdma_loss_reset_windows_def)

lemma recalc_pass_cores:
  assumes "recalc_pass p forced b now st = RecalcDone st' \<or> recalc_pass p forced b now st = RecalcResetDiagnostics st'"
  shows "slot_cores st' = slot_cores st"
  using assms by (rule recalc_pass_forms) (auto, simp_all add: slot_cores_def)

lemma recalculate_core:
  assumes "\<And>x. slot_cores (between x) ! t = slot_cores x ! t"
  shows "slot_cores (tdma_recalculate p forced clock between st) ! t = slot_cores st ! t"
  by (cases rule: recalculate_cases [of p forced clock st between]) (metis assms recalc_pass_cores)+

lemma recalc_pass_length:
  assumes "recalc_pass p forced b now st = RecalcDone st' \<or> recalc_pass p forced b now st = RecalcResetDiagnostics st'"
  shows "length (tracker_slots st') = length (tracker_slots st)"
  using recalc_pass_cores [OF assms] map_eq_imp_length_eq by (auto simp: slot_cores_def)

lemma recalculate_length:
  assumes "\<And>x. length (tracker_slots (between x)) = length (tracker_slots x)"
  shows "length (tracker_slots (tdma_recalculate p forced clock between st)) = length (tracker_slots st)"
  by (cases rule: recalculate_cases [of p forced clock st between]) (metis assms recalc_pass_length)+

section \<open>What has to be forgotten\<close>

definition forgotten :: "nat \<Rightarrow> ('q, 'f) receiver \<Rightarrow> bool" where
  "forgotten t r \<longleftrightarrow>
     t \<notin> set (targets (rc_ota r)) \<and> \<not> participating (ota_tracker (rc_ota r) ! t) \<and> \<not> ota_abort_valid (rc_ota r) ! t \<and>
     \<not> data_collect_is_target t (rc_collect r) \<and> \<not> mask_has (dc_batch_mask (rc_collect r)) t \<and>
     stored_tracker_addr (rc_esb r) ! t = 0 \<and> \<not> mask_has (tdma_active_mask (rc_esb r)) t \<and>
     slot_core (tracker_slots (rc_esb r) ! t) = slot_core zero_tracker_slot \<and>
     \<not> ema_initialized (rssi_states (rc_hid r) ! t)"

text \<open>Evidence of other trackers, which is all that is accepted while a slot is being removed.\<close>

definition stranger_quiet :: "nat \<Rightarrow> (esb \<Rightarrow> esb) \<Rightarrow> bool" where
  "stranger_quiet t between \<longleftrightarrow> roster_quiet between \<and> (\<forall>x. slot_cores (between x) ! t = slot_cores x ! t \<and>
     length (tracker_slots (between x)) = length (tracker_slots x))"

definition receiver_ok :: "('q, 'f) receiver \<Rightarrow> bool" where
  "receiver_ok r \<longleftrightarrow> ota_ok (rc_ota r) \<and> length (tracker_slots (rc_esb r)) = MAX_TRACKERS \<and>
     length (rssi_states (rc_hid r)) = MAX_TRACKERS \<and> length (pairing_generations (rc_events r)) = MAX_TRACKERS \<and>
     length (stored_tracker_addr (rc_esb r)) = MAX_TRACKERS"

text \<open>The actions of a removal are commands to trackers, which leave the other components alone.\<close>

lemma forget_actions:
  assumes "esb_ota_forget_tracker stored t now o1 = (acts, o2)"
  shows "\<exists>ids. acts = map (\<lambda>i. RemoteCommand i ESB_PONG_FLAG_OTA_UNSUPPRESS) ids"
  using assms
  by (auto simp: esb_ota_forget_tracker_def unsuppress_all_trackers_def Let_def split: prod.splits if_splits)

lemma remote_command_others:
  "rc_ota (run_ota_action (RemoteCommand i f) r) = rc_ota r" "rc_hid (run_ota_action (RemoteCommand i f) r) = rc_hid r"
  "rc_collect (run_ota_action (RemoteCommand i f) r) = rc_collect r"
  "rc_events (run_ota_action (RemoteCommand i f) r) = rc_events r"
  "length (tracker_slots (rc_esb (run_ota_action (RemoteCommand i f) r))) = length (tracker_slots (rc_esb r))"
  by (auto simp: esb_send_remote_command_def esb_send_remote_command_arg_def Let_def update_slot_def split: prod.splits)

lemma remote_commands_others:
  "rc_ota (fold run_ota_action (map (\<lambda>i. RemoteCommand i f) ids) r) = rc_ota r"
  "rc_hid (fold run_ota_action (map (\<lambda>i. RemoteCommand i f) ids) r) = rc_hid r"
  "rc_collect (fold run_ota_action (map (\<lambda>i. RemoteCommand i f) ids) r) = rc_collect r"
  "rc_events (fold run_ota_action (map (\<lambda>i. RemoteCommand i f) ids) r) = rc_events r"
  "length (tracker_slots (rc_esb (fold run_ota_action (map (\<lambda>i. RemoteCommand i f) ids) r))) = length (tracker_slots (rc_esb r))"
  by (induction ids arbitrary: r) (simp_all add: remote_command_others del: run_ota_action.simps)

lemma forget_transfers_others:
  "rc_ota (forget_transfers t now r) = snd (esb_ota_forget_tracker (stored_trackers (rc_esb r)) t now (rc_ota r))"
  "rc_collect (forget_transfers t now r) = data_collect_forget_tracker t (rc_collect r)"
  "rc_hid (forget_transfers t now r) = rc_hid r" "rc_events (forget_transfers t now r) = rc_events r"
  "length (tracker_slots (rc_esb (forget_transfers t now r))) = length (tracker_slots (rc_esb r))"
proof -
  obtain acts o1 where f: "esb_ota_forget_tracker (stored_trackers (rc_esb r)) t now (rc_ota r) = (acts, o1)" by fastforce
  obtain ids where a: "acts = map (\<lambda>i. RemoteCommand i ESB_PONG_FLAG_OTA_UNSUPPRESS) ids"
    using forget_actions [OF f] by blast
  show "rc_ota (forget_transfers t now r) = snd (esb_ota_forget_tracker (stored_trackers (rc_esb r)) t now (rc_ota r))"
    "rc_collect (forget_transfers t now r) = data_collect_forget_tracker t (rc_collect r)"
    "rc_hid (forget_transfers t now r) = rc_hid r" "rc_events (forget_transfers t now r) = rc_events r"
    "length (tracker_slots (rc_esb (forget_transfers t now r))) = length (tracker_slots (rc_esb r))"
    by (simp_all add: forget_transfers_def f a remote_commands_others)
qed

lemma ota_forgets:
  assumes ok: "ota_ok st" and t: "t < MAX_TRACKERS" and st': "st' = snd (esb_ota_forget_tracker stored t now st)"
  shows "targets st' = filter (\<lambda>x. x \<noteq> t) (targets st)" "\<not> participating (ota_tracker st' ! t)"
    "\<not> ota_abort_valid st' ! t" "t \<notin> set (targets st')"
proof -
  obtain e st1 where r: "remove_target_locked st t = (e, st1)" by fastforce
  have arr: "arrays_ok st" "session_ok st" using ok by (auto simp: ota_ok_def)
  have len: "length (ota_tracker st1) = 16" "length (ota_abort_valid st1) = 16"
    using remove_target_keeps_ok [OF ok t r] by (simp_all add: ota_ok_def arrays_ok_def)
  have tg: "targets st1 = filter (\<lambda>x. x \<noteq> t) (targets st)"
  proof (cases "participating (ota_tracker st ! t)")
    case True
    then show ?thesis using remove_target_cases [OF arr r] t by simp
  next
    case False
    then have "t \<notin> set (targets st)" using arr(2) by (auto simp: session_ok_def)
    then have "filter (\<lambda>x. x \<noteq> t) (targets st) = targets st" by (auto simp: filter_id_conv)
    then show ?thesis using remove_target_cases [OF arr r] False by simp
  qed
  obtain b st2 where f: "forget_section st t = (b, st2)" by fastforce
  have s2: "targets st2 = targets st1" "ota_tracker st2 = (ota_tracker st1)[t := zero_ota_tracker]"
    "ota_abort_valid st2 = (ota_abort_valid st1)[t := False]"
    using f r by (auto simp: forget_section_def Let_def targets_def split: if_splits)
  have ex: "expires st2 st'"
    using unsuppress_expires [of st2 stored now] t f by (auto simp: st' esb_ota_forget_tracker_def)
  show "targets st' = filter (\<lambda>x. x \<noteq> t) (targets st)" "\<not> participating (ota_tracker st' ! t)" "\<not> ota_abort_valid st' ! t"
    using ex s2 len t tg by (auto simp: expires_def targets_def zero_ota_tracker_def)
  then show "t \<notin> set (targets st')" by simp
qed

lemma recalculate_mask:
  assumes "roster_quiet between" and "stored_trackers st \<le> t" "t < MAX_TRACKERS"
  shows "\<not> mask_has (tdma_active_mask (tdma_recalculate p True clock between st)) t"
proof -
  have bound: "\<not> mask_has (recalc_mask (recalc_merge True b now x)) t" if "roster x = roster st" for b now x
    using that assms(2,3) by (auto simp: recalc_merge_def recalc_mask_def roster_def)
  show ?thesis
  proof (cases rule: recalculate_cases [of p True clock st between])
    case once
    then show ?thesis using forced_pass_mask bound by metis
  next
    case (twice st1)
    have "roster (between st1) = roster st"
      using recalc_pass_roster [OF disjI2, OF twice(1)] assms(1) by (simp add: roster_quiet_def)
    then show ?thesis using forced_pass_mask [OF twice(2)] bound by metis
  qed
qed

lemma slot_reset_fields:
  assumes "t < MAX_TRACKERS" "length (tracker_slots e) = MAX_TRACKERS"
  shows "slot_cores (slot_reset_esb t e) ! t = slot_core zero_tracker_slot"
  using assms by (simp add: slot_cores_def slot_reset_esb_def esb_auto_loss_invalidate_def tdma_shadow_forget_tracker_def Let_def)

lemma slot_reset_length [simp]: "length (tracker_slots (slot_reset_esb t e)) = length (tracker_slots e)"
  by (simp add: slot_reset_esb_def esb_auto_loss_invalidate_def tdma_shadow_forget_tracker_def Let_def)

lemma collect_forgets:
  "t < MAX_TRACKERS \<Longrightarrow> \<not> data_collect_is_target t (data_collect_forget_tracker t d) \<and>
     \<not> mask_has (dc_batch_mask (data_collect_forget_tracker t d)) t"
  by (auto simp: data_collect_forget_tracker_def data_collect_is_target_def Let_def dc_discard_buffer_def)

lemma cleanup_generations [simp]: "pairing_generations (tracker_events_pairing_cleanup ev) = pairing_generations ev"
proof -
  have "pairing_generations (fold (\<lambda>t s. reset_pairing_cache s t) ts ev) = pairing_generations ev" for ts
    by (induction ts arbitrary: ev) (simp_all add: reset_pairing_cache_def)
  then show ?thesis by (simp add: tracker_events_pairing_cleanup_def)
qed

lemma remove_section_fields:
  "rc_esb (remove_section t b r) = slot_reset_esb t ((rc_esb r)\<lparr>stored_trackers := t,
     stored_tracker_addr := (stored_tracker_addr (rc_esb r))[t := 0]\<rparr>)"
  "rc_hid (remove_section t b r) = hid_reset_rssi_smooth t (rc_hid r)"
  "rc_events (remove_section t b r) = tracker_events_pairing_invalidate (rc_events r) (set_bit t 0)"
  "rc_ota (remove_section t b r) = rc_ota r" "rc_collect (remove_section t b r) = rc_collect r"
  by (simp_all add: remove_section_def tracker_slot_reset_def)

text \<open>
  Claim C12. A removed tracker is forgotten everywhere. When a removal succeeds, whatever the tracker was doing and
  whatever evidence of other trackers arrives meanwhile: the firmware session has lost exactly that target, no abort
  waits for it, no data collection names it, its address is gone and its number is outside the layout, its slot holds
  nothing but zeros, a layout word and a test rate (so no command, request or sequence number reaches the next
  device with that number), its signal average restarts, and its pairing generation has moved on.
\<close>

theorem pairing_forgets:
  assumes ok: "receiver_ok r" and n: "stored_trackers (rc_esb r) = Suc t" "t < MAX_TRACKERS"
    and quiet: "stranger_quiet t between" and pop: "esb_pop_pair nvs now p clock between r = (None, r')"
  shows "forgotten t r' \<and> stored_trackers (rc_esb r') = t \<and>
    targets (rc_ota r') = filter (\<lambda>x. x \<noteq> t) (targets (rc_ota r)) \<and>
    pairing_generations (rc_events r') ! t \<noteq> pairing_generations (rc_events r) ! t"
proof -
  obtain r1 where ready: "rc_ready r" and s: "roster_save nvs t ((stored_tracker_addr (rc_esb r))[t := 0]) r = (None, r1)"
    and r': "r' = recalculate_and_cleanup p clock between
        (remove_section t (data_collect_is_target t (rc_collect r1)) (forget_transfers t now r1))"
    using pop n(1) by (auto simp: esb_pop_pair_def Let_def split: if_splits prod.splits option.splits)
  define r2 where "r2 = forget_transfers t now r1"
  define r3 where "r3 = remove_section t (data_collect_is_target t (rc_collect r1)) r2"
  note f = roster_save_fields [OF s] and o = forget_transfers_others [of t now r1, folded r2_def]
  have c: "stored_tracker_addr (rc_esb r2) = stored_tracker_addr (rc_esb r)"
    using coreD(4) [OF forget_transfers_core [of t now r1]] f by (simp add: r2_def)
  have len: "length (tracker_slots (rc_esb r2)) = MAX_TRACKERS" "length (rssi_states (rc_hid r)) = MAX_TRACKERS"
    "length (pairing_generations (rc_events r)) = MAX_TRACKERS" "length (stored_tracker_addr (rc_esb r)) = MAX_TRACKERS"
    "ota_ok (rc_ota r)" using ok o f by (simp_all add: receiver_ok_def)
  note og = ota_forgets [OF len(5) n(2) refl] and cg = collect_forgets [OF n(2)] and m = remove_section_fields
  have slots: "slot_cores (rc_esb r3) ! t = slot_core zero_tracker_slot" and ros: "roster (rc_esb r3) = (t, (stored_tracker_addr (rc_esb r))[t := 0])"
    using slot_reset_fields [OF n(2)] len(1) remove_section_roster(2) [of t _ r2] by (simp_all only: r3_def m(1) c) simp
  have q: "roster_quiet between" "\<And>x. slot_cores (between x) ! t = slot_cores x ! t"
    "\<And>x. length (tracker_slots (between x)) = length (tracker_slots x)"
    using quiet by (auto simp: stranger_quiet_def)
  have e': "rc_esb r' = tdma_recalculate p True clock between (rc_esb r3)"
    by (simp add: r' recalculate_and_cleanup_def r3_def r2_def)
  have ros': "roster (rc_esb r') = (t, (stored_tracker_addr (rc_esb r))[t := 0])"
    using recalculate_roster [of between] q(1) ros by (simp add: e' roster_quiet_def)
  have slots': "slot_cores (rc_esb r') ! t = slot_core zero_tracker_slot"
    using recalculate_core [of between t, OF q(2)] slots by (simp add: e')
  have own: "mask_has (set_bit t (0 :: u32)) t" using n(2) by (simp only: mask_has_set_bit) simp
  have "length (tracker_slots (rc_esb r3)) = MAX_TRACKERS"
    using len(1) by (simp add: r3_def m(1) slot_reset_length)
  then have "slot_core (tracker_slots (rc_esb r') ! t) = slot_core zero_tracker_slot"
    using slots' recalculate_length [of between, OF q(3)] n(2) by (simp add: e' slot_cores_def)
  moreover have "\<not> mask_has (tdma_active_mask (rc_esb r')) t"
    using recalculate_mask [OF q(1) _ n(2)] ros by (simp add: e' roster_def)
  moreover have ev: "rc_events r' = tracker_events_pairing_cleanup (tracker_events_pairing_invalidate (rc_events r) (set_bit t 0))"
    by (simp add: r' recalculate_and_cleanup_def m o [unfolded r2_def] f)
  moreover have "rc_ota r' = snd (esb_ota_forget_tracker (stored_trackers (rc_esb r1)) t now (rc_ota r))"
    "rc_collect r' = data_collect_forget_tracker t (rc_collect r)" "rc_hid r' = hid_reset_rssi_smooth t (rc_hid r)"
    by (simp_all add: r' recalculate_and_cleanup_def m o [unfolded r2_def] f)
  moreover have "pairing_generations (rc_events r') ! t = next_generation (pairing_generations (rc_events r) ! t)"
    unfolding ev cleanup_generations tracker_events_pairing_invalidate_def
    using len(3) n(2) own by (simp del: set_bit_0 add: nth_update_where)
  ultimately show ?thesis
    using og cg ros' len n(2)
    by (simp add: forgotten_def roster_def hid_reset_rssi_smooth_def)
qed

section \<open>A removal\<close>

definition shapes :: "('q, 'f) receiver \<Rightarrow> ota \<times> nat \<times> nat \<times> nat \<times> nat" where
  "shapes r = (rc_ota r, length (tracker_slots (rc_esb r)), length (rssi_states (rc_hid r)),
     length (pairing_generations (rc_events r)), length (stored_tracker_addr (rc_esb r)))"

lemma slot_reset_shapes: "shapes (tracker_slot_reset t r) = shapes r"
  by (simp add: shapes_def tracker_slot_reset_def slot_reset_esb_def esb_auto_loss_invalidate_def
      tdma_shadow_forget_tracker_def Let_def hid_reset_rssi_smooth_def tracker_events_pairing_invalidate_def)

lemma add_pair_shapes: "shapes (snd (esb_add_pair nvs addr r)) = shapes r"
proof -
  obtain err r1 where s: "roster_save nvs (stored_trackers (rc_esb r) + 1)
      ((stored_tracker_addr (rc_esb r))[stored_trackers (rc_esb r) := addr]) r = (err, r1)" by fastforce
  have "shapes r1 = shapes r" using roster_save_fields [OF s] by (simp add: shapes_def)
  then show ?thesis
    using slot_reset_shapes [of "stored_trackers (rc_esb r)" r1] s
    by (cases err) (auto simp: esb_add_pair_def Let_def shapes_def split: option.split)
qed

lemma restore_others:
  "rc_hid (snd (tracker_store_restore nvs r)) = rc_hid r" "rc_events (snd (tracker_store_restore nvs r)) = rc_events r"
  "tracker_slots (rc_esb (snd (tracker_store_restore nvs r))) = tracker_slots (rc_esb r)"
  by (simp_all add: tracker_store_restore_def split: prod.split sum.split)

lemma loaded_receiver_shapes: "shapes loaded_receiver = (ota_boot, 16, 16, 16, 16)"
proof -
  have "rc_hid loaded_receiver = rc_hid started_receiver" "rc_events loaded_receiver = rc_events started_receiver"
    "tracker_slots (rc_esb loaded_receiver) = tracker_slots (rc_esb started_receiver)"
    by (simp_all add: loaded_receiver_def restore_others)
  then show ?thesis
    using loaded_receiver_facts(2,3) by (simp add: shapes_def started_receiver_def ev_boot_def roster_def)
qed

text \<open>The device that was added above is removed again.\<close>

theorem pairing_forgets_witness:
  "let r = snd (esb_pop_pair list_nvs 5 no_peers (\<lambda>i. 7) id paired_receiver)
   in forgotten 0 r \<and> stored_trackers (rc_esb r) = 0"
proof -
  have "shapes paired_receiver = (ota_boot, 16, 16, 16, 16)"
    using loaded_receiver_shapes by (simp add: paired_receiver_def add_pair_shapes)
  then have ok: "receiver_ok paired_receiver" using ota_boot_ok by (simp add: receiver_ok_def shapes_def)
  have n: "stored_trackers (rc_esb paired_receiver) = Suc 0" using paired_receiver_facts(3) by (simp add: roster_def)
  have quiet: "stranger_quiet 0 id" by (simp add: stranger_quiet_def roster_quiet_def)
  have "roster_valid (of_nat 0) ((stored_tracker_addr (rc_esb paired_receiver))[0 := 0])" by (simp add: roster_valid_def)
  then have "fst (roster_save list_nvs 0 ((stored_tracker_addr (rc_esb paired_receiver))[0 := 0]) paired_receiver) = None"
    by (rule list_nvs_saves)
  then have "fst (esb_pop_pair list_nvs 5 no_peers (\<lambda>i. 7) id paired_receiver) = None"
    using paired_receiver_facts(2) n by (auto simp: esb_pop_pair_def Let_def split: prod.splits option.splits)
  then have "esb_pop_pair list_nvs 5 no_peers (\<lambda>i. 7) id paired_receiver =
      (None, snd (esb_pop_pair list_nvs 5 no_peers (\<lambda>i. 7) id paired_receiver))" by (metis prod.collapse)
  from pairing_forgets [OF ok n _ quiet this] show ?thesis by (simp add: Let_def)
qed

end
