(* ===== verification/RadioUnit.thy ===== *)
theory RadioUnit
  imports ChannelChange
begin

text \<open>
  The radio as one unit in \<open>esb.c\<close>: taking it down whatever it does, bringing it up in either mode, and the beacon that
  a receiver sends on its own channel. The calls into the radio library are the record \<open>driver\<close> over a state of its own:
  what a call answers and how it changes that state. The addresses are set by the driver's call; log output
  is left out.
\<close>

record energy_reading =
  er_peak :: int
  er_quiet_floor :: int
  er_samples :: u32
  er_coverage_us :: u32

record 'r driver =
  drv_disable :: "'r \<Rightarrow> 'r"
  drv_disabled :: "'r \<Rightarrow> bool"
  drv_init :: "bool \<Rightarrow> 'r \<Rightarrow> errno option \<times> 'r"
  drv_set_channel :: "u8 \<Rightarrow> 'r \<Rightarrow> errno option \<times> 'r"
  drv_set_addresses :: "'r \<Rightarrow> errno option \<times> 'r"
  drv_write_payload :: "bytes \<Rightarrow> 'r \<Rightarrow> errno option \<times> 'r"
  drv_start_tx :: "'r \<Rightarrow> errno option \<times> 'r"
  drv_tx_result :: "'r \<Rightarrow> errno option \<times> 'r"
  drv_start_rx :: "'r \<Rightarrow> errno option \<times> 'r"
  drv_fem_safe :: "'r \<Rightarrow> bool"
  drv_measure :: "u8 \<Rightarrow> 'r \<Rightarrow> (errno + energy_reading) \<times> 'r"

record 'r radio_unit =
  ru_esb :: esb
  ru_radio :: 'r
  ru_initialized :: bool

definition drive :: "('r \<Rightarrow> errno option \<times> 'r) \<Rightarrow> 'r radio_unit \<Rightarrow> errno option \<times> 'r radio_unit" where
  "drive f u = (let (e, r) = f (ru_radio u) in (e, u\<lparr>ru_radio := r\<rparr>))"

definition esb_radio_quiesce :: "'r driver \<Rightarrow> 'r radio_unit \<Rightarrow> errno option \<times> 'r radio_unit" where
  "esb_radio_quiesce d u0 =
     (let u = u0\<lparr>ru_radio := drv_disable d (ru_radio u0)\<rparr>
      in if \<not> drv_disabled d (ru_radio u) then (Some EIO, u\<lparr>ru_esb := (ru_esb u)\<lparr>esb_radio_fault := True\<rparr>\<rparr>)
         else if esb_radio_fault (ru_esb u) then (Some EIO, u)
         else (None, (if ru_initialized u then u\<lparr>ru_esb := esb_auto_loss_fence (ru_esb u)\<rparr> else u)
                       \<lparr>ru_initialized := False\<rparr>))"

definition esb_radio_operation_stop :: "'r driver \<Rightarrow> 'r radio_unit \<Rightarrow> errno option \<times> 'r radio_unit" where
  "esb_radio_operation_stop d = esb_radio_quiesce d"

definition esb_initialize_internal :: "'r driver \<Rightarrow> u8 \<Rightarrow> bool \<Rightarrow> 'r radio_unit \<Rightarrow> errno option \<times> 'r radio_unit" where
  "esb_initialize_internal d rf_default tx u =
     (if esb_radio_fault (ru_esb u) then (Some EIO, u)
      else if ru_initialized u then (Some EALREADY, u)
      else
        (case on_success (on_success (drive (drv_init d tx) u)
             (\<lambda>u. drive (drv_set_channel d (receiver_home rf_default (receiver_rf_channel (ru_esb u)))) u))
             (drive (drv_set_addresses d)) of
           (Some err, u1) \<Rightarrow>
             (case esb_radio_quiesce d u1 of
                (Some stop_err, u2) \<Rightarrow> (Some stop_err, u2)
              | (None, u2) \<Rightarrow> (Some err, u2))
         | (None, u1) \<Rightarrow> (None, u1\<lparr>ru_initialized := True\<rparr>)))"

definition esb_initialize_quiet :: "'r driver \<Rightarrow> u8 \<Rightarrow> bool \<Rightarrow> 'r radio_unit \<Rightarrow> errno option \<times> 'r radio_unit" where
  "esb_initialize_quiet d = esb_initialize_internal d"

text \<open>\<open>drv_tx_result\<close> is the wait of at most two milliseconds for the result of the transmission.\<close>

definition esb_home_beacon_send :: "'r driver \<Rightarrow> u8 \<Rightarrow> bytes \<Rightarrow> 'r radio_unit \<Rightarrow> errno option \<times> 'r radio_unit" where
  "esb_home_beacon_send d rf_default frame u =
     (let (err, u1) = on_success (on_success (on_success (esb_initialize_quiet d rf_default True u)
            (drive (drv_write_payload d frame))) (drive (drv_start_tx d))) (drive (drv_tx_result d));
          (stop_err, u2) = esb_radio_quiesce d u1
      in (if stop_err \<noteq> None then stop_err else err, u2))"

end
