(* ===== verification/AutoChannel.thy ===== *)
theory AutoChannel
  imports RadioUnit AutoChannelPolicy
begin

text \<open>
  The automatic avoidance of a bad channel, \<open>connection/auto_channel.c\<close>: the intake of foreign beacons, the judgement of
  the packet loss over ten seconds, the survey of all channels with its confirmation, the request for a migration and
  the check afterwards. The static variables are the record \<open>auto_channel\<close>, of which the worker owns
  all but the switches, the mailbox and the queue. One call of \<open>auto_step\<close> is composed of stages; the clock
  readings and what other contexts do between the stages are arguments, and what it
  does to the outside is a list of actions. The copy of the state for the console is in
  \<open>AutoChannelStatus\<close>.
\<close>

abbreviation (input) AC_SCAN_ROUNDS :: nat where "AC_SCAN_ROUNDS \<equiv> 12"
abbreviation (input) AC_CONFIRM_ROUNDS :: nat where "AC_CONFIRM_ROUNDS \<equiv> 24"
abbreviation (input) AC_EVIDENCE_MS :: int where "AC_EVIDENCE_MS \<equiv> 1000"
abbreviation (input) AC_WINDOW_MS :: int where "AC_WINDOW_MS \<equiv> 10000"
abbreviation (input) AC_WINDOW_SAMPLES :: nat where "AC_WINDOW_SAMPLES \<equiv> 10"
abbreviation (input) AC_MIN_INFERRED_SAMPLES :: nat where "AC_MIN_INFERRED_SAMPLES \<equiv> 100"
abbreviation (input) AC_COOLDOWN_MS :: int where "AC_COOLDOWN_MS \<equiv> 120000"
abbreviation (input) AC_QUEUE_SIZE :: nat where "AC_QUEUE_SIZE \<equiv> 16"
abbreviation (input) ESB_AUTO_LOSS_TRACKERS :: nat where "ESB_AUTO_LOSS_TRACKERS \<equiv> 16"

section \<open>State\<close>

record ac_observation =
  ob_frame :: bytes
  ob_home :: u8
  ob_generation :: u32
  ob_received :: int

record energy_status =
  en_peak :: int
  en_quiet_floor :: int
  en_coverage_us :: u32
  en_samples :: u32
  en_visits :: u16
  en_attempts :: u16

record sweep =
  sw_candidate :: nat
  sw_rounds :: nat
  sw_count :: nat
  sw_deadline :: int
  sw_order :: "u8 list"
  sw_finalists :: u64
  sw_active :: bool
  sw_confirming :: bool

datatype ac_diagnostic = AC_MONITOR | AC_SCANNING | AC_WAIT_COMMIT | AC_WAIT_RECOVERY | AC_POSTCHECK

record migration_result =
  mr_generation :: u32
  mr_old_home :: u8
  mr_new_home :: u8
  mr_success :: bool

record loss_interval =
  li_received :: nat
  li_gaps :: nat
  li_contributors :: u32
  li_elapsed :: int

record loss_window =
  lw_previous :: loss_snapshot
  lw_interval :: "loss_interval list"
  lw_sampled :: int
  lw_count :: nat
  lw_cursor :: nat
  lw_valid :: bool
  lw_resuming :: bool
  lw_scan_baseline :: loss_snapshot

record ac_decision =
  de_valid :: bool
  de_time :: int
  de_generation :: u32
  de_home :: u8
  de_target :: u8
  de_reference :: energy_status
  de_candidate :: energy_status
  de_excluded :: u64

record auto_channel =
  ac_policy_of :: ac_policy
  receiver_identity :: bytes
  ac_initialized :: bool
  ac_enabled :: bool
  ac_generation :: u32
  ac_scores :: "int list"
  ac_energy :: "energy_status list"
  last_decision :: ac_decision
  tx_attempts :: u32
  tx_completed :: u32
  ac_sequence :: u16
  ac_radio_fault :: bool
  entropy_fault :: bool
  random_state :: u32
  ac_observations :: "ac_observation list"
  ac_sweep :: sweep
  next_beacon :: int
  next_scan :: int
  observed_home :: u8
  observed_generation :: u32
  ac_diag :: ac_diagnostic
  interference_latched :: bool
  next_evidence :: int
  migration_mask :: u32
  recovery_seen :: u32
  requested_home :: u8
  requested_target :: u8
  ac_completion :: migration_result
  completion_pending :: bool
  ac_recovery :: loss_snapshot
  ac_loss :: loss_window

section \<open>Switches, mailbox, intake\<close>

definition auto_channel_is_beacon :: "bytes \<Rightarrow> nat \<Rightarrow> bool" where
  "auto_channel_is_beacon data len \<longleftrightarrow> 3 \<le> len \<and> take 3 data = [0x53, 0x41, 0x43]"

definition auto_channel_generation :: "auto_channel \<Rightarrow> u32" where
  "auto_channel_generation a = ac_generation a"

definition auto_channel_decision_valid :: "u32 \<Rightarrow> auto_channel \<Rightarrow> bool" where
  "auto_channel_decision_valid expected a \<longleftrightarrow> ac_enabled a \<and> \<not> interference_latched a \<and> \<not> ac_radio_fault a \<and>
     \<not> entropy_fault a \<and> auto_channel_generation a = expected"

definition auto_channel_set_enabled :: "bool \<Rightarrow> auto_channel \<Rightarrow> auto_channel" where
  "auto_channel_set_enabled value a =
     (let a1 = a\<lparr>ac_enabled := value, ac_generation := ac_generation a + 1\<rparr>
      in if value then a1\<lparr>interference_latched := False\<rparr> else a1)"

definition auto_channel_init :: "bytes \<Rightarrow> auto_channel \<Rightarrow> auto_channel" where
  "auto_channel_init idn a =
     a\<lparr>receiver_identity := idn, ac_policy_of := (ac_policy_of a)\<lparr>identity := idn, cooldown := 0\<rparr>,
       ac_initialized := True\<rparr>"

definition auto_channel_migration_complete :: "u32 \<Rightarrow> u8 \<Rightarrow> u8 \<Rightarrow> bool \<Rightarrow> auto_channel \<Rightarrow> auto_channel" where
  "auto_channel_migration_complete token old_home new_home success a =
     (if token = auto_channel_generation a
      then a\<lparr>ac_completion := \<lparr>mr_generation = token, mr_old_home = old_home, mr_new_home = new_home,
               mr_success = success\<rparr>, completion_pending := True\<rparr>
      else a)"

text \<open>The frame is refused while the queue of sixteen is full.\<close>

definition auto_channel_receive :: "bytes \<Rightarrow> nat \<Rightarrow> nat \<Rightarrow> u8 \<Rightarrow> int \<Rightarrow> auto_channel \<Rightarrow> bool \<times> auto_channel" where
  "auto_channel_receive data len pipe home now a =
     (if \<not> auto_channel_is_beacon data len then (False, a)
      else if pipe \<noteq> 0 \<or> len \<noteq> AC_FRAME_SIZE \<or> take 4 data \<noteq> ac_magic \<or> data ! 13 \<noteq> 0 \<or> data ! 14 \<noteq> 0 \<or>
          data ! 15 \<noteq> 0 \<or> 100 < home \<or> data ! 10 \<noteq> home \<or> \<not> ac_initialized a \<or>
          take 6 (drop 4 data) = replicate 6 0 \<or> take 6 (drop 4 data) = receiver_identity a then (True, a)
      else if ac_enabled a \<and> length (ac_observations a) < AC_QUEUE_SIZE then
        (True, a\<lparr>ac_observations := ac_observations a @ [\<lparr>ob_frame = take AC_FRAME_SIZE data, ob_home = home,
           ob_generation = auto_channel_generation a, ob_received = now\<rparr>]\<rparr>)
      else (True, a))"

section \<open>The judgement of the loss\<close>

definition loss_baseline :: "loss_snapshot \<Rightarrow> int \<Rightarrow> bool \<Rightarrow> loss_window \<Rightarrow> loss_window" where
  "loss_baseline s now resuming lw =
     lw\<lparr>lw_previous := s, lw_sampled := now, lw_count := 0, lw_cursor := 0, lw_valid := True, lw_resuming := resuming\<rparr>"

definition discontinuity :: "loss_snapshot \<Rightarrow> loss_snapshot \<Rightarrow> bool" where
  "discontinuity a b \<longleftrightarrow>
     ls_active_mask a \<noteq> ls_active_mask b \<or> ls_reset_epoch a \<noteq> ls_reset_epoch b \<or>
     ls_layout_epoch a \<noteq> ls_layout_epoch b \<or> ls_cap_pending a \<noteq> ls_cap_pending b \<or>
     ls_home a \<noteq> ls_home b \<or> ls_eligible a \<noteq> ls_eligible b \<or>
     list_ex (\<lambda>i. mask_has (ls_active_mask b) i \<and>
         (lc_restarts (ls_tracker a ! i) \<noteq> lc_restarts (ls_tracker b ! i) \<or>
          lc_received (ls_tracker b ! i) < lc_received (ls_tracker a ! i) \<or>
          lc_gaps (ls_tracker b ! i) < lc_gaps (ls_tracker a ! i))) [0..<ESB_AUTO_LOSS_TRACKERS]"

definition interval_step :: "loss_snapshot \<Rightarrow> loss_snapshot \<Rightarrow> nat \<Rightarrow> loss_interval \<Rightarrow> loss_interval" where
  "interval_step prev s i item =
     (if \<not> mask_has (ls_active_mask s) i then item
      else
        let received = lc_received (ls_tracker s ! i) - lc_received (ls_tracker prev ! i)
        in item\<lparr>li_received := li_received item + unat received,
             li_gaps := li_gaps item + unat (lc_gaps (ls_tracker s ! i) - lc_gaps (ls_tracker prev ! i)),
             li_contributors := (if received \<noteq> 0 then set_bit i (li_contributors item) else li_contributors item)\<rparr>)"

definition interval_of :: "loss_snapshot \<Rightarrow> loss_snapshot \<Rightarrow> int \<Rightarrow> loss_interval" where
  "interval_of prev s elapsed =
     fold (interval_step prev s) [0..<ESB_AUTO_LOSS_TRACKERS]
       \<lparr>li_received = 0, li_gaps = 0, li_contributors = 0, li_elapsed = elapsed\<rparr>"

text \<open>The end of \<open>loss_sample\<close> over a full ring of intervals: no verdict, clean or lossy.\<close>

definition loss_verdict :: "loss_snapshot \<Rightarrow> int \<Rightarrow> loss_window \<Rightarrow> bool option \<times> loss_window" where
  "loss_verdict s now lw =
     (let received = sum_list (map li_received (lw_interval lw)); gaps = sum_list (map li_gaps (lw_interval lw));
          contributors = fold (\<lambda>item m. m OR li_contributors item) (lw_interval lw) 0;
          elapsed = sum_list (map li_elapsed (lw_interval lw))
      in if AC_WINDOW_MS + 500 < elapsed then (None, loss_baseline s now False lw)
         else if AC_WINDOW_MS \<le> elapsed \<and> received = 0 then (None, loss_baseline s now True lw)
         else if elapsed < AC_WINDOW_MS \<or> contributors \<noteq> ls_active_mask s \<or> received + gaps < AC_MIN_INFERRED_SAMPLES
         then (None, lw)
         else (Some ((received + gaps) * 20 < gaps * 100), lw))"

definition loss_sample :: "loss_snapshot \<Rightarrow> int \<Rightarrow> loss_window \<Rightarrow> bool option \<times> loss_window" where
  "loss_sample s now lw =
     (if \<not> lw_valid lw \<or> \<not> ls_eligible s \<or> ls_active_mask s = 0 \<or> ls_cap_pending s \<or>
         ls_ready_mask s AND ls_active_mask s \<noteq> ls_active_mask s \<or>
         now - lw_sampled lw < AC_EVIDENCE_MS - 500 \<or> AC_EVIDENCE_MS + 500 < now - lw_sampled lw \<or>
         discontinuity (lw_previous lw) s
      then (None, loss_baseline s now False lw)
      else
        let item = interval_of (lw_previous lw) s (now - lw_sampled lw)
        in if lw_resuming lw then (None, loss_baseline s now (li_received item = 0) lw)
           else
             let lw1 = lw\<lparr>lw_previous := s, lw_sampled := now,
                   lw_interval := (lw_interval lw)[lw_cursor lw := item],
                   lw_cursor := (lw_cursor lw + 1) mod AC_WINDOW_SAMPLES,
                   lw_count := (if lw_count lw < AC_WINDOW_SAMPLES then lw_count lw + 1 else lw_count lw)\<rparr>
             in if lw_count lw1 < AC_WINDOW_SAMPLES then (None, lw1) else loss_verdict s now lw1)"

section \<open>The survey of the channels\<close>

definition unknown_energy :: energy_status where
  "unknown_energy = \<lparr>en_peak = -1, en_quiet_floor = -1, en_coverage_us = 0, en_samples = 0, en_visits = 0, en_attempts = 0\<rparr>"

definition zero_sweep :: sweep where
  "zero_sweep = \<lparr>sw_candidate = 0, sw_rounds = 0, sw_count = 0, sw_deadline = 0, sw_order = replicate 46 0,
     sw_finalists = 0, sw_active = False, sw_confirming = False\<rparr>"

definition reset_sweep :: "auto_channel \<Rightarrow> auto_channel" where
  "reset_sweep a = a\<lparr>ac_scores := replicate 101 (-1), ac_energy := replicate 101 unknown_energy, ac_sweep := zero_sweep\<rparr>"

definition random_step :: "u32 \<Rightarrow> u32" where
  "random_step r = r * 1664525 + 1013904223"

definition random_next :: "auto_channel \<Rightarrow> u32 \<times> auto_channel" where
  "random_next a = (let r = random_step (random_state a) in (r, a\<lparr>random_state := r\<rparr>))"

definition required_visits :: "sweep \<Rightarrow> nat" where
  "required_visits s = AC_SCAN_ROUNDS + (if sw_confirming s then AC_CONFIRM_ROUNDS else 0)"

definition survey_channel :: "sweep \<Rightarrow> nat \<Rightarrow> nat \<Rightarrow> bool" where
  "survey_channel s channel home \<longleftrightarrow> \<not> sw_confirming s \<or> channel = home \<or>
     (channel \<le> 88 \<and> even channel \<and> bit (sw_finalists s) (channel div 2))"

definition needs_visit :: "auto_channel \<Rightarrow> nat \<Rightarrow> bool" where
  "needs_visit a ch \<longleftrightarrow> unat (en_visits (ac_energy a ! ch)) < required_visits (ac_sweep a)"

text \<open>The channels that still need a visit, in the order of the code's loop, and home when it is no destination.\<close>

definition sweep_channels :: "auto_channel \<Rightarrow> nat \<Rightarrow> nat list" where
  "sweep_channels a home =
     filter (\<lambda>ch. survey_channel (ac_sweep a) ch home \<and> needs_visit a ch) auto_destinations @
     (if (88 < home \<or> odd home) \<and> needs_visit a home then [home] else [])"

fun shuffle_loop :: "nat \<Rightarrow> u32 \<times> u8 list \<Rightarrow> u32 \<times> u8 list" where
  "shuffle_loop 0 x = x"
| "shuffle_loop (Suc 0) x = x"
| "shuffle_loop (Suc (Suc n)) (r, order) =
     (let r1 = random_step r; j = unat (r1 mod of_nat (n + 2))
      in shuffle_loop (Suc n) (r1, (order[n + 1 := order ! j])[j := order ! (n + 1)]))"

definition shuffle_sweep :: "nat \<Rightarrow> auto_channel \<Rightarrow> auto_channel" where
  "shuffle_sweep home a =
     (let chs = sweep_channels a home;
          filled = map of_nat chs @ drop (length chs) (sw_order (ac_sweep a));
          (r, order) = shuffle_loop (length chs) (random_state a, filled)
      in a\<lparr>random_state := r, ac_sweep := (ac_sweep a)\<lparr>sw_count := length chs, sw_order := order\<rparr>\<rparr>)"

text \<open>The loop over at most three finalists: the scores without them, their bits, and what was chosen.\<close>

fun finalists_loop ::
    "ac_policy \<Rightarrow> u8 \<Rightarrow> int \<Rightarrow> nat \<Rightarrow> int list \<times> u64 \<times> (nat \<times> int) list \<Rightarrow> int list \<times> u64 \<times> (nat \<times> int) list" where
  "finalists_loop p home now 0 x = x"
| "finalists_loop p home now (Suc n) (scores, finalists, chosen) =
     (case ac_choose p home scores now of
        None \<Rightarrow> (scores, finalists, chosen)
      | Some ch \<Rightarrow> finalists_loop p home now n
          (scores[ch := -1], set_bit (ch div 2) finalists, chosen @ [(ch, scores ! ch)]))"

definition begin_confirmation :: "u8 \<Rightarrow> int \<Rightarrow> auto_channel \<Rightarrow> bool \<times> auto_channel" where
  "begin_confirmation home now a =
     (let (scores, finalists, chosen) =
            finalists_loop (ac_policy_of a) home now 3 (ac_scores a, sw_finalists (ac_sweep a), []);
          a1 = a\<lparr>ac_scores := scores, ac_sweep := (ac_sweep a)\<lparr>sw_finalists := finalists\<rparr>\<rparr>
      in if chosen = [] then (False, a1)
         else
           let cleared = fold (\<lambda>ch sc. if ch \<noteq> unat home then sc[ch := -1] else sc) auto_destinations scores;
               kept = fold (\<lambda>(ch, v) sc. sc[ch := v]) chosen cleared
           in (True, shuffle_sweep (unat home)
                (a1\<lparr>ac_scores := kept, ac_sweep := (ac_sweep a1)\<lparr>sw_confirming := True\<rparr>\<rparr>)))"

section \<open>The world of the worker\<close>

record 'r auto_world =
  aw_auto :: auto_channel
  aw_unit :: "'r radio_unit"

datatype auto_action = AutoBeacon bytes | AutoScan u8 | AutoRequest u8 u8 u32

text \<open>
  The driver, the build's channel, what the other components report at a point, the readings of the clock
  and what other contexts do between the stages.
\<close>

record 'r auto_env =
  ae_driver :: "'r driver"
  ae_default :: u8
  ae_peers :: "nat \<Rightarrow> peers"
  ae_clock :: "nat \<Rightarrow> int"
  ae_between :: "nat \<Rightarrow> 'r auto_world \<Rightarrow> 'r auto_world"

definition on_auto :: "(auto_channel \<Rightarrow> auto_channel) \<Rightarrow> 'r auto_world \<Rightarrow> 'r auto_world" where
  "on_auto f w = w\<lparr>aw_auto := f (aw_auto w)\<rparr>"

definition on_esb :: "(esb \<Rightarrow> esb) \<Rightarrow> 'r auto_world \<Rightarrow> 'r auto_world" where
  "on_esb f w = w\<lparr>aw_unit := (aw_unit w)\<lparr>ru_esb := f (ru_esb (aw_unit w))\<rparr>\<rparr>"

definition effective_channel :: "u8 \<Rightarrow> 'r auto_world \<Rightarrow> u8" where
  "effective_channel rf_default w = receiver_home rf_default (receiver_rf_channel (ru_esb (aw_unit w)))"

definition snapshot_of :: "'r auto_env \<Rightarrow> nat \<Rightarrow> 'r auto_world \<Rightarrow> loss_snapshot" where
  "snapshot_of env i w = esb_get_auto_loss_snapshot (ae_default env) (ae_peers env i) (ru_esb (aw_unit w))"

definition rebase :: "'r auto_env \<Rightarrow> nat \<Rightarrow> 'r auto_world \<Rightarrow> loss_snapshot \<times> 'r auto_world" where
  "rebase env i w =
     (let (s, e) = esb_auto_loss_rebase (ae_default env) (ae_peers env i) (ru_esb (aw_unit w))
      in (s, w\<lparr>aw_unit := (aw_unit w)\<lparr>ru_esb := e\<rparr>\<rparr>))"

definition recovery_sample :: "'r auto_env \<Rightarrow> loss_snapshot \<Rightarrow> int \<Rightarrow> 'r auto_world \<Rightarrow> 'r auto_world" where
  "recovery_sample env s now w =
     (let a = aw_auto w; m = migration_mask a
      in if \<not> ls_eligible s \<or> m = 0 \<or> ls_cap_pending s \<or> ls_active_mask s AND m \<noteq> m \<or> ls_ready_mask s AND m \<noteq> m \<or>
            discontinuity (ac_recovery a) s \<or> AC_EVIDENCE_MS + 500 < now - lw_sampled (ac_loss a)
         then on_auto (\<lambda>a. a\<lparr>ac_recovery := s, recovery_seen := 0, ac_loss := loss_baseline s now False (ac_loss a)\<rparr>) w
         else
           let (r, w1) = rebase env 1 (on_auto (\<lambda>a. a\<lparr>recovery_seen := ls_ready_mask s AND m\<rparr>) w);
               w2 = on_auto (\<lambda>a. a\<lparr>ac_recovery := r, ac_loss := loss_baseline r now False (ac_loss a)\<rparr>) w1
           in if ls_eligible r \<and> \<not> ls_cap_pending r \<and> ls_ready_mask r AND m = m \<and> ls_active_mask r AND m = m
              then on_auto (\<lambda>a. a\<lparr>ac_diag := AC_POSTCHECK\<rparr>) w2 else w2)"

text \<open>Taking the radio down and restoring reception on the home channel; a failure keeps the radio.\<close>

definition restore :: "'r auto_env \<Rightarrow> 'r auto_world \<Rightarrow> errno option \<times> 'r auto_world" where
  "restore env w =
     (let d = ae_driver env; u = aw_unit w;
          (err, u1) = (if drv_fem_safe d (ru_radio u)
            then on_success (on_success (esb_radio_quiesce d u) (esb_initialize_quiet d (ae_default env) False))
                   (drive (drv_start_rx d))
            else (Some EIO, u));
          w1 = w\<lparr>aw_unit := u1\<rparr>
      in (err, if err \<noteq> None then on_auto (\<lambda>a. a\<lparr>ac_radio_fault := True\<rparr>) w1 else w1))"

section \<open>One step of the worker\<close>

text \<open>Giving up a survey, as the code does at every failed check.\<close>

definition abandon :: "auto_channel \<Rightarrow> auto_channel" where
  "abandon a =
     (let a1 = reset_sweep a;
          a2 = (if ac_diag a1 = AC_SCANNING then a1\<lparr>ac_diag := AC_MONITOR\<rparr> else a1)
      in a2\<lparr>ac_loss := (ac_loss a2)\<lparr>lw_valid := False\<rparr>\<rparr>)"

definition next_pause :: "int \<Rightarrow> auto_channel \<Rightarrow> auto_channel" where
  "next_pause now a = (let (r, a1) = random_next a in a1\<lparr>next_beacon := now + 2000 + uint (r mod 2001)\<rparr>)"

text \<open>The first stage takes the mailbox and notices a change of the home channel or of the switch.\<close>

definition step_committed :: "bool \<Rightarrow> migration_result \<Rightarrow> u8 \<Rightarrow> u32 \<Rightarrow> auto_channel \<Rightarrow> bool" where
  "step_committed completed result home token a \<longleftrightarrow> completed \<and> ac_diag a = AC_WAIT_COMMIT \<and>
     mr_generation result = token \<and> token = observed_generation a \<and> mr_old_home result = requested_home a \<and>
     mr_new_home result = requested_target a \<and> mr_success result \<and> home = mr_new_home result"

definition forget_peers :: "ac_policy \<Rightarrow> ac_policy" where
  "forget_peers p = p\<lparr>peers := peers (zero_policy (identity p)), cooldown := 0\<rparr>"

definition step_changed :: "bool \<Rightarrow> u8 \<Rightarrow> u32 \<Rightarrow> int \<Rightarrow> auto_channel \<Rightarrow> auto_channel" where
  "step_changed committed home token now a =
     (if home = observed_home a \<and> token = observed_generation a then a
      else
        let a1 = reset_sweep a;
            a2 = a1\<lparr>ac_loss := (ac_loss a1)\<lparr>lw_valid := False\<rparr>,
                    ac_diag := (if committed then ac_diag a1 else AC_MONITOR)\<rparr>
        in a2\<lparr>ac_policy_of := forget_peers (ac_policy_of a2), observed_home := home, observed_generation := token,
              next_evidence := now\<rparr>)"

definition step_completion :: "bool \<Rightarrow> bool \<Rightarrow> migration_result \<Rightarrow> u32 \<Rightarrow> int \<Rightarrow> loss_snapshot \<Rightarrow> auto_channel \<Rightarrow> auto_channel" where
  "step_completion completed committed result token now s a =
     (if completed \<and> ac_diag a = AC_WAIT_COMMIT \<and> mr_generation result = token \<and>
         mr_old_home result = requested_home a \<and> (\<not> mr_success result \<or> mr_new_home result = requested_target a)
      then
        let a1 = a\<lparr>ac_loss := (ac_loss a)\<lparr>lw_valid := False\<rparr>, next_evidence := now\<rparr>
        in if committed then
             a1\<lparr>ac_diag := AC_WAIT_RECOVERY, ac_recovery := s, recovery_seen := 0,
                ac_loss := loss_baseline s now False (ac_loss a1),
                ac_policy_of := (ac_policy_of a1)\<lparr>cooldown := now + AC_COOLDOWN_MS\<rparr>,
                next_evidence := now + AC_EVIDENCE_MS\<rparr>
           else a1\<lparr>ac_diag := AC_MONITOR\<rparr>
      else a)"

definition step_intake :: "u8 \<Rightarrow> u32 \<Rightarrow> int \<Rightarrow> auto_channel \<Rightarrow> auto_channel" where
  "step_intake home token now a =
     (let p = fold (\<lambda>item p.
            if ac_enabled a \<and> \<not> interference_latched a \<and> ob_home item = home \<and> ob_generation item = token \<and>
               ob_received item \<le> now \<and> now - ob_received item < AC_EXPIRY_MS
            then snd (ac_observe p (ob_frame item) (ob_received item)) else p) (ac_observations a) (ac_policy_of a)
      in a\<lparr>ac_policy_of := p, ac_observations := []\<rparr>)"

definition auto_begin :: "'r auto_env \<Rightarrow> u8 \<Rightarrow> u32 \<Rightarrow> int \<Rightarrow> 'r auto_world \<Rightarrow> 'r auto_world" where
  "auto_begin env home token now w =
     (let s = snapshot_of env 0 w
      in on_auto (\<lambda>a0.
           let a = (if next_beacon a0 = 0 then next_pause now a0 else a0);
               completed = completion_pending a; result = ac_completion a;
               a1 = a\<lparr>completion_pending := False\<rparr>;
               committed = step_committed completed result home token a1
           in step_intake home token now
                (step_completion completed committed result token now s (step_changed committed home token now a1))) w)"

text \<open>The second stage looks at the evidence once a second. It returns whether a survey is warranted and still available.\<close>

definition postcheck_lost :: "loss_snapshot \<Rightarrow> auto_channel \<Rightarrow> bool" where
  "postcheck_lost s a \<longleftrightarrow> \<not> ls_eligible s \<or> ls_cap_pending s \<or>
     ls_active_mask s AND migration_mask a \<noteq> migration_mask a \<or>
     ls_ready_mask s AND migration_mask a \<noteq> migration_mask a \<or> discontinuity (lw_previous (ac_loss a)) s"

definition judge_loss :: "'r auto_env \<Rightarrow> u32 \<Rightarrow> int \<Rightarrow> loss_snapshot \<Rightarrow> bool \<Rightarrow> 'r auto_world \<Rightarrow> bool \<times> bool \<times> 'r auto_world" where
  "judge_loss env token now s available w =
     (let (evidence, lw) = loss_sample s now (ac_loss (aw_auto w));
          w1 = on_auto (\<lambda>a. a\<lparr>ac_loss := lw\<rparr>) w;
          w2 = (if lw_count lw = 0
                then (let (r, w2) = rebase env 1 w1 in on_auto (\<lambda>a. a\<lparr>ac_loss := (ac_loss a)\<lparr>lw_previous := r\<rparr>\<rparr>) w2)
                else w1);
          a = aw_auto w2
      in if ac_diag a = AC_POSTCHECK \<and> evidence \<noteq> None then
           (if evidence = Some True
            then (False, False, on_auto (\<lambda>a. if auto_channel_decision_valid token a
                    then a\<lparr>interference_latched := True\<rparr> else a) w2)
            else (False, available, on_auto (\<lambda>a. a\<lparr>ac_diag := AC_MONITOR\<rparr>) w2))
         else if ac_diag a = AC_MONITOR then
           (evidence = Some True \<and> cooldown (ac_policy_of a) \<le> now, available, w2)
         else (False, available, w2))"

definition auto_evidence :: "'r auto_env \<Rightarrow> u32 \<Rightarrow> int \<Rightarrow> bool \<Rightarrow> 'r auto_world \<Rightarrow> bool \<times> bool \<times> 'r auto_world" where
  "auto_evidence env token now available w =
     (if now < next_evidence (aw_auto w) then (False, available, w)
      else
        let s0 = snapshot_of env 1 w;
            s = s0\<lparr>ls_eligible := ls_eligible s0 \<and> available\<rparr>;
            missed = (AC_EVIDENCE_MS \<le> now - next_evidence (aw_auto w));
            w1 = on_auto (\<lambda>a. a\<lparr>next_evidence := next_evidence a +
                   ((now - next_evidence a) div AC_EVIDENCE_MS + 1) * AC_EVIDENCE_MS\<rparr>) w;
            w2 = (if missed then on_auto (\<lambda>a.
                    let a1 = a\<lparr>ac_loss := (ac_loss a)\<lparr>lw_valid := False\<rparr>\<rparr>
                    in if ac_diag a1 = AC_WAIT_RECOVERY then a1\<lparr>ac_recovery := s, recovery_seen := 0\<rparr> else a1) w1
                  else w1);
            a = aw_auto w2
        in if ac_diag a = AC_WAIT_RECOVERY then (False, available, recovery_sample env s now w2)
           else if ac_diag a = AC_SCANNING then
             (False, available,
              if \<not> ls_eligible s \<or> ls_cap_pending s \<or> discontinuity (lw_scan_baseline (ac_loss a)) s
              then on_auto abandon w2 else w2)
           else if ac_diag a = AC_POSTCHECK \<and> postcheck_lost s a then
             (False, available, on_auto (\<lambda>a. a\<lparr>ac_diag := AC_WAIT_RECOVERY, ac_recovery := s, recovery_seen := 0,
                ac_loss := loss_baseline s now False (ac_loss a)\<rparr>) w2)
           else if ac_diag a = AC_WAIT_COMMIT then (False, available, w2)
           else judge_loss env token now s available w2)"

text \<open>The third stage works the radio: a beacon, a visit of a channel, and back to the home channel.\<close>

definition auto_ready :: "'r auto_env \<Rightarrow> u8 \<Rightarrow> u32 \<Rightarrow> 'r auto_world \<Rightarrow> bool" where
  "auto_ready env home token w \<longleftrightarrow> auto_channel_decision_valid token (aw_auto w) \<and>
     \<not> esb_pairing_is_active (ru_esb (aw_unit w)) \<and> effective_channel (ae_default env) w = home"

definition start_survey :: "u8 \<Rightarrow> int \<Rightarrow> auto_channel \<Rightarrow> auto_channel" where
  "start_survey home now a =
     (let a1 = shuffle_sweep (unat home) (a\<lparr>
            ac_sweep := (ac_sweep a)\<lparr>sw_active := True, sw_deadline := now + 60000\<rparr>, ac_diag := AC_SCANNING,
            ac_loss := (ac_loss a)\<lparr>lw_scan_baseline := lw_previous (ac_loss a)\<rparr>,
            migration_mask := ls_active_mask (lw_previous (ac_loss a))\<rparr>);
          (r, a2) = random_next a1
      in a2\<lparr>next_scan := now + 40 + uint ((r XOR ucast (identity (ac_policy_of a2) ! 0)) mod 21)\<rparr>)"

definition send_beacon :: "'r auto_env \<Rightarrow> u8 \<Rightarrow> 'r auto_world \<Rightarrow> errno option \<times> auto_action list \<times> 'r auto_world" where
  "send_beacon env home w =
     (let a = aw_auto w; frame = ac_frame (identity (ac_policy_of a)) home (ac_sequence a);
          (err, u) = esb_home_beacon_send (ae_driver env) (ae_default env) frame (aw_unit w)
      in (err, [AutoBeacon frame],
          on_auto (\<lambda>a. a\<lparr>ac_sequence := ac_sequence a + 1, tx_attempts := tx_attempts a + 1,
            tx_completed := (if err = None then tx_completed a + 1 else tx_completed a)\<rparr>) (w\<lparr>aw_unit := u\<rparr>)))"

definition note_energy :: "nat \<Rightarrow> energy_reading \<Rightarrow> auto_channel \<Rightarrow> auto_channel" where
  "note_energy ch o1 a =
     (let e = ac_energy a ! ch;
          e1 = e\<lparr>en_peak := (if en_peak e < 0 \<or> er_peak o1 < en_peak e then er_peak o1 else en_peak e),
                 en_quiet_floor := (if en_quiet_floor e < er_quiet_floor o1 then er_quiet_floor o1 else en_quiet_floor e),
                 en_samples := en_samples e + er_samples o1, en_coverage_us := en_coverage_us e + er_coverage_us o1,
                 en_visits := en_visits e + 1\<rparr>
      in a\<lparr>ac_energy := (ac_energy a)[ch := e1], ac_scores := (ac_scores a)[ch := en_peak e1]\<rparr>)"

definition visit_channel :: "'r auto_env \<Rightarrow> 'r auto_world \<Rightarrow> errno option \<times> auto_action list \<times> 'r auto_world" where
  "visit_channel env w =
     (let d = ae_driver env; channel = sw_order (ac_sweep (aw_auto w)) ! sw_candidate (ac_sweep (aw_auto w));
          ch = unat channel;
          w1 = on_auto (\<lambda>a. a\<lparr>ac_energy := (ac_energy a)[ch := (ac_energy a ! ch)\<lparr>en_attempts :=
                 en_attempts (ac_energy a ! ch) + 1\<rparr>]\<rparr>) w;
          (res, r) = drv_measure d channel (ru_radio (aw_unit w1));
          w2 = w1\<lparr>aw_unit := (aw_unit w1)\<lparr>ru_radio := r\<rparr>\<rparr>
      in case res of
           Inl err \<Rightarrow> (if err = EAGAIN then None else Some err, [AutoScan channel], w2)
         | Inr o1 \<Rightarrow>
             if \<not> drv_disabled d r then (Some EIO, [AutoScan channel], w2)
             else (None, [AutoScan channel], on_auto (note_energy ch o1) w2))"

definition auto_radio :: "'r auto_env \<Rightarrow> u8 \<Rightarrow> u32 \<Rightarrow> bool \<Rightarrow> bool \<Rightarrow> 'r auto_world \<Rightarrow> bool \<times> auto_action list \<times> 'r auto_world" where
  "auto_radio env home token beacon_due scan_due w =
     (let (err0, u) = esb_radio_operation_stop (ae_driver env) (aw_unit w); w0 = w\<lparr>aw_unit := u\<rparr>;
          (err1, acts1, w1) = (if err0 = None \<and> beacon_due then send_beacon env home w0 else (err0, [], w0));
          w1' = ae_between env 3 w1;
          (err2, acts2, w2) = (if err1 = None \<and> scan_due \<and> auto_channel_decision_valid token (aw_auto w1') \<and>
              effective_channel (ae_default env) w1' = home
            then visit_channel env w1' else (err1, [], w1'));
          (restored, w3) = restore env w2;
          w4 = (if ac_radio_fault (aw_auto w3) then w3 else on_esb esb_radio_operation_end w3);
          w5 = ae_between env 4 w4
      in (err2 = None \<and> restored = None \<and> auto_channel_decision_valid token (aw_auto w5) \<and>
            effective_channel (ae_default env) w5 = home, acts1 @ acts2, w5))"

text \<open>The fourth stage ends a round of the survey, and with the last round decides.\<close>

definition surveyed :: "auto_channel \<Rightarrow> nat \<Rightarrow> nat list" where
  "surveyed a home = filter (\<lambda>ch. survey_channel (ac_sweep a) ch home) auto_destinations @ [home]"

definition survey_complete :: "auto_channel \<Rightarrow> nat \<Rightarrow> bool" where
  "survey_complete a home \<longleftrightarrow>
     list_all (\<lambda>ch. unat (en_visits (ac_energy a ! ch)) = required_visits (ac_sweep a)) (surveyed a home)"

definition attempts_exhausted :: "auto_channel \<Rightarrow> nat \<Rightarrow> bool" where
  "attempts_exhausted a home \<longleftrightarrow>
     list_ex (\<lambda>ch. 384 \<le> en_attempts (ac_energy a ! ch) \<and> needs_visit a ch) (surveyed a home)"

definition decide :: "'r auto_env \<Rightarrow> u8 \<Rightarrow> u32 \<Rightarrow> bool \<Rightarrow> bool \<Rightarrow> 'r auto_world \<Rightarrow> auto_action list \<times> 'r auto_world" where
  "decide env home token complete expired w =
     (let a = aw_auto w;
          target = (if complete \<and> \<not> expired \<and> sw_confirming (ac_sweep a)
            then ac_choose (ac_policy_of a) home (ac_scores a) (ae_clock env 4) else None);
          time = ae_clock env 5;
          decision = \<lparr>de_valid = True, de_time = time, de_generation = token, de_home = home,
            de_target = (case target of None \<Rightarrow> 255 | Some ch \<Rightarrow> of_nat ch), de_reference = ac_energy a ! unat home,
            de_candidate = (case target of None \<Rightarrow> unknown_energy | Some ch \<Rightarrow> ac_energy a ! ch),
            de_excluded = fold (\<lambda>ch m. if ac_occupied (ac_policy_of a) (of_nat ch) time then set_bit (ch div 2) m else m)
              auto_destinations 0\<rparr>;
          w1 = on_auto (\<lambda>a. (reset_sweep (a\<lparr>last_decision := decision\<rparr>))
            \<lparr>ac_loss := (ac_loss a)\<lparr>lw_valid := False\<rparr>, ac_diag := AC_MONITOR\<rparr>) w
      in case target of
           None \<Rightarrow> ([], w1)
         | Some ch \<Rightarrow>
             let w2 = ae_between env 5 (on_auto (\<lambda>a. a\<lparr>requested_home := home, requested_target := of_nat ch,
                   ac_diag := AC_WAIT_COMMIT\<rparr>) w1);
                 (err, acts, e) = esb_auto_channel_request (ae_default env) (ae_peers env 3) (of_nat ch) home token
                   (auto_channel_decision_valid token (aw_auto w2)) (ae_clock env 6) (ru_esb (aw_unit w2));
                 w3 = w2\<lparr>aw_unit := (aw_unit w2)\<lparr>ru_esb := e\<rparr>\<rparr>
             in ([AutoRequest home (of_nat ch) token],
                 if err \<noteq> None then on_auto (\<lambda>a. a\<lparr>ac_diag := AC_MONITOR\<rparr>) w3 else w3))"

definition end_round :: "'r auto_env \<Rightarrow> u8 \<Rightarrow> u32 \<Rightarrow> bool \<Rightarrow> 'r auto_world \<Rightarrow> auto_action list \<times> 'r auto_world" where
  "end_round env home token expired w =
     (let w1 = on_auto (\<lambda>a. a\<lparr>ac_sweep := (ac_sweep a)\<lparr>sw_candidate := 0, sw_rounds := sw_rounds (ac_sweep a) + 1\<rparr>\<rparr>) w;
          a = aw_auto w1; complete = survey_complete a (unat home);
          (confirms, a1) = (if complete \<and> \<not> expired \<and> \<not> sw_confirming (ac_sweep a)
            then begin_confirmation home (ae_clock env 3) a else (False, a))
      in if confirms then ([], w1\<lparr>aw_auto := a1\<rparr>)
         else if complete \<or> attempts_exhausted a (unat home) \<or> expired
         then decide env home token complete expired (w1\<lparr>aw_auto := a1\<rparr>)
         else ([], on_auto (shuffle_sweep (unat home)) w1))"

definition finish_visit :: "'r auto_env \<Rightarrow> u8 \<Rightarrow> u32 \<Rightarrow> 'r auto_world \<Rightarrow> auto_action list \<times> 'r auto_world" where
  "finish_visit env home token w =
     (let w1 = on_auto (\<lambda>a. let (r, a1) = random_next a in a1\<lparr>next_scan := ae_clock env 1 + 40 + uint (r mod 21),
                ac_sweep := (ac_sweep a1)\<lparr>sw_candidate := sw_candidate (ac_sweep a1) + 1\<rparr>\<rparr>) w;
          sw = ac_sweep (aw_auto w1); expired = (sw_deadline sw \<le> ae_clock env 2)
      in if sw_candidate sw = sw_count sw \<or> expired then end_round env home token expired w1 else ([], w1))"

text \<open>The parts of a step that hold the radio, from its admission on.\<close>

definition auto_operation ::
    "'r auto_env \<Rightarrow> u8 \<Rightarrow> u32 \<Rightarrow> int \<Rightarrow> bool \<Rightarrow> bool \<Rightarrow> bool \<Rightarrow> 'r auto_world \<Rightarrow> auto_action list \<times> 'r auto_world" where
  "auto_operation env home token now beacon_due scan_due start_sweep w =
     (let w1 = ae_between env 1 w
      in if \<not> auto_ready env home token w1 then ([], on_esb esb_radio_operation_end (on_auto abandon w1))
         else
           let w2 = (if start_sweep then on_auto (start_survey home now) w1 else w1)
           in if \<not> beacon_due \<and> \<not> scan_due then ([], on_esb esb_radio_operation_end w2)
              else
                let w3 = ae_between env 2 (if scan_due then on_auto (\<lambda>a. snd (random_next a)) w2 else w2)
                in if \<not> auto_ready env home token w3 then ([], on_esb esb_radio_operation_end (on_auto abandon w3))
                   else
                     let (good, acts, w4) = auto_radio env home token beacon_due scan_due w3
                     in if \<not> good then (acts, on_auto abandon w4)
                        else if scan_due then (let (more, w5) = finish_visit env home token w4 in (acts @ more, w5))
                        else (acts, w4))"

definition auto_action_stage ::
    "'r auto_env \<Rightarrow> u8 \<Rightarrow> u32 \<Rightarrow> int \<Rightarrow> bool \<Rightarrow> bool \<Rightarrow> bool \<Rightarrow> 'r auto_world \<Rightarrow> auto_action list \<times> 'r auto_world" where
  "auto_action_stage env home token now qualified available beacon_due w =
     (let sw = ac_sweep (aw_auto w); scan_due = (sw_active sw \<and> next_scan (aw_auto w) \<le> now);
          start_sweep = (qualified \<and> \<not> sw_active sw)
      in if \<not> available \<or> (\<not> beacon_due \<and> \<not> scan_due \<and> \<not> start_sweep) then ([], w)
         else (case esb_radio_operation_begin (ae_peers env 2) (ru_esb (aw_unit w)) of
             (Some err, e) \<Rightarrow> ([], on_auto abandon (on_esb (\<lambda>_. e) w))
           | (None, e) \<Rightarrow> auto_operation env home token now beacon_due scan_due start_sweep (on_esb (\<lambda>_. e) w)))"

definition auto_step :: "'r auto_env \<Rightarrow> 'r auto_world \<Rightarrow> int \<times> auto_action list \<times> 'r auto_world" where
  "auto_step env w0 =
     (let now = ae_clock env 0; home = effective_channel (ae_default env) w0;
          token = auto_channel_generation (aw_auto w0);
          w1 = ae_between env 0 (auto_begin env home token now w0);
          available = (auto_channel_decision_valid token (aw_auto w1) \<and> \<not> esb_pairing_is_active (ru_esb (aw_unit w1)));
          (qualified, available2, w2) = auto_evidence env token now available w1;
          w3 = (if available2 then w2 else on_auto abandon w2);
          beacon_due = (next_beacon (aw_auto w3) \<le> now);
          (acts, w4) = auto_action_stage env home token now qualified available2 beacon_due w3;
          w5 = (if beacon_due then on_auto (next_pause (ae_clock env 7)) w4 else w4);
          a = aw_auto w5; deadline = min (next_evidence a) (next_beacon a)
      in (if sw_active (ac_sweep a) then min (next_scan a) deadline else deadline, acts, w5))"

end
