(* ===== verification/AutoChannelLoss.thy ===== *)
theory AutoChannelLoss
  imports AutoChannel
begin

text \<open>
  The judgement of the loss: the ring of ten intervals holds what eleven consecutive snapshots say, so that a verdict
  depends on the first and the last of them only.
\<close>

section \<open>The ring\<close>

definition ring_list :: "loss_window \<Rightarrow> loss_interval list" where
  "ring_list lw = drop (lw_cursor lw) (lw_interval lw) @ take (lw_cursor lw) (lw_interval lw)"

definition last_intervals :: "loss_window \<Rightarrow> loss_interval list" where
  "last_intervals lw = drop (AC_WINDOW_SAMPLES - lw_count lw) (ring_list lw)"

definition ring_ok :: "loss_window \<Rightarrow> bool" where
  "ring_ok lw \<longleftrightarrow> length (lw_interval lw) = AC_WINDOW_SAMPLES \<and> lw_cursor lw < AC_WINDOW_SAMPLES \<and>
     lw_count lw \<le> AC_WINDOW_SAMPLES"

lemma auto_ring_push:
  assumes "c < length xs"
  shows "drop ((c + 1) mod length xs) (xs[c := x]) @ take ((c + 1) mod length xs) (xs[c := x]) = tl (drop c xs @ take c xs) @ [x]"
proof -
  have d: "drop c xs = xs ! c # drop (Suc c) xs" using assms by (simp add: Cons_nth_drop_Suc)
  show ?thesis
  proof (cases "Suc c = length xs")
    case True
    then show ?thesis using d by (simp add: list_update_append take_Suc_conv_app_nth [of c xs] upd_conv_take_nth_drop)
  next
    case False
    then have "Suc c < length xs" using assms by simp
    then show ?thesis using d assms by (simp add: take_Suc_conv_app_nth upd_conv_take_nth_drop)
  qed
qed

lemma ring_sum:
  "sum_list (map f (lw_interval lw)) = (sum_list (map f (ring_list lw)) :: 'a::comm_monoid_add)"
proof -
  have "sum_list (map f (lw_interval lw)) = sum_list (map f (take (lw_cursor lw) (lw_interval lw) @ drop (lw_cursor lw) (lw_interval lw)))"
    by simp
  then show ?thesis by (simp only: ring_list_def map_append sum_list_append add.commute)
qed

lemma ring_set: "set (ring_list lw) = set (lw_interval lw)"
proof -
  have "set (lw_interval lw) = set (take (lw_cursor lw) (lw_interval lw) @ drop (lw_cursor lw) (lw_interval lw))" by simp
  then show ?thesis by (simp only: ring_list_def set_append Un_commute)
qed

section \<open>The intervals of a history\<close>

type_synonym loss_history = "(loss_snapshot \<times> int) list"

fun intervals :: "loss_history \<Rightarrow> loss_interval list" where
  "intervals (a # b # h) = interval_of (fst a) (fst b) (snd b - snd a) # intervals (b # h)"
| "intervals h = []"

lemma intervals_snoc:
  "h \<noteq> [] \<Longrightarrow> intervals (h @ [x]) = intervals h @ [interval_of (fst (last h)) (fst x) (snd x - snd (last h))]"
  by (induction h rule: intervals.induct) simp_all

lemma intervals_tl: "intervals (tl h) = tl (intervals h)"
  by (cases h rule: intervals.cases) simp_all

lemma length_intervals: "length (intervals h) = length h - 1"
  by (induction h rule: intervals.induct) simp_all

text \<open>Two looks that the code joins to an interval.\<close>

definition linked :: "loss_snapshot \<times> int \<Rightarrow> loss_snapshot \<times> int \<Rightarrow> bool" where
  "linked a b \<longleftrightarrow> \<not> discontinuity (fst a) (fst b) \<and> 500 \<le> snd b - snd a \<and> snd b - snd a \<le> 1500 \<and>
     ls_eligible (fst b) \<and> ls_active_mask (fst b) \<noteq> 0 \<and> \<not> ls_cap_pending (fst b) \<and>
     ls_ready_mask (fst b) AND ls_active_mask (fst b) = ls_active_mask (fst b)"

definition window_inv :: "loss_window \<Rightarrow> loss_history \<Rightarrow> bool" where
  "window_inv lw h \<longleftrightarrow> ring_ok lw \<and>
     (lw_valid lw \<longrightarrow> h \<noteq> [] \<and> last h = (lw_previous lw, lw_sampled lw) \<and> successively linked h \<and>
        length h = lw_count lw + 1 \<and> last_intervals lw = intervals h)"

lemma baseline_inv: "ring_ok lw \<Longrightarrow> window_inv (loss_baseline s now b lw) [(s, now)]"
  by (simp add: window_inv_def ring_ok_def loss_baseline_def last_intervals_def ring_list_def)

lemma push_inv:
  assumes inv: "window_inv lw h" and valid: "lw_valid lw" and l: "linked (lw_previous lw, lw_sampled lw) (s, now)"
    and lw': "lw' = lw\<lparr>lw_previous := s, lw_sampled := now,
      lw_interval := (lw_interval lw)[lw_cursor lw := interval_of (lw_previous lw) s (now - lw_sampled lw)],
      lw_cursor := (lw_cursor lw + 1) mod AC_WINDOW_SAMPLES,
      lw_count := (if lw_count lw < AC_WINDOW_SAMPLES then lw_count lw + 1 else lw_count lw)\<rparr>"
    and h': "h' = (if lw_count lw < AC_WINDOW_SAMPLES then h else tl h) @ [(s, now)]"
  shows "window_inv lw' h'"
proof -
  let ?x = "interval_of (lw_previous lw) s (now - lw_sampled lw)"
  have ring: "length (lw_interval lw) = 10" "lw_cursor lw < 10" "lw_count lw \<le> 10"
    and hist: "h \<noteq> []" "last h = (lw_previous lw, lw_sampled lw)" "successively linked h" "length h = lw_count lw + 1"
      "last_intervals lw = intervals h"
    using inv valid by (auto simp: window_inv_def ring_ok_def)
  have r': "ring_list lw' = tl (ring_list lw) @ [?x]"
    using auto_ring_push [of "lw_cursor lw" "lw_interval lw" ?x] ring by (simp add: ring_list_def lw')
  have len: "length (ring_list lw) = 10" using ring by (simp add: ring_list_def)
  have sx: "successively linked (h @ [(s, now)])" using hist l by (simp add: successively_append_iff)
  have ix: "intervals (h @ [(s, now)]) = intervals h @ [?x]" using intervals_snoc [OF hist(1)] hist(2) by simp
  show ?thesis
  proof (cases "lw_count lw < 10")
    case True
    then have h1: "h' = h @ [(s, now)]" by (simp add: h')
    have e: "10 - lw_count lw = Suc (10 - Suc (lw_count lw))" using True by simp
    have "last_intervals lw' = drop (10 - Suc (lw_count lw)) (tl (ring_list lw)) @ [?x]"
      using True r' len by (simp add: last_intervals_def lw')
    also have "drop (10 - Suc (lw_count lw)) (tl (ring_list lw)) = last_intervals lw"
      by (simp only: last_intervals_def e drop_Suc)
    finally show ?thesis using True ring hist sx ix h1 by (simp add: window_inv_def ring_ok_def lw')
  next
    case False
    then have c: "lw_count lw = 10" using ring by simp
    then have h1: "h' = tl (h @ [(s, now)])" using hist(1) by (simp add: h')
    have "last_intervals lw' = tl (intervals h) @ [?x]"
      using r' hist(5) c by (simp add: last_intervals_def lw')
    also have "\<dots> = intervals h'"
      using ix hist c length_intervals [of h] unfolding h1 intervals_tl by (cases "intervals h") simp_all
    finally have li: "last_intervals lw' = intervals h'" .
    have "successively linked h'" using sx hist(1) unfolding h1 by (cases h; cases "tl h") auto
    then show ?thesis using li c ring hist h1 by (simp add: window_inv_def ring_ok_def lw')
  qed
qed

lemma sample_linked:
  assumes "\<not> (\<not> lw_valid lw \<or> \<not> ls_eligible s \<or> ls_active_mask s = 0 \<or> ls_cap_pending s \<or>
         ls_ready_mask s AND ls_active_mask s \<noteq> ls_active_mask s \<or>
         now - lw_sampled lw < AC_EVIDENCE_MS - 500 \<or> AC_EVIDENCE_MS + 500 < now - lw_sampled lw \<or>
         discontinuity (lw_previous lw) s)"
  shows "lw_valid lw" "linked (lw_previous lw, lw_sampled lw) (s, now)"
  using assms by (auto simp: linked_def)

text \<open>The four sums of a verdict, over the intervals of a history.\<close>

definition contributed :: "loss_interval list \<Rightarrow> nat \<Rightarrow> bool" where
  "contributed its i \<longleftrightarrow> (\<exists>x\<in>set its. mask_has (li_contributors x) i)"

definition verdict_of :: "loss_history \<Rightarrow> loss_snapshot \<Rightarrow> bool \<Rightarrow> bool" where
  "verdict_of h s b \<longleftrightarrow> (let its = intervals h; received = sum_list (map li_received its); gaps = sum_list (map li_gaps its);
       elapsed = sum_list (map li_elapsed its)
     in 10000 \<le> elapsed \<and> elapsed \<le> 10500 \<and> 100 \<le> received + gaps \<and>
        (\<forall>i. mask_has (ls_active_mask s) i \<longleftrightarrow> contributed its i) \<and> b = ((received + gaps) * 20 < gaps * 100))"

lemma or_fold_has:
  "mask_has (fold (\<lambda>item m. m OR li_contributors item) its m) i \<longleftrightarrow> mask_has m i \<or> contributed its i"
  by (induction its arbitrary: m) (auto simp: contributed_def)

lemma verdict_some:
  assumes inv: "window_inv lw h" and full: "lw_valid lw" "lw_count lw = AC_WINDOW_SAMPLES"
    and v: "loss_verdict s now lw = (Some b, lw')"
  shows "verdict_of h s b \<and> lw' = lw \<and> length h = 11"
proof -
  have its: "ring_list lw = intervals h" and len: "length h = 11"
    using inv full by (auto simp: window_inv_def last_intervals_def)
  have c: "fold (\<lambda>item m. m OR li_contributors item) (lw_interval lw) 0 = ls_active_mask s" and lw': "lw' = lw"
    using v by (auto simp: loss_verdict_def Let_def split: if_splits)
  have "mask_has (ls_active_mask s) i \<longleftrightarrow> contributed (intervals h) i" for i
    unfolding c [symmetric] or_fold_has by (simp add: contributed_def its [symmetric] ring_set)
  then show ?thesis
    using v len lw' by (auto simp: verdict_of_def loss_verdict_def Let_def ring_sum its split: if_splits)
qed

definition sampled_ok :: "loss_snapshot \<Rightarrow> int \<Rightarrow> bool option \<Rightarrow> loss_window \<Rightarrow> loss_history \<Rightarrow> bool" where
  "sampled_ok s now v lw h \<longleftrightarrow> window_inv lw h \<and> lw_valid lw \<and> last h = (s, now) \<and>
     (\<forall>b. v = Some b \<longrightarrow> length h = 11 \<and> verdict_of h s b \<and> lw_count lw = AC_WINDOW_SAMPLES)"

lemma baseline_sampled: "ring_ok lw \<Longrightarrow> sampled_ok s now None (loss_baseline s now b lw) [(s, now)]"
  using baseline_inv [of lw s now b] by (simp add: sampled_ok_def loss_baseline_def)

lemma verdict_sampled:
  assumes inv: "window_inv lw h" and full: "lw_valid lw" "lw_count lw = AC_WINDOW_SAMPLES" and l: "last h = (s, now)"
    and v: "loss_verdict s now lw = (v, lw')"
  shows "\<exists>h'. sampled_ok s now v lw' h'"
proof (cases v)
  case (Some b)
  then show ?thesis
    using verdict_some [OF inv full, of s now b lw'] v inv full l by (auto simp: sampled_ok_def intro!: exI [of _ h])
next
  case None
  then have "lw' = lw \<or> (\<exists>b. lw' = loss_baseline s now b lw)"
    using v by (auto simp: loss_verdict_def Let_def split: if_splits)
  moreover have "ring_ok lw" using inv by (simp add: window_inv_def)
  moreover have "sampled_ok s now None lw h" using inv full l by (simp add: sampled_ok_def)
  ultimately show ?thesis using None baseline_sampled by metis
qed

lemma sample_inv:
  assumes inv: "window_inv lw h" and r: "loss_sample s now lw = (v, lw')"
  shows "\<exists>h'. sampled_ok s now v lw' h'"
proof -
  let ?bad = "\<not> lw_valid lw \<or> \<not> ls_eligible s \<or> ls_active_mask s = 0 \<or> ls_cap_pending s \<or>
         ls_ready_mask s AND ls_active_mask s \<noteq> ls_active_mask s \<or>
         now - lw_sampled lw < AC_EVIDENCE_MS - 500 \<or> AC_EVIDENCE_MS + 500 < now - lw_sampled lw \<or>
         discontinuity (lw_previous lw) s"
  have ok: "ring_ok lw" using inv by (simp add: window_inv_def)
  show ?thesis
  proof (cases "?bad \<or> lw_resuming lw")
    case True
    then have "\<exists>b. v = None \<and> lw' = loss_baseline s now b lw"
      using r unfolding loss_sample_def Let_def by (auto split: if_splits)
    then show ?thesis using baseline_sampled [OF ok] by blast
  next
    case False
    define lw1 where "lw1 = lw\<lparr>lw_previous := s, lw_sampled := now,
      lw_interval := (lw_interval lw)[lw_cursor lw := interval_of (lw_previous lw) s (now - lw_sampled lw)],
      lw_cursor := (lw_cursor lw + 1) mod AC_WINDOW_SAMPLES,
      lw_count := (if lw_count lw < AC_WINDOW_SAMPLES then lw_count lw + 1 else lw_count lw)\<rparr>"
    define h1 where "h1 = (if lw_count lw < AC_WINDOW_SAMPLES then h else tl h) @ [(s, now)]"
    have res: "(v, lw') = (if lw_count lw1 < AC_WINDOW_SAMPLES then (None, lw1) else loss_verdict s now lw1)"
      using r False unfolding loss_sample_def Let_def lw1_def by (simp split: if_splits)
    have valid: "lw_valid lw" and link: "linked (lw_previous lw, lw_sampled lw) (s, now)"
      using sample_linked [of lw s now] False by blast+
    have w1: "window_inv lw1 h1" using push_inv [OF inv valid link lw1_def h1_def] .
    have v1: "lw_valid lw1" "last h1 = (s, now)" using valid by (simp_all add: lw1_def h1_def)
    show ?thesis
    proof (cases "lw_count lw1 < AC_WINDOW_SAMPLES")
      case True
      then show ?thesis using res w1 v1 by (auto simp: sampled_ok_def intro!: exI [of _ h1])
    next
      case False
      then have "lw_count lw1 = AC_WINDOW_SAMPLES" using w1 by (simp add: window_inv_def ring_ok_def)
      with verdict_sampled [OF w1 v1(1) this v1(2)] res False show ?thesis by simp
    qed
  qed
qed

section \<open>Only the ends count\<close>

lemma interval_fold:
  "li_received (fold (interval_step prev s) is item) = li_received item + sum_list (map (\<lambda>i.
     if mask_has (ls_active_mask s) i then unat (lc_received (ls_tracker s ! i) - lc_received (ls_tracker prev ! i)) else 0) is)"
  "li_gaps (fold (interval_step prev s) is item) = li_gaps item + sum_list (map (\<lambda>i.
     if mask_has (ls_active_mask s) i then unat (lc_gaps (ls_tracker s ! i) - lc_gaps (ls_tracker prev ! i)) else 0) is)"
  "li_elapsed (fold (interval_step prev s) is item) = li_elapsed item"
  by (induction "is" arbitrary: item) (auto simp: interval_step_def Let_def)

lemma interval_fold_contributors:
  assumes "\<forall>i\<in>set is. i < 32"
  shows "mask_has (li_contributors (fold (interval_step prev s) is item)) j \<longleftrightarrow> mask_has (li_contributors item) j \<or>
     (j \<in> set is \<and> mask_has (ls_active_mask s) j \<and> lc_received (ls_tracker s ! j) \<noteq> lc_received (ls_tracker prev ! j))"
  using assms by (induction "is" arbitrary: item) (auto simp: interval_step_def Let_def)

text \<open>The packets that the trackers of a mask had received, or lost, by the time of a snapshot.\<close>

definition total_of :: "(loss_counts \<Rightarrow> u32) \<Rightarrow> u32 \<Rightarrow> loss_snapshot \<Rightarrow> nat" where
  "total_of f m s = sum_list (map (\<lambda>i. if mask_has m i then unat (f (ls_tracker s ! i)) else 0) [0..<ESB_AUTO_LOSS_TRACKERS])"

lemma total_diff:
  assumes "\<And>i. i < ESB_AUTO_LOSS_TRACKERS \<Longrightarrow> mask_has m i \<Longrightarrow> f (ls_tracker a ! i) \<le> f (ls_tracker b ! i)"
  shows "total_of f m a + sum_list (map (\<lambda>i. if mask_has m i then unat (f (ls_tracker b ! i) - f (ls_tracker a ! i)) else 0)
    [0..<ESB_AUTO_LOSS_TRACKERS]) = total_of f m b"
proof -
  have "sum_list (map (\<lambda>i. if mask_has m i then unat (f (ls_tracker a ! i)) else 0) is) +
      sum_list (map (\<lambda>i. if mask_has m i then unat (f (ls_tracker b ! i) - f (ls_tracker a ! i)) else 0) is) =
      sum_list (map (\<lambda>i. if mask_has m i then unat (f (ls_tracker b ! i)) else 0) is)"
    if "\<forall>i\<in>set is. i < ESB_AUTO_LOSS_TRACKERS" for "is"
    using that
  proof (induction "is")
    case (Cons i js)
    then show ?case using assms [of i] by (auto simp: unat_sub word_le_nat_alt)
  qed simp
  then show ?thesis by (simp add: total_of_def)
qed

lemma linked_mono:
  assumes "linked a b" and "mask_has (ls_active_mask (fst b)) i" and "i < ESB_AUTO_LOSS_TRACKERS"
  shows "lc_received (ls_tracker (fst a) ! i) \<le> lc_received (ls_tracker (fst b) ! i)"
    "lc_gaps (ls_tracker (fst a) ! i) \<le> lc_gaps (ls_tracker (fst b) ! i)"
  using assms by (auto simp: linked_def discontinuity_def list_ex_iff)

lemma linked_mask: "linked a b \<Longrightarrow> ls_active_mask (fst a) = ls_active_mask (fst b)"
  by (simp add: linked_def discontinuity_def)

lemma linked_interval:
  assumes "linked a b"
  defines "m \<equiv> ls_active_mask (fst b)" and "x \<equiv> interval_of (fst a) (fst b) (snd b - snd a)"
  shows "total_of lc_received m (fst a) + li_received x = total_of lc_received m (fst b)"
    "total_of lc_gaps m (fst a) + li_gaps x = total_of lc_gaps m (fst b)"
    "li_elapsed x = snd b - snd a"
    "mask_has (li_contributors x) i \<longleftrightarrow> i < ESB_AUTO_LOSS_TRACKERS \<and> mask_has m i \<and>
       lc_received (ls_tracker (fst a) ! i) < lc_received (ls_tracker (fst b) ! i)"
proof -
  show "total_of lc_received m (fst a) + li_received x = total_of lc_received m (fst b)"
    "total_of lc_gaps m (fst a) + li_gaps x = total_of lc_gaps m (fst b)"
    using total_diff [of m lc_received "fst a" "fst b"] total_diff [of m lc_gaps "fst a" "fst b"] linked_mono [OF assms(1)]
    by (simp_all add: x_def m_def interval_of_def interval_fold)
  show "li_elapsed x = snd b - snd a" by (simp add: x_def interval_of_def interval_fold)
  show "mask_has (li_contributors x) i \<longleftrightarrow> i < ESB_AUTO_LOSS_TRACKERS \<and> mask_has m i \<and>
       lc_received (ls_tracker (fst a) ! i) < lc_received (ls_tracker (fst b) ! i)"
    using linked_mono(1) [OF assms(1), of i] interval_fold_contributors [of "[0..<16]"]
    by (auto simp: x_def m_def interval_of_def order_less_le)
qed

definition telescopes :: "u32 \<Rightarrow> loss_history \<Rightarrow> bool" where
  "telescopes m h \<longleftrightarrow> (let a = fst (hd h); b = fst (last h); its = intervals h
     in total_of lc_received m a + sum_list (map li_received its) = total_of lc_received m b \<and>
        total_of lc_gaps m a + sum_list (map li_gaps its) = total_of lc_gaps m b \<and>
        sum_list (map li_elapsed its) = snd (last h) - snd (hd h) \<and> (\<forall>x\<in>set h. ls_active_mask (fst x) = m) \<and>
        (\<forall>i. mask_has m i \<and> i < ESB_AUTO_LOSS_TRACKERS \<longrightarrow> lc_received (ls_tracker a ! i) \<le> lc_received (ls_tracker b ! i)) \<and>
        (\<forall>i. contributed its i \<longleftrightarrow> i < ESB_AUTO_LOSS_TRACKERS \<and> mask_has m i \<and>
           lc_received (ls_tracker a ! i) < lc_received (ls_tracker b ! i)))"

lemma telescopes_cons:
  assumes l: "linked a b" and t: "telescopes m (b # h)"
  shows "telescopes m (a # b # h)"
proof -
  have m: "ls_active_mask (fst b) = m" "ls_active_mask (fst a) = m"
    using t linked_mask [OF l] by (auto simp: telescopes_def Let_def)
  note li = linked_interval [OF l, unfolded m] and mono = linked_mono(1) [OF l, unfolded m]
  have c: "contributed (intervals (a # b # h)) i \<longleftrightarrow>
      mask_has (li_contributors (interval_of (fst a) (fst b) (snd b - snd a))) i \<or> contributed (intervals (b # h)) i" for i
    by (simp add: contributed_def)
  let ?x = "interval_of (fst a) (fst b) (snd b - snd a)" and ?z = "fst (last (b # h))"
  have ih: "total_of lc_received m (fst b) + sum_list (map li_received (intervals (b # h))) = total_of lc_received m ?z"
    "total_of lc_gaps m (fst b) + sum_list (map li_gaps (intervals (b # h))) = total_of lc_gaps m ?z"
    "sum_list (map li_elapsed (intervals (b # h))) = snd (last (b # h)) - snd b"
    "\<forall>x\<in>set (b # h). ls_active_mask (fst x) = m"
    "\<And>i. mask_has m i \<Longrightarrow> i < 16 \<Longrightarrow> lc_received (ls_tracker (fst b) ! i) \<le> lc_received (ls_tracker ?z ! i)"
    "\<And>i. contributed (intervals (b # h)) i \<longleftrightarrow> i < 16 \<and> mask_has m i \<and>
       lc_received (ls_tracker (fst b) ! i) < lc_received (ls_tracker ?z ! i)"
    using t unfolding telescopes_def Let_def by simp_all
  have its: "intervals (a # b # h) = ?x # intervals (b # h)" "last (a # b # h) = last (b # h)" "hd (a # b # h) = a" by simp_all
  have up: "lc_received (ls_tracker (fst a) ! i) \<le> lc_received (ls_tracker ?z ! i)" if "mask_has m i" "i < 16" for i
    using mono [OF that] ih(5) [OF that] by (rule order_trans)
  have con: "contributed (intervals (a # b # h)) i \<longleftrightarrow> i < 16 \<and> mask_has m i \<and>
       lc_received (ls_tracker (fst a) ! i) < lc_received (ls_tracker ?z ! i)" for i
    using mono [of i] ih(5) [of i] unfolding c li(4) ih(6) by fastforce
  have masks: "\<forall>x\<in>set (a # b # h). ls_active_mask (fst x) = m" using ih(4) m(2) by simp
  show ?thesis
    unfolding telescopes_def Let_def its
    using ih(1-3) li(1-3) up con masks unfolding its by (simp only: list.map sum_list.Cons) (simp add: algebra_simps)
qed

lemma history_telescopes:
  "h \<noteq> [] \<Longrightarrow> successively linked h \<Longrightarrow> telescopes (ls_active_mask (fst (last h))) h"
proof (induction h rule: intervals.induct)
  case (1 a b h)
  then show ?case using telescopes_cons [of a b _ h] by simp
qed (auto simp: telescopes_def contributed_def)

text \<open>
  The loss between two snapshots, judged without any window: ten seconds of packets of the same
  participants, of which everyone has sent some, and whether more than a fifth of them was lost.
\<close>

definition loss_between :: "loss_snapshot \<times> int \<Rightarrow> loss_snapshot \<times> int \<Rightarrow> bool \<Rightarrow> bool" where
  "loss_between a b lossy \<longleftrightarrow> (let m = ls_active_mask (fst b);
       received = total_of lc_received m (fst b) - total_of lc_received m (fst a);
       gaps = total_of lc_gaps m (fst b) - total_of lc_gaps m (fst a)
     in 10000 \<le> snd b - snd a \<and> snd b - snd a \<le> 10500 \<and> ls_active_mask (fst a) = m \<and> m \<noteq> 0 \<and>
        (\<forall>i. mask_has m i \<longrightarrow> i < ESB_AUTO_LOSS_TRACKERS \<and>
           lc_received (ls_tracker (fst a) ! i) < lc_received (ls_tracker (fst b) ! i)) \<and>
        100 \<le> received + gaps \<and> lossy = (received + gaps < 5 * gaps))"

lemma sampled_verdict:
  assumes "sampled_ok s now (Some b) lw h"
  shows "length h = 11 \<and> successively linked h \<and> last h = (s, now) \<and> loss_between (hd h) (s, now) b"
proof -
  have h: "window_inv lw h" "lw_valid lw" "last h = (s, now)" "length h = 11" "verdict_of h s b"
    using assms by (auto simp: sampled_ok_def)
  then have c: "h \<noteq> []" "successively linked h" by (auto simp: window_inv_def)
  have t: "telescopes (ls_active_mask s) h" using history_telescopes [OF c] h(3) by simp
  have "\<forall>i. Suc i < length h \<longrightarrow> linked (h ! i) (h ! Suc i)" using c(2) by (simp only: successively_conv_nth)
  from spec [OF this, of 9] have "linked (h ! 9) (h ! 10)" using h(4) by simp
  moreover have "h ! 10 = (s, now)" using h(3,4) c(1) by (simp add: last_conv_nth)
  ultimately have "ls_active_mask s \<noteq> 0" by (simp add: linked_def)
  moreover have "ls_active_mask (fst (hd h)) = ls_active_mask s" using t c(1) by (auto simp: telescopes_def Let_def)
  ultimately show ?thesis
    using t h(3,4,5) c by (auto simp: telescopes_def loss_between_def verdict_of_def Let_def)
qed

end
