(* ===== verification/AutoChannelCorrect.thy ===== *)
theory AutoChannelCorrect
  imports AutoChannelLoss TdmaCorrect
begin

text \<open>
  The worker of the automatic channel choice as a state machine: what warrants a survey, what it does not do when it is
  switched off, and how it leaves the radio.
\<close>

section \<open>The worker and the other contexts\<close>

text \<open>What only the worker changes: all but the switches, the latch, the mailbox and the queue.\<close>

definition owned :: "auto_channel \<Rightarrow> auto_channel" where
  "owned a = a\<lparr>ac_enabled := False, ac_generation := 0, interference_latched := False,
     ac_completion := \<lparr>mr_generation = 0, mr_old_home = 0, mr_new_home = 0, mr_success = False\<rparr>,
     completion_pending := False, ac_observations := [], receiver_identity := [], ac_initialized := False\<rparr>"

definition bystander :: "('r auto_world \<Rightarrow> 'r auto_world) \<Rightarrow> bool" where
  "bystander f \<longleftrightarrow> (\<forall>w. owned (aw_auto (f w)) = owned (aw_auto w))"

lemma set_enabled_owned: "owned (auto_channel_set_enabled v a) = owned a"
  by (simp add: owned_def auto_channel_set_enabled_def Let_def)

lemma migration_complete_owned: "owned (auto_channel_migration_complete token old_home new_home success a) = owned a"
  by (simp add: owned_def auto_channel_migration_complete_def)

lemma receive_owned: "owned (snd (auto_channel_receive data len pipe home now a)) = owned a"
  by (simp add: owned_def auto_channel_receive_def)

lemma owned_fields:
  assumes "owned a = owned b"
  shows "ac_loss a = ac_loss b" "ac_sweep a = ac_sweep b" "ac_diag a = ac_diag b" "ac_scores a = ac_scores b"
    "ac_energy a = ac_energy b" "ac_policy_of a = ac_policy_of b" "observed_home a = observed_home b"
    "observed_generation a = observed_generation b" "next_beacon a = next_beacon b" "next_scan a = next_scan b"
    "next_evidence a = next_evidence b" "ac_radio_fault a = ac_radio_fault b" "entropy_fault a = entropy_fault b"
  using arg_cong [OF assms, of ac_loss] arg_cong [OF assms, of ac_sweep] arg_cong [OF assms, of ac_diag]
    arg_cong [OF assms, of ac_scores] arg_cong [OF assms, of ac_energy] arg_cong [OF assms, of ac_policy_of]
    arg_cong [OF assms, of observed_home] arg_cong [OF assms, of observed_generation] arg_cong [OF assms, of next_beacon]
    arg_cong [OF assms, of next_scan] arg_cong [OF assms, of next_evidence] arg_cong [OF assms, of ac_radio_fault]
    arg_cong [OF assms, of entropy_fault]
  by (simp_all add: owned_def)

lemma bystander_fields:
  assumes "bystander f"
  shows "ac_loss (aw_auto (f w)) = ac_loss (aw_auto w)" "ac_sweep (aw_auto (f w)) = ac_sweep (aw_auto w)"
    "ac_diag (aw_auto (f w)) = ac_diag (aw_auto w)" "ac_scores (aw_auto (f w)) = ac_scores (aw_auto w)"
    "ac_energy (aw_auto (f w)) = ac_energy (aw_auto w)" "ac_policy_of (aw_auto (f w)) = ac_policy_of (aw_auto w)"
    "observed_home (aw_auto (f w)) = observed_home (aw_auto w)" "ac_radio_fault (aw_auto (f w)) = ac_radio_fault (aw_auto w)"
    "next_beacon (aw_auto (f w)) = next_beacon (aw_auto w)" "next_scan (aw_auto (f w)) = next_scan (aw_auto w)"
  using assms owned_fields [of "aw_auto (f w)" "aw_auto w"] by (simp_all add: bystander_def)

lemma on_auto_simps [simp]:
  "aw_auto (on_auto f w) = f (aw_auto w)" "aw_unit (on_auto f w) = aw_unit w"
  "aw_auto (on_esb g w) = aw_auto w" "ru_esb (aw_unit (on_esb g w)) = g (ru_esb (aw_unit w))"
  "ru_radio (aw_unit (on_esb g w)) = ru_radio (aw_unit w)"
  by (simp_all add: on_auto_def on_esb_def)

text \<open>A worker at start-up with a radio that does what it is told, to evaluate on.\<close>

definition new_snapshot :: loss_snapshot where
  "new_snapshot = esb_get_auto_loss_snapshot 80 no_peers idle_esb"

definition new_auto :: auto_channel where
  "new_auto = \<lparr>ac_policy_of = zero_policy [1, 2, 3, 4, 5, 6], receiver_identity = [1, 2, 3, 4, 5, 6], ac_initialized = True,
     ac_enabled = False, ac_generation = 0, ac_scores = replicate 101 (-1), ac_energy = replicate 101 unknown_energy,
     last_decision = \<lparr>de_valid = False, de_time = 0, de_generation = 0, de_home = 0, de_target = 0,
       de_reference = unknown_energy, de_candidate = unknown_energy, de_excluded = 0\<rparr>,
     tx_attempts = 0, tx_completed = 0, ac_sequence = 0, ac_radio_fault = False, entropy_fault = False, random_state = 7,
     ac_observations = [], ac_sweep = zero_sweep, next_beacon = 0, next_scan = 0, observed_home = 0,
     observed_generation = 0, ac_diag = AC_MONITOR, interference_latched = False, next_evidence = 0, migration_mask = 0,
     recovery_seen = 0, requested_home = 0, requested_target = 0,
     ac_completion = \<lparr>mr_generation = 0, mr_old_home = 0, mr_new_home = 0, mr_success = False\<rparr>,
     completion_pending = False, ac_recovery = new_snapshot,
     ac_loss = \<lparr>lw_previous = new_snapshot,
       lw_interval = replicate 10 \<lparr>li_received = 0, li_gaps = 0, li_contributors = 0, li_elapsed = 0\<rparr>,
       lw_sampled = 0, lw_count = 0, lw_cursor = 0, lw_valid = False, lw_resuming = False,
       lw_scan_baseline = new_snapshot\<rparr>\<rparr>"

definition obedient_driver :: "bool driver" where
  "obedient_driver = \<lparr>drv_disable = \<lambda>_. False, drv_disabled = Not, drv_init = \<lambda>_ r. (None, r),
     drv_set_channel = \<lambda>_ r. (None, r), drv_set_addresses = \<lambda>r. (None, r), drv_write_payload = \<lambda>_ r. (None, r),
     drv_start_tx = \<lambda>r. (None, r), drv_tx_result = \<lambda>r. (None, r), drv_start_rx = \<lambda>_. (None, True), drv_fem_safe = Not,
     drv_measure = \<lambda>_ r. (Inr \<lparr>er_peak = 20, er_quiet_floor = 10, er_samples = 5, er_coverage_us = 100\<rparr>, r)\<rparr>"

definition new_env :: "bool auto_env" where
  "new_env = \<lparr>ae_driver = obedient_driver, ae_default = 80, ae_peers = \<lambda>_. no_peers, ae_clock = \<lambda>i. 5000 + int i,
     ae_between = \<lambda>_. id\<rparr>"

definition new_world :: "bool auto_world" where
  "new_world = \<lparr>aw_auto = new_auto, aw_unit = \<lparr>ru_esb = idle_esb, ru_radio = True, ru_initialized = True\<rparr>\<rparr>"

section \<open>Switched off\<close>

text \<open>What happens meanwhile can make a decision invalid, never valid again: enabling starts a new generation.\<close>

definition never_revives :: "u32 \<Rightarrow> ('r auto_world \<Rightarrow> 'r auto_world) \<Rightarrow> bool" where
  "never_revives token f \<longleftrightarrow>
     (\<forall>w. auto_channel_decision_valid token (aw_auto (f w)) \<longrightarrow> auto_channel_decision_valid token (aw_auto w))"

lemma set_enabled_never_revives:
  "auto_channel_decision_valid token (auto_channel_set_enabled v a) \<Longrightarrow> token = ac_generation a + 1"
  by (auto simp: auto_channel_decision_valid_def auto_channel_set_enabled_def auto_channel_generation_def Let_def)

definition switches :: "auto_channel \<Rightarrow> bool \<times> u32 \<times> bool \<times> bool \<times> bool" where
  "switches a = (ac_enabled a, ac_generation a, interference_latched a, ac_radio_fault a, entropy_fault a)"

lemma valid_switches: "switches a = switches b \<Longrightarrow> auto_channel_decision_valid t a = auto_channel_decision_valid t b"
  by (simp add: switches_def auto_channel_decision_valid_def auto_channel_generation_def)

lemma stage_switches [simp]:
  "switches (reset_sweep a) = switches a" "switches (abandon a) = switches a" "switches (next_pause now a) = switches a"
  "switches (step_changed c home token now a) = switches a" "switches (step_intake home token now a) = switches a"
  "switches (step_completion c d result token now s a) = switches a" "switches (shuffle_sweep h a) = switches a"
  "switches (start_survey home now a) = switches a" "switches (note_energy ch o1 a) = switches a"
  by (simp_all add: switches_def reset_sweep_def abandon_def next_pause_def random_next_def step_changed_def Let_def
      step_intake_def step_completion_def shuffle_sweep_def start_survey_def note_energy_def split: prod.split)

lemma begin_switches [simp]: "switches (aw_auto (auto_begin env home token now w)) = switches (aw_auto w)"
  by (simp add: auto_begin_def Let_def) (simp add: switches_def next_pause_def random_next_def Let_def)

lemma rebase_auto: "rebase env i w = (r, w') \<Longrightarrow> aw_auto w' = aw_auto w"
  by (auto simp: rebase_def Let_def split: prod.splits)

lemma recovery_switches [simp]: "switches (aw_auto (recovery_sample env s now w)) = switches (aw_auto w)"
  by (auto simp: recovery_sample_def Let_def switches_def rebase_auto split: prod.splits)

text \<open>The second stage can only withdraw the decision, and leaves the radio alone.\<close>

lemma rebase_radio: "rebase env i w = (r, w') \<Longrightarrow> ru_radio (aw_unit w') = ru_radio (aw_unit w)"
  by (auto simp: rebase_def Let_def split: prod.splits)

lemma recovery_radio [simp]: "ru_radio (aw_unit (recovery_sample env s now w)) = ru_radio (aw_unit w)"
  by (auto simp: recovery_sample_def Let_def rebase_radio split: prod.splits)

lemma judge_withdraws:
  assumes "judge_loss env token now s available w = (qualified, available', w')"
  shows "(available' \<longrightarrow> available) \<and> ru_radio (aw_unit w') = ru_radio (aw_unit w)"
  using assms by (auto simp: judge_loss_def Let_def rebase_radio split: prod.splits if_splits)

lemma evidence_withdraws:
  assumes "auto_evidence env token now available w = (qualified, available', w')"
  shows "(available' \<longrightarrow> available) \<and> ru_radio (aw_unit w') = ru_radio (aw_unit w)"
proof -
  have "(available' \<longrightarrow> available) \<and> ru_radio (aw_unit w') = ru_radio (aw_unit x)"
    if "judge_loss env token now s available x = (qualified, available', w')" for s x
    using judge_withdraws [OF that] .
  then show ?thesis
    using assms unfolding auto_evidence_def Let_def by (auto split: if_splits simp del: One_nat_def)
qed

definition radio_kept :: "('r auto_world \<Rightarrow> 'r auto_world) \<Rightarrow> bool" where
  "radio_kept f \<longleftrightarrow> (\<forall>w. ru_radio (aw_unit (f w)) = ru_radio (aw_unit w))"

text \<open>
  Switched off means silent. While the avoidance is disabled, or stopped by the interference latch, or a fault
  was recorded, a step of the worker sends no beacon, visits no channel and requests no migration, and the radio is not
  touched, whatever evidence there is and whatever is left of a survey; a switch that is thrown while the
  step runs cannot revive the decision, because it starts a new generation.
\<close>

theorem auto_silent_when_off:
  assumes off: "\<not> auto_channel_decision_valid (auto_channel_generation (aw_auto w)) (aw_auto w)"
    and others: "\<And>i. never_revives (auto_channel_generation (aw_auto w)) (ae_between env i)" "\<And>i. radio_kept (ae_between env i)"
    and step: "auto_step env w = (deadline, acts, w')"
  shows "acts = [] \<and> ru_radio (aw_unit w') = ru_radio (aw_unit w)"
proof -
  define token where "token = auto_channel_generation (aw_auto w)"
  define home where "home = effective_channel (ae_default env) w"
  define w1 where "w1 = ae_between env 0 (auto_begin env home token (ae_clock env 0) w)"
  have b: "auto_channel_decision_valid token (aw_auto (auto_begin env home token (ae_clock env 0) w)) =
      auto_channel_decision_valid token (aw_auto w)" by (rule valid_switches) simp
  have inv: "\<not> auto_channel_decision_valid token (aw_auto w1)"
    using others(1) [of 0] off b unfolding w1_def never_revives_def token_def by blast
  have r1: "ru_radio (aw_unit w1) = ru_radio (aw_unit w)"
    using others(2) [of 0] by (simp add: w1_def radio_kept_def auto_begin_def Let_def)
  obtain warranted available2 w2 where e: "auto_evidence env token (ae_clock env 0) False w1 = (warranted, available2, w2)"
    by (metis prod_cases3)
  have a2: "\<not> available2" "ru_radio (aw_unit w2) = ru_radio (aw_unit w1)" using evidence_withdraws [OF e] by simp_all
  have "auto_step env w = (fst (auto_step env w), [], snd (snd (auto_step env w))) \<and>
      ru_radio (aw_unit (snd (snd (auto_step env w)))) = ru_radio (aw_unit w2)"
    using inv e a2(1) unfolding auto_step_def Let_def token_def [symmetric] home_def [symmetric] w1_def [symmetric]
    by (simp add: auto_action_stage_def)
  then show ?thesis using step a2(2) r1 by simp
qed

theorem auto_silent_when_off_witness:
  "fst (snd (auto_step new_env new_world)) = [] \<and> ru_radio (aw_unit (snd (snd (auto_step new_env new_world))))"
proof -
  have "\<not> auto_channel_decision_valid (auto_channel_generation (aw_auto new_world)) (aw_auto new_world)"
    by (simp add: new_world_def new_auto_def auto_channel_decision_valid_def)
  moreover have "never_revives t (ae_between new_env i)" "radio_kept (ae_between new_env i)" for t i
    by (simp_all add: new_env_def never_revives_def radio_kept_def)
  moreover have "auto_step new_env new_world = (fst (auto_step new_env new_world),
      fst (snd (auto_step new_env new_world)), snd (snd (auto_step new_env new_world)))" by simp
  ultimately have "fst (snd (auto_step new_env new_world)) = [] \<and>
      ru_radio (aw_unit (snd (snd (auto_step new_env new_world)))) = ru_radio (aw_unit new_world)"
    by (rule auto_silent_when_off)
  then show ?thesis by (simp add: new_world_def)
qed

section \<open>What warrants a survey\<close>

definition window_good :: "loss_window \<Rightarrow> bool" where
  "window_good lw \<longleftrightarrow> (\<exists>h. window_inv lw h)"

lemma window_good_ring: "window_good lw \<Longrightarrow> ring_ok lw"
  by (auto simp: window_good_def window_inv_def)

lemma window_good_invalid: "window_good lw \<Longrightarrow> window_good (lw\<lparr>lw_valid := False\<rparr>)"
  by (auto simp: window_good_def window_inv_def ring_ok_def)

lemma window_good_baseline: "window_good lw \<Longrightarrow> window_good (loss_baseline s now b lw)"
  using baseline_inv window_good_ring unfolding window_good_def by blast

lemma scan_baseline_intervals [simp]: "last_intervals (lw\<lparr>lw_scan_baseline := s\<rparr>) = last_intervals lw"
  by (simp add: last_intervals_def ring_list_def)

lemma window_good_scan: "window_good lw \<Longrightarrow> window_good (lw\<lparr>lw_scan_baseline := s\<rparr>)"
  by (simp add: window_good_def window_inv_def ring_ok_def)

lemma window_good_rebased:
  assumes "window_good lw" and "lw_count lw = 0"
  shows "window_good (lw\<lparr>lw_previous := r\<rparr>)"
proof -
  obtain h where h: "window_inv lw h" using assms(1) by (auto simp: window_good_def)
  have "window_inv (lw\<lparr>lw_previous := r\<rparr>) [(r, lw_sampled lw)]"
    using h assms(2) by (auto simp: window_inv_def ring_ok_def last_intervals_def ring_list_def)
  then show ?thesis by (auto simp: window_good_def)
qed

lemma window_good_sample: "window_good lw \<Longrightarrow> loss_sample s now lw = (v, lw') \<Longrightarrow> window_good lw'"
  using sample_inv unfolding window_good_def sampled_ok_def by blast

lemmas window_goods = window_good_invalid window_good_baseline window_good_scan window_good_rebased

text \<open>The evidence behind a survey: eleven looks, a second apart, of the same participants.\<close>

definition warranted_by :: "loss_history \<Rightarrow> int \<Rightarrow> bool" where
  "warranted_by h now \<longleftrightarrow> length h = 11 \<and> successively linked h \<and> snd (last h) = now \<and> loss_between (hd h) (last h) True"

lemma stage_window:
  "window_good (ac_loss a) \<Longrightarrow> window_good (ac_loss (abandon a))"
  "window_good (ac_loss a) \<Longrightarrow> window_good (ac_loss (step_changed c home token now a))"
  "window_good (ac_loss a) \<Longrightarrow> window_good (ac_loss (step_completion d c result token now s a))"
  "window_good (ac_loss a) \<Longrightarrow> window_good (ac_loss (start_survey home now a))"
  by (auto simp: abandon_def reset_sweep_def step_changed_def step_completion_def start_survey_def shuffle_sweep_def
      random_next_def Let_def intro: window_goods split: prod.splits)

lemma stage_loss [simp]:
  "ac_loss (next_pause now a) = ac_loss a" "ac_loss (step_intake home token now a) = ac_loss a"
  "ac_loss (shuffle_sweep h a) = ac_loss a" "ac_loss (note_energy ch o1 a) = ac_loss a" "ac_loss (reset_sweep a) = ac_loss a"
  by (simp_all add: next_pause_def random_next_def step_intake_def shuffle_sweep_def note_energy_def reset_sweep_def Let_def
      split: prod.split)

lemma begin_window:
  "window_good (ac_loss (aw_auto w)) \<Longrightarrow> window_good (ac_loss (aw_auto (auto_begin env home token now w)))"
  by (auto simp: auto_begin_def Let_def intro!: stage_window(2,3))

lemma recovery_window:
  "window_good (ac_loss (aw_auto w)) \<Longrightarrow> window_good (ac_loss (aw_auto (recovery_sample env s now w)))"
  by (auto simp: recovery_sample_def Let_def rebase_auto intro: window_goods split: prod.splits)

lemma judge_warranted:
  assumes good: "window_good (ac_loss (aw_auto w))"
    and j: "judge_loss env token now s available w = (warranted, available', w')"
  shows "window_good (ac_loss (aw_auto w')) \<and> ac_sweep (aw_auto w') = ac_sweep (aw_auto w) \<and>
    (warranted \<longrightarrow> ac_diag (aw_auto w') = AC_MONITOR \<and> cooldown (ac_policy_of (aw_auto w)) \<le> now \<and> (\<exists>h. warranted_by h now))"
proof -
  obtain v lw where v: "loss_sample s now (ac_loss (aw_auto w)) = (v, lw)" by fastforce
  obtain r w2 where r: "rebase env 1 (on_auto (\<lambda>a. a\<lparr>ac_loss := lw\<rparr>) w) = (r, w2)" by fastforce
  have lw: "window_good lw" using window_good_sample [OF good v] .
  have h: "\<exists>h. warranted_by h now" if lossy: "v = Some True"
  proof -
    obtain h0 where "window_inv (ac_loss (aw_auto w)) h0" using good by (auto simp: window_good_def)
    from sample_inv [OF this v] obtain h where "sampled_ok s now (Some True) lw h" using lossy by auto
    from sampled_verdict [OF this] show ?thesis unfolding warranted_by_def by (intro exI [of _ h]) simp
  qed
  have w2: "aw_auto w2 = (aw_auto w)\<lparr>ac_loss := lw\<rparr>" using rebase_auto [OF r] by simp
  define w3 where "w3 = (if lw_count lw = 0 then on_auto (\<lambda>a. a\<lparr>ac_loss := (ac_loss a)\<lparr>lw_previous := r\<rparr>\<rparr>) w2
    else on_auto (\<lambda>a. a\<lparr>ac_loss := lw\<rparr>) w)"
  have w3: "window_good (ac_loss (aw_auto w3))" "ac_sweep (aw_auto w3) = ac_sweep (aw_auto w)"
    "ac_policy_of (aw_auto w3) = ac_policy_of (aw_auto w)"
    using lw window_good_rebased [OF lw, of r] by (simp_all add: w3_def w2)
  have "(warranted, available', w') = (if ac_diag (aw_auto w3) = AC_POSTCHECK \<and> v \<noteq> None then
           (if v = Some True
            then (False, False, on_auto (\<lambda>a. if auto_channel_decision_valid token a
                    then a\<lparr>interference_latched := True\<rparr> else a) w3)
            else (False, available, on_auto (\<lambda>a. a\<lparr>ac_diag := AC_MONITOR\<rparr>) w3))
         else if ac_diag (aw_auto w3) = AC_MONITOR then
           (v = Some True \<and> cooldown (ac_policy_of (aw_auto w3)) \<le> now, available, w3)
         else (False, available, w3))"
    using j unfolding judge_loss_def Let_def v r prod.case w3_def by simp
  then show ?thesis using w3 h by (simp split: if_splits)
qed

lemma recovery_sweep [simp]: "ac_sweep (aw_auto (recovery_sample env s now w)) = ac_sweep (aw_auto w)"
  by (auto simp: recovery_sample_def Let_def rebase_auto split: prod.splits)

lemma abandon_inactive [simp]: "\<not> sw_active (ac_sweep (abandon a))" "\<not> sw_active (ac_sweep (reset_sweep a))"
  by (simp_all add: abandon_def reset_sweep_def zero_sweep_def Let_def)

lemma evidence_warranted:
  assumes good: "window_good (ac_loss (aw_auto w))"
    and e: "auto_evidence env token now available w = (warranted, available', w')"
  shows "window_good (ac_loss (aw_auto w')) \<and> (sw_active (ac_sweep (aw_auto w')) \<longrightarrow> sw_active (ac_sweep (aw_auto w))) \<and>
    (warranted \<longrightarrow> (\<exists>h. warranted_by h now))"
proof (cases "now < next_evidence (aw_auto w)")
  case True
  then show ?thesis using good e by (simp add: auto_evidence_def)
next
  case False
  define s0 where "s0 = snapshot_of env 1 w"
  define s where "s = s0\<lparr>ls_eligible := ls_eligible s0 \<and> available\<rparr>"
  define w1 where "w1 = on_auto (\<lambda>a. a\<lparr>next_evidence := next_evidence a +
                   ((now - next_evidence a) div AC_EVIDENCE_MS + 1) * AC_EVIDENCE_MS\<rparr>) w"
  define w2 where "w2 = (if AC_EVIDENCE_MS \<le> now - next_evidence (aw_auto w) then on_auto (\<lambda>a.
                    let a1 = a\<lparr>ac_loss := (ac_loss a)\<lparr>lw_valid := False\<rparr>\<rparr>
                    in if ac_diag a1 = AC_WAIT_RECOVERY then a1\<lparr>ac_recovery := s, recovery_seen := 0\<rparr> else a1) w1
                  else w1)"
  have w2: "window_good (ac_loss (aw_auto w2))" "ac_sweep (aw_auto w2) = ac_sweep (aw_auto w)"
    using good window_good_invalid [OF good] by (auto simp: w2_def w1_def Let_def)
  have r: "(warranted, available', w') = (if ac_diag (aw_auto w2) = AC_WAIT_RECOVERY then (False, available, recovery_sample env s now w2)
           else if ac_diag (aw_auto w2) = AC_SCANNING then
             (False, available,
              if \<not> ls_eligible s \<or> ls_cap_pending s \<or> discontinuity (lw_scan_baseline (ac_loss (aw_auto w2))) s
              then on_auto abandon w2 else w2)
           else if ac_diag (aw_auto w2) = AC_POSTCHECK \<and> postcheck_lost s (aw_auto w2) then
             (False, available, on_auto (\<lambda>a. a\<lparr>ac_diag := AC_WAIT_RECOVERY, ac_recovery := s, recovery_seen := 0,
                ac_loss := loss_baseline s now False (ac_loss a)\<rparr>) w2)
           else if ac_diag (aw_auto w2) = AC_WAIT_COMMIT then (False, available, w2)
           else judge_loss env token now s available w2)"
    using e False unfolding auto_evidence_def Let_def s0_def [symmetric] s_def [symmetric] w1_def [symmetric]
      w2_def [symmetric, unfolded Let_def] by simp
  note j = judge_warranted [OF w2(1), of env token now s available]
  show ?thesis
  proof (cases "ac_diag (aw_auto w2) = AC_WAIT_RECOVERY \<or> ac_diag (aw_auto w2) = AC_SCANNING \<or>
      ac_diag (aw_auto w2) = AC_WAIT_COMMIT \<or> ac_diag (aw_auto w2) = AC_POSTCHECK \<and> postcheck_lost s (aw_auto w2)")
    case True
    then show ?thesis
      using r w2 recovery_window [OF w2(1)] stage_window(1) [OF w2(1)] window_good_baseline [OF w2(1)]
      by (auto simp: recovery_sweep abandon_inactive split: if_splits)
  next
    case False
    then have "judge_loss env token now s available w2 = (warranted, available', w')" using r by auto
    from j [OF this] w2(2) show ?thesis by auto
  qed
qed

text \<open>Work that keeps the window and starts no survey.\<close>

definition calm :: "auto_channel \<Rightarrow> auto_channel \<Rightarrow> bool" where
  "calm a b \<longleftrightarrow> (window_good (ac_loss a) \<longrightarrow> window_good (ac_loss b)) \<and>
     (sw_active (ac_sweep b) \<longrightarrow> sw_active (ac_sweep a))"

lemma calm_refl [simp]: "calm a a"
  by (simp add: calm_def)

lemma calm_trans: "calm a b \<Longrightarrow> calm b c \<Longrightarrow> calm a c"
  by (simp add: calm_def)

lemma calm_same: "ac_loss b = ac_loss a \<Longrightarrow> sw_active (ac_sweep b) = sw_active (ac_sweep a) \<Longrightarrow> calm a b"
  by (simp add: calm_def)

lemma calm_abandon: "calm a (abandon a)"
  using stage_window(1) by (simp add: calm_def)

lemma shuffle_active [simp]: "sw_active (ac_sweep (shuffle_sweep h a)) = sw_active (ac_sweep a)"
  by (simp add: shuffle_sweep_def Let_def split: prod.split)

lemma calm_shuffle: "calm a (shuffle_sweep h a)"
  by (rule calm_same) simp_all

lemma calm_between: "bystander f \<Longrightarrow> calm (aw_auto w) (aw_auto (f w))"
  by (rule calm_same) (simp_all add: bystander_fields)

lemma calm_send: "send_beacon env home w = (err, acts, w') \<Longrightarrow> calm (aw_auto w) (aw_auto w')"
  by (rule calm_same) (auto simp: send_beacon_def Let_def split: prod.splits)

lemma calm_note: "calm a (note_energy ch o1 a)"
  by (rule calm_same) (simp_all add: note_energy_def Let_def)

lemma calm_visit: "visit_channel env w = (err, acts, w') \<Longrightarrow> calm (aw_auto w) (aw_auto w')"
  by (rule calm_same) (auto simp: visit_channel_def note_energy_def Let_def split: prod.splits sum.splits if_splits)

lemma calm_restore: "restore env w = (err, w') \<Longrightarrow> calm (aw_auto w) (aw_auto w')"
  by (rule calm_same) (auto simp: restore_def Let_def split: prod.splits if_splits)

lemma calm_confirm:
  assumes "begin_confirmation home now a = (b, a')"
  shows "calm a a'"
proof -
  obtain scores finalists chosen where f: "finalists_loop (ac_policy_of a) home now 3
      (ac_scores a, sw_finalists (ac_sweep a), []) = (scores, finalists, chosen)" by (metis prod_cases3)
  show ?thesis
  proof (cases "chosen = []")
    case True
    then show ?thesis using assms by (auto simp: begin_confirmation_def f Let_def calm_def)
  next
    case False
    then show ?thesis using assms by (auto simp: begin_confirmation_def f Let_def calm_def)
  qed
qed

lemma calm_decide:
  assumes "bystander (ae_between env 5)" and d: "decide env home token complete expired w = (acts, w')"
  shows "calm (aw_auto w) (aw_auto w')"
proof -
  define a where "a = aw_auto w"
  define target where "target = (if complete \<and> \<not> expired \<and> sw_confirming (ac_sweep a)
            then ac_choose (ac_policy_of a) home (ac_scores a) (ae_clock env 4) else None)"
  note D = d [unfolded decide_def Let_def a_def [symmetric], folded target_def]
  show ?thesis
  proof (cases target)
    case None
    then have "ac_loss (aw_auto w') = (ac_loss a)\<lparr>lw_valid := False\<rparr>" "\<not> sw_active (ac_sweep (aw_auto w'))"
      using D by (auto simp: a_def reset_sweep_def zero_sweep_def)
    then show ?thesis using window_good_invalid by (simp add: calm_def a_def)
  next
    case (Some ch)
    then have "ac_loss (aw_auto w') = (ac_loss a)\<lparr>lw_valid := False\<rparr>" "\<not> sw_active (ac_sweep (aw_auto w'))"
      using D by (auto simp: a_def reset_sweep_def zero_sweep_def bystander_fields [OF assms(1)] split: prod.splits if_splits)
    then show ?thesis using window_good_invalid by (simp add: calm_def a_def)
  qed
qed

lemma calm_end_round:
  assumes b: "bystander (ae_between env 5)" and r: "end_round env home token expired w = (acts, w')"
  shows "calm (aw_auto w) (aw_auto w')"
proof -
  define w1 where "w1 = on_auto (\<lambda>a. a\<lparr>ac_sweep := (ac_sweep a)\<lparr>sw_candidate := 0, sw_rounds := sw_rounds (ac_sweep a) + 1\<rparr>\<rparr>) w"
  have c1: "calm (aw_auto w) (aw_auto w1)" by (rule calm_same) (simp_all add: w1_def)
  define complete where "complete = survey_complete (aw_auto w1) (unat home)"
  obtain confirms a1 where q: "(if complete \<and> \<not> expired \<and> \<not> sw_confirming (ac_sweep (aw_auto w1))
            then begin_confirmation home (ae_clock env 3) (aw_auto w1) else (False, aw_auto w1)) = (confirms, a1)" by fastforce
  have c2: "calm (aw_auto w1) a1" using q calm_confirm by (auto split: if_splits)
  have r': "(if confirms then ([], w1\<lparr>aw_auto := a1\<rparr>)
         else if complete \<or> attempts_exhausted (aw_auto w1) (unat home) \<or> expired
         then decide env home token complete expired (w1\<lparr>aw_auto := a1\<rparr>)
         else ([], on_auto (shuffle_sweep (unat home)) w1)) = (acts, w')"
    using r unfolding end_round_def Let_def w1_def [symmetric] complete_def [symmetric] q prod.case .
  have c3: "calm (aw_auto w1) (aw_auto x)" if "decide env home token complete expired (w1\<lparr>aw_auto := a1\<rparr>) = (as, x)" for as x
    using calm_trans [OF c2] calm_decide [OF b that] by simp
  consider "w' = w1\<lparr>aw_auto := a1\<rparr>" | "decide env home token complete expired (w1\<lparr>aw_auto := a1\<rparr>) = (acts, w')"
    | "w' = on_auto (shuffle_sweep (unat home)) w1"
    using r' by (metis Pair_inject)
  then have "calm (aw_auto w1) (aw_auto w')"
    by cases (use c2 c3 calm_shuffle in auto)
  then show ?thesis using c1 calm_trans by blast
qed

lemma calm_finish:
  assumes b: "bystander (ae_between env 5)" and r: "finish_visit env home token w = (acts, w')"
  shows "calm (aw_auto w) (aw_auto w')"
proof -
  define w1 where "w1 = on_auto (\<lambda>a. let (r, a1) = random_next a in a1\<lparr>next_scan := ae_clock env 1 + 40 + uint (r mod 21),
                ac_sweep := (ac_sweep a1)\<lparr>sw_candidate := sw_candidate (ac_sweep a1) + 1\<rparr>\<rparr>) w"
  have c1: "calm (aw_auto w) (aw_auto w1)" by (rule calm_same) (simp_all add: w1_def random_next_def Let_def)
  have "w' = w1 \<or> (\<exists>e. end_round env home token e w1 = (acts, w'))"
    using r unfolding finish_visit_def Let_def w1_def [symmetric, unfolded Let_def] by (simp split: if_splits) blast
  then have "calm (aw_auto w1) (aw_auto w')" using calm_end_round [OF b] by auto
  then show ?thesis using c1 calm_trans by blast
qed

lemma calm_radio:
  assumes b: "\<And>i. bystander (ae_between env i)"
    and r: "auto_radio env home token beacon_due scan_due w = (good, acts, w')"
  shows "calm (aw_auto w) (aw_auto w')"
proof -
  obtain err0 u where s: "esb_radio_operation_stop (ae_driver env) (aw_unit w) = (err0, u)" by fastforce
  obtain err1 acts1 w1 where q1: "(if err0 = None \<and> beacon_due then send_beacon env home (w\<lparr>aw_unit := u\<rparr>)
      else (err0, [], w\<lparr>aw_unit := u\<rparr>)) = (err1, acts1, w1)" by (metis prod_cases3)
  define w1' where "w1' = ae_between env 3 w1"
  obtain err2 acts2 w2 where q2: "(if err1 = None \<and> scan_due \<and> auto_channel_decision_valid token (aw_auto w1') \<and>
      effective_channel (ae_default env) w1' = home then visit_channel env w1' else (err1, [], w1')) = (err2, acts2, w2)"
    by (metis prod_cases3)
  obtain restored w3 where q3: "restore env w2 = (restored, w3)" by fastforce
  define w4 where "w4 = (if ac_radio_fault (aw_auto w3) then w3 else on_esb esb_radio_operation_end w3)"
  have w': "w' = ae_between env 4 w4"
    using r unfolding auto_radio_def s Let_def prod.case q1 w1'_def [symmetric] q2 q3 w4_def [symmetric] by simp
  have "calm (aw_auto w) (aw_auto w1)" using q1 calm_send [of env home "w\<lparr>aw_unit := u\<rparr>"] by (auto split: if_splits)
  moreover have "calm (aw_auto w1) (aw_auto w1')" unfolding w1'_def by (rule calm_between [OF b])
  moreover have "calm (aw_auto w1') (aw_auto w2)" using q2 calm_visit by (auto split: if_splits)
  moreover have "calm (aw_auto w2) (aw_auto w3)" by (rule calm_restore [OF q3])
  moreover have "calm (aw_auto w3) (aw_auto w4)" by (simp add: w4_def)
  moreover have "calm (aw_auto w4) (aw_auto w')" unfolding w' by (rule calm_between [OF b])
  ultimately show ?thesis using calm_trans by blast
qed

text \<open>A stage may start a survey only when the evidence warranted one.\<close>

definition follows :: "bool \<Rightarrow> auto_channel \<Rightarrow> auto_channel \<Rightarrow> bool" where
  "follows start a b \<longleftrightarrow> (window_good (ac_loss a) \<longrightarrow> window_good (ac_loss b)) \<and>
     (sw_active (ac_sweep b) \<longrightarrow> sw_active (ac_sweep a) \<or> start)"

lemma follows_calm: "calm a b \<Longrightarrow> follows start a b"
  by (simp add: calm_def follows_def)

lemma follows_trans: "follows start a b \<Longrightarrow> calm b c \<Longrightarrow> follows start a c"
  by (auto simp: calm_def follows_def)

lemma follows_start: "follows start a (if start then start_survey home now a else a)"
  using stage_window(4) by (simp add: follows_def)

lemma operation_follows:
  assumes b: "\<And>i. bystander (ae_between env i)"
    and r: "auto_operation env home token now beacon_due scan_due start w = (acts, w')"
  shows "follows start (aw_auto w) (aw_auto w')"
proof -
  define w1 where "w1 = ae_between env 1 w"
  define w2 where "w2 = (if start then on_auto (start_survey home now) w1 else w1)"
  define w3 where "w3 = ae_between env 2 (if scan_due then on_auto (\<lambda>a. snd (random_next a)) w2 else w2)"
  obtain good acts1 w4 where q: "auto_radio env home token beacon_due scan_due w3 = (good, acts1, w4)" by (metis prod_cases3)
  have f1: "follows start (aw_auto w) (aw_auto w1)" unfolding w1_def by (rule follows_calm [OF calm_between [OF b]])
  have "follows start (aw_auto w1) (aw_auto w2)" using follows_start [of start "aw_auto w1" home now] by (simp add: w2_def split: if_splits)
  then have f2: "follows start (aw_auto w) (aw_auto w2)" using f1 by (auto simp: follows_def)
  have "calm (aw_auto w2) (aw_auto (if scan_due then on_auto (\<lambda>a. snd (random_next a)) w2 else w2))"
    by (rule calm_same) (simp_all add: random_next_def Let_def)
  then have f3: "follows start (aw_auto w) (aw_auto w3)"
    unfolding w3_def using follows_trans [OF follows_trans [OF f2] calm_between [OF b]] by blast
  have f4: "follows start (aw_auto w) (aw_auto w4)" using follows_trans [OF f3 calm_radio [OF b q]] .
  have "(if \<not> auto_ready env home token w1 then ([], on_esb esb_radio_operation_end (on_auto abandon w1))
         else if \<not> beacon_due \<and> \<not> scan_due then ([], on_esb esb_radio_operation_end w2)
         else if \<not> auto_ready env home token w3 then ([], on_esb esb_radio_operation_end (on_auto abandon w3))
         else if \<not> good then (acts1, on_auto abandon w4)
         else if scan_due then (let (more, w5) = finish_visit env home token w4 in (acts1 @ more, w5))
         else (acts1, w4)) = (acts, w')"
    using r unfolding auto_operation_def w1_def [symmetric] Let_def w2_def [symmetric] w3_def [symmetric] q prod.case by simp
  then show ?thesis
    using follows_trans [OF f1 calm_abandon] follows_trans [OF f3 calm_abandon] follows_trans [OF f4 calm_abandon]
      f2 f4 follows_trans [OF f4 calm_finish [OF b]]
    by (auto split: if_splits prod.splits)
qed

lemma action_follows:
  assumes b: "\<And>i. bystander (ae_between env i)"
    and r: "auto_action_stage env home token now qualified available beacon_due w = (acts, w')"
  shows "follows qualified (aw_auto w) (aw_auto w')"
proof -
  define start where "start \<longleftrightarrow> qualified \<and> \<not> sw_active (ac_sweep (aw_auto w))"
  obtain err e where q: "esb_radio_operation_begin (ae_peers env 2) (ru_esb (aw_unit w)) = (err, e)" by fastforce
  consider "aw_auto w' = aw_auto w" | "aw_auto w' = abandon (aw_auto w)"
    | scan_due where "auto_operation env home token now beacon_due scan_due start (on_esb (\<lambda>_. e) w) = (acts, w')"
    using r unfolding auto_action_stage_def Let_def q start_def [symmetric]
    by (auto split: if_splits option.splits)
  then show ?thesis
  proof cases
    case 1
    then show ?thesis by (simp add: follows_def)
  next
    case 2
    then show ?thesis using follows_calm [OF calm_abandon] by simp
  next
    case 3
    from operation_follows [OF b 3] show ?thesis by (auto simp: follows_def start_def)
  qed
qed

lemma begin_inactive:
  "sw_active (ac_sweep (aw_auto (auto_begin env home token now w))) \<Longrightarrow> sw_active (ac_sweep (aw_auto w))"
  by (auto simp: auto_begin_def Let_def step_intake_def step_completion_def step_changed_def next_pause_def random_next_def
      reset_sweep_def zero_sweep_def split: if_splits)



end
