(* ===== verification/AutoChannelRadio.thy ===== *)
theory AutoChannelRadio
  imports AutoChannelCorrect
begin

text \<open>
  What a step of the worker leaves behind: the radio listening on the home channel again and the gate of the radio free,
  unless a fault is recorded or a migration that the worker requested is pending.
\<close>

section \<open>What the stages leave alone\<close>

definition radio_view :: "'r auto_world \<Rightarrow> 'r \<times> bool \<times> bool \<times> bool \<times> bool" where
  "radio_view w = (ru_radio (aw_unit w), radio_operation_busy (ru_esb (aw_unit w)), esb_radio_fault (ru_esb (aw_unit w)),
     channel_change_pending (ru_esb (aw_unit w)), ac_radio_fault (aw_auto w))"

text \<open>The radio listens or a fault is recorded; and a gate that is held is held for a fault or a migration.\<close>

definition settled :: "('r \<Rightarrow> bool) \<Rightarrow> 'r auto_world \<Rightarrow> bool" where
  "settled listens w \<longleftrightarrow> (listens (ru_radio (aw_unit w)) \<or> ac_radio_fault (aw_auto w)) \<and>
     (radio_operation_busy (ru_esb (aw_unit w)) \<longrightarrow>
        esb_radio_fault (ru_esb (aw_unit w)) \<or> channel_change_pending (ru_esb (aw_unit w)) \<or> ac_radio_fault (aw_auto w))"

lemma settled_view: "radio_view w = radio_view w' \<Longrightarrow> settled l w = settled l w'"
  by (simp add: radio_view_def settled_def)

lemma view_auto: "ac_radio_fault (f (aw_auto w)) = ac_radio_fault (aw_auto w) \<Longrightarrow> radio_view (on_auto f w) = radio_view w"
  by (simp add: radio_view_def)

lemma stage_fault [simp]:
  "ac_radio_fault (abandon a) = ac_radio_fault a" "ac_radio_fault (next_pause now a) = ac_radio_fault a"
  "ac_radio_fault (reset_sweep a) = ac_radio_fault a" "ac_radio_fault (shuffle_sweep h a) = ac_radio_fault a"
  "ac_radio_fault (start_survey home now a) = ac_radio_fault a" "ac_radio_fault (snd (random_next a)) = ac_radio_fault a"
  "ac_radio_fault (note_energy ch o1 a) = ac_radio_fault a"
  "ac_radio_fault (step_intake home token now a) = ac_radio_fault a"
  "ac_radio_fault (step_completion c d result token now s a) = ac_radio_fault a"
  "ac_radio_fault (step_changed c home token now a) = ac_radio_fault a"
  by (simp_all add: abandon_def reset_sweep_def next_pause_def random_next_def shuffle_sweep_def start_survey_def
      note_energy_def step_intake_def step_completion_def step_changed_def Let_def split: prod.split)

lemma begin_view: "radio_view (auto_begin env home token now w) = radio_view w"
  by (simp add: auto_begin_def Let_def view_auto)

lemma rebase_view: "rebase env i w = (r, w') \<Longrightarrow> radio_view w' = radio_view w"
  by (auto simp: rebase_def esb_auto_loss_rebase_def esb_auto_loss_fence_def Let_def radio_view_def split: prod.splits)

lemma recovery_view: "radio_view (recovery_sample env s now w) = radio_view w"
  by (auto simp: recovery_sample_def Let_def radio_view_def dest!: rebase_view split: prod.splits)

lemma judge_view: "judge_loss env token now s available w = (q, available', w') \<Longrightarrow> radio_view w' = radio_view w"
  by (auto simp: judge_loss_def Let_def radio_view_def dest!: rebase_view split: prod.splits if_splits)

lemma evidence_view:
  assumes "auto_evidence env token now available w = (q, available', w')"
  shows "radio_view w' = radio_view w"
proof -
  have "radio_view w' = radio_view x" if "judge_loss env token now s available x = (q, available', w')" for s x
    using judge_view [OF that] .
  then show ?thesis
    using assms unfolding auto_evidence_def Let_def
    by (auto simp: recovery_view view_auto split: if_splits simp del: One_nat_def)
qed

text \<open>A migration request takes the gate exactly when it is accepted, and then it is pending.\<close>

lemma begin_busy:
  assumes "radio_operation_begin p c st = (err, st1)"
  shows "radio_operation_busy st1 = (radio_operation_busy st \<or> err = None)" "esb_radio_fault st1 = esb_radio_fault st"
    "channel_change_pending st1 = channel_change_pending st" "err = None \<Longrightarrow> \<not> esb_radio_fault st"
  using assms by (auto simp: radio_operation_begin_def Let_def split: if_splits)

lemma request_busy:
  assumes "esb_auto_channel_request d p channel home generation valid now st = (err, acts, st1)"
  shows "radio_operation_busy st1 \<longrightarrow> radio_operation_busy st \<or> channel_change_pending st1"
    "esb_radio_fault st1 = esb_radio_fault st" "channel_change_pending st \<longrightarrow> channel_change_pending st1"
  using assms
  by (auto simp: esb_auto_channel_request_def channel_change_begin_def esb_radio_operation_begin_def Let_def
      esb_radio_operation_end_def esb_auto_loss_invalidate_def dest: begin_busy split: prod.splits option.splits if_splits)

section \<open>The stages that hold the radio\<close>

lemma settled_auto: "ac_radio_fault (f (aw_auto w)) = ac_radio_fault (aw_auto w) \<Longrightarrow> settled l (on_auto f w) = settled l w"
  by (rule settled_view) (rule view_auto)

lemma settled_end: "listens (ru_radio (aw_unit w)) \<Longrightarrow> settled listens (on_esb esb_radio_operation_end w)"
  by (simp add: settled_def esb_radio_operation_end_def)

lemma decide_settled:
  assumes b: "\<And>x. radio_view (ae_between env 5 x) = radio_view x"
    and s: "settled l w" and d: "decide env home token complete expired w = (acts, w')"
  shows "settled l w'"
proof -
  define a where "a = aw_auto w"
  define target where "target = (if complete \<and> \<not> expired \<and> sw_confirming (ac_sweep a)
            then ac_choose (ac_policy_of a) home (ac_scores a) (ae_clock env 4) else None)"
  note D = d [unfolded decide_def Let_def a_def [symmetric], folded target_def]
  show ?thesis
  proof (cases target)
    case None
    then show ?thesis using D s by (auto simp: settled_auto)
  next
    case (Some ch)
    have step: "settled l (on_auto g (w2\<lparr>aw_unit := (aw_unit w2)\<lparr>ru_esb := e\<rparr>\<rparr>))"
      if "settled l w2" "esb_auto_channel_request (ae_default env) p c h t v n (ru_esb (aw_unit w2)) = (err, as, e)"
        "\<And>a. ac_radio_fault (g a) = ac_radio_fault a" for g w2 e p c h t v n err as
      using that(1) request_busy [OF that(2)] that(3) by (auto simp: settled_def)
    have keep: "settled l (w2\<lparr>aw_unit := (aw_unit w2)\<lparr>ru_esb := e\<rparr>\<rparr>)"
      if "settled l w2" "esb_auto_channel_request (ae_default env) p c h t v n (ru_esb (aw_unit w2)) = (err, as, e)"
      for w2 e p c h t v n err as
      using step [OF that, of id] by (simp add: on_auto_def)
    have "settled l (ae_between env 5 x)" if "settled l x" for x using that settled_view [OF b] by blast
    then show ?thesis using D Some s step keep by (auto simp: settled_auto split: prod.splits if_splits)
  qed
qed

lemma confirm_fault: "begin_confirmation home now a = (b, a') \<Longrightarrow> ac_radio_fault a' = ac_radio_fault a"
  by (auto simp: begin_confirmation_def Let_def simp del: finalists_loop.simps split: prod.splits if_splits)

lemma end_round_settled:
  assumes b: "\<And>x. radio_view (ae_between env 5 x) = radio_view x"
    and s: "settled l w" and r: "end_round env home token expired w = (acts, w')"
  shows "settled l w'"
proof -
  define w1 where "w1 = on_auto (\<lambda>a. a\<lparr>ac_sweep := (ac_sweep a)\<lparr>sw_candidate := 0, sw_rounds := sw_rounds (ac_sweep a) + 1\<rparr>\<rparr>) w"
  have s1: "settled l w1" using s by (simp add: w1_def settled_auto)
  define complete where "complete = survey_complete (aw_auto w1) (unat home)"
  obtain confirms a1 where q: "(if complete \<and> \<not> expired \<and> \<not> sw_confirming (ac_sweep (aw_auto w1))
            then begin_confirmation home (ae_clock env 3) (aw_auto w1) else (False, aw_auto w1)) = (confirms, a1)" by fastforce
  have f: "ac_radio_fault a1 = ac_radio_fault (aw_auto w1)" using q confirm_fault by (auto split: if_splits)
  have s2: "settled l (w1\<lparr>aw_auto := a1\<rparr>)"
    using s1 settled_auto [of "\<lambda>_. a1" w1 l] f by (simp add: on_auto_def)
  have r': "(if confirms then ([], w1\<lparr>aw_auto := a1\<rparr>)
         else if complete \<or> attempts_exhausted (aw_auto w1) (unat home) \<or> expired
         then decide env home token complete expired (w1\<lparr>aw_auto := a1\<rparr>)
         else ([], on_auto (shuffle_sweep (unat home)) w1)) = (acts, w')"
    using r unfolding end_round_def Let_def w1_def [symmetric] complete_def [symmetric] q prod.case .
  consider "w' = w1\<lparr>aw_auto := a1\<rparr>" | "decide env home token complete expired (w1\<lparr>aw_auto := a1\<rparr>) = (acts, w')"
    | "w' = on_auto (shuffle_sweep (unat home)) w1"
    using r' by (metis Pair_inject)
  then show ?thesis
    by cases (use s1 s2 decide_settled [OF b s2] in \<open>auto simp: settled_auto\<close>)
qed

lemma finish_settled:
  assumes b: "\<And>x. radio_view (ae_between env 5 x) = radio_view x"
    and s: "settled l w" and r: "finish_visit env home token w = (acts, w')"
  shows "settled l w'"
proof -
  define w1 where "w1 = on_auto (\<lambda>a. let (r, a1) = random_next a in a1\<lparr>next_scan := ae_clock env 1 + 40 + uint (r mod 21),
                ac_sweep := (ac_sweep a1)\<lparr>sw_candidate := sw_candidate (ac_sweep a1) + 1\<rparr>\<rparr>) w"
  have s1: "settled l w1" using s by (simp add: w1_def settled_auto random_next_def Let_def)
  have "w' = w1 \<or> (\<exists>e. end_round env home token e w1 = (acts, w'))"
    using r unfolding finish_visit_def Let_def w1_def [symmetric, unfolded Let_def] by (simp split: if_splits) blast
  then show ?thesis using s1 end_round_settled [OF b s1] by auto
qed

text \<open>The law of the driver: after a successful start of reception the radio listens.\<close>

definition rx_law :: "'r driver \<Rightarrow> ('r \<Rightarrow> bool) \<Rightarrow> bool" where
  "rx_law d listens \<longleftrightarrow> (\<forall>r r'. drv_start_rx d r = (None, r') \<longrightarrow> listens r')"

lemma restore_listens:
  assumes law: "rx_law (ae_driver env) listens" and r: "restore env w = (err, w')"
  shows "(if err = None then listens (ru_radio (aw_unit w')) else ac_radio_fault (aw_auto w'))"
  using law r by (auto simp: restore_def Let_def rx_law_def on_success_def drive_def split: prod.splits if_splits option.splits)

lemma restored_settled:
  assumes law: "rx_law (ae_driver env) listens" and r: "restore env w = (err, w')"
  shows "settled listens (if ac_radio_fault (aw_auto w') then w' else on_esb esb_radio_operation_end w')"
  using restore_listens [OF law r] settled_end [of listens w'] by (auto simp: settled_def split: if_splits)

lemma radio_settled:
  assumes law: "rx_law (ae_driver env) listens" and b: "\<And>i x. radio_view (ae_between env i x) = radio_view x"
    and r: "auto_radio env home token beacon_due scan_due w = (good, acts, w')"
  shows "settled listens w'"
proof -
  obtain err0 u where s: "esb_radio_operation_stop (ae_driver env) (aw_unit w) = (err0, u)" by fastforce
  obtain err1 acts1 w1 where q1: "(if err0 = None \<and> beacon_due then send_beacon env home (w\<lparr>aw_unit := u\<rparr>)
      else (err0, [], w\<lparr>aw_unit := u\<rparr>)) = (err1, acts1, w1)" by (metis prod_cases3)
  define w1' where "w1' = ae_between env 3 w1"
  obtain err2 acts2 w2 where q2: "(if err1 = None \<and> scan_due \<and> auto_channel_decision_valid token (aw_auto w1') \<and>
      effective_channel (ae_default env) w1' = home then visit_channel env w1' else (err1, [], w1')) = (err2, acts2, w2)"
    by (metis prod_cases3)
  obtain restored w3 where q3: "restore env w2 = (restored, w3)" by fastforce
  define w4 where "w4 = (if ac_radio_fault (aw_auto w3) then w3 else on_esb esb_radio_operation_end w3)"
  have w': "w' = ae_between env 4 w4"
    using r unfolding auto_radio_def s Let_def prod.case q1 w1'_def [symmetric] q2 q3 w4_def [symmetric] by simp
  show ?thesis using restored_settled [OF law q3] settled_view [OF b] unfolding w' w4_def by blast
qed

text \<open>With the gate just taken: the radio listens still, and every way out gives the gate back.\<close>

lemma operation_settled:
  assumes law: "rx_law (ae_driver env) listens" and b: "\<And>i x. radio_view (ae_between env i x) = radio_view x"
    and l: "listens (ru_radio (aw_unit w))"
    and r: "auto_operation env home token now beacon_due scan_due start w = (acts, w')"
  shows "settled listens w'"
proof -
  define w1 where "w1 = ae_between env 1 w"
  define w2 where "w2 = (if start then on_auto (start_survey home now) w1 else w1)"
  define w3 where "w3 = ae_between env 2 (if scan_due then on_auto (\<lambda>a. snd (random_next a)) w2 else w2)"
  obtain good acts1 w4 where q: "auto_radio env home token beacon_due scan_due w3 = (good, acts1, w4)" by (metis prod_cases3)
  have radio: "ru_radio (aw_unit (ae_between env i x)) = ru_radio (aw_unit x)" for i x
    using b [of i x] by (simp add: radio_view_def)
  have l1: "listens (ru_radio (aw_unit w1))" "listens (ru_radio (aw_unit w2))" "listens (ru_radio (aw_unit w3))"
    using l radio by (auto simp: w1_def w2_def w3_def)
  have s4: "settled listens w4" using radio_settled [OF law b q] .
  have "(if \<not> auto_ready env home token w1 then ([], on_esb esb_radio_operation_end (on_auto abandon w1))
         else if \<not> beacon_due \<and> \<not> scan_due then ([], on_esb esb_radio_operation_end w2)
         else if \<not> auto_ready env home token w3 then ([], on_esb esb_radio_operation_end (on_auto abandon w3))
         else if \<not> good then (acts1, on_auto abandon w4)
         else if scan_due then (let (more, w5) = finish_visit env home token w4 in (acts1 @ more, w5))
         else (acts1, w4)) = (acts, w')"
    using r unfolding auto_operation_def w1_def [symmetric] Let_def w2_def [symmetric] w3_def [symmetric] q prod.case by simp
  then show ?thesis
    using l1 s4 finish_settled [OF b s4] settled_end [of listens] by (auto simp: settled_auto split: if_splits prod.splits)
qed

lemma action_settled:
  assumes law: "rx_law (ae_driver env) listens" and b: "\<And>i x. radio_view (ae_between env i x) = radio_view x"
    and l: "listens (ru_radio (aw_unit w))" and s: "settled listens w"
    and r: "auto_action_stage env home token now qualified available beacon_due w = (acts, w')"
  shows "settled listens w'"
proof -
  define start where "start \<longleftrightarrow> qualified \<and> \<not> sw_active (ac_sweep (aw_auto w))"
  obtain err e where q: "esb_radio_operation_begin (ae_peers env 2) (ru_esb (aw_unit w)) = (err, e)" by fastforce
  note e = begin_busy [OF q [unfolded esb_radio_operation_begin_def]]
  consider "w' = w" | "err \<noteq> None" "w' = on_auto abandon (on_esb (\<lambda>_. e) w)"
    | scan_due where "auto_operation env home token now beacon_due scan_due start (on_esb (\<lambda>_. e) w) = (acts, w')"
    using r unfolding auto_action_stage_def Let_def q start_def [symmetric] by (auto split: if_splits option.splits)
  then show ?thesis
  proof cases
    case 1
    then show ?thesis using s by simp
  next
    case 2
    then show ?thesis using s e by (auto simp: settled_auto settled_def)
  next
    case 3
    from operation_settled [OF law b _ 3] l show ?thesis by simp
  qed
qed

text \<open>
  Claim C15. The worker gives the radio back. It takes the radio off the air for a beacon or for a look at another channel,
  and every call into the radio may fail in between. After a step the radio listens again
  (what the start of reception establishes) or the fault is recorded that stops the avoidance for good, and the gate that keeps the radio for one
  user is free again unless it is held for such a fault or for the migration that the step just requested.
\<close>

theorem auto_radio_returned:
  assumes law: "rx_law (ae_driver env) listens" and others: "\<And>i x. radio_view (ae_between env i x) = radio_view x"
    and before: "listens (ru_radio (aw_unit w))" "\<not> radio_operation_busy (ru_esb (aw_unit w))"
    and step: "auto_step env w = (deadline, acts, w')"
  shows "(listens (ru_radio (aw_unit w')) \<or> ac_radio_fault (aw_auto w')) \<and>
    (radio_operation_busy (ru_esb (aw_unit w')) \<longrightarrow>
       esb_radio_fault (ru_esb (aw_unit w')) \<or> channel_change_pending (ru_esb (aw_unit w')) \<or> ac_radio_fault (aw_auto w'))"
proof -
  define now where "now = ae_clock env 0"
  define home where "home = effective_channel (ae_default env) w"
  define token where "token = auto_channel_generation (aw_auto w)"
  define w1 where "w1 = ae_between env 0 (auto_begin env home token now w)"
  define available where "available \<longleftrightarrow> auto_channel_decision_valid token (aw_auto w1) \<and> \<not> esb_pairing_is_active (ru_esb (aw_unit w1))"
  obtain warranted available2 w2 where e: "auto_evidence env token now available w1 = (warranted, available2, w2)"
    by (metis prod_cases3)
  define w3 where "w3 = (if available2 then w2 else on_auto abandon w2)"
  define beacon_due where "beacon_due \<longleftrightarrow> next_beacon (aw_auto w3) \<le> now"
  obtain acts' w4 where q: "auto_action_stage env home token now warranted available2 beacon_due w3 = (acts', w4)" by fastforce
  have w': "w' = (if beacon_due then on_auto (next_pause (ae_clock env 7)) w4 else w4)"
    using step unfolding auto_step_def Let_def now_def [symmetric] home_def [symmetric] token_def [symmetric] w1_def [symmetric]
      available_def [symmetric] e prod.case w3_def [symmetric] beacon_due_def [symmetric] q by simp
  have "radio_view w1 = radio_view w" by (simp add: w1_def others begin_view)
  then have "radio_view w2 = radio_view w" using evidence_view [OF e] by simp
  then have "radio_view w3 = radio_view w" by (simp add: w3_def view_auto)
  then have 3: "listens (ru_radio (aw_unit w3))" "settled listens w3"
    using before by (simp_all add: radio_view_def settled_def)
  have "settled listens w4" by (rule action_settled [OF law others 3 q])
  then have "settled listens w'" by (simp add: w' settled_auto)
  then show ?thesis by (simp add: settled_def)
qed

theorem auto_radio_returned_witness:
  "let w' = snd (snd (auto_step new_env new_world))
   in ru_radio (aw_unit w') \<or> ac_radio_fault (aw_auto w')"
proof -
  have "rx_law (ae_driver new_env) (\<lambda>r. r)" by (simp add: rx_law_def new_env_def obedient_driver_def)
  moreover have "radio_view (ae_between new_env i x) = radio_view x" for i x by (simp add: new_env_def)
  moreover have "ru_radio (aw_unit new_world)" "\<not> radio_operation_busy (ru_esb (aw_unit new_world))"
    by (simp_all add: new_world_def idle_esb_def)
  moreover have "auto_step new_env new_world = (fst (auto_step new_env new_world),
      fst (snd (auto_step new_env new_world)), snd (snd (auto_step new_env new_world)))" by simp
  ultimately show ?thesis using auto_radio_returned [of new_env "\<lambda>r. r" new_world] by (metis (full_types))
qed

end
