(* ===== verification/AutoChannelStatus.thy ===== *)
theory AutoChannelStatus
  imports AutoChannel
begin

text \<open>
  What the automatic channel choice tells about itself: the snapshot that the worker publishes at the end of a step, the
  empty one that a switch publishes at once, and the status line. The texts are the code's; the reason text of a
  decision is left out, as in the decision record.
\<close>

record peer_status =
  ps_identity :: bytes
  ps_home :: u8
  ps_observations :: u8
  ps_sequence :: u16
  ps_last_seen :: int
  ps_fresh :: bool

record auto_snapshot =
  sn_initialized :: bool
  sn_enabled :: bool
  sn_interference_latched :: bool
  sn_radio_fault :: bool
  sn_entropy_fault :: bool
  sn_pairing :: bool
  sn_table_full :: bool
  sn_identity :: bytes
  sn_home :: u8
  sn_generation :: u32
  sn_tx_attempts :: u32
  sn_tx_completed :: u32
  sn_required_mask :: u32
  sn_ready_mask :: u32
  sn_recovered_mask :: u32
  sn_layout_epoch :: u8
  sn_cap_pending :: bool
  sn_now :: int
  sn_phase :: string
  sn_excluded :: u64
  sn_peers :: "peer_status list"
  sn_decision :: ac_decision

definition phase_text :: "auto_channel \<Rightarrow> string" where
  "phase_text a =
     (if ac_diag a = AC_SCANNING \<and> sw_confirming (ac_sweep a) then ''confirming finalists''
      else case ac_diag a of AC_MONITOR \<Rightarrow> ''monitor'' | AC_SCANNING \<Rightarrow> ''scanning'' | AC_WAIT_COMMIT \<Rightarrow> ''wait-commit''
        | AC_WAIT_RECOVERY \<Rightarrow> ''wait-recovery'' | AC_POSTCHECK \<Rightarrow> ''postcheck'')"

definition peer_status_of :: "int \<Rightarrow> ac_peer \<Rightarrow> peer_status" where
  "peer_status_of now q = \<lparr>ps_identity = peer_id q, ps_home = peer_channel q, ps_observations = AutoChannelPolicy.observations q,
     ps_sequence = peer_sequence q, ps_last_seen = seen_at q,
     ps_fresh = (seen_at q \<le> now \<and> now - seen_at q < AC_EXPIRY_MS)\<rparr>"

definition status_next :: "'r auto_env \<Rightarrow> u8 \<Rightarrow> u32 \<Rightarrow> 'r auto_world \<Rightarrow> auto_snapshot" where
  "status_next env home token w =
     (let a = aw_auto w; now = ae_clock env 8; s = snapshot_of env 4 w;
          ps = map (peer_status_of now) (filter (\<lambda>q. AutoChannelPolicy.observations q \<noteq> 0) (peers (ac_policy_of a)))
      in \<lparr>sn_initialized = ac_initialized a, sn_enabled = ac_enabled a, sn_interference_latched = interference_latched a,
          sn_radio_fault = ac_radio_fault a, sn_entropy_fault = entropy_fault a,
          sn_pairing = esb_pairing_is_active (ru_esb (aw_unit w)), sn_table_full = (length (filter ps_fresh ps) = AC_PEERS),
          sn_identity = receiver_identity a, sn_home = home, sn_generation = token, sn_tx_attempts = tx_attempts a,
          sn_tx_completed = tx_completed a, sn_required_mask = migration_mask a, sn_ready_mask = ls_ready_mask s,
          sn_recovered_mask = recovery_seen a, sn_layout_epoch = ls_layout_epoch s, sn_cap_pending = ls_cap_pending s,
          sn_now = now, sn_phase = phase_text a,
          sn_excluded = fold (\<lambda>ch m. if ac_occupied (ac_policy_of a) (of_nat ch) now then set_bit (ch div 2) m else m)
            auto_destinations 0,
          sn_peers = ps, sn_decision = last_decision a\<rparr>)"

text \<open>The snapshot is published only when the worker's view of generation and channel is still the present one.\<close>

definition publish_status :: "'r auto_env \<Rightarrow> u8 \<Rightarrow> u32 \<Rightarrow> 'r auto_world \<Rightarrow> auto_snapshot \<Rightarrow> auto_snapshot" where
  "publish_status env home token w published =
     (if auto_channel_generation (aw_auto w) = token \<and> effective_channel (ae_default env) w = home \<and>
         ls_home (snapshot_of env 4 w) = home
      then status_next env home token w else published)"

text \<open>What the switch publishes at once: nothing of the old generation.\<close>

definition switched_status :: "bool \<Rightarrow> 'r auto_env \<Rightarrow> 'r auto_world \<Rightarrow> auto_snapshot" where
  "switched_status value env w =
     (let a = auto_channel_set_enabled value (aw_auto w)
      in \<lparr>sn_initialized = ac_initialized a, sn_enabled = value, sn_interference_latched = interference_latched a,
          sn_radio_fault = ac_radio_fault a, sn_entropy_fault = entropy_fault a,
          sn_pairing = esb_pairing_is_active (ru_esb (aw_unit w)), sn_table_full = False,
          sn_identity = receiver_identity a, sn_home = effective_channel (ae_default env) w,
          sn_generation = auto_channel_generation a, sn_tx_attempts = 0, sn_tx_completed = 0, sn_required_mask = 0,
          sn_ready_mask = 0, sn_recovered_mask = 0, sn_layout_epoch = 0, sn_cap_pending = False, sn_now = ae_clock env 0,
          sn_phase = ''awaiting worker'', sn_excluded = 0, sn_peers = [],
          sn_decision = \<lparr>de_valid = False, de_time = 0, de_generation = 0, de_home = 0, de_target = 0,
            de_reference = \<lparr>en_peak = 0, en_quiet_floor = 0, en_coverage_us = 0, en_samples = 0, en_visits = 0, en_attempts = 0\<rparr>,
            de_candidate = \<lparr>en_peak = 0, en_quiet_floor = 0, en_coverage_us = 0, en_samples = 0, en_visits = 0, en_attempts = 0\<rparr>,
            de_excluded = 0\<rparr>\<rparr>)"

definition auto_channel_status :: "auto_channel \<Rightarrow> string" where
  "auto_channel_status a =
     (if ac_radio_fault a then ''fault (radio owner retained)''
      else if entropy_fault a then ''fault (hardware entropy seed unavailable)''
      else if interference_latched a then
        ''stopped (possible host USB/RF interference; explicit channel auto on to reset)''
      else if ac_enabled a then ''active (defers during radio busy/pairing)''
      else ''off/pinned (channelauto on to enable; reboot stays off)'')"

text \<open>A worker that was under way when the switch was thrown cannot publish over the new status.\<close>

lemma switched_status_kept:
  assumes "aw_auto w' = auto_channel_set_enabled v (aw_auto w)" and "token = auto_channel_generation (aw_auto w)"
  shows "publish_status env home token w' (switched_status v env w) = switched_status v env w"
  using assms by (simp add: publish_status_def auto_channel_set_enabled_def auto_channel_generation_def Let_def)

end
