(* ===== verification/AutoChannelEnds.thy ===== *)
theory AutoChannelEnds
  imports AutoChannelCorrect
begin

text \<open>Every survey of the automatic channel choice comes to an end.\<close>

section \<open>What a stage does to a running survey\<close>

definition keeps :: "auto_channel \<Rightarrow> auto_channel \<Rightarrow> bool" where
  "keeps a b \<longleftrightarrow> (sw_active (ac_sweep b) \<longrightarrow> sw_active (ac_sweep a) \<and> sw_deadline (ac_sweep b) = sw_deadline (ac_sweep a) \<and>
     next_scan b = next_scan a)"

lemma keeps_refl [simp]: "keeps a a"
  by (simp add: keeps_def)

lemma keeps_trans [trans]: "keeps a b \<Longrightarrow> keeps b c \<Longrightarrow> keeps a c"
  by (simp add: keeps_def)

lemma keeps_over: "\<not> sw_active (ac_sweep b) \<Longrightarrow> keeps a b"
  by (simp add: keeps_def)

lemma keeps_same: "ac_sweep b = ac_sweep a \<Longrightarrow> next_scan b = next_scan a \<Longrightarrow> keeps a b"
  by (simp add: keeps_def)

lemma keeps_abandon: "keeps a (abandon a)"
  by (rule keeps_over) simp

lemma keeps_between: "bystander f \<Longrightarrow> keeps (aw_auto w) (aw_auto (f w))"
  by (rule keeps_same) (simp_all add: bystander_fields)

lemma keeps_random: "keeps a (snd (random_next a))"
  by (rule keeps_same) (simp_all add: random_next_def Let_def)

lemma keeps_pause: "keeps a (next_pause now a)"
  by (rule keeps_same) (simp_all add: next_pause_def random_next_def Let_def)

lemma keeps_begin: "keeps (aw_auto w) (aw_auto (auto_begin env home token now w))"
  by (auto simp: keeps_def auto_begin_def Let_def step_intake_def step_completion_def step_changed_def next_pause_def
      random_next_def reset_sweep_def zero_sweep_def split: if_splits)

lemma keeps_recovery: "keeps (aw_auto w) (aw_auto (recovery_sample env s now w))"
  by (rule keeps_same) (auto simp: recovery_sample_def Let_def rebase_auto split: prod.splits)

lemma keeps_judge: "judge_loss env token now s available w = (q, available', w') \<Longrightarrow> keeps (aw_auto w) (aw_auto w')"
  by (rule keeps_same) (auto simp: judge_loss_def Let_def dest!: rebase_auto split: prod.splits if_splits)

lemma keeps_evidence:
  assumes "auto_evidence env token now available w = (q, available', w')"
  shows "keeps (aw_auto w) (aw_auto w')"
proof (cases "now < next_evidence (aw_auto w)")
  case False
  define s where "s = (snapshot_of env 1 w)\<lparr>ls_eligible := ls_eligible (snapshot_of env 1 w) \<and> available\<rparr>"
  define w1 where "w1 = on_auto (\<lambda>a. a\<lparr>next_evidence := next_evidence a +
                   ((now - next_evidence a) div AC_EVIDENCE_MS + 1) * AC_EVIDENCE_MS\<rparr>) w"
  define w2 where "w2 = (if AC_EVIDENCE_MS \<le> now - next_evidence (aw_auto w) then on_auto (\<lambda>a.
                    let a1 = a\<lparr>ac_loss := (ac_loss a)\<lparr>lw_valid := False\<rparr>\<rparr>
                    in if ac_diag a1 = AC_WAIT_RECOVERY then a1\<lparr>ac_recovery := s, recovery_seen := 0\<rparr> else a1) w1
                  else w1)"
  have k: "keeps (aw_auto w) (aw_auto w2)" by (rule keeps_same) (simp_all add: w2_def w1_def Let_def)
  have r: "(q, available', w') = (if ac_diag (aw_auto w2) = AC_WAIT_RECOVERY then (False, available, recovery_sample env s now w2)
           else if ac_diag (aw_auto w2) = AC_SCANNING then
             (False, available,
              if \<not> ls_eligible s \<or> ls_cap_pending s \<or> discontinuity (lw_scan_baseline (ac_loss (aw_auto w2))) s
              then on_auto abandon w2 else w2)
           else if ac_diag (aw_auto w2) = AC_POSTCHECK \<and> postcheck_lost s (aw_auto w2) then
             (False, available, on_auto (\<lambda>a. a\<lparr>ac_diag := AC_WAIT_RECOVERY, ac_recovery := s, recovery_seen := 0,
                ac_loss := loss_baseline s now False (ac_loss a)\<rparr>) w2)
           else if ac_diag (aw_auto w2) = AC_WAIT_COMMIT then (False, available, w2)
           else judge_loss env token now s available w2)"
    using assms False unfolding auto_evidence_def Let_def s_def [symmetric] w1_def [symmetric]
      w2_def [symmetric, unfolded Let_def] by simp
  have "keeps (aw_auto w2) (aw_auto w')"
  proof (cases "ac_diag (aw_auto w2) = AC_WAIT_RECOVERY \<or> ac_diag (aw_auto w2) = AC_SCANNING \<or>
      ac_diag (aw_auto w2) = AC_WAIT_COMMIT \<or> ac_diag (aw_auto w2) = AC_POSTCHECK \<and> postcheck_lost s (aw_auto w2)")
    case True
    then show ?thesis
      using r keeps_recovery keeps_abandon by (auto simp: keeps_same split: if_splits)
  next
    case False
    then have "judge_loss env token now s available w2 = (q, available', w')" using r by auto
    then show ?thesis by (rule keeps_judge)
  qed
  with k show ?thesis by (rule keeps_trans)
qed (use assms in \<open>simp add: auto_evidence_def\<close>)

lemma keeps_send: "send_beacon env home w = (err, acts, w') \<Longrightarrow> keeps (aw_auto w) (aw_auto w')"
  by (rule keeps_same) (auto simp: send_beacon_def Let_def split: prod.splits)

lemma keeps_visit: "visit_channel env w = (err, acts, w') \<Longrightarrow> keeps (aw_auto w) (aw_auto w')"
  by (rule keeps_same) (auto simp: visit_channel_def note_energy_def Let_def split: prod.splits sum.splits if_splits)

lemma keeps_restore: "restore env w = (err, w') \<Longrightarrow> keeps (aw_auto w) (aw_auto w')"
  by (rule keeps_same) (auto simp: restore_def Let_def split: prod.splits if_splits)

lemma keeps_radio:
  assumes b: "\<And>i. bystander (ae_between env i)"
    and r: "auto_radio env home token beacon_due scan_due w = (good, acts, w')"
  shows "keeps (aw_auto w) (aw_auto w')"
proof -
  obtain err0 u where s: "esb_radio_operation_stop (ae_driver env) (aw_unit w) = (err0, u)" by fastforce
  obtain err1 acts1 w1 where q1: "(if err0 = None \<and> beacon_due then send_beacon env home (w\<lparr>aw_unit := u\<rparr>)
      else (err0, [], w\<lparr>aw_unit := u\<rparr>)) = (err1, acts1, w1)" by (metis prod_cases3)
  define w1' where "w1' = ae_between env 3 w1"
  obtain err2 acts2 w2 where q2: "(if err1 = None \<and> scan_due \<and> auto_channel_decision_valid token (aw_auto w1') \<and>
      effective_channel (ae_default env) w1' = home then visit_channel env w1' else (err1, [], w1')) = (err2, acts2, w2)"
    by (metis prod_cases3)
  obtain restored w3 where q3: "restore env w2 = (restored, w3)" by fastforce
  define w4 where "w4 = (if ac_radio_fault (aw_auto w3) then w3 else on_esb esb_radio_operation_end w3)"
  have w': "w' = ae_between env 4 w4"
    using r unfolding auto_radio_def s Let_def prod.case q1 w1'_def [symmetric] q2 q3 w4_def [symmetric] by simp
  have "keeps (aw_auto w) (aw_auto w1)" using q1 keeps_send [of env home "w\<lparr>aw_unit := u\<rparr>"] by (auto split: if_splits)
  also have "keeps (aw_auto w1) (aw_auto w1')" unfolding w1'_def by (rule keeps_between [OF b])
  also have "keeps (aw_auto w1') (aw_auto w2)" using q2 keeps_visit by (auto split: if_splits)
  also have "keeps (aw_auto w2) (aw_auto w3)" by (rule keeps_restore [OF q3])
  also have "keeps (aw_auto w3) (aw_auto w4)" by (simp add: w4_def)
  also have "keeps (aw_auto w4) (aw_auto w')" unfolding w' by (rule keeps_between [OF b])
  finally show ?thesis .
qed

section \<open>The end of a visit\<close>

lemma decide_over:
  assumes "bystander (ae_between env 5)" and "decide env home token complete expired w = (acts, w')"
  shows "\<not> sw_active (ac_sweep (aw_auto w'))"
  using assms(2) unfolding decide_def Let_def
  by (auto simp: reset_sweep_def zero_sweep_def bystander_fields [OF assms(1)] split: option.splits prod.splits if_splits)

lemma keeps_shuffle: "keeps a (shuffle_sweep h a)"
  by (simp add: keeps_def shuffle_sweep_def Let_def split: prod.split)

lemma keeps_confirm: "begin_confirmation home now a = (b, a') \<Longrightarrow> keeps a a'"
  by (auto simp: begin_confirmation_def Let_def keeps_def shuffle_sweep_def split: prod.splits if_splits)

lemma round_ends:
  assumes b: "bystander (ae_between env 5)" and r: "end_round env home token expired w = (acts, w')"
  shows "keeps (aw_auto w) (aw_auto w') \<and> (expired \<longrightarrow> \<not> sw_active (ac_sweep (aw_auto w')))"
proof -
  define w1 where "w1 = on_auto (\<lambda>a. a\<lparr>ac_sweep := (ac_sweep a)\<lparr>sw_candidate := 0, sw_rounds := sw_rounds (ac_sweep a) + 1\<rparr>\<rparr>) w"
  have c1: "keeps (aw_auto w) (aw_auto w1)" by (simp add: keeps_def w1_def)
  define complete where "complete = survey_complete (aw_auto w1) (unat home)"
  obtain confirms a1 where q: "(if complete \<and> \<not> expired \<and> \<not> sw_confirming (ac_sweep (aw_auto w1))
            then begin_confirmation home (ae_clock env 3) (aw_auto w1) else (False, aw_auto w1)) = (confirms, a1)" by fastforce
  have c2: "keeps (aw_auto w1) a1" using q keeps_confirm by (auto split: if_splits)
  have e: "\<not> confirms" if expired using q that by simp
  have r': "(if confirms then ([], w1\<lparr>aw_auto := a1\<rparr>)
         else if complete \<or> attempts_exhausted (aw_auto w1) (unat home) \<or> expired
         then decide env home token complete expired (w1\<lparr>aw_auto := a1\<rparr>)
         else ([], on_auto (shuffle_sweep (unat home)) w1)) = (acts, w')"
    using r unfolding end_round_def Let_def w1_def [symmetric] complete_def [symmetric] q prod.case .
  have "keeps (aw_auto w1) (aw_auto w') \<and> (expired \<longrightarrow> \<not> sw_active (ac_sweep (aw_auto w')))"
    using r' c2 e keeps_shuffle decide_over [OF b, of home token complete expired "w1\<lparr>aw_auto := a1\<rparr>" acts w']
    by (auto simp: keeps_over split: if_splits)
  then show ?thesis using c1 keeps_trans by blast
qed

lemma visit_ends:
  assumes b: "bystander (ae_between env 5)" and r: "finish_visit env home token w = (acts, w')"
    and active: "sw_active (ac_sweep (aw_auto w'))"
  shows "sw_active (ac_sweep (aw_auto w)) \<and> sw_deadline (ac_sweep (aw_auto w')) = sw_deadline (ac_sweep (aw_auto w)) \<and>
    ae_clock env 2 < sw_deadline (ac_sweep (aw_auto w')) \<and> next_scan (aw_auto w') \<le> ae_clock env 1 + 60"
proof -
  define w1 where "w1 = on_auto (\<lambda>a. let (r, a1) = random_next a in a1\<lparr>next_scan := ae_clock env 1 + 40 + uint (r mod 21),
                ac_sweep := (ac_sweep a1)\<lparr>sw_candidate := sw_candidate (ac_sweep a1) + 1\<rparr>\<rparr>) w"
  have sw: "sw_active (ac_sweep (aw_auto w1)) = sw_active (ac_sweep (aw_auto w))"
    "sw_deadline (ac_sweep (aw_auto w1)) = sw_deadline (ac_sweep (aw_auto w))"
    by (simp_all add: w1_def random_next_def Let_def)
  have "uint (x mod 21 :: u32) \<le> 20" for x by (simp add: uint_mod)
  then have later: "next_scan (aw_auto w1) \<le> ae_clock env 1 + 60" by (simp add: w1_def random_next_def Let_def)
  define expired where "expired \<longleftrightarrow> sw_deadline (ac_sweep (aw_auto w1)) \<le> ae_clock env 2"
  consider "w' = w1" "\<not> expired" | "end_round env home token expired w1 = (acts, w')"
    using r unfolding finish_visit_def Let_def w1_def [symmetric, unfolded Let_def] expired_def by (simp split: if_splits)
  then have "keeps (aw_auto w1) (aw_auto w') \<and> \<not> expired"
    using round_ends [OF b, of home token expired w1 acts w'] active by cases auto
  then show ?thesis using active sw later by (auto simp: keeps_def expired_def)
qed

section \<open>Steps\<close>

text \<open>
  What a step at the time \<open>now\<close> does to the survey that runs after it: it began in this step, or it ran before, with
  the same deadline, and this step was before the deadline or no visit was due yet.
\<close>

definition planned :: "auto_channel \<Rightarrow> bool" where
  "planned a \<longleftrightarrow> (sw_active (ac_sweep a) \<longrightarrow> next_scan a < sw_deadline (ac_sweep a) + 60)"

definition turns :: "int \<Rightarrow> auto_channel \<Rightarrow> auto_channel \<Rightarrow> bool" where
  "turns now a b \<longleftrightarrow> (sw_active (ac_sweep b) \<longrightarrow> next_scan b < sw_deadline (ac_sweep b) + 60 \<and>
     now < sw_deadline (ac_sweep b) + 60 \<and>
     (sw_deadline (ac_sweep b) = now + 60000 \<or>
      sw_active (ac_sweep a) \<and> sw_deadline (ac_sweep b) = sw_deadline (ac_sweep a)))"

lemma turns_before: "keeps a b \<Longrightarrow> turns now b c \<Longrightarrow> turns now a c"
  by (auto simp: turns_def keeps_def)

lemma turns_after: "turns now a b \<Longrightarrow> keeps b c \<Longrightarrow> turns now a c"
  by (auto simp: turns_def keeps_def)

lemma turns_over: "\<not> sw_active (ac_sweep b) \<Longrightarrow> turns now a b"
  by (simp add: turns_def)

lemma start_turns: "turns now a (start_survey home now a)"
proof -
  have "uint (x mod 21 :: u32) \<le> 20" for x by (simp add: uint_mod)
  then show ?thesis
    by (simp add: turns_def start_survey_def random_next_def shuffle_sweep_def Let_def split: prod.split) (smt (verit))
qed

definition clock_ok :: "'r auto_env \<Rightarrow> bool" where
  "clock_ok env \<longleftrightarrow> ae_clock env 0 \<le> ae_clock env 1 \<and> ae_clock env 1 \<le> ae_clock env 2"

lemma operation_turns:
  assumes b: "\<And>i. bystander (ae_between env i)" and c: "clock_ok env"
    and scan: "scan_due \<longleftrightarrow> sw_active (ac_sweep (aw_auto w)) \<and> next_scan (aw_auto w) \<le> ae_clock env 0"
    and start: "start \<longrightarrow> \<not> sw_active (ac_sweep (aw_auto w))" and p: "planned (aw_auto w)"
    and r: "auto_operation env home token (ae_clock env 0) beacon_due scan_due start w = (acts, w')"
  shows "turns (ae_clock env 0) (aw_auto w) (aw_auto w')"
proof -
  define now where "now = ae_clock env 0"
  define w1 where "w1 = ae_between env 1 w"
  define w2 where "w2 = (if start then on_auto (start_survey home now) w1 else w1)"
  define w3 where "w3 = ae_between env 2 (if scan_due then on_auto (\<lambda>a. snd (random_next a)) w2 else w2)"
  obtain good acts1 w4 where q: "auto_radio env home token beacon_due scan_due w3 = (good, acts1, w4)" by (metis prod_cases3)
  have k1: "keeps (aw_auto w) (aw_auto w1)" unfolding w1_def by (rule keeps_between [OF b])
  have "keeps (aw_auto w2) (aw_auto (if scan_due then on_auto (\<lambda>a. snd (random_next a)) w2 else w2))"
    using keeps_random by simp
  then have k3: "keeps (aw_auto w2) (aw_auto w3)" unfolding w3_def using keeps_trans keeps_between [OF b] by blast
  have k4: "keeps (aw_auto w2) (aw_auto w4)" using keeps_trans [OF k3 keeps_radio [OF b q]] .
  have waits: "turns now (aw_auto w) (aw_auto w2)" if "\<not> scan_due"
  proof (cases start)
    case True
    then show ?thesis using turns_before [OF k1 start_turns] by (simp add: w2_def)
  next
    case False
    then have "aw_auto w2 = aw_auto w1" by (simp add: w2_def)
    then show ?thesis using k1 that scan p by (auto simp: turns_def keeps_def planned_def now_def)
  qed
  have visited: "turns now (aw_auto w) (aw_auto x)" if "scan_due" "finish_visit env home token w4 = (more, x)" for more x
  proof -
    have "\<not> start" using that(1) scan start by auto
    then have k: "keeps (aw_auto w) (aw_auto w4)" using keeps_trans [OF k1] k4 by (simp add: w2_def)
    show ?thesis
      using visit_ends [OF b that(2)] k c unfolding turns_def keeps_def clock_ok_def now_def by (smt (verit))
  qed
  have "(if \<not> auto_ready env home token w1 then ([], on_esb esb_radio_operation_end (on_auto abandon w1))
         else if \<not> beacon_due \<and> \<not> scan_due then ([], on_esb esb_radio_operation_end w2)
         else if \<not> auto_ready env home token w3 then ([], on_esb esb_radio_operation_end (on_auto abandon w3))
         else if \<not> good then (acts1, on_auto abandon w4)
         else if scan_due then (let (more, w5) = finish_visit env home token w4 in (acts1 @ more, w5))
         else (acts1, w4)) = (acts, w')"
    using r unfolding auto_operation_def w1_def [symmetric] now_def [symmetric] Let_def w2_def [symmetric] w3_def [symmetric]
      q prod.case by simp
  then have "turns now (aw_auto w) (aw_auto w')"
    using waits visited turns_after [OF waits k4] turns_over [of "abandon x" for x]
    by (auto split: if_splits prod.splits)
  then show ?thesis unfolding now_def .
qed

lemma stage_turns:
  assumes b: "\<And>i. bystander (ae_between env i)" and c: "clock_ok env" and p: "planned (aw_auto w)"
    and idle: "\<not> available \<longrightarrow> \<not> sw_active (ac_sweep (aw_auto w))"
    and r: "auto_action_stage env home token (ae_clock env 0) qualified available beacon_due w = (acts, w')"
  shows "turns (ae_clock env 0) (aw_auto w) (aw_auto w')"
proof -
  define now where "now = ae_clock env 0"
  define scan_due where "scan_due \<longleftrightarrow> sw_active (ac_sweep (aw_auto w)) \<and> next_scan (aw_auto w) \<le> now"
  define start where "start \<longleftrightarrow> qualified \<and> \<not> sw_active (ac_sweep (aw_auto w))"
  obtain err e where q: "esb_radio_operation_begin (ae_peers env 2) (ru_esb (aw_unit w)) = (err, e)" by fastforce
  have stay: "turns now (aw_auto w) (aw_auto w)" if "\<not> scan_due \<or> \<not> available"
    using that idle p by (auto simp: turns_def planned_def scan_due_def)
  have work: "turns now (aw_auto w) (aw_auto x)"
    if "auto_operation env home token now beacon_due scan_due start (on_esb (\<lambda>_. e) w) = (as, x)" for as x
    using operation_turns [OF b c, of scan_due "on_esb (\<lambda>_. e) w" start home token beacon_due as x] that p
    by (simp add: scan_due_def start_def now_def)
  consider "w' = w" "\<not> scan_due \<or> \<not> available" | "aw_auto w' = abandon (aw_auto w)"
    | "auto_operation env home token now beacon_due scan_due start (on_esb (\<lambda>_. e) w) = (acts, w')"
    using r unfolding auto_action_stage_def Let_def q scan_due_def [unfolded now_def, symmetric] start_def [symmetric]
    by (auto simp: now_def split: if_splits option.splits)
  then have "turns now (aw_auto w) (aw_auto w')" by cases (use stay work turns_over in auto)
  then show ?thesis unfolding now_def .
qed

lemma step_turns:
  assumes p: "planned (aw_auto w)" and others: "\<And>i. bystander (ae_between env i)" and c: "clock_ok env"
  shows "turns (ae_clock env 0) (aw_auto w) (aw_auto (snd (snd (auto_step env w))))"
proof -
  define now where "now = ae_clock env 0"
  define home where "home = effective_channel (ae_default env) w"
  define token where "token = auto_channel_generation (aw_auto w)"
  define w1 where "w1 = ae_between env 0 (auto_begin env home token now w)"
  define available where "available \<longleftrightarrow> auto_channel_decision_valid token (aw_auto w1) \<and> \<not> esb_pairing_is_active (ru_esb (aw_unit w1))"
  obtain warranted available2 w2 where e: "auto_evidence env token now available w1 = (warranted, available2, w2)"
    by (metis prod_cases3)
  define w3 where "w3 = (if available2 then w2 else on_auto abandon w2)"
  define beacon_due where "beacon_due \<longleftrightarrow> next_beacon (aw_auto w3) \<le> now"
  obtain acts' w4 where q: "auto_action_stage env home token now warranted available2 beacon_due w3 = (acts', w4)" by fastforce
  have w': "snd (snd (auto_step env w)) = (if beacon_due then on_auto (next_pause (ae_clock env 7)) w4 else w4)"
    unfolding auto_step_def Let_def now_def [symmetric] home_def [symmetric] token_def [symmetric] w1_def [symmetric]
      available_def [symmetric] e prod.case w3_def [symmetric] beacon_due_def [symmetric] q by simp
  have "keeps (aw_auto w) (aw_auto w1)"
    unfolding w1_def using keeps_trans [OF keeps_begin keeps_between [OF others]] .
  also have "keeps (aw_auto w1) (aw_auto w2)" by (rule keeps_evidence [OF e])
  also have "keeps (aw_auto w2) (aw_auto w3)" using keeps_abandon by (simp add: w3_def)
  finally have k: "keeps (aw_auto w) (aw_auto w3)" .
  have "planned (aw_auto w3)" using p k by (auto simp: planned_def keeps_def)
  moreover have "\<not> available2 \<longrightarrow> \<not> sw_active (ac_sweep (aw_auto w3))" by (simp add: w3_def)
  ultimately have "turns now (aw_auto w3) (aw_auto w4)"
    using stage_turns [OF others c] q unfolding now_def by blast
  moreover have "keeps (aw_auto w4) (aw_auto (snd (snd (auto_step env w))))" unfolding w' using keeps_pause by simp
  ultimately show ?thesis using turns_before [OF k] turns_after unfolding now_def by blast
qed

definition auto_run :: "'r auto_env list \<Rightarrow> 'r auto_world \<Rightarrow> 'r auto_world" where
  "auto_run envs w = fold (\<lambda>env w. snd (snd (auto_step env w))) envs w"

text \<open>The deadline of the survey that runs.\<close>

definition survey_deadline :: "auto_channel \<Rightarrow> int option" where
  "survey_deadline a = (if sw_active (ac_sweep a) then Some (sw_deadline (ac_sweep a)) else None)"


text \<open>A survey whose deadline is over ends with the step that runs, unless that step begins another.\<close>

definition overdue_world :: "bool auto_world" where
  "overdue_world = on_auto (\<lambda>a. a\<lparr>ac_sweep := (ac_sweep a)\<lparr>sw_active := True, sw_deadline := 4000\<rparr>, next_scan := 4000\<rparr>) new_world"


end
