(* ===== verification/Reception.thy ===== *)
theory Reception
  imports Pairing AutoChannel
begin

text \<open>
  The radio interrupts of \<open>esb.c\<close>. \<open>esb_ack_handler_cb\<close> builds the acknowledgement of the packet that is just being
  received: the answers of pairing, the PONG with the command for the tracker, the packets of a firmware
  transfer and the requests for missing raw packets. \<open>event_handler\<close> then works on the received
  packets: foreign beacons, tracker events, composite and ordinary reports, PINGs, pairing
  requests, firmware status and raw data. A received packet is the driver's buffer with its length, so
  bytes behind the length are there, as in the code. The state is the \<open>receiver\<close> of
  the pairing theory with the automatic channel choice; the clock, the own address and the driver's
  answer for the channel are the record \<open>rx_env\<close>. The statistics of \<open>CONFIG_TDMA_DIAGNOSTICS\<close>, which is off, and
  log output are left out.
\<close>

abbreviation (input) ESB_MAX_PAYLOAD_LEN :: nat where "ESB_MAX_PAYLOAD_LEN \<equiv> 72"
abbreviation (input) ESB_PING_TYPE :: u8 where "ESB_PING_TYPE \<equiv> 0xF0"
abbreviation (input) ESB_PING_LEN :: nat where "ESB_PING_LEN \<equiv> 13"
abbreviation (input) ESB_PING_COMMAND_MASK :: u8 where "ESB_PING_COMMAND_MASK \<equiv> 0x7F"
abbreviation (input) ESB_PONG_FLAG_CHANNEL_CONFIRM :: u8 where "ESB_PONG_FLAG_CHANNEL_CONFIRM \<equiv> 0x37"
abbreviation (input) ESB_PONG_FLAG_DATA_COLLECT_BATCH_ON :: u8 where "ESB_PONG_FLAG_DATA_COLLECT_BATCH_ON \<equiv> 0x34"
abbreviation (input) ESB_CHANNEL_CONFIRM_VERSION :: u8 where "ESB_CHANNEL_CONFIRM_VERSION \<equiv> 1"
abbreviation (input) ESB_COMPOSITE_TYPE :: u8 where "ESB_COMPOSITE_TYPE \<equiv> 0xFE"
abbreviation (input) ESB_RAW_IMU_TYPE :: u8 where "ESB_RAW_IMU_TYPE \<equiv> 0x10"
abbreviation (input) ESB_RAW_MAG_TYPE :: u8 where "ESB_RAW_MAG_TYPE \<equiv> 0x11"
abbreviation (input) ESB_RAW_META_TYPE :: u8 where "ESB_RAW_META_TYPE \<equiv> 0x12"
abbreviation (input) ESB_RAW_IMU_QUAT_TYPE :: u8 where "ESB_RAW_IMU_QUAT_TYPE \<equiv> 0x13"
abbreviation (input) ESB_RAW_CAL_TYPE :: u8 where "ESB_RAW_CAL_TYPE \<equiv> 0x14"
abbreviation (input) PING_TIMEOUT_MS :: int where "PING_TIMEOUT_MS \<equiv> 5000"
abbreviation (input) PAIRING_QUEUE_SIZE :: nat where "PAIRING_QUEUE_SIZE \<equiv> 8"

record rx_frame =
  rx_pipe :: nat
  rx_length :: nat
  rx_data :: bytes
  rx_rssi :: u8

record 'q rx_env =
  re_zephyr :: zephyr
  re_msgq :: "'q msgq_ops"
  re_ota :: ota_env
  re_device :: bytes
  re_now :: int
  re_ticks :: u32
  re_physical :: "u32 option"

record ('q, 'f) radio_state =
  rs_receiver :: "('q, 'f) receiver"
  rs_auto :: auto_channel
  rs_beacon_tx_result :: int

datatype rx_action = RxForward bytes u8 | RxHid hid_action | RxCollect dc_action | RxConfirm nat u8

definition hi8 :: "u16 \<Rightarrow> u8" where
  "hi8 x = ucast (drop_bit 8 x)"

definition lo8 :: "u16 \<Rightarrow> u8" where
  "lo8 x = ucast x"

definition be32_bytes :: "u32 \<Rightarrow> bytes" where
  "be32_bytes x = [ucast (drop_bit 24 x), ucast (drop_bit 16 x), ucast (drop_bit 8 x), ucast x]"

definition frame_address :: "bytes \<Rightarrow> u64" where
  "frame_address packet = drop_bit 16 (native_u64 packet) AND 0xFFFFFFFFFFFF"

section \<open>The acknowledgement\<close>

subsection \<open>Pairing\<close>

text \<open>Whether the acknowledgement is suppressed, and its payload.\<close>

definition pairing_ack :: "zephyr \<Rightarrow> bytes \<Rightarrow> bytes \<Rightarrow> u32 \<Rightarrow> esb \<Rightarrow> bool \<times> ack_payload option" where
  "pairing_ack z device pdu pipe e =
     (let step = pdu ! 1; checksum = pair_checksum z pdu; found = frame_address pdu; known = esb_find_tracker found e
      in if checksum \<noteq> pdu ! 0 \<or> found = 0 then (True, None)
         else if \<not> esb_pairing e then (True, None)
         else if pairing_new_devices_blocked e \<and> known = None then (True, None)
         else if step = 0 then (False, None)
         else if step = 1 then
           (case known of None \<Rightarrow> (True, None)
            | Some i \<Rightarrow> (False, Some \<lparr>ack_pipe = pipe, ack_noack = False, ack_data = [checksum, of_nat i] @ take 6 device\<rparr>))
         else if step = 2 then (known = None, None)
         else (True, None))"

subsection \<open>The command of a PONG\<close>

text \<open>A waiting metadata request becomes the active one, and stays it until the tracker has echoed it.\<close>

definition metadata_command :: "nat \<Rightarrow> u8 \<Rightarrow> esb \<Rightarrow> u8 \<times> esb" where
  "metadata_command t cmd e =
     (let s = tracker_slots e ! t
      in if cmd = ESB_PONG_FLAG_NORMAL \<and> metadata_active_mask s \<noteq> 0 then (ESB_PONG_FLAG_METADATA_REQUEST, e)
         else if cmd = ESB_PONG_FLAG_NORMAL \<and> metadata_pending_mask s \<noteq> 0 then
           (ESB_PONG_FLAG_METADATA_REQUEST, update_slot t (\<lambda>s. s\<lparr>metadata_active_mask := metadata_pending_mask s,
              metadata_active_chunk := metadata_pending_chunk s, metadata_active_token := metadata_pending_token s,
              metadata_pending_mask := 0\<rparr>) e)
         else (cmd, e))"

definition ping_command :: "'q rx_env \<Rightarrow> nat \<Rightarrow> u8 \<Rightarrow> ('q, 'f) receiver \<Rightarrow> u8 \<times> bool \<times> ('q, 'f) receiver" where
  "ping_command env t flags r =
     (let (cmd1, e) = metadata_command t (tracker_remote_command (tracker_slots (rc_esb r) ! t)) (rc_esb r);
          migration = channel_command_for_tracker e t;
          cmd2 = (if migration \<noteq> ESB_PONG_FLAG_NORMAL then migration else cmd1);
          d = rc_collect r;
          cmd3 = (if data_collect_is_active d \<and> \<not> data_collect_is_target t d \<and> \<not> data_collect_batch_is_active d
            then ESB_PONG_FLAG_SHUTDOWN else cmd2);
          cmd4 = (if cmd3 = ESB_PONG_FLAG_NORMAL \<and> esb_ota_relay_is_active (rc_ota r) \<and> \<not> esb_ota_relay_is_target (rc_ota r) t
            then ESB_PONG_FLAG_OTA_SUPPRESS else cmd3);
          (aborting, o1) = esb_ota_relay_abort_pending (rc_ota r) t (re_ticks env);
          cmd5 = (if aborting then ESB_PONG_FLAG_OTA_ABORT else cmd4);
          cmd6 = (if cmd5 = ESB_PONG_FLAG_WOM_CONTROL \<and> \<not> wom_advertised (tracker_slots e ! t) \<and>
              flags AND ESB_PING_COMMAND_MASK \<noteq> ESB_PONG_FLAG_NORMAL then ESB_PONG_FLAG_NORMAL else cmd5)
      in (cmd6, aborting, r\<lparr>rc_esb := e, rc_ota := o1\<rparr>))"

text \<open>
  Bytes 3 to 6 and 8 to 11 of a PONG. A test command leaves byte 11 as it is in the buffer. There is no answer to a
  channel probe when the driver does not tell the channel.
\<close>

definition pong_fields :: "esb \<Rightarrow> nat \<Rightarrow> u8 \<Rightarrow> u32 \<Rightarrow> u32 option \<Rightarrow> u8 \<Rightarrow> (bytes \<times> bytes) option" where
  "pong_fields e t cmd ticks physical stale =
     (let s = tracker_slots e ! t; time = be32_bytes ticks
      in if cmd = ESB_PONG_FLAG_SENS_SET then
           (let s0 = pending_sens_data s ! 0; s1 = pending_sens_data s ! 1; s2 = pending_sens_data s ! 2
            in Some ([hi8 s0, lo8 s0, hi8 s1, lo8 s1], [hi8 s2, lo8 s2, 0, 0]))
         else if cmd = ESB_PONG_FLAG_SENS_AUTO then
           (let rev = pending_sens_auto_revolutions s
            in Some ([pending_sens_auto_axis s, hi8 rev, lo8 rev, 0], [0, 0, 0, 0]))
         else if cmd = ESB_PONG_FLAG_SET_CHANNEL then
           Some (time, be32_bytes (ucast (esb_rf_channel_decode (pending_channel e))))
         else if cmd = ESB_PONG_FLAG_WOM_CONTROL then
           Some (time, [hi8 (wom_minutes s), lo8 (wom_minutes s), hi8 (wom_token s), lo8 (wom_token s)])
         else if cmd = ESB_PONG_FLAG_TEST_MODE_ON then
           Some (time, [hi8 (tracker_test_on_tps s), lo8 (tracker_test_on_tps s), 0, stale])
         else if cmd = ESB_PONG_FLAG_METADATA_REQUEST then
           Some (time, [metadata_active_mask s, metadata_active_chunk s, hi8 (metadata_active_token s), lo8 (metadata_active_token s)])
         else if cmd = ESB_PONG_FLAG_DATA_COLLECT_BATCH_ON then Some (time, [pending_cmd_arg s, 0, 0, 0])
         else if cmd = ESB_PONG_FLAG_CHANNEL_CONFIRM then
           (case physical of None \<Rightarrow> None
            | Some ch \<Rightarrow> if 100 < ch then None else Some (time, [ucast ch, ESB_CHANNEL_CONFIRM_VERSION, 0, 0]))
         else if cmd = ESB_PONG_FLAG_NORMAL then Some (time, be32_bytes (tdma_config_packed s))
         else Some (time, [0, 0, 0, 0]))"

definition pong_packet :: "zephyr \<Rightarrow> nat \<Rightarrow> u8 \<Rightarrow> u8 \<Rightarrow> bytes \<times> bytes \<Rightarrow> bytes" where
  "pong_packet z t counter cmd parts =
     (let body = [ESB_PONG_TYPE, of_nat t, counter] @ fst parts @ [cmd] @ snd parts in body @ [crc8_ccitt z 0x07 body])"

text \<open>The request of a wake-on-motion transaction counts as made with the first PONG that really carries it.\<close>

definition arm_wom :: "nat \<Rightarrow> u8 \<Rightarrow> ack_payload \<Rightarrow> esb \<Rightarrow> esb" where
  "arm_wom t counter a e =
     (let d = ack_data a; s = tracker_slots e ! t
      in if length d = ESB_PONG_LEN \<and> d ! 0 = ESB_PONG_TYPE \<and> d ! 7 = ESB_PONG_FLAG_WOM_CONTROL \<and>
            tracker_remote_command s = ESB_PONG_FLAG_WOM_CONTROL \<and> wom_token s \<noteq> 0 \<and>
            be16_of (drop 8 d) 0 = wom_minutes s \<and> be16_of (drop 8 d) 2 = wom_token s \<and> \<not> wom_advertised s
         then update_slot t (\<lambda>s. s\<lparr>wom_first_ping_counter := counter, wom_advertised := True\<rparr>) e
         else e)"

text \<open>
  A command of the firmware relay replaces the PONG of a target, but neither an abort nor the answer to a channel
  probe. \<open>stale\<close> is byte 11 of the driver's buffer.
\<close>

definition ping_ack ::
    "'q rx_env \<Rightarrow> bytes \<Rightarrow> u32 \<Rightarrow> u8 \<Rightarrow> ('q, 'f) receiver \<Rightarrow> ack_payload option \<times> ('q, 'f) receiver" where
  "ping_ack env pdu pipe stale r =
     (let z = re_zephyr env; t = unat (pdu ! 1); counter = pdu ! 2; confirm = bit (pdu ! 7) 7
      in if MAX_TRACKERS \<le> t then (None, r)
         else if pdu ! 12 \<noteq> crc8_ccitt z 0x07 (take 12 pdu) then (None, r)
         else
           let (cmd, aborting, r1) = (if confirm then (ESB_PONG_FLAG_CHANNEL_CONFIRM, False, r) else ping_command env t (pdu ! 7) r)
           in (case pong_fields (rc_esb r1) t cmd (re_ticks env) (re_physical env) stale of
                 None \<Rightarrow> (None, r1)
               | Some parts \<Rightarrow>
                   let pong = \<lparr>ack_pipe = 1 + of_nat (t mod 7), ack_noack = False, ack_data = pong_packet z t counter cmd parts\<rparr>
                   in if aborting then (Some pong, r1)
                      else
                        let (over, o1) = (if \<not> confirm \<and> esb_ota_relay_is_active (rc_ota r1) \<and> esb_ota_relay_is_target (rc_ota r1) t
                              then esb_ota_relay_fill_ack (re_ota env) t pipe None (rc_ota r1) else (None, rc_ota r1));
                            final = (case over of Some a \<Rightarrow> a | None \<Rightarrow> pong)
                        in (Some final, r1\<lparr>rc_ota := o1, rc_esb := arm_wom t counter final (rc_esb r1)\<rparr>)))"

definition raw_data_ack ::
    "'q rx_env \<Rightarrow> bytes \<Rightarrow> u32 \<Rightarrow> ('q, 'f) receiver \<Rightarrow> ack_payload option \<times> ('q, 'f) receiver" where
  "raw_data_ack env pdu pipe r =
     (let t = unat (pdu ! 1); z = re_zephyr env
      in if data_collect_is_target t (rc_collect r) \<and> \<not> data_collect_batch_is_target t (rc_collect r) then
           let (reply, raw) = raw_arq_process_isr z (get_be16 z (pdu ! 2) (pdu ! 3)) (rc_raw r)
           in (map_option (\<lambda>d. \<lparr>ack_pipe = pipe, ack_noack = False, ack_data = d\<rparr>) reply, r\<lparr>rc_raw := raw\<rparr>)
         else (None, r))"

definition esb_ack_handler_cb ::
    "'q rx_env \<Rightarrow> rx_frame \<Rightarrow> u8 \<Rightarrow> ('q, 'f) receiver \<Rightarrow> bool \<times> ack_payload option \<times> ('q, 'f) receiver" where
  "esb_ack_handler_cb env f stale r =
     (let pdu = take (rx_length f) (rx_data f); len = rx_length f; pipe = of_nat (rx_pipe f)
      in if auto_channel_is_beacon pdu len then (True, None, r)
         else if rx_pipe f = 0 \<and> len = 8 then
           (let (suppress, ack) = pairing_ack (re_zephyr env) (re_device env) pdu pipe (rc_esb r) in (suppress, ack, r))
         else if len = ESB_PING_LEN \<and> pdu ! 0 = ESB_PING_TYPE then
           (let (ack, r1) = ping_ack env pdu pipe stale r in (False, ack, r1))
         else if 2 \<le> len \<and> pdu ! 0 = ESB_OTA_STATUS_TYPE then
           (let (ack, o1) = esb_ota_relay_fill_ack (re_ota env) (unat (pdu ! 1)) pipe (Some pdu) (rc_ota r)
            in (False, ack, r\<lparr>rc_ota := o1\<rparr>))
         else if 4 \<le> len \<and> (pdu ! 0 = ESB_RAW_IMU_TYPE \<or> pdu ! 0 = ESB_RAW_IMU_QUAT_TYPE) then
           (let (ack, r1) = raw_data_ack env pdu pipe r in (False, ack, r1))
         else (False, None, r))"

section \<open>PINGs\<close>

text \<open>The judgement of the counter: whether the PING is worked on, and what becomes of the tracking.\<close>

definition ping_restart :: "nat \<Rightarrow> u8 \<Rightarrow> int \<Rightarrow> esb \<Rightarrow> esb" where
  "ping_restart t counter now e =
     (let e1 = update_slot t (\<lambda>s. s\<lparr>last_ping_counter := counter, last_pong_queued_counter := 0xFF,
            sequence_initialized := False,
            slot_stats := (slot_stats s)\<lparr>restart_events := restart_events (slot_stats s) + 1\<rparr>\<rparr>)
          (e\<lparr>decision_ready_mask := unset_bit t (decision_ready_mask e), decision_fence_mask := set_bit t (decision_fence_mask e)\<rparr>)
      in if test_all_state_valid e1 then test_all_invalidate_tracker t now e1 else e1)"

datatype ping_judgement = PingTimeout | PingRestart | PingDuplicate | PingOutOfOrder | PingForward

definition judge_ping :: "tracker_slot \<Rightarrow> u8 \<Rightarrow> int \<Rightarrow> ping_judgement" where
  "judge_ping s counter now =
     (if 0 < last_ping_time s \<and> PING_TIMEOUT_MS < (now - last_ping_time s) mod 2 ^ 64 then PingTimeout
      else
        let diff = (uint counter - uint (last_ping_counter s)) mod 256
        in if diff = 0 then PingDuplicate
           else if 1 \<le> diff \<and> diff \<le> 100 then PingForward
           else if 128 < diff then
             (if 256 - diff \<le> 10 then PingOutOfOrder else if counter < 5 then PingRestart else PingForward)
           else PingForward)"

definition ping_tracking :: "nat \<Rightarrow> u8 \<Rightarrow> int \<Rightarrow> esb \<Rightarrow> bool \<times> esb" where
  "ping_tracking t counter now e =
     (let s = tracker_slots e ! t
      in if \<not> ping_counter_initialized s then
           (True, update_slot t (\<lambda>s. s\<lparr>ping_counter_initialized := True, last_ping_counter := counter,
              last_ping_time := now, last_pong_queued_counter := 0xFF\<rparr>) e)
         else
           let seen = update_slot t (\<lambda>s. s\<lparr>last_ping_time := now\<rparr>) e
           in (case judge_ping s counter now of
                 PingTimeout \<Rightarrow>
                   let e1 = update_slot t (\<lambda>s. s\<lparr>last_ping_counter := counter, last_pong_queued_counter := 0xFF\<rparr>) seen
                   in (True, if test_all_state_valid e1 then test_all_invalidate_tracker t now e1 else e1)
               | PingRestart \<Rightarrow> (True, ping_restart t counter now seen)
               | PingDuplicate \<Rightarrow> (counter \<noteq> last_pong_queued_counter s, seen)
               | PingOutOfOrder \<Rightarrow> (False, seen)
               | PingForward \<Rightarrow> (True, update_slot t (\<lambda>s. s\<lparr>last_ping_counter := counter\<rparr>) seen)))"

text \<open>What the tracker echoes: the outcome of a wake-on-motion request, a metadata request, or a command.\<close>

definition metadata_echo :: "nat \<Rightarrow> u8 \<Rightarrow> bytes \<Rightarrow> esb \<Rightarrow> esb" where
  "metadata_echo t flag d e =
     (let s = tracker_slots e ! t
      in if flag = ESB_PONG_FLAG_METADATA_REQUEST \<and> metadata_active_mask s \<noteq> 0 \<and> d ! 8 = metadata_active_mask s \<and>
            d ! 9 = metadata_active_chunk s \<and> be16_of (drop 8 d) 2 = metadata_active_token s
         then update_slot t (\<lambda>s. s\<lparr>metadata_active_mask := 0\<rparr>) e else e)"

definition command_echo :: "nat \<Rightarrow> u8 \<Rightarrow> bytes \<Rightarrow> esb \<Rightarrow> rx_action list \<times> esb" where
  "command_echo t flag d e =
     (let s = tracker_slots e ! t; tps = (if flag = ESB_PONG_FLAG_TEST_MODE_ON then be16_of (drop 8 d) 0 else 0)
      in if flag \<noteq> ESB_PONG_FLAG_NORMAL \<and> flag \<noteq> ESB_PONG_FLAG_WOM_CONTROL \<and> flag \<noteq> ESB_PING_FLAG_WOM_RESULT \<and>
            flag \<noteq> ESB_PING_FLAG_WOM_ERROR \<and> tracker_remote_command s = flag \<and>
            (flag \<noteq> ESB_PONG_FLAG_TEST_MODE_ON \<or> tps = tracker_test_on_tps s) \<and>
            (flag \<noteq> ESB_PONG_FLAG_DATA_COLLECT_BATCH_ON \<or> d ! 8 = pending_cmd_arg s)
         then
           let e1 = update_slot t (\<lambda>s. s\<lparr>tracker_remote_command := ESB_PONG_FLAG_NORMAL\<rparr>) e;
               confirms = (flag = ESB_PONG_FLAG_TEST_MODE_OFF \<and> \<not> test_all_enabled e1 \<or>
                 flag = ESB_PONG_FLAG_TEST_MODE_ON \<and> test_all_enabled e1 \<and> tps = test_all_wire_tps e1)
           in ([RxConfirm t flag],
               if test_all_state_valid e1 \<and> confirms
               then e1\<lparr>test_all_confirmed_mask := set_bit t (test_all_confirmed_mask e1)\<rparr> else e1)
         else ([], e))"

definition esb_receive_ping :: "'q rx_env \<Rightarrow> rx_frame \<Rightarrow> esb \<Rightarrow> rx_action list \<times> esb" where
  "esb_receive_ping env f e =
     (let d = rx_data f; t = unat (d ! 1); counter = d ! 2; flag = d ! 7 AND ESB_PING_COMMAND_MASK; now = re_now env;
          own_pipe = (rx_pipe f = 1 + t mod 7)
      in if MAX_TRACKERS \<le> t then ([], e)
         else
           let e1 = (if \<not> own_pipe then update_slot t (\<lambda>s. s\<lparr>pipe_mismatch_count := pipe_mismatch_count s + 1\<rparr>) e else e)
           in if d ! 12 \<noteq> crc8_ccitt (re_zephyr env) 0x07 (take 12 d)
              then ([], update_slot t (\<lambda>s. s\<lparr>crc_error_count := crc_error_count s + 1\<rparr>) e1)
              else
                let e2 = (if own_pipe then tdma_shadow_observe t TDMA_SHADOW_EVIDENCE_PING (of_int now) e1 else e1);
                    (work, e3) = ping_tracking t counter now e2
                in if \<not> work then ([], e3)
                   else
                     let e4 = metadata_echo t flag d (remote_wom_receive t flag (drop 8 d) counter e3);
                         (acts, e5) = command_echo t flag d e4
                     in (acts, update_slot t (\<lambda>s. s\<lparr>last_pong_queued_counter := counter\<rparr>) e5))"

section \<open>Reports\<close>

definition composite_body_length :: "u8 \<Rightarrow> nat option" where
  "composite_body_length type =
     (if type = 0 then Some 13 else if type = 1 then Some 14 else if type = 2 then Some 13 else if type = 3 then Some 2
      else if type = 4 then Some 14 else if type = 5 then Some 8
      else if type = TRACKER_EVENT_ESB_TYPE then Some TRACKER_EVENT_BODY_LEN else None)"

text \<open>
  The check of a composite packet before anything is done with it: \<open>n\<close> records are left. The result tells whether
  the rest is of an unknown kind, where the check ended, and where the event record is.
\<close>

fun composite_scan :: "u8 \<Rightarrow> bytes \<Rightarrow> nat \<Rightarrow> nat \<Rightarrow> nat \<Rightarrow> nat \<Rightarrow> (bool \<times> nat \<times> nat) option" where
  "composite_scan tr d frame_end 0 pos event_pos = Some (False, pos, event_pos)"
| "composite_scan tr d frame_end (Suc n) pos event_pos =
     (if frame_end \<le> pos then None
      else
        case composite_body_length (d ! pos) of
          None \<Rightarrow> Some (True, pos + 1, event_pos)
        | Some len \<Rightarrow>
            if frame_end < pos + 1 + len then None
            else if d ! pos = TRACKER_EVENT_ESB_TYPE then
              (if n = 0 \<and> tracker_event_decode_body tr (take len (drop (pos + 1) d)) \<noteq> None
               then composite_scan tr d frame_end n (pos + 1 + len) (pos + 1) else None)
            else composite_scan tr d frame_end n (pos + 1 + len) event_pos)"

definition composite_valid :: "u8 \<Rightarrow> bytes \<Rightarrow> nat \<Rightarrow> nat \<Rightarrow> nat option" where
  "composite_valid tr d len sub_count =
     (if sub_count = 0 then None
      else
        case composite_scan tr d (len - 1) sub_count 3 0 of
          None \<Rightarrow> None
        | Some (unknown, pos, event_pos) \<Rightarrow> if \<not> unknown \<and> pos \<noteq> len - 1 then None else Some event_pos)"

text \<open>A status report takes along the loss statistics since the last one.\<close>

definition fill_status :: "nat \<Rightarrow> bytes \<Rightarrow> esb \<Rightarrow> bytes \<times> esb" where
  "fill_status t pkt e =
     (let s = slot_stats (tracker_slots e ! t)
      in (pkt[4 := ucast (status_received s), 5 := ucast (status_lost s), 6 := 0, 7 := 0],
          update_slot t (\<lambda>x. x\<lparr>slot_stats := (slot_stats x)\<lparr>status_received := 0, status_lost := 0\<rparr>\<rparr>) e))"

definition forward_report :: "nat \<Rightarrow> bytes \<Rightarrow> u8 \<Rightarrow> ('q, 'f) receiver \<Rightarrow> rx_action list \<times> ('q, 'f) receiver" where
  "forward_report t pkt rssi r =
     (let (pkt1, e) = (if pkt ! 0 = 3 then fill_status t pkt (rc_esb r) else (pkt, rc_esb r));
          (acts, h) = hid_write_packet_n pkt1 rssi (rc_hid r)
      in (RxForward pkt1 rssi # map RxHid acts, r\<lparr>rc_esb := e, rc_hid := h\<rparr>))"

fun composite_forward ::
    "nat \<Rightarrow> bytes \<Rightarrow> nat \<Rightarrow> u8 \<Rightarrow> nat \<Rightarrow> nat \<Rightarrow> ('q, 'f) receiver \<Rightarrow> rx_action list \<times> ('q, 'f) receiver" where
  "composite_forward t d frame_end rssi 0 pos r = ([], r)"
| "composite_forward t d frame_end rssi (Suc n) pos r =
     (if frame_end \<le> pos then ([], r)
      else
        case composite_body_length (d ! pos) of
          None \<Rightarrow> ([], r)
        | Some len \<Rightarrow>
            if frame_end < pos + 1 + len then ([], r)
            else
              let m = min len 14; body = take m (drop (pos + 1) d);
                  (acts, r1) = forward_report t ([d ! pos, of_nat t] @ body @ replicate (14 - m) 0) rssi r;
                  (more, r2) = composite_forward t d frame_end rssi n (pos + 1 + len) r1
              in (acts @ more, r2))"

text \<open>The acceptance of a report: sequence check, evidence for the layout, and the test mode after a restart.\<close>

definition accept_report :: "nat \<Rightarrow> u8 \<Rightarrow> nat \<Rightarrow> int \<Rightarrow> esb \<Rightarrow> bool \<times> esb" where
  "accept_report t seq pipe now e =
     (let (verdict, e1) = check_packet_sequence t seq now e;
          e2 = (if pipe = 1 + t mod 7 then tdma_shadow_observe t TDMA_SHADOW_EVIDENCE_DATA (of_int now) e1 else e1)
      in if verdict = 4 \<or> verdict = 2 then (False, e2)
         else (True,
           if verdict = 3 \<and> test_all_state_valid e2
           then e2\<lparr>test_all_confirmed_mask := unset_bit t (test_all_confirmed_mask e2),
                  test_all_ready_after_ms := (test_all_ready_after_ms e2)[t := of_int now + TEST_ALL_JOIN_CONFIG_GRACE_MS]\<rparr>
           else e2))"

definition take_event :: "'q rx_env \<Rightarrow> bytes \<Rightarrow> ('q, 'f) receiver \<Rightarrow> ('q, 'f) receiver" where
  "take_event env packet r = r\<lparr>rc_events := snd (tracker_events_receive (re_msgq env) (rc_events r) packet (of_int (re_now env)))\<rparr>"

definition esb_receive_composite :: "'q rx_env \<Rightarrow> rx_frame \<Rightarrow> ('q, 'f) receiver \<Rightarrow> rx_action list \<times> ('q, 'f) receiver" where
  "esb_receive_composite env f r =
     (let d = rx_data f; len = rx_length f; t = unat (d ! 1); sub_count = unat (d ! 2)
      in if len < 5 \<or> d ! 0 \<noteq> ESB_COMPOSITE_TYPE then ([], r)
         else if stored_trackers (rc_esb r) \<le> t \<or> MAX_TRACKERS \<le> t then ([], r)
         else
           case composite_valid (d ! 1) d len sub_count of
             None \<Rightarrow> ([], r)
           | Some event_pos \<Rightarrow>
               let r1 = (if event_pos \<noteq> 0
                     then take_event env ([TRACKER_EVENT_ESB_TYPE, d ! 1] @ take TRACKER_EVENT_BODY_LEN (drop event_pos d)) r else r);
                   left = (if event_pos \<noteq> 0 then sub_count - 1 else sub_count)
               in if left = 0 then ([], r1)
                  else
                    let (accepted, e) = accept_report t (d ! (len - 1)) (rx_pipe f) (re_now env) (rc_esb r1);
                        r2 = r1\<lparr>rc_esb := e\<rparr>
                    in if accepted then composite_forward t d (len - 1) (rx_rssi f) left 3 r2 else ([], r2))"

definition receive_report :: "'q rx_env \<Rightarrow> rx_frame \<Rightarrow> ('q, 'f) receiver \<Rightarrow> rx_action list \<times> ('q, 'f) receiver" where
  "receive_report env f r =
     (let d = rx_data f; t = unat (d ! 1)
      in if 223 < d ! 0 \<or> stored_trackers (rc_esb r) \<le> t \<or> MAX_TRACKERS \<le> t then ([], r)
         else
           let (accepted, e) = accept_report t (d ! 16) (rx_pipe f) (re_now env) (rc_esb r); r1 = r\<lparr>rc_esb := e\<rparr>
           in if accepted then forward_report t (take 16 d) (rx_rssi f) r1 else ([], r1))"

section \<open>The other packets\<close>

text \<open>A full queue loses its oldest request.\<close>

definition queue_pairing :: "bytes \<Rightarrow> bytes list \<Rightarrow> bytes list" where
  "queue_pairing packet q = (if length q < PAIRING_QUEUE_SIZE then q @ [packet] else tl q @ [packet])"

definition pairing_request :: "zephyr \<Rightarrow> bytes \<Rightarrow> ('q, 'f) receiver \<Rightarrow> ('q, 'f) receiver" where
  "pairing_request z d r =
     (let e = rc_esb r; found = frame_address d; known = esb_find_tracker found e
      in if d ! 1 \<noteq> 0 then r
         else if pair_checksum z d \<noteq> d ! 0 \<or> found = 0 then r
         else if \<not> esb_pairing e then r
         else if pairing_new_devices_blocked e \<and> known = None then r
         else if known \<noteq> None then r
         else r\<lparr>rc_pairing_msgq := queue_pairing (take 8 d) (rc_pairing_msgq r)\<rparr>)"

definition ota_packet :: "'q rx_env \<Rightarrow> rx_frame \<Rightarrow> ('q, 'f) receiver \<Rightarrow> ('q, 'f) receiver" where
  "ota_packet env f r =
     (let (acts, o1) = esb_ota_relay_process_tracker_packet ((re_ota env)\<lparr>ota_env.stored_trackers := stored_trackers (rc_esb r)\<rparr>)
            (take (rx_length f) (rx_data f)) (re_now env) (rc_ota r)
      in fold run_ota_action acts (r\<lparr>rc_ota := o1\<rparr>))"

definition raw_packet :: "'q rx_env \<Rightarrow> rx_frame \<Rightarrow> ('q, 'f) receiver \<Rightarrow> rx_action list \<times> ('q, 'f) receiver" where
  "raw_packet env f r =
     (let d = rx_data f; t = unat (d ! 1); z = re_zephyr env; s = tracker_slots (rc_esb r) ! t
      in if stored_trackers (rc_esb r) \<le> t \<or> MAX_TRACKERS \<le> t then ([], r)
         else if data_collect_is_target t (rc_collect r) \<or> data_collect_batch_is_target t (rc_collect r) then
           (let numbered = (d ! 0 = ESB_RAW_IMU_TYPE \<or> d ! 0 = ESB_RAW_IMU_QUAT_TYPE); seq = get_be16 z (d ! 2) (d ! 3)
            in if numbered \<and> last_raw_valid s \<and> last_raw_seq s = seq then ([], r)
               else
                 let r1 = (if numbered then r\<lparr>rc_esb := update_slot t (\<lambda>s. s\<lparr>last_raw_seq := seq, last_raw_valid := True\<rparr>) (rc_esb r)\<rparr>
                           else r);
                     (acts, c) = data_collect_write z (take (rx_length f) d) (rx_rssi f) (re_now env) (re_ticks env) (rc_collect r1)
                 in (map RxCollect acts, r1\<lparr>rc_collect := c\<rparr>))
         else if \<not> data_collect_is_active (rc_collect r) \<and> \<not> data_collect_batch_is_active (rc_collect r) \<and>
            tracker_remote_command s \<noteq> ESB_PONG_FLAG_DATA_COLLECT_OFF \<and>
            tracker_remote_command s \<noteq> ESB_PONG_FLAG_DATA_COLLECT_BATCH_OFF
         then (let (e, raw) = esb_send_remote_command t ESB_PONG_FLAG_DATA_COLLECT_OFF (rc_esb r, rc_raw r)
               in ([], r\<lparr>rc_esb := e, rc_raw := raw\<rparr>))
         else ([], r))"

section \<open>The event handler\<close>

text \<open>A packet that is not a foreign beacon.\<close>

definition receive_packet :: "'q rx_env \<Rightarrow> rx_frame \<Rightarrow> ('q, 'f) receiver \<Rightarrow> rx_action list \<times> ('q, 'f) receiver" where
  "receive_packet env f r =
     (let d = rx_data f; len = rx_length f; discovery = (rx_pipe f = 0 \<and> len = 8);
          ota = (d ! 0 = ESB_OTA_STATUS_TYPE \<or> d ! 0 = ESB_OTA_FW_INFO_TYPE)
      in if \<not> discovery \<and> d ! 0 = TRACKER_EVENT_ESB_TYPE then
           ([], if len = TRACKER_EVENT_ESB_LEN \<and> unat (d ! 1) < stored_trackers (rc_esb r) \<and> unat (d ! 1) < MAX_TRACKERS
                then take_event env (take len d) r else r)
         else if \<not> discovery \<and> d ! 0 = ESB_COMPOSITE_TYPE then esb_receive_composite env f r
         else if len = 1 then ([], r)
         else if len = 8 then ([], pairing_request (re_zephyr env) d r)
         else if len = ESB_PING_LEN then
           (if ota then ([], ota_packet env f r)
            else if d ! 0 = ESB_PING_TYPE then
              (let (acts, e) = esb_receive_ping env f (rc_esb r) in (acts, r\<lparr>rc_esb := e\<rparr>))
            else ([], r))
         else if len = 17 then receive_report env f r
         else if ota then ([], ota_packet env f r)
         else if d ! 0 = ESB_RAW_IMU_TYPE \<or> d ! 0 = ESB_RAW_IMU_QUAT_TYPE \<or> d ! 0 = ESB_RAW_MAG_TYPE \<or>
            d ! 0 = ESB_RAW_META_TYPE \<or> d ! 0 = ESB_RAW_CAL_TYPE
         then raw_packet env f r
         else ([], r))"

definition physical_home :: "u32 option \<Rightarrow> u8" where
  "physical_home physical = (case physical of None \<Rightarrow> 255 | Some ch \<Rightarrow> if ch \<le> 100 then ucast ch else 255)"

definition receive_frame :: "'q rx_env \<Rightarrow> rx_frame \<Rightarrow> ('q, 'f) radio_state \<Rightarrow> rx_action list \<times> ('q, 'f) radio_state" where
  "receive_frame env f rs =
     (if rx_length f = 0 then ([], rs)
      else
        let (beacon, a) = auto_channel_receive (rx_data f) (rx_length f) (rx_pipe f) (physical_home (re_physical env)) (re_now env)
              (rs_auto rs);
            rs1 = rs\<lparr>rs_auto := a\<rparr>
        in if beacon then ([], rs1)
           else (let (acts, r) = receive_packet env f (rs_receiver rs1) in (acts, rs1\<lparr>rs_receiver := r\<rparr>)))"

datatype 'q esb_event = TxSuccess | TxFailed | RxReceived "('q rx_env \<times> rx_frame) list"

text \<open>The packets that the driver hands out until it has none; each with the readings at its time.\<close>

fun receive_all :: "('q rx_env \<times> rx_frame) list \<Rightarrow> ('q, 'f) radio_state \<Rightarrow> rx_action list \<times> ('q, 'f) radio_state" where
  "receive_all [] rs = ([], rs)"
| "receive_all ((env, f) # xs) rs =
     (let (acts, rs1) = receive_frame env f rs; (more, rs2) = receive_all xs rs1 in (acts @ more, rs2))"

fun event_handler :: "'q esb_event \<Rightarrow> ('q, 'f) radio_state \<Rightarrow> rx_action list \<times> ('q, 'f) radio_state" where
  "event_handler TxSuccess rs = ([], rs\<lparr>rs_beacon_tx_result := 1\<rparr>)"
| "event_handler TxFailed rs = ([], rs\<lparr>rs_beacon_tx_result := - 5\<rparr>)"
| "event_handler (RxReceived xs) rs = receive_all xs rs"

end
