(* ===== verification/ReceptionCorrect.thy ===== *)
theory ReceptionCorrect
  imports Reception PacketSequenceCorrect
begin

text \<open>
  Reports: a retransmission is forwarded once, and a composite packet is forwarded record by record or has no effect.
\<close>

section \<open>Retransmissions\<close>

definition seq_key :: "tracker_slot \<Rightarrow> u8 \<times> bool" where
  "seq_key s = (last_packet_sequence s, sequence_initialized s)"

lemma observe_slots [simp]: "tracker_slots (tdma_shadow_observe t ev now e) = tracker_slots e"
  "stored_trackers (tdma_shadow_observe t ev now e) = stored_trackers e"
  by (simp_all add: tdma_shadow_observe_def Let_def split: tdma_shadow_evidence.split)

lemma seq_class_key: "seq_key s = seq_key s' \<Longrightarrow> seq_class s q = seq_class s' q"
  by (simp add: seq_key_def seq_class_def)

lemma check_key:
  assumes t: "t < MAX_TRACKERS" and len: "length (tracker_slots e) = MAX_TRACKERS"
    and r: "check_packet_sequence t seq now e = (code, e1)"
  shows "length (tracker_slots e1) = MAX_TRACKERS"
    "code \<in> {2, 4} \<Longrightarrow> seq_key (tracker_slots e1 ! t) = seq_key (tracker_slots e ! t)"
    "code \<notin> {2, 4} \<Longrightarrow> seq_key (tracker_slots e1 ! t) = (seq, True)"
proof -
  note step = seq_step [OF t len r]
  show "length (tracker_slots e1) = MAX_TRACKERS" by (rule step(4))
  have "seq_class s q \<in> {0, 1, 2, 3, 4}" for s q by (simp add: seq_class_def Let_def)
  then have "code \<in> {0, 1, 2, 3, 4}" using step(1) by metis
  then show "code \<in> {2, 4} \<Longrightarrow> seq_key (tracker_slots e1 ! t) = seq_key (tracker_slots e ! t)"
    "code \<notin> {2, 4} \<Longrightarrow> seq_key (tracker_slots e1 ! t) = (seq, True)"
    using step(1,2) by (auto simp: seq_key_def slot_counts_def seq_counts_def Let_def)
qed

text \<open>Once judged, a number is refused until another one has been accepted.\<close>

definition spent :: "esb \<Rightarrow> nat \<Rightarrow> u8 \<Rightarrow> bool" where
  "spent e t seq \<longleftrightarrow> length (tracker_slots e) = MAX_TRACKERS \<and> seq_class (tracker_slots e ! t) seq \<in> {2, 4}"

lemma spent_key: "seq_key (tracker_slots e ! t) = seq_key (tracker_slots e' ! t) \<Longrightarrow>
    length (tracker_slots e) = length (tracker_slots e') \<Longrightarrow> spent e t seq = spent e' t seq"
  unfolding spent_def using seq_class_key [of "tracker_slots e ! t" "tracker_slots e' ! t" seq] by metis

lemma accept_spends:
  assumes t: "t < MAX_TRACKERS" and len: "length (tracker_slots e) = MAX_TRACKERS"
    and a: "accept_report t seq pipe now e = (b, e1)"
  shows "spent e1 t seq"
proof -
  obtain code e0 where c: "check_packet_sequence t seq now e = (code, e0)" by fastforce
  note k = check_key [OF t len c]
  have cls: "code = seq_class (tracker_slots e ! t) seq" using seq_step(1) [OF t len c] .
  have "spent e0 t seq"
  proof (cases "code \<in> {2, 4}")
    case True
    then show ?thesis using k cls seq_class_key by (metis spent_def)
  next
    case False
    then show ?thesis using k(1,3) by (auto simp: spent_def seq_key_def seq_class_def)
  qed
  then show ?thesis
    using a c by (auto simp: accept_report_def Let_def spent_def split: if_splits)
qed

lemma spent_refused:
  assumes "t < MAX_TRACKERS" and s: "spent e t seq"
  shows "\<not> fst (accept_report t seq pipe now e)"
proof -
  obtain code e0 where c: "check_packet_sequence t seq now e = (code, e0)" by fastforce
  have "code \<in> {2, 4}" using seq_step(1) [OF assms(1) _ c] s by (simp add: spent_def)
  then show ?thesis using c by (auto simp: accept_report_def Let_def)
qed

lemma fill_status_key:
  "fill_status t pkt e = (pkt', e') \<Longrightarrow> seq_key (tracker_slots e' ! u) = seq_key (tracker_slots e ! u) \<and>
     length (tracker_slots e') = length (tracker_slots e) \<and> stored_trackers e' = stored_trackers e"
  by (cases "t < length (tracker_slots e)"; cases "u = t")
    (auto simp: fill_status_def Let_def update_slot_def seq_key_def list_update_beyond)

lemma forward_report_key:
  "forward_report t pkt rssi r = (acts, r') \<Longrightarrow> seq_key (tracker_slots (rc_esb r') ! u) = seq_key (tracker_slots (rc_esb r) ! u) \<and>
     length (tracker_slots (rc_esb r')) = length (tracker_slots (rc_esb r)) \<and>
     stored_trackers (rc_esb r') = stored_trackers (rc_esb r)"
  using fill_status_key by (fastforce simp: forward_report_def Let_def split: prod.splits if_splits)

lemma composite_forward_key:
  "composite_forward t d fe rssi n pos r = (acts, r') \<Longrightarrow>
     seq_key (tracker_slots (rc_esb r') ! u) = seq_key (tracker_slots (rc_esb r) ! u) \<and>
     length (tracker_slots (rc_esb r')) = length (tracker_slots (rc_esb r)) \<and>
     stored_trackers (rc_esb r') = stored_trackers (rc_esb r)"
proof (induction t d fe rssi n pos r arbitrary: acts r' rule: composite_forward.induct)
  case (2 t d fe rssi n pos r)
  show ?case
  proof (cases "fe \<le> pos \<or> composite_body_length (d ! pos) = None \<or> fe < pos + 1 + the (composite_body_length (d ! pos))")
    case True
    then show ?thesis using 2(2) by (auto split: option.splits if_splits)
  next
    case False
    then obtain len where len: "composite_body_length (d ! pos) = Some len" by auto
    define body where "body = take (min len 14) (drop (pos + 1) d)"
    obtain acts1 r1 where q: "forward_report t ([d ! pos, of_nat t] @ body @ replicate (14 - min len 14) 0) rssi r = (acts1, r1)"
      by fastforce
    obtain more r2 where m: "composite_forward t d fe rssi n (pos + 1 + len) r1 = (more, r2)" by fastforce
    have "r' = r2" using 2(2) False len q m by (simp add: body_def Let_def)
    with 2(1) [OF _ len _ refl _ q [symmetric, unfolded body_def] refl m] forward_report_key [OF q] False len
    show ?thesis by (simp add: body_def)
  qed
qed simp

lemma forward_spent:
  assumes "forward_report u pkt rssi r = (acts, r1)" and "spent (rc_esb r) t seq"
  shows "spent (rc_esb r1) t seq \<and> stored_trackers (rc_esb r1) = stored_trackers (rc_esb r)"
proof -
  note k = forward_report_key [OF assms(1), of t]
  have "spent (rc_esb r1) t seq = spent (rc_esb r) t seq" by (rule spent_key) (use k in blast)+
  then show ?thesis using k assms(2) by blast
qed

lemma composite_spent:
  assumes "composite_forward u d fe rssi n pos r = (acts, r1)" and "spent (rc_esb r) t seq"
  shows "spent (rc_esb r1) t seq \<and> stored_trackers (rc_esb r1) = stored_trackers (rc_esb r)"
proof -
  note k = composite_forward_key [OF assms(1), of t]
  have "spent (rc_esb r1) t seq = spent (rc_esb r) t seq" by (rule spent_key) (use k in blast)+
  then show ?thesis using k assms(2) by blast
qed

lemma check_roster [simp]:
  "check_packet_sequence t seq now e = (code, e1) \<Longrightarrow> stored_trackers e1 = stored_trackers e"
  by (auto simp: check_packet_sequence_def update_slot_def decision_accept_def Let_def split: if_splits)

lemma accept_roster: "accept_report t seq pipe now e = (b, e1) \<Longrightarrow> stored_trackers e1 = stored_trackers e"
  by (auto simp: accept_report_def Let_def split: prod.splits if_splits)

lemma report_twice:
  assumes len: "length (tracker_slots (rc_esb r)) = MAX_TRACKERS"
    and a: "receive_report env f r = (acts, r1)"
  shows "fst (receive_report env' f r1) = []"
proof -
  define t where "t = unat (rx_data f ! 1)"
  define seq where "seq = rx_data f ! 16"
  show ?thesis
  proof (cases "223 < rx_data f ! 0 \<or> stored_trackers (rc_esb r) \<le> t \<or> MAX_TRACKERS \<le> t")
    case True
    then show ?thesis using a by (auto simp: receive_report_def Let_def t_def)
  next
    case False
    obtain b e where q: "accept_report t seq (rx_pipe f) (re_now env) (rc_esb r) = (b, e)" by fastforce
    have s: "spent e t seq" "stored_trackers e = stored_trackers (rc_esb r)"
      using accept_spends [OF _ len q] accept_roster [OF q] False by auto
    have r: "(if b then forward_report t (take 16 (rx_data f)) (rx_rssi f) (r\<lparr>rc_esb := e\<rparr>) else ([], r\<lparr>rc_esb := e\<rparr>)) = (acts, r1)"
      using a False q unfolding receive_report_def Let_def t_def seq_def by (cases b) simp_all
    have 1: "spent (rc_esb r1) t seq \<and> stored_trackers (rc_esb r1) = stored_trackers (rc_esb r)"
    proof (cases b)
      case True
      then have "forward_report t (take 16 (rx_data f)) (rx_rssi f) (r\<lparr>rc_esb := e\<rparr>) = (acts, r1)" using r by simp
      from forward_spent [OF this, of t seq] show ?thesis using s by simp
    next
      case False
      then show ?thesis using r s by auto
    qed
    then have "\<not> fst (accept_report t seq (rx_pipe f) (re_now env') (rc_esb r1))" using spent_refused False by simp
    then obtain e2 where "accept_report t seq (rx_pipe f) (re_now env') (rc_esb r1) = (False, e2)" by (metis prod.collapse)
    then show ?thesis unfolding receive_report_def Let_def t_def seq_def by (simp split: if_splits)
  qed
qed

lemma take_event_esb [simp]: "rc_esb (take_event env packet r) = rc_esb r"
  by (simp add: take_event_def)

lemma composite_twice:
  assumes len: "length (tracker_slots (rc_esb r)) = MAX_TRACKERS"
    and a: "esb_receive_composite env f r = (acts, r1)"
  shows "fst (esb_receive_composite env' f r1) = []"
proof -
  define d where "d = rx_data f"
  define t where "t = unat (d ! 1)"
  define seq where "seq = d ! (rx_length f - 1)"
  define valid where "valid = composite_valid (d ! 1) d (rx_length f) (unat (d ! 2))"
  note defs = d_def [symmetric] t_def [symmetric] seq_def [symmetric] valid_def [symmetric]
  show ?thesis
  proof (cases "rx_length f < 5 \<or> d ! 0 \<noteq> ESB_COMPOSITE_TYPE \<or> stored_trackers (rc_esb r) \<le> t \<or> MAX_TRACKERS \<le> t \<or> valid = None")
    case True
    then have "r1 = r" using a unfolding esb_receive_composite_def Let_def defs by (auto split: if_splits)
    then show ?thesis using True unfolding esb_receive_composite_def Let_def defs by auto
  next
    case False
    then obtain p where p: "valid = Some p" by auto
    define left where "left = (if p \<noteq> 0 then unat (d ! 2) - 1 else unat (d ! 2))"
    define ra where "ra = (if p \<noteq> 0 then take_event env ([TRACKER_EVENT_ESB_TYPE, d ! 1] @ take TRACKER_EVENT_BODY_LEN (drop p d)) r else r)"
    have ra: "rc_esb ra = rc_esb r" by (simp add: ra_def)
    obtain b e where q: "accept_report t seq (rx_pipe f) (re_now env) (rc_esb r) = (b, e)" by fastforce
    have s: "spent e t seq" "stored_trackers e = stored_trackers (rc_esb r)"
      using accept_spends [OF _ len q] accept_roster [OF q] False by auto
    have r: "(if left = 0 then ([], ra) else if b then composite_forward t d (rx_length f - 1) (rx_rssi f) left 3 (ra\<lparr>rc_esb := e\<rparr>)
        else ([], ra\<lparr>rc_esb := e\<rparr>)) = (acts, r1)"
    proof -
      have n: "(rx_length f < 5 \<or> d ! 0 \<noteq> ESB_COMPOSITE_TYPE) = False" "(stored_trackers (rc_esb r) \<le> t \<or> MAX_TRACKERS \<le> t) = False"
        using False by auto
      show ?thesis using a unfolding esb_receive_composite_def Let_def defs
        by (simp only: n if_False p option.case ra_def [symmetric] left_def [symmetric] ra q prod.case)
    qed
    have 1: "left = 0 \<or> spent (rc_esb r1) t seq" "stored_trackers (rc_esb r1) = stored_trackers (rc_esb r)"
    proof -
      consider "left = 0" "r1 = ra" | "left \<noteq> 0" "b" "composite_forward t d (rx_length f - 1) (rx_rssi f) left 3 (ra\<lparr>rc_esb := e\<rparr>) = (acts, r1)"
        | "left \<noteq> 0" "r1 = ra\<lparr>rc_esb := e\<rparr>" using r by (auto split: if_splits)
      then have "(left = 0 \<or> spent (rc_esb r1) t seq) \<and> stored_trackers (rc_esb r1) = stored_trackers (rc_esb r)"
      proof cases
        case 2
        from composite_spent [OF 2(3), of t seq] s show ?thesis by simp
      qed (use ra s in auto)
      then show "left = 0 \<or> spent (rc_esb r1) t seq" "stored_trackers (rc_esb r1) = stored_trackers (rc_esb r)" by blast+
    qed
    have "left = 0 \<or> \<not> fst (accept_report t seq (rx_pipe f) (re_now env') (rc_esb r1))"
      using 1(1) spent_refused False by auto
    then show ?thesis
      using False p 1(2) unfolding esb_receive_composite_def Let_def defs
      by (auto simp: left_def split: prod.split)
  qed
qed

lemma ping_no_forward: "esb_receive_ping env f e = (acts, e1) \<Longrightarrow> RxForward pkt rssi \<notin> set acts"
  by (auto simp: esb_receive_ping_def command_echo_def Let_def split: prod.splits if_splits)

lemma raw_no_forward: "raw_packet env f r = (acts, r1) \<Longrightarrow> RxForward pkt rssi \<notin> set acts"
  by (auto simp: raw_packet_def Let_def split: prod.splits if_splits)

lemma packet_twice:
  assumes len: "length (tracker_slots (rc_esb r)) = MAX_TRACKERS"
    and a: "receive_packet env f r = (acts, r1)" and b: "receive_packet env' f r1 = (acts2, r2)"
  shows "RxForward pkt rssi \<notin> set acts2"
proof -
  let ?disc = "rx_pipe f = 0 \<and> rx_length f = 8"
  consider (composite) "\<not> ?disc" "rx_data f ! 0 \<noteq> TRACKER_EVENT_ESB_TYPE" "rx_data f ! 0 = ESB_COMPOSITE_TYPE"
    | (report) "?disc \<or> rx_data f ! 0 \<noteq> TRACKER_EVENT_ESB_TYPE" "?disc \<or> rx_data f ! 0 \<noteq> ESB_COMPOSITE_TYPE" "rx_length f = 17"
    | (other) "\<not> (\<not> ?disc \<and> rx_data f ! 0 \<noteq> TRACKER_EVENT_ESB_TYPE \<and> rx_data f ! 0 = ESB_COMPOSITE_TYPE)"
        "\<not> ((?disc \<or> rx_data f ! 0 \<noteq> TRACKER_EVENT_ESB_TYPE) \<and> (?disc \<or> rx_data f ! 0 \<noteq> ESB_COMPOSITE_TYPE) \<and> rx_length f = 17)"
    by blast
  then show ?thesis
  proof cases
    case composite
    then have "esb_receive_composite env f r = (acts, r1)" "esb_receive_composite env' f r1 = (acts2, r2)"
      using a b by (auto simp: receive_packet_def Let_def)
    with composite_twice [OF len, of env f acts r1 env'] show ?thesis by simp
  next
    case report
    then have "receive_report env f r = (acts, r1)" "receive_report env' f r1 = (acts2, r2)"
      using a b by (auto simp: receive_packet_def Let_def)
    with report_twice [OF len, of env f acts r1 env'] show ?thesis by simp
  next
    case other
    then show ?thesis
      using b unfolding receive_packet_def Let_def
      by (auto dest!: ping_no_forward raw_no_forward split: if_splits prod.splits)
  qed
qed

text \<open>
  Claim C3. A report reaches the host once. The radio delivers a packet again when its acknowledgement was lost. Whatever
  the packet is, ordinary report, composite or anything else, and whether its first copy was accepted or
  not, its second copy forwards no report, at any later time and with any channel reading.
\<close>

theorem retransmission_not_forwarded:
  assumes "length (tracker_slots (rc_esb (rs_receiver rs))) = MAX_TRACKERS"
    and "receive_frame env f rs = (acts, rs1)" and "receive_frame env' f rs1 = (acts2, rs2)"
  shows "RxForward pkt rssi \<notin> set acts2"
proof -
  obtain b a where q: "auto_channel_receive (rx_data f) (rx_length f) (rx_pipe f) (physical_home (re_physical env)) (re_now env)
      (rs_auto rs) = (b, a)" by fastforce
  obtain b' a' where q': "auto_channel_receive (rx_data f) (rx_length f) (rx_pipe f) (physical_home (re_physical env')) (re_now env')
      (rs_auto rs1) = (b', a')" by fastforce
  have same: "b = auto_channel_is_beacon (rx_data f) (rx_length f)" "b' = b"
    using q q' by (auto simp: auto_channel_receive_def split: if_splits)
  show ?thesis
  proof (cases "rx_length f = 0 \<or> b")
    case True
    then show ?thesis using assms(3) q' same by (cases "rx_length f = 0") (auto simp: receive_frame_def)
  next
    case False
    obtain x r where x: "receive_packet env f (rs_receiver rs) = (x, r)" by fastforce
    obtain y r' where y: "receive_packet env' f r = (y, r')" by fastforce
    have "rs_receiver rs1 = r" "acts2 = y" using assms(2,3) q q' same False x y by (auto simp: receive_frame_def)
    then show ?thesis using packet_twice [OF assms(1) x y] by simp
  qed
qed

end
