(* ===== verification/CompositeCorrect.thy ===== *)
theory CompositeCorrect
  imports ReceptionCorrect
begin

text \<open>
  Composite packets: a list of records, an optional tracker event at the end and a sequence number. What is sent is what
  is forwarded, and a packet that is not of this form has no effect.
\<close>

section \<open>The format\<close>

text \<open>The kinds of reports with the lengths of their bodies: device, full and compact orientation, status, orientation with field, run time.\<close>

definition record_formats :: "(u8 \<times> nat) list" where
  "record_formats = [(0, 13), (1, 14), (2, 13), (3, 2), (4, 14), (5, 8)]"

definition record_ok :: "u8 \<times> bytes \<Rightarrow> bool" where
  "record_ok x \<longleftrightarrow> (fst x, length (snd x)) \<in> set record_formats"

lemma record_ok_iff:
  "record_ok x \<longleftrightarrow> fst x \<noteq> TRACKER_EVENT_ESB_TYPE \<and> composite_body_length (fst x) = Some (length (snd x))"
  by (auto simp: record_ok_def record_formats_def composite_body_length_def split: if_splits)

definition record_bytes :: "u8 \<times> bytes \<Rightarrow> bytes" where
  "record_bytes x = fst x # snd x"

definition records_bytes :: "(u8 \<times> bytes) list \<Rightarrow> bytes" where
  "records_bytes xs = concat (map record_bytes xs)"

definition event_bytes :: "bytes option \<Rightarrow> bytes" where
  "event_bytes ev = (case ev of None \<Rightarrow> [] | Some b \<Rightarrow> TRACKER_EVENT_ESB_TYPE # b)"

definition event_ok :: "u8 \<Rightarrow> bytes option \<Rightarrow> bool" where
  "event_ok tr ev \<longleftrightarrow> (case ev of None \<Rightarrow> True | Some b \<Rightarrow> tracker_event_decode_body tr b \<noteq> None)"

definition record_count :: "(u8 \<times> bytes) list \<Rightarrow> bytes option \<Rightarrow> nat" where
  "record_count xs ev = length xs + (case ev of None \<Rightarrow> 0 | Some _ \<Rightarrow> 1)"

definition composite_packet :: "nat \<Rightarrow> (u8 \<times> bytes) list \<Rightarrow> bytes option \<Rightarrow> u8 \<Rightarrow> bytes" where
  "composite_packet t xs ev seq =
     [ESB_COMPOSITE_TYPE, of_nat t, of_nat (record_count xs ev)] @ records_bytes xs @ event_bytes ev @ [seq]"

text \<open>The sixteen byte reports; the first status report takes the loss counters, which are then zero.\<close>

fun reports_of :: "nat \<Rightarrow> u16 \<Rightarrow> u16 \<Rightarrow> (u8 \<times> bytes) list \<Rightarrow> bytes list" where
  "reports_of t received lost [] = []"
| "reports_of t received lost (x # xs) =
     (let pkt = [fst x, of_nat t] @ snd x @ replicate (14 - length (snd x)) 0
      in if fst x = 3 then pkt[4 := ucast received, 5 := ucast lost, 6 := 0, 7 := 0] # reports_of t 0 0 xs
         else pkt # reports_of t received lost xs)"

definition forwarded :: "rx_action list \<Rightarrow> bytes list" where
  "forwarded acts = concat (map (\<lambda>a. case a of RxForward p _ \<Rightarrow> [p] | _ \<Rightarrow> []) acts)"

lemma forwarded_simps [simp]:
  "forwarded [] = []" "forwarded (xs @ ys) = forwarded xs @ forwarded ys" "forwarded (map RxHid hs) = []"
  "forwarded (RxForward p s # xs) = p # forwarded xs"
  by (induction hs) (simp_all add: forwarded_def)

lemma body_bounds: "composite_body_length ty = Some n \<Longrightarrow> 0 < n \<and> n \<le> 15 \<and> (ty \<noteq> TRACKER_EVENT_ESB_TYPE \<longrightarrow> n \<le> 14)"
  by (auto simp: composite_body_length_def split: if_splits)

lemma record_len: "record_ok x \<Longrightarrow> length (snd x) \<le> 14"
  using body_bounds by (auto simp: record_ok_iff)

lemma records_cons [simp]: "records_bytes (x # xs) = fst x # snd x @ records_bytes xs" "records_bytes [] = []"
  by (simp_all add: records_bytes_def record_bytes_def)

section \<open>Forwarding\<close>

definition counters :: "nat \<Rightarrow> esb \<Rightarrow> u16 \<times> u16" where
  "counters t e = (status_received (slot_stats (tracker_slots e ! t)), status_lost (slot_stats (tracker_slots e ! t)))"

lemma forward_one:
  assumes t: "t < length (tracker_slots (rc_esb r))" and q: "forward_report t pkt rssi r = (acts, r1)"
  shows "forwarded acts = [if pkt ! 0 = 3 then pkt[4 := ucast (fst (counters t (rc_esb r))), 5 := ucast (snd (counters t (rc_esb r))),
      6 := 0, 7 := 0] else pkt]"
    "counters t (rc_esb r1) = (if pkt ! 0 = 3 then (0, 0) else counters t (rc_esb r))"
    "length (tracker_slots (rc_esb r1)) = length (tracker_slots (rc_esb r))" "rc_events r1 = rc_events r"
  using q t by (auto simp: forward_report_def fill_status_def counters_def Let_def split: prod.splits if_splits)

lemma forward_records:
  assumes "list_all record_ok xs" and "t < length (tracker_slots (rc_esb r))"
    and "d = pre @ records_bytes xs @ rest" and "length pre + length (records_bytes xs) \<le> fe"
    and "composite_forward t d fe rssi (length xs) (length pre) r = (acts, r1)"
  shows "forwarded acts = reports_of t (fst (counters t (rc_esb r))) (snd (counters t (rc_esb r))) xs \<and>
    rc_events r1 = rc_events r"
  using assms
proof (induction xs arbitrary: pre r acts)
  case (Cons x xs)
  obtain ty b where x: "x = (ty, b)" by fastforce
  have ok: "ty \<noteq> TRACKER_EVENT_ESB_TYPE" "composite_body_length ty = Some (length b)" "length b \<le> 14"
    using Cons.prems(1) record_len [of x] by (auto simp: record_ok_iff x)
  have ty: "d ! length pre = ty" and b: "take (length b) (drop (length pre + 1) d) = b"
    using Cons.prems(3) by (simp_all add: x nth_append)
  define pkt where "pkt = [ty, of_nat t] @ b @ replicate (14 - length b) 0"
  obtain acts1 r1' where q: "forward_report t pkt rssi r = (acts1, r1')" by fastforce
  obtain more r2 where m: "composite_forward t d fe rssi (length xs) (length pre + 1 + length b) r1' = (more, r2)" by fastforce
  have split: "acts = acts1 @ more" "r1 = r2"
    using Cons.prems(4,5) ok ty b q m by (auto simp: x Let_def pkt_def min_def split: if_splits)
  note one = forward_one [OF Cons.prems(2) q]
  have "forwarded more = reports_of t (fst (counters t (rc_esb r1'))) (snd (counters t (rc_esb r1'))) xs \<and> rc_events r1 = rc_events r1'"
    by (rule Cons.IH [of r1' "pre @ ty # b" more])
      (use Cons.prems m one split in \<open>auto simp: x\<close>)
  then show ?case using one split by (auto simp: x pkt_def Let_def)
qed simp

section \<open>The check\<close>

lemma scan_records:
  assumes "list_all record_ok xs" and "d = pre @ records_bytes xs @ rest" and "length pre + length (records_bytes xs) \<le> fe"
  shows "composite_scan tr d fe (length xs + m) (length pre) p =
    composite_scan tr d fe m (length pre + length (records_bytes xs)) p"
  using assms
proof (induction xs arbitrary: pre)
  case (Cons x xs)
  obtain ty b where x: "x = (ty, b)" by fastforce
  have ok: "ty \<noteq> TRACKER_EVENT_ESB_TYPE" "composite_body_length ty = Some (length b)"
    using Cons.prems(1) by (auto simp: record_ok_iff x)
  have ty: "d ! length pre = ty" using Cons.prems(2) by (simp add: x nth_append)
  have "composite_scan tr d fe (length xs + m) (length pre + 1 + length b) p =
      composite_scan tr d fe m (length pre + 1 + length b + length (records_bytes xs)) p"
    using Cons.IH [of "pre @ ty # b"] Cons.prems by (simp add: x)
  then show ?case using ok ty Cons.prems(3) by (simp add: x add.commute add.left_commute)
qed simp

lemma packet_event:
  assumes ev: "ev = Some b" and d: "d = composite_packet t xs ev seq @ rest"
  shows "take (length b) (drop (4 + length (records_bytes xs)) d) = b"
proof -
  let ?pre = "[ESB_COMPOSITE_TYPE, of_nat t, of_nat (record_count xs ev)] @ records_bytes xs @ [TRACKER_EVENT_ESB_TYPE]"
  have "d = ?pre @ b @ seq # rest" by (simp add: d ev composite_packet_def event_bytes_def)
  moreover have "length ?pre = 4 + length (records_bytes xs)" by simp
  ultimately show ?thesis by (metis append_eq_conv_conj)
qed

lemma packet_end:
  assumes "d = composite_packet t xs ev seq @ rest" and "len = length (composite_packet t xs ev seq)"
  shows "d ! (len - 1) = seq"
  using assms by (simp add: composite_packet_def nth_append)

lemma packet_long:
  assumes "list_all record_ok xs" "event_ok tr ev" "xs \<noteq> [] \<or> ev \<noteq> None"
  shows "5 \<le> length (composite_packet t xs ev seq)"
proof (cases xs)
  case Nil
  then obtain b where "ev = Some b" using assms(3) by auto
  then show ?thesis using assms(2) by (auto simp: composite_packet_def event_bytes_def event_ok_def tracker_event_decode_body_def split: if_splits)
next
  case (Cons x ys)
  then have "0 < length (snd x)" using assms(1) body_bounds by (auto simp: record_ok_iff)
  then show ?thesis by (simp add: composite_packet_def Cons)
qed

lemma valid_packet:
  assumes ok: "list_all record_ok xs" "event_ok tr ev" "xs \<noteq> [] \<or> ev \<noteq> None"
    and d: "d = composite_packet t xs ev seq @ rest" and len: "len = length (composite_packet t xs ev seq)"
  shows "composite_valid tr d len (record_count xs ev) =
    Some (case ev of None \<Rightarrow> 0 | Some _ \<Rightarrow> 4 + length (records_bytes xs))"
proof -
  define pre where "pre = [ESB_COMPOSITE_TYPE, of_nat t, of_nat (record_count xs ev)]"
  have fe: "len - 1 = 3 + length (records_bytes xs) + length (event_bytes ev)" by (simp add: len composite_packet_def)
  have d': "d = pre @ records_bytes xs @ (event_bytes ev @ [seq] @ rest)" by (simp add: d composite_packet_def pre_def)
  have l3: "length pre = 3" by (simp add: pre_def)
  have scan: "composite_scan tr d (len - 1) (length xs + m) 3 0 = composite_scan tr d (len - 1) m (3 + length (records_bytes xs)) 0" for m
    using scan_records [OF ok(1) d', of "len - 1" tr m 0] fe unfolding l3 by simp
  have n: "record_count xs ev \<noteq> 0" using ok(3) by (auto simp: record_count_def)
  show ?thesis
  proof (cases ev)
    case None
    then show ?thesis using n scan [of 0] fe by (simp add: composite_valid_def record_count_def event_bytes_def)
  next
    case (Some b)
    have dec: "tracker_event_decode_body tr b \<noteq> None" using ok(2) Some by (simp add: event_ok_def)
    then have lb: "length b = TRACKER_EVENT_BODY_LEN" by (auto simp: tracker_event_decode_body_def split: if_splits)
    have b: "take (length b) (drop (4 + length (records_bytes xs)) d) = b"
      using packet_event [OF Some d] .
    have e: "d ! (3 + length (records_bytes xs)) = TRACKER_EVENT_ESB_TYPE"
      by (simp add: d' pre_def Some event_bytes_def nth_append)
    have bl: "composite_body_length TRACKER_EVENT_ESB_TYPE = Some (length b)"
      using lb by (simp add: composite_body_length_def)
    have "composite_scan tr d (len - 1) (Suc 0) (3 + length (records_bytes xs)) 0 = Some (False, len - 1, 4 + length (records_bytes xs))"
      using e bl b dec fe by (simp add: Some event_bytes_def)
    then show ?thesis using n scan [of "Suc 0"] by (simp add: composite_valid_def record_count_def Some)
  qed
qed

section \<open>The round trip\<close>

lemma bytes_of_nat: "k < 256 \<Longrightarrow> unat (of_nat k :: u8) = k"
  by (simp add: unat_of_nat)

text \<open>
  Claim C4. What a tracker puts into a composite packet is what the host gets. Let the packet consist of records of the
  known kinds, with an optional tracker event as the last one, and of a sequence number. If the number is
  new, the records are forwarded in order as reports of sixteen bytes with the tracker's number, padded
  with zeros, the first status report with the loss counters; if it is not, nothing is
  forwarded. The event goes to the event service exactly once either way, because it has its own numbers.
\<close>

theorem composite_round_trip:
  assumes xs: "list_all record_ok xs" and ev: "event_ok (of_nat t) ev" "xs \<noteq> [] \<or> ev \<noteq> None" "record_count xs ev < 256"
    and d: "rx_data f = composite_packet t xs ev seq @ rest" and len: "rx_length f = length (composite_packet t xs ev seq)"
    and pipe: "rx_pipe f \<noteq> 0" and t: "t < MAX_TRACKERS" "t < stored_trackers (rc_esb r)"
    and slots: "length (tracker_slots (rc_esb r)) = MAX_TRACKERS"
    and a: "accept_report t seq (rx_pipe f) (re_now env) (rc_esb r) = (new, e)"
    and r: "receive_packet env f r = (acts, r1)"
  shows "forwarded acts = (if new then reports_of t (fst (counters t e)) (snd (counters t e)) xs else []) \<and>
    rc_events r1 = (case ev of None \<Rightarrow> rc_events r
      | Some b \<Rightarrow> snd (tracker_events_receive (re_msgq env) (rc_events r) ([TRACKER_EVENT_ESB_TYPE, of_nat t] @ b) (of_int (re_now env))))"
proof -
  define n where "n = record_count xs ev"
  define p where "p = (case ev of None \<Rightarrow> 0 | Some _ \<Rightarrow> 4 + length (records_bytes xs))"
  define left where "left = (if p \<noteq> 0 then n - 1 else n)"
  define ra where "ra = (if p \<noteq> 0 then take_event env ([TRACKER_EVENT_ESB_TYPE, of_nat t] @ take TRACKER_EVENT_BODY_LEN (drop p (rx_data f))) r else r)"
  have h: "rx_data f ! 0 = ESB_COMPOSITE_TYPE" "rx_data f ! 1 = of_nat t" "unat (rx_data f ! 2) = n" "unat (of_nat t :: u8) = t"
    using t(1) ev(3) by (simp_all add: d composite_packet_def n_def bytes_of_nat)
  have v: "composite_valid (of_nat t) (rx_data f) (rx_length f) n = Some p"
    unfolding n_def p_def by (rule valid_packet [OF xs ev(1,2) d len])
  have g: "(rx_length f < 5 \<or> ESB_COMPOSITE_TYPE \<noteq> ESB_COMPOSITE_TYPE) = False"
    "(stored_trackers (rc_esb r) \<le> t \<or> MAX_TRACKERS \<le> t) = False"
    using packet_long [OF xs ev(1,2), of t seq] len t by auto
  have esb: "rc_esb ra = rc_esb r" by (simp add: ra_def)
  have left: "left = length xs" by (auto simp: left_def n_def p_def record_count_def split: option.split)
  have events: "rc_events ra = (case ev of None \<Rightarrow> rc_events r
      | Some b \<Rightarrow> snd (tracker_events_receive (re_msgq env) (rc_events r) ([TRACKER_EVENT_ESB_TYPE, of_nat t] @ b) (of_int (re_now env))))"
  proof (cases ev)
    case (Some b)
    then have "length b = TRACKER_EVENT_BODY_LEN" using ev(1) by (auto simp: event_ok_def tracker_event_decode_body_def split: if_splits)
    then show ?thesis using packet_event [OF Some d] by (simp add: ra_def p_def Some take_event_def)
  qed (simp add: ra_def p_def)
  have "receive_packet env f r = esb_receive_composite env f r"
    using h(1) pipe by (simp add: receive_packet_def)
  then have c: "(if left = 0 then ([], ra) else if new then composite_forward t (rx_data f) (rx_length f - 1) (rx_rssi f) left 3 (ra\<lparr>rc_esb := e\<rparr>)
      else ([], ra\<lparr>rc_esb := e\<rparr>)) = (acts, r1)"
    using r unfolding esb_receive_composite_def Let_def h
    by (simp only: g if_False v option.case ra_def [symmetric] left_def [symmetric] esb a prod.case packet_end [OF d len])
  show ?thesis
  proof (cases "xs = [] \<or> \<not> new")
    case True
    then show ?thesis using c left events by (auto split: if_splits)
  next
    case False
    define pre where "pre = [ESB_COMPOSITE_TYPE, of_nat t, of_nat n]"
    have l3: "length pre = 3" by (simp add: pre_def)
    have d': "rx_data f = pre @ records_bytes xs @ (event_bytes ev @ [seq] @ rest)" by (simp add: d composite_packet_def pre_def n_def)
    have fe: "length pre + length (records_bytes xs) \<le> rx_length f - 1" by (simp add: len composite_packet_def pre_def)
    have te: "t < length (tracker_slots (rc_esb (ra\<lparr>rc_esb := e\<rparr>)))" using accept_spends [OF t(1) slots a] t(1) by (simp add: spent_def)
    have "composite_forward t (rx_data f) (rx_length f - 1) (rx_rssi f) (length xs) (length pre) (ra\<lparr>rc_esb := e\<rparr>) = (acts, r1)"
      using c False left by (simp add: l3)
    from forward_records [OF xs te d' fe this] show ?thesis using False events by simp
  qed
qed

section \<open>Malformed packets\<close>

text \<open>What the check has found when it succeeds.\<close>

definition scanned :: "u8 \<Rightarrow> bytes \<Rightarrow> nat \<Rightarrow> nat \<Rightarrow> nat \<Rightarrow> nat \<Rightarrow> bool \<times> nat \<times> nat \<Rightarrow> (u8 \<times> bytes) list \<Rightarrow> bool" where
  "scanned tr d fe n pos p res xs \<longleftrightarrow> list_all record_ok xs \<and> (\<exists>rest. drop pos d = records_bytes xs @ rest) \<and>
     (let q = pos + length (records_bytes xs)
      in n = length xs \<and> res = (False, q, p) \<or>
         n = length xs + 1 \<and> q < fe \<and> d ! q = TRACKER_EVENT_ESB_TYPE \<and> q + 1 + TRACKER_EVENT_BODY_LEN \<le> fe \<and>
           tracker_event_decode_body tr (take TRACKER_EVENT_BODY_LEN (drop (q + 1) d)) \<noteq> None \<and>
           res = (False, q + 1 + TRACKER_EVENT_BODY_LEN, q + 1) \<or>
         length xs < n \<and> q < fe \<and> composite_body_length (d ! q) = None \<and> res = (True, q + 1, p))"

lemma scanned_cons:
  assumes "scanned tr d fe n (pos + 1 + len) p res xs" and "composite_body_length (d ! pos) = Some len"
    and "d ! pos \<noteq> TRACKER_EVENT_ESB_TYPE" and "pos + 1 + len \<le> length d"
  shows "scanned tr d fe (Suc n) pos p res ((d ! pos, take len (drop (pos + 1) d)) # xs)"
proof -
  let ?b = "take len (drop (pos + 1) d)"
  obtain rest where rest: "drop (pos + 1 + len) d = records_bytes xs @ rest" using assms(1) by (auto simp: scanned_def)
  have l: "length ?b = len" using assms(4) by simp
  have "drop pos d = d ! pos # drop (pos + 1) d" using assms(4) by (simp add: Cons_nth_drop_Suc)
  also have "drop (pos + 1) d = ?b @ drop (pos + 1 + len) d" by (metis append_take_drop_id drop_drop add.commute)
  finally have "drop pos d = records_bytes ((d ! pos, ?b) # xs) @ rest" using rest by simp
  then have r: "\<exists>rest. drop pos d = records_bytes ((d ! pos, ?b) # xs) @ rest" by blast
  have ok: "list_all record_ok ((d ! pos, ?b) # xs)" using assms l by (simp add: scanned_def record_ok_iff)
  define q where "q = pos + 1 + len + length (records_bytes xs)"
  have q: "pos + length (records_bytes ((d ! pos, ?b) # xs)) = q" using l by (simp add: q_def)
  have count: "Suc n = length ((d ! pos, ?b) # xs) \<longleftrightarrow> n = length xs" "Suc n = length ((d ! pos, ?b) # xs) + 1 \<longleftrightarrow> n = length xs + 1"
    "length ((d ! pos, ?b) # xs) < Suc n \<longleftrightarrow> length xs < n" by simp_all
  have "n = length xs \<and> res = (False, q, p) \<or>
         n = length xs + 1 \<and> q < fe \<and> d ! q = TRACKER_EVENT_ESB_TYPE \<and> q + 1 + TRACKER_EVENT_BODY_LEN \<le> fe \<and>
           tracker_event_decode_body tr (take TRACKER_EVENT_BODY_LEN (drop (q + 1) d)) \<noteq> None \<and>
           res = (False, q + 1 + TRACKER_EVENT_BODY_LEN, q + 1) \<or>
         length xs < n \<and> q < fe \<and> composite_body_length (d ! q) = None \<and> res = (True, q + 1, p)"
    using assms(1) unfolding scanned_def Let_def q_def by blast
  then show ?thesis unfolding scanned_def Let_def q count using r ok by blast
qed

lemma scan_sound:
  "composite_scan tr d fe n pos p = Some res \<Longrightarrow> pos \<le> fe \<Longrightarrow> fe \<le> length d \<Longrightarrow> \<exists>xs. scanned tr d fe n pos p res xs"
proof (induction n arbitrary: pos p)
  case 0
  then show ?case by (intro exI [of _ "[]"]) (simp add: scanned_def)
next
  case (Suc n)
  have fe: "pos < fe" using Suc.prems(1) by (simp split: if_splits)
  show ?case
  proof (cases "composite_body_length (d ! pos)")
    case None
    then show ?thesis using Suc.prems fe by (intro exI [of _ "[]"]) (simp add: scanned_def Let_def)
  next
    case (Some len)
    have len: "pos + 1 + len \<le> fe" using Suc.prems(1) fe Some by (simp split: if_splits)
    show ?thesis
    proof (cases "d ! pos = TRACKER_EVENT_ESB_TYPE")
      case True
      then have l15: "len = TRACKER_EVENT_BODY_LEN" using Some by (simp add: composite_body_length_def)
      have "n = 0" "tracker_event_decode_body tr (take len (drop (pos + 1) d)) \<noteq> None"
        and r: "composite_scan tr d fe n (pos + 1 + len) (pos + 1) = Some res"
        using Suc.prems(1) fe Some len True by (auto split: if_splits)
      then show ?thesis using True len fe l15
        by (intro exI [of _ "[]"]) (simp add: scanned_def Let_def)
    next
      case False
      then have "composite_scan tr d fe n (pos + 1 + len) p = Some res"
        using Suc.prems(1) fe Some len by (simp split: if_splits)
      then obtain xs where "scanned tr d fe n (pos + 1 + len) p res xs" using Suc.IH len Suc.prems(3) by blast
      from scanned_cons [OF this Some False] show ?thesis using len Suc.prems(3) by auto
    qed
  qed
qed

definition well_formed :: "u8 \<Rightarrow> bytes \<Rightarrow> bool" where
  "well_formed tr pkt \<longleftrightarrow> (\<exists>n xs tail seq. pkt = [ESB_COMPOSITE_TYPE, tr, n] @ records_bytes xs @ tail @ [seq] \<and>
     list_all record_ok xs \<and> n \<noteq> 0 \<and>
     (tail = [] \<and> unat n = length xs \<or>
      (\<exists>b. tail = event_bytes (Some b) \<and> event_ok tr (Some b) \<and> unat n = length xs + 1) \<or>
      tail \<noteq> [] \<and> composite_body_length (hd tail) = None \<and> length xs < unat n))"

lemma valid_well_formed:
  assumes len: "5 \<le> len" "len \<le> length d" and ty: "d ! 0 = ESB_COMPOSITE_TYPE"
    and v: "composite_valid (d ! 1) d len (unat (d ! 2)) = Some p"
  shows "well_formed (d ! 1) (take len d)"
proof -
  define tr where "tr = d ! 1"
  define fe where "fe = len - 1"
  obtain unknown pos' p' where r: "composite_scan tr d fe (unat (d ! 2)) 3 0 = Some (unknown, pos', p')"
    and u: "unknown \<or> pos' = fe" and n: "d ! 2 \<noteq> 0"
    using v by (auto simp: composite_valid_def tr_def fe_def unat_eq_0 split: option.splits if_splits prod.splits)
  have fe: "3 \<le> fe" "fe \<le> length d" using len by (simp_all add: fe_def)
  obtain xs where xs: "scanned tr d fe (unat (d ! 2)) 3 0 (unknown, pos', p') xs" using scan_sound [OF r fe] by blast
  define q where "q = 3 + length (records_bytes xs)"
  define tail where "tail = take (fe - q) (drop q d)"
  have ok: "list_all record_ok xs" using xs by (simp add: scanned_def)
  have qfe: "q \<le> fe" using xs u by (auto simp: scanned_def Let_def q_def)
  obtain rest where rest: "drop 3 d = records_bytes xs @ rest" using xs by (auto simp: scanned_def)
  have hd3: "take 3 d = [ESB_COMPOSITE_TYPE, tr, d ! 2]"
    using len ty by (cases d; cases "tl d"; cases "tl (tl d)") (auto simp: tr_def numeral_3_eq_3 numeral_2_eq_2)
  have recs: "take (q - 3) (drop 3 d) = records_bytes xs" by (simp add: rest q_def)
  have whole: "take len d = [ESB_COMPOSITE_TYPE, tr, d ! 2] @ records_bytes xs @ tail @ [d ! fe]"
  proof -
    have "take len d = take fe d @ [d ! fe]" using len by (simp add: fe_def take_Suc_conv_app_nth flip: take_Suc_conv_app_nth)
    also have "take fe d = take q d @ tail" using qfe unfolding tail_def by (metis le_add_diff_inverse take_add)
    also have "take q d = take 3 d @ take (q - 3) (drop 3 d)" by (metis q_def le_add1 le_add_diff_inverse take_add)
    finally show ?thesis by (simp add: hd3 recs)
  qed
  have hd: "tail \<noteq> [] \<and> hd tail = d ! q" if "q < fe"
    using that fe by (simp add: tail_def hd_drop_conv_nth)
  consider (exact) "unat (d ! 2) = length xs" "q = fe"
    | (event) "unat (d ! 2) = length xs + 1" "q < fe" "d ! q = TRACKER_EVENT_ESB_TYPE"
        "tracker_event_decode_body tr (take TRACKER_EVENT_BODY_LEN (drop (q + 1) d)) \<noteq> None" "fe = q + 1 + TRACKER_EVENT_BODY_LEN"
    | (unknown) "length xs < unat (d ! 2)" "q < fe" "composite_body_length (d ! q) = None"
    using xs u unfolding scanned_def Let_def q_def by auto
  then have "tail = [] \<and> unat (d ! 2) = length xs \<or>
      (\<exists>b. tail = event_bytes (Some b) \<and> event_ok tr (Some b) \<and> unat (d ! 2) = length xs + 1) \<or>
      tail \<noteq> [] \<and> composite_body_length (hd tail) = None \<and> length xs < unat (d ! 2)"
  proof cases
    case exact
    then show ?thesis by (simp add: tail_def)
  next
    case event
    have "tail = d ! q # take TRACKER_EVENT_BODY_LEN (drop (q + 1) d)"
      using event(2,5) fe by (simp add: tail_def Cons_nth_drop_Suc [symmetric])
    then show ?thesis using event by (auto simp: event_bytes_def event_ok_def)
  next
    case unknown
    then show ?thesis using hd by simp
  qed
  then show ?thesis unfolding well_formed_def using whole ok n by (auto simp: tr_def)
qed

text \<open>
  Claim C36. A malformed composite packet has no effect. When the packet is not the header, records of the known kinds with
  their exact lengths, and then nothing, or a valid tracker event as the last record, or a rest that starts with an unknown
  kind, or when its tracker is not paired, then nothing is forwarded and the whole state is as before: no event is
  queued, no sequence number is counted, and no byte behind the length of the packet plays a part.
\<close>

theorem composite_malformed_ignored:
  assumes len: "rx_length f \<le> length (rx_data f)" and ty: "rx_data f ! 0 = ESB_COMPOSITE_TYPE" and pipe: "rx_pipe f \<noteq> 0"
    and bad: "\<not> well_formed (rx_data f ! 1) (take (rx_length f) (rx_data f)) \<or> stored_trackers (rc_esb r) \<le> unat (rx_data f ! 1) \<or>
      MAX_TRACKERS \<le> unat (rx_data f ! 1)"
  shows "receive_packet env f r = ([], r)"
proof -
  have "receive_packet env f r = esb_receive_composite env f r" using ty pipe by (simp add: receive_packet_def)
  moreover have "esb_receive_composite env f r = ([], r)"
  proof (cases "rx_length f < 5 \<or> stored_trackers (rc_esb r) \<le> unat (rx_data f ! 1) \<or> MAX_TRACKERS \<le> unat (rx_data f ! 1)")
    case True
    then show ?thesis by (auto simp: esb_receive_composite_def Let_def)
  next
    case False
    then have "composite_valid (rx_data f ! 1) (rx_data f) (rx_length f) (unat (rx_data f ! 2)) = None"
      using valid_well_formed [OF _ len ty] bad by fastforce
    then show ?thesis by (simp add: esb_receive_composite_def Let_def)
  qed
  ultimately show ?thesis by simp
qed

end
