(* ===== verification/PongCorrect.thy ===== *)
theory PongCorrect
  imports Reception
begin

text \<open>
  The PONG: which command a tracker gets when several wait for it, the form of the packet, and the answer to a probe of the
  channel, which changes nothing.
\<close>

section \<open>The choice of the command\<close>

fun first_match :: "(bool \<times> 'a) list \<Rightarrow> 'a \<Rightarrow> 'a" where
  "first_match [] d = d"
| "first_match ((b, x) # xs) d = (if b then x else first_match xs d)"

definition waiting_commands :: "'q rx_env \<Rightarrow> nat \<Rightarrow> ('q, 'f) receiver \<Rightarrow> (bool \<times> u8) list" where
  "waiting_commands env t r =
     (let s = tracker_slots (rc_esb r) ! t; d = rc_collect r; o1 = rc_ota r; migration = channel_command_for_tracker (rc_esb r) t
      in [(fst (esb_ota_relay_abort_pending o1 t (re_ticks env)), ESB_PONG_FLAG_OTA_ABORT),
          (data_collect_is_active d \<and> \<not> data_collect_is_target t d \<and> \<not> data_collect_batch_is_active d, ESB_PONG_FLAG_SHUTDOWN),
          (migration \<noteq> ESB_PONG_FLAG_NORMAL, migration),
          (tracker_remote_command s \<noteq> ESB_PONG_FLAG_NORMAL, tracker_remote_command s),
          (metadata_active_mask s \<noteq> 0 \<or> metadata_pending_mask s \<noteq> 0, ESB_PONG_FLAG_METADATA_REQUEST),
          (esb_ota_relay_is_active o1 \<and> \<not> esb_ota_relay_is_target o1 t, ESB_PONG_FLAG_OTA_SUPPRESS)])"

text \<open>A new wake-on-motion request waits until the tracker has no outcome of an earlier one to report.\<close>

definition pong_command :: "'q rx_env \<Rightarrow> nat \<Rightarrow> u8 \<Rightarrow> ('q, 'f) receiver \<Rightarrow> u8" where
  "pong_command env t flags r =
     (let c = first_match (waiting_commands env t r) ESB_PONG_FLAG_NORMAL
      in if c = ESB_PONG_FLAG_WOM_CONTROL \<and> \<not> wom_advertised (tracker_slots (rc_esb r) ! t) \<and>
            flags AND ESB_PING_COMMAND_MASK \<noteq> ESB_PONG_FLAG_NORMAL then ESB_PONG_FLAG_NORMAL else c)"

lemma metadata_command_fields:
  assumes "metadata_command t cmd e = (c, e')"
  shows "c = (if cmd = ESB_PONG_FLAG_NORMAL \<and> (metadata_active_mask (tracker_slots e ! t) \<noteq> 0 \<or> metadata_pending_mask (tracker_slots e ! t) \<noteq> 0)
      then ESB_PONG_FLAG_METADATA_REQUEST else cmd)"
    "channel_command_for_tracker e' u = channel_command_for_tracker e u"
    "wom_advertised (tracker_slots e' ! t) = wom_advertised (tracker_slots e ! t)"
  using assms by (cases "t < length (tracker_slots e)";
    auto simp: metadata_command_def Let_def channel_command_for_tracker_def update_slot_def list_update_beyond split: if_splits)+

lemma ping_command_exact:
  assumes "ping_command env t flags r = (cmd, aborting, r')"
  shows "cmd = pong_command env t flags r" "aborting = fst (esb_ota_relay_abort_pending (rc_ota r) t (re_ticks env))"
proof -
  obtain c1 e where m: "metadata_command t (tracker_remote_command (tracker_slots (rc_esb r) ! t)) (rc_esb r) = (c1, e)" by fastforce
  obtain a o1 where o: "esb_ota_relay_abort_pending (rc_ota r) t (re_ticks env) = (a, o1)" by fastforce
  note f = metadata_command_fields [OF m]
  show "aborting = fst (esb_ota_relay_abort_pending (rc_ota r) t (re_ticks env))"
    using assms unfolding ping_command_def m o Let_def prod.case by simp
  define c where "c = tracker_remote_command (tracker_slots (rc_esb r) ! t)"
  define metadata where "metadata \<longleftrightarrow> metadata_active_mask (tracker_slots (rc_esb r) ! t) \<noteq> 0 \<or> metadata_pending_mask (tracker_slots (rc_esb r) ! t) \<noteq> 0"
  define migration where "migration = channel_command_for_tracker (rc_esb r) t"
  define shut where "shut \<longleftrightarrow> data_collect_is_active (rc_collect r) \<and> \<not> data_collect_is_target t (rc_collect r) \<and>
    \<not> data_collect_batch_is_active (rc_collect r)"
  define suppress where "suppress \<longleftrightarrow> esb_ota_relay_is_active (rc_ota r) \<and> \<not> esb_ota_relay_is_target (rc_ota r) t"
  define held where "held \<longleftrightarrow> \<not> wom_advertised (tracker_slots (rc_esb r) ! t) \<and> flags AND ESB_PING_COMMAND_MASK \<noteq> ESB_PONG_FLAG_NORMAL"
  have c1: "c1 = (if c = ESB_PONG_FLAG_NORMAL \<and> metadata then ESB_PONG_FLAG_METADATA_REQUEST else c)"
    using f(1) by (simp add: c_def metadata_def)
  define c2 where "c2 = (if migration \<noteq> ESB_PONG_FLAG_NORMAL then migration else c1)"
  define c3 where "c3 = (if shut then ESB_PONG_FLAG_SHUTDOWN else c2)"
  define c4 where "c4 = (if c3 = ESB_PONG_FLAG_NORMAL \<and> suppress then ESB_PONG_FLAG_OTA_SUPPRESS else c3)"
  define c5 where "c5 = (if a then ESB_PONG_FLAG_OTA_ABORT else c4)"
  have "cmd = (if c5 = ESB_PONG_FLAG_WOM_CONTROL \<and> held then ESB_PONG_FLAG_NORMAL else c5)"
  proof -
    have "fst (ping_command env t flags r) = (if c5 = ESB_PONG_FLAG_WOM_CONTROL \<and> held then ESB_PONG_FLAG_NORMAL else c5)"
      unfolding ping_command_def m o Let_def prod.case f(2,3) c5_def c4_def c3_def c2_def shut_def suppress_def held_def migration_def
        fst_conv by (rule refl)
    then show ?thesis using assms by simp
  qed
  moreover have "c5 = first_match (waiting_commands env t r) ESB_PONG_FLAG_NORMAL"
    unfolding waiting_commands_def Let_def o fst_conv
      migration_def [symmetric] shut_def [symmetric] suppress_def [symmetric] c_def [symmetric] metadata_def [symmetric]
    by (cases a; cases shut; cases "migration = 0"; cases "c = 0"; cases metadata; cases suppress)
      (simp_all add: c1 c2_def c3_def c4_def c5_def)
  ultimately show "cmd = pong_command env t flags r" by (simp add: pong_command_def Let_def held_def)
qed

section \<open>The packet\<close>

lemma pong_fields_some:
  assumes "cmd \<noteq> ESB_PONG_FLAG_CHANNEL_CONFIRM"
  shows "\<exists>parts. pong_fields e t cmd ticks physical stale = Some parts \<and> length (fst parts) = 4 \<and> length (snd parts) = 4"
  using assms by (simp add: pong_fields_def Let_def be32_bytes_def)

text \<open>
  Claim C20. A PING is answered at once with the command that is due. An intact PING of a tracker that is not a probe gets
  a PONG on the tracker's pipe, of thirteen bytes with the tracker's number, the counter of the PING and a matching
  checksum, and with the first command that waits in the order: abort of a firmware update, shutdown during
  a collection from another tracker, channel migration, the command set for the tracker, a
  metadata request, suppression during a firmware update of others, and the layout of the time
  slots when nothing waits. Only a pending packet of a firmware update can take its place,
  and that only for a target of the update without a pending abort.
\<close>

theorem pong_due_command:
  assumes t: "t = unat (pdu ! 1)" "t < MAX_TRACKERS" and crc: "pdu ! 12 = crc8_ccitt (re_zephyr env) 0x07 (take 12 pdu)"
    and probe: "\<not> bit (pdu ! 7) 7" and cmd: "cmd = pong_command env t (pdu ! 7) r" "cmd \<noteq> ESB_PONG_FLAG_CHANNEL_CONFIRM"
    and target: "fst (esb_ota_relay_abort_pending (rc_ota r) t (re_ticks env)) \<or>
      \<not> (esb_ota_relay_is_active (snd (esb_ota_relay_abort_pending (rc_ota r) t (re_ticks env))) \<and>
         esb_ota_relay_is_target (snd (esb_ota_relay_abort_pending (rc_ota r) t (re_ticks env))) t)"
    and ack: "ping_ack env pdu pipe stale r = (answer, r')"
  shows "\<exists>xs ys. length xs = 4 \<and> length ys = 4 \<and>
    (let body = [ESB_PONG_TYPE, of_nat t, pdu ! 2] @ xs @ [cmd] @ ys
     in answer = Some \<lparr>ack_pipe = 1 + of_nat (t mod 7), ack_noack = False, ack_data = body @ [crc8_ccitt (re_zephyr env) 0x07 body]\<rparr>)"
proof -
  obtain c aborting r1 where p: "ping_command env t (pdu ! 7) r = (c, aborting, r1)" by (metis prod_cases3)
  note e = ping_command_exact [OF p]
  have o1: "rc_ota r1 = snd (esb_ota_relay_abort_pending (rc_ota r) t (re_ticks env))"
    using p by (auto simp: ping_command_def Let_def split: prod.splits)
  obtain parts where f: "pong_fields (rc_esb r1) t c (re_ticks env) (re_physical env) stale = Some parts"
    and l: "length (fst parts) = 4" "length (snd parts) = 4"
    using pong_fields_some [of c] cmd e(1) by blast
  have "answer = Some \<lparr>ack_pipe = 1 + of_nat (t mod 7), ack_noack = False, ack_data = pong_packet (re_zephyr env) t (pdu ! 2) c parts\<rparr>"
    using ack t crc probe target e(2) o1 unfolding ping_ack_def Let_def t(1) [symmetric]
    by (auto simp: p f split: if_splits)
  then show ?thesis using l e(1) cmd(1) unfolding pong_packet_def Let_def by blast
qed

text \<open>
  A probe is answered and changes nothing. A tracker that looks for its receiver on a channel sends a PING with the
  probe bit. The receiver's state is exactly as before, so no pending command is consumed or advertised, and
  the PONG carries the channel that the radio is really tuned to; there is no answer when the
  radio does not tell its channel or tells one beyond 100.
\<close>

theorem channel_probe_pure:
  assumes t: "t = unat (pdu ! 1)" "t < MAX_TRACKERS" and crc: "pdu ! 12 = crc8_ccitt (re_zephyr env) 0x07 (take 12 pdu)"
    and probe: "bit (pdu ! 7) 7" and ack: "ping_ack env pdu pipe stale r = (answer, r')"
  shows "r' = r \<and> (case re_physical env of
       Some ch \<Rightarrow> if ch \<le> 100
         then \<exists>a. answer = Some a \<and> length (ack_data a) = ESB_PONG_LEN \<and> ack_data a ! 1 = pdu ! 1 \<and> ack_data a ! 2 = pdu ! 2 \<and>
           ack_data a ! 7 = ESB_PONG_FLAG_CHANNEL_CONFIRM \<and> ack_data a ! 8 = ucast ch \<and> ack_data a ! 9 = ESB_CHANNEL_CONFIRM_VERSION
         else answer = None
     | None \<Rightarrow> answer = None)"
proof (cases "re_physical env")
  case None
  then show ?thesis using ack t crc probe by (simp add: ping_ack_def Let_def pong_fields_def)
next
  case (Some ch)
  then show ?thesis using ack t crc probe
    by (auto simp: ping_ack_def Let_def pong_fields_def arm_wom_def pong_packet_def be32_bytes_def not_le split: if_splits)
qed

end
