(* ===== verification/ReceptionTyped.thy ===== *)
theory ReceptionTyped
  imports Reception
begin

text \<open>
  Received packets and the shape of the state: no packet changes the size of a table or the roster, a packet touches the
  slot of the tracker it names and no other, and what is forwarded is a report of sixteen bytes.
\<close>

section \<open>What a packet of a tracker touches\<close>

definition sizes :: "esb \<Rightarrow> nat \<times> nat \<times> nat \<times> nat \<times> u64 list" where
  "sizes e = (length (tracker_slots e), length (shadow_last_seen_ms e), length (test_all_ready_after_ms e), stored_trackers e,
     stored_tracker_addr e)"

definition touches :: "nat \<Rightarrow> esb \<Rightarrow> esb \<Rightarrow> bool" where
  "touches t e e' \<longleftrightarrow> sizes e' = sizes e \<and> (\<forall>u. u \<noteq> t \<longrightarrow> tracker_slots e' ! u = tracker_slots e ! u)"

lemma touches_refl [simp]: "touches t e e"
  by (simp add: touches_def)

lemma touches_trans [trans]: "touches t e e' \<Longrightarrow> touches t e' e'' \<Longrightarrow> touches t e e''"
  by (simp add: touches_def)

lemma touches_update [simp]: "touches t e (update_slot t f e)"
  by (simp add: touches_def sizes_def update_slot_def)

lemma touches_after_update: "touches t e e' \<Longrightarrow> touches t e (update_slot t f e')"
  by (rule touches_trans [OF _ touches_update])

lemma touches_observe [simp]: "touches t e (tdma_shadow_observe u ev now e)"
  by (simp add: touches_def sizes_def tdma_shadow_observe_def Let_def split: tdma_shadow_evidence.split)

lemma touches_invalidate [simp]: "touches t e (test_all_invalidate_tracker t now e)"
  by (simp add: touches_def sizes_def test_all_invalidate_tracker_def Let_def)

lemma touches_check: "check_packet_sequence t seq now e = (code, e') \<Longrightarrow> touches t e e'"
  by (auto simp: touches_def sizes_def check_packet_sequence_def decision_accept_def Let_def update_slot_def split: if_splits)

lemma touches_accept:
  assumes "accept_report t seq pipe now e = (b, e')"
  shows "touches t e e'"
proof -
  obtain code e1 where c: "check_packet_sequence t seq now e = (code, e1)" by fastforce
  define e2 where "e2 = (if pipe = 1 + t mod 7 then tdma_shadow_observe t TDMA_SHADOW_EVIDENCE_DATA (of_int now) e1 else e1)"
  have "touches t e e2" using touches_trans [OF touches_check [OF c] touches_observe] touches_check [OF c] by (simp add: e2_def)
  moreover have "touches t e2 e'"
    using assms unfolding accept_report_def c prod.case Let_def e2_def [symmetric]
    by (auto simp: touches_def sizes_def split: if_splits)
  ultimately show ?thesis by (rule touches_trans)
qed

lemma touches_fill: "fill_status t pkt e = (pkt', e') \<Longrightarrow> touches t e e' \<and> length pkt' = length pkt \<and> pkt' ! 1 = pkt ! 1"
  by (auto simp: fill_status_def Let_def)

lemma touches_forward:
  assumes "forward_report t pkt rssi r = (acts, r')"
  shows "touches t (rc_esb r) (rc_esb r') \<and> (\<exists>p more. acts = RxForward p rssi # map RxHid more \<and> length p = length pkt \<and> p ! 1 = pkt ! 1)"
proof -
  obtain p e where f: "(if pkt ! 0 = 3 then fill_status t pkt (rc_esb r) else (pkt, rc_esb r)) = (p, e)" by fastforce
  obtain more h where h: "hid_write_packet_n p rssi (rc_hid r) = (more, h)" by fastforce
  have "touches t (rc_esb r) e \<and> length p = length pkt \<and> p ! 1 = pkt ! 1"
    using f touches_fill by (auto split: if_splits)
  then show ?thesis using assms unfolding forward_report_def Let_def f prod.case h by auto
qed

section \<open>PINGs\<close>

lemma touches_tracking: "ping_tracking t counter now e = (b, e') \<Longrightarrow> touches t e e'"
  unfolding ping_tracking_def ping_restart_def Let_def
  by (auto simp: touches_def sizes_def update_slot_def test_all_invalidate_tracker_def Let_def split: if_splits ping_judgement.splits)

lemma touches_echo:
  "touches t e (metadata_echo t flag d e)" "touches t e (remote_wom_receive t flag d counter e)"
  "command_echo t flag d e = (acts, e') \<Longrightarrow> touches t e e' \<and> set acts \<subseteq> {RxConfirm t flag}"
  by (auto simp: metadata_echo_def remote_wom_receive_def command_echo_def Let_def touches_def sizes_def update_slot_def split: if_splits)

lemma touches_ping:
  assumes r: "esb_receive_ping env f e = (acts, e')"
  defines "t \<equiv> unat (rx_data f ! 1)"
  shows "touches t e e' \<and> (acts = [] \<or> t < MAX_TRACKERS \<and> set acts \<subseteq> {RxConfirm t (rx_data f ! 7 AND ESB_PING_COMMAND_MASK)})"
proof -
  define d where "d = rx_data f"
  have tracker: "unat (d ! 1) = t" by (simp add: t_def d_def)
  define flag where "flag = d ! 7 AND ESB_PING_COMMAND_MASK"
  define own where "own \<longleftrightarrow> rx_pipe f = 1 + t mod 7"
  define e1 where "e1 = (if \<not> own then update_slot t (\<lambda>s. s\<lparr>pipe_mismatch_count := pipe_mismatch_count s + 1\<rparr>) e else e)"
  define e2 where "e2 = (if own then tdma_shadow_observe t TDMA_SHADOW_EVIDENCE_PING (of_int (re_now env)) e1 else e1)"
  obtain work e3 where w: "ping_tracking t (d ! 2) (re_now env) e2 = (work, e3)" by fastforce
  define e4 where "e4 = metadata_echo t flag d (remote_wom_receive t flag (drop 8 d) (d ! 2) e3)"
  obtain acts2 e5 where q: "command_echo t flag d e4 = (acts2, e5)" by fastforce
  have r': "(if MAX_TRACKERS \<le> t then ([], e)
      else if d ! 12 \<noteq> crc8_ccitt (re_zephyr env) 0x07 (take 12 d) then ([], update_slot t (\<lambda>s. s\<lparr>crc_error_count := crc_error_count s + 1\<rparr>) e1)
      else if \<not> work then ([], e3) else (acts2, update_slot t (\<lambda>s. s\<lparr>last_pong_queued_counter := d ! 2\<rparr>) e5)) = (acts, e')"
    using r unfolding esb_receive_ping_def Let_def d_def [symmetric] tracker flag_def [symmetric]
      own_def [symmetric] e1_def [symmetric] e2_def [symmetric] w prod.case e4_def [symmetric] q .
  have t1: "touches t e e1" by (simp add: e1_def)
  have t2: "touches t e e2" using t1 touches_trans [OF t1 touches_observe] by (simp add: e2_def)
  have t3: "touches t e e3" using touches_trans [OF t2 touches_tracking [OF w]] .
  have t5: "touches t e e5"
    using touches_trans [OF touches_trans [OF touches_trans [OF t3 touches_echo(2)] touches_echo(1)]] touches_echo(3) [OF q]
    unfolding e4_def by blast
  show ?thesis
    using r' touches_after_update [OF t1] t3 touches_after_update [OF t5] touches_echo(3) [OF q]
    unfolding d_def [symmetric] flag_def [symmetric] by (auto split: if_splits)
qed

section \<open>Reports\<close>

text \<open>What leaves the receiver: reports of sixteen bytes and confirmations, of a tracker below the bound.\<close>

definition typed_action :: "nat \<Rightarrow> rx_action \<Rightarrow> bool" where
  "typed_action n a \<longleftrightarrow> (case a of RxForward p rssi \<Rightarrow> length p = 16 \<and> unat (p ! 1) < n | RxConfirm t flag \<Rightarrow> t < MAX_TRACKERS | _ \<Rightarrow> True)"

lemma forward_typed:
  assumes "forward_report t pkt rssi r = (acts, r')" and "length pkt = 16" "unat (pkt ! 1) < n"
  shows "\<forall>a\<in>set acts. typed_action n a"
  using touches_forward [OF assms(1)] assms(2,3) by (auto simp: typed_action_def)

lemma composite_forward_typed:
  assumes "composite_forward t d fe rssi n pos r = (acts, r')" and "fe \<le> length d" "t < m" "t < 256"
  shows "touches t (rc_esb r) (rc_esb r') \<and> (\<forall>a\<in>set acts. typed_action m a)"
  using assms(1)
proof (induction n arbitrary: pos r acts r')
  case (Suc n)
  show ?case
  proof (cases "fe \<le> pos \<or> composite_body_length (d ! pos) = None \<or> fe < pos + 1 + the (composite_body_length (d ! pos))")
    case True
    then show ?thesis using Suc.prems by (auto split: option.splits if_splits)
  next
    case False
    then obtain len where len: "composite_body_length (d ! pos) = Some len" by auto
    define pkt where "pkt = [d ! pos, of_nat t] @ take (min len 14) (drop (pos + 1) d) @ replicate (14 - min len 14) 0"
    obtain acts1 r1 where q: "forward_report t pkt rssi r = (acts1, r1)" by fastforce
    obtain more r2 where k: "composite_forward t d fe rssi n (pos + 1 + len) r1 = (more, r2)" by fastforce
    have res: "r' = r2" "acts = acts1 @ more" using Suc.prems False len q k by (simp_all add: pkt_def Let_def)
    have "length (take (min len 14) (drop (pos + 1) d)) = min len 14" using False len assms(2) by auto
    then have pkt: "length pkt = 16" "unat (pkt ! 1) < m"
      using assms(3,4) by (simp_all add: pkt_def unat_of_nat)
    from Suc.IH [OF k] touches_forward [OF q] forward_typed [OF q pkt] show ?thesis
      unfolding res using touches_trans by auto
  qed
qed simp

lemma report_typed:
  assumes r: "receive_report env f r = (acts, r')" and f: "rx_length f = 17" "rx_length f \<le> length (rx_data f)"
  shows "touches (unat (rx_data f ! 1)) (rc_esb r) (rc_esb r') \<and>
    (\<forall>a\<in>set acts. typed_action (min (stored_trackers (rc_esb r)) MAX_TRACKERS) a)"
proof -
  define d where "d = rx_data f"
  define t where "t = unat (d ! 1)"
  obtain b e where a: "accept_report t (d ! 16) (rx_pipe f) (re_now env) (rc_esb r) = (b, e)" by fastforce
  obtain acts1 r1 where q: "forward_report t (take 16 d) (rx_rssi f) (r\<lparr>rc_esb := e\<rparr>) = (acts1, r1)" by fastforce
  have "(if 223 < d ! 0 \<or> stored_trackers (rc_esb r) \<le> t \<or> MAX_TRACKERS \<le> t then ([], r)
      else if b then (acts1, r1) else ([], r\<lparr>rc_esb := e\<rparr>)) = (acts, r')"
    using r unfolding receive_report_def Let_def d_def [symmetric] t_def [symmetric] a prod.case q .
  moreover have "length (take 16 d) = 16" "take 16 d ! 1 = d ! 1" using f by (simp_all add: d_def)
  moreover have "touches t (rc_esb r) e" by (rule touches_accept [OF a])
  moreover have "touches t e (rc_esb r1)" using touches_forward [OF q] by simp
  ultimately show ?thesis
    using forward_typed [OF q, of "min (stored_trackers (rc_esb r)) MAX_TRACKERS"] touches_trans [of t "rc_esb r" e "rc_esb r1"]
    unfolding d_def [symmetric] by (cases "MAX_TRACKERS \<le> t"; cases "stored_trackers (rc_esb r) \<le> t") (auto simp: t_def split: if_splits)
qed

lemma composite_typed:
  assumes r: "esb_receive_composite env f r = (acts, r')" and f: "rx_length f \<le> length (rx_data f)"
  shows "touches (unat (rx_data f ! 1)) (rc_esb r) (rc_esb r') \<and>
    (\<forall>a\<in>set acts. typed_action (min (stored_trackers (rc_esb r)) MAX_TRACKERS) a)"
proof -
  define d where "d = rx_data f"
  define t where "t = unat (d ! 1)"
  define len where "len = rx_length f"
  show ?thesis
  proof (cases "len < 5 \<or> d ! 0 \<noteq> ESB_COMPOSITE_TYPE \<or> stored_trackers (rc_esb r) \<le> t \<or> MAX_TRACKERS \<le> t \<or>
      composite_valid (d ! 1) d len (unat (d ! 2)) = None")
    case True
    then have "r' = r \<and> acts = []" using r by (auto simp: esb_receive_composite_def Let_def d_def t_def len_def split: if_splits)
    then show ?thesis by simp
  next
    case False
    then obtain pos where v: "composite_valid (d ! 1) d len (unat (d ! 2)) = Some pos" by auto
    define r1 where "r1 = (if pos \<noteq> 0 then take_event env ([TRACKER_EVENT_ESB_TYPE, d ! 1] @ take TRACKER_EVENT_BODY_LEN (drop pos d)) r else r)"
    define left where "left = (if pos \<noteq> 0 then unat (d ! 2) - 1 else unat (d ! 2))"
    obtain b e where a: "accept_report t (d ! (len - 1)) (rx_pipe f) (re_now env) (rc_esb r1) = (b, e)" by fastforce
    obtain acts2 r2 where q: "composite_forward t d (len - 1) (rx_rssi f) left 3 (r1\<lparr>rc_esb := e\<rparr>) = (acts2, r2)" by fastforce
    have r1: "rc_esb r1 = rc_esb r" by (simp add: r1_def take_event_def)
    have "(if left = 0 then ([], r1) else if b then (acts2, r2) else ([], r1\<lparr>rc_esb := e\<rparr>)) = (acts, r')"
      using r False unfolding esb_receive_composite_def Let_def d_def [symmetric] len_def [symmetric] t_def [symmetric]
        v option.case r1_def [symmetric] left_def [symmetric] a prod.case q by (simp split: if_splits)
    moreover have "touches t (rc_esb r) e" using touches_accept [OF a] r1 by simp
    moreover have "touches t e (rc_esb r2) \<and> (\<forall>x\<in>set acts2. typed_action (min (stored_trackers (rc_esb r)) MAX_TRACKERS) x)"
      using composite_forward_typed [OF q, of "min (stored_trackers (rc_esb r)) MAX_TRACKERS"] False f
      by (simp add: len_def d_def)
    ultimately show ?thesis
      using r1 touches_trans unfolding d_def [symmetric] t_def [symmetric] by (auto split: if_splits)
  qed
qed

section \<open>Firmware packets and raw data\<close>

lemma sizes_update [simp]: "sizes (update_slot u f e) = sizes e"
  by (simp add: sizes_def update_slot_def)

lemma sizes_command: "esb_send_remote_command_arg u flag arg (e, raw) = (e', raw') \<Longrightarrow> sizes e' = sizes e"
  by (auto simp: esb_send_remote_command_arg_def split: if_splits)

lemma sizes_ota_action: "sizes (rc_esb (run_ota_action a r)) = sizes (rc_esb r)"
  by (cases a) (auto simp: esb_send_remote_command_def esb_clear_remote_ota_abort_def esb_radio_operation_end_def
      esb_auto_loss_invalidate_def update_slot_def sizes_def dest!: sizes_command [unfolded sizes_def] split: prod.splits)

lemma sizes_ota_actions: "sizes (rc_esb (fold run_ota_action acts r)) = sizes (rc_esb r)"
  by (induction acts arbitrary: r) (simp_all add: sizes_ota_action)

lemma sizes_ota: "sizes (rc_esb (ota_packet env f r)) = sizes (rc_esb r)"
  by (simp add: ota_packet_def sizes_ota_actions split: prod.split)

lemma touches_command: "esb_send_remote_command_arg t flag arg (e, raw) = (e', raw') \<Longrightarrow> touches t e e'"
  by (auto simp: esb_send_remote_command_arg_def split: if_splits)

lemma raw_typed: "raw_packet env f r = (acts, r') \<Longrightarrow>
    touches (unat (rx_data f ! 1)) (rc_esb r) (rc_esb r') \<and> (\<forall>a\<in>set acts. typed_action n a)"
  by (auto simp: raw_packet_def Let_def esb_send_remote_command_def typed_action_def dest: touches_command split: if_splits prod.splits)

section \<open>All packets\<close>

lemma pairing_same: "rc_esb (pairing_request z d r) = rc_esb r"
  by (simp add: pairing_request_def Let_def)

lemma packet_cases:
  assumes "receive_packet env f r = (acts, r')"
  obtains (same) "rc_esb r' = rc_esb r" "acts = []"
    | (composite) "esb_receive_composite env f r = (acts, r')"
    | (ota) "acts = []" "r' = ota_packet env f r" "rx_data f ! 0 = ESB_OTA_STATUS_TYPE \<or> rx_data f ! 0 = ESB_OTA_FW_INFO_TYPE"
    | (ping) e' where "esb_receive_ping env f (rc_esb r) = (acts, e')" "r' = r\<lparr>rc_esb := e'\<rparr>"
    | (report) "receive_report env f r = (acts, r')" "rx_length f = 17" | (raw) "raw_packet env f r = (acts, r')"
proof -
  define ota where "ota \<longleftrightarrow> rx_data f ! 0 = ESB_OTA_STATUS_TYPE \<or> rx_data f ! 0 = ESB_OTA_FW_INFO_TYPE"
  obtain pacts e' where q: "esb_receive_ping env f (rc_esb r) = (pacts, e')" by fastforce
  have "rc_esb r' = rc_esb r \<and> acts = [] \<or> esb_receive_composite env f r = (acts, r') \<or> acts = [] \<and> r' = ota_packet env f r \<and> ota \<or>
     acts = pacts \<and> r' = r\<lparr>rc_esb := e'\<rparr> \<or> receive_report env f r = (acts, r') \<and> rx_length f = 17 \<or> raw_packet env f r = (acts, r')"
    using assms unfolding receive_packet_def Let_def ota_def [symmetric] q prod.case
    by (simp only: prod.inject split: if_split_asm) (auto simp: take_event_def pairing_same)
  then show ?thesis using that q unfolding ota_def by metis
qed

text \<open>
  Claim C17. Whatever the radio delivers, the state keeps its shape. For every packet of at most the driver's buffer, intact or
  not, from a known tracker or not, the tables of slots, of times and of addresses keep their sizes and the roster
  stays; every report that goes on to the host has sixteen bytes and names a tracker of the roster, and every
  confirmation names a slot; and unless it belongs to a firmware transfer, the packet changes no slot but that of
  the tracker it names.
\<close>

theorem reception_typed:
  assumes "rx_length f \<le> length (rx_data f)" and r: "receive_packet env f r = (acts, r')"
  shows "sizes (rc_esb r') = sizes (rc_esb r) \<and>
    (\<forall>a\<in>set acts. typed_action (min (stored_trackers (rc_esb r)) MAX_TRACKERS) a) \<and>
    (rx_data f ! 0 \<noteq> ESB_OTA_STATUS_TYPE \<and> rx_data f ! 0 \<noteq> ESB_OTA_FW_INFO_TYPE \<longrightarrow>
      (\<forall>t. t \<noteq> unat (rx_data f ! 1) \<longrightarrow> tracker_slots (rc_esb r') ! t = tracker_slots (rc_esb r) ! t))"
proof -
  let ?typed = "\<lambda>acts. \<forall>a\<in>set acts. typed_action (min (stored_trackers (rc_esb r)) MAX_TRACKERS) a"
  let ?touches = "touches (unat (rx_data f ! 1)) (rc_esb r) (rc_esb r')"
  consider "?touches" "?typed acts"
    | "acts = []" "r' = ota_packet env f r" "rx_data f ! 0 = ESB_OTA_STATUS_TYPE \<or> rx_data f ! 0 = ESB_OTA_FW_INFO_TYPE"
    using r
  proof (cases rule: packet_cases)
    case same
    then show ?thesis using that(1) by simp
  next
    case composite
    from composite_typed [OF this assms(1)] show ?thesis using that(1) by blast
  next
    case ota
    then show ?thesis by (rule that(2))
  next
    case (ping e')
    from touches_ping [OF ping(1)] have "?touches" "?typed acts" using ping(2) by (auto simp: typed_action_def)
    then show ?thesis by (rule that(1))
  next
    case report
    from report_typed [OF this assms(1)] show ?thesis using that(1) by blast
  next
    case raw
    from raw_typed [OF this] show ?thesis using that(1) by blast
  qed
  then show ?thesis
    by cases (auto simp: touches_def sizes_ota)
qed

end
