(* ===== verification/WomTransaction.thy ===== *)
theory WomTransaction
  imports Reception
begin

text \<open>
  The wake-on-motion transaction over both interrupts: the request that a PONG carries to the tracker, the outcome that
  a later PING brings back, and everything else that the receiver does meanwhile.
\<close>

section \<open>What the rest of the receiver leaves alone\<close>

definition wom_view :: "tracker_slot \<Rightarrow> u16 \<times> u16 \<times> u16 \<times> bool \<times> bool \<times> u8" where
  "wom_view s = (wom_token s, wom_minutes s, wom_error s, wom_complete s, wom_advertised s, wom_first_ping_counter s)"

definition wv :: "nat \<Rightarrow> esb \<Rightarrow> u16 \<times> u16 \<times> u16 \<times> bool \<times> bool \<times> u8" where
  "wv t e = wom_view (tracker_slots e ! t)"

lemma wv_slots: "tracker_slots e = tracker_slots e' \<Longrightarrow> wv t e = wv t e'"
  by (simp add: wv_def)

lemma wv_fields [simp]:
  "wv t (e\<lparr>decision_ready_mask := a\<rparr>) = wv t e" "wv t (e\<lparr>decision_fence_mask := b\<rparr>) = wv t e"
  "wv t (e\<lparr>test_all_confirmed_mask := c\<rparr>) = wv t e" "wv t (e\<lparr>test_all_ready_after_ms := d\<rparr>) = wv t e"
  "wv t (e\<lparr>radio_operation_busy := x\<rparr>) = wv t e" "wv t (e\<lparr>auto_loss_reset_epoch := y\<rparr>) = wv t e"
  "wv t (e\<lparr>rx_discontinuity_pending := z\<rparr>) = wv t e"
  by (simp_all add: wv_def)

lemma wv_update: "(\<And>s. wom_view (f s) = wom_view s) \<Longrightarrow> wv t (update_slot u f e) = wv t e"
  by (cases "u < length (tracker_slots e)"; cases "t = u") (simp_all add: wv_def update_slot_def list_update_beyond)

lemma wv_list_update: "wom_view x = wom_view (tracker_slots e ! u) \<Longrightarrow>
    wv t (e\<lparr>tracker_slots := (tracker_slots e)[u := x]\<rparr>) = wv t e"
  by (cases "u < length (tracker_slots e)"; cases "t = u") (simp_all add: wv_def list_update_beyond)

lemma wv_observe [simp]: "wv t (tdma_shadow_observe u ev now e) = wv t e"
  by (rule wv_slots) (simp add: tdma_shadow_observe_def Let_def split: tdma_shadow_evidence.split)

lemma wv_invalidate_tracker [simp]: "wv t (test_all_invalidate_tracker u now e) = wv t e"
  using wv_list_update [of "(tracker_slots e ! u)\<lparr>tracker_remote_command := ESB_PONG_FLAG_NORMAL\<rparr>" e u t]
  by (simp add: test_all_invalidate_tracker_def Let_def wom_view_def)

lemma wv_accept [simp]: "wv t (decision_accept u g e) = wv t e"
  using wv_list_update [of "(tracker_slots e ! u)\<lparr>decision_received := decision_received (tracker_slots e ! u) + 1,
        decision_gaps := decision_gaps (tracker_slots e ! u) + ucast g\<rparr>" e u t]
  by (simp add: decision_accept_def Let_def wom_view_def wv_def)

lemma wv_check: "check_packet_sequence u seq now e = (code, e') \<Longrightarrow> wv t e' = wv t e"
  by (auto simp: check_packet_sequence_def Let_def wv_update wom_view_def simp del: fun_upd_apply split: if_splits)

lemma wv_accept_report: "accept_report u seq pipe now e = (b, e') \<Longrightarrow> wv t e' = wv t e"
  by (auto simp: accept_report_def Let_def dest: wv_check [where t = t] split: prod.splits if_splits)

lemma wv_fill: "fill_status u pkt e = (pkt', e') \<Longrightarrow> wv t e' = wv t e"
  by (auto simp: fill_status_def Let_def wom_view_def wv_update)

lemma wv_forward: "forward_report u pkt rssi r = (acts, r') \<Longrightarrow> wv t (rc_esb r') = wv t (rc_esb r)"
  by (auto simp: forward_report_def Let_def dest: wv_fill [where t = t] split: prod.splits if_splits)

lemma wv_composite_forward: "composite_forward u d fe rssi n pos r = (acts, r') \<Longrightarrow> wv t (rc_esb r') = wv t (rc_esb r)"
proof (induction n arbitrary: pos r acts r')
  case (Suc n)
  show ?case
  proof (cases "fe \<le> pos \<or> composite_body_length (d ! pos) = None \<or> fe < pos + 1 + the (composite_body_length (d ! pos))")
    case True
    then show ?thesis using Suc.prems by (auto split: option.splits if_splits)
  next
    case False
    then obtain len where len: "composite_body_length (d ! pos) = Some len" by auto
    define pkt where "pkt = [d ! pos, of_nat u] @ take (min len 14) (drop (pos + 1) d) @ replicate (14 - min len 14) 0"
    obtain acts1 r1 where q: "forward_report u pkt rssi r = (acts1, r1)" by fastforce
    obtain more r2 where m: "composite_forward u d fe rssi n (pos + 1 + len) r1 = (more, r2)" by fastforce
    have "r' = r2" using Suc.prems False len q m by (simp add: pkt_def Let_def)
    then show ?thesis using Suc.IH [OF m] wv_forward [OF q] by simp
  qed
qed simp

lemma wv_command_arg: "esb_send_remote_command_arg u flag arg (e, raw) = (e', raw') \<Longrightarrow> wv t e' = wv t e"
  by (auto simp: esb_send_remote_command_arg_def wom_view_def wv_update split: if_splits)

lemma wv_ota_action: "wv t (rc_esb (run_ota_action a r)) = wv t (rc_esb r)"
  by (cases a) (auto simp: esb_send_remote_command_def esb_clear_remote_ota_abort_def esb_radio_operation_end_def
      esb_auto_loss_invalidate_def wom_view_def wv_update intro: wv_slots wv_command_arg split: prod.splits)

lemma wv_ota_actions: "wv t (rc_esb (fold run_ota_action acts r)) = wv t (rc_esb r)"
  by (induction acts arbitrary: r) (simp_all add: wv_ota_action)

lemma wv_raw: "raw_packet env f r = (acts, r') \<Longrightarrow> wv t (rc_esb r') = wv t (rc_esb r)"
  by (auto simp: raw_packet_def Let_def esb_send_remote_command_def wom_view_def wv_update
      dest: wv_command_arg [where t = t] split: if_splits prod.splits)

lemma wv_report: "receive_report env f r = (acts, r') \<Longrightarrow> wv t (rc_esb r') = wv t (rc_esb r)"
  by (auto simp: receive_report_def Let_def dest!: wv_forward [where t = t] wv_accept_report [where t = t]
      split: if_splits prod.splits)

lemma wv_composite: "esb_receive_composite env f r = (acts, r') \<Longrightarrow> wv t (rc_esb r') = wv t (rc_esb r)"
  by (auto simp: esb_receive_composite_def Let_def take_event_def
      dest!: wv_composite_forward [where t = t] wv_accept_report [where t = t] split: if_splits prod.splits option.splits)

section \<open>The two interrupts\<close>

definition wom_carried :: "ack_payload \<Rightarrow> u16 \<Rightarrow> u16 \<Rightarrow> bool" where
  "wom_carried a token minutes \<longleftrightarrow> length (ack_data a) = ESB_PONG_LEN \<and> ack_data a ! 0 = ESB_PONG_TYPE \<and>
     ack_data a ! 7 = ESB_PONG_FLAG_WOM_CONTROL \<and> be16_of (drop 8 (ack_data a)) 0 = minutes \<and>
     be16_of (drop 8 (ack_data a)) 2 = token"

text \<open>A PING of the tracker that is intact, with its flag and the two values it carries.\<close>

definition wom_ping :: "zephyr \<Rightarrow> nat \<Rightarrow> rx_frame \<Rightarrow> u8 \<Rightarrow> u8 \<Rightarrow> u16 \<Rightarrow> u16 \<Rightarrow> bool" where
  "wom_ping z t f counter flag value token \<longleftrightarrow> rx_length f = ESB_PING_LEN \<and> rx_data f ! 0 = ESB_PING_TYPE \<and>
     unat (rx_data f ! 1) = t \<and> rx_data f ! 12 = crc8_ccitt z 0x07 (take 12 (rx_data f)) \<and> rx_data f ! 2 = counter \<and>
     rx_data f ! 7 AND ESB_PING_COMMAND_MASK = flag \<and> be16_of (drop 8 (rx_data f)) 0 = value \<and>
     be16_of (drop 8 (rx_data f)) 2 = token"

lemma arm_wom_cases:
  assumes "t < length (tracker_slots e)"
  shows "wv t (arm_wom u counter a e) = wv t e \<or>
     u = t \<and> wom_carried a (wom_token (tracker_slots e ! t)) (wom_minutes (tracker_slots e ! t)) \<and>
     \<not> wom_advertised (tracker_slots e ! t) \<and>
     wv t (arm_wom u counter a e) = wom_view ((tracker_slots e ! t)\<lparr>wom_advertised := True, wom_first_ping_counter := counter\<rparr>)"
  using assms by (cases "u = t") (auto simp: arm_wom_def Let_def wv_def update_slot_def wom_view_def wom_carried_def)

lemma wv_metadata: "metadata_command u cmd e = (c, e') \<Longrightarrow> wv t e' = wv t e \<and> length (tracker_slots e') = length (tracker_slots e)"
  by (auto simp: metadata_command_def Let_def wv_update wom_view_def split: if_splits) (simp_all add: update_slot_def)

lemma wv_ping_command: "ping_command env u flags r = (c, b, r') \<Longrightarrow>
    wv t (rc_esb r') = wv t (rc_esb r) \<and> length (tracker_slots (rc_esb r')) = length (tracker_slots (rc_esb r))"
  by (auto simp: ping_command_def Let_def dest: wv_metadata [where t = t] split: prod.splits)

definition wom_asked :: "nat \<Rightarrow> u8 \<Rightarrow> ack_payload option \<Rightarrow> esb \<Rightarrow> esb \<Rightarrow> bool" where
  "wom_asked t counter ack e e' \<longleftrightarrow> (\<exists>a. ack = Some a \<and> wom_carried a (wom_token (tracker_slots e ! t)) (wom_minutes (tracker_slots e ! t)) \<and>
     \<not> wom_advertised (tracker_slots e ! t) \<and>
     wv t e' = wom_view ((tracker_slots e ! t)\<lparr>wom_advertised := True, wom_first_ping_counter := counter\<rparr>))"

lemma ping_ack_wom:
  assumes t: "t < length (tracker_slots (rc_esb r))" and a: "ping_ack env pdu pipe stale r = (ack, r')"
  shows "wv t (rc_esb r') = wv t (rc_esb r) \<or> wom_asked t (pdu ! 2) ack (rc_esb r) (rc_esb r')"
proof -
  define u where "u = unat (pdu ! 1)"
  define confirm where "confirm = bit (pdu ! 7) 7"
  obtain cmd aborting r1 where c: "(if confirm then (ESB_PONG_FLAG_CHANNEL_CONFIRM, False, r) else ping_command env u (pdu ! 7) r) =
      (cmd, aborting, r1)" by (metis prod_cases3)
  have r1: "wv t (rc_esb r1) = wv t (rc_esb r)" "length (tracker_slots (rc_esb r1)) = length (tracker_slots (rc_esb r))"
    using c by (auto dest: wv_ping_command [where t = t] split: if_splits)
  have same: "wom_token (tracker_slots (rc_esb r1) ! t) = wom_token (tracker_slots (rc_esb r) ! t)"
    "wom_minutes (tracker_slots (rc_esb r1) ! t) = wom_minutes (tracker_slots (rc_esb r) ! t)"
    "wom_advertised (tracker_slots (rc_esb r1) ! t) = wom_advertised (tracker_slots (rc_esb r) ! t)"
    "wom_view ((tracker_slots (rc_esb r1) ! t)\<lparr>wom_advertised := True, wom_first_ping_counter := x\<rparr>) =
     wom_view ((tracker_slots (rc_esb r) ! t)\<lparr>wom_advertised := True, wom_first_ping_counter := x\<rparr>)" for x
    using r1(1) by (auto simp: wv_def wom_view_def)
  have "rc_esb r' = rc_esb r \<or> rc_esb r' = rc_esb r1 \<or> (\<exists>a. ack = Some a \<and> rc_esb r' = arm_wom u (pdu ! 2) a (rc_esb r1))"
    using a unfolding ping_ack_def Let_def u_def [symmetric] confirm_def [symmetric] c prod.case
    by (auto split: if_splits option.splits prod.splits)
  then consider "rc_esb r' = rc_esb r" | "rc_esb r' = rc_esb r1"
    | a where "ack = Some a" "rc_esb r' = arm_wom u (pdu ! 2) a (rc_esb r1)" by blast
  then show ?thesis
  proof cases
    case 3
    have "t < length (tracker_slots (rc_esb r1))" using r1 t by simp
    from arm_wom_cases [OF this, of u "pdu ! 2" a] show ?thesis
      unfolding wom_asked_def 3 same r1(1) by blast
  qed (use r1 in simp_all)
qed

lemma ack_wom:
  assumes "t < length (tracker_slots (rc_esb r))" and "esb_ack_handler_cb env f stale r = (suppress, ack, r')"
  shows "wv t (rc_esb r') = wv t (rc_esb r) \<or> wom_asked t (take (rx_length f) (rx_data f) ! 2) ack (rc_esb r) (rc_esb r')"
  using assms(2) ping_ack_wom [OF assms(1), of env "take (rx_length f) (rx_data f)" "of_nat (rx_pipe f)" stale]
  unfolding esb_ack_handler_cb_def Let_def raw_data_ack_def
  by (auto split: if_splits prod.splits)

lemma slots_length [simp]:
  "length (tracker_slots (update_slot u f e)) = length (tracker_slots e)"
  "length (tracker_slots (tdma_shadow_observe u ev now e)) = length (tracker_slots e)"
  "length (tracker_slots (test_all_invalidate_tracker u n e)) = length (tracker_slots e)"
  by (simp_all add: update_slot_def tdma_shadow_observe_def test_all_invalidate_tracker_def Let_def split: tdma_shadow_evidence.split)

lemma tracking_length: "ping_tracking u counter now e = (b, e') \<Longrightarrow> length (tracker_slots e') = length (tracker_slots e)"
  by (auto simp: ping_tracking_def ping_restart_def Let_def split: if_splits ping_judgement.splits)

lemma wv_ping_restart [simp]: "wv t (ping_restart u counter now e) = wv t e"
  by (simp add: ping_restart_def Let_def wv_update wom_view_def)

lemma wv_tracking: "ping_tracking u counter now e = (b, e') \<Longrightarrow> wv t e' = wv t e"
  by (auto simp: ping_tracking_def Let_def wv_update wom_view_def split: if_splits ping_judgement.splits)

lemma wv_echo: "wv t (metadata_echo u flag d e) = wv t e" "command_echo u flag d e = (acts, e') \<Longrightarrow> wv t e' = wv t e"
  by (auto simp: metadata_echo_def command_echo_def Let_def wv_update wom_view_def split: if_splits)

text \<open>The outcome of a request is taken from a PING only under these conditions.\<close>

definition wom_answered :: "zephyr \<Rightarrow> nat \<Rightarrow> rx_frame \<Rightarrow> tracker_slot \<Rightarrow> esb \<Rightarrow> bool" where
  "wom_answered z t f s e' \<longleftrightarrow> (\<exists>counter flag value. wom_ping z t f counter flag value (wom_token s) \<and> wom_token s \<noteq> 0 \<and>
     \<not> wom_complete s \<and> wom_advertised s \<and> counter \<noteq> wom_first_ping_counter s \<and>
     (wom_success s flag value \<and> wv t e' = wom_view (s\<lparr>wom_minutes := value, wom_error := 0, wom_complete := True\<rparr>) \<or>
      flag = ESB_PING_FLAG_WOM_ERROR \<and> value \<noteq> 0 \<and>
        wv t e' = wom_view (s\<lparr>wom_minutes := 0, wom_error := value, wom_complete := True\<rparr>)))"

lemma wom_receive_cases:
  assumes "t < length (tracker_slots e)"
  shows "wv t (remote_wom_receive u flag d counter e) = wv t e \<or>
     (let s = tracker_slots e ! t; value = be16_of d 0
      in u = t \<and> be16_of d 2 = wom_token s \<and> wom_token s \<noteq> 0 \<and> \<not> wom_complete s \<and> wom_advertised s \<and>
         counter \<noteq> wom_first_ping_counter s \<and>
         (wom_success s flag value \<and> wv t (remote_wom_receive u flag d counter e) =
            wom_view (s\<lparr>wom_minutes := value, wom_error := 0, wom_complete := True\<rparr>) \<or>
          flag = ESB_PING_FLAG_WOM_ERROR \<and> value \<noteq> 0 \<and> wv t (remote_wom_receive u flag d counter e) =
            wom_view (s\<lparr>wom_minutes := 0, wom_error := value, wom_complete := True\<rparr>)))"
  using assms by (cases "u = t") (auto simp: remote_wom_receive_def Let_def wv_def update_slot_def wom_view_def wom_success_def)

lemma ping_wom:
  assumes t: "t < length (tracker_slots e)" and f: "rx_length f = ESB_PING_LEN" "rx_data f ! 0 = ESB_PING_TYPE"
    and r: "esb_receive_ping env f e = (acts, e')"
  shows "wv t e' = wv t e \<or> wom_answered (re_zephyr env) t f (tracker_slots e ! t) e'"
proof -
  define d where "d = rx_data f"
  define u where "u = unat (d ! 1)"
  define counter where "counter = d ! 2"
  define flag where "flag = d ! 7 AND ESB_PING_COMMAND_MASK"
  define own where "own \<longleftrightarrow> rx_pipe f = 1 + u mod 7"
  define e1 where "e1 = (if \<not> own then update_slot u (\<lambda>s. s\<lparr>pipe_mismatch_count := pipe_mismatch_count s + 1\<rparr>) e else e)"
  define e2 where "e2 = (if own then tdma_shadow_observe u TDMA_SHADOW_EVIDENCE_PING (of_int (re_now env)) e1 else e1)"
  obtain work e3 where w: "ping_tracking u counter (re_now env) e2 = (work, e3)" by fastforce
  define e4 where "e4 = metadata_echo u flag d (remote_wom_receive u flag (drop 8 d) counter e3)"
  obtain acts2 e5 where q: "command_echo u flag d e4 = (acts2, e5)" by fastforce
  have v3: "wv t e3 = wv t e" using wv_tracking [OF w] by (simp add: e2_def e1_def wv_update wom_view_def)
  have len3: "length (tracker_slots e3) = length (tracker_slots e)"
    using tracking_length [OF w] by (simp add: e2_def e1_def)
  have r': "(if MAX_TRACKERS \<le> u then ([], e)
      else if d ! 12 \<noteq> crc8_ccitt (re_zephyr env) 0x07 (take 12 d) then ([], update_slot u (\<lambda>s. s\<lparr>crc_error_count := crc_error_count s + 1\<rparr>) e1)
      else if \<not> work then ([], e3) else (acts2, update_slot u (\<lambda>s. s\<lparr>last_pong_queued_counter := counter\<rparr>) e5)) = (acts, e')"
    using r unfolding esb_receive_ping_def Let_def d_def [symmetric] u_def [symmetric] counter_def [symmetric] flag_def [symmetric]
      own_def [symmetric] e1_def [symmetric] e2_def [symmetric] w prod.case e4_def [symmetric] q .
  have v5: "wv t (update_slot u (\<lambda>s. s\<lparr>last_pong_queued_counter := counter\<rparr>) e5) =
      wv t (remote_wom_receive u flag (drop 8 d) counter e3)"
    using wv_echo(2) [OF q, of t] by (simp add: wv_update wom_view_def e4_def wv_echo(1))
  consider "wv t e' = wv t e"
    | "d ! 12 = crc8_ccitt (re_zephyr env) 0x07 (take 12 d)" "wv t e' = wv t (remote_wom_receive u flag (drop 8 d) counter e3)"
    using r' v3 v5 by (auto simp: e1_def wv_update wom_view_def split: if_splits)
  then show ?thesis
  proof cases
    case 2
    have sv: "wom_view (tracker_slots e3 ! t) = wom_view (tracker_slots e ! t)" using v3 by (simp add: wv_def)
    have "t < length (tracker_slots e3)" using t len3 by simp
    from wom_receive_cases [OF this, of u flag "drop 8 d" counter] show ?thesis
    proof
      assume "wv t (remote_wom_receive u flag (drop 8 d) counter e3) = wv t e3"
      then show ?thesis using 2 v3 by simp
    next
      assume c: "let s = tracker_slots e3 ! t; value = be16_of (drop 8 d) 0
        in u = t \<and> be16_of (drop 8 d) 2 = wom_token s \<and> wom_token s \<noteq> 0 \<and> \<not> wom_complete s \<and> wom_advertised s \<and>
         counter \<noteq> wom_first_ping_counter s \<and>
         (wom_success s flag value \<and> wv t (remote_wom_receive u flag (drop 8 d) counter e3) =
            wom_view (s\<lparr>wom_minutes := value, wom_error := 0, wom_complete := True\<rparr>) \<or>
          flag = ESB_PING_FLAG_WOM_ERROR \<and> value \<noteq> 0 \<and> wv t (remote_wom_receive u flag (drop 8 d) counter e3) =
            wom_view (s\<lparr>wom_minutes := 0, wom_error := value, wom_complete := True\<rparr>))"
      have p: "wom_ping (re_zephyr env) t f counter flag (be16_of (drop 8 d) 0) (wom_token (tracker_slots e ! t))"
        using c f 2(1) sv by (simp add: wom_ping_def Let_def d_def u_def counter_def flag_def wom_view_def)
      have v: "wom_view ((tracker_slots e3 ! t)\<lparr>wom_minutes := x, wom_error := y, wom_complete := True\<rparr>) =
          wom_view ((tracker_slots e ! t)\<lparr>wom_minutes := x, wom_error := y, wom_complete := True\<rparr>)" for x y
        using sv by (simp add: wom_view_def)
      have m: "wom_success (tracker_slots e3 ! t) flag v = wom_success (tracker_slots e ! t) flag v" for v
        using sv by (simp add: wom_view_def wom_success_def)
      have k: "wom_token (tracker_slots e3 ! t) = wom_token (tracker_slots e ! t)"
        "wom_complete (tracker_slots e3 ! t) = wom_complete (tracker_slots e ! t)"
        "wom_advertised (tracker_slots e3 ! t) = wom_advertised (tracker_slots e ! t)"
        "wom_first_ping_counter (tracker_slots e3 ! t) = wom_first_ping_counter (tracker_slots e ! t)"
        using sv by (simp_all add: wom_view_def)
      show ?thesis
        using c p unfolding wom_answered_def Let_def v m k 2(2) [symmetric] by blast
    qed
  qed simp
qed

lemma wv_ota: "wv t (rc_esb (ota_packet env f r)) = wv t (rc_esb r)"
  by (simp add: ota_packet_def wv_ota_actions split: prod.split)

lemma receive_wom:
  assumes t: "t < length (tracker_slots (rc_esb r))" and r: "receive_packet env f r = (acts, r')"
  shows "wv t (rc_esb r') = wv t (rc_esb r) \<or> wom_answered (re_zephyr env) t f (tracker_slots (rc_esb r) ! t) (rc_esb r')"
proof -
  consider "rc_esb r' = rc_esb r" | "esb_receive_composite env f r = (acts, r')" | "r' = ota_packet env f r"
    | (ping) e' where "rx_length f = ESB_PING_LEN" "rx_data f ! 0 = ESB_PING_TYPE"
        "esb_receive_ping env f (rc_esb r) = (acts, e')" "r' = r\<lparr>rc_esb := e'\<rparr>"
    | "receive_report env f r = (acts, r')" | "raw_packet env f r = (acts, r')"
    using r unfolding receive_packet_def Let_def
    by (auto simp: take_event_def pairing_request_def Let_def split: if_splits prod.splits)
  then show ?thesis
  proof cases
    case ping
    then show ?thesis using ping_wom [OF t ping(1,2,3)] by simp
  qed (auto simp: wv_def wv_ota [unfolded wv_def] dest: wv_composite [of _ _ _ _ _ t, unfolded wv_def]
      wv_report [of _ _ _ _ _ t, unfolded wv_def] wv_raw [of _ _ _ _ _ t, unfolded wv_def])
qed

section \<open>Transactions\<close>

text \<open>
  What can happen, for one tracker: the two interrupts with any packets, requests to any trackers, the query of the
  outcome, and any other change that leaves the transaction of the tracker alone. The history since the last
  request is the value that was asked for, the acknowledgements sent with the counters of their PINGs, and the
  packets received.
\<close>

definition wom_idle :: "tracker_slot \<Rightarrow> bool" where
  "wom_idle s \<longleftrightarrow> wom_token s = 0 \<and> \<not> wom_advertised s \<and> \<not> wom_complete s"

inductive wom_run :: "zephyr \<Rightarrow> u16 \<Rightarrow> nat \<Rightarrow> ('q, 'f) receiver \<Rightarrow> u16 \<Rightarrow> (u8 \<times> ack_payload) list \<Rightarrow> rx_frame list \<Rightarrow> bool"
  for z :: zephyr and ecanceled :: u16 and t :: nat where
  wom_start: "wom_idle (tracker_slots (rc_esb r) ! t) \<Longrightarrow> length (tracker_slots (rc_esb r)) = MAX_TRACKERS \<Longrightarrow>
    wom_run z ecanceled t r (wom_minutes (tracker_slots (rc_esb r) ! t)) [] []"
| wom_ack: "wom_run z ecanceled t r asked sent heard \<Longrightarrow> esb_ack_handler_cb env f stale r = (suppress, ack, r') \<Longrightarrow>
    length (tracker_slots (rc_esb r')) = MAX_TRACKERS \<Longrightarrow>
    wom_run z ecanceled t r' asked (sent @ (case ack of None \<Rightarrow> [] | Some a \<Rightarrow> [(take (rx_length f) (rx_data f) ! 2, a)])) heard"
| wom_hear: "wom_run z ecanceled t r asked sent heard \<Longrightarrow> receive_packet env f r = (acts, r') \<Longrightarrow> re_zephyr env = z \<Longrightarrow>
    length (tracker_slots (rc_esb r')) = MAX_TRACKERS \<Longrightarrow> wom_run z ecanceled t r' asked sent (heard @ [f])"
| wom_request: "wom_run z ecanceled t r asked sent heard \<Longrightarrow>
    esb_send_remote_wom_command target minutes scan (rc_esb r) = (m, token, e) \<Longrightarrow>
    wom_run z ecanceled t (r\<lparr>rc_esb := e\<rparr>) (if mask_has m t then minutes else asked)
      (if mask_has m t then [] else sent) (if mask_has m t then [] else heard)"
| wom_query: "wom_run z ecanceled t r asked sent heard \<Longrightarrow> esb_get_remote_wom_result ecanceled u tok (rc_esb r) = (answer, e) \<Longrightarrow>
    wom_run z ecanceled t (r\<lparr>rc_esb := e\<rparr>) asked sent heard"
| wom_else: "wom_run z ecanceled t r asked sent heard \<Longrightarrow> wv t (rc_esb r') = wv t (rc_esb r) \<Longrightarrow>
    length (tracker_slots (rc_esb r')) = MAX_TRACKERS \<Longrightarrow> wom_run z ecanceled t r' asked sent heard"

definition wom_accepts :: "u16 \<Rightarrow> u16 \<Rightarrow> bool" where
  "wom_accepts asked value \<longleftrightarrow> (if asked = ESB_WOM_ENTER then value = ESB_WOM_ENTER
     else if asked = ESB_WOM_TIMEOUT_CLEAR then value = 0
     else 1 \<le> value \<and> value \<le> ESB_WOM_TIMEOUT_MAX_MINUTES \<and> (asked = 0 \<or> asked = value))"

lemma wom_success_accepts: "wom_success s flag value \<longleftrightarrow> flag = ESB_PING_FLAG_WOM_RESULT \<and> wom_accepts (wom_minutes s) value"
  by (simp add: wom_success_def wom_accepts_def)

definition wom_inv :: "zephyr \<Rightarrow> nat \<Rightarrow> tracker_slot \<Rightarrow> u16 \<Rightarrow> (u8 \<times> ack_payload) list \<Rightarrow> rx_frame list \<Rightarrow> bool" where
  "wom_inv z t s asked sent heard \<longleftrightarrow>
     (\<not> wom_complete s \<longrightarrow> wom_minutes s = asked) \<and>
     (wom_advertised s \<and> (wom_complete s \<longrightarrow> wom_error s = 0) \<longrightarrow>
        (\<exists>a. (wom_first_ping_counter s, a) \<in> set sent \<and> wom_carried a (wom_token s) asked)) \<and>
     (wom_complete s \<and> wom_error s = 0 \<longrightarrow> wom_advertised s \<and>
        (\<exists>f\<in>set heard. \<exists>counter. wom_ping z t f counter ESB_PING_FLAG_WOM_RESULT (wom_minutes s) (wom_token s) \<and>
           counter \<noteq> wom_first_ping_counter s \<and> wom_accepts asked (wom_minutes s)))"

lemma wom_inv_view:
  assumes "wom_view s = wom_view s'" and "wom_inv z t s asked sent heard" and "set sent \<subseteq> set sent'" "set heard \<subseteq> set heard'"
  shows "wom_inv z t s' asked sent' heard'"
  using assms by (auto simp: wom_inv_def wom_view_def)

lemma wom_inv_asked:
  assumes inv: "wom_inv z t s asked sent heard" and a: "wom_carried a (wom_token s) (wom_minutes s)" and n: "\<not> wom_advertised s"
    and v: "wom_view s' = wom_view (s\<lparr>wom_advertised := True, wom_first_ping_counter := counter\<rparr>)"
  shows "wom_inv z t s' asked (sent @ [(counter, a)]) heard"
proof -
  have eq: "wom_token s' = wom_token s" "wom_minutes s' = wom_minutes s" "wom_error s' = wom_error s"
    "wom_complete s' = wom_complete s" "wom_advertised s'" "wom_first_ping_counter s' = counter"
    using v by (simp_all add: wom_view_def)
  have "\<not> (wom_complete s \<and> wom_error s = 0)" using inv n by (auto simp: wom_inv_def)
  then show ?thesis using inv a unfolding wom_inv_def eq by auto
qed

lemma wom_inv_answered:
  assumes inv: "wom_inv z t s asked sent heard" and w: "wom_answered z t f s e'"
  shows "wom_inv z t (tracker_slots e' ! t) asked sent (heard @ [f])"
proof -
  obtain counter flag val where p: "wom_ping z t f counter flag val (wom_token s)" "\<not> wom_complete s" "wom_advertised s"
      "counter \<noteq> wom_first_ping_counter s" and c: "wom_success s flag val \<and>
        wv t e' = wom_view (s\<lparr>wom_minutes := val, wom_error := 0, wom_complete := True\<rparr>) \<or>
      val \<noteq> 0 \<and> wv t e' = wom_view (s\<lparr>wom_minutes := 0, wom_error := val, wom_complete := True\<rparr>)"
    using w unfolding wom_answered_def by blast
  have m: "wom_minutes s = asked" using inv p(2) by (simp add: wom_inv_def)
  from c show ?thesis
  proof
    assume s: "wom_success s flag val \<and> wv t e' = wom_view (s\<lparr>wom_minutes := val, wom_error := 0, wom_complete := True\<rparr>)"
    then have eq: "wom_token (tracker_slots e' ! t) = wom_token s" "wom_minutes (tracker_slots e' ! t) = val"
      "wom_error (tracker_slots e' ! t) = 0" "wom_complete (tracker_slots e' ! t)" "wom_advertised (tracker_slots e' ! t)"
      "wom_first_ping_counter (tracker_slots e' ! t) = wom_first_ping_counter s"
      using p(3) by (simp_all add: wv_def wom_view_def)
    have flag: "flag = ESB_PING_FLAG_WOM_RESULT" "wom_accepts asked val" using s m by (simp_all add: wom_success_accepts)
    have "\<exists>a. (wom_first_ping_counter s, a) \<in> set sent \<and> wom_carried a (wom_token s) asked"
      using inv p(2,3) by (auto simp: wom_inv_def)
    moreover have "\<exists>f'\<in>set (heard @ [f]). \<exists>counter. wom_ping z t f' counter ESB_PING_FLAG_WOM_RESULT val (wom_token s) \<and>
        counter \<noteq> wom_first_ping_counter s \<and> wom_accepts asked val"
      using p flag by (intro bexI [of _ f]) auto
    ultimately show ?thesis unfolding wom_inv_def by (simp add: eq)
  next
    assume "val \<noteq> 0 \<and> wv t e' = wom_view (s\<lparr>wom_minutes := 0, wom_error := val, wom_complete := True\<rparr>)"
    then have "wom_complete (tracker_slots e' ! t)" "wom_error (tracker_slots e' ! t) \<noteq> 0"
      by (simp_all add: wv_def wom_view_def)
    then show ?thesis by (simp add: wom_inv_def)
  qed
qed

lemma request_slot:
  assumes "t < length (tracker_slots e)" and "esb_send_remote_wom_command target minutes scan e = (m, token, e')"
  shows "length (tracker_slots e') = length (tracker_slots e) \<and>
    wv t e' = (if mask_has m t then wom_view ((tracker_slots e ! t)\<lparr>wom_token := token, wom_minutes := minutes, wom_error := 0,
      wom_complete := False, wom_advertised := False, wom_first_ping_counter := 0\<rparr>) else wv t e)"
  using assms by (auto simp: esb_send_remote_wom_command_def Let_def wv_def wom_view_def nth_update_where split: if_splits)

lemma query_slot:
  assumes "u < length (tracker_slots e) \<or> MAX_TRACKERS \<le> u" "t < length (tracker_slots e)"
    and "esb_get_remote_wom_result ecanceled u tok e = (answer, e')"
  shows "length (tracker_slots e') = length (tracker_slots e) \<and> (wv t e' = wv t e \<or>
    \<not> wom_complete (tracker_slots e ! t) \<and>
    wv t e' = wom_view ((tracker_slots e ! t)\<lparr>wom_minutes := 0, wom_error := ecanceled, wom_complete := True\<rparr>))"
  using assms by (cases "u = t") (auto simp: esb_get_remote_wom_result_def Let_def wv_def wom_view_def update_slot_def split: if_splits)

lemma wom_run_inv:
  assumes "wom_run z ecanceled t r asked sent heard" and t: "t < MAX_TRACKERS" and ec: "ecanceled \<noteq> 0"
  shows "length (tracker_slots (rc_esb r)) = MAX_TRACKERS \<and> wom_inv z t (tracker_slots (rc_esb r) ! t) asked sent heard"
  using assms(1)
proof induction
  case (wom_start r)
  then show ?case by (simp add: wom_inv_def wom_idle_def)
next
  case (wom_ack r asked sent heard env f stale suppress ack r')
  have l: "t < length (tracker_slots (rc_esb r))" using wom_ack.IH t by simp
  from ack_wom [OF l wom_ack.hyps(2)] show ?case
  proof
    assume "wv t (rc_esb r') = wv t (rc_esb r)"
    then show ?thesis
      using wom_inv_view [OF _ conjunct2 [OF wom_ack.IH], of "tracker_slots (rc_esb r') ! t"
          "sent @ (case ack of None \<Rightarrow> [] | Some a \<Rightarrow> [(take (rx_length f) (rx_data f) ! 2, a)])" heard] wom_ack.hyps(3)
      by (simp add: wv_def)
  next
    assume "wom_asked t (take (rx_length f) (rx_data f) ! 2) ack (rc_esb r) (rc_esb r')"
    then show ?thesis using wom_inv_asked [OF conjunct2 [OF wom_ack.IH]] wom_ack.hyps(3) by (auto simp: wom_asked_def wv_def)
  qed
next
  case (wom_hear r asked sent heard env f acts r')
  have l: "t < length (tracker_slots (rc_esb r))" using wom_hear.IH t by simp
  from receive_wom [OF l wom_hear.hyps(2)] show ?case
  proof
    assume "wv t (rc_esb r') = wv t (rc_esb r)"
    then show ?thesis
      using wom_inv_view [OF _ conjunct2 [OF wom_hear.IH], of "tracker_slots (rc_esb r') ! t" sent "heard @ [f]"] wom_hear.hyps(4)
      by (simp add: wv_def subset_insertI)
  next
    assume "wom_answered (re_zephyr env) t f (tracker_slots (rc_esb r) ! t) (rc_esb r')"
    then show ?thesis using wom_inv_answered [OF conjunct2 [OF wom_hear.IH]] wom_hear.hyps(3,4) by simp
  qed
next
  case (wom_request r asked sent heard target minutes scan m token e)
  have l: "t < length (tracker_slots (rc_esb r))" using wom_request.IH t by simp
  note q = request_slot [OF l wom_request.hyps(2)]
  show ?case
  proof (cases "mask_has m t")
    case True
    then have "\<not> wom_complete (tracker_slots e ! t)" "\<not> wom_advertised (tracker_slots e ! t)" "wom_minutes (tracker_slots e ! t) = minutes"
      using q by (simp_all add: wv_def wom_view_def)
    then show ?thesis using True q wom_request.IH by (simp add: wom_inv_def)
  next
    case False
    then show ?thesis using q wom_request.IH wom_inv_view [OF _ conjunct2 [OF wom_request.IH], of "tracker_slots e ! t" sent heard]
      by (simp add: wv_def)
  qed
next
  case (wom_query r asked sent heard u tok answer e)
  have l: "u < length (tracker_slots (rc_esb r)) \<or> MAX_TRACKERS \<le> u" "t < length (tracker_slots (rc_esb r))"
    using wom_query.IH t by auto
  from query_slot [OF l wom_query.hyps(2)] have len: "length (tracker_slots e) = MAX_TRACKERS"
    and c: "wv t e = wv t (rc_esb r) \<or> wv t e = wom_view ((tracker_slots (rc_esb r) ! t)\<lparr>wom_minutes := 0, wom_error := ecanceled, wom_complete := True\<rparr>)"
    using wom_query.IH by auto
  from c show ?case
  proof
    assume "wv t e = wv t (rc_esb r)"
    then show ?thesis using wom_inv_view [OF _ conjunct2 [OF wom_query.IH], of "tracker_slots e ! t" sent heard] len
      by (simp add: wv_def)
  next
    assume "wv t e = wom_view ((tracker_slots (rc_esb r) ! t)\<lparr>wom_minutes := 0, wom_error := ecanceled, wom_complete := True\<rparr>)"
    then show ?thesis using ec len by (simp add: wv_def wom_view_def wom_inv_def)
  qed
next
  case (wom_else r asked sent heard r')
  then show ?case using wom_inv_view [OF _ conjunct2 [OF wom_else.IH], of "tracker_slots (rc_esb r') ! t" sent heard]
    by (simp add: wv_def)
qed

text \<open>
  Claim C2. A reported success is true. When the query for a wake-on-motion request answers a value without an error, then
  the receiver has sent the tracker, since that request was made, a PONG that carries the request's value and token, and an intact
  PING of the tracker received since, with another counter than the one that PONG answered, has brought the
  token back with the result flag and a value that fits what was asked for. So neither an outcome that
  the tracker still holds from an earlier request, nor a repetition of the PING that fetched the request,
  nor a request that never went out can be taken for a success, whatever else the two interrupts receive.
\<close>

theorem wom_success_true:
  assumes run: "wom_run z ecanceled t r asked sent heard" and t: "t < MAX_TRACKERS" and ec: "ecanceled \<noteq> 0"
    and q: "esb_get_remote_wom_result ecanceled t token (rc_esb r) = (Some (val, 0), e)"
  shows "wom_accepts asked val \<and> token \<noteq> 0 \<and> (\<exists>first a f counter. (first, a) \<in> set sent \<and> wom_carried a token asked \<and> f \<in> set heard \<and>
    wom_ping z t f counter ESB_PING_FLAG_WOM_RESULT val token \<and> counter \<noteq> first)"
proof -
  define s where "s = tracker_slots (rc_esb r) ! t"
  have inv: "wom_inv z t s asked sent heard" and l: "t < length (tracker_slots (rc_esb r))"
    using wom_run_inv [OF run t ec] t by (simp_all add: s_def)
  have s: "wom_complete s" "wom_error s = 0" "wom_token s = token" "wom_minutes s = val" "token \<noteq> 0"
    using q ec l by (auto simp: esb_get_remote_wom_result_def Let_def s_def update_slot_def split: if_splits)
  then have "wom_advertised s" using inv by (simp add: wom_inv_def)
  then show ?thesis using inv s unfolding wom_inv_def by blast
qed

end
