(* ===== verification/ReceptionWitness.thy ===== *)
theory ReceptionWitness
  imports CompositeCorrect PongCorrect ReceptionTyped WomTransaction PairingCorrect AutoChannelCorrect EsbOtaProps TrackerEventsProps
begin

text \<open>The theorems about reception at concrete packets: a receiver with three trackers, of which tracker 1 sends.\<close>

definition heard_receiver :: "(rx_event list, (u16 \<times> bytes) list) receiver" where
  "heard_receiver = started_receiver\<lparr>rc_esb := idle_esb\<lparr>tracker_slots := replicate 16 zero_tracker_slot\<rparr>\<rparr>"

definition heard_env :: "rx_event list rx_env" where
  "heard_env = \<lparr>re_zephyr = std_zephyr, re_msgq = list_msgq, re_ota = sample_env 0, re_device = [1, 2, 3, 4, 5, 6],
     re_now = 1000, re_ticks = 32768, re_physical = Some 24\<rparr>"

definition frame_of :: "bytes \<Rightarrow> rx_frame" where
  "frame_of pkt = \<lparr>rx_pipe = 2, rx_length = length pkt, rx_data = pkt @ replicate (72 - length pkt) 0, rx_rssi = 60\<rparr>"

lemma heard_slots [simp]: "tracker_slots (rc_esb heard_receiver) = replicate 16 zero_tracker_slot"
  "stored_trackers (rc_esb heard_receiver) = 3"
  by (simp_all add: heard_receiver_def idle_esb_def)

theorem retransmission_not_forwarded_witness:
  "let s = \<lparr>rs_receiver = heard_receiver, rs_auto = new_auto, rs_beacon_tx_result = 0\<rparr>;
       f = frame_of ([0, 1] @ replicate 14 9 @ [5])
   in RxForward ([0, 1] @ replicate 14 9) 60 \<notin> set (fst (receive_frame heard_env f (snd (receive_frame heard_env f s))))"
proof -
  have "length (tracker_slots (rc_esb (rs_receiver \<lparr>rs_receiver = heard_receiver, rs_auto = new_auto, rs_beacon_tx_result = 0\<rparr>))) = MAX_TRACKERS"
    by simp
  from retransmission_not_forwarded [OF this prod.collapse [symmetric] prod.collapse [symmetric]] show ?thesis
    unfolding Let_def .
qed

theorem composite_round_trip_witness:
  "let f = frame_of (composite_packet 1 [(3, [7, 8]), (5, replicate 8 4)] None 5)
   in forwarded (fst (receive_packet heard_env f heard_receiver)) =
      [[3, 1, 7, 8, 1, 0, 0, 0, 0, 0, 0, 0, 0, 0, 0, 0], [5, 1, 4, 4, 4, 4, 4, 4, 4, 4, 0, 0, 0, 0, 0, 0]]"
proof -
  let ?xs = "[(3, [7, 8]), (5, replicate 8 4)] :: (u8 \<times> bytes) list"
  define f where "f = frame_of (composite_packet 1 ?xs None 5)"
  obtain new e where a: "accept_report 1 5 (rx_pipe f) (re_now heard_env) (rc_esb heard_receiver) = (new, e)" by fastforce
  have h: "list_all record_ok ?xs" "event_ok (of_nat 1) None" "?xs \<noteq> [] \<or> (None :: bytes option) \<noteq> None"
    "record_count ?xs None < 256" by (simp_all add: record_ok_def record_formats_def event_ok_def record_count_def)
  have d: "rx_data f = composite_packet 1 ?xs None 5 @ replicate (72 - length (composite_packet 1 ?xs None 5)) 0"
    "rx_length f = length (composite_packet 1 ?xs None 5)" "rx_pipe f \<noteq> 0" by (simp_all add: f_def frame_of_def)
  have t: "1 < MAX_TRACKERS" "1 < stored_trackers (rc_esb heard_receiver)" "length (tracker_slots (rc_esb heard_receiver)) = MAX_TRACKERS" by simp_all
  have new: "new" "counters 1 e = (1, 0)"
    using a by (auto simp: accept_report_def check_packet_sequence_def Let_def zero_tracker_slot_def counters_def
        update_slot_def decision_accept_def tps_update_def accept_normal_def split: if_splits prod.splits)
  from composite_round_trip [OF h d t a prod.collapse [symmetric]]
  have "forwarded (fst (receive_packet heard_env f heard_receiver)) = reports_of 1 1 0 ?xs" using new by simp
  then show ?thesis unfolding f_def Let_def by (simp add: numeral_eq_Suc)
qed

theorem composite_malformed_ignored_witness:
  "receive_packet heard_env (frame_of [0xFE, 1, 0, 3, 7, 8, 5]) heard_receiver = ([], heard_receiver)"
proof -
  let ?f = "frame_of [0xFE, 1, 0, 3, 7, 8, 5]"
  have "rx_length ?f \<le> length (rx_data ?f)" "rx_data ?f ! 0 = ESB_COMPOSITE_TYPE" "rx_pipe ?f \<noteq> 0"
    by (simp_all add: frame_of_def)
  moreover have "\<not> well_formed (rx_data ?f ! 1) (take (rx_length ?f) (rx_data ?f))"
    by (simp add: frame_of_def well_formed_def)
  ultimately show ?thesis using composite_malformed_ignored [of ?f] by blast
qed

text \<open>An intact PING of tracker 1.\<close>

definition ping_of :: "u8 \<Rightarrow> u8 \<Rightarrow> u16 \<Rightarrow> u16 \<Rightarrow> bytes" where
  "ping_of counter flags val token =
     (let body = [0xF0, 1, counter, 0, 0, 0, 0, flags, hi8 val, lo8 val, hi8 token, lo8 token] in body @ [7 + sum_list body])"

theorem pong_due_command_witness:
  "case fst (ping_ack heard_env (ping_of 9 0 0 0) 2 0 heard_receiver) of
     None \<Rightarrow> False | Some a \<Rightarrow> take 3 (ack_data a) = [0xF1, 1, 9] \<and> ack_data a ! 7 = 0"
proof -
  let ?pdu = "ping_of 9 0 0 0"
  have ota: "rc_ota heard_receiver = ota_boot" by (simp add: heard_receiver_def started_receiver_def)
  have abort: "esb_ota_relay_abort_pending ota_boot (Suc 0) x = (False, ota_boot)" for x
    by (simp add: esb_ota_relay_abort_pending_def ota_abort_pending_locked_def ota_boot_def)
  have off: "ota_active ota_boot = False" by (simp add: ota_boot_def)
  have h: "(1::nat) = unat (?pdu ! 1)" "1 < MAX_TRACKERS" "?pdu ! 12 = crc8_ccitt (re_zephyr heard_env) 0x07 (take 12 ?pdu)"
    "\<not> bit (?pdu ! 7) 7" by (simp_all add: ping_of_def Let_def heard_env_def std_zephyr_def hi8_def lo8_def)
  have c: "0 = pong_command heard_env 1 (?pdu ! 7) heard_receiver"
    by (simp add: pong_command_def waiting_commands_def abort ota Let_def channel_command_for_tracker_def zero_tracker_slot_def
        data_collect_is_active_def esb_ota_relay_is_active_def off)
      (simp add: heard_receiver_def started_receiver_def idle_esb_def dc_boot_def)
  have tgt: "fst (esb_ota_relay_abort_pending (rc_ota heard_receiver) 1 (re_ticks heard_env)) \<or>
      \<not> (esb_ota_relay_is_active (snd (esb_ota_relay_abort_pending (rc_ota heard_receiver) 1 (re_ticks heard_env))) \<and>
         esb_ota_relay_is_target (snd (esb_ota_relay_abort_pending (rc_ota heard_receiver) 1 (re_ticks heard_env))) 1)"
    by (simp add: ota abort esb_ota_relay_is_active_def off)
  obtain xs ys where "length xs = 4" "length ys = 4"
    "fst (ping_ack heard_env ?pdu 2 0 heard_receiver) = Some \<lparr>ack_pipe = 1 + of_nat (1 mod 7), ack_noack = False,
       ack_data = (let body = [ESB_PONG_TYPE, of_nat 1, ?pdu ! 2] @ xs @ [0] @ ys in body @ [crc8_ccitt (re_zephyr heard_env) 0x07 body])\<rparr>"
    using pong_due_command [OF h c _ tgt prod.collapse [symmetric], of 2 0] unfolding Let_def by auto
  then show ?thesis by (simp add: Let_def nth_append ping_of_def)
qed

theorem channel_probe_pure_witness:
  "snd (ping_ack heard_env (ping_of 9 0x80 0 0) 2 0 heard_receiver) = heard_receiver \<and>
   (\<exists>a. fst (ping_ack heard_env (ping_of 9 0x80 0 0) 2 0 heard_receiver) = Some a \<and> ack_data a ! 8 = 24)"
proof -
  let ?pdu = "ping_of 9 0x80 0 0"
  have h: "(1::nat) = unat (?pdu ! 1)" "1 < MAX_TRACKERS" "?pdu ! 12 = crc8_ccitt (re_zephyr heard_env) 0x07 (take 12 ?pdu)"
    "bit (?pdu ! 7) 7" by (simp_all add: ping_of_def Let_def heard_env_def std_zephyr_def hi8_def lo8_def)
  from channel_probe_pure [OF h prod.collapse [symmetric], of 2 0 heard_receiver] show ?thesis
    by (auto simp: heard_env_def)
qed

theorem reception_typed_witness:
  "let f = frame_of ([0, 1] @ replicate 14 9 @ [5])
   in (\<forall>a\<in>set (fst (receive_packet heard_env f heard_receiver)). typed_action 3 a) \<and>
      tracker_slots (rc_esb (snd (receive_packet heard_env f heard_receiver))) ! 2 = zero_tracker_slot"
proof -
  let ?f = "frame_of ([0, 1] @ replicate 14 9 @ [5])"
  have "rx_length ?f \<le> length (rx_data ?f)" "rx_data ?f ! 0 = 0" "rx_data ?f ! 1 = 1" by (simp_all add: frame_of_def)
  with reception_typed [OF _ prod.collapse [symmetric], of ?f heard_env heard_receiver] show ?thesis
    by (simp add: Let_def)
qed

end
