(* ===== verification/WomWitness.thy ===== *)
theory WomWitness
  imports ReceptionWitness
begin

text \<open>A wake-on-motion transaction with tracker 1 from the request to the answer.\<close>

definition asked_slot :: tracker_slot where
  "asked_slot = zero_tracker_slot\<lparr>wom_token := 1, wom_minutes := 5, tracker_remote_command := ESB_PONG_FLAG_WOM_CONTROL\<rparr>"

definition asked_esb :: esb where
  "asked_esb = (rc_esb heard_receiver)\<lparr>wom_next_token := 1, tracker_slots := (replicate 16 zero_tracker_slot)[1 := asked_slot]\<rparr>"

lemma asked: "esb_send_remote_wom_command 1 5 0 (rc_esb heard_receiver) = (2, 1, asked_esb)"
proof -
  have one: "wom_targets 1 0 (rc_esb heard_receiver) i = (i = 1)" if "i < 16" for i
  proof -
    have "stored_tracker_addr (rc_esb heard_receiver) = [11, 12, 13] @ replicate 13 0" by (simp add: heard_receiver_def idle_esb_def)
    then show ?thesis using that by (auto simp: wom_targets_def paired_def nth_append)
  qed
  have mask: "fold (\<lambda>i m. if wom_targets 1 0 (rc_esb heard_receiver) i then set_bit i m else m) [0..<16] 0 = (2 :: u32)"
    by (simp add: upt_rec one del: One_nat_def)
  have has: "mask_has (2 :: u32) i = (i = 1)" for i
    by (cases i) (auto simp: mask_has_def bit_simps)
  have slots: "update_where (mask_has (2 :: u32)) f (replicate 16 x) = (replicate 16 x)[1 := f x]" for f and x :: tracker_slot
    by (rule nth_equalityI) (auto simp: nth_update_where has nth_list_update)
  have ok: "wom_minutes_ok 5" "next_token (wom_next_token (rc_esb heard_receiver)) = 1"
    by (simp_all add: wom_minutes_ok_def next_token_def heard_receiver_def idle_esb_def)
  show ?thesis
    unfolding esb_send_remote_wom_command_def Let_def mask ok(2)
    by (simp add: ok slots asked_esb_def asked_slot_def zero_tracker_slot_def)
qed

definition asked_receiver :: "(rx_event list, (u16 \<times> bytes) list) receiver" where
  "asked_receiver = heard_receiver\<lparr>rc_esb := asked_esb\<rparr>"

definition carried_slot :: tracker_slot where
  "carried_slot = asked_slot\<lparr>wom_first_ping_counter := 9, wom_advertised := True\<rparr>"

definition carried_receiver :: "(rx_event list, (u16 \<times> bytes) list) receiver" where
  "carried_receiver = asked_receiver\<lparr>rc_esb := asked_esb\<lparr>tracker_slots := (replicate 16 zero_tracker_slot)[1 := carried_slot]\<rparr>\<rparr>"

definition wom_pong :: ack_payload where
  "wom_pong = \<lparr>ack_pipe = 2, ack_noack = False, ack_data = pong_packet std_zephyr 1 9 ESB_PONG_FLAG_WOM_CONTROL ([0, 0, 128, 0], [0, 5, 0, 1])\<rparr>"

lemma asked_slot_fields [simp]:
  "wom_advertised zero_tracker_slot = False" "wom_complete zero_tracker_slot = False" "wom_error zero_tracker_slot = 0"
  "ping_counter_initialized zero_tracker_slot = False" "wom_token zero_tracker_slot = 0"
  by (simp_all add: zero_tracker_slot_def)

lemma asked_fields [simp]:
  "rc_ota asked_receiver = ota_boot" "rc_collect asked_receiver = dc_boot" "rc_esb asked_receiver = asked_esb"
  "tracker_slots asked_esb = (replicate 16 zero_tracker_slot)[1 := asked_slot]"
  "channel_command_for_tracker asked_esb 1 = 0"
  by (simp_all add: asked_receiver_def asked_esb_def heard_receiver_def started_receiver_def channel_command_for_tracker_def idle_esb_def)

lemma carried: "esb_ack_handler_cb heard_env (frame_of (ping_of 9 0 0 0)) 0 asked_receiver = (False, Some wom_pong, carried_receiver)"
proof -
  have abort: "esb_ota_relay_abort_pending ota_boot (Suc 0) x = (False, ota_boot)" for x
    by (simp add: esb_ota_relay_abort_pending_def ota_abort_pending_locked_def ota_boot_def)
  have off: "ota_active ota_boot = False" "dc_active dc_boot = False" by (simp_all add: ota_boot_def dc_boot_def)
  have cmd: "ping_command heard_env 1 0 asked_receiver = (ESB_PONG_FLAG_WOM_CONTROL, False, asked_receiver)"
    using asked_fields(5) unfolding ping_command_def metadata_command_def Let_def
    by (simp add: abort asked_slot_def data_collect_is_active_def off)
  have f: "pong_fields asked_esb 1 ESB_PONG_FLAG_WOM_CONTROL 32768 (Some 24) 0 = Some ([0, 0, 128, 0], [0, 5, 0, 1])"
    by (simp add: pong_fields_def Let_def be32_bytes_def hi8_def lo8_def asked_slot_def drop_bit_eq_div)
  define g where "g = frame_of (ping_of 9 0 0 0)"
  have len: "rx_length g = 13" "rx_pipe g = 2"
    "rx_data g = [0xF0, 1, 9, 0, 0, 0, 0, 0, 0, 0, 0, 0, 1] @ replicate 59 0"
    by (simp_all add: g_def frame_of_def ping_of_def Let_def hi8_def lo8_def)
  have arm: "arm_wom 1 9 wom_pong asked_esb = asked_esb\<lparr>tracker_slots := (replicate 16 zero_tracker_slot)[1 := carried_slot]\<rparr>"
    by (simp add: arm_wom_def wom_pong_def pong_packet_def Let_def asked_slot_def carried_slot_def be16_of_def update_slot_def)
  have pong: "\<lparr>ack_pipe = 2, ack_noack = False, ack_data = pong_packet (re_zephyr heard_env) 1 9 ESB_PONG_FLAG_WOM_CONTROL
      ([0, 0, 128, 0], [0, 5, 0, 1])\<rparr> = wom_pong" by (simp add: wom_pong_def heard_env_def)
  have crc: "crc8_ccitt std_zephyr 7 [240, 1, 9, 0, 0, 0, 0, 0, 0, 0, 0, 0] = 1" by (simp add: std_zephyr_def)
  have ack: "ping_ack heard_env [0xF0, 1, 9, 0, 0, 0, 0, 0, 0, 0, 0, 0, 1] 2 0 asked_receiver = (Some wom_pong, carried_receiver)"
    unfolding ping_ack_def Let_def
    using cmd f arm pong crc by (simp add: carried_receiver_def off esb_ota_relay_is_active_def heard_env_def)
  show ?thesis
    unfolding esb_ack_handler_cb_def g_def [symmetric] Let_def len
    using ack by (simp add: auto_channel_is_beacon_def)
qed

definition answer_frame :: rx_frame where
  "answer_frame = frame_of (ping_of 10 ESB_PING_FLAG_WOM_RESULT 5 1)"

lemma answered:
  defines "s \<equiv> tracker_slots (rc_esb (snd (receive_packet heard_env answer_frame carried_receiver))) ! 1"
  shows "wom_token s = 1 \<and> wom_complete s \<and> wom_minutes s = 5 \<and> wom_error s = 0"
    "length (tracker_slots (rc_esb (snd (receive_packet heard_env answer_frame carried_receiver)))) = 16"
proof -
  have d: "rx_data answer_frame = [0xF0, 1, 10, 0, 0, 0, 0, 0x29, 0, 5, 0, 1, 49] @ replicate 59 0" "rx_length answer_frame = 13"
    "rx_pipe answer_frame = 2"
    by (simp_all add: answer_frame_def frame_of_def ping_of_def Let_def hi8_def lo8_def)
  define e where "e = rc_esb carried_receiver"
  have e: "tracker_slots e = (replicate 16 zero_tracker_slot)[1 := carried_slot]" by (simp add: e_def carried_receiver_def)
  have dispatch: "rc_esb (snd (receive_packet heard_env answer_frame carried_receiver)) = snd (esb_receive_ping heard_env answer_frame e)"
    by (simp add: receive_packet_def d Let_def e_def split: prod.split)
  have crc: "crc8_ccitt (re_zephyr heard_env) 7 (take 12 (rx_data answer_frame)) = 49"
    by (simp add: d heard_env_def std_zephyr_def)
  have bits: "(41 :: u8) AND 127 = 41" "unat (10 :: u8) = 10" by simp_all
  define after where "after = snd (esb_receive_ping heard_env answer_frame e)"
  have ping: "wom_token (tracker_slots after ! 1) = 1" "wom_complete (tracker_slots after ! 1)"
    "wom_minutes (tracker_slots after ! 1) = 5" "wom_error (tracker_slots after ! 1) = 0" "length (tracker_slots after) = 16"
    unfolding after_def esb_receive_ping_def Let_def crc
    by (simp_all add: d bits heard_env_def ping_tracking_def e carried_slot_def asked_slot_def remote_wom_receive_def be16_of_def
        wom_success_def metadata_echo_def command_echo_def update_slot_def del: One_nat_def)
  show "wom_token s = 1 \<and> wom_complete s \<and> wom_minutes s = 5 \<and> wom_error s = 0"
    unfolding s_def dispatch after_def [symmetric] using ping by simp
  show "length (tracker_slots (rc_esb (snd (receive_packet heard_env answer_frame carried_receiver)))) = 16"
    unfolding dispatch after_def [symmetric] by (rule ping(5))
qed

theorem wom_success_true_witness:
  "\<exists>first a f counter. wom_carried a 1 5 \<and> wom_ping std_zephyr 1 f counter ESB_PING_FLAG_WOM_RESULT 5 1 \<and> counter \<noteq> first"
proof -
  define r3 where "r3 = snd (receive_packet heard_env answer_frame carried_receiver)"
  have "wom_run std_zephyr 140 1 heard_receiver (wom_minutes (tracker_slots (rc_esb heard_receiver) ! 1)) [] []"
    by (rule wom_start) (simp_all add: wom_idle_def)
  from wom_request [OF this asked] have "wom_run std_zephyr 140 1 asked_receiver 5 [] []"
    by (simp add: asked_receiver_def mask_has_def bit_simps)
  from wom_ack [OF this carried] have "wom_run std_zephyr 140 1 carried_receiver 5 [(9, wom_pong)] []"
    by (simp add: carried_receiver_def frame_of_def ping_of_def Let_def)
  from wom_hear [OF this prod.collapse [symmetric], of heard_env answer_frame] answered(2)
  have run: "wom_run std_zephyr 140 1 r3 5 [(9, wom_pong)] [answer_frame]" by (simp add: r3_def heard_env_def)
  have "fst (esb_get_remote_wom_result 140 1 1 (rc_esb r3)) = Some (5, 0)"
    using answered(1) by (simp add: esb_get_remote_wom_result_def Let_def r3_def)
  then have "esb_get_remote_wom_result 140 1 1 (rc_esb r3) = (Some (5, 0), snd (esb_get_remote_wom_result 140 1 1 (rc_esb r3)))"
    by (simp add: prod_eq_iff)
  from wom_success_true [OF run _ _ this] show ?thesis by auto
qed

end
