(* ===== verification/ReceiverOta.thy ===== *)
theory ReceiverOta
  imports EsbOta AutoLoss
begin

text \<open>
  The firmware update of the receiver itself (\<open>receiver_ota.c\<close>), for the builds without MCUboot. The host sends the image in
  reports; two page buffers, handed to a writer thread through semaphores and a queue, take it to a
  staging area in the upper flash; when its checksum is right, a routine that runs from RAM copies it over
  the running firmware. The state of both threads is the record \<open>rcv_world\<close>. Where the report handler waits, the
  writer takes steps, at the times in the list \<open>rv_waits env i\<close> for the wait number \<open>i\<close> of the call; a
  wait succeeds if what it waits for is there in the end, since the writer never takes it away again. The
  flash driver and the checksum are arguments. Log output and the delays for it are left out.
\<close>

abbreviation (input) RCV_OTA_FLASH_PAGE_SIZE :: nat where "RCV_OTA_FLASH_PAGE_SIZE \<equiv> 4096"
abbreviation (input) RECEIVER_OTA_ID :: u8 where "RECEIVER_OTA_ID \<equiv> 0xFE"
abbreviation (input) WRITER_CMD_VERIFY :: u8 where "WRITER_CMD_VERIFY \<equiv> 0xFD"
abbreviation (input) WRITER_CMD_ACTIVATE :: u8 where "WRITER_CMD_ACTIVATE \<equiv> 0xFE"
abbreviation (input) WRITER_CMD_SHUTDOWN :: u8 where "WRITER_CMD_SHUTDOWN \<equiv> 0xFF"
abbreviation (input) WRITER_QUEUE_SIZE :: nat where "WRITER_QUEUE_SIZE \<equiv> 4"
abbreviation (input) OTA_STATUS_READY :: u8 where "OTA_STATUS_READY \<equiv> 0x01"
abbreviation (input) OTA_STATUS_RECEIVING :: u8 where "OTA_STATUS_RECEIVING \<equiv> 0x02"
abbreviation (input) OTA_PROTOCOL_VERSION :: u8 where "OTA_PROTOCOL_VERSION \<equiv> 1"
abbreviation (input) MCUBOOT_MAGIC :: u32 where "MCUBOOT_MAGIC \<equiv> 0x96F3B83D"
abbreviation (input) OTA_FW_INFO_PACKET_SIZE :: nat where "OTA_FW_INFO_PACKET_SIZE \<equiv> 66"

section \<open>State\<close>

datatype rcv_ota_state = RCV_OTA_IDLE | RCV_OTA_READY | RCV_OTA_RECEIVING | RCV_OTA_VERIFYING | RCV_OTA_ACTIVATE_PENDING
  | RCV_OTA_ACTIVATING | RCV_OTA_COMPLETE | RCV_OTA_ERROR

record rcv_ota =
  ro_state :: rcv_ota_state
  ro_image_size :: u32
  ro_image_crc32 :: u32
  ro_total_packets :: u16
  ro_next_expected_seq :: u16
  ro_bytes_written :: u32
  ro_error_code :: u8
  ro_staging_base :: u32
  ro_target_flash_base :: u32
  ro_page_buf_offset :: nat
  ro_page_buf_flash_addr :: u32
  ro_next_write_slot :: nat
  ro_last_status_time :: int

definition zero_rcv_ota :: rcv_ota where
  "zero_rcv_ota = \<lparr>ro_state = RCV_OTA_IDLE, ro_image_size = 0, ro_image_crc32 = 0, ro_total_packets = 0,
     ro_next_expected_seq = 0, ro_bytes_written = 0, ro_error_code = 0, ro_staging_base = 0, ro_target_flash_base = 0,
     ro_page_buf_offset = 0, ro_page_buf_flash_addr = 0, ro_next_write_slot = 0, ro_last_status_time = 0\<rparr>"

record page_write_req =
  pw_data :: bytes
  pw_addr :: u32
  pw_len :: nat

record bootloader_settings =
  bank_0 :: u16
  bank_0_crc :: u16
  bank_1 :: u16
  bank_0_size :: u32

record flash_copy_params =
  cp_src_addr :: nat
  cp_dst_addr :: nat
  cp_size :: nat
  cp_page_size :: nat
  cp_settings_addr :: nat
  cp_settings_data :: bytes
  cp_settings_words :: nat

text \<open>
  Where the writer thread is: it does not exist or has returned, is at the condition of its loop, waits for the queue, is
  about to erase or has erased the page of a slot, is about to release the slot, or has entered the copy routine,
  which does not return.
\<close>

datatype writer = WriterGone | WriterLoop | WriterWaiting | WriterPage nat | WriterErased nat | WriterRelease nat
  | WriterCopies flash_copy_params

record 'f rcv_world =
  rw_ota :: rcv_ota
  rw_flash_dev :: bool
  rw_reqs :: "page_write_req list"
  rw_sems :: "bool list"
  rw_queue :: "u8 list"
  rw_error :: bool
  rw_stop :: bool
  rw_created :: bool
  rw_writer :: writer
  rw_settings :: "bootloader_settings option"
  rw_flash :: 'f
  rw_esb :: esb
  rw_out :: "bytes list"

text \<open>The driver of the flash, and the constants of the build.\<close>

record 'f flash_ops =
  fl_ready :: bool
  fl_erase :: "nat \<Rightarrow> 'f \<Rightarrow> bool \<times> 'f"
  fl_write :: "nat \<Rightarrow> bytes \<Rightarrow> 'f \<Rightarrow> bool \<times> 'f"
  fl_read :: "nat \<Rightarrow> nat \<Rightarrow> 'f \<Rightarrow> bytes option"

record rcv_build =
  rb_flash_base :: u32
  rb_flash_end :: u32
  rb_settings_addr :: nat
  rb_flash_used :: u32
  rb_board :: bytes
  rb_open_dfu :: bool
  rb_settings_page :: bool
  rb_version :: bytes
  rb_build_time :: "nat list"
  rb_bootloader :: u8

record 'f rcv_env =
  rv_zephyr :: zephyr
  rv_build :: rcv_build
  rv_flash :: "'f flash_ops"
  rv_crc32 :: "u32 \<Rightarrow> bytes \<Rightarrow> u32"
  rv_peers :: peers
  rv_clock :: "nat \<Rightarrow> int"
  rv_waits :: "nat \<Rightarrow> int list"

definition on_ota :: "(rcv_ota \<Rightarrow> rcv_ota) \<Rightarrow> 'f rcv_world \<Rightarrow> 'f rcv_world" where
  "on_ota f w = w\<lparr>rw_ota := f (rw_ota w)\<rparr>"

section \<open>Reports to the host\<close>

definition receiver_ota_is_active :: "'f rcv_world \<Rightarrow> bool" where
  "receiver_ota_is_active w \<longleftrightarrow> ro_state (rw_ota w) \<noteq> RCV_OTA_IDLE"

definition rcv_status_code :: "'f rcv_world \<Rightarrow> u8" where
  "rcv_status_code w =
     (if rw_stop w then OTA_STATUS_TIMEOUT
      else
        case ro_state (rw_ota w) of
          RCV_OTA_IDLE \<Rightarrow> OTA_STATUS_IDLE
        | RCV_OTA_READY \<Rightarrow> OTA_STATUS_READY
        | RCV_OTA_RECEIVING \<Rightarrow> OTA_STATUS_RECEIVING
        | RCV_OTA_VERIFYING \<Rightarrow> if ro_error_code (rw_ota w) \<noteq> 0 then ro_error_code (rw_ota w) else OTA_STATUS_RECEIVING
        | RCV_OTA_ACTIVATE_PENDING \<Rightarrow> OTA_STATUS_RECEIVING
        | RCV_OTA_ACTIVATING \<Rightarrow> OTA_STATUS_ACTIVATING
        | RCV_OTA_COMPLETE \<Rightarrow> OTA_STATUS_COMPLETE
        | RCV_OTA_ERROR \<Rightarrow> ro_error_code (rw_ota w))"

definition rcv_ota_send_status :: "'f rcv_env \<Rightarrow> int \<Rightarrow> 'f rcv_world \<Rightarrow> 'f rcv_world" where
  "rcv_ota_send_status env now w =
     (let z = rv_zephyr env;
          report = [HID_OTA_STATUS, RECEIVER_OTA_ID, rcv_status_code w] @ put_be16 z (ro_next_expected_seq (rw_ota w)) @
            put_le32 z (ro_bytes_written (rw_ota w)) @ replicate 7 0;
          w1 = w\<lparr>rw_out := rw_out w @ [report]\<rparr>
      in if \<not> rw_stop w then on_ota (\<lambda>s. s\<lparr>ro_last_status_time := now\<rparr>) w1 else w1)"

definition rcv_fail :: "'f rcv_env \<Rightarrow> int \<Rightarrow> u8 \<Rightarrow> 'f rcv_world \<Rightarrow> 'f rcv_world" where
  "rcv_fail env now code w =
     rcv_ota_send_status env now (on_ota (\<lambda>s. s\<lparr>ro_state := RCV_OTA_ERROR, ro_error_code := code\<rparr>) w)"

definition build_datetime :: "nat list \<Rightarrow> u32" where
  "build_datetime t =
     push_bit 25 (of_nat (t ! 0 - 2020) AND 0x7F) OR push_bit 21 (of_nat (t ! 1) AND 0x0F) OR
     push_bit 16 (of_nat (t ! 2) AND 0x1F) OR push_bit 11 (of_nat (t ! 3) AND 0x1F) OR
     push_bit 5 (of_nat (t ! 4) AND 0x3F) OR (of_nat (t ! 5 div 2) AND 0x1F)"

definition rcv_fw_info :: "zephyr \<Rightarrow> rcv_build \<Rightarrow> bytes" where
  "rcv_fw_info z b =
     (let info = [ESB_OTA_FW_INFO_TYPE, RECEIVER_OTA_ID] @ take 3 (rb_version b) @ put_be32 z (build_datetime (rb_build_time b)) @
            put_le32 z (rb_flash_used b) @ [rb_bootloader b, OTA_PROTOCOL_VERSION] @
            strncpy (OTA_BOARD_TARGET_MAX - 1) (rb_board b) @ [0] @ put_be16 z (ucast (drop_bit 12 (rb_flash_base b)))
      in info @ [crc8_ccitt z 0 info])"

definition rcv_fw_info_chunk :: "bytes \<Rightarrow> nat \<Rightarrow> bytes" where
  "rcv_fw_info_chunk info chunk =
     (let offset = 2 + chunk * 13;
          body = (if offset < length info then take (min 13 (length info - offset)) (drop offset info) else [])
      in [HID_OTA_FW_INFO, RECEIVER_OTA_ID, of_nat chunk] @ body @ replicate (13 - length body) 0)"

definition rcv_ota_send_fw_info :: "'f rcv_env \<Rightarrow> 'f rcv_world \<Rightarrow> 'f rcv_world" where
  "rcv_ota_send_fw_info env w =
     w\<lparr>rw_out := rw_out w @ map (rcv_fw_info_chunk (rcv_fw_info (rv_zephyr env) (rv_build env))) [0..<6]\<rparr>"

section \<open>The writer thread\<close>

text \<open>A loop over the staged image in pieces of 256 bytes; the result is missing when a read fails.\<close>

function staged_fold :: "'f rcv_env \<Rightarrow> (bytes \<Rightarrow> 'c \<Rightarrow> 'c) \<Rightarrow> 'f \<Rightarrow> nat \<Rightarrow> nat \<Rightarrow> 'c \<Rightarrow> 'c option" where
  "staged_fold env f flash addr remaining c =
     (if remaining = 0 then Some c
      else
        let chunk = min remaining 256
        in case fl_read (rv_flash env) addr chunk flash of
             None \<Rightarrow> None
           | Some buf \<Rightarrow> staged_fold env f flash (addr + chunk) (remaining - chunk) (f buf c))"
  by pat_completeness auto
termination
  by (relation "measure (\<lambda>(env, f, flash, addr, remaining, c). remaining)") auto

declare staged_fold.simps [simp del]

definition rcv_ota_do_verify :: "'f rcv_env \<Rightarrow> int \<Rightarrow> 'f rcv_world \<Rightarrow> 'f rcv_world" where
  "rcv_ota_do_verify env now w =
     (if rw_error w then rcv_fail env now OTA_STATUS_FLASH_ERROR w
      else
        case staged_fold env (\<lambda>buf c. rv_crc32 env c buf) (rw_flash w) (unat (ro_staging_base (rw_ota w)))
               (unat (ro_image_size (rw_ota w))) 0 of
          None \<Rightarrow> rcv_fail env now OTA_STATUS_FLASH_ERROR w
        | Some crc \<Rightarrow>
            if crc \<noteq> ro_image_crc32 (rw_ota w) then rcv_fail env now OTA_STATUS_VERIFY_FAIL w
            else rcv_ota_send_status env now (on_ota (\<lambda>s. s\<lparr>ro_error_code := OTA_STATUS_VERIFY_OK\<rparr>) w))"

text \<open>The checksum of the bootloader, one byte at a time.\<close>

definition crc16_step :: "u16 \<Rightarrow> u8 \<Rightarrow> u16" where
  "crc16_step c b =
     (let c1 = ucast (ucast (drop_bit 8 c) :: u8) OR push_bit 8 c;
          c2 = c1 XOR ucast b;
          c3 = c2 XOR drop_bit 4 (c2 AND 0xFF);
          c4 = c3 XOR push_bit 4 (push_bit 8 c3)
      in c4 XOR push_bit 1 (push_bit 4 (c4 AND 0xFF)))"

definition settings_bytes :: "zephyr \<Rightarrow> bootloader_settings \<Rightarrow> bytes" where
  "settings_bytes z s =
     (let le16 = (\<lambda>x :: u16. [ucast x, ucast (drop_bit 8 x)])
      in le16 (bank_0 s) @ le16 (bank_0_crc s) @ le16 (bank_1 s) @ [0, 0] @ put_le32 z (bank_0_size s) @ replicate 16 0)"

definition rcv_ota_activate_and_reset :: "'f rcv_env \<Rightarrow> 'f rcv_world \<Rightarrow> 'f rcv_world" where
  "rcv_ota_activate_and_reset env w =
     (let s = rw_ota w;
          params = \<lparr>cp_src_addr = unat (ro_staging_base s), cp_dst_addr = unat (ro_target_flash_base s),
            cp_size = unat (ro_image_size s), cp_page_size = RCV_OTA_FLASH_PAGE_SIZE,
            cp_settings_addr = (case rw_settings w of None \<Rightarrow> 0 | Some _ \<Rightarrow> rb_settings_addr (rv_build env)),
            cp_settings_data = (case rw_settings w of None \<Rightarrow> [] | Some x \<Rightarrow> settings_bytes (rv_zephyr env) x),
            cp_settings_words = (case rw_settings w of None \<Rightarrow> 0 | Some _ \<Rightarrow> 7)\<rparr>
      in w\<lparr>rw_writer := WriterCopies params\<rparr>)"

definition rcv_ota_do_activate :: "'f rcv_env \<Rightarrow> int \<Rightarrow> 'f rcv_world \<Rightarrow> 'f rcv_world" where
  "rcv_ota_do_activate env now w =
     (let w1 = rcv_ota_send_status env now (on_ota (\<lambda>s. s\<lparr>ro_state := RCV_OTA_ACTIVATING\<rparr>) w)
      in if \<not> rb_settings_page (rv_build env) then rcv_ota_activate_and_reset env (w1\<lparr>rw_settings := None\<rparr>)
         else
           case staged_fold env (\<lambda>buf c. foldl crc16_step c buf) (rw_flash w1) (unat (ro_staging_base (rw_ota w1)))
                  (unat (ro_image_size (rw_ota w1))) 0xFFFF of
             None \<Rightarrow> (rcv_fail env now OTA_STATUS_FLASH_ERROR w1)\<lparr>rw_writer := WriterGone\<rparr>
           | Some crc \<Rightarrow> rcv_ota_activate_and_reset env (w1\<lparr>rw_settings := Some
               \<lparr>bank_0 = 0x01, bank_0_crc = crc, bank_1 = 0xFF, bank_0_size = ro_image_size (rw_ota w1)\<rparr>\<rparr>))"

definition writer_command :: "'f rcv_env \<Rightarrow> int \<Rightarrow> u8 \<Rightarrow> 'f rcv_world \<Rightarrow> 'f rcv_world" where
  "writer_command env now cmd w =
     (if rw_stop w \<or> cmd = WRITER_CMD_SHUTDOWN then w\<lparr>rw_writer := WriterGone\<rparr>
      else if cmd = WRITER_CMD_VERIFY then rcv_ota_do_verify env now (w\<lparr>rw_writer := WriterLoop\<rparr>)
      else if cmd = WRITER_CMD_ACTIVATE then rcv_ota_do_activate env now w
      else if 1 < cmd then w\<lparr>rw_writer := WriterLoop\<rparr>
      else w\<lparr>rw_writer := WriterPage (unat cmd)\<rparr>)"

definition rcv_ota_writer_fn :: "'f rcv_env \<Rightarrow> int \<Rightarrow> 'f rcv_world \<Rightarrow> 'f rcv_world" where
  "rcv_ota_writer_fn env now w =
     (case rw_writer w of
        WriterGone \<Rightarrow> w
      | WriterCopies _ \<Rightarrow> w
      | WriterLoop \<Rightarrow> w\<lparr>rw_writer := (if rw_stop w then WriterGone else WriterWaiting)\<rparr>
      | WriterWaiting \<Rightarrow> (case rw_queue w of [] \<Rightarrow> w | cmd # q \<Rightarrow> writer_command env now cmd (w\<lparr>rw_queue := q\<rparr>))
      | WriterPage slot \<Rightarrow>
          (let (ok, flash) = fl_erase (rv_flash env) (unat (pw_addr (rw_reqs w ! slot))) (rw_flash w); w1 = w\<lparr>rw_flash := flash\<rparr>
           in if ok then w1\<lparr>rw_writer := WriterErased slot\<rparr> else w1\<lparr>rw_error := True, rw_writer := WriterRelease slot\<rparr>)
      | WriterErased slot \<Rightarrow>
          (let req = rw_reqs w ! slot;
               (ok, flash) = fl_write (rv_flash env) (unat (pw_addr req)) (take (pw_len req) (pw_data req)) (rw_flash w);
               w1 = w\<lparr>rw_flash := flash, rw_writer := WriterRelease slot\<rparr>
           in if ok then w1 else w1\<lparr>rw_error := True\<rparr>)
      | WriterRelease slot \<Rightarrow> w\<lparr>rw_sems := (rw_sems w)[slot := True], rw_writer := WriterLoop\<rparr>)"

text \<open>A wait of the report handler, in which the writer takes steps at the given times.\<close>

definition rcv_wait :: "'f rcv_env \<Rightarrow> nat \<Rightarrow> 'f rcv_world \<Rightarrow> 'f rcv_world" where
  "rcv_wait env i w = fold (rcv_ota_writer_fn env) (rv_waits env i) w"

definition writer_put :: "'f rcv_env \<Rightarrow> nat \<Rightarrow> u8 \<Rightarrow> 'f rcv_world \<Rightarrow> bool \<times> 'f rcv_world" where
  "writer_put env i cmd w =
     (let w1 = rcv_wait env i w
      in if length (rw_queue w1) < WRITER_QUEUE_SIZE then (True, w1\<lparr>rw_queue := rw_queue w1 @ [cmd]\<rparr>) else (False, w1))"

definition rcv_ota_start_writer :: "'f rcv_world \<Rightarrow> 'f rcv_world" where
  "rcv_ota_start_writer w =
     w\<lparr>rw_error := False, rw_stop := False, rw_queue := [], rw_sems := [True, True], rw_created := True, rw_writer := WriterLoop\<rparr>"

text \<open>Whether the writer has been joined. The command that wakes it finds a full queue only when nothing needs waking.\<close>

definition rcv_ota_stop_writer :: "'f rcv_env \<Rightarrow> nat \<Rightarrow> 'f rcv_world \<Rightarrow> bool \<times> 'f rcv_world" where
  "rcv_ota_stop_writer env i w =
     (if \<not> rw_created w then (True, w)
      else
        let w1 = w\<lparr>rw_stop := True, rw_queue :=
              (if length (rw_queue w) < WRITER_QUEUE_SIZE then rw_queue w @ [WRITER_CMD_SHUTDOWN] else rw_queue w)\<rparr>;
            w2 = rcv_wait env i w1; s = rw_ota w2
        in if rw_writer w2 \<noteq> WriterGone then (False, w2)
           else
             let w3 = (if 0 < ro_page_buf_offset s
                   then on_ota (\<lambda>s. s\<lparr>ro_page_buf_offset := 0\<rparr>) (w2\<lparr>rw_sems := (rw_sems w2)[ro_next_write_slot s := True]\<rparr>)
                   else w2)
             in (True, w3\<lparr>rw_created := False, rw_stop := False\<rparr>))"

section \<open>The report handler\<close>

definition rcv_ota_flush_page_buf :: "'f rcv_env \<Rightarrow> nat \<Rightarrow> 'f rcv_world \<Rightarrow> bool \<times> 'f rcv_world" where
  "rcv_ota_flush_page_buf env i w =
     (if rw_error w then (False, w)
      else
        let s = rw_ota w; slot = ro_next_write_slot s; off = ro_page_buf_offset s; req = rw_reqs w ! slot;
            req1 = \<lparr>pw_data = (if off < RCV_OTA_FLASH_PAGE_SIZE
                     then take off (pw_data req) @ replicate (RCV_OTA_FLASH_PAGE_SIZE - off) 0xFF else pw_data req),
                   pw_addr = ro_page_buf_flash_addr s, pw_len = off\<rparr>;
            (ok, w1) = writer_put env i (of_nat slot) (w\<lparr>rw_reqs := (rw_reqs w)[slot := req1]\<rparr>)
        in if \<not> ok then (False, w1)
           else (True, on_ota (\<lambda>s. s\<lparr>ro_next_write_slot := 1 - slot,
                  ro_page_buf_flash_addr := ro_page_buf_flash_addr s + of_nat RCV_OTA_FLASH_PAGE_SIZE,
                  ro_page_buf_offset := 0\<rparr>) w1))"

text \<open>The strings of the two boards, compared as C strings of at most 48 characters.\<close>

definition c_string :: "nat \<Rightarrow> bytes \<Rightarrow> bytes" where
  "c_string n s = take n (takeWhile (\<lambda>b. b \<noteq> 0) s @ [0])"

text \<open>The fields of a request to begin, and the checks before anything of the old session is given up.\<close>

record begin_request =
  br_image_size :: u32
  br_image_crc32 :: u32
  br_total_packets :: u16
  br_protocol :: u8
  br_board :: bytes
  br_flash_base :: u32

definition parse_begin :: "zephyr \<Rightarrow> bytes \<Rightarrow> begin_request" where
  "parse_begin z d = \<lparr>br_image_size = get_le32 z (d ! 2) (d ! 3) (d ! 4) (d ! 5),
     br_image_crc32 = get_le32 z (d ! 6) (d ! 7) (d ! 8) (d ! 9), br_total_packets = get_be16 z (d ! 10) (d ! 11),
     br_protocol = d ! 12, br_board = take (OTA_BOARD_TARGET_MAX - 1) (drop 13 d) @ [0],
     br_flash_base = push_bit 12 (ucast (get_be16 z (d ! 61) (d ! 62)))\<rparr>"

definition rcv_max_image_size :: "rcv_build \<Rightarrow> u32" where
  "rcv_max_image_size b = (rb_flash_end b - rb_flash_base b) div 2"

definition staging_of :: "rcv_build \<Rightarrow> u32 \<Rightarrow> u32" where
  "staging_of b sz =
     (let pages = (sz + of_nat RCV_OTA_FLASH_PAGE_SIZE - 1) div of_nat RCV_OTA_FLASH_PAGE_SIZE
      in (rb_flash_end b - pages * of_nat RCV_OTA_FLASH_PAGE_SIZE) AND NOT (of_nat RCV_OTA_FLASH_PAGE_SIZE - 1))"

definition begin_error :: "rcv_build \<Rightarrow> begin_request \<Rightarrow> u8 option" where
  "begin_error b r =
     (let size = br_image_size r; base = br_flash_base r
      in if br_protocol r \<noteq> OTA_PROTOCOL_VERSION then Some OTA_STATUS_ERROR
         else if size = 0 \<or> rcv_max_image_size b < size then Some OTA_STATUS_SIZE_ERROR
         else if c_string OTA_BOARD_TARGET_MAX (br_board r) \<noteq> c_string OTA_BOARD_TARGET_MAX (rb_board b)
         then Some OTA_STATUS_BOARD_MISMATCH
         else if base \<noteq> 0 \<and> base < 0x1000 then Some OTA_STATUS_SIZE_ERROR
         else if base \<noteq> 0 \<and> rb_flash_base b < base then Some OTA_STATUS_SIZE_ERROR
         else if base \<noteq> 0 \<and> rb_flash_end b < base + size then Some OTA_STATUS_SIZE_ERROR
         else if staging_of b size < rb_flash_base b + max size (rb_flash_used b) then Some OTA_STATUS_SIZE_ERROR
         else None)"

definition new_session :: "rcv_build \<Rightarrow> begin_request \<Rightarrow> rcv_ota" where
  "new_session b r =
     (let staging = staging_of b (br_image_size r)
      in zero_rcv_ota\<lparr>ro_image_size := br_image_size r, ro_image_crc32 := br_image_crc32 r,
           ro_total_packets := br_total_packets r, ro_staging_base := staging, ro_page_buf_flash_addr := staging,
           ro_target_flash_base := (if br_flash_base r \<noteq> 0 then br_flash_base r else rb_flash_base b),
           ro_state := RCV_OTA_READY\<rparr>)"

definition rcv_ota_handle_begin :: "'f rcv_env \<Rightarrow> bytes \<Rightarrow> 'f rcv_world \<Rightarrow> 'f rcv_world" where
  "rcv_ota_handle_begin env d w =
     (let b = rv_build env; now = rv_clock env 1
      in if length d < 64 then w
         else if rb_open_dfu b then rcv_fail env now OTA_STATUS_ERROR w
         else if ro_state (rw_ota w) \<noteq> RCV_OTA_IDLE \<and> ro_state (rw_ota w) \<noteq> RCV_OTA_ERROR \<and>
            ro_state (rw_ota w) \<noteq> RCV_OTA_COMPLETE \<and> \<not> rw_stop w
         then rcv_ota_send_status env now w
         else
           let (joined, w1) = rcv_ota_stop_writer env 0 w
           in if \<not> joined then rcv_ota_send_status env now w1
              else
                let r = parse_begin (rv_zephyr env) d
                in case begin_error b r of
                     Some code \<Rightarrow> rcv_fail env now code w1
                   | None \<Rightarrow> rcv_ota_send_status env now
                       (rcv_ota_start_writer (w1\<lparr>rw_ota := new_session b r, rw_settings := None\<rparr>)))"

text \<open>The payload of a data report goes into the page buffers; the wait number \<open>i\<close> counts the passes of the loop.\<close>

function store_payload :: "'f rcv_env \<Rightarrow> nat \<Rightarrow> bytes \<Rightarrow> 'f rcv_world \<Rightarrow> bool \<times> 'f rcv_world" where
  "store_payload env i payload w =
     (if payload = [] then (True, w)
      else
        let s = rw_ota w; off = ro_page_buf_offset s; slot = ro_next_write_slot s;
            chunk = min (RCV_OTA_FLASH_PAGE_SIZE - off) (length payload);
            w1 = (if off = 0 then rcv_wait env i w else w);
            w2 = (if off = 0 then w1\<lparr>rw_sems := (rw_sems w1)[slot := False]\<rparr> else w1);
            req = rw_reqs w2 ! slot;
            w3 = on_ota (\<lambda>s. s\<lparr>ro_page_buf_offset := off + chunk\<rparr>)
              (w2\<lparr>rw_reqs := (rw_reqs w2)[slot := req\<lparr>pw_data :=
                 take off (pw_data req) @ take chunk payload @ drop (off + chunk) (pw_data req)\<rparr>]\<rparr>)
        in if RCV_OTA_FLASH_PAGE_SIZE \<le> off \<or> off = 0 \<and> \<not> rw_sems w1 ! slot then (False, w1)
           else if off + chunk < RCV_OTA_FLASH_PAGE_SIZE then store_payload env (i + 2) (drop chunk payload) w3
           else
             let (ok, w4) = rcv_ota_flush_page_buf env (i + 1) w3
             in if \<not> ok then (False, w4) else store_payload env (i + 2) (drop chunk payload) w4)"
  by pat_completeness auto
termination
  by (relation "measure (\<lambda>(env, i, payload, w). length payload)") auto

declare store_payload.simps [simp del]

definition rcv_ota_handle_data :: "'f rcv_env \<Rightarrow> bytes \<Rightarrow> 'f rcv_world \<Rightarrow> 'f rcv_world" where
  "rcv_ota_handle_data env d w =
     (let s = rw_ota w; z = rv_zephyr env; now = rv_clock env 1
      in if ro_state s \<noteq> RCV_OTA_READY \<and> ro_state s \<noteq> RCV_OTA_RECEIVING then w
         else if rw_error w then rcv_fail env now OTA_STATUS_FLASH_ERROR w
         else if length d < 4 then w
         else
           let seq = get_be16 z (d ! 2) (d ! 3); offset = unat seq * OTA_DATA_MAX_PAYLOAD; size = unat (ro_image_size s);
               payload_len = min OTA_DATA_MAX_PAYLOAD (size - offset); payload = take payload_len (drop 4 d)
           in if size \<le> offset then w
              else if seq < ro_next_expected_seq s then w
              else if seq \<noteq> ro_next_expected_seq s then rcv_fail env now OTA_STATUS_SEQ_ERROR w
              else if length d - 4 < payload_len then w
              else
                let w1 = on_ota (\<lambda>s. s\<lparr>ro_state := RCV_OTA_RECEIVING\<rparr>) w
                in if ro_bytes_written s = 0 \<and> 4 \<le> payload_len \<and>
                      get_le32 z (payload ! 0) (payload ! 1) (payload ! 2) (payload ! 3) = MCUBOOT_MAGIC
                   then rcv_fail env now OTA_STATUS_VERIFY_FAIL w1
                   else
                     let (ok, w2) = store_payload env 0 payload w1
                     in if \<not> ok then rcv_fail env now OTA_STATUS_FLASH_ERROR w2
                        else
                          let w3 = on_ota (\<lambda>s. s\<lparr>ro_bytes_written := ro_bytes_written s + of_nat payload_len,
                                ro_next_expected_seq := seq + 1\<rparr>) w2
                          in if 20 \<le> rv_clock env 0 - ro_last_status_time (rw_ota w3) then rcv_ota_send_status env now w3 else w3)"

definition rcv_ota_handle_verify :: "'f rcv_env \<Rightarrow> 'f rcv_world \<Rightarrow> 'f rcv_world" where
  "rcv_ota_handle_verify env w =
     (let s = rw_ota w; now = rv_clock env 1
      in if ro_state s \<noteq> RCV_OTA_RECEIVING \<and> ro_state s \<noteq> RCV_OTA_READY then rcv_ota_send_status env now w
         else if ro_bytes_written s \<noteq> ro_image_size s then rcv_fail env now OTA_STATUS_SEQ_ERROR w
         else
           let w1 = on_ota (\<lambda>s. s\<lparr>ro_state := RCV_OTA_VERIFYING\<rparr>) w;
               (flushed, w2) = (if 0 < ro_page_buf_offset s then rcv_ota_flush_page_buf env 0 w1 else (True, w1))
           in if \<not> flushed then rcv_fail env now OTA_STATUS_FLASH_ERROR w2
              else
                let (sent, w3) = writer_put env 1 WRITER_CMD_VERIFY w2
                in if \<not> sent then rcv_fail env now OTA_STATUS_ERROR w3 else w3)"

definition rcv_ota_handle_activate :: "'f rcv_env \<Rightarrow> 'f rcv_world \<Rightarrow> 'f rcv_world" where
  "rcv_ota_handle_activate env w =
     (let now = rv_clock env 1
      in if ro_state (rw_ota w) \<noteq> RCV_OTA_VERIFYING \<or> ro_error_code (rw_ota w) \<noteq> OTA_STATUS_VERIFY_OK
         then rcv_ota_send_status env now w
         else
           let (sent, w1) = writer_put env 0 WRITER_CMD_ACTIVATE (on_ota (\<lambda>s. s\<lparr>ro_state := RCV_OTA_ACTIVATE_PENDING\<rparr>) w)
           in if \<not> sent then rcv_fail env now OTA_STATUS_ERROR w1 else w1)"

definition rcv_ota_handle_abort :: "'f rcv_env \<Rightarrow> 'f rcv_world \<Rightarrow> 'f rcv_world" where
  "rcv_ota_handle_abort env w =
     (let (joined, w1) = rcv_ota_stop_writer env 0 w
      in if \<not> joined then rcv_ota_send_status env (rv_clock env 1) w1
         else w1\<lparr>rw_ota := zero_rcv_ota, rw_settings := None\<rparr>)"

definition receiver_ota_begin :: "'f rcv_env \<Rightarrow> bytes \<Rightarrow> 'f rcv_world \<Rightarrow> 'f rcv_world" where
  "receiver_ota_begin env d w =
     (let acquired = \<not> receiver_ota_is_active w;
          (err, e) = (if acquired then esb_radio_operation_begin (rv_peers env) (rw_esb w) else (None, rw_esb w))
      in if err \<noteq> None then rcv_ota_send_status env (rv_clock env 1) (w\<lparr>rw_esb := e\<rparr>)
         else
           let w1 = rcv_ota_handle_begin env d (w\<lparr>rw_esb := esb_auto_loss_invalidate e\<rparr>)
           in if acquired then w1\<lparr>rw_esb := esb_radio_operation_end (rw_esb w1)\<rparr> else w1)"

text \<open>The flash controller is looked up once, and asked only then whether it is ready.\<close>

definition receiver_ota_process_hid :: "'f rcv_env \<Rightarrow> bytes \<Rightarrow> 'f rcv_world \<Rightarrow> 'f rcv_world" where
  "receiver_ota_process_hid env d w =
     (if length d < 2 then w
      else if \<not> rw_flash_dev w \<and> \<not> fl_ready (rv_flash env) then w\<lparr>rw_flash_dev := True\<rparr>
      else
        let w0 = w\<lparr>rw_flash_dev := True\<rparr>; type = d ! 0
        in if rw_stop w0 \<and> type \<noteq> HID_OTA_BEGIN \<and> type \<noteq> HID_OTA_ABORT \<and> type \<noteq> HID_OTA_QUERY_INFO
           then rcv_ota_send_status env (rv_clock env 1) w0
           else if type = HID_OTA_QUERY_INFO then rcv_ota_send_fw_info env w0
           else if type = HID_OTA_BEGIN then receiver_ota_begin env d w0
           else if type = HID_OTA_DATA then rcv_ota_handle_data env d w0
           else if type = HID_OTA_VERIFY then rcv_ota_handle_verify env w0
           else if type = HID_OTA_ACTIVATE then rcv_ota_handle_activate env w0
           else if type = HID_OTA_ABORT then rcv_ota_handle_abort env w0
           else w0)"

section \<open>The copy routine\<close>

text \<open>
  The flash as the routine sees it, by byte address: an erased page reads as ones, writing a word can only clear
  bits. It runs with the interrupts off until the reset.
\<close>

definition mem_word :: "(nat \<Rightarrow> u8) \<Rightarrow> nat \<Rightarrow> bytes" where
  "mem_word m a = map m [a..<a + 4]"

definition mem_erase :: "nat \<Rightarrow> nat \<Rightarrow> (nat \<Rightarrow> u8) \<Rightarrow> (nat \<Rightarrow> u8)" where
  "mem_erase n a m = (\<lambda>x. if a \<le> x \<and> x < a + n then 0xFF else m x)"

definition mem_write :: "nat \<Rightarrow> bytes \<Rightarrow> (nat \<Rightarrow> u8) \<Rightarrow> (nat \<Rightarrow> u8)" where
  "mem_write a bs m = (\<lambda>x. if a \<le> x \<and> x < a + length bs then m x AND bs ! (x - a) else m x)"

definition copy_words :: "nat \<Rightarrow> nat \<Rightarrow> nat \<Rightarrow> (nat \<Rightarrow> u8) \<Rightarrow> (nat \<Rightarrow> u8)" where
  "copy_words dst src words m = fold (\<lambda>w m. mem_write (dst + 4 * w) (mem_word m (src + 4 * w)) m) [0..<words] m"

definition copy_page :: "flash_copy_params \<Rightarrow> nat \<Rightarrow> (nat \<Rightarrow> u8) \<Rightarrow> (nat \<Rightarrow> u8)" where
  "copy_page p i m =
     (let dst = cp_dst_addr p + i * cp_page_size p; src = cp_src_addr p + i * cp_page_size p;
          remaining = cp_size p - i * cp_page_size p;
          words = (if remaining < cp_page_size p then (remaining + 3) div 4 else cp_page_size p div 4)
      in if list_all (\<lambda>w. mem_word m (dst + 4 * w) = mem_word m (src + 4 * w)) [0..<words] then m
         else copy_words dst src words (mem_erase (cp_page_size p) dst m))"

definition write_settings :: "flash_copy_params \<Rightarrow> (nat \<Rightarrow> u8) \<Rightarrow> (nat \<Rightarrow> u8)" where
  "write_settings p m =
     (if cp_settings_addr p = 0 then m
      else fold (\<lambda>w m. mem_write (cp_settings_addr p + 4 * w) (take 4 (drop (4 * w) (cp_settings_data p))) m)
             [0..<cp_settings_words p] (mem_erase (cp_page_size p) (cp_settings_addr p) m))"

definition rcv_ota_flash_copy_from_ram :: "flash_copy_params \<Rightarrow> (nat \<Rightarrow> u8) \<Rightarrow> (nat \<Rightarrow> u8)" where
  "rcv_ota_flash_copy_from_ram p m =
     write_settings p (fold (copy_page p) [0..<(cp_size p + cp_page_size p - 1) div cp_page_size p] m)"

end
