(* ===== verification/ReceiverOtaCopy.thy ===== *)
theory ReceiverOtaCopy
  imports ReceiverOta
begin

text \<open>The routine that copies the staged image over the running firmware: what the flash holds afterwards.\<close>

section \<open>Words and pages\<close>

lemma mem_write_nth: "mem_write a bs m x = (if a \<le> x \<and> x < a + length bs then m x AND bs ! (x - a) else m x)"
  by (simp add: mem_write_def)

lemma mem_erase_nth: "mem_erase n a m x = (if a \<le> x \<and> x < a + n then 0xFF else m x)"
  by (simp add: mem_erase_def)

lemma mem_word_length [simp]: "length (mem_word m a) = 4"
  by (simp add: mem_word_def)

lemma mem_word_nth: "i < 4 \<Longrightarrow> mem_word m a ! i = m (a + i)"
  by (simp add: mem_word_def)

lemma mem_word_eqD: "mem_word m a = mem_word m b \<Longrightarrow> i < 4 \<Longrightarrow> m (a + i) = m (b + i)"
  by (metis mem_word_nth)

lemma copy_words_0 [simp]: "copy_words dst src 0 m = m"
  by (simp add: copy_words_def)

lemma copy_words_Suc [simp]:
  "copy_words dst src (Suc n) m = mem_write (dst + 4 * n) (mem_word (copy_words dst src n m) (src + 4 * n)) (copy_words dst src n m)"
  by (simp add: copy_words_def)

lemma copy_words_result:
  assumes "dst + 4 * n \<le> src"
  shows "copy_words dst src n m x = (if dst \<le> x \<and> x < dst + 4 * n then m x AND m (src + (x - dst)) else m x)"
  using assms
proof (induction n arbitrary: x)
  case (Suc n)
  have IH: "copy_words dst src n m y = (if dst \<le> y \<and> y < dst + 4 * n then m y AND m (src + (y - dst)) else m y)" for y
    using Suc by simp
  show ?case
  proof (cases "dst + 4 * n \<le> x \<and> x < dst + 4 * n + 4")
    case True
    then obtain i where i: "x = dst + 4 * n + i" "i < 4" by (metis nat_add_left_cancel_less le_Suc_ex)
    then show ?thesis using Suc.prems by (simp add: mem_write_nth mem_word_nth IH add_ac)
  next
    case False
    then show ?thesis by (auto simp: mem_write_nth IH)
  qed
qed auto

lemma ones_and [simp]: "(0xFF :: u8) AND x = x"
  by (rule bit_eqI) (auto simp: bit_simps numeral_eq_Suc less_Suc_eq)

text \<open>One page of the copy: the words it covers are the source's, the rest of the page is not said, and all else stays.\<close>

definition page_words :: "flash_copy_params \<Rightarrow> nat \<Rightarrow> nat" where
  "page_words p i = (if cp_size p - i * cp_page_size p < cp_page_size p then (cp_size p - i * cp_page_size p + 3) div 4
     else cp_page_size p div 4)"

lemma copy_page_result:
  assumes ps: "4 dvd cp_page_size p" and apart: "cp_dst_addr p + (i + 1) * cp_page_size p \<le> cp_src_addr p"
  defines "dst \<equiv> cp_dst_addr p + i * cp_page_size p" and "src \<equiv> cp_src_addr p + i * cp_page_size p"
  shows "j < 4 * page_words p i \<Longrightarrow> copy_page p i m (dst + j) = m (src + j)"
    "x < dst \<or> dst + cp_page_size p \<le> x \<Longrightarrow> copy_page p i m x = m x"
proof -
  define n where "n = page_words p i"
  have n: "4 * n \<le> cp_page_size p"
    using ps by (auto simp: n_def page_words_def elim!: dvdE)
  have sep: "dst + cp_page_size p \<le> src" using apart by (simp add: dst_def src_def)
  have c: "copy_page p i m = (if list_all (\<lambda>w. mem_word m (dst + 4 * w) = mem_word m (src + 4 * w)) [0..<n] then m
         else copy_words dst src n (mem_erase (cp_page_size p) dst m))"
    by (simp add: copy_page_def Let_def dst_def src_def n_def page_words_def)
  show "copy_page p i m (dst + j) = m (src + j)" if "j < 4 * page_words p i"
  proof (cases "list_all (\<lambda>w. mem_word m (dst + 4 * w) = mem_word m (src + 4 * w)) [0..<n]")
    case True
    have "j div 4 < n" using that by (simp add: n_def)
    then have "mem_word m (dst + 4 * (j div 4)) = mem_word m (src + 4 * (j div 4))" using True by (simp add: list_all_iff)
    from mem_word_eqD [OF this, of "j mod 4"] show ?thesis using True by (simp add: c add.assoc)
  next
    case False
    have "dst + 4 * n \<le> src" using n sep by simp
    from copy_words_result [OF this] show ?thesis
      using False that n sep by (auto simp: c mem_erase_nth n_def [symmetric])
  qed
  show "copy_page p i m x = m x" if "x < dst \<or> dst + cp_page_size p \<le> x"
  proof (cases "list_all (\<lambda>w. mem_word m (dst + 4 * w) = mem_word m (src + 4 * w)) [0..<n]")
    case False
    have "dst + 4 * n \<le> src" using n sep by simp
    from copy_words_result [OF this] show ?thesis
      using False that n by (auto simp: c mem_erase_nth)
  qed (simp add: c)
qed

section \<open>The whole copy\<close>

definition copy_pages :: "flash_copy_params \<Rightarrow> nat" where
  "copy_pages p = (cp_size p + cp_page_size p - 1) div cp_page_size p"

lemma copy_pages_cover:
  assumes "0 < cp_page_size p"
  shows "cp_size p \<le> copy_pages p * cp_page_size p" "copy_pages p * cp_page_size p < cp_size p + cp_page_size p"
proof -
  define n where "n = cp_size p + cp_page_size p - 1"
  have "copy_pages p * cp_page_size p + n mod cp_page_size p = n" "n mod cp_page_size p < cp_page_size p"
    using assms by (simp_all add: copy_pages_def n_def)
  moreover have "n + 1 = cp_size p + cp_page_size p" using assms by (simp add: n_def)
  ultimately show "cp_size p \<le> copy_pages p * cp_page_size p" "copy_pages p * cp_page_size p < cp_size p + cp_page_size p"
    by linarith+
qed

text \<open>The destination lies below the source, and the page of the settings apart from both.\<close>

definition copy_apart :: "flash_copy_params \<Rightarrow> bool" where
  "copy_apart p \<longleftrightarrow> 4 dvd cp_page_size p \<and> 0 < cp_page_size p \<and>
     cp_dst_addr p + copy_pages p * cp_page_size p \<le> cp_src_addr p \<and>
     (cp_settings_addr p = 0 \<or> cp_src_addr p + copy_pages p * cp_page_size p \<le> cp_settings_addr p) \<and>
     4 * cp_settings_words p \<le> cp_page_size p \<and> 4 * cp_settings_words p \<le> length (cp_settings_data p)"

lemma copied_pages:
  assumes apart: "copy_apart p" and n: "n \<le> copy_pages p"
  defines "D \<equiv> cp_dst_addr p" and "ps \<equiv> cp_page_size p"
  shows "(j < min (n * ps) (cp_size p) \<longrightarrow> fold (copy_page p) [0..<n] m (D + j) = m (cp_src_addr p + j)) \<and>
    (x < D \<or> D + n * ps \<le> x \<longrightarrow> fold (copy_page p) [0..<n] m x = m x)"
  using n
proof (induction n arbitrary: j x)
  case (Suc n)
  define m1 where "m1 = fold (copy_page p) [0..<n] m"
  have ps: "0 < ps" "4 dvd ps" and room: "D + copy_pages p * ps \<le> cp_src_addr p"
    using apart by (simp_all add: copy_apart_def ps_def D_def)
  have le: "(n + 1) * ps \<le> copy_pages p * ps" using Suc.prems by (simp only: mult_le_mono1 Suc_eq_plus1 [symmetric])
  have IH: "m1 (D + j) = m (cp_src_addr p + j)" if "j < min (n * ps) (cp_size p)" for j
    using Suc.IH [of j 0] Suc.prems that by (simp add: m1_def)
  have stays: "m1 x = m x" if "x < D \<or> D + n * ps \<le> x" for x
    using Suc.IH [of 0 x] Suc.prems that by (auto simp: m1_def)
  have sep: "D + (n + 1) * ps \<le> cp_src_addr p" using le room by simp
  have run: "fold (copy_page p) [0..<Suc n] m y = copy_page p n m1 y" for y by (simp add: m1_def)
  have copied: "copy_page p n m1 (D + j) = m (cp_src_addr p + j)" if j: "j < Suc n * ps" "j < cp_size p" for j
  proof (cases "j < n * ps")
    case True
    have "copy_page p n m1 (D + j) = m1 (D + j)" using True by (intro copy_page_result(2)) (use ps sep in \<open>auto simp: D_def ps_def\<close>)
    then show ?thesis using IH [of j] True j by simp
  next
    case False
    then obtain k where k: "j = n * ps + k" by (metis le_Suc_ex not_less)
    have "k < 4 * page_words p n"
      using j k ps by (auto simp: page_words_def ps_def [symmetric] elim!: dvdE)
    then have "copy_page p n m1 (D + n * ps + k) = m1 (cp_src_addr p + n * ps + k)"
      unfolding D_def ps_def by (intro copy_page_result(1)) (use ps sep in \<open>auto simp: D_def ps_def\<close>)
    moreover have "m1 (cp_src_addr p + n * ps + k) = m (cp_src_addr p + n * ps + k)"
      using sep by (intro stays) simp
    ultimately show ?thesis using k by (simp add: add.assoc)
  qed
  have kept: "copy_page p n m1 x = m x" if x: "x < D \<or> D + Suc n * ps \<le> x" for x
  proof -
    have "copy_page p n m1 x = m1 x" by (intro copy_page_result(2)) (use ps sep x in \<open>auto simp: D_def ps_def\<close>)
    then show ?thesis using stays [of x] x by auto
  qed
  show ?case unfolding run using copied kept by simp
qed simp

lemma settings_words:
  assumes "4 * n \<le> length bs"
  shows "fold (\<lambda>w m. mem_write (a + 4 * w) (take 4 (drop (4 * w) bs)) m) [0..<n] m x =
    (if a \<le> x \<and> x < a + 4 * n then m x AND bs ! (x - a) else m x)"
  using assms
proof (induction n)
  case (Suc n)
  show ?case
  proof (cases "a + 4 * n \<le> x \<and> x < a + 4 * n + 4")
    case True
    then obtain i where i: "x = a + 4 * n + i" "i < 4" by (metis nat_add_left_cancel_less le_Suc_ex)
    then show ?thesis using Suc by (simp add: mem_write_nth)
  next
    case False
    then show ?thesis using Suc by (auto simp: mem_write_nth)
  qed
qed auto

lemma flash_copy_exact:
  assumes apart: "copy_apart p"
  shows "(\<forall>j < cp_size p. rcv_ota_flash_copy_from_ram p m (cp_dst_addr p + j) = m (cp_src_addr p + j)) \<and>
    (cp_settings_addr p \<noteq> 0 \<longrightarrow> (\<forall>j < 4 * cp_settings_words p.
       rcv_ota_flash_copy_from_ram p m (cp_settings_addr p + j) = cp_settings_data p ! j)) \<and>
    (\<forall>x. (x < cp_dst_addr p \<or> cp_dst_addr p + copy_pages p * cp_page_size p \<le> x) \<and>
         (cp_settings_addr p = 0 \<or> x < cp_settings_addr p \<or> cp_settings_addr p + cp_page_size p \<le> x) \<longrightarrow>
       rcv_ota_flash_copy_from_ram p m x = m x)"
proof -
  define m1 where "m1 = fold (copy_page p) [0..<copy_pages p] m"
  have ps: "0 < cp_page_size p" and st: "4 * cp_settings_words p \<le> cp_page_size p" "4 * cp_settings_words p \<le> length (cp_settings_data p)"
    using apart by (simp_all add: copy_apart_def)
  have cover: "cp_size p \<le> copy_pages p * cp_page_size p" by (rule copy_pages_cover(1) [OF ps])
  have m1: "m1 (cp_dst_addr p + j) = m (cp_src_addr p + j)" if "j < cp_size p" for j
    using copied_pages [OF apart order_refl, where j = j] that cover by (simp add: m1_def)
  have m1': "m1 x = m x" if "x < cp_dst_addr p \<or> cp_dst_addr p + copy_pages p * cp_page_size p \<le> x" for x
    using copied_pages [OF apart order_refl, where x = x] that by (auto simp: m1_def)
  have c: "rcv_ota_flash_copy_from_ram p m = write_settings p m1"
    by (simp add: rcv_ota_flash_copy_from_ram_def m1_def copy_pages_def)
  have w: "write_settings p m1 x = (if cp_settings_addr p = 0 then m1 x
      else if cp_settings_addr p \<le> x \<and> x < cp_settings_addr p + 4 * cp_settings_words p
      then cp_settings_data p ! (x - cp_settings_addr p)
      else if cp_settings_addr p \<le> x \<and> x < cp_settings_addr p + cp_page_size p then 0xFF else m1 x)" for x
    unfolding write_settings_def settings_words [OF st(2)] using st(1) by (simp add: mem_erase_nth)
  have below: "(cp_settings_addr p \<le> cp_dst_addr p + j) = False" if "0 < cp_settings_addr p" "j < cp_size p" for j
    using apart cover that by (auto simp: copy_apart_def)
  show ?thesis
    unfolding c w using m1 m1' st by (auto simp: below)
qed

end
