(* ===== verification/ReceiverOtaCorrect.thy ===== *)
theory ReceiverOtaCorrect
  imports ReceiverOtaCopy
begin

text \<open>
  The update of the receiver over all interleavings of the report handler and the writer thread: what is in the staging
  area when the image is found intact, and what the writer may touch.
\<close>

section \<open>The flash driver and the layout\<close>

text \<open>
  What the driver documents, over the contents of the flash by address: a call changes nothing outside of its range; an
  erased page reads as ones; writing clears bits; reading gives the contents.
\<close>

definition flash_law :: "'f flash_ops \<Rightarrow> ('f \<Rightarrow> nat \<Rightarrow> u8) \<Rightarrow> bool" where
  "flash_law ops c \<longleftrightarrow>
     (\<forall>a f ok f'. fl_erase ops a f = (ok, f') \<longrightarrow>
        (\<forall>x. x < a \<or> a + RCV_OTA_FLASH_PAGE_SIZE \<le> x \<longrightarrow> c f' x = c f x) \<and>
        (ok \<longrightarrow> (\<forall>i < RCV_OTA_FLASH_PAGE_SIZE. c f' (a + i) = 0xFF))) \<and>
     (\<forall>a bs f ok f'. fl_write ops a bs f = (ok, f') \<longrightarrow>
        (\<forall>x. x < a \<or> a + length bs \<le> x \<longrightarrow> c f' x = c f x) \<and>
        (ok \<longrightarrow> (\<forall>i < length bs. c f' (a + i) = c f (a + i) AND bs ! i))) \<and>
     (\<forall>a n f bs. fl_read ops a n f = Some bs \<longrightarrow> bs = map (c f) [a..<a + n])"

lemma flash_erase:
  assumes "flash_law ops c" and "fl_erase ops a f = (ok, f')"
  shows "x < a \<or> a + RCV_OTA_FLASH_PAGE_SIZE \<le> x \<Longrightarrow> c f' x = c f x" "ok \<Longrightarrow> i < RCV_OTA_FLASH_PAGE_SIZE \<Longrightarrow> c f' (a + i) = 0xFF"
  using conjunct1 [OF assms(1) [unfolded flash_law_def]] assms(2) by blast+

lemma flash_write:
  assumes "flash_law ops c" and "fl_write ops a bs f = (ok, f')"
  shows "x < a \<or> a + length bs \<le> x \<Longrightarrow> c f' x = c f x" "ok \<Longrightarrow> i < length bs \<Longrightarrow> c f' (a + i) = c f (a + i) AND bs ! i"
proof -
  note law = conjunct1 [OF conjunct2 [OF assms(1) [unfolded flash_law_def]]]
  note w = mp [OF spec [OF spec [OF spec [OF spec [OF spec [OF law]]]]] assms(2)]
  show "x < a \<or> a + length bs \<le> x \<Longrightarrow> c f' x = c f x" using conjunct1 [OF w] by blast
  show "ok \<Longrightarrow> i < length bs \<Longrightarrow> c f' (a + i) = c f (a + i) AND bs ! i" using conjunct2 [OF w] by blast
qed

lemma flash_read:
  assumes "flash_law ops c" and "fl_read ops a n f = Some bs"
  shows "bs = map (c f) [a..<a + n]"
proof -
  note law = conjunct2 [OF conjunct2 [OF assms(1) [unfolded flash_law_def]]]
  show ?thesis by (rule mp [OF spec [OF spec [OF spec [OF spec [OF law]]]] assms(2)])
qed

text \<open>The constants of a build: whole pages, above the boot record, in the first megabyte, settings behind the end.\<close>

definition build_ok :: "rcv_build \<Rightarrow> bool" where
  "build_ok b \<longleftrightarrow> 0x1000 \<le> unat (rb_flash_base b) \<and> 4096 dvd unat (rb_flash_base b) \<and> 4096 dvd unat (rb_flash_end b) \<and>
     unat (rb_flash_base b) < unat (rb_flash_end b) \<and> unat (rb_flash_end b) \<le> 0x100000 \<and>
     unat (rb_flash_base b) + unat (rb_flash_used b) \<le> unat (rb_flash_end b) \<and>
     (rb_settings_page b \<longrightarrow> unat (rb_flash_end b) \<le> rb_settings_addr b)"

definition staging_ok :: "rcv_build \<Rightarrow> rcv_ota \<Rightarrow> nat \<Rightarrow> bool" where
  "staging_ok b s n \<longleftrightarrow> unat (ro_image_size s) = n \<and> 0 < n \<and> n \<le> 0x80000 \<and> 4096 dvd unat (ro_staging_base s) \<and>
     unat (rb_flash_base b) + max n (unat (rb_flash_used b)) \<le> unat (ro_staging_base s) \<and>
     (\<forall>k. 4096 * k < n \<longrightarrow> unat (ro_staging_base s) + 4096 * (k + 1) \<le> unat (rb_flash_end b)) \<and>
     unat (ro_target_flash_base s) \<le> unat (rb_flash_base b) \<and> 4096 dvd unat (ro_target_flash_base s)"

lemma page_mask:
  fixes x :: u32
  assumes "4096 dvd unat x"
  shows "x AND NOT 4095 = x"
proof (rule bit_eqI)
  fix n assume n: "possible_bit TYPE(32 word) n"
  have "unat (take_bit 12 x) = 0"
    unfolding unsigned_take_bit_eq using assms by (simp add: take_bit_eq_mod mod_eq_0_iff_dvd)
  then have "\<not> (n < 12 \<and> bit x n)"
    by (metis bit_take_bit_iff bit_0_eq bot_apply bot_bool_def unat_eq_zero)
  moreover have "bit (4095 :: u32) n = (n < 12)"
  proof -
    have "(4095 :: u32) = mask 12" by (simp add: mask_eq_exp_minus_1)
    then show ?thesis unfolding \<open>(4095 :: u32) = mask 12\<close> using n by (simp only: bit_mask_iff) simp
  qed
  ultimately show "bit (x AND NOT 4095) n = bit x n" using n by (auto simp: bit_simps)
qed

lemma begin_layout:
  assumes b: "build_ok b" and e: "begin_error b (parse_begin z d) = None"
  shows "staging_ok b (new_session b (parse_begin z d)) (unat (br_image_size (parse_begin z d)))"
proof -
  define sz where "sz = br_image_size (parse_begin z d)"
  define target where "target = br_flash_base (parse_begin z d)"
  define n where "n = unat sz"
  define lo where "lo = unat (rb_flash_base b)"
  define hi where "hi = unat (rb_flash_end b)"
  define used where "used = unat (rb_flash_used b)"
  define pages where "pages = (n + 4095) div 4096"
  have b': "0x1000 \<le> lo" "4096 dvd lo" "4096 dvd hi" "lo < hi" "hi \<le> 0x100000" "lo + used \<le> hi"
    using b by (simp_all add: build_ok_def lo_def hi_def used_def)
  have max_size: "unat (rcv_max_image_size b) = (hi - lo) div 2"
    using b'(4) by (simp add: rcv_max_image_size_def unat_div_distrib unat_sub word_le_nat_alt lo_def hi_def)
  have c: "sz \<noteq> 0" "\<not> rcv_max_image_size b < sz" "\<not> (target \<noteq> 0 \<and> rb_flash_base b < target)"
    "\<not> staging_of b sz < rb_flash_base b + max sz (rb_flash_used b)"
    using e by (auto simp: begin_error_def Let_def sz_def [symmetric] target_def [symmetric] split: if_splits)
  have n: "0 < n" "n \<le> (hi - lo) div 2"
    using c(1,2) max_size by (auto simp: n_def word_less_nat_alt unat_gt_0)
  have fits: "pages * 4096 \<le> n + 4095" "n \<le> pages * 4096" by (simp_all add: pages_def)
  have room: "pages * 4096 \<le> hi" using fits(1) n(2) b'(1,4) by linarith
  have p: "unat ((sz + 4096 - 1) div 4096) = pages"
  proof -
    have "sz + 4096 - 1 = sz + 4095" by simp
    moreover have "unat (sz + 4095) = n + 4095" using n b' by (subst unat_add_lem [THEN iffD1]) (simp_all add: n_def)
    ultimately show ?thesis by (simp only: unat_div_distrib pages_def) simp
  qed
  have pm: "unat ((sz + 4096 - 1) div 4096 * 4096) = pages * 4096"
    using p room b'(5) by (subst unat_mult_lem [THEN iffD1]) simp_all
  define st where "st = rb_flash_end b - (sz + 4096 - 1) div 4096 * 4096"
  have st: "unat st = hi - pages * 4096"
    using pm room by (simp add: st_def unat_sub word_le_nat_alt hi_def del: word_sub_le_iff)
  have dvd: "4096 dvd unat st" using st b'(3) by simp
  have stage: "staging_of b sz = st" using page_mask [OF dvd] by (simp add: staging_of_def Let_def st_def)
  have "unat (rb_flash_base b + max sz (rb_flash_used b)) = lo + max n used"
  proof -
    have m: "unat (max sz (rb_flash_used b)) = max n used" by (simp add: max_def n_def used_def word_le_nat_alt)
    have "n \<le> hi" using n(2) by linarith
    then have "lo + max n used < 2 ^ 32" using b' by (cases "n \<le> used") (simp_all add: max_def)
    then show ?thesis by (subst unat_add_lem [THEN iffD1]) (simp_all add: m lo_def)
  qed
  then have above: "lo + max n used \<le> hi - pages * 4096"
    using c(4) st stage by (simp add: word_less_nat_alt)
  have pages_k: "k < pages" if "4096 * k < n" for k using that by (simp add: pages_def)
  have up: "hi - pages * 4096 + 4096 * (k + 1) \<le> hi" if "4096 * k < n" for k
    using pages_k [OF that] room by (simp add: Suc_le_eq [symmetric])
  have tdvd: "4096 dvd unat target"
  proof -
    have t: "target = push_bit 12 (ucast (get_be16 z (d ! 61) (d ! 62)))" by (simp add: target_def parse_begin_def)
    have "take_bit 12 target = 0" by (rule bit_eqI) (simp add: t bit_simps)
    then have "unat (take_bit 12 target) = 0" by simp
    then have "take_bit 12 (unat target) = 0" unfolding unsigned_take_bit_eq .
    then show ?thesis by (simp add: take_bit_eq_mod mod_eq_0_iff_dvd)
  qed
  show ?thesis
    using n b' st dvd above up tdvd c(3)
    by (auto simp: staging_ok_def new_session_def Let_def stage sz_def [symmetric] target_def [symmetric] n_def [symmetric]
        lo_def [symmetric] hi_def [symmetric] used_def [symmetric] zero_rcv_ota_def word_less_nat_alt not_less)
qed

end
