(* ===== verification/ReceiverOtaPipe.thy ===== *)
theory ReceiverOtaPipe
  imports ReceiverOtaCorrect
begin

text \<open>
  The pages on their way from the report handler to the flash: which slot holds which page, who owns it, and what
  the staging area holds already.
\<close>

section \<open>The invariant\<close>

definition current :: "writer \<Rightarrow> nat list" where
  "current x = (case x of WriterPage s \<Rightarrow> [s] | WriterErased s \<Rightarrow> [s] | WriterRelease s \<Rightarrow> [s] | _ \<Rightarrow> [])"

lemma current_simps [simp]:
  "current WriterGone = []" "current WriterLoop = []" "current WriterWaiting = []" "current (WriterCopies prm) = []"
  "current (WriterPage s) = [s]" "current (WriterErased s) = [s]" "current (WriterRelease s) = [s]"
  by (simp_all add: current_def)

definition page_of :: "bytes \<Rightarrow> nat \<Rightarrow> bytes" where
  "page_of img k = take 4096 (drop (4096 * k) img)"

definition req_ok :: "bytes \<Rightarrow> nat \<Rightarrow> nat \<Rightarrow> page_write_req \<Rightarrow> bool" where
  "req_ok img base k r \<longleftrightarrow> take (pw_len r) (pw_data r) = page_of img k \<and> unat (pw_addr r) = base + 4096 * k"

abbreviation base_of :: "'f rcv_world \<Rightarrow> nat" where
  "base_of w \<equiv> unat (ro_staging_base (rw_ota w))"

abbreviation off_of :: "'f rcv_world \<Rightarrow> nat" where
  "off_of w \<equiv> ro_page_buf_offset (rw_ota w)"

text \<open>
  With \<open>p\<close> pages submitted, the slots in flight hold the last of them, in the order of the queue, page \<open>k\<close> in the slot
  \<open>k mod 2\<close>; behind the pages at most one command waits. A slot is free unless it is in flight or being filled.
\<close>

definition flying :: "nat \<Rightarrow> nat list \<Rightarrow> bool" where
  "flying p fl \<longleftrightarrow> length fl \<le> p \<and> length fl \<le> 2 \<and> fl = map (\<lambda>k. k mod 2) [p - length fl..<p]"

definition pages_ok :: "bytes \<Rightarrow> nat \<Rightarrow> nat list \<Rightarrow> 'f rcv_world \<Rightarrow> bool" where
  "pages_ok img p fl w \<longleftrightarrow> length (rw_reqs w) = 2 \<and> length (rw_sems w) = 2 \<and> (\<forall>r\<in>set (rw_reqs w). length (pw_data r) = 4096) \<and>
     (\<forall>k. p - length fl \<le> k \<and> k < p \<longrightarrow> req_ok img (base_of w) k (rw_reqs w ! (k mod 2))) \<and>
     (\<forall>sl<2. rw_sems w ! sl \<longleftrightarrow> sl \<notin> set fl \<and> \<not> (0 < off_of w \<and> sl = p mod 2)) \<and>
     (0 < off_of w \<longrightarrow> p mod 2 \<notin> set fl)"

definition filling :: "bytes \<Rightarrow> nat \<Rightarrow> 'f rcv_world \<Rightarrow> bool" where
  "filling img p w \<longleftrightarrow> ro_next_write_slot (rw_ota w) = p mod 2 \<and> unat (ro_page_buf_flash_addr (rw_ota w)) = base_of w + 4096 * p \<and>
     off_of w \<le> 4096 \<and> 4096 * p < length img + 4096 \<and> (0 < off_of w \<longrightarrow> 4096 * p + off_of w \<le> length img) \<and>
     take (off_of w) (pw_data (rw_reqs w ! (p mod 2))) = take (off_of w) (drop (4096 * p) img)"

definition on_flash :: "('f \<Rightarrow> nat \<Rightarrow> u8) \<Rightarrow> bytes \<Rightarrow> nat \<Rightarrow> 'f rcv_world \<Rightarrow> bool" where
  "on_flash c img n w \<longleftrightarrow> \<not> rw_error w \<longrightarrow>
     (\<forall>i. i < 4096 * n \<and> i < length img \<longrightarrow> c (rw_flash w) (base_of w + i) = img ! i) \<and>
     (\<forall>sl. rw_writer w = WriterErased sl \<longrightarrow> (\<forall>i<4096. c (rw_flash w) (base_of w + 4096 * n + i) = 0xFF)) \<and>
     (\<forall>sl. rw_writer w = WriterRelease sl \<longrightarrow>
        (\<forall>i<length (page_of img n). c (rw_flash w) (base_of w + 4096 * n + i) = page_of img n ! i))"

definition phase :: "bytes \<Rightarrow> nat \<Rightarrow> u8 list \<Rightarrow> 'f rcv_world \<Rightarrow> bool" where
  "phase img p sp w \<longleftrightarrow> sp \<in> {[], [WRITER_CMD_VERIFY], [WRITER_CMD_ACTIVATE]} \<and>
     (sp = [WRITER_CMD_VERIFY] \<longrightarrow> ro_state (rw_ota w) = RCV_OTA_VERIFYING \<and> ro_error_code (rw_ota w) = 0 \<and> off_of w = 0 \<and>
        length img \<le> 4096 * p) \<and>
     (sp = [WRITER_CMD_ACTIVATE] \<longrightarrow> ro_state (rw_ota w) = RCV_OTA_ACTIVATE_PENDING \<and>
        ro_error_code (rw_ota w) = OTA_STATUS_VERIFY_OK) \<and>
     (ro_state (rw_ota w) \<in> {RCV_OTA_READY, RCV_OTA_RECEIVING} \<longrightarrow> sp = [] \<and> ro_error_code (rw_ota w) = 0)"

definition pipe :: "('f \<Rightarrow> nat \<Rightarrow> u8) \<Rightarrow> bytes \<Rightarrow> nat \<Rightarrow> 'f rcv_world \<Rightarrow> bool" where
  "pipe c img p w \<longleftrightarrow> (\<exists>pg sp. rw_queue w = map of_nat pg @ sp \<and>
     (let fl = current (rw_writer w) @ pg
      in flying p fl \<and> pages_ok img p fl w \<and> filling img p w \<and> on_flash c img (p - length fl) w \<and> phase img p sp w))"

text \<open>What holds also while the writer is told to stop, when pages in the queue are given up.\<close>

definition in_region :: "rcv_build \<Rightarrow> page_write_req \<Rightarrow> bool" where
  "in_region b r \<longleftrightarrow> unat (rb_flash_base b) + unat (rb_flash_used b) \<le> unat (pw_addr r) \<and>
     unat (pw_addr r) + 4096 \<le> unat (rb_flash_end b) \<and> pw_len r \<le> 4096"

definition pending_slots :: "'f rcv_world \<Rightarrow> nat set" where
  "pending_slots w = set (current (rw_writer w)) \<union> unat ` {cmd \<in> set (rw_queue w). cmd \<le> 1}"

definition verified :: "('f \<Rightarrow> nat \<Rightarrow> u8) \<Rightarrow> bytes \<Rightarrow> 'f rcv_world \<Rightarrow> bool" where
  "verified c img w \<longleftrightarrow> ro_error_code (rw_ota w) = OTA_STATUS_VERIFY_OK \<longrightarrow>
     pending_slots w = {} \<and> (\<forall>i<length img. c (rw_flash w) (base_of w + i) = img ! i)"

definition copies :: "rcv_build \<Rightarrow> ('f \<Rightarrow> nat \<Rightarrow> u8) \<Rightarrow> bytes \<Rightarrow> 'f rcv_world \<Rightarrow> bool" where
  "copies b c img w \<longleftrightarrow> (\<forall>prm. rw_writer w = WriterCopies prm \<longrightarrow>
     cp_src_addr prm = base_of w \<and> cp_dst_addr prm = unat (ro_target_flash_base (rw_ota w)) \<and> cp_size prm = length img \<and>
     cp_page_size prm = 4096 \<and> cp_settings_addr prm \<in> {0, rb_settings_addr b} \<and> (cp_settings_addr prm \<noteq> 0 \<longrightarrow> rb_settings_page b) \<and>
     cp_settings_words prm \<le> 7 \<and> 4 * cp_settings_words prm \<le> length (cp_settings_data prm) \<and>
     (\<forall>i<length img. c (rw_flash w) (base_of w + i) = img ! i))"

definition session :: "rcv_build \<Rightarrow> ('f \<Rightarrow> nat \<Rightarrow> u8) \<Rightarrow> bytes \<Rightarrow> nat \<Rightarrow> 'f rcv_world \<Rightarrow> bool" where
  "session b c img p w \<longleftrightarrow> staging_ok b (rw_ota w) (length img) \<and> rw_created w \<and>
     (\<forall>sl\<in>pending_slots w. in_region b (rw_reqs w ! sl)) \<and> verified c img w \<and> copies b c img w \<and>
     (\<not> rw_stop w \<longrightarrow> pipe c img p w)"

section \<open>Steps of the writer\<close>

lemma send_status_fields [simp]:
  "rw_reqs (rcv_ota_send_status env t w) = rw_reqs w" "rw_sems (rcv_ota_send_status env t w) = rw_sems w"
  "rw_queue (rcv_ota_send_status env t w) = rw_queue w" "rw_error (rcv_ota_send_status env t w) = rw_error w"
  "rw_stop (rcv_ota_send_status env t w) = rw_stop w" "rw_created (rcv_ota_send_status env t w) = rw_created w"
  "rw_writer (rcv_ota_send_status env t w) = rw_writer w" "rw_flash (rcv_ota_send_status env t w) = rw_flash w"
  "rw_settings (rcv_ota_send_status env t w) = rw_settings w"
  by (simp_all add: rcv_ota_send_status_def on_ota_def Let_def)

lemma send_status_ota [simp]:
  "ro_state (rw_ota (rcv_ota_send_status env t w)) = ro_state (rw_ota w)"
  "ro_error_code (rw_ota (rcv_ota_send_status env t w)) = ro_error_code (rw_ota w)"
  "ro_image_size (rw_ota (rcv_ota_send_status env t w)) = ro_image_size (rw_ota w)"
  "ro_bytes_written (rw_ota (rcv_ota_send_status env t w)) = ro_bytes_written (rw_ota w)"
  "ro_next_expected_seq (rw_ota (rcv_ota_send_status env t w)) = ro_next_expected_seq (rw_ota w)"
  "ro_staging_base (rw_ota (rcv_ota_send_status env t w)) = ro_staging_base (rw_ota w)"
  "ro_target_flash_base (rw_ota (rcv_ota_send_status env t w)) = ro_target_flash_base (rw_ota w)"
  "ro_page_buf_offset (rw_ota (rcv_ota_send_status env t w)) = ro_page_buf_offset (rw_ota w)"
  "ro_page_buf_flash_addr (rw_ota (rcv_ota_send_status env t w)) = ro_page_buf_flash_addr (rw_ota w)"
  "ro_next_write_slot (rw_ota (rcv_ota_send_status env t w)) = ro_next_write_slot (rw_ota w)"
  by (simp_all add: rcv_ota_send_status_def on_ota_def Let_def)

lemma on_ota_fields [simp]:
  "rw_ota (on_ota f w) = f (rw_ota w)" "rw_reqs (on_ota f w) = rw_reqs w" "rw_sems (on_ota f w) = rw_sems w"
  "rw_queue (on_ota f w) = rw_queue w" "rw_error (on_ota f w) = rw_error w" "rw_stop (on_ota f w) = rw_stop w"
  "rw_created (on_ota f w) = rw_created w" "rw_writer (on_ota f w) = rw_writer w" "rw_flash (on_ota f w) = rw_flash w"
  "rw_settings (on_ota f w) = rw_settings w"
  by (simp_all add: on_ota_def)

text \<open>The fields that an invariant looks at; what only changes the others keeps it.\<close>

definition ota_view :: "rcv_ota \<Rightarrow> rcv_ota_state \<times> u32 \<times> u8 \<times> u32 \<times> u32 \<times> nat \<times> u32 \<times> nat" where
  "ota_view s = (ro_state s, ro_image_size s, ro_error_code s, ro_staging_base s, ro_target_flash_base s, ro_page_buf_offset s,
     ro_page_buf_flash_addr s, ro_next_write_slot s)"

definition world_view :: "'f rcv_world \<Rightarrow> page_write_req list \<times> bool list \<times> u8 list \<times> bool \<times> bool \<times> bool \<times> writer \<times> 'f" where
  "world_view w = (rw_reqs w, rw_sems w, rw_queue w, rw_error w, rw_stop w, rw_created w, rw_writer w, rw_flash w)"

lemma session_view:
  assumes "ota_view (rw_ota w') = ota_view (rw_ota w)" and "world_view w' = world_view w" and "session b c img p w"
  shows "session b c img p w'"
  using assms unfolding session_def pipe_def pages_ok_def filling_def on_flash_def phase_def verified_def copies_def staging_ok_def
    pending_slots_def by (simp add: ota_view_def world_view_def)

lemma session_status: "session b c img p w \<Longrightarrow> session b c img p (rcv_ota_send_status env t w)"
  by (erule session_view [rotated 2]) (simp_all add: ota_view_def world_view_def)

lemma pipe_parts:
  assumes "pipe c img p w"
  obtains pg sp where "rw_queue w = map of_nat pg @ sp" "flying p (current (rw_writer w) @ pg)"
    "pages_ok img p (current (rw_writer w) @ pg) w" "filling img p w"
    "on_flash c img (p - length (current (rw_writer w) @ pg)) w" "phase img p sp w"
proof -
  obtain pg sp where "rw_queue w = map of_nat pg @ sp \<and> (let fl = current (rw_writer w) @ pg
      in flying p fl \<and> pages_ok img p fl w \<and> filling img p w \<and> on_flash c img (p - length fl) w \<and> phase img p sp w)"
    using assms unfolding pipe_def by (elim exE)
  then show ?thesis using that [of pg sp] unfolding Let_def by (elim conjE)
qed

lemma pipe_compose:
  assumes "rw_queue w = map of_nat pg @ sp" "flying p (current (rw_writer w) @ pg)"
    "pages_ok img p (current (rw_writer w) @ pg) w" "filling img p w"
    "on_flash c img (p - length (current (rw_writer w) @ pg)) w" "phase img p sp w"
  shows "pipe c img p w"
  unfolding pipe_def Let_def by (rule exI [of _ pg], rule exI [of _ sp], intro conjI) (fact assms)+

definition no_commands :: "'f rcv_world \<Rightarrow> bool" where
  "no_commands w \<longleftrightarrow> WRITER_CMD_VERIFY \<notin> set (rw_queue w) \<and> WRITER_CMD_ACTIVATE \<notin> set (rw_queue w)"

lemma phase_quiet: "phase img p sp w \<Longrightarrow> rw_queue w = map of_nat pg @ sp \<Longrightarrow> no_commands w \<Longrightarrow> sp = []"
  unfolding phase_def no_commands_def by (metis Un_iff empty_iff insert_iff list.set_intros(1) set_append)

text \<open>A failure gives up the session, but not what is in flight.\<close>

lemma session_fail:
  assumes s: "session b c img p w" and code: "code \<noteq> OTA_STATUS_VERIFY_OK" and quiet: "\<not> rw_stop w \<Longrightarrow> no_commands w"
  shows "session b c img p (rcv_fail env t code w)"
proof -
  define w1 where "w1 = on_ota (\<lambda>s. s\<lparr>ro_state := RCV_OTA_ERROR, ro_error_code := code\<rparr>) w"
  have "pipe c img p w1" if stop: "\<not> rw_stop w"
  proof -
    have "pipe c img p w" using s stop by (simp add: session_def)
    then obtain pg sp where q: "rw_queue w = map of_nat pg @ sp" "flying p (current (rw_writer w) @ pg)"
      "pages_ok img p (current (rw_writer w) @ pg) w" "filling img p w"
      "on_flash c img (p - length (current (rw_writer w) @ pg)) w" "phase img p sp w" by (rule pipe_parts)
    have "sp = []" using phase_quiet [OF q(6,1) quiet [OF stop]] .
    then show ?thesis using q
      by (intro pipe_compose [of _ pg sp]) (simp_all add: w1_def flying_def pages_ok_def filling_def on_flash_def phase_def)
  qed
  then have "session b c img p w1"
    using s code by (auto simp: session_def staging_ok_def w1_def pending_slots_def verified_def copies_def)
  then show ?thesis unfolding rcv_fail_def w1_def by (rule session_status)
qed

section \<open>The single steps\<close>

lemma flying_head:
  assumes "flying p (s # fl)"
  shows "s = (p - Suc (length fl)) mod 2" "flying p fl" "p - length fl = Suc (p - Suc (length fl))" "p - Suc (length fl) < p" "s < 2"
proof -
  define n where "n = p - Suc (length fl)"
  have l: "Suc (length fl) \<le> p" "Suc (length fl) \<le> 2" "s # fl = map (\<lambda>k. k mod 2) [n..<p]"
    using assms by (simp_all add: flying_def n_def)
  have n: "n < p" "p - length fl = Suc n" using l(1) by (simp_all add: n_def)
  have "s # fl = (n mod 2) # map (\<lambda>k. k mod 2) [Suc n..<p]" using l(3) n(1) by (simp add: upt_conv_Cons)
  then have c: "s = n mod 2" "fl = map (\<lambda>k. k mod 2) [Suc n..<p]" by simp_all
  show "s = (p - Suc (length fl)) mod 2" using c(1) by (simp add: n_def)
  then show "s < 2" by simp
  show "p - length fl = Suc (p - Suc (length fl))" using n(2) by (simp add: n_def)
  show "p - Suc (length fl) < p" using n(1) by (simp add: n_def)
  show "flying p fl" unfolding flying_def n(2) using l c(2) by simp
qed

text \<open>A step that changes only where the writer is, and not which slots are in flight.\<close>

lemma session_move:
  assumes s: "session b c img p w" and x: "current x = current (rw_writer w)" and w': "w' = w\<lparr>rw_writer := x\<rparr>"
    and plain: "\<forall>sl. x \<noteq> WriterErased sl" "\<forall>sl. x \<noteq> WriterRelease sl" "\<forall>prm. x \<noteq> WriterCopies prm"
  shows "session b c img p w'"
proof -
  have "pipe c img p w'" if "\<not> rw_stop w"
  proof -
    have "pipe c img p w" using s that by (simp add: session_def)
    then obtain pg sp where q: "rw_queue w = map of_nat pg @ sp" "flying p (current (rw_writer w) @ pg)"
      "pages_ok img p (current (rw_writer w) @ pg) w" "filling img p w"
      "on_flash c img (p - length (current (rw_writer w) @ pg)) w" "phase img p sp w" by (rule pipe_parts)
    have f: "pages_ok img p fl w' = pages_ok img p fl w" "filling img p w' = filling img p w" "phase img p sp w' = phase img p sp w"
      "rw_queue w' = rw_queue w" "current (rw_writer w') = current (rw_writer w)" for fl
      by (simp_all add: w' x pages_ok_def filling_def phase_def)
    have "on_flash c img n w'" if "on_flash c img n w" for n using that plain by (simp add: w' x on_flash_def)
    then show ?thesis using q by (intro pipe_compose [of _ pg sp]) (simp_all only: f)
  qed
  moreover have "pending_slots w' = pending_slots w" by (simp add: pending_slots_def w' x)
  moreover have "copies b c img w'" using plain by (simp add: copies_def w')
  ultimately show ?thesis using s by (simp add: session_def w' verified_def)
qed

lemma step_loop:
  assumes "session b c img p w" and "rw_writer w = WriterLoop"
  shows "session b c img p (rcv_ota_writer_fn env t w)"
  by (rule session_move [OF assms(1), of "if rw_stop w then WriterGone else WriterWaiting"])
    (simp_all add: assms(2) rcv_ota_writer_fn_def)

definition env_ok :: "rcv_build \<Rightarrow> ('f \<Rightarrow> nat \<Rightarrow> u8) \<Rightarrow> 'f rcv_env \<Rightarrow> bool" where
  "env_ok b c env \<longleftrightarrow> rv_build env = b \<and> flash_law (rv_flash env) c \<and> zephyr_law (rv_zephyr env)"

subsection \<open>The page of a slot\<close>

text \<open>Where the writer stands with the first page in flight.\<close>

lemma first_page:
  assumes s: "session b c img p w" and x: "current (rw_writer w) = [sl]" and stop: "\<not> rw_stop w"
  obtains pg sp n where "rw_queue w = map of_nat pg @ sp" "flying p (sl # pg)" "pages_ok img p (sl # pg) w" "filling img p w"
    "phase img p sp w" "on_flash c img n w" "n = p - Suc (length pg)" "n < p" "sl = n mod 2" "flying p pg" "p - length pg = Suc n"
    "req_ok img (base_of w) n (rw_reqs w ! sl)" "sl \<notin> set pg"
proof -
  have "pipe c img p w" using s stop by (simp add: session_def)
  then obtain pg sp where q: "rw_queue w = map of_nat pg @ sp" "flying p (current (rw_writer w) @ pg)"
    "pages_ok img p (current (rw_writer w) @ pg) w" "filling img p w"
    "on_flash c img (p - length (current (rw_writer w) @ pg)) w" "phase img p sp w" by (rule pipe_parts)
  have fl: "flying p (sl # pg)" using q(2) by (simp add: x)
  note h = flying_head [OF fl]
  have "req_ok img (base_of w) (p - Suc (length pg)) (rw_reqs w ! ((p - Suc (length pg)) mod 2))"
    using q(3) h(4) by (simp add: pages_ok_def x)
  then have r: "req_ok img (base_of w) (p - Suc (length pg)) (rw_reqs w ! sl)" using h(1) by metis
  have "sl \<notin> set pg"
  proof (cases pg)
    case (Cons y ys)
    have l: "length (sl # pg) \<le> p" "length (sl # pg) \<le> 2" "sl # pg = map (\<lambda>k. k mod 2) [p - length (sl # pg)..<p]"
      using fl unfolding flying_def by blast+
    have "ys = []" using l(2) by (simp add: Cons)
    moreover obtain m where "p = Suc (Suc m)" using l(1) by (metis Cons le_Suc_ex list.size(4) plus_nat.simps(2) add_Suc_right add.commute)
    ultimately have "sl = m mod 2" "y = Suc m mod 2" using l(3) by (simp_all add: Cons upt_rec)
    moreover have "m mod 2 \<noteq> Suc m mod 2" by presburger
    ultimately show ?thesis using \<open>ys = []\<close> by (simp add: Cons)
  qed simp
  then show ?thesis
    using that [OF q(1) fl _ q(4,6) _ refl h(4,1,2,3) r] q(3,5) by (simp only: x append.simps list.size) simp
qed

lemma region_current:
  "session b c img p w \<Longrightarrow> current (rw_writer w) = [sl] \<Longrightarrow> in_region b (rw_reqs w ! sl)"
  by (simp add: session_def pending_slots_def)

lemma unverified: "session b c img p w \<Longrightarrow> current (rw_writer w) = [sl] \<Longrightarrow> ro_error_code (rw_ota w) \<noteq> OTA_STATUS_VERIFY_OK"
  by (auto simp: session_def verified_def pending_slots_def)

lemma session_current:
  assumes s: "session b c img p w" and cur: "current (rw_writer w) = [sl]" "current (rw_writer w') = [sl]"
    and same: "rw_ota w' = rw_ota w" "rw_queue w' = rw_queue w" "rw_reqs w' = rw_reqs w" "rw_stop w' = rw_stop w"
      "rw_created w' = rw_created w"
    and pipe: "\<not> rw_stop w \<Longrightarrow> pipe c img p w'"
  shows "session b c img p w'"
proof -
  have "pending_slots w' = pending_slots w" unfolding pending_slots_def cur same ..
  moreover have "verified c img w'" using unverified [OF s cur(1)] by (simp add: verified_def same)
  moreover have "copies b c img w'" using cur(2) by (auto simp: copies_def)
  ultimately show ?thesis using s pipe unfolding session_def same by blast
qed

lemma step_erase:
  assumes s: "session b c img p w" and x: "rw_writer w = WriterPage sl" and env: "env_ok b c env"
  shows "session b c img p (rcv_ota_writer_fn env t w)"
proof -
  obtain ok f where e: "fl_erase (rv_flash env) (unat (pw_addr (rw_reqs w ! sl))) (rw_flash w) = (ok, f)" by fastforce
  define w' where "w' = rcv_ota_writer_fn env t w"
  have w': "w' = (if ok then w\<lparr>rw_flash := f, rw_writer := WriterErased sl\<rparr>
      else w\<lparr>rw_flash := f, rw_error := True, rw_writer := WriterRelease sl\<rparr>)"
    by (simp add: w'_def rcv_ota_writer_fn_def x e)
  have cur: "current (rw_writer w) = [sl]" "current (rw_writer w') = [sl]" by (simp_all add: x w')
  have same: "rw_ota w' = rw_ota w" "rw_queue w' = rw_queue w" "rw_reqs w' = rw_reqs w" "rw_sems w' = rw_sems w"
    "rw_stop w' = rw_stop w" "rw_created w' = rw_created w" by (simp_all add: w')
  have law: "flash_law (rv_flash env) c" using env by (simp add: env_ok_def)
  have "pipe c img p w'" if stop: "\<not> rw_stop w"
  proof -
    from first_page [OF s cur(1) stop] obtain pg sp n where q: "rw_queue w = map of_nat pg @ sp" "flying p (sl # pg)"
      "pages_ok img p (sl # pg) w" "filling img p w" "phase img p sp w" "on_flash c img n w" "n = p - Suc (length pg)"
      "req_ok img (base_of w) n (rw_reqs w ! sl)" by metis
    have a: "unat (pw_addr (rw_reqs w ! sl)) = base_of w + 4096 * n" using q(8) by (simp add: req_ok_def)
    have "on_flash c img n w'"
      using q(6) flash_erase [OF law e] unfolding on_flash_def same a by (auto simp: w')
    moreover have "pages_ok img p (sl # pg) w' = pages_ok img p (sl # pg) w" "filling img p w' = filling img p w"
      "phase img p sp w' = phase img p sp w"
      by (simp_all add: pages_ok_def filling_def phase_def same)
    ultimately show ?thesis
      by (intro pipe_compose [of _ pg sp]) (simp_all only: same cur q(1-5) append.simps list.size q(7) [symmetric] One_nat_def add_0_right plus_nat.simps add_Suc_right)
  qed
  then show ?thesis using session_current [OF s cur same(1-3,5,6)] unfolding w'_def [symmetric] by blast
qed

lemma step_write:
  assumes s: "session b c img p w" and x: "rw_writer w = WriterErased sl" and env: "env_ok b c env"
  shows "session b c img p (rcv_ota_writer_fn env t w)"
proof -
  define r where "r = rw_reqs w ! sl"
  obtain ok f where e: "fl_write (rv_flash env) (unat (pw_addr r)) (take (pw_len r) (pw_data r)) (rw_flash w) = (ok, f)" by fastforce
  define w' where "w' = rcv_ota_writer_fn env t w"
  have w': "w' = (if ok then w\<lparr>rw_flash := f, rw_writer := WriterRelease sl\<rparr>
      else w\<lparr>rw_flash := f, rw_writer := WriterRelease sl, rw_error := True\<rparr>)"
    by (simp add: w'_def rcv_ota_writer_fn_def x e Let_def r_def [symmetric])
  have cur: "current (rw_writer w) = [sl]" "current (rw_writer w') = [sl]" by (simp_all add: x w')
  have same: "rw_ota w' = rw_ota w" "rw_queue w' = rw_queue w" "rw_reqs w' = rw_reqs w" "rw_sems w' = rw_sems w"
    "rw_stop w' = rw_stop w" "rw_created w' = rw_created w" by (simp_all add: w')
  have law: "flash_law (rv_flash env) c" using env by (simp add: env_ok_def)
  have "pipe c img p w'" if stop: "\<not> rw_stop w"
  proof -
    from first_page [OF s cur(1) stop] obtain pg sp n where q: "rw_queue w = map of_nat pg @ sp" "flying p (sl # pg)"
      "pages_ok img p (sl # pg) w" "filling img p w" "phase img p sp w" "on_flash c img n w" "n = p - Suc (length pg)"
      "req_ok img (base_of w) n (rw_reqs w ! sl)" by metis
    have a: "unat (pw_addr r) = base_of w + 4096 * n" "take (pw_len r) (pw_data r) = page_of img n"
      using q(8) by (simp_all add: req_ok_def r_def)
    have len: "length (page_of img n) \<le> 4096" by (simp add: page_of_def)
    have "on_flash c img n w'"
      using q(6) len flash_write [OF law e] unfolding on_flash_def same a x by (auto simp: w')
    moreover have "pages_ok img p (sl # pg) w' = pages_ok img p (sl # pg) w" "filling img p w' = filling img p w"
      "phase img p sp w' = phase img p sp w"
      by (simp_all add: pages_ok_def filling_def phase_def same)
    ultimately show ?thesis
      by (intro pipe_compose [of _ pg sp]) (simp_all only: same cur q(1-5) append.simps list.size q(7) [symmetric] One_nat_def add_0_right plus_nat.simps add_Suc_right)
  qed
  then show ?thesis using session_current [OF s cur same(1-3,5,6)] unfolding w'_def [symmetric] by blast
qed

lemma page_on_flash:
  assumes "on_flash c img n w" and "rw_writer w = WriterRelease sl" and "\<not> rw_error w" and "i < 4096 * Suc n" "i < length img"
  shows "c (rw_flash w) (base_of w + i) = img ! i"
proof (cases "i < 4096 * n")
  case True
  then show ?thesis using assms by (simp add: on_flash_def)
next
  case False
  then obtain j where j: "i = 4096 * n + j" by (metis le_Suc_ex not_less)
  have "j < length (page_of img n)" using assms(4,5) by (simp add: j page_of_def)
  then have "c (rw_flash w) (base_of w + 4096 * n + j) = page_of img n ! j" using assms(1-3) by (simp add: on_flash_def)
  also have "page_of img n ! j = img ! i" using assms(4,5) by (simp add: j page_of_def)
  finally show ?thesis by (simp add: j add.assoc)
qed

lemma step_free:
  assumes s: "session b c img p w" and x: "rw_writer w = WriterRelease sl"
  shows "session b c img p (rcv_ota_writer_fn env t w)"
proof -
  define w' where "w' = rcv_ota_writer_fn env t w"
  have w': "w' = w\<lparr>rw_sems := (rw_sems w)[sl := True], rw_writer := WriterLoop\<rparr>" by (simp add: w'_def rcv_ota_writer_fn_def x)
  have cur: "current (rw_writer w) = [sl]" by (simp add: x)
  have same: "rw_ota w' = rw_ota w" "rw_queue w' = rw_queue w" "rw_reqs w' = rw_reqs w" "rw_flash w' = rw_flash w"
    "rw_error w' = rw_error w" "rw_stop w' = rw_stop w" "rw_created w' = rw_created w" "rw_writer w' = WriterLoop"
    "rw_sems w' = (rw_sems w)[sl := True]" by (simp_all add: w')
  have pipe: "pipe c img p w'" if stop: "\<not> rw_stop w"
  proof -
    from first_page [OF s cur stop] obtain pg sp n where q: "rw_queue w = map of_nat pg @ sp" "flying p (sl # pg)"
      "pages_ok img p (sl # pg) w" "filling img p w" "phase img p sp w" "on_flash c img n w" "n < p" "flying p pg"
      "p - length pg = Suc n" "sl \<notin> set pg" "n = p - Suc (length pg)" by metis
    have "on_flash c img (Suc n) w'"
      using page_on_flash [OF q(6) x] by (simp add: on_flash_def same)
    moreover have "pages_ok img p pg w'"
    proof -
      have "\<forall>k<2. rw_sems w' ! k \<longleftrightarrow> k \<notin> set pg \<and> \<not> (0 < off_of w \<and> k = p mod 2)"
      proof (intro allI impI)
        fix k :: nat assume "k < 2"
        then show "rw_sems w' ! k \<longleftrightarrow> k \<notin> set pg \<and> \<not> (0 < off_of w \<and> k = p mod 2)"
          using q(3,10) by (cases "k = sl") (auto simp: pages_ok_def same)
      qed
      moreover have "\<forall>k. p - length pg \<le> k \<and> k < p \<longrightarrow> req_ok img (base_of w) k (rw_reqs w ! (k mod 2))"
        using q(3,9) by (simp add: pages_ok_def q(11) [symmetric])
      moreover have "length (rw_sems w') = 2" "0 < off_of w \<longrightarrow> p mod 2 \<notin> set pg" "length (rw_reqs w) = 2"
        "\<forall>r\<in>set (rw_reqs w). length (pw_data r) = 4096" using q(3) by (simp_all add: pages_ok_def same)
      ultimately show ?thesis unfolding pages_ok_def same(1,3) by blast
    qed
    moreover have "filling img p w' = filling img p w" "phase img p sp w' = phase img p sp w"
      by (simp_all add: filling_def phase_def same)
    ultimately show ?thesis
      by (intro pipe_compose [of _ pg sp]) (simp_all only: same q current_simps append.simps)
  qed
  have "pending_slots w' \<subseteq> pending_slots w" by (auto simp: pending_slots_def same)
  moreover have "verified c img w'" using unverified [OF s cur] by (simp add: verified_def same)
  moreover have "copies b c img w'" by (simp add: copies_def same)
  ultimately show ?thesis using s pipe unfolding session_def w'_def [symmetric] same by blast
qed

subsection \<open>The queue\<close>

text \<open>Every command that is told is taken away, and what it does keeps the session.\<close>

lemma pop_stopped:
  assumes s: "session b c img p w" and x: "current (rw_writer w) = []" and q: "rw_queue w = cmd # qs" and stop: "rw_stop w"
  shows "session b c img p (w\<lparr>rw_queue := qs, rw_writer := WriterGone\<rparr>)"
proof -
  have "pending_slots (w\<lparr>rw_queue := qs, rw_writer := WriterGone\<rparr>) \<subseteq> pending_slots w"
    by (auto simp: pending_slots_def x q)
  moreover have "verified c img (w\<lparr>rw_queue := qs, rw_writer := WriterGone\<rparr>)"
    using s calculation by (auto simp: session_def verified_def)
  ultimately show ?thesis using s stop by (auto simp: session_def copies_def)
qed

lemma pop_page:
  assumes s: "session b c img p w" and x: "rw_writer w = WriterWaiting" and stop: "\<not> rw_stop w"
    and q: "rw_queue w = map of_nat (sl # pg) @ sp" and pp: "flying p (sl # pg)" "pages_ok img p (sl # pg) w" "filling img p w"
      "on_flash c img (p - length (sl # pg)) w" "phase img p sp w"
  shows "session b c img p (w\<lparr>rw_queue := map of_nat pg @ sp, rw_writer := WriterPage sl\<rparr>)"
proof -
  define w' where "w' = w\<lparr>rw_queue := map of_nat pg @ sp, rw_writer := WriterPage sl\<rparr>"
  have small: "sl < 2" by (rule flying_head(5) [OF pp(1)])
  have small': "of_nat sl \<le> (1 :: u8)" "unat (of_nat sl :: u8) = sl"
    using small by (auto simp: word_le_nat_alt unat_of_nat less_2_cases_iff)
  have "{cmd \<in> set (of_nat sl # map of_nat pg @ sp). cmd \<le> (1 :: u8)} =
      insert (of_nat sl) {cmd \<in> set (map of_nat pg @ sp). cmd \<le> 1}" using small'(1) by auto
  then have pend: "pending_slots w' = pending_slots w"
    unfolding pending_slots_def q list.map append.simps by (simp only: image_insert small'(2)) (simp add: w'_def x)
  have same: "rw_ota w' = rw_ota w" "rw_reqs w' = rw_reqs w" "rw_sems w' = rw_sems w" "rw_flash w' = rw_flash w"
    "rw_error w' = rw_error w" "rw_stop w' = rw_stop w" "rw_created w' = rw_created w" "rw_writer w' = WriterPage sl"
    "rw_queue w' = map of_nat pg @ sp" by (simp_all add: w'_def)
  have f: "pages_ok img p fl w' = pages_ok img p fl w" "filling img p w' = filling img p w" "phase img p sp w' = phase img p sp w" for fl
    by (simp_all add: pages_ok_def filling_def phase_def same)
  have "on_flash c img n w'" if "on_flash c img n w" for n using that by (simp add: on_flash_def same)
  then have "pipe c img p w'"
    using pp by (intro pipe_compose [of _ pg sp]) (simp_all only: same f current_simps append.simps)
  moreover have "verified c img w'" using s unfolding session_def verified_def pend same by blast
  moreover have "copies b c img w'" by (simp add: copies_def same)
  ultimately show ?thesis using s unfolding session_def w'_def [symmetric] pend same by blast
qed

text \<open>A command behind all pages: nothing is in flight, and the pages are on the flash.\<close>

lemma pop_command:
  assumes s: "session b c img p w" and x: "rw_writer w = WriterWaiting" and stop: "\<not> rw_stop w" and q: "rw_queue w = cmd # qs"
    and cmd: "cmd = WRITER_CMD_VERIFY \<or> cmd = WRITER_CMD_ACTIVATE"
  obtains "qs = []" "flying p []" "pages_ok img p [] w" "filling img p w" "on_flash c img p w" "phase img p [cmd] w"
proof -
  have "pipe c img p w" using s stop by (simp add: session_def)
  then obtain pg sp where pp: "rw_queue w = map of_nat pg @ sp" "flying p (current (rw_writer w) @ pg)"
    "pages_ok img p (current (rw_writer w) @ pg) w" "filling img p w"
    "on_flash c img (p - length (current (rw_writer w) @ pg)) w" "phase img p sp w" by (rule pipe_parts)
  have pg: "pg = []"
  proof (cases pg)
    case (Cons y ys)
    have y: "y < 2" using flying_head(5) [of p y ys] pp(2) by (simp add: x Cons)
    have "cmd # qs = of_nat y # map of_nat ys @ sp" using trans [OF q [symmetric] pp(1)] by (simp only: Cons list.map append.simps)
    then have e: "cmd = of_nat y" by (rule list.inject [THEN iffD1, THEN conjunct1])
    have "y = 0 \<or> y = 1" using y by linarith
    then show ?thesis
    proof
      assume "y = 0"
      then have "cmd = 0" using e by simp
      then show ?thesis using cmd by simp
    next
      assume "y = 1"
      then have "cmd = 1" using e by simp
      then show ?thesis using cmd by simp
    qed
  qed simp
  have sp: "cmd # qs = sp" using trans [OF q [symmetric] pp(1)] by (simp only: pg list.map append.simps)
  note ph = conjunct1 [OF pp(6) [unfolded phase_def]]
  have qs: "qs = []" using ph unfolding sp [symmetric] by (elim insertE emptyE) simp_all
  have sp1: "sp = [cmd]" unfolding sp [symmetric] qs ..
  show ?thesis using pp(2-6) unfolding pg sp1 x by (intro that [OF qs]) simp_all
qed

lemma empty_session:
  assumes s: "session b c img p w" and w': "w' = w\<lparr>rw_queue := [], rw_writer := x\<rparr>" and x: "x \<in> {WriterLoop, WriterWaiting, WriterGone}"
    and pp: "flying p []" "pages_ok img p [] w" "filling img p w" "on_flash c img p w"
    and st: "ro_state (rw_ota w) \<notin> {RCV_OTA_READY, RCV_OTA_RECEIVING}" and v: "current (rw_writer w) = []"
  shows "session b c img p w'"
proof -
  have same: "rw_ota w' = rw_ota w" "rw_reqs w' = rw_reqs w" "rw_sems w' = rw_sems w" "rw_flash w' = rw_flash w"
    "rw_error w' = rw_error w" "rw_stop w' = rw_stop w" "rw_created w' = rw_created w" "rw_writer w' = x" "rw_queue w' = []"
    by (simp_all add: w')
  have cur: "current x = []" and plain: "\<forall>sl. x \<noteq> WriterErased sl" "\<forall>sl. x \<noteq> WriterRelease sl" "\<forall>prm. x \<noteq> WriterCopies prm"
    using x by auto
  have f: "pages_ok img p [] w' = pages_ok img p [] w" "filling img p w' = filling img p w"
    by (simp_all add: pages_ok_def filling_def same)
  have "on_flash c img p w'" using pp(4) plain by (simp add: on_flash_def same)
  moreover have "phase img p [] w'" using st by (simp add: phase_def same)
  ultimately have "pipe c img p w'"
    using pp f by (intro pipe_compose [of _ "[]" "[]"]) (simp_all add: same cur)
  moreover have "pending_slots w' = {}" by (simp add: pending_slots_def same cur)
  moreover have "copies b c img w'" using plain by (simp add: copies_def same)
  ultimately show ?thesis using s by (simp add: session_def verified_def same)
qed

lemma step_verify:
  assumes s: "session b c img p w" and x: "rw_writer w = WriterWaiting" and stop: "\<not> rw_stop w"
    and q: "rw_queue w = WRITER_CMD_VERIFY # qs"
  shows "session b c img p (rcv_ota_do_verify env t (w\<lparr>rw_queue := qs, rw_writer := WriterLoop\<rparr>))"
proof -
  from pop_command [OF s x stop q] have pp: "qs = []" "flying p []" "pages_ok img p [] w" "filling img p w" "on_flash c img p w"
    "phase img p [WRITER_CMD_VERIFY] w" by simp_all
  define w1 where "w1 = w\<lparr>rw_queue := qs, rw_writer := WriterLoop\<rparr>"
  have ph: "ro_state (rw_ota w) = RCV_OTA_VERIFYING" "off_of w = 0" "length img \<le> 4096 * p"
    using pp(6) by (simp_all add: phase_def)
  have s1: "session b c img p w1"
    by (rule empty_session [OF s, of _ WriterLoop]) (use pp ph in \<open>simp_all add: w1_def x\<close>)
  have quiet: "no_commands w1" by (simp add: no_commands_def w1_def pp(1))
  define w2 where "w2 = on_ota (\<lambda>s. s\<lparr>ro_error_code := OTA_STATUS_VERIFY_OK\<rparr>) w1"
  have ok: "session b c img p w2" if "\<not> rw_error w"
  proof -
    have same: "rw_reqs w2 = rw_reqs w" "rw_sems w2 = rw_sems w" "rw_queue w2 = []" "rw_writer w2 = WriterLoop"
      "rw_flash w2 = rw_flash w" "rw_error w2 = rw_error w" "rw_stop w2 = rw_stop w" "rw_created w2 = rw_created w"
      by (simp_all add: w2_def w1_def pp(1))
    have f: "pages_ok img p [] w2 = pages_ok img p [] w" "filling img p w2 = filling img p w" "base_of w2 = base_of w"
      by (simp_all add: pages_ok_def filling_def same w2_def w1_def)
    have "on_flash c img p w2" using pp(5) by (simp add: on_flash_def same f)
    moreover have "phase img p [] w2" using ph by (simp add: phase_def w2_def w1_def)
    ultimately have "pipe c img p w2" using pp f by (intro pipe_compose [of _ "[]" "[]"]) (simp_all add: same)
    moreover have "pending_slots w2 = {}" by (simp add: pending_slots_def same)
    moreover have "\<forall>i<length img. c (rw_flash w2) (base_of w2 + i) = img ! i"
      using pp(5) that ph(3) by (simp add: on_flash_def same f)
    moreover have "copies b c img w2" by (simp add: copies_def same)
    moreover have "staging_ok b (rw_ota w2) (length img)" using s by (simp add: session_def staging_ok_def w2_def w1_def)
    ultimately show ?thesis using s by (simp add: session_def verified_def same)
  qed
  have "rw_error w1 = rw_error w" by (simp add: w1_def)
  then show ?thesis
    using session_fail [OF s1 _ quiet] session_status [OF ok] unfolding w1_def [symmetric] rcv_ota_do_verify_def w2_def
    by (simp split: option.split)
qed

lemma settings_length: "zephyr_law z \<Longrightarrow> length (settings_bytes z x) = 28"
  by (simp add: settings_bytes_def Let_def zephyr_law_def)

lemma step_activate:
  assumes s: "session b c img p w" and x: "rw_writer w = WriterWaiting" and stop: "\<not> rw_stop w" and env: "env_ok b c env"
    and q: "rw_queue w = WRITER_CMD_ACTIVATE # qs"
  shows "session b c img p (rcv_ota_do_activate env t (w\<lparr>rw_queue := qs\<rparr>))"
proof -
  from pop_command [OF s x stop q] have pp: "qs = []" "flying p []" "pages_ok img p [] w" "filling img p w" "on_flash c img p w"
    "phase img p [WRITER_CMD_ACTIVATE] w" by simp_all
  have ph: "ro_state (rw_ota w) = RCV_OTA_ACTIVATE_PENDING" "ro_error_code (rw_ota w) = OTA_STATUS_VERIFY_OK"
    using pp(6) by (simp_all add: phase_def)
  define w1 where "w1 = rcv_ota_send_status env t (on_ota (\<lambda>s. s\<lparr>ro_state := RCV_OTA_ACTIVATING\<rparr>) (w\<lparr>rw_queue := qs\<rparr>))"
  have s0: "session b c img p (w\<lparr>rw_queue := []\<rparr>)"
    by (rule empty_session [OF s, of _ WriterWaiting]) (use pp ph in \<open>simp_all add: x\<close>)
  have same: "rw_reqs w1 = rw_reqs w" "rw_sems w1 = rw_sems w" "rw_queue w1 = []" "rw_writer w1 = WriterWaiting"
    "rw_flash w1 = rw_flash w" "rw_error w1 = rw_error w" "rw_stop w1 = rw_stop w" "rw_created w1 = rw_created w"
    "base_of w1 = base_of w" "off_of w1 = off_of w" "ro_error_code (rw_ota w1) = OTA_STATUS_VERIFY_OK"
    "ro_state (rw_ota w1) = RCV_OTA_ACTIVATING" "ro_image_size (rw_ota w1) = ro_image_size (rw_ota w)"
    "ro_next_write_slot (rw_ota w1) = ro_next_write_slot (rw_ota w)" "ro_target_flash_base (rw_ota w1) = ro_target_flash_base (rw_ota w)"
    "ro_page_buf_flash_addr (rw_ota w1) = ro_page_buf_flash_addr (rw_ota w)"
    by (simp_all add: w1_def pp(1) x ph)
  have img: "\<forall>i<length img. c (rw_flash w) (base_of w + i) = img ! i"
    using s0 ph(2) by (simp add: session_def verified_def)
  have lay: "staging_ok b (rw_ota w) (length img)" using s by (simp add: session_def)
  have any: "session b c img p (w1\<lparr>rw_settings := st, rw_writer := y\<rparr>)"
    if y: "current y = []" "\<forall>sl. y \<noteq> WriterErased sl" "\<forall>sl. y \<noteq> WriterRelease sl"
      and cp: "copies b c img (w1\<lparr>rw_settings := st, rw_writer := y\<rparr>)" for st y
  proof -
    let ?w = "w1\<lparr>rw_settings := st, rw_writer := y\<rparr>"
    have f: "pages_ok img p [] ?w = pages_ok img p [] w" "filling img p ?w = filling img p w"
      by (simp_all add: pages_ok_def filling_def same)
    have "on_flash c img p ?w" using pp(5) y by (simp add: on_flash_def same)
    moreover have "phase img p [] ?w" by (simp add: phase_def same)
    ultimately have "pipe c img p ?w" using pp f by (intro pipe_compose [of _ "[]" "[]"]) (simp_all add: same y)
    moreover have "pending_slots ?w = {}" by (simp add: pending_slots_def same y)
    moreover have "staging_ok b (rw_ota ?w) (length img)" using lay by (simp add: staging_ok_def same)
    ultimately show ?thesis using s cp img by (simp add: session_def verified_def same)
  qed
  have go: "session b c img p (rcv_ota_activate_and_reset env (w1\<lparr>rw_settings := st\<rparr>))"
    if "st = None \<or> rb_settings_page b" for st
    unfolding rcv_ota_activate_and_reset_def Let_def
    by (rule any) (use that lay env img settings_length in \<open>auto simp: copies_def same staging_ok_def env_ok_def split: option.split\<close>)
  have quiet: "no_commands w1" by (simp add: no_commands_def same)
  have s1: "session b c img p w1"
  proof (rule session_view)
    show "session b c img p (w1\<lparr>rw_settings := rw_settings w1, rw_writer := WriterWaiting\<rparr>)"
      by (rule any) (simp_all add: copies_def)
  qed (simp_all add: ota_view_def world_view_def same)
  have gone: "session b c img p ((rcv_fail env t OTA_STATUS_FLASH_ERROR w1)\<lparr>rw_writer := WriterGone\<rparr>)"
    by (rule session_move [OF session_fail [OF s1 _ quiet] _ refl])
      (simp_all add: rcv_fail_def same)
  show ?thesis
    unfolding rcv_ota_do_activate_def Let_def w1_def [symmetric]
    using go [of None] go gone env by (auto simp: env_ok_def split: option.split)
qed

end
