(* ===== verification/ReceiverOtaWriter.thy ===== *)
theory ReceiverOtaWriter
  imports ReceiverOtaPipe
begin

text \<open>Every step of the writer thread keeps the session, and so does a wait of the report handler; what neither changes.\<close>

section \<open>All steps\<close>

lemma command_byte:
  assumes "sl < 2"
  shows "(of_nat sl :: u8) \<noteq> WRITER_CMD_SHUTDOWN" "(of_nat sl :: u8) \<noteq> WRITER_CMD_VERIFY" "(of_nat sl :: u8) \<noteq> WRITER_CMD_ACTIVATE"
    "\<not> (1 :: u8) < of_nat sl" "unat (of_nat sl :: u8) = sl"
  using assms by (auto simp: less_2_cases_iff)

lemma step_waiting:
  assumes s: "session b c img p w" and x: "rw_writer w = WriterWaiting" and env: "env_ok b c env"
  shows "session b c img p (rcv_ota_writer_fn env t w)"
proof (cases "rw_queue w")
  case Nil
  then show ?thesis using s by (simp add: rcv_ota_writer_fn_def x)
next
  case q: (Cons cmd qs)
  have f: "rcv_ota_writer_fn env t w = writer_command env t cmd (w\<lparr>rw_queue := qs\<rparr>)"
    by (simp add: rcv_ota_writer_fn_def x q)
  show ?thesis
  proof (cases "rw_stop w")
    case True
    have "rcv_ota_writer_fn env t w = w\<lparr>rw_queue := qs, rw_writer := WriterGone\<rparr>"
      unfolding f writer_command_def using True by simp
    then show ?thesis using pop_stopped [OF s _ q True] by (simp add: x)
  next
    case stop: False
    have "pipe c img p w" using s stop by (simp add: session_def)
    then obtain pg sp where pp: "rw_queue w = map of_nat pg @ sp" "flying p (current (rw_writer w) @ pg)"
      "pages_ok img p (current (rw_writer w) @ pg) w" "filling img p w"
      "on_flash c img (p - length (current (rw_writer w) @ pg)) w" "phase img p sp w" by (rule pipe_parts)
    note pp' = pp(2-5) [unfolded x current_simps append.simps]
    show ?thesis
    proof (cases pg)
      case (Cons sl ys)
      have sl: "sl < 2" using flying_head(5) [of p sl ys] pp'(1) by (simp only: Cons)
      have "cmd # qs = of_nat sl # map of_nat ys @ sp"
        using trans [OF q [symmetric] pp(1)] by (simp only: Cons list.map append.simps)
      then have e: "cmd = of_nat sl" "qs = map of_nat ys @ sp" by simp_all
      have "rcv_ota_writer_fn env t w = w\<lparr>rw_queue := map of_nat ys @ sp, rw_writer := WriterPage sl\<rparr>"
        unfolding f writer_command_def e using command_byte [OF sl] stop by simp
      then show ?thesis using pop_page [OF s x stop pp(1) [unfolded Cons] pp'(1-4) [unfolded Cons] pp(6)] by simp
    next
      case Nil
      have sp: "cmd # qs = sp" using trans [OF q [symmetric] pp(1)] by (simp only: Nil list.map append.simps)
      note ph = conjunct1 [OF pp(6) [unfolded phase_def]]
      have "cmd = WRITER_CMD_VERIFY \<or> cmd = WRITER_CMD_ACTIVATE" using ph unfolding sp [symmetric] by (elim insertE emptyE) simp_all
      then show ?thesis
      proof
        assume e: "cmd = WRITER_CMD_VERIFY"
        have "rcv_ota_writer_fn env t w = rcv_ota_do_verify env t (w\<lparr>rw_queue := qs, rw_writer := WriterLoop\<rparr>)"
          unfolding f writer_command_def e using stop by simp
        then show ?thesis using step_verify [OF s x stop q [unfolded e]] by simp
      next
        assume e: "cmd = WRITER_CMD_ACTIVATE"
        have "rcv_ota_writer_fn env t w = rcv_ota_do_activate env t (w\<lparr>rw_queue := qs\<rparr>)"
          unfolding f writer_command_def e using stop by simp
        then show ?thesis using step_activate [OF s x stop env q [unfolded e]] by simp
      qed
    qed
  qed
qed

lemma writer_step:
  assumes "session b c img p w" and "env_ok b c env"
  shows "session b c img p (rcv_ota_writer_fn env t w)"
proof (cases "rw_writer w")
  case WriterGone
  then show ?thesis using assms by (simp add: rcv_ota_writer_fn_def)
next
  case (WriterCopies prm)
  then show ?thesis using assms by (simp add: rcv_ota_writer_fn_def)
next
  case (WriterPage sl)
  then show ?thesis by (rule step_erase [OF assms(1) _ assms(2)])
next
  case (WriterErased sl)
  then show ?thesis by (rule step_write [OF assms(1) _ assms(2)])
next
  case (WriterRelease sl)
  then show ?thesis by (rule step_free [OF assms(1)])
qed (use assms step_loop step_waiting in blast)+

lemma wait_session: "session b c img p w \<Longrightarrow> env_ok b c env \<Longrightarrow> session b c img p (rcv_wait env i w)"
  unfolding rcv_wait_def by (induction "rv_waits env i" arbitrary: w) (simp_all add: fold_invariant [where P = "\<lambda>w. session b c img p w" and Q = "\<lambda>_. True"] writer_step)

section \<open>What the writer leaves alone\<close>

text \<open>The fields that only the report handler writes, and those that the writer writes only on a command.\<close>

definition handler_view :: "'f rcv_world \<Rightarrow> page_write_req list \<times> bool \<times> bool \<times> u32 \<times> u32 \<times> u16 \<times> u32 \<times> u32 \<times> u32 \<times> nat \<times> u32 \<times> nat" where
  "handler_view w = (rw_reqs w, rw_stop w, rw_created w, ro_image_size (rw_ota w), ro_image_crc32 (rw_ota w),
     ro_next_expected_seq (rw_ota w), ro_bytes_written (rw_ota w), ro_staging_base (rw_ota w), ro_target_flash_base (rw_ota w),
     ro_page_buf_offset (rw_ota w), ro_page_buf_flash_addr (rw_ota w), ro_next_write_slot (rw_ota w))"

lemma send_status_more [simp]:
  "ro_image_crc32 (rw_ota (rcv_ota_send_status env t w)) = ro_image_crc32 (rw_ota w)"
  by (simp add: rcv_ota_send_status_def on_ota_def Let_def)

lemma fail_view [simp]: "handler_view (rcv_fail env t code w) = handler_view w"
  by (simp add: handler_view_def rcv_fail_def)

lemma verify_view [simp]: "handler_view (rcv_ota_do_verify env t w) = handler_view w"
  unfolding rcv_ota_do_verify_def by (simp split: option.split add: handler_view_def) (simp add: rcv_fail_def)

lemma activate_view [simp]: "handler_view (rcv_ota_do_activate env t w) = handler_view w"
  unfolding rcv_ota_do_activate_def Let_def
  by (simp split: option.split add: handler_view_def rcv_ota_activate_and_reset_def Let_def rcv_fail_def)

lemma writer_view [simp]: "handler_view (rcv_ota_writer_fn env t w) = handler_view w"
proof -
  have field: "handler_view (w\<lparr>rw_writer := x\<rparr>) = handler_view w" "handler_view (w\<lparr>rw_queue := q\<rparr>) = handler_view w"
    "handler_view (w\<lparr>rw_flash := f\<rparr>) = handler_view w" "handler_view (w\<lparr>rw_sems := ss\<rparr>) = handler_view w"
    "handler_view (w\<lparr>rw_error := e\<rparr>) = handler_view w" for x q f ss e and w :: "'a rcv_world"
    by (simp_all add: handler_view_def)
  show ?thesis
    unfolding rcv_ota_writer_fn_def writer_command_def
    by (simp split: writer.split list.split prod.split add: Let_def field)
qed

lemma wait_view [simp]: "handler_view (rcv_wait env i w) = handler_view w"
  unfolding rcv_wait_def by (rule fold_invariant [where P = "\<lambda>w'. handler_view w' = handler_view w" and Q = "\<lambda>_. True"]) simp_all

text \<open>Without a command in the queue it also keeps the state of the session, and adds none.\<close>

lemma writer_quiet:
  assumes "no_commands w"
  shows "rw_ota (rcv_ota_writer_fn env t w) = rw_ota w" "no_commands (rcv_ota_writer_fn env t w)"
    "length (rw_queue (rcv_ota_writer_fn env t w)) \<le> length (rw_queue w)" "rw_settings (rcv_ota_writer_fn env t w) = rw_settings w"
proof -
  have r: "rw_ota (rcv_ota_writer_fn env t w) = rw_ota w \<and> no_commands (rcv_ota_writer_fn env t w) \<and>
    length (rw_queue (rcv_ota_writer_fn env t w)) \<le> length (rw_queue w) \<and> rw_settings (rcv_ota_writer_fn env t w) = rw_settings w"
    using assms unfolding rcv_ota_writer_fn_def writer_command_def no_commands_def
    by (cases "rw_writer w"; cases "rw_queue w") (simp_all add: Let_def split: prod.split)
  then show "rw_ota (rcv_ota_writer_fn env t w) = rw_ota w" "no_commands (rcv_ota_writer_fn env t w)"
    "length (rw_queue (rcv_ota_writer_fn env t w)) \<le> length (rw_queue w)" "rw_settings (rcv_ota_writer_fn env t w) = rw_settings w"
    by blast+
qed

lemma wait_quiet:
  assumes "no_commands w"
  shows "rw_ota (rcv_wait env i w) = rw_ota w \<and> no_commands (rcv_wait env i w) \<and>
    length (rw_queue (rcv_wait env i w)) \<le> length (rw_queue w)"
  unfolding rcv_wait_def
  by (rule fold_invariant [where Q = "\<lambda>_. True" and P = "\<lambda>w'. rw_ota w' = rw_ota w \<and> no_commands w' \<and>
      length (rw_queue w') \<le> length (rw_queue w)"])
    (use assms writer_quiet in \<open>simp, simp, metis le_trans\<close>)

section \<open>What the writer may touch\<close>

text \<open>The flash outside of the free area above the firmware.\<close>

definition outside :: "rcv_build \<Rightarrow> ('f \<Rightarrow> nat \<Rightarrow> u8) \<Rightarrow> 'f rcv_world \<Rightarrow> nat \<Rightarrow> u8" where
  "outside b c w = (\<lambda>x. if unat (rb_flash_base b) + unat (rb_flash_used b) \<le> x \<and> x < unat (rb_flash_end b) then 0
     else c (rw_flash w) x)"

lemma outside_flash: "rw_flash w' = rw_flash w \<Longrightarrow> outside b c w' = outside b c w"
  by (simp add: outside_def cong: if_cong)

lemma command_flash [simp]: "rw_flash (writer_command env t cmd w) = rw_flash w"
  unfolding writer_command_def rcv_ota_do_verify_def rcv_ota_do_activate_def rcv_ota_activate_and_reset_def Let_def rcv_fail_def
  by (simp split: option.split)

lemma outsideI:
  assumes "\<And>x. x < a \<or> a + n \<le> x \<Longrightarrow> c (rw_flash w') x = c (rw_flash w) x"
    and "unat (rb_flash_base b) + unat (rb_flash_used b) \<le> a" "a + n \<le> unat (rb_flash_end b)"
  shows "outside b c w' = outside b c w"
  unfolding outside_def using assms by (intro ext) (metis (no_types, lifting) le_trans not_le)

lemma writer_outside:
  assumes s: "session b c img p w" and env: "env_ok b c env"
  shows "outside b c (rcv_ota_writer_fn env t w) = outside b c w"
proof -
  have law: "flash_law (rv_flash env) c" using env by (simp add: env_ok_def)
  show ?thesis
  proof (cases "rw_writer w")
    case (WriterPage sl)
    have r: "in_region b (rw_reqs w ! sl)" by (rule region_current [OF s]) (simp add: WriterPage)
    obtain ok f where e: "fl_erase (rv_flash env) (unat (pw_addr (rw_reqs w ! sl))) (rw_flash w) = (ok, f)" by fastforce
    have "rw_flash (rcv_ota_writer_fn env t w) = f" by (simp add: rcv_ota_writer_fn_def WriterPage e Let_def)
    then show ?thesis
      using flash_erase(1) [OF law e] r by (intro outsideI [of "unat (pw_addr (rw_reqs w ! sl))" 4096]) (simp_all add: in_region_def)
  next
    case (WriterErased sl)
    define rq where "rq = rw_reqs w ! sl"
    have r: "in_region b rq" unfolding rq_def by (rule region_current [OF s]) (simp add: WriterErased)
    obtain ok f where e: "fl_write (rv_flash env) (unat (pw_addr rq)) (take (pw_len rq) (pw_data rq)) (rw_flash w) = (ok, f)" by fastforce
    have "rw_flash (rcv_ota_writer_fn env t w) = f" by (simp add: rcv_ota_writer_fn_def WriterErased Let_def e rq_def [symmetric])
    moreover have "length (take (pw_len rq) (pw_data rq)) \<le> 4096" using r by (simp add: in_region_def min.coboundedI2)
    ultimately show ?thesis
      using flash_write(1) [OF law e] r
      by (intro outsideI [of "unat (pw_addr rq)" "length (take (pw_len rq) (pw_data rq))"]) (simp_all add: in_region_def del: length_take)
  qed (rule outside_flash, simp add: rcv_ota_writer_fn_def split: list.split)+
qed

lemma wait_outside:
  assumes "session b c img p w" and "env_ok b c env"
  shows "outside b c (rcv_wait env i w) = outside b c w"
proof -
  have "session b c img p (rcv_wait env i w) \<and> outside b c (rcv_wait env i w) = outside b c w"
    unfolding rcv_wait_def
    by (rule fold_invariant [where Q = "\<lambda>_. True" and P = "\<lambda>w'. session b c img p w' \<and> outside b c w' = outside b c w"])
      (use assms writer_step writer_outside [THEN trans] in blast)+
  then show ?thesis by blast
qed

end
