(* ===== verification/ReceiverOtaHandler.thy ===== *)
theory ReceiverOtaHandler
  imports ReceiverOtaWriter
begin

text \<open>The report handler's side of the pipe: filling a page buffer, handing it over, and the loop over a payload.\<close>

section \<open>A pipe without commands\<close>

lemma flying_small: "flying p fl \<Longrightarrow> sl \<in> set fl \<Longrightarrow> sl < 2"
  unfolding flying_def by (metis (no_types, lifting) imageE list.set_map mod_less_divisor zero_less_numeral)

lemma flying_full:
  assumes "flying p fl" and "p mod 2 \<notin> set fl"
  shows "length fl \<le> 1"
proof (rule ccontr)
  assume "\<not> length fl \<le> 1"
  then have l: "length fl = 2" "2 \<le> p" using assms(1) by (simp_all add: flying_def)
  have "fl = map (\<lambda>k. k mod 2) [p - 2..<p]" using assms(1) by (simp only: flying_def l(1))
  moreover have "p - 2 \<in> set [p - 2..<p]" using l(2) by simp
  ultimately have "(p - 2) mod 2 \<in> set fl" by (metis image_eqI list.set_map)
  moreover have "(p - 2) mod 2 = p mod 2" using l(2) by (metis le_add_diff_inverse mod_add_self1)
  ultimately show False using assms(2) by simp
qed

lemma flying_append:
  assumes "flying p fl" and "length fl \<le> 1"
  shows "flying (Suc p) (fl @ [p mod 2])"
proof -
  have l: "length fl \<le> p" "fl = map (\<lambda>k. k mod 2) [p - length fl..<p]" using assms(1) unfolding flying_def by blast+
  have "fl @ [p mod 2] = map (\<lambda>k. k mod 2) ([p - length fl..<p] @ [p])" by (subst l(2)) simp
  also have "[p - length fl..<p] @ [p] = [p - length fl..<Suc p]" using l(1) by simp
  finally show ?thesis unfolding flying_def using l(1) assms(2) by simp
qed

text \<open>The pages in flight, when no command is in the queue.\<close>

definition in_flight :: "('f \<Rightarrow> nat \<Rightarrow> u8) \<Rightarrow> bytes \<Rightarrow> nat \<Rightarrow> nat list \<Rightarrow> 'f rcv_world \<Rightarrow> bool" where
  "in_flight c img p pg w \<longleftrightarrow> rw_queue w = map of_nat pg \<and> flying p (current (rw_writer w) @ pg) \<and>
     pages_ok img p (current (rw_writer w) @ pg) w \<and> filling img p w \<and>
     on_flash c img (p - length (current (rw_writer w) @ pg)) w \<and> phase img p [] w"

lemma in_flightI: "session b c img p w \<Longrightarrow> \<not> rw_stop w \<Longrightarrow> no_commands w \<Longrightarrow> \<exists>pg. in_flight c img p pg w"
proof -
  assume s: "session b c img p w" and stop: "\<not> rw_stop w" and quiet: "no_commands w"
  have "pipe c img p w" using s stop by (simp add: session_def)
  then obtain pg sp where pp: "rw_queue w = map of_nat pg @ sp" "flying p (current (rw_writer w) @ pg)"
    "pages_ok img p (current (rw_writer w) @ pg) w" "filling img p w"
    "on_flash c img (p - length (current (rw_writer w) @ pg)) w" "phase img p sp w" by (rule pipe_parts)
  have "sp = []" by (rule phase_quiet [OF pp(6,1) quiet])
  then show ?thesis using pp unfolding in_flight_def by (intro exI [of _ pg]) simp
qed

lemma in_flight_pipe: "in_flight c img p pg w \<Longrightarrow> pipe c img p w"
  unfolding in_flight_def by (elim conjE) (rule pipe_compose [of _ pg "[]"], simp_all)

lemma in_flight_pending:
  assumes "in_flight c img p pg w"
  shows "pending_slots w = set (current (rw_writer w) @ pg)" "length (rw_queue w) \<le> 2" "no_commands w"
proof -
  have q: "rw_queue w = map of_nat pg" and small: "sl < 2" if "sl \<in> set pg" for sl
    using assms flying_small [of p "current (rw_writer w) @ pg" sl] that by (simp_all add: in_flight_def)
  have q: "rw_queue w = map of_nat pg" using assms by (simp add: in_flight_def)
  have "{cmd \<in> set (rw_queue w). cmd \<le> 1} = of_nat ` set pg"
  proof -
    have "(of_nat sl :: u8) \<le> 1" if "sl \<in> set pg" for sl using small [OF that] by (auto simp: less_2_cases_iff)
    then show ?thesis unfolding q by auto
  qed
  moreover have "unat ` (of_nat :: nat \<Rightarrow> u8) ` set pg = set pg"
  proof -
    have "unat (of_nat sl :: u8) = sl" if "sl \<in> set pg" for sl using command_byte(5) [OF small [OF that]] .
    then show ?thesis by (simp add: image_image)
  qed
  ultimately show "pending_slots w = set (current (rw_writer w) @ pg)" unfolding pending_slots_def by simp
  show "length (rw_queue w) \<le> 2" using assms unfolding in_flight_def flying_def by simp
  show "no_commands w" unfolding no_commands_def q using command_byte(2,3) small by (metis image_iff list.set_map)
qed

section \<open>Filling a page buffer\<close>

lemma nth_update_mod: "(k mod 2 :: nat) \<noteq> p mod 2 \<Longrightarrow> xs[p mod 2 := x] ! (k mod 2) = xs ! (k mod 2)"
  by simp

lemma flying_other: "p mod 2 \<notin> set fl \<Longrightarrow> flying p fl \<Longrightarrow> p - length fl \<le> k \<Longrightarrow> k < p \<Longrightarrow> k mod 2 \<noteq> p mod 2"
  unfolding flying_def by (metis (no_types, lifting) atLeastLessThan_iff atLeastLessThan_upt image_eqI list.set_map)

definition quiet_session :: "rcv_build \<Rightarrow> ('f \<Rightarrow> nat \<Rightarrow> u8) \<Rightarrow> bytes \<Rightarrow> nat \<Rightarrow> 'f rcv_world \<Rightarrow> bool" where
  "quiet_session b c img p w \<longleftrightarrow> session b c img p w \<and> \<not> rw_stop w \<and> no_commands w \<and> ro_error_code (rw_ota w) = 0"

lemma fill_session:
  assumes q: "quiet_session b c img p w" and free: "off_of w = 0 \<Longrightarrow> rw_sems w ! (p mod 2)" and n: "0 < n" "off_of w + n \<le> 4096"
    "4096 * p + off_of w + n \<le> length img" and bytes: "chunk = take n (drop (4096 * p + off_of w) img)"
    and w': "w' = on_ota (\<lambda>s. s\<lparr>ro_page_buf_offset := off_of w + n\<rparr>) (w\<lparr>rw_sems := (rw_sems w)[p mod 2 := False],
      rw_reqs := (rw_reqs w)[p mod 2 := (rw_reqs w ! (p mod 2))\<lparr>pw_data := take (off_of w) (pw_data (rw_reqs w ! (p mod 2))) @
        chunk @ drop (off_of w + n) (pw_data (rw_reqs w ! (p mod 2)))\<rparr>]\<rparr>)"
  shows "quiet_session b c img p w'"
proof -
  have s: "session b c img p w" "\<not> rw_stop w" "no_commands w" "ro_error_code (rw_ota w) = 0" using q by (simp_all add: quiet_session_def)
  obtain pg where f: "in_flight c img p pg w" using in_flightI [OF s(1-3)] ..
  define fl where "fl = current (rw_writer w) @ pg"
  define old where "old = pw_data (rw_reqs w ! (p mod 2))"
  define new where "new = take (off_of w) old @ chunk @ drop (off_of w + n) old"
  have ff: "rw_queue w = map of_nat pg" "flying p fl" "pages_ok img p fl w" "filling img p w" "on_flash c img (p - length fl) w"
    "phase img p [] w" using f unfolding in_flight_def fl_def by blast+
  have same: "rw_queue w' = rw_queue w" "rw_writer w' = rw_writer w" "rw_flash w' = rw_flash w" "rw_error w' = rw_error w"
    "rw_stop w' = rw_stop w" "rw_created w' = rw_created w" "base_of w' = base_of w" "off_of w' = off_of w + n"
    "rw_sems w' = (rw_sems w)[p mod 2 := False]" "rw_reqs w' = (rw_reqs w)[p mod 2 := (rw_reqs w ! (p mod 2))\<lparr>pw_data := new\<rparr>]"
    "rw_ota w' = (rw_ota w)\<lparr>ro_page_buf_offset := off_of w + n\<rparr>" by (simp_all add: w' new_def old_def)
  have len: "length (rw_reqs w) = 2" "length (rw_sems w) = 2" "\<forall>r\<in>set (rw_reqs w). length (pw_data r) = 4096"
    using ff(3) by (simp_all add: pages_ok_def)
  have l: "length old = 4096" using len by (simp add: old_def)
  have out: "p mod 2 \<notin> set fl"
    using ff(3) free unfolding pages_ok_def by (cases "off_of w = 0") simp_all
  have other: "k mod 2 \<noteq> p mod 2" if "p - length fl \<le> k" "k < p" for k
    by (rule flying_other [OF out ff(2) that])
  have clen: "length chunk = n" using n(3) by (simp add: bytes)
  have nlen: "length new = 4096" using l clen n(2) by (simp add: new_def)
  have slots: "pages_ok img p fl w'"
  proof -
    have "\<forall>r\<in>set (rw_reqs w'). length (pw_data r) = 4096"
      using len(3) nlen set_update_subset_insert [of "rw_reqs w"] unfolding same by fastforce
    moreover have "\<forall>k. p - length fl \<le> k \<and> k < p \<longrightarrow> req_ok img (base_of w) k (rw_reqs w' ! (k mod 2))"
    proof (intro allI impI)
      fix k assume k: "p - length fl \<le> k \<and> k < p"
      have "rw_reqs w' ! (k mod 2) = rw_reqs w ! (k mod 2)"
        unfolding same by (rule nth_update_mod) (use other k in blast)
      then show "req_ok img (base_of w) k (rw_reqs w' ! (k mod 2))" using ff(3) k by (simp add: pages_ok_def)
    qed
    moreover have "rw_sems w' ! sl \<longleftrightarrow> sl \<notin> set fl \<and> \<not> (0 < off_of w + n \<and> sl = p mod 2)" if "sl < 2" for sl
      using ff(3) len(2) out n(1) that unfolding pages_ok_def same by (cases "sl = p mod 2") auto
    ultimately show ?thesis unfolding pages_ok_def same(7,8) using len out by (simp add: same)
  qed
  have fill: "filling img p w'"
  proof -
    have "take (off_of w + n) new = take (off_of w + n) (drop (4096 * p) img)"
    proof -
      have "take (off_of w + n) new = take (off_of w) old @ chunk" using l clen n(2) by (simp add: new_def)
      also have "take (off_of w) old = take (off_of w) (drop (4096 * p) img)" using ff(4) by (simp add: filling_def old_def)
      also have "take (off_of w) (drop (4096 * p) img) @ chunk = take (off_of w + n) (drop (4096 * p) img)"
        by (simp only: bytes take_add drop_drop add.commute [of "4096 * p"])
      finally show ?thesis .
    qed
    then show ?thesis using ff(4) n len unfolding filling_def same by simp
  qed
  have "on_flash c img m w'" if "on_flash c img m w" for m using that by (simp add: on_flash_def same)
  moreover have ph: "phase img p [] w'" using ff(6) by (simp add: phase_def same)
  ultimately have flight: "in_flight c img p pg w'"
    unfolding in_flight_def same(1,2) fl_def [symmetric] using ff slots fill by blast
  have pend: "pending_slots w' = set fl" using in_flight_pending(1) [OF flight] by (simp add: same fl_def)
  moreover have "pending_slots w = set fl" using in_flight_pending(1) [OF f] by (simp add: fl_def)
  moreover have "\<forall>sl\<in>set fl. rw_reqs w' ! sl = rw_reqs w ! sl" unfolding same using out by (metis nth_list_update_neq)
  ultimately have "\<forall>sl\<in>pending_slots w'. in_region b (rw_reqs w' ! sl)" using s(1) by (simp add: session_def)
  moreover have "staging_ok b (rw_ota w') (length img)" using s(1) by (simp add: session_def staging_ok_def same)
  moreover have "verified c img w'" using s(4) by (simp add: verified_def same)
  moreover have "copies b c img w'" using s(1) by (simp add: session_def copies_def same)
  moreover have "no_commands w'" using s(3) by (simp add: no_commands_def same)
  ultimately show ?thesis
    unfolding quiet_session_def session_def using in_flight_pipe [OF flight] s by (simp add: session_def same)
qed

section \<open>Handing a page over\<close>

lemma wait_session_quiet:
  assumes "quiet_session b c img p w" and "env_ok b c env"
  shows "quiet_session b c img p (rcv_wait env i w)" "rw_ota (rcv_wait env i w) = rw_ota w" "rw_reqs (rcv_wait env i w) = rw_reqs w"
proof -
  have v: "handler_view (rcv_wait env i w) = handler_view w" by simp
  then show "rw_reqs (rcv_wait env i w) = rw_reqs w" by (simp add: handler_view_def)
  have q: "rw_ota (rcv_wait env i w) = rw_ota w \<and> no_commands (rcv_wait env i w) \<and>
    length (rw_queue (rcv_wait env i w)) \<le> length (rw_queue w)"
    using assms(1) by (intro wait_quiet) (simp add: quiet_session_def)
  then show "rw_ota (rcv_wait env i w) = rw_ota w" by simp
  show "quiet_session b c img p (rcv_wait env i w)"
    using assms wait_session [of b c img p w env i] q v unfolding quiet_session_def by (simp add: handler_view_def)
qed

text \<open>The request of a full page, or of the last one with ones behind it.\<close>

lemma request_session:
  assumes q: "quiet_session b c img p w" and off: "0 < off_of w" "off_of w = 4096 \<or> 4096 * p + off_of w = length img"
    and r: "length (pw_data r) = 4096" "take (off_of w) (pw_data r) = take (off_of w) (pw_data (rw_reqs w ! (p mod 2)))"
  shows "quiet_session b c img p (w\<lparr>rw_reqs := (rw_reqs w)[p mod 2 := r]\<rparr>)"
proof -
  define w' where "w' = w\<lparr>rw_reqs := (rw_reqs w)[p mod 2 := r]\<rparr>"
  have s: "session b c img p w" "\<not> rw_stop w" "no_commands w" "ro_error_code (rw_ota w) = 0" using q by (simp_all add: quiet_session_def)
  obtain pg where f: "in_flight c img p pg w" using in_flightI [OF s(1-3)] ..
  define fl where "fl = current (rw_writer w) @ pg"
  have ff: "rw_queue w = map of_nat pg" "flying p fl" "pages_ok img p fl w" "filling img p w" "on_flash c img (p - length fl) w"
    "phase img p [] w" using f unfolding in_flight_def fl_def by blast+
  have same: "rw_queue w' = rw_queue w" "rw_writer w' = rw_writer w" "rw_flash w' = rw_flash w" "rw_error w' = rw_error w"
    "rw_stop w' = rw_stop w" "rw_created w' = rw_created w" "rw_sems w' = rw_sems w" "rw_ota w' = rw_ota w"
    "rw_reqs w' = (rw_reqs w)[p mod 2 := r]" by (simp_all add: w'_def)
  have len: "length (rw_reqs w) = 2" "\<forall>r\<in>set (rw_reqs w). length (pw_data r) = 4096" "p mod 2 \<notin> set fl"
    using ff(3) off(1) by (simp_all add: pages_ok_def)
  have "\<forall>r\<in>set (rw_reqs w'). length (pw_data r) = 4096"
    using len(2) r(1) set_update_subset_insert [of "rw_reqs w"] unfolding same by fastforce
  moreover have "\<forall>k. p - length fl \<le> k \<and> k < p \<longrightarrow> req_ok img (base_of w) k (rw_reqs w' ! (k mod 2))"
  proof (intro allI impI)
    fix k assume k: "p - length fl \<le> k \<and> k < p"
    have "rw_reqs w' ! (k mod 2) = rw_reqs w ! (k mod 2)"
      unfolding same by (rule nth_update_mod) (use flying_other [OF len(3) ff(2)] k in blast)
    then show "req_ok img (base_of w) k (rw_reqs w' ! (k mod 2))" using ff(3) k by (simp add: pages_ok_def)
  qed
  ultimately have "pages_ok img p fl w'" using ff(3) unfolding pages_ok_def same(7,8) by (simp add: same(9))
  moreover have "filling img p w'" using ff(4) len(1) r(2) unfolding filling_def same by simp
  moreover have "on_flash c img m w' = on_flash c img m w" "phase img p [] w' = phase img p [] w" for m
    by (simp_all add: on_flash_def phase_def same)
  ultimately have flight: "in_flight c img p pg w'"
    unfolding in_flight_def same(1,2) fl_def [symmetric] using ff by blast
  have "pending_slots w' = set fl" "pending_slots w = set fl"
    using in_flight_pending(1) [OF flight] in_flight_pending(1) [OF f] by (simp_all add: same fl_def)
  moreover have "\<forall>sl\<in>set fl. rw_reqs w' ! sl = rw_reqs w ! sl" unfolding same using len(3) by (metis nth_list_update_neq)
  ultimately have "\<forall>sl\<in>pending_slots w'. in_region b (rw_reqs w' ! sl)" using s(1) by (simp add: session_def)
  moreover have "verified c img w'" using s(4) by (simp add: verified_def same)
  moreover have "copies b c img w'" using s(1) by (simp add: session_def copies_def same)
  moreover have "no_commands w'" using s(3) by (simp add: no_commands_def same)
  ultimately show ?thesis
    unfolding w'_def [symmetric] quiet_session_def session_def using in_flight_pipe [OF flight] s by (simp add: session_def same)
qed

lemma submit_session:
  assumes q: "quiet_session b c img p w" and off: "0 < off_of w" "off_of w = 4096 \<or> 4096 * p + off_of w = length img"
    and r: "pw_addr (rw_reqs w ! (p mod 2)) = ro_page_buf_flash_addr (rw_ota w)" "pw_len (rw_reqs w ! (p mod 2)) = off_of w"
    and w': "w' = on_ota (\<lambda>s. s\<lparr>ro_next_write_slot := 1 - p mod 2,
        ro_page_buf_flash_addr := ro_page_buf_flash_addr s + of_nat 4096, ro_page_buf_offset := 0\<rparr>)
      (w\<lparr>rw_queue := rw_queue w @ [of_nat (p mod 2)]\<rparr>)"
  shows "quiet_session b c img (Suc p) w'"
proof -
  have s: "session b c img p w" "\<not> rw_stop w" "no_commands w" "ro_error_code (rw_ota w) = 0" using q by (simp_all add: quiet_session_def)
  obtain pg where f: "in_flight c img p pg w" using in_flightI [OF s(1-3)] ..
  define fl where "fl = current (rw_writer w) @ pg"
  have ff: "rw_queue w = map of_nat pg" "flying p fl" "pages_ok img p fl w" "filling img p w" "on_flash c img (p - length fl) w"
    "phase img p [] w" using f unfolding in_flight_def fl_def by blast+
  have lay: "staging_ok b (rw_ota w) (length img)" using s(1) by (simp add: session_def)
  have len: "length (rw_reqs w) = 2" "p mod 2 \<notin> set fl" using ff(3) off(1) by (simp_all add: pages_ok_def)
  have short: "length fl \<le> 1" by (rule flying_full [OF ff(2) len(2)])
  have page: "4096 * p + off_of w \<le> length img" "unat (ro_page_buf_flash_addr (rw_ota w)) = base_of w + 4096 * p" "off_of w \<le> 4096"
    "take (off_of w) (pw_data (rw_reqs w ! (p mod 2))) = take (off_of w) (drop (4096 * p) img)"
    using ff(4) off(1) by (simp_all add: filling_def)
  have below: "4096 * p < length img" using page(1) off(1) by simp
  have top: "base_of w + 4096 * p + 4096 \<le> unat (rb_flash_end b)" using lay below by (auto simp: staging_ok_def)
  have addr: "unat (ro_page_buf_flash_addr (rw_ota w) + 4096) = base_of w + 4096 * Suc p"
  proof -
    have "unat (rb_flash_end b) < 2 ^ 32" using unsigned_less [of "rb_flash_end b", where ?'a = nat] by simp
    then show ?thesis using top page(2) by (subst unat_add_lem [THEN iffD1]) simp_all
  qed
  have same: "rw_queue w' = rw_queue w @ [of_nat (p mod 2)]" "rw_writer w' = rw_writer w" "rw_flash w' = rw_flash w" "rw_error w' = rw_error w"
    "rw_stop w' = rw_stop w" "rw_created w' = rw_created w" "rw_sems w' = rw_sems w" "rw_reqs w' = rw_reqs w" "base_of w' = base_of w"
    "off_of w' = 0" "ro_next_write_slot (rw_ota w') = 1 - p mod 2"
    "ro_page_buf_flash_addr (rw_ota w') = ro_page_buf_flash_addr (rw_ota w) + 4096"
    "ro_error_code (rw_ota w') = ro_error_code (rw_ota w)" "ro_state (rw_ota w') = ro_state (rw_ota w)" by (simp_all add: w')
  have page_p: "req_ok img (base_of w) p (rw_reqs w ! (p mod 2))"
    using off(2) page by (auto simp: req_ok_def r page_of_def)
  have slots: "pages_ok img (Suc p) (fl @ [p mod 2]) w'"
    using ff(3) page_p off(1) short ff(2) unfolding pages_ok_def same
    by (auto simp: less_Suc_eq)
  have "filling img (Suc p) w'"
    using addr below unfolding filling_def same by (simp add: mod_Suc)
  moreover have "on_flash c img m w' = on_flash c img m w" for m by (simp add: on_flash_def same)
  moreover have "phase img (Suc p) [] w'" using ff(6) by (simp add: phase_def same)
  moreover have cur: "current (rw_writer w') @ pg @ [p mod 2] = fl @ [p mod 2]" by (simp add: same fl_def)
  ultimately have flight: "in_flight c img (Suc p) (pg @ [p mod 2]) w'"
    unfolding in_flight_def cur using slots flying_append [OF ff(2) short] ff(1,5) by (simp add: same(1))
  have "unat (rb_flash_base b) + unat (rb_flash_used b) \<le> base_of w"
  proof -
    have "unat (rb_flash_base b) + max (length img) (unat (rb_flash_used b)) \<le> base_of w" using lay by (simp add: staging_ok_def)
    then show ?thesis by linarith
  qed
  then have "in_region b (rw_reqs w ! (p mod 2))"
    using top page(2,3) by (simp add: in_region_def r)
  moreover have "pending_slots w' = insert (p mod 2) (pending_slots w)"
    using in_flight_pending(1) [OF flight] in_flight_pending(1) [OF f] by (simp add: same)
  ultimately have "\<forall>sl\<in>pending_slots w'. in_region b (rw_reqs w' ! sl)" using s(1) by (simp add: session_def same)
  moreover have "staging_ok b (rw_ota w') (length img)" using lay by (simp add: staging_ok_def w')
  moreover have "verified c img w'" using s(4) by (simp add: verified_def same)
  moreover have "copies b c img w'" using s(1) by (simp add: session_def copies_def same w')
  ultimately show ?thesis
    unfolding quiet_session_def session_def using in_flight_pipe [OF flight] in_flight_pending(3) [OF flight] s
    by (simp add: session_def same)
qed

text \<open>What the pipe leaves alone: the fields of the session, and the flash outside of the free area above the firmware.\<close>

definition kept_view :: "rcv_build \<Rightarrow> ('f \<Rightarrow> nat \<Rightarrow> u8) \<Rightarrow> 'f rcv_world \<Rightarrow>
    (nat \<Rightarrow> u8) \<times> bool \<times> bool \<times> rcv_ota_state \<times> u8 \<times> u32 \<times> u32 \<times> u16 \<times> u32 \<times> u32" where
  "kept_view b c w = (outside b c w, rw_stop w, rw_created w, ro_state (rw_ota w), ro_error_code (rw_ota w), ro_image_size (rw_ota w),
     ro_image_crc32 (rw_ota w), ro_next_expected_seq (rw_ota w), ro_bytes_written (rw_ota w), ro_target_flash_base (rw_ota w))"

lemma wait_kept:
  assumes "quiet_session b c img p w" and "env_ok b c env"
  shows "kept_view b c (rcv_wait env i w) = kept_view b c w"
proof -
  have s: "session b c img p w" "no_commands w" using assms(1) by (simp_all add: quiet_session_def)
  have "handler_view (rcv_wait env i w) = handler_view w" by simp
  then have "rw_stop (rcv_wait env i w) = rw_stop w" "rw_created (rcv_wait env i w) = rw_created w" by (simp_all add: handler_view_def)
  then show ?thesis using wait_quiet [OF s(2), of env i] wait_outside [OF s(1) assms(2)] by (simp add: kept_view_def)
qed

lemma flush_session:
  assumes q: "quiet_session b c img p w" and env: "env_ok b c env"
    and off: "0 < off_of w" "off_of w = 4096 \<or> 4096 * p + off_of w = length img"
  shows "case rcv_ota_flush_page_buf env i w of (ok, w') \<Rightarrow> kept_view b c w' = kept_view b c w \<and>
    quiet_session b c img (if ok then Suc p else p) w' \<and> (ok \<longrightarrow> off_of w' = 0)"
proof (cases "rw_error w")
  case True
  then show ?thesis using q by (simp add: rcv_ota_flush_page_buf_def)
next
  case False
  have s: "session b c img p w" "\<not> rw_stop w" "no_commands w" using q by (simp_all add: quiet_session_def)
  obtain pg where f: "in_flight c img p pg w" using in_flightI [OF s] ..
  have slot: "ro_next_write_slot (rw_ota w) = p mod 2" using f by (simp add: in_flight_def filling_def)
  have le: "off_of w \<le> 4096" using f by (simp add: in_flight_def filling_def)
  define old where "old = pw_data (rw_reqs w ! (p mod 2))"
  have "length (rw_reqs w) = 2" "\<forall>r\<in>set (rw_reqs w). length (pw_data r) = 4096" using f by (simp_all add: in_flight_def pages_ok_def)
  then have old: "length old = 4096" "length (rw_reqs w) = 2" by (simp_all add: old_def)
  define r where "r = \<lparr>pw_data = (if off_of w < 4096 then take (off_of w) old @ replicate (4096 - off_of w) 0xFF else old),
    pw_addr = ro_page_buf_flash_addr (rw_ota w), pw_len = off_of w\<rparr>"
  define w1 where "w1 = w\<lparr>rw_reqs := (rw_reqs w)[p mod 2 := r]\<rparr>"
  define w2 where "w2 = rcv_wait env i w1"
  have r: "length (pw_data r) = 4096" "take (off_of w) (pw_data r) = take (off_of w) old" using old le by (simp_all add: r_def)
  have s1: "quiet_session b c img p w1" unfolding w1_def by (rule request_session [OF q off r(1)]) (simp add: r(2) old_def)
  have s2: "quiet_session b c img p w2" unfolding w2_def by (rule wait_session_quiet(1) [OF s1 env])
  have w2: "rw_ota w2 = rw_ota w" "rw_reqs w2 ! (p mod 2) = r"
    using wait_session_quiet(2,3) [OF s1 env, of i] old(2) by (simp_all add: w2_def w1_def)
  have room: "length (rw_queue w2) < 4"
  proof -
    obtain pg where "in_flight c img p pg w2" using s2 in_flightI unfolding quiet_session_def by blast
    from in_flight_pending(2) [OF this] show ?thesis by simp
  qed
  define w3 where "w3 = on_ota (\<lambda>s. s\<lparr>ro_next_write_slot := 1 - p mod 2, ro_page_buf_flash_addr := ro_page_buf_flash_addr s + of_nat 4096,
    ro_page_buf_offset := 0\<rparr>) (w2\<lparr>rw_queue := rw_queue w2 @ [of_nat (p mod 2)]\<rparr>)"
  have put: "writer_put env i (of_nat (p mod 2)) w1 = (True, w2\<lparr>rw_queue := rw_queue w2 @ [of_nat (p mod 2)]\<rparr>)"
    unfolding writer_put_def w2_def [symmetric] Let_def using room by simp
  have "w\<lparr>rw_reqs := (rw_reqs w)[p mod 2 := \<lparr>pw_data = (if off_of w < 4096
      then take (off_of w) (pw_data (rw_reqs w ! (p mod 2))) @ replicate (4096 - off_of w) 0xFF else pw_data (rw_reqs w ! (p mod 2))),
      pw_addr = ro_page_buf_flash_addr (rw_ota w), pw_len = off_of w\<rparr>]\<rparr> = w1" unfolding w1_def r_def old_def ..
  note fold_w1 = this
  have run: "rcv_ota_flush_page_buf env i w = (True, w3)"
    unfolding rcv_ota_flush_page_buf_def Let_def slot fold_w1 put w3_def using False by simp
  have "quiet_session b c img (Suc p) w3"
    by (rule submit_session [OF s2 _ _ _ _ w3_def]) (use off w2 in \<open>simp_all add: r_def\<close>)
  moreover have "kept_view b c w3 = kept_view b c w2" by (simp add: kept_view_def outside_def w3_def cong: if_cong)
  moreover have "kept_view b c w2 = kept_view b c w1" unfolding w2_def by (rule wait_kept [OF s1 env])
  moreover have "kept_view b c w1 = kept_view b c w" by (simp add: kept_view_def outside_def w1_def cong: if_cong)
  moreover have "off_of w3 = 0" by (simp add: w3_def)
  ultimately show ?thesis by (simp add: run)
qed

section \<open>The payload of a report\<close>

lemma store_session:
  assumes "quiet_session b c img p w" and "env_ok b c env" and "off_of w < 4096"
    and "4096 * p + off_of w + length payload \<le> length img" "payload = take (length payload) (drop (4096 * p + off_of w) img)"
  shows "case store_payload env i payload w of (ok, w') \<Rightarrow> kept_view b c w' = kept_view b c w \<and>
    (\<exists>p'. quiet_session b c img p' w' \<and> (ok \<longrightarrow> off_of w' < 4096 \<and> 4096 * p' + off_of w' = 4096 * p + off_of w + length payload))"
  using assms
proof (induction "length payload" arbitrary: i payload w p rule: less_induct)
  case (less payload i w p)
  note q = less(2) and env = less(3) and off = less(4) and fits = less(5) and bytes = less(6)
  show ?case
  proof (cases "payload = []")
    case True
    then show ?thesis using q off by (subst store_payload.simps) auto
  next
    case False
    define chunk where "chunk = min (4096 - off_of w) (length payload)"
    define w1 where "w1 = (if off_of w = 0 then rcv_wait env i w else w)"
    have slot: "ro_next_write_slot (rw_ota w) = p mod 2"
      using in_flightI [of b c img p w] q unfolding quiet_session_def in_flight_def filling_def by blast
    have w1: "quiet_session b c img p w1" "kept_view b c w1 = kept_view b c w" "rw_ota w1 = rw_ota w"
      using wait_session_quiet [OF q env] wait_kept [OF q env] q by (simp_all add: w1_def)
    define w2 where "w2 = (if off_of w = 0 then w1\<lparr>rw_sems := (rw_sems w1)[p mod 2 := False]\<rparr> else w1)"
    define old where "old = rw_reqs w2 ! (p mod 2)"
    define w3 where "w3 = on_ota (\<lambda>s. s\<lparr>ro_page_buf_offset := off_of w + chunk\<rparr>)
      (w2\<lparr>rw_reqs := (rw_reqs w2)[p mod 2 := old\<lparr>pw_data :=
         take (off_of w) (pw_data old) @ take chunk payload @ drop (off_of w + chunk) (pw_data old)\<rparr>]\<rparr>)"
    have unfold: "store_payload env i payload w = (if payload = [] then (True, w)
       else if 4096 \<le> off_of w \<or> off_of w = 0 \<and> \<not> rw_sems w1 ! (p mod 2) then (False, w1)
       else if off_of w + chunk < 4096 then store_payload env (i + 2) (drop chunk payload) w3
       else let (ok, w4) = rcv_ota_flush_page_buf env (i + 1) w3
            in if \<not> ok then (False, w4) else store_payload env (i + 2) (drop chunk payload) w4)"
      by (subst store_payload.simps) (simp only: Let_def slot chunk_def w1_def w2_def old_def w3_def)
    show ?thesis
    proof (cases "off_of w = 0 \<and> \<not> rw_sems w1 ! (p mod 2)")
      case True
      then have "store_payload env i payload w = (False, w1)" using False by (simp add: unfold)
      then show ?thesis using w1 by auto
    next
      case free: False
      have n: "0 < chunk" "chunk \<le> length payload" "off_of w + chunk \<le> 4096" using False off by (simp_all add: chunk_def)
      have w3: "w3 = on_ota (\<lambda>s. s\<lparr>ro_page_buf_offset := off_of w1 + chunk\<rparr>) (w1\<lparr>rw_sems := (rw_sems w1)[p mod 2 := False],
        rw_reqs := (rw_reqs w1)[p mod 2 := (rw_reqs w1 ! (p mod 2))\<lparr>pw_data := take (off_of w1) (pw_data (rw_reqs w1 ! (p mod 2))) @
          take chunk payload @ drop (off_of w1 + chunk) (pw_data (rw_reqs w1 ! (p mod 2)))\<rparr>]\<rparr>)"
      proof (cases "off_of w = 0")
        case True
        then show ?thesis unfolding w3_def old_def w2_def by (simp add: w1(3))
      next
        case f: False
        have "\<not> rw_sems w ! (p mod 2)"
          using in_flightI [of b c img p w] q f unfolding quiet_session_def in_flight_def pages_ok_def by fastforce
        then have "(rw_sems w)[p mod 2 := False] = rw_sems w" by (metis list_update_id)
        then show ?thesis using f unfolding w3_def old_def w2_def w1_def by (simp add: on_ota_def)
      qed
      have part: "take chunk payload = take chunk (drop (4096 * p + off_of w1) img)"
        by (subst bytes) (simp add: w1(3) n(2) min.absorb1)
      have q3: "quiet_session b c img p w3"
        by (rule fill_session [OF w1(1) _ n(1) _ _ part w3]) (use free n fits in \<open>auto simp: w1(3)\<close>)
      have k3: "kept_view b c w3 = kept_view b c w" using w1(2) by (simp add: kept_view_def outside_def w3 cong: if_cong)
      have o3: "off_of w3 = off_of w + chunk" by (simp add: w3 w1(3))
      have rest: "drop chunk payload = take (length (drop chunk payload)) (drop (4096 * p + (off_of w + chunk)) img)"
        by (subst bytes) (simp add: drop_take add_ac)
      have shorter: "length (drop chunk payload) < length payload" using n by simp
      have go: "\<not> 4096 \<le> off_of w" "\<not> (off_of w = 0 \<and> \<not> rw_sems w1 ! (p mod 2))" using off free by simp_all
      show ?thesis
      proof (cases "off_of w + chunk < 4096")
        case True
        have run: "store_payload env i payload w = store_payload env (i + 2) (drop chunk payload) w3"
          unfolding unfold using False go True by (simp only: simp_thms if_False if_True)
        have "case store_payload env (i + 2) (drop chunk payload) w3 of (ok, w') \<Rightarrow> kept_view b c w' = kept_view b c w3 \<and>
          (\<exists>p'. quiet_session b c img p' w' \<and> (ok \<longrightarrow> off_of w' < 4096 \<and> 4096 * p' + off_of w' = 4096 * p + off_of w3 + length (drop chunk payload)))"
          by (rule less(1) [OF shorter q3 env]) (use True fits n(2) rest in \<open>simp_all add: o3\<close>)
        then show ?thesis unfolding run using k3 n(2) by (auto simp: o3 split: prod.splits)
      next
        case full: False
        then have o: "off_of w3 = 4096" "off_of w + chunk = 4096" using n(3) by (simp_all add: o3)
        obtain ok w4 where f: "rcv_ota_flush_page_buf env (i + 1) w3 = (ok, w4)" by fastforce
        have w4: "kept_view b c w4 = kept_view b c w3" "quiet_session b c img (if ok then Suc p else p) w4" "ok \<Longrightarrow> off_of w4 = 0"
          using flush_session [OF q3 env, of "i + 1"] o f by simp_all
        have run: "store_payload env i payload w = (if \<not> ok then (False, w4) else store_payload env (i + 2) (drop chunk payload) w4)"
          unfolding unfold using False go full by (simp only: simp_thms if_False if_True f Let_def prod.case)
        show ?thesis
        proof (cases ok)
          case True
          have q4: "quiet_session b c img (Suc p) w4" and o4: "off_of w4 = 0" using w4 True by simp_all
          have rest4: "drop chunk payload = take (length (drop chunk payload)) (drop (4096 * Suc p + off_of w4) img)"
              proof -
            have "4096 * p + (off_of w + chunk) = 4096 * Suc p + off_of w4" using o(2) o4 by simp
            then show ?thesis using rest by (simp only:)
          qed
          have "case store_payload env (i + 2) (drop chunk payload) w4 of (ok, w') \<Rightarrow> kept_view b c w' = kept_view b c w4 \<and>
            (\<exists>p'. quiet_session b c img p' w' \<and> (ok \<longrightarrow> off_of w' < 4096 \<and>
              4096 * p' + off_of w' = 4096 * Suc p + off_of w4 + length (drop chunk payload)))"
            by (rule less(1) [OF shorter q4 env _ _ rest4]) (use o fits n o4 in simp_all)
          moreover have "4096 * Suc p + off_of w4 + length (drop chunk payload) = 4096 * p + off_of w + length payload"
            using o(2) n(2) by (simp add: o4)
          ultimately show ?thesis unfolding run using True w4(1) k3 by (auto split: prod.splits)
        next
          case False
          then show ?thesis unfolding run using w4 k3 by auto
        qed
      qed
    qed
  qed
qed

end
