(* ===== verification/ReceiverOtaReports.thy ===== *)
theory ReceiverOtaReports
  imports ReceiverOtaHandler
begin

text \<open>The reports of the host, one by one: each keeps the invariant of the update.\<close>

section \<open>The invariant of the update\<close>

definition bufs_ok :: "'f rcv_world \<Rightarrow> bool" where
  "bufs_ok w \<longleftrightarrow> length (rw_reqs w) = 2 \<and> (\<forall>r\<in>set (rw_reqs w). length (pw_data r) = 4096)"

definition joined_ok :: "'f rcv_world \<Rightarrow> bool" where
  "joined_ok w \<longleftrightarrow> \<not> rw_created w \<and> \<not> rw_stop w \<and> rw_writer w = WriterGone \<and> bufs_ok w"

definition idle :: "'f rcv_world \<Rightarrow> bool" where
  "idle w \<longleftrightarrow> joined_ok w \<and> ro_state (rw_ota w) \<in> {RCV_OTA_IDLE, RCV_OTA_ERROR}"

definition receiving :: "'f rcv_world \<Rightarrow> bool" where
  "receiving w \<longleftrightarrow> \<not> rw_stop w \<and> ro_state (rw_ota w) \<in> {RCV_OTA_READY, RCV_OTA_RECEIVING}"

text \<open>While data is received, the bytes counted are those in the full pages and in the buffer.\<close>

definition counts :: "bytes \<Rightarrow> nat \<Rightarrow> 'f rcv_world \<Rightarrow> bool" where
  "counts img p w \<longleftrightarrow> receiving w \<longrightarrow> off_of w < 4096 \<and> unat (ro_bytes_written (rw_ota w)) = 4096 * p + off_of w \<and>
     unat (ro_bytes_written (rw_ota w)) = min (60 * unat (ro_next_expected_seq (rw_ota w))) (length img)"

definition update_inv :: "rcv_build \<Rightarrow> ('f \<Rightarrow> nat \<Rightarrow> u8) \<Rightarrow> (nat \<Rightarrow> u8) \<Rightarrow> bytes \<Rightarrow> 'f rcv_world \<Rightarrow> bool" where
  "update_inv b c m img w \<longleftrightarrow> outside b c w = m \<and> bufs_ok w \<and>
     (idle w \<or> \<not> rb_open_dfu b \<and> (\<exists>p. session b c img p w \<and> counts img p w))"

lemma bufs_view: "handler_view w' = handler_view w \<Longrightarrow> bufs_ok w' = bufs_ok w"
  by (simp add: bufs_ok_def handler_view_def)

lemma quiet_bufs: "quiet_session b c img p w \<Longrightarrow> bufs_ok w"
  using in_flightI unfolding quiet_session_def in_flight_def pages_ok_def bufs_ok_def by blast

lemma receiving_quiet:
  assumes s: "session b c img p w" and r: "receiving w"
  shows "quiet_session b c img p w"
proof -
  have stop: "\<not> rw_stop w" and st: "ro_state (rw_ota w) \<in> {RCV_OTA_READY, RCV_OTA_RECEIVING}" using r by (simp_all add: receiving_def)
  have "pipe c img p w" using s stop by (simp add: session_def)
  then obtain pg sp where pp: "rw_queue w = map of_nat pg @ sp" "flying p (current (rw_writer w) @ pg)"
    "pages_ok img p (current (rw_writer w) @ pg) w" "filling img p w"
    "on_flash c img (p - length (current (rw_writer w) @ pg)) w" "phase img p sp w" by (rule pipe_parts)
  have "sp = []" "ro_error_code (rw_ota w) = 0" using pp(6) st unfolding phase_def by blast+
  moreover have "in_flight c img p pg w" using pp \<open>sp = []\<close> unfolding in_flight_def by simp
  ultimately show ?thesis using s stop in_flight_pending(3) by (simp add: quiet_session_def)
qed

text \<open>Fields that no part of the invariant looks at.\<close>

definition inv_view :: "'f rcv_world \<Rightarrow> rcv_ota \<times> page_write_req list \<times> bool list \<times> u8 list \<times> bool \<times> bool \<times> bool \<times> writer \<times> 'f" where
  "inv_view w = ((rw_ota w)\<lparr>ro_last_status_time := 0\<rparr>, rw_reqs w, rw_sems w, rw_queue w, rw_error w, rw_stop w, rw_created w,
     rw_writer w, rw_flash w)"

lemma inv_viewD:
  assumes "inv_view w' = inv_view w"
  shows "ota_view (rw_ota w') = ota_view (rw_ota w)" "world_view w' = world_view w" "outside b c w' = outside b c w"
    "ro_bytes_written (rw_ota w') = ro_bytes_written (rw_ota w)" "ro_next_expected_seq (rw_ota w') = ro_next_expected_seq (rw_ota w)"
proof -
  have o: "(rw_ota w')\<lparr>ro_last_status_time := 0\<rparr> = (rw_ota w)\<lparr>ro_last_status_time := 0\<rparr>" using assms by (simp add: inv_view_def)
  show "ota_view (rw_ota w') = ota_view (rw_ota w)" "ro_bytes_written (rw_ota w') = ro_bytes_written (rw_ota w)"
    "ro_next_expected_seq (rw_ota w') = ro_next_expected_seq (rw_ota w)"
    using arg_cong [OF o, of ota_view] arg_cong [OF o, of ro_bytes_written] arg_cong [OF o, of ro_next_expected_seq]
    by (simp_all add: ota_view_def)
  show "world_view w' = world_view w" using assms by (simp add: inv_view_def world_view_def)
  show "outside b c w' = outside b c w" using assms by (intro outside_flash) (simp add: inv_view_def)
qed

lemma update_inv_view:
  assumes "inv_view w' = inv_view w" and "update_inv b c m img w"
  shows "update_inv b c m img w'"
proof -
  note v = inv_viewD [OF assms(1)]
  have "session b c img p w'" if "session b c img p w" for p by (rule session_view [OF v(1,2) that])
  moreover have "counts img p w' = counts img p w" for p using v by (simp add: counts_def receiving_def ota_view_def world_view_def)
  moreover have "idle w' = idle w" "bufs_ok w' = bufs_ok w"
    using v by (simp_all add: idle_def joined_ok_def bufs_ok_def ota_view_def world_view_def)
  ultimately show ?thesis using assms(2) v(3) unfolding update_inv_def by metis
qed

lemma status_view: "inv_view (rcv_ota_send_status env t w) = inv_view w"
  by (simp add: inv_view_def rcv_ota_send_status_def on_ota_def Let_def)

lemma update_inv_status [simp]: "update_inv b c m img w \<Longrightarrow> update_inv b c m img (rcv_ota_send_status env t w)"
  by (rule update_inv_view [OF status_view])

text \<open>A failure of the handler, when the writer has no command to take.\<close>

lemma fail_inv:
  assumes "session b c img p w" "\<not> rw_stop w \<Longrightarrow> no_commands w" "outside b c w = m" "bufs_ok w" "\<not> rb_open_dfu b"
    and "code \<noteq> OTA_STATUS_VERIFY_OK"
  shows "update_inv b c m img (rcv_fail env t code w)"
proof -
  have "session b c img p (rcv_fail env t code w)" by (rule session_fail [OF assms(1,6,2)])
  moreover have "counts img p (rcv_fail env t code w)" by (simp add: counts_def receiving_def rcv_fail_def)
  moreover have "outside b c (rcv_fail env t code w) = m" using assms(3) by (simp add: rcv_fail_def outside_def cong: if_cong)
  ultimately show ?thesis using assms(4,5) bufs_view [OF fail_view] unfolding update_inv_def by blast
qed

lemma idle_fail: "joined_ok w \<Longrightarrow> outside b c w = m \<Longrightarrow> update_inv b c m img (rcv_fail env t code w)"
  using bufs_view [OF fail_view, of env t code w]
  by (simp add: update_inv_def idle_def joined_ok_def rcv_fail_def outside_def cong: if_cong)

section \<open>Stopping and starting the writer\<close>

lemma stop_session:
  assumes s: "session b c img p w" and env: "env_ok b c env" and bufs: "bufs_ok w"
  shows "case rcv_ota_stop_writer env i w of (joined, w') \<Rightarrow> outside b c w' = outside b c w \<and> bufs_ok w' \<and>
    (if joined then joined_ok w' else session b c img p w' \<and> rw_stop w')"
proof -
  define w1 where "w1 = w\<lparr>rw_stop := True, rw_queue :=
    (if length (rw_queue w) < 4 then rw_queue w @ [WRITER_CMD_SHUTDOWN] else rw_queue w)\<rparr>"
  define w2 where "w2 = rcv_wait env i w1"
  have "{cmd \<in> set (rw_queue w1). cmd \<le> 1} = {cmd \<in> set (rw_queue w). cmd \<le> 1}"
  proof -
    have "\<not> (WRITER_CMD_SHUTDOWN \<le> 1)" by (simp add: word_le_nat_alt)
    then show ?thesis unfolding w1_def by auto
  qed
  then have "pending_slots w1 = pending_slots w" unfolding pending_slots_def by (simp add: w1_def)
  moreover have "staging_ok b (rw_ota w1) (length img)" "rw_created w1" "rw_reqs w1 = rw_reqs w" "rw_stop w1"
    using s by (simp_all add: session_def w1_def)
  moreover have "verified c img w1" using s calculation(1) unfolding session_def verified_def by (simp add: w1_def)
  moreover have "copies b c img w1" using s by (simp add: session_def copies_def w1_def)
  ultimately have s1: "session b c img p w1" using s by (simp add: session_def)
  have s2: "session b c img p w2" unfolding w2_def by (rule wait_session [OF s1 env])
  have v: "handler_view w2 = handler_view w1" by (simp add: w2_def)
  have b2: "bufs_ok w2" "rw_stop w2" using bufs bufs_view [OF v] v by (simp_all add: bufs_ok_def w1_def handler_view_def)
  have o: "outside b c w2 = outside b c w"
    using wait_outside [OF s1 env, of i] outside_flash [of w1 w] by (simp add: w2_def w1_def)
  have created: "rw_created w" using s by (simp add: session_def)
  have run: "rcv_ota_stop_writer env i w = (if rw_writer w2 \<noteq> WriterGone then (False, w2)
     else (True, (if 0 < off_of w2 then on_ota (\<lambda>s. s\<lparr>ro_page_buf_offset := 0\<rparr>)
         (w2\<lparr>rw_sems := (rw_sems w2)[ro_next_write_slot (rw_ota w2) := True]\<rparr>) else w2)\<lparr>rw_created := False, rw_stop := False\<rparr>))"
    using created unfolding rcv_ota_stop_writer_def Let_def w1_def [symmetric] w2_def [symmetric] by simp
  show ?thesis
    unfolding run using b2 o s2 by (simp add: joined_ok_def bufs_ok_def outside_def cong: if_cong)
qed

lemma start_session:
  assumes b: "build_ok b" "begin_error b (parse_begin z d) = None" and bufs: "bufs_ok w"
    and len: "length img = unat (br_image_size (parse_begin z d))"
    and w': "w' = rcv_ota_start_writer (w\<lparr>rw_ota := new_session b (parse_begin z d), rw_settings := None\<rparr>)"
  shows "session b c img 0 w' \<and> counts img 0 w' \<and> bufs_ok w' \<and> outside b c w' = outside b c w"
proof -
  have ota: "rw_ota w' = new_session b (parse_begin z d)" by (simp add: w' rcv_ota_start_writer_def)
  have f: "ro_state (rw_ota w') = RCV_OTA_READY" "ro_error_code (rw_ota w') = 0" "off_of w' = 0" "ro_next_write_slot (rw_ota w') = 0"
    "ro_page_buf_flash_addr (rw_ota w') = ro_staging_base (rw_ota w')" "ro_bytes_written (rw_ota w') = 0"
    "ro_next_expected_seq (rw_ota w') = 0"
    by (simp_all add: ota new_session_def Let_def zero_rcv_ota_def)
  have lay: "staging_ok b (rw_ota w') (length img)" unfolding ota len by (rule begin_layout [OF b])
  have same: "rw_reqs w' = rw_reqs w" "rw_sems w' = [True, True]" "rw_queue w' = []" "rw_stop w' = False" "rw_created w'"
    "rw_writer w' = WriterLoop" "rw_flash w' = rw_flash w" by (simp_all add: w' rcv_ota_start_writer_def)
  have pos: "0 < length img" using lay by (simp add: staging_ok_def)
  have "pages_ok img 0 [] w'" using bufs by (auto simp: pages_ok_def same f bufs_ok_def less_2_cases_iff)
  moreover have "filling img 0 w'" using pos by (simp add: filling_def f)
  moreover have "flying 0 []" by (simp add: flying_def)
  moreover have "on_flash c img 0 w'" by (simp add: on_flash_def same)
  moreover have "phase img 0 [] w'" by (simp add: phase_def f)
  ultimately have "pipe c img 0 w'" by (intro pipe_compose [of _ "[]" "[]"]) (simp_all add: same)
  moreover have "pending_slots w' = {}" by (simp add: pending_slots_def same)
  ultimately have "session b c img 0 w'" using lay by (simp add: session_def same verified_def f copies_def)
  moreover have "outside b c w' = outside b c w" by (rule outside_flash) (simp add: same)
  ultimately show ?thesis using bufs pos by (simp add: counts_def f bufs_ok_def same)
qed

lemma stop_inv:
  assumes inv: "update_inv b c m img w" and env: "env_ok b c env"
  shows "case rcv_ota_stop_writer env i w of (joined, w') \<Rightarrow> outside b c w' = m \<and> bufs_ok w' \<and>
    (if joined then joined_ok w' else update_inv b c m img w')"
proof (cases "rw_created w")
  case False
  then have "idle w" using inv by (auto simp: update_inv_def session_def)
  then show ?thesis using inv False by (simp add: rcv_ota_stop_writer_def idle_def update_inv_def)
next
  case True
  then obtain p where s: "session b c img p w" "\<not> rb_open_dfu b" "bufs_ok w" "outside b c w = m"
    using inv by (auto simp: update_inv_def idle_def joined_ok_def)
  have "update_inv b c m img w'" if "session b c img p w'" "rw_stop w'" "bufs_ok w'" "outside b c w' = m" for w'
    using that s(2) unfolding update_inv_def counts_def receiving_def by blast
  then show ?thesis using stop_session [OF s(1) env s(3), of i] s(4) by (auto split: prod.splits if_splits)
qed

lemma begin_inv:
  assumes inv: "update_inv b c m img w" and env: "env_ok b c env" and b: "build_ok b"
    and len: "64 \<le> length d \<Longrightarrow> length img' = unat (br_image_size (parse_begin (rv_zephyr env) d))"
    and keep: "img' = img \<or> 64 \<le> length d"
  shows "update_inv b c m img (rcv_ota_handle_begin env d w) \<or> update_inv b c m img' (rcv_ota_handle_begin env d w)"
proof -
  have build: "rv_build env = b" using env by (simp add: env_ok_def)
  define now where "now = rv_clock env 1"
  show ?thesis
  proof (cases "length d < 64")
    case True
    then show ?thesis using inv by (simp add: rcv_ota_handle_begin_def)
  next
    case long: False
    obtain joined w1 where stop: "rcv_ota_stop_writer env 0 w = (joined, w1)" by fastforce
    have w1: "outside b c w1 = m" "bufs_ok w1" "joined \<Longrightarrow> joined_ok w1" "\<not> joined \<Longrightarrow> update_inv b c m img w1"
      using stop_inv [OF inv env, of 0] stop by simp_all
    define r where "r = parse_begin (rv_zephyr env) d"
    define w2 where "w2 = rcv_ota_start_writer (w1\<lparr>rw_ota := new_session b r, rw_settings := None\<rparr>)"
    have run: "rcv_ota_handle_begin env d w = (if rb_open_dfu b then rcv_fail env now OTA_STATUS_ERROR w
       else if ro_state (rw_ota w) \<noteq> RCV_OTA_IDLE \<and> ro_state (rw_ota w) \<noteq> RCV_OTA_ERROR \<and>
          ro_state (rw_ota w) \<noteq> RCV_OTA_COMPLETE \<and> \<not> rw_stop w then rcv_ota_send_status env now w
       else if \<not> joined then rcv_ota_send_status env now w1
       else case begin_error b r of Some code \<Rightarrow> rcv_fail env now code w1 | None \<Rightarrow> rcv_ota_send_status env now w2)"
      unfolding rcv_ota_handle_begin_def Let_def build stop prod.case now_def r_def w2_def using long by (simp only: if_False)
    have dfu: "update_inv b c m img (rcv_fail env now OTA_STATUS_ERROR w)" if "rb_open_dfu b"
      using inv that by (intro idle_fail) (auto simp: update_inv_def idle_def)
    have started: "update_inv b c m img' w2" if "begin_error b r = None" "\<not> rb_open_dfu b"
      using start_session [OF b that(1) [unfolded r_def] w1(2) len, of w2 c] long that(2) w1(1)
      unfolding w2_def r_def update_inv_def by auto
    show ?thesis
      unfolding run using dfu inv w1 started
      by (simp add: idle_fail split: option.split)
  qed
qed

lemma abort_inv:
  assumes inv: "update_inv b c m img w" and env: "env_ok b c env"
  shows "update_inv b c m img (rcv_ota_handle_abort env w)"
proof -
  obtain joined w1 where stop: "rcv_ota_stop_writer env 0 w = (joined, w1)" by fastforce
  have w1: "outside b c w1 = m" "bufs_ok w1" "joined \<Longrightarrow> joined_ok w1" "\<not> joined \<Longrightarrow> update_inv b c m img w1"
    using stop_inv [OF inv env, of 0] stop by simp_all
  have "update_inv b c m img (w1\<lparr>rw_ota := zero_rcv_ota, rw_settings := None\<rparr>)" if joined
    using w1(1-3) that by (simp add: update_inv_def idle_def joined_ok_def bufs_ok_def zero_rcv_ota_def outside_def cong: if_cong)
  then show ?thesis using w1(4) by (simp add: rcv_ota_handle_abort_def stop)
qed

end
