(* ===== verification/ReceiverOtaRun.thy ===== *)
theory ReceiverOtaRun
  imports ReceiverOtaReports
begin

text \<open>Data, verification and activation, all reports, and whole runs of the two threads.\<close>

section \<open>Data\<close>

lemma state_session:
  assumes q: "quiet_session b c img p w"
  shows "quiet_session b c img p (on_ota (\<lambda>s. s\<lparr>ro_state := st\<rparr>) w)"
proof -
  define w' where "w' = on_ota (\<lambda>s. s\<lparr>ro_state := st\<rparr>) w"
  have s: "session b c img p w" "\<not> rw_stop w" "no_commands w" "ro_error_code (rw_ota w) = 0" using q by (simp_all add: quiet_session_def)
  obtain pg where f: "in_flight c img p pg w" using in_flightI [OF s(1-3)] ..
  have same: "pages_ok img p fl w' = pages_ok img p fl w" "filling img p w' = filling img p w" "on_flash c img n w' = on_flash c img n w"
    "phase img p [] w'" for fl n using s(4) by (simp_all add: w'_def pages_ok_def filling_def on_flash_def phase_def)
  have "in_flight c img p pg w'" using f unfolding in_flight_def same(1-3) using same(4) by (simp add: w'_def)
  then have "pipe c img p w'" by (rule in_flight_pipe)
  moreover have "pending_slots w' = pending_slots w" by (simp add: pending_slots_def w'_def)
  ultimately have "session b c img p w'"
    using s unfolding session_def staging_ok_def verified_def copies_def by (simp add: w'_def)
  then show ?thesis using s by (simp add: quiet_session_def w'_def no_commands_def)
qed

text \<open>A data report of an image: the bytes that its number says.\<close>

definition honest_data :: "zephyr \<Rightarrow> bytes \<Rightarrow> bytes \<Rightarrow> bool" where
  "honest_data z img d \<longleftrightarrow>
     (let n = 60 * unat (get_be16 z (d ! 2) (d ! 3)) in take (min 60 (length img - n)) (drop 4 d) = take 60 (drop n img))"

lemma quiet_fail:
  assumes "quiet_session b c img p w" "outside b c w = m" "\<not> rb_open_dfu b" "code \<noteq> OTA_STATUS_VERIFY_OK"
  shows "update_inv b c m img (rcv_fail env t code w)"
  using fail_inv [of b c img p w m code env t] quiet_bufs [OF assms(1)] assms by (simp add: quiet_session_def)

lemma data_inv:
  assumes inv: "update_inv b c m img w" and env: "env_ok b c env" and stop: "\<not> rw_stop w"
    and hon: "receiving w \<Longrightarrow> get_be16 (rv_zephyr env) (d ! 2) (d ! 3) = ro_next_expected_seq (rw_ota w) \<Longrightarrow>
      60 * unat (get_be16 (rv_zephyr env) (d ! 2) (d ! 3)) < length img \<Longrightarrow>
      min 60 (length img - 60 * unat (get_be16 (rv_zephyr env) (d ! 2) (d ! 3))) \<le> length d - 4 \<Longrightarrow> honest_data (rv_zephyr env) img d"
  shows "update_inv b c m img (rcv_ota_handle_data env d w)"
proof (cases "receiving w")
  case False
  then have "rcv_ota_handle_data env d w = w" using stop by (simp add: rcv_ota_handle_data_def receiving_def Let_def)
  then show ?thesis using inv by simp
next
  case rc: True
  then obtain p where s: "session b c img p w" "counts img p w" "\<not> rb_open_dfu b" "outside b c w = m"
    using inv by (auto simp: update_inv_def idle_def receiving_def)
  have q: "quiet_session b c img p w" by (rule receiving_quiet [OF s(1) rc])
  have lay: "unat (ro_image_size (rw_ota w)) = length img" "length img \<le> 0x80000" using s(1) by (simp_all add: session_def staging_ok_def)
  define z where "z = rv_zephyr env"
  define now where "now = rv_clock env 1"
  define seq where "seq = get_be16 z (d ! 2) (d ! 3)"
  define n where "n = min 60 (length img - unat seq * 60)"
  define payload where "payload = take n (drop 4 d)"
  define w1 where "w1 = on_ota (\<lambda>s. s\<lparr>ro_state := RCV_OTA_RECEIVING\<rparr>) w"
  obtain ok w2 where st: "store_payload env 0 payload w1 = (ok, w2)" by fastforce
  define w3 where "w3 = on_ota (\<lambda>s. s\<lparr>ro_bytes_written := ro_bytes_written s + of_nat n, ro_next_expected_seq := seq + 1\<rparr>) w2"
  have run: "rcv_ota_handle_data env d w =
    (if rw_error w then rcv_fail env now OTA_STATUS_FLASH_ERROR w
     else if length d < 4 then w
     else if length img \<le> unat seq * 60 then w
     else if seq < ro_next_expected_seq (rw_ota w) then w
     else if seq \<noteq> ro_next_expected_seq (rw_ota w) then rcv_fail env now OTA_STATUS_SEQ_ERROR w
     else if length d - 4 < n then w
     else if ro_bytes_written (rw_ota w) = 0 \<and> 4 \<le> n \<and>
       get_le32 z (payload ! 0) (payload ! 1) (payload ! 2) (payload ! 3) = MCUBOOT_MAGIC then rcv_fail env now OTA_STATUS_VERIFY_FAIL w1
     else if \<not> ok then rcv_fail env now OTA_STATUS_FLASH_ERROR w2
     else if 20 \<le> rv_clock env 0 - ro_last_status_time (rw_ota w3) then rcv_ota_send_status env now w3 else w3)"
  proof -
    have r: "\<not> (ro_state (rw_ota w) \<noteq> RCV_OTA_READY \<and> ro_state (rw_ota w) \<noteq> RCV_OTA_RECEIVING)" using rc by (simp add: receiving_def)
    show ?thesis
      unfolding rcv_ota_handle_data_def Let_def z_def [symmetric] seq_def [symmetric] lay(1) n_def [symmetric] payload_def [symmetric]
        w1_def [symmetric] now_def [symmetric] st prod.case w3_def [symmetric] using r by (simp only: if_False)
  qed
  have q1: "quiet_session b c img p w1" unfolding w1_def by (rule state_session [OF q])
  have o1: "outside b c w1 = m" using s(4) outside_flash [of w1 w b c] by (simp add: w1_def)
  define stored where "stored = (if \<not> ok then rcv_fail env now OTA_STATUS_FLASH_ERROR w2
     else if 20 \<le> rv_clock env 0 - ro_last_status_time (rw_ota w3) then rcv_ota_send_status env now w3 else w3)"
  have store: "update_inv b c m img stored"
    if a: "\<not> length img \<le> unat seq * 60" "seq = ro_next_expected_seq (rw_ota w)" "\<not> length d - 4 < n" "\<not> length d < 4"
  proof -
    have cnt: "off_of w < 4096" "unat (ro_bytes_written (rw_ota w)) = 4096 * p + off_of w" "4096 * p + off_of w = 60 * unat seq"
      using s(2) rc a(1,2) by (simp_all add: counts_def)
    have len: "length payload = n" using a(3,4) by (simp add: payload_def)
    have "honest_data z img d"
      unfolding z_def
    proof (rule hon [OF rc]; unfold z_def [symmetric] seq_def [symmetric])
      show "seq = ro_next_expected_seq (rw_ota w)" by (rule a(2))
      show "60 * unat seq < length img" using a(1) by simp
      show "min 60 (length img - 60 * unat seq) \<le> length d - 4" using a(3) by (simp only: n_def mult.commute [of 60] not_less)
    qed
    then have "payload = take 60 (drop (60 * unat seq) img)"
      unfolding honest_data_def Let_def payload_def n_def z_def [symmetric] seq_def [symmetric] by (simp only: mult.commute)
    moreover have "take 60 (drop (60 * unat seq) img) = take n (drop (60 * unat seq) img)"
      unfolding n_def by (simp add: mult.commute min_def)
    moreover have "off_of w1 = off_of w" by (simp add: w1_def)
    ultimately have "payload = take n (drop (4096 * p + off_of w1) img)" by (simp only: cnt(3))
    then have pl: "payload = take (length payload) (drop (4096 * p + off_of w1) img)" unfolding len .
    have fits: "4096 * p + off_of w1 + length payload \<le> length img" using a(1) by (simp add: w1_def cnt(3) len n_def)
    have "off_of w1 < 4096" using cnt(1) by (simp add: w1_def)
    from store_session [OF q1 env this fits pl, of 0]
    obtain p' where k: "kept_view b c w2 = kept_view b c w1" and q2: "quiet_session b c img p' w2"
      and cnt': "ok \<Longrightarrow> off_of w2 < 4096 \<and> 4096 * p' + off_of w2 = 4096 * p + off_of w1 + length payload"
      unfolding st prod.case by blast
    have o2: "outside b c w2 = m" using k o1 by (simp add: kept_view_def)
    show ?thesis
    proof (cases ok)
      case False
      then show ?thesis using quiet_fail [OF q2 o2 s(3)] by (simp add: stored_def)
    next
      case True
      have inv3: "update_inv b c m img w3"
      proof -
        have small: "60 * unat seq < 0x80000" using a(1) lay(2) by simp
        have "session b c img p' w3"
          by (rule session_view [of _ w2]) (use q2 in \<open>simp_all add: w3_def ota_view_def world_view_def quiet_session_def\<close>)
        moreover have "counts img p' w3"
        proof -
          have b2: "unat (ro_bytes_written (rw_ota w2)) = 60 * unat seq" using k cnt by (simp add: kept_view_def w1_def)
          have "n \<le> 60" by (simp add: n_def)
          then have "unat (ro_bytes_written (rw_ota w2) + of_nat n) = 60 * unat seq + n"
            using small b2 by (subst unat_add_lem [THEN iffD1]) (simp_all add: unat_of_nat)
          then have "unat (ro_bytes_written (rw_ota w3)) = 60 * unat seq + n" by (simp add: w3_def)
          moreover have "unat (seq + 1) = unat seq + 1" using small by (subst unat_add_lem [THEN iffD1]) simp_all
          then have "unat (ro_next_expected_seq (rw_ota w3)) = unat seq + 1" by (simp add: w3_def)
          moreover have "off_of w3 = off_of w2" by (simp add: w3_def)
          moreover have "60 * unat seq + min 60 (length img - unat seq * 60) = min (60 + 60 * unat seq) (length img)"
            using a(1) by linarith
          ultimately show ?thesis using cnt' [OF True] cnt(3) len by (simp add: counts_def n_def w1_def)
        qed
        moreover have "outside b c w3 = m" using o2 outside_flash [of w3 w2 b c] by (simp add: w3_def)
        moreover have "bufs_ok w3" using quiet_bufs [OF q2] by (simp add: bufs_ok_def w3_def)
        ultimately show ?thesis using s(3) unfolding update_inv_def by blast
      qed
      then show ?thesis using True by (simp add: stored_def)
    qed
  qed
  have f: "update_inv b c m img (rcv_fail env now code w)" "update_inv b c m img (rcv_fail env now code w1)"
    if "code \<noteq> OTA_STATUS_VERIFY_OK" for code
    using quiet_fail [OF q s(4,3) that] quiet_fail [OF q1 o1 s(3) that] by blast+
  show ?thesis
    unfolding run stored_def [symmetric] using inv store f by (simp split: if_split)
qed

section \<open>Commands to the writer\<close>

lemma append_command:
  assumes s: "session b c img p w" and stop: "\<not> rw_stop w" and quiet: "no_commands w"
    and ph: "phase img p [cmd] w" and cmd: "cmd = WRITER_CMD_VERIFY \<or> cmd = WRITER_CMD_ACTIVATE"
  shows "session b c img p (w\<lparr>rw_queue := rw_queue w @ [cmd]\<rparr>)"
proof -
  define w' where "w' = w\<lparr>rw_queue := rw_queue w @ [cmd]\<rparr>"
  obtain pg where f: "in_flight c img p pg w" using in_flightI [OF s stop quiet] ..
  have same: "pages_ok img p fl w' = pages_ok img p fl w" "filling img p w' = filling img p w" "on_flash c img n w' = on_flash c img n w"
    "phase img p sp w' = phase img p sp w" "rw_writer w' = rw_writer w" for fl n sp
    by (simp_all add: w'_def pages_ok_def filling_def on_flash_def phase_def)
  have "rw_queue w' = map of_nat pg @ [cmd]" using f by (simp add: in_flight_def w'_def)
  then have "pipe c img p w'"
    using f ph unfolding in_flight_def by (intro pipe_compose [of _ pg "[cmd]"]) (simp_all only: same)
  moreover have "pending_slots w' = pending_slots w"
  proof -
    have "\<not> (cmd \<le> 1)" using cmd by (elim disjE) (simp_all add: word_le_nat_alt)
    then have "{x \<in> set (rw_queue w'). x \<le> 1} = {x \<in> set (rw_queue w). x \<le> 1}" unfolding w'_def by auto
    then show ?thesis unfolding pending_slots_def same by simp
  qed
  ultimately have "session b c img p w'"
    using s unfolding session_def verified_def copies_def by (simp add: w'_def)
  then show ?thesis by (simp add: w'_def)
qed

lemma quiet_room:
  assumes "session b c img p w" "\<not> rw_stop w" "no_commands w"
  shows "length (rw_queue w) \<le> 2"
  using in_flightI [OF assms] in_flight_pending(2) by blast

lemma put_command:
  assumes s: "session b c img p w" and stop: "\<not> rw_stop w" and quiet: "no_commands w" and env: "env_ok b c env"
    and ph: "phase img p [cmd] w" and cmd: "cmd = WRITER_CMD_VERIFY \<or> cmd = WRITER_CMD_ACTIVATE"
  shows "case writer_put env i cmd w of (ok, w') \<Rightarrow> ok \<and> session b c img p w' \<and> outside b c w' = outside b c w \<and>
    rw_reqs w' = rw_reqs w \<and> rw_ota w' = rw_ota w"
proof -
  define w1 where "w1 = rcv_wait env i w"
  have v: "handler_view w1 = handler_view w" by (simp add: w1_def)
  have q1: "rw_ota w1 = rw_ota w" "no_commands w1" using wait_quiet [OF quiet, of env i] by (simp_all add: w1_def)
  have s1: "session b c img p w1" unfolding w1_def by (rule wait_session [OF s env])
  have r: "rw_reqs w1 = rw_reqs w" "\<not> rw_stop w1" using v stop by (simp_all add: handler_view_def)
  have "phase img p [cmd] w1" using ph by (simp add: phase_def q1(1))
  from append_command [OF s1 r(2) q1(2) this cmd] have s2: "session b c img p (w1\<lparr>rw_queue := rw_queue w1 @ [cmd]\<rparr>)" .
  have "writer_put env i cmd w = (True, w1\<lparr>rw_queue := rw_queue w1 @ [cmd]\<rparr>)"
    using quiet_room [OF s1 r(2) q1(2)] by (simp add: writer_put_def Let_def w1_def [symmetric])
  moreover have "outside b c (w1\<lparr>rw_queue := rw_queue w1 @ [cmd]\<rparr>) = outside b c w"
    using wait_outside [OF s env, of i] by (simp add: w1_def outside_def cong: if_cong)
  ultimately show ?thesis using s2 q1 r by simp
qed

lemma verify_inv:
  assumes inv: "update_inv b c m img w" and env: "env_ok b c env" and stop: "\<not> rw_stop w"
  shows "update_inv b c m img (rcv_ota_handle_verify env w)"
proof (cases "receiving w")
  case False
  then have "rcv_ota_handle_verify env w = rcv_ota_send_status env (rv_clock env 1) w"
    using stop by (simp add: rcv_ota_handle_verify_def receiving_def Let_def)
  then show ?thesis using inv by simp
next
  case rc: True
  then obtain p where s: "session b c img p w" "counts img p w" "\<not> rb_open_dfu b" "outside b c w = m"
    using inv by (auto simp: update_inv_def idle_def receiving_def)
  have q: "quiet_session b c img p w" by (rule receiving_quiet [OF s(1) rc])
  have size: "unat (ro_image_size (rw_ota w)) = length img" using s(1) by (simp add: session_def staging_ok_def)
  define now where "now = rv_clock env 1"
  define w1 where "w1 = on_ota (\<lambda>s. s\<lparr>ro_state := RCV_OTA_VERIFYING\<rparr>) w"
  obtain flushed w2 where fl: "(if 0 < off_of w then rcv_ota_flush_page_buf env 0 w1 else (True, w1)) = (flushed, w2)" by fastforce
  obtain sent w3 where pt: "writer_put env 1 WRITER_CMD_VERIFY w2 = (sent, w3)" by fastforce
  have run: "rcv_ota_handle_verify env w =
    (if ro_bytes_written (rw_ota w) \<noteq> ro_image_size (rw_ota w) then rcv_fail env now OTA_STATUS_SEQ_ERROR w
     else if \<not> flushed then rcv_fail env now OTA_STATUS_FLASH_ERROR w2
     else if \<not> sent then rcv_fail env now OTA_STATUS_ERROR w3 else w3)"
  proof -
    have r: "\<not> (ro_state (rw_ota w) \<noteq> RCV_OTA_RECEIVING \<and> ro_state (rw_ota w) \<noteq> RCV_OTA_READY)" using rc by (auto simp: receiving_def)
    show ?thesis
      unfolding rcv_ota_handle_verify_def Let_def w1_def [symmetric] now_def [symmetric] fl prod.case pt using r by (simp only: if_False)
  qed
  show ?thesis
  proof (cases "ro_bytes_written (rw_ota w) = ro_image_size (rw_ota w)")
    case False
    then show ?thesis unfolding run using quiet_fail [OF q s(4,3)] by simp
  next
    case True
    have q1: "quiet_session b c img p w1" unfolding w1_def by (rule state_session [OF q])
    have all: "4096 * p + off_of w1 = length img" "off_of w1 = off_of w" using s(2) rc True size by (simp_all add: counts_def w1_def)
    have st1: "ro_state (rw_ota w1) = RCV_OTA_VERIFYING" by (simp add: w1_def)
    have o1: "outside b c w1 = m" using s(4) outside_flash [of w1 w b c] by (simp add: w1_def)
    have "\<exists>p'. quiet_session b c img p' w2 \<and> outside b c w2 = m \<and>
      (flushed \<longrightarrow> off_of w2 = 0 \<and> length img \<le> 4096 * p' \<and> ro_state (rw_ota w2) = RCV_OTA_VERIFYING)"
    proof (cases "0 < off_of w")
      case True
      have f: "rcv_ota_flush_page_buf env 0 w1 = (flushed, w2)" using fl True by simp
      have "kept_view b c w2 = kept_view b c w1 \<and> quiet_session b c img (if flushed then Suc p else p) w2 \<and> (flushed \<longrightarrow> off_of w2 = 0)"
        using flush_session [OF q1 env, of 0] True all f by simp
      moreover have "length img \<le> 4096 * Suc p" using all s(2) rc by (simp add: counts_def)
      ultimately show ?thesis
        using o1 st1 by (intro exI [of _ "if flushed then Suc p else p"]) (simp add: kept_view_def)
    next
      case False
      then show ?thesis using fl q1 o1 all st1 by (intro exI [of _ p]) simp
    qed
    then obtain p' where q2: "quiet_session b c img p' w2" and o2: "outside b c w2 = m"
      and full: "flushed \<Longrightarrow> off_of w2 = 0 \<and> length img \<le> 4096 * p' \<and> ro_state (rw_ota w2) = RCV_OTA_VERIFYING" by blast
    show ?thesis
    proof (cases flushed)
      case False
      then show ?thesis unfolding run using True quiet_fail [OF q2 o2 s(3)] by simp
    next
      case fl: True
      have s2: "session b c img p' w2" "\<not> rw_stop w2" "no_commands w2" "ro_error_code (rw_ota w2) = 0"
        using q2 by (simp_all add: quiet_session_def)
      have "phase img p' [WRITER_CMD_VERIFY] w2" using full [OF fl] s2(4) by (simp add: phase_def)
      from put_command [OF s2(1-3) env this, of 1]
      have s3: "sent" "session b c img p' w3" "outside b c w3 = m" "rw_reqs w3 = rw_reqs w2" "rw_ota w3 = rw_ota w2"
        unfolding pt using o2 by simp_all
      have "bufs_ok w3" using quiet_bufs [OF q2] by (simp add: bufs_ok_def s3)
      moreover have "counts img p' w3" using full [OF fl] by (simp add: counts_def receiving_def s3)
      ultimately have "update_inv b c m img w3" using s3 s(3) unfolding update_inv_def by blast
      then show ?thesis unfolding run using True fl s3 by simp
    qed
  qed
qed

lemma activate_inv:
  assumes inv: "update_inv b c m img w" and env: "env_ok b c env" and stop: "\<not> rw_stop w"
  shows "update_inv b c m img (rcv_ota_handle_activate env w)"
proof (cases "ro_state (rw_ota w) = RCV_OTA_VERIFYING \<and> ro_error_code (rw_ota w) = OTA_STATUS_VERIFY_OK")
  case False
  then show ?thesis using inv by (auto simp: rcv_ota_handle_activate_def Let_def)
next
  case ok: True
  then obtain p where s: "session b c img p w" "\<not> rb_open_dfu b" "outside b c w = m" "bufs_ok w"
    using inv by (auto simp: update_inv_def idle_def)
  have "pipe c img p w" using s stop by (simp add: session_def)
  then obtain pg sp where pp: "rw_queue w = map of_nat pg @ sp" "flying p (current (rw_writer w) @ pg)"
    "pages_ok img p (current (rw_writer w) @ pg) w" "filling img p w"
    "on_flash c img (p - length (current (rw_writer w) @ pg)) w" "phase img p sp w" by (rule pipe_parts)
  have "sp = []" using pp(6) ok unfolding phase_def by (elim conjE insertE emptyE) simp_all
  then have f: "in_flight c img p pg w" using pp unfolding in_flight_def by simp
  have quiet: "no_commands w" by (rule in_flight_pending(3) [OF f])
  define w1 where "w1 = on_ota (\<lambda>s. s\<lparr>ro_state := RCV_OTA_ACTIVATE_PENDING\<rparr>) w"
  have same: "pages_ok img p fl w1 = pages_ok img p fl w" "filling img p w1 = filling img p w" "on_flash c img n w1 = on_flash c img n w"
    "rw_writer w1 = rw_writer w" "rw_queue w1 = rw_queue w" for fl n
    by (simp_all add: w1_def pages_ok_def filling_def on_flash_def)
  have "phase img p [] w1" by (simp add: phase_def w1_def)
  then have "in_flight c img p pg w1" using f unfolding in_flight_def same by blast
  then have "pipe c img p w1" by (rule in_flight_pipe)
  moreover have "pending_slots w1 = pending_slots w" by (simp add: pending_slots_def w1_def)
  ultimately have s1: "session b c img p w1"
    using s unfolding session_def staging_ok_def verified_def copies_def by (simp add: w1_def)
  have quiet1: "\<not> rw_stop w1" "no_commands w1" using stop quiet by (simp_all add: no_commands_def w1_def)
  have ph: "phase img p [WRITER_CMD_ACTIVATE] w1" using ok by (simp add: phase_def w1_def)
  obtain sent w2 where pt: "writer_put env 0 WRITER_CMD_ACTIVATE w1 = (sent, w2)" by fastforce
  have s2: "sent" "session b c img p w2" "outside b c w2 = outside b c w1" "rw_reqs w2 = rw_reqs w1" "rw_ota w2 = rw_ota w1"
    using put_command [OF s1 quiet1 env ph, of 0] unfolding pt by simp_all
  have "outside b c w1 = m" using s(3) outside_flash [of w1 w b c] by (simp add: w1_def)
  moreover have "bufs_ok w2" using s(4) by (simp add: bufs_ok_def s2 w1_def)
  moreover have "counts img p w2" by (simp add: counts_def receiving_def s2 w1_def)
  ultimately have "update_inv b c m img w2" using s2 s(2) unfolding update_inv_def by metis
  moreover have "rcv_ota_handle_activate env w = w2"
    using ok s2(1) unfolding rcv_ota_handle_activate_def Let_def w1_def [symmetric] pt prod.case by simp
  ultimately show ?thesis by simp
qed

section \<open>All reports\<close>

text \<open>The writer never goes back to a state in which data is received.\<close>

lemma writer_state:
  "ro_state (rw_ota (rcv_ota_writer_fn env t w)) \<in> {RCV_OTA_READY, RCV_OTA_RECEIVING} \<Longrightarrow>
   ro_state (rw_ota (rcv_ota_writer_fn env t w)) = ro_state (rw_ota w)"
  unfolding rcv_ota_writer_fn_def writer_command_def rcv_ota_do_verify_def rcv_ota_do_activate_def rcv_ota_activate_and_reset_def
    rcv_fail_def Let_def
  by (cases "rw_writer w"; cases "rw_queue w") (auto split: prod.splits option.splits if_splits)

text \<open>What a host says that sends one image only: the size when it begins, and the bytes of each piece.\<close>

definition honest :: "zephyr \<Rightarrow> bytes \<Rightarrow> bytes \<Rightarrow> bool" where
  "honest z img d \<longleftrightarrow> (if d ! 0 = HID_OTA_BEGIN then length img = unat (br_image_size (parse_begin z d))
     else if d ! 0 = HID_OTA_DATA then honest_data z img d else True)"

lemma view_esb: "inv_view (w\<lparr>rw_esb := e\<rparr>) = inv_view w" "inv_view (w\<lparr>rw_flash_dev := x\<rparr>) = inv_view w"
  "inv_view (w\<lparr>rw_out := r\<rparr>) = inv_view w"
  by (simp_all add: inv_view_def)

lemmas update_inv_esb = update_inv_view [OF view_esb(1)] update_inv_view [OF view_esb(2)] update_inv_view [OF view_esb(3)]

lemma radio_begin_inv:
  assumes inv: "update_inv b c m img w" and env: "env_ok b c env" and b: "build_ok b"
    and len: "64 \<le> length d \<Longrightarrow> length img' = unat (br_image_size (parse_begin (rv_zephyr env) d))"
    and keep: "img' = img \<or> 64 \<le> length d"
  shows "update_inv b c m img (receiver_ota_begin env d w) \<or> update_inv b c m img' (receiver_ota_begin env d w)"
proof -
  obtain err e where r: "(if \<not> receiver_ota_is_active w then esb_radio_operation_begin (rv_peers env) (rw_esb w) else (None, rw_esb w)) = (err, e)"
    by fastforce
  show ?thesis
  proof (cases "err = None")
    case False
    then have "receiver_ota_begin env d w = rcv_ota_send_status env (rv_clock env 1) (w\<lparr>rw_esb := e\<rparr>)"
      unfolding receiver_ota_begin_def Let_def r by simp
    then show ?thesis using update_inv_esb(1) [OF inv] by simp
  next
    case True
    define w1 where "w1 = rcv_ota_handle_begin env d (w\<lparr>rw_esb := esb_auto_loss_invalidate e\<rparr>)"
    have "receiver_ota_begin env d w = (if \<not> receiver_ota_is_active w then w1\<lparr>rw_esb := esb_radio_operation_end (rw_esb w1)\<rparr> else w1)"
      unfolding receiver_ota_begin_def Let_def r w1_def using True by simp
    moreover have "update_inv b c m img w1 \<or> update_inv b c m img' w1"
      unfolding w1_def by (rule begin_inv [OF update_inv_esb(1) [OF inv] env b len keep])
    ultimately show ?thesis by (metis update_inv_esb(1))
  qed
qed

lemma process_cases:
  assumes "update_inv b c m img w"
    and "d ! 0 = HID_OTA_BEGIN \<Longrightarrow> P (receiver_ota_begin env d (w\<lparr>rw_flash_dev := True\<rparr>))"
    and "d ! 0 = HID_OTA_DATA \<Longrightarrow> \<not> rw_stop w \<Longrightarrow> P (rcv_ota_handle_data env d (w\<lparr>rw_flash_dev := True\<rparr>))"
    and "\<not> rw_stop w \<Longrightarrow> P (rcv_ota_handle_verify env (w\<lparr>rw_flash_dev := True\<rparr>))"
    and "\<not> rw_stop w \<Longrightarrow> P (rcv_ota_handle_activate env (w\<lparr>rw_flash_dev := True\<rparr>))"
    and "P (rcv_ota_handle_abort env (w\<lparr>rw_flash_dev := True\<rparr>))"
    and "\<And>w'. update_inv b c m img w' \<Longrightarrow> P w'"
  shows "P (receiver_ota_process_hid env d w)"
proof -
  have inv: "update_inv b c m img (w\<lparr>rw_flash_dev := True\<rparr>)" by (rule update_inv_esb(2) [OF assms(1)])
  have info: "P (rcv_ota_send_fw_info env (w\<lparr>rw_flash_dev := True\<rparr>))"
    unfolding rcv_ota_send_fw_info_def by (intro assms(7) update_inv_esb(3) inv)
  have st: "P (rcv_ota_send_status env t (w\<lparr>rw_flash_dev := True\<rparr>))" for t by (rule assms(7) [OF update_inv_status [OF inv]])
  have stop: "rw_stop (w\<lparr>rw_flash_dev := True\<rparr>) = rw_stop w" by simp
  show ?thesis
    unfolding receiver_ota_process_hid_def Let_def stop
    using assms(2-6) info st assms(7) [OF inv] assms(7) [OF assms(1)] by (simp split: if_split)
qed

lemma process_inv:
  assumes inv: "update_inv b c m img w" and env: "env_ok b c env" and b: "build_ok b" and hon: "honest (rv_zephyr env) img d"
  shows "update_inv b c m img (receiver_ota_process_hid env d w)"
proof (rule process_cases [OF inv])
  note inv' = update_inv_esb(2) [OF inv, of True]
  show "update_inv b c m img (receiver_ota_begin env d (w\<lparr>rw_flash_dev := True\<rparr>))" if "d ! 0 = HID_OTA_BEGIN"
    using radio_begin_inv [OF inv' env b, of d img] hon that by (simp add: honest_def)
  show "update_inv b c m img (rcv_ota_handle_data env d (w\<lparr>rw_flash_dev := True\<rparr>))" if "d ! 0 = HID_OTA_DATA" "\<not> rw_stop w"
    by (rule data_inv [OF inv' env]) (use that hon in \<open>simp_all add: honest_def\<close>)
  show "update_inv b c m img (rcv_ota_handle_verify env (w\<lparr>rw_flash_dev := True\<rparr>))" if "\<not> rw_stop w"
    by (rule verify_inv [OF inv' env]) (simp add: that)
  show "update_inv b c m img (rcv_ota_handle_activate env (w\<lparr>rw_flash_dev := True\<rparr>))" if "\<not> rw_stop w"
    by (rule activate_inv [OF inv' env]) (simp add: that)
  show "update_inv b c m img (rcv_ota_handle_abort env (w\<lparr>rw_flash_dev := True\<rparr>))" by (rule abort_inv [OF inv' env])
qed

lemma writer_inv:
  assumes inv: "update_inv b c m img w" and env: "env_ok b c env"
  shows "update_inv b c m img (rcv_ota_writer_fn env t w)"
proof -
  have v: "handler_view (rcv_ota_writer_fn env t w) = handler_view w" by simp
  have "rcv_ota_writer_fn env t w = w" if "idle w" using that by (simp add: idle_def joined_ok_def rcv_ota_writer_fn_def)
  moreover have "session b c img p (rcv_ota_writer_fn env t w)" "outside b c (rcv_ota_writer_fn env t w) = outside b c w"
    "counts img p (rcv_ota_writer_fn env t w)" if "session b c img p w" "counts img p w" for p
  proof -
    show s': "session b c img p (rcv_ota_writer_fn env t w)" by (rule writer_step [OF that(1) env])
    show "outside b c (rcv_ota_writer_fn env t w) = outside b c w" by (rule writer_outside [OF that(1) env])
    show "counts img p (rcv_ota_writer_fn env t w)"
    proof (cases "receiving w")
      case True
      then have "no_commands w" using receiving_quiet [OF that(1)] by (simp add: quiet_session_def)
      from writer_quiet(1) [OF this] have o: "rw_ota (rcv_ota_writer_fn env t w) = rw_ota w" .
      have e: "rw_stop (rcv_ota_writer_fn env t w) = rw_stop w" using v by (simp add: handler_view_def)
      show ?thesis using that(2) unfolding counts_def receiving_def o e .
    next
      case False
      have e: "rw_stop (rcv_ota_writer_fn env t w) = rw_stop w" using v by (simp add: handler_view_def)
      have "\<not> receiving (rcv_ota_writer_fn env t w)" using False writer_state [of env t w] unfolding receiving_def e by metis
      then show ?thesis by (simp add: counts_def)
    qed
  qed
  ultimately show ?thesis
    using inv bufs_view [OF v] unfolding update_inv_def by metis
qed

end
