(* ===== verification/ReceiverOtaProps.thy ===== *)
theory ReceiverOtaProps
  imports ReceiverOtaRun
begin

text \<open>
  Runs of the update: reports and steps of the writer in any order. What a run leaves alone, and what the flash holds when the image
  of an honest host has been copied.
\<close>

section \<open>Runs\<close>

definition rcv_boot :: "'f rcv_world \<Rightarrow> bool" where
  "rcv_boot w \<longleftrightarrow> rw_ota w = zero_rcv_ota \<and> \<not> rw_created w \<and> \<not> rw_stop w \<and> rw_writer w = WriterGone \<and> bufs_ok w"

definition copying :: "'f rcv_world \<Rightarrow> bool" where
  "copying w \<longleftrightarrow> (case rw_writer w of WriterCopies _ \<Rightarrow> True | _ \<Rightarrow> False)"

text \<open>
  The copy runs with the interrupts off, so nothing is received any more; before it, each report meets an
  environment of its own.
\<close>

inductive rcv_run :: "('f rcv_env \<Rightarrow> bool) \<Rightarrow> (zephyr \<Rightarrow> bytes \<Rightarrow> bool) \<Rightarrow> 'f rcv_world \<Rightarrow> 'f rcv_world \<Rightarrow> bool"
  for envs says w0 where
  run_start: "rcv_run envs says w0 w0"
| run_report: "rcv_run envs says w0 w \<Longrightarrow> envs env \<Longrightarrow> says (rv_zephyr env) d \<Longrightarrow> \<not> copying w \<Longrightarrow>
    rcv_run envs says w0 (receiver_ota_process_hid env d w)"
| run_writer: "rcv_run envs says w0 w \<Longrightarrow> envs env \<Longrightarrow> rcv_run envs says w0 (rcv_ota_writer_fn env t w)"

lemma boot_inv: "rcv_boot w \<Longrightarrow> update_inv b c (outside b c w) img w"
  by (simp add: rcv_boot_def update_inv_def idle_def joined_ok_def zero_rcv_ota_def)

lemma honest_run:
  assumes b: "build_ok b" and boot: "rcv_boot w0" and run: "rcv_run (env_ok b c) (\<lambda>z. honest z img) w0 w"
  shows "update_inv b c (outside b c w0) img w"
  using run
proof induction
  case run_start
  then show ?case by (rule boot_inv [OF boot])
next
  case (run_report w env d)
  then show ?case by (intro process_inv [OF _ _ b])
next
  case (run_writer w env t)
  then show ?case by (intro writer_inv)
qed

section \<open>Any host\<close>

text \<open>While data is received, only the bytes already counted are fixed.\<close>

lemma retarget:
  assumes s: "session b c img p w" and rc: "receiving w" and idle: "\<not> copying w"
    and len: "length img' = length img" and same: "\<And>i. i < 4096 * p + off_of w \<Longrightarrow> img' ! i = img ! i"
  shows "session b c img' p w"
proof -
  have q: "\<not> rw_stop w" "no_commands w" "ro_error_code (rw_ota w) = 0"
    using receiving_quiet [OF s rc] by (simp_all add: quiet_session_def)
  obtain pg where f: "in_flight c img p pg w" using in_flightI [OF s q(1,2)] ..
  define fl where "fl = current (rw_writer w) @ pg"
  have ff: "rw_queue w = map of_nat pg" "flying p fl" "pages_ok img p fl w" "filling img p w" "on_flash c img (p - length fl) w"
    "phase img p [] w" using f unfolding in_flight_def fl_def by blast+
  have fits: "4096 * p + off_of w \<le> length img \<or> off_of w = 0 \<and> 4096 * p < length img + 4096" using ff(4) by (auto simp: filling_def)
  have part: "take n (drop k img') = take n (drop k img)" if "k + n \<le> 4096 * p + off_of w" for n k
    by (rule nth_equalityI) (use that same len in auto)
  have page: "page_of img' k = page_of img k" if "k < p" for k
    unfolding page_of_def by (rule part) (use that in simp)
  have "pages_ok img' p fl w" using ff(3) page unfolding pages_ok_def req_ok_def by simp
  moreover have "filling img' p w" using ff(4) part [of "4096 * p" "off_of w"] len by (simp add: filling_def)
  moreover have "on_flash c img' (p - length fl) w"
  proof -
    have rel: "p - length fl < p" if "rw_writer w = WriterRelease sl" for sl
      using ff(2) that by (simp add: fl_def flying_def)
    show ?thesis
      using ff(5) page rel same len unfolding on_flash_def by auto
  qed
  moreover have "phase img' p [] w" using ff(6) by (simp add: phase_def)
  ultimately have "in_flight c img' p pg w" using ff unfolding in_flight_def fl_def by blast
  then have "pipe c img' p w" by (rule in_flight_pipe)
  moreover have "verified c img' w" using q(3) by (simp add: verified_def)
  moreover have "copies b c img' w" using idle by (auto simp: copies_def copying_def)
  moreover have "staging_ok b (rw_ota w) (length img')" using s by (simp add: session_def len)
  ultimately show ?thesis using s by (simp add: session_def)
qed

lemma any_data:
  assumes inv: "update_inv b c m img w" and env: "env_ok b c env" and stop: "\<not> rw_stop w" and idle: "\<not> copying w"
  shows "\<exists>img'. update_inv b c m img' (rcv_ota_handle_data env d w)"
proof -
  define z where "z = rv_zephyr env"
  define N where "N = 60 * unat (get_be16 z (d ! 2) (d ! 3))"
  define n where "n = min 60 (length img - N)"
  show ?thesis
  proof (cases "receiving w \<and> get_be16 z (d ! 2) (d ! 3) = ro_next_expected_seq (rw_ota w) \<and> N < length img \<and> n \<le> length d - 4")
    case False
    have "update_inv b c m img (rcv_ota_handle_data env d w)"
      by (rule data_inv [OF inv env stop]) (use False in \<open>auto simp: z_def N_def n_def\<close>)
    then show ?thesis by blast
  next
    case a: True
    then obtain p where s: "session b c img p w" "counts img p w" "\<not> rb_open_dfu b" "outside b c w = m" "bufs_ok w"
      using inv by (auto simp: update_inv_def idle_def receiving_def)
    define img' where "img' = take N img @ take n (drop 4 d) @ drop (N + n) img"
    have N: "4096 * p + off_of w = N" 
    proof -
      have "unat (ro_bytes_written (rw_ota w)) = 4096 * p + off_of w"
        "unat (ro_bytes_written (rw_ota w)) = min (60 * unat (ro_next_expected_seq (rw_ota w))) (length img)"
        using s(2) a by (simp_all add: counts_def)
      moreover have "N = 60 * unat (ro_next_expected_seq (rw_ota w))" "N < length img" using a unfolding N_def by metis+
      ultimately show ?thesis by linarith
    qed
    have n: "N + n \<le> length img" using a unfolding n_def by linarith
    have len: "length img' = length img" using a n by (simp add: img'_def)
    have "session b c img' p w"
      by (rule retarget [OF s(1) _ idle len]) (use a N in \<open>auto simp: img'_def nth_append\<close>)
    moreover have "counts img' p w" using s(2) unfolding counts_def len .
    ultimately have inv': "update_inv b c m img' w" using s(3-5) unfolding update_inv_def by blast
    have "take 60 (drop N img') = take n (drop 4 d)"
    proof (cases "n = 60")
      case True
      then show ?thesis using a n by (simp add: img'_def)
    next
      case False
      then have "N + n = length img" using n by (simp add: n_def)
      then show ?thesis using a n by (simp add: img'_def n_def)
    qed
    then have "honest_data z img' d" unfolding honest_data_def Let_def N_def [symmetric] len n_def [symmetric] by simp
    then have "update_inv b c m img' (rcv_ota_handle_data env d w)"
      by (intro data_inv [OF inv' env stop]) (simp add: z_def)
    then show ?thesis by blast
  qed
qed

lemma process_any:
  assumes inv: "update_inv b c m img w" and env: "env_ok b c env" and b: "build_ok b" and idle: "\<not> copying w"
  shows "\<exists>img'. update_inv b c m img' (receiver_ota_process_hid env d w)"
proof (rule process_cases [OF inv, where P = "\<lambda>w'. \<exists>img'. update_inv b c m img' w'"])
  note inv' = update_inv_esb(2) [OF inv, of True]
  define sz where "sz = unat (br_image_size (parse_begin (rv_zephyr env) d))"
  show "\<exists>img'. update_inv b c m img' (receiver_ota_begin env d (w\<lparr>rw_flash_dev := True\<rparr>))"
  proof (cases "64 \<le> length d")
    case True
    then show ?thesis using radio_begin_inv [OF inv' env b, of d "replicate sz 0"] by (auto simp: sz_def)
  next
    case False
    then show ?thesis using radio_begin_inv [OF inv' env b, of d img] by auto
  qed
  show "\<exists>img'. update_inv b c m img' (rcv_ota_handle_data env d (w\<lparr>rw_flash_dev := True\<rparr>))" if "\<not> rw_stop w"
    by (rule any_data [OF inv' env]) (use that idle in \<open>simp_all add: copying_def\<close>)
  show "\<exists>img'. update_inv b c m img' (rcv_ota_handle_verify env (w\<lparr>rw_flash_dev := True\<rparr>))" if "\<not> rw_stop w"
    using verify_inv [OF inv' env] that by auto
  show "\<exists>img'. update_inv b c m img' (rcv_ota_handle_activate env (w\<lparr>rw_flash_dev := True\<rparr>))" if "\<not> rw_stop w"
    using activate_inv [OF inv' env] that by auto
  show "\<exists>img'. update_inv b c m img' (rcv_ota_handle_abort env (w\<lparr>rw_flash_dev := True\<rparr>))"
    using abort_inv [OF inv' env] by blast
qed blast

lemma any_run:
  assumes b: "build_ok b" and boot: "rcv_boot w0" and run: "rcv_run (env_ok b c) says w0 w"
  shows "\<exists>img. update_inv b c (outside b c w0) img w"
  using run
proof induction
  case run_start
  then show ?case using boot_inv [OF boot] by blast
next
  case (run_report w env d)
  then show ?case using process_any [OF _ _ b] by blast
next
  case (run_writer w env t)
  then show ?case using writer_inv by blast
qed

text \<open>
  Claim C13. Whatever the host sends, in whatever order the two threads run, and whatever erasures or
  writes fail: until the copy starts, the flash keeps its contents below the end of the running firmware and from the end of
  the application's area on. A failed update leaves the running firmware and the settings behind it as they were.
\<close>

theorem rcv_running_untouched:
  assumes "build_ok b" and "rcv_boot w0" and "rcv_run (env_ok b c) says w0 w"
    and "x < unat (rb_flash_base b) + unat (rb_flash_used b) \<or> unat (rb_flash_end b) \<le> x"
  shows "c (rw_flash w) x = c (rw_flash w0) x"
proof -
  obtain img where "update_inv b c (outside b c w0) img w" using any_run [OF assms(1-3)] ..
  then have "outside b c w x = outside b c w0 x" by (simp add: update_inv_def)
  then show ?thesis using assms(4) by (simp add: outside_def split: if_splits)
qed

section \<open>The copy\<close>

definition pages_of :: "nat \<Rightarrow> nat" where
  "pages_of n = (n + 4095) div 4096"

lemma session_copy:
  assumes s: "session b c img p w" and x: "rw_writer w = WriterCopies prm" and b: "build_ok b"
  shows "copy_apart prm" "cp_size prm = length img" "cp_page_size prm = 4096" "copy_pages prm = pages_of (length img)"
    "cp_src_addr prm = base_of w" "cp_dst_addr prm = unat (ro_target_flash_base (rw_ota w))"
    "cp_settings_addr prm = 0 \<or> cp_settings_addr prm = rb_settings_addr b \<and> rb_settings_page b"
    "\<forall>i<length img. c (rw_flash w) (base_of w + i) = img ! i"
proof -
  have prm: "cp_src_addr prm = base_of w" "cp_dst_addr prm = unat (ro_target_flash_base (rw_ota w))" "cp_size prm = length img"
    "cp_page_size prm = 4096" "cp_settings_addr prm \<in> {0, rb_settings_addr b}" "cp_settings_addr prm \<noteq> 0 \<longrightarrow> rb_settings_page b"
    "cp_settings_words prm \<le> 7" "4 * cp_settings_words prm \<le> length (cp_settings_data prm)"
    "\<forall>i<length img. c (rw_flash w) (base_of w + i) = img ! i"
    using s x by (simp_all add: session_def copies_def)
  have lay: "0 < length img" "4096 dvd base_of w" "unat (rb_flash_base b) + max (length img) (unat (rb_flash_used b)) \<le> base_of w"
    "\<forall>k. 4096 * k < length img \<longrightarrow> base_of w + 4096 * (k + 1) \<le> unat (rb_flash_end b)"
    "unat (ro_target_flash_base (rw_ota w)) \<le> unat (rb_flash_base b)" "4096 dvd unat (ro_target_flash_base (rw_ota w))"
    using s by (simp_all add: session_def staging_ok_def)
  define t where "t = unat (ro_target_flash_base (rw_ota w))"
  have pages: "copy_pages prm = pages_of (length img)" by (simp add: copy_pages_def pages_of_def prm)
  obtain ts where ts: "t = 4096 * ts" using lay(6) unfolding t_def by (elim dvdE)
  obtain ss where ss: "base_of w = 4096 * ss" using lay(2) by (elim dvdE)
  have "t + length img \<le> base_of w" using lay(3,5) unfolding t_def by linarith
  then have below: "t + pages_of (length img) * 4096 \<le> base_of w"
  proof -
    have "length img \<le> 4096 * (ss - ts)" using \<open>t + length img \<le> base_of w\<close> unfolding ts ss by simp
    then have "pages_of (length img) \<le> ss - ts" by (simp add: pages_of_def)
    moreover have "ts \<le> ss" using \<open>t + length img \<le> base_of w\<close> unfolding ts ss by simp
    ultimately show ?thesis unfolding ts ss by simp
  qed
  have above: "base_of w + pages_of (length img) * 4096 \<le> unat (rb_flash_end b)"
  proof -
    define k where "k = pages_of (length img) - 1"
    define n where "n = length img - 1"
    have n: "length img = n + 1" using lay(1) by (simp add: n_def)
    have "pages_of (length img) = n div 4096 + 1" by (simp add: pages_of_def n)
    then have "pages_of (length img) = k + 1" "4096 * k < length img" by (simp_all add: k_def n)
    then show ?thesis using lay(4) by (simp add: mult.commute)
  qed
  have "unat (rb_flash_end b) \<le> rb_settings_addr b" if "rb_settings_page b" using b that by (simp add: build_ok_def)
  then have "cp_settings_addr prm = 0 \<or> base_of w + pages_of (length img) * 4096 \<le> cp_settings_addr prm"
    using prm(5,6) above by (metis insertE le_trans singletonD)
  then show "copy_apart prm" unfolding copy_apart_def pages prm(1,2,4) using below prm(7,8) by (simp add: t_def)
  show "cp_size prm = length img" "cp_page_size prm = 4096" "copy_pages prm = pages_of (length img)"
    "cp_src_addr prm = base_of w" "cp_dst_addr prm = unat (ro_target_flash_base (rw_ota w))" by (fact prm pages)+
  show "cp_settings_addr prm = 0 \<or> cp_settings_addr prm = rb_settings_addr b \<and> rb_settings_page b" using prm(5,6) by blast
  show "\<forall>i<length img. c (rw_flash w) (base_of w + i) = img ! i" by (fact prm)
qed

text \<open>
  Claim C5. When the host sends one image, in any mixture of repeated, late, wrong and missing reports, with aborted and new sessions,
  and the copy starts, then after the copy the firmware's place holds that image byte for byte; and of the flash
  as it was at the start, everything outside of the pages of the new firmware, the free area
  and the settings page is unchanged.
\<close>

theorem rcv_update_exact:
  assumes "build_ok b" and "rcv_boot w0" and "rcv_run (env_ok b c) (\<lambda>z. honest z img) w0 w" and "rw_writer w = WriterCopies prm"
  shows "(\<forall>i < length img. rcv_ota_flash_copy_from_ram prm (c (rw_flash w)) (cp_dst_addr prm + i) = img ! i) \<and>
    cp_dst_addr prm \<le> unat (rb_flash_base b) \<and>
    (\<forall>x. (x < cp_dst_addr prm \<or> cp_dst_addr prm + 4096 * pages_of (length img) \<le> x) \<and>
         (x < unat (rb_flash_base b) + unat (rb_flash_used b) \<or> unat (rb_flash_end b) \<le> x) \<and>
         (\<not> rb_settings_page b \<or> x < rb_settings_addr b \<or> rb_settings_addr b + 4096 \<le> x) \<longrightarrow>
       rcv_ota_flash_copy_from_ram prm (c (rw_flash w)) x = c (rw_flash w0) x)"
proof -
  have inv: "update_inv b c (outside b c w0) img w" by (rule honest_run [OF assms(1-3)])
  then obtain p where s: "session b c img p w" using assms(4) by (auto simp: update_inv_def idle_def joined_ok_def)
  note k = session_copy [OF s assms(4,1)]
  note copy = flash_copy_exact [OF k(1), of "c (rw_flash w)"]
  have first: "\<forall>i < length img. rcv_ota_flash_copy_from_ram prm (c (rw_flash w)) (cp_dst_addr prm + i) = img ! i"
    using conjunct1 [OF copy] k(2,5,8) by simp
  have dst: "cp_dst_addr prm \<le> unat (rb_flash_base b)" using s k(6) by (simp add: session_def staging_ok_def)
  have rest: "rcv_ota_flash_copy_from_ram prm (c (rw_flash w)) x = c (rw_flash w0) x"
    if x: "x < cp_dst_addr prm \<or> cp_dst_addr prm + 4096 * pages_of (length img) \<le> x"
      "x < unat (rb_flash_base b) + unat (rb_flash_used b) \<or> unat (rb_flash_end b) \<le> x"
      "\<not> rb_settings_page b \<or> x < rb_settings_addr b \<or> rb_settings_addr b + 4096 \<le> x" for x
  proof -
    have "rcv_ota_flash_copy_from_ram prm (c (rw_flash w)) x = c (rw_flash w) x"
      using conjunct2 [OF conjunct2 [OF copy]] x(1,3) k(3,4,7) by (metis mult.commute)
    moreover have "outside b c w x = outside b c w0 x" using inv by (simp add: update_inv_def)
    then have "c (rw_flash w) x = c (rw_flash w0) x" using x(2) by (simp add: outside_def split: if_splits)
    ultimately show ?thesis by simp
  qed
  show ?thesis using first dst rest by blast
qed

end
