(* ===== verification/ReceiverOtaWitness.thy ===== *)
theory ReceiverOtaWitness
  imports ReceiverOtaProps TdmaCorrect
begin

text \<open>An update of one byte from the start to the copy, on a flash that is a function of the address.\<close>

section \<open>A receiver and its flash\<close>

definition toy_ops :: "(nat \<Rightarrow> u8) flash_ops" where
  "toy_ops = \<lparr>fl_ready = True, fl_erase = (\<lambda>a f. (True, mem_erase 4096 a f)), fl_write = (\<lambda>a bs f. (True, mem_write a bs f)),
     fl_read = (\<lambda>a n f. Some (map f [a..<a + n]))\<rparr>"

definition toy_build :: rcv_build where
  "toy_build = \<lparr>rb_flash_base = 0x1000, rb_flash_end = 0x4000, rb_settings_addr = 0x8000, rb_flash_used = 16, rb_board = [],
     rb_open_dfu = False, rb_settings_page = True, rb_version = [1, 0, 0], rb_build_time = [2025, 1, 1, 0, 0, 0], rb_bootloader = 0\<rparr>"

definition toy_env :: "(nat \<Rightarrow> u8) rcv_env" where
  "toy_env = \<lparr>rv_zephyr = std_zephyr, rv_build = toy_build, rv_flash = toy_ops, rv_crc32 = (\<lambda>c bs. c + of_nat (length bs)),
     rv_peers = no_peers, rv_clock = (\<lambda>i. 0), rv_waits = (\<lambda>i. [])\<rparr>"

definition toy_buffer :: bytes where
  "toy_buffer = replicate 4096 0"

definition toy_boot :: "(nat \<Rightarrow> u8) rcv_world" where
  "toy_boot = \<lparr>rw_ota = zero_rcv_ota, rw_flash_dev = False,
     rw_reqs = [\<lparr>pw_data = toy_buffer, pw_addr = 0, pw_len = 0\<rparr>, \<lparr>pw_data = toy_buffer, pw_addr = 0, pw_len = 0\<rparr>], rw_sems = [False, False],
     rw_queue = [], rw_error = False, rw_stop = False, rw_created = False, rw_writer = WriterGone, rw_settings = None,
     rw_flash = (\<lambda>x. of_nat x), rw_esb = idle_esb, rw_out = []\<rparr>"

lemma toy_law: "flash_law toy_ops (\<lambda>f. f)"
  unfolding flash_law_def by (simp add: toy_ops_def mem_erase_def mem_write_def)

lemma toy_env_ok: "env_ok toy_build (\<lambda>f. f) toy_env"
  by (simp add: env_ok_def toy_env_def toy_law std_zephyr_law)

lemma toy_build_ok: "build_ok toy_build"
  by (simp add: build_ok_def toy_build_def)

lemma toy_boot_ok: "rcv_boot toy_boot"
  by (simp add: rcv_boot_def toy_boot_def bufs_ok_def toy_buffer_def)

section \<open>The reports\<close>

definition toy_begin :: bytes where
  "toy_begin = [0xF2, 0xFE, 1, 0, 0, 0, 1, 0, 0, 0, 0, 1, 1] @ replicate 51 0"

definition toy_data :: bytes where
  "toy_data = [0xF3, 0xFE, 0, 0, 0x5A]"

definition toy_reports :: "nat \<Rightarrow> bytes" where
  "toy_reports i = [toy_begin, toy_data, [0xF5, 0xFE], [0xF6, 0xFE]] ! i"

definition say :: "bytes \<Rightarrow> (nat \<Rightarrow> u8) rcv_world \<Rightarrow> (nat \<Rightarrow> u8) rcv_world" where
  "say d w = receiver_ota_process_hid toy_env d w"

definition work :: "nat \<Rightarrow> (nat \<Rightarrow> u8) rcv_world \<Rightarrow> (nat \<Rightarrow> u8) rcv_world" where
  "work n w = (rcv_ota_writer_fn toy_env 0 ^^ n) w"

text \<open>The session that the first report starts.\<close>

definition toy_session :: rcv_ota where
  "toy_session = zero_rcv_ota\<lparr>ro_state := RCV_OTA_READY, ro_image_size := 1, ro_image_crc32 := 1, ro_total_packets := 1,
     ro_staging_base := 0x3000, ro_page_buf_flash_addr := 0x3000, ro_target_flash_base := 0x1000\<rparr>"

lemma toy_parse:
  "parse_begin std_zephyr toy_begin = \<lparr>br_image_size = 1, br_image_crc32 = 1, br_total_packets = 1, br_protocol = 1,
     br_board = replicate 47 0 @ [0], br_flash_base = 0\<rparr>"
  by (simp add: parse_begin_def toy_begin_def std_zephyr_def nth_append)

lemma toy_accepted: "begin_error toy_build (parse_begin std_zephyr toy_begin) = None"
  unfolding toy_parse
  by (simp add: begin_error_def toy_build_def rcv_max_image_size_def staging_of_def c_string_def Let_def)

lemma toy_started: "new_session toy_build (parse_begin std_zephyr toy_begin) = toy_session"
  unfolding toy_parse
  by (simp add: new_session_def toy_build_def staging_of_def Let_def toy_session_def zero_rcv_ota_def)

section \<open>Step by step\<close>

text \<open>The fields that matter to the run, and the values they take.\<close>

definition buffer_req :: "bytes \<Rightarrow> u32 \<Rightarrow> nat \<Rightarrow> page_write_req" where
  "buffer_req data a n = \<lparr>pw_data = data, pw_addr = a, pw_len = n\<rparr>"

definition core :: "(nat \<Rightarrow> u8) rcv_world \<Rightarrow> rcv_ota \<Rightarrow> page_write_req \<Rightarrow> bool list \<Rightarrow> u8 list \<Rightarrow> writer \<Rightarrow> (nat \<Rightarrow> u8) \<Rightarrow> bool" where
  "core w s r sems q x f \<longleftrightarrow> rw_ota w = s \<and> rw_reqs w = [r, buffer_req toy_buffer 0 0] \<and>
     rw_sems w = sems \<and> rw_queue w = q \<and> \<not> rw_error w \<and> \<not> rw_stop w \<and> rw_created w \<and> rw_writer w = x \<and> rw_flash w = f"

lemma toy_simps [simp]: "fl_ready toy_ops" "rb_open_dfu toy_build = False" "rb_settings_page toy_build" "rb_settings_addr toy_build = 0x8000"
  "rv_zephyr toy_env = std_zephyr" "rv_build toy_env = toy_build" "rv_flash toy_env = toy_ops" "rv_crc32 toy_env = (\<lambda>c bs. c + of_nat (length bs))"
  "rv_clock toy_env i = 0" "rcv_wait toy_env i w = w" "fl_erase toy_ops a f = (True, mem_erase 4096 a f)"
  "fl_write toy_ops a bs f = (True, mem_write a bs f)" "fl_read toy_ops a n f = Some (map f [a..<a + n])"
  by (simp_all add: toy_ops_def toy_build_def toy_env_def rcv_wait_def)

lemma toy_begin_step:
  "core (say toy_begin toy_boot) toy_session (buffer_req toy_buffer 0 0) [True, True] [] WriterLoop (\<lambda>x. of_nat x)"
proof -
  have head: "toy_begin ! 0 = 0xF2" "length toy_begin = 64" by (simp_all add: toy_begin_def)
  have gate: "esb_radio_operation_begin (rv_peers toy_env) idle_esb = (None, idle_esb\<lparr>radio_operation_busy := True\<rparr>)"
    by (simp add: esb_radio_operation_begin_def radio_operation_begin_def idle_esb_def no_peers_def Let_def list_ex_iff toy_env_def)
  have t: "toy_session\<lparr>ro_last_status_time := 0\<rparr> = toy_session" by (simp add: toy_session_def zero_rcv_ota_def)
  show ?thesis
    unfolding say_def receiver_ota_process_hid_def receiver_ota_begin_def rcv_ota_handle_begin_def core_def
    by (simp add: head toy_boot_def Let_def receiver_ota_is_active_def gate zero_rcv_ota_def rcv_ota_stop_writer_def t buffer_req_def
        toy_accepted toy_started rcv_ota_start_writer_def rcv_ota_send_status_def on_ota_def)
qed

definition toy_page :: bytes where
  "toy_page = 0x5A # drop 1 toy_buffer"

definition toy_received :: rcv_ota where
  "toy_received = toy_session\<lparr>ro_state := RCV_OTA_RECEIVING, ro_page_buf_offset := 1, ro_bytes_written := 1, ro_next_expected_seq := 1\<rparr>"

lemma toy_data_step:
  assumes "core w toy_session (buffer_req toy_buffer 0 0) [True, True] [] WriterLoop f"
  shows "core (say toy_data w) toy_received (buffer_req toy_page 0 0) [False, True] [] WriterLoop f"
proof -
  have c: "rw_ota w = toy_session" "rw_reqs w = [buffer_req toy_buffer 0 0, buffer_req toy_buffer 0 0]" "rw_sems w = [True, True]"
    "rw_queue w = []" "\<not> rw_error w" "\<not> rw_stop w" "rw_created w" "rw_writer w = WriterLoop" "rw_flash w = f"
    using assms by (simp_all add: core_def)
  show ?thesis
    unfolding say_def receiver_ota_process_hid_def rcv_ota_handle_data_def core_def
    by (simp add: c toy_data_def Let_def toy_session_def zero_rcv_ota_def std_zephyr_def store_payload.simps on_ota_def toy_received_def
        buffer_req_def toy_page_def)
qed

definition toy_verifying :: rcv_ota where
  "toy_verifying = toy_received\<lparr>ro_state := RCV_OTA_VERIFYING, ro_page_buf_offset := 0, ro_next_write_slot := 1,
     ro_page_buf_flash_addr := 0x4000\<rparr>"

definition toy_full :: bytes where
  "toy_full = 0x5A # replicate 4095 0xFF"

lemma toy_verify_step:
  assumes "core w toy_received (buffer_req toy_page 0 0) [False, True] [] WriterLoop f"
  shows "core (say [0xF5, 0xFE] w) toy_verifying (buffer_req toy_full 0x3000 1) [False, True] [0, 0xFD] WriterLoop f"
proof -
  have c: "rw_ota w = toy_received" "rw_reqs w = [buffer_req toy_page 0 0, buffer_req toy_buffer 0 0]" "rw_sems w = [False, True]"
    "rw_queue w = []" "\<not> rw_error w" "\<not> rw_stop w" "rw_created w" "rw_writer w = WriterLoop" "rw_flash w = f"
    using assms by (simp_all add: core_def)
  show ?thesis
    unfolding say_def receiver_ota_process_hid_def rcv_ota_handle_verify_def core_def
    by (simp add: c Let_def toy_received_def toy_session_def zero_rcv_ota_def on_ota_def rcv_ota_flush_page_buf_def writer_put_def
        toy_verifying_def buffer_req_def toy_page_def toy_full_def)
qed

definition toy_flash :: "nat \<Rightarrow> u8" where
  "toy_flash = mem_write 0x3000 [0x5A] (mem_erase 4096 0x3000 (\<lambda>x. of_nat x))"

definition toy_verified :: rcv_ota where
  "toy_verified = toy_verifying\<lparr>ro_error_code := OTA_STATUS_VERIFY_OK\<rparr>"

lemma work_Suc: "work (Suc n) w = work n (rcv_ota_writer_fn toy_env 0 w)"
  by (simp add: work_def funpow_swap1)

lemma work_0: "work 0 w = w"
  by (simp add: work_def)

lemma core_page:
  assumes "core w toy_verifying (buffer_req toy_full 0x3000 1) [False, True] [0, 0xFD] WriterLoop (\<lambda>x. of_nat x)"
  shows "core (work 5 w) toy_verifying (buffer_req toy_full 0x3000 1) [True, True] [0xFD] WriterLoop toy_flash"
proof -
  have c: "rw_ota w = toy_verifying" "rw_reqs w = [buffer_req toy_full 0x3000 1, buffer_req toy_buffer 0 0]" "rw_sems w = [False, True]"
    "rw_queue w = [0, 0xFD]" "\<not> rw_error w" "\<not> rw_stop w" "rw_created w" "rw_writer w = WriterLoop" "rw_flash w = (\<lambda>x. of_nat x)"
    using assms by (simp_all add: core_def)
  have "(5 :: nat) = Suc (Suc (Suc (Suc (Suc 0))))" by simp
  then show ?thesis
    unfolding core_def by (simp only: work_Suc work_0) (simp add: rcv_ota_writer_fn_def writer_command_def c Let_def buffer_req_def
        toy_full_def toy_flash_def)
qed

lemma toy_staged: "map toy_flash [0x3000..<0x3001] = [0x5A]"
proof -
  have "[0x3000..<0x3001] = [0x3000 :: nat]" by (simp add: upt_rec)
  then show ?thesis by (simp add: toy_flash_def mem_write_def mem_erase_def)
qed

lemma core_verified:
  assumes "core w toy_verifying r [True, True] [0xFD] WriterLoop toy_flash"
  shows "core (work 2 w) toy_verified r [True, True] [] WriterLoop toy_flash"
proof -
  have c: "rw_ota w = toy_verifying" "rw_reqs w = [r, buffer_req toy_buffer 0 0]" "rw_sems w = [True, True]"
    "rw_queue w = [0xFD]" "\<not> rw_error w" "\<not> rw_stop w" "rw_created w" "rw_writer w = WriterLoop" "rw_flash w = toy_flash"
    using assms by (simp_all add: core_def)
  have "(2 :: nat) = Suc (Suc 0)" by simp
  moreover have "staged_fold toy_env (\<lambda>buf c. c + of_nat (length buf)) toy_flash 0x3000 1 0 = Some (1 :: u32)"
    by (simp add: staged_fold.simps)
  ultimately show ?thesis
    unfolding core_def by (simp only: work_Suc work_0) (simp add: rcv_ota_writer_fn_def writer_command_def rcv_ota_do_verify_def c
        toy_verified_def toy_verifying_def toy_received_def toy_session_def zero_rcv_ota_def rcv_ota_send_status_def Let_def on_ota_def)
qed

lemma toy_activate_step:
  assumes "core w toy_verified r [True, True] [] WriterLoop f"
  shows "core (say [0xF6, 0xFE] w) (toy_verified\<lparr>ro_state := RCV_OTA_ACTIVATE_PENDING\<rparr>) r [True, True] [0xFE] WriterLoop f"
proof -
  have c: "rw_ota w = toy_verified" "rw_reqs w = [r, buffer_req toy_buffer 0 0]" "rw_sems w = [True, True]"
    "rw_queue w = []" "\<not> rw_error w" "\<not> rw_stop w" "rw_created w" "rw_writer w = WriterLoop" "rw_flash w = f"
    using assms by (simp_all add: core_def)
  show ?thesis
    unfolding say_def receiver_ota_process_hid_def rcv_ota_handle_activate_def core_def
    by (simp add: c Let_def toy_verified_def toy_verifying_def on_ota_def writer_put_def)
qed

lemma core_copies:
  assumes "core w (toy_verified\<lparr>ro_state := RCV_OTA_ACTIVATE_PENDING\<rparr>) r [True, True] [0xFE] WriterLoop toy_flash"
  shows "\<exists>prm. rw_writer (work 2 w) = WriterCopies prm \<and> cp_dst_addr prm = 0x1000 \<and> rw_flash (work 2 w) = toy_flash"
proof -
  have c: "rw_ota w = toy_verified\<lparr>ro_state := RCV_OTA_ACTIVATE_PENDING\<rparr>" "rw_queue w = [0xFE]" "\<not> rw_stop w" "rw_writer w = WriterLoop"
    "rw_flash w = toy_flash" using assms by (simp_all add: core_def)
  have "(2 :: nat) = Suc (Suc 0)" by simp
  moreover obtain crc where "staged_fold toy_env (\<lambda>buf c. foldl crc16_step c buf) toy_flash 0x3000 1 0xFFFF = Some crc"
    by (simp add: staged_fold.simps)
  ultimately show ?thesis
    by (simp only: work_Suc work_0) (simp add: rcv_ota_writer_fn_def writer_command_def rcv_ota_do_activate_def c
        toy_verified_def toy_verifying_def toy_received_def toy_session_def zero_rcv_ota_def rcv_ota_send_status_def Let_def on_ota_def
        rcv_ota_activate_and_reset_def)
qed

section \<open>The run\<close>

definition toy_reached :: "(nat \<Rightarrow> u8) rcv_world \<Rightarrow> bool" where
  "toy_reached = rcv_run (env_ok toy_build (\<lambda>f. f)) (\<lambda>z. honest z [0x5A]) toy_boot"

lemma run_work: "toy_reached w \<Longrightarrow> toy_reached (work n w)"
proof (induction n arbitrary: w)
  case (Suc n)
  have "toy_reached (rcv_ota_writer_fn toy_env 0 w)"
    using Suc.prems unfolding toy_reached_def by (rule run_writer) (rule toy_env_ok)
  then show ?case unfolding work_Suc by (rule Suc.IH)
qed (simp add: work_0)

lemma run_say:
  assumes "toy_reached w" and "honest std_zephyr [0x5A] d" and "rw_writer w = WriterGone \<or> rw_writer w = WriterLoop"
  shows "toy_reached (say d w)"
  unfolding toy_reached_def say_def
proof (rule run_report)
  show "rcv_run (env_ok toy_build (\<lambda>f. f)) (\<lambda>z. honest z [0x5A]) toy_boot w" using assms(1) by (simp only: toy_reached_def)
  show "\<not> copying w" using assms(3) by (auto simp: copying_def)
qed (simp_all add: toy_env_ok assms(2))

lemma toy_honest:
  "honest std_zephyr [0x5A] toy_begin" "honest std_zephyr [0x5A] toy_data" "honest std_zephyr [0x5A] [0xF5, 0xFE]"
  "honest std_zephyr [0x5A] [0xF6, 0xFE]"
proof -
  have "toy_begin ! 0 = 0xF2" by (simp add: toy_begin_def)
  then show "honest std_zephyr [0x5A] toy_begin" unfolding honest_def toy_parse by simp
  show "honest std_zephyr [0x5A] toy_data" by (simp add: honest_def toy_data_def honest_data_def std_zephyr_def)
qed (simp_all add: honest_def)

lemma core_writer: "core w s r sems q x f \<Longrightarrow> rw_writer w = WriterGone \<or> rw_writer w = x"
  by (simp add: core_def)

lemma toy_run: "\<exists>w prm. toy_reached w \<and> rw_writer w = WriterCopies prm \<and> cp_dst_addr prm = 0x1000 \<and> rw_flash w = toy_flash"
proof -
  note k1 = toy_begin_step
  note k2 = toy_data_step [OF k1]
  note k3 = toy_verify_step [OF k2]
  note k4 = core_page [OF k3]
  note k5 = core_verified [OF k4]
  note k6 = toy_activate_step [OF k5]
  have r0: "toy_reached toy_boot" unfolding toy_reached_def by (rule run_start)
  have r1: "toy_reached (say toy_begin toy_boot)" by (rule run_say [OF r0 toy_honest(1)]) (simp add: toy_boot_def)
  note r2 = run_say [OF r1 toy_honest(2) core_writer [OF k1]]
  note r3 = run_say [OF r2 toy_honest(3) core_writer [OF k2]]
  note r5 = run_work [OF run_work [OF r3, of 5], of 2]
  note r6 = run_say [OF r5 toy_honest(4) core_writer [OF k5]]
  show ?thesis using run_work [OF r6, of 2] core_copies [OF k6] by blast
qed

section \<open>The properties at work\<close>

theorem rcv_running_untouched_witness:
  "\<exists>w. toy_reached w \<and> rw_flash w = toy_flash \<and> rw_flash w 0x100F = rw_flash toy_boot 0x100F"
proof -
  obtain w prm where w: "toy_reached w" "rw_flash w = toy_flash" using toy_run by blast
  have "(\<lambda>f. f) (rw_flash w) 0x100F = (\<lambda>f. f) (rw_flash toy_boot) 0x100F"
    by (rule rcv_running_untouched [OF toy_build_ok toy_boot_ok w(1) [unfolded toy_reached_def]]) (simp add: toy_build_def)
  then show ?thesis using w by blast
qed

theorem rcv_update_exact_witness:
  "\<exists>w prm. toy_reached w \<and> rw_writer w = WriterCopies prm \<and> rcv_ota_flash_copy_from_ram prm (rw_flash w) 0x1000 = 0x5A \<and>
     rcv_ota_flash_copy_from_ram prm (rw_flash w) 0x0FFF = rw_flash toy_boot 0x0FFF"
proof -
  obtain w prm where w: "toy_reached w" "rw_writer w = WriterCopies prm" "cp_dst_addr prm = 0x1000" using toy_run by blast
  note exact = rcv_update_exact [OF toy_build_ok toy_boot_ok w(1) [unfolded toy_reached_def] w(2), unfolded w(3)]
  have "rcv_ota_flash_copy_from_ram prm (rw_flash w) 0x1000 = 0x5A" using conjunct1 [OF exact] by simp
  moreover have "rcv_ota_flash_copy_from_ram prm (rw_flash w) 0x0FFF = rw_flash toy_boot 0x0FFF"
    using conjunct2 [OF conjunct2 [OF exact]] by (simp add: toy_build_def)
  ultimately show ?thesis using w by blast
qed

end
