(* ===== verification/HostCommands.thy ===== *)
theory HostCommands
  imports Pairing
begin

text \<open>
  The commands of the host (\<open>rcv_cmd.c\<close>): pairing, channels, statistics, data collection, resets, and commands for
  the trackers, whose completion is reported later, when the trackers have confirmed or the time is over. The static variables are the
  record \<open>rcv_cmd\<close>; a delayed work item is the time at which it is due, a submitted one a flag. The
  rest of the receiver is the record \<open>receiver\<close>; messages to the host and resets are collected in the order
  in which they happen. Text for the console and log output is left out. The switches of the build, the clock, and what
  the rest of the receiver does while a broadcast sleeps are in the record \<open>host_env\<close>.
\<close>

abbreviation (input) RCV_HID_ST_OK :: u8 where "RCV_HID_ST_OK \<equiv> 0"
abbreviation (input) RCV_HID_ST_EINVAL :: u8 where "RCV_HID_ST_EINVAL \<equiv> 1"
abbreviation (input) RCV_HID_ST_ENOSPC :: u8 where "RCV_HID_ST_ENOSPC \<equiv> 2"
abbreviation (input) RCV_HID_ST_EBUSY :: u8 where "RCV_HID_ST_EBUSY \<equiv> 3"
abbreviation (input) RCV_HID_ST_ENOENT :: u8 where "RCV_HID_ST_ENOENT \<equiv> 4"
abbreviation (input) RCV_HID_ST_ENOTSUP :: u8 where "RCV_HID_ST_ENOTSUP \<equiv> 5"
abbreviation (input) RCV_HID_ST_QUEUED :: u8 where "RCV_HID_ST_QUEUED \<equiv> 6"
abbreviation (input) RCV_HID_ST_STARTED :: u8 where "RCV_HID_ST_STARTED \<equiv> 7"
abbreviation (input) RCV_HID_TARGET_ALL :: u8 where "RCV_HID_TARGET_ALL \<equiv> 0xFF"
abbreviation (input) RCV_HID_OP_TRACKER_EVENTS :: u8 where "RCV_HID_OP_TRACKER_EVENTS \<equiv> 224"
abbreviation (input) RCV_HID_WOM_RESULT :: u8 where "RCV_HID_WOM_RESULT \<equiv> 1"
abbreviation (input) RCV_HID_WOM_SUMMARY :: u8 where "RCV_HID_WOM_SUMMARY \<equiv> 2"
abbreviation (input) REMOTE_HID_CONFIRM_TIMEOUT_MS :: int where "REMOTE_HID_CONFIRM_TIMEOUT_MS \<equiv> 5000"

section \<open>State\<close>

datatype pending_reset = PENDING_RESET_NONE | PENDING_RESET_REBOOT | PENDING_RESET_DFU_UF2 | PENDING_RESET_DFU_OTA

datatype remote_hid_job = REMOTE_HID_JOB_NONE | REMOTE_HID_JOB_FLAG_ALL | REMOTE_HID_JOB_SENS_AUTO_ALL
  | REMOTE_HID_JOB_TEST_ON_ALL | REMOTE_HID_JOB_TEST_OFF_ALL | REMOTE_HID_JOB_WOM_COMMAND

record rcv_cmd =
  rssi_scan_busy :: bool
  ch_hid_pending :: bool
  ch_hid_seq :: u8
  ch_hid_opcode :: u8
  async_ack_fn :: bool
  reset_kind :: pending_reset
  reset_work :: "int option"
  remote_hid_pending :: bool
  remote_hid_seq :: u8
  remote_hid_opcode :: u8
  remote_hid_flag :: u8
  remote_hid_expected :: u32
  remote_hid_confirmed :: u32
  remote_wom_console :: bool
  remote_wom_token :: u16
  remote_wom_failed :: u32
  remote_wom_deadline :: int
  remote_wom_minutes :: u16
  rh_job :: remote_hid_job
  rh_job_flag :: u8
  rh_job_axis :: u8
  rh_job_rev :: u16
  rh_job_tps :: u16
  remote_hid_timeout_work :: "int option"
  remote_hid_job_work :: bool
  rssi_scan_work :: bool

datatype host_action = AsyncAck bytes | SystemReboot | EnterDfu bool | HostChannel channel_action | RssiScan

record ('q, 'f, 'r) host =
  hc_rc :: "('q, 'f) receiver"
  hc_radio :: 'r
  stats_detailed_enabled :: bool
  stats_detailed_end_time :: int
  hc_cmd :: rcv_cmd
  hc_out :: "host_action list"

record ('q, 'f, 'r) host_env =
  he_zephyr :: zephyr
  he_nvs :: "'f nvs_ops"
  he_ops :: "'r radio_ops"
  he_rf_default :: u8
  he_peers :: peers
  he_now :: int
  he_now32 :: u32
  he_clear_now :: "nat \<Rightarrow> u32"
  he_clock :: "nat \<Rightarrow> int"
  he_between :: "esb \<Rightarrow> esb"
  he_scan_start :: int
  he_during :: "esb \<Rightarrow> esb"
  he_later :: "esb \<Rightarrow> esb"
  he_ecanceled :: u16
  he_etimedout :: u16
  he_collect :: bool
  he_dfu :: bool

definition on_cmd :: "(rcv_cmd \<Rightarrow> rcv_cmd) \<Rightarrow> ('q, 'f, 'r) host \<Rightarrow> ('q, 'f, 'r) host" where
  "on_cmd f w = w\<lparr>hc_cmd := f (hc_cmd w)\<rparr>"

definition on_rc :: "(('q, 'f) receiver \<Rightarrow> ('q, 'f) receiver) \<Rightarrow> ('q, 'f, 'r) host \<Rightarrow> ('q, 'f, 'r) host" where
  "on_rc f w = w\<lparr>hc_rc := f (hc_rc w)\<rparr>"

definition on_esb :: "(esb \<Rightarrow> 'a \<times> esb) \<Rightarrow> ('q, 'f, 'r) host \<Rightarrow> 'a \<times> ('q, 'f, 'r) host" where
  "on_esb f w = (let (a, e) = f (rc_esb (hc_rc w)) in (a, w\<lparr>hc_rc := (hc_rc w)\<lparr>rc_esb := e\<rparr>\<rparr>))"

definition emit :: "host_action list \<Rightarrow> ('q, 'f, 'r) host \<Rightarrow> ('q, 'f, 'r) host" where
  "emit acts w = w\<lparr>hc_out := hc_out w @ acts\<rparr>"

section \<open>Acknowledgements and resets\<close>

definition fill_ack :: "u8 \<Rightarrow> u8 \<Rightarrow> u8 \<Rightarrow> bytes" where
  "fill_ack seq opcode status = [RCV_HID_TYPE_CMD_ACK, seq, opcode, status] @ replicate 12 0"

definition async_ack :: "bytes \<Rightarrow> ('q, 'f, 'r) host \<Rightarrow> ('q, 'f, 'r) host" where
  "async_ack ack w = (if async_ack_fn (hc_cmd w) then emit [AsyncAck ack] w else w)"

definition schedule_reset :: "int \<Rightarrow> pending_reset \<Rightarrow> ('q, 'f, 'r) host \<Rightarrow> ('q, 'f, 'r) host" where
  "schedule_reset now kind w =
     on_cmd (\<lambda>c. c\<lparr>reset_kind := kind, reset_work := (case reset_work c of Some t \<Rightarrow> Some t | None \<Rightarrow> Some (now + 50))\<rparr>) w"

definition reset_work_handler :: "('q, 'f, 'r) host \<Rightarrow> ('q, 'f, 'r) host" where
  "reset_work_handler w =
     emit (case reset_kind (hc_cmd w) of PENDING_RESET_REBOOT \<Rightarrow> [SystemReboot] | PENDING_RESET_DFU_UF2 \<Rightarrow> [EnterDfu False]
         | PENDING_RESET_DFU_OTA \<Rightarrow> [EnterDfu True] | PENDING_RESET_NONE \<Rightarrow> [])
       (on_cmd (\<lambda>c. c\<lparr>reset_kind := PENDING_RESET_NONE, reset_work := None\<rparr>) w)"

definition rcv_cmd_set_async_ack :: "('q, 'f, 'r) host \<Rightarrow> ('q, 'f, 'r) host" where
  "rcv_cmd_set_async_ack = on_cmd (\<lambda>c. c\<lparr>async_ack_fn := True\<rparr>)"

section \<open>The receiver itself\<close>

definition rcv_cmd_pair :: "('q, 'f, 'r) host_env \<Rightarrow> u8 \<Rightarrow> ('q, 'f, 'r) host \<Rightarrow> u8 \<times> ('q, 'f, 'r) host" where
  "rcv_cmd_pair env count w =
     (RCV_HID_ST_OK, on_rc (if count = 0 then esb_start_pairing (he_now env)
        else esb_start_pairing_with_count (unat count) (he_now env)) w)"

definition rcv_cmd_exit_pair :: "('q, 'f, 'r) host \<Rightarrow> u8 \<times> ('q, 'f, 'r) host" where
  "rcv_cmd_exit_pair w = (RCV_HID_ST_OK, on_rc esb_finish_pair w)"

definition rcv_cmd_clear :: "('q, 'f, 'r) host_env \<Rightarrow> ('q, 'f, 'r) host \<Rightarrow> u8 \<times> ('q, 'f, 'r) host" where
  "rcv_cmd_clear env w =
     (let (err, r) = esb_clear (he_nvs env) (he_clear_now env) (he_peers env) (he_clock env) (he_between env) (hc_rc w)
      in (if err = None then RCV_HID_ST_OK else RCV_HID_ST_EBUSY, w\<lparr>hc_rc := r\<rparr>))"

text \<open>The status and the slot, which is \<open>-1\<close> in the code when there is none.\<close>

definition rcv_cmd_add ::
    "('q, 'f, 'r) host_env \<Rightarrow> u64 \<Rightarrow> ('q, 'f, 'r) host \<Rightarrow> u8 \<times> nat option \<times> ('q, 'f, 'r) host" where
  "rcv_cmd_add env addr w =
     (if addr = 0 then (RCV_HID_ST_EINVAL, None, w)
      else
        case esb_add_pair (he_nvs env) addr (hc_rc w) of
          (Inr slot, r) \<Rightarrow> (RCV_HID_ST_OK, Some slot, w\<lparr>hc_rc := r\<rparr>)
        | (Inl err, r) \<Rightarrow>
            (if err = ENOSPC then RCV_HID_ST_ENOSPC else if err = EINVAL then RCV_HID_ST_EINVAL else RCV_HID_ST_EBUSY,
             None, w\<lparr>hc_rc := r\<rparr>))"

definition rcv_cmd_remove :: "('q, 'f, 'r) host_env \<Rightarrow> ('q, 'f, 'r) host \<Rightarrow> u8 \<times> ('q, 'f, 'r) host" where
  "rcv_cmd_remove env w =
     (let (err, r) = esb_pop_pair (he_nvs env) (he_clear_now env 0) (he_peers env) (he_clock env) (he_between env) (hc_rc w)
      in (if err = None then RCV_HID_ST_OK else RCV_HID_ST_EBUSY, w\<lparr>hc_rc := r\<rparr>))"

definition channel_status :: "errno option \<Rightarrow> u8" where
  "channel_status err = (case err of None \<Rightarrow> RCV_HID_ST_OK | Some e \<Rightarrow> if e = EBUSY then RCV_HID_ST_EBUSY else RCV_HID_ST_ENOENT)"

definition channel_world_of :: "('q, 'f, 'r) host \<Rightarrow> ('r, 'f) channel_world" where
  "channel_world_of w = \<lparr>cw_esb = rc_esb (hc_rc w), cw_radio = hc_radio w, cw_store = rc_store (hc_rc w)\<rparr>"

definition with_channel_world :: "('r, 'f) channel_world \<Rightarrow> ('q, 'f, 'r) host \<Rightarrow> ('q, 'f, 'r) host" where
  "with_channel_world c w = w\<lparr>hc_rc := (hc_rc w)\<lparr>rc_esb := cw_esb c, rc_store := cw_store c\<rparr>, hc_radio := cw_radio c\<rparr>"

definition rcv_cmd_channel_set :: "('q, 'f, 'r) host_env \<Rightarrow> u8 \<Rightarrow> ('q, 'f, 'r) host \<Rightarrow> u8 \<times> ('q, 'f, 'r) host" where
  "rcv_cmd_channel_set env channel w =
     (if 100 < channel then (RCV_HID_ST_EINVAL, w)
      else
        let (err, acts, c) = esb_set_receiver_channel (he_ops env) (he_nvs env) (he_rf_default env) (he_peers env) channel
              (channel_world_of w)
        in (channel_status err, emit (map HostChannel acts) (with_channel_world c w)))"

definition rcv_cmd_channel_clear :: "('q, 'f, 'r) host_env \<Rightarrow> ('q, 'f, 'r) host \<Rightarrow> u8 \<times> ('q, 'f, 'r) host" where
  "rcv_cmd_channel_clear env w =
     (let (err, acts, c) = esb_clear_receiver_channel (he_ops env) (he_nvs env) (he_rf_default env) (he_peers env) (channel_world_of w)
      in (channel_status err, emit (map HostChannel acts) (with_channel_world c w)))"

definition rcv_cmd_rssi_scan :: "('q, 'f, 'r) host \<Rightarrow> u8 \<times> ('q, 'f, 'r) host" where
  "rcv_cmd_rssi_scan w =
     (if esb_channel_is_busy (rc_esb (hc_rc w)) \<or> rssi_scan_busy (hc_cmd w) then (RCV_HID_ST_EBUSY, w)
      else (RCV_HID_ST_STARTED, on_cmd (\<lambda>c. c\<lparr>rssi_scan_busy := True, rssi_scan_work := True\<rparr>) w))"

definition rssi_scan_work_handler :: "('q, 'f, 'r) host \<Rightarrow> ('q, 'f, 'r) host" where
  "rssi_scan_work_handler w = on_cmd (\<lambda>c. c\<lparr>rssi_scan_busy := False, rssi_scan_work := False\<rparr>) (emit [RssiScan] w)"

definition esb_toggle_stats_detailed :: "('q, 'f, 'r) host \<Rightarrow> ('q, 'f, 'r) host" where
  "esb_toggle_stats_detailed w = w\<lparr>stats_detailed_enabled := \<not> stats_detailed_enabled w, stats_detailed_end_time := 0\<rparr>"

definition esb_set_stats_detailed :: "int \<Rightarrow> u32 \<Rightarrow> ('q, 'f, 'r) host \<Rightarrow> ('q, 'f, 'r) host" where
  "esb_set_stats_detailed now duration_seconds w =
     (if duration_seconds = 0 then esb_toggle_stats_detailed w
      else w\<lparr>stats_detailed_enabled := True, stats_detailed_end_time := now + uint duration_seconds * 1000\<rparr>)"

definition rcv_cmd_stats :: "('q, 'f, 'r) host_env \<Rightarrow> u32 \<Rightarrow> ('q, 'f, 'r) host \<Rightarrow> u8 \<times> ('q, 'f, 'r) host" where
  "rcv_cmd_stats env duration_seconds w =
     (RCV_HID_ST_OK, if duration_seconds = 0 then esb_toggle_stats_detailed w
        else esb_set_stats_detailed (he_now env) duration_seconds w)"

definition esb_reset_all_stats :: "esb \<Rightarrow> esb" where
  "esb_reset_all_stats e =
     (let e1 = esb_auto_loss_invalidate e;
          e2 = e1\<lparr>tracker_slots := map (\<lambda>x. x\<lparr>slot_stats := slot_stats zero_tracker_slot, ping_counter_initialized := False,
            last_ping_counter := 0, last_pong_queued_counter := 0\<rparr>) (tracker_slots e1)\<rparr>;
          e3 = tdma_loss_reset_windows e2
      in e3\<lparr>tracker_slots := map (\<lambda>x. x\<lparr>tdma_prev_recv := 0, tdma_prev_gaps := 0, tdma_prev_restarts := 0\<rparr>) (tracker_slots e3)\<rparr>)"

definition rcv_cmd_resetstats :: "('q, 'f, 'r) host \<Rightarrow> u8 \<times> ('q, 'f, 'r) host" where
  "rcv_cmd_resetstats w = (RCV_HID_ST_OK, snd (on_esb (\<lambda>e. ((), esb_reset_all_stats e)) w))"

definition rcv_cmd_reboot :: "('q, 'f, 'r) host_env \<Rightarrow> ('q, 'f, 'r) host \<Rightarrow> u8 \<times> ('q, 'f, 'r) host" where
  "rcv_cmd_reboot env w = (RCV_HID_ST_OK, schedule_reset (he_now env) PENDING_RESET_REBOOT w)"

definition rcv_cmd_dfu :: "('q, 'f, 'r) host_env \<Rightarrow> bool \<Rightarrow> ('q, 'f, 'r) host \<Rightarrow> u8 \<times> ('q, 'f, 'r) host" where
  "rcv_cmd_dfu env by_radio w =
     (if \<not> he_dfu env then (RCV_HID_ST_ENOTSUP, w)
      else (RCV_HID_ST_OK, schedule_reset (he_now env) (if by_radio then PENDING_RESET_DFU_OTA else PENDING_RESET_DFU_UF2) w))"

section \<open>Data collection\<close>

definition send_remote :: "nat \<Rightarrow> u8 \<Rightarrow> u8 \<Rightarrow> ('q, 'f, 'r) host \<Rightarrow> ('q, 'f, 'r) host" where
  "send_remote t command_flag arg w =
     on_rc (\<lambda>r. let (e, raw) = esb_send_remote_command_arg t command_flag arg (rc_esb r, rc_raw r)
       in r\<lparr>rc_esb := e, rc_raw := raw\<rparr>) w"

definition on_collect :: "(data_collect \<Rightarrow> data_collect) \<Rightarrow> ('q, 'f, 'r) host \<Rightarrow> ('q, 'f, 'r) host" where
  "on_collect f = on_rc (\<lambda>r. r\<lparr>rc_collect := f (rc_collect r)\<rparr>)"

definition rcv_cmd_collect_stop :: "('q, 'f, 'r) host_env \<Rightarrow> ('q, 'f, 'r) host \<Rightarrow> u8 \<times> ('q, 'f, 'r) host" where
  "rcv_cmd_collect_stop env w =
     (if \<not> he_collect env then (RCV_HID_ST_ENOTSUP, w)
      else
        let d = rc_collect (hc_rc w)
        in (RCV_HID_ST_OK,
            if data_collect_is_active d
            then send_remote (unat (data_collect_get_target_id d)) ESB_PONG_FLAG_DATA_COLLECT_OFF 0 (on_collect data_collect_stop w)
            else w))"

definition send_each :: "(nat \<Rightarrow> bool) \<Rightarrow> u8 \<Rightarrow> u8 \<Rightarrow> ('q, 'f, 'r) host \<Rightarrow> ('q, 'f, 'r) host" where
  "send_each targets command_flag arg w =
     fold (\<lambda>i w. if targets i then send_remote i command_flag arg w else w) [0..<MAX_TRACKERS] w"

definition rcv_cmd_collect_batch_stop :: "('q, 'f, 'r) host_env \<Rightarrow> ('q, 'f, 'r) host \<Rightarrow> u8 \<times> ('q, 'f, 'r) host" where
  "rcv_cmd_collect_batch_stop env w =
     (if \<not> he_collect env then (RCV_HID_ST_ENOTSUP, w)
      else
        let d = rc_collect (hc_rc w)
        in (RCV_HID_ST_OK,
            if data_collect_batch_is_active d
            then send_each (\<lambda>i. data_collect_batch_is_target i d) ESB_PONG_FLAG_DATA_COLLECT_BATCH_OFF 0 (on_collect data_collect_batch_stop w)
            else w))"

definition rcv_cmd_collect_start :: "('q, 'f, 'r) host_env \<Rightarrow> u8 \<Rightarrow> ('q, 'f, 'r) host \<Rightarrow> u8 \<times> ('q, 'f, 'r) host" where
  "rcv_cmd_collect_start env tracker_id w =
     (if \<not> he_collect env then (RCV_HID_ST_ENOTSUP, w)
      else if MAX_TRACKERS \<le> unat tracker_id then (RCV_HID_ST_EINVAL, w)
      else
        let (err, w1) = on_esb (esb_radio_collection_begin (he_peers env)) w
        in if err \<noteq> None then (RCV_HID_ST_EBUSY, w1)
           else
             let w2 = snd (rcv_cmd_collect_stop env (snd (rcv_cmd_collect_batch_stop env w1)));
                 w3 = send_remote (unat tracker_id) ESB_PONG_FLAG_DATA_COLLECT_ON 0
                   (on_collect (data_collect_start tracker_id (he_now env)) w2)
             in (RCV_HID_ST_OK, snd (on_esb (\<lambda>e. ((), esb_radio_operation_end e)) w3)))"

definition rcv_cmd_collect_batch_start :: "('q, 'f, 'r) host_env \<Rightarrow> u16 \<Rightarrow> ('q, 'f, 'r) host \<Rightarrow> u8 \<times> ('q, 'f, 'r) host" where
  "rcv_cmd_collect_batch_start env rate_hz w =
     (if \<not> he_collect env then (RCV_HID_ST_ENOTSUP, w)
      else if 255 < rate_hz then (RCV_HID_ST_EINVAL, w)
      else
        let m = paired_mask (rc_esb (hc_rc w))
        in if m = 0 then (RCV_HID_ST_ENOENT, w)
           else
             let (err, w1) = on_esb (esb_radio_collection_begin (he_peers env)) w
             in if err \<noteq> None then (RCV_HID_ST_EBUSY, w1)
                else
                  let w2 = snd (rcv_cmd_collect_batch_stop env (snd (rcv_cmd_collect_stop env w1)));
                      w3 = send_each (mask_has m) ESB_PONG_FLAG_DATA_COLLECT_BATCH_ON (ucast rate_hz)
                        (on_collect (data_collect_batch_start m (he_now env)) w2)
                  in (RCV_HID_ST_OK, snd (on_esb (\<lambda>e. ((), esb_radio_operation_end e)) w3)))"

definition rcv_cmd_collect_meta :: "('q, 'f, 'r) host_env \<Rightarrow> u8 \<Rightarrow> u8 \<Rightarrow> u8 \<Rightarrow> ('q, 'f, 'r) host \<Rightarrow> u8 \<times> ('q, 'f, 'r) host" where
  "rcv_cmd_collect_meta env tracker_id m chunk w =
     (if MAX_TRACKERS \<le> unat tracker_id \<or> m = 0 \<or> m AND NOT ESB_METADATA_MASK_VALID \<noteq> 0 then (RCV_HID_ST_EINVAL, w)
      else
        let (sent, w1) = on_esb (esb_request_metadata (unat tracker_id) m chunk (he_now env)) w
        in (if sent then RCV_HID_ST_QUEUED else RCV_HID_ST_ENOENT, w1))"

section \<open>Commands for the trackers and their completion\<close>

definition remote_hid_send_completion :: "u8 \<Rightarrow> ('q, 'f, 'r) host \<Rightarrow> ('q, 'f, 'r) host" where
  "remote_hid_send_completion status w =
     async_ack (fill_ack (remote_hid_seq (hc_cmd w)) (remote_hid_opcode (hc_cmd w)) status) w"

definition remote_hid_abort :: "('q, 'f, 'r) host \<Rightarrow> ('q, 'f, 'r) host" where
  "remote_hid_abort = on_cmd (\<lambda>c. c\<lparr>remote_hid_pending := False, rh_job := REMOTE_HID_JOB_NONE, remote_hid_timeout_work := None\<rparr>)"

definition remote_hid_finish :: "u8 \<Rightarrow> ('q, 'f, 'r) host \<Rightarrow> ('q, 'f, 'r) host" where
  "remote_hid_finish status w =
     (if \<not> remote_hid_pending (hc_cmd w) then w
      else remote_hid_send_completion status
        (on_cmd (\<lambda>c. c\<lparr>remote_hid_pending := False, remote_hid_timeout_work := None, rh_job := REMOTE_HID_JOB_NONE\<rparr>) w))"

definition remote_hid_arm_expected :: "int \<Rightarrow> u32 \<Rightarrow> ('q, 'f, 'r) host \<Rightarrow> ('q, 'f, 'r) host" where
  "remote_hid_arm_expected now m w =
     (let w1 = on_cmd (\<lambda>c. c\<lparr>remote_hid_confirmed := 0, remote_hid_expected := m\<rparr>) w
      in if m = 0 then remote_hid_finish RCV_HID_ST_ENOENT w1
         else on_cmd (\<lambda>c. c\<lparr>remote_hid_timeout_work := Some (now + REMOTE_HID_CONFIRM_TIMEOUT_MS)\<rparr>) w1)"

definition remote_wom_result :: "zephyr \<Rightarrow> nat \<Rightarrow> u16 \<Rightarrow> u16 \<Rightarrow> ('q, 'f, 'r) host \<Rightarrow> ('q, 'f, 'r) host" where
  "remote_wom_result z t minutes err w =
     (let c = hc_cmd w
      in if remote_wom_console c then w
         else async_ack (take 4 (fill_ack (remote_hid_seq c) (remote_hid_opcode c) RCV_HID_ST_STARTED) @
           [RCV_HID_WOM_RESULT, of_nat t] @ tracker_event_put16 (if err \<noteq> 0 then 0 else minutes) @ tracker_event_put16 err @
           tracker_event_put16 (remote_wom_token c) @ replicate 4 0) w)"

text \<open>One tracker of the poll: nothing yet, or a result, which is reported at once.\<close>

definition wom_poll_one :: "('q, 'f, 'r) host_env \<Rightarrow> nat \<Rightarrow> u32 \<times> ('q, 'f, 'r) host \<Rightarrow> u32 \<times> ('q, 'f, 'r) host" where
  "wom_poll_one env t s =
     (let (confirmed, w) = s; c = hc_cmd w
      in if \<not> mask_has (remote_hid_expected c) t \<or> mask_has (confirmed OR remote_wom_failed c) t then (confirmed, w)
         else
           let (result, w1) = on_esb (esb_get_remote_wom_result (he_ecanceled env) t (remote_wom_token c)) w
           in if result = None \<and> \<not> remote_wom_deadline c \<le> he_now env then (confirmed, w1)
              else
                let (minutes, err) = (case result of Some r \<Rightarrow> r | None \<Rightarrow> (0, he_etimedout env));
                    w2 = (if err \<noteq> 0 then on_cmd (\<lambda>c. c\<lparr>remote_wom_failed := set_bit t (remote_wom_failed c)\<rparr>) w1 else w1)
                in (if err \<noteq> 0 then confirmed else set_bit t confirmed, remote_wom_result (he_zephyr env) t minutes err w2))"

definition remote_wom_poll :: "('q, 'f, 'r) host_env \<Rightarrow> ('q, 'f, 'r) host \<Rightarrow> ('q, 'f, 'r) host" where
  "remote_wom_poll env w =
     (let (confirmed, w1) = fold (wom_poll_one env) [0..<MAX_TRACKERS] (remote_hid_confirmed (hc_cmd w), w);
          w2 = on_cmd (\<lambda>c. c\<lparr>remote_hid_confirmed := confirmed\<rparr>) w1; c = hc_cmd w2; expected = remote_hid_expected c
      in if confirmed OR remote_wom_failed c \<noteq> expected
         then on_cmd (\<lambda>c. c\<lparr>remote_hid_timeout_work := Some (he_now env + 50)\<rparr>) w2
         else
           let w3 = snd (on_esb (\<lambda>e. ((), esb_cancel_remote_wom_command expected (remote_wom_token c) e)) w2);
               summary = take 4 (fill_ack (remote_hid_seq c) (remote_hid_opcode c)
                   (if remote_wom_failed c \<noteq> 0 \<or> expected = 0 then RCV_HID_ST_ENOENT else RCV_HID_ST_OK)) @
                 [RCV_HID_WOM_SUMMARY] @ tracker_event_put16 (remote_wom_token c) @ put_le32 (he_zephyr env) confirmed @
                 put_le32 (he_zephyr env) (remote_wom_failed c) @ [0];
               w4 = (if remote_wom_console c then w3 else async_ack summary w3)
           in on_cmd (\<lambda>c. c\<lparr>rh_job := REMOTE_HID_JOB_NONE, remote_hid_pending := False\<rparr>) w4)"

definition remote_hid_timeout_handler :: "('q, 'f, 'r) host_env \<Rightarrow> ('q, 'f, 'r) host \<Rightarrow> ('q, 'f, 'r) host" where
  "remote_hid_timeout_handler env w =
     (let w1 = on_cmd (\<lambda>c. c\<lparr>remote_hid_timeout_work := None\<rparr>) w
      in if \<not> remote_hid_pending (hc_cmd w1) then w1
         else if rh_job (hc_cmd w1) = REMOTE_HID_JOB_WOM_COMMAND then remote_wom_poll env w1
         else remote_hid_finish RCV_HID_ST_ENOENT w1)"

definition on_remote_confirm :: "nat \<Rightarrow> u8 \<Rightarrow> ('q, 'f, 'r) host \<Rightarrow> ('q, 'f, 'r) host" where
  "on_remote_confirm t flag w =
     (let c = hc_cmd w; expected = remote_hid_expected c
      in if \<not> remote_hid_pending c \<or> flag = ESB_PONG_FLAG_WOM_CONTROL \<or> flag \<noteq> remote_hid_flag c \<or> MAX_TRACKERS \<le> t \<or>
            expected = 0 \<or> \<not> mask_has expected t then w
         else
           let confirmed = set_bit t (remote_hid_confirmed c); w1 = on_cmd (\<lambda>c. c\<lparr>remote_hid_confirmed := confirmed\<rparr>) w
           in if confirmed AND expected = expected then remote_hid_finish RCV_HID_ST_OK w1 else w1)"

text \<open>
  The job of a command for all trackers. The list says which confirmations arrive after the commands were published and before
  the expected mask is set.
\<close>

definition remote_hid_job_send :: "('q, 'f, 'r) host_env \<Rightarrow> ('q, 'f, 'r) host \<Rightarrow> u32 \<times> ('q, 'f, 'r) host" where
  "remote_hid_job_send env w =
     (let c = hc_cmd w
      in case rh_job c of
           REMOTE_HID_JOB_FLAG_ALL \<Rightarrow> on_esb (\<lambda>e. esb_send_remote_command_all (rh_job_flag c) (he_scan_start env) (he_during env e)) w
         | REMOTE_HID_JOB_SENS_AUTO_ALL \<Rightarrow>
             on_esb (\<lambda>e. esb_send_remote_command_sens_auto_all (rh_job_axis c) (rh_job_rev c) (he_scan_start env) (he_during env e)) w
         | REMOTE_HID_JOB_TEST_ON_ALL \<Rightarrow>
             on_esb (esb_send_remote_command_test_on_all (rh_job_tps c) (he_scan_start env) (he_now32 env) (he_during env) (he_later env)) w
         | REMOTE_HID_JOB_TEST_OFF_ALL \<Rightarrow>
             on_esb (esb_send_remote_command_test_off_all (he_scan_start env) (he_now32 env) (he_during env) (he_later env)) w
         | _ \<Rightarrow> (0, w))"

definition remote_hid_job_handler :: "('q, 'f, 'r) host_env \<Rightarrow> (nat \<times> u8) list \<Rightarrow> ('q, 'f, 'r) host \<Rightarrow> ('q, 'f, 'r) host" where
  "remote_hid_job_handler env confirms w =
     (let w1 = on_cmd (\<lambda>c. c\<lparr>remote_hid_job_work := False\<rparr>) w; c = hc_cmd w1
      in if \<not> remote_hid_pending c then w1
         else if rh_job c = REMOTE_HID_JOB_NONE then remote_hid_finish RCV_HID_ST_EINVAL w1
         else if rh_job c = REMOTE_HID_JOB_WOM_COMMAND then
           let (r, w2) = on_esb (\<lambda>e. let (m, token, e1) = esb_send_remote_wom_command RCV_HID_TARGET_ALL (remote_wom_minutes c)
                   (he_scan_start env) (he_during env e) in ((m, token), e1)) w1
           in on_cmd (\<lambda>c. c\<lparr>remote_wom_token := snd r, remote_hid_expected := fst r,
                remote_wom_deadline := he_now env + REMOTE_HID_CONFIRM_TIMEOUT_MS, remote_hid_timeout_work := Some (he_now env + 50)\<rparr>) w2
         else
           let (m, w2) = remote_hid_job_send env w1
           in remote_hid_arm_expected (he_now env) m (fold (\<lambda>(t, flag). on_remote_confirm t flag) confirms w2))"

definition remote_hid_begin :: "u8 \<Rightarrow> u8 \<Rightarrow> u8 \<Rightarrow> ('q, 'f, 'r) host \<Rightarrow> u8 \<times> ('q, 'f, 'r) host" where
  "remote_hid_begin seq opcode flag w =
     (if remote_hid_pending (hc_cmd w) then (RCV_HID_ST_EBUSY, w)
      else (RCV_HID_ST_STARTED, on_cmd (\<lambda>c. c\<lparr>remote_hid_pending := True, remote_hid_seq := seq, remote_hid_opcode := opcode,
        remote_hid_flag := flag, remote_hid_expected := 0, remote_hid_confirmed := 0\<rparr>) w))"

definition submit_job :: "(rcv_cmd \<Rightarrow> rcv_cmd) \<Rightarrow> ('q, 'f, 'r) host \<Rightarrow> ('q, 'f, 'r) host" where
  "submit_job f w = on_cmd (\<lambda>c. (f c)\<lparr>remote_hid_job_work := True\<rparr>) w"

definition remote_wom_begin ::
    "('q, 'f, 'r) host_env \<Rightarrow> u8 \<Rightarrow> u8 \<Rightarrow> u16 \<Rightarrow> bool \<Rightarrow> ('q, 'f, 'r) host \<Rightarrow> u8 \<times> ('q, 'f, 'r) host" where
  "remote_wom_begin env seq target minutes console w =
     (if \<not> wom_minutes_ok minutes \<or> (target \<noteq> RCV_HID_TARGET_ALL \<and> MAX_TRACKERS \<le> unat target) then (RCV_HID_ST_EINVAL, w)
      else
        let (status, w1) = remote_hid_begin seq ESB_PONG_FLAG_WOM_CONTROL ESB_PONG_FLAG_WOM_CONTROL w
        in if status \<noteq> RCV_HID_ST_STARTED then (status, w1)
           else
             let w2 = on_cmd (\<lambda>c. c\<lparr>rh_job := REMOTE_HID_JOB_WOM_COMMAND, remote_wom_console := console,
                   remote_wom_failed := 0, remote_wom_token := 0\<rparr>) w1
             in if target = RCV_HID_TARGET_ALL
                then (RCV_HID_ST_STARTED, submit_job (\<lambda>c. c\<lparr>remote_wom_minutes := minutes\<rparr>) w2)
                else
                  let (r, w3) = on_esb (\<lambda>e. let (m, token, e1) = esb_send_remote_wom_command target minutes (he_scan_start env) e
                          in ((m, token), e1)) w2
                  in if fst r = 0 then (RCV_HID_ST_ENOENT, remote_hid_abort w3)
                     else (RCV_HID_ST_STARTED, on_cmd (\<lambda>c. c\<lparr>remote_wom_token := snd r, remote_hid_expected := fst r,
                       remote_wom_deadline := he_now env + REMOTE_HID_CONFIRM_TIMEOUT_MS,
                       remote_hid_timeout_work := Some (he_now env + 50)\<rparr>) w3))"

definition rcv_cmd_remote_wom_command ::
    "('q, 'f, 'r) host_env \<Rightarrow> u8 \<Rightarrow> u16 \<Rightarrow> ('q, 'f, 'r) host \<Rightarrow> u8 \<times> ('q, 'f, 'r) host" where
  "rcv_cmd_remote_wom_command env target_id minutes = remote_wom_begin env 0 target_id minutes True"

definition rcv_hid_opcode_is_pong_flag :: "u8 \<Rightarrow> bool" where
  "rcv_hid_opcode_is_pong_flag op \<longleftrightarrow> 0x01 \<le> op \<and> op \<le> 0x28 \<or> 0x30 \<le> op \<and> op \<le> 0x33"

definition rcv_cmd_remote_flag ::
    "('q, 'f, 'r) host_env \<Rightarrow> u8 \<Rightarrow> u8 \<Rightarrow> ('q, 'f, 'r) host \<Rightarrow> u8 \<times> ('q, 'f, 'r) host" where
  "rcv_cmd_remote_flag env target_id flag w =
     (if \<not> rcv_hid_opcode_is_pong_flag flag then (RCV_HID_ST_EINVAL, w)
      else if flag = ESB_PONG_FLAG_DATA_COLLECT_ON then rcv_cmd_collect_start env target_id w
      else if flag = ESB_PONG_FLAG_DATA_COLLECT_BATCH_ON then (RCV_HID_ST_EINVAL, w)
      else if flag = ESB_PONG_FLAG_DATA_COLLECT_OFF then rcv_cmd_collect_stop env w
      else if flag = ESB_PONG_FLAG_DATA_COLLECT_BATCH_OFF then rcv_cmd_collect_batch_stop env w
      else if flag \<in> {ESB_PONG_FLAG_SET_CHANNEL, ESB_PONG_FLAG_CLEAR_CHANNEL, ESB_PONG_FLAG_WOM_CONTROL,
          ESB_PONG_FLAG_TEST_MODE_ON, ESB_PONG_FLAG_TEST_MODE_OFF} then (RCV_HID_ST_EINVAL, w)
      else if target_id = RCV_HID_TARGET_ALL
      then (RCV_HID_ST_QUEUED, snd (on_esb (\<lambda>e. esb_send_remote_command_all flag (he_scan_start env) (he_during env e)) w))
      else if MAX_TRACKERS \<le> unat target_id then (RCV_HID_ST_EINVAL, w)
      else (RCV_HID_ST_QUEUED, send_remote (unat target_id) flag 0 w))"

definition rcv_cmd_remote_flag_hid ::
    "('q, 'f, 'r) host_env \<Rightarrow> u8 \<Rightarrow> u8 \<Rightarrow> u8 \<Rightarrow> u8 \<Rightarrow> ('q, 'f, 'r) host \<Rightarrow> u8 \<times> ('q, 'f, 'r) host" where
  "rcv_cmd_remote_flag_hid env seq opcode target_id flag w =
     (if \<not> rcv_hid_opcode_is_pong_flag flag then (RCV_HID_ST_EINVAL, w)
      else if flag \<in> {ESB_PONG_FLAG_DATA_COLLECT_ON, ESB_PONG_FLAG_DATA_COLLECT_OFF, ESB_PONG_FLAG_DATA_COLLECT_BATCH_ON,
          ESB_PONG_FLAG_DATA_COLLECT_BATCH_OFF} then rcv_cmd_remote_flag env target_id flag w
      else
        let (st, w1) = remote_hid_begin seq opcode flag w
        in if st \<noteq> RCV_HID_ST_STARTED then (st, w1)
           else if target_id = RCV_HID_TARGET_ALL
           then (RCV_HID_ST_STARTED, submit_job (\<lambda>c. c\<lparr>rh_job := REMOTE_HID_JOB_FLAG_ALL, rh_job_flag := flag\<rparr>) w1)
           else if MAX_TRACKERS \<le> unat target_id then (RCV_HID_ST_EINVAL, remote_hid_abort w1)
           else (RCV_HID_ST_STARTED, send_remote (unat target_id) flag 0
             (remote_hid_arm_expected (he_now env) (set_bit (unat target_id) 0) w1)))"

text \<open>
  The three sensitivities arrive in hundredths, are divided as single precision numbers, and are
  multiplied and cut again by the radio component. The nearest number to \<open>n / d\<close> with a mantissa of 24 bits is given
  by the mantissa and the negative exponent, for quotients below two to the power of 24.
\<close>

definition round_half_even :: "int \<Rightarrow> int \<Rightarrow> int" where
  "round_half_even n d =
     (let q = n div d; r = n mod d in if 2 * r < d \<or> (2 * r = d \<and> even q) then q else q + 1)"

primrec f32_shift :: "nat \<Rightarrow> int \<Rightarrow> int \<Rightarrow> nat \<Rightarrow> nat" where
  "f32_shift 0 n d k = k"
| "f32_shift (Suc fuel) n d k = (if n * 2 ^ k < 2 ^ 23 * d then f32_shift fuel n d (Suc k) else k)"

definition f32 :: "int \<Rightarrow> int \<Rightarrow> int \<times> nat" where
  "f32 n d = (let k = f32_shift 64 n d 0 in (round_half_even (n * 2 ^ k) d, k))"

definition sens_of :: "u16 \<Rightarrow> u16" where
  "sens_of x =
     (if x = 0 then 0
      else
        let i = sint x; (m, k) = f32 (abs i) 100; (m1, k1) = f32 (m * 100) (2 ^ k)
        in of_int (sgn i * (m1 div 2 ^ k1)))"

definition stored_mask :: "esb \<Rightarrow> u32" where
  "stored_mask e = fold (\<lambda>i m. set_bit i m) [0..<min (stored_trackers e) MAX_TRACKERS] 0"

definition send_sens_all :: "u16 list \<Rightarrow> ('q, 'f, 'r) host \<Rightarrow> ('q, 'f, 'r) host" where
  "send_sens_all sens w =
     snd (on_esb (\<lambda>e. ((), fold (\<lambda>i e. esb_send_remote_command_sens i sens e) [0..<min (stored_trackers e) MAX_TRACKERS] e)) w)"

definition rcv_cmd_remote_sens_set :: "u8 \<Rightarrow> u16 list \<Rightarrow> ('q, 'f, 'r) host \<Rightarrow> u8 \<times> ('q, 'f, 'r) host" where
  "rcv_cmd_remote_sens_set target_id sens w =
     (if target_id = RCV_HID_TARGET_ALL then (RCV_HID_ST_QUEUED, send_sens_all sens w)
      else if MAX_TRACKERS \<le> unat target_id then (RCV_HID_ST_EINVAL, w)
      else (RCV_HID_ST_QUEUED, snd (on_esb (\<lambda>e. ((), esb_send_remote_command_sens (unat target_id) sens e)) w)))"

definition rcv_cmd_remote_sens_set_hid ::
    "('q, 'f, 'r) host_env \<Rightarrow> u8 \<Rightarrow> u8 \<Rightarrow> u8 \<Rightarrow> u16 list \<Rightarrow> ('q, 'f, 'r) host \<Rightarrow> u8 \<times> ('q, 'f, 'r) host" where
  "rcv_cmd_remote_sens_set_hid env seq opcode target_id sens w =
     (let (st, w1) = remote_hid_begin seq opcode ESB_PONG_FLAG_SENS_SET w
      in if st \<noteq> RCV_HID_ST_STARTED then (st, w1)
         else if target_id = RCV_HID_TARGET_ALL then
           let m = stored_mask (rc_esb (hc_rc w1)); w2 = remote_hid_arm_expected (he_now env) m w1
           in (RCV_HID_ST_STARTED, if m = 0 then w2 else send_sens_all sens w2)
         else if MAX_TRACKERS \<le> unat target_id then (RCV_HID_ST_EINVAL, remote_hid_abort w1)
         else (RCV_HID_ST_STARTED, snd (on_esb (\<lambda>e. ((), esb_send_remote_command_sens (unat target_id) sens e))
           (remote_hid_arm_expected (he_now env) (set_bit (unat target_id) 0) w1))))"

definition rcv_cmd_remote_sens_auto ::
    "('q, 'f, 'r) host_env \<Rightarrow> u8 \<Rightarrow> u8 \<Rightarrow> u16 \<Rightarrow> ('q, 'f, 'r) host \<Rightarrow> u8 \<times> ('q, 'f, 'r) host" where
  "rcv_cmd_remote_sens_auto env target_id axis revolutions w =
     (if 2 < axis then (RCV_HID_ST_EINVAL, w)
      else if target_id = RCV_HID_TARGET_ALL
      then (RCV_HID_ST_QUEUED, snd (on_esb (\<lambda>e. esb_send_remote_command_sens_auto_all axis revolutions (he_scan_start env) (he_during env e)) w))
      else if MAX_TRACKERS \<le> unat target_id then (RCV_HID_ST_EINVAL, w)
      else
        let (sent, w1) = on_esb (esb_send_remote_command_sens_auto (unat target_id) axis revolutions (he_now env)) w
        in (if sent then RCV_HID_ST_QUEUED else RCV_HID_ST_EINVAL, w1))"

definition rcv_cmd_remote_sens_auto_hid ::
    "('q, 'f, 'r) host_env \<Rightarrow> u8 \<Rightarrow> u8 \<Rightarrow> u8 \<Rightarrow> u8 \<Rightarrow> u16 \<Rightarrow> ('q, 'f, 'r) host \<Rightarrow> u8 \<times> ('q, 'f, 'r) host" where
  "rcv_cmd_remote_sens_auto_hid env seq opcode target_id axis revolutions w =
     (if 2 < axis then (RCV_HID_ST_EINVAL, w)
      else
        let (st, w1) = remote_hid_begin seq opcode ESB_PONG_FLAG_SENS_AUTO w
        in if st \<noteq> RCV_HID_ST_STARTED then (st, w1)
           else if target_id = RCV_HID_TARGET_ALL
           then (RCV_HID_ST_STARTED, submit_job (\<lambda>c. c\<lparr>rh_job := REMOTE_HID_JOB_SENS_AUTO_ALL, rh_job_axis := axis,
             rh_job_rev := revolutions\<rparr>) w1)
           else if MAX_TRACKERS \<le> unat target_id then (RCV_HID_ST_EINVAL, remote_hid_abort w1)
           else
             let (sent, w2) = on_esb (esb_send_remote_command_sens_auto (unat target_id) axis revolutions (he_now env))
                   (remote_hid_arm_expected (he_now env) (set_bit (unat target_id) 0) w1)
             in if sent then (RCV_HID_ST_STARTED, w2) else (RCV_HID_ST_EINVAL, remote_hid_abort w2))"

definition rcv_cmd_remote_test_on_hid ::
    "('q, 'f, 'r) host_env \<Rightarrow> u8 \<Rightarrow> u8 \<Rightarrow> u8 \<Rightarrow> u16 \<Rightarrow> ('q, 'f, 'r) host \<Rightarrow> u8 \<times> ('q, 'f, 'r) host" where
  "rcv_cmd_remote_test_on_hid env seq opcode target_id tps w =
     (if 1000 < tps then (RCV_HID_ST_EINVAL, w)
      else
        let (st, w1) = remote_hid_begin seq opcode ESB_PONG_FLAG_TEST_MODE_ON w
        in if st \<noteq> RCV_HID_ST_STARTED then (st, w1)
           else if target_id = RCV_HID_TARGET_ALL
           then (RCV_HID_ST_STARTED, submit_job (\<lambda>c. c\<lparr>rh_job := REMOTE_HID_JOB_TEST_ON_ALL, rh_job_tps := tps\<rparr>) w1)
           else if MAX_TRACKERS \<le> unat target_id then (RCV_HID_ST_EINVAL, remote_hid_abort w1)
           else (RCV_HID_ST_STARTED, snd (on_esb (esb_send_remote_command_test_on (unat target_id) tps)
             (remote_hid_arm_expected (he_now env) (set_bit (unat target_id) 0) w1))))"

definition rcv_cmd_remote_test_off_hid ::
    "('q, 'f, 'r) host_env \<Rightarrow> u8 \<Rightarrow> u8 \<Rightarrow> u8 \<Rightarrow> ('q, 'f, 'r) host \<Rightarrow> u8 \<times> ('q, 'f, 'r) host" where
  "rcv_cmd_remote_test_off_hid env seq opcode target_id w =
     (let (st, w1) = remote_hid_begin seq opcode ESB_PONG_FLAG_TEST_MODE_OFF w
      in if st \<noteq> RCV_HID_ST_STARTED then (st, w1)
         else if target_id = RCV_HID_TARGET_ALL
         then (RCV_HID_ST_STARTED, submit_job (\<lambda>c. c\<lparr>rh_job := REMOTE_HID_JOB_TEST_OFF_ALL\<rparr>) w1)
         else if MAX_TRACKERS \<le> unat target_id then (RCV_HID_ST_EINVAL, remote_hid_abort w1)
         else (RCV_HID_ST_STARTED, snd (on_esb (esb_send_remote_command_test_off (unat target_id))
           (remote_hid_arm_expected (he_now env) (set_bit (unat target_id) 0) w1))))"

definition rcv_cmd_remote_test_on ::
    "('q, 'f, 'r) host_env \<Rightarrow> u8 \<Rightarrow> u16 \<Rightarrow> ('q, 'f, 'r) host \<Rightarrow> u8 \<times> ('q, 'f, 'r) host" where
  "rcv_cmd_remote_test_on env target_id tps w =
     (if 1000 < tps then (RCV_HID_ST_EINVAL, w)
      else if target_id = RCV_HID_TARGET_ALL then
        let (m, w1) = on_esb (esb_send_remote_command_test_on_all tps (he_scan_start env) (he_now32 env) (he_during env) (he_later env)) w
        in (if m \<noteq> 0 then RCV_HID_ST_STARTED else RCV_HID_ST_ENOENT, w1)
      else if MAX_TRACKERS \<le> unat target_id then (RCV_HID_ST_EINVAL, w)
      else (RCV_HID_ST_OK, snd (on_esb (esb_send_remote_command_test_on (unat target_id) tps) w)))"

definition rcv_cmd_remote_test_off :: "('q, 'f, 'r) host_env \<Rightarrow> u8 \<Rightarrow> ('q, 'f, 'r) host \<Rightarrow> u8 \<times> ('q, 'f, 'r) host" where
  "rcv_cmd_remote_test_off env target_id w =
     (if target_id = RCV_HID_TARGET_ALL then
        let (m, w1) = on_esb (esb_send_remote_command_test_off_all (he_scan_start env) (he_now32 env) (he_during env) (he_later env)) w
        in (if m \<noteq> 0 then RCV_HID_ST_STARTED else RCV_HID_ST_ENOENT, w1)
      else if MAX_TRACKERS \<le> unat target_id then (RCV_HID_ST_EINVAL, w)
      else (RCV_HID_ST_OK, snd (on_esb (esb_send_remote_command_test_off (unat target_id)) w)))"

section \<open>The channel of all trackers\<close>

definition arm_ch_hid_completion :: "u8 \<Rightarrow> u8 \<Rightarrow> ('q, 'f, 'r) host \<Rightarrow> ('q, 'f, 'r) host" where
  "arm_ch_hid_completion seq opcode = on_cmd (\<lambda>c. c\<lparr>ch_hid_seq := seq, ch_hid_opcode := opcode, ch_hid_pending := True\<rparr>)"

definition on_tracker_channel_done :: "bool \<Rightarrow> ('q, 'f, 'r) host \<Rightarrow> ('q, 'f, 'r) host" where
  "on_tracker_channel_done success w =
     (let c = hc_cmd w
      in if ch_hid_pending c
         then async_ack (fill_ack (ch_hid_seq c) (ch_hid_opcode c) (if success then RCV_HID_ST_OK else RCV_HID_ST_ENOENT))
           (on_cmd (\<lambda>c. c\<lparr>ch_hid_pending := False\<rparr>) w)
         else w)"

definition map_esb_channel_err :: "errno option \<Rightarrow> u8" where
  "map_esb_channel_err err = (case err of None \<Rightarrow> RCV_HID_ST_STARTED | Some e \<Rightarrow> if e = EBUSY then RCV_HID_ST_EBUSY else RCV_HID_ST_EINVAL)"

definition channel_request :: "(esb \<Rightarrow> errno option \<times> channel_action list \<times> esb) \<Rightarrow> ('q, 'f, 'r) host \<Rightarrow> u8 \<times> ('q, 'f, 'r) host" where
  "channel_request f w =
     (let (r, w1) = on_esb (\<lambda>e. let (err, acts, e1) = f e in ((err, acts), e1)) w
      in (map_esb_channel_err (fst r), emit (map HostChannel (snd r)) w1))"

definition rcv_cmd_tracker_channel_all :: "('q, 'f, 'r) host_env \<Rightarrow> u8 \<Rightarrow> ('q, 'f, 'r) host \<Rightarrow> u8 \<times> ('q, 'f, 'r) host" where
  "rcv_cmd_tracker_channel_all env channel w =
     (if 100 < channel then (RCV_HID_ST_EINVAL, w)
      else channel_request (esb_set_all_trackers_channel (he_rf_default env) (he_peers env) channel (he_now env)) w)"

definition rcv_cmd_tracker_channel_clear_all :: "('q, 'f, 'r) host_env \<Rightarrow> ('q, 'f, 'r) host \<Rightarrow> u8 \<times> ('q, 'f, 'r) host" where
  "rcv_cmd_tracker_channel_clear_all env w =
     channel_request (esb_clear_all_trackers_channel (he_rf_default env) (he_peers env) (he_now env)) w"

text \<open>The poll of the radio thread with its callback into this component.\<close>

definition host_channel_poll :: "('q, 'f, 'r) host_env \<Rightarrow> ('q, 'f, 'r) host \<Rightarrow> ('q, 'f, 'r) host" where
  "host_channel_poll env w =
     (let (acts, c) = channel_change_poll (he_ops env) (he_nvs env) (he_rf_default env) (he_now env) (channel_world_of w)
      in fold (\<lambda>act w. case act of ChannelChangeDone ok \<Rightarrow> on_tracker_channel_done ok w | _ \<Rightarrow> emit [HostChannel act] w) acts
           (with_channel_world c w))"

section \<open>The commands of the host\<close>

definition wom_args_ok :: "u8 \<Rightarrow> bytes \<Rightarrow> bool" where
  "wom_args_ok flags args \<longleftrightarrow> 3 \<le> length args \<and> flags = 0 \<and> list_all (\<lambda>b. b = 0) (drop 3 args)"

text \<open>A command for the trackers: the opcode is the flag, the first argument is the tracker.\<close>

definition tracker_command ::
    "('q, 'f, 'r) host_env \<Rightarrow> u8 \<Rightarrow> u8 \<Rightarrow> u8 \<Rightarrow> bytes \<Rightarrow> ('q, 'f, 'r) host \<Rightarrow> u8 \<times> ('q, 'f, 'r) host" where
  "tracker_command env seq opcode flags args w =
     (let target = (if 1 \<le> length args then args ! 0 else RCV_HID_TARGET_ALL)
      in if opcode = ESB_PONG_FLAG_WOM_CONTROL then
           if wom_args_ok flags args then remote_wom_begin env seq target (tracker_event_get16 (drop 1 args)) False w
           else (RCV_HID_ST_EINVAL, w)
         else if opcode = ESB_PONG_FLAG_SENS_SET then
           if length args < 7 then (RCV_HID_ST_EINVAL, w)
           else rcv_cmd_remote_sens_set_hid env seq opcode target
             (map (\<lambda>i. sens_of (tracker_event_get16 (drop i args))) [1, 3, 5]) w
         else if opcode = ESB_PONG_FLAG_SENS_AUTO then
           if length args < 4 then (RCV_HID_ST_EINVAL, w)
           else rcv_cmd_remote_sens_auto_hid env seq opcode target (args ! 1) (tracker_event_get16 (drop 2 args)) w
         else if opcode = ESB_PONG_FLAG_TEST_MODE_ON then
           if length args = 2 then (RCV_HID_ST_EINVAL, w)
           else rcv_cmd_remote_test_on_hid env seq opcode target
             (if 3 \<le> length args then tracker_event_get16 (drop 1 args) else 0) w
         else if opcode = ESB_PONG_FLAG_TEST_MODE_OFF then rcv_cmd_remote_test_off_hid env seq opcode target w
         else if opcode = ESB_PONG_FLAG_SET_CHANNEL \<or> opcode = ESB_PONG_FLAG_CLEAR_CHANNEL then (RCV_HID_ST_EINVAL, w)
         else rcv_cmd_remote_flag_hid env seq opcode target opcode w)"

definition arm_if_started :: "u8 \<Rightarrow> u8 \<Rightarrow> u8 \<times> ('q, 'f, 'r) host \<Rightarrow> u8 \<times> ('q, 'f, 'r) host" where
  "arm_if_started seq opcode r =
     (let (status, w) = r in (status, if status = RCV_HID_ST_STARTED then arm_ch_hid_completion seq opcode w else w))"

text \<open>
  A command for the receiver. The three commands that only print (206, 210, 211) and the empty one (220)
  change nothing.
\<close>

definition dongle_command ::
    "('q, 'f, 'r) host_env \<Rightarrow> u8 \<Rightarrow> u8 \<Rightarrow> bytes \<Rightarrow> ('q, 'f, 'r) host \<Rightarrow> u8 \<times> ('q, 'f, 'r) host" where
  "dongle_command env seq opcode args w =
     (let first = (if 1 \<le> length args then args ! 0 else 0)
      in if opcode = 220 \<or> opcode = 206 \<or> opcode = 210 \<or> opcode = 211 then (RCV_HID_ST_OK, w)
         else if opcode = 201 then rcv_cmd_pair env first w
         else if opcode = 202 then rcv_cmd_exit_pair w
         else if opcode = 203 then rcv_cmd_clear env w
         else if opcode = 205 then rcv_cmd_remove env w
         else if opcode = 207 then rcv_cmd_channel_set env first w
         else if opcode = 208 then rcv_cmd_channel_clear env w
         else if opcode = 209 then rcv_cmd_rssi_scan w
         else if opcode = 212 then rcv_cmd_stats env (if 4 \<le> length args then tracker_event_get32 args else 0) w
         else if opcode = 213 then rcv_cmd_resetstats w
         else if opcode = 214 then rcv_cmd_collect_start env first w
         else if opcode = 215 then rcv_cmd_collect_stop env w
         else if opcode = 221 then
           if length args < 2 then (RCV_HID_ST_EINVAL, w) else rcv_cmd_collect_batch_start env (tracker_event_get16 args) w
         else if opcode = 223 then
           if length args < 3 then (RCV_HID_ST_EINVAL, w) else rcv_cmd_collect_meta env (args ! 0) (args ! 1) (args ! 2) w
         else if opcode = 222 then rcv_cmd_collect_batch_stop env w
         else if opcode = 216 then rcv_cmd_reboot env w
         else if opcode = 217 then rcv_cmd_dfu env (first \<noteq> 0) w
         else if opcode = 218 then arm_if_started seq opcode (rcv_cmd_tracker_channel_all env first w)
         else if opcode = 219 then arm_if_started seq opcode (rcv_cmd_tracker_channel_clear_all env w)
         else (RCV_HID_ST_EINVAL, w))"

definition events_status :: "errno \<Rightarrow> u8" where
  "events_status e =
     (if e = ENOTSUP then RCV_HID_ST_ENOTSUP else if e = ENOENT \<or> e = ENOTCONN then RCV_HID_ST_ENOENT else RCV_HID_ST_EINVAL)"

definition events_command ::
    "('q, 'f, 'r) host_env \<Rightarrow> u8 \<Rightarrow> u8 \<Rightarrow> bytes \<Rightarrow> u32 \<Rightarrow> ('q, 'f, 'r) host \<Rightarrow> bytes \<times> ('q, 'f, 'r) host" where
  "events_command env seq flags args generation w =
     (if flags \<noteq> 0 then (fill_ack seq RCV_HID_OP_TRACKER_EVENTS RCV_HID_ST_EINVAL, w)
      else
        let (r, st) = tracker_events_control (rc_events (hc_rc w)) args generation (he_now32 env);
            w1 = w\<lparr>hc_rc := (hc_rc w)\<lparr>rc_events := st\<rparr>\<rparr>
        in case r of
             Inr result \<Rightarrow> (take 4 (fill_ack seq RCV_HID_OP_TRACKER_EVENTS RCV_HID_ST_OK) @ result, w1)
           | Inl e \<Rightarrow> (fill_ack seq RCV_HID_OP_TRACKER_EVENTS (events_status e), w1))"

text \<open>The answer is \<open>None\<close> where the code returns false.\<close>

definition rcv_cmd_process_hid ::
    "('q, 'f, 'r) host_env \<Rightarrow> bytes \<Rightarrow> u32 \<Rightarrow> ('q, 'f, 'r) host \<Rightarrow> bytes option \<times> ('q, 'f, 'r) host" where
  "rcv_cmd_process_hid env buf generation w =
     (if length buf < 4 \<or> buf ! 0 \<noteq> RCV_HID_TYPE_CMD then (None, w)
      else
        let seq = buf ! 1; opcode = buf ! 2; args = take 12 (drop 4 buf)
        in if opcode = RCV_HID_OP_TRACKER_EVENTS then
             let (ack, w1) = events_command env seq (buf ! 3) args generation w in (Some ack, w1)
           else if rcv_hid_opcode_is_pong_flag opcode then
             let (status, w1) = tracker_command env seq opcode (buf ! 3) args w in (Some (fill_ack seq opcode status), w1)
           else if opcode = 204 then
             let (status, slot, w1) = (if length args < 6 then (RCV_HID_ST_EINVAL, None, w)
                   else rcv_cmd_add env (address_of_bytes args) w); ack = fill_ack seq opcode status
             in (Some (case slot of Some i \<Rightarrow> ack[4 := of_nat i] | None \<Rightarrow> ack), w1)
           else
             let (status, w1) = dongle_command env seq opcode args w; ack = fill_ack seq opcode status
             in (Some (if opcode = 212 \<and> status = RCV_HID_ST_OK then ack[4 := (if stats_detailed_enabled w1 then 1 else 0)] else ack), w1))"

end
