(* ===== verification/HostCommandsCorrect.thy ===== *)
theory HostCommandsCorrect
  imports HostCommands
begin

text \<open>
  Runs of the command component: reports of the host, commands of the console, confirmations of trackers, the work items that
  are due, the poll of the channel machine, and any change of the rest of the receiver, in any order. The
  completions sent to the host are compared with the commands that were answered with ``started''.
\<close>

section \<open>Runs\<close>

datatype ('q, 'f, 'r) host_event = HidReport bytes u32 | ConsoleWom u8 u16 | ConsoleFlag u8 u8 | ConsoleSens u8 "u16 list"
  | ConsoleSensAuto u8 u8 u16 | ConsoleTestOn u8 u16 | ConsoleTestOff u8 | RemoteConfirm nat u8
  | JobRuns "(nat \<times> u8) list" | TimeoutRuns | ResetRuns | ScanRuns | ChannelPoll | Elsewhere "('q, 'f) receiver" 'r

definition started_by :: "bytes option \<Rightarrow> (u8 \<times> u8) list" where
  "started_by reply =
     (case reply of
        Some ack \<Rightarrow> if rcv_hid_opcode_is_pong_flag (ack ! 2) \<and> ack ! 3 = RCV_HID_ST_STARTED then [(ack ! 1, ack ! 2)] else []
      | None \<Rightarrow> [])"

fun host_step ::
    "('q, 'f, 'r) host_env \<Rightarrow> ('q, 'f, 'r) host_event \<Rightarrow> ('q, 'f, 'r) host \<Rightarrow> (u8 \<times> u8) list \<times> ('q, 'f, 'r) host" where
  "host_step env (HidReport buf generation) w =
     (let (reply, w1) = rcv_cmd_process_hid env buf generation w in (started_by reply, w1))"
| "host_step env (ConsoleWom t minutes) w = ([], snd (rcv_cmd_remote_wom_command env t minutes w))"
| "host_step env (ConsoleFlag t flag) w = ([], snd (rcv_cmd_remote_flag env t flag w))"
| "host_step env (ConsoleSens t sens) w = ([], snd (rcv_cmd_remote_sens_set t sens w))"
| "host_step env (ConsoleSensAuto t axis revolutions) w = ([], snd (rcv_cmd_remote_sens_auto env t axis revolutions w))"
| "host_step env (ConsoleTestOn t tps) w = ([], snd (rcv_cmd_remote_test_on env t tps w))"
| "host_step env (ConsoleTestOff t) w = ([], snd (rcv_cmd_remote_test_off env t w))"
| "host_step env (RemoteConfirm t flag) w = ([], on_remote_confirm t flag w)"
| "host_step env (JobRuns confirms) w =
     ([], if remote_hid_job_work (hc_cmd w) then remote_hid_job_handler env confirms w else w)"
| "host_step env TimeoutRuns w =
     ([], if remote_hid_timeout_work (hc_cmd w) \<noteq> None then remote_hid_timeout_handler env w else w)"
| "host_step env ResetRuns w = ([], if reset_work (hc_cmd w) \<noteq> None then reset_work_handler w else w)"
| "host_step env ScanRuns w = ([], if rssi_scan_work (hc_cmd w) then rssi_scan_work_handler w else w)"
| "host_step env ChannelPoll w = ([], host_channel_poll env w)"
| "host_step env (Elsewhere r radio) w = ([], w\<lparr>hc_rc := r, hc_radio := radio\<rparr>)"

definition rcv_cmd_boot :: rcv_cmd where
  "rcv_cmd_boot = \<lparr>rssi_scan_busy = False, ch_hid_pending = False, ch_hid_seq = 0, ch_hid_opcode = 0, async_ack_fn = False,
     reset_kind = PENDING_RESET_NONE, reset_work = None, remote_hid_pending = False, remote_hid_seq = 0, remote_hid_opcode = 0,
     remote_hid_flag = 0, remote_hid_expected = 0, remote_hid_confirmed = 0, remote_wom_console = False, remote_wom_token = 0,
     remote_wom_failed = 0, remote_wom_deadline = 0, remote_wom_minutes = 0, rh_job = REMOTE_HID_JOB_NONE, rh_job_flag = 0,
     rh_job_axis = 0, rh_job_rev = 0, rh_job_tps = 0, remote_hid_timeout_work = None, remote_hid_job_work = False,
     rssi_scan_work = False\<rparr>"

text \<open>The run starts when the host reports are set up, which registers the sender of completions.\<close>

inductive host_run :: "(u8 \<times> u8) list \<Rightarrow> ('q, 'f, 'r) host \<Rightarrow> bool" where
  boot: "hc_cmd w = rcv_cmd_boot \<Longrightarrow> hc_out w = [] \<Longrightarrow> host_run [] (rcv_cmd_set_async_ack w)"
| step: "host_run started w \<Longrightarrow> host_step env ev w = (s, w1) \<Longrightarrow> host_run (started @ s) w1"

section \<open>What the completions see\<close>

definition completion_of :: "host_action \<Rightarrow> (u8 \<times> u8) option" where
  "completion_of act =
     (case act of AsyncAck ack \<Rightarrow>
        if rcv_hid_opcode_is_pong_flag (ack ! 2) \<and> ack ! 3 \<noteq> RCV_HID_ST_STARTED then Some (ack ! 1, ack ! 2) else None
      | _ \<Rightarrow> None)"

definition completions :: "('q, 'f, 'r) host \<Rightarrow> (u8 \<times> u8) list" where
  "completions w = List.map_filter completion_of (hc_out w)"

definition remote_part :: "rcv_cmd \<Rightarrow> rcv_cmd" where
  "remote_part c = c\<lparr>rssi_scan_busy := False, ch_hid_pending := False, ch_hid_seq := 0, ch_hid_opcode := 0,
     reset_kind := PENDING_RESET_NONE, reset_work := None, rssi_scan_work := False\<rparr>"

definition rv :: "('q, 'f, 'r) host \<Rightarrow> rcv_cmd \<times> (u8 \<times> u8) list" where
  "rv w = (remote_part (hc_cmd w), completions w)"

definition channel_inv :: "('q, 'f, 'r) host \<Rightarrow> bool" where
  "channel_inv w \<longleftrightarrow> (ch_hid_pending (hc_cmd w) \<longrightarrow> \<not> rcv_hid_opcode_is_pong_flag (ch_hid_opcode (hc_cmd w)))"

definition quiet :: "('q, 'f, 'r) host \<Rightarrow> ('q, 'f, 'r) host \<Rightarrow> bool" where
  "quiet w w1 \<longleftrightarrow> (channel_inv w \<longrightarrow> rv w1 = rv w \<and> channel_inv w1)"

lemma quiet_refl [simp]: "quiet w w"
  by (simp add: quiet_def)

lemma quiet_trans: "quiet u v \<Longrightarrow> quiet v w \<Longrightarrow> quiet u w"
  by (simp add: quiet_def)

lemma quiet_same: "hc_cmd w1 = hc_cmd w \<Longrightarrow> completions w1 = completions w \<Longrightarrow> quiet w w1"
  by (simp add: quiet_def rv_def channel_inv_def)

lemma quiet_on_rc [simp]: "quiet u (on_rc f w) \<longleftrightarrow> quiet u w"
  by (simp add: quiet_def rv_def channel_inv_def on_rc_def completions_def)

lemma quiet_rc [simp]: "quiet u (w\<lparr>hc_rc := r\<rparr>) \<longleftrightarrow> quiet u w"
  by (simp add: quiet_def rv_def channel_inv_def completions_def)

lemma quiet_radio [simp]: "quiet u (w\<lparr>hc_radio := r\<rparr>) \<longleftrightarrow> quiet u w"
  by (simp add: quiet_def rv_def channel_inv_def completions_def)

lemma quiet_on_esb [simp]: "quiet u (snd (on_esb f w)) \<longleftrightarrow> quiet u w"
  by (simp add: quiet_def rv_def channel_inv_def on_esb_def completions_def case_prod_beta Let_def)

lemma quiet_emit: "List.map_filter completion_of acts = [] \<Longrightarrow> quiet u (emit acts w) \<longleftrightarrow> quiet u w"
  by (simp add: quiet_def rv_def channel_inv_def emit_def completions_def List.map_filter_def)

lemma quiet_channel_actions [simp]: "quiet u (emit (map HostChannel acts) w) \<longleftrightarrow> quiet u w"
  by (rule quiet_emit) (induction acts; simp add: map_filter_simps completion_of_def)

lemma quiet_channel_world [simp]: "quiet u (with_channel_world c w) \<longleftrightarrow> quiet u w"
  by (simp add: with_channel_world_def quiet_def rv_def channel_inv_def completions_def)

text \<open>The commands of the receiver leave the remote part alone.\<close>

lemma quiet_on_cmd:
  "(\<And>c. remote_part (f c) = remote_part c) \<Longrightarrow> (\<And>c. ch_hid_pending (f c) = ch_hid_pending c \<and> ch_hid_opcode (f c) = ch_hid_opcode c) \<Longrightarrow>
   quiet u (on_cmd f w) \<longleftrightarrow> quiet u w"
  by (simp add: quiet_def rv_def channel_inv_def on_cmd_def completions_def)

lemma quiet_reset [simp]: "quiet u (schedule_reset now kind w) \<longleftrightarrow> quiet u w"
  unfolding schedule_reset_def by (rule quiet_on_cmd) (simp_all add: remote_part_def)

lemma quiet_scan_flags [simp]: "quiet u (on_cmd (\<lambda>c. c\<lparr>rssi_scan_busy := b, rssi_scan_work := d\<rparr>) w) \<longleftrightarrow> quiet u w"
  by (rule quiet_on_cmd) (simp_all add: remote_part_def)

lemma quiet_stats [simp]:
  "quiet u (esb_toggle_stats_detailed w) \<longleftrightarrow> quiet u w" "quiet u (esb_set_stats_detailed now d w) \<longleftrightarrow> quiet u w"
  by (simp_all add: esb_toggle_stats_detailed_def esb_set_stats_detailed_def quiet_def rv_def channel_inv_def completions_def)

lemma quiet_remote [simp]: "quiet u (send_remote t flag arg w) \<longleftrightarrow> quiet u w"
  by (simp add: send_remote_def)

lemma quiet_collect [simp]: "quiet u (on_collect f w) \<longleftrightarrow> quiet u w"
  by (simp add: on_collect_def)

lemma quiet_each [simp]: "quiet u (send_each targets flag arg w) \<longleftrightarrow> quiet u w"
proof -
  have "quiet u (fold (\<lambda>i w. if targets i then send_remote i flag arg w else w) is w) \<longleftrightarrow> quiet u w" for "is"
    by (induction "is" arbitrary: w) simp_all
  then show ?thesis by (simp add: send_each_def)
qed

lemma quiet_stop [simp]:
  "quiet u (snd (rcv_cmd_collect_stop env w)) \<longleftrightarrow> quiet u w" "quiet u (snd (rcv_cmd_collect_batch_stop env w)) \<longleftrightarrow> quiet u w"
  by (simp_all add: rcv_cmd_collect_stop_def rcv_cmd_collect_batch_stop_def Let_def)

lemma quiet_sens_all [simp]: "quiet u (send_sens_all sens w) \<longleftrightarrow> quiet u w"
  by (simp add: send_sens_all_def)

lemma quiet_channel_request [simp]: "quiet u (snd (channel_request f w)) \<longleftrightarrow> quiet u w"
  by (simp add: channel_request_def case_prod_beta Let_def)

lemma quiet_start [simp]:
  "quiet u (snd (rcv_cmd_collect_start env t w)) \<longleftrightarrow> quiet u w" "quiet u (snd (rcv_cmd_collect_batch_start env hz w)) \<longleftrightarrow> quiet u w"
  by (simp_all add: rcv_cmd_collect_start_def rcv_cmd_collect_batch_start_def Let_def case_prod_beta)

lemma quiet_flag [simp]: "quiet u (snd (rcv_cmd_remote_flag env t flag w)) \<longleftrightarrow> quiet u w"
  by (simp add: rcv_cmd_remote_flag_def)

lemma quiet_console [simp]:
  "quiet u (snd (rcv_cmd_remote_sens_set t sens w)) \<longleftrightarrow> quiet u w"
  "quiet u (snd (rcv_cmd_remote_sens_auto env t axis revolutions w)) \<longleftrightarrow> quiet u w"
  "quiet u (snd (rcv_cmd_remote_test_on env t tps w)) \<longleftrightarrow> quiet u w"
  "quiet u (snd (rcv_cmd_remote_test_off env t w)) \<longleftrightarrow> quiet u w"
  by (simp_all add: rcv_cmd_remote_sens_set_def rcv_cmd_remote_sens_auto_def rcv_cmd_remote_test_on_def rcv_cmd_remote_test_off_def
      Let_def case_prod_beta)

lemma quiet_arm:
  assumes "\<not> rcv_hid_opcode_is_pong_flag opcode"
  shows "quiet w (arm_ch_hid_completion seq opcode w)"
  using assms by (simp add: arm_ch_hid_completion_def quiet_def rv_def channel_inv_def on_cmd_def completions_def remote_part_def)

lemma quiet_arm_if_started:
  assumes "\<not> rcv_hid_opcode_is_pong_flag opcode" and "quiet u (snd r)"
  shows "quiet u (snd (arm_if_started seq opcode r))"
proof -
  have "quiet u (arm_ch_hid_completion seq opcode (snd r))" by (rule quiet_trans [OF assms(2) quiet_arm [OF assms(1)]])
  then show ?thesis using assms(2) by (simp add: arm_if_started_def case_prod_beta Let_def)
qed

lemma quiet_dongle_parts [simp]:
  "quiet w (snd (rcv_cmd_pair env n w))" "quiet w (snd (rcv_cmd_exit_pair w))" "quiet w (snd (rcv_cmd_clear env w))"
  "quiet w (snd (rcv_cmd_remove env w))" "quiet w (snd (rcv_cmd_channel_set env n w))" "quiet w (snd (rcv_cmd_channel_clear env w))"
  "quiet w (snd (rcv_cmd_rssi_scan w))" "quiet w (snd (rcv_cmd_stats env d w))" "quiet w (snd (rcv_cmd_resetstats w))"
  "quiet w (snd (rcv_cmd_collect_meta env n m chunk w))" "quiet w (snd (rcv_cmd_reboot env w))" "quiet w (snd (rcv_cmd_dfu env ota w))"
  "quiet w (snd (rcv_cmd_tracker_channel_all env n w))" "quiet w (snd (rcv_cmd_tracker_channel_clear_all env w))"
  by (simp_all add: Let_def rcv_cmd_pair_def rcv_cmd_exit_pair_def rcv_cmd_clear_def
      rcv_cmd_remove_def rcv_cmd_channel_set_def rcv_cmd_channel_clear_def rcv_cmd_rssi_scan_def rcv_cmd_stats_def
      rcv_cmd_resetstats_def rcv_cmd_collect_meta_def rcv_cmd_reboot_def rcv_cmd_dfu_def rcv_cmd_tracker_channel_all_def
      rcv_cmd_tracker_channel_clear_all_def case_prod_beta)

lemma not_tracker_opcodes [simp]: "\<not> rcv_hid_opcode_is_pong_flag 218" "\<not> rcv_hid_opcode_is_pong_flag 219"
  by (simp_all add: rcv_hid_opcode_is_pong_flag_def)

lemma quiet_dongle: "quiet w (snd (dongle_command env seq opcode args w))"
  by (simp add: dongle_command_def Let_def quiet_arm_if_started)

lemma quiet_add: "quiet w (snd (snd (rcv_cmd_add env addr w)))"
  by (simp add: rcv_cmd_add_def split: prod.split sum.split)

lemma quiet_events: "quiet w (snd (events_command env seq flags args generation w))"
  by (simp add: events_command_def Let_def case_prod_beta split: sum.split)

lemma quiet_channel_done: "quiet w (on_tracker_channel_done ok w)"
  by (auto simp: on_tracker_channel_done_def Let_def async_ack_def emit_def on_cmd_def quiet_def rv_def channel_inv_def
      completions_def remote_part_def List.map_filter_def completion_of_def fill_ack_def)

lemma quiet_emit_channel: "quiet w (emit [HostChannel act] w)"
  using quiet_channel_actions [of w "[act]" w] by simp

lemma quiet_channel_poll: "quiet w (host_channel_poll env w)"
proof -
  let ?f = "\<lambda>act w. case act of ChannelChangeDone ok \<Rightarrow> on_tracker_channel_done ok w | _ \<Rightarrow> emit [HostChannel act] w"
  have "quiet v (fold ?f acts v)" for acts and v :: "('a, 'b, 'c) host"
  proof (induction acts arbitrary: v)
    case (Cons act acts)
    have "quiet v (?f act v)" by (simp add: quiet_channel_done quiet_emit_channel split: channel_action.split)
    then show ?case using Cons.IH [of "?f act v"] by (auto intro: quiet_trans)
  qed simp
  then have "quiet w (fold ?f acts (with_channel_world c w))" for acts c
    using quiet_trans [of w "with_channel_world c w" "fold ?f acts (with_channel_world c w)"] by simp
  then show ?thesis by (simp add: host_channel_poll_def case_prod_beta)
qed

lemma quiet_reset_runs: "quiet w (reset_work_handler w)"
proof -
  have "quiet w (on_cmd (\<lambda>c. c\<lparr>reset_kind := PENDING_RESET_NONE, reset_work := None\<rparr>) w)"
    by (subst quiet_on_cmd) (simp_all add: remote_part_def)
  then show ?thesis unfolding reset_work_handler_def
    by (subst quiet_emit) (simp_all add: map_filter_simps completion_of_def split: pending_reset.split)
qed

lemma quiet_scan_runs: "quiet w (rssi_scan_work_handler w)"
  by (simp add: rssi_scan_work_handler_def) (subst quiet_emit; simp add: map_filter_simps completion_of_def)

end
