(* ===== verification/RemoteCompletion.thy ===== *)
theory RemoteCompletion
  imports HostCommandsCorrect
begin

text \<open>
  The invariant of the completions: the commands that were answered with ``started'' are, in this order, those
  whose completion was sent, followed by the one that is pending; and a pending command has its job queued or its timer armed.
\<close>

section \<open>The invariant\<close>

definition wom_masks_ok :: "rcv_cmd \<Rightarrow> bool" where
  "wom_masks_ok c \<longleftrightarrow>
     (\<forall>i. mask_has (remote_hid_confirmed c) i \<or> mask_has (remote_wom_failed c) i \<longrightarrow> mask_has (remote_hid_expected c) i) \<and>
     (\<forall>i. mask_has (remote_hid_expected c) i \<longrightarrow> i < MAX_TRACKERS)"

text \<open>A WOM command of the console holds the machine but is not answered to the host.\<close>

definition outstanding :: "rcv_cmd \<Rightarrow> (u8 \<times> u8) list" where
  "outstanding c =
     (if remote_hid_pending c \<and> \<not> (rh_job c = REMOTE_HID_JOB_WOM_COMMAND \<and> remote_wom_console c)
      then [(remote_hid_seq c, remote_hid_opcode c)] else [])"

definition waits :: "rcv_cmd \<Rightarrow> bool" where
  "waits c \<longleftrightarrow>
     (if remote_hid_pending c
      then rcv_hid_opcode_is_pong_flag (remote_hid_opcode c) \<and>
        (if remote_hid_job_work c
         then remote_hid_timeout_work c = None \<and> rh_job c \<noteq> REMOTE_HID_JOB_NONE \<and> remote_hid_expected c = 0
         else remote_hid_timeout_work c \<noteq> None) \<and>
        (rh_job c = REMOTE_HID_JOB_WOM_COMMAND \<longrightarrow> wom_masks_ok c \<and> remote_hid_flag c = ESB_PONG_FLAG_WOM_CONTROL)
      else \<not> remote_hid_job_work c \<and> remote_hid_timeout_work c = None \<and> rh_job c = REMOTE_HID_JOB_NONE)"

definition host_inv :: "(u8 \<times> u8) list \<Rightarrow> ('q, 'f, 'r) host \<Rightarrow> bool" where
  "host_inv started w \<longleftrightarrow>
     async_ack_fn (hc_cmd w) \<and> channel_inv w \<and> waits (hc_cmd w) \<and> started = completions w @ outstanding (hc_cmd w)"

definition begun :: "(u8 \<times> u8) list \<Rightarrow> u8 \<Rightarrow> u8 \<Rightarrow> u8 \<Rightarrow> ('q, 'f, 'r) host \<Rightarrow> bool" where
  "begun started seq opcode flag w \<longleftrightarrow>
     async_ack_fn (hc_cmd w) \<and> channel_inv w \<and> started = completions w \<and>
     remote_hid_pending (hc_cmd w) \<and> remote_hid_seq (hc_cmd w) = seq \<and> remote_hid_opcode (hc_cmd w) = opcode \<and>
     remote_hid_flag (hc_cmd w) = flag \<and> remote_hid_expected (hc_cmd w) = 0 \<and> remote_hid_confirmed (hc_cmd w) = 0 \<and>
     \<not> remote_hid_job_work (hc_cmd w) \<and> remote_hid_timeout_work (hc_cmd w) = None \<and> rh_job (hc_cmd w) = REMOTE_HID_JOB_NONE"

lemma remote_part_same:
  assumes "remote_part c1 = remote_part c"
  shows "async_ack_fn c1 = async_ack_fn c" "waits c1 = waits c" "outstanding c1 = outstanding c"
    "remote_hid_pending c1 = remote_hid_pending c"
  using assms by (cases c; cases c1; simp add: remote_part_def waits_def outstanding_def wom_masks_ok_def)+

lemma quiet_inv: "host_inv started w \<Longrightarrow> quiet w w1 \<Longrightarrow> host_inv started w1"
  by (simp add: host_inv_def quiet_def rv_def) (metis remote_part_same)

lemma quiet_pending: "host_inv started w \<Longrightarrow> quiet w w1 \<Longrightarrow> remote_hid_pending (hc_cmd w1) = remote_hid_pending (hc_cmd w)"
  by (simp add: host_inv_def quiet_def rv_def) (metis remote_part_same)

lemma on_cmd_parts [simp]:
  "hc_cmd (on_cmd f w) = f (hc_cmd w)" "completions (on_cmd f w) = completions w" "hc_rc (on_cmd f w) = hc_rc w"
  by (simp_all add: on_cmd_def completions_def)

lemma on_esb_parts [simp]:
  "hc_cmd (snd (on_esb f w)) = hc_cmd w" "completions (snd (on_esb f w)) = completions w"
  by (simp_all add: on_esb_def completions_def case_prod_beta Let_def)

lemma async_ack_parts [simp]:
  "hc_cmd (async_ack ack w) = hc_cmd w"
  "completions (async_ack ack w) =
     completions w @ (if async_ack_fn (hc_cmd w) then List.map_filter completion_of [AsyncAck ack] else [])"
  by (simp_all add: async_ack_def emit_def completions_def List.map_filter_def)

lemma channel_inv_on_cmd [simp]:
  "(\<And>c. ch_hid_pending (f c) = ch_hid_pending c \<and> ch_hid_opcode (f c) = ch_hid_opcode c) \<Longrightarrow> channel_inv (on_cmd f w) = channel_inv w"
  by (simp add: channel_inv_def)

lemma channel_inv_other [simp]:
  "channel_inv (snd (on_esb f w)) = channel_inv w" "channel_inv (async_ack ack w) = channel_inv w"
  by (simp_all add: channel_inv_def)

lemma fill_ack_bytes [simp]: "fill_ack seq opcode status ! 1 = seq" "fill_ack seq opcode status ! Suc 0 = seq" "fill_ack seq opcode status ! 2 = opcode"
  "fill_ack seq opcode status ! 3 = status" "take 4 (fill_ack seq opcode status) = [RCV_HID_TYPE_CMD_ACK, seq, opcode, status]"
  by (simp_all add: fill_ack_def)

section \<open>The beginning of a command\<close>

lemma remote_begin_cases:
  assumes "host_inv started w" and "remote_hid_begin seq opcode flag w = (st, w1)"
  shows "st \<noteq> RCV_HID_ST_STARTED \<and> w1 = w \<or> st = RCV_HID_ST_STARTED \<and> begun started seq opcode flag w1"
  using assms by (auto simp: remote_hid_begin_def host_inv_def begun_def waits_def outstanding_def split: if_splits)

lemma begun_esb [simp]: "begun started seq opcode flag (snd (on_esb f w)) = begun started seq opcode flag w"
  by (simp add: begun_def)

lemma remote_abort_inv:
  assumes "async_ack_fn (hc_cmd w)" "channel_inv w" "\<not> remote_hid_job_work (hc_cmd w)" "started = completions w"
  shows "host_inv started (remote_hid_abort w)"
  using assms by (simp add: host_inv_def remote_hid_abort_def waits_def outstanding_def)

lemma begun_abort: "begun started seq opcode flag w \<Longrightarrow> host_inv started (remote_hid_abort w)"
  by (rule remote_abort_inv) (simp_all add: begun_def)

lemma begun_submit:
  assumes "begun started seq opcode flag w" and "rcv_hid_opcode_is_pong_flag opcode"
    and "\<And>c. rh_job (f c) \<noteq> REMOTE_HID_JOB_NONE \<and> rh_job (f c) \<noteq> REMOTE_HID_JOB_WOM_COMMAND \<and>
      async_ack_fn (f c) = async_ack_fn c \<and> remote_hid_pending (f c) = remote_hid_pending c \<and>
      remote_hid_seq (f c) = remote_hid_seq c \<and> remote_hid_opcode (f c) = remote_hid_opcode c \<and>
      remote_hid_expected (f c) = remote_hid_expected c \<and> remote_hid_timeout_work (f c) = remote_hid_timeout_work c \<and>
      ch_hid_pending (f c) = ch_hid_pending c \<and> ch_hid_opcode (f c) = ch_hid_opcode c"
  shows "host_inv (started @ [(seq, opcode)]) (submit_job f w)"
  using assms(1,2) by (simp add: submit_job_def host_inv_def begun_def waits_def outstanding_def assms(3))

lemma finish_parts:
  assumes "async_ack_fn (hc_cmd w)" "remote_hid_pending (hc_cmd w)" "rcv_hid_opcode_is_pong_flag (remote_hid_opcode (hc_cmd w))"
    and "status \<noteq> RCV_HID_ST_STARTED"
  shows "completions (remote_hid_finish status w) = completions w @ [(remote_hid_seq (hc_cmd w), remote_hid_opcode (hc_cmd w))]"
    and "hc_cmd (remote_hid_finish status w) =
      (hc_cmd w)\<lparr>remote_hid_pending := False, remote_hid_timeout_work := None, rh_job := REMOTE_HID_JOB_NONE\<rparr>"
    and "channel_inv (remote_hid_finish status w) = channel_inv w"
  using assms by (simp_all add: remote_hid_finish_def remote_hid_send_completion_def map_filter_simps completion_of_def)

lemma remote_finish_inv:
  assumes "async_ack_fn (hc_cmd w)" "remote_hid_pending (hc_cmd w)" "rcv_hid_opcode_is_pong_flag (remote_hid_opcode (hc_cmd w))"
    and "status \<noteq> RCV_HID_ST_STARTED" "channel_inv w" "\<not> remote_hid_job_work (hc_cmd w)"
    and "started = completions w @ [(remote_hid_seq (hc_cmd w), remote_hid_opcode (hc_cmd w))]"
  shows "host_inv started (remote_hid_finish status w)"
  using assms by (simp add: host_inv_def finish_parts waits_def outstanding_def)

lemma arm_inv:
  assumes "async_ack_fn (hc_cmd w)" "remote_hid_pending (hc_cmd w)" "rcv_hid_opcode_is_pong_flag (remote_hid_opcode (hc_cmd w))"
    and "channel_inv w" "\<not> remote_hid_job_work (hc_cmd w)" "rh_job (hc_cmd w) \<noteq> REMOTE_HID_JOB_WOM_COMMAND"
    and "started = completions w @ [(remote_hid_seq (hc_cmd w), remote_hid_opcode (hc_cmd w))]"
  shows "host_inv started (remote_hid_arm_expected now m w)"
proof (cases "m = 0")
  case True
  then show ?thesis using assms by (simp add: remote_hid_arm_expected_def) (rule remote_finish_inv; simp)
next
  case False
  then show ?thesis using assms by (simp add: remote_hid_arm_expected_def host_inv_def waits_def outstanding_def)
qed

lemma begun_arm:
  "begun started seq opcode flag w \<Longrightarrow> rcv_hid_opcode_is_pong_flag opcode \<Longrightarrow>
   host_inv (started @ [(seq, opcode)]) (remote_hid_arm_expected now m w)"
  by (rule arm_inv) (simp_all add: begun_def)

lemma begun_arm_abort:
  assumes "begun started seq opcode flag w" and "m \<noteq> 0"
  shows "host_inv started (remote_hid_abort (snd (on_esb f (remote_hid_arm_expected now m w))))"
  using assms by (intro remote_abort_inv) (simp_all add: begun_def remote_hid_arm_expected_def)

section \<open>Commands that wait for trackers\<close>

definition kept :: "(u8 \<times> u8) list \<Rightarrow> u8 \<Rightarrow> u8 \<Rightarrow> u8 \<times> ('q, 'f, 'r) host \<Rightarrow> bool" where
  "kept started seq opcode r \<longleftrightarrow>
     host_inv (started @ (if fst r = RCV_HID_ST_STARTED then [(seq, opcode)] else [])) (snd r)"

lemma kept_same: "host_inv started w \<Longrightarrow> st \<noteq> RCV_HID_ST_STARTED \<Longrightarrow> kept started seq opcode (st, w)"
  by (simp add: kept_def)

lemma kept_quiet: "host_inv started w \<Longrightarrow> quiet w (snd r) \<Longrightarrow> fst r \<noteq> RCV_HID_ST_STARTED \<Longrightarrow> kept started seq opcode r"
  by (simp add: kept_def) (rule quiet_inv)

lemma kept_begin:
  assumes "host_inv started w" and "\<And>w1. begun started seq opcode flag w1 \<Longrightarrow> kept started seq opcode (g w1)"
  shows "kept started seq opcode
    (let (st, w1) = remote_hid_begin seq opcode flag w in if st \<noteq> RCV_HID_ST_STARTED then (st, w1) else g w1)"
proof -
  obtain st w1 where r: "remote_hid_begin seq opcode flag w = (st, w1)" by (cases "remote_hid_begin seq opcode flag w")
  from remote_begin_cases [OF assms(1) r] assms show ?thesis by (auto simp: r kept_same)
qed

lemmas kept_begin_case = kept_begin [unfolded Let_def]

lemma kept_abort: "begun started seq opcode flag w \<Longrightarrow> st \<noteq> RCV_HID_ST_STARTED \<Longrightarrow> kept started seq opcode (st, remote_hid_abort w)"
  by (simp add: kept_def begun_abort)

lemma kept_armed:
  assumes "begun started seq opcode flag w" and "rcv_hid_opcode_is_pong_flag opcode"
    and "quiet (remote_hid_arm_expected now m w) w1"
  shows "kept started seq opcode (RCV_HID_ST_STARTED, w1)"
  using quiet_inv [OF begun_arm [OF assms(1,2)] assms(3)] by (simp add: kept_def)

lemma armed_kept [simp, intro]:
  assumes "begun started seq opcode flag w" and "rcv_hid_opcode_is_pong_flag opcode"
  shows "kept started seq opcode (RCV_HID_ST_STARTED, remote_hid_arm_expected now m w)"
    and "kept started seq opcode (RCV_HID_ST_STARTED, snd (on_esb f (remote_hid_arm_expected now m w)))"
    and "kept started seq opcode (RCV_HID_ST_STARTED, send_remote t k arg (remote_hid_arm_expected now m w))"
    and "kept started seq opcode (RCV_HID_ST_STARTED, send_sens_all sens (remote_hid_arm_expected now m w))"
  by (auto intro!: kept_armed [OF assms, of now m])

lemma kept_submit:
  assumes "host_inv (started @ [(seq, opcode)]) (submit_job f w)"
  shows "kept started seq opcode (RCV_HID_ST_STARTED, submit_job f w)"
  using assms by (simp add: kept_def)

lemma collect_not_started:
  "fst (rcv_cmd_collect_start env t w) \<noteq> RCV_HID_ST_STARTED" "fst (rcv_cmd_collect_stop env w) \<noteq> RCV_HID_ST_STARTED"
  "fst (rcv_cmd_collect_batch_stop env w) \<noteq> RCV_HID_ST_STARTED"
  by (simp_all add: rcv_cmd_collect_start_def rcv_cmd_collect_stop_def rcv_cmd_collect_batch_stop_def Let_def case_prod_beta)

lemma flag_not_started: "fst (rcv_cmd_remote_flag env t flag w) \<noteq> RCV_HID_ST_STARTED"
  by (simp add: rcv_cmd_remote_flag_def collect_not_started)

lemma flag_kept:
  assumes "host_inv started w" and "rcv_hid_opcode_is_pong_flag opcode"
  shows "kept started seq opcode (rcv_cmd_remote_flag_hid env seq opcode t flag w)"
proof (cases "rcv_hid_opcode_is_pong_flag flag \<and> flag \<notin> {ESB_PONG_FLAG_DATA_COLLECT_ON, ESB_PONG_FLAG_DATA_COLLECT_OFF,
      ESB_PONG_FLAG_DATA_COLLECT_BATCH_ON, ESB_PONG_FLAG_DATA_COLLECT_BATCH_OFF}")
  case True
  then show ?thesis unfolding rcv_cmd_remote_flag_hid_def
    using assms by (simp del: insert_iff) (rule kept_begin_case; auto intro!: kept_submit begun_submit kept_abort)
next
  case False
  then show ?thesis unfolding rcv_cmd_remote_flag_hid_def
    using assms(1) by (auto intro!: kept_same kept_quiet simp: flag_not_started)
qed

lemma sens_kept:
  assumes "host_inv started w" and "rcv_hid_opcode_is_pong_flag opcode"
  shows "kept started seq opcode (rcv_cmd_remote_sens_set_hid env seq opcode t sens w)"
  unfolding rcv_cmd_remote_sens_set_hid_def
  using assms by (intro kept_begin) (auto intro!: kept_abort simp: Let_def)

lemma sens_auto_kept:
  assumes "host_inv started w" and "rcv_hid_opcode_is_pong_flag opcode"
  shows "kept started seq opcode (rcv_cmd_remote_sens_auto_hid env seq opcode t axis revolutions w)"
proof (cases "2 < axis")
  case False
  show ?thesis unfolding rcv_cmd_remote_sens_auto_hid_def if_not_P [OF False]
  proof (rule kept_begin [OF assms(1)], goal_cases)
    case (1 w1)
    let ?f = "esb_send_remote_command_sens_auto (unat t) axis revolutions (he_now env)"
      and ?a = "remote_hid_arm_expected (he_now env) (set_bit (unat t) 0) w1"
    show ?case
    proof (cases "t = RCV_HID_TARGET_ALL \<or> MAX_TRACKERS \<le> unat t")
      case True
      then show ?thesis using 1 assms(2) by (auto intro!: kept_submit begun_submit kept_abort)
    next
      case False
      then have small: "unat t < 32" by simp
      have "set_bit (unat t) 0 \<noteq> (0 :: u32)"
        using mask_has_set_bit [of "unat t" "0 :: u32" "unat t"] small by (metis len_num1 mask_has_zero len_bit0 mult_2 numeral_Bit0 one_add_one)
      then have "host_inv started (remote_hid_abort (snd (on_esb ?f ?a)))" by (rule begun_arm_abort [OF 1])
      then show ?thesis using False 1 assms(2) by (auto simp: case_prod_beta kept_same )
    qed
  qed
qed (simp add: rcv_cmd_remote_sens_auto_hid_def assms kept_same)

lemma test_kept:
  assumes "host_inv started w" and "rcv_hid_opcode_is_pong_flag opcode"
  shows "kept started seq opcode (rcv_cmd_remote_test_on_hid env seq opcode t tps w)"
    and "kept started seq opcode (rcv_cmd_remote_test_off_hid env seq opcode t w)"
proof -
  show "kept started seq opcode (rcv_cmd_remote_test_on_hid env seq opcode t tps w)"
  proof (cases "1000 < tps")
    case False
    show ?thesis unfolding rcv_cmd_remote_test_on_hid_def if_not_P [OF False]
      using assms by (intro kept_begin) (auto intro!: kept_submit begun_submit kept_abort)
  qed (simp add: rcv_cmd_remote_test_on_hid_def assms kept_same)
  show "kept started seq opcode (rcv_cmd_remote_test_off_hid env seq opcode t w)"
    unfolding rcv_cmd_remote_test_off_hid_def
    using assms by (intro kept_begin) (auto intro!: kept_submit begun_submit kept_abort)
qed

section \<open>Wake-on-motion commands\<close>

lemma collected_bits: "mask_has (fold (\<lambda>i m. if p i then set_bit i m else m) is m) j \<Longrightarrow> j \<in> set is \<or> mask_has (m :: u32) j"
proof (induction "is" arbitrary: m)
  case (Cons a as)
  from Cons.IH [of "if p a then set_bit a m else m"] Cons.prems show ?case by (auto split: if_splits)
qed simp

lemma wom_mask_bits:
  "mask_has (fst (esb_send_remote_wom_command target minutes now e)) i \<Longrightarrow> i < MAX_TRACKERS"
  by (auto simp: esb_send_remote_wom_command_def Let_def simp del: upt_rec_numeral split: if_splits dest!: collected_bits)

lemma wom_inv:
  assumes "async_ack_fn (hc_cmd w)" "channel_inv w" "remote_hid_pending (hc_cmd w)"
    and "rcv_hid_opcode_is_pong_flag (remote_hid_opcode (hc_cmd w))" "rh_job (hc_cmd w) = REMOTE_HID_JOB_WOM_COMMAND"
    and "remote_hid_flag (hc_cmd w) = ESB_PONG_FLAG_WOM_CONTROL" "wom_masks_ok (hc_cmd w)"
    and "if remote_hid_job_work (hc_cmd w)
      then remote_hid_timeout_work (hc_cmd w) = None \<and> remote_hid_expected (hc_cmd w) = 0 else remote_hid_timeout_work (hc_cmd w) \<noteq> None"
    and "started = completions w @ (if remote_wom_console (hc_cmd w) then [] else [(remote_hid_seq (hc_cmd w), remote_hid_opcode (hc_cmd w))])"
  shows "host_inv started w"
  using assms by (simp add: host_inv_def waits_def outstanding_def)

lemma wom_begin_kept:
  assumes "host_inv started w"
  shows "kept started seq ESB_PONG_FLAG_WOM_CONTROL (remote_wom_begin env seq t minutes False w)"
    and "host_inv started (snd (remote_wom_begin env seq t minutes True w))"
proof -
  let ?op = "ESB_PONG_FLAG_WOM_CONTROL"
  have pong: "rcv_hid_opcode_is_pong_flag ?op" by (simp add: rcv_hid_opcode_is_pong_flag_def)
  have r: "host_inv (started @ (if st = RCV_HID_ST_STARTED \<and> \<not> console then [(seq, ?op)] else [])) w1"
    if e: "remote_wom_begin env seq t minutes console w = (st, w1)" for console st w1
  proof (cases "\<not> wom_minutes_ok minutes \<or> t \<noteq> RCV_HID_TARGET_ALL \<and> MAX_TRACKERS \<le> unat t")
    case True
    then show ?thesis using e assms by (auto simp: remote_wom_begin_def)
  next
    case False
    obtain st0 w0 where b: "remote_hid_begin seq ?op ?op w = (st0, w0)" by (cases "remote_hid_begin seq ?op ?op w")
    from remote_begin_cases [OF assms b] show ?thesis
    proof
      assume "st0 \<noteq> RCV_HID_ST_STARTED \<and> w0 = w"
      then show ?thesis using e False assms b by (auto simp: remote_wom_begin_def Let_def split: if_splits)
    next
      assume s: "st0 = RCV_HID_ST_STARTED \<and> begun started seq ?op ?op w0"
      let ?w2 = "on_cmd (\<lambda>c. c\<lparr>rh_job := REMOTE_HID_JOB_WOM_COMMAND, remote_wom_console := console, remote_wom_failed := 0,
        remote_wom_token := 0\<rparr>) w0"
      let ?send = "\<lambda>e. let (m, token, e1) = esb_send_remote_wom_command t minutes (he_scan_start env) e in ((m, token), e1)"
      have small: "mask_has (fst (fst (on_esb ?send ?w2))) i \<Longrightarrow> i < MAX_TRACKERS" for i
        by (simp add: on_esb_def case_prod_beta Let_def wom_mask_bits)
      show ?thesis
      proof (cases "t = RCV_HID_TARGET_ALL")
        case True
        have w1: "st = RCV_HID_ST_STARTED" "w1 = submit_job (\<lambda>c. c\<lparr>remote_wom_minutes := minutes\<rparr>) ?w2"
          using e False True b s by (simp_all add: remote_wom_begin_def Let_def)
        show ?thesis unfolding w1
          by (rule wom_inv) (use s pong in \<open>simp_all add: submit_job_def begun_def wom_masks_ok_def channel_inv_def\<close>)
      next
        case other: False
        show ?thesis
        proof (cases "fst (fst (on_esb ?send ?w2)) = 0")
          case True
          have w1: "st = RCV_HID_ST_ENOENT" "w1 = remote_hid_abort (snd (on_esb ?send ?w2))"
            using e False True b s other by (simp_all add: remote_wom_begin_def Let_def case_prod_beta)
          show ?thesis unfolding w1 by (rule remote_abort_inv) (use s in \<open>simp_all add: begun_def\<close>)
        next
          case sent: False
          have w1: "st = RCV_HID_ST_STARTED" "w1 = on_cmd (\<lambda>c. c\<lparr>remote_wom_token := snd (fst (on_esb ?send ?w2)),
              remote_hid_expected := fst (fst (on_esb ?send ?w2)), remote_wom_deadline := he_now env + REMOTE_HID_CONFIRM_TIMEOUT_MS,
              remote_hid_timeout_work := Some (he_now env + 50)\<rparr>) (snd (on_esb ?send ?w2))"
            using e False sent b s other by (simp_all add: remote_wom_begin_def Let_def case_prod_beta)
          show ?thesis unfolding w1
            by (rule wom_inv) (use s pong small in \<open>simp_all add: begun_def wom_masks_ok_def\<close>)
        qed
      qed
    qed
  qed
  show "kept started seq ?op (remote_wom_begin env seq t minutes False w)"
    using r [of False] by (cases "remote_wom_begin env seq t minutes False w") (simp add: kept_def)
  show "host_inv started (snd (remote_wom_begin env seq t minutes True w))"
    using r [of True] by (cases "remote_wom_begin env seq t minutes True w") simp
qed

text \<open>One poll visits the trackers in order and adds those that answered, or all when the time is over.\<close>

definition polled_bits :: "u32 \<times> ('q, 'f, 'r) host \<Rightarrow> nat set" where
  "polled_bits s = {i. mask_has (fst s) i \<or> mask_has (remote_wom_failed (hc_cmd (snd s))) i}"

definition poll_same :: "('q, 'f, 'r) host \<Rightarrow> ('q, 'f, 'r) host \<Rightarrow> bool" where
  "poll_same w w1 \<longleftrightarrow>
     (hc_cmd w1)\<lparr>remote_wom_failed := 0\<rparr> = (hc_cmd w)\<lparr>remote_wom_failed := 0\<rparr> \<and> completions w1 = completions w \<and> channel_inv w1 = channel_inv w"

lemma poll_same_trans: "poll_same u v \<Longrightarrow> poll_same v w \<Longrightarrow> poll_same u w"
  by (simp add: poll_same_def)

lemma poll_same_fields:
  assumes "poll_same w w1"
  shows "remote_hid_expected (hc_cmd w1) = remote_hid_expected (hc_cmd w)" "remote_wom_deadline (hc_cmd w1) = remote_wom_deadline (hc_cmd w)"
    "remote_hid_pending (hc_cmd w1) = remote_hid_pending (hc_cmd w)" "async_ack_fn (hc_cmd w1) = async_ack_fn (hc_cmd w)"
    "remote_hid_job_work (hc_cmd w1) = remote_hid_job_work (hc_cmd w)" "rh_job (hc_cmd w1) = rh_job (hc_cmd w)"
    "remote_hid_seq (hc_cmd w1) = remote_hid_seq (hc_cmd w)" "remote_hid_opcode (hc_cmd w1) = remote_hid_opcode (hc_cmd w)"
    "remote_hid_flag (hc_cmd w1) = remote_hid_flag (hc_cmd w)" "remote_wom_console (hc_cmd w1) = remote_wom_console (hc_cmd w)"
    "remote_hid_timeout_work (hc_cmd w1) = remote_hid_timeout_work (hc_cmd w)"
    "completions w1 = completions w" "channel_inv w1 = channel_inv w"
  using assms by (cases "hc_cmd w"; cases "hc_cmd w1"; simp add: poll_same_def)+

lemma completion_ack:
  "completion_of (AsyncAck (a # seq # opcode # status # r)) =
     (if rcv_hid_opcode_is_pong_flag opcode \<and> status \<noteq> RCV_HID_ST_STARTED then Some (seq, opcode) else None)"
  by (simp add: completion_of_def)

lemma wom_result_parts [simp]:
  "hc_cmd (remote_wom_result z t minutes err w) = hc_cmd w"
  "completions (remote_wom_result z t minutes err w) = completions w"
  "channel_inv (remote_wom_result z t minutes err w) = channel_inv w"
proof -
  let ?w = "remote_wom_result z t minutes err w"
  have "?w = w \<or> (\<exists>r. ?w = async_ack (RCV_HID_TYPE_CMD_ACK # remote_hid_seq (hc_cmd w) # remote_hid_opcode (hc_cmd w) #
      RCV_HID_ST_STARTED # r) w)"
    unfolding remote_wom_result_def Let_def fill_ack_bytes append_Cons by (simp only: append_Nil split: if_split) blast
  then show "hc_cmd ?w = hc_cmd w" "completions ?w = completions w" "channel_inv ?w = channel_inv w"
    by (auto simp: map_filter_simps completion_ack)
qed

definition poll_taken :: "('q, 'f, 'r) host_env \<Rightarrow> nat \<Rightarrow> u32 \<times> ('q, 'f, 'r) host \<Rightarrow> bool" where
  "poll_taken env t s \<longleftrightarrow>
     mask_has (remote_hid_expected (hc_cmd (snd s))) t \<and> t \<notin> polled_bits s \<and>
     (fst (on_esb (esb_get_remote_wom_result (he_ecanceled env) t (remote_wom_token (hc_cmd (snd s)))) (snd s)) \<noteq> None \<or>
      remote_wom_deadline (hc_cmd (snd s)) \<le> he_now env)"

lemma poll_one_parts:
  assumes "t < MAX_TRACKERS"
  shows "poll_same (snd s) (snd (wom_poll_one env t s)) \<and>
    polled_bits (wom_poll_one env t s) = (if poll_taken env t s then insert t (polled_bits s) else polled_bits s)"
proof -
  obtain confirmed w where s: "s = (confirmed, w)" by (cases s)
  let ?x = "on_esb (esb_get_remote_wom_result (he_ecanceled env) t (remote_wom_token (hc_cmd w))) w"
  have small: "t < 32" using assms by simp
  show ?thesis
  proof (cases "poll_taken env t s")
    case False
    then have "hc_cmd (snd (wom_poll_one env t s)) = hc_cmd w \<and> fst (wom_poll_one env t s) = confirmed \<and>
        completions (snd (wom_poll_one env t s)) = completions w \<and> channel_inv (snd (wom_poll_one env t s)) = channel_inv w"
      by (auto simp: s poll_taken_def polled_bits_def wom_poll_one_def Let_def case_prod_beta)
    then show ?thesis using False by (auto simp: s poll_same_def polled_bits_def)
  next
    case True
    obtain minutes err where r: "(case fst ?x of Some r \<Rightarrow> r | None \<Rightarrow> (0, he_etimedout env)) = (minutes, err)"
      by (cases "case fst ?x of Some r \<Rightarrow> r | None \<Rightarrow> (0, he_etimedout env)")
    let ?w2 = "if err \<noteq> 0 then on_cmd (\<lambda>c. c\<lparr>remote_wom_failed := set_bit t (remote_wom_failed c)\<rparr>) (snd ?x) else snd ?x"
    have "wom_poll_one env t s = (if err \<noteq> 0 then confirmed else set_bit t confirmed, remote_wom_result (he_zephyr env) t minutes err ?w2)"
      using True r by (auto simp: s poll_taken_def polled_bits_def wom_poll_one_def Let_def case_prod_beta)
    then show ?thesis using True small by (auto simp: s poll_same_def polled_bits_def)
  qed
qed

lemma poll_one:
  fixes env :: "('q, 'f, 'r) host_env" and s :: "u32 \<times> ('q, 'f, 'r) host"
  assumes "t < MAX_TRACKERS"
  shows "poll_same (snd s) (snd (wom_poll_one env t s))"
    and "polled_bits s \<subseteq> polled_bits (wom_poll_one env t s)"
    and "polled_bits (wom_poll_one env t s) \<subseteq> polled_bits s \<union> {i. mask_has (remote_hid_expected (hc_cmd (snd s))) i}"
    and "remote_wom_deadline (hc_cmd (snd s)) \<le> he_now env \<Longrightarrow> mask_has (remote_hid_expected (hc_cmd (snd s))) t \<Longrightarrow>
      t \<in> polled_bits (wom_poll_one env t s)"
  using poll_one_parts [OF assms, of s env] by (auto simp: poll_taken_def)

lemma poll_all:
  assumes "set ts \<subseteq> {..<MAX_TRACKERS}"
    and "r = fold (wom_poll_one env) ts s"
  shows "poll_same (snd s) (snd r) \<and> polled_bits s \<subseteq> polled_bits r \<and>
    polled_bits r \<subseteq> polled_bits s \<union> {i. mask_has (remote_hid_expected (hc_cmd (snd s))) i} \<and>
    (remote_wom_deadline (hc_cmd (snd s)) \<le> he_now env \<longrightarrow>
     (\<forall>t. t \<in> set ts \<longrightarrow> mask_has (remote_hid_expected (hc_cmd (snd s))) t \<longrightarrow> t \<in> polled_bits r))"
  using assms(1) unfolding assms(2)
proof (induction ts arbitrary: s)
  case Nil
  show ?case by (simp add: poll_same_def)
next
  case (Cons t ts)
  let ?s = "wom_poll_one env t s"
  have t: "t < MAX_TRACKERS" and ts: "set ts \<subseteq> {..<MAX_TRACKERS}" using Cons.prems by auto
  note one = poll_one [OF t, where s = s and env = env]
  note same = poll_same_fields(1,2) [OF one(1)]
  note IH = Cons.IH [OF ts, of ?s, unfolded same]
  show ?case using one(2-4) IH poll_same_trans [OF one(1)] by (auto simp: subset_iff)
qed

lemma masks_equal:
  assumes "\<And>i. i < 32 \<Longrightarrow> mask_has a i = mask_has b i"
  shows "a = (b :: u32)"
  using assms by (intro bit_word_eqI) (simp add: mask_has_def)

lemma poll_inv:
  fixes w :: "('q, 'f, 'r) host"
  assumes "async_ack_fn (hc_cmd w)" "channel_inv w" "remote_hid_pending (hc_cmd w)"
    and "rcv_hid_opcode_is_pong_flag (remote_hid_opcode (hc_cmd w))" "rh_job (hc_cmd w) = REMOTE_HID_JOB_WOM_COMMAND"
    and "remote_hid_flag (hc_cmd w) = ESB_PONG_FLAG_WOM_CONTROL" "wom_masks_ok (hc_cmd w)"
    and "\<not> remote_hid_job_work (hc_cmd w)" "remote_hid_timeout_work (hc_cmd w) = None"
    and "started = completions w @ outstanding (hc_cmd w)"
  shows "host_inv started (remote_wom_poll env w)"
    and "remote_wom_deadline (hc_cmd w) \<le> he_now env \<Longrightarrow> \<not> remote_hid_pending (hc_cmd (remote_wom_poll env w))"
proof -
  let ?s = "(remote_hid_confirmed (hc_cmd w), w)" and ?r = "fold (wom_poll_one env) [0..<MAX_TRACKERS] (remote_hid_confirmed (hc_cmd w), w)"
  let ?w1 = "snd ?r" and ?c = "hc_cmd w"
  define w2 where "w2 = on_cmd (\<lambda>c. c\<lparr>remote_hid_confirmed := fst ?r\<rparr>) ?w1"
  have all: "poll_same w ?w1 \<and> polled_bits ?s \<subseteq> polled_bits ?r \<and>
      polled_bits ?r \<subseteq> polled_bits ?s \<union> {i. mask_has (remote_hid_expected ?c) i} \<and>
      (remote_wom_deadline ?c \<le> he_now env \<longrightarrow>
       (\<forall>t. t \<in> set [0..<MAX_TRACKERS] \<longrightarrow> mask_has (remote_hid_expected ?c) t \<longrightarrow> t \<in> polled_bits ?r))"
    using poll_all [of "[0..<MAX_TRACKERS]" ?r env ?s] by (simp del: upt_rec_numeral add: subset_iff)
  note same = poll_same_fields [OF conjunct1 [OF all]]
  have bits: "polled_bits ?r = {i. mask_has (fst ?r) i \<or> mask_has (remote_wom_failed (hc_cmd ?w1)) i}"
    by (simp add: polled_bits_def del: upt_rec_numeral)
  have masks: "wom_masks_ok (hc_cmd w2)"
    using all bits assms(7) by (auto simp: wom_masks_ok_def w2_def same polled_bits_def simp del: upt_rec_numeral)
  have closed: "fst ?r OR remote_wom_failed (hc_cmd ?w1) = remote_hid_expected ?c" if "remote_wom_deadline ?c \<le> he_now env"
  proof (rule masks_equal)
    fix i :: nat
    show "mask_has (fst ?r OR remote_wom_failed (hc_cmd ?w1)) i = mask_has (remote_hid_expected ?c) i"
      using all that bits masks assms(7) by (auto simp: wom_masks_ok_def w2_def same simp del: upt_rec_numeral)
  qed
  have poll: "remote_wom_poll env w = (if fst ?r OR remote_wom_failed (hc_cmd ?w1) \<noteq> remote_hid_expected ?c
      then on_cmd (\<lambda>c. c\<lparr>remote_hid_timeout_work := Some (he_now env + 50)\<rparr>) w2
      else
        let w3 = snd (on_esb (\<lambda>e. ((), esb_cancel_remote_wom_command (remote_hid_expected ?c) (remote_wom_token (hc_cmd w2)) e)) w2)
        in on_cmd (\<lambda>c. c\<lparr>rh_job := REMOTE_HID_JOB_NONE, remote_hid_pending := False\<rparr>)
          (if remote_wom_console ?c then w3
           else async_ack (RCV_HID_TYPE_CMD_ACK # remote_hid_seq ?c # remote_hid_opcode ?c #
             (if remote_wom_failed (hc_cmd ?w1) \<noteq> 0 \<or> remote_hid_expected ?c = 0 then RCV_HID_ST_ENOENT else RCV_HID_ST_OK) #
             RCV_HID_WOM_SUMMARY # tracker_event_put16 (remote_wom_token (hc_cmd w2)) @ put_le32 (he_zephyr env) (fst ?r) @
             put_le32 (he_zephyr env) (remote_wom_failed (hc_cmd ?w1)) @ [0]) w3))"
    unfolding remote_wom_poll_def Let_def case_prod_beta w2_def [symmetric] fill_ack_bytes
    by (simp add: w2_def same del: upt_rec_numeral)
  show "host_inv started (remote_wom_poll env w)"
  proof (cases "fst ?r OR remote_wom_failed (hc_cmd ?w1) = remote_hid_expected ?c")
    case False
    then show ?thesis unfolding poll
      using assms masks by (simp add: host_inv_def waits_def outstanding_def wom_masks_ok_def w2_def same del: upt_rec_numeral)
  next
    case True
    then show ?thesis unfolding poll Let_def
      using assms by (simp add: host_inv_def waits_def outstanding_def w2_def same completion_ack map_filter_simps del: upt_rec_numeral)
  qed
  show "\<not> remote_hid_pending (hc_cmd (remote_wom_poll env w))" if "remote_wom_deadline ?c \<le> he_now env"
    unfolding poll Let_def using closed [OF that] by (simp del: upt_rec_numeral)
qed

section \<open>Handlers\<close>

lemma timeout_inv:
  assumes "host_inv started w" and "remote_hid_timeout_work (hc_cmd w) \<noteq> None"
  shows "host_inv started (remote_hid_timeout_handler env w)"
    and "(rh_job (hc_cmd w) = REMOTE_HID_JOB_WOM_COMMAND \<Longrightarrow> remote_wom_deadline (hc_cmd w) \<le> he_now env) \<Longrightarrow>
      \<not> remote_hid_pending (hc_cmd (remote_hid_timeout_handler env w))"
proof -
  let ?w = "on_cmd (\<lambda>c. c\<lparr>remote_hid_timeout_work := None\<rparr>) w"
  have pending: "remote_hid_pending (hc_cmd w)" and nojob: "\<not> remote_hid_job_work (hc_cmd w)"
    and pong: "rcv_hid_opcode_is_pong_flag (remote_hid_opcode (hc_cmd w))"
    using assms by (auto simp: host_inv_def waits_def split: if_splits)
  have "host_inv started (remote_hid_timeout_handler env w) \<and>
    ((rh_job (hc_cmd w) = REMOTE_HID_JOB_WOM_COMMAND \<longrightarrow> remote_wom_deadline (hc_cmd w) \<le> he_now env) \<longrightarrow>
      \<not> remote_hid_pending (hc_cmd (remote_hid_timeout_handler env w)))"
  proof (cases "rh_job (hc_cmd w) = REMOTE_HID_JOB_WOM_COMMAND")
    case True
    then have h: "remote_hid_timeout_handler env w = remote_wom_poll env ?w"
      using pending by (simp add: remote_hid_timeout_handler_def Let_def)
    have "host_inv started (remote_wom_poll env ?w)"
      by (rule poll_inv)
        (use assms True pending nojob pong in \<open>simp_all add: host_inv_def waits_def outstanding_def wom_masks_ok_def\<close>)
    moreover have "\<not> remote_hid_pending (hc_cmd (remote_wom_poll env ?w))" if "remote_wom_deadline (hc_cmd w) \<le> he_now env"
      by (rule poll_inv(2) [where started = started])
        (use that assms True pending nojob pong in \<open>simp_all add: host_inv_def waits_def outstanding_def wom_masks_ok_def\<close>)
    ultimately show ?thesis using True by (simp add: h)
  next
    case False
    then have h: "remote_hid_timeout_handler env w = remote_hid_finish RCV_HID_ST_ENOENT ?w"
      using pending by (simp add: remote_hid_timeout_handler_def Let_def)
    have "host_inv started (remote_hid_finish RCV_HID_ST_ENOENT ?w)"
      by (rule remote_finish_inv) (use assms False pending nojob pong in \<open>simp_all add: host_inv_def waits_def outstanding_def\<close>)
    then show ?thesis using assms pending pong by (simp add: h host_inv_def finish_parts)
  qed
  then show "host_inv started (remote_hid_timeout_handler env w)"
    and "(rh_job (hc_cmd w) = REMOTE_HID_JOB_WOM_COMMAND \<Longrightarrow> remote_wom_deadline (hc_cmd w) \<le> he_now env) \<Longrightarrow>
      \<not> remote_hid_pending (hc_cmd (remote_hid_timeout_handler env w))" by blast+
qed

lemma confirm_inv:
  assumes "host_inv started w"
  shows "host_inv started (on_remote_confirm t flag w)"
proof -
  let ?c = "hc_cmd w" and ?w = "on_cmd (\<lambda>c. c\<lparr>remote_hid_confirmed := set_bit t (remote_hid_confirmed (hc_cmd w))\<rparr>) w"
  show ?thesis
  proof (cases "\<not> remote_hid_pending ?c \<or> flag = ESB_PONG_FLAG_WOM_CONTROL \<or> flag \<noteq> remote_hid_flag ?c \<or> MAX_TRACKERS \<le> t \<or>
        remote_hid_expected ?c = 0 \<or> \<not> mask_has (remote_hid_expected ?c) t")
    case True
    then show ?thesis using assms by (simp add: on_remote_confirm_def Let_def)
  next
    case False
    then have j: "rh_job ?c \<noteq> REMOTE_HID_JOB_WOM_COMMAND" "\<not> remote_hid_job_work ?c" "remote_hid_timeout_work ?c \<noteq> None"
      "rcv_hid_opcode_is_pong_flag (remote_hid_opcode ?c)"
      using assms by (auto simp: host_inv_def waits_def split: if_splits)
    then have "host_inv started ?w" using assms False by (simp add: host_inv_def waits_def outstanding_def)
    moreover have "host_inv started (remote_hid_finish RCV_HID_ST_OK ?w)"
      by (rule remote_finish_inv) (use assms False j in \<open>simp_all add: host_inv_def outstanding_def\<close>)
    ultimately show ?thesis using False by (simp add: on_remote_confirm_def Let_def)
  qed
qed

text \<open>A confirmation that comes before the expected mask is set is lost.\<close>

lemma early_confirm: "remote_hid_expected (hc_cmd w) = 0 \<Longrightarrow> on_remote_confirm t flag w = w"
  by (simp add: on_remote_confirm_def Let_def)

lemma early_confirms: "remote_hid_expected (hc_cmd w) = 0 \<Longrightarrow> fold (\<lambda>(t, flag). on_remote_confirm t flag) confirms w = w"
  by (induction confirms) (auto simp: early_confirm)

lemma job_send_same:
  "hc_cmd (snd (remote_hid_job_send env w)) = hc_cmd w" "completions (snd (remote_hid_job_send env w)) = completions w"
  "channel_inv (snd (remote_hid_job_send env w)) = channel_inv w"
  by (simp_all add: remote_hid_job_send_def Let_def split: remote_hid_job.split)

lemma job_inv:
  assumes "host_inv started w" and "remote_hid_job_work (hc_cmd w)"
  shows "host_inv started (remote_hid_job_handler env confirms w)"
    and "\<not> remote_hid_job_work (hc_cmd (remote_hid_job_handler env confirms w))"
proof -
  let ?w = "on_cmd (\<lambda>c. c\<lparr>remote_hid_job_work := False\<rparr>) w" and ?c = "hc_cmd w"
  have c: "remote_hid_pending ?c" "rcv_hid_opcode_is_pong_flag (remote_hid_opcode ?c)" "remote_hid_timeout_work ?c = None"
    "rh_job ?c \<noteq> REMOTE_HID_JOB_NONE" "remote_hid_expected ?c = 0"
    using assms by (auto simp: host_inv_def waits_def split: if_splits)
  have "host_inv started (remote_hid_job_handler env confirms w) \<and> \<not> remote_hid_job_work (hc_cmd (remote_hid_job_handler env confirms w))"
  proof (cases "rh_job ?c = REMOTE_HID_JOB_WOM_COMMAND")
    case True
    let ?send = "\<lambda>e. let (m, token, e1) = esb_send_remote_wom_command RCV_HID_TARGET_ALL (remote_wom_minutes ?c)
      (he_scan_start env) (he_during env e) in ((m, token), e1)"
    have small: "mask_has (fst (fst (on_esb ?send ?w))) i \<Longrightarrow> i < MAX_TRACKERS" for i
      by (simp add: on_esb_def case_prod_beta Let_def wom_mask_bits)
    have h: "remote_hid_job_handler env confirms w = on_cmd (\<lambda>c. c\<lparr>remote_wom_token := snd (fst (on_esb ?send ?w)),
        remote_hid_expected := fst (fst (on_esb ?send ?w)), remote_wom_deadline := he_now env + REMOTE_HID_CONFIRM_TIMEOUT_MS,
        remote_hid_timeout_work := Some (he_now env + 50)\<rparr>) (snd (on_esb ?send ?w))"
      using True c by (simp add: remote_hid_job_handler_def Let_def case_prod_beta)
    have masks: "\<not> mask_has (remote_hid_confirmed ?c) i \<and> \<not> mask_has (remote_wom_failed ?c) i" for i
      using assms True c by (auto simp: host_inv_def waits_def wom_masks_ok_def split: if_splits)
    show ?thesis unfolding h
      by (intro conjI wom_inv)
        (use assms True c small masks in \<open>simp_all add: host_inv_def waits_def outstanding_def wom_masks_ok_def\<close>)
  next
    case False
    have h: "remote_hid_job_handler env confirms w =
        remote_hid_arm_expected (he_now env) (fst (remote_hid_job_send env ?w)) (snd (remote_hid_job_send env ?w))"
      using False c by (simp add: remote_hid_job_handler_def Let_def case_prod_beta early_confirms job_send_same)
    have i: "host_inv started (remote_hid_job_handler env confirms w)" unfolding h
      by (rule arm_inv) (use assms False c in \<open>simp_all add: job_send_same host_inv_def outstanding_def\<close>)
    then show ?thesis unfolding h using c
      by (simp add: remote_hid_arm_expected_def remote_hid_finish_def remote_hid_send_completion_def job_send_same Let_def)
  qed
  then show "host_inv started (remote_hid_job_handler env confirms w)"
    and "\<not> remote_hid_job_work (hc_cmd (remote_hid_job_handler env confirms w))" by blast+
qed

section \<open>Steps and runs\<close>

lemma tracker_opcodes [simp]: "rcv_hid_opcode_is_pong_flag ESB_PONG_FLAG_SENS_SET" "rcv_hid_opcode_is_pong_flag ESB_PONG_FLAG_SENS_AUTO"
  "rcv_hid_opcode_is_pong_flag ESB_PONG_FLAG_TEST_MODE_ON" "rcv_hid_opcode_is_pong_flag ESB_PONG_FLAG_TEST_MODE_OFF"
  by (simp_all add: rcv_hid_opcode_is_pong_flag_def)

lemma tracker_kept:
  assumes "host_inv started w" and "rcv_hid_opcode_is_pong_flag opcode"
  shows "kept started seq opcode (tracker_command env seq opcode flags args w)"
  using assms by (simp add: tracker_command_def Let_def wom_begin_kept sens_kept sens_auto_kept test_kept flag_kept kept_same)

lemma remote_process_inv:
  assumes "host_inv started w" and "rcv_cmd_process_hid env buf generation w = (reply, w1)"
  shows "host_inv (started @ started_by reply) w1"
proof (cases "length buf < 4 \<or> buf ! 0 \<noteq> RCV_HID_TYPE_CMD")
  case True
  then show ?thesis using assms by (simp add: rcv_cmd_process_hid_def started_by_def)
next
  case buf: False
  let ?op = "buf ! 2"
  show ?thesis
  proof (cases "rcv_hid_opcode_is_pong_flag ?op")
    case True
    then have "?op \<noteq> RCV_HID_OP_TRACKER_EVENTS" by (auto simp: rcv_hid_opcode_is_pong_flag_def)
    then show ?thesis using assms(2) buf True tracker_kept [OF assms(1) True, of "buf ! 1" env "buf ! 3" "take 12 (drop 4 buf)"]
      by (auto simp: rcv_cmd_process_hid_def Let_def started_by_def kept_def split: prod.splits)
  next
    case False
    have none: "quiet w w1 \<and> (\<exists>ack. reply = Some ack \<and> ack ! 2 = ?op)"
      using assms(2) buf False quiet_events [of w env "buf ! 1" "buf ! 3" "take 12 (drop 4 buf)" generation]
        quiet_add [of w env "address_of_bytes (take 12 (drop 4 buf))"] quiet_dongle [of w env "buf ! 1" ?op "take 12 (drop 4 buf)"]
      by (auto simp: rcv_cmd_process_hid_def Let_def events_command_def split: prod.splits if_splits sum.splits option.splits)
    then show ?thesis using quiet_inv [OF assms(1)] False by (auto simp: started_by_def)
  qed
qed

lemma step_inv:
  assumes "host_inv started w" and "host_step env ev w = (s, w1)"
  shows "host_inv (started @ s) w1"
proof (cases ev)
  case (HidReport buf generation)
  then show ?thesis using assms(2) remote_process_inv [OF assms(1)] by (auto split: prod.splits)
next
  case (ConsoleWom t minutes)
  then show ?thesis using assms wom_begin_kept(2) [OF assms(1)] by (auto simp: rcv_cmd_remote_wom_command_def)
next
  case (RemoteConfirm t flag)
  then show ?thesis using assms confirm_inv by auto
next
  case (JobRuns confirms)
  then show ?thesis using assms job_inv by (auto split: if_splits)
next
  case TimeoutRuns
  then show ?thesis using assms timeout_inv by (auto split: if_splits)
qed (use assms quiet_inv [OF assms(1)] in \<open>auto simp: quiet_channel_poll quiet_reset_runs quiet_scan_runs split: if_splits\<close>)

lemma run_inv: "host_run started w \<Longrightarrow> host_inv started w"
proof (induction rule: host_run.induct)
  case (boot w)
  then show ?case
    by (simp add: rcv_cmd_set_async_ack_def host_inv_def channel_inv_def waits_def outstanding_def rcv_cmd_boot_def completions_def
        on_cmd_def map_filter_simps)
next
  case (step started w env ev s w1)
  then show ?case using step_inv by blast
qed

end
