(* ===== verification/HostCommandsProps.thy ===== *)
theory HostCommandsProps
  imports RemoteCompletion ReceptionWitness ChannelChangeCorrect
begin

text \<open>The theorems about commands of the host and their completions, with a run in which one command times out.\<close>

text \<open>
  Claim C16. Whatever the order of host reports, console commands, confirmations, jobs and timers: the commands for trackers that the
  receiver answered with ``started'' are, in order, those whose completion it has sent, followed by at most the one
  that is pending (a wake-on-motion command of the console keeps the others waiting and is not reported). A pending command has its job
  queued or its timer armed, so no completion is lost, doubled or sent for the wrong command.
\<close>

theorem host_completions_in_order:
  assumes "host_run started w"
  shows "started = completions w @ outstanding (hc_cmd w) \<and>
    (remote_hid_pending (hc_cmd w) \<longleftrightarrow> remote_hid_job_work (hc_cmd w) \<or> remote_hid_timeout_work (hc_cmd w) \<noteq> None)"
  using run_inv [OF assms] by (auto simp: host_inv_def waits_def split: if_splits)

text \<open>
  Claim C19. A pending command ends: after its job, if one is queued, and its timer, at or after the deadline of a
  wake-on-motion command, nothing is pending and every command that was started has its completion.
\<close>

theorem host_command_ends:
  assumes "host_run started w"
    and "w1 = snd (host_step env (JobRuns confirms) w)"
    and "remote_wom_deadline (hc_cmd w1) \<le> he_now env1"
  shows "\<not> remote_hid_pending (hc_cmd (snd (host_step env1 TimeoutRuns w1))) \<and>
    completions (snd (host_step env1 TimeoutRuns w1)) = started"
proof -
  let ?w2 = "snd (host_step env1 TimeoutRuns w1)"
  have inv: "host_inv started w1" and job: "\<not> remote_hid_job_work (hc_cmd w1)"
    using run_inv [OF assms(1)] job_inv [of started w] by (auto simp: assms(2))
  have "host_inv started ?w2 \<and> \<not> remote_hid_pending (hc_cmd ?w2)"
  proof (cases "remote_hid_timeout_work (hc_cmd w1) = None")
    case True
    then show ?thesis using inv job by (auto simp: host_inv_def waits_def split: if_splits)
  next
    case False
    then show ?thesis using timeout_inv [OF inv False, of env1] assms(3) by auto
  qed
  then show ?thesis by (simp add: host_inv_def outstanding_def)
qed

section \<open>A run\<close>

definition sample_host_env :: "int \<Rightarrow> (rx_event list, (u16 \<times> bytes) list, u8 \<times> bool) host_env" where
  "sample_host_env now = \<lparr>he_zephyr = std_zephyr, he_nvs = list_nvs, he_ops = plain_radio, he_rf_default = 24,
     he_peers = \<lparr>ota_relay_active = False, ota_abort_pending = (\<lambda>_. False), receiver_ota_active = False, data_collect_active = False,
       data_collect_batch_active = False\<rparr>,
     he_now = now, he_now32 = of_int now, he_clear_now = (\<lambda>_. 0), he_clock = int, he_between = (\<lambda>e. e), he_scan_start = now,
     he_during = (\<lambda>e. e), he_later = (\<lambda>e. e), he_ecanceled = 140, he_etimedout = 116, he_collect = True, he_dfu = True\<rparr>"

definition sample_host :: "(rx_event list, (u16 \<times> bytes) list, u8 \<times> bool) host" where
  "sample_host = \<lparr>hc_rc = heard_receiver, hc_radio = (24, True), stats_detailed_enabled = False, stats_detailed_end_time = 0,
     hc_cmd = rcv_cmd_boot, hc_out = []\<rparr>"

text \<open>The host asks all trackers to answer: command 17 with sequence number 7.\<close>

definition asked_host :: "(rx_event list, (u16 \<times> bytes) list, u8 \<times> bool) host" where
  "asked_host = snd (host_step (sample_host_env 100) (HidReport [254, 7, 17, 0, 0xFF] 1) (rcv_cmd_set_async_ack sample_host))"

lemma asked_started:
  "fst (host_step (sample_host_env 100) (HidReport [254, 7, 17, 0, 0xFF] 1) (rcv_cmd_set_async_ack sample_host)) = [(7, 17)]"
  "remote_wom_deadline (hc_cmd asked_host) = 0" "rh_job (hc_cmd asked_host) = REMOTE_HID_JOB_FLAG_ALL"
  "remote_hid_pending (hc_cmd asked_host)"
  by (simp_all add: asked_host_def rcv_cmd_process_hid_def Let_def rcv_hid_opcode_is_pong_flag_def tracker_command_def
      rcv_cmd_remote_flag_hid_def remote_hid_begin_def rcv_cmd_set_async_ack_def sample_host_def rcv_cmd_boot_def on_cmd_def
      submit_job_def started_by_def fill_ack_def)

lemma asked_run: "host_run [(7, 17)] asked_host"
proof -
  have "host_run [] (rcv_cmd_set_async_ack sample_host)" by (rule host_run.boot) (simp_all add: sample_host_def)
  from host_run.step [OF this prod.collapse [symmetric], of "sample_host_env 100" "HidReport [254, 7, 17, 0, 0xFF] 1"]
  show ?thesis by (simp only: asked_started(1) append_Nil asked_host_def [symmetric])
qed

theorem host_completions_in_order_witness: "completions asked_host = [] \<and> outstanding (hc_cmd asked_host) = [(7, 17)]"
  using host_completions_in_order [OF asked_run] asked_started by (simp add: outstanding_def split: if_splits)

theorem host_command_ends_witness:
  "let w1 = snd (host_step (sample_host_env 1200) (JobRuns []) asked_host); w2 = snd (host_step (sample_host_env 7000) TimeoutRuns w1)
   in \<not> remote_hid_pending (hc_cmd w2) \<and> completions w2 = [(7, 17)]"
proof -
  have "remote_wom_deadline (hc_cmd (snd (host_step (sample_host_env 1200) (JobRuns []) asked_host))) \<le> he_now (sample_host_env 7000)"
    by (simp add: remote_hid_job_handler_def Let_def asked_started case_prod_beta remote_hid_arm_expected_def remote_hid_finish_def
        remote_hid_send_completion_def job_send_same sample_host_env_def)
  from host_command_ends [OF asked_run refl this] show ?thesis unfolding Let_def .
qed

end
