(* ===== verification/DataCollectHid.thy ===== *)
theory DataCollectHid
  imports DataCollect "HOL-Library.Sublist"
begin

text \<open>
  The other build of raw data collection, \<open>data_collect_hid.c\<close>: every packet is one report of 64 bytes on a second
  HID interface. A ring of 64 reports lies between the radio interrupt and the work item that hands them to the USB
  device, which owns the report it was given until it calls back. The static variables are the record \<open>data_collect_hid\<close>, with the suffix
  \<open>_hid\<close> on the names that the serial build shares; the pointer to the submitted report is the index of its slot. The
  figures that are only printed every three seconds are left out. Each function is one step; so is the work item, because the
  threads that start and stop sessions do not interrupt the work queue of the system.
\<close>

abbreviation (input) DC_REPORT_SIZE :: nat where "DC_REPORT_SIZE \<equiv> 64"
abbreviation (input) DC_FIFO_SIZE :: nat where "DC_FIFO_SIZE \<equiv> 64"

record data_collect_hid =
  dc_hdev :: bool
  dc_ep_busy :: bool
  dc_hid_ready :: bool
  dc_submitted_report :: "nat option"
  dc_fifo :: "bytes list"
  dc_fifo_write :: nat
  dc_fifo_read :: nat
  dc_active_hid :: bool
  dc_target_tracker_id_hid :: u8
  dc_batch_active_hid :: bool
  dc_batch_mask_hid :: u32
  dc_frames_sent_hid :: u32
  dc_frames_dropped_hid :: u32
  dc_frames_received_hid :: u32
  dc_last_rx_time_hid :: int

datatype dc_hid_action = DcSubmit bytes | DcSendWork | DcHidTimeoutWork | DcHidRemoteCommand nat u8

datatype submit_result = SubmitOk | SubmitEacces | SubmitError

definition dc_hid_boot :: data_collect_hid where
  "dc_hid_boot = \<lparr>dc_hdev = False, dc_ep_busy = False, dc_hid_ready = False, dc_submitted_report = None,
     dc_fifo = replicate DC_FIFO_SIZE (replicate DC_REPORT_SIZE 0), dc_fifo_write = 0, dc_fifo_read = 0, dc_active_hid = False,
     dc_target_tracker_id_hid = 0, dc_batch_active_hid = False, dc_batch_mask_hid = 0, dc_frames_sent_hid = 0,
     dc_frames_dropped_hid = 0, dc_frames_received_hid = 0, dc_last_rx_time_hid = 0\<rparr>"

section \<open>The ring\<close>

definition dc_fifo_next :: "nat \<Rightarrow> nat" where
  "dc_fifo_next index = (if DC_FIFO_SIZE \<le> index + 1 then 0 else index + 1)"

definition dc_fifo_empty :: "data_collect_hid \<Rightarrow> bool" where
  "dc_fifo_empty d \<longleftrightarrow> dc_fifo_read d = dc_fifo_write d"

definition dc_fifo_advance_read :: "data_collect_hid \<Rightarrow> data_collect_hid" where
  "dc_fifo_advance_read d = d\<lparr>dc_fifo_read := dc_fifo_next (dc_fifo_read d)\<rparr>"

definition dc_drop_current_report :: "data_collect_hid \<Rightarrow> data_collect_hid" where
  "dc_drop_current_report d =
     (if dc_fifo_empty d then d
      else let d1 = dc_fifo_advance_read d in d1\<lparr>dc_frames_dropped_hid := dc_frames_dropped_hid d1 + 1\<rparr>)"

section \<open>The USB device\<close>

text \<open>The work item up to the point where it owns the end point, and the hand-over of the report it has read.\<close>

definition dc_send_fetch :: "data_collect_hid \<Rightarrow> nat option \<times> data_collect_hid" where
  "dc_send_fetch d =
     (if \<not> dc_hdev d \<or> \<not> dc_hid_ready d then (None, d)
      else
        let rd = dc_fifo_read d
        in if rd = dc_fifo_write d then (None, d)
           else if dc_ep_busy d then (None, d)
           else (Some rd, d\<lparr>dc_ep_busy := True\<rparr>))"

definition dc_send_submit :: "nat \<Rightarrow> submit_result \<Rightarrow> data_collect_hid \<Rightarrow> dc_hid_action list \<times> data_collect_hid" where
  "dc_send_submit rd ret d =
     ([DcSubmit (dc_fifo d ! rd)],
      case ret of
        SubmitOk \<Rightarrow> d\<lparr>dc_submitted_report := Some rd\<rparr>
      | SubmitEacces \<Rightarrow> d\<lparr>dc_submitted_report := None, dc_ep_busy := False\<rparr>
      | SubmitError \<Rightarrow> (dc_drop_current_report (d\<lparr>dc_submitted_report := None\<rparr>))\<lparr>dc_ep_busy := False\<rparr>)"

definition dc_send_work_handler :: "submit_result \<Rightarrow> data_collect_hid \<Rightarrow> dc_hid_action list \<times> data_collect_hid" where
  "dc_send_work_handler ret d =
     (case dc_send_fetch d of (Some rd, d1) \<Rightarrow> dc_send_submit rd ret d1 | (None, d1) \<Rightarrow> ([], d1))"

definition dc_iface_ready_cb :: "bool \<Rightarrow> bool \<Rightarrow> data_collect_hid \<Rightarrow> dc_hid_action list \<times> data_collect_hid" where
  "dc_iface_ready_cb own ready d =
     (if \<not> own then ([], d)
      else
        let d1 = d\<lparr>dc_hid_ready := ready\<rparr>; d2 = (if ready then d1 else d1\<lparr>dc_submitted_report := None\<rparr>)
        in (if ready then [DcSendWork] else [], d2\<lparr>dc_ep_busy := False\<rparr>))"

definition dc_get_report_cb :: "bool \<Rightarrow> bool \<Rightarrow> u8 \<Rightarrow> nat \<Rightarrow> bool \<Rightarrow> errno + bytes" where
  "dc_get_report_cb own input report_id len buf =
     (if \<not> own then Inl ENODEV
      else if \<not> input \<or> report_id \<noteq> 0 then Inl ENOTSUP
      else if len < DC_REPORT_SIZE \<or> \<not> buf then Inl EINVAL
      else Inr (replicate DC_REPORT_SIZE 0))"

definition dc_input_report_done_cb :: "bool \<Rightarrow> nat option \<Rightarrow> data_collect_hid \<Rightarrow> dc_hid_action list \<times> data_collect_hid" where
  "dc_input_report_done_cb own submitted d =
     (if \<not> own then ([], d)
      else
        let d1 = (if submitted = dc_submitted_report d
              then (dc_fifo_advance_read d)\<lparr>dc_frames_sent_hid := dc_frames_sent_hid d + 1, dc_submitted_report := None\<rparr> else d)
        in ([DcSendWork], d1\<lparr>dc_ep_busy := False\<rparr>))"

section \<open>Sessions\<close>

definition dc_reset_fifo_locked :: "data_collect_hid \<Rightarrow> data_collect_hid" where
  "dc_reset_fifo_locked d =
     (if dc_submitted_report d \<noteq> None then d\<lparr>dc_fifo_write := dc_fifo_next (dc_fifo_read d)\<rparr>
      else d\<lparr>dc_fifo_read := dc_fifo_write d\<rparr>)"

definition data_collect_init_hid :: "bool \<Rightarrow> errno option \<Rightarrow> data_collect_hid \<Rightarrow> errno option \<times> data_collect_hid" where
  "data_collect_init_hid device_ready ret d =
     (let d1 = d\<lparr>dc_hdev := True\<rparr>
      in if \<not> device_ready then (Some ENODEV, d1)
         else if ret \<noteq> None then (ret, d1)
         else (None, d1\<lparr>dc_active_hid := False, dc_batch_active_hid := False, dc_batch_mask_hid := 0, dc_frames_sent_hid := 0,
           dc_frames_dropped_hid := 0, dc_frames_received_hid := 0, dc_last_rx_time_hid := 0\<rparr>))"

definition data_collect_start_hid :: "u8 \<Rightarrow> int \<Rightarrow> data_collect_hid \<Rightarrow> data_collect_hid" where
  "data_collect_start_hid t now d =
     (let d1 = dc_reset_fifo_locked (d\<lparr>dc_active_hid := False, dc_batch_active_hid := False, dc_batch_mask_hid := 0,
            dc_target_tracker_id_hid := t\<rparr>)
      in d1\<lparr>dc_active_hid := True, dc_frames_sent_hid := 0, dc_frames_dropped_hid := 0, dc_frames_received_hid := 0,
           dc_last_rx_time_hid := now\<rparr>)"

definition data_collect_stop_hid :: "data_collect_hid \<Rightarrow> data_collect_hid" where
  "data_collect_stop_hid d = dc_reset_fifo_locked (d\<lparr>dc_active_hid := False\<rparr>)"

definition data_collect_forget_tracker_hid :: "nat \<Rightarrow> data_collect_hid \<Rightarrow> data_collect_hid" where
  "data_collect_forget_tracker_hid t d =
     (if MAX_TRACKERS \<le> t then d
      else
        let d1 = (if unat (dc_target_tracker_id_hid d) = t then d\<lparr>dc_active_hid := False, dc_target_tracker_id_hid := 255\<rparr> else d);
            m = unset_bit t (dc_batch_mask_hid d1)
        in dc_reset_fifo_locked (d1\<lparr>dc_batch_mask_hid := m, dc_batch_active_hid := (m \<noteq> 0)\<rparr>))"

definition data_collect_is_active_hid :: "data_collect_hid \<Rightarrow> bool" where
  "data_collect_is_active_hid d \<longleftrightarrow> dc_active_hid d"

definition data_collect_get_target_id_hid :: "data_collect_hid \<Rightarrow> u8" where
  "data_collect_get_target_id_hid d = dc_target_tracker_id_hid d"

definition data_collect_batch_start_hid :: "u32 \<Rightarrow> int \<Rightarrow> data_collect_hid \<Rightarrow> data_collect_hid" where
  "data_collect_batch_start_hid m now d =
     (let d1 = dc_reset_fifo_locked (d\<lparr>dc_active_hid := False, dc_batch_active_hid := False, dc_batch_mask_hid := 0\<rparr>)
      in d1\<lparr>dc_batch_mask_hid := m, dc_batch_active_hid := (m \<noteq> 0), dc_frames_sent_hid := 0, dc_frames_dropped_hid := 0,
           dc_frames_received_hid := 0, dc_last_rx_time_hid := now\<rparr>)"

definition data_collect_batch_stop_hid :: "data_collect_hid \<Rightarrow> data_collect_hid" where
  "data_collect_batch_stop_hid d = dc_reset_fifo_locked (d\<lparr>dc_batch_active_hid := False, dc_batch_mask_hid := 0\<rparr>)"

definition data_collect_batch_is_active_hid :: "data_collect_hid \<Rightarrow> bool" where
  "data_collect_batch_is_active_hid d \<longleftrightarrow> dc_batch_active_hid d"

definition data_collect_batch_is_target_hid :: "nat \<Rightarrow> data_collect_hid \<Rightarrow> bool" where
  "data_collect_batch_is_target_hid t d \<longleftrightarrow> dc_batch_active_hid d \<and> t < MAX_TRACKERS \<and> mask_has (dc_batch_mask_hid d) t"

definition data_collect_is_target_hid :: "nat \<Rightarrow> data_collect_hid \<Rightarrow> bool" where
  "data_collect_is_target_hid t d \<longleftrightarrow> dc_active_hid d \<and> t = unat (dc_target_tracker_id_hid d)"

definition dc_timeout_work_handler_hid :: "data_collect_hid \<Rightarrow> dc_hid_action list \<times> data_collect_hid" where
  "dc_timeout_work_handler_hid d =
     (if \<not> dc_active_hid d \<and> \<not> dc_batch_active_hid d then ([], d)
      else if dc_batch_active_hid d then
        (map (\<lambda>t. DcHidRemoteCommand t ESB_PONG_FLAG_DATA_COLLECT_BATCH_OFF)
           (filter (mask_has (dc_batch_mask_hid d)) [0..<MAX_TRACKERS]),
         data_collect_batch_stop_hid d)
      else
        ([DcHidRemoteCommand (unat (dc_target_tracker_id_hid d)) ESB_PONG_FLAG_DATA_COLLECT_OFF], data_collect_stop_hid d))"

definition dc_timeout_timer_handler :: "int \<Rightarrow> data_collect_hid \<Rightarrow> dc_hid_action list" where
  "dc_timeout_timer_handler now d =
     (if (dc_active_hid d \<or> dc_batch_active_hid d) \<and> 0 < dc_last_rx_time_hid d \<and> DC_TIMEOUT_MS < now - dc_last_rx_time_hid d
      then [DcHidTimeoutWork] else [])"

section \<open>A packet from the radio\<close>

definition be32 :: "u32 \<Rightarrow> bytes" where
  "be32 x = [ucast (drop_bit 24 x), ucast (drop_bit 16 x), ucast (drop_bit 8 x), ucast x]"

definition dc_report :: "bytes \<Rightarrow> u8 \<Rightarrow> u32 \<Rightarrow> bytes" where
  "dc_report data rssi ticks =
     (let content = take 52 data @ [rssi] @ be32 ticks in content @ replicate (DC_REPORT_SIZE - length content) 0)"

definition data_collect_write_hid :: "bytes \<Rightarrow> u8 \<Rightarrow> int \<Rightarrow> u32 \<Rightarrow> data_collect_hid \<Rightarrow> dc_hid_action list \<times> data_collect_hid" where
  "data_collect_write_hid data rssi now ticks d =
     (if \<not> dc_hdev d \<or> (\<not> dc_active_hid d \<and> \<not> dc_batch_active_hid d) then ([], d)
      else
        let d1 = d\<lparr>dc_last_rx_time_hid := now, dc_frames_received_hid := dc_frames_received_hid d + 1\<rparr>;
            nxt = dc_fifo_next (dc_fifo_write d1)
        in if \<not> dc_hid_ready d1 \<or> nxt = dc_fifo_read d1
           then ([], d1\<lparr>dc_frames_dropped_hid := dc_frames_dropped_hid d1 + 1\<rparr>)
           else ([DcSendWork], d1\<lparr>dc_fifo := (dc_fifo d1)[dc_fifo_write d1 := dc_report data rssi ticks], dc_fifo_write := nxt\<rparr>))"

end
