(* ===== verification/Ring.thy ===== *)
theory Ring
  imports Prelude
begin

text \<open>
  A ring of \<open>n\<close> places with a read and a write index, equal when it is empty: the list it holds, and what pushing,
  popping and forgetting do to that list. Several components keep such rings.
\<close>

definition ring_used :: "nat \<Rightarrow> nat \<Rightarrow> nat \<Rightarrow> nat" where
  "ring_used n r w = (w + n - r) mod n"

definition ring_list :: "nat \<Rightarrow> 'a list \<Rightarrow> nat \<Rightarrow> nat \<Rightarrow> 'a list" where
  "ring_list n buf r w = map (\<lambda>k. buf ! ((r + k) mod n)) [0..<ring_used n r w]"

lemma length_ring_list [simp]: "length (ring_list n buf r w) = ring_used n r w"
  by (simp add: ring_list_def)

lemma ring_used_cases:
  assumes "r < n" "w < n"
  shows "ring_used n r w = (if r \<le> w then w - r else w + n - r)"
proof (cases "r \<le> w")
  case True
  then have "w + n - r = (w - r) + n" by simp
  then have "ring_used n r w = ((w - r) + n) mod n" by (simp only: ring_used_def)
  also have "\<dots> = (w - r) mod n" by (rule mod_add_self2)
  also have "\<dots> = w - r" using assms by (intro mod_less) linarith
  finally show ?thesis using True by simp
next
  case False
  then show ?thesis using assms by (simp add: ring_used_def)
qed

lemma ring_used_less: "r < n \<Longrightarrow> w < n \<Longrightarrow> ring_used n r w < n"
  by (simp add: ring_used_def)

lemma ring_used_same [simp]: "ring_used n r r = 0"
  by (simp add: ring_used_def)

lemma ring_list_same [simp]: "ring_list n buf r r = []"
  by (simp add: ring_list_def)

lemma ring_list_empty: "r < n \<Longrightarrow> w < n \<Longrightarrow> ring_list n buf r w = [] \<longleftrightarrow> r = w"
  by (auto simp: ring_list_def ring_used_cases)

lemma suc_mod: "i < n \<Longrightarrow> Suc i mod n = (if Suc i = n then 0 else Suc i)"
  by auto

lemma ring_used_pop: "r < n \<Longrightarrow> w < n \<Longrightarrow> r \<noteq> w \<Longrightarrow> ring_used n r w = Suc (ring_used n (Suc r mod n) w)"
  by (simp add: ring_used_cases suc_mod) auto

lemma ring_used_push: "r < n \<Longrightarrow> w < n \<Longrightarrow> Suc w mod n \<noteq> r \<Longrightarrow> ring_used n r (Suc w mod n) = Suc (ring_used n r w)"
  by (simp add: ring_used_cases suc_mod split: if_splits) auto

lemma ring_pop:
  assumes "r < n" "w < n" "r \<noteq> w"
  shows "ring_list n buf r w = buf ! r # ring_list n buf (Suc r mod n) w"
proof -
  have "(Suc r mod n + k) mod n = (r + Suc k) mod n" for k by (simp add: mod_add_left_eq)
  then show ?thesis using assms
    by (simp add: ring_list_def ring_used_pop upt_conv_Cons map_Suc_upt [symmetric] comp_def del: upt_Suc)
qed

lemma ring_push:
  assumes "r < n" "w < n" "Suc w mod n \<noteq> r" "length buf = n"
  shows "ring_list n (buf[w := x]) r (Suc w mod n) = ring_list n buf r w @ [x]"
proof -
  have w: "(r + ring_used n r w) mod n = w"
    using assms(1,2) by (cases "r \<le> w") (simp_all add: ring_used_cases)
  have other: "w \<noteq> (r + k) mod n" if "k < ring_used n r w" for k
  proof
    assume "w = (r + k) mod n"
    with w have "(r + k) mod n = (r + ring_used n r w) mod n" by (rule trans [THEN sym])
    moreover have "ring_used n r w < n" by (rule ring_used_less [OF assms(1,2)])
    ultimately show False using that mod_window_neq [of "r + k" "r + ring_used n r w" n] by linarith
  qed
  show ?thesis using assms other
    by (simp add: ring_list_def ring_used_push w nth_list_update_if)
qed

lemma ring_drop:
  assumes "r < n" "w < n" "s \<le> ring_used n r w"
  shows "ring_list n buf ((r + s) mod n) w = drop s (ring_list n buf r w)"
  using assms(3)
proof (induction s)
  case (Suc s)
  let ?r = "(r + s) mod n"
  have r: "?r < n" using assms(1) by (simp add: order_le_less_trans [OF le0])
  have IH: "ring_list n buf ?r w = drop s (ring_list n buf r w)" using Suc by simp
  have "length (ring_list n buf ?r w) \<noteq> 0" using Suc.prems by (simp only: IH length_drop length_ring_list)
  then have "?r \<noteq> w" using ring_list_empty [OF r assms(2)] by (metis length_0_conv)
  then have "ring_list n buf (Suc ?r mod n) w = tl (ring_list n buf ?r w)" using ring_pop [OF r assms(2), of buf] by simp
  moreover have "Suc ?r mod n = (r + Suc s) mod n" by (simp add: mod_Suc_eq)
  ultimately show ?case by (simp only: IH drop_Suc tl_drop)
qed (use assms in simp)

end
