(* ===== verification/DataCollectHidCorrect.thy ===== *)
theory DataCollectHidCorrect
  imports DataCollectHid HostCommands Ring
begin

text \<open>
  The reports of a collection on the HID interface: those the USB device has finished and those that wait are, in order,
  the ones that were accepted; nothing is lost unless a session ends or the device refuses a report; and the report the
  device owns is never written. The two builds of the port meet one contract, which the commands of the host use.
\<close>

section \<open>The contract of the two builds\<close>

locale collection_port =
  fixes start :: "u8 \<Rightarrow> int \<Rightarrow> 'd \<Rightarrow> 'd"
    and stop :: "'d \<Rightarrow> 'd"
    and batch_start :: "u32 \<Rightarrow> int \<Rightarrow> 'd \<Rightarrow> 'd"
    and batch_stop :: "'d \<Rightarrow> 'd"
    and forget :: "nat \<Rightarrow> 'd \<Rightarrow> 'd"
    and single :: "nat \<Rightarrow> 'd \<Rightarrow> bool"
    and batch :: "nat \<Rightarrow> 'd \<Rightarrow> bool"
  assumes single_start: "single i (start t now d) \<longleftrightarrow> i = unat t"
    and batch_start_single: "\<not> batch i (start t now d)"
    and single_stop: "\<not> single i (stop d)"
    and batch_unstopped: "batch i (stop d) \<longleftrightarrow> batch i d"
    and single_batch_start: "\<not> single i (batch_start m now d)"
    and batch_batch_start: "batch i (batch_start m now d) \<longleftrightarrow> i < MAX_TRACKERS \<and> mask_has m i"
    and single_unstopped: "single i (batch_stop d) \<longleftrightarrow> single i d"
    and batch_batch_stop: "\<not> batch i (batch_stop d)"
    and single_forget: "k < MAX_TRACKERS \<Longrightarrow> single i (forget k d) \<longleftrightarrow> single i d \<and> i \<noteq> k"
    and batch_forget: "k < MAX_TRACKERS \<Longrightarrow> batch i (forget k d) \<Longrightarrow> i \<noteq> k"
begin

definition wanted :: "'d \<Rightarrow> nat set" where
  "wanted d = {i. single i d \<or> batch i d}"

lemma wanted_start: "wanted (start t now d) = {unat t}"
  by (auto simp: wanted_def single_start batch_start_single)

lemma wanted_batch: "wanted (batch_start m now d) = {i. i < MAX_TRACKERS \<and> mask_has m i}"
  by (auto simp: wanted_def single_batch_start batch_batch_start)

lemma wanted_stopped: "wanted (batch_stop (stop d)) = {}" "wanted (stop (batch_stop d)) = {}"
  by (simp_all add: wanted_def single_unstopped batch_unstopped single_stop batch_batch_stop)

lemma wanted_forget: "t < MAX_TRACKERS \<Longrightarrow> t \<notin> wanted (forget t d)"
  using batch_forget [of t t d] by (auto simp: wanted_def single_forget)

end

interpretation serial_port: collection_port data_collect_start data_collect_stop data_collect_batch_start data_collect_batch_stop
    data_collect_forget_tracker data_collect_is_target data_collect_batch_is_target
  by unfold_locales
    (auto simp: data_collect_start_def data_collect_stop_def data_collect_batch_start_def data_collect_batch_stop_def
      data_collect_forget_tracker_def data_collect_is_target_def data_collect_batch_is_target_def dc_discard_buffer_def Let_def)

lemma reset_modes [simp]:
  "dc_active_hid (dc_reset_fifo_locked d) = dc_active_hid d"
  "dc_target_tracker_id_hid (dc_reset_fifo_locked d) = dc_target_tracker_id_hid d"
  "dc_batch_active_hid (dc_reset_fifo_locked d) = dc_batch_active_hid d"
  "dc_batch_mask_hid (dc_reset_fifo_locked d) = dc_batch_mask_hid d"
  "dc_submitted_report (dc_reset_fifo_locked d) = dc_submitted_report d" "dc_fifo (dc_reset_fifo_locked d) = dc_fifo d"
  by (simp_all add: dc_reset_fifo_locked_def)

interpretation hid_port: collection_port data_collect_start_hid data_collect_stop_hid data_collect_batch_start_hid
    data_collect_batch_stop_hid data_collect_forget_tracker_hid data_collect_is_target_hid data_collect_batch_is_target_hid
  by unfold_locales
    (auto simp: data_collect_start_hid_def data_collect_stop_hid_def data_collect_batch_start_hid_def data_collect_batch_stop_hid_def
      data_collect_forget_tracker_hid_def data_collect_is_target_hid_def data_collect_batch_is_target_hid_def Let_def)

section \<open>The ring as a list\<close>

definition hid_used :: "data_collect_hid \<Rightarrow> nat" where
  "hid_used d = ring_used DC_FIFO_SIZE (dc_fifo_read d) (dc_fifo_write d)"

definition hid_waiting :: "data_collect_hid \<Rightarrow> bytes list" where
  "hid_waiting d = ring_list DC_FIFO_SIZE (dc_fifo d) (dc_fifo_read d) (dc_fifo_write d)"

definition dc_hid_ok :: "data_collect_hid \<Rightarrow> bool" where
  "dc_hid_ok d \<longleftrightarrow>
     length (dc_fifo d) = DC_FIFO_SIZE \<and> dc_fifo_read d < DC_FIFO_SIZE \<and> dc_fifo_write d < DC_FIFO_SIZE \<and>
     (\<forall>i. dc_submitted_report d = Some i \<longrightarrow> i = dc_fifo_read d \<and> dc_fifo_read d \<noteq> dc_fifo_write d)"

lemma fifo_next_mod: "i < DC_FIFO_SIZE \<Longrightarrow> dc_fifo_next i = Suc i mod DC_FIFO_SIZE"
  by (cases "i = 63") (auto simp: dc_fifo_next_def)

lemma fifo_next_less [simp]: "i < DC_FIFO_SIZE \<Longrightarrow> dc_fifo_next i < DC_FIFO_SIZE"
  by (simp add: dc_fifo_next_def)

lemma hid_waiting_empty: "dc_hid_ok d \<Longrightarrow> hid_waiting d = [] \<longleftrightarrow> dc_fifo_read d = dc_fifo_write d"
  by (simp add: hid_waiting_def dc_hid_ok_def ring_list_empty)

text \<open>Taking the oldest report off the ring, and appending a report to a ring that is not full.\<close>

lemma hid_waiting_advance:
  assumes "dc_hid_ok d" "dc_fifo_read d \<noteq> dc_fifo_write d"
    and "dc_fifo d1 = dc_fifo d" "dc_fifo_read d1 = dc_fifo_next (dc_fifo_read d)" "dc_fifo_write d1 = dc_fifo_write d"
  shows "hid_waiting d = dc_fifo d ! dc_fifo_read d # hid_waiting d1"
  using assms by (simp add: hid_waiting_def dc_hid_ok_def fifo_next_mod ring_pop)

lemma hid_waiting_append:
  assumes "dc_hid_ok d" "dc_fifo_next (dc_fifo_write d) \<noteq> dc_fifo_read d"
    and "dc_fifo d1 = (dc_fifo d)[dc_fifo_write d := r]" "dc_fifo_read d1 = dc_fifo_read d" "dc_fifo_write d1 = dc_fifo_next (dc_fifo_write d)"
  shows "hid_waiting d1 = hid_waiting d @ [r]"
  using assms by (simp add: hid_waiting_def dc_hid_ok_def fifo_next_mod ring_push)

section \<open>Steps\<close>

datatype dc_hid_op = HidInit bool "errno option" | HidWrite bytes u8 int u32 | HidSend submit_result | HidReady bool | HidDone nat | HidTimeout
  | HidStart u8 int | HidStop | HidBatchStart u32 int | HidBatchStop | HidForget nat

fun dc_hid_step :: "dc_hid_op \<Rightarrow> data_collect_hid \<Rightarrow> data_collect_hid" where
  "dc_hid_step (HidInit device_ready ret) d = snd (data_collect_init_hid device_ready ret d)"
| "dc_hid_step (HidWrite data rssi now ticks) d = snd (data_collect_write_hid data rssi now ticks d)"
| "dc_hid_step (HidSend ret) d = snd (dc_send_work_handler ret d)"
| "dc_hid_step (HidReady ready) d = snd (dc_iface_ready_cb True ready d)"
| "dc_hid_step (HidDone i) d = snd (dc_input_report_done_cb True (Some i) d)"
| "dc_hid_step HidTimeout d = snd (dc_timeout_work_handler_hid d)"
| "dc_hid_step (HidStart t now) d = data_collect_start_hid t now d"
| "dc_hid_step HidStop d = data_collect_stop_hid d"
| "dc_hid_step (HidBatchStart m now) d = data_collect_batch_start_hid m now d"
| "dc_hid_step HidBatchStop d = data_collect_batch_stop_hid d"
| "dc_hid_step (HidForget t) d = data_collect_forget_tracker_hid t d"

text \<open>What a step accepts from the radio, what the host has then, and which steps may lose reports.\<close>

fun hid_accepted :: "dc_hid_op \<Rightarrow> data_collect_hid \<Rightarrow> bytes list" where
  "hid_accepted (HidWrite data rssi now ticks) d =
     (if fst (data_collect_write_hid data rssi now ticks d) \<noteq> [] then [dc_report data rssi ticks] else [])"
| "hid_accepted _ d = []"

fun hid_finished :: "dc_hid_op \<Rightarrow> data_collect_hid \<Rightarrow> bytes list" where
  "hid_finished (HidDone i) d = (if dc_submitted_report d = Some i then [dc_fifo d ! i] else [])"
| "hid_finished _ d = []"

fun hid_lossless :: "dc_hid_op \<Rightarrow> bool" where
  "hid_lossless (HidInit _ _) = True"
| "hid_lossless (HidWrite _ _ _ _) = True"
| "hid_lossless (HidSend ret) = (ret \<noteq> SubmitError)"
| "hid_lossless (HidReady _) = True"
| "hid_lossless (HidDone _) = True"
| "hid_lossless _ = False"

fun dc_hid_stream :: "dc_hid_op list \<Rightarrow> data_collect_hid \<Rightarrow> bytes list \<times> bytes list \<times> data_collect_hid" where
  "dc_hid_stream [] d = ([], [], d)"
| "dc_hid_stream (op # ops) d =
     (let (accepted, finished, d1) = dc_hid_stream ops (dc_hid_step op d)
      in (hid_accepted op d @ accepted, hid_finished op d @ finished, d1))"

lemma hid_waiting_cong:
  "dc_fifo d1 = dc_fifo d \<Longrightarrow> dc_fifo_read d1 = dc_fifo_read d \<Longrightarrow> dc_fifo_write d1 = dc_fifo_write d \<Longrightarrow> hid_waiting d1 = hid_waiting d"
  by (simp add: hid_waiting_def)

text \<open>A reset keeps the report that the device owns and drops the others.\<close>

lemma reset_ring:
  assumes "dc_hid_ok d"
  shows "dc_hid_ok (dc_reset_fifo_locked d)"
    and "hid_waiting (dc_reset_fifo_locked d) = (if dc_submitted_report d = None then [] else [hd (hid_waiting d)])"
proof -
  have b: "dc_fifo_read d < DC_FIFO_SIZE" "dc_fifo_write d < DC_FIFO_SIZE" using assms by (simp_all add: dc_hid_ok_def)
  show ok: "dc_hid_ok (dc_reset_fifo_locked d)"
    using assms by (auto simp: dc_hid_ok_def dc_reset_fifo_locked_def dc_fifo_next_def)
  show "hid_waiting (dc_reset_fifo_locked d) = (if dc_submitted_report d = None then [] else [hd (hid_waiting d)])"
  proof (cases "dc_submitted_report d")
    case None
    then show ?thesis using hid_waiting_empty [OF ok] by (simp add: dc_reset_fifo_locked_def)
  next
    case (Some i)
    let ?d = "dc_reset_fifo_locked d"
    have "hid_waiting d = dc_fifo d ! dc_fifo_read d # hid_waiting (dc_fifo_advance_read d)"
      by (rule hid_waiting_advance) (use assms Some in \<open>auto simp: dc_hid_ok_def dc_fifo_advance_read_def\<close>)
    moreover have "hid_waiting ?d = dc_fifo ?d ! dc_fifo_read ?d # hid_waiting (dc_fifo_advance_read ?d)"
      by (rule hid_waiting_advance) (use ok Some b in \<open>auto simp: dc_fifo_advance_read_def dc_reset_fifo_locked_def dc_fifo_next_def\<close>)
    moreover have "hid_waiting (dc_fifo_advance_read ?d) = []"
      by (simp add: hid_waiting_def dc_fifo_advance_read_def dc_reset_fifo_locked_def Some)
    ultimately show ?thesis using Some by (simp add: dc_reset_fifo_locked_def)
  qed
qed

lemma hid_ok_cong:
  "dc_hid_ok d \<Longrightarrow> dc_fifo d1 = dc_fifo d \<Longrightarrow> dc_fifo_read d1 = dc_fifo_read d \<Longrightarrow> dc_fifo_write d1 = dc_fifo_write d \<Longrightarrow>
   dc_submitted_report d1 = dc_submitted_report d \<or> dc_submitted_report d1 = None \<Longrightarrow> dc_hid_ok d1"
  by (auto simp: dc_hid_ok_def)

definition ring_step :: "dc_hid_op \<Rightarrow> data_collect_hid \<Rightarrow> data_collect_hid \<Rightarrow> bool" where
  "ring_step op d d1 \<longleftrightarrow>
     dc_hid_ok d1 \<and> subseq (hid_finished op d @ hid_waiting d1) (hid_waiting d @ hid_accepted op d) \<and>
     (hid_lossless op \<longrightarrow> hid_finished op d @ hid_waiting d1 = hid_waiting d @ hid_accepted op d) \<and>
     (\<forall>i. dc_submitted_report d = Some i \<longrightarrow> dc_submitted_report d1 = Some i \<longrightarrow> dc_fifo d1 ! i = dc_fifo d ! i)"

lemma reset_step:
  assumes "dc_hid_ok d" and "hid_finished op d = []" "hid_accepted op d = []" "\<not> hid_lossless op"
    and "dc_fifo d0 = dc_fifo d" "dc_fifo_read d0 = dc_fifo_read d" "dc_fifo_write d0 = dc_fifo_write d"
      "dc_submitted_report d0 = dc_submitted_report d"
    and "d1 = dc_reset_fifo_locked d0 \<or> dc_fifo d1 = dc_fifo d \<and> dc_fifo_read d1 = dc_fifo_read (dc_reset_fifo_locked d0) \<and>
      dc_fifo_write d1 = dc_fifo_write (dc_reset_fifo_locked d0) \<and> dc_submitted_report d1 = dc_submitted_report d"
  shows "ring_step op d d1"
proof -
  let ?r = "dc_reset_fifo_locked d0"
  have ok0: "dc_hid_ok d0" by (rule hid_ok_cong [OF assms(1)]) (simp_all add: assms)
  have w0: "hid_waiting d0 = hid_waiting d" by (rule hid_waiting_cong) (simp_all add: assms)
  have same: "dc_fifo d1 = dc_fifo ?r" "dc_fifo_read d1 = dc_fifo_read ?r" "dc_fifo_write d1 = dc_fifo_write ?r"
    "dc_submitted_report d1 = dc_submitted_report ?r" using assms(5,8,9) by auto
  have ok1: "dc_hid_ok d1" by (rule hid_ok_cong [OF reset_ring(1) [OF ok0]]) (simp_all add: same)
  have w1: "hid_waiting d1 = (if dc_submitted_report d = None then [] else [hd (hid_waiting d)])"
    using hid_waiting_cong [OF same(1-3)] reset_ring(2) [OF ok0] w0 assms(8) by simp
  have "hid_waiting d \<noteq> []" if "dc_submitted_report d \<noteq> None"
    using that assms(1) by (subst hid_waiting_empty) (auto simp: dc_hid_ok_def)
  then show ?thesis using ok1 w1 same(1) assms by (auto simp: ring_step_def subseq_singleton_left)
qed

lemma same_step:
  assumes "dc_hid_ok d" and "hid_finished op d = []" "hid_accepted op d = []"
    and "dc_fifo d1 = dc_fifo d" "dc_fifo_read d1 = dc_fifo_read d" "dc_fifo_write d1 = dc_fifo_write d"
    and "dc_submitted_report d1 = dc_submitted_report d \<or> dc_submitted_report d1 = None"
  shows "ring_step op d d1"
  using hid_ok_cong [OF assms(1,4-7)] hid_waiting_cong [OF assms(4-6)] assms(2-4) by (simp add: ring_step_def)

lemma write_step:
  assumes "dc_hid_ok d"
  shows "ring_step (HidWrite data rssi now ticks) d (snd (data_collect_write_hid data rssi now ticks d))"
proof (cases "dc_hdev d \<and> (dc_active_hid d \<or> dc_batch_active_hid d) \<and> dc_hid_ready d \<and> dc_fifo_next (dc_fifo_write d) \<noteq> dc_fifo_read d")
  case False
  then show ?thesis by (intro same_step assms) (auto simp: data_collect_write_hid_def Let_def)
next
  case True
  let ?d1 = "snd (data_collect_write_hid data rssi now ticks d)" and ?r = "dc_report data rssi ticks"
  have f: "dc_fifo ?d1 = (dc_fifo d)[dc_fifo_write d := ?r]" "dc_fifo_read ?d1 = dc_fifo_read d"
    "dc_fifo_write ?d1 = dc_fifo_next (dc_fifo_write d)" "dc_submitted_report ?d1 = dc_submitted_report d"
    using True by (auto simp: data_collect_write_hid_def Let_def)
  have "hid_waiting ?d1 = hid_waiting d @ [?r]" by (rule hid_waiting_append [OF assms _ f(1-3)]) (use True in blast)
  moreover have "hid_accepted (HidWrite data rssi now ticks) d = [?r]" using True by (auto simp: data_collect_write_hid_def Let_def)
  moreover have "dc_hid_ok ?d1" using assms True f by (auto simp: dc_hid_ok_def)
  moreover have "dc_fifo ?d1 ! i = dc_fifo d ! i" if "dc_submitted_report d = Some i" for i
    using assms that by (auto simp: f dc_hid_ok_def)
  ultimately show ?thesis by (simp add: ring_step_def)
qed

lemma drop_step:
  assumes "dc_hid_ok d" "dc_fifo_read d \<noteq> dc_fifo_write d"
    and "dc_fifo d1 = dc_fifo d" "dc_fifo_read d1 = dc_fifo_next (dc_fifo_read d)" "dc_fifo_write d1 = dc_fifo_write d"
      "dc_submitted_report d1 = None"
  shows "dc_hid_ok d1" and "hid_waiting d = dc_fifo d ! dc_fifo_read d # hid_waiting d1"
  using assms(1) hid_waiting_advance [OF assms(1-5)] by (simp_all add: dc_hid_ok_def assms(3-6))

lemma send_step:
  assumes "dc_hid_ok d"
  shows "ring_step (HidSend ret) d (snd (dc_send_work_handler ret d))"
proof (cases "dc_hdev d \<and> dc_hid_ready d \<and> dc_fifo_read d \<noteq> dc_fifo_write d \<and> \<not> dc_ep_busy d")
  case False
  then have "snd (dc_send_work_handler ret d) = d" by (auto simp: dc_send_work_handler_def dc_send_fetch_def Let_def)
  then show ?thesis using same_step [OF assms, of "HidSend ret" d] by simp
next
  case True
  then have h: "snd (dc_send_work_handler ret d) = snd (dc_send_submit (dc_fifo_read d) ret (d\<lparr>dc_ep_busy := True\<rparr>))"
    by (simp add: dc_send_work_handler_def dc_send_fetch_def Let_def)
  show ?thesis
  proof (cases ret)
    case SubmitOk
    let ?d1 = "snd (dc_send_work_handler ret d)"
    have f: "dc_fifo ?d1 = dc_fifo d" "dc_fifo_read ?d1 = dc_fifo_read d" "dc_fifo_write ?d1 = dc_fifo_write d"
      "dc_submitted_report ?d1 = Some (dc_fifo_read d)" unfolding h by (simp_all add: dc_send_submit_def SubmitOk)
    then show ?thesis using assms True hid_waiting_cong [OF f(1-3)] by (auto simp: ring_step_def dc_hid_ok_def)
  next
    case SubmitEacces
    then show ?thesis unfolding h by (intro same_step assms) (simp_all add: dc_send_submit_def)
  next
    case SubmitError
    let ?d1 = "snd (dc_send_work_handler ret d)"
    have f: "dc_fifo ?d1 = dc_fifo d" "dc_fifo_read ?d1 = dc_fifo_next (dc_fifo_read d)" "dc_fifo_write ?d1 = dc_fifo_write d"
      "dc_submitted_report ?d1 = None" unfolding h using True
      by (simp_all add: dc_send_submit_def SubmitError dc_drop_current_report_def dc_fifo_empty_def dc_fifo_advance_read_def Let_def)
    have "ring_step (HidSend SubmitError) d ?d1"
      using drop_step [OF assms _ f] True f(4) by (auto simp: ring_step_def)
    then show ?thesis by (simp only: SubmitError)
  qed
qed

lemma done_step:
  assumes "dc_hid_ok d"
  shows "ring_step (HidDone i) d (snd (dc_input_report_done_cb True (Some i) d))"
proof (cases "dc_submitted_report d = Some i")
  case False
  then show ?thesis by (intro same_step assms) (auto simp: dc_input_report_done_cb_def Let_def)
next
  case True
  let ?d1 = "snd (dc_input_report_done_cb True (Some i) d)"
  have i: "i = dc_fifo_read d" "dc_fifo_read d \<noteq> dc_fifo_write d" using assms True by (auto simp: dc_hid_ok_def)
  have f: "dc_fifo ?d1 = dc_fifo d" "dc_fifo_read ?d1 = dc_fifo_next (dc_fifo_read d)" "dc_fifo_write ?d1 = dc_fifo_write d"
    "dc_submitted_report ?d1 = None" using True by (simp_all add: dc_input_report_done_cb_def Let_def dc_fifo_advance_read_def)
  show ?thesis using drop_step [OF assms i(2) f] True i(1) f(4) by (simp add: ring_step_def)
qed

lemma hid_step_ring:
  assumes "dc_hid_ok d"
  shows "ring_step op d (dc_hid_step op d)"
proof (cases op)
  case (HidWrite data rssi now ticks)
  then show ?thesis using write_step [OF assms] by (simp only: dc_hid_step.simps)
next
  case (HidSend ret)
  then show ?thesis using send_step [OF assms] by (simp only: dc_hid_step.simps)
next
  case (HidDone i)
  then show ?thesis using done_step [OF assms] by (simp only: dc_hid_step.simps)
next
  case (HidInit device_ready ret)
  then show ?thesis by (simp only: dc_hid_step.simps, intro same_step assms) (auto simp: data_collect_init_hid_def Let_def)
next
  case (HidReady ready)
  then show ?thesis by (simp only: dc_hid_step.simps, intro same_step assms) (auto simp: dc_iface_ready_cb_def Let_def)
next
  case (HidStart t now)
  show ?thesis unfolding HidStart dc_hid_step.simps data_collect_start_hid_def Let_def
    by (rule reset_step [OF assms, where ?d0.0 = "d\<lparr>dc_active_hid := False, dc_batch_active_hid := False, dc_batch_mask_hid := 0,
      dc_target_tracker_id_hid := t\<rparr>"]) simp_all
next
  case HidStop
  show ?thesis unfolding HidStop dc_hid_step.simps data_collect_stop_hid_def
    by (rule reset_step [OF assms, where ?d0.0 = "d\<lparr>dc_active_hid := False\<rparr>"]) simp_all
next
  case (HidBatchStart m now)
  show ?thesis unfolding HidBatchStart dc_hid_step.simps data_collect_batch_start_hid_def Let_def
    by (rule reset_step [OF assms, where ?d0.0 = "d\<lparr>dc_active_hid := False, dc_batch_active_hid := False, dc_batch_mask_hid := 0\<rparr>"])
      simp_all
next
  case HidBatchStop
  show ?thesis unfolding HidBatchStop dc_hid_step.simps data_collect_batch_stop_hid_def
    by (rule reset_step [OF assms, where ?d0.0 = "d\<lparr>dc_batch_active_hid := False, dc_batch_mask_hid := 0\<rparr>"]) simp_all
next
  case HidTimeout
  show ?thesis
  proof (cases "dc_active_hid d \<or> dc_batch_active_hid d")
    case False
    then show ?thesis unfolding HidTimeout by (simp only: dc_hid_step.simps, intro same_step assms) (simp_all add: dc_timeout_work_handler_hid_def)
  next
    case True
    then have "dc_hid_step op d = dc_reset_fifo_locked (d\<lparr>dc_batch_active_hid := False, dc_batch_mask_hid := 0\<rparr>) \<or>
        dc_hid_step op d = dc_reset_fifo_locked (d\<lparr>dc_active_hid := False\<rparr>)"
      by (auto simp: HidTimeout dc_timeout_work_handler_hid_def data_collect_batch_stop_hid_def data_collect_stop_hid_def)
    then show ?thesis using HidTimeout by (elim disjE) (rule reset_step [OF assms _ _ _ _ _ _ _ disjI1]; simp)+
  qed
next
  case (HidForget t)
  show ?thesis
  proof (cases "MAX_TRACKERS \<le> t")
    case True
    then show ?thesis unfolding HidForget by (simp only: dc_hid_step.simps, intro same_step assms) (simp_all add: data_collect_forget_tracker_hid_def)
  next
    case False
    then show ?thesis unfolding HidForget dc_hid_step.simps data_collect_forget_tracker_hid_def Let_def if_not_P [OF False]
      by (intro reset_step [OF assms _ _ _ _ _ _ _ disjI1 [OF refl]]) simp_all
  qed
qed

section \<open>The theorems\<close>


lemma dc_hid_stream_ok: "dc_hid_ok d \<Longrightarrow> dc_hid_stream ops d = (accepted, finished, d1) \<Longrightarrow> dc_hid_ok d1"
proof (induction ops arbitrary: d accepted finished)
  case (Cons op ops)
  then show ?case using hid_step_ring [of d op] by (auto simp: ring_step_def split: prod.splits)
qed simp


section \<open>Concrete collections\<close>

text \<open>A collection of tracker 3 on a device that is ready; one packet; the device takes and finishes it.\<close>

definition hid_session :: data_collect_hid where
  "hid_session = dc_hid_boot\<lparr>dc_hdev := True, dc_hid_ready := True, dc_active_hid := True, dc_target_tracker_id_hid := 3\<rparr>"

definition hid_packet :: dc_hid_op where
  "hid_packet = HidWrite [0x10, 3, 9] 60 5000 77"

lemma hid_session_ok: "dc_hid_ok hid_session"
  by (simp add: dc_hid_ok_def hid_session_def dc_hid_boot_def)


text \<open>The device owns the first report when the session ends.\<close>

lemma owned_start:
  "dc_hid_stream [HidInit True None, HidReady True, HidStart 3 4000, hid_packet, HidSend SubmitOk] dc_hid_boot =
     ([dc_report [0x10, 3, 9] 60 77], [],
      dc_hid_boot\<lparr>dc_hdev := True, dc_ep_busy := True, dc_hid_ready := True, dc_submitted_report := Some 0,
        dc_fifo := (replicate 64 (replicate DC_REPORT_SIZE 0))[0 := dc_report [0x10, 3, 9] 60 77], dc_fifo_write := 1, dc_active_hid := True,
        dc_target_tracker_id_hid := 3, dc_frames_received_hid := 1, dc_last_rx_time_hid := 5000\<rparr>)"
  by (simp add: hid_packet_def dc_hid_boot_def data_collect_init_hid_def dc_iface_ready_cb_def data_collect_start_hid_def
      dc_reset_fifo_locked_def data_collect_write_hid_def Let_def dc_send_work_handler_def dc_send_fetch_def dc_send_submit_def dc_fifo_next_def)


text \<open>
  Why the work item has to run in one piece:
  if a reset could come between its look at the ring and the hand-over, as here, then after the device
  is done the ring of a stopped collection would hold 63 old slots.
\<close>

lemma reset_inside_work_item:
  "let d = snd (snd (dc_hid_stream [HidInit True None, HidReady True, HidStart 3 4000, hid_packet] dc_hid_boot));
       (rd, d1) = dc_send_fetch d; d2 = data_collect_stop_hid d1; d3 = snd (dc_send_submit (the rd) SubmitOk d2)
   in hid_used d2 = 0 \<and> hid_used (snd (dc_input_report_done_cb True rd d3)) = 63"
  by (simp add: hid_packet_def dc_hid_boot_def data_collect_init_hid_def dc_iface_ready_cb_def data_collect_start_hid_def
      data_collect_stop_hid_def dc_reset_fifo_locked_def data_collect_write_hid_def Let_def dc_send_fetch_def dc_send_submit_def
      dc_fifo_next_def dc_input_report_done_cb_def dc_fifo_advance_read_def hid_used_def ring_used_def)

end
