(* ===== verification/Led.thy ===== *)
theory Led
  imports Prelude
begin

text \<open>
  The indicator light and the status word (\<open>system/led.c\<close>, \<open>system/status.c\<close>). Callers put patterns on a
  list of priorities under a lock and wake the thread, which alone touches the hardware. The thread takes a snapshot, switches the pins,
  renders one step of the pattern, looks again and waits; each part between two locks is one step here, since requests
  from threads and interrupts come in between. A caller that has changed the selection wakes the thread after it has left the lock, so
  the record \<open>led\<close> counts the callers that still have to do so. The pins of a build and its colour table are in \<open>led_build\<close>.
\<close>

datatype sys_led_pattern = SYS_LED_PATTERN_OFF_FORCE | SYS_LED_PATTERN_OFF | SYS_LED_PATTERN_ON | SYS_LED_PATTERN_SHORT
  | SYS_LED_PATTERN_LONG | SYS_LED_PATTERN_FLASH | SYS_LED_PATTERN_ONESHOT_POWERON | SYS_LED_PATTERN_ONESHOT_POWEROFF
  | SYS_LED_PATTERN_ONESHOT_PROGRESS | SYS_LED_PATTERN_ONESHOT_COMPLETE | SYS_LED_PATTERN_ON_PERSIST
  | SYS_LED_PATTERN_LONG_PERSIST | SYS_LED_PATTERN_PULSE_PERSIST | SYS_LED_PATTERN_ACTIVE_PERSIST | SYS_LED_PATTERN_ERROR_A
  | SYS_LED_PATTERN_ERROR_B | SYS_LED_PATTERN_ERROR_C | SYS_LED_PATTERN_ERROR_D

datatype sys_led_color = SYS_LED_COLOR_DEFAULT | SYS_LED_COLOR_SUCCESS | SYS_LED_COLOR_ERROR | SYS_LED_COLOR_CHARGING
  | SYS_LED_COLOR_PAIRING

abbreviation (input) SYS_LED_PATTERN_DEPTH :: nat where "SYS_LED_PATTERN_DEPTH \<equiv> 5"
abbreviation (input) LED_OFF_WAIT_MS :: int where "LED_OFF_WAIT_MS \<equiv> 100"

section \<open>The pins\<close>

datatype led_build = LedStrip "int list" | LedPwm "int list" "int list option" | LedGpio

text \<open>What the thread last did to the pins: a colour with brightness and value, the state set at boot, disconnected, or unknown after a failure.\<close>

datatype led_output = LedPins sys_led_color int int | LedInit | LedReset | LedUnknown

fun led_pwm_period :: "led_build \<Rightarrow> sys_led_color \<Rightarrow> int list" where
  "led_pwm_period (LedStrip plain) c =
     (case c of SYS_LED_COLOR_DEFAULT \<Rightarrow> plain | SYS_LED_COLOR_SUCCESS \<Rightarrow> [0, 10000, 0] | SYS_LED_COLOR_ERROR \<Rightarrow> [10000, 0, 0]
      | SYS_LED_COLOR_CHARGING \<Rightarrow> [8000, 2000, 0] | SYS_LED_COLOR_PAIRING \<Rightarrow> [0, 0, 10000])"
| "led_pwm_period (LedPwm periods rgb) c =
     (if length periods = 3 then
        case rgb of
          Some plain \<Rightarrow> (case c of SYS_LED_COLOR_DEFAULT \<Rightarrow> plain | SYS_LED_COLOR_SUCCESS \<Rightarrow> [0, 10000, 0]
            | SYS_LED_COLOR_ERROR \<Rightarrow> [10000, 0, 0] | SYS_LED_COLOR_CHARGING \<Rightarrow> [8000, 2000, 0] | SYS_LED_COLOR_PAIRING \<Rightarrow> [0, 0, 10000])
        | None \<Rightarrow> (case c of SYS_LED_COLOR_DEFAULT \<Rightarrow> [0, 0, 10000] | SYS_LED_COLOR_SUCCESS \<Rightarrow> [0, 10000, 0]
            | SYS_LED_COLOR_ERROR \<Rightarrow> [10000, 0, 0] | SYS_LED_COLOR_CHARGING \<Rightarrow> [6000, 4000, 0] | SYS_LED_COLOR_PAIRING \<Rightarrow> [0, 0, 10000])
      else if length periods = 2 then
        case rgb of
          Some plain \<Rightarrow> (case c of SYS_LED_COLOR_DEFAULT \<Rightarrow> plain | SYS_LED_COLOR_SUCCESS \<Rightarrow> [0, 10000]
            | SYS_LED_COLOR_ERROR \<Rightarrow> [10000, 0] | SYS_LED_COLOR_CHARGING \<Rightarrow> [8000, 2000] | SYS_LED_COLOR_PAIRING \<Rightarrow> [4000, 6000])
        | None \<Rightarrow> (case c of SYS_LED_COLOR_DEFAULT \<Rightarrow> [0, 10000] | SYS_LED_COLOR_SUCCESS \<Rightarrow> [0, 10000]
            | SYS_LED_COLOR_ERROR \<Rightarrow> [10000, 0] | SYS_LED_COLOR_CHARGING \<Rightarrow> [6000, 4000] | SYS_LED_COLOR_PAIRING \<Rightarrow> [0, 10000])
      else [10000])"
| "led_pwm_period LedGpio c = [10000]"

definition clamp_pptt :: "int \<Rightarrow> int" where
  "clamp_pptt x = (if x < 0 then 0 else if 10000 < x then 10000 else x)"

text \<open>The levels written: bytes of a strip, pulses of the channels, or on and off.\<close>

definition led_pin_set :: "led_build \<Rightarrow> sys_led_color \<Rightarrow> int \<Rightarrow> int \<Rightarrow> int list" where
  "led_pin_set b c brightness_pptt value_pptt =
     (let brightness = clamp_pptt brightness_pptt; v = clamp_pptt value_pptt; scaled = v * brightness div 10000
      in case b of
           LedStrip plain \<Rightarrow> map (\<lambda>p. 255 * (p * scaled div 10000) div 10000) (led_pwm_period b c)
         | LedPwm periods rgb \<Rightarrow> map (\<lambda>(period, p). period div 10000 * (p * scaled div 10000)) (zip periods (led_pwm_period b c))
         | LedGpio \<Rightarrow> [if 5000 < v then 1 else 0])"

section \<open>State\<close>

text \<open>Where the thread is; \<open>-1\<close> is the wait without end.\<close>

datatype led_phase = LedTop
  | LedPrepare sys_led_pattern nat u32
  | LedAcknowledge sys_led_pattern nat u32 bool
  | LedRender sys_led_pattern nat u32
  | LedFinish sys_led_pattern nat u32 sys_led_pattern int
  | LedCheck sys_led_pattern u32 int
  | LedRecheck sys_led_pattern u32 int
  | LedWait sys_led_pattern u32 int

record led =
  current_led_pattern :: sys_led_pattern
  current_priority :: nat
  led_patterns :: "sys_led_pattern list"
  led_generation :: u32
  led_off_generation :: u32
  led_changed :: bool
  led_givers :: nat
  led_pattern_state :: nat
  active_generation :: u32
  led_phase :: led_phase
  led_output :: led_output

definition led_boot :: led where
  "led_boot = \<lparr>current_led_pattern = SYS_LED_PATTERN_OFF, current_priority = SYS_LED_PATTERN_DEPTH,
     led_patterns = replicate SYS_LED_PATTERN_DEPTH SYS_LED_PATTERN_OFF, led_generation = 1, led_off_generation = 0,
     led_changed = False, led_givers = 0, led_pattern_state = 0, active_generation = 0, led_phase = LedTop, led_output = LedInit\<rparr>"

section \<open>Requests\<close>

fun first_active :: "sys_led_pattern list \<Rightarrow> nat" where
  "first_active [] = 0"
| "first_active (p # ps) = (if p \<noteq> SYS_LED_PATTERN_OFF then 0 else Suc (first_active ps))"

definition led_select_locked :: "sys_led_pattern \<Rightarrow> nat \<Rightarrow> led \<Rightarrow> bool \<times> led" where
  "led_select_locked pattern priority s =
     (let ps = (led_patterns s)[priority := pattern]; s1 = s\<lparr>led_patterns := ps\<rparr>;
          k = first_active ps; p = (if k < SYS_LED_PATTERN_DEPTH then ps ! k else SYS_LED_PATTERN_OFF)
      in if p = current_led_pattern s1 \<and> k = current_priority s1 then (False, s1)
         else (True, s1\<lparr>current_led_pattern := p, current_priority := k, led_generation := led_generation s1 + 1\<rparr>))"

definition select_and_give :: "sys_led_pattern \<Rightarrow> nat \<Rightarrow> led \<Rightarrow> led" where
  "select_and_give pattern priority s =
     (let (changed, s1) = led_select_locked pattern priority s in if changed then s1\<lparr>led_givers := led_givers s1 + 1\<rparr> else s1)"

text \<open>The critical section of \<open>set_led\<close>, with the generation to wait for where the caller waits for the dark frame.\<close>

definition set_led :: "sys_led_pattern \<Rightarrow> nat \<Rightarrow> led \<Rightarrow> u32 option \<times> led" where
  "set_led pattern priority s =
     (let s1 = select_and_give pattern priority s;
          wait_for_off = (pattern = SYS_LED_PATTERN_OFF_FORCE \<and> current_led_pattern s1 = SYS_LED_PATTERN_OFF_FORCE \<and>
            current_priority s1 = priority)
      in (if wait_for_off then Some (led_generation s1) else None, s1))"

text \<open>One round of the wait: done with the dark frame applied, given up, or another round.\<close>

definition led_off_poll :: "u32 \<Rightarrow> bool \<Rightarrow> led \<Rightarrow> bool option" where
  "led_off_poll generation expired s =
     (if led_off_generation s = generation then Some True
      else if led_generation s \<noteq> generation \<or> expired then Some False else None)"

definition led_give :: "led \<Rightarrow> led" where
  "led_give s = (if 0 < led_givers s then s\<lparr>led_givers := led_givers s - 1, led_changed := True\<rparr> else s)"

definition led_finish_oneshot :: "u32 \<Rightarrow> nat \<Rightarrow> sys_led_pattern \<Rightarrow> led \<Rightarrow> led" where
  "led_finish_oneshot generation priority finish s =
     (if generation = led_generation s \<and> priority = current_priority s
      then let (changed, s1) = led_select_locked finish priority s in if changed then s1\<lparr>led_changed := True\<rparr> else s1
      else s)"

section \<open>The thread\<close>

text \<open>One step of a pattern: what is written, the next state, the pattern that ends a one-shot, the wait.\<close>

definition blink :: "nat \<Rightarrow> sys_led_color \<Rightarrow> int \<Rightarrow> nat \<Rightarrow> led_output option \<times> nat" where
  "blink period c brightness st =
     (let st1 = (st + 1) mod period in (Some (LedPins c brightness (int st1 * 10000)), st1))"

definition oneshot :: "sys_led_color \<Rightarrow> nat \<Rightarrow> nat \<Rightarrow> led_output option \<times> nat \<times> sys_led_pattern option \<times> int" where
  "oneshot c last_state st =
     (let st1 = st + 1
      in (Some (LedPins c 10000 (if even st1 then 10000 else 0)), st1,
          if st1 = last_state then Some SYS_LED_PATTERN_OFF else None, if st1 = last_state then -1 else 200))"

definition error_blink :: "nat \<Rightarrow> nat \<Rightarrow> led_output option \<times> nat \<times> sys_led_pattern option \<times> int" where
  "error_blink limit st =
     (let st1 = (st + 1) mod 10
      in (Some (LedPins SYS_LED_COLOR_ERROR 10000 (if st1 < limit \<and> odd st1 then 10000 else 0)), st1, None, 500))"

definition pulse_value :: "nat \<Rightarrow> int" where
  "pulse_value st =
     (let v = int (if 500 < st then 1000 - st else st)
      in if v < 200 then v * 30 else if v < 300 then (v - 200) * 20 + 6000 else if v < 400 then (v - 300) * 15 + 8000
         else (v - 400) * 5 + 9500)"

fun led_render :: "sys_led_pattern \<Rightarrow> nat \<Rightarrow> led_output option \<times> nat \<times> sys_led_pattern option \<times> int" where
  "led_render SYS_LED_PATTERN_OFF_FORCE st = (None, st, None, -1)"
| "led_render SYS_LED_PATTERN_OFF st = (None, st, None, -1)"
| "led_render SYS_LED_PATTERN_ON st = (Some (LedPins SYS_LED_COLOR_DEFAULT 10000 10000), st, None, -1)"
| "led_render SYS_LED_PATTERN_SHORT st =
     (let (out, st1) = blink 2 SYS_LED_COLOR_PAIRING 10000 st in (out, st1, None, if st1 = 1 then 100 else 900))"
| "led_render SYS_LED_PATTERN_LONG st = (let (out, st1) = blink 2 SYS_LED_COLOR_DEFAULT 10000 st in (out, st1, None, 500))"
| "led_render SYS_LED_PATTERN_FLASH st = (let (out, st1) = blink 2 SYS_LED_COLOR_DEFAULT 10000 st in (out, st1, None, 200))"
| "led_render SYS_LED_PATTERN_ONESHOT_POWERON st = oneshot SYS_LED_COLOR_DEFAULT 7 st"
| "led_render SYS_LED_PATTERN_ONESHOT_POWEROFF st =
     (let st1 = st + 1
      in (Some (if 0 < st then LedPins SYS_LED_COLOR_DEFAULT ((202 - int st1) * 50) (if st1 \<noteq> 202 then 10000 else 0)
            else LedPins SYS_LED_COLOR_DEFAULT 10000 0), st1,
          if st1 = 202 then Some SYS_LED_PATTERN_OFF_FORCE else None, if st1 = 202 then -1 else if st1 = 1 then 250 else 5))"
| "led_render SYS_LED_PATTERN_ONESHOT_PROGRESS st = oneshot SYS_LED_COLOR_SUCCESS 5 st"
| "led_render SYS_LED_PATTERN_ONESHOT_COMPLETE st = oneshot SYS_LED_COLOR_SUCCESS 9 st"
| "led_render SYS_LED_PATTERN_ON_PERSIST st = (Some (LedPins SYS_LED_COLOR_SUCCESS 2000 10000), st, None, -1)"
| "led_render SYS_LED_PATTERN_LONG_PERSIST st = (let (out, st1) = blink 2 SYS_LED_COLOR_CHARGING 2000 st in (out, st1, None, 500))"
| "led_render SYS_LED_PATTERN_PULSE_PERSIST st =
     (let st1 = (st + 1) mod 1000 in (Some (LedPins SYS_LED_COLOR_CHARGING 10000 (pulse_value st1)), st1, None, 5))"
| "led_render SYS_LED_PATTERN_ACTIVE_PERSIST st =
     (let st1 = (st + 1) mod 2
      in (Some (LedPins SYS_LED_COLOR_DEFAULT 10000 (if st1 = 0 then 10000 else 0)), st1, None, if st1 \<noteq> 0 then 9700 else 300))"
| "led_render SYS_LED_PATTERN_ERROR_A st = error_blink 4 st"
| "led_render SYS_LED_PATTERN_ERROR_B st = error_blink 6 st"
| "led_render SYS_LED_PATTERN_ERROR_C st = error_blink 8 st"
| "led_render SYS_LED_PATTERN_ERROR_D st = (let (out, st1) = blink 2 SYS_LED_COLOR_ERROR 10000 st in (out, st1, None, 500))"

definition led_is_off :: "sys_led_pattern \<Rightarrow> bool" where
  "led_is_off p \<longleftrightarrow> p = SYS_LED_PATTERN_OFF_FORCE \<or> p = SYS_LED_PATTERN_OFF"

text \<open>
  One step of the thread. The hardware answers whether the pins could be switched off, and while the thread waits
  the time may be over.
\<close>

definition led_thread_step :: "bool \<Rightarrow> bool \<Rightarrow> led \<Rightarrow> led" where
  "led_thread_step off_applied expired s =
     (case led_phase s of
        LedTop \<Rightarrow> s\<lparr>led_phase := LedPrepare (current_led_pattern s) (current_priority s) (led_generation s)\<rparr>
      | LedPrepare p prio gen \<Rightarrow>
          if active_generation s = gen then s\<lparr>led_phase := LedRender p prio gen\<rparr>
          else
            let s1 = s\<lparr>active_generation := gen, led_pattern_state := 0\<rparr>
            in if led_is_off p
               then s1\<lparr>led_output := (if off_applied then LedReset else LedUnknown), led_phase := LedAcknowledge p prio gen off_applied\<rparr>
               else s1\<lparr>led_output := LedInit, led_phase := LedRender p prio gen\<rparr>
      | LedAcknowledge p prio gen ok \<Rightarrow>
          (if ok \<and> gen = led_generation s then s\<lparr>led_off_generation := gen\<rparr> else s)\<lparr>led_phase := LedRender p prio gen\<rparr>
      | LedRender p prio gen \<Rightarrow>
          let (out, st, finish, wait) = led_render p (led_pattern_state s);
              s1 = s\<lparr>led_pattern_state := st, led_output := (case out of Some x \<Rightarrow> x | None \<Rightarrow> led_output s)\<rparr>
          in s1\<lparr>led_phase := (case finish of Some f \<Rightarrow> LedFinish p prio gen f wait | None \<Rightarrow> LedCheck p gen wait)\<rparr>
      | LedFinish p prio gen f wait \<Rightarrow> (led_finish_oneshot gen prio f s)\<lparr>led_phase := LedCheck p gen wait\<rparr>
      | LedCheck p gen wait \<Rightarrow> s\<lparr>led_changed := False, led_phase := LedRecheck p gen wait\<rparr>
      | LedRecheck p gen wait \<Rightarrow> s\<lparr>led_phase := (if gen = led_generation s then LedWait p gen wait else LedTop)\<rparr>
      | LedWait p gen wait \<Rightarrow>
          if led_changed s then s\<lparr>led_changed := False, led_phase := LedTop\<rparr>
          else if 0 \<le> wait \<and> expired then s\<lparr>led_phase := LedTop\<rparr> else s)"

section \<open>The status word\<close>


definition set_status :: "u32 \<Rightarrow> bool \<Rightarrow> u32 \<Rightarrow> u32" where
  "set_status status on status_state = (if on then status_state OR status else status_state AND NOT status)"

definition get_status :: "u32 \<Rightarrow> u32 \<Rightarrow> bool" where
  "get_status status status_state \<longleftrightarrow> status_state AND status \<noteq> 0"

text \<open>One cycle of the status thread: the patterns it asks for, and how long it sleeps after each.\<close>

definition status_cycle :: "u32 \<Rightarrow> (sys_led_pattern \<times> int) list" where
  "status_cycle status_state =
     (let status = status_state AND 7
      in (if status AND 1 \<noteq> 0 then [(SYS_LED_PATTERN_ERROR_A, 5000)] else []) @
         (if status AND 2 \<noteq> 0 then [(SYS_LED_PATTERN_ERROR_B, 5000)] else []) @
         (if status AND 4 \<noteq> 0 then [(SYS_LED_PATTERN_ERROR_C, 5000)] else []) @
         (if status = 0 then [(SYS_LED_PATTERN_OFF, 100)] else []))"

end
