(* ===== verification/LedCorrect.thy ===== *)
theory LedCorrect
  imports Led
begin

text \<open>
  The light shows what is selected: runs of requests, wake-ups and steps of the thread in any order, counted by the changes of the
  selection, so that the 32-bit generation does not come round.
\<close>

inductive led_run :: "nat \<Rightarrow> led \<Rightarrow> bool" where
  boot: "led_run 0 led_boot"
| request: "led_run n s \<Longrightarrow> priority < SYS_LED_PATTERN_DEPTH \<Longrightarrow> set_led pattern priority s = (w, s1) \<Longrightarrow>
    led_run (if led_generation s1 = led_generation s then n else Suc n) s1"
| give: "led_run n s \<Longrightarrow> led_run n (led_give s)"
| thread: "led_run n s \<Longrightarrow> s1 = led_thread_step ok expired s \<Longrightarrow>
    led_run (if led_generation s1 = led_generation s then n else Suc n) s1"

section \<open>Selection\<close>

definition selected :: "led \<Rightarrow> bool" where
  "selected s \<longleftrightarrow> length (led_patterns s) = SYS_LED_PATTERN_DEPTH \<and> current_priority s = first_active (led_patterns s) \<and>
     current_led_pattern s = (if current_priority s < SYS_LED_PATTERN_DEPTH then led_patterns s ! current_priority s else SYS_LED_PATTERN_OFF)"

lemma first_active_spec: "first_active ps = k \<Longrightarrow> (\<forall>i. i < k \<longrightarrow> i < length ps \<longrightarrow> ps ! i = SYS_LED_PATTERN_OFF) \<and> k \<le> length ps \<and>
    (k < length ps \<longrightarrow> ps ! k \<noteq> SYS_LED_PATTERN_OFF)"
proof (induction ps arbitrary: k)
  case (Cons p ps)
  then show ?case by (cases k) (auto simp: nth_Cons split: if_splits nat.splits)
qed simp

lemma word_next_neq [simp]: "(x :: u32) + 1 \<noteq> x" "x \<noteq> x + 1"
  by simp_all

lemma select_cases:
  assumes "selected s" and "led_select_locked pattern priority s = (changed, s1)"
  shows "selected s1" and "changed \<longleftrightarrow> led_generation s1 \<noteq> led_generation s"
    and "\<not> changed \<Longrightarrow> current_led_pattern s1 = current_led_pattern s \<and> current_priority s1 = current_priority s \<and>
      led_generation s1 = led_generation s"
    and "changed \<Longrightarrow> led_generation s1 = led_generation s + 1"
    and "led_off_generation s1 = led_off_generation s" "led_changed s1 = led_changed s" "led_givers s1 = led_givers s"
      "led_pattern_state s1 = led_pattern_state s" "active_generation s1 = active_generation s" "led_phase s1 = led_phase s"
      "led_output s1 = led_output s"
  using assms by (auto simp: led_select_locked_def selected_def Let_def split: if_splits)

section \<open>The invariant\<close>

text \<open>A snapshot of an earlier generation, or of the present selection.\<close>

definition seen :: "nat \<Rightarrow> led \<Rightarrow> u32 \<Rightarrow> sys_led_pattern \<Rightarrow> nat \<Rightarrow> bool" where
  "seen n s gen p prio \<longleftrightarrow>
     (\<exists>m. m \<le> n \<and> gen = of_nat (Suc m) \<and> (m = n \<longrightarrow> p = current_led_pattern s \<and> prio = current_priority s))"

definition saw :: "nat \<Rightarrow> led \<Rightarrow> u32 \<Rightarrow> sys_led_pattern \<Rightarrow> bool" where
  "saw n s gen p \<longleftrightarrow> (\<exists>prio. seen n s gen p prio)"

definition phase_ok :: "nat \<Rightarrow> led \<Rightarrow> bool" where
  "phase_ok n s \<longleftrightarrow>
     (case led_phase s of
        LedTop \<Rightarrow> True
      | LedPrepare p prio gen \<Rightarrow> seen n s gen p prio
      | LedAcknowledge p prio gen ok \<Rightarrow> seen n s gen p prio \<and> active_generation s = gen \<and> led_is_off p \<and> (ok \<longrightarrow> led_output s = LedReset)
      | LedRender p prio gen \<Rightarrow> seen n s gen p prio \<and> active_generation s = gen
      | LedFinish p prio gen f wait \<Rightarrow> seen n s gen p prio \<and> \<not> led_is_off p
      | LedCheck p gen wait \<Rightarrow> saw n s gen p
      | LedRecheck p gen wait \<Rightarrow> saw n s gen p
      | LedWait p gen wait \<Rightarrow> saw n s gen p \<and> (gen = led_generation s \<or> led_changed s \<or> 0 < led_givers s))"

fun phase_generation :: "led_phase \<Rightarrow> u32 option" where
  "phase_generation LedTop = None"
| "phase_generation (LedPrepare p prio gen) = Some gen"
| "phase_generation (LedAcknowledge p prio gen ok) = Some gen"
| "phase_generation (LedRender p prio gen) = Some gen"
| "phase_generation (LedFinish p prio gen f wait) = Some gen"
| "phase_generation (LedCheck p gen wait) = Some gen"
| "phase_generation (LedRecheck p gen wait) = Some gen"
| "phase_generation (LedWait p gen wait) = Some gen"

definition dark_ok :: "nat \<Rightarrow> led \<Rightarrow> bool" where
  "dark_ok n s \<longleftrightarrow>
     (\<exists>m. m \<le> Suc n \<and> led_off_generation s = of_nat m) \<and>
     (led_off_generation s = led_generation s \<longrightarrow>
        led_is_off (current_led_pattern s) \<and> led_output s = LedReset \<and> active_generation s = led_generation s \<and>
        (phase_generation (led_phase s) = None \<or> phase_generation (led_phase s) = Some (led_generation s)))"

definition led_inv :: "nat \<Rightarrow> led \<Rightarrow> bool" where
  "led_inv n s \<longleftrightarrow> selected s \<and> led_generation s = of_nat (Suc n) \<and> phase_ok n s \<and> dark_ok n s"

lemma of_nat_u32_eq: "m < 2 ^ 32 \<Longrightarrow> k < 2 ^ 32 \<Longrightarrow> (of_nat m :: u32) = of_nat k \<longleftrightarrow> m = k"
  by (metis len_num1 len_bit0 mult_2 mult_numeral_1 numeral_Bit0 numeral_One of_nat_inverse take_bit_nat_eq_self_iff unsigned_of_nat
      numeral_code(2) one_add_one)

lemma seen_grows: "seen n s gen p prio \<Longrightarrow> seen (Suc n) s1 gen p prio"
proof -
  assume "seen n s gen p prio"
  then obtain m where "m \<le> n" "gen = of_nat (Suc m)" by (auto simp: seen_def)
  then have "m \<le> Suc n \<and> gen = of_nat (Suc m) \<and> (m = Suc n \<longrightarrow> p = current_led_pattern s1 \<and> prio = current_priority s1)" by simp
  then show ?thesis unfolding seen_def by blast
qed

lemma saw_grows: "saw n s gen p \<Longrightarrow> saw (Suc n) s1 gen p"
  by (auto simp: saw_def intro: seen_grows)

lemma seen_same: "current_led_pattern s1 = current_led_pattern s \<Longrightarrow> current_priority s1 = current_priority s \<Longrightarrow>
    seen n s1 gen p prio = seen n s gen p prio"
  by (simp add: seen_def)

lemma saw_same: "current_led_pattern s1 = current_led_pattern s \<Longrightarrow> current_priority s1 = current_priority s \<Longrightarrow>
    saw n s1 gen p = saw n s gen p"
  by (simp add: saw_def seen_def)

lemma saw_phase [simp]: "saw n (s\<lparr>led_phase := ph\<rparr>) gen p = saw n s gen p"
  by (simp add: saw_def seen_def)

lemma seen_current:
  assumes "seen n s gen p prio" "gen = led_generation s" "led_generation s = of_nat (Suc n)" "Suc n < 2 ^ 32"
  shows "p = current_led_pattern s"
proof -
  obtain m where m: "m \<le> n" "gen = of_nat (Suc m)" "m = n \<longrightarrow> p = current_led_pattern s" using assms(1) by (auto simp: seen_def)
  then have "(of_nat (Suc m) :: u32) = of_nat (Suc n)" using assms(2,3) by simp
  then have "m = n" using m(1) assms(4) of_nat_u32_eq [of "Suc m" "Suc n"] by simp
  then show ?thesis using m(3) by simp
qed

text \<open>A change of the selection, after which the thread is woken or looks again by itself.\<close>

lemma change_inv:
  assumes "led_inv n s" and "led_select_locked pattern priority s = (True, s1)" and "Suc (Suc n) < 2 ^ 32"
    and "s2 = s1\<lparr>led_givers := g, led_changed := c\<rparr>" and "(case led_phase s of LedWait _ _ _ \<Rightarrow> c \<or> 0 < g | _ \<Rightarrow> True)"
  shows "led_inv (Suc n) s2"
proof -
  note sel = select_cases [of s pattern priority True s1, OF _ assms(2)]
  have s: "selected s" "led_generation s = of_nat (Suc n)" "phase_ok n s" "dark_ok n s" using assms(1) by (simp_all add: led_inv_def)
  note f = sel(5-11) [OF s(1)]
  have gen: "led_generation s2 = of_nat (Suc (Suc n))" using sel(4) [OF s(1)] s(2) assms(4) by simp
  have "phase_ok (Suc n) s2"
    using s(3) assms(5) unfolding phase_ok_def
    by (simp add: assms(4) f(6,7) f(5) split: led_phase.splits) (auto intro: seen_grows saw_grows)
  moreover obtain m where m: "m \<le> Suc n" "led_off_generation s = of_nat m" using s(4) by (auto simp: dark_ok_def)
  then have "led_off_generation s2 \<noteq> led_generation s2"
    using gen assms(3) f(1) of_nat_u32_eq [of m "Suc (Suc n)"] by (simp add: assms(4))
  then have "dark_ok (Suc n) s2" using m f(1) unfolding dark_ok_def by (auto simp: assms(4) intro!: exI [of _ m])
  moreover have "selected s2" using sel(1) [OF s(1)] by (simp add: assms(4) selected_def)
  ultimately show ?thesis using gen by (simp add: led_inv_def)
qed

lemma unchanged_inv:
  assumes "led_inv n s" and "led_select_locked pattern priority s = (False, s1)"
  shows "led_inv n s1"
proof -
  have "selected s" using assms(1) by (simp add: led_inv_def)
  note sel = select_cases [OF this assms(2)]
  have e: "current_led_pattern s1 = current_led_pattern s" "current_priority s1 = current_priority s" "led_generation s1 = led_generation s"
    using sel(3) by simp_all
  have "phase_ok n s1 = phase_ok n s"
    unfolding phase_ok_def by (simp add: e sel(5-11) seen_same [OF e(1,2)] saw_same [OF e(1,2)] split: led_phase.split)
  moreover have "dark_ok n s1 = dark_ok n s" unfolding dark_ok_def by (simp only: e sel(5-11))
  ultimately show ?thesis using assms(1) sel(1) by (simp add: led_inv_def e)
qed

lemma request_inv:
  assumes "led_inv n s" and "set_led pattern priority s = (w, s1)"
    and "n1 = (if led_generation s1 = led_generation s then n else Suc n)" and "Suc n1 < 2 ^ 32"
  shows "led_inv n1 s1"
proof -
  obtain changed s2 where r: "led_select_locked pattern priority s = (changed, s2)" by (cases "led_select_locked pattern priority s")
  have s1: "s1 = (if changed then s2\<lparr>led_givers := led_givers s2 + 1\<rparr> else s2)"
    using assms(2) by (simp add: set_led_def select_and_give_def Let_def r)
  note sel = select_cases [of s pattern priority changed s2, OF _ r]
  have ok: "selected s" using assms(1) by (simp add: led_inv_def)
  show ?thesis
  proof (cases changed)
    case True
    then have "n1 = Suc n" using assms(3) sel(2) [OF ok] s1 by simp
    moreover have "led_select_locked pattern priority s = (True, s2)" using r True by simp
    then have "led_inv (Suc n) s1"
      by (rule change_inv [OF assms(1), where g = "led_givers s2 + 1" and c = "led_changed s2"]) (use assms(4) True s1 \<open>n1 = Suc n\<close> in \<open>auto split: led_phase.split\<close>)
    ultimately show ?thesis by simp
  next
    case False
    then have "n1 = n" "s1 = s2" using assms(3) sel(2) [OF ok] s1 by simp_all
    then show ?thesis using unchanged_inv [OF assms(1)] r False by simp
  qed
qed

lemma same_selection:
  assumes "led_inv n s" and "current_led_pattern s1 = current_led_pattern s" "current_priority s1 = current_priority s"
    "led_patterns s1 = led_patterns s" "led_generation s1 = led_generation s"
    and "phase_ok n s1" "dark_ok n s1"
  shows "led_inv n s1"
  using assms by (simp add: led_inv_def selected_def)

lemma give_inv:
  assumes "led_inv n s"
  shows "led_inv n (led_give s)"
proof -
  have "phase_ok n (led_give s)"
    using assms unfolding led_inv_def phase_ok_def
    by (cases "led_phase s") (auto simp: led_give_def seen_def saw_def)
  moreover have "dark_ok n (led_give s) = dark_ok n s" by (simp add: dark_ok_def led_give_def)
  ultimately show ?thesis by (intro same_selection [OF assms]) (use assms in \<open>simp_all add: led_inv_def led_give_def\<close>)
qed

section \<open>Steps of the thread\<close>

lemma render_off: "led_is_off p \<Longrightarrow> led_render p st = (None, st, None, -1)"
  by (auto simp: led_is_off_def)

lemma finish_inv:
  assumes "led_inv n s" and "led_phase s = LedFinish p prio gen f wait"
    and "s1 = led_thread_step ok expired s" and "n1 = (if led_generation s1 = led_generation s then n else Suc n)" and "Suc n1 < 2 ^ 32"
  shows "led_inv n1 s1"
proof -
  let ?s0 = "s\<lparr>led_phase := LedCheck p gen wait\<rparr>"
  have inv0: "led_inv n ?s0"
    by (rule same_selection [OF assms(1)])
      (use assms(1,2) in \<open>auto simp: led_inv_def phase_ok_def dark_ok_def saw_def seen_def\<close>)
  show ?thesis
  proof (cases "gen = led_generation s \<and> prio = current_priority s")
    case False
    have "s1 = ?s0"
      unfolding assms(3) led_thread_step_def assms(2) led_phase.case led_finish_oneshot_def if_not_P [OF False] ..
    then show ?thesis using inv0 assms(4) by simp
  next
    case True
    obtain changed s2 where r: "led_select_locked f prio ?s0 = (changed, s2)" by (cases "led_select_locked f prio ?s0")
    then have r0: "led_select_locked f prio s = (changed, s2\<lparr>led_phase := led_phase s\<rparr>)"
      by (auto simp: led_select_locked_def Let_def split: if_splits)
    have "led_phase s2 = LedCheck p gen wait" using select_cases(10) [OF _ r] inv0 by (simp add: led_inv_def)
    then have s1: "s1 = (if changed then s2\<lparr>led_changed := True\<rparr> else s2)"
      using assms(2,3) True r0 by (simp add: led_thread_step_def led_finish_oneshot_def)
    have ok0: "selected ?s0" using inv0 by (simp add: led_inv_def)
    show ?thesis
    proof (cases changed)
      case False
      then have "led_inv n s2" "led_generation s2 = led_generation s" using unchanged_inv [OF inv0] r select_cases(3) [OF ok0 r] by simp_all
      then show ?thesis using False s1 assms(4) by simp
    next
      case True
      then have "led_generation s1 \<noteq> led_generation s" using select_cases(4) [OF ok0 r] s1 by simp
      then have n1: "n1 = Suc n" using assms(4) by simp
      have "led_select_locked f prio ?s0 = (True, s2)" using r True by simp
      then have "led_inv (Suc n) s1"
        by (rule change_inv [OF inv0, where g = "led_givers s2" and c = True]) (use assms(5) n1 s1 True in simp_all)
      then show ?thesis by (simp add: n1)
    qed
  qed
qed

lemma thread_inv:
  assumes "led_inv n s" and "s1 = led_thread_step ok expired s"
    and "n1 = (if led_generation s1 = led_generation s then n else Suc n)" and "Suc n1 < 2 ^ 32"
  shows "led_inv n1 s1"
proof (cases "led_phase s")
  case (LedFinish p prio gen f wait)
  then show ?thesis using finish_inv assms by blast
next
  case LedTop
  have "led_inv n s1"
    by (rule same_selection [OF assms(1)])
      (use assms(1,2) LedTop in \<open>auto simp: led_thread_step_def led_inv_def phase_ok_def dark_ok_def seen_def\<close>)
  then show ?thesis using assms(2,3) LedTop by (simp add: led_thread_step_def)
next
  case (LedPrepare p prio gen)
  have g: "led_generation s1 = led_generation s" using assms(2) LedPrepare by (simp add: led_thread_step_def Let_def)
  have "led_inv n s1"
    by (rule same_selection [OF assms(1)])
      (use assms(1,2) LedPrepare in \<open>auto simp: led_thread_step_def led_inv_def phase_ok_def dark_ok_def seen_def Let_def\<close>)
  then show ?thesis using assms(3) g by simp
next
  case (LedAcknowledge p prio gen good)
  have g: "led_generation s1 = led_generation s" using assms(2) LedAcknowledge by (simp add: led_thread_step_def)
  then have small: "Suc n < 2 ^ 32" using assms(3,4) by (simp split: if_splits)
  have p: "p = current_led_pattern s" if "gen = led_generation s"
  proof -
    have "seen n s gen p prio" "led_generation s = of_nat (Suc n)" using assms(1) LedAcknowledge by (simp_all add: led_inv_def phase_ok_def)
    then show ?thesis using seen_current that small by blast
  qed
  have "led_inv n s1"
    by (rule same_selection [OF assms(1)])
      (use assms(1,2) LedAcknowledge p in \<open>auto simp: led_thread_step_def led_inv_def phase_ok_def dark_ok_def seen_def
        simp del: of_nat_Suc intro: exI [of _ "Suc n"]\<close>)
  then show ?thesis using assms(3) g by simp
next
  case (LedRender p prio gen)
  obtain out st f wait where r: "led_render p (led_pattern_state s) = (out, st, f, wait)" by (cases "led_render p (led_pattern_state s)")
  have g: "led_generation s1 = led_generation s" using assms(2) LedRender r by (simp add: led_thread_step_def Let_def)
  then have small: "Suc n < 2 ^ 32" using assms(3,4) by (simp split: if_splits)
  have p: "p = current_led_pattern s" if "gen = led_generation s"
  proof -
    have "seen n s gen p prio" "led_generation s = of_nat (Suc n)" using assms(1) LedRender by (simp_all add: led_inv_def phase_ok_def)
    then show ?thesis using seen_current that small by blast
  qed
  have f: "\<not> led_is_off p" if "f \<noteq> None" using render_off [of p] r that by auto
  have o: "out = None" if "led_is_off p" using render_off [OF that] r by simp
  have "phase_ok n s1"
    using assms(1,2) LedRender r f by (auto simp: led_thread_step_def led_inv_def phase_ok_def saw_def seen_def split: option.split)
  moreover have "dark_ok n s1"
    using assms(1,2) LedRender r p o by (auto simp: led_thread_step_def led_inv_def phase_ok_def dark_ok_def split: option.split)
  ultimately have "led_inv n s1"
    by (intro same_selection [OF assms(1)]) (use assms(2) LedRender r in \<open>simp_all add: led_thread_step_def\<close>)
  then show ?thesis using assms(3) g by simp
next
  case (LedCheck p gen wait)
  have "led_inv n s1"
    by (rule same_selection [OF assms(1)])
      (use assms(1,2) LedCheck in \<open>auto simp: led_thread_step_def led_inv_def phase_ok_def dark_ok_def saw_def seen_def\<close>)
  then show ?thesis using assms(2,3) LedCheck by (simp add: led_thread_step_def)
next
  case (LedRecheck p gen wait)
  have "led_inv n s1"
    by (rule same_selection [OF assms(1)])
      (use assms(1,2) LedRecheck in \<open>auto simp: led_thread_step_def led_inv_def phase_ok_def dark_ok_def\<close>)
  then show ?thesis using assms(2,3) LedRecheck by (simp add: led_thread_step_def)
next
  case (LedWait p gen wait)
  have g: "led_generation s1 = led_generation s" using assms(2) LedWait by (simp add: led_thread_step_def)
  have "led_inv n s1"
    by (rule same_selection [OF assms(1)])
      (use assms(1,2) LedWait in \<open>auto simp: led_thread_step_def led_inv_def phase_ok_def dark_ok_def saw_def seen_def\<close>)
  then show ?thesis using assms(3) g by simp
qed

lemma run_inv_led:
  assumes "led_run n s" and "Suc n < 2 ^ 32"
  shows "led_inv n s"
  using assms
proof (induction rule: led_run.induct)
  case boot
  have "(0 :: u32) = of_nat 0" by simp
  then show ?case
    by (auto simp: led_inv_def led_boot_def selected_def phase_ok_def dark_ok_def numeral_eq_Suc intro!: exI [of _ 0])
next
  case (request n s priority pattern w s1)
  then have "Suc n < 2 ^ 32" by (simp split: if_splits)
  then show ?case using request_inv [OF _ request.hyps(3) refl request.prems] request.IH by blast
next
  case (give n s)
  then show ?case using give_inv by blast
next
  case (thread n s s1 ok expired)
  then have "Suc n < 2 ^ 32" by (simp split: if_splits)
  then show ?case using thread_inv [OF _ thread.hyps(2) refl thread.prems] thread.IH by blast
qed


text \<open>The thread at boot: six steps lead it to its first wait, with the dark frame acknowledged.\<close>

definition led_work :: "led \<Rightarrow> led" where
  "led_work = led_thread_step True False"

definition led_started :: led where
  "led_started = led_work (led_work (led_work (led_work (led_work (led_work led_boot)))))"

lemma led_work_run: "led_generation (led_work s) = led_generation s \<Longrightarrow> led_run 0 s \<Longrightarrow> led_run 0 (led_work s)"
  using led_run.thread [of 0 s _ True False] by (simp add: led_work_def)

lemma led_started_run: "led_run 0 led_started"
  unfolding led_started_def
  by (intro led_work_run led_run.boot) (simp_all add: led_work_def led_thread_step_def led_boot_def Let_def led_is_off_def)

lemma led_started_simps:
  "led_phase led_started = LedWait SYS_LED_PATTERN_OFF 1 (-1)" "\<not> led_changed led_started" "led_givers led_started = 0"
  "led_generation led_started = 1" "led_off_generation led_started = 1"
  by (simp_all add: led_started_def led_work_def led_thread_step_def led_boot_def Let_def led_is_off_def)


section \<open>One-shots end and levels are in range\<close>

text \<open>A one-shot asks for its end after the given number of steps, and not before.\<close>

lemma oneshot_ends:
  "fst (snd (snd (led_render SYS_LED_PATTERN_ONESHOT_POWERON st))) \<noteq> None \<longleftrightarrow> st = 6"
  "fst (snd (snd (led_render SYS_LED_PATTERN_ONESHOT_PROGRESS st))) \<noteq> None \<longleftrightarrow> st = 4"
  "fst (snd (snd (led_render SYS_LED_PATTERN_ONESHOT_COMPLETE st))) \<noteq> None \<longleftrightarrow> st = 8"
  "fst (snd (snd (led_render SYS_LED_PATTERN_ONESHOT_POWEROFF st))) \<noteq> None \<longleftrightarrow> st = 201"
  by (auto simp: oneshot_def Let_def)

lemma clamp_bounds: "0 \<le> clamp_pptt x" "clamp_pptt x \<le> 10000"
  by (simp_all add: clamp_pptt_def)

end
