(* ===== verification/ConsoleInput.thy ===== *)
theory ConsoleInput
  imports EsbConstants
begin

text \<open>
  The line editor of the serial console (\<open>console.c\<close>): bytes from the port edit a line with a cursor, are echoed through a ring
  so that a terminal shows the line, and finished lines wait in a queue for the console thread, marked with the epoch in which
  they were typed. The static structure is the record \<open>console_input\<close>; the length of the line buffer is
  \<open>CONSOLE_LINE_MAX_LEN\<close>. The queue of the operating system is a list of at most \<open>CONSOLE_LINE_QUEUE_DEPTH\<close> messages.
  Calls to the port are actions, and what it answers is an argument.
\<close>

abbreviation (input) CONSOLE_LINE_QUEUE_DEPTH :: nat where "CONSOLE_LINE_QUEUE_DEPTH \<equiv> 4"
abbreviation (input) CONSOLE_ECHO_BUFFER_SIZE :: nat where "CONSOLE_ECHO_BUFFER_SIZE \<equiv> 512"

datatype console_escape_state = CONSOLE_ESCAPE_NONE | CONSOLE_ESCAPE_START | CONSOLE_ESCAPE_CSI | CONSOLE_ESCAPE_SS3

record console_input =
  ci_initialized :: bool
  ci_active :: bool
  ci_overflow :: bool
  ci_last_was_cr :: bool
  ci_escape_state :: console_escape_state
  ci_escape_has_value :: bool
  ci_escape_ignore_value :: bool
  ci_escape_value :: nat
  ci_cursor :: nat
  ci_tail :: nat
  ci_epoch :: u32
  ci_line :: bytes
  ci_echo :: bytes
  ci_echo_head :: nat
  ci_echo_tail :: nat
  ci_queue :: "(u32 \<times> bytes) list"
  ci_thread_started :: bool

definition console_boot :: "nat \<Rightarrow> console_input" where
  "console_boot line_max = \<lparr>ci_initialized = False, ci_active = False, ci_overflow = False, ci_last_was_cr = False,
     ci_escape_state = CONSOLE_ESCAPE_NONE, ci_escape_has_value = False, ci_escape_ignore_value = False, ci_escape_value = 0,
     ci_cursor = 0, ci_tail = 0, ci_epoch = 0, ci_line = replicate line_max 0, ci_echo = replicate CONSOLE_ECHO_BUFFER_SIZE 0,
     ci_echo_head = 0, ci_echo_tail = 0, ci_queue = [], ci_thread_started = False\<rparr>"

definition CONSOLE_LINE_MAX_LEN :: "console_input \<Rightarrow> nat" where
  "CONSOLE_LINE_MAX_LEN c = length (ci_line c)"

section \<open>Echo\<close>

definition console_echo_has_data_locked :: "console_input \<Rightarrow> bool" where
  "console_echo_has_data_locked c \<longleftrightarrow> ci_echo_head c \<noteq> ci_echo_tail c"

definition console_echo_put_locked :: "u8 \<Rightarrow> console_input \<Rightarrow> console_input" where
  "console_echo_put_locked byte c =
     (let nxt = (ci_echo_head c + 1) mod CONSOLE_ECHO_BUFFER_SIZE
      in if nxt = ci_echo_tail c then c
         else c\<lparr>ci_echo := (ci_echo c)[ci_echo_head c := byte], ci_echo_head := nxt\<rparr>)"

definition console_echo_text_locked :: "bytes \<Rightarrow> console_input \<Rightarrow> console_input" where
  "console_echo_text_locked = fold console_echo_put_locked"

definition digit :: "nat \<Rightarrow> u8" where
  "digit n = 48 + of_nat n"

definition cursor_digits :: "nat \<Rightarrow> bytes" where
  "cursor_digits count =
     (if 100 \<le> count then [digit (count div 100), digit (count mod 100 div 10), digit (count mod 100 mod 10)]
      else if 10 \<le> count then [digit (count div 10), digit (count mod 10)] else [digit count])"

definition console_echo_cursor_locked :: "u8 \<Rightarrow> nat \<Rightarrow> console_input \<Rightarrow> console_input" where
  "console_echo_cursor_locked direction count c =
     (if count = 0 then c else console_echo_text_locked ([0x1b, 0x5b] @ cursor_digits count @ [direction]) c)"

section \<open>Editing\<close>

definition console_reset_line_locked :: "console_input \<Rightarrow> console_input" where
  "console_reset_line_locked c =
     c\<lparr>ci_overflow := False, ci_last_was_cr := False, ci_escape_state := CONSOLE_ESCAPE_NONE, ci_escape_has_value := False,
       ci_escape_ignore_value := False, ci_escape_value := 0, ci_cursor := 0, ci_tail := 0\<rparr>"

definition console_drop_queued_lines_locked :: "console_input \<Rightarrow> console_input" where
  "console_drop_queued_lines_locked c = c\<lparr>ci_queue := []\<rparr>"

definition line_length :: "console_input \<Rightarrow> nat" where
  "line_length c = ci_cursor c + ci_tail c"

definition console_finish_line_locked :: "console_input \<Rightarrow> console_input" where
  "console_finish_line_locked c =
     (let c1 =
        (if ci_overflow c then c
         else if length (ci_queue c) < CONSOLE_LINE_QUEUE_DEPTH
              then c\<lparr>ci_queue := ci_queue c @ [(ci_epoch c, take (line_length c) (ci_line c))]\<rparr>
              else console_echo_put_locked 7 c)
      in console_reset_line_locked (console_echo_text_locked [13, 10] c1))"

text \<open>Moving the bytes from the cursor on by one place, as the loops of the code do.\<close>

fun shift_right :: "nat \<Rightarrow> nat \<Rightarrow> bytes \<Rightarrow> bytes" where
  "shift_right cursor i line = (if cursor < i then shift_right cursor (i - 1) (line[i := line ! (i - 1)]) else line)"

declare shift_right.simps [simp del]

definition shift_left :: "nat \<Rightarrow> nat \<Rightarrow> bytes \<Rightarrow> bytes" where
  "shift_left cursor len line = fold (\<lambda>i line. line[i := line ! (i + 1)]) [cursor..<len - 1] line"

definition line_rest :: "console_input \<Rightarrow> bytes" where
  "line_rest c = map (\<lambda>i. ci_line c ! i) [ci_cursor c..<ci_cursor c + ci_tail c]"

definition console_insert_char_locked :: "u8 \<Rightarrow> console_input \<Rightarrow> console_input" where
  "console_insert_char_locked byte c =
     (let len = line_length c
      in if CONSOLE_LINE_MAX_LEN c - 1 \<le> len then
           if ci_overflow c then c else console_echo_put_locked 7 (c\<lparr>ci_overflow := True\<rparr>)
         else
           let line = (shift_right (ci_cursor c) len (ci_line c))[ci_cursor c := byte];
               c1 = console_echo_put_locked byte (c\<lparr>ci_line := line, ci_cursor := ci_cursor c + 1\<rparr>)
           in if ci_tail c1 \<noteq> 0
              then console_echo_text_locked [0x1b, 0x5b, 0x75]
                (console_echo_text_locked (line_rest c1) (console_echo_text_locked [0x1b, 0x5b, 0x73] c1))
              else c1)"

text \<open>After a removal: the rest of the line and a blank are written again, or the last place is blanked.\<close>

definition redraw_rest :: "console_input \<Rightarrow> console_input" where
  "redraw_rest c =
     (if ci_tail c = 0 then console_echo_text_locked [0x20, 8] c
      else console_echo_text_locked [0x20, 0x1b, 0x5b, 0x75]
        (console_echo_text_locked (line_rest c) (console_echo_text_locked [0x1b, 0x5b, 0x73] c)))"

definition console_backspace_locked :: "console_input \<Rightarrow> console_input" where
  "console_backspace_locked c =
     (if ci_cursor c = 0 then c
      else
        let len = line_length c; cursor = ci_cursor c - 1;
            c1 = c\<lparr>ci_cursor := cursor, ci_line := shift_left cursor len (ci_line c)\<rparr>
        in redraw_rest (console_echo_put_locked 8 c1))"

definition console_delete_locked :: "console_input \<Rightarrow> console_input" where
  "console_delete_locked c =
     (if ci_tail c = 0 then c
      else
        let c1 = c\<lparr>ci_line := shift_left (ci_cursor c) (line_length c) (ci_line c), ci_tail := ci_tail c - 1\<rparr>
        in redraw_rest (console_echo_put_locked 8 (console_echo_cursor_locked 0x43 1 c1)))"

definition console_move_home_locked :: "console_input \<Rightarrow> console_input" where
  "console_move_home_locked c =
     (console_echo_cursor_locked 0x44 (ci_cursor c) c)\<lparr>ci_tail := ci_tail c + ci_cursor c, ci_cursor := 0\<rparr>"

definition console_move_end_locked :: "console_input \<Rightarrow> console_input" where
  "console_move_end_locked c =
     (console_echo_cursor_locked 0x43 (ci_tail c) c)\<lparr>ci_cursor := ci_cursor c + ci_tail c, ci_tail := 0\<rparr>"

section \<open>Escape sequences\<close>

definition console_apply_escape_locked :: "u8 \<Rightarrow> console_input \<Rightarrow> console_input" where
  "console_apply_escape_locked final c =
     (let count = (if ci_escape_has_value c \<and> ci_escape_value c \<noteq> 0 then ci_escape_value c else 1); v = ci_escape_value c
      in if final = 0x44 then
           let n = min count (ci_cursor c)
           in console_echo_cursor_locked 0x44 n (c\<lparr>ci_cursor := ci_cursor c - n, ci_tail := ci_tail c + n\<rparr>)
         else if final = 0x43 then
           let n = min count (ci_tail c)
           in console_echo_cursor_locked 0x43 n (c\<lparr>ci_cursor := ci_cursor c + n, ci_tail := ci_tail c - n\<rparr>)
         else if final = 0x48 then console_move_home_locked c
         else if final = 0x46 then console_move_end_locked c
         else if final = 0x7e then
           if v = 3 then console_delete_locked c
           else if v = 1 \<or> v = 7 then console_move_home_locked c
           else if v = 4 \<or> v = 8 then console_move_end_locked c
           else c
         else c)"

definition escape_end :: "u8 \<Rightarrow> console_input \<Rightarrow> console_input" where
  "escape_end byte c =
     (if 0x20 \<le> byte \<and> byte \<le> 0x2f then c
      else (if 0x40 \<le> byte \<and> byte \<le> 0x7e then console_apply_escape_locked byte c else c)\<lparr>ci_escape_state := CONSOLE_ESCAPE_NONE\<rparr>)"

definition console_handle_escape_locked :: "u8 \<Rightarrow> console_input \<Rightarrow> bool \<times> console_input" where
  "console_handle_escape_locked byte c =
     (case ci_escape_state c of
        CONSOLE_ESCAPE_START \<Rightarrow>
          (True,
           if byte = 0x5b then c\<lparr>ci_escape_state := CONSOLE_ESCAPE_CSI, ci_escape_has_value := False, ci_escape_ignore_value := False,
             ci_escape_value := 0\<rparr>
           else if byte = 0x4f then c\<lparr>ci_escape_state := CONSOLE_ESCAPE_SS3\<rparr>
           else c\<lparr>ci_escape_state := CONSOLE_ESCAPE_NONE\<rparr>)
      | CONSOLE_ESCAPE_CSI \<Rightarrow>
          (True,
           if 0x30 \<le> byte \<and> byte \<le> 0x3f then
             if byte \<le> 0x39 then
               if ci_escape_ignore_value c then c
               else c\<lparr>ci_escape_has_value := True,
                 ci_escape_value := (if ci_escape_value c < 999 then min 999 (ci_escape_value c * 10 + (unat byte - 48)) else ci_escape_value c)\<rparr>
             else if byte = 0x3b then c\<lparr>ci_escape_ignore_value := True\<rparr>
             else c
           else escape_end byte c)
      | CONSOLE_ESCAPE_SS3 \<Rightarrow> (True, escape_end byte c)
      | CONSOLE_ESCAPE_NONE \<Rightarrow> (False, c))"

section \<open>A byte from the port\<close>

definition isprint :: "u8 \<Rightarrow> bool" where
  "isprint b \<longleftrightarrow> 0x20 \<le> b \<and> b \<le> 0x7e"

definition console_input_byte_locked :: "u8 \<Rightarrow> console_input \<Rightarrow> console_input" where
  "console_input_byte_locked byte c =
     (if byte = 10 \<and> ci_last_was_cr c then c\<lparr>ci_last_was_cr := False\<rparr>
      else if byte = 13 \<or> byte = 10 then (console_finish_line_locked c)\<lparr>ci_last_was_cr := (byte = 13)\<rparr>
      else
        let c1 = c\<lparr>ci_last_was_cr := False\<rparr>
        in if ci_overflow c1 then c1
           else if ci_escape_state c1 \<noteq> CONSOLE_ESCAPE_NONE then snd (console_handle_escape_locked byte c1)
           else if byte = 0x1b
           then c1\<lparr>ci_escape_state := CONSOLE_ESCAPE_START, ci_escape_has_value := False, ci_escape_ignore_value := False, ci_escape_value := 0\<rparr>
           else if byte = 8 \<or> byte = 0x7f then console_backspace_locked c1
           else if isprint byte then console_insert_char_locked byte c1
           else c1)"

section \<open>The port\<close>

datatype console_action = UartTxEnable | UartTxDisable | UartRxEnable | UartRxDisable | UartDrain | UartFill bytes | StartThread | PrintBanner

text \<open>Rounds of the echo: whether the port can take bytes and how many of the offered ones it takes.\<close>

fun console_echo_flush :: "(bool \<times> (nat \<Rightarrow> int)) list \<Rightarrow> console_input \<Rightarrow> console_action list \<times> console_input" where
  "console_echo_flush [] c = ([], c)"
| "console_echo_flush ((ready, sent_of) # rounds) c =
     (if \<not> ready then ([], c)
      else if \<not> console_echo_has_data_locked c then ([UartTxDisable], c)
      else
        let head = ci_echo_head c; tail = ci_echo_tail c;
            contiguous = (if tail < head then head - tail else CONSOLE_ECHO_BUFFER_SIZE - tail);
            fill = UartFill (take contiguous (drop tail (ci_echo c))); sent = sent_of contiguous;
            c1 = (if 0 < sent then c\<lparr>ci_echo_tail := (tail + nat sent) mod CONSOLE_ECHO_BUFFER_SIZE\<rparr> else c)
        in if sent \<le> 0 then ([fill], c1)
           else if \<not> console_echo_has_data_locked c1 then ([fill, UartTxDisable], c1)
           else let (acts, c2) = console_echo_flush rounds c1 in (fill # acts, c2))"

text \<open>The inner loop of the interrupt: bytes are read even when the console is closed, and then thrown away.\<close>

definition console_uart_receive :: "bytes \<Rightarrow> console_input \<Rightarrow> console_input" where
  "console_uart_receive received c =
     fold (\<lambda>byte c. if ci_initialized c \<and> ci_active c then console_input_byte_locked byte c else c) received c"

fun console_uart_irq ::
    "(bytes \<times> bool \<times> (bool \<times> (nat \<Rightarrow> int)) list) list \<Rightarrow> console_input \<Rightarrow> console_action list \<times> console_input" where
  "console_uart_irq [] c = ([if console_echo_has_data_locked c then UartTxEnable else UartTxDisable], c)"
| "console_uart_irq ((received, tx_ready, rounds) # later) c =
     (let c1 = console_uart_receive received c;
          (acts, c2) = (if tx_ready then console_echo_flush rounds c1 else ([], c1));
          (rest, c3) = console_uart_irq later c2
      in (acts @ rest, c3))"

section \<open>Opening and closing\<close>

definition console_input_install :: "bool \<Rightarrow> errno option \<Rightarrow> console_input \<Rightarrow> errno option \<times> console_action list \<times> console_input" where
  "console_input_install device_ready ret c =
     (if ci_initialized c then (None, [], c)
      else if \<not> device_ready then (Some ENODEV, [], c)
      else if ret \<noteq> None then (ret, [UartRxDisable, UartTxDisable, UartDrain], c)
      else (None, [UartRxDisable, UartTxDisable, UartDrain, UartRxEnable], c\<lparr>ci_initialized := True\<rparr>))"

definition console_line_is_current :: "u32 \<Rightarrow> console_input \<Rightarrow> bool" where
  "console_line_is_current epoch c \<longleftrightarrow> ci_epoch c = epoch"

definition console_serial_start :: "bool \<Rightarrow> errno option \<Rightarrow> console_input \<Rightarrow> console_action list \<times> console_input" where
  "console_serial_start device_ready ret c =
     (let (err, acts, c1) = console_input_install device_ready ret c
      in if err \<noteq> None then (acts, c1)
         else if ci_active c1 then (acts, c1)
         else
           let c2 = (console_reset_line_locked (c1\<lparr>ci_active := True\<rparr>))\<lparr>ci_echo_head := 0, ci_echo_tail := 0\<rparr>;
               create = \<not> ci_thread_started c2
           in (acts @ [UartRxDisable, UartTxDisable, UartDrain, UartRxEnable] @ (if create then [StartThread] else []) @ [PrintBanner],
               c2\<lparr>ci_thread_started := True\<rparr>))"

definition console_close_input_locked :: "console_input \<Rightarrow> console_action list \<times> console_input" where
  "console_close_input_locked c =
     (let c1 = (console_reset_line_locked (c\<lparr>ci_active := False\<rparr>))\<lparr>ci_echo_head := 0, ci_echo_tail := 0\<rparr>
      in (if ci_initialized c1 then [UartTxDisable, UartRxDisable, UartDrain] else [], c1))"

definition console_serial_close :: "console_input \<Rightarrow> console_action list \<times> console_input" where
  "console_serial_close c = console_close_input_locked c"

definition console_serial_stop :: "console_input \<Rightarrow> console_action list \<times> console_input" where
  "console_serial_stop c =
     (let (acts, c1) = console_close_input_locked c
      in (acts, console_drop_queued_lines_locked (c1\<lparr>ci_epoch := ci_epoch c1 + 1\<rparr>)))"

text \<open>The console thread takes a line and keeps it when it is of the present epoch.\<close>

definition console_next_line :: "console_input \<Rightarrow> bytes option \<times> console_input" where
  "console_next_line c =
     (case ci_queue c of
        [] \<Rightarrow> (None, c)
      | (epoch, line) # rest \<Rightarrow> (if console_line_is_current epoch c then Some line else None, c\<lparr>ci_queue := rest\<rparr>))"

end
