(* ===== verification/ConsoleInputCorrect.thy ===== *)
theory ConsoleInputCorrect
  imports ConsoleInput Ring
begin

text \<open>
  The editor against a terminal: what the echoed bytes make a terminal show is the line that is executed when the line
  is finished. The terminal is a row without end, a cursor, a saved cursor, and the sequences the editor uses.
\<close>

section \<open>A terminal\<close>

datatype term_mode = TermText | TermEscape | TermControl nat

record terminal =
  tm_row :: bytes
  tm_col :: nat
  tm_saved :: nat
  tm_mode :: term_mode

definition term_print :: "u8 \<Rightarrow> terminal \<Rightarrow> terminal" where
  "term_print b t =
     t\<lparr>tm_row := (if tm_col t < length (tm_row t) then (tm_row t)[tm_col t := b]
         else tm_row t @ replicate (tm_col t - length (tm_row t)) 0x20 @ [b]), tm_col := tm_col t + 1\<rparr>"

definition term_control :: "nat \<Rightarrow> u8 \<Rightarrow> terminal \<Rightarrow> terminal" where
  "term_control n b t =
     (if 0x30 \<le> b \<and> b \<le> 0x39 then t\<lparr>tm_mode := TermControl (10 * n + (unat b - 48))\<rparr>
      else
        let t1 = t\<lparr>tm_mode := TermText\<rparr>; m = max 1 n
        in if b = 0x73 then t1\<lparr>tm_saved := tm_col t\<rparr>
           else if b = 0x75 then t1\<lparr>tm_col := tm_saved t\<rparr>
           else if b = 0x44 then t1\<lparr>tm_col := tm_col t - m\<rparr>
           else if b = 0x43 then t1\<lparr>tm_col := tm_col t + m\<rparr>
           else t1)"

definition term_byte :: "u8 \<Rightarrow> terminal \<Rightarrow> terminal" where
  "term_byte b t =
     (case tm_mode t of
        TermText \<Rightarrow>
          if b = 0x1b then t\<lparr>tm_mode := TermEscape\<rparr>
          else if b = 8 then t\<lparr>tm_col := tm_col t - 1\<rparr>
          else if b = 7 then t
          else if b = 13 then t\<lparr>tm_col := 0\<rparr>
          else if b = 10 then t\<lparr>tm_row := []\<rparr>
          else term_print b t
      | TermEscape \<Rightarrow> t\<lparr>tm_mode := (if b = 0x5b then TermControl 0 else TermText)\<rparr>
      | TermControl n \<Rightarrow> term_control n b t)"

definition term_feed :: "bytes \<Rightarrow> terminal \<Rightarrow> terminal" where
  "term_feed = fold term_byte"

lemma term_feed_simps [simp]: "term_feed [] t = t" "term_feed (b # bs) t = term_feed bs (term_byte b t)"
  "term_feed (xs @ ys) t = term_feed ys (term_feed xs t)"
  by (simp_all add: term_feed_def)

text \<open>A character is written over the row.\<close>

lemma isprint_text: "isprint b \<Longrightarrow> b \<noteq> 0x1b \<and> b \<noteq> 8 \<and> b \<noteq> 7 \<and> b \<noteq> 13 \<and> b \<noteq> 10"
  by (auto simp: isprint_def)

lemma term_printable:
  assumes "tm_mode t = TermText" "isprint b" "tm_col t \<le> length (tm_row t)"
  shows "term_byte b t = t\<lparr>tm_row := take (tm_col t) (tm_row t) @ b # drop (Suc (tm_col t)) (tm_row t), tm_col := tm_col t + 1\<rparr>"
  using assms isprint_text [OF assms(2)] by (auto simp: term_byte_def term_print_def upd_conv_take_nth_drop)

lemma term_text:
  assumes "tm_mode t = TermText" "list_all isprint xs" "tm_col t \<le> length (tm_row t)"
  shows "term_feed xs t = t\<lparr>tm_row := take (tm_col t) (tm_row t) @ xs @ drop (tm_col t + length xs) (tm_row t),
    tm_col := tm_col t + length xs\<rparr>"
  using assms
proof (induction xs arbitrary: t)
  case (Cons x xs)
  let ?t = "t\<lparr>tm_row := take (tm_col t) (tm_row t) @ x # drop (Suc (tm_col t)) (tm_row t), tm_col := tm_col t + 1\<rparr>"
  have "term_feed (x # xs) t = term_feed xs ?t" using Cons.prems term_printable [of t x] by simp
  also have "\<dots> = ?t\<lparr>tm_row := take (tm_col ?t) (tm_row ?t) @ xs @ drop (tm_col ?t + length xs) (tm_row ?t),
      tm_col := tm_col ?t + length xs\<rparr>"
    by (rule Cons.IH) (use Cons.prems in simp_all)
  finally show ?case using Cons.prems(3) by (simp add: min_def drop_Cons')
qed simp

lemma term_save: "tm_mode t = TermText \<Longrightarrow> term_feed [0x1b, 0x5b, 0x73] t = t\<lparr>tm_saved := tm_col t\<rparr>"
  by (simp add: term_byte_def term_control_def)

lemma term_restore: "tm_mode t = TermText \<Longrightarrow> term_feed [0x1b, 0x5b, 0x75] t = t\<lparr>tm_col := tm_saved t\<rparr>"
  by (simp add: term_byte_def term_control_def)

lemma digit_byte:
  assumes "n < 10"
  shows "0x30 \<le> digit n \<and> digit n \<le> 0x39 \<and> unat (digit n) - 48 = n"
proof -
  have "unat (digit n) = 48 + n" using assms by (simp add: digit_def unat_word_ariths unat_of_nat)
  then show ?thesis using assms by (simp add: word_le_nat_alt)
qed

lemma term_digits:
  assumes "tm_mode t = TermControl 0" "n < 1000"
  shows "term_feed (cursor_digits n) t = t\<lparr>tm_mode := TermControl n\<rparr>"
proof -
  have d: "term_byte (digit k) s = s\<lparr>tm_mode := TermControl (10 * m + k)\<rparr>" if "tm_mode s = TermControl m" "k < 10" for k m s
    using digit_byte [OF that(2)] that(1) by (simp add: term_byte_def term_control_def)
  show ?thesis
  proof (cases "100 \<le> n")
    case True
    have "n div 100 < 10" "n mod 100 div 10 < 10" "n mod 100 mod 10 < 10" using assms(2) by auto
    moreover have "10 * (10 * a + b) + c = n" if "100 * a + r = n" "10 * b + c = r" for a b c r :: nat using that by simp
    then have "10 * (10 * (n div 100) + n mod 100 div 10) + n mod 100 mod 10 = n" using mult_div_mod_eq by blast
    ultimately show ?thesis using True assms(1) by (simp add: cursor_digits_def d)
  next
    case False
    show ?thesis
    proof (cases "10 \<le> n")
      case True
      have "n div 10 < 10" "n mod 10 < 10" using False by auto
      then show ?thesis using False True assms(1) by (simp add: cursor_digits_def d)
    next
      case small: False
      then show ?thesis using False assms(1) by (simp add: cursor_digits_def d)
    qed
  qed
qed

lemma term_move:
  assumes "tm_mode t = TermText" "0 < n" "n < 1000"
  shows "term_feed ([0x1b, 0x5b] @ cursor_digits n @ [0x44]) t = t\<lparr>tm_col := tm_col t - n\<rparr>"
    and "term_feed ([0x1b, 0x5b] @ cursor_digits n @ [0x43]) t = t\<lparr>tm_col := tm_col t + n\<rparr>"
proof -
  have e: "term_feed [0x1b, 0x5b] t = t\<lparr>tm_mode := TermControl 0\<rparr>" using assms(1) by (simp add: term_byte_def)
  have d: "term_feed (cursor_digits n) (t\<lparr>tm_mode := TermControl 0\<rparr>) = t\<lparr>tm_mode := TermControl n\<rparr>"
    using term_digits [of "t\<lparr>tm_mode := TermControl 0\<rparr>" n] assms(3) by simp
  have m: "max 1 n = n" using assms(2) by simp
  show "term_feed ([0x1b, 0x5b] @ cursor_digits n @ [0x44]) t = t\<lparr>tm_col := tm_col t - n\<rparr>"
    unfolding term_feed_simps(3) e d using assms(1) m by (simp add: term_byte_def term_control_def Let_def)
  show "term_feed ([0x1b, 0x5b] @ cursor_digits n @ [0x43]) t = t\<lparr>tm_col := tm_col t + n\<rparr>"
    unfolding term_feed_simps(3) e d using assms(1) m by (simp add: term_byte_def term_control_def Let_def)
qed

section \<open>The echo ring\<close>

definition echo_bytes :: "console_input \<Rightarrow> bytes" where
  "echo_bytes c = ring_list CONSOLE_ECHO_BUFFER_SIZE (ci_echo c) (ci_echo_tail c) (ci_echo_head c)"

definition echo_ok :: "console_input \<Rightarrow> bool" where
  "echo_ok c \<longleftrightarrow> length (ci_echo c) = CONSOLE_ECHO_BUFFER_SIZE \<and> ci_echo_head c < CONSOLE_ECHO_BUFFER_SIZE \<and>
     ci_echo_tail c < CONSOLE_ECHO_BUFFER_SIZE"

text \<open>Everything but the echo ring.\<close>

definition ci_rest :: "console_input \<Rightarrow> console_input" where
  "ci_rest c = c\<lparr>ci_echo := [], ci_echo_head := 0, ci_echo_tail := 0\<rparr>"

definition emits :: "console_input \<Rightarrow> bytes \<Rightarrow> console_input \<Rightarrow> bool" where
  "emits c xs c1 \<longleftrightarrow> ci_rest c1 = ci_rest c \<and>
     (echo_ok c \<longrightarrow> echo_ok c1 \<and>
       (length (echo_bytes c) + length xs < CONSOLE_ECHO_BUFFER_SIZE \<longrightarrow> echo_bytes c1 = echo_bytes c @ xs))"

lemma emits_refl: "emits c [] c"
  by (simp add: emits_def)

lemma emits_trans: "emits c xs c1 \<Longrightarrow> emits c1 ys c2 \<Longrightarrow> emits c (xs @ ys) c2"
  by (auto simp: emits_def)

lemma emits_put: "emits c [b] (console_echo_put_locked b c)"
proof -
  have "echo_bytes (console_echo_put_locked b c) = echo_bytes c @ [b]"
    if ok: "echo_ok c" and room: "length (echo_bytes c) + 1 < CONSOLE_ECHO_BUFFER_SIZE"
  proof -
    have lt: "ci_echo_tail c < CONSOLE_ECHO_BUFFER_SIZE" "ci_echo_head c < CONSOLE_ECHO_BUFFER_SIZE" using ok by (simp_all add: echo_ok_def)
    have "Suc (ci_echo_head c) mod CONSOLE_ECHO_BUFFER_SIZE \<noteq> ci_echo_tail c"
    proof
      assume e: "Suc (ci_echo_head c) mod CONSOLE_ECHO_BUFFER_SIZE = ci_echo_tail c"
      then have "ring_used CONSOLE_ECHO_BUFFER_SIZE (ci_echo_tail c) (ci_echo_head c) = 511"
        using lt by (simp add: ring_used_cases suc_mod split: if_splits)
      then show False using room by (simp add: echo_bytes_def)
    qed
    then show ?thesis using ok by (simp add: console_echo_put_locked_def Let_def echo_bytes_def echo_ok_def ring_push)
  qed
  moreover have "ci_rest (console_echo_put_locked b c) = ci_rest c" "echo_ok c \<Longrightarrow> echo_ok (console_echo_put_locked b c)"
    by (simp_all add: console_echo_put_locked_def Let_def ci_rest_def echo_ok_def)
  ultimately show ?thesis by (simp add: emits_def)
qed

lemma emits_text: "emits c xs (console_echo_text_locked xs c)"
proof (induction xs arbitrary: c)
  case (Cons x xs)
  from emits_trans [OF emits_put Cons.IH, of c x] show ?case by (simp add: console_echo_text_locked_def)
qed (simp add: console_echo_text_locked_def emits_refl)

lemma emits_cursor:
  "emits c (if n = 0 then [] else [0x1b, 0x5b] @ cursor_digits n @ [d]) (console_echo_cursor_locked d n c)"
  unfolding console_echo_cursor_locked_def by (cases "n = 0") (simp_all only: emits_text emits_refl if_True if_False refl)

lemma emits_fields:
  assumes "emits c xs c1"
  shows "ci_initialized c1 = ci_initialized c" "ci_active c1 = ci_active c" "ci_overflow c1 = ci_overflow c"
    "ci_last_was_cr c1 = ci_last_was_cr c" "ci_escape_state c1 = ci_escape_state c" "ci_cursor c1 = ci_cursor c" "ci_tail c1 = ci_tail c"
    "ci_epoch c1 = ci_epoch c" "ci_line c1 = ci_line c" "ci_queue c1 = ci_queue c"
  using assms by (cases c; cases c1; simp add: emits_def ci_rest_def)+

section \<open>The line\<close>

definition current_line :: "console_input \<Rightarrow> bytes" where
  "current_line c = take (line_length c) (ci_line c)"

definition edit_ok :: "console_input \<Rightarrow> bool" where
  "edit_ok c \<longleftrightarrow> line_length c < CONSOLE_LINE_MAX_LEN c \<and> CONSOLE_LINE_MAX_LEN c \<le> 500 \<and> list_all isprint (current_line c) \<and> echo_ok c"

lemma shift_right_nth:
  assumes "i < length line" "cursor \<le> i"
  shows "length (shift_right cursor i line) = length line \<and>
    shift_right cursor i line ! j = (if cursor < j \<and> j \<le> i then line ! (j - 1) else line ! j)"
  using assms
proof (induction cursor i line rule: shift_right.induct)
  case (1 cursor i line)
  show ?case
  proof (cases "cursor < i")
    case True
    then show ?thesis using 1 by (subst (1 2) shift_right.simps) (auto simp: nth_list_update_if)
  qed (use 1 in \<open>subst (1 2) shift_right.simps, auto\<close>)
qed

lemma shift_left_nth:
  assumes "cursor \<le> m" "m < length line"
  shows "length (fold (\<lambda>i line. line[i := line ! (i + 1)]) [cursor..<m] line) = length line \<and>
    fold (\<lambda>i line. line[i := line ! (i + 1)]) [cursor..<m] line ! j = (if cursor \<le> j \<and> j < m then line ! (j + 1) else line ! j)"
  using assms
proof (induction m arbitrary: j rule: dec_induct)
  case (step m)
  then show ?case by (auto simp: nth_list_update_if less_Suc_eq)
qed auto

text \<open>The three edits as operations on the line.\<close>

lemma inserted_line:
  assumes "Suc n < length line" "k \<le> n"
  shows "take (Suc n) ((shift_right k n line)[k := b]) = take k (take n line) @ b # drop k (take n line)"
proof (rule nth_equalityI)
  show len: "length (take (Suc n) ((shift_right k n line)[k := b])) = length (take k (take n line) @ b # drop k (take n line))"
    using assms shift_right_nth [of n line k] by simp
  fix i assume "i < length (take (Suc n) ((shift_right k n line)[k := b]))"
  then have i: "i < Suc n" by simp
  have idx: "k + (i - Suc k) = i - 1" if "k < i" using that by simp
  show "take (Suc n) ((shift_right k n line)[k := b]) ! i = (take k (take n line) @ b # drop k (take n line)) ! i"
    using assms i idx shift_right_nth [of n line k i] by (auto simp: nth_append nth_Cons' nth_list_update_if min_def)
qed

lemma removed_line:
  assumes "n < length line" "k < n"
  shows "take (n - 1) (shift_left k n line) = take k (take n line) @ drop (Suc k) (take n line)"
proof (rule nth_equalityI)
  note s = shift_left_nth [of k "n - 1" line]
  show "length (take (n - 1) (shift_left k n line)) = length (take k (take n line) @ drop (Suc k) (take n line))"
    using assms s by (simp add: shift_left_def)
  fix i assume "i < length (take (n - 1) (shift_left k n line))"
  then have i: "i < n - 1" by simp
  show "take (n - 1) (shift_left k n line) ! i = (take k (take n line) @ drop (Suc k) (take n line)) ! i"
    using assms i s [of i] by (auto simp: shift_left_def nth_append min_def)
qed

lemma line_rest_current: "edit_ok c \<Longrightarrow> line_rest c = drop (ci_cursor c) (current_line c)"
  by (rule nth_equalityI) (auto simp: line_rest_def current_line_def edit_ok_def line_length_def CONSOLE_LINE_MAX_LEN_def)

section \<open>What the terminal shows\<close>

definition displays :: "console_input \<Rightarrow> terminal \<Rightarrow> bool" where
  "displays c t \<longleftrightarrow> tm_mode t = TermText \<and> tm_col t = ci_cursor c \<and> (\<exists>k. tm_row t = current_line c @ replicate k 0x20)"

definition good :: "console_input \<Rightarrow> terminal \<Rightarrow> bool" where
  "good c t \<longleftrightarrow> edit_ok c \<and> displays c (term_feed (echo_bytes c) t)"

text \<open>There is room for what one byte makes the editor write.\<close>

definition echo_room :: "console_input \<Rightarrow> bool" where
  "echo_room c \<longleftrightarrow> length (echo_bytes c) + line_length c + 12 < CONSOLE_ECHO_BUFFER_SIZE"

lemma emitted_good:
  assumes "good c t" "emits c0 xs c1" "edit_ok c0" "echo_bytes c0 = echo_bytes c"
    and "length (echo_bytes c) + length xs < CONSOLE_ECHO_BUFFER_SIZE" "displays c0 (term_feed xs (term_feed (echo_bytes c) t))"
  shows "good c1 t"
proof -
  note f = emits_fields [OF assms(2)]
  have "echo_ok c1" "echo_bytes c1 = echo_bytes c @ xs" using assms by (auto simp: emits_def edit_ok_def)
  then show ?thesis using assms(3,6)
    by (simp add: good_def edit_ok_def displays_def current_line_def line_length_def CONSOLE_LINE_MAX_LEN_def f)
qed

lemma good_cong:
  assumes "good c t" and "ci_line c1 = ci_line c" "ci_cursor c1 = ci_cursor c" "ci_tail c1 = ci_tail c" "ci_echo c1 = ci_echo c"
    "ci_echo_head c1 = ci_echo_head c" "ci_echo_tail c1 = ci_echo_tail c"
  shows "good c1 t"
  using assms by (simp add: good_def edit_ok_def displays_def current_line_def line_length_def CONSOLE_LINE_MAX_LEN_def echo_ok_def echo_bytes_def)

lemma shown_row:
  assumes "edit_ok c" "displays c t"
  obtains k where "tm_row t = current_line c @ replicate k 0x20" "tm_col t = ci_cursor c" "tm_mode t = TermText"
    "ci_cursor c \<le> length (current_line c)" "length (current_line c) = line_length c"
  using assms by (auto simp: displays_def edit_ok_def current_line_def line_length_def CONSOLE_LINE_MAX_LEN_def)

definition redraw_bytes :: "bytes \<Rightarrow> bytes" where
  "redraw_bytes rest = (if rest = [] then [0x20, 8] else [0x1b, 0x5b, 0x73] @ rest @ [0x20, 0x1b, 0x5b, 0x75])"

lemma emits_redraw:
  assumes "edit_ok c"
  shows "emits c (redraw_bytes (drop (ci_cursor c) (current_line c))) (redraw_rest c)"
proof -
  have len: "length (current_line c) = line_length c" using assms by (simp add: edit_ok_def current_line_def CONSOLE_LINE_MAX_LEN_def)
  show ?thesis
  proof (cases "ci_tail c = 0")
    case True
    then have "drop (ci_cursor c) (current_line c) = []" using len by (simp add: line_length_def)
    then show ?thesis using True by (simp add: redraw_rest_def redraw_bytes_def emits_text)
  next
    case False
    let ?c1 = "console_echo_text_locked [0x1b, 0x5b, 0x73] c"
    have r: "line_rest c = drop (ci_cursor c) (current_line c)" by (rule line_rest_current [OF assms])
    have "drop (ci_cursor c) (current_line c) \<noteq> []" using False len by (simp add: line_length_def)
    moreover have "emits c ([0x1b, 0x5b, 0x73] @ line_rest c @ [0x20, 0x1b, 0x5b, 0x75]) (redraw_rest c)"
      using False emits_trans [OF emits_trans [OF emits_text emits_text] emits_text, of c "[0x1b, 0x5b, 0x73]" "line_rest c" "[0x20, 0x1b, 0x5b, 0x75]"]
      by (simp add: redraw_rest_def)
    ultimately show ?thesis by (simp add: redraw_bytes_def r)
  qed
qed

lemma term_redraw:
  assumes "tm_mode t = TermText" "tm_col t = k" "k \<le> length L" "tm_row t = take k L @ X @ replicate j 0x20"
    and "length X = Suc (length L - k)" "list_all isprint L"
  shows "tm_mode (term_feed (redraw_bytes (drop k L)) t) = TermText \<and> tm_col (term_feed (redraw_bytes (drop k L)) t) = k \<and>
    tm_row (term_feed (redraw_bytes (drop k L)) t) = L @ replicate (Suc j) 0x20"
proof -
  have sp: "isprint 0x20" by (simp add: isprint_def)
  have rest: "list_all isprint (drop k L)" using assms(6) by (auto simp: list_all_iff dest: in_set_dropD)
  have tail: "drop (k + length (drop k L) + 1) (tm_row t) = replicate j 0x20"
    using assms(3-5) by simp
  show ?thesis
  proof (cases "drop k L = []")
    case True
    then have "term_feed (redraw_bytes (drop k L)) t = term_byte 8 (term_byte 0x20 t)" by (simp add: redraw_bytes_def)
    moreover have "take k (tm_row t) = L" using True assms(3,4) by simp
    ultimately show ?thesis using term_printable [OF assms(1) sp] True assms tail by (simp add: term_byte_def)
  next
    case False
    let ?t1 = "t\<lparr>tm_saved := tm_col t\<rparr>"
    have x: "term_feed (drop k L @ [0x20]) ?t1 = ?t1\<lparr>tm_row := take k (tm_row t) @ (drop k L @ [0x20]) @ replicate j 0x20,
        tm_col := k + length (drop k L @ [0x20])\<rparr>"
      using term_text [of ?t1 "drop k L @ [0x20]"] assms rest sp tail by simp
    have "redraw_bytes (drop k L) = [0x1b, 0x5b, 0x73] @ (drop k L @ [0x20]) @ [0x1b, 0x5b, 0x75]" using False by (simp add: redraw_bytes_def)
    then have "term_feed (redraw_bytes (drop k L)) t = term_feed [0x1b, 0x5b, 0x75] (term_feed (drop k L @ [0x20]) ?t1)"
      by (simp only: term_feed_simps(3) term_save [OF assms(1)])
    also have "\<dots> = (term_feed (drop k L @ [0x20]) ?t1)\<lparr>tm_col := k\<rparr>"
      unfolding x using assms(1,2) by (subst term_restore) simp_all
    finally show ?thesis unfolding x using assms by simp
  qed
qed

section \<open>Each edit\<close>

lemma length_redraw: "length (redraw_bytes rest) \<le> 7 + length rest"
  by (simp add: redraw_bytes_def)

text \<open>A removal at place \<open>k\<close>: the cursor is there, the row still shows the old line.\<close>

lemma removal_good:
  assumes "good c s" "echo_room c" "t = term_feed (echo_bytes c) s" "k < line_length c"
    and "c1 = c\<lparr>ci_line := shift_left k (line_length c) (ci_line c), ci_cursor := k, ci_tail := line_length c - 1 - k\<rparr>"
    and "emits c1 xs c2" "length xs \<le> 5" "term_feed xs t = t\<lparr>tm_col := k\<rparr>"
  shows "good (redraw_rest c2) s"
proof -
  let ?L = "current_line c" and ?n = "line_length c"
  have c: "edit_ok c" "displays c t" using assms(1,3) by (simp_all add: good_def)
  obtain j where t: "tm_row t = ?L @ replicate j 0x20" "tm_mode t = TermText" "length ?L = ?n"
    using shown_row [OF c] by metis
  have len: "?n < length (ci_line c)" "length (ci_line c) \<le> 500" "list_all isprint ?L" "echo_ok c"
    using c(1) by (simp_all add: edit_ok_def CONSOLE_LINE_MAX_LEN_def)
  have n1: "line_length c1 = ?n - 1" using assms(4,5) by (simp add: line_length_def)
  have L1: "current_line c1 = take k ?L @ drop (Suc k) ?L"
    using removed_line [OF len(1) assms(4)] n1 assms(5) by (simp add: current_line_def)
  have print1: "list_all isprint (current_line c1)"
    unfolding L1 using len(3) by (auto simp: list_all_iff dest: in_set_takeD in_set_dropD)
  have ok1: "edit_ok c1" using len n1 print1 assms(5) shift_left_nth [of k "?n - 1" "ci_line c"] assms(4)
    by (auto simp: edit_ok_def CONSOLE_LINE_MAX_LEN_def shift_left_def echo_ok_def)
  have same: "current_line c2 = current_line c1" "ci_cursor c2 = k" "edit_ok c2"
    using assms(5,6) ok1 emits_fields [OF assms(6)]
    by (auto simp: current_line_def line_length_def edit_ok_def emits_def CONSOLE_LINE_MAX_LEN_def echo_bytes_def)
  have out: "emits c1 (xs @ redraw_bytes (drop k (current_line c1))) (redraw_rest c2)"
    using emits_trans [OF assms(6) emits_redraw [OF same(3)]] same(1,2) by simp
  have k1: "k \<le> length (current_line c1)" "length (current_line c1) < ?n" "take k (current_line c1) = take k ?L"
    using t(3) assms(4) len(1,2) by (simp_all add: L1)
  show ?thesis
  proof (rule emitted_good [OF assms(1) out ok1])
    show "echo_bytes c1 = echo_bytes c" using assms(5) by (simp add: echo_bytes_def)
    show "length (echo_bytes c) + length (xs @ redraw_bytes (drop k (current_line c1))) < CONSOLE_ECHO_BUFFER_SIZE"
      using length_redraw [of "drop k (current_line c1)"] assms(2,7) k1(2) by (simp add: echo_room_def)
    have r: "tm_row (t\<lparr>tm_col := k\<rparr>) = take k (current_line c1) @ drop k ?L @ replicate j 0x20" using t(1,3) k1(3) assms(4) by simp
    have d: "term_feed (xs @ redraw_bytes (drop k (current_line c1))) t = term_feed (redraw_bytes (drop k (current_line c1))) (t\<lparr>tm_col := k\<rparr>)"
      by (simp only: term_feed_simps(3) assms(8))
    have w: "length (drop k ?L) = Suc (length (current_line c1) - k)" using t(3) assms(4) by (simp add: L1)
    have st: "tm_mode (t\<lparr>tm_col := k\<rparr>) = TermText" "tm_col (t\<lparr>tm_col := k\<rparr>) = k" using t(2) by simp_all
    have cur: "ci_cursor c1 = k" using assms(5) by simp
    show "displays c1 (term_feed (xs @ redraw_bytes (drop k (current_line c1))) (term_feed (echo_bytes c) s))"
      unfolding assms(3) [symmetric] using term_redraw [OF st k1(1) r w print1] unfolding displays_def d cur by blast
  qed
qed

lemma backspace_good:
  assumes "good c t" "echo_room c"
  shows "good (console_backspace_locked c) t"
proof (cases "ci_cursor c = 0")
  case True
  then show ?thesis using assms by (simp add: console_backspace_locked_def)
next
  case False
  let ?c1 = "c\<lparr>ci_cursor := ci_cursor c - 1, ci_line := shift_left (ci_cursor c - 1) (line_length c) (ci_line c)\<rparr>"
  have e: "?c1 = c\<lparr>ci_line := shift_left (ci_cursor c - 1) (line_length c) (ci_line c), ci_cursor := ci_cursor c - 1,
      ci_tail := line_length c - 1 - (ci_cursor c - 1)\<rparr>"
    using False by (cases c) (simp add: line_length_def)
  let ?t = "term_feed (echo_bytes c) t"
  have "tm_mode ?t = TermText" "tm_col ?t = ci_cursor c" using assms(1) by (simp_all add: displays_def good_def)
  then have t: "term_feed [8] ?t = ?t\<lparr>tm_col := ci_cursor c - 1\<rparr>" by (simp add: term_byte_def)
  have "good (redraw_rest (console_echo_put_locked 8 ?c1)) t"
    by (rule removal_good [OF assms refl _ e emits_put _ t]) (use False in \<open>simp_all add: line_length_def\<close>)
  then show ?thesis using False by (simp add: console_backspace_locked_def Let_def)
qed

lemma delete_good:
  assumes "good c t" "echo_room c"
  shows "good (console_delete_locked c) t"
proof (cases "ci_tail c = 0")
  case True
  then show ?thesis using assms by (simp add: console_delete_locked_def)
next
  case False
  let ?c1 = "c\<lparr>ci_line := shift_left (ci_cursor c) (line_length c) (ci_line c), ci_tail := ci_tail c - 1\<rparr>"
  have e: "?c1 = c\<lparr>ci_line := shift_left (ci_cursor c) (line_length c) (ci_line c), ci_cursor := ci_cursor c,
      ci_tail := line_length c - 1 - ci_cursor c\<rparr>"
    using False by (cases c) (simp add: line_length_def)
  let ?t = "term_feed (echo_bytes c) t"
  have m: "tm_mode ?t = TermText" "tm_col ?t = ci_cursor c" using assms(1) by (simp_all add: displays_def good_def)
  let ?out = "([0x1b, 0x5b] @ cursor_digits 1 @ [0x43]) @ [8]"
  have out: "emits ?c1 ?out (console_echo_put_locked 8 (console_echo_cursor_locked 0x43 1 ?c1))"
    using emits_trans [OF emits_cursor [of ?c1 1 "0x43"] emits_put [of _ 8]] by (simp only: one_neq_zero if_False)
  have t: "term_feed ?out ?t = ?t\<lparr>tm_col := ci_cursor c\<rparr>"
    unfolding term_feed_simps(3) using term_move(2) [OF m(1), of 1] m by (simp add: term_byte_def)
  have "good (redraw_rest (console_echo_put_locked 8 (console_echo_cursor_locked 0x43 1 ?c1))) t"
    by (rule removal_good [OF assms refl _ e out _ t]) (use False in \<open>simp_all add: line_length_def cursor_digits_def\<close>)
  then show ?thesis using False by (simp add: console_delete_locked_def Let_def)
qed

text \<open>A cursor motion: the line stays, the terminal's cursor goes where the editor's goes.\<close>

lemma move_good:
  assumes "good c t" "echo_room c" "k \<le> line_length c" "ci_line c0 = ci_line c" "ci_cursor c0 = k" "ci_tail c0 = line_length c - k"
    and "ci_echo c0 = ci_echo c" "ci_echo_head c0 = ci_echo_head c" "ci_echo_tail c0 = ci_echo_tail c"
    and "emits c0 xs c1" "length xs \<le> 6"
    and "term_feed xs (term_feed (echo_bytes c) t) = (term_feed (echo_bytes c) t)\<lparr>tm_col := k\<rparr>"
  shows "good c1 t"
proof (rule emitted_good [OF assms(1,10)])
  have L: "current_line c0 = current_line c" "line_length c0 = line_length c" using assms(3-6) by (simp_all add: current_line_def line_length_def)
  show "edit_ok c0" using assms(1,4,7-9) L by (simp add: good_def edit_ok_def CONSOLE_LINE_MAX_LEN_def echo_ok_def)
  show "echo_bytes c0 = echo_bytes c" using assms(7-9) by (simp add: echo_bytes_def)
  show "length (echo_bytes c) + length xs < CONSOLE_ECHO_BUFFER_SIZE" using assms(2,11) by (simp add: echo_room_def)
  show "displays c0 (term_feed xs (term_feed (echo_bytes c) t))"
    using assms(1,5) L unfolding assms(12) by (simp add: good_def displays_def)
qed

lemma length_cursor_digits: "length (cursor_digits n) \<le> 3"
  by (simp add: cursor_digits_def)

lemma cursor_output_length: "length (if n = 0 then [] else [0x1b, 0x5b] @ cursor_digits n @ [d]) \<le> 6"
  using length_cursor_digits [of n] by simp

lemma left_good:
  assumes "good c t" "echo_room c" "n \<le> ci_cursor c"
  shows "good (console_echo_cursor_locked 0x44 n (c\<lparr>ci_cursor := ci_cursor c - n, ci_tail := ci_tail c + n\<rparr>)) t"
proof -
  let ?t = "term_feed (echo_bytes c) t"
  have m: "tm_mode ?t = TermText" "tm_col ?t = ci_cursor c" "ci_cursor c < 500"
    using assms(1) by (auto simp: displays_def good_def edit_ok_def line_length_def)
  have "term_feed (if n = 0 then [] else [0x1b, 0x5b] @ cursor_digits n @ [0x44]) ?t = ?t\<lparr>tm_col := ci_cursor c - n\<rparr>"
  proof (cases "n = 0")
    case False
    then show ?thesis using term_move(1) [OF m(1), of n] assms(3) m by simp
  qed (use m in simp)
  then show ?thesis
    by (intro move_good [OF assms(1,2) _ _ _ _ _ _ _ emits_cursor cursor_output_length, of "ci_cursor c - n"])
      (use assms(3) in \<open>simp_all add: line_length_def\<close>)
qed

lemma right_good:
  assumes "good c t" "echo_room c" "n \<le> ci_tail c"
  shows "good (console_echo_cursor_locked 0x43 n (c\<lparr>ci_cursor := ci_cursor c + n, ci_tail := ci_tail c - n\<rparr>)) t"
proof -
  let ?t = "term_feed (echo_bytes c) t"
  have m: "tm_mode ?t = TermText" "tm_col ?t = ci_cursor c" "ci_tail c < 500"
    using assms(1) by (auto simp: displays_def good_def edit_ok_def line_length_def)
  have "term_feed (if n = 0 then [] else [0x1b, 0x5b] @ cursor_digits n @ [0x43]) ?t = ?t\<lparr>tm_col := ci_cursor c + n\<rparr>"
  proof (cases "n = 0")
    case False
    then show ?thesis using term_move(2) [OF m(1), of n] assms(3) m by simp
  qed (use m in simp)
  then show ?thesis
    by (intro move_good [OF assms(1,2) _ _ _ _ _ _ _ emits_cursor cursor_output_length, of "ci_cursor c + n"])
      (use assms(3) in \<open>simp_all add: line_length_def\<close>)
qed

lemma echo_text_moved:
  "console_echo_text_locked xs (c\<lparr>ci_cursor := k, ci_tail := m\<rparr>) = (console_echo_text_locked xs c)\<lparr>ci_cursor := k, ci_tail := m\<rparr>"
proof (induction xs arbitrary: c)
  case (Cons x xs)
  have "console_echo_put_locked x (c\<lparr>ci_cursor := k, ci_tail := m\<rparr>) = (console_echo_put_locked x c)\<lparr>ci_cursor := k, ci_tail := m\<rparr>"
    by (simp add: console_echo_put_locked_def Let_def)
  then show ?case using Cons.IH [of "console_echo_put_locked x c"] by (simp add: console_echo_text_locked_def)
qed (simp add: console_echo_text_locked_def)

lemma echo_cursor_moved:
  "(console_echo_cursor_locked d n c)\<lparr>ci_cursor := k, ci_tail := m\<rparr> = console_echo_cursor_locked d n (c\<lparr>ci_cursor := k, ci_tail := m\<rparr>)"
  unfolding console_echo_cursor_locked_def echo_text_moved by simp

lemma home_good:
  assumes "good c t" "echo_room c"
  shows "good (console_move_home_locked c) t"
proof -
  have "console_move_home_locked c = (console_echo_cursor_locked 0x44 (ci_cursor c) c)\<lparr>ci_cursor := ci_cursor c - ci_cursor c,
      ci_tail := ci_tail c + ci_cursor c\<rparr>"
    by (simp add: console_move_home_locked_def)
  then show ?thesis using left_good [OF assms, of "ci_cursor c"] by (simp only: echo_cursor_moved le_refl)
qed

lemma end_good:
  assumes "good c t" "echo_room c"
  shows "good (console_move_end_locked c) t"
proof -
  have "console_move_end_locked c = (console_echo_cursor_locked 0x43 (ci_tail c) c)\<lparr>ci_cursor := ci_cursor c + ci_tail c,
      ci_tail := ci_tail c - ci_tail c\<rparr>"
    by (simp add: console_move_end_locked_def)
  then show ?thesis using right_good [OF assms, of "ci_tail c"] by (simp only: echo_cursor_moved le_refl)
qed

lemma apply_escape_good: "good c t \<Longrightarrow> echo_room c \<Longrightarrow> good (console_apply_escape_locked b c) t"
  unfolding console_apply_escape_locked_def Let_def
  using left_good right_good home_good end_good delete_good by (simp split: if_splits)

lemma good_escape: "good c t \<Longrightarrow> good (c\<lparr>ci_escape_state := e\<rparr>) t"
  by (erule good_cong) simp_all

lemma handle_escape_good: "good c t \<Longrightarrow> echo_room c \<Longrightarrow> good (snd (console_handle_escape_locked b c)) t"
  by (simp add: console_handle_escape_locked_def escape_end_def good_escape apply_escape_good split: console_escape_state.split)
    (auto elim: good_cong)

lemma finish_good:
  assumes "good c t" "echo_room c" "1 < CONSOLE_LINE_MAX_LEN c"
  shows "good (console_finish_line_locked c) t"
proof -
  let ?t = "term_feed (echo_bytes c) t"
  have m: "tm_mode ?t = TermText" and ok: "edit_ok c" using assms(1) by (simp_all add: displays_def good_def)
  have out: "good (console_reset_line_locked (console_echo_text_locked [13, 10] c1)) t"
    if e: "emits c0 xs c1" and xs: "xs = [] \<or> xs = [7]" and c0: "ci_rest (c0\<lparr>ci_queue := ci_queue c\<rparr>) = ci_rest c" "echo_bytes c0 = echo_bytes c"
      "echo_ok c0" for c0 c1 xs
  proof -
    have e2: "emits c0 (xs @ [13, 10]) (console_echo_text_locked [13, 10] c1)" by (rule emits_trans [OF e emits_text])
    have "length (echo_bytes c) + length (xs @ [13, 10]) < CONSOLE_ECHO_BUFFER_SIZE" using assms(2) xs by (auto simp: echo_room_def)
    then have ok2: "echo_ok (console_echo_text_locked [13, 10] c1)" and b: "echo_bytes (console_echo_text_locked [13, 10] c1) = echo_bytes c @ xs @ [13, 10]"
      using e2 c0(2,3) by (simp_all add: emits_def)
    have ln: "ci_line (console_echo_text_locked [13, 10] c1) = ci_line c"
      using emits_fields(9) [OF e2] c0(1) by (cases c; cases c0; simp add: ci_rest_def)
    have row: "tm_row (term_feed (xs @ [13, 10]) ?t) = [] \<and> tm_col (term_feed (xs @ [13, 10]) ?t) = 0 \<and> tm_mode (term_feed (xs @ [13, 10]) ?t) = TermText"
      using xs m by (auto simp: term_byte_def)
    have "ci_line c \<noteq> []" using assms(3) by (auto simp: CONSOLE_LINE_MAX_LEN_def)
    then show ?thesis using ok ok2 b ln row assms(3)
      by (simp add: good_def displays_def edit_ok_def console_reset_line_locked_def current_line_def line_length_def CONSOLE_LINE_MAX_LEN_def
          echo_ok_def echo_bytes_def)
  qed
  let ?q = "c\<lparr>ci_queue := ci_queue c @ [(ci_epoch c, take (line_length c) (ci_line c))]\<rparr>"
  have ring: "echo_ok c" using ok by (simp add: edit_ok_def)
  have "ci_rest (c\<lparr>ci_queue := ci_queue c\<rparr>) = ci_rest c" "ci_rest (?q\<lparr>ci_queue := ci_queue c\<rparr>) = ci_rest c" "echo_bytes ?q = echo_bytes c" "echo_ok ?q"
    using ring by (simp_all add: ci_rest_def echo_bytes_def echo_ok_def)
  then show ?thesis using out [OF emits_refl [of c]] out [OF emits_refl [of ?q]] out [OF emits_put [of c 7]] ring
    by (simp add: console_finish_line_locked_def Let_def)
qed

text \<open>A character that fits is written at the cursor, and the rest of the line after it.\<close>

lemma insert_good:
  assumes "good c t" "echo_room c" "isprint b"
  shows "good (console_insert_char_locked b c) t"
proof (cases "CONSOLE_LINE_MAX_LEN c - 1 \<le> line_length c")
  case True
  let ?c0 = "c\<lparr>ci_overflow := True\<rparr>"
  have g: "good ?c0 t" by (rule good_cong [OF assms(1)]) simp_all
  have "good (console_echo_put_locked 7 ?c0) t"
  proof (rule emitted_good [OF g emits_put])
    show "length (echo_bytes ?c0) + length [7 :: u8] < CONSOLE_ECHO_BUFFER_SIZE" using assms(2) by (simp add: echo_room_def echo_bytes_def)
  qed (use g in \<open>simp_all add: good_def displays_def term_byte_def\<close>)
  then show ?thesis using True assms(1) by (simp add: console_insert_char_locked_def)
next
  case False
  let ?n = "line_length c" and ?k = "ci_cursor c" and ?L = "current_line c" and ?t = "term_feed (echo_bytes c) t"
  let ?c0 = "c\<lparr>ci_line := (shift_right (ci_cursor c) (line_length c) (ci_line c))[ci_cursor c := b], ci_cursor := ci_cursor c + 1\<rparr>"
  let ?c1 = "console_echo_put_locked b ?c0"
  have ok: "edit_ok c" using assms(1) by (simp add: good_def)
  obtain j where t: "tm_row ?t = ?L @ replicate j 0x20" "tm_col ?t = ?k" "tm_mode ?t = TermText" "length ?L = ?n"
    using shown_row [OF ok] assms(1) by (auto simp: good_def)
  have len: "Suc ?n < length (ci_line c)" "?k \<le> ?n" "length (ci_line c) \<le> 500" "list_all isprint ?L" "echo_ok c"
    using ok False by (auto simp: edit_ok_def CONSOLE_LINE_MAX_LEN_def line_length_def)
  have n1: "line_length ?c0 = Suc ?n" by (simp add: line_length_def)
  have L1: "current_line ?c0 = take ?k ?L @ b # drop ?k ?L"
    using inserted_line [OF len(1,2), of b] n1 by (simp add: current_line_def)
  have print1: "list_all isprint (current_line ?c0)"
    unfolding L1 using len(4) assms(3) by (auto simp: list_all_iff dest: in_set_takeD in_set_dropD)
  have ok1: "edit_ok ?c0"
    using len n1 print1 shift_right_nth [of ?n "ci_line c" ?k] by (simp add: edit_ok_def CONSOLE_LINE_MAX_LEN_def echo_ok_def)
  have echo: "echo_bytes ?c0 = echo_bytes c" by (simp add: echo_bytes_def)
  have rest: "drop ?k ?L = [] \<longleftrightarrow> ci_tail c = 0" using t(4) by (simp add: line_length_def)
  let ?out = "[b] @ (if ci_tail c = 0 then [] else [0x1b, 0x5b, 0x73] @ drop ?k ?L @ [0x1b, 0x5b, 0x75])"
  have lr: "line_rest ?c1 = drop ?k ?L"
  proof -
    have "line_rest ?c1 = line_rest ?c0" by (simp add: line_rest_def emits_fields [OF emits_put])
    also have "\<dots> = drop ?k ?L" unfolding line_rest_current [OF ok1] L1 using t(4) len(2) by (simp add: min_def)
    finally show ?thesis .
  qed
  have "ci_tail ?c1 = ci_tail c" using emits_fields(7) [OF emits_put [of ?c0 b]] by simp
  then have e: "emits ?c0 ?out (console_insert_char_locked b c)"
    using False emits_put [of ?c0 b] lr
      emits_trans [OF emits_trans [OF emits_trans [OF emits_put [of ?c0 b] emits_text] emits_text] emits_text, of "[0x1b, 0x5b, 0x73]" "drop ?k ?L" "[0x1b, 0x5b, 0x75]"]
    by (simp add: console_insert_char_locked_def Let_def)
  have fits: "?k \<le> length (tm_row ?t)" using t len(2) by simp
  let ?t1 = "?t\<lparr>tm_row := take ?k (tm_row ?t) @ b # drop (Suc ?k) (tm_row ?t), tm_col := ?k + 1\<rparr>"
  have p: "term_byte b ?t = ?t1" using term_printable [OF t(3) assms(3)] fits t(2) by simp
  show ?thesis
  proof (rule emitted_good [OF assms(1) e ok1 echo])
    show "length (echo_bytes c) + length ?out < CONSOLE_ECHO_BUFFER_SIZE" using assms(2) t(4) by (auto simp: echo_room_def)
    show "displays ?c0 (term_feed ?out ?t)"
    proof (cases "ci_tail c = 0")
      case True
      then have "drop ?k ?L = []" "take ?k ?L = ?L" "?k = length ?L" using rest t(4) by (simp_all add: line_length_def)
      then have "term_feed ?out ?t = ?t1" "current_line ?c0 = ?L @ [b]" "tm_row ?t1 = ?L @ b # replicate (j - 1) 0x20"
        using True p t(1) L1 by simp_all
      then show ?thesis using t(3) by (simp only: displays_def) auto
    next
      case False
      let ?t2 = "?t1\<lparr>tm_saved := ?k + 1\<rparr>"
      have s: "term_feed [0x1b, 0x5b, 0x73] ?t1 = ?t2" using t(3) by (subst term_save) simp_all
      have pr: "list_all isprint (drop ?k ?L)" using len(4) by (auto simp: list_all_iff dest: in_set_dropD)
      have w: "term_feed (drop ?k ?L) ?t2 = ?t2\<lparr>tm_row := take (?k + 1) (tm_row ?t1) @ drop ?k ?L @ drop (?k + 1 + length (drop ?k ?L)) (tm_row ?t1),
          tm_col := ?k + 1 + length (drop ?k ?L)\<rparr>"
        using term_text [of ?t2 "drop ?k ?L"] pr t fits by simp
      have row: "take (?k + 1) (tm_row ?t1) @ drop ?k ?L @ drop (?k + 1 + length (drop ?k ?L)) (tm_row ?t1) = current_line ?c0 @ replicate (j - 1) 0x20"
        using L1 t(1,4) len(2) False by (simp add: line_length_def min_def)
      have "term_feed ?out ?t = term_feed [0x1b, 0x5b, 0x75] (term_feed (drop ?k ?L) ?t2)"
        using False p s by (simp only: term_feed_simps if_False)
      also have "\<dots> = (term_feed (drop ?k ?L) ?t2)\<lparr>tm_col := ?k + 1\<rparr>"
        unfolding w using t(3) by (subst term_restore) simp_all
      finally have f: "term_feed ?out ?t = (term_feed (drop ?k ?L) ?t2)\<lparr>tm_col := ?k + 1\<rparr>" .
      show ?thesis unfolding displays_def f w row using t(3) by auto
    qed
  qed
qed

text \<open>Any byte from the port keeps the terminal right.\<close>

lemma input_byte_good:
  assumes "good c t" "echo_room c" "1 < CONSOLE_LINE_MAX_LEN c"
  shows "good (console_input_byte_locked b c) t"
proof -
  let ?c1 = "c\<lparr>ci_last_was_cr := False\<rparr>"
  have g: "good ?c1 t" "echo_room ?c1"
    using assms(2) by (auto intro: good_cong [OF assms(1)] simp: echo_room_def echo_bytes_def line_length_def)
  have x: "good (console_finish_line_locked c) t" by (rule finish_good [OF assms])
  have f: "good ((console_finish_line_locked c)\<lparr>ci_last_was_cr := v\<rparr>) t" for v by (rule good_cong [OF x]) simp_all
  have e: "good (?c1\<lparr>ci_escape_state := s, ci_escape_has_value := h, ci_escape_ignore_value := i, ci_escape_value := n\<rparr>) t" for s h i n
    by (rule good_cong [OF g(1)]) simp_all
  show ?thesis
    using f e [where s = CONSOLE_ESCAPE_START and h = False and i = False and n = 0] g handle_escape_good [OF g] backspace_good [OF g] insert_good [OF g]
    by (simp add: console_input_byte_locked_def Let_def)
qed

end
