(* ===== verification/ConsoleSession.thy ===== *)
theory ConsoleSession
  imports ConsoleInputCorrect
begin

text \<open>
  A session at the serial console: the port takes the echoed bytes in order, and what the terminal shows when they have been
  sent is the line that a carriage return executes.
\<close>

section \<open>From the ring to the wire\<close>

text \<open>The bytes that the port took, from the bytes it was offered and its answers.\<close>

fun fills :: "console_action list \<Rightarrow> bytes list" where
  "fills [] = []"
| "fills (UartFill xs # acts) = xs # fills acts"
| "fills (_ # acts) = fills acts"

definition wire :: "(bool \<times> (nat \<Rightarrow> int)) list \<Rightarrow> console_action list \<Rightarrow> bytes" where
  "wire rounds acts = concat (map2 (\<lambda>(ready, sent_of) xs. take (nat (sent_of (length xs))) xs) rounds (fills acts))"

definition port_law :: "(bool \<times> (nat \<Rightarrow> int)) list \<Rightarrow> bool" where
  "port_law rounds \<longleftrightarrow> list_all (\<lambda>(ready, sent_of). \<forall>n \<le> CONSOLE_ECHO_BUFFER_SIZE. sent_of n \<le> int n) rounds"

lemma wire_fill:
  "wire ((ready, sent_of) # rounds) (UartFill xs # acts) = take (nat (sent_of (length xs))) xs @ wire rounds acts"
  by (simp add: wire_def)

lemma wire_rest: "wire rounds [] = []" "wire rounds [UartTxDisable] = []"
  by (simp_all add: wire_def)

lemma flush_sends:
  assumes "echo_ok c" "port_law rounds" "console_echo_flush rounds c = (acts, c1)"
  shows "echo_bytes c = wire rounds acts @ echo_bytes c1 \<and> echo_ok c1 \<and> ci_rest c1 = ci_rest c \<and> (\<exists>k. c1 = c\<lparr>ci_echo_tail := k\<rparr>)"
  using assms
proof (induction rounds arbitrary: c acts c1)
  case (Cons round rounds)
  obtain ready sent_of where rd: "round = (ready, sent_of)" by fastforce
  note prems = Cons.prems [unfolded rd]
  let ?n = CONSOLE_ECHO_BUFFER_SIZE and ?h = "ci_echo_head c" and ?r = "ci_echo_tail c"
  let ?k = "if ?r < ?h then ?h - ?r else CONSOLE_ECHO_BUFFER_SIZE - ?r"
  let ?sent = "nat (sent_of ?k)" and ?fill = "take ?k (drop ?r (ci_echo c))"
  let ?c1 = "c\<lparr>ci_echo_tail := (?r + ?sent) mod ?n\<rparr>"
  have lt: "?r < ?n" "?h < ?n" "length (ci_echo c) = ?n" using prems(1) by (simp_all add: echo_ok_def)
  show ?case
  proof (cases "ready \<and> console_echo_has_data_locked c")
    case False
    then show ?thesis using prems by (cases c) (auto simp: wire_def split: if_splits)
  next
    case True
    then have ne: "?h \<noteq> ?r" by (simp add: console_echo_has_data_locked_def)
    have k: "?k \<le> ring_used ?n ?r ?h" "length ?fill = ?k" using lt ne by (auto simp: ring_used_cases)
    have "?k \<le> ?n" using lt by auto
    moreover have "\<forall>n \<le> ?n. sent_of n \<le> int n" using prems(2) by (simp add: port_law_def)
    ultimately have "sent_of ?k \<le> int ?k" by blast
    then have s: "?sent \<le> ?k" by (simp only: nat_le_iff)
    have taken: "take ?sent ?fill = take ?sent (echo_bytes c)"
    proof (rule nth_equalityI)
      show "length (take ?sent ?fill) = length (take ?sent (echo_bytes c))"
        unfolding length_take [of ?sent] k(2) min_absorb2 [OF s]
        by (simp only: echo_bytes_def length_ring_list min_absorb2 [OF le_trans [OF s k(1)]])
      fix i assume "i < length (take ?sent ?fill)"
      then have "i < ?k" "i < ?sent" using s by auto
      moreover have "?r + i < ?n" using \<open>i < ?k\<close> lt by (auto split: if_splits)
      ultimately show "take ?sent ?fill ! i = take ?sent (echo_bytes c) ! i"
        using k(1) lt by (simp add: echo_bytes_def ring_list_def)
    qed
    have dropped: "echo_bytes ?c1 = drop ?sent (echo_bytes c)"
      using ring_drop [OF lt(1,2), of ?sent "ci_echo c"] s k(1) by (simp add: echo_bytes_def)
    have ok1: "echo_ok ?c1" "ci_rest ?c1 = ci_rest c" using prems(1) by (simp_all add: echo_ok_def ci_rest_def)
    have split: "echo_bytes c = take ?sent ?fill @ echo_bytes ?c1" unfolding taken dropped by simp
    show ?thesis
    proof (cases "0 < sent_of ?k \<and> console_echo_has_data_locked ?c1")
      case more: True
      obtain acts2 c2 where f: "console_echo_flush rounds ?c1 = (acts2, c2)" by fastforce
      have law: "port_law rounds" using prems(2) by (simp add: port_law_def)
      have out: "acts = UartFill ?fill # acts2" "c1 = c2" using prems(3) True more f by (simp_all add: Let_def)
      have "echo_bytes ?c1 = wire rounds acts2 @ echo_bytes c2 \<and> echo_ok c2 \<and> ci_rest c2 = ci_rest ?c1 \<and> (\<exists>k. c2 = ?c1\<lparr>ci_echo_tail := k\<rparr>)"
        by (rule Cons.IH [OF ok1(1) law f])
      then show ?thesis unfolding out rd wire_fill k(2) using split ok1 by auto
    next
      case last: False
      have c: "\<exists>k. c = c\<lparr>ci_echo_tail := k\<rparr>" by (rule exI [of _ "ci_echo_tail c"]) simp
      show ?thesis
      proof (cases "0 < sent_of ?k")
        case True
        then have "acts = [UartFill ?fill, UartTxDisable]" "c1 = ?c1"
          using prems(3) last \<open>ready \<and> console_echo_has_data_locked c\<close> by (simp_all add: Let_def)
        then show ?thesis unfolding rd by (simp only: wire_fill wire_rest k(2)) (use split ok1 in auto)
      next
        case False
        have "console_echo_flush ((ready, sent_of) # rounds) c = ([UartFill ?fill], c)"
          unfolding console_echo_flush.simps Let_def if_not_P [OF False]
          using False \<open>ready \<and> console_echo_has_data_locked c\<close> by (simp only: simp_thms if_True if_False not_less)
        with prems(3) have e: "(acts, c1) = ([UartFill ?fill], c)" by (rule trans [OF sym])
        have "acts = [UartFill ?fill]" "c1 = c" by (rule Pair_inject [OF e], assumption)+
        moreover have "?sent = 0" by (rule nat_0_iff [THEN iffD2]) (use False in \<open>simp only: not_less\<close>)
        ultimately have out: "wire (round # rounds) acts = []" "c1 = c" by (simp_all only: rd wire_fill wire_rest k(2) take_0 append_Nil)
        show ?thesis unfolding out using prems(1) c by (metis append_Nil)
      qed
    qed
  qed
next
  case Nil
  have "\<exists>k. c = c\<lparr>ci_echo_tail := k\<rparr>" by (rule exI [of _ "ci_echo_tail c"]) simp
  then show ?case using Nil.prems by (simp add: wire_rest)
qed

section \<open>A session at the console\<close>

lemma echo_text_line [simp]: "ci_line (console_echo_text_locked xs c) = ci_line c"
  by (rule emits_fields(9) [OF emits_text])

lemma echo_put_line [simp]: "ci_line (console_echo_put_locked b c) = ci_line c"
  by (rule emits_fields(9) [OF emits_put])

lemma echo_cursor_line [simp]: "ci_line (console_echo_cursor_locked d n c) = ci_line c"
  by (simp add: console_echo_cursor_locked_def)

lemma length_shift_right [simp]: "length (shift_right cursor i line) = length line"
  by (induction cursor i line rule: shift_right.induct) (subst shift_right.simps, simp)

lemma length_shift_left [simp]: "length (shift_left cursor len line) = length line"
proof -
  have "length (fold (\<lambda>i line. line[i := line ! (i + 1)]) is line) = length line" for "is" and line :: bytes
    by (induction "is" arbitrary: line) simp_all
  then show ?thesis by (simp add: shift_left_def)
qed

lemma redraw_line [simp]: "ci_line (redraw_rest c) = ci_line c"
  by (simp add: redraw_rest_def)

lemma edit_keeps_size:
  "length (ci_line (console_insert_char_locked b c)) = length (ci_line c)"
  "length (ci_line (console_backspace_locked c)) = length (ci_line c)"
  "length (ci_line (console_delete_locked c)) = length (ci_line c)"
  "length (ci_line (console_move_home_locked c)) = length (ci_line c)"
  "length (ci_line (console_move_end_locked c)) = length (ci_line c)"
  "length (ci_line (console_finish_line_locked c)) = length (ci_line c)"
  by (simp_all add: console_insert_char_locked_def console_backspace_locked_def console_delete_locked_def console_move_home_locked_def
      console_move_end_locked_def console_finish_line_locked_def console_reset_line_locked_def Let_def)

lemma escape_keeps_size: "length (ci_line (snd (console_handle_escape_locked b c))) = length (ci_line c)"
  by (simp add: console_handle_escape_locked_def escape_end_def console_apply_escape_locked_def edit_keeps_size Let_def
      split: console_escape_state.split)

lemma byte_keeps_size: "CONSOLE_LINE_MAX_LEN (console_input_byte_locked b c) = CONSOLE_LINE_MAX_LEN c"
  by (simp add: console_input_byte_locked_def CONSOLE_LINE_MAX_LEN_def edit_keeps_size escape_keeps_size Let_def)

text \<open>
  The console has been opened; then the port delivers bytes, each when the echo ring has room for the answer, the
  interrupt fills the port, and the console thread takes lines. Nothing else is written to the terminal meanwhile.
\<close>

inductive console_run :: "nat \<Rightarrow> console_input \<Rightarrow> terminal \<Rightarrow> bool" for line_max :: nat where
  opened: "console_serial_start device_ready ret (console_boot line_max) = (acts, c) \<Longrightarrow> ci_active c \<Longrightarrow>
    console_run line_max c \<lparr>tm_row = [], tm_col = 0, tm_saved = 0, tm_mode = TermText\<rparr>"
| received: "console_run line_max c t \<Longrightarrow> echo_room c \<Longrightarrow> console_run line_max (console_uart_receive [b] c) t"
| sent: "console_run line_max c t \<Longrightarrow> port_law rounds \<Longrightarrow> console_echo_flush rounds c = (acts, c1) \<Longrightarrow>
    console_run line_max c1 (term_feed (wire rounds acts) t)"
| taken: "console_run line_max c t \<Longrightarrow> console_next_line c = (line, c1) \<Longrightarrow> console_run line_max c1 t"

lemma run_good:
  assumes "console_run line_max c t" "2 \<le> line_max" "line_max \<le> 500"
  shows "good c t \<and> CONSOLE_LINE_MAX_LEN c = line_max"
  using assms(1)
proof induction
  case (opened device_ready ret acts c)
  then show ?case using assms(2,3)
    by (auto simp: console_serial_start_def console_input_install_def console_boot_def console_reset_line_locked_def Let_def good_def edit_ok_def
        displays_def line_length_def current_line_def CONSOLE_LINE_MAX_LEN_def echo_ok_def echo_bytes_def split: if_splits)
next
  case (received c t b)
  then show ?case using input_byte_good [of c t b] byte_keeps_size [of b c] assms(2) by (simp add: console_uart_receive_def)
next
  case (sent c t rounds acts c1)
  then have "echo_ok c" by (simp add: good_def edit_ok_def)
  from flush_sends [OF this sent.hyps(2,3)] obtain k where f: "echo_bytes c = wire rounds acts @ echo_bytes c1" "echo_ok c1"
    "c1 = c\<lparr>ci_echo_tail := k\<rparr>" by blast
  have e: "term_feed (echo_bytes c1) (term_feed (wire rounds acts) t) = term_feed (echo_bytes c) t" unfolding f(1) by simp
  have same: "current_line c1 = current_line c" "ci_cursor c1 = ci_cursor c" "line_length c1 = line_length c" "CONSOLE_LINE_MAX_LEN c1 = CONSOLE_LINE_MAX_LEN c"
    unfolding f(3) by (simp_all add: current_line_def line_length_def CONSOLE_LINE_MAX_LEN_def)
  show ?case using sent.IH f(2) by (simp add: good_def e displays_def edit_ok_def same)
next
  case (taken c t line c1)
  then have "good c1 t"
    by (intro good_cong [of c t c1]) (auto simp: console_next_line_def split: list.splits)
  then show ?case using taken by (auto simp: console_next_line_def CONSOLE_LINE_MAX_LEN_def split: list.splits)
qed

text \<open>Claim C40. When the echo has been sent, the terminal shows the line with the cursor at its place and nothing else but
  blanks, and the line that a carriage return hands to the console thread is the one on the terminal.\<close>

theorem console_executes_what_is_shown:
  assumes "console_run line_max c t" "2 \<le> line_max" "line_max \<le> 500" "echo_bytes c = []" "\<not> ci_overflow c"
    and "length (ci_queue c) < CONSOLE_LINE_QUEUE_DEPTH"
  shows "tm_mode t = TermText \<and> tm_col t = ci_cursor c \<and> (\<exists>k. tm_row t = take (line_length c) (tm_row t) @ replicate k 0x20) \<and>
    ci_queue (console_input_byte_locked 13 c) = ci_queue c @ [(ci_epoch c, take (line_length c) (tm_row t))]"
proof -
  have g: "edit_ok c" "displays c t" using run_good [OF assms(1-3)] assms(4) by (simp_all add: good_def)
  obtain k where t: "tm_row t = current_line c @ replicate k 0x20" "length (current_line c) = line_length c"
    using shown_row [OF g] by metis
  have "ci_queue (console_echo_text_locked xs c0) = ci_queue c0" for xs c0 by (rule emits_fields(10) [OF emits_text])
  then have "ci_queue (console_input_byte_locked 13 c) = ci_queue c @ [(ci_epoch c, current_line c)]" using assms(5,6)
    by (simp add: console_input_byte_locked_def console_finish_line_locked_def console_reset_line_locked_def Let_def current_line_def)
  then show ?thesis using g(2) t by (simp add: displays_def)
qed

text \<open>One typed letter: the terminal shows it and the carriage return queues it.\<close>

definition typed_once :: "console_input" where
  "typed_once = snd (console_serial_start True None (console_boot 8))"

theorem console_executes_what_is_shown_witness:
  "\<exists>c t. console_run 8 c t \<and> tm_col t = 1 \<and> take (line_length c) (tm_row t) = [0x61] \<and>
     ci_queue (console_input_byte_locked 13 c) = [(0, [0x61])]"
proof -
  let ?c0 = typed_once and ?t0 = "\<lparr>tm_row = [], tm_col = 0, tm_saved = 0, tm_mode = TermText\<rparr>"
  let ?c1 = "console_uart_receive [0x61] ?c0" and ?rounds = "[(True, int)]"
  let ?c2 = "?c1\<lparr>ci_echo_tail := 1\<rparr>"
  note start = typed_once_def console_serial_start_def console_input_install_def console_boot_def console_reset_line_locked_def Let_def
  have eight: "replicate 8 (0 :: u8) = [0, 0, 0, 0, 0, 0, 0, 0]" by (simp add: eval_nat_numeral)
  have take_first: "take (Suc 0) (xs[0 := x]) = [x]" if "xs \<noteq> []" for xs and x :: u8 using that by (cases xs) simp_all
  have run0: "console_run 8 ?c0 ?t0"
    by (rule opened [of True None 8 "fst (console_serial_start True None (console_boot 8))"]) (simp_all add: start)
  have room: "echo_room ?c0" by (simp add: start echo_room_def echo_bytes_def line_length_def)
  have run1: "console_run 8 ?c1 ?t0" by (rule received [OF run0 room])
  have c1: "ci_line ?c1 = [0x61, 0, 0, 0, 0, 0, 0, 0]" "ci_cursor ?c1 = 1" "ci_tail ?c1 = 0" "ci_echo_head ?c1 = 1" "ci_echo_tail ?c1 = 0"
    "ci_queue ?c1 = []" "ci_overflow ?c1 = False" "ci_epoch ?c1 = 0" "take 1 (ci_echo ?c1) = [0x61]"
    by (simp_all add: start console_uart_receive_def console_input_byte_locked_def isprint_def console_insert_char_locked_def line_length_def
        CONSOLE_LINE_MAX_LEN_def console_echo_put_locked_def shift_right.simps eight take_first)
  have f: "console_echo_flush ?rounds ?c1 = ([UartFill [0x61], UartTxDisable], ?c2)"
    using c1 by (simp add: console_echo_has_data_locked_def Let_def)
  have law: "port_law ?rounds" by (simp add: port_law_def)
  have run2: "console_run 8 ?c2 (term_feed (wire ?rounds [UartFill [0x61], UartTxDisable]) ?t0)" by (rule sent [OF run1 law f])
  have t: "term_feed (wire ?rounds [UartFill [0x61], UartTxDisable]) ?t0 = \<lparr>tm_row = [0x61], tm_col = 1, tm_saved = 0, tm_mode = TermText\<rparr>"
    by (simp add: wire_def term_byte_def term_print_def)
  have "echo_bytes ?c2 = []" "\<not> ci_overflow ?c2" "length (ci_queue ?c2) < CONSOLE_LINE_QUEUE_DEPTH" using c1 by (simp_all add: echo_bytes_def)
  from console_executes_what_is_shown [OF run2 _ _ this]
  show ?thesis using run2 c1 unfolding t
    by (intro exI [of _ ?c2] exI [of _ "\<lparr>tm_row = [0x61], tm_col = 1, tm_saved = 0, tm_mode = TermText\<rparr>"]) (simp add: line_length_def)
qed

end
