(* ===== verification/Spec2Isabelle.thy ===== *)
theory Spec2Isabelle
  imports Prelude AutoChannelPolicy Storage TrackerRoster EventProtocol TrackerEventsProps EsbOtaProps TdmaCorrect PacketSequenceCorrect LossControllerCorrect DataCollect HidFifoCorrect Hid ChannelChangeCorrect PairingForgets AutoChannelRadio AutoChannelStatus AutoChannelEnds WomWitness ReceiverOtaWitness HostCommandsProps DataCollectHidCorrect LedCorrect ConsoleSession
begin

text \<open>
  \<^bold>\<open>The receiver of the SlimeVR trackers.\<close> A USB dongle pairs with up to sixteen trackers, shares one
  radio channel among them in time slots, passes their reports to the host, relays firmware images and commands to
  them, and moves everybody to another channel when the present one is bad. This library models the logic
  of the C files under \<open>src/\<close> and proves what makes it correct.

  \<^bold>\<open>Parts and theories.\<close>
  \<^item> \<open>Prelude\<close>: words, byte lists, bit masks, list updates, sequence arithmetic, the error numbers, and the interfaces
    (locales) that several components share; \<open>Zephyr\<close>: the functions of the operating system that are
    arguments of the model.
  \<^item> \<open>AutoChannelPolicy\<close>: \<open>connection/auto_channel_policy.c\<close>, the choice of the next channel.
  \<^item> \<open>Storage\<close>: the flash settings of \<open>system/system.c\<close>; \<open>TrackerRoster\<close>: \<open>connection/tracker_roster.c\<close>, the stored
    list of trackers with the migration of the old format.
  \<^item> \<open>EventProtocol\<close>: \<open>connection/tracker_event_protocol.h\<close>; \<open>TrackerEvents\<close> with \<open>TrackerEventsCorrect\<close> and
    \<open>TrackerEventsProps\<close>: \<open>tracker_events.c\<close>, the service that removes duplicates and reports tracker events.
  \<^item> \<open>EsbOta\<close>, \<open>EsbOtaCorrect\<close>, \<open>EsbOtaProps\<close>: \<open>esb_ota.c\<close>, the relay of firmware images to up to four trackers.
  \<^item> \<open>EsbConstants\<close>, \<open>EsbState\<close>, \<open>AutoLoss\<close>: the constants and the static state of \<open>connection/esb.c\<close> as the record
    \<open>esb\<close>, the gate in front of radio operations and the evidence of packet loss; \<open>Tdma\<close>, \<open>TdmaCorrect\<close>, \<open>TdmaFrames\<close>:
    membership, slot widths and the layout; \<open>PacketSequence\<close>, \<open>PacketSequenceCorrect\<close>: packet numbers and
    the repetition of raw data; \<open>LossController\<close>, \<open>LossControllerCorrect\<close>: the ladder of rates;
    \<open>RemoteCommands\<close>: the commands queued for trackers; \<open>ChannelChange\<close>, \<open>ChannelChangeCorrect\<close>: the migration to
    another channel; \<open>Pairing\<close>, \<open>PairingCorrect\<close>, \<open>PairingForgets\<close>: adding and removing trackers across all
    components.
  \<^item> \<open>Reception\<close>: the event handler of the radio in \<open>connection/esb.c\<close>, from a received packet to the host report, the
    acknowledgement payload and the queues of the main loop; \<open>ReceptionCorrect\<close> (retransmissions), \<open>CompositeCorrect\<close>
    (composite packets), \<open>PongCorrect\<close> (answers to a PING), \<open>ReceptionTyped\<close> (shape of the state), \<open>WomTransaction\<close>
    (wake-on-motion requests); the witnesses of the long runs are in \<open>ReceptionWitness\<close> and \<open>WomWitness\<close>.
  \<^item> \<open>RadioUnit\<close>: the start and the change of the radio; \<open>AutoChannel\<close>, \<open>AutoChannelStatus\<close>: \<open>connection/auto_channel.c\<close>, the worker
    that judges the losses and looks at other channels; \<open>AutoChannelLoss\<close>, \<open>AutoChannelCorrect\<close>, \<open>AutoChannelRadio\<close> and
    \<open>AutoChannelEnds\<close>: the evidence, when a survey starts, that the radio is given back, and that a survey ends.
  \<^item> \<open>ReceiverOta\<close>: \<open>receiver_ota.c\<close>, the update of the receiver itself, down to the words that the routine in
    memory copies over the running firmware; \<open>ReceiverOtaCopy\<close> (the copy), \<open>ReceiverOtaCorrect\<close> (the layout), \<open>ReceiverOtaPipe\<close>,
    \<open>ReceiverOtaWriter\<close>, \<open>ReceiverOtaHandler\<close>, \<open>ReceiverOtaReports\<close>, \<open>ReceiverOtaRun\<close> (the two page buffers between the report
    handler and the writer thread), \<open>ReceiverOtaProps\<close> and \<open>ReceiverOtaWitness\<close>.
  \<^item> \<open>HostCommands\<close>, \<open>HostCommandsCorrect\<close>, \<open>RemoteCompletion\<close>, \<open>HostCommandsProps\<close>: \<open>rcv_cmd.c\<close>, the commands of the host
    for the receiver and the trackers, and their completion.
  \<^item> \<open>DataCollect\<close>: \<open>data_collect.c\<close>, the second serial port for raw data; \<open>DataCollectHid\<close>, \<open>DataCollectHidCorrect\<close>:
    \<open>data_collect_hid.c\<close>, the build that sends the raw data as host reports; \<open>HidFifo\<close>, \<open>HidFifoCorrect\<close>, \<open>Hid\<close>: the
    lock-free queue of host reports and the reports of \<open>hid.c\<close>.
  \<^item> \<open>ConsoleInput\<close>, \<open>ConsoleInputCorrect\<close>, \<open>ConsoleSession\<close>: the line editor of \<open>console.c\<close> against a terminal;
    \<open>Led\<close>, \<open>LedCorrect\<close>: \<open>system/led.c\<close> and \<open>system/status.c\<close>; \<open>Ring\<close>: the ring buffers that two components share.

  \<^bold>\<open>How the code is translated.\<close> The static variables of a file are a record, named like the variables; a function
  that changes them takes the record and returns it changed, under the name of the C function. Fixed width
  integers are words, so that counters and time stamps wrap as in C; 64-bit uptimes are integers. Error returns are
  \<open>errno option\<close> (none is success) or a sum. A clock reading is an argument, a second reading a second argument. A
  critical section under \<open>irq_lock\<close>, a spinlock or a mutex is one definition; where the code gives up the lock in
  the middle, what other contexts do meanwhile is a function argument (\<open>between\<close>, \<open>during\<close>), and the interleavings are
  the runs of an inductive step relation (\<open>ev_step\<close>, \<open>ota_section\<close>, \<open>channel_step\<close>, \<open>roster_step\<close>, \<open>led_run\<close>, \<open>console_run\<close>, the steps of
  \<open>HidFifoCorrect\<close> at the level of single shared accesses). Work items, host report handlers and the radio event handler are
  atomic steps where the code runs them to their end in one context. Calls into other components are actions, values that the
  caller's model returns and \<open>Pairing\<close> runs on the state of the whole receiver. Log output is left out.

  \<^bold>\<open>What is assumed.\<close> Code that is not in the repository is an argument: the flash file system (\<open>nvs_ops\<close>, with
  \<open>nvs_law\<close>: a successful write is read back and other keys keep their values; \<open>nvs_atomic\<close>: a failed write
  leaves the old value, as its log structure documents), the message queues (\<open>msgq_law\<close>: first in, first out), the radio
  driver (\<open>radio_law\<close>: what its calls set when they succeed; what the driver delivers and accepts is an argument of the reception)
  and the checksums of Zephyr (\<open>zephyr_law\<close>). For the update of the receiver: the flash (\<open>flash_law\<close>: erased bytes are ones, a
  write is read back), a build whose partitions do not overlap (\<open>build_ok\<close>), and the lowest priority of the writer thread,
  which therefore runs only while the report handler waits. For the console: a terminal that understands the few
  sequences the editor writes, to which nobody else writes, a line buffer of at most 500 bytes and room in the echo ring
  when a byte arrives. For the lights: fewer than \<open>2 ^ 32\<close> changes of the selection. Each law has an instance
  on which the witnesses run.

  \<^bold>\<open>What the lemmas show.\<close> Formats and settings survive the round trip (roster, events, channel encoding). The event
  service reports every event once, in order, and never more than the subscription asks for. The relay
  sends every target exactly the bytes of the host, in order, and a tombstone keeps an aborted tracker quiet. Members of the
  layout own different slots; layouts are spaced; the controller moves its ladder one rung on fair evidence. The
  loss statistics and the requests for repeated raw packets equal reference definitions. The queue of host reports is
  linearizable under every interleaving. The channel in memory, in flash and on air agree, or a
  fault is recorded and the gate is shut. The roster in memory is what a restart loads, over all failures, and a removed tracker
  is forgotten everywhere. A report reaches the host once however often the radio repeats it, a composite packet arrives as its
  records, and a wake-on-motion success is reported only after the tracker's confirmation. A survey of the channels starts only on
  evidence, ends, and gives the radio back. An update of the receiver leaves the running firmware untouched until a whole image has
  been verified and then installs exactly that image. Commands of the host complete in order, and each ends. Raw data reports keep
  their order while the device owns one. The light shows the selection, and the console executes the line the terminal shows.

  \<^bold>\<open>Bounds.\<close> No definition needs fuel: loops run over lists of slots, packets or bytes whose length is fixed by
  the state, and the loops that wait for other contexts are steps of a relation. The retry loop of the
  lock-free queue is a relation, so that an attempt that fails is a step of its own.

  \<^bold>\<open>Not modelled.\<close> The text commands of the console (\<open>console_thread\<close> after it has taken a line, \<open>console_send.c\<close>,
  \<open>parse_args.c\<close>): they print, and call the operations of the other components, which are modelled. The output of statistics.
  Diagnostics that are off by default, the energy scan (\<open>rssi_scan.c\<close>), buttons, reset reasons, USB descriptors and start-up are
  register access and calls into Zephyr.
\<close>

end
